(* ===== verification/Prelude.thy ===== *)
theory Prelude
  imports Main "HOL-Library.Word"
begin

text \<open>
  Shared vocabulary of the development: the Python exceptions the server raises, results
  (\<open>exn + 'a\<close>), the state-and-exception operations in which the stateful parts are
  written, Python strings as lists of code points, and the generic lemmas the component
  theories use.

  An operation of type \<open>('s, 'a) op\<close> maps a state to a result and a state. An exception
  does not roll the state back: what was mutated before a \<^verbatim>\<open>raise\<close> stays
  mutated, exactly as in Python.
\<close>

unbundle bit_operations_syntax

named_theorems op_defs \<open>unfolding of the state operations\<close>
named_theorems keeps_intros \<open>preservation rules for the state operations\<close>

section \<open>Exceptions and results\<close>

text \<open>
  The exceptions the modelled code raises. Two are not Python's: \<open>Hang\<close> is the outcome of a
  loop that never ends, \<open>Crash\<close> the death of the process, which no handler sees.
\<close>

datatype exn =
    IndexError | KeyError | ValueError | AssertionError | StructError
  | OverflowError | UnicodeDecodeError | UnicodeEncodeError | ZeroDivisionError
  | RuntimeError | AttributeError | TypeError | OSError | DatabaseError | DuplicateScoreError
  | ReplayParseError | OsuFileParseError | BeatmapDifficultyError | BeatmapIdAllocationError | ZipError
  | CancelledError | Hang | Crash

type_synonym 'a result = "exn + 'a"

definition bindE :: "'a result \<Rightarrow> ('a \<Rightarrow> 'b result) \<Rightarrow> 'b result" where
  "bindE r k = (case r of Inl e \<Rightarrow> Inl e | Inr x \<Rightarrow> k x)"

fun mapE :: "('a \<Rightarrow> 'b result) \<Rightarrow> 'a list \<Rightarrow> 'b list result" where
  "mapE f [] = Inr []"
| "mapE f (x # xs) = bindE (f x) (\<lambda>y. bindE (mapE f xs) (\<lambda>ys. Inr (y # ys)))"

section \<open>Operations with state and exceptions\<close>

type_synonym ('s, 'a) op = "'s \<Rightarrow> 'a result \<times> 's"

definition retn :: "'a \<Rightarrow> ('s, 'a) op" where
  "retn x = (\<lambda>s. (Inr x, s))"

definition raise :: "exn \<Rightarrow> ('s, 'a) op" where
  "raise e = (\<lambda>s. (Inl e, s))"

definition bnd :: "('s, 'a) op \<Rightarrow> ('a \<Rightarrow> ('s, 'b) op) \<Rightarrow> ('s, 'b) op" where
  "bnd m k = (\<lambda>s. case m s of (Inl e, s') \<Rightarrow> (Inl e, s') | (Inr x, s') \<Rightarrow> k x s')"

definition thn :: "('s, 'a) op \<Rightarrow> ('s, 'b) op \<Rightarrow> ('s, 'b) op" where
  "thn m k = bnd m (\<lambda>_. k)"

definition gets :: "('s \<Rightarrow> 'a) \<Rightarrow> ('s, 'a) op" where
  "gets f = (\<lambda>s. (Inr (f s), s))"

definition modify :: "('s \<Rightarrow> 's) \<Rightarrow> ('s, unit) op" where
  "modify f = (\<lambda>s. (Inr (), f s))"

definition lift_result :: "'a result \<Rightarrow> ('s, 'a) op" where
  "lift_result r = (\<lambda>s. (r, s))"

definition skip :: "('s, unit) op" where
  "skip = retn ()"

text \<open>\<^verbatim>\<open>assert x is not None\<close>, then the value.\<close>

definition the_or :: "exn \<Rightarrow> 'a option \<Rightarrow> ('s, 'a) op" where
  "the_or e v = (case v of None \<Rightarrow> raise e | Some x \<Rightarrow> retn x)"

text \<open>\<^verbatim>\<open>for x in xs: body\<close>\<close>

fun foreach :: "'a list \<Rightarrow> ('a \<Rightarrow> ('s, unit) op) \<Rightarrow> ('s, unit) op" where
  "foreach [] f = skip"
| "foreach (x # xs) f = thn (f x) (foreach xs f)"

text \<open>\<^verbatim>\<open>try: m except e: h\<close>: the state changes \<open>m\<close> made before the exception stay.\<close>

definition catch :: "('s, 'a) op \<Rightarrow> exn \<Rightarrow> ('s, 'a) op \<Rightarrow> ('s, 'a) op" where
  "catch m e h = (\<lambda>s. case m s of (Inl e', s') \<Rightarrow> if e' = e then h s' else (Inl e', s')
                                 | (Inr x, s') \<Rightarrow> (Inr x, s'))"

lemmas op_unfold [op_defs] =
  retn_def raise_def bnd_def thn_def gets_def modify_def lift_result_def skip_def the_or_def
  catch_def

definition exec :: "('s, 'a) op \<Rightarrow> 's \<Rightarrow> 's" where
  "exec m s = snd (m s)"

definition outcome :: "('s, 'a) op \<Rightarrow> 's \<Rightarrow> 'a result" where
  "outcome m s = fst (m s)"

text \<open>
  \<open>keeps P m\<close>: the operation \<open>m\<close> preserves \<open>P\<close>, whether it returns or raises. The rules
  of \<open>keeps_intros\<close> follow the shape of an operation, so that the preservation of an
  invariant by a handler reduces to its primitive updates.
\<close>

definition keeps :: "('s \<Rightarrow> bool) \<Rightarrow> ('s, 'a) op \<Rightarrow> bool" where
  "keeps P m \<longleftrightarrow> (\<forall>s. P s \<longrightarrow> P (snd (m s)))"

lemma keepsD: "keeps P m \<Longrightarrow> P s \<Longrightarrow> m s = (r, s') \<Longrightarrow> P s'"
  by (auto simp: keeps_def dest: spec [of _ s])

lemma keeps_exec: "keeps P m \<Longrightarrow> P s \<Longrightarrow> P (exec m s)"
  by (simp add: keeps_def exec_def)

lemma keeps_retn [keeps_intros]: "keeps P (retn x)"
  by (simp add: keeps_def op_defs)

lemma keeps_raise [keeps_intros]: "keeps P (raise e)"
  by (simp add: keeps_def op_defs)

lemma keeps_skip [keeps_intros]: "keeps P skip"
  by (simp add: keeps_def op_defs)

lemma keeps_gets [keeps_intros]: "keeps P (gets f)"
  by (simp add: keeps_def op_defs)

lemma keeps_lift [keeps_intros]: "keeps P (lift_result r)"
  by (simp add: keeps_def op_defs)

lemma keeps_the_or [keeps_intros]: "keeps P (the_or e v)"
  by (cases v) (simp_all add: keeps_def op_defs)

lemma keeps_bnd [keeps_intros]: "keeps P m \<Longrightarrow> (\<And>x. keeps P (k x)) \<Longrightarrow> keeps P (bnd m k)"
  by (fastforce simp: keeps_def op_defs split: prod.splits sum.splits)

lemma keeps_thn [keeps_intros]: "keeps P m \<Longrightarrow> keeps P k \<Longrightarrow> keeps P (thn m k)"
  by (simp add: thn_def keeps_bnd)

lemma keeps_if [keeps_intros]: "(b \<Longrightarrow> keeps P m) \<Longrightarrow> (\<not> b \<Longrightarrow> keeps P k) \<Longrightarrow> keeps P (if b then m else k)"
  by simp

lemma keeps_option [keeps_intros]:
  "(v = None \<Longrightarrow> keeps P m) \<Longrightarrow> (\<And>x. v = Some x \<Longrightarrow> keeps P (k x)) \<Longrightarrow>
   keeps P (case v of None \<Rightarrow> m | Some x \<Rightarrow> k x)"
  by (cases v) simp_all

lemma keeps_let [keeps_intros]: "(\<And>x. x = v \<Longrightarrow> keeps P (k x)) \<Longrightarrow> keeps P (let x = v in k x)"
  by simp

lemma keeps_foreach [keeps_intros]: "(\<And>x. x \<in> set xs \<Longrightarrow> keeps P (f x)) \<Longrightarrow> keeps P (foreach xs f)"
  by (induction xs) (auto intro: keeps_intros)

lemma keeps_catch [keeps_intros]: "keeps P m \<Longrightarrow> keeps P h \<Longrightarrow> keeps P (catch m e h)"
  by (fastforce simp: keeps_def catch_def split: prod.splits sum.splits)

lemma keeps_modify: "(\<And>s. P s \<Longrightarrow> P (f s)) \<Longrightarrow> keeps P (modify f)"
  by (simp add: keeps_def op_defs)

text \<open>
  Most operations read the state and then act on what they read; what was read is a fact
  about the current state, so the rule for a read under a state-dependent branch keeps it.
\<close>

lemma keeps_gets_bnd: "(\<And>s. P s \<Longrightarrow> P (snd (k (f s) s))) \<Longrightarrow> keeps P (bnd (gets f) k)"
  by (simp add: keeps_def op_defs)

text \<open>
  Triples: from a state that satisfies \<open>P\<close>, a normal return \<open>x\<close> ends in \<open>Q x\<close> and an
  exception in \<open>E\<close>.
\<close>

definition triple :: "('s \<Rightarrow> bool) \<Rightarrow> ('s, 'a) op \<Rightarrow> ('a \<Rightarrow> 's \<Rightarrow> bool) \<Rightarrow> ('s \<Rightarrow> bool) \<Rightarrow> bool" where
  "triple P m Q E \<longleftrightarrow> (\<forall>s. P s \<longrightarrow> (case m s of (Inr x, s') \<Rightarrow> Q x s' | (Inl e, s') \<Rightarrow> E s'))"

lemma keeps_triple: "keeps P m \<longleftrightarrow> triple P m (\<lambda>_. P) P"
proof -
  have "P (snd (m s)) \<longleftrightarrow> (case m s of (Inr x, s') \<Rightarrow> P s' | (Inl e, s') \<Rightarrow> P s')" for s
    by (cases "m s"; cases "fst (m s)") simp_all
  then show ?thesis by (simp add: keeps_def triple_def)
qed

lemma triple_bnd: "triple P m R E \<Longrightarrow> (\<And>x. triple (R x) (k x) Q E) \<Longrightarrow> triple P (bnd m k) Q E"
  unfolding triple_def bnd_def by (fastforce split: prod.splits sum.splits)

lemma triple_thn: "triple P m (\<lambda>_. R) E \<Longrightarrow> triple R k Q E \<Longrightarrow> triple P (thn m k) Q E"
  unfolding thn_def by (rule triple_bnd)

lemma triple_gets: "(\<And>s. P s \<Longrightarrow> Q (f s) s) \<Longrightarrow> triple P (gets f) Q E"
  by (simp add: triple_def op_defs)

lemma triple_gets_bnd:
  "(\<And>x. triple (\<lambda>s. P s \<and> f s = x) (k x) Q E) \<Longrightarrow> triple P (bnd (gets f) k) Q E"
  by (auto simp: triple_def op_defs)

lemma triple_modify: "(\<And>s. P s \<Longrightarrow> Q () (f s)) \<Longrightarrow> triple P (modify f) Q E"
  by (simp add: triple_def op_defs)

lemma triple_retn: "(\<And>s. P s \<Longrightarrow> Q x s) \<Longrightarrow> triple P (retn x) Q E"
  by (simp add: triple_def op_defs)

lemma triple_skip: "(\<And>s. P s \<Longrightarrow> Q () s) \<Longrightarrow> triple P skip Q E"
  by (simp add: triple_def op_defs)

lemma triple_raise: "(\<And>s. P s \<Longrightarrow> E s) \<Longrightarrow> triple P (raise e) Q E"
  by (simp add: triple_def op_defs)

lemma triple_lift: "(\<And>s x. P s \<Longrightarrow> r = Inr x \<Longrightarrow> Q x s) \<Longrightarrow> (\<And>s. P s \<Longrightarrow> E s) \<Longrightarrow> triple P (lift_result r) Q E"
  by (cases r) (simp_all add: triple_def op_defs)

lemma triple_the_or: "(\<And>s x. P s \<Longrightarrow> v = Some x \<Longrightarrow> Q x s) \<Longrightarrow> (\<And>s. P s \<Longrightarrow> E s) \<Longrightarrow> triple P (the_or e v) Q E"
  by (cases v) (simp_all add: triple_def op_defs)

lemma triple_if: "(b \<Longrightarrow> triple P m Q E) \<Longrightarrow> (\<not> b \<Longrightarrow> triple P k Q E) \<Longrightarrow> triple P (if b then m else k) Q E"
  by simp

lemma triple_conseq: "triple P m Q E \<Longrightarrow> (\<And>s. P' s \<Longrightarrow> P s) \<Longrightarrow> (\<And>x s. Q x s \<Longrightarrow> Q' x s) \<Longrightarrow>
    (\<And>s. E s \<Longrightarrow> E' s) \<Longrightarrow> triple P' m Q' E'"
  unfolding triple_def by (fastforce split: prod.splits sum.splits)

lemma triple_keeps: "keeps P m \<Longrightarrow> (\<And>x s. P s \<Longrightarrow> Q x s) \<Longrightarrow> (\<And>s. P s \<Longrightarrow> E s) \<Longrightarrow> triple P m Q E"
  unfolding keeps_triple by (erule triple_conseq) simp_all

lemma tripleD: "triple P m Q E \<Longrightarrow> P s \<Longrightarrow> m s = (Inr x, s') \<Longrightarrow> Q x s'"
  by (fastforce simp: triple_def)

section \<open>Reading an outcome backwards\<close>

named_theorems inv_simps \<open>what a normal return of an operation says of its parts\<close>

lemma bnd_Inr_iff [inv_simps]:
  "bnd m k s = (Inr x, s') \<longleftrightarrow> (\<exists>y t. m s = (Inr y, t) \<and> k y t = (Inr x, s'))"
  by (auto simp: bnd_def split: prod.splits sum.splits)

lemma thn_Inr_iff [inv_simps]:
  "thn m k s = (Inr x, s') \<longleftrightarrow> (\<exists>y t. m s = (Inr y, t) \<and> k t = (Inr x, s'))"
  by (simp add: thn_def bnd_Inr_iff)

lemma gets_Inr_iff [inv_simps]: "gets f s = (Inr x, s') \<longleftrightarrow> x = f s \<and> s' = s"
  by (auto simp: op_defs)

lemma modify_Inr_iff [inv_simps]: "modify f s = (Inr x, s') \<longleftrightarrow> s' = f s"
  by (auto simp: op_defs)

lemma retn_Inr_iff [inv_simps]: "retn y s = (Inr x, s') \<longleftrightarrow> x = y \<and> s' = s"
  by (auto simp: op_defs)

lemma skip_Inr_iff [inv_simps]: "skip s = (Inr x, s') \<longleftrightarrow> s' = s"
  by (auto simp: op_defs)

lemma raise_Inr_iff [inv_simps]: "raise e s = (Inr x, s') \<longleftrightarrow> False"
  by (simp add: op_defs)

lemma lift_Inr_iff [inv_simps]: "lift_result r s = (Inr x, s') \<longleftrightarrow> r = Inr x \<and> s' = s"
  by (auto simp: op_defs)

lemma the_or_Inr_iff [inv_simps]: "the_or e v s = (Inr x, s') \<longleftrightarrow> v = Some x \<and> s' = s"
  by (cases v) (auto simp: op_defs)

section \<open>Evaluation of operations\<close>

lemma bnd_gets [simp]: "bnd (gets f) k s = k (f s) s"
  by (simp add: op_defs)

lemma bnd_retn [simp]: "bnd (retn x) k s = k x s"
  by (simp add: op_defs)

lemma thn_modify [simp]: "thn (modify f) k s = k (f s)"
  by (simp add: op_defs)

lemma thn_skip [simp]: "thn skip k = k"
  by (rule ext) (simp add: op_defs)

lemma thn_raise [simp]: "thn (raise e) k s = (Inl e, s)"
  by (simp add: op_defs)

lemma bnd_raise [simp]: "bnd (raise e) k s = (Inl e, s)"
  by (simp add: op_defs)

lemma the_or_simps [simp]: "the_or e (Some x) = retn x" "the_or e None = raise e"
  by (simp_all add: the_or_def)

lemma bindE_simps [simp]: "bindE (Inr x) k = k x" "bindE (Inl e) k = Inl e"
  by (simp_all add: bindE_def)

lemma bindE_Inr_iff: "bindE r k = Inr y \<longleftrightarrow> (\<exists>x. r = Inr x \<and> k x = Inr y)"
  by (cases r) simp_all

lemma mapE_Inr_iff: "mapE f xs = Inr ys \<longleftrightarrow> list_all2 (\<lambda>x y. f x = Inr y) xs ys"
  by (induction xs arbitrary: ys) (auto simp: bindE_Inr_iff list_all2_Cons1)

lemma mapE_Inr: "(\<And>x. x \<in> set xs \<Longrightarrow> f x = Inr (g x)) \<Longrightarrow> mapE f xs = Inr (map g xs)"
  by (induction xs) simp_all

section \<open>Python strings\<close>

text \<open>
  A Python \<^verbatim>\<open>str\<close> is a list of code points. \<open>py ''abc''\<close> is the literal
  \<^verbatim>\<open>"abc"\<close>.
\<close>

type_synonym pystr = "nat list"

definition py :: "string \<Rightarrow> pystr" where
  "py s = map of_char s"

definition valid_str :: "pystr \<Rightarrow> bool" where
  "valid_str s \<longleftrightarrow> (\<forall>c \<in> set s. c < 0x110000 \<and> \<not> (0xD800 \<le> c \<and> c < 0xE000))"

text \<open>\<^verbatim>\<open>str(n)\<close> of an integer.\<close>

fun nat_digits :: "nat \<Rightarrow> pystr" where
  "nat_digits n = (if n < 10 then [48 + n] else nat_digits (n div 10) @ [48 + n mod 10])"

declare nat_digits.simps [simp del]

definition str_int :: "int \<Rightarrow> pystr" where
  "str_int n = (if n < 0 then 45 # nat_digits (nat (- n)) else nat_digits (nat n))"

definition starts_with :: "pystr \<Rightarrow> pystr \<Rightarrow> bool" where
  "starts_with s p \<longleftrightarrow> take (length p) s = p"

definition ends_with :: "pystr \<Rightarrow> pystr \<Rightarrow> bool" where
  "ends_with s p \<longleftrightarrow> length p \<le> length s \<and> drop (length s - length p) s = p"

definition remove_suffix :: "pystr \<Rightarrow> pystr \<Rightarrow> pystr" where
  "remove_suffix s p =
     (if p \<noteq> [] \<and> ends_with s p then take (length s - length p) s else s)"

lemma nat_digits_ascii: "c \<in> set (nat_digits n) \<Longrightarrow> 48 \<le> c \<and> c < 58"
proof (induction n rule: nat_digits.induct)
  case (1 n)
  then show ?case
    by (subst (asm) nat_digits.simps) (auto split: if_splits)
qed

section \<open>Python lists\<close>

text \<open>\<^verbatim>\<open>xs[i]\<close> with Python's negative indices.\<close>

definition py_index :: "'a list \<Rightarrow> int \<Rightarrow> 'a result" where
  "py_index xs i =
     (let j = (if i < 0 then i + int (length xs) else i)
      in if 0 \<le> j \<and> j < int (length xs) then Inr (xs ! nat j) else Inl IndexError)"

text \<open>The index of the first element that satisfies \<open>p\<close>, as \<^verbatim>\<open>enumerate\<close> loops find it.\<close>

fun find_index :: "('a \<Rightarrow> bool) \<Rightarrow> 'a list \<Rightarrow> nat option" where
  "find_index p [] = None"
| "find_index p (x # xs) = (if p x then Some 0 else map_option Suc (find_index p xs))"

lemma find_index_Some_iff:
  "find_index p xs = Some i \<longleftrightarrow> i < length xs \<and> p (xs ! i) \<and> (\<forall>j < i. \<not> p (xs ! j))"
proof (induction xs arbitrary: i)
  case Nil
  then show ?case by simp
next
  case (Cons x xs)
  then show ?case
    by (cases i) (auto simp: All_less_Suc2)
qed

lemma find_index_None_iff: "find_index p xs = None \<longleftrightarrow> (\<forall>x \<in> set xs. \<not> p x)"
  by (induction xs) auto

lemma find_index_bound: "find_index p xs = Some i \<Longrightarrow> i < length xs"
  by (simp add: find_index_Some_iff)

lemma find_index_sat: "find_index p xs = Some i \<Longrightarrow> p (xs ! i)"
  by (simp add: find_index_Some_iff)

lemma map_update_same: "f y = f (xs ! i) \<Longrightarrow> map f (xs[i := y]) = map f xs"
  by (metis list_update_id map_update)

lemma update_None_nth: "xs[i := None] ! j = Some m \<Longrightarrow> xs ! j = Some m"
  by (cases "i = j"; cases "i < length xs") (auto simp: list_update_beyond)

lemma nth_update_if: "j < length xs \<Longrightarrow> xs[i := x] ! j = (if i = j then x else xs ! j)"
  by simp

end
