(* ===== verification/Wire.thy ===== *)
theory Wire
  imports Prelude
begin

text \<open>
  The primitive wire formats of the osu! protocol: little-endian integers as
  \<^verbatim>\<open>int.from_bytes\<close>, \<^verbatim>\<open>int.to_bytes\<close> and \<^verbatim>\<open>struct\<close> read and write them,
  UTF-8, ULEB128 lengths and length-prefixed strings (\<^verbatim>\<open>app/packets.py\<close>).
  A reader consumes bytes from the front of the buffer. Slices of a short buffer are short,
  as in Python: only an indexed read (\<^verbatim>\<open>view[0]\<close>) and \<^verbatim>\<open>struct.unpack\<close> fail.
  Floats stay the bit patterns the wire carries.
\<close>

type_synonym byte = "8 word"
type_synonym bytes = "byte list"
type_synonym 'a reader = "bytes \<Rightarrow> ('a \<times> bytes) result"

definition rbind :: "'a reader \<Rightarrow> ('a \<Rightarrow> 'b reader) \<Rightarrow> 'b reader" where
  "rbind m k = (\<lambda>bs. bindE (m bs) (\<lambda>(x, bs'). k x bs'))"

definition rret :: "'a \<Rightarrow> 'a reader" where
  "rret x = (\<lambda>bs. Inr (x, bs))"

text \<open>\<^verbatim>\<open>[read() for _ in range(n)]\<close>\<close>

fun read_n :: "nat \<Rightarrow> 'a reader \<Rightarrow> 'a list reader" where
  "read_n 0 m = rret []"
| "read_n (Suc n) m = rbind m (\<lambda>x. rbind (read_n n m) (\<lambda>xs. rret (x # xs)))"

section \<open>Little-endian integers\<close>

fun le_nat :: "bytes \<Rightarrow> nat" where
  "le_nat [] = 0"
| "le_nat (b # bs) = unat b + 256 * le_nat bs"

fun nat_le :: "nat \<Rightarrow> nat \<Rightarrow> bytes" where
  "nat_le 0 v = []"
| "nat_le (Suc n) v = of_nat (v mod 256) # nat_le n (v div 256)"

text \<open>\<^verbatim>\<open>int.from_bytes(bs, "little", signed=True)\<close>; the empty slice reads as 0.\<close>

definition from_le_signed :: "bytes \<Rightarrow> int" where
  "from_le_signed bs =
     (let v = le_nat bs
      in if bs \<noteq> [] \<and> 2 ^ (8 * length bs - 1) \<le> v then int v - 2 ^ (8 * length bs) else int v)"

definition from_le_unsigned :: "bytes \<Rightarrow> int" where
  "from_le_unsigned bs = int (le_nat bs)"

text \<open>
  Two's complement encodings of \<open>n\<close> bytes; \<open>e\<close> is what an out-of-range value raises:
  \<^verbatim>\<open>OverflowError\<close> for \<^verbatim>\<open>to_bytes\<close>, \<^verbatim>\<open>struct.error\<close> for \<^verbatim>\<open>pack\<close>.
\<close>

definition fits_signed :: "nat \<Rightarrow> int \<Rightarrow> bool" where
  "fits_signed n v \<longleftrightarrow> - (2 ^ (8 * n - 1)) \<le> v \<and> v < 2 ^ (8 * n - 1)"

definition fits_unsigned :: "nat \<Rightarrow> int \<Rightarrow> bool" where
  "fits_unsigned n v \<longleftrightarrow> 0 \<le> v \<and> v < 2 ^ (8 * n)"

definition int_bytes :: "nat \<Rightarrow> int \<Rightarrow> bytes" where
  "int_bytes n v = nat_le n (nat (v mod 2 ^ (8 * n)))"

definition enc_signed :: "exn \<Rightarrow> nat \<Rightarrow> int \<Rightarrow> bytes result" where
  "enc_signed e n v = (if fits_signed n v then Inr (int_bytes n v) else Inl e)"

definition enc_unsigned :: "exn \<Rightarrow> nat \<Rightarrow> int \<Rightarrow> bytes result" where
  "enc_unsigned e n v = (if fits_unsigned n v then Inr (int_bytes n v) else Inl e)"

lemma length_nat_le [simp]: "length (nat_le n v) = n"
  by (induction n arbitrary: v) simp_all

lemma length_int_bytes [simp]: "length (int_bytes n v) = n"
  by (simp add: int_bytes_def)

lemma unat_byte_bound [simp]: "unat (b :: byte) < 256"
  using unsigned_less [of b, where 'a = nat] by simp

lemma le_nat_nat_le: "le_nat (nat_le n v) = v mod 256 ^ n"
proof (induction n arbitrary: v)
  case 0
  then show ?case by simp
next
  case (Suc n)
  have "unat (of_nat (v mod 256) :: byte) = v mod 256"
    by (simp add: unat_of_nat)
  then show ?case
    using Suc by (simp add: mod_mult2_eq)
qed

lemma le_nat_bound: "le_nat bs < 256 ^ length bs"
proof (induction bs)
  case Nil
  then show ?case by simp
next
  case (Cons b bs)
  have "unat b < 256" by simp
  moreover have "Suc (le_nat bs) \<le> 256 ^ length bs" using Cons by simp
  then have "256 * Suc (le_nat bs) \<le> 256 * 256 ^ length bs" by (rule mult_le_mono2)
  ultimately show ?case using unat_byte_bound [of b] by (simp del: unat_byte_bound)
qed

lemma nat_le_le_nat: "nat_le (length bs) (le_nat bs) = bs"
proof (induction bs)
  case Nil
  then show ?case by simp
next
  case (Cons b bs)
  have b: "unat b < 256" by simp
  then have "(unat b + 256 * le_nat bs) mod 256 = unat b" "(unat b + 256 * le_nat bs) div 256 = le_nat bs"
    by simp_all
  with Cons show ?case by simp
qed

lemma pow_256: "(256 :: 'a :: comm_semiring_1) ^ n = 2 ^ (8 * n)"
  by (simp add: power_mult)

lemma int_le_nat_bound: "int (le_nat bs) < 2 ^ (8 * length bs)"
proof -
  have "int (le_nat bs) < int (2 ^ (8 * length bs))"
    using le_nat_bound [of bs] by (simp only: of_nat_less_iff pow_256)
  then show ?thesis by simp
qed

lemma le_nat_int_bytes: "int (le_nat (int_bytes n v)) = v mod 2 ^ (8 * n)"
proof -
  have "nat (v mod 2 ^ (8 * n)) < 256 ^ n"
    by (simp add: pow_256 nat_less_iff)
  then show ?thesis
    by (simp add: int_bytes_def le_nat_nat_le)
qed

lemma from_le_unsigned_int_bytes: "fits_unsigned n v \<Longrightarrow> from_le_unsigned (int_bytes n v) = v"
  by (simp add: from_le_unsigned_def le_nat_int_bytes fits_unsigned_def)

lemma double_half: "0 < n \<Longrightarrow> (2 :: int) ^ (8 * n) = 2 * 2 ^ (8 * n - 1)"
  by (cases n) (simp_all add: power_add)

text \<open>The sign test of \<open>from_le_signed\<close>, on integers, with \<open>h\<close> half the range.\<close>

lemma from_le_signed_eq:
  assumes "bs \<noteq> []" and h: "h = (2 :: int) ^ (8 * length bs - 1)"
  shows "from_le_signed bs = (if h \<le> int (le_nat bs) then int (le_nat bs) - 2 * h else int (le_nat bs))"
proof -
  have "h = int (2 ^ (8 * length bs - 1))" by (simp add: h)
  then have "2 ^ (8 * length bs - 1) \<le> le_nat bs \<longleftrightarrow> h \<le> int (le_nat bs)"
    by (simp only: of_nat_le_iff)
  moreover have "(2 :: int) ^ (8 * length bs) = 2 * h"
    using assms(1) double_half [of "length bs"] by (simp add: h)
  ultimately show ?thesis using assms(1) by (simp add: from_le_signed_def Let_def)
qed

lemma from_le_signed_int_bytes:
  assumes "fits_signed n v" and "0 < n"
  shows "from_le_signed (int_bytes n v) = v"
proof -
  define h where "h = (2 :: int) ^ (8 * n - 1)"
  have dbl: "(2 :: int) ^ (8 * n) = 2 * h"
    using assms(2) by (simp only: double_half h_def)
  have rng: "- h \<le> v" "v < h"
    using assms(1) by (simp_all add: fits_signed_def h_def)
  have ne: "int_bytes n v \<noteq> []"
    using assms(2) length_int_bytes [of n v] by force
  have eq: "from_le_signed (int_bytes n v) = (if h \<le> v mod (2 * h) then v mod (2 * h) - 2 * h else v mod (2 * h))"
    using from_le_signed_eq [OF ne, of h] by (simp add: h_def le_nat_int_bytes dbl [unfolded h_def])
  show ?thesis
  proof (cases "v < 0")
    case True
    have "v mod (2 * h) = (v + 2 * h) mod (2 * h)" by simp
    also have "\<dots> = v + 2 * h" using True rng by (intro mod_pos_pos_trivial) simp_all
    finally show ?thesis using True rng by (simp add: eq)
  next
    case False
    then have "v mod (2 * h) = v" using rng by simp
    with False rng show ?thesis by (simp add: eq)
  qed
qed

lemma int_bytes_from_le_signed: "int_bytes (length bs) (from_le_signed bs) = bs"
proof -
  have "from_le_signed bs mod 2 ^ (8 * length bs) = int (le_nat bs)"
    using int_le_nat_bound [of bs] by (simp add: from_le_signed_def Let_def)
  then show ?thesis
    by (simp add: int_bytes_def nat_le_le_nat)
qed

lemma from_le_signed_range:
  assumes "bs \<noteq> []"
  shows "fits_signed (length bs) (from_le_signed bs)"
proof -
  define h where "h = (2 :: int) ^ (8 * length bs - 1)"
  have "(2 :: int) ^ (8 * length bs) = 2 * h"
    using assms double_half [of "length bs"] by (simp add: h_def)
  then have "int (le_nat bs) < 2 * h" using int_le_nat_bound [of bs] by simp
  moreover have "0 < h" by (simp add: h_def)
  ultimately show ?thesis
    unfolding fits_signed_def by (simp only: from_le_signed_eq [OF assms h_def] flip: h_def) simp
qed

section \<open>UTF-8\<close>

text \<open>
  \<^verbatim>\<open>str.encode()\<close> and \<^verbatim>\<open>bytes.decode()\<close>: strict UTF-8. A lone surrogate does not
  encode; an overlong, truncated or surrogate sequence does not decode.
\<close>

definition byte_of :: "nat \<Rightarrow> byte" where
  "byte_of n = of_nat n"

definition utf8_char :: "nat \<Rightarrow> bytes result" where
  "utf8_char c =
     (if c < 0x80 then Inr [byte_of c]
      else if c < 0x800 then Inr [byte_of (0xC0 + c div 64), byte_of (0x80 + c mod 64)]
      else if 0xD800 \<le> c \<and> c < 0xE000 then Inl UnicodeEncodeError
      else if c < 0x10000 then
        Inr [byte_of (0xE0 + c div 4096), byte_of (0x80 + c div 64 mod 64), byte_of (0x80 + c mod 64)]
      else Inr [byte_of (0xF0 + c div 262144), byte_of (0x80 + c div 4096 mod 64),
                byte_of (0x80 + c div 64 mod 64), byte_of (0x80 + c mod 64)])"

fun utf8_encode :: "pystr \<Rightarrow> bytes result" where
  "utf8_encode [] = Inr []"
| "utf8_encode (c # cs) = bindE (utf8_char c) (\<lambda>bs. bindE (utf8_encode cs) (\<lambda>rest. Inr (bs @ rest)))"

definition is_cont :: "byte \<Rightarrow> bool" where
  "is_cont b \<longleftrightarrow> 0x80 \<le> unat b \<and> unat b < 0xC0"

definition cont_bits :: "byte \<Rightarrow> nat" where
  "cont_bits b = unat b - 0x80"

fun utf8_decode :: "bytes \<Rightarrow> pystr result" where
  "utf8_decode [] = Inr []"
| "utf8_decode (b # bs) =
     (let n = unat b in
      if n < 0x80 then bindE (utf8_decode bs) (\<lambda>s. Inr (n # s))
      else if n < 0xC0 then Inl UnicodeDecodeError
      else if n < 0xE0 then
        (case bs of
           b1 # r \<Rightarrow>
             let c = (n - 0xC0) * 64 + cont_bits b1 in
             if is_cont b1 \<and> 0x80 \<le> c then bindE (utf8_decode r) (\<lambda>s. Inr (c # s))
             else Inl UnicodeDecodeError
         | _ \<Rightarrow> Inl UnicodeDecodeError)
      else if n < 0xF0 then
        (case bs of
           b1 # b2 # r \<Rightarrow>
             let c = (n - 0xE0) * 4096 + cont_bits b1 * 64 + cont_bits b2 in
             if is_cont b1 \<and> is_cont b2 \<and> 0x800 \<le> c \<and> \<not> (0xD800 \<le> c \<and> c < 0xE000)
             then bindE (utf8_decode r) (\<lambda>s. Inr (c # s))
             else Inl UnicodeDecodeError
         | _ \<Rightarrow> Inl UnicodeDecodeError)
      else
        (case bs of
           b1 # b2 # b3 # r \<Rightarrow>
             let c = (n - 0xF0) * 262144 + cont_bits b1 * 4096 + cont_bits b2 * 64 + cont_bits b3 in
             if is_cont b1 \<and> is_cont b2 \<and> is_cont b3 \<and> 0x10000 \<le> c \<and> c < 0x110000
             then bindE (utf8_decode r) (\<lambda>s. Inr (c # s))
             else Inl UnicodeDecodeError
         | _ \<Rightarrow> Inl UnicodeDecodeError))"

declare utf8_decode.simps(2) [simp del]

lemma unat_byte_of [simp]: "n < 256 \<Longrightarrow> unat (byte_of n) = n"
  by (simp add: byte_of_def unat_of_nat)

lemma is_cont_byte_of [simp]: "n < 64 \<Longrightarrow> is_cont (byte_of (128 + n))"
  by (simp add: is_cont_def)

lemma cont_bits_byte_of [simp]: "n < 64 \<Longrightarrow> cont_bits (byte_of (128 + n)) = n"
  by (simp add: cont_bits_def)

lemma split64: "(c :: nat) div 64 * 64 + c mod 64 = c"
  by simp

lemma split4096: "(c :: nat) div 4096 * 4096 + c div 64 mod 64 * 64 + c mod 64 = c"
proof -
  have "c div 4096 = c div 64 div 64" by (simp add: div_mult2_eq)
  then show ?thesis
    using div_mult_mod_eq [of c 64] div_mult_mod_eq [of "c div 64" 64] by linarith
qed

lemma split262144:
  "(c :: nat) div 262144 * 262144 + c div 4096 mod 64 * 4096 + c div 64 mod 64 * 64 + c mod 64 = c"
proof -
  have "c div 262144 = c div 4096 div 64" by (simp add: div_mult2_eq)
  then show ?thesis
    using div_mult_mod_eq [of "c div 4096" 64] split4096 [of c] by linarith
qed

text \<open>One encoded code point decodes to itself, whatever follows.\<close>

lemma utf8_decode_char:
  assumes "utf8_char c = Inr bs" and "c < 0x110000"
  shows "utf8_decode (bs @ rest) = bindE (utf8_decode rest) (\<lambda>s. Inr (c # s))"
proof -
  consider "c < 0x80" | "0x80 \<le> c" "c < 0x800"
    | "0x800 \<le> c" "c < 0x10000" "\<not> (0xD800 \<le> c \<and> c < 0xE000)" | "0x10000 \<le> c"
    using assms(1) by (force simp: utf8_char_def split: if_splits)
  then show ?thesis
  proof cases
    case 1
    then show ?thesis using assms(1) by (auto simp: utf8_char_def utf8_decode.simps(2) Let_def)
  next
    case 2
    then have "c div 64 < 32" by simp
    with 2 show ?thesis
      using assms(1) split64 [of c] by (auto simp: utf8_char_def utf8_decode.simps(2) Let_def)
  next
    case 3
    then have "c div 4096 < 16" by simp
    with 3 show ?thesis
      using assms(1) split4096 [of c]
      by (auto simp: utf8_char_def utf8_decode.simps(2) Let_def)
  next
    case 4
    then have "c div 262144 < 5" using assms(2) by simp
    with 4 show ?thesis
      using assms split262144 [of c]
      by (auto simp: utf8_char_def utf8_decode.simps(2) Let_def)
  qed
qed

lemma utf8_encode_valid: "valid_str s \<Longrightarrow> \<exists>bs. utf8_encode s = Inr bs"
proof (induction s)
  case Nil
  then show ?case by simp
next
  case (Cons c cs)
  then obtain r where "utf8_encode cs = Inr r" by (auto simp: valid_str_def)
  moreover have "\<exists>b. utf8_char c = Inr b"
    using Cons.prems by (auto simp: utf8_char_def valid_str_def)
  ultimately show ?case by auto
qed

lemma utf8_decode_encode:
  "utf8_encode s = Inr bs \<Longrightarrow> valid_str s \<Longrightarrow> utf8_decode bs = Inr s"
proof (induction s arbitrary: bs)
  case Nil
  then show ?case by simp
next
  case (Cons c cs)
  from Cons.prems(1) obtain b r where
    b: "utf8_char c = Inr b" and r: "utf8_encode cs = Inr r" and bs: "bs = b @ r"
    by (auto simp: bindE_Inr_iff)
  have "utf8_decode r = Inr cs"
    using Cons.IH [OF r] Cons.prems(2) by (simp add: valid_str_def)
  with utf8_decode_char [OF b] Cons.prems(2) show ?case
    by (simp add: bs valid_str_def)
qed

section \<open>ULEB128 lengths and strings\<close>

text \<open>The loop of \<^verbatim>\<open>write_uleb128\<close>, and the function with its special case for 0.\<close>

function uleb_bytes :: "nat \<Rightarrow> bytes" where
  "uleb_bytes num =
     (if num = 0 then []
      else (let b = byte_of (num AND 0x7F); num' = drop_bit 7 num
            in (if num' \<noteq> 0 then b OR 0x80 else b) # uleb_bytes num'))"
  by pat_completeness auto
termination
  by (relation "measure id") (auto simp: drop_bit_eq_div)

declare uleb_bytes.simps [simp del]

definition write_uleb128 :: "nat \<Rightarrow> bytes" where
  "write_uleb128 num = (if num = 0 then [0] else uleb_bytes num)"

text \<open>The decoding loop of \<^verbatim>\<open>read_string\<close>, with its accumulator and shift.\<close>

fun read_uleb :: "nat \<Rightarrow> nat \<Rightarrow> nat reader" where
  "read_uleb len shift [] = Inl IndexError"
| "read_uleb len shift (b # bs) =
     (let len' = len OR push_bit shift (unat (b AND 0x7F))
      in if b AND 0x80 = 0 then Inr (len', bs) else read_uleb len' (shift + 7) bs)"

definition read_string :: "pystr reader" where
  "read_string bs =
     (case bs of
        [] \<Rightarrow> Inl IndexError
      | b # r \<Rightarrow>
          if b \<noteq> 0x0B then Inr ([], r)
          else bindE (read_uleb 0 0 r) (\<lambda>(n, r').
                 bindE (utf8_decode (take n r')) (\<lambda>s. Inr (s, drop n r'))))"

definition write_string :: "pystr \<Rightarrow> bytes result" where
  "write_string s =
     (if s \<noteq> [] then bindE (utf8_encode s) (\<lambda>e. Inr (0x0B # write_uleb128 (length e) @ e))
      else Inr [0])"

lemma or_push_bit_eq_add:
  assumes "(a :: nat) < 2 ^ k"
  shows "a OR push_bit k b = a + push_bit k b"
proof -
  have lt: "n < k" if "bit a n" for n
    using assms that by (metis bit_take_bit_iff take_bit_nat_eq_self)
  have "a AND push_bit k b = 0"
    by (rule bit_eqI) (auto simp: bit_simps dest: lt)
  then show ?thesis by (simp only: disjunctive_add_eq_or)
qed

lemma nat_and_127: "(n :: nat) AND 127 = n mod 128"
proof -
  have "(127 :: nat) = mask 7" by (simp add: mask_eq_exp_minus_1)
  then have "n AND 127 = take_bit 7 n" by (simp only: take_bit_eq_mask)
  then show ?thesis by (simp add: take_bit_eq_mod)
qed

lemma low7:
  assumes "n < 128"
  shows "byte_of n AND 0x80 = 0" "unat (byte_of n AND 0x7F) = n"
    "(byte_of n OR 0x80) AND 0x80 \<noteq> 0" "unat ((byte_of n OR 0x80) AND 0x7F) = n"
proof -
  let ?x = "byte_of n"
  have "(0x7F :: byte) = mask 7" by (simp add: mask_eq_exp_minus_1)
  moreover have "unat (take_bit 7 ?x) = unat ?x"
    using assms by (simp add: unsigned_take_bit_eq take_bit_nat_eq_self)
  then have "take_bit 7 ?x = ?x" by (simp only: word_unat_eq_iff)
  ultimately have x: "?x AND 0x7F = ?x" by (simp only: take_bit_eq_mask)
  have "?x AND 0x80 = ?x AND (0x7F AND 0x80)" by (metis x and.assoc)
  then show "?x AND 0x80 = 0" by simp
  show "unat (?x AND 0x7F) = n" using assms by (simp only: x) simp
  have "(?x OR 0x80) AND 0x7F = (?x AND 0x7F) OR (0x80 AND 0x7F)" by (simp only: bit.conj_disj_distrib2)
  then have "(?x OR 0x80) AND 0x7F = ?x" by (simp only: x) simp
  then show "unat ((?x OR 0x80) AND 0x7F) = n" using assms by (simp only:) simp
  have "(?x OR 0x80) AND 0x80 = (0x80 :: byte)" by (rule bit_word_eqI) (auto simp: bit_simps)
  then show "(?x OR 0x80) AND 0x80 \<noteq> 0" by (simp only:) simp
qed

lemma read_uleb_bytes:
  "0 < num \<Longrightarrow> acc < 2 ^ shift \<Longrightarrow>
   read_uleb acc shift (uleb_bytes num @ rest) = Inr (acc + push_bit shift num, rest)"
proof (induction num arbitrary: acc shift rule: uleb_bytes.induct)
  case (1 num)
  define lo where "lo = num mod 128"
  define hi where "hi = num div 128"
  have lo: "lo < 128" by (simp add: lo_def)
  have num: "num = lo + 128 * hi" by (simp add: lo_def hi_def)
  have u: "uleb_bytes num = (if hi \<noteq> 0 then byte_of lo OR 0x80 else byte_of lo) # uleb_bytes hi"
    using 1(2) by (subst uleb_bytes.simps) (simp add: Let_def nat_and_127 drop_bit_eq_div lo_def hi_def)
  have acc: "acc OR push_bit shift lo = acc + push_bit shift lo"
    using 1(3) by (rule or_push_bit_eq_add)
  show ?case
  proof (cases "hi = 0")
    case True
    then have n: "num = lo" using num by simp
    show ?thesis
      unfolding u using True low7 [OF lo] n by (simp add: Let_def acc uleb_bytes.simps [of 0])
  next
    case False
    have "push_bit shift lo \<le> 127 * 2 ^ shift" using lo by (simp add: push_bit_eq_mult)
    then have "acc + push_bit shift lo < 2 ^ (shift + 7)"
      using 1(3) by (simp add: power_add)
    then have "read_uleb (acc + push_bit shift lo) (shift + 7) (uleb_bytes hi @ rest) =
        Inr (acc + push_bit shift lo + push_bit (shift + 7) hi, rest)"
      using 1(1)[OF _ refl refl] 1(2) False
      by (simp add: hi_def drop_bit_eq_div nat_and_127)
    then show ?thesis
      unfolding u using low7 [OF lo] False num
      by (simp add: Let_def acc [unfolded push_bit_eq_mult] push_bit_eq_mult power_add algebra_simps)
  qed
qed

lemma read_write_uleb128: "read_uleb 0 0 (write_uleb128 n @ rest) = Inr (n, rest)"
  by (simp add: write_uleb128_def read_uleb_bytes)

lemma read_write_string:
  assumes "valid_str s" and "write_string s = Inr bs"
  shows "read_string (bs @ rest) = Inr (s, rest)"
proof (cases "s = []")
  case True
  with assms(2) show ?thesis by (auto simp: write_string_def read_string_def)
next
  case False
  with assms(2) obtain e where e: "utf8_encode s = Inr e" "bs = 0x0B # write_uleb128 (length e) @ e"
    by (auto simp: write_string_def bindE_Inr_iff)
  then show ?thesis
    using utf8_decode_encode [OF e(1) assms(1)] read_write_uleb128 [of "length e" "e @ rest"]
    by (simp add: read_string_def)
qed

lemma write_string_valid: "valid_str s \<Longrightarrow> \<exists>bs. write_string s = Inr bs"
  using utf8_encode_valid [of s] by (auto simp: write_string_def)

section \<open>The contract of a wire format\<close>

text \<open>
  A wire format is an encoder, a reader and the set of values it carries. Its law: what was
  written is read back, and the reader stops exactly where the encoding ends. Everything
  the protocol composes (sequences, fixed-length lists) keeps the law, so a message's round
  trip follows from those of its fields.
\<close>

locale wire_format =
  fixes enc :: "'a \<Rightarrow> bytes result" and dec :: "'a reader" and ok :: "'a \<Rightarrow> bool"
  assumes enc_defined: "ok x \<Longrightarrow> \<exists>bs. enc x = Inr bs"
    and dec_enc: "ok x \<Longrightarrow> enc x = Inr bs \<Longrightarrow> dec (bs @ rest) = Inr (x, rest)"
begin

lemma dec_enc_bind: "ok x \<Longrightarrow> enc x = Inr bs \<Longrightarrow> rbind dec k (bs @ rest) = k x rest"
  by (simp add: rbind_def dec_enc [of x])

text \<open>No encoding is a prefix of another: the concatenation of two encodings splits one way only.\<close>

lemma enc_prefix_free:
  assumes "ok x" "ok y" "enc x = Inr bs" "enc y = Inr cs" "bs @ r = cs @ s"
  shows "x = y \<and> r = s"
proof -
  have "dec (bs @ r) = Inr (x, r)" using assms(1,3) by (rule dec_enc)
  moreover have "dec (cs @ s) = Inr (y, s)" using assms(2,4) by (rule dec_enc)
  ultimately show ?thesis using assms(5) by simp
qed

lemma enc_list_defined: "list_all ok xs \<Longrightarrow> \<exists>bss. mapE enc xs = Inr bss"
  by (induction xs) (auto dest: enc_defined)

lemma read_n_enc_list:
  "list_all ok xs \<Longrightarrow> mapE enc xs = Inr bss \<Longrightarrow>
   read_n (length xs) dec (concat bss @ rest) = Inr (xs, rest)"
proof (induction xs arbitrary: bss)
  case Nil
  then show ?case by (simp add: rret_def)
next
  case (Cons x xs)
  then obtain b bs where "enc x = Inr b" "mapE enc xs = Inr bs" "bss = b # bs"
    by (auto simp: bindE_Inr_iff)
  with Cons show ?case by (simp add: rbind_def rret_def dec_enc [of x])
qed

lemma read_n_enc_list_bind:
  "list_all ok xs \<Longrightarrow> mapE enc xs = Inr bss \<Longrightarrow> n = length xs \<Longrightarrow>
   rbind (read_n n dec) k (concat bss @ rest) = k xs rest"
  by (simp add: rbind_def read_n_enc_list)

end

section \<open>The primitive readers\<close>

definition read_i8 :: "int reader" where
  "read_i8 bs = (case bs of [] \<Rightarrow> Inl IndexError
                 | b # r \<Rightarrow> Inr (if 127 < unat b then int (unat b) - 256 else int (unat b), r))"

definition read_u8 :: "int reader" where
  "read_u8 bs = (case bs of [] \<Rightarrow> Inl IndexError | b # r \<Rightarrow> Inr (int (unat b), r))"

definition read_i16 :: "int reader" where
  "read_i16 bs = Inr (from_le_signed (take 2 bs), drop 2 bs)"

definition read_u16 :: "int reader" where
  "read_u16 bs = Inr (from_le_unsigned (take 2 bs), drop 2 bs)"

definition read_i32 :: "int reader" where
  "read_i32 bs = Inr (from_le_signed (take 4 bs), drop 4 bs)"

definition read_u32 :: "int reader" where
  "read_u32 bs = Inr (from_le_unsigned (take 4 bs), drop 4 bs)"

definition read_i64 :: "int reader" where
  "read_i64 bs = Inr (from_le_signed (take 8 bs), drop 8 bs)"

definition read_u64 :: "int reader" where
  "read_u64 bs = Inr (from_le_unsigned (take 8 bs), drop 8 bs)"

text \<open>Floats: \<^verbatim>\<open>struct.unpack_from\<close> fails on a short buffer; the value is the bit pattern.\<close>

definition read_float :: "nat \<Rightarrow> nat reader" where
  "read_float n bs =
     (if length bs < n then Inl StructError else Inr (le_nat (take n bs), drop n bs))"

definition read_f16 :: "nat reader" where "read_f16 = read_float 2"
definition read_f32 :: "nat reader" where "read_f32 = read_float 4"
definition read_f64 :: "nat reader" where "read_f64 = read_float 8"

definition enc_float :: "nat \<Rightarrow> nat \<Rightarrow> bytes result" where
  "enc_float n v = Inr (nat_le n v)"

lemma enc_signed_format:
  assumes "0 < n" and "\<And>bs. dec bs = Inr (from_le_signed (take n bs), drop n bs)"
  shows "wire_format (enc_signed e n) dec (fits_signed n)"
  using assms by unfold_locales (auto simp: enc_signed_def from_le_signed_int_bytes)

lemma enc_unsigned_format:
  assumes "\<And>bs. dec bs = Inr (from_le_unsigned (take n bs), drop n bs)"
  shows "wire_format (enc_unsigned e n) dec (fits_unsigned n)"
  using assms by unfold_locales (auto simp: enc_unsigned_def from_le_unsigned_int_bytes)

interpretation i16_format: wire_format "enc_signed StructError 2" read_i16 "fits_signed 2"
  by (rule enc_signed_format) (simp_all add: read_i16_def)

interpretation u16_format: wire_format "enc_unsigned StructError 2" read_u16 "fits_unsigned 2"
  by (rule enc_unsigned_format) (simp add: read_u16_def)

interpretation i32_format: wire_format "enc_signed e 4" read_i32 "fits_signed 4" for e
  by (rule enc_signed_format) (simp_all add: read_i32_def)

interpretation u32_format: wire_format "enc_unsigned e 4" read_u32 "fits_unsigned 4" for e
  by (rule enc_unsigned_format) (simp add: read_u32_def)

interpretation i64_format: wire_format "enc_signed StructError 8" read_i64 "fits_signed 8"
  by (rule enc_signed_format) (simp_all add: read_i64_def)

interpretation u64_format: wire_format "enc_unsigned StructError 8" read_u64 "fits_unsigned 8"
  by (rule enc_unsigned_format) (simp add: read_u64_def)

lemma one_byte: "\<exists>b. bs = [b]" if "length bs = 1"
  using that by (cases bs) simp_all

interpretation i8_format: wire_format "enc_signed StructError 1" read_i8 "fits_signed 1"
proof
  fix x bs rest assume "fits_signed 1 x" "enc_signed StructError 1 x = Inr bs"
  then have bs: "bs = int_bytes 1 x" "from_le_signed bs = x"
    by (auto simp: enc_signed_def from_le_signed_int_bytes)
  then obtain b where b: "bs = [b]" using one_byte [of bs] by auto
  with bs(2) show "read_i8 (bs @ rest) = Inr (x, rest)"
    by (auto simp: read_i8_def from_le_signed_def Let_def split: if_splits)
qed (simp add: enc_signed_def)

interpretation u8_format: wire_format "enc_unsigned StructError 1" read_u8 "fits_unsigned 1"
proof
  fix x bs rest assume "fits_unsigned 1 x" "enc_unsigned StructError 1 x = Inr bs"
  then have bs: "bs = int_bytes 1 x" "from_le_unsigned bs = x"
    by (auto simp: enc_unsigned_def from_le_unsigned_int_bytes)
  then obtain b where b: "bs = [b]" using one_byte [of bs] by auto
  with bs(2) show "read_u8 (bs @ rest) = Inr (x, rest)"
    by (auto simp: read_u8_def from_le_unsigned_def)
qed (simp add: enc_unsigned_def)

lemma enc_float_format: "wire_format (enc_float n) (read_float n) (\<lambda>v. v < 256 ^ n)"
  by unfold_locales (auto simp: enc_float_def read_float_def le_nat_nat_le)

interpretation f32_format: wire_format "enc_float 4" read_f32 "\<lambda>v. v < 256 ^ 4"
  unfolding read_f32_def by (rule enc_float_format)

interpretation f64_format: wire_format "enc_float 8" read_f64 "\<lambda>v. v < 256 ^ 8"
  unfolding read_f64_def by (rule enc_float_format)

interpretation string_format: wire_format write_string read_string valid_str
  by unfold_locales (auto simp: write_string_valid read_write_string)

end
