(* ===== verification/Floats.thy ===== *)
theory Floats
  imports Prelude Complex_Main
begin

text \<open>
  Python floats. A finite IEEE double is the rational number it denotes, and an arithmetic
  operation rounds the exact result to the nearest double, ties to even (\<open>fl\<close>). Infinities,
  NaN and the sign of zero do not occur in the computations modelled here.
  \<open>f32_bits\<close> is the bit pattern that \<^verbatim>\<open>struct.pack("<f", x)\<close> writes.
\<close>

section \<open>Binary exponents\<close>

fun bitlen :: "nat \<Rightarrow> nat" where
  "bitlen n = (if n = 0 then 0 else Suc (bitlen (n div 2)))"

declare bitlen.simps [simp del]

definition pow2 :: "int \<Rightarrow> rat" where
  "pow2 k = (if 0 \<le> k then 2 ^ nat k else 1 / 2 ^ nat (- k))"

text \<open>The exponent of the binade of a positive rational.\<close>

definition ilog2 :: "rat \<Rightarrow> int" where
  "ilog2 x =
     (let (p, q) = quotient_of x; k = int (bitlen (nat p)) - int (bitlen (nat q))
      in if pow2 k \<le> x then k else k - 1)"

definition round_even :: "rat \<Rightarrow> int" where
  "round_even x =
     (let f = \<lfloor>x\<rfloor>; d = x - of_int f
      in if d < 1 / 2 then f else if 1 / 2 < d then f + 1 else if even f then f else f + 1)"

text \<open>Rounding of a non-negative number to \<open>p\<close> significant bits, with least exponent \<open>emin\<close>.\<close>

definition rnd :: "nat \<Rightarrow> int \<Rightarrow> rat \<Rightarrow> rat" where
  "rnd p emin x =
     (if x = 0 then 0
      else let u = pow2 (max (ilog2 x) emin - int p + 1) in of_int (round_even (x / u)) * u)"

definition fl :: "rat \<Rightarrow> rat" where
  "fl x = (if x < 0 then - rnd 53 (- 1022) (- x) else rnd 53 (- 1022) x)"

text \<open>Float operations: the exact result, rounded.\<close>

definition fint :: "int \<Rightarrow> rat" where "fint n = fl (of_int n)"
definition fadd :: "rat \<Rightarrow> rat \<Rightarrow> rat" where "fadd a b = fl (a + b)"
definition fmul :: "rat \<Rightarrow> rat \<Rightarrow> rat" where "fmul a b = fl (a * b)"
definition fdiv :: "rat \<Rightarrow> rat \<Rightarrow> rat" where "fdiv a b = fl (a / b)"

text \<open>
  The bits of the nearest IEEE number with \<open>p\<close> significant bits and \<open>ebits\<close> exponent bits; a
  finite value that rounds to infinity is an \<^verbatim>\<open>OverflowError\<close>.
\<close>

definition ieee_bits :: "nat \<Rightarrow> nat \<Rightarrow> rat \<Rightarrow> nat result" where
  "ieee_bits p ebits x =
     (let bias = 2 ^ (ebits - 1) - 1 :: int; emin = 1 - bias;
          s = (if x < 0 then 2 ^ (ebits + p - 1) else 0); r = rnd p emin \<bar>x\<bar>
      in if pow2 (bias + 1) \<le> r then Inl OverflowError
         else if r < pow2 emin then Inr (s + nat \<lfloor>r * pow2 (int p - 1 - emin)\<rfloor>)
         else let e = ilog2 r in
              Inr (s + nat (e + bias) * 2 ^ (p - 1)
                     + nat (\<lfloor>r * pow2 (int p - 1 - e)\<rfloor> - 2 ^ (p - 1))))"

definition f32_bits :: "rat \<Rightarrow> nat result" where "f32_bits = ieee_bits 24 8"
definition f64_bits :: "rat \<Rightarrow> nat result" where "f64_bits = ieee_bits 53 11"

section \<open>The rounding laws\<close>

lemma bitlen_bounds: "0 < n \<Longrightarrow> 2 ^ (bitlen n - 1) \<le> n \<and> n < 2 ^ bitlen n"
proof (induction n rule: bitlen.induct)
  case (1 n)
  show ?case
  proof (cases "n div 2 = 0")
    case True
    with 1(2) have "n = 1" by linarith
    then show ?thesis by (simp add: bitlen.simps [of "Suc 0"] bitlen.simps [of 0])
  next
    case False
    then have ih: "2 ^ (bitlen (n div 2) - 1) \<le> n div 2" "n div 2 < 2 ^ bitlen (n div 2)"
      using 1 by simp_all
    have "0 < bitlen (n div 2)" using False by (subst bitlen.simps) simp
    then have dbl: "(2::nat) ^ bitlen (n div 2) = 2 * 2 ^ (bitlen (n div 2) - 1)"
      by (cases "bitlen (n div 2)") simp_all
    have len: "bitlen n = Suc (bitlen (n div 2))" using 1(2) by (subst bitlen.simps) simp
    have "2 ^ bitlen (n div 2) \<le> n" "n < 2 * 2 ^ bitlen (n div 2)"
      using ih dbl by linarith+
    then show ?thesis by (simp add: len)
  qed
qed

lemma pow2_pos [simp]: "0 < pow2 k"
  by (simp add: pow2_def)

lemma pow2_nonneg [simp]: "0 \<le> pow2 k" and pow2_nonzero [simp]: "pow2 k \<noteq> 0"
  using pow2_pos [of k] by linarith+

lemma pow2_add1: "pow2 (k + 1) = 2 * pow2 k"
proof (cases "0 \<le> k")
  case True
  then have "nat (k + 1) = Suc (nat k)" by simp
  with True show ?thesis by (simp add: pow2_def)
next
  case False
  then show ?thesis
  proof (cases "k = - 1")
    case True
    then show ?thesis by (simp add: pow2_def)
  next
    case False
    with \<open>\<not> 0 \<le> k\<close> have "nat (- k) = Suc (nat (- (k + 1)))" "k + 1 < 0" by simp_all
    then show ?thesis by (simp add: pow2_def)
  qed
qed

lemma pow2_add: "pow2 (j + int n) = pow2 j * 2 ^ n"
proof (induction n)
  case 0
  then show ?case by simp
next
  case (Suc n)
  then show ?case using pow2_add1 [of "j + int n"] by (simp add: algebra_simps)
qed

lemma pow2_sum: "pow2 (a + b) = pow2 a * pow2 b"
proof (cases "0 \<le> b")
  case True
  then show ?thesis using pow2_add [of a "nat b"] by (simp add: pow2_def [of b])
next
  case False
  then have "pow2 a = pow2 (a + b) * 2 ^ nat (- b)" using pow2_add [of "a + b" "nat (- b)"] by simp
  with False show ?thesis by (simp add: pow2_def [of b])
qed

lemma pow2_mono: "a \<le> b \<Longrightarrow> pow2 a \<le> pow2 b"
  using pow2_add [of a "nat (b - a)"] by (simp add: mult_left_mono [of 1 "2 ^ nat (b - a)" "pow2 a", simplified])

lemma pow2_nat: "pow2 (int n) = 2 ^ n"
  by (simp add: pow2_def)

lemma ilog2_bounds:
  assumes "0 < x"
  shows "pow2 (ilog2 x) \<le> x \<and> x < pow2 (ilog2 x + 1)"
proof -
  obtain p q where pq: "quotient_of x = (p, q)" by fastforce
  define m n where "m = nat p" and "n = nat q"
  define b c where "b = int (bitlen m)" and "c = int (bitlen n)"
  have q: "0 < q" and x: "x = of_int p / of_int q"
    using pq by (simp_all add: quotient_of_denom_pos quotient_of_div)
  with assms have p: "0 < p" by (simp add: zero_less_divide_iff)
  have xmn: "x = of_nat m / of_nat n" "0 < m" "0 < n"
    using p q by (simp_all add: x m_def n_def)
  have bounds: "(of_nat i :: rat) < pow2 (int (bitlen i)) \<and> pow2 (int (bitlen i) - 1) \<le> of_nat i"
    if "0 < i" for i
  proof -
    have "0 < bitlen i" using that by (subst bitlen.simps) simp
    then have "pow2 (int (bitlen i) - 1) = 2 ^ (bitlen i - 1)"
      using pow2_nat [of "bitlen i - 1"] by simp
    moreover have "(of_nat i :: rat) < of_nat (2 ^ bitlen i)" "of_nat (2 ^ (bitlen i - 1)) \<le> (of_nat i :: rat)"
      using bitlen_bounds [OF that] by (simp_all only: of_nat_less_iff of_nat_le_iff)
    ultimately show ?thesis by (simp add: pow2_nat)
  qed
  have mb: "(of_nat m :: rat) < pow2 b" "pow2 (b - 1) \<le> of_nat m"
    using bounds [OF xmn(2)] by (simp_all add: b_def)
  have nb: "(of_nat n :: rat) < pow2 c" "pow2 (c - 1) \<le> of_nat n"
    using bounds [OF xmn(3)] by (simp_all add: c_def)
  have psum: "pow2 b = pow2 (b - c + 1) * pow2 (c - 1)"
    using pow2_sum [of "b - c + 1" "c - 1"] by simp
  have "pow2 (b - c + 1) * pow2 (c - 1) \<le> pow2 (b - c + 1) * of_nat n"
    by (rule mult_left_mono [OF nb(2)]) simp
  then have "(of_nat m :: rat) < pow2 (b - c + 1) * of_nat n"
    using mb(1) psum by linarith
  then have up: "x < pow2 (b - c + 1)" using xmn by (simp add: divide_less_eq)
  have psum2: "pow2 (b - 1) = pow2 (b - c - 1) * pow2 c"
    using pow2_sum [of "b - c - 1" c] by simp
  have "pow2 (b - c - 1) * of_nat n < pow2 (b - c - 1) * pow2 c"
    by (rule mult_strict_left_mono [OF nb(1)]) simp
  then have "pow2 (b - c - 1) * of_nat n < (of_nat m :: rat)"
    using mb(2) psum2 by linarith
  then have lo: "pow2 (b - c - 1) \<le> x" using xmn by (simp add: le_divide_eq)
  have "ilog2 x = (if pow2 (b - c) \<le> x then b - c else b - c - 1)"
    by (simp add: ilog2_def pq Let_def b_def c_def m_def n_def)
  then show ?thesis using up lo by auto
qed

lemma ilog2_mono: "0 < x \<Longrightarrow> x \<le> y \<Longrightarrow> ilog2 x \<le> ilog2 y"
proof (rule ccontr)
  assume a: "0 < x" "x \<le> y" "\<not> ilog2 x \<le> ilog2 y"
  then have "pow2 (ilog2 y + 1) \<le> pow2 (ilog2 x)" by (intro pow2_mono) simp
  with a ilog2_bounds [of x] ilog2_bounds [of y] show False by simp
qed

lemma round_even_of_int [simp]: "round_even (of_int n) = n"
  by (simp add: round_even_def)

lemma round_even_mono: "x \<le> y \<Longrightarrow> round_even x \<le> round_even y"
proof -
  assume xy: "x \<le> y"
  have b: "\<lfloor>z\<rfloor> \<le> round_even z \<and> round_even z \<le> \<lfloor>z\<rfloor> + 1" for z :: rat
    by (auto simp: round_even_def Let_def)
  consider "\<lfloor>x\<rfloor> < \<lfloor>y\<rfloor>" | "\<lfloor>x\<rfloor> = \<lfloor>y\<rfloor>" using floor_mono [OF xy] by linarith
  then show ?thesis
  proof cases
    case 1
    then show ?thesis using b [of x] b [of y] by linarith
  next
    case 2
    then show ?thesis using xy by (auto simp: round_even_def Let_def)
  qed
qed

lemma round_even_le: "x \<le> of_int n \<Longrightarrow> round_even x \<le> n"
  using round_even_mono [of x "of_int n"] by simp

lemma round_even_ge: "of_int n \<le> x \<Longrightarrow> n \<le> round_even x"
  using round_even_mono [of "of_int n" x] by simp

lemma rnd_nonneg: "0 \<le> x \<Longrightarrow> 0 \<le> rnd p emin x"
  by (auto simp: rnd_def Let_def intro!: mult_nonneg_nonneg round_even_ge [of 0, simplified])

lemma rnd_mono:
  assumes "0 \<le> x" "x \<le> y" "0 < p"
  shows "rnd p emin x \<le> rnd p emin y"
proof (cases "x = 0")
  case True
  then show ?thesis using rnd_nonneg [of y] assms by (simp add: rnd_def)
next
  case False
  define ex ey where "ex = max (ilog2 x) emin" and "ey = max (ilog2 y) emin"
  define ux uy where "ux = pow2 (ex - int p + 1)" and "uy = pow2 (ey - int p + 1)"
  have pos: "0 < x" "0 < y" "0 < ux" "0 < uy" using False assms by (simp_all add: ux_def uy_def)
  have r: "rnd p emin x = of_int (round_even (x / ux)) * ux"
    "rnd p emin y = of_int (round_even (y / uy)) * uy"
    using pos by (simp_all add: rnd_def Let_def ex_def ey_def ux_def uy_def)
  have "ex \<le> ey" using ilog2_mono [OF pos(1) assms(2)] by (simp add: ex_def ey_def)
  then consider "ex = ey" | "ex < ey" by linarith
  then show ?thesis
  proof cases
    case 1
    then have "ux = uy" by (simp add: ux_def uy_def)
    moreover have "x / ux \<le> y / ux" using assms(2) pos by (simp add: divide_right_mono)
    ultimately show ?thesis using pos round_even_mono by (simp add: r mult_right_mono)
  next
    case 2
    have "x \<le> pow2 (ex + 1)"
      using ilog2_bounds [OF pos(1)] pow2_mono [of "ilog2 x + 1" "ex + 1"] by (simp add: ex_def)
    also have "pow2 (ex + 1) = of_int (2 ^ p) * ux"
      using pow2_sum [of "ex - int p + 1" "int p"] by (simp add: ux_def pow2_nat)
    finally have "round_even (x / ux) \<le> 2 ^ p" using pos by (intro round_even_le) (simp add: divide_le_eq)
    then have "rnd p emin x \<le> of_int (2 ^ p) * ux"
      using pos by (simp only: r of_int_le_iff mult_le_cancel_right_pos)
    also have "\<dots> = pow2 (ex + 1)"
      using pow2_sum [of "ex - int p + 1" "int p"] by (simp add: ux_def pow2_nat)
    also have "\<dots> \<le> pow2 ey" using 2 by (intro pow2_mono) simp
    also have ey: "pow2 ey = of_int (2 ^ (p - 1)) * uy"
      using pow2_sum [of "ey - int p + 1" "int (p - 1)"] pow2_nat [of "p - 1"] assms(3)
      by (simp add: uy_def of_nat_diff)
    also have "\<dots> \<le> rnd p emin y"
    proof -
      have "ey = ilog2 y" using 2 unfolding ex_def ey_def by linarith
      then have "pow2 ey \<le> y" using ilog2_bounds [OF pos(2)] by simp
      then have "2 ^ (p - 1) \<le> round_even (y / uy)"
        using pos by (intro round_even_ge) (simp add: le_divide_eq ey)
      then show ?thesis using pos by (simp only: r of_int_le_iff mult_le_cancel_right_pos)
    qed
    finally show ?thesis .
  qed
qed

lemma fl_mono: "x \<le> y \<Longrightarrow> fl x \<le> fl y"
  using rnd_mono [of "- y" "- x" 53 "- 1022"] rnd_mono [of x y 53 "- 1022"]
    rnd_nonneg [of y 53 "- 1022"] rnd_nonneg [of "- x" 53 "- 1022"]
  by (auto simp: fl_def)

lemma fl_0 [simp]: "fl 0 = 0"
  by (simp add: fl_def rnd_def)

lemma fl_of_nat: "n \<le> 2 ^ 53 \<Longrightarrow> fl (of_nat n) = of_nat n"
proof (cases "n = 0")
  case False
  assume n: "n \<le> 2 ^ 53"
  define e where "e = ilog2 (of_nat n)"
  have b: "pow2 e \<le> of_nat n" "of_nat n < pow2 (e + 1)"
    using ilog2_bounds [of "of_nat n"] False by (simp_all add: e_def)
  have e0: "0 \<le> e"
  proof (rule ccontr)
    assume "\<not> 0 \<le> e"
    then have "pow2 (e + 1) \<le> pow2 0" by (intro pow2_mono) simp
    with b False show False by (simp add: pow2_def)
  qed
  have "\<exists>k. of_nat n / pow2 (e - 52) = (of_int k :: rat)"
  proof (cases "e \<le> 52")
    case True
    have "pow2 (e - 52) * pow2 (52 - e) = 1" using pow2_sum [of "e - 52" "52 - e"] by (simp add: pow2_def)
    then have "of_nat n / pow2 (e - 52) = of_nat n * pow2 (52 - e)"
      by (metis divide_inverse inverse_unique mult.commute)
    also have "\<dots> = of_int (int n * 2 ^ nat (52 - e))" using True by (simp add: pow2_def)
    finally show ?thesis by blast
  next
    case False
    then have "pow2 53 \<le> pow2 e" by (intro pow2_mono) simp
    moreover have "(of_nat n :: rat) \<le> of_nat (2 ^ 53)" using n by (simp only: of_nat_le_iff)
    ultimately have n': "(of_nat n :: rat) = pow2 53" "pow2 e = pow2 53"
      using b(1) by (simp_all add: pow2_def)
    have "e < 54"
    proof (rule ccontr)
      assume "\<not> e < 54"
      then have "pow2 54 \<le> pow2 e" by (intro pow2_mono) simp
      with n'(2) show False by (simp add: pow2_def)
    qed
    with False have "e = 53" by simp
    then have "of_nat n / pow2 (e - 52) = of_int (2 ^ 52)" using n' by (simp add: pow2_def)
    then show ?thesis by blast
  qed
  then obtain k where k: "of_nat n / pow2 (e - 52) = (of_int k :: rat)" by blast
  then have "of_int k * pow2 (e - 52) = of_nat n" by (simp add: field_simps)
  then show ?thesis
    using False e0 by (simp add: fl_def rnd_def Let_def k max_absorb1 flip: e_def)
qed simp

lemma fl_nonneg: "0 \<le> x \<Longrightarrow> 0 \<le> fl x"
  using fl_mono [of 0 x] by simp

lemma fl_of_int: "0 \<le> n \<Longrightarrow> n \<le> 2 ^ 53 \<Longrightarrow> fl (of_int n) = of_int n"
  using fl_of_nat [of "nat n"] by (simp add: of_nat_nat nat_le_iff)

lemma fl_le_int: "x \<le> of_int n \<Longrightarrow> 0 \<le> n \<Longrightarrow> n \<le> 2 ^ 53 \<Longrightarrow> fl x \<le> of_int n"
  using fl_mono [of x "of_int n"] by (simp add: fl_of_int)

lemma fl_ge_int: "of_int n \<le> x \<Longrightarrow> 0 \<le> n \<Longrightarrow> n \<le> 2 ^ 53 \<Longrightarrow> of_int n \<le> fl x"
  using fl_mono [of "of_int n" x] by (simp add: fl_of_int)

text \<open>A number with at most 53 significant bits is a double.\<close>

lemma ilog2_eq: "pow2 k \<le> x \<Longrightarrow> x < pow2 (k + 1) \<Longrightarrow> ilog2 x = k"
proof (rule ccontr)
  assume b: "pow2 k \<le> x" "x < pow2 (k + 1)" and n: "ilog2 x \<noteq> k"
  have "0 < x" using pow2_pos [of k] b(1) by linarith
  then have i: "pow2 (ilog2 x) \<le> x" "x < pow2 (ilog2 x + 1)" using ilog2_bounds by auto
  have "ilog2 x + 1 \<le> k \<or> k + 1 \<le> ilog2 x" using n by linarith
  then show False using pow2_mono [of "ilog2 x + 1" k] pow2_mono [of "k + 1" "ilog2 x"] b i by linarith
qed

lemma fl_dyadic:
  assumes "pow2 k \<le> x" "x < pow2 (k + 1)" "- 1022 \<le> k" "x = of_int m * pow2 (k - 52)"
  shows "fl x = x"
proof -
  have "0 < x" using pow2_pos [of k] assms(1) by linarith
  then show ?thesis using ilog2_eq [OF assms(1,2)] assms(3,4)
    by (simp add: fl_def rnd_def Let_def max_def)
qed

end
