(* ===== verification/Packets.thy ===== *)
theory Packets
  imports Wire Floats
begin

text \<open>
  The packet layer of \<^verbatim>\<open>app/packets.py\<close>: the packet identifiers, the composite
  readers of \<^verbatim>\<open>BanchoPacketReader\<close>, the writers, and the framing that
  \<^verbatim>\<open>write\<close> produces and \<^verbatim>\<open>_read_header\<close> consumes. The lemmas are the round trips of
  every composite format and the framing law.
\<close>

section \<open>Packet identifiers\<close>

datatype (plugins only: size code) client_packet =
    CP_UNKNOWN_PACKET | CP_CHANGE_ACTION | CP_SEND_PUBLIC_MESSAGE | CP_LOGOUT
  | CP_REQUEST_STATUS_UPDATE | CP_PING | CP_START_SPECTATING | CP_STOP_SPECTATING
  | CP_SPECTATE_FRAMES | CP_ERROR_REPORT | CP_CANT_SPECTATE | CP_SEND_PRIVATE_MESSAGE
  | CP_PART_LOBBY | CP_JOIN_LOBBY | CP_CREATE_MATCH | CP_JOIN_MATCH | CP_PART_MATCH
  | CP_MATCH_CHANGE_SLOT | CP_MATCH_READY | CP_MATCH_LOCK | CP_MATCH_CHANGE_SETTINGS
  | CP_MATCH_START | CP_MATCH_SCORE_UPDATE | CP_MATCH_COMPLETE | CP_MATCH_CHANGE_MODS
  | CP_MATCH_LOAD_COMPLETE | CP_MATCH_NO_BEATMAP | CP_MATCH_NOT_READY | CP_MATCH_FAILED
  | CP_MATCH_HAS_BEATMAP | CP_MATCH_SKIP_REQUEST | CP_CHANNEL_JOIN
  | CP_BEATMAP_INFO_REQUEST | CP_MATCH_TRANSFER_HOST | CP_FRIEND_ADD | CP_FRIEND_REMOVE
  | CP_MATCH_CHANGE_TEAM | CP_CHANNEL_PART | CP_RECEIVE_UPDATES | CP_SET_AWAY_MESSAGE
  | CP_IRC_ONLY | CP_USER_STATS_REQUEST | CP_MATCH_INVITE | CP_MATCH_CHANGE_PASSWORD
  | CP_TOURNAMENT_MATCH_INFO_REQUEST | CP_USER_PRESENCE_REQUEST
  | CP_USER_PRESENCE_REQUEST_ALL | CP_TOGGLE_BLOCK_NON_FRIEND_DMS
  | CP_TOURNAMENT_JOIN_MATCH_CHANNEL | CP_TOURNAMENT_LEAVE_MATCH_CHANNEL

fun client_packet_id :: "client_packet \<Rightarrow> int" where
  "client_packet_id CP_UNKNOWN_PACKET = - 1"
| "client_packet_id CP_CHANGE_ACTION = 0"
| "client_packet_id CP_SEND_PUBLIC_MESSAGE = 1"
| "client_packet_id CP_LOGOUT = 2"
| "client_packet_id CP_REQUEST_STATUS_UPDATE = 3"
| "client_packet_id CP_PING = 4"
| "client_packet_id CP_START_SPECTATING = 16"
| "client_packet_id CP_STOP_SPECTATING = 17"
| "client_packet_id CP_SPECTATE_FRAMES = 18"
| "client_packet_id CP_ERROR_REPORT = 20"
| "client_packet_id CP_CANT_SPECTATE = 21"
| "client_packet_id CP_SEND_PRIVATE_MESSAGE = 25"
| "client_packet_id CP_PART_LOBBY = 29"
| "client_packet_id CP_JOIN_LOBBY = 30"
| "client_packet_id CP_CREATE_MATCH = 31"
| "client_packet_id CP_JOIN_MATCH = 32"
| "client_packet_id CP_PART_MATCH = 33"
| "client_packet_id CP_MATCH_CHANGE_SLOT = 38"
| "client_packet_id CP_MATCH_READY = 39"
| "client_packet_id CP_MATCH_LOCK = 40"
| "client_packet_id CP_MATCH_CHANGE_SETTINGS = 41"
| "client_packet_id CP_MATCH_START = 44"
| "client_packet_id CP_MATCH_SCORE_UPDATE = 47"
| "client_packet_id CP_MATCH_COMPLETE = 49"
| "client_packet_id CP_MATCH_CHANGE_MODS = 51"
| "client_packet_id CP_MATCH_LOAD_COMPLETE = 52"
| "client_packet_id CP_MATCH_NO_BEATMAP = 54"
| "client_packet_id CP_MATCH_NOT_READY = 55"
| "client_packet_id CP_MATCH_FAILED = 56"
| "client_packet_id CP_MATCH_HAS_BEATMAP = 59"
| "client_packet_id CP_MATCH_SKIP_REQUEST = 60"
| "client_packet_id CP_CHANNEL_JOIN = 63"
| "client_packet_id CP_BEATMAP_INFO_REQUEST = 68"
| "client_packet_id CP_MATCH_TRANSFER_HOST = 70"
| "client_packet_id CP_FRIEND_ADD = 73"
| "client_packet_id CP_FRIEND_REMOVE = 74"
| "client_packet_id CP_MATCH_CHANGE_TEAM = 77"
| "client_packet_id CP_CHANNEL_PART = 78"
| "client_packet_id CP_RECEIVE_UPDATES = 79"
| "client_packet_id CP_SET_AWAY_MESSAGE = 82"
| "client_packet_id CP_IRC_ONLY = 84"
| "client_packet_id CP_USER_STATS_REQUEST = 85"
| "client_packet_id CP_MATCH_INVITE = 87"
| "client_packet_id CP_MATCH_CHANGE_PASSWORD = 90"
| "client_packet_id CP_TOURNAMENT_MATCH_INFO_REQUEST = 93"
| "client_packet_id CP_USER_PRESENCE_REQUEST = 97"
| "client_packet_id CP_USER_PRESENCE_REQUEST_ALL = 98"
| "client_packet_id CP_TOGGLE_BLOCK_NON_FRIEND_DMS = 99"
| "client_packet_id CP_TOURNAMENT_JOIN_MATCH_CHANNEL = 108"
| "client_packet_id CP_TOURNAMENT_LEAVE_MATCH_CHANNEL = 109"

definition client_packets :: "client_packet list" where
  "client_packets =
    [CP_UNKNOWN_PACKET, CP_CHANGE_ACTION, CP_SEND_PUBLIC_MESSAGE, CP_LOGOUT,
     CP_REQUEST_STATUS_UPDATE, CP_PING, CP_START_SPECTATING, CP_STOP_SPECTATING,
     CP_SPECTATE_FRAMES, CP_ERROR_REPORT, CP_CANT_SPECTATE, CP_SEND_PRIVATE_MESSAGE,
     CP_PART_LOBBY, CP_JOIN_LOBBY, CP_CREATE_MATCH, CP_JOIN_MATCH,
     CP_PART_MATCH, CP_MATCH_CHANGE_SLOT, CP_MATCH_READY, CP_MATCH_LOCK,
     CP_MATCH_CHANGE_SETTINGS, CP_MATCH_START, CP_MATCH_SCORE_UPDATE, CP_MATCH_COMPLETE,
     CP_MATCH_CHANGE_MODS, CP_MATCH_LOAD_COMPLETE, CP_MATCH_NO_BEATMAP, CP_MATCH_NOT_READY,
     CP_MATCH_FAILED, CP_MATCH_HAS_BEATMAP, CP_MATCH_SKIP_REQUEST, CP_CHANNEL_JOIN,
     CP_BEATMAP_INFO_REQUEST, CP_MATCH_TRANSFER_HOST, CP_FRIEND_ADD, CP_FRIEND_REMOVE,
     CP_MATCH_CHANGE_TEAM, CP_CHANNEL_PART, CP_RECEIVE_UPDATES, CP_SET_AWAY_MESSAGE,
     CP_IRC_ONLY, CP_USER_STATS_REQUEST, CP_MATCH_INVITE, CP_MATCH_CHANGE_PASSWORD,
     CP_TOURNAMENT_MATCH_INFO_REQUEST, CP_USER_PRESENCE_REQUEST, CP_USER_PRESENCE_REQUEST_ALL, CP_TOGGLE_BLOCK_NON_FRIEND_DMS,
     CP_TOURNAMENT_JOIN_MATCH_CHANNEL, CP_TOURNAMENT_LEAVE_MATCH_CHANNEL]"

text \<open>\<^verbatim>\<open>ClientPackets(n)\<close>: an identifier that is no member is a \<^verbatim>\<open>ValueError\<close>.\<close>

definition client_packet_of :: "int \<Rightarrow> client_packet result" where
  "client_packet_of n =
     (case find (\<lambda>p. client_packet_id p = n) client_packets of
        None \<Rightarrow> Inl ValueError | Some p \<Rightarrow> Inr p)"

datatype (plugins only: size code) server_packet =
    SP_USER_ID | SP_SEND_MESSAGE | SP_PONG | SP_HANDLE_IRC_CHANGE_USERNAME | SP_HANDLE_IRC_QUIT
  | SP_USER_STATS | SP_USER_LOGOUT | SP_SPECTATOR_JOINED | SP_SPECTATOR_LEFT
  | SP_SPECTATE_FRAMES | SP_VERSION_UPDATE | SP_SPECTATOR_CANT_SPECTATE | SP_GET_ATTENTION
  | SP_NOTIFICATION | SP_UPDATE_MATCH | SP_NEW_MATCH | SP_DISPOSE_MATCH
  | SP_TOGGLE_BLOCK_NON_FRIEND_DMS | SP_MATCH_JOIN_SUCCESS | SP_MATCH_JOIN_FAIL
  | SP_FELLOW_SPECTATOR_JOINED | SP_FELLOW_SPECTATOR_LEFT | SP_ALL_PLAYERS_LOADED
  | SP_MATCH_START | SP_MATCH_SCORE_UPDATE | SP_MATCH_TRANSFER_HOST
  | SP_MATCH_ALL_PLAYERS_LOADED | SP_MATCH_PLAYER_FAILED | SP_MATCH_COMPLETE
  | SP_MATCH_SKIP | SP_UNAUTHORIZED | SP_CHANNEL_JOIN_SUCCESS | SP_CHANNEL_INFO
  | SP_CHANNEL_KICK | SP_CHANNEL_AUTO_JOIN | SP_BEATMAP_INFO_REPLY | SP_PRIVILEGES
  | SP_FRIENDS_LIST | SP_PROTOCOL_VERSION | SP_MAIN_MENU_ICON | SP_MONITOR
  | SP_MATCH_PLAYER_SKIPPED | SP_USER_PRESENCE | SP_RESTART | SP_MATCH_INVITE
  | SP_CHANNEL_INFO_END | SP_MATCH_CHANGE_PASSWORD | SP_SILENCE_END | SP_USER_SILENCED
  | SP_USER_PRESENCE_SINGLE | SP_USER_PRESENCE_BUNDLE | SP_USER_DM_BLOCKED
  | SP_TARGET_IS_SILENCED | SP_VERSION_UPDATE_FORCED | SP_SWITCH_SERVER
  | SP_ACCOUNT_RESTRICTED | SP_RTX | SP_MATCH_ABORT | SP_SWITCH_TOURNAMENT_SERVER

fun server_packet_id :: "server_packet \<Rightarrow> int" where
  "server_packet_id SP_USER_ID = 5"
| "server_packet_id SP_SEND_MESSAGE = 7"
| "server_packet_id SP_PONG = 8"
| "server_packet_id SP_HANDLE_IRC_CHANGE_USERNAME = 9"
| "server_packet_id SP_HANDLE_IRC_QUIT = 10"
| "server_packet_id SP_USER_STATS = 11"
| "server_packet_id SP_USER_LOGOUT = 12"
| "server_packet_id SP_SPECTATOR_JOINED = 13"
| "server_packet_id SP_SPECTATOR_LEFT = 14"
| "server_packet_id SP_SPECTATE_FRAMES = 15"
| "server_packet_id SP_VERSION_UPDATE = 19"
| "server_packet_id SP_SPECTATOR_CANT_SPECTATE = 22"
| "server_packet_id SP_GET_ATTENTION = 23"
| "server_packet_id SP_NOTIFICATION = 24"
| "server_packet_id SP_UPDATE_MATCH = 26"
| "server_packet_id SP_NEW_MATCH = 27"
| "server_packet_id SP_DISPOSE_MATCH = 28"
| "server_packet_id SP_TOGGLE_BLOCK_NON_FRIEND_DMS = 34"
| "server_packet_id SP_MATCH_JOIN_SUCCESS = 36"
| "server_packet_id SP_MATCH_JOIN_FAIL = 37"
| "server_packet_id SP_FELLOW_SPECTATOR_JOINED = 42"
| "server_packet_id SP_FELLOW_SPECTATOR_LEFT = 43"
| "server_packet_id SP_ALL_PLAYERS_LOADED = 45"
| "server_packet_id SP_MATCH_START = 46"
| "server_packet_id SP_MATCH_SCORE_UPDATE = 48"
| "server_packet_id SP_MATCH_TRANSFER_HOST = 50"
| "server_packet_id SP_MATCH_ALL_PLAYERS_LOADED = 53"
| "server_packet_id SP_MATCH_PLAYER_FAILED = 57"
| "server_packet_id SP_MATCH_COMPLETE = 58"
| "server_packet_id SP_MATCH_SKIP = 61"
| "server_packet_id SP_UNAUTHORIZED = 62"
| "server_packet_id SP_CHANNEL_JOIN_SUCCESS = 64"
| "server_packet_id SP_CHANNEL_INFO = 65"
| "server_packet_id SP_CHANNEL_KICK = 66"
| "server_packet_id SP_CHANNEL_AUTO_JOIN = 67"
| "server_packet_id SP_BEATMAP_INFO_REPLY = 69"
| "server_packet_id SP_PRIVILEGES = 71"
| "server_packet_id SP_FRIENDS_LIST = 72"
| "server_packet_id SP_PROTOCOL_VERSION = 75"
| "server_packet_id SP_MAIN_MENU_ICON = 76"
| "server_packet_id SP_MONITOR = 80"
| "server_packet_id SP_MATCH_PLAYER_SKIPPED = 81"
| "server_packet_id SP_USER_PRESENCE = 83"
| "server_packet_id SP_RESTART = 86"
| "server_packet_id SP_MATCH_INVITE = 88"
| "server_packet_id SP_CHANNEL_INFO_END = 89"
| "server_packet_id SP_MATCH_CHANGE_PASSWORD = 91"
| "server_packet_id SP_SILENCE_END = 92"
| "server_packet_id SP_USER_SILENCED = 94"
| "server_packet_id SP_USER_PRESENCE_SINGLE = 95"
| "server_packet_id SP_USER_PRESENCE_BUNDLE = 96"
| "server_packet_id SP_USER_DM_BLOCKED = 100"
| "server_packet_id SP_TARGET_IS_SILENCED = 101"
| "server_packet_id SP_VERSION_UPDATE_FORCED = 102"
| "server_packet_id SP_SWITCH_SERVER = 103"
| "server_packet_id SP_ACCOUNT_RESTRICTED = 104"
| "server_packet_id SP_RTX = 105"
| "server_packet_id SP_MATCH_ABORT = 106"
| "server_packet_id SP_SWITCH_TOURNAMENT_SERVER = 107"

section \<open>Composite values\<close>

record message =
  msg_sender :: pystr
  msg_text :: pystr
  msg_recipient :: pystr
  msg_sender_id :: int

record chan_packet =
  cp_name :: pystr
  cp_topic :: pystr
  cp_players :: int

text \<open>A score frame; the two portions of a \<^verbatim>\<open>score_v2\<close> frame are float bit patterns.\<close>

record score_frame =
  sf_time :: int
  sf_id :: int
  num300 :: int
  num100 :: int
  num50 :: int
  num_geki :: int
  num_katu :: int
  num_miss :: int
  total_score :: int
  max_combo :: int
  current_combo :: int
  sf_perfect :: bool
  current_hp :: int
  tag_byte :: int
  score_v2 :: bool
  combo_portion :: "nat option"
  bonus_portion :: "nat option"

record replay_frame =
  button_state :: int
  taiko_byte :: int
  rf_x :: nat
  rf_y :: nat
  rf_time :: int

datatype replay_action =
    RA_Standard | RA_NewSong | RA_Skip | RA_Completion | RA_Fail | RA_Pause | RA_Unpause
  | RA_SongSelect | RA_WatchingOther

definition replay_actions :: "replay_action list" where
  "replay_actions = [RA_Standard, RA_NewSong, RA_Skip, RA_Completion, RA_Fail, RA_Pause,
     RA_Unpause, RA_SongSelect, RA_WatchingOther]"

definition replay_action_of :: "int \<Rightarrow> replay_action result" where
  "replay_action_of n =
     (if 0 \<le> n \<and> n < 9 then Inr (replay_actions ! nat n) else Inl ValueError)"

record replay_frame_bundle =
  replay_frames :: "replay_frame list"
  rb_score_frame :: score_frame
  rb_action :: replay_action
  rb_extra :: int
  rb_sequence :: int
  rb_raw_data :: bytes

text \<open>The match as a client sends it (\<^verbatim>\<open>MultiplayerMatch\<close>).\<close>

record multiplayer_match =
  mm_id :: int
  mm_in_progress :: bool
  mm_powerplay :: int
  mm_mods :: int
  mm_name :: pystr
  mm_passwd :: pystr
  mm_map_name :: pystr
  mm_map_id :: int
  mm_map_md5 :: pystr
  mm_slot_statuses :: "int list"
  mm_slot_teams :: "int list"
  mm_slot_ids :: "int list"
  mm_host_id :: int
  mm_mode :: int
  mm_win_condition :: int
  mm_team_type :: int
  mm_freemods :: bool
  mm_slot_mods :: "int list"
  mm_seed :: int

section \<open>The composite readers\<close>

definition read_raw :: "nat \<Rightarrow> bytes reader" where
  "read_raw current_len bs = Inr (take current_len bs, drop current_len bs)"

text \<open>
  \<^verbatim>\<open>struct.unpack(f'<{"I" * length}', view[: length * 4])\<close>: a short buffer is a
  \<^verbatim>\<open>struct.error\<close>; the elements are unsigned, whatever the name says.
\<close>

definition unpack_u32s :: "nat \<Rightarrow> int list reader" where
  "unpack_u32s n bs = (if length bs < 4 * n then Inl StructError else read_n n read_u32 bs)"

definition read_i32_list_i16l :: "int list reader" where
  "read_i32_list_i16l = rbind read_u16 (\<lambda>n. unpack_u32s (nat n))"

definition read_i32_list_i32l :: "int list reader" where
  "read_i32_list_i32l = rbind read_u32 (\<lambda>n. unpack_u32s (nat n))"

definition read_message :: "message reader" where
  "read_message =
     rbind read_string (\<lambda>sender. rbind read_string (\<lambda>txt.
     rbind read_string (\<lambda>recipient. rbind read_i32 (\<lambda>sender_id.
     rret \<lparr>msg_sender = sender, msg_text = txt, msg_recipient = recipient,
           msg_sender_id = sender_id\<rparr>))))"

definition read_channel :: "chan_packet reader" where
  "read_channel =
     rbind read_string (\<lambda>name. rbind read_string (\<lambda>topic. rbind read_i32 (\<lambda>players.
     rret \<lparr>cp_name = name, cp_topic = topic, cp_players = players\<rparr>)))"

definition has_player_bits :: "int \<Rightarrow> bool" where
  "has_player_bits status \<longleftrightarrow> status AND 124 \<noteq> 0"

definition read_match :: "multiplayer_match reader" where
  "read_match =
     rbind read_i16 (\<lambda>mid. rbind read_i8 (\<lambda>in_progress. rbind read_i8 (\<lambda>powerplay.
     rbind read_i32 (\<lambda>mods. rbind read_string (\<lambda>name. rbind read_string (\<lambda>passwd.
     rbind read_string (\<lambda>map_name. rbind read_i32 (\<lambda>map_id. rbind read_string (\<lambda>map_md5.
     rbind (read_n 16 read_i8) (\<lambda>statuses. rbind (read_n 16 read_i8) (\<lambda>teams.
     rbind (read_n (length (filter has_player_bits statuses)) read_i32) (\<lambda>slot_ids.
     rbind read_i32 (\<lambda>host_id. rbind read_i8 (\<lambda>mode. rbind read_i8 (\<lambda>win_condition.
     rbind read_i8 (\<lambda>team_type. rbind read_i8 (\<lambda>freemods.
     rbind (if freemods = 1 then read_n 16 read_i32 else rret []) (\<lambda>slot_mods.
     rbind read_i32 (\<lambda>seed.
     rret \<lparr>mm_id = mid, mm_in_progress = (in_progress = 1), mm_powerplay = powerplay,
           mm_mods = mods, mm_name = name, mm_passwd = passwd, mm_map_name = map_name,
           mm_map_id = map_id, mm_map_md5 = map_md5, mm_slot_statuses = statuses,
           mm_slot_teams = teams, mm_slot_ids = slot_ids, mm_host_id = host_id,
           mm_mode = mode, mm_win_condition = win_condition, mm_team_type = team_type,
           mm_freemods = (freemods = 1), mm_slot_mods = slot_mods, mm_seed = seed\<rparr>)))))))))))))))))))"

text \<open>\<^verbatim>\<open>SCOREFRAME_FMT = "<iBHHHHHHiHH?BB?"\<close>, 29 bytes; \<^verbatim>\<open>?\<close> reads any non-zero byte as true.\<close>

definition read_bool :: "bool reader" where
  "read_bool = rbind read_u8 (\<lambda>b. rret (b \<noteq> 0))"

definition unpack_scoreframe :: "score_frame reader" where
  "unpack_scoreframe bs =
     (if length bs < 29 then Inl StructError
      else
       rbind read_i32 (\<lambda>t. rbind read_u8 (\<lambda>i. rbind read_u16 (\<lambda>n300. rbind read_u16 (\<lambda>n100.
       rbind read_u16 (\<lambda>n50. rbind read_u16 (\<lambda>geki. rbind read_u16 (\<lambda>katu. rbind read_u16 (\<lambda>miss.
       rbind read_i32 (\<lambda>total. rbind read_u16 (\<lambda>maxc. rbind read_u16 (\<lambda>curc.
       rbind read_bool (\<lambda>perfect. rbind read_u8 (\<lambda>hp. rbind read_u8 (\<lambda>tag. rbind read_bool (\<lambda>v2.
       rret \<lparr>sf_time = t, sf_id = i, num300 = n300, num100 = n100, num50 = n50,
             num_geki = geki, num_katu = katu, num_miss = miss, total_score = total,
             max_combo = maxc, current_combo = curc, sf_perfect = perfect, current_hp = hp,
             tag_byte = tag, score_v2 = v2, combo_portion = None, bonus_portion = None\<rparr>))))))))))))))) bs)"

definition read_scoreframe :: "score_frame reader" where
  "read_scoreframe =
     rbind unpack_scoreframe (\<lambda>sf.
       if score_v2 sf then
         rbind read_f64 (\<lambda>c. rbind read_f64 (\<lambda>b.
         rret (sf\<lparr>combo_portion := Some c, bonus_portion := Some b\<rparr>)))
       else rret sf)"

definition read_replayframe :: "replay_frame reader" where
  "read_replayframe =
     rbind read_u8 (\<lambda>button. rbind read_u8 (\<lambda>taiko. rbind read_f32 (\<lambda>x. rbind read_f32 (\<lambda>y.
     rbind read_i32 (\<lambda>t.
     rret \<lparr>button_state = button, taiko_byte = taiko, rf_x = x, rf_y = y, rf_time = t\<rparr>)))))"

definition read_replayframe_bundle :: "nat \<Rightarrow> replay_frame_bundle reader" where
  "read_replayframe_bundle current_len = (\<lambda>view.
     rbind read_i32 (\<lambda>extra. rbind read_u16 (\<lambda>framecount.
     rbind (read_n (nat framecount) read_replayframe) (\<lambda>frames.
     rbind read_u8 (\<lambda>a. rbind (\<lambda>bs. bindE (replay_action_of a) (\<lambda>act. Inr (act, bs))) (\<lambda>act.
     rbind read_scoreframe (\<lambda>sf. rbind read_u16 (\<lambda>sequence.
     rret \<lparr>replay_frames = frames, rb_score_frame = sf, rb_action = act, rb_extra = extra,
           rb_sequence = sequence, rb_raw_data = take current_len view\<rparr>))))))) view)"

text \<open>
  \<^verbatim>\<open>decode_scoreframe\<close> is total: a short frame, or a \<^verbatim>\<open>score_v2\<close> frame without its two
  floats, is \<open>None\<close>.
\<close>

definition decode_scoreframe :: "bytes \<Rightarrow> score_frame option" where
  "decode_scoreframe raw =
     (if length raw < 29 then None
      else (case unpack_scoreframe raw of
              Inl _ \<Rightarrow> None
            | Inr (sf, rest) \<Rightarrow>
                if score_v2 sf then
                  (if length rest < 16 then None
                   else Some (sf\<lparr>combo_portion := Some (le_nat (take 8 rest)),
                                 bonus_portion := Some (le_nat (take 8 (drop 8 rest)))\<rparr>))
                else Some sf))"

section \<open>The writers\<close>

text \<open>\<^verbatim>\<open>ret += ...\<close> in sequence: the first failing piece raises.\<close>

fun concatE :: "bytes result list \<Rightarrow> bytes result" where
  "concatE [] = Inr []"
| "concatE (r # rs) = bindE r (\<lambda>b. bindE (concatE rs) (\<lambda>bs. Inr (b @ bs)))"

definition write_i32_list :: "int list \<Rightarrow> bytes result" where
  "write_i32_list l =
     concatE (enc_unsigned OverflowError 2 (int (length l)) # map (enc_signed OverflowError 4) l)"

definition write_message :: "pystr \<Rightarrow> pystr \<Rightarrow> pystr \<Rightarrow> int \<Rightarrow> bytes result" where
  "write_message sender msg recipient sender_id =
     concatE [write_string sender, write_string msg, write_string recipient,
              enc_signed OverflowError 4 sender_id]"

definition write_channel :: "pystr \<Rightarrow> pystr \<Rightarrow> int \<Rightarrow> bytes result" where
  "write_channel name topic count =
     concatE [write_string name, write_string topic, enc_unsigned OverflowError 2 count]"

text \<open>
  What \<^verbatim>\<open>write_match\<close> reads of a \<^verbatim>\<open>Match\<close>. The host is resolved while the packet is
  written and its lookup can raise, so it is a result; a slot holds the id of its player,
  if it has one.
\<close>

record slot_info =
  si_player :: "int option"
  si_status :: int
  si_team :: int
  si_mods :: int

record match_info =
  mi_id :: int
  mi_in_progress :: bool
  mi_mods :: int
  mi_name :: pystr
  mi_passwd :: pystr
  mi_map_name :: pystr
  mi_map_id :: int
  mi_map_md5 :: pystr
  mi_slots :: "slot_info list"
  mi_host :: "int result"
  mi_mode :: int
  mi_win_condition :: int
  mi_team_type :: int
  mi_freemods :: bool
  mi_seed :: int

definition slot_player_bytes :: "slot_info \<Rightarrow> bytes result" where
  "slot_player_bytes s =
     (if has_player_bits (si_status s) then
        (case si_player s of None \<Rightarrow> Inl AssertionError
         | Some i \<Rightarrow> enc_unsigned OverflowError 4 i)
      else Inr [])"

definition passwd_bytes :: "pystr \<Rightarrow> bool \<Rightarrow> bytes result" where
  "passwd_bytes passwd send_pw =
     (if passwd \<noteq> [] then (if send_pw then write_string passwd else Inr [0x0B, 0]) else Inr [0])"

definition write_match :: "match_info \<Rightarrow> bool \<Rightarrow> bytes result" where
  "write_match m send_pw =
     concatE ([enc_unsigned StructError 2 (mi_id m),
               enc_signed StructError 1 (of_bool (mi_in_progress m)), enc_signed StructError 1 0,
               enc_unsigned StructError 4 (mi_mods m), write_string (mi_name m),
               passwd_bytes (mi_passwd m) send_pw, write_string (mi_map_name m),
               enc_signed OverflowError 4 (mi_map_id m), write_string (mi_map_md5 m)]
       @ map (\<lambda>s. enc_unsigned ValueError 1 (si_status s)) (mi_slots m)
       @ map (\<lambda>s. enc_unsigned ValueError 1 (si_team s)) (mi_slots m)
       @ map slot_player_bytes (mi_slots m)
       @ [bindE (mi_host m) (enc_unsigned OverflowError 4),
          enc_unsigned ValueError 1 (mi_mode m), enc_unsigned ValueError 1 (mi_win_condition m),
          enc_unsigned ValueError 1 (mi_team_type m),
          enc_unsigned ValueError 1 (of_bool (mi_freemods m))]
       @ (if mi_freemods m
          then map (\<lambda>s. enc_unsigned OverflowError 4 (si_mods s)) (mi_slots m) else [])
       @ [enc_unsigned OverflowError 4 (mi_seed m)])"

definition write_scoreframe :: "score_frame \<Rightarrow> bytes result" where
  "write_scoreframe s =
     concatE [enc_signed StructError 4 (sf_time s), enc_unsigned StructError 1 (sf_id s),
       enc_unsigned StructError 2 (num300 s), enc_unsigned StructError 2 (num100 s),
       enc_unsigned StructError 2 (num50 s), enc_unsigned StructError 2 (num_geki s),
       enc_unsigned StructError 2 (num_katu s), enc_unsigned StructError 2 (num_miss s),
       enc_signed StructError 4 (total_score s), enc_unsigned StructError 2 (max_combo s),
       enc_unsigned StructError 2 (current_combo s),
       enc_unsigned StructError 1 (of_bool (sf_perfect s)),
       enc_unsigned StructError 1 (current_hp s), enc_unsigned StructError 1 (tag_byte s),
       enc_unsigned StructError 1 (of_bool (score_v2 s))]"

text \<open>The typed arguments of \<^verbatim>\<open>write\<close>: \<^verbatim>\<open>osuTypes\<close> with the value each carries.\<close>

datatype packet_arg =
    A_i8 int | A_u8 int | A_i16 int | A_u16 int | A_i32 int | A_u32 int | A_f32 rat
  | A_i64 int | A_u64 int | A_f64 rat
  | A_string pystr | A_i32_list "int list" | A_scoreframe score_frame
  | A_message pystr pystr pystr int | A_channel pystr pystr int | A_match match_info bool
  | A_raw bytes

fun write_arg :: "packet_arg \<Rightarrow> bytes result" where
  "write_arg (A_i8 v) = enc_signed StructError 1 v"
| "write_arg (A_u8 v) = enc_unsigned StructError 1 v"
| "write_arg (A_i16 v) = enc_signed StructError 2 v"
| "write_arg (A_u16 v) = enc_unsigned StructError 2 v"
| "write_arg (A_i32 v) = enc_signed StructError 4 v"
| "write_arg (A_u32 v) = enc_unsigned StructError 4 v"
| "write_arg (A_f32 v) = bindE (f32_bits v) (enc_float 4)"
| "write_arg (A_i64 v) = enc_signed StructError 8 v"
| "write_arg (A_u64 v) = enc_unsigned StructError 8 v"
| "write_arg (A_f64 v) = bindE (f64_bits v) (enc_float 8)"
| "write_arg (A_string s) = write_string s"
| "write_arg (A_i32_list l) = write_i32_list l"
| "write_arg (A_scoreframe s) = write_scoreframe s"
| "write_arg (A_message sender msg recipient sid) = write_message sender msg recipient sid"
| "write_arg (A_channel name topic count) = write_channel name topic count"
| "write_arg (A_match m send_pw) = write_match m send_pw"
| "write_arg (A_raw bs) = Inr bs"

definition write_packet :: "int \<Rightarrow> packet_arg list \<Rightarrow> bytes result" where
  "write_packet packid args =
     bindE (enc_unsigned StructError 2 packid) (\<lambda>pid.
     bindE (concatE (map write_arg args)) (\<lambda>body.
     bindE (enc_unsigned StructError 4 (int (length body))) (\<lambda>len.
     Inr (pid @ [0] @ len @ body))))"

section \<open>Reading the packet stream\<close>

text \<open>\<^verbatim>\<open>struct.unpack("<HxI", view[:7])\<close> and the conversion to a member of \<^verbatim>\<open>ClientPackets\<close>.\<close>

definition unpack_header :: "(int \<times> nat) reader" where
  "unpack_header bs =
     (if length bs < 7 then Inl StructError
      else Inr ((from_le_unsigned (take 2 bs), le_nat (take 4 (drop 3 bs))), drop 7 bs))"

definition read_header :: "(client_packet \<times> nat) reader" where
  "read_header bs =
     bindE (unpack_header bs) (\<lambda>((pid, len), rest).
     bindE (client_packet_of pid) (\<lambda>p. Inr ((p, len), rest)))"

text \<open>
  \<^verbatim>\<open>BanchoPacketReader.__next__\<close>: skip the packets the map does not handle; \<open>None\<close> is
  \<^verbatim>\<open>StopIteration\<close>. The result holds the packet, its declared length and the buffer at its
  body: the body itself is consumed by the packet's own reads.
\<close>

function next_packet ::
  "(client_packet \<Rightarrow> bool) \<Rightarrow> bytes \<Rightarrow> (client_packet \<times> nat \<times> bytes) option result" where
  "next_packet handled view =
     (if view = [] then Inr None
      else case read_header view of
             Inl e \<Rightarrow> Inl e
           | Inr ((p, len), rest) \<Rightarrow>
               if handled p then Inr (Some (p, len, rest))
               else next_packet handled (if len \<noteq> 0 then drop len rest else rest))"
  by pat_completeness auto
termination
  by (relation "measure (\<lambda>(_, view). length view)")
    (auto simp: read_header_def unpack_header_def bindE_Inr_iff split: if_splits)

declare next_packet.simps [simp del]

section \<open>Round trips\<close>

lemma concatE_Inr_iff: "concatE (r # rs) = Inr bs \<longleftrightarrow> (\<exists>b c. r = Inr b \<and> concatE rs = Inr c \<and> bs = b @ c)"
  by (auto simp: bindE_Inr_iff)

lemma concatE_Nil_iff: "concatE [] = Inr bs \<longleftrightarrow> bs = []"
  by auto

lemma concatE_append: "concatE (rs @ qs) = bindE (concatE rs) (\<lambda>b. bindE (concatE qs) (\<lambda>c. Inr (b @ c)))"
  by (induction rs) (auto simp: bindE_def split: sum.splits)

lemma concatE_map: "concatE (map f xs) = bindE (mapE f xs) (\<lambda>bss. Inr (concat bss))"
  by (induction xs) (auto simp: bindE_def split: sum.splits)

lemma concatE_append_Inr_iff:
  "concatE (rs @ qs) = Inr bs \<longleftrightarrow> (\<exists>b c. concatE rs = Inr b \<and> concatE qs = Inr c \<and> bs = b @ c)"
  by (auto simp: concatE_append bindE_Inr_iff)

lemma concatE_map_Inr_iff: "concatE (map f xs) = Inr bs \<longleftrightarrow> (\<exists>bss. mapE f xs = Inr bss \<and> bs = concat bss)"
  by (auto simp: concatE_map bindE_Inr_iff)

lemmas concatE_iffs = concatE_Inr_iff concatE_Nil_iff concatE_append_Inr_iff concatE_map_Inr_iff

declare concatE.simps(2) [simp del]

definition valid_message :: "message \<Rightarrow> bool" where
  "valid_message m \<longleftrightarrow> valid_str (msg_sender m) \<and> valid_str (msg_text m) \<and>
     valid_str (msg_recipient m) \<and> fits_signed 4 (msg_sender_id m)"

lemma write_message_defined:
  "valid_message m \<Longrightarrow>
   \<exists>bs. write_message (msg_sender m) (msg_text m) (msg_recipient m) (msg_sender_id m) = Inr bs"
  using write_string_valid [of "msg_sender m"] write_string_valid [of "msg_text m"]
    write_string_valid [of "msg_recipient m"]
  by (auto simp: valid_message_def write_message_def concatE_iffs enc_signed_def)

lemma read_write_message:
  assumes "valid_message m"
    and "write_message (msg_sender m) (msg_text m) (msg_recipient m) (msg_sender_id m) = Inr bs"
  shows "read_message (bs @ rest) = Inr (m, rest)"
proof -
  from assms(1) have ok: "valid_str (msg_sender m)" "valid_str (msg_text m)"
    "valid_str (msg_recipient m)" "fits_signed 4 (msg_sender_id m)"
    by (simp_all add: valid_message_def)
  from assms(2) obtain b1 b2 b3 b4 where
    e: "write_string (msg_sender m) = Inr b1" "write_string (msg_text m) = Inr b2"
    "write_string (msg_recipient m) = Inr b3"
    "enc_signed OverflowError 4 (msg_sender_id m) = Inr b4"
    and bs: "bs = b1 @ b2 @ b3 @ b4"
    by (auto simp: write_message_def concatE_iffs)
  note r = string_format.dec_enc_bind [OF ok(1) e(1)] string_format.dec_enc_bind [OF ok(2) e(2)]
    string_format.dec_enc_bind [OF ok(3) e(3)] i32_format.dec_enc_bind [OF ok(4) e(4)]
  show ?thesis by (simp add: bs read_message_def r rret_def)
qed

interpretation message_format:
  wire_format "\<lambda>m. write_message (msg_sender m) (msg_text m) (msg_recipient m) (msg_sender_id m)"
    read_message valid_message
  by unfold_locales (simp_all add: write_message_defined read_write_message)

text \<open>
  The integer lists are written signed and read unsigned: a value comes back modulo
  \<open>2 ^ 32\<close>, so exactly the non-negative ones survive.
\<close>

lemma read_u32_int_bytes: "read_u32 (int_bytes 4 v @ rest) = Inr (v mod 2 ^ 32, rest)"
  using le_nat_int_bytes [of 4 v] by (simp add: read_u32_def from_le_unsigned_def)

lemma read_n_u32_int_bytes:
  "read_n (length l) read_u32 (concat (map (int_bytes 4) l) @ rest) =
   Inr (map (\<lambda>v. v mod 2 ^ 32) l, rest)"
  by (induction l) (simp_all add: rret_def rbind_def read_u32_int_bytes)

lemma mapE_enc_signed:
  "mapE (enc_signed e n) l = Inr bss \<longleftrightarrow> list_all (fits_signed n) l \<and> bss = map (int_bytes n) l"
  by (induction l arbitrary: bss) (auto simp: bindE_Inr_iff enc_signed_def)

lemma length_concat_int_bytes [simp]: "length (concat (map (int_bytes n) l)) = n * length l"
  by (induction l) simp_all

lemma read_write_i32_list:
  assumes "write_i32_list l = Inr bs"
  shows "read_i32_list_i16l (bs @ rest) = Inr (map (\<lambda>v. v mod 2 ^ 32) l, rest)"
proof -
  from assms obtain b where b: "enc_unsigned OverflowError 2 (int (length l)) = Inr b"
    and bs: "bs = b @ concat (map (int_bytes 4) l)"
    by (auto simp: write_i32_list_def concatE_iffs mapE_enc_signed)
  have "b = int_bytes 2 (int (length l))" "fits_unsigned 2 (int (length l))"
    using b by (auto simp: enc_unsigned_def split: if_splits)
  then have "read_u16 (b @ r) = Inr (int (length l), r)" for r
    by (simp add: read_u16_def from_le_unsigned_int_bytes)
  then show ?thesis
    by (simp add: bs read_i32_list_i16l_def rbind_def unpack_u32s_def read_n_u32_int_bytes)
qed

subsection \<open>Score frames\<close>

definition valid_scoreframe :: "score_frame \<Rightarrow> bool" where
  "valid_scoreframe s \<longleftrightarrow>
     fits_signed 4 (sf_time s) \<and> fits_unsigned 1 (sf_id s) \<and>
     fits_unsigned 2 (num300 s) \<and> fits_unsigned 2 (num100 s) \<and> fits_unsigned 2 (num50 s) \<and>
     fits_unsigned 2 (num_geki s) \<and> fits_unsigned 2 (num_katu s) \<and>
     fits_unsigned 2 (num_miss s) \<and> fits_signed 4 (total_score s) \<and>
     fits_unsigned 2 (max_combo s) \<and> fits_unsigned 2 (current_combo s) \<and>
     fits_unsigned 1 (current_hp s) \<and> fits_unsigned 1 (tag_byte s) \<and>
     combo_portion s = None \<and> bonus_portion s = None"

lemma fits_unsigned_bool: "fits_unsigned 1 (of_bool b)"
  by (cases b) (simp_all add: fits_unsigned_def)

lemma write_scoreframe_valid:
  "valid_scoreframe s \<Longrightarrow>
   write_scoreframe s = Inr (int_bytes 4 (sf_time s) @ int_bytes 1 (sf_id s) @
     int_bytes 2 (num300 s) @ int_bytes 2 (num100 s) @ int_bytes 2 (num50 s) @
     int_bytes 2 (num_geki s) @ int_bytes 2 (num_katu s) @ int_bytes 2 (num_miss s) @
     int_bytes 4 (total_score s) @ int_bytes 2 (max_combo s) @ int_bytes 2 (current_combo s) @
     int_bytes 1 (of_bool (sf_perfect s)) @ int_bytes 1 (current_hp s) @ int_bytes 1 (tag_byte s) @
     int_bytes 1 (of_bool (score_v2 s)))"
  by (simp add: write_scoreframe_def valid_scoreframe_def concatE.simps(2) enc_signed_def
      enc_unsigned_def fits_unsigned_bool del: One_nat_def of_bool_eq_iff)

lemma i32_bytes_bind: "fits_signed 4 v \<Longrightarrow> rbind read_i32 k (int_bytes 4 v @ rest) = k v rest"
  by (rule i32_format.dec_enc_bind [of v OverflowError]) (simp_all add: enc_signed_def)

lemma u16_bytes_bind: "fits_unsigned 2 v \<Longrightarrow> rbind read_u16 k (int_bytes 2 v @ rest) = k v rest"
  by (rule u16_format.dec_enc_bind) (simp_all add: enc_unsigned_def)

lemma u8_bytes_bind: "fits_unsigned 1 v \<Longrightarrow> rbind read_u8 k (int_bytes 1 v @ rest) = k v rest"
  by (rule u8_format.dec_enc_bind) (simp_all add: enc_unsigned_def)

lemma bool_bytes_bind: "rbind read_bool k (int_bytes 1 (of_bool b) @ rest) = k b rest"
proof -
  have "rbind read_u8 (\<lambda>b. rret (b \<noteq> 0)) (int_bytes 1 (of_bool b) @ rest) = Inr (b, rest)"
    by (subst u8_bytes_bind, rule fits_unsigned_bool) (simp add: rret_def)
  then show ?thesis by (simp add: rbind_def [of "rbind _ _"] read_bool_def del: of_bool_eq_iff One_nat_def)
qed

lemma unpack_write_scoreframe:
  assumes v: "valid_scoreframe s" and w: "write_scoreframe s = Inr bs"
  shows "unpack_scoreframe (bs @ rest) = Inr (s, rest)"
proof -
  note bs = write_scoreframe_valid [OF v, unfolded w sum.inject]
  show ?thesis
    using v unfolding valid_scoreframe_def bs
    by (simp add: unpack_scoreframe_def i32_bytes_bind u16_bytes_bind u8_bytes_bind
        bool_bytes_bind rret_def del: One_nat_def)
qed

lemma read_write_scoreframe:
  assumes "valid_scoreframe s" "\<not> score_v2 s" "write_scoreframe s = Inr bs"
  shows "read_scoreframe (bs @ rest) = Inr (s, rest)"
  using unpack_write_scoreframe [OF assms(1,3)] assms(2)
  by (simp add: read_scoreframe_def rbind_def rret_def)

text \<open>The total decoder agrees with the raising reader: same frames, \<open>None\<close> for every failure.\<close>

lemma read_u8_Inr_iff: "read_u8 bs = Inr (v, r) \<longleftrightarrow> bs \<noteq> [] \<and> v = int (unat (hd bs)) \<and> r = tl bs"
  by (cases bs) (auto simp: read_u8_def)

lemma unpack_scoreframe_total:
  assumes "29 \<le> length raw"
  shows "\<exists>sf rest. unpack_scoreframe raw = Inr (sf, rest) \<and> length rest = length raw - 29"
proof -
  have i32: "rbind read_i32 k bs = k (from_le_signed (take 4 bs)) (drop 4 bs)" for k :: "int \<Rightarrow> score_frame reader" and bs
    by (simp add: rbind_def read_i32_def)
  have u16: "rbind read_u16 k bs = k (from_le_unsigned (take 2 bs)) (drop 2 bs)" for k :: "int \<Rightarrow> score_frame reader" and bs
    by (simp add: rbind_def read_u16_def)
  have u8: "rbind read_u8 k bs = k (int (unat (bs ! 0))) (drop 1 bs)" if "0 < length bs" for k :: "int \<Rightarrow> score_frame reader" and bs
    using that by (cases bs) (simp_all add: rbind_def read_u8_def)
  have bl: "rbind read_bool k bs = k (int (unat (bs ! 0)) \<noteq> 0) (drop 1 bs)" if "0 < length bs" for k :: "bool \<Rightarrow> score_frame reader" and bs
    using that by (cases bs) (simp_all add: rbind_def read_bool_def read_u8_def rret_def)
  show ?thesis
    using assms by (simp add: unpack_scoreframe_def i32 u16 u8 bl rret_def)
qed

lemma decode_scoreframe_reader:
  "decode_scoreframe raw =
   (case read_scoreframe raw of Inl _ \<Rightarrow> None | Inr (sf, _) \<Rightarrow> Some sf)"
proof (cases "29 \<le> length raw")
  case False
  then show ?thesis
    by (simp add: decode_scoreframe_def read_scoreframe_def rbind_def unpack_scoreframe_def)
next
  case True
  then obtain sf rest where u: "unpack_scoreframe raw = Inr (sf, rest)"
    using unpack_scoreframe_total by blast
  with True show ?thesis
    by (auto simp: decode_scoreframe_def read_scoreframe_def rbind_def rret_def read_f64_def read_float_def)
qed

subsection \<open>Matches\<close>

text \<open>
  What a peer reads back from a written match. \<open>ok_match\<close> lists what the wire can carry:
  16 slots, every occupied status with its player, and each field in its range.
\<close>

definition as_i8 :: "int \<Rightarrow> int" where
  "as_i8 v = (if 127 < v then v - 256 else v)"

definition ok_match :: "match_info \<Rightarrow> int \<Rightarrow> bool" where
  "ok_match m host \<longleftrightarrow>
     0 \<le> mi_id m \<and> mi_id m < 2 ^ 15 \<and> 0 \<le> mi_mods m \<and> mi_mods m < 2 ^ 31 \<and>
     valid_str (mi_name m) \<and> valid_str (mi_passwd m) \<and> valid_str (mi_map_name m) \<and>
     fits_signed 4 (mi_map_id m) \<and> valid_str (mi_map_md5 m) \<and> length (mi_slots m) = 16 \<and>
     (\<forall>s \<in> set (mi_slots m). fits_unsigned 1 (si_status s) \<and> fits_unsigned 1 (si_team s) \<and>
        0 \<le> si_mods s \<and> si_mods s < 2 ^ 31 \<and>
        (has_player_bits (si_status s) \<longrightarrow> (\<exists>i. si_player s = Some i \<and> 0 \<le> i \<and> i < 2 ^ 31))) \<and>
     mi_host m = Inr host \<and> 0 \<le> host \<and> host < 2 ^ 31 \<and>
     0 \<le> mi_mode m \<and> mi_mode m < 128 \<and> 0 \<le> mi_win_condition m \<and> mi_win_condition m < 128 \<and>
     0 \<le> mi_team_type m \<and> mi_team_type m < 128 \<and> 0 \<le> mi_seed m \<and> mi_seed m < 2 ^ 31"

definition match_as_read :: "match_info \<Rightarrow> int \<Rightarrow> bool \<Rightarrow> multiplayer_match" where
  "match_as_read m host send_pw =
     \<lparr>mm_id = mi_id m, mm_in_progress = mi_in_progress m, mm_powerplay = 0, mm_mods = mi_mods m,
      mm_name = mi_name m, mm_passwd = (if send_pw then mi_passwd m else []),
      mm_map_name = mi_map_name m, mm_map_id = mi_map_id m, mm_map_md5 = mi_map_md5 m,
      mm_slot_statuses = map (\<lambda>s. as_i8 (si_status s)) (mi_slots m),
      mm_slot_teams = map (\<lambda>s. as_i8 (si_team s)) (mi_slots m),
      mm_slot_ids = map (\<lambda>s. the (si_player s)) (filter (\<lambda>s. has_player_bits (si_status s)) (mi_slots m)),
      mm_host_id = host, mm_mode = mi_mode m, mm_win_condition = mi_win_condition m,
      mm_team_type = mi_team_type m, mm_freemods = mi_freemods m,
      mm_slot_mods = (if mi_freemods m then map si_mods (mi_slots m) else []),
      mm_seed = mi_seed m\<rparr>"

text \<open>Unsigned encodings below half the range read back signed.\<close>

lemma unsigned_as_signed:
  assumes "enc_unsigned e n v = Inr bs" "v < 2 ^ (8 * n - 1)" "0 < n"
  shows "enc_signed e' n v = Inr bs" "fits_signed n v"
proof -
  from assms(1) have "fits_unsigned n v" "bs = int_bytes n v"
    by (auto simp: enc_unsigned_def split: if_splits)
  moreover have "0 \<le> v" using calculation by (simp add: fits_unsigned_def)
  ultimately show "fits_signed n v" "enc_signed e' n v = Inr bs"
    using assms(2) by (auto simp: fits_signed_def enc_signed_def fits_unsigned_def
        intro: order_trans [of _ "0 :: int"])
qed

lemma read_i8_int_bytes:
  assumes "fits_unsigned 1 v"
  shows "read_i8 (int_bytes 1 v @ rest) = Inr (as_i8 v, rest)"
proof -
  have v: "0 \<le> v" "v < 256" using assms by (simp_all add: fits_unsigned_def)
  have "nat v mod 256 = nat v" using v by (simp add: nat_less_iff)
  then have "int_bytes 1 v = [byte_of (nat v)]"
    using v by (simp add: int_bytes_def byte_of_def)
  moreover have "unat (byte_of (nat v)) = nat v"
    using v by (simp add: nat_less_iff)
  ultimately show ?thesis using v by (auto simp: read_i8_def as_i8_def)
qed

lemma read_n_i8_int_bytes:
  "\<forall>x \<in> set xs. fits_unsigned 1 (f x) \<Longrightarrow>
   read_n (length xs) read_i8 (concat (map (\<lambda>x. int_bytes 1 (f x)) xs) @ rest) =
   Inr (map (\<lambda>x. as_i8 (f x)) xs, rest)"
  by (induction xs) (simp_all add: rret_def rbind_def read_i8_int_bytes del: One_nat_def)

lemma mapE_enc_unsigned:
  "\<forall>x \<in> set xs. fits_unsigned n (f x) \<Longrightarrow>
   mapE (\<lambda>x. enc_unsigned e n (f x)) xs = Inr (map (\<lambda>x. int_bytes n (f x)) xs)"
  by (rule mapE_Inr) (simp add: enc_unsigned_def)

lemma read_i32_int_bytes: "fits_signed 4 v \<Longrightarrow> read_i32 (int_bytes 4 v @ rest) = Inr (v, rest)"
  by (rule i32_format.dec_enc [of v OverflowError]) (simp_all add: enc_signed_def)

lemma read_n_i32_int_bytes:
  "\<forall>x \<in> set xs. fits_signed 4 (f x) \<Longrightarrow>
   read_n (length xs) read_i32 (concat (map (\<lambda>x. int_bytes 4 (f x)) xs) @ rest) = Inr (map f xs, rest)"
  by (induction xs) (simp_all add: rret_def rbind_def read_i32_int_bytes)

lemma rbind_of: "m bs = Inr (x, r) \<Longrightarrow> rbind m k bs = k x r"
  by (simp add: rbind_def)

lemma has_player_bits_as_i8: "0 \<le> v \<Longrightarrow> v < 256 \<Longrightarrow> has_player_bits (as_i8 v) = has_player_bits v"
proof -
  have "(v - 256) AND 124 = v AND 124"
  proof (rule bit_eqI)
    fix n :: nat
    have "bit (v - 256) n = bit v n" if "n < 7"
    proof -
      have "take_bit 7 (v - 256) = take_bit 7 v"
        using mod_diff_right_eq [of v 256 128] by (simp add: take_bit_eq_mod)
      then have "bit (take_bit 7 (v - 256)) n = bit (take_bit 7 v) n" by simp
      then show ?thesis using that by (simp add: bit_take_bit_iff)
    qed
    moreover have "n < 7" if "bit (124 :: int) n"
    proof -
      have "take_bit 7 (124 :: int) = 124" by (simp add: take_bit_eq_mod)
      then have "bit (take_bit 7 (124 :: int)) n" using that by simp
      then show ?thesis by (simp only: bit_take_bit_iff)
    qed
    ultimately show "bit ((v - 256) AND 124) n = bit (v AND 124) n"
      by (auto simp: bit_and_iff)
  qed
  then show ?thesis by (simp add: as_i8_def has_player_bits_def)
qed

lemma slot_player_bytes_ok:
  assumes "\<forall>s \<in> set ss. has_player_bits (si_status s) \<longrightarrow> (\<exists>i. si_player s = Some i \<and> 0 \<le> i \<and> i < 2 ^ 31)"
  shows "mapE slot_player_bytes ss = Inr (map (\<lambda>s. if has_player_bits (si_status s)
       then int_bytes 4 (the (si_player s)) else []) ss)"
  by (rule mapE_Inr)
    (use assms in \<open>auto simp: slot_player_bytes_def enc_unsigned_def fits_unsigned_def\<close>)

lemma concat_if_filter: "concat (map (\<lambda>x. if p x then f x else []) xs) = concat (map f (filter p xs))"
  by (induction xs) simp_all

lemma write_match_defined:
  assumes "ok_match m host"
  obtains n pw mn md where
    "write_string (mi_name m) = Inr n" "passwd_bytes (mi_passwd m) send_pw = Inr pw"
    "write_string (mi_map_name m) = Inr mn" "write_string (mi_map_md5 m) = Inr md"
    "write_match m send_pw = Inr (int_bytes 2 (mi_id m) @ int_bytes 1 (of_bool (mi_in_progress m)) @
       int_bytes 1 0 @ int_bytes 4 (mi_mods m) @ n @ pw @ mn @ int_bytes 4 (mi_map_id m) @ md @
       concat (map (\<lambda>s. int_bytes 1 (si_status s)) (mi_slots m)) @
       concat (map (\<lambda>s. int_bytes 1 (si_team s)) (mi_slots m)) @
       concat (map (\<lambda>s. int_bytes 4 (the (si_player s)))
         (filter (\<lambda>s. has_player_bits (si_status s)) (mi_slots m))) @
       int_bytes 4 host @ int_bytes 1 (mi_mode m) @ int_bytes 1 (mi_win_condition m) @
       int_bytes 1 (mi_team_type m) @ int_bytes 1 (of_bool (mi_freemods m)) @
       (if mi_freemods m then concat (map (\<lambda>s. int_bytes 4 (si_mods s)) (mi_slots m)) else []) @
       int_bytes 4 (mi_seed m))"
proof -
  from assms obtain n p mn md where s: "write_string (mi_name m) = Inr n"
    "write_string (mi_passwd m) = Inr p" "write_string (mi_map_name m) = Inr mn"
    "write_string (mi_map_md5 m) = Inr md"
    using write_string_valid unfolding ok_match_def by metis
  then have "\<exists>pw. passwd_bytes (mi_passwd m) send_pw = Inr pw"
    by (auto simp: passwd_bytes_def)
  then obtain pw where pw: "passwd_bytes (mi_passwd m) send_pw = Inr pw" by blast
  have sl: "mapE (\<lambda>s. enc_unsigned ValueError 1 (si_status s)) (mi_slots m) =
      Inr (map (\<lambda>s. int_bytes 1 (si_status s)) (mi_slots m))"
    "mapE (\<lambda>s. enc_unsigned ValueError 1 (si_team s)) (mi_slots m) =
      Inr (map (\<lambda>s. int_bytes 1 (si_team s)) (mi_slots m))"
    "mapE (\<lambda>s. enc_unsigned OverflowError 4 (si_mods s)) (mi_slots m) =
      Inr (map (\<lambda>s. int_bytes 4 (si_mods s)) (mi_slots m))"
    using assms by (auto intro!: mapE_enc_unsigned simp: ok_match_def fits_unsigned_def [of 4])
  have sp: "mapE slot_player_bytes (mi_slots m) = Inr (map (\<lambda>s. if has_player_bits (si_status s)
       then int_bytes 4 (the (si_player s)) else []) (mi_slots m))"
    using assms by (intro slot_player_bytes_ok) (simp add: ok_match_def)
  have b: "fits_signed 1 0" "fits_signed 1 1" "fits_unsigned 1 0" "fits_unsigned 1 1"
    by (simp_all add: fits_signed_def fits_unsigned_def)
  show thesis
    by (rule that [OF s(1) pw s(3,4)])
      (use assms s pw sl sp in \<open>simp add: write_match_def concatE_append concatE_map concatE.simps(2) b
         enc_signed_def enc_unsigned_def fits_unsigned_def [of _ "mi_id m"] fits_unsigned_def [of _ host]
         fits_unsigned_def [of _ "mi_mods m"] fits_unsigned_def [of _ "mi_seed m"]
         fits_unsigned_def [of _ "mi_mode m"] fits_unsigned_def [of _ "mi_win_condition m"]
         fits_unsigned_def [of _ "mi_team_type m"]
         ok_match_def concat_if_filter del: One_nat_def of_bool_eq_iff\<close>)
qed

lemma read_passwd_bytes:
  assumes "valid_str p" "passwd_bytes p send_pw = Inr bs"
  shows "read_string (bs @ rest) = Inr (if send_pw then p else [], rest)"
proof (cases "p \<noteq> [] \<and> send_pw")
  case True
  with assms read_write_string show ?thesis by (simp add: passwd_bytes_def)
next
  case False
  then show ?thesis
    using assms by (auto simp: passwd_bytes_def read_string_def split: if_splits)
qed

text \<open>A match read back from its packet body, with or without the password.\<close>

lemma read_write_match:
  assumes ok: "ok_match m host" and w: "write_match m send_pw = Inr bs"
  shows "read_match (bs @ rest) = Inr (match_as_read m host send_pw, rest)"
proof -
  obtain n pw mn md where e: "write_string (mi_name m) = Inr n"
    "passwd_bytes (mi_passwd m) send_pw = Inr pw" "write_string (mi_map_name m) = Inr mn"
    "write_string (mi_map_md5 m) = Inr md"
    and bs: "write_match m send_pw = Inr (int_bytes 2 (mi_id m) @ int_bytes 1 (of_bool (mi_in_progress m)) @
       int_bytes 1 0 @ int_bytes 4 (mi_mods m) @ n @ pw @ mn @ int_bytes 4 (mi_map_id m) @ md @
       concat (map (\<lambda>s. int_bytes 1 (si_status s)) (mi_slots m)) @
       concat (map (\<lambda>s. int_bytes 1 (si_team s)) (mi_slots m)) @
       concat (map (\<lambda>s. int_bytes 4 (the (si_player s)))
         (filter (\<lambda>s. has_player_bits (si_status s)) (mi_slots m))) @
       int_bytes 4 host @ int_bytes 1 (mi_mode m) @ int_bytes 1 (mi_win_condition m) @
       int_bytes 1 (mi_team_type m) @ int_bytes 1 (of_bool (mi_freemods m)) @
       (if mi_freemods m then concat (map (\<lambda>s. int_bytes 4 (si_mods s)) (mi_slots m)) else []) @
       int_bytes 4 (mi_seed m))"
    using write_match_defined [OF ok] by blast
  have vs: "valid_str (mi_name m)" "valid_str (mi_passwd m)" "valid_str (mi_map_name m)"
    "valid_str (mi_map_md5 m)"
    using ok by (simp_all add: ok_match_def)
  note rd = rbind_of [where m = read_string]
  note str = rd [OF read_write_string [OF vs(1) e(1)]] rd [OF read_passwd_bytes [OF vs(2) e(2)]]
    rd [OF read_write_string [OF vs(3) e(3)]] rd [OF read_write_string [OF vs(4) e(4)]]
  have i16: "rbind read_i16 k (int_bytes 2 (mi_id m) @ r) = k (mi_id m) r" for k :: "int \<Rightarrow> multiplayer_match reader" and r
    using ok by (intro i16_format.dec_enc_bind) (simp_all add: enc_signed_def fits_signed_def ok_match_def)
  have i8: "rbind read_i8 k (int_bytes 1 v @ r) = k v r"
    if "0 \<le> v" "v < 128" for v and k :: "int \<Rightarrow> multiplayer_match reader" and r
    using that read_i8_int_bytes [of v r]
    by (simp add: rbind_def fits_unsigned_def as_i8_def del: One_nat_def)
  have i8b: "rbind read_i8 k (int_bytes 1 (of_bool b) @ r) = k (of_bool b) r"
    for b and k :: "int \<Rightarrow> multiplayer_match reader" and r
    by (rule i8) auto
  have st: "rbind (read_n 16 read_i8) k (concat (map (\<lambda>s. int_bytes 1 (f s)) (mi_slots m)) @ r) =
      k (map (\<lambda>s. as_i8 (f s)) (mi_slots m)) r"
    if "\<forall>s \<in> set (mi_slots m). fits_unsigned 1 (f s)" for f k r
    using ok read_n_i8_int_bytes [OF that] by (intro rbind_of) (simp add: ok_match_def)
  have md: "rbind (read_n 16 read_i32) k (concat (map (\<lambda>s. int_bytes 4 (si_mods s)) (mi_slots m)) @ r) =
      k (map si_mods (mi_slots m)) r" for k r
  proof (rule rbind_of)
    have "\<forall>s \<in> set (mi_slots m). fits_signed 4 (si_mods s)"
      using ok by (force simp: ok_match_def fits_signed_def)
    moreover have "length (mi_slots m) = 16" using ok by (simp add: ok_match_def)
    ultimately show "read_n 16 read_i32 (concat (map (\<lambda>s. int_bytes 4 (si_mods s)) (mi_slots m)) @ r) =
        Inr (map si_mods (mi_slots m), r)"
      using read_n_i32_int_bytes [of "mi_slots m" si_mods r] by simp
  qed
  define occ where "occ = filter (\<lambda>s. has_player_bits (si_status s)) (mi_slots m)"
  have "filter has_player_bits (map (\<lambda>s. as_i8 (si_status s)) (mi_slots m)) =
      map (\<lambda>s. as_i8 (si_status s)) occ"
    using ok by (auto simp: occ_def filter_map ok_match_def fits_unsigned_def has_player_bits_as_i8
        intro!: arg_cong [where f = "map _"] filter_cong)
  then have len: "length (filter has_player_bits (map (\<lambda>s. as_i8 (si_status s)) (mi_slots m))) = length occ"
    by simp
  have "\<forall>s \<in> set occ. fits_signed 4 (the (si_player s))"
    using ok by (force simp: occ_def ok_match_def fits_signed_def)
  then have ids: "rbind (read_n (length occ) read_i32) k (concat (map (\<lambda>s. int_bytes 4 (the (si_player s))) occ) @ r) =
      k (map (\<lambda>s. the (si_player s)) occ) r" for k r
    by (intro rbind_of read_n_i32_int_bytes)
  have bs': "bs = int_bytes 2 (mi_id m) @ int_bytes 1 (of_bool (mi_in_progress m)) @
       int_bytes 1 0 @ int_bytes 4 (mi_mods m) @ n @ pw @ mn @ int_bytes 4 (mi_map_id m) @ md @
       concat (map (\<lambda>s. int_bytes 1 (si_status s)) (mi_slots m)) @
       concat (map (\<lambda>s. int_bytes 1 (si_team s)) (mi_slots m)) @
       concat (map (\<lambda>s. int_bytes 4 (the (si_player s))) occ) @
       int_bytes 4 host @ int_bytes 1 (mi_mode m) @ int_bytes 1 (mi_win_condition m) @
       int_bytes 1 (mi_team_type m) @ int_bytes 1 (of_bool (mi_freemods m)) @
       (if mi_freemods m then concat (map (\<lambda>s. int_bytes 4 (si_mods s)) (mi_slots m)) else []) @
       int_bytes 4 (mi_seed m)"
    using w bs by (simp add: occ_def)
  have rngs: "fits_signed 4 (mi_mods m)" "fits_signed 4 (mi_map_id m)" "fits_signed 4 host"
    "fits_signed 4 (mi_seed m)"
    using ok by (auto simp: ok_match_def fits_signed_def)
  show ?thesis
    unfolding bs' read_match_def
    using ok by (simp add: ok_match_def i16 i8 i8b st i32_bytes_bind rngs str md len [unfolded length_filter_map] ids rret_def
        match_as_read_def occ_def [symmetric] rbind_def [of "\<lambda>bs. Inr ([], bs)"]
        del: One_nat_def of_bool_eq_iff)
qed

section \<open>Framing\<close>

text \<open>
  A written packet is its 7-byte header and its body; the header of a written packet is read
  back with the id, the exact body length and the buffer at the body.
\<close>

lemma write_packet_shape:
  assumes "write_packet pid args = Inr bs"
  shows "\<exists>body. concatE (map write_arg args) = Inr body \<and> length body < 2 ^ 32 \<and> fits_unsigned 2 pid \<and>
     bs = int_bytes 2 pid @ [0] @ int_bytes 4 (int (length body)) @ body"
proof -
  from assms obtain body where
    "concatE (map write_arg args) = Inr body"
    "bs = int_bytes 2 pid @ [0] @ int_bytes 4 (int (length body)) @ body"
    "fits_unsigned 2 pid" "fits_unsigned 4 (int (length body))"
    by (auto simp: write_packet_def bindE_Inr_iff enc_unsigned_def split: if_splits)
  then show ?thesis by (auto simp: fits_unsigned_def)
qed

lemma unpack_header_written:
  assumes "fits_unsigned 2 pid" "length body < 2 ^ 32"
  shows "unpack_header (int_bytes 2 pid @ [0] @ int_bytes 4 (int (length body)) @ body @ rest) =
     Inr ((pid, length body), body @ rest)"
proof -
  have "int (le_nat (int_bytes 4 (int (length body)))) = int (length body)"
    using assms(2) by (simp add: le_nat_int_bytes)
  then show ?thesis
    using assms(1) by (simp add: unpack_header_def from_le_unsigned_int_bytes)
qed

lemma next_packet_Nil [simp]: "next_packet handled [] = Inr None"
  by (subst next_packet.simps) simp

lemma next_packet_cons:
  assumes "view \<noteq> []"
  shows "next_packet handled view =
     (case read_header view of
        Inl e \<Rightarrow> Inl e
      | Inr ((p, len), rest) \<Rightarrow>
          if handled p then Inr (Some (p, len, rest)) else next_packet handled (drop len rest))"
  using assms by (subst next_packet.simps) (auto split: sum.split prod.split)

lemma client_packet_of_id: "client_packet_of (client_packet_id p) = Inr p"
  by (cases p) (simp_all add: client_packet_of_def client_packets_def)

lemma client_packet_of_Inr: "client_packet_of n = Inr p \<Longrightarrow> client_packet_id p = n"
  by (auto simp: client_packet_of_def find_Some_iff split: option.splits)

end
