(* ===== verification/ServerPackets.thy ===== *)
theory ServerPackets
  imports Packets
begin

text \<open>
  The packets the server sends (the constructors of \<^verbatim>\<open>app/packets.py\<close>), and the
  accuracy of a decoded score frame. A constructor raises what \<^verbatim>\<open>write\<close> raises.
  \<^verbatim>\<open>functools.cache\<close> does not change what a call returns; where the cached value is
  drawn at random (\<^verbatim>\<open>bot_stats\<close>) the draw is an argument.
\<close>

section \<open>The statistics and status a packet shows\<close>

record mode_data =
  tscore :: int
  rscore :: int
  md_pp :: int
  md_acc :: rat
  plays :: int
  playtime :: int
  md_max_combo :: int
  total_hits :: int
  md_rank :: int

record player_status =
  st_action :: int
  st_info_text :: pystr
  st_map_md5 :: pystr
  st_mods :: int
  st_mode :: int
  st_map_id :: int

section \<open>Constructors\<close>

definition pkt :: "server_packet \<Rightarrow> packet_arg list \<Rightarrow> bytes result" where
  "pkt p args = write_packet (server_packet_id p) args"

datatype login_failure =
    AUTHENTICATION_FAILED | OLD_CLIENT | BANNED | ERROR_OCCURRED | NEEDS_SUPPORTER
  | PASSWORD_RESET | REQUIRES_VERIFICATION

fun login_failure_id :: "login_failure \<Rightarrow> int" where
  "login_failure_id AUTHENTICATION_FAILED = - 1"
| "login_failure_id OLD_CLIENT = - 2"
| "login_failure_id BANNED = - 3"
| "login_failure_id ERROR_OCCURRED = - 5"
| "login_failure_id NEEDS_SUPPORTER = - 6"
| "login_failure_id PASSWORD_RESET = - 7"
| "login_failure_id REQUIRES_VERIFICATION = - 8"

definition login_reply :: "int \<Rightarrow> bytes result" where
  "login_reply user_id = pkt SP_USER_ID [A_i32 user_id]"

definition send_message :: "pystr \<Rightarrow> pystr \<Rightarrow> pystr \<Rightarrow> int \<Rightarrow> bytes result" where
  "send_message sender msg recipient sender_id =
     pkt SP_SEND_MESSAGE [A_message sender msg recipient sender_id]"

definition pong :: "bytes result" where
  "pong = pkt SP_PONG []"

definition change_username :: "pystr \<Rightarrow> pystr \<Rightarrow> bytes result" where
  "change_username old new = pkt SP_HANDLE_IRC_CHANGE_USERNAME [A_string (old @ py ''>>>>'' @ new)]"

definition bot_statuses :: "(int \<times> pystr) list" where
  "bot_statuses =
     [(3, py ''the source code..''), (6, py ''geohot livestreams..''),
      (6, py ''asottile tutorials..''), (6, py ''over the server..''),
      (8, py ''out new features..''), (9, py ''a pull request..'')]"

definition bot_stats :: "nat \<Rightarrow> int \<Rightarrow> bytes result" where
  "bot_stats choice pid =
     (let (status_id, status_txt) = bot_statuses ! (choice mod length bot_statuses) in
      pkt SP_USER_STATS
        [A_i32 pid, A_u8 status_id, A_string status_txt, A_string [], A_i32 0, A_u8 0, A_i32 0,
         A_i64 0, A_f32 0, A_i32 0, A_i64 0, A_i32 0, A_u16 0])"

definition user_stats_args :: "int \<Rightarrow> int \<Rightarrow> pystr \<Rightarrow> pystr \<Rightarrow> int \<Rightarrow> int \<Rightarrow> int \<Rightarrow> int \<Rightarrow> rat \<Rightarrow> int \<Rightarrow> int \<Rightarrow> int \<Rightarrow> int \<Rightarrow> bytes result" where
  "user_stats_args user_id action info_text map_md5 mods mode map_id ranked_score accuracy plays_n total_score_n global_rank pp =
     (let ranked_score' = (if 0xFFFF < pp then pp else ranked_score);
          pp' = (if 0xFFFF < pp then 0 else pp) in
      pkt SP_USER_STATS
        [A_i32 user_id, A_u8 action, A_string info_text, A_string map_md5, A_i32 mods, A_u8 mode,
         A_i32 map_id, A_i64 ranked_score', A_f32 (fdiv accuracy 100), A_i32 plays_n,
         A_i64 total_score_n, A_i32 global_rank, A_u16 pp'])"

definition user_stats :: "int \<Rightarrow> player_status \<Rightarrow> mode_data \<Rightarrow> bytes result" where
  "user_stats pid st gm =
     (let rsc = (if 0xFFFF < md_pp gm then md_pp gm else rscore gm);
          pp = (if 0xFFFF < md_pp gm then 0 else md_pp gm) in
      pkt SP_USER_STATS
        [A_i32 pid, A_u8 (st_action st), A_string (st_info_text st), A_string (st_map_md5 st),
         A_i32 (st_mods st), A_u8 (st_mode st mod 4), A_i32 (st_map_id st), A_i64 rsc,
         A_f32 (fdiv (md_acc gm) 100), A_i32 (plays gm), A_i64 (tscore gm), A_i32 (md_rank gm),
         A_u16 pp])"

definition logout_packet :: "int \<Rightarrow> bytes result" where
  "logout_packet user_id = pkt SP_USER_LOGOUT [A_i32 user_id, A_u8 0]"

definition spectator_joined :: "int \<Rightarrow> bytes result" where
  "spectator_joined user_id = pkt SP_SPECTATOR_JOINED [A_i32 user_id]"

definition spectator_left :: "int \<Rightarrow> bytes result" where
  "spectator_left user_id = pkt SP_SPECTATOR_LEFT [A_i32 user_id]"

definition spectate_frames :: "bytes \<Rightarrow> bytes result" where
  "spectate_frames data = pkt SP_SPECTATE_FRAMES [A_raw data]"

definition version_update :: "bytes result" where
  "version_update = pkt SP_VERSION_UPDATE []"

definition spectator_cant_spectate :: "int \<Rightarrow> bytes result" where
  "spectator_cant_spectate user_id = pkt SP_SPECTATOR_CANT_SPECTATE [A_i32 user_id]"

definition get_attention :: "bytes result" where
  "get_attention = pkt SP_GET_ATTENTION []"

definition notification :: "pystr \<Rightarrow> bytes result" where
  "notification msg = pkt SP_NOTIFICATION [A_string msg]"

definition update_match :: "match_info \<Rightarrow> bool \<Rightarrow> bytes result" where
  "update_match m send_pw = pkt SP_UPDATE_MATCH [A_match m send_pw]"

definition new_match :: "match_info \<Rightarrow> bytes result" where
  "new_match m = pkt SP_NEW_MATCH [A_match m True]"

definition dispose_match :: "int \<Rightarrow> bytes result" where
  "dispose_match mid = pkt SP_DISPOSE_MATCH [A_i32 mid]"

definition toggle_block_non_friend_dm :: "bytes result" where
  "toggle_block_non_friend_dm = pkt SP_TOGGLE_BLOCK_NON_FRIEND_DMS []"

definition match_join_success :: "match_info \<Rightarrow> bytes result" where
  "match_join_success m = pkt SP_MATCH_JOIN_SUCCESS [A_match m True]"

definition match_join_fail :: "bytes result" where
  "match_join_fail = pkt SP_MATCH_JOIN_FAIL []"

definition fellow_spectator_joined :: "int \<Rightarrow> bytes result" where
  "fellow_spectator_joined user_id = pkt SP_FELLOW_SPECTATOR_JOINED [A_i32 user_id]"

definition fellow_spectator_left :: "int \<Rightarrow> bytes result" where
  "fellow_spectator_left user_id = pkt SP_FELLOW_SPECTATOR_LEFT [A_i32 user_id]"

definition match_start :: "match_info \<Rightarrow> bytes result" where
  "match_start m = pkt SP_MATCH_START [A_match m True]"

definition match_score_update :: "score_frame \<Rightarrow> bytes result" where
  "match_score_update frame = pkt SP_MATCH_SCORE_UPDATE [A_scoreframe frame]"

definition match_transfer_host :: "bytes result" where
  "match_transfer_host = pkt SP_MATCH_TRANSFER_HOST []"

definition match_all_players_loaded :: "bytes result" where
  "match_all_players_loaded = pkt SP_MATCH_ALL_PLAYERS_LOADED []"

definition match_player_failed :: "int \<Rightarrow> bytes result" where
  "match_player_failed slot_id = pkt SP_MATCH_PLAYER_FAILED [A_i32 slot_id]"

definition match_complete :: "bytes result" where
  "match_complete = pkt SP_MATCH_COMPLETE []"

definition match_skip :: "bytes result" where
  "match_skip = pkt SP_MATCH_SKIP []"

definition channel_join :: "pystr \<Rightarrow> bytes result" where
  "channel_join name = pkt SP_CHANNEL_JOIN_SUCCESS [A_string name]"

definition channel_info :: "pystr \<Rightarrow> pystr \<Rightarrow> int \<Rightarrow> bytes result" where
  "channel_info name topic p_count = pkt SP_CHANNEL_INFO [A_channel name topic p_count]"

definition channel_kick :: "pystr \<Rightarrow> bytes result" where
  "channel_kick name = pkt SP_CHANNEL_KICK [A_string name]"

definition channel_auto_join :: "pystr \<Rightarrow> pystr \<Rightarrow> int \<Rightarrow> bytes result" where
  "channel_auto_join name topic p_count = pkt SP_CHANNEL_AUTO_JOIN [A_channel name topic p_count]"

definition bancho_privileges :: "int \<Rightarrow> bytes result" where
  "bancho_privileges priv = pkt SP_PRIVILEGES [A_i32 priv]"

definition friends_list :: "int list \<Rightarrow> bytes result" where
  "friends_list friends = pkt SP_FRIENDS_LIST [A_i32_list friends]"

definition protocol_version :: "int \<Rightarrow> bytes result" where
  "protocol_version ver = pkt SP_PROTOCOL_VERSION [A_i32 ver]"

definition main_menu_icon :: "pystr \<Rightarrow> pystr \<Rightarrow> bytes result" where
  "main_menu_icon icon_url onclick_url =
     pkt SP_MAIN_MENU_ICON [A_string (icon_url @ py ''|'' @ onclick_url)]"

definition monitor :: "bytes result" where
  "monitor = pkt SP_MONITOR []"

definition match_player_skipped :: "int \<Rightarrow> bytes result" where
  "match_player_skipped user_id = pkt SP_MATCH_PLAYER_SKIPPED [A_i32 user_id]"

definition bot_presence :: "int \<Rightarrow> pystr \<Rightarrow> bytes result" where
  "bot_presence pid name =
     pkt SP_USER_PRESENCE
       [A_i32 pid, A_string name, A_u8 (- 5 + 24), A_u8 245, A_u8 31, A_f32 1234, A_f32 4321, A_i32 0]"

definition user_presence_args :: "int \<Rightarrow> pystr \<Rightarrow> int \<Rightarrow> int \<Rightarrow> int \<Rightarrow> int \<Rightarrow> rat \<Rightarrow> rat \<Rightarrow> int \<Rightarrow> bytes result" where
  "user_presence_args user_id name utc_offset country_code priv mode latitude longitude global_rank =
     pkt SP_USER_PRESENCE
       [A_i32 user_id, A_string name, A_u8 (utc_offset + 24), A_u8 country_code,
        A_u8 (priv OR push_bit 5 mode), A_f32 longitude, A_f32 latitude, A_i32 global_rank]"

text \<open>\<^verbatim>\<open>user_presence(player)\<close>, from the fields of the player it reads.\<close>

definition user_presence :: "int \<Rightarrow> pystr \<Rightarrow> int \<Rightarrow> int \<Rightarrow> int \<Rightarrow> int \<Rightarrow> rat \<Rightarrow> rat \<Rightarrow> int \<Rightarrow> bytes result" where
  "user_presence pid name utc_offset country bancho_priv mode latitude longitude global_rank =
     pkt SP_USER_PRESENCE
       [A_i32 pid, A_string name, A_u8 (utc_offset + 24), A_u8 country,
        A_u8 (bancho_priv OR push_bit 5 (mode mod 4)), A_f32 longitude, A_f32 latitude,
        A_i32 global_rank]"

definition restart_server :: "int \<Rightarrow> bytes result" where
  "restart_server ms = pkt SP_RESTART [A_i32 ms]"

definition match_invite :: "pystr \<Rightarrow> int \<Rightarrow> pystr \<Rightarrow> pystr \<Rightarrow> bytes result" where
  "match_invite name pid match_embed target_name =
     pkt SP_MATCH_INVITE
       [A_message name (py ''Come join my game: '' @ match_embed @ py ''.'') target_name pid]"

definition channel_info_end :: "bytes result" where
  "channel_info_end = pkt SP_CHANNEL_INFO_END []"

definition match_change_password :: "pystr \<Rightarrow> bytes result" where
  "match_change_password new = pkt SP_MATCH_CHANGE_PASSWORD [A_string new]"

definition silence_end_packet :: "int \<Rightarrow> bytes result" where
  "silence_end_packet delta = pkt SP_SILENCE_END [A_i32 delta]"

definition user_silenced :: "int \<Rightarrow> bytes result" where
  "user_silenced user_id = pkt SP_USER_SILENCED [A_i32 user_id]"

definition user_presence_single :: "int \<Rightarrow> bytes result" where
  "user_presence_single user_id = pkt SP_USER_PRESENCE_SINGLE [A_i32 user_id]"

definition user_presence_bundle :: "int list \<Rightarrow> bytes result" where
  "user_presence_bundle user_ids = pkt SP_USER_PRESENCE_BUNDLE [A_i32_list user_ids]"

definition user_dm_blocked :: "pystr \<Rightarrow> bytes result" where
  "user_dm_blocked target = pkt SP_USER_DM_BLOCKED [A_message [] [] target 0]"

definition target_silenced :: "pystr \<Rightarrow> bytes result" where
  "target_silenced target = pkt SP_TARGET_IS_SILENCED [A_message [] [] target 0]"

definition version_update_forced :: "bytes result" where
  "version_update_forced = pkt SP_VERSION_UPDATE_FORCED []"

definition switch_server :: "int \<Rightarrow> bytes result" where
  "switch_server t = pkt SP_SWITCH_SERVER [A_i32 t]"

definition account_restricted :: "bytes result" where
  "account_restricted = pkt SP_ACCOUNT_RESTRICTED []"

definition rtx :: "pystr \<Rightarrow> bytes result" where
  "rtx msg = pkt SP_RTX [A_string msg]"

definition match_abort :: "bytes result" where
  "match_abort = pkt SP_MATCH_ABORT []"

definition switch_tournament_server :: "pystr \<Rightarrow> bytes result" where
  "switch_tournament_server ip = pkt SP_SWITCH_TOURNAMENT_SERVER [A_string ip]"

section \<open>Accuracy of a score frame\<close>

definition scoreframe_accuracy :: "score_frame \<Rightarrow> int \<Rightarrow> rat result" where
  "scoreframe_accuracy sf mode_vn =
     (if mode_vn = 0 then
        (let total = num300 sf + num100 sf + num50 sf + num_miss sf in
         if total = 0 then Inr 0
         else Inr (fdiv (fmul 100 (fadd (fadd (fmul (fint (num300 sf)) 300) (fmul (fint (num100 sf)) 100))
                                        (fmul (fint (num50 sf)) 50)))
                        (fmul (fint total) 300)))
      else if mode_vn = 1 then
        (let total = num300 sf + num100 sf + num_miss sf in
         if total = 0 then Inr 0
         else Inr (fdiv (fmul 100 (fadd (fmul (fint (num100 sf)) (1 / 2)) (fint (num300 sf)))) (fint total)))
      else if mode_vn = 2 then
        (let total = num300 sf + num100 sf + num50 sf + num_katu sf + num_miss sf in
         if total = 0 then Inr 0
         else Inr (fdiv (fmul 100 (fint (num300 sf + num100 sf + num50 sf))) (fint total)))
      else if mode_vn = 3 then
        (let total = num300 sf + num100 sf + num50 sf + num_geki sf + num_katu sf + num_miss sf in
         if total = 0 then Inr 0
         else if score_v2 sf then
           Inr (fdiv (fmul 100 (fadd (fadd (fadd (fadd (fmul (fint (num50 sf)) 50) (fmul (fint (num100 sf)) 100))
                 (fmul (fint (num_katu sf)) 200)) (fmul (fint (num300 sf)) 300)) (fmul (fint (num_geki sf)) 305)))
               (fmul (fint total) 305))
         else
           Inr (fdiv (fmul 100 (fadd (fadd (fadd (fmul (fint (num50 sf)) 50) (fmul (fint (num100 sf)) 100))
                 (fmul (fint (num_katu sf)) 200)) (fmul (fint (num300 sf + num_geki sf)) 300)))
               (fmul (fint total) 300)))
      else Inl ValueError)"

text \<open>
  Every intermediate value of the accuracy formulas lies under an integer that a double holds
  exactly, so rounding cannot carry the result out of \<open>[0, 100]\<close>.
\<close>

definition counts_ok :: "score_frame \<Rightarrow> bool" where
  "counts_ok sf \<longleftrightarrow> (\<forall>n \<in> {num300 sf, num100 sf, num50 sf, num_geki sf, num_katu sf, num_miss sf}.
     0 \<le> n \<and> n \<le> 65535)"

definition under :: "rat \<Rightarrow> int \<Rightarrow> bool" where
  "under x n \<longleftrightarrow> 0 \<le> x \<and> x \<le> of_int n \<and> 0 \<le> n"

lemma under_fint: "0 \<le> n \<Longrightarrow> n \<le> 2 ^ 53 \<Longrightarrow> under (fint n) n"
  by (simp add: under_def fint_def fl_of_int)

lemma under_fadd: "under x m \<Longrightarrow> under y n \<Longrightarrow> m + n \<le> 2 ^ 53 \<Longrightarrow> under (fadd x y) (m + n)"
  using fl_le_int [of "x + y" "m + n"] fl_nonneg [of "x + y"] by (simp add: under_def fadd_def)

lemma under_fmul:
  assumes "under x m" "0 \<le> c" "m * c \<le> 2 ^ 53"
  shows "under (fmul x (of_int c)) (m * c)"
proof -
  have "x * of_int c \<le> of_int (m * c)"
    using assms by (simp add: under_def mult_right_mono)
  then show ?thesis
    using assms fl_le_int [of "x * of_int c" "m * c"] fl_nonneg [of "x * of_int c"]
    by (simp add: under_def fmul_def)
qed

lemma accuracy_quotient:
  assumes "under x s" "s \<le> t" "0 < t" "t * 100 \<le> 2 ^ 53" "d = of_int t"
  shows "0 \<le> fdiv (fmul 100 x) d \<and> fdiv (fmul 100 x) d \<le> 100"
proof -
  have st: "100 * s \<le> 100 * t" "100 * t \<le> 2 ^ 53" using assms by simp_all
  have "under (fmul x (of_int 100)) (s * 100)"
    using assms st by (intro under_fmul) simp_all
  then have u: "0 \<le> fmul 100 x" "fmul 100 x \<le> of_int (s * 100)"
    by (simp_all add: under_def fmul_def mult.commute)
  have "of_int (s * 100) \<le> (of_int (t * 100) :: rat)" using assms(2) by simp
  then have "fmul 100 x \<le> of_int (t * 100)" using u(2) by linarith
  then have "fmul 100 x / d \<le> of_int 100" using assms(3,5) by (simp add: divide_le_eq mult.commute)
  then have "fl (fmul 100 x / d) \<le> of_int 100" by (rule fl_le_int) simp_all
  moreover have "0 \<le> fmul 100 x / d" using u(1) assms(3,5) by simp
  ultimately show ?thesis using fl_nonneg by (simp add: fdiv_def)
qed

lemma fint_exact: "0 \<le> n \<Longrightarrow> n \<le> 2 ^ 53 \<Longrightarrow> fint n = of_int n"
  by (simp add: fint_def fl_of_int)

lemma fmul_exact: "0 \<le> m * c \<Longrightarrow> m * c \<le> 2 ^ 53 \<Longrightarrow> fmul (of_int m) (of_int c) = of_int (m * c)"
  unfolding fmul_def by (metis fl_of_int of_int_mult)

lemmas under_step = under_fadd under_fmul [where c = 50, simplified] under_fmul [where c = 100, simplified]
  under_fmul [where c = 200, simplified] under_fmul [where c = 300, simplified]
  under_fmul [where c = 305, simplified] under_fint

lemma under_half:
  assumes "under x m" "m \<le> 2 ^ 53"
  shows "under (fmul x (1 / 2)) m"
proof -
  have "x * (1 / 2) \<le> of_int m" using assms by (auto simp: under_def)
  then show ?thesis
    using assms fl_le_int [of "x * (1 / 2)" m] fl_nonneg [of "x * (1 / 2)"]
    by (simp add: under_def fmul_def)
qed

text \<open>The divisors of the formulas are exact.\<close>

lemma total_exact:
  assumes "0 \<le> t" "t \<le> 1000000"
  shows "fint t = of_int t" "fmul (fint t) 300 = of_int (t * 300)" "fmul (fint t) 305 = of_int (t * 305)"
  using assms fmul_exact [of t 300] fmul_exact [of t 305] by (simp_all add: fint_exact)

lemma accuracy_standard:
  assumes "0 \<le> a" "0 \<le> b" "0 \<le> c" "0 \<le> m" "a + b + c + m \<le> 1000000" "0 < a + b + c + m"
  shows "under (fadd (fadd (fmul (fint a) 300) (fmul (fint b) 100)) (fmul (fint c) 50))
           (a * 300 + b * 100 + c * 50)"
  using assms by (intro under_step) simp_all

lemma accuracy_mania_v2:
  assumes "0 \<le> a" "0 \<le> b" "0 \<le> c" "0 \<le> d" "0 \<le> e" "a + b + c + d + e \<le> 1000000"
  shows "under (fadd (fadd (fadd (fadd (fmul (fint a) 50) (fmul (fint b) 100)) (fmul (fint c) 200))
           (fmul (fint d) 300)) (fmul (fint e) 305))
           (a * 50 + b * 100 + c * 200 + d * 300 + e * 305)"
  using assms by (intro under_step) simp_all

lemma accuracy_mania:
  assumes "0 \<le> a" "0 \<le> b" "0 \<le> c" "0 \<le> d" "a + b + c + d \<le> 1000000"
  shows "under (fadd (fadd (fadd (fmul (fint a) 50) (fmul (fint b) 100)) (fmul (fint c) 200))
           (fmul (fint d) 300)) (a * 50 + b * 100 + c * 200 + d * 300)"
  using assms by (intro under_step) simp_all

lemma scoreframe_accuracy_bounds:
  assumes ok: "counts_ok sf" and mode: "0 \<le> mode_vn" "mode_vn < 4"
  shows "\<exists>a. scoreframe_accuracy sf mode_vn = Inr a \<and> 0 \<le> a \<and> a \<le> 100"
proof -
  define a b c g k m where cnt: "a = num300 sf" "b = num100 sf" "c = num50 sf"
    "g = num_geki sf" "k = num_katu sf" "m = num_miss sf"
  have r: "0 \<le> a" "0 \<le> b" "0 \<le> c" "0 \<le> g" "0 \<le> k" "0 \<le> m" "a + b + c + g + k + m \<le> 1000000"
    using ok by (auto simp: cnt counts_ok_def)
  note d = scoreframe_accuracy_def Let_def cnt [symmetric]
  consider "mode_vn = 0" | "mode_vn = 1" | "mode_vn = 2" | "mode_vn = 3" using mode by linarith
  then show ?thesis
  proof cases
    case 1
    let ?t = "a + b + c + m"
    show ?thesis
      using accuracy_quotient [OF accuracy_standard [of a b c m], of "?t * 300"] total_exact [of ?t] r 1
      by (simp add: d)
  next
    case 2
    let ?t = "a + b + m"
    have "under (fadd (fmul (fint b) (1 / 2)) (fint a)) (b + a)"
      using r by (intro under_step under_half) simp_all
    from accuracy_quotient [OF this, of ?t] total_exact [of ?t] r 2 show ?thesis by (simp add: d)
  next
    case 3
    let ?t = "a + b + c + k + m"
    have "under (fint (a + b + c)) (a + b + c)" using r by (intro under_fint) simp_all
    from accuracy_quotient [OF this, of ?t] total_exact [of ?t] r 3 show ?thesis by (simp add: d)
  next
    case 4
    let ?t = "a + b + c + g + k + m"
    show ?thesis
      using accuracy_quotient [OF accuracy_mania_v2 [of c b k a g], of "?t * 305"]
        accuracy_quotient [OF accuracy_mania [of c b k "a + g"], of "?t * 300"]
        total_exact [of ?t] r 4
      by (simp add: d)
  qed
qed

text \<open>A frame the wire format produced has 16-bit counts.\<close>

lemma read_u16_range: "read_u16 bs = Inr (v, r) \<Longrightarrow> 0 \<le> v \<and> v \<le> 65535"
proof -
  assume "read_u16 bs = Inr (v, r)"
  then have v: "v = int (le_nat (take 2 bs))" by (simp add: read_u16_def from_le_unsigned_def)
  have "le_nat (take 2 bs) < 256 ^ length (take 2 bs)" by (rule le_nat_bound)
  also have "(256 :: nat) ^ length (take 2 bs) \<le> 256 ^ 2" by (rule power_increasing) simp_all
  finally show ?thesis by (simp add: v)
qed

lemma rbind_Inr_iff: "rbind m k bs = Inr y \<longleftrightarrow> (\<exists>x r. m bs = Inr (x, r) \<and> k x r = Inr y)"
  by (auto simp: rbind_def bindE_Inr_iff)

lemma unpack_scoreframe_counts: "unpack_scoreframe bs = Inr (sf, r) \<Longrightarrow> counts_ok sf"
  by (auto simp: unpack_scoreframe_def rbind_Inr_iff rret_def counts_ok_def dest!: read_u16_range
      split: if_splits)

lemma decode_scoreframe_counts: "decode_scoreframe raw = Some sf \<Longrightarrow> counts_ok sf"
  by (auto simp: decode_scoreframe_def counts_ok_def dest!: unpack_scoreframe_counts
      split: if_splits sum.splits)

end
