(* ===== verification/Constants.thy ===== *)
theory Constants
  imports Mods
begin

text \<open>
  The enumerations of \<^verbatim>\<open>app/constants\<close>, \<^verbatim>\<open>app/objects/match.py\<close> and
  \<^verbatim>\<open>app/objects/player.py\<close>, and the helpers of \<^verbatim>\<open>app/utils.py\<close> the sessions use.
  Privileges are flag integers as in the source; the closed enumerations the server
  switches on are datatypes with their wire values.
\<close>

section \<open>Privileges\<close>

definition P_UNRESTRICTED :: int where "P_UNRESTRICTED = 1"
definition P_VERIFIED :: int where "P_VERIFIED = 2"
definition P_WHITELISTED :: int where "P_WHITELISTED = 4"
definition P_SUPPORTER :: int where "P_SUPPORTER = 16"
definition P_PREMIUM :: int where "P_PREMIUM = 32"
definition P_ALUMNI :: int where "P_ALUMNI = 128"
definition P_TOURNEY_MANAGER :: int where "P_TOURNEY_MANAGER = 1024"
definition P_NOMINATOR :: int where "P_NOMINATOR = 2048"
definition P_MODERATOR :: int where "P_MODERATOR = 4096"
definition P_ADMINISTRATOR :: int where "P_ADMINISTRATOR = 8192"
definition P_DEVELOPER :: int where "P_DEVELOPER = 16384"
definition P_DONATOR :: int where "P_DONATOR = P_SUPPORTER OR P_PREMIUM"
definition P_STAFF :: int where "P_STAFF = P_MODERATOR OR P_ADMINISTRATOR OR P_DEVELOPER"

lemmas priv_values = P_UNRESTRICTED_def P_VERIFIED_def P_WHITELISTED_def P_SUPPORTER_def
  P_PREMIUM_def P_ALUMNI_def P_TOURNEY_MANAGER_def P_NOMINATOR_def P_MODERATOR_def
  P_ADMINISTRATOR_def P_DEVELOPER_def P_DONATOR_def P_STAFF_def

definition CPR_PLAYER :: int where "CPR_PLAYER = 1"
definition CPR_MODERATOR :: int where "CPR_MODERATOR = 2"
definition CPR_SUPPORTER :: int where "CPR_SUPPORTER = 4"
definition CPR_OWNER :: int where "CPR_OWNER = 8"
definition CPR_DEVELOPER :: int where "CPR_DEVELOPER = 16"

lemmas client_priv_values = CPR_PLAYER_def CPR_MODERATOR_def CPR_SUPPORTER_def CPR_OWNER_def
  CPR_DEVELOPER_def

text \<open>\<^verbatim>\<open>Player.bancho_priv\<close>\<close>

definition bancho_priv :: "int \<Rightarrow> int" where
  "bancho_priv priv =
     (let r0 = 0;
          r1 = (if has priv P_UNRESTRICTED then r0 OR CPR_PLAYER else r0);
          r2 = (if has priv P_DONATOR then r1 OR CPR_SUPPORTER else r1);
          r3 = (if has priv P_MODERATOR then r2 OR CPR_MODERATOR else r2);
          r4 = (if has priv P_ADMINISTRATOR then r3 OR CPR_DEVELOPER else r3)
      in if has priv P_DEVELOPER then r4 OR CPR_OWNER else r4)"

lemma bancho_priv_bits:
  "bit (bancho_priv priv) n \<longleftrightarrow>
     (n = 0 \<and> has priv P_UNRESTRICTED) \<or> (n = 1 \<and> has priv P_MODERATOR) \<or>
     (n = 2 \<and> has priv P_DONATOR) \<or> (n = 3 \<and> has priv P_DEVELOPER) \<or>
     (n = 4 \<and> has priv P_ADMINISTRATOR)"
proof -
  have p: "bit CPR_PLAYER n = (n = 0)" "bit CPR_MODERATOR n = (n = 1)" "bit CPR_SUPPORTER n = (n = 2)"
      "bit CPR_OWNER n = (n = 3)" "bit CPR_DEVELOPER n = (n = 4)"
    using bit_flag [of 0 n] bit_flag [of 1 n] bit_flag [of 2 n] bit_flag [of 3 n] bit_flag [of 4 n]
    by (simp_all add: client_priv_values)
  show ?thesis by (auto simp: bancho_priv_def Let_def bit_or_iff p)
qed

section \<open>Enumerations of the sessions\<close>

datatype slot_status = S_open | S_locked | S_not_ready | S_ready | S_no_map | S_playing | S_complete | S_quit

fun slot_status_value :: "slot_status \<Rightarrow> int" where
  "slot_status_value S_open = 1"
| "slot_status_value S_locked = 2"
| "slot_status_value S_not_ready = 4"
| "slot_status_value S_ready = 8"
| "slot_status_value S_no_map = 16"
| "slot_status_value S_playing = 32"
| "slot_status_value S_complete = 64"
| "slot_status_value S_quit = 128"

datatype team = T_neutral | T_blue | T_red

fun team_value :: "team \<Rightarrow> int" where
  "team_value T_neutral = 0"
| "team_value T_blue = 1"
| "team_value T_red = 2"

datatype win_condition = W_score | W_accuracy | W_combo | W_scorev2

fun win_value :: "win_condition \<Rightarrow> int" where
  "win_value W_score = 0"
| "win_value W_accuracy = 1"
| "win_value W_combo = 2"
| "win_value W_scorev2 = 3"

definition win_condition_of :: "int \<Rightarrow> win_condition result" where
  "win_condition_of n =
     (if n = 0 then Inr W_score else if n = 1 then Inr W_accuracy
      else if n = 2 then Inr W_combo else if n = 3 then Inr W_scorev2 else Inl ValueError)"

datatype team_type = TT_head_to_head | TT_tag_coop | TT_team_vs | TT_tag_team_vs

fun team_type_value :: "team_type \<Rightarrow> int" where
  "team_type_value TT_head_to_head = 0"
| "team_type_value TT_tag_coop = 1"
| "team_type_value TT_team_vs = 2"
| "team_type_value TT_tag_team_vs = 3"

definition team_type_of :: "int \<Rightarrow> team_type result" where
  "team_type_of n =
     (if n = 0 then Inr TT_head_to_head else if n = 1 then Inr TT_tag_coop
      else if n = 2 then Inr TT_team_vs else if n = 3 then Inr TT_tag_team_vs else Inl ValueError)"

lemma enum_values_inverse:
  "win_condition_of (win_value w) = Inr w" "team_type_of (team_type_value t) = Inr t"
  by (cases w; simp add: win_condition_of_def) (cases t; simp add: team_type_of_def)

text \<open>\<^verbatim>\<open>PresenceFilter(n)\<close> and \<^verbatim>\<open>Action(n)\<close>, kept as their integers.\<close>

definition presence_filter_of :: "int \<Rightarrow> int result" where
  "presence_filter_of n = (if 0 \<le> n \<and> n < 3 then Inr n else Inl ValueError)"

definition action_of :: "int \<Rightarrow> int result" where
  "action_of n = (if 0 \<le> n \<and> n < 14 then Inr n else Inl ValueError)"

definition ACTION_AFK :: int where "ACTION_AFK = 1"

section \<open>Helpers of strings\<close>

text \<open>\<^verbatim>\<open>make_safe_name\<close>; \<open>lower\<close> is \<^verbatim>\<open>str.lower\<close>.\<close>

definition make_safe_name :: "(pystr \<Rightarrow> pystr) \<Rightarrow> pystr \<Rightarrow> pystr" where
  "make_safe_name lower name = map (\<lambda>c. if c = 32 then 95 else c) (lower name)"

text \<open>\<^verbatim>\<open>str.strip()\<close>: the characters \<^verbatim>\<open>str.isspace\<close> accepts, at both ends.\<close>

definition is_space :: "nat \<Rightarrow> bool" where
  "is_space c \<longleftrightarrow> (9 \<le> c \<and> c \<le> 13) \<or> (28 \<le> c \<and> c \<le> 32) \<or> c = 0x85 \<or> c = 0xA0 \<or> c = 0x1680 \<or>
     (0x2000 \<le> c \<and> c \<le> 0x200A) \<or> c = 0x2028 \<or> c = 0x2029 \<or> c = 0x202F \<or> c = 0x205F \<or> c = 0x3000"

definition strip :: "pystr \<Rightarrow> pystr" where
  "strip s = rev (dropWhile is_space (rev (dropWhile is_space s)))"

end
