(* ===== verification/Server.thy ===== *)
theory Server
  imports ServerPackets Constants
begin

text \<open>
  The state of the running server: \<^verbatim>\<open>app/state/sessions.py\<close> and the objects it holds
  (\<^verbatim>\<open>app/objects/player.py\<close>, \<^verbatim>\<open>channel.py\<close>, \<^verbatim>\<open>match.py\<close>,
  \<^verbatim>\<open>collections.py\<close>). Objects are shared and mutated, so they live in heaps indexed
  by references (\<open>nat\<close>), and \<^verbatim>\<open>is\<close> and \<^verbatim>\<open>in\<close> compare references.
  The packet queue of a player holds the bytes the server really writes. Rows written
  to the database and background tasks are a log of effects. The last sections are the
  preservation rules of the primitive updates, by the views the invariants depend on.
\<close>

section \<open>Objects\<close>

record slot =
  sl_player :: "nat option"
  sl_status :: slot_status
  sl_team :: team
  sl_mods :: int
  sl_loaded :: bool
  sl_skipped :: bool
  sl_frame :: "bytes option"
  sl_passed :: bool

definition new_slot :: slot where
  "new_slot = \<lparr>sl_player = None, sl_status = S_open, sl_team = T_neutral, sl_mods = 0,
     sl_loaded = False, sl_skipped = False, sl_frame = None, sl_passed = True\<rparr>"

definition slot_empty :: "slot \<Rightarrow> bool" where
  "slot_empty s \<longleftrightarrow> sl_player s = None"

definition slot_copy_from :: "slot \<Rightarrow> slot \<Rightarrow> slot" where
  "slot_copy_from self other = self\<lparr>sl_player := sl_player other, sl_status := sl_status other,
     sl_team := sl_team other, sl_mods := sl_mods other\<rparr>"

definition slot_reset :: "slot_status \<Rightarrow> slot \<Rightarrow> slot" where
  "slot_reset new_status self = self\<lparr>sl_player := None, sl_status := new_status,
     sl_team := T_neutral, sl_mods := 0, sl_loaded := False, sl_skipped := False,
     sl_frame := None, sl_passed := True\<rparr>"

text \<open>A scrim counts points per player or per team.\<close>

datatype point_key = PK_player nat | PK_team team

record starting_timers =
  stt_start :: nat
  stt_alerts :: "nat list"
  stt_time :: rat

record game_match =
  m_id :: int
  m_name :: pystr
  m_passwd :: pystr
  m_public_history :: bool
  m_db_id :: "int option"
  m_started_at :: "rat option"
  m_host_id :: int
  m_referees :: "nat set"
  m_map_id :: int
  m_map_md5 :: pystr
  m_map_name :: pystr
  m_prev_map_id :: int
  m_mods :: int
  m_mode :: int
  m_freemods :: bool
  m_chat :: nat
  m_slots :: "slot list"
  m_team_type :: team_type
  m_win_condition :: win_condition
  m_in_progress :: bool
  m_starting :: "starting_timers option"
  m_seed :: int
  m_tourney_pool :: "int option"
  m_scrimming :: bool
  m_match_points :: "(point_key \<times> int) list"
  m_bans :: "(int \<times> int) set"
  m_winners :: "point_key option list"
  m_winning_pts :: int
  m_pp_scoring :: bool
  m_tourney_clients :: "int set"

record channel =
  ch_real_name :: pystr
  ch_name :: pystr
  ch_topic :: pystr
  ch_read_priv :: int
  ch_write_priv :: int
  ch_auto_join :: bool
  ch_instance :: bool
  ch_players :: "nat list"

record last_np =
  np_bmap :: int
  np_mode_vn :: int
  np_mods :: "int option"
  np_timeout :: rat

record geolocation =
  geo_latitude :: rat
  geo_longitude :: rat
  geo_acronym :: pystr
  geo_numeric :: int

record player =
  p_id :: int
  p_name :: pystr
  p_priv :: int
  p_token :: pystr
  p_clan_id :: "int option"
  p_geoloc :: geolocation
  p_utc_offset :: int
  p_pm_private :: bool
  p_silence_end :: int
  p_donor_end :: int
  p_login_time :: rat
  p_last_recv :: rat
  p_is_bot :: bool
  p_is_tourney :: bool
  p_away_msg :: "pystr option"
  p_in_lobby :: bool
  p_stats :: "int \<Rightarrow> mode_data option"
  p_status :: player_status
  p_friends :: "int set"
  p_blocks :: "int set"
  p_channels :: "nat list"
  p_spectators :: "nat list"
  p_spectating :: "nat option"
  p_spec_db_id :: "int option"
  p_match :: "nat option"
  p_stealth :: bool
  p_pres_filter :: int
  p_last_np :: "last_np option"
  p_queue :: "bytes list"

text \<open>Effects outside the process: rows written, background tasks spawned, timers cancelled.\<close>

record participant_frame =
  pf_user_id :: int
  pf_team :: int
  pf_mods :: int
  pf_passed :: bool
  pf_raw :: bytes

text \<open>What \<^verbatim>\<open>MatchComplete\<close> snapshots for the match history.\<close>

record completed_game =
  cg_match_db_id :: "int option"
  cg_map_md5 :: pystr
  cg_map_id :: int
  cg_map_name :: pystr
  cg_mode :: int
  cg_mods :: int
  cg_win_condition :: int
  cg_team_type :: int
  cg_freemods :: bool
  cg_scrim :: bool
  cg_participants :: "int list"
  cg_started_at :: "rat option"
  cg_score_frames :: "participant_frame list"

datatype task =
    Match_created nat pystr int bool
  | Game_completed completed_game
  | Match_disbanded "int option"
  | Spectator_started int int
  | Spectator_ended "int option"
  | Update_matchpoints nat "slot list"
  | Latest_activity int rat
  | Cancel_timer nat
  | Set_priv int int
  | Set_silence_end int int
  | Add_log int int pystr pystr
  | Put_relationship int int bool
  | Drop_relationship int int
  | Put_mail int int pystr
  | Clear_donor_end int
  | Set_donor_end int rat
  | Set_name int pystr
  | Record_login int "int \<times> int \<times> int" pystr
  | Record_hashes int pystr pystr pystr pystr
  | Update_country int pystr

text \<open>
  What is fixed while the server runs: the configured domain, \<^verbatim>\<open>str.lower\<close>, and the
  order in which a Python set of players is iterated.
\<close>

record env =
  e_domain :: pystr
  e_prefix :: pystr
  e_lower :: "pystr \<Rightarrow> pystr"
  e_order :: "nat list \<Rightarrow> nat list"

record server =
  s_player :: "nat \<Rightarrow> player"
  s_channel :: "nat \<Rightarrow> channel"
  s_match :: "nat \<Rightarrow> game_match"
  s_next :: nat
  s_players :: "nat list"
  s_by_token :: "pystr \<Rightarrow> nat option"
  s_by_id :: "int \<Rightarrow> nat option"
  s_by_name :: "pystr \<Rightarrow> nat option"
  s_channels :: "nat list"
  s_matches :: "nat option list"
  s_bot :: nat
  s_bot_choice :: nat
  s_now :: rat
  s_log :: "task list"
  s_env :: env

type_synonym 'a sop = "(server, 'a) op"

section \<open>Primitive updates\<close>

definition upd_player :: "nat \<Rightarrow> (player \<Rightarrow> player) \<Rightarrow> unit sop" where
  "upd_player r f = modify (\<lambda>s. s\<lparr>s_player := (s_player s)(r := f (s_player s r))\<rparr>)"

definition upd_channel :: "nat \<Rightarrow> (channel \<Rightarrow> channel) \<Rightarrow> unit sop" where
  "upd_channel c f = modify (\<lambda>s. s\<lparr>s_channel := (s_channel s)(c := f (s_channel s c))\<rparr>)"

definition upd_match :: "nat \<Rightarrow> (game_match \<Rightarrow> game_match) \<Rightarrow> unit sop" where
  "upd_match m f = modify (\<lambda>s. s\<lparr>s_match := (s_match s)(m := f (s_match s m))\<rparr>)"

definition upd_slot :: "nat \<Rightarrow> nat \<Rightarrow> (slot \<Rightarrow> slot) \<Rightarrow> unit sop" where
  "upd_slot m i f = upd_match m (\<lambda>x. x\<lparr>m_slots := (m_slots x)[i := f (m_slots x ! i)]\<rparr>)"

definition upd_slots :: "nat \<Rightarrow> (slot \<Rightarrow> slot) \<Rightarrow> unit sop" where
  "upd_slots m f = upd_match m (\<lambda>x. x\<lparr>m_slots := map f (m_slots x)\<rparr>)"

definition spawn :: "task \<Rightarrow> unit sop" where
  "spawn t = modify (\<lambda>s. s\<lparr>s_log := s_log s @ [t]\<rparr>)"

definition player :: "nat \<Rightarrow> (player \<Rightarrow> 'a) \<Rightarrow> 'a sop" where
  "player r f = gets (\<lambda>s. f (s_player s r))"

definition channel :: "nat \<Rightarrow> (channel \<Rightarrow> 'a) \<Rightarrow> 'a sop" where
  "channel c f = gets (\<lambda>s. f (s_channel s c))"

definition game :: "nat \<Rightarrow> (game_match \<Rightarrow> 'a) \<Rightarrow> 'a sop" where
  "game m f = gets (\<lambda>s. f (s_match s m))"

text \<open>\<^verbatim>\<open>xs.remove(x)\<close>\<close>

definition list_remove :: "'a \<Rightarrow> 'a list \<Rightarrow> 'a list result" where
  "list_remove x xs = (if x \<in> set xs then Inr (remove1 x xs) else Inl ValueError)"

section \<open>Packet queues\<close>

text \<open>\<^verbatim>\<open>Player.enqueue\<close> (a no-op on a bot client) and \<^verbatim>\<open>dequeue\<close>.\<close>

definition p_enqueue :: "nat \<Rightarrow> bytes \<Rightarrow> unit sop" where
  "p_enqueue r data =
     upd_player r (\<lambda>p. if p_is_bot p then p else p\<lparr>p_queue := p_queue p @ [data]\<rparr>)"

definition p_dequeue :: "nat \<Rightarrow> bytes option sop" where
  "p_dequeue r = bnd (player r p_queue) (\<lambda>q.
     if q \<noteq> [] then thn (upd_player r (\<lambda>p. p\<lparr>p_queue := []\<rparr>)) (retn (Some (concat q)))
     else retn None)"

text \<open>Build a packet, which may raise, and use its bytes.\<close>

definition emit :: "bytes result \<Rightarrow> (bytes \<Rightarrow> 'a sop) \<Rightarrow> 'a sop" where
  "emit b k = bnd (lift_result b) k"

definition players_enqueue :: "bytes \<Rightarrow> nat list \<Rightarrow> unit sop" where
  "players_enqueue data immune =
     bnd (gets s_players) (\<lambda>ps. foreach ps (\<lambda>r. if r \<notin> set immune then p_enqueue r data else skip))"

definition p_restricted :: "player \<Rightarrow> bool" where
  "p_restricted p \<longleftrightarrow> \<not> has (p_priv p) P_UNRESTRICTED"

definition is_online :: "player \<Rightarrow> bool" where
  "is_online p \<longleftrightarrow> p_token p \<noteq> []"

text \<open>\<^verbatim>\<open>max(0, int(self.silence_end - time.time()))\<close>\<close>

definition remaining_silence :: "rat \<Rightarrow> player \<Rightarrow> int" where
  "remaining_silence now p =
     (let d = fl (of_int (p_silence_end p) - now)
      in max 0 (if d < 0 then - \<lfloor>- d\<rfloor> else \<lfloor>d\<rfloor>))"

definition silenced :: "nat \<Rightarrow> bool sop" where
  "silenced r = gets (\<lambda>s. remaining_silence (s_now s) (s_player s r) \<noteq> 0)"

definition latest_activity_soon :: "nat \<Rightarrow> unit sop" where
  "latest_activity_soon r = bnd (player r p_id) (\<lambda>i. bnd (gets s_now) (\<lambda>t. spawn (Latest_activity i t)))"

section \<open>Channels\<close>

definition ch_can_read :: "channel \<Rightarrow> int \<Rightarrow> bool" where
  "ch_can_read c priv \<longleftrightarrow> ch_read_priv c = 0 \<or> has priv (ch_read_priv c)"

definition ch_can_write :: "channel \<Rightarrow> int \<Rightarrow> bool" where
  "ch_can_write c priv \<longleftrightarrow> ch_write_priv c = 0 \<or> has priv (ch_write_priv c)"

definition channel_init :: "pystr \<Rightarrow> pystr \<Rightarrow> int \<Rightarrow> int \<Rightarrow> bool \<Rightarrow> bool \<Rightarrow> channel" where
  "channel_init name topic read_priv write_priv auto_join inst =
     \<lparr>ch_real_name = name,
      ch_name = (if starts_with name (py ''#spec_'') then py ''#spectator''
                 else if starts_with name (py ''#multi_'') then py ''#multiplayer'' else name),
      ch_topic = topic, ch_read_priv = read_priv, ch_write_priv = write_priv,
      ch_auto_join = auto_join, ch_instance = inst, ch_players = []\<rparr>"

text \<open>A new object gets a reference that was never used.\<close>

definition new_channel :: "channel \<Rightarrow> nat sop" where
  "new_channel c = bnd (gets s_next) (\<lambda>r.
     thn (modify (\<lambda>s. s\<lparr>s_channel := (s_channel s)(r := c), s_next := Suc r\<rparr>)) (retn r))"

definition channels_get_by_name :: "pystr \<Rightarrow> nat option sop" where
  "channels_get_by_name name =
     gets (\<lambda>s. find (\<lambda>c. ch_real_name (s_channel s c) = name) (s_channels s))"

definition channels_append :: "nat \<Rightarrow> unit sop" where
  "channels_append c = modify (\<lambda>s. s\<lparr>s_channels := s_channels s @ [c]\<rparr>)"

definition channels_remove :: "nat \<Rightarrow> unit sop" where
  "channels_remove c = bnd (gets s_channels) (\<lambda>cs. bnd (lift_result (list_remove c cs)) (\<lambda>cs'.
     modify (\<lambda>s. s\<lparr>s_channels := cs'\<rparr>)))"

definition ch_append :: "nat \<Rightarrow> nat \<Rightarrow> unit sop" where
  "ch_append c r = upd_channel c (\<lambda>x. x\<lparr>ch_players := ch_players x @ [r]\<rparr>)"

definition ch_remove :: "nat \<Rightarrow> nat \<Rightarrow> unit sop" where
  "ch_remove c r =
     bnd (channel c ch_players) (\<lambda>ps. bnd (lift_result (list_remove r ps)) (\<lambda>ps'.
       thn (upd_channel c (\<lambda>x. x\<lparr>ch_players := ps'\<rparr>))
        (bnd (channel c ch_instance) (\<lambda>inst.
           if ps' = [] \<and> inst then channels_remove c else skip))))"

definition ch_enqueue :: "nat \<Rightarrow> bytes \<Rightarrow> int list \<Rightarrow> unit sop" where
  "ch_enqueue c data immune =
     bnd (channel c ch_players) (\<lambda>ps. foreach ps (\<lambda>r.
       bnd (player r p_id) (\<lambda>i. if i \<notin> set immune then p_enqueue r data else skip)))"

definition ch_send :: "nat \<Rightarrow> pystr \<Rightarrow> nat \<Rightarrow> bool \<Rightarrow> unit sop" where
  "ch_send c msg sender to_self =
     bnd (player sender (\<lambda>p. (p_name p, p_id p))) (\<lambda>(sname, sid).
     bnd (channel c (\<lambda>x. (ch_name x, ch_players x))) (\<lambda>(name, ps).
     emit (send_message sname msg name sid) (\<lambda>data.
       foreach ps (\<lambda>r. bnd (player r (\<lambda>p. (p_id p, p_blocks p))) (\<lambda>(i, blocks).
         if sid \<notin> blocks \<and> (to_self \<or> i \<noteq> sid) then p_enqueue r data else skip)))))"

definition ch_send_bot :: "nat \<Rightarrow> pystr \<Rightarrow> unit sop" where
  "ch_send_bot c msg =
     (let n = length msg;
          text = (if 31979 \<le> n
                  then py ''message would have crashed games ('' @ str_int (int n) @ py '' chars)'' else msg)
      in bnd (gets (\<lambda>s. s_player s (s_bot s))) (\<lambda>bot.
         bnd (channel c ch_name) (\<lambda>name.
         emit (send_message (p_name bot) text name (p_id bot)) (\<lambda>data. ch_enqueue c data []))))"

definition p_send :: "nat \<Rightarrow> pystr \<Rightarrow> nat \<Rightarrow> nat option \<Rightarrow> unit sop" where
  "p_send r msg sender chan =
     bnd (player sender (\<lambda>p. (p_name p, p_id p))) (\<lambda>(sname, sid).
     bnd (case chan of Some c \<Rightarrow> channel c ch_name | None \<Rightarrow> player r p_name) (\<lambda>recipient.
     emit (send_message sname msg recipient sid) (p_enqueue r)))"

definition p_send_bot :: "nat \<Rightarrow> pystr \<Rightarrow> unit sop" where
  "p_send_bot r msg =
     bnd (gets (\<lambda>s. s_player s (s_bot s))) (\<lambda>bot.
     bnd (player r p_name) (\<lambda>name.
     emit (send_message (p_name bot) msg name (p_id bot)) (p_enqueue r)))"

text \<open>\<^verbatim>\<open>send_selective\<close>; \<open>recipients\<close> is a set, iterated in the set's own order.\<close>

definition ch_send_selective :: "nat \<Rightarrow> pystr \<Rightarrow> nat \<Rightarrow> nat list \<Rightarrow> unit sop" where
  "ch_send_selective c msg sender recipients =
     bnd (gets (\<lambda>s. e_order (s_env s) recipients)) (\<lambda>rs. foreach rs (\<lambda>r.
       bnd (channel c ch_players) (\<lambda>ps.
         if r \<in> set ps then p_send r msg sender (Some c) else skip)))"

section \<open>The online players\<close>

definition safe_name :: "server \<Rightarrow> pystr \<Rightarrow> pystr" where
  "safe_name s = make_safe_name (e_lower (s_env s))"

definition players_append :: "nat \<Rightarrow> unit sop" where
  "players_append r = modify (\<lambda>s. if r \<in> set (s_players s) then s else
     s\<lparr>s_players := s_players s @ [r],
       s_by_token := (s_by_token s)(p_token (s_player s r) \<mapsto> r),
       s_by_id := (s_by_id s)(p_id (s_player s r) \<mapsto> r),
       s_by_name := (s_by_name s)(safe_name s (p_name (s_player s r)) \<mapsto> r)\<rparr>)"

text \<open>\<^verbatim>\<open>del d[k]\<close> raises \<^verbatim>\<open>KeyError\<close> when the key is absent.\<close>

definition dict_del :: "'k \<Rightarrow> ('k \<Rightarrow> 'v option) \<Rightarrow> ('k \<Rightarrow> 'v option) result" where
  "dict_del k d = (if d k = None then Inl KeyError else Inr (d(k := None)))"

definition drop_token :: "nat \<Rightarrow> unit sop" where
  "drop_token r = bnd (gets (\<lambda>s. dict_del (p_token (s_player s r)) (s_by_token s))) (\<lambda>d.
     bnd (lift_result d) (\<lambda>d. modify (\<lambda>s. s\<lparr>s_by_token := d\<rparr>)))"

definition drop_id :: "nat \<Rightarrow> unit sop" where
  "drop_id r = bnd (gets (\<lambda>s. dict_del (p_id (s_player s r)) (s_by_id s))) (\<lambda>d.
     bnd (lift_result d) (\<lambda>d. modify (\<lambda>s. s\<lparr>s_by_id := d\<rparr>)))"

definition drop_name :: "nat \<Rightarrow> unit sop" where
  "drop_name r = bnd (gets (\<lambda>s. dict_del (safe_name s (p_name (s_player s r))) (s_by_name s))) (\<lambda>d.
     bnd (lift_result d) (\<lambda>d. modify (\<lambda>s. s\<lparr>s_by_name := d\<rparr>)))"

definition players_remove :: "nat \<Rightarrow> unit sop" where
  "players_remove r =
     bnd (gets s_players) (\<lambda>ps.
       if r \<notin> set ps then skip else
       thn (modify (\<lambda>s. s\<lparr>s_players := remove1 r (s_players s)\<rparr>))
         (thn (drop_token r) (thn (drop_id r) (drop_name r))))"

definition get_by_token :: "pystr \<Rightarrow> nat option sop" where
  "get_by_token t = gets (\<lambda>s. s_by_token s t)"

definition get_by_id :: "int \<Rightarrow> nat option sop" where
  "get_by_id i = gets (\<lambda>s. s_by_id s i)"

definition get_by_name :: "pystr \<Rightarrow> nat option sop" where
  "get_by_name n = gets (\<lambda>s. s_by_name s (safe_name s n))"

definition staff :: "server \<Rightarrow> nat list" where
  "staff s = filter (\<lambda>r. has (p_priv (s_player s r)) P_STAFF) (s_players s)"

definition unrestricted :: "server \<Rightarrow> nat list" where
  "unrestricted s = filter (\<lambda>r. has (p_priv (s_player s r)) P_UNRESTRICTED) (s_players s)"

definition restricted :: "server \<Rightarrow> nat list" where
  "restricted s = filter (\<lambda>r. \<not> has (p_priv (s_player s r)) P_UNRESTRICTED) (s_players s)"

section \<open>The table of matches\<close>

definition matches_get_free :: "nat option sop" where
  "matches_get_free = gets (\<lambda>s. find_index (\<lambda>m. m = None) (s_matches s))"

definition matches_remove :: "nat \<Rightarrow> unit sop" where
  "matches_remove m = modify (\<lambda>s. case find_index (\<lambda>x. x = Some m) (s_matches s) of
     None \<Rightarrow> s | Some i \<Rightarrow> s\<lparr>s_matches := (s_matches s)[i := None]\<rparr>)"

end
