(* ===== verification/Multiplayer.thy ===== *)
theory Multiplayer
  imports Server
begin

text \<open>
  Membership: \<^verbatim>\<open>join_channel\<close>/\<^verbatim>\<open>leave_channel\<close>,
  \<^verbatim>\<open>join_match\<close>/\<^verbatim>\<open>leave_match\<close>, \<^verbatim>\<open>add_spectator\<close>/\<^verbatim>\<open>remove_spectator\<close>,
  \<^verbatim>\<open>logout\<close> and the privilege and silence changes of
  \<^verbatim>\<open>app/objects/player.py\<close>, with the operations of \<^verbatim>\<open>app/objects/match.py\<close>
  they call.
\<close>

section \<open>Channel membership\<close>

text \<open>The last block of both \<^verbatim>\<open>join_channel\<close> and \<^verbatim>\<open>leave_channel\<close>.\<close>

definition broadcast_channel_info :: "nat \<Rightarrow> unit sop" where
  "broadcast_channel_info c =
     bnd (gets (\<lambda>s. s_channel s c)) (\<lambda>x.
     emit (channel_info (ch_name x) (ch_topic x) (int (length (ch_players x)))) (\<lambda>data.
       if ch_instance x then foreach (ch_players x) (\<lambda>q. p_enqueue q data)
       else bnd (gets s_players) (\<lambda>ps. foreach ps (\<lambda>q.
         bnd (player q p_priv) (\<lambda>priv. if ch_can_read x priv then p_enqueue q data else skip)))))"

definition chan_enter :: "nat \<Rightarrow> nat \<Rightarrow> unit sop" where
  "chan_enter r c = thn (ch_append c r) (upd_player r (\<lambda>p. p\<lparr>p_channels := p_channels p @ [c]\<rparr>))"

definition join_channel :: "nat \<Rightarrow> nat \<Rightarrow> bool sop" where
  "join_channel r c =
     bnd (gets (\<lambda>s. (s_channel s c, s_player s r))) (\<lambda>(x, p).
       if r \<in> set (ch_players x) \<or> \<not> ch_can_read x (p_priv p) \<or>
          ch_real_name x = py ''#lobby'' \<and> \<not> p_in_lobby p
       then retn False
       else
         thn (chan_enter r c)
         (thn (emit (channel_join (ch_name x)) (p_enqueue r))
         (thn (broadcast_channel_info c) (retn True))))"

definition chan_exit :: "nat \<Rightarrow> nat \<Rightarrow> unit sop" where
  "chan_exit r c =
     thn (ch_remove c r)
     (bnd (player r p_channels) (\<lambda>cs. bnd (lift_result (list_remove c cs)) (\<lambda>cs'.
        upd_player r (\<lambda>p. p\<lparr>p_channels := cs'\<rparr>))))"

definition leave_channel :: "nat \<Rightarrow> nat \<Rightarrow> bool \<Rightarrow> unit sop" where
  "leave_channel r c kick =
     bnd (channel c ch_players) (\<lambda>ps.
       if r \<notin> set ps then skip
       else
         thn (chan_exit r c)
         (thn (if kick then bnd (channel c ch_name) (\<lambda>n. emit (channel_kick n) (p_enqueue r)) else skip)
           (broadcast_channel_info c)))"

section \<open>Reading a match\<close>

definition match_host :: "nat \<Rightarrow> nat sop" where
  "match_host m = bnd (game m m_host_id) (\<lambda>i. bnd (get_by_id i) (the_or ValueError))"

definition slot_info_of :: "server \<Rightarrow> slot \<Rightarrow> slot_info" where
  "slot_info_of s x = \<lparr>si_player = map_option (\<lambda>r. p_id (s_player s r)) (sl_player x),
     si_status = slot_status_value (sl_status x), si_team = team_value (sl_team x),
     si_mods = sl_mods x\<rparr>"

text \<open>What \<^verbatim>\<open>write_match\<close> reads of a match object.\<close>

definition match_info_of :: "server \<Rightarrow> nat \<Rightarrow> match_info" where
  "match_info_of s m =
     (let x = s_match s m in
      \<lparr>mi_id = m_id x, mi_in_progress = m_in_progress x, mi_mods = m_mods x, mi_name = m_name x,
       mi_passwd = m_passwd x, mi_map_name = m_map_name x, mi_map_id = m_map_id x,
       mi_map_md5 = m_map_md5 x, mi_slots = map (slot_info_of s) (m_slots x),
       mi_host = (case s_by_id s (m_host_id x) of None \<Rightarrow> Inl ValueError
                  | Some h \<Rightarrow> Inr (p_id (s_player s h))),
       mi_mode = m_mode x, mi_win_condition = win_value (m_win_condition x),
       mi_team_type = team_type_value (m_team_type x), mi_freemods = m_freemods x,
       mi_seed = m_seed x\<rparr>)"

definition emit_match :: "(match_info \<Rightarrow> bytes result) \<Rightarrow> nat \<Rightarrow> (bytes \<Rightarrow> 'a sop) \<Rightarrow> 'a sop" where
  "emit_match f m k = bnd (gets (\<lambda>s. match_info_of s m)) (\<lambda>i. emit (f i) k)"

definition match_url :: "game_match \<Rightarrow> pystr" where
  "match_url x = py ''osump://'' @ str_int (m_id x) @ py ''/'' @ m_passwd x"

definition match_embed :: "game_match \<Rightarrow> pystr" where
  "match_embed x = py ''['' @ match_url x @ py '' '' @ m_name x @ py '']''"

definition match_map_url :: "pystr \<Rightarrow> game_match \<Rightarrow> pystr" where
  "match_map_url domain x = py ''https://osu.'' @ domain @ py ''/b/'' @ str_int (m_map_id x)"

definition match_map_embed :: "pystr \<Rightarrow> game_match \<Rightarrow> pystr" where
  "match_map_embed domain x = py ''['' @ match_map_url domain x @ py '' '' @ m_map_name x @ py '']''"

definition slot_index :: "nat \<Rightarrow> game_match \<Rightarrow> nat option" where
  "slot_index r x = find_index (\<lambda>s. sl_player s = Some r) (m_slots x)"

definition get_slot_id :: "nat \<Rightarrow> nat \<Rightarrow> nat option sop" where
  "get_slot_id m r = game m (slot_index r)"

definition match_get_free :: "game_match \<Rightarrow> nat option" where
  "match_get_free x = find_index (\<lambda>s. sl_status s = S_open) (m_slots x)"

definition get_host_slot :: "nat \<Rightarrow> nat option sop" where
  "get_host_slot m =
     bnd (game m m_slots) (\<lambda>slots.
       if list_all (\<lambda>s. sl_player s = None) slots then retn None
       else bnd (match_host m) (\<lambda>h. game m (slot_index h)))"

section \<open>Sending to a match\<close>

definition lobby_enqueue :: "bytes result \<Rightarrow> unit sop" where
  "lobby_enqueue data =
     bnd (channels_get_by_name (py ''#lobby'')) (\<lambda>l. case l of
         None \<Rightarrow> skip
       | Some c \<Rightarrow> bnd (channel c ch_players) (\<lambda>ps.
           if ps = [] then skip else emit data (\<lambda>d. ch_enqueue c d [])))"

definition match_enqueue :: "nat \<Rightarrow> bytes \<Rightarrow> bool \<Rightarrow> int list \<Rightarrow> unit sop" where
  "match_enqueue m data lobby immune =
     bnd (game m m_chat) (\<lambda>c.
       thn (ch_enqueue c data immune) (if lobby then lobby_enqueue (Inr data) else skip))"

definition enqueue_state :: "nat \<Rightarrow> bool \<Rightarrow> unit sop" where
  "enqueue_state m lobby =
     bnd (game m m_chat) (\<lambda>c.
       thn (emit_match (\<lambda>i. update_match i True) m (\<lambda>d. ch_enqueue c d []))
         (if lobby then bnd (gets (\<lambda>s. update_match (match_info_of s m) False)) lobby_enqueue else skip))"

section \<open>Match operations\<close>

definition match_init :: "int \<Rightarrow> pystr \<Rightarrow> pystr \<Rightarrow> bool \<Rightarrow> multiplayer_match \<Rightarrow> int \<Rightarrow> int \<Rightarrow>
    win_condition \<Rightarrow> team_type \<Rightarrow> nat \<Rightarrow> game_match" where
  "match_init mid name password has_public_history d mode mods win tt chat =
     \<lparr>m_id = mid, m_name = name, m_passwd = password, m_public_history = has_public_history,
      m_db_id = None, m_started_at = None, m_host_id = mm_host_id d, m_referees = {},
      m_map_id = mm_map_id d, m_map_md5 = mm_map_md5 d, m_map_name = mm_map_name d,
      m_prev_map_id = 0, m_mods = mods, m_mode = mode, m_freemods = mm_freemods d,
      m_chat = chat, m_slots = replicate 16 new_slot, m_team_type = tt, m_win_condition = win,
      m_in_progress = False, m_starting = None, m_seed = mm_seed d, m_tourney_pool = None,
      m_scrimming = False, m_match_points = [], m_bans = {}, m_winners = [], m_winning_pts = 0,
      m_pp_scoring = False, m_tourney_clients = {}\<rparr>"

definition new_game :: "game_match \<Rightarrow> nat sop" where
  "new_game x = bnd (gets s_next) (\<lambda>r.
     thn (modify (\<lambda>s. s\<lparr>s_match := (s_match s)(r := x), s_next := Suc r\<rparr>)) (retn r))"

text \<open>\<^verbatim>\<open>Match.copy\<close>\<close>

definition match_copy :: "game_match \<Rightarrow> game_match \<Rightarrow> game_match" where
  "match_copy self m = self\<lparr>m_map_id := m_map_id m, m_map_md5 := m_map_md5 m,
     m_map_name := m_map_name m, m_freemods := m_freemods m, m_mode := m_mode m,
     m_team_type := m_team_type m, m_win_condition := m_win_condition m, m_mods := m_mods m,
     m_name := m_name m\<rparr>"

definition unready_players :: "nat \<Rightarrow> slot_status \<Rightarrow> unit sop" where
  "unready_players m expected =
     upd_slots m (\<lambda>s. if sl_status s = expected then s\<lparr>sl_status := S_not_ready\<rparr> else s)"

definition reset_players_loaded_status :: "nat \<Rightarrow> unit sop" where
  "reset_players_loaded_status m = upd_slots m (\<lambda>s. s\<lparr>sl_loaded := False, sl_skipped := False\<rparr>)"

definition start_slot :: "slot \<Rightarrow> slot" where
  "start_slot s = (if sl_player s \<noteq> None \<and> sl_status s \<noteq> S_no_map
                   then s\<lparr>sl_status := S_playing\<rparr> else s)\<lparr>sl_frame := None, sl_passed := True\<rparr>"

definition no_map_players :: "slot list \<Rightarrow> nat list" where
  "no_map_players slots = concat (map (\<lambda>s. case sl_player s of
     Some r \<Rightarrow> if sl_status s = S_no_map then [r] else [] | None \<Rightarrow> []) slots)"

definition start_game :: "nat \<Rightarrow> unit sop" where
  "start_game m =
     bnd (gets (\<lambda>s. map (\<lambda>r. p_id (s_player s r)) (no_map_players (m_slots (s_match s m))))) (\<lambda>no_map.
     bnd (gets s_now) (\<lambda>now.
       thn (upd_slots m start_slot)
       (thn (upd_match m (\<lambda>x. x\<lparr>m_in_progress := True, m_started_at := Some now\<rparr>))
       (thn (emit_match match_start m (\<lambda>d. match_enqueue m d False no_map))
         (enqueue_state m True)))))"

definition reset_scrim :: "nat \<Rightarrow> unit sop" where
  "reset_scrim m = upd_match m (\<lambda>x. x\<lparr>m_match_points := [], m_winners := [], m_bans := {}\<rparr>)"

section \<open>Joining and leaving a match\<close>

definition join_fail :: "nat \<Rightarrow> bool sop" where
  "join_fail r = thn (emit match_join_fail (p_enqueue r)) (retn False)"

definition leave_lobby :: "nat \<Rightarrow> unit sop" where
  "leave_lobby r = bnd (channels_get_by_name (py ''#lobby'')) (\<lambda>l.
     bnd (player r p_channels) (\<lambda>cs.
       case l of Some c \<Rightarrow> if c \<in> set cs then leave_channel r c True else skip | None \<Rightarrow> skip))"

text \<open>Taking the slot is three assignments; the team is only touched in a team mode.\<close>

definition take_slot :: "nat \<Rightarrow> nat \<Rightarrow> nat \<Rightarrow> unit sop" where
  "take_slot m i r =
     thn (bnd (game m m_team_type) (\<lambda>tt.
       if tt = TT_team_vs \<or> tt = TT_tag_team_vs
       then upd_slot m i (\<lambda>s. s\<lparr>sl_team := T_red\<rparr>) else skip))
     (thn (upd_slot m i (\<lambda>s. s\<lparr>sl_status := S_not_ready, sl_player := Some r\<rparr>))
       (upd_player r (\<lambda>p. p\<lparr>p_match := Some m\<rparr>)))"

definition enter_match :: "nat \<Rightarrow> nat \<Rightarrow> nat \<Rightarrow> bool sop" where
  "enter_match r m i =
     bnd (game m m_chat) (\<lambda>c. bnd (join_channel r c) (\<lambda>ok.
       if \<not> ok then retn False
       else
         thn (leave_lobby r)
         (thn (take_slot m i r)
         (thn (emit_match match_join_success m (p_enqueue r))
         (thn (enqueue_state m True) (retn True))))))"

definition join_match :: "nat \<Rightarrow> nat \<Rightarrow> pystr \<Rightarrow> bool sop" where
  "join_match r m passwd =
     bnd (gets (\<lambda>s. (s_player s r, s_match s m))) (\<lambda>(p, x).
       if p_match p \<noteq> None then join_fail r
       else if p_id p \<in> m_tourney_clients x then join_fail r
       else bnd (match_host m) (\<lambda>h.
         if r \<noteq> h then
           bnd (gets staff) (\<lambda>st.
             if passwd \<noteq> m_passwd x \<and> r \<notin> set st then join_fail r
             else (case match_get_free x of None \<Rightarrow> join_fail r | Some i \<Rightarrow> enter_match r m i))
         else enter_match r m 0))"

definition cancel_starting :: "nat \<Rightarrow> unit sop" where
  "cancel_starting m = bnd (game m m_starting) (\<lambda>st. case st of
       None \<Rightarrow> skip
     | Some t \<Rightarrow> thn (spawn (Cancel_timer (stt_start t)))
         (thn (foreach (stt_alerts t) (\<lambda>a. spawn (Cancel_timer a)))
           (upd_match m (\<lambda>x. x\<lparr>m_starting := None\<rparr>))))"

definition close_match :: "nat \<Rightarrow> unit sop" where
  "close_match m =
     thn (cancel_starting m)
     (thn (matches_remove m)
     (thn (bnd (channels_get_by_name (py ''#lobby'')) (\<lambda>l. case l of
             None \<Rightarrow> skip
           | Some c \<Rightarrow> bnd (game m m_id) (\<lambda>i. emit (dispose_match i) (\<lambda>d. ch_enqueue c d []))))
       (bnd (game m m_db_id) (\<lambda>i. spawn (Match_disbanded i)))))"

text \<open>The host of a match leaves: the first occupied slot takes over.\<close>

definition hand_over :: "nat \<Rightarrow> unit sop" where
  "hand_over m =
     bnd (game m m_slots) (\<lambda>slots.
       case find (\<lambda>s. sl_player s \<noteq> None) slots of
         None \<Rightarrow> skip
       | Some s \<Rightarrow> (case sl_player s of
           None \<Rightarrow> skip
         | Some q \<Rightarrow> bnd (player q p_id) (\<lambda>i.
             thn (upd_match m (\<lambda>x. x\<lparr>m_host_id := i\<rparr>))
               (bnd (match_host m) (\<lambda>h. emit match_transfer_host (p_enqueue h))))))"

definition drop_referee :: "nat \<Rightarrow> nat \<Rightarrow> unit sop" where
  "drop_referee r m =
     bnd (game m (\<lambda>x. (m_referees x, m_chat x))) (\<lambda>(refs, c).
       if r \<in> refs then
         thn (upd_match m (\<lambda>x. x\<lparr>m_referees := m_referees x - {r}\<rparr>))
           (bnd (player r p_name) (\<lambda>n. ch_send_bot c (n @ py '' removed from match referees.'')))
       else skip)"

definition free_slot :: "nat \<Rightarrow> nat \<Rightarrow> unit sop" where
  "free_slot m i = upd_slot m i (\<lambda>s.
     slot_reset (if sl_status s = S_locked then S_locked else S_open) s)"

definition leave_match :: "nat \<Rightarrow> unit sop" where
  "leave_match r =
     bnd (player r p_match) (\<lambda>pm. case pm of
         None \<Rightarrow> skip
       | Some m \<Rightarrow>
           bnd (get_slot_id m r) (\<lambda>si. bnd (the_or AssertionError si) (\<lambda>i.
             thn (free_slot m i)
             (thn (bnd (game m m_chat) (\<lambda>c. leave_channel r c True))
             (thn (bnd (game m m_slots) (\<lambda>slots.
                     if list_all slot_empty slots then close_match m
                     else
                       bnd (match_host m) (\<lambda>h.
                         thn (if r = h then hand_over m else skip)
                         (thn (drop_referee r m)
                           (enqueue_state m True)))))
               (upd_player r (\<lambda>p. p\<lparr>p_match := None\<rparr>)))))))"

section \<open>Spectating\<close>

definition spec_channel_name :: "int \<Rightarrow> pystr" where
  "spec_channel_name i = py ''#spec_'' @ str_int i"

definition open_spec_channel :: "nat \<Rightarrow> nat sop" where
  "open_spec_channel h =
     bnd (player h (\<lambda>p. (p_id p, p_name p))) (\<lambda>(i, n).
     bnd (channels_get_by_name (spec_channel_name i)) (\<lambda>c. case c of
         Some c \<Rightarrow> retn c
       | None \<Rightarrow>
           bnd (new_channel (channel_init (spec_channel_name i) (n @ 39 # py ''s spectator channel.'')
              P_UNRESTRICTED P_UNRESTRICTED False True)) (\<lambda>c.
           thn (bnd (join_channel h c) (\<lambda>_. skip)) (thn (channels_append c) (retn c)))))"

definition spec_link :: "nat \<Rightarrow> nat \<Rightarrow> unit sop" where
  "spec_link h r =
     thn (upd_player h (\<lambda>p. p\<lparr>p_spectators := p_spectators p @ [r]\<rparr>))
       (upd_player r (\<lambda>p. p\<lparr>p_spectating := Some h\<rparr>))"

definition add_spectator :: "nat \<Rightarrow> nat \<Rightarrow> unit sop" where
  "add_spectator h r =
     bnd (open_spec_channel h) (\<lambda>c. bnd (join_channel r c) (\<lambda>ok.
       if \<not> ok then skip
       else
         bnd (player r (\<lambda>p. (p_stealth p, p_id p))) (\<lambda>(stealth, i).
         bnd (player h p_spectators) (\<lambda>specs.
           thn (if \<not> stealth then
                  emit (fellow_spectator_joined i) (\<lambda>joined.
                    thn (foreach specs (\<lambda>q. thn (p_enqueue q joined)
                          (bnd (player q p_id) (\<lambda>j. emit (fellow_spectator_joined j) (p_enqueue r)))))
                      (emit (spectator_joined i) (p_enqueue h)))
                else foreach specs (\<lambda>q.
                       bnd (player q p_id) (\<lambda>j. emit (fellow_spectator_joined j) (p_enqueue r))))
           (thn (spec_link h r)
             (bnd (player h p_id) (\<lambda>hi. spawn (Spectator_started hi i))))))))"

definition spec_unlink :: "nat \<Rightarrow> nat \<Rightarrow> unit sop" where
  "spec_unlink h r =
     bnd (player h p_spectators) (\<lambda>sp. bnd (lift_result (list_remove r sp)) (\<lambda>sp'.
       thn (upd_player h (\<lambda>p. p\<lparr>p_spectators := sp'\<rparr>))
         (upd_player r (\<lambda>p. p\<lparr>p_spectating := None\<rparr>))))"

definition remove_spectator :: "nat \<Rightarrow> nat \<Rightarrow> unit sop" where
  "remove_spectator h r =
     thn (spec_unlink h r)
     (bnd (player r p_spec_db_id) (\<lambda>db.
       thn (upd_player r (\<lambda>p. p\<lparr>p_spec_db_id := None\<rparr>))
       (thn (spawn (Spectator_ended db))
       (bnd (player h p_id) (\<lambda>hi. bnd (channels_get_by_name (spec_channel_name hi)) (\<lambda>co.
        bnd (the_or AssertionError co) (\<lambda>c.
          thn (leave_channel r c True)
          (bnd (player h p_spectators) (\<lambda>specs. bnd (player r p_id) (\<lambda>i.
             thn (if specs = [] then leave_channel h c True
                  else
                    bnd (gets (\<lambda>s. s_channel s c)) (\<lambda>x.
                    emit (channel_info (ch_name x) (ch_topic x) (int (length (ch_players x)))) (\<lambda>info.
                    emit (fellow_spectator_left i) (\<lambda>fellow.
                      thn (p_enqueue h info) (foreach specs (\<lambda>q. p_enqueue q (fellow @ info)))))))
               (emit (spectator_left i) (p_enqueue h))))))))))))"

section \<open>Logging out\<close>

text \<open>
  \<^verbatim>\<open>while self.channels: self.leave_channel(self.channels[0], kick=False)\<close>. When the
  player is not in the first channel, \<^verbatim>\<open>leave_channel\<close> returns without change and the
  loop does not end. Every iteration that does something removes a channel, so with the
  number of channels as fuel the loop that has not emptied the list is one that never will:
  \<open>Hang\<close>.
\<close>

fun leave_all :: "nat \<Rightarrow> nat \<Rightarrow> unit sop" where
  "leave_all 0 r = bnd (player r p_channels) (\<lambda>cs. if cs = [] then skip else raise Hang)"
| "leave_all (Suc n) r = bnd (player r p_channels) (\<lambda>cs. case cs of
       [] \<Rightarrow> skip
     | c # _ \<Rightarrow> thn (leave_channel r c False) (leave_all n r))"

definition logout :: "nat \<Rightarrow> unit sop" where
  "logout r =
     thn (bnd (player r p_match) (\<lambda>m. if m \<noteq> None then leave_match r else skip))
     (thn (bnd (player r p_spectating) (\<lambda>h. case h of None \<Rightarrow> skip | Some h \<Rightarrow> remove_spectator h r))
     (thn (bnd (player r p_channels) (\<lambda>cs. leave_all (length cs) r))
     (thn (players_remove r)
     (thn (upd_player r (\<lambda>p. p\<lparr>p_token := []\<rparr>))
       (bnd (player r (\<lambda>p. (p_restricted p, p_id p))) (\<lambda>(restr, i).
          if \<not> restr then emit (logout_packet i) (\<lambda>d. players_enqueue d []) else skip))))))"

section \<open>Privileges, silences, relationships\<close>

definition enqueue_privs :: "nat \<Rightarrow> unit sop" where
  "enqueue_privs r = bnd (player r (\<lambda>p. (is_online p, p_priv p))) (\<lambda>(on, priv).
     if on then emit (bancho_privileges (bancho_priv priv)) (p_enqueue r) else skip)"

definition set_privs :: "nat \<Rightarrow> (int \<Rightarrow> int) \<Rightarrow> unit sop" where
  "set_privs r f =
     thn (upd_player r (\<lambda>p. p\<lparr>p_priv := f (p_priv p)\<rparr>))
       (bnd (player r (\<lambda>p. (p_id p, p_priv p))) (\<lambda>(i, priv). spawn (Set_priv i priv)))"

definition update_privs :: "nat \<Rightarrow> int \<Rightarrow> unit sop" where
  "update_privs r new = set_privs r (\<lambda>_. new)"

definition add_privs :: "nat \<Rightarrow> int \<Rightarrow> unit sop" where
  "add_privs r bits = thn (set_privs r (\<lambda>x. x OR bits)) (enqueue_privs r)"

text \<open>\<^verbatim>\<open>~bits\<close> of a \<^verbatim>\<open>Privileges\<close> flag stays within its 15 bits.\<close>

definition privs_not :: "int \<Rightarrow> int" where
  "privs_not bits = 2 ^ 15 - 1 - bits"

definition remove_privs :: "nat \<Rightarrow> int \<Rightarrow> unit sop" where
  "remove_privs r bits = thn (set_privs r (\<lambda>x. x AND privs_not bits)) (enqueue_privs r)"

definition restrict :: "nat \<Rightarrow> nat \<Rightarrow> pystr \<Rightarrow> unit sop" where
  "restrict r admin reason =
     thn (remove_privs r P_UNRESTRICTED)
     (bnd (player admin p_id) (\<lambda>a. bnd (player r p_id) (\<lambda>i.
       thn (spawn (Add_log a i (py ''restrict'') reason))
         (bnd (player r is_online) (\<lambda>on. if on then logout r else skip)))))"

definition unrestrict :: "nat \<Rightarrow> nat \<Rightarrow> pystr \<Rightarrow> unit sop" where
  "unrestrict r admin reason =
     thn (add_privs r P_UNRESTRICTED)
     (bnd (player admin p_id) (\<lambda>a. bnd (player r p_id) (\<lambda>i.
       thn (spawn (Add_log a i (py ''unrestrict'') reason))
         (bnd (player r is_online) (\<lambda>on. if on then logout r else skip)))))"

definition trunc_rat :: "rat \<Rightarrow> int" where
  "trunc_rat x = (if x < 0 then - \<lfloor>- x\<rfloor> else \<lfloor>x\<rfloor>)"

definition silence :: "nat \<Rightarrow> nat \<Rightarrow> rat \<Rightarrow> pystr \<Rightarrow> unit sop" where
  "silence r admin duration reason =
     bnd (gets s_now) (\<lambda>now. bnd (player admin p_id) (\<lambda>a. bnd (player r p_id) (\<lambda>i.
       thn (upd_player r (\<lambda>p. p\<lparr>p_silence_end := trunc_rat (fl (now + duration))\<rparr>))
       (thn (spawn (Set_silence_end i (trunc_rat (fl (now + duration)))))
       (thn (spawn (Add_log a i (py ''silence'') reason))
       (thn (emit (silence_end_packet (trunc_rat duration)) (p_enqueue r))
       (thn (emit (user_silenced i) (\<lambda>d. players_enqueue d []))
         (bnd (player r p_match) (\<lambda>m. if m \<noteq> None then leave_match r else skip)))))))))"

definition unsilence :: "nat \<Rightarrow> nat \<Rightarrow> pystr \<Rightarrow> unit sop" where
  "unsilence r admin reason =
     bnd (gets s_now) (\<lambda>now. bnd (player admin p_id) (\<lambda>a. bnd (player r p_id) (\<lambda>i.
       thn (upd_player r (\<lambda>p. p\<lparr>p_silence_end := trunc_rat now\<rparr>))
       (thn (spawn (Set_silence_end i (trunc_rat now)))
       (thn (spawn (Add_log a i (py ''unsilence'') reason))
         (emit (silence_end_packet 0) (p_enqueue r)))))))"

definition add_friend :: "nat \<Rightarrow> nat \<Rightarrow> unit sop" where
  "add_friend r q =
     bnd (player q p_id) (\<lambda>qi. bnd (player r (\<lambda>p. (p_id p, p_friends p))) (\<lambda>(i, friends).
       if qi \<in> friends then skip
       else thn (upd_player r (\<lambda>p. p\<lparr>p_friends := insert qi (p_friends p)\<rparr>))
         (spawn (Put_relationship i qi True))))"

definition remove_friend :: "nat \<Rightarrow> nat \<Rightarrow> unit sop" where
  "remove_friend r q =
     bnd (player q p_id) (\<lambda>qi. bnd (player r (\<lambda>p. (p_id p, p_friends p))) (\<lambda>(i, friends).
       if qi \<notin> friends then skip
       else thn (upd_player r (\<lambda>p. p\<lparr>p_friends := p_friends p - {qi}\<rparr>))
         (spawn (Drop_relationship i qi))))"

text \<open>Of the player to block only the id is used, which a player object read from the database has too.\<close>

definition block_id :: "nat \<Rightarrow> int \<Rightarrow> unit sop" where
  "block_id r qi =
     bnd (player r (\<lambda>p. (p_id p, p_blocks p))) (\<lambda>(i, blocks).
       if qi \<in> blocks then skip
       else thn (upd_player r (\<lambda>p. p\<lparr>p_blocks := insert qi (p_blocks p)\<rparr>))
         (spawn (Put_relationship i qi False)))"

definition unblock_id :: "nat \<Rightarrow> int \<Rightarrow> unit sop" where
  "unblock_id r qi =
     bnd (player r (\<lambda>p. (p_id p, p_blocks p))) (\<lambda>(i, blocks).
       if qi \<notin> blocks then skip
       else thn (upd_player r (\<lambda>p. p\<lparr>p_blocks := p_blocks p - {qi}\<rparr>))
         (spawn (Drop_relationship i qi)))"

text \<open>\<^verbatim>\<open>relationships_from_sql\<close> on the rows \<open>(user2, is_friend)\<close>.\<close>

definition relationships_from_sql :: "nat \<Rightarrow> (int \<times> bool) list \<Rightarrow> unit sop" where
  "relationships_from_sql r rows =
     thn (foreach rows (\<lambda>(q, fr).
       if fr then upd_player r (\<lambda>p. p\<lparr>p_friends := insert q (p_friends p)\<rparr>)
       else upd_player r (\<lambda>p. p\<lparr>p_blocks := insert q (p_blocks p)\<rparr>)))
     (upd_player r (\<lambda>p. p\<lparr>p_friends := insert 1 (p_friends p)\<rparr>))"

end
