(* ===== verification/Quiet.thy ===== *)
theory Quiet
  imports Multiplayer
begin

text \<open>
  Which part of the state an operation leaves alone. \<open>core\<close> is the state without the
  packet queues and the effect log; the operations that only send (\<open>quiet\<close>) leave it
  unchanged, whether they return or raise, so every invariant about membership, slots and
  spectators survives them.
\<close>

definition core :: "server \<Rightarrow> server" where
  "core s = s\<lparr>s_player := (\<lambda>r. (s_player s r)\<lparr>p_queue := []\<rparr>), s_log := []\<rparr>"

definition quiet :: "'a sop \<Rightarrow> bool" where
  "quiet m \<longleftrightarrow> (\<forall>s. core (snd (m s)) = core s)"

named_theorems quiets \<open>operations that only send\<close>

lemma quiet_keeps: "quiet m \<Longrightarrow> keeps (\<lambda>s. core s = c) m"
  by (simp add: quiet_def keeps_def)

lemma quiet_keeps_iff: "quiet m \<longleftrightarrow> (\<forall>c. keeps (\<lambda>s. core s = c) m)"
  by (auto simp: quiet_def keeps_def)

lemma quietI: "(\<And>c. keeps (\<lambda>s. core s = c) m) \<Longrightarrow> quiet m"
  by (simp add: quiet_keeps_iff)

lemma quiet_view: "quiet m \<Longrightarrow> (\<And>s. V s = W (core s)) \<Longrightarrow> keeps (\<lambda>s. V s) m"
  by (simp add: quiet_def keeps_def)

lemma quiet_retn [quiets]: "quiet (retn x)" and quiet_skip [quiets]: "quiet skip"
  and quiet_raise [quiets]: "quiet (raise e)" and quiet_gets [quiets]: "quiet (gets f)"
  and quiet_lift [quiets]: "quiet (lift_result r)"
  by (simp_all add: quiet_def op_defs)

lemma quiet_the_or [quiets]: "quiet (the_or e v)"
  by (rule quietI) (rule keeps_the_or)

lemma quiet_bnd [quiets]: "quiet m \<Longrightarrow> (\<And>x. quiet (k x)) \<Longrightarrow> quiet (bnd m k)"
  unfolding quiet_keeps_iff by (blast intro: keeps_bnd)

lemma quiet_thn [quiets]: "quiet m \<Longrightarrow> quiet k \<Longrightarrow> quiet (thn m k)"
  unfolding thn_def by (rule quiet_bnd)

lemma quiet_if [quiets]: "quiet m \<Longrightarrow> quiet k \<Longrightarrow> quiet (if b then m else k)"
  by simp

lemma quiet_option [quiets]: "quiet m \<Longrightarrow> (\<And>x. quiet (k x)) \<Longrightarrow> quiet (case v of None \<Rightarrow> m | Some x \<Rightarrow> k x)"
  by (cases v) simp_all

lemma quiet_prod [quiets]: "(\<And>a b. quiet (k a b)) \<Longrightarrow> quiet (case p of (a, b) \<Rightarrow> k a b)"
  by (cases p) simp

lemma quiet_let [quiets]: "quiet (k v) \<Longrightarrow> quiet (let x = v in k x)"
  by simp

lemma quiet_foreach [quiets]: "(\<And>x. quiet (f x)) \<Longrightarrow> quiet (foreach xs f)"
  by (induction xs) (simp_all add: quiet_skip quiet_thn)

lemma quiet_player [quiets]: "quiet (player r f)" and quiet_channel [quiets]: "quiet (channel c g)"
  and quiet_game [quiets]: "quiet (game m h)"
  by (simp_all add: player_def channel_def game_def quiet_gets)

lemma quiet_spawn [quiets]: "quiet (spawn t)"
  by (simp add: quiet_def spawn_def modify_def core_def)

lemma quiet_p_enqueue [quiets]: "quiet (p_enqueue r data)"
  by (auto simp: quiet_def p_enqueue_def upd_player_def modify_def core_def fun_eq_iff)

lemma quiet_p_dequeue [quiets]: "quiet (p_dequeue r)"
proof -
  have "quiet (upd_player r (\<lambda>p. p\<lparr>p_queue := []\<rparr>))"
    by (auto simp: quiet_def upd_player_def modify_def core_def fun_eq_iff)
  then show ?thesis unfolding p_dequeue_def by (intro quiets)
qed

lemma quiet_emit [quiets]: "(\<And>d. quiet (k d)) \<Longrightarrow> quiet (emit b k)"
  unfolding emit_def by (intro quiets)

lemma quiet_emit_match [quiets]: "(\<And>d. quiet (k d)) \<Longrightarrow> quiet (emit_match f m k)"
  unfolding emit_match_def by (intro quiets)

text \<open>The sending operations.\<close>

lemma quiet_channels_get_by_name [quiets]: "quiet (channels_get_by_name n)"
  and quiet_get_by_id [quiets]: "quiet (get_by_id i)"
  and quiet_get_by_token [quiets]: "quiet (get_by_token t)"
  and quiet_get_by_name [quiets]: "quiet (get_by_name nm)"
  and quiet_matches_get_free [quiets]: "quiet matches_get_free"
  and quiet_silenced [quiets]: "quiet (silenced r)"
  unfolding channels_get_by_name_def get_by_id_def get_by_token_def get_by_name_def
    matches_get_free_def silenced_def by (rule quiet_gets)+

lemma quiet_latest_activity_soon [quiets]: "quiet (latest_activity_soon r)"
  unfolding latest_activity_soon_def by (intro quiets)

lemma quiet_players_enqueue [quiets]: "quiet (players_enqueue d immune)"
  unfolding players_enqueue_def by (intro quiets)

lemma quiet_ch_enqueue [quiets]: "quiet (ch_enqueue c d immune)"
  unfolding ch_enqueue_def by (intro quiets)

lemma quiet_ch_send [quiets]: "quiet (ch_send c msg r b)"
  unfolding ch_send_def by (intro quiets)

lemma quiet_ch_send_bot [quiets]: "quiet (ch_send_bot c msg)"
  unfolding ch_send_bot_def by (intro quiets)

lemma quiet_p_send [quiets]: "quiet (p_send r msg q c)"
  unfolding p_send_def by (intro quiets)

lemma quiet_p_send_bot [quiets]: "quiet (p_send_bot r msg)"
  unfolding p_send_bot_def by (intro quiets)

lemma quiet_ch_send_selective [quiets]: "quiet (ch_send_selective c msg r rs)"
  unfolding ch_send_selective_def by (intro quiets)

lemma quiet_broadcast_channel_info [quiets]: "quiet (broadcast_channel_info c)"
  unfolding broadcast_channel_info_def by (intro quiets)

lemma quiet_match_host [quiets]: "quiet (match_host m)"
  unfolding match_host_def by (intro quiets)

lemma quiet_get_slot_id [quiets]: "quiet (get_slot_id m r)"
  unfolding get_slot_id_def by (intro quiets)

lemma quiet_get_host_slot [quiets]: "quiet (get_host_slot m)"
  unfolding get_host_slot_def by (intro quiets)

lemma quiet_lobby_enqueue [quiets]: "quiet (lobby_enqueue d)"
  unfolding lobby_enqueue_def by (intro quiets)

lemma quiet_match_enqueue [quiets]: "quiet (match_enqueue m d l immune)"
  unfolding match_enqueue_def by (intro quiets)

lemma quiet_enqueue_state [quiets]: "quiet (enqueue_state m l)"
  unfolding enqueue_state_def by (intro quiets)

lemma quiet_join_fail [quiets]: "quiet (join_fail r)"
  unfolding join_fail_def by (intro quiets)

lemma quiet_enqueue_privs [quiets]: "quiet (enqueue_privs r)"
  unfolding enqueue_privs_def by (intro quiets)

end
