(* ===== verification/Invariants.thy ===== *)
theory Invariants
  imports Quiet
begin

text \<open>
  What every operation of the sessions preserves, returning or raising (\<open>wfs\<close>): a member of
  a channel has that channel in its own list; a player is in a spectator list exactly of the
  host it is spectating; a player who sits in a slot has that match as its match and sits
  nowhere else; a match has 16 slots; the match table has 64 entries, each holding the match
  of its own index. \<open>links\<close> is the part of the state the seats and spectators depend on.
\<close>

section \<open>The invariant\<close>

definition chan_inv :: "server \<Rightarrow> bool" where
  "chan_inv s \<longleftrightarrow> (\<forall>c. distinct (ch_players (s_channel s c)) \<and>
     (\<forall>r \<in> set (ch_players (s_channel s c)). c \<in> set (p_channels (s_player s r))))"

definition spec_inv :: "server \<Rightarrow> bool" where
  "spec_inv s \<longleftrightarrow> (\<forall>h. distinct (p_spectators (s_player s h)) \<and>
     (\<forall>r. r \<in> set (p_spectators (s_player s h)) \<longleftrightarrow> p_spectating (s_player s r) = Some h))"

definition seated :: "server \<Rightarrow> nat \<Rightarrow> nat \<Rightarrow> nat \<Rightarrow> bool" where
  "seated s m i r \<longleftrightarrow> i < length (m_slots (s_match s m)) \<and> sl_player (m_slots (s_match s m) ! i) = Some r"

definition seat_inv :: "server \<Rightarrow> bool" where
  "seat_inv s \<longleftrightarrow> (\<forall>m. length (m_slots (s_match s m)) = 16) \<and>
     (\<forall>m i r. seated s m i r \<longrightarrow> p_match (s_player s r) = Some m) \<and>
     (\<forall>m i j r. seated s m i r \<longrightarrow> seated s m j r \<longrightarrow> i = j)"

definition table_inv :: "server \<Rightarrow> bool" where
  "table_inv s \<longleftrightarrow> length (s_matches s) = 64 \<and>
     (\<forall>i m. i < 64 \<longrightarrow> s_matches s ! i = Some m \<longrightarrow> m_id (s_match s m) = int i \<and> m < s_next s)"

definition wfs :: "server \<Rightarrow> bool" where
  "wfs s \<longleftrightarrow> chan_inv s \<and> spec_inv s \<and> seat_inv s \<and> table_inv s"

definition links :: "server \<Rightarrow> (nat \<Rightarrow> nat option list) \<times> (nat \<Rightarrow> nat option) \<times> (nat \<Rightarrow> nat list) \<times> (nat \<Rightarrow> nat option)" where
  "links s = ((\<lambda>m. map sl_player (m_slots (s_match s m))), (\<lambda>r. p_match (s_player s r)),
     (\<lambda>r. p_spectators (s_player s r)), (\<lambda>r. p_spectating (s_player s r)))"

definition wfl :: "(nat \<Rightarrow> nat option list) \<times> (nat \<Rightarrow> nat option) \<times> (nat \<Rightarrow> nat list) \<times> (nat \<Rightarrow> nat option)
    \<Rightarrow> server \<Rightarrow> bool" where
  "wfl v s \<longleftrightarrow> wfs s \<and> links s = v"

lemma seated_links: "seated s m i r \<longleftrightarrow> i < length (fst (links s) m) \<and> fst (links s) m ! i = Some r"
  by (auto simp: seated_def links_def)

lemma seat_inv_links:
  "seat_inv s \<longleftrightarrow> (\<forall>m. length (fst (links s) m) = 16) \<and>
     (\<forall>m i r. seated s m i r \<longrightarrow> fst (snd (links s)) r = Some m) \<and>
     (\<forall>m i j r. seated s m i r \<longrightarrow> seated s m j r \<longrightarrow> i = j)"
  by (simp add: seat_inv_def links_def)

lemma spec_inv_links:
  "spec_inv s \<longleftrightarrow> (\<forall>h. distinct (fst (snd (snd (links s))) h) \<and>
     (\<forall>r. r \<in> set (fst (snd (snd (links s))) h) \<longleftrightarrow> snd (snd (snd (links s))) r = Some h))"
  by (simp add: spec_inv_def links_def)

text \<open>A state with the same links and the same channels and table is as good.\<close>

lemma wf_transfer:
  assumes "wfs s" "links s' = links s" "chan_inv s \<Longrightarrow> chan_inv s'" "table_inv s \<Longrightarrow> table_inv s'"
  shows "wfs s'"
proof -
  have "seat_inv s' = seat_inv s" unfolding seat_inv_links seated_links assms(2) ..
  moreover have "spec_inv s' = spec_inv s" unfolding spec_inv_links assms(2) ..
  ultimately show ?thesis using assms by (simp add: wfs_def)
qed

lemma keeps_wfl:
  assumes "\<And>v. keeps (wfl v) m"
  shows "keeps wfs m"
  unfolding keeps_def
proof (intro allI impI)
  fix s assume "wfs s"
  then have "wfl (links s) s" by (simp add: wfl_def)
  then show "wfs (snd (m s))" using assms by (auto simp: keeps_def wfl_def)
qed

lemma keeps_wfl_links: "keeps (wfl v) m \<Longrightarrow> wfl v s \<Longrightarrow> links (snd (m s)) = v"
  by (auto simp: keeps_def wfl_def)

named_theorems wf_keeps \<open>operations that preserve the invariant\<close>
named_theorems wfl_keeps \<open>operations that preserve the invariant and the links\<close>

section \<open>The primitive updates\<close>

lemma core_sel [simp]:
  "p_channels (s_player (core s) r) = p_channels (s_player s r)"
  "p_spectators (s_player (core s) r) = p_spectators (s_player s r)"
  "p_spectating (s_player (core s) r) = p_spectating (s_player s r)"
  "p_match (s_player (core s) r) = p_match (s_player s r)"
  "p_id (s_player (core s) r) = p_id (s_player s r)"
  "p_name (s_player (core s) r) = p_name (s_player s r)"
  "p_priv (s_player (core s) r) = p_priv (s_player s r)"
  "p_token (s_player (core s) r) = p_token (s_player s r)"
  "s_channel (core s) = s_channel s" "s_match (core s) = s_match s" "s_players (core s) = s_players s"
  "s_by_id (core s) = s_by_id s" "s_by_name (core s) = s_by_name s" "s_by_token (core s) = s_by_token s"
  "s_channels (core s) = s_channels s" "s_matches (core s) = s_matches s" "s_next (core s) = s_next s"
  "s_bot (core s) = s_bot s" "s_now (core s) = s_now s" "s_env (core s) = s_env s"
  by (simp_all add: core_def)

lemma wf_core: "wfs (core s) = wfs s"
  by (simp add: wfs_def chan_inv_def spec_inv_def seat_inv_def seated_def table_inv_def)

lemma links_core: "links (core s) = links s"
  by (simp add: links_def)

lemma wfl_core: "wfl v (core s) = wfl v s"
  by (simp add: wfl_def wf_core links_core)

lemma quiet_wfl: "quiet m \<Longrightarrow> keeps (wfl v) m"
  by (rule quiet_view [where W = "wfl v"]) (simp_all add: wfl_core)

lemma quiet_wf: "quiet m \<Longrightarrow> keeps wfs m"
  by (rule quiet_view [where W = wfs]) (simp_all add: wf_core)

lemmas quiet_ops =
  quiet_p_enqueue quiet_p_dequeue quiet_spawn quiet_player quiet_channel quiet_game
  quiet_channels_get_by_name quiet_get_by_id quiet_get_by_token quiet_get_by_name
  quiet_matches_get_free quiet_silenced quiet_latest_activity_soon quiet_players_enqueue
  quiet_ch_enqueue quiet_ch_send quiet_ch_send_bot quiet_p_send quiet_p_send_bot
  quiet_ch_send_selective quiet_broadcast_channel_info quiet_match_host quiet_get_slot_id
  quiet_get_host_slot quiet_lobby_enqueue quiet_match_enqueue quiet_enqueue_state quiet_join_fail
  quiet_enqueue_privs

lemmas [wfl_keeps] = quiet_ops [THEN quiet_wfl]
lemmas [wf_keeps] = quiet_ops [THEN quiet_wf]

lemma keeps_emit [keeps_intros]: "(\<And>d. keeps P (k d)) \<Longrightarrow> keeps P (emit b k)"
  unfolding emit_def by (intro keeps_intros)

lemma keeps_emit_match [keeps_intros]: "(\<And>d. keeps P (k d)) \<Longrightarrow> keeps P (emit_match f m k)"
  unfolding emit_match_def by (intro keeps_intros)

lemma keeps_prod [keeps_intros]: "(\<And>a b. keeps P (k a b)) \<Longrightarrow> keeps P (case p of (a, b) \<Rightarrow> k a b)"
  by (cases p) simp

lemma wfl_upd_player [wfl_keeps]:
  assumes "\<And>p. p_channels (f p) = p_channels p" "\<And>p. p_spectators (f p) = p_spectators p"
    "\<And>p. p_spectating (f p) = p_spectating p" "\<And>p. p_match (f p) = p_match p"
  shows "keeps (wfl v) (upd_player r f)"
  unfolding upd_player_def
proof (rule keeps_modify)
  fix s assume s: "wfl v s"
  let ?s = "s\<lparr>s_player := (s_player s)(r := f (s_player s r))\<rparr>"
  have "links ?s = links s" using assms by (auto simp: links_def fun_eq_iff)
  moreover have "chan_inv ?s = chan_inv s" "table_inv ?s = table_inv s"
    using assms by (auto simp: chan_inv_def table_inv_def)
  ultimately show "wfl v ?s" using s by (auto simp: wfl_def intro: wf_transfer)
qed

lemma wfl_upd_channel [wfl_keeps]:
  assumes "\<And>x. ch_players (f x) = ch_players x"
  shows "keeps (wfl v) (upd_channel c f)"
  unfolding upd_channel_def
proof (rule keeps_modify)
  fix s assume s: "wfl v s"
  let ?s = "s\<lparr>s_channel := (s_channel s)(c := f (s_channel s c))\<rparr>"
  have "links ?s = links s" by (simp add: links_def)
  moreover have "chan_inv ?s = chan_inv s" "table_inv ?s = table_inv s"
    using assms by (auto simp: chan_inv_def table_inv_def)
  ultimately show "wfl v ?s" using s by (auto simp: wfl_def intro: wf_transfer)
qed

lemma wfl_upd_match [wfl_keeps]:
  assumes "\<And>x. map sl_player (m_slots (f x)) = map sl_player (m_slots x)" "\<And>x. m_id (f x) = m_id x"
  shows "keeps (wfl v) (upd_match m f)"
  unfolding upd_match_def
proof (rule keeps_modify)
  fix s assume s: "wfl v s"
  let ?s = "s\<lparr>s_match := (s_match s)(m := f (s_match s m))\<rparr>"
  have "links ?s = links s" using assms by (auto simp: links_def fun_eq_iff)
  moreover have "chan_inv ?s = chan_inv s" "table_inv ?s = table_inv s"
    using assms by (auto simp: chan_inv_def table_inv_def)
  ultimately show "wfl v ?s" using s by (auto simp: wfl_def intro: wf_transfer)
qed

lemma wfl_upd_slots [wfl_keeps]:
  "(\<And>x. sl_player (f x) = sl_player x) \<Longrightarrow> keeps (wfl v) (upd_slots m f)"
  unfolding upd_slots_def by (intro wfl_upd_match) simp_all

lemma wfl_upd_slot [wfl_keeps]:
  "(\<And>x. sl_player (f x) = sl_player x) \<Longrightarrow> keeps (wfl v) (upd_slot m i f)"
  unfolding upd_slot_def
  by (intro wfl_upd_match) (simp_all add: map_update_same)

lemma wfl_modify [wfl_keeps]:
  assumes "\<And>s. s_player (f s) = s_player s" "\<And>s. s_channel (f s) = s_channel s"
    "\<And>s. s_match (f s) = s_match s" "\<And>s. s_matches (f s) = s_matches s" "\<And>s. s_next (f s) = s_next s"
  shows "keeps (wfl v) (modify f)"
proof (rule keeps_modify)
  fix s assume s: "wfl v s"
  have "links (f s) = links s" using assms by (simp add: links_def)
  moreover have "chan_inv (f s) = chan_inv s" "table_inv (f s) = table_inv s"
    using assms by (auto simp: chan_inv_def table_inv_def)
  ultimately show "wfl v (f s)" using s by (auto simp: wfl_def intro: wf_transfer)
qed

lemma wfl_matches_remove [wfl_keeps]: "keeps (wfl v) (matches_remove m)"
  unfolding matches_remove_def
proof (rule keeps_modify)
  fix s assume s: "wfl v s"
  let ?s = "case find_index (\<lambda>x. x = Some m) (s_matches s) of None \<Rightarrow> s | Some i \<Rightarrow> s\<lparr>s_matches := (s_matches s)[i := None]\<rparr>"
  have "links ?s = links s" by (auto simp: links_def split: option.split)
  moreover have "chan_inv ?s = chan_inv s" by (auto simp: chan_inv_def split: option.split)
  moreover have "table_inv s \<Longrightarrow> table_inv ?s"
    by (auto simp: table_inv_def split: option.split dest!: update_None_nth)
  ultimately show "wfl v ?s" using s by (auto simp: wfl_def intro: wf_transfer)
qed

lemmas wf_from_wfl = keeps_wfl

end
