(* ===== verification/Preserve.thy ===== *)
theory Preserve
  imports Invariants
begin

text \<open>
  The membership operations preserve the invariant of the sessions. Operations that do not
  move anyone between seats or hosts also keep \<open>links\<close>, which is how a fact read before a
  chain of sends is still known after it.
\<close>

text \<open>A chain of operations read as a triple; its tail is an operation already known to preserve.\<close>

lemma triple_thn_keeps:
  "triple P m (\<lambda>_. Q) Q \<Longrightarrow> keeps Q k \<Longrightarrow> triple P (thn m k) (\<lambda>_. Q) Q"
  by (auto intro: triple_thn simp: keeps_triple)

lemma triple_bnd_keeps:
  "triple P m (\<lambda>_. Q) Q \<Longrightarrow> (\<And>x. keeps Q (k x)) \<Longrightarrow> triple P (bnd m k) (\<lambda>_. Q) Q"
  by (auto intro: triple_bnd simp: keeps_triple)

lemma triple_bnd_raise: "(\<And>s. P s \<Longrightarrow> E s) \<Longrightarrow> triple P (bnd (raise e) k) Q E"
  by (simp add: triple_def)

lemma triple_bnd_retn: "triple P (k x) Q E \<Longrightarrow> triple P (bnd (retn x) k) Q E"
  by (simp add: triple_def)

lemma keeps_list: "(xs = [] \<Longrightarrow> keeps P m) \<Longrightarrow> (\<And>y ys. xs = y # ys \<Longrightarrow> keeps P (k y ys)) \<Longrightarrow>
    keeps P (case xs of [] \<Rightarrow> m | y # ys \<Rightarrow> k y ys)"
  by (cases xs) simp_all

lemma triple_same: "keeps P m \<Longrightarrow> (\<And>s. R s \<Longrightarrow> P s) \<Longrightarrow> triple R m (\<lambda>_. P) P"
  unfolding keeps_triple by (erule triple_conseq) simp_all

lemma triple_stateI: "(\<And>s. P s \<Longrightarrow> Q (snd (m s))) \<Longrightarrow> triple P m (\<lambda>_. Q) Q"
  by (fastforce simp: triple_def split: prod.split sum.split)

section \<open>Channels\<close>

lemma wfl_chan_enter:
  assumes s: "wfl v s" and r: "r \<notin> set (ch_players (s_channel s c))"
  shows "wfl v (snd (chan_enter r c s))"
proof -
  let ?s = "snd (chan_enter r c s)"
  have e: "?s = s\<lparr>s_channel := (s_channel s)(c := (s_channel s c)\<lparr>ch_players := ch_players (s_channel s c) @ [r]\<rparr>),
      s_player := (s_player s)(r := (s_player s r)\<lparr>p_channels := p_channels (s_player s r) @ [c]\<rparr>)\<rparr>"
    by (simp add: chan_enter_def ch_append_def upd_channel_def upd_player_def op_defs)
  have "links ?s = links s" by (auto simp: e links_def fun_eq_iff)
  moreover have "chan_inv s \<Longrightarrow> chan_inv ?s" using r by (auto simp: e chan_inv_def)
  moreover have "table_inv s \<Longrightarrow> table_inv ?s" by (simp add: e table_inv_def)
  ultimately show ?thesis using s by (auto simp: wfl_def intro: wf_transfer)
qed

lemma wfl_join_channel [wfl_keeps]: "keeps (wfl v) (join_channel r c)"
  unfolding keeps_triple join_channel_def
  apply (rule triple_gets_bnd)
  apply (clarsimp intro!: triple_if)
  apply (intro conjI impI)
   apply (rule triple_retn, simp)
  apply (rule triple_thn_keeps)
   apply (rule triple_stateI, rule wfl_chan_enter, simp, simp)
  apply (intro keeps_intros wfl_keeps)
  done

lemma wfl_channels_remove [wfl_keeps]: "keeps (wfl v) (channels_remove c)"
  unfolding channels_remove_def by (intro keeps_intros wfl_keeps) simp_all

lemma wfl_channels_append [wfl_keeps]: "keeps (wfl v) (channels_append c)"
  unfolding channels_append_def by (intro wfl_keeps) simp_all

lemma wfl_set_players:
  assumes s: "wfl v s" and ps: "set ps \<subseteq> set (ch_players (s_channel s c))" "distinct ps"
  shows "wfl v (s\<lparr>s_channel := (s_channel s)(c := (s_channel s c)\<lparr>ch_players := ps\<rparr>)\<rparr>)"
    (is "wfl v ?s")
proof -
  have "links ?s = links s" by (simp add: links_def)
  moreover have "chan_inv s \<Longrightarrow> chan_inv ?s" using ps by (auto simp: chan_inv_def)
  moreover have "table_inv s \<Longrightarrow> table_inv ?s" by (simp add: table_inv_def)
  ultimately show ?thesis using s by (auto simp: wfl_def intro: wf_transfer)
qed

text \<open>
  Leaving removes the player from the channel's list and then the channel from the player's
  list. When the removal of an emptied instance channel raises, the first list has already
  changed; the invariant holds on that path too.
\<close>

lemma keeps_conj: "keeps P m \<Longrightarrow> keeps Q m \<Longrightarrow> keeps (\<lambda>s. P s \<and> Q s) m"
  by (simp add: keeps_def)

text \<open>\<open>out r c\<close>: the player is not in the channel any more.\<close>

definition out_of :: "nat \<Rightarrow> nat \<Rightarrow> server \<Rightarrow> bool" where
  "out_of r c s \<longleftrightarrow> r \<notin> set (ch_players (s_channel s c))"

lemma out_of_channels_remove: "keeps (out_of r c) (channels_remove c')"
  unfolding channels_remove_def out_of_def by (intro keeps_intros keeps_modify) simp_all

lemma ch_remove_out:
  "triple (wfl v) (ch_remove c r) (\<lambda>_ s. wfl v s \<and> out_of r c s) (wfl v)"
proof -
  have tail: "triple (\<lambda>s. wfl v s \<and> set ps \<subseteq> set (ch_players (s_channel s c)) \<and> distinct ps \<and> r \<notin> set ps)
     (thn (upd_channel c (\<lambda>x. x\<lparr>ch_players := ps\<rparr>))
       (bnd (channel c ch_instance) (\<lambda>inst. if ps = [] \<and> inst then channels_remove c else skip)))
     (\<lambda>_ s. wfl v s \<and> out_of r c s) (\<lambda>s. wfl v s \<and> out_of r c s)" for ps
    apply (rule triple_thn_keeps)
     apply (rule triple_stateI)
     apply (simp add: upd_channel_def modify_def out_of_def)
     apply (blast intro: wfl_set_players)
    apply (intro keeps_intros keeps_conj wfl_keeps out_of_channels_remove)
    apply (simp_all add: channel_def keeps_gets)
    done
  show ?thesis
    unfolding ch_remove_def list_remove_def
    apply (subst channel_def)
    apply (rule triple_gets_bnd)
    apply (rule triple_bnd)
     prefer 2
     apply (rule triple_conseq [OF tail])
       apply assumption
      apply assumption
     apply simp
    apply (rule triple_lift)
     apply (auto simp: wfl_def wfs_def chan_inv_def dest: set_remove1_subset [THEN subsetD] split: if_split_asm)
    done
qed

lemma wfl_ch_remove [wfl_keeps]: "keeps (wfl v) (ch_remove c r)"
  unfolding keeps_triple by (rule triple_conseq [OF ch_remove_out]) simp_all

lemma wfl_drop_channel:
  assumes s: "wfl v s" and c: "out_of r c s" and cs: "set (p_channels (s_player s r)) \<subseteq> insert c (set cs)"
  shows "wfl v (s\<lparr>s_player := (s_player s)(r := (s_player s r)\<lparr>p_channels := cs\<rparr>)\<rparr>)"
    (is "wfl v ?s")
proof -
  have "links ?s = links s" by (auto simp: links_def fun_eq_iff)
  moreover have "chan_inv s \<Longrightarrow> chan_inv ?s" using c cs by (fastforce simp: chan_inv_def out_of_def)
  moreover have "table_inv s \<Longrightarrow> table_inv ?s" by (simp add: table_inv_def)
  ultimately show ?thesis using s by (auto simp: wfl_def intro: wf_transfer)
qed

lemma set_remove1_insertD: "x \<in> set xs \<Longrightarrow> x \<notin> set (remove1 c xs) \<Longrightarrow> x = c"
  by (metis in_set_remove1)

lemma wfl_chan_exit [wfl_keeps]: "keeps (wfl v) (chan_exit r c)"
  unfolding keeps_triple chan_exit_def player_def list_remove_def
  apply (rule triple_thn [OF ch_remove_out])
  apply (rule triple_gets_bnd)
  apply (rule triple_bnd [where R = "\<lambda>cs' s. wfl v s \<and> out_of r c s \<and>
      set (p_channels (s_player s r)) \<subseteq> insert c (set cs')"])
   apply (rule triple_lift)
    apply (auto split: if_split_asm dest: set_remove1_insertD) [2]
  apply (rule triple_stateI)
  apply (auto simp: upd_player_def modify_def intro: wfl_drop_channel)
  done

lemma wfl_leave_channel [wfl_keeps]: "keeps (wfl v) (leave_channel r c kick)"
  unfolding leave_channel_def by (intro keeps_intros wfl_keeps)

lemma wfl_new_channel:
  assumes "ch_players x = []"
  shows "keeps (wfl v) (new_channel x)"
proof -
  have "wfl v s \<Longrightarrow> wfl v (s\<lparr>s_channel := (s_channel s)(c := x), s_next := Suc c\<rparr>)" if "c = s_next s" for s c
    using assms that
    by (auto simp: wfl_def wfs_def chan_inv_def spec_inv_def seat_inv_def seated_def table_inv_def links_def less_SucI)
  then show ?thesis
    unfolding new_channel_def keeps_triple
    by (intro triple_gets_bnd triple_thn_keeps triple_stateI keeps_retn) (simp add: modify_def)
qed

section \<open>Matches\<close>

lemma wfl_leave_lobby [wfl_keeps]: "keeps (wfl v) (leave_lobby r)"
  unfolding leave_lobby_def by (intro keeps_intros wfl_keeps)

lemma wfl_unready_players [wfl_keeps]: "keeps (wfl v) (unready_players m st)"
  unfolding unready_players_def by (intro wfl_keeps) simp

lemma wfl_reset_loaded [wfl_keeps]: "keeps (wfl v) (reset_players_loaded_status m)"
  unfolding reset_players_loaded_status_def by (intro wfl_keeps) simp

lemma wfl_start_game [wfl_keeps]: "keeps (wfl v) (start_game m)"
  unfolding start_game_def by (intro keeps_intros wfl_keeps) (simp_all add: start_slot_def)

lemma wfl_reset_scrim [wfl_keeps]: "keeps (wfl v) (reset_scrim m)"
  unfolding reset_scrim_def by (intro wfl_keeps) simp_all

lemma wfl_cancel_starting [wfl_keeps]: "keeps (wfl v) (cancel_starting m)"
  unfolding cancel_starting_def by (intro keeps_intros wfl_keeps) simp_all

lemma wfl_close_match [wfl_keeps]: "keeps (wfl v) (close_match m)"
  unfolding close_match_def by (intro keeps_intros wfl_keeps)

lemma wfl_hand_over [wfl_keeps]: "keeps (wfl v) (hand_over m)"
  unfolding hand_over_def by (intro keeps_intros wfl_keeps) simp_all

lemma wfl_drop_referee [wfl_keeps]: "keeps (wfl v) (drop_referee r m)"
  unfolding drop_referee_def by (intro keeps_intros wfl_keeps) simp_all

section \<open>Taking and leaving a seat\<close>

text \<open>Everything but the seats is untouched when only slots and \<^verbatim>\<open>match\<close> references change.\<close>

lemma wfs_seats:
  assumes "wfs s" and "seat_inv s'"
    and "s_channel s' = s_channel s" "s_matches s' = s_matches s" "s_next s' = s_next s"
    and "\<And>r. p_channels (s_player s' r) = p_channels (s_player s r)"
    and "\<And>r. p_spectators (s_player s' r) = p_spectators (s_player s r)"
    and "\<And>r. p_spectating (s_player s' r) = p_spectating (s_player s r)"
    and "\<And>m. m_id (s_match s' m) = m_id (s_match s m)"
  shows "wfs s'"
  using assms by (simp add: wfs_def chan_inv_def spec_inv_def table_inv_def)

lemma wfs_slots: "wfs s \<Longrightarrow> length (m_slots (s_match s m)) = 16"
  by (simp add: wfs_def seat_inv_def)

lemma wfs_seated: "wfs s \<Longrightarrow> seated s m i r \<Longrightarrow> p_match (s_player s r) = Some m"
  by (simp add: wfs_def seat_inv_def)

lemma wfs_seated_unique: "wfs s \<Longrightarrow> seated s m i r \<Longrightarrow> seated s m j r \<Longrightarrow> i = j"
  by (auto simp: wfs_def seat_inv_def)

text \<open>Every seat of \<open>s'\<close> is a seat of \<open>s\<close> or one of the new ones.\<close>

lemma seat_inv_move:
  assumes "wfs s" and "\<And>m. length (m_slots (s_match s' m)) = 16"
    and old: "\<And>m i q. seated s' m i q \<Longrightarrow> q \<noteq> r \<Longrightarrow> seated s m i q"
    and new: "\<And>m' j. seated s' m' j r \<Longrightarrow> m' = m \<and> j = i \<and> p_match (s_player s' r) = Some m"
    and pm: "\<And>q. q \<noteq> r \<Longrightarrow> p_match (s_player s' q) = p_match (s_player s q)"
  shows "seat_inv s'"
  unfolding seat_inv_def
proof (intro conjI allI impI)
  fix m' j q
  assume q: "seated s' m' j q"
  then show "p_match (s_player s' q) = Some m'"
    using new [of m' j] old [of m' j q] pm [of q] wfs_seated [OF assms(1), of m' j q]
    by (cases "q = r") auto
  fix j' assume "seated s' m' j' q"
  with q show "j = j'" using new old wfs_seated_unique [OF assms(1)] by (cases "q = r") blast+
qed (rule assms(2))

lemma seat_inv_sub:
  assumes "wfs s" and "\<And>m. length (m_slots (s_match s' m)) = 16"
    and "\<And>m i q. seated s' m i q \<Longrightarrow> seated s m i q"
    and "\<And>m i q. seated s' m i q \<Longrightarrow> p_match (s_player s' q) = p_match (s_player s q)"
  shows "seat_inv s'"
  using assms wfs_seated [OF assms(1)] wfs_seated_unique [OF assms(1)]
  unfolding seat_inv_def by metis

lemma take_slot_state:
  "snd (take_slot m i r s) =
     s\<lparr>s_match := (s_match s)(m := (s_match s m)\<lparr>m_slots := (m_slots (s_match s m))
         [i := (m_slots (s_match s m) ! i)\<lparr>
            sl_team := (if m_team_type (s_match s m) = TT_team_vs \<or> m_team_type (s_match s m) = TT_tag_team_vs
                        then T_red else sl_team (m_slots (s_match s m) ! i)),
            sl_status := S_not_ready, sl_player := Some r\<rparr>]\<rparr>),
       s_player := (s_player s)(r := (s_player s r)\<lparr>p_match := Some m\<rparr>)\<rparr>"
  by (cases "i < length (m_slots (s_match s m))")
     (auto simp: take_slot_def game_def upd_slot_def upd_match_def upd_player_def thn_def bnd_def
      gets_def modify_def skip_def retn_def list_update_beyond intro!: server.equality)

lemma wfs_take_slot:
  assumes s: "wfs s" and r: "p_match (s_player s r) = None"
  shows "wfs (snd (take_slot m i r s))"
proof (rule wfs_seats [OF s])
  let ?s = "snd (take_slot m i r s)"
  have ns: "\<not> seated s m' j r" for m' j using r wfs_seated [OF s] by fastforce
  show "seat_inv ?s"
  proof (rule seat_inv_move [OF s])
    fix m' j q assume q: "seated ?s m' j q"
    show "q \<noteq> r \<Longrightarrow> seated s m' j q"
      using q by (auto simp: take_slot_state seated_def nth_update_if split: if_split_asm)
  next
    fix m' j assume q: "seated ?s m' j r"
    show "m' = m \<and> j = i \<and> p_match (s_player ?s r) = Some m"
      using q ns by (auto simp: take_slot_state seated_def nth_update_if split: if_split_asm)
  qed (use wfs_slots [OF s] in \<open>auto simp: take_slot_state\<close>)
qed (auto simp: take_slot_state)

text \<open>A player in no slot.\<close>

definition unseated :: "nat \<Rightarrow> server \<Rightarrow> bool" where
  "unseated r s \<longleftrightarrow> (\<forall>m i. \<not> seated s m i r)"

lemma free_slot_state:
  "snd (free_slot m i s) =
     s\<lparr>s_match := (s_match s)(m := (s_match s m)\<lparr>m_slots := (m_slots (s_match s m))
         [i := slot_reset (if sl_status (m_slots (s_match s m) ! i) = S_locked then S_locked else S_open)
            (m_slots (s_match s m) ! i)]\<rparr>)\<rparr>"
  by (simp add: free_slot_def upd_slot_def upd_match_def modify_def)

lemma wfs_free_slot:
  assumes s: "wfs s"
  shows "wfs (snd (free_slot m i s))"
proof (rule wfs_seats [OF s])
  let ?s = "snd (free_slot m i s)"
  have old: "seated ?s m' j q \<Longrightarrow> seated s m' j q" for m' j q
    by (auto simp: free_slot_state seated_def nth_update_if slot_reset_def split: if_split_asm)
  show "seat_inv ?s"
    by (rule seat_inv_sub [OF s _ old]) (use wfs_slots [OF s] in \<open>auto simp: free_slot_state\<close>)
qed (auto simp: free_slot_state)

lemma free_slot_unseated:
  assumes s: "wfs s" and r: "seated s m i r"
  shows "unseated r (snd (free_slot m i s))"
  unfolding unseated_def
proof (intro allI notI)
  fix m' j assume a: "seated (snd (free_slot m i s)) m' j r"
  then have o: "seated s m' j r"
    by (auto simp: free_slot_state seated_def nth_update_if slot_reset_def split: if_split_asm)
  have "m' = m" using wfs_seated [OF s o] wfs_seated [OF s r] by simp
  moreover from this have "j = i" using wfs_seated_unique [OF s] o r by blast
  ultimately show False
    using a r by (auto simp: free_slot_state seated_def slot_reset_def nth_update_if)
qed

lemma unseated_links: "unseated r s \<longleftrightarrow> (\<forall>m i. i < length (fst (links s) m) \<longrightarrow> fst (links s) m ! i \<noteq> Some r)"
  by (simp add: unseated_def seated_links)

text \<open>An operation that keeps the links keeps a player seatless.\<close>

lemma keeps_wfl_pred:
  assumes "\<And>v. keeps (wfl v) m" and "\<And>s. Q s = Q' (links s)"
  shows "keeps (\<lambda>s. wfs s \<and> Q s) m"
  unfolding keeps_def
proof (intro allI impI)
  fix s assume s: "wfs s \<and> Q s"
  then have "wfl (links s) s" by (simp add: wfl_def)
  then have "wfl (links s) (snd (m s))" using assms(1) by (auto simp: keeps_def)
  then show "wfs (snd (m s)) \<and> Q (snd (m s))" using s by (simp add: wfl_def assms(2))
qed

lemma keeps_unseated: "(\<And>v. keeps (wfl v) m) \<Longrightarrow> keeps (\<lambda>s. wfs s \<and> unseated r s) m"
  by (erule keeps_wfl_pred) (rule unseated_links)

lemma keeps_matchless: "(\<And>v. keeps (wfl v) m) \<Longrightarrow> keeps (\<lambda>s. wfs s \<and> p_match (s_player s r) = None) m"
  by (erule keeps_wfl_pred [where Q' = "\<lambda>l. fst (snd l) r = None"]) (simp add: links_def)

lemma keeps_hostless: "(\<And>v. keeps (wfl v) m) \<Longrightarrow> keeps (\<lambda>s. wfs s \<and> p_spectating (s_player s r) = None) m"
  by (erule keeps_wfl_pred [where Q' = "\<lambda>l. snd (snd (snd l)) r = None"]) (simp add: links_def)

lemma wfs_unmatch:
  "wfs s \<Longrightarrow> unseated r s \<Longrightarrow> wfs (s\<lparr>s_player := (s_player s)(r := (s_player s r)\<lparr>p_match := None\<rparr>)\<rparr>)"
  by (rule wfs_seats, assumption, rule seat_inv_sub, assumption)
     (auto simp: wfs_slots unseated_def seated_def)

lemma slot_index_seated: "slot_index r (s_match s m) = Some i \<Longrightarrow> seated s m i r"
  by (auto simp: slot_index_def seated_def dest: find_index_bound find_index_sat)

lemma wfs_upd_player [wf_keeps]:
  "(\<And>p. p_channels (f p) = p_channels p) \<Longrightarrow> (\<And>p. p_spectators (f p) = p_spectators p) \<Longrightarrow>
   (\<And>p. p_spectating (f p) = p_spectating p) \<Longrightarrow> (\<And>p. p_match (f p) = p_match p) \<Longrightarrow>
   keeps wfs (upd_player r f)"
  by (intro keeps_wfl wfl_upd_player)

lemmas [wf_keeps] = keeps_wfl [OF wfl_join_channel] keeps_wfl [OF wfl_leave_channel]
  keeps_wfl [OF wfl_channels_append] keeps_wfl [OF wfl_leave_lobby] keeps_wfl [OF wfl_unready_players]
  keeps_wfl [OF wfl_reset_loaded] keeps_wfl [OF wfl_start_game] keeps_wfl [OF wfl_reset_scrim]
  keeps_wfl [OF wfl_close_match] keeps_wfl [OF wfl_hand_over] keeps_wfl [OF wfl_drop_referee]
  keeps_wfl [OF wfl_channels_remove] keeps_wfl [OF wfl_chan_exit]

text \<open>The middle of \<^verbatim>\<open>leave_match\<close>: no one changes seats.\<close>

definition leave_rest :: "nat \<Rightarrow> nat \<Rightarrow> unit sop" where
  "leave_rest r m =
     thn (bnd (game m m_chat) (\<lambda>c. leave_channel r c True))
       (bnd (game m m_slots) (\<lambda>slots.
          if list_all slot_empty slots then close_match m
          else
            bnd (match_host m) (\<lambda>h.
              thn (if r = h then hand_over m else skip)
              (thn (drop_referee r m) (enqueue_state m True)))))"

lemma wfl_leave_rest [wfl_keeps]: "keeps (wfl v) (leave_rest r m)"
  unfolding leave_rest_def by (intro keeps_intros wfl_keeps)

lemma thn_assoc: "thn (thn a b) c = thn a (thn b c)"
  by (rule ext) (simp add: thn_def bnd_def split: prod.split sum.split)

lemma leave_match_parts:
  "leave_match r = bnd (player r p_match) (\<lambda>pm. case pm of
         None \<Rightarrow> skip
       | Some m \<Rightarrow> bnd (get_slot_id m r) (\<lambda>si. bnd (the_or AssertionError si) (\<lambda>i.
           thn (free_slot m i) (thn (leave_rest r m) (upd_player r (\<lambda>p. p\<lparr>p_match := None\<rparr>))))))"
  unfolding leave_match_def leave_rest_def thn_assoc by (rule refl)

lemma wfs_leave_match [wf_keeps]: "keeps wfs (leave_match r)"
proof -
  have tail: "triple (\<lambda>s. wfs s \<and> seated s m i r)
      (thn (free_slot m i) (thn (leave_rest r m) (upd_player r (\<lambda>p. p\<lparr>p_match := None\<rparr>))))
      (\<lambda>_. wfs) wfs" for m i
    apply (rule triple_thn [where R = "\<lambda>s. wfs s \<and> unseated r s"])
     apply (rule triple_conseq [OF triple_stateI [where P = "\<lambda>s. wfs s \<and> seated s m i r"
             and Q = "\<lambda>s. wfs s \<and> unseated r s"]])
        apply (auto intro: wfs_free_slot free_slot_unseated) [4]
    apply (rule triple_thn [where R = "\<lambda>s. wfs s \<and> unseated r s"])
     apply (rule triple_keeps [OF keeps_unseated])
       apply (intro wfl_keeps)
      apply simp_all
    apply (rule triple_stateI)
    apply (simp add: upd_player_def modify_def wfs_unmatch)
    done
  show ?thesis
    unfolding keeps_triple leave_match_parts player_def get_slot_id_def game_def
    apply (rule triple_gets_bnd)
    apply (rename_tac pm, case_tac pm)
     apply (simp, rule triple_skip, simp)
    apply (simp, rule triple_gets_bnd)
    apply (rename_tac m si, case_tac si)
     apply (simp, rule triple_bnd_raise, simp)
    apply (simp, rule triple_bnd_retn)
    apply (rule triple_conseq [OF tail])
      apply (auto intro: slot_index_seated)
    done
qed

text \<open>Joining a match: that the player has no match is still known when the seat is taken.\<close>

lemma wfs_enter_match:
  "triple (\<lambda>s. wfs s \<and> p_match (s_player s r) = None) (enter_match r m i) (\<lambda>_. wfs) wfs"
proof -
  have k: "keeps wfs (thn (emit_match match_join_success m (p_enqueue r)) (thn (enqueue_state m True) (retn True)))"
    by (intro keeps_intros wf_keeps)
  have seat: "triple (\<lambda>s. wfs s \<and> p_match (s_player s r) = None)
      (thn (leave_lobby r) (thn (take_slot m i r)
         (thn (emit_match match_join_success m (p_enqueue r)) (thn (enqueue_state m True) (retn True)))))
      (\<lambda>_. wfs) wfs"
    apply (rule triple_thn [where R = "\<lambda>s. wfs s \<and> p_match (s_player s r) = None"])
     apply (rule triple_keeps [OF keeps_matchless])
       apply (intro wfl_keeps)
      apply simp_all
    apply (rule triple_thn_keeps [OF triple_stateI k])
    apply (simp add: wfs_take_slot)
    done
  show ?thesis
    unfolding enter_match_def game_def
    apply (rule triple_gets_bnd)
    apply (rule triple_bnd [where R = "\<lambda>_ s. wfs s \<and> p_match (s_player s r) = None"])
     apply (rule triple_keeps [where P = "\<lambda>s. wfs s \<and> p_match (s_player s r) = None", THEN triple_conseq])
          apply (intro keeps_matchless wfl_keeps)
         apply simp_all
    apply (intro conjI impI)
     apply (rule triple_retn, simp)
    apply (rule seat)
    done
qed

lemma wfs_join_match [wf_keeps]: "keeps wfs (join_match r m passwd)"
proof -
  let ?I = "\<lambda>s. wfs s \<and> p_match (s_player s r) = None"
  have fail: "triple ?I (join_fail r) (\<lambda>_. wfs) wfs"
    by (rule triple_same [OF quiet_wf [OF quiet_join_fail]]) simp
  have host: "triple ?I (match_host m) (\<lambda>_. ?I) wfs"
    by (rule triple_keeps [OF keeps_matchless]) (intro wfl_keeps, simp_all)
  show ?thesis
    unfolding keeps_triple join_match_def
    apply (rule triple_gets_bnd)
    apply (rename_tac px, case_tac px, rename_tac p x, simp)
    apply (intro conjI impI)
      apply (rule triple_same [OF quiet_wf [OF quiet_join_fail]], simp)+
    apply (rule triple_bnd [where R = "\<lambda>_. ?I"])
     apply (rule triple_conseq [OF host]; auto)
    apply (intro triple_if)
     apply (rule triple_gets_bnd)
     apply (rule triple_conseq [where P = ?I and Q = "\<lambda>_. wfs" and E = wfs])
        apply (auto intro: fail wfs_enter_match split: option.split)
    done
qed

section \<open>Spectators\<close>

lemma wfl_open_spec_channel [wfl_keeps]: "keeps (wfl v) (open_spec_channel h)"
  unfolding open_spec_channel_def
  by (intro keeps_intros wfl_keeps wfl_new_channel) (simp add: channel_init_def)

lemma wfs_spec:
  assumes "wfs s" and "spec_inv s'"
    and "s_channel s' = s_channel s" "s_matches s' = s_matches s" "s_next s' = s_next s" "s_match s' = s_match s"
    and "\<And>r. p_channels (s_player s' r) = p_channels (s_player s r)"
    and "\<And>r. p_match (s_player s' r) = p_match (s_player s r)"
  shows "wfs s'"
proof -
  have "seated s' = seated s" using assms by (simp add: seated_def fun_eq_iff)
  then show ?thesis using assms by (simp add: wfs_def chan_inv_def seat_inv_def table_inv_def)
qed

lemma spec_link_state:
  "snd (spec_link h r s) = s\<lparr>s_player := (let f = (s_player s)(h := (s_player s h)\<lparr>p_spectators := p_spectators (s_player s h) @ [r]\<rparr>)
     in f(r := (f r)\<lparr>p_spectating := Some h\<rparr>))\<rparr>"
  by (simp add: spec_link_def upd_player_def thn_def bnd_def modify_def Let_def)

lemma wfs_spec_link:
  assumes s: "wfs s" and r: "p_spectating (s_player s r) = None"
  shows "wfs (snd (spec_link h r s))"
proof (rule wfs_spec [OF s])
  have i: "\<And>h. distinct (p_spectators (s_player s h))"
      "\<And>h q. q \<in> set (p_spectators (s_player s h)) \<longleftrightarrow> p_spectating (s_player s q) = Some h"
    using s by (auto simp: wfs_def spec_inv_def)
  then have n: "r \<notin> set (p_spectators (s_player s h))" for h using r by simp
  show "spec_inv (snd (spec_link h r s))"
    using i n r by (auto simp: spec_inv_def spec_link_state Let_def)
qed (auto simp: spec_link_state Let_def)

lemma spec_unlink_state:
  "spec_unlink h r s =
     (if r \<in> set (p_spectators (s_player s h))
      then (Inr (), s\<lparr>s_player := (let f = (s_player s)(h := (s_player s h)\<lparr>p_spectators := remove1 r (p_spectators (s_player s h))\<rparr>)
              in f(r := (f r)\<lparr>p_spectating := None\<rparr>))\<rparr>)
      else (Inl ValueError, s))"
  by (simp add: spec_unlink_def player_def list_remove_def upd_player_def thn_def bnd_def gets_def
      lift_result_def modify_def Let_def)

lemma wfs_spec_unlink:
  "triple wfs (spec_unlink h r) (\<lambda>_ s. wfs s \<and> p_spectating (s_player s r) = None) wfs"
  unfolding triple_def
proof (intro allI impI)
  fix s assume s: "wfs s"
  have i: "\<And>h. distinct (p_spectators (s_player s h))"
      "\<And>h q. q \<in> set (p_spectators (s_player s h)) \<longleftrightarrow> p_spectating (s_player s q) = Some h"
    using s by (auto simp: wfs_def spec_inv_def)
  let ?s = "snd (spec_unlink h r s)"
  have "wfs ?s \<and> p_spectating (s_player ?s r) = None" if r: "r \<in> set (p_spectators (s_player s h))"
  proof
    show "wfs ?s"
    proof (rule wfs_spec [OF s])
      have h: "p_spectating (s_player s r) = Some h" using r i by simp
      show "spec_inv ?s"
        using i r h by (auto simp: spec_inv_def spec_unlink_state Let_def set_remove1_eq)
    qed (use r in \<open>auto simp: spec_unlink_state Let_def\<close>)
    show "p_spectating (s_player ?s r) = None" using r by (simp add: spec_unlink_state Let_def)
  qed
  then show "case spec_unlink h r s of (Inl e, s') \<Rightarrow> wfs s' |
      (Inr x, s') \<Rightarrow> wfs s' \<and> p_spectating (s_player s' r) = None"
    using s by (simp add: spec_unlink_state)
qed

lemma wfs_add_spectator:
  "triple (\<lambda>s. wfs s \<and> p_spectating (s_player s r) = None) (add_spectator h r) (\<lambda>_. wfs) wfs"
proof -
  let ?I = "\<lambda>s. wfs s \<and> p_spectating (s_player s r) = None"
  have I: "(\<And>v. keeps (wfl v) m) \<Longrightarrow> triple ?I m (\<lambda>_. ?I) wfs" for m :: "'a sop"
    by (rule triple_keeps [OF keeps_hostless]) simp_all
  have link: "triple ?I (thn (spec_link h r) (bnd (player h p_id) (\<lambda>hi. spawn (Spectator_started hi i))))
      (\<lambda>_. wfs) wfs" for i
    by (rule triple_thn_keeps [OF triple_stateI]) (auto intro: wfs_spec_link keeps_intros wf_keeps)
  show ?thesis
    unfolding add_spectator_def
    apply (rule triple_bnd [OF I], intro wfl_keeps)
    apply (rule triple_bnd [OF I], intro wfl_keeps)
    apply (rule triple_if)
     apply (rule triple_skip, simp)
    apply (rule triple_bnd [OF I], intro wfl_keeps)
    apply (rename_tac si, case_tac si, simp only: prod.case)
    apply (rule triple_bnd [OF I], intro wfl_keeps)
    apply (rule triple_thn [OF I link])
    apply (intro keeps_intros wfl_keeps)
    done
qed

lemma remove_spectator_alone:
  "triple wfs (remove_spectator h r) (\<lambda>_ s. wfs s \<and> p_spectating (s_player s r) = None) wfs"
  unfolding remove_spectator_def
  apply (rule triple_thn [OF wfs_spec_unlink])
  apply (rule triple_keeps [OF keeps_hostless])
    apply (intro keeps_intros wfl_keeps; simp)
   apply simp_all
  done

lemma wfs_remove_spectator [wf_keeps]: "keeps wfs (remove_spectator h r)"
  unfolding keeps_triple by (rule triple_conseq [OF remove_spectator_alone]) simp_all

section \<open>Logging out, privileges, relationships\<close>

lemma wfs_leave_all [wf_keeps]: "keeps wfs (leave_all n r)"
proof (induction n)
  case (Suc n)
  then show ?case unfolding leave_all.simps by (intro keeps_intros keeps_list wf_keeps)
qed (unfold leave_all.simps, intro keeps_intros wf_keeps)

lemma wfl_players_remove [wfl_keeps]: "keeps (wfl v) (players_remove r)"
  unfolding players_remove_def drop_token_def drop_id_def drop_name_def
  by (intro keeps_intros wfl_keeps; simp)

lemmas [wf_keeps] = keeps_wfl [OF wfl_players_remove] keeps_wfl [OF wfl_open_spec_channel]

lemma wfs_logout [wf_keeps]: "keeps wfs (logout r)"
  unfolding logout_def by (intro keeps_intros wf_keeps; simp)

lemma wfs_privs [wf_keeps]:
  "keeps wfs (set_privs r f)" "keeps wfs (update_privs r n)" "keeps wfs (add_privs r n)"
  "keeps wfs (remove_privs r n)"
  unfolding update_privs_def add_privs_def remove_privs_def set_privs_def
  by (intro keeps_intros wf_keeps; simp)+

lemma wfs_restrict [wf_keeps]: "keeps wfs (restrict r a x)" "keeps wfs (unrestrict r a x)"
  unfolding restrict_def unrestrict_def by (intro keeps_intros wf_keeps; simp)+

lemma wfs_silence [wf_keeps]: "keeps wfs (silence r a d x)" "keeps wfs (unsilence r a x)"
  unfolding silence_def unsilence_def by (intro keeps_intros wf_keeps; simp)+

lemma wfs_relationships [wf_keeps]:
  "keeps wfs (add_friend r q)" "keeps wfs (remove_friend r q)" "keeps wfs (block_id r i)"
  "keeps wfs (unblock_id r i)" "keeps wfs (relationships_from_sql r rows)"
  unfolding add_friend_def remove_friend_def block_id_def unblock_id_def relationships_from_sql_def
  by (intro keeps_intros wf_keeps; simp)+

end
