(* ===== verification/Handlers.thy ===== *)
theory Handlers
  imports Preserve
begin

text \<open>
  The packet handlers of \<^verbatim>\<open>app/api/domains/cho.py\<close>: for every packet class its reader
  (\<^verbatim>\<open>__init__\<close>) and its \<^verbatim>\<open>handle\<close>, the table of registered packets, and the
  loop of \<^verbatim>\<open>bancho_handler\<close> over the packets of a request. What a handler asks of code
  outside the sessions (beatmap lookup, command processing, the now-playing pattern, the
  users table) is the record \<open>ext\<close>.
\<close>

section \<open>What the handlers ask of other components\<close>

record beatmap_info =
  bm_id :: int
  bm_md5 :: pystr
  bm_full_name :: pystr

record cmd_response =
  cr_hidden :: bool
  cr_resp :: "pystr option"

text \<open>A match of \<^verbatim>\<open>NOW_PLAYING_RGX\<close>: \<^verbatim>\<open>bid\<close>, the mode and the mods text.\<close>

record np_match =
  npm_bid :: int
  npm_mode :: "int option"
  npm_mods :: "pystr option"

text \<open>The row of an offline user and the token \<^verbatim>\<open>Players.get_sql\<close> generates for it.\<close>

record sql_user =
  su_id :: int
  su_name :: pystr
  su_priv :: int
  su_clan_id :: int
  su_country :: pystr
  su_country_code :: int
  su_silence_end :: int
  su_donor_end :: int
  su_token :: pystr

record ext =
  x_bmap_md5 :: "pystr \<Rightarrow> beatmap_info option"
  x_bmap_bid :: "int \<Rightarrow> beatmap_info option"
  x_commands :: "nat \<Rightarrow> nat option \<Rightarrow> pystr \<Rightarrow> cmd_response option sop"
  x_now_playing :: "pystr \<Rightarrow> np_match option"
  x_np_reply :: "beatmap_info \<Rightarrow> int \<Rightarrow> int option \<Rightarrow> pystr"
  x_user_by_name :: "pystr \<Rightarrow> sql_user option"

text \<open>\<^verbatim>\<open>Mods(n)\<close> of a signed integer: a negative one is read as a complement.\<close>

definition mods_of :: "int \<Rightarrow> int" where
  "mods_of n = (if n < 0 then n + 2 ^ 31 else n)"

section \<open>Packets about a player\<close>

definition stats_packet :: "player \<Rightarrow> bytes result" where
  "stats_packet p = (case p_stats p (st_mode (p_status p)) of
       None \<Rightarrow> Inl KeyError
     | Some gm \<Rightarrow> user_stats (p_id p) (p_status p) gm)"

definition presence_packet :: "player \<Rightarrow> bytes result" where
  "presence_packet p = (case p_stats p (st_mode (p_status p)) of
       None \<Rightarrow> Inl KeyError
     | Some gm \<Rightarrow> user_presence (p_id p) (p_name p) (p_utc_offset p) (geo_numeric (p_geoloc p))
         (bancho_priv (p_priv p)) (st_mode (p_status p)) (geo_latitude (p_geoloc p))
         (geo_longitude (p_geoloc p)) (md_rank gm))"

definition stats_of :: "server \<Rightarrow> nat \<Rightarrow> bytes result" where
  "stats_of s r = (if r = s_bot s then bot_stats (s_bot_choice s) (p_id (s_player s r))
                   else stats_packet (s_player s r))"

definition presence_of :: "server \<Rightarrow> nat \<Rightarrow> bytes result" where
  "presence_of s r = (if r = s_bot s then bot_presence (p_id (s_player s r)) (p_name (s_player s r))
                      else presence_packet (s_player s r))"

section \<open>Status and presence\<close>

text \<open>\<^verbatim>\<open>ChangeAction.__init__\<close> adjusts mods and mode after reading them.\<close>

definition read_change_action :: "(int \<times> pystr \<times> pystr \<times> int \<times> int \<times> int) reader" where
  "read_change_action =
     rbind read_u8 (\<lambda>action. rbind read_string (\<lambda>info_text. rbind read_string (\<lambda>map_md5.
     rbind read_u32 (\<lambda>mods. rbind read_u8 (\<lambda>mode.
       let (mods', mode') =
         (if has mods M_RELAX then
            (if mode = 3 then (drop_mod mods M_RELAX, mode) else (mods, mode + 4))
          else if has mods M_AUTOPILOT then
            (if mode \<in> {1, 2, 3} then (drop_mod mods M_AUTOPILOT, mode) else (mods, mode + 8))
          else (mods, mode))
       in rbind read_i32 (\<lambda>map_id. rret (action, info_text, map_md5, mods', mode', map_id)))))))"

definition upd_status :: "nat \<Rightarrow> (player_status \<Rightarrow> player_status) \<Rightarrow> unit sop" where
  "upd_status r f = upd_player r (\<lambda>p. p\<lparr>p_status := f (p_status p)\<rparr>)"

definition handle_ChangeAction :: "int \<Rightarrow> pystr \<Rightarrow> pystr \<Rightarrow> int \<Rightarrow> int \<Rightarrow> int \<Rightarrow> nat \<Rightarrow> unit sop" where
  "handle_ChangeAction action info_text map_md5 mods mode map_id r =
     bnd (lift_result (action_of action)) (\<lambda>a.
     thn (upd_status r (\<lambda>st. st\<lparr>st_action := a, st_info_text := info_text, st_map_md5 := map_md5,
            st_mods := mods\<rparr>))
     (bnd (lift_result (game_mode_of mode)) (\<lambda>gm.
     thn (upd_status r (\<lambda>st. st\<lparr>st_mode := gm, st_map_id := map_id\<rparr>))
     (bnd (gets (\<lambda>s. s_player s r)) (\<lambda>p.
        if \<not> p_restricted p then emit (stats_packet p) (\<lambda>d. players_enqueue d []) else skip)))))"

definition handle_StatsUpdateRequest :: "nat \<Rightarrow> unit sop" where
  "handle_StatsUpdateRequest r =
     bnd (gets (\<lambda>s. s_player s r)) (\<lambda>p. emit (stats_packet p) (p_enqueue r))"

definition handle_Logout :: "nat \<Rightarrow> unit sop" where
  "handle_Logout r =
     bnd (gets (\<lambda>s. fl (s_now s - p_login_time (s_player s r)) < 1)) (\<lambda>early.
       if early then skip else thn (logout r) (latest_activity_soon r))"

definition handle_ReceiveUpdates :: "int \<Rightarrow> nat \<Rightarrow> unit sop" where
  "handle_ReceiveUpdates value r =
     (if \<not> (0 \<le> value \<and> value < 3) then skip
      else bnd (lift_result (presence_filter_of value)) (\<lambda>f. upd_player r (\<lambda>p. p\<lparr>p_pres_filter := f\<rparr>)))"

definition handle_SetAwayMessage :: "message \<Rightarrow> nat \<Rightarrow> unit sop" where
  "handle_SetAwayMessage msg r = upd_player r (\<lambda>p. p\<lparr>p_away_msg := Some (msg_text msg)\<rparr>)"

definition handle_StatsRequest :: "int list \<Rightarrow> nat \<Rightarrow> unit sop" where
  "handle_StatsRequest user_ids r =
     bnd (gets (\<lambda>s. map (\<lambda>q. p_id (s_player s q)) (unrestricted s))) (\<lambda>ids.
     bnd (player r p_id) (\<lambda>own.
       foreach (filter (\<lambda>o'. o' \<in> set ids \<and> o' \<noteq> own) user_ids) (\<lambda>i.
         bnd (get_by_id i) (\<lambda>t. case t of None \<Rightarrow> skip
           | Some q \<Rightarrow> bnd (gets (\<lambda>s. stats_of s q)) (\<lambda>b. emit b (p_enqueue r))))))"

definition handle_UserPresenceRequest :: "int list \<Rightarrow> nat \<Rightarrow> unit sop" where
  "handle_UserPresenceRequest user_ids r =
     foreach user_ids (\<lambda>i. bnd (get_by_id i) (\<lambda>t. case t of None \<Rightarrow> skip
       | Some q \<Rightarrow> bnd (gets (\<lambda>s. presence_of s q)) (\<lambda>b. emit b (p_enqueue r))))"

text \<open>
  The loop variable of this handler is also called \<^verbatim>\<open>player\<close>: after the loop it is the
  last player of the set, which is who the buffer is sent to.
\<close>

definition handle_UserPresenceRequestAll :: "nat \<Rightarrow> unit sop" where
  "handle_UserPresenceRequestAll r =
     bnd (gets (\<lambda>s. e_order (s_env s) (unrestricted s))) (\<lambda>qs.
     bnd (gets (\<lambda>s. concatE (map (\<lambda>q. presence_packet (s_player s q)) qs))) (\<lambda>b.
       emit b (p_enqueue (last (r # qs)))))"

definition handle_ToggleBlockingDMs :: "int \<Rightarrow> nat \<Rightarrow> unit sop" where
  "handle_ToggleBlockingDMs value r =
     thn (upd_player r (\<lambda>p. p\<lparr>p_pm_private := (value = 1)\<rparr>)) (latest_activity_soon r)"

section \<open>Spectating\<close>

definition handle_StartSpectating :: "int \<Rightarrow> nat \<Rightarrow> unit sop" where
  "handle_StartSpectating target_id r =
     bnd (get_by_id target_id) (\<lambda>t. case t of None \<Rightarrow> skip
       | Some new_host \<Rightarrow> bnd (player r p_spectating) (\<lambda>cur. case cur of
            None \<Rightarrow> add_spectator new_host r
          | Some h \<Rightarrow>
              if h = new_host then
                bnd (player r (\<lambda>p. (p_stealth p, p_id p))) (\<lambda>(stealth, i).
                  if stealth then skip
                  else thn (emit (spectator_joined i) (p_enqueue new_host))
                    (emit (fellow_spectator_joined i) (\<lambda>d.
                      bnd (player new_host p_spectators) (\<lambda>specs.
                        foreach specs (\<lambda>q. if q \<noteq> r then p_enqueue q d else skip)))))
              else thn (remove_spectator h r) (add_spectator new_host r)))"

definition handle_StopSpectating :: "nat \<Rightarrow> unit sop" where
  "handle_StopSpectating r =
     bnd (player r p_spectating) (\<lambda>h. case h of None \<Rightarrow> skip | Some h \<Rightarrow> remove_spectator h r)"

text \<open>\<^verbatim>\<open>struct.pack("<HxI", 15, len(raw)) + raw\<close>\<close>

definition spectate_frames_raw :: "bytes \<Rightarrow> bytes result" where
  "spectate_frames_raw raw =
     bindE (enc_unsigned StructError 2 15) (\<lambda>h. bindE (enc_unsigned StructError 4 (int (length raw))) (\<lambda>n.
       Inr (h @ [0] @ n @ raw)))"

definition handle_SpectateFrames :: "replay_frame_bundle \<Rightarrow> nat \<Rightarrow> unit sop" where
  "handle_SpectateFrames b r =
     emit (spectate_frames_raw (rb_raw_data b)) (\<lambda>d.
       bnd (player r p_spectators) (\<lambda>specs. foreach specs (\<lambda>q. p_enqueue q d)))"

definition handle_CantSpectate :: "nat \<Rightarrow> unit sop" where
  "handle_CantSpectate r =
     bnd (gets (\<lambda>s. s_player s r)) (\<lambda>p. case p_spectating p of None \<Rightarrow> skip
       | Some h \<Rightarrow>
           if p_stealth p then skip
           else emit (spectator_cant_spectate (p_id p)) (\<lambda>d.
             thn (p_enqueue h d)
               (bnd (player h p_spectators) (\<lambda>specs. foreach specs (\<lambda>q. p_enqueue q d)))))"

section \<open>Messages\<close>

definition IGNORED_CHANNELS :: "pystr list" where
  "IGNORED_CHANNELS = [py ''#highlight'', py ''#userlog'']"

text \<open>The channel a public message goes to: \<open>Inl\<close> is an early return.\<close>

definition message_target :: "pystr \<Rightarrow> nat \<Rightarrow> (unit + nat option) sop" where
  "message_target recipient r =
     bnd (gets (\<lambda>s. s_player s r)) (\<lambda>p.
       if recipient \<in> set IGNORED_CHANNELS then retn (Inl ())
       else if recipient = py ''#spectator'' then
         (case p_spectating p of
            Some h \<Rightarrow> bnd (player h p_id) (\<lambda>i. bnd (channels_get_by_name (spec_channel_name i)) (\<lambda>c. retn (Inr c)))
          | None \<Rightarrow>
              if p_spectators p \<noteq> [] then bnd (channels_get_by_name (spec_channel_name (p_id p))) (\<lambda>c. retn (Inr c))
              else retn (Inl ()))
       else if recipient = py ''#multiplayer'' then
         (case p_match p of None \<Rightarrow> retn (Inl ()) | Some m \<Rightarrow> bnd (game m m_chat) (\<lambda>c. retn (Inr (Some c))))
       else bnd (channels_get_by_name recipient) (\<lambda>c. retn (Inr c)))"

definition truncated :: "pystr \<Rightarrow> pystr" where
  "truncated msg = (if 2000 < length msg then take 2000 msg @ py ''... (truncated)'' else msg)"

definition truncation_notice :: "pystr \<Rightarrow> nat \<Rightarrow> unit sop" where
  "truncation_notice msg r =
     (if 2000 < length msg then
        emit (notification (py ''Your message was truncated'' @ [10] @ py ''(exceeded 2000 characters).'')) (p_enqueue r)
      else skip)"

text \<open>The part of both message handlers that stores a \<^verbatim>\<open>/np\<close>; \<open>Some\<close> is the answer to it.\<close>

definition store_np :: "ext \<Rightarrow> np_match \<Rightarrow> nat \<Rightarrow> pystr sop" where
  "store_np x m r =
     (case x_bmap_bid x (npm_bid m) of
        None \<Rightarrow> thn (upd_player r (\<lambda>p. p\<lparr>p_last_np := None\<rparr>)) (retn (py ''Could not find map.''))
      | Some b \<Rightarrow>
          bnd (gets (\<lambda>s. (st_mode (p_status (s_player s r)), s_now s))) (\<lambda>(pmode, now).
            let mode_vn = (case npm_mode m of Some v \<Rightarrow> v | None \<Rightarrow> as_vanilla pmode);
                mods = map_option (\<lambda>t. from_np (tl t) mode_vn) (npm_mods m)
            in thn (upd_player r (\<lambda>p. p\<lparr>p_last_np := Some \<lparr>np_bmap = bm_id b, np_mode_vn = mode_vn,
                      np_mods = mods, np_timeout = fl (now + 300)\<rparr>\<rparr>))
                 (retn (x_np_reply x b mode_vn mods))))"

definition handle_SendMessage :: "ext \<Rightarrow> message \<Rightarrow> nat \<Rightarrow> unit sop" where
  "handle_SendMessage x m r =
     bnd (silenced r) (\<lambda>sil.
       if sil \<or> strip (msg_text m) = [] then skip
       else bnd (message_target (msg_recipient m) r) (\<lambda>t. case t of
           Inl _ \<Rightarrow> skip
         | Inr None \<Rightarrow> skip
         | Inr (Some c) \<Rightarrow>
             bnd (gets (\<lambda>s. (s_channel s c, s_player s r, e_prefix (s_env s)))) (\<lambda>(ch, p, pref).
               if r \<notin> set (ch_players ch) \<or> \<not> ch_can_write ch (p_priv p) then skip
               else
                 let msg = truncated (strip (msg_text m)) in
                 thn (truncation_notice (strip (msg_text m)) r)
                 (bnd (if starts_with msg pref then x_commands x r (Some c) msg else retn None) (\<lambda>cmd.
                 thn (case cmd of
                     Some k \<Rightarrow>
                       if \<not> cr_hidden k then
                         thn (ch_send c msg r False)
                           (case cr_resp k of None \<Rightarrow> skip | Some t \<Rightarrow> ch_send_bot c t)
                       else
                         bnd (gets (\<lambda>s. (staff s, s_bot s))) (\<lambda>(st, botr).
                           thn (ch_send_selective c msg r (filter (\<lambda>q. q \<noteq> r) st))
                             (case cr_resp k of None \<Rightarrow> skip
                              | Some t \<Rightarrow> ch_send_selective c t botr (if r \<in> set st then st else st @ [r])))
                   | None \<Rightarrow>
                       thn (case x_now_playing x msg of None \<Rightarrow> skip
                            | Some np \<Rightarrow> bnd (store_np x np r) (\<lambda>_. skip))
                         (ch_send c msg r False))
                   (latest_activity_soon r))))))"

text \<open>
  A private message goes to the online player of that name, or to a player object built from
  the users table. \<open>PT_sql\<close> objects are referenced by this handler alone, so what is sent to
  them is lost; their token is the one \<^verbatim>\<open>get_sql\<close> generates.
\<close>

datatype pm_target = PT_online nat | PT_sql sql_user

definition sql_player :: "sql_user \<Rightarrow> player" where
  "sql_player u = \<lparr>p_id = su_id u, p_name = su_name u, p_priv = su_priv u, p_token = su_token u,
     p_clan_id = (if su_clan_id u \<noteq> 0 then Some (su_clan_id u) else None),
     p_geoloc = \<lparr>geo_latitude = 0, geo_longitude = 0, geo_acronym = su_country u, geo_numeric = su_country_code u\<rparr>,
     p_utc_offset = 0, p_pm_private = False, p_silence_end = su_silence_end u, p_donor_end = su_donor_end u,
     p_login_time = 0, p_last_recv = 0, p_is_bot = False, p_is_tourney = False, p_away_msg = None,
     p_in_lobby = False, p_stats = (\<lambda>_. None),
     p_status = \<lparr>st_action = 0, st_info_text = [], st_map_md5 = [], st_mods = 0, st_mode = 0, st_map_id = 0\<rparr>,
     p_friends = {}, p_blocks = {}, p_channels = [], p_spectators = [], p_spectating = None,
     p_spec_db_id = None, p_match = None, p_stealth = False, p_pres_filter = 0, p_last_np = None,
     p_queue = []\<rparr>"

definition target_player :: "server \<Rightarrow> pm_target \<Rightarrow> player" where
  "target_player s t = (case t of PT_online q \<Rightarrow> s_player s q | PT_sql u \<Rightarrow> sql_player u)"

definition from_cache_or_sql :: "ext \<Rightarrow> pystr \<Rightarrow> pm_target option sop" where
  "from_cache_or_sql x name =
     bnd (get_by_name name) (\<lambda>q. retn (case q of Some q \<Rightarrow> Some (PT_online q)
       | None \<Rightarrow> map_option PT_sql (x_user_by_name x name)))"

text \<open>\<^verbatim>\<open>target.send(msg, sender=player)\<close>\<close>

definition target_send :: "pm_target \<Rightarrow> pystr \<Rightarrow> nat \<Rightarrow> unit sop" where
  "target_send t msg r = (case t of
       PT_online q \<Rightarrow> p_send q msg r None
     | PT_sql u \<Rightarrow> bnd (player r (\<lambda>p. (p_name p, p_id p))) (\<lambda>(n, i).
         emit (send_message n msg (su_name u) i) (\<lambda>_. skip)))"

definition bot_dm :: "ext \<Rightarrow> nat \<Rightarrow> pystr \<Rightarrow> nat \<Rightarrow> unit sop" where
  "bot_dm x botr msg r =
     bnd (gets (\<lambda>s. e_prefix (s_env s))) (\<lambda>pref.
     bnd (if starts_with msg pref then x_commands x r None msg else retn None) (\<lambda>cmd.
       case cmd of
         Some k \<Rightarrow> (case cr_resp k of None \<Rightarrow> skip | Some t \<Rightarrow> p_send r t botr None)
       | None \<Rightarrow> (case x_now_playing x msg of None \<Rightarrow> skip
           | Some np \<Rightarrow> bnd (store_np x np r) (\<lambda>t. p_send r t botr None))))"

definition handle_SendPrivateMessage :: "ext \<Rightarrow> message \<Rightarrow> nat \<Rightarrow> unit sop" where
  "handle_SendPrivateMessage x m r =
     bnd (silenced r) (\<lambda>sil.
       if sil \<or> strip (msg_text m) = [] then skip
       else bnd (from_cache_or_sql x (msg_recipient m)) (\<lambda>t. case t of None \<Rightarrow> skip
         | Some t \<Rightarrow>
             bnd (gets (\<lambda>s. (target_player s t, p_id (s_player s r), s_now s, s_bot s))) (\<lambda>(tp, i, now, botr).
               let name = msg_recipient m; msg = truncated (strip (msg_text m)) in
               if i \<in> p_blocks tp then emit (user_dm_blocked name) (p_enqueue r)
               else if p_pm_private tp \<and> i \<notin> p_friends tp then emit (user_dm_blocked name) (p_enqueue r)
               else if remaining_silence now tp \<noteq> 0 then emit (target_silenced name) (p_enqueue r)
               else
                 thn (truncation_notice (strip (msg_text m)) r)
                 (thn (case p_away_msg tp of
                     Some away \<Rightarrow>
                       if st_action (p_status tp) = ACTION_AFK \<and> away \<noteq> [] then
                         bnd (player r p_name) (\<lambda>own. emit (send_message (p_name tp) away own (p_id tp)) (p_enqueue r))
                       else skip
                   | None \<Rightarrow> skip)
                 (thn (if t \<noteq> PT_online botr then
                         thn (if is_online tp then target_send t msg r
                              else emit (notification (p_name tp @ py '' is currently offline, but will '' @
                                     py ''receive your messsage on their next login.'')) (p_enqueue r))
                           (spawn (Put_mail i (p_id tp) msg))
                       else bot_dm x botr msg r)
                   (latest_activity_soon r))))))"

section \<open>The lobby and match creation\<close>

definition handle_LobbyPart :: "nat \<Rightarrow> unit sop" where
  "handle_LobbyPart r = upd_player r (\<lambda>p. p\<lparr>p_in_lobby := False\<rparr>)"

definition handle_LobbyJoin :: "nat \<Rightarrow> unit sop" where
  "handle_LobbyJoin r =
     thn (upd_player r (\<lambda>p. p\<lparr>p_in_lobby := True\<rparr>))
       (bnd (gets s_matches) (\<lambda>ms. foreach ms (\<lambda>mo. case mo of None \<Rightarrow> skip
          | Some m \<Rightarrow> catch (emit_match new_match m (p_enqueue r)) ValueError skip)))"

definition validate_match_data :: "multiplayer_match \<Rightarrow> int \<Rightarrow> bool" where
  "validate_match_data d expected_host_id \<longleftrightarrow> mm_host_id d = expected_host_id \<and> length (mm_name d) \<le> 50"

definition private_suffix :: pystr where
  "private_suffix = py ''//private''"

definition mp_refused :: "nat \<Rightarrow> pystr \<Rightarrow> unit sop" where
  "mp_refused r why =
     emit match_join_fail (\<lambda>a. emit (notification (py ''Multiplayer is not available while '' @ why @ py ''.''))
       (\<lambda>b. p_enqueue r (a @ b)))"

definition matches_set :: "nat \<Rightarrow> nat \<Rightarrow> unit sop" where
  "matches_set i m = modify (\<lambda>s. s\<lparr>s_matches := (s_matches s)[i := Some m]\<rparr>)"

text \<open>Build the match object, then register it and its channel.\<close>

definition register_match :: "multiplayer_match \<Rightarrow> nat \<Rightarrow> nat sop" where
  "register_match d i =
     bnd (new_channel (channel_init (py ''#multi_'' @ str_int (int i))
            (py ''MID '' @ str_int (int i) @ 39 # py ''s multiplayer channel.'')
            P_UNRESTRICTED P_UNRESTRICTED False True)) (\<lambda>c.
     bnd (lift_result (game_mode_of (mm_mode d))) (\<lambda>mode.
     bnd (lift_result (win_condition_of (mm_win_condition d))) (\<lambda>win.
     bnd (lift_result (team_type_of (mm_team_type d))) (\<lambda>tt.
     bnd (new_game (match_init (int i) (mm_name d) (remove_suffix (mm_passwd d) private_suffix)
            (\<not> ends_with (mm_passwd d) private_suffix) d mode (mods_of (mm_mods d)) win tt c)) (\<lambda>m.
       thn (matches_set i m) (thn (channels_append c) (retn m)))))))"

definition open_match :: "multiplayer_match \<Rightarrow> nat \<Rightarrow> nat \<Rightarrow> unit sop" where
  "open_match d r i =
     bnd (register_match d i) (\<lambda>m.
     thn (latest_activity_soon r)
     (bnd (join_match r m (mm_passwd d)) (\<lambda>_.
      bnd (gets (\<lambda>s. s_match s m)) (\<lambda>g.
      bnd (player r p_name) (\<lambda>n.
      thn (ch_send_bot (m_chat g) (py ''Match created by '' @ n @ py ''.''))
        (spawn (Match_created m (m_name g) (m_host_id g) (m_public_history g))))))))"

definition handle_MatchCreate :: "multiplayer_match \<Rightarrow> nat \<Rightarrow> unit sop" where
  "handle_MatchCreate d r =
     bnd (gets (\<lambda>s. s_player s r)) (\<lambda>p. bnd (silenced r) (\<lambda>sil.
       if \<not> validate_match_data d (p_id p) then skip
       else if p_restricted p then mp_refused r (py ''restricted'')
       else if sil then mp_refused r (py ''silenced'')
       else bnd matches_get_free (\<lambda>free. case free of
           None \<Rightarrow> thn (p_send_bot r (py ''Failed to create match (no slots available).''))
             (emit match_join_fail (p_enqueue r))
         | Some i \<Rightarrow> open_match d r i)))"

text \<open>\<^verbatim>\<open>matches[self.match_id]\<close>, with Python's indexing.\<close>

definition handle_MatchJoin :: "int \<Rightarrow> pystr \<Rightarrow> nat \<Rightarrow> unit sop" where
  "handle_MatchJoin match_id passwd r =
     bnd (gets (\<lambda>s. py_index (s_matches s) match_id)) (\<lambda>e. bnd (lift_result e) (\<lambda>mo. case mo of
         None \<Rightarrow> emit match_join_fail (p_enqueue r)
       | Some m \<Rightarrow>
           bnd (gets (\<lambda>s. s_player s r)) (\<lambda>p. bnd (silenced r) (\<lambda>sil.
             if p_restricted p then mp_refused r (py ''restricted'')
             else if sil then mp_refused r (py ''silenced'')
             else thn (latest_activity_soon r) (bnd (join_match r m passwd) (\<lambda>_. skip))))))"

definition handle_MatchPart :: "nat \<Rightarrow> unit sop" where
  "handle_MatchPart r = thn (latest_activity_soon r) (leave_match r)"

section \<open>Inside a match\<close>

text \<open>\<^verbatim>\<open>if player.match is None: return\<close>\<close>

definition in_match :: "nat \<Rightarrow> (nat \<Rightarrow> unit sop) \<Rightarrow> unit sop" where
  "in_match r k = bnd (player r p_match) (\<lambda>mo. case mo of None \<Rightarrow> skip | Some m \<Rightarrow> k m)"

text \<open>\<^verbatim>\<open>slot = player.match.get_slot(player); assert slot is not None\<close>\<close>

definition own_slot :: "nat \<Rightarrow> nat \<Rightarrow> (nat \<Rightarrow> unit sop) \<Rightarrow> unit sop" where
  "own_slot m r k = bnd (get_slot_id m r) (\<lambda>si. bnd (the_or AssertionError si) k)"

text \<open>\<^verbatim>\<open>if player is not player.match.host: return\<close>\<close>

definition host_only :: "nat \<Rightarrow> nat \<Rightarrow> unit sop \<Rightarrow> unit sop" where
  "host_only m r k = bnd (match_host m) (\<lambda>h. if r \<noteq> h then skip else k)"

definition valid_slot_id :: "int \<Rightarrow> bool" where
  "valid_slot_id i \<longleftrightarrow> 0 \<le> i \<and> i < 16"

text \<open>
  \<^verbatim>\<open>slots[slot_id].copy_from(slot); slot.reset()\<close>. When both are the same slot, the
  copy is the identity and the reset empties it.
\<close>

definition move_slot :: "nat \<Rightarrow> nat \<Rightarrow> nat \<Rightarrow> unit sop" where
  "move_slot m i j =
     bnd (game m (\<lambda>g. m_slots g ! i)) (\<lambda>slot.
       thn (upd_slot m j (\<lambda>t. slot_copy_from t slot)) (upd_slot m i (slot_reset S_open)))"

definition handle_MatchChangeSlot :: "int \<Rightarrow> nat \<Rightarrow> unit sop" where
  "handle_MatchChangeSlot slot_id r =
     in_match r (\<lambda>m.
       if \<not> valid_slot_id slot_id then skip
       else bnd (game m (\<lambda>g. sl_status (m_slots g ! nat slot_id))) (\<lambda>st.
         if st \<noteq> S_open then skip
         else own_slot m r (\<lambda>i. thn (move_slot m i (nat slot_id)) (enqueue_state m True))))"

definition set_own_status :: "slot_status \<Rightarrow> nat \<Rightarrow> unit sop" where
  "set_own_status st r =
     in_match r (\<lambda>m. own_slot m r (\<lambda>i.
       thn (upd_slot m i (\<lambda>s. s\<lparr>sl_status := st\<rparr>)) (enqueue_state m False)))"

definition handle_MatchReady :: "nat \<Rightarrow> unit sop" where
  "handle_MatchReady r = set_own_status S_ready r"

definition handle_MatchNotReady :: "nat \<Rightarrow> unit sop" where
  "handle_MatchNotReady r = set_own_status S_not_ready r"

definition handle_MatchNoBeatmap :: "nat \<Rightarrow> unit sop" where
  "handle_MatchNoBeatmap r = set_own_status S_no_map r"

definition handle_MatchHasBeatmap :: "nat \<Rightarrow> unit sop" where
  "handle_MatchHasBeatmap r = set_own_status S_not_ready r"

definition handle_MatchLock :: "int \<Rightarrow> nat \<Rightarrow> unit sop" where
  "handle_MatchLock slot_id r =
     in_match r (\<lambda>m. host_only m r (
       if \<not> valid_slot_id slot_id then skip
       else bnd (game m (\<lambda>g. m_slots g ! nat slot_id)) (\<lambda>slot.
         if sl_status slot = S_locked then
           thn (upd_slot m (nat slot_id) (\<lambda>s. s\<lparr>sl_status := S_open\<rparr>)) (enqueue_state m True)
         else bnd (match_host m) (\<lambda>h.
           if sl_player slot = Some h then skip
           else thn (upd_slot m (nat slot_id) (\<lambda>s. s\<lparr>sl_status := S_locked\<rparr>)) (enqueue_state m True)))))"

text \<open>\<^verbatim>\<open>MatchChangeSettings.handle\<close>, block by block.\<close>

definition set_match_mods :: "nat \<Rightarrow> int \<Rightarrow> unit sop" where
  "set_match_mods m v = upd_match m (\<lambda>g. g\<lparr>m_mods := v\<rparr>)"

definition settings_freemods :: "nat \<Rightarrow> multiplayer_match \<Rightarrow> unit sop" where
  "settings_freemods m d =
     bnd (game m (\<lambda>g. (m_freemods g, m_mods g))) (\<lambda>(fm, mods).
       if mm_freemods d = fm then skip
       else thn (upd_match m (\<lambda>g. g\<lparr>m_freemods := mm_freemods d\<rparr>))
        (if mm_freemods d then
           thn (upd_slots m (\<lambda>s. if sl_player s \<noteq> None then s\<lparr>sl_mods := drop_mod mods SPEED_CHANGING_MODS\<rparr> else s))
             (set_match_mods m (mods AND SPEED_CHANGING_MODS))
         else
           bnd (get_host_slot m) (\<lambda>hs. bnd (the_or AssertionError hs) (\<lambda>h.
           bnd (game m (\<lambda>g. sl_mods (m_slots g ! h))) (\<lambda>host_mods.
             thn (set_match_mods m ((mods AND SPEED_CHANGING_MODS) OR host_mods))
               (upd_slots m (\<lambda>s. if sl_player s \<noteq> None then s\<lparr>sl_mods := 0\<rparr> else s)))))))"

definition settings_map :: "ext \<Rightarrow> nat \<Rightarrow> multiplayer_match \<Rightarrow> unit sop" where
  "settings_map x m d =
     bnd (gets (\<lambda>s. (s_match s m, e_domain (s_env s)))) (\<lambda>(g, domain).
       if mm_map_id d = - 1 then
         thn (unready_players m S_ready)
           (upd_match m (\<lambda>g. g\<lparr>m_prev_map_id := m_map_id g, m_map_id := - 1, m_map_md5 := [], m_map_name := []\<rparr>))
       else if m_map_id g = - 1 then
         thn (if m_prev_map_id g \<noteq> mm_map_id d then
                ch_send_bot (m_chat g) (py ''Selected: ['' @ py ''https://osu.'' @ domain @ py ''/b/'' @
                  str_int (mm_map_id d) @ py '' '' @ mm_map_name d @ py ''].'')
              else skip)
           (case x_bmap_md5 x (mm_map_md5 d) of
              Some b \<Rightarrow>
                thn (upd_match m (\<lambda>g. g\<lparr>m_map_id := bm_id b, m_map_md5 := bm_md5 b, m_map_name := bm_full_name b\<rparr>))
                (bnd (match_host m) (\<lambda>h. bnd (player h (\<lambda>p. as_vanilla (st_mode (p_status p)))) (\<lambda>v.
                 bnd (lift_result (game_mode_of v)) (\<lambda>mode. upd_match m (\<lambda>g. g\<lparr>m_mode := mode\<rparr>)))))
            | None \<Rightarrow>
                thn (upd_match m (\<lambda>g. g\<lparr>m_map_id := mm_map_id d, m_map_md5 := mm_map_md5 d, m_map_name := mm_map_name d\<rparr>))
                (bnd (lift_result (game_mode_of (mm_mode d))) (\<lambda>mode. upd_match m (\<lambda>g. g\<lparr>m_mode := mode\<rparr>))))
       else skip)"

definition team_type_names :: "pystr list" where
  "team_type_names = [py ''head-to-head'', py ''tag-coop'', py ''team-vs'', py ''tag-team-vs'']"

definition settings_team :: "nat \<Rightarrow> multiplayer_match \<Rightarrow> unit sop" where
  "settings_team m d =
     bnd (gets (\<lambda>s. s_match s m)) (\<lambda>g.
       if team_type_value (m_team_type g) = mm_team_type d then skip
       else if m_scrimming g then
         bnd (lift_result (py_index team_type_names (mm_team_type d))) (\<lambda>name.
           ch_send_bot (m_chat g) (py ''Changing team type while scrimming will reset '' @
             py ''the overall score - to do so, please use the '' @ py ''!mp teams '' @ name @ py '' command.''))
       else
         thn (upd_slots m (\<lambda>s. if sl_player s \<noteq> None
                then s\<lparr>sl_team := (if mm_team_type d = 0 \<or> mm_team_type d = 1 then T_neutral else T_red)\<rparr> else s))
           (bnd (lift_result (team_type_of (mm_team_type d))) (\<lambda>tt. upd_match m (\<lambda>g. g\<lparr>m_team_type := tt\<rparr>))))"

definition settings_win :: "nat \<Rightarrow> multiplayer_match \<Rightarrow> unit sop" where
  "settings_win m d =
     bnd (game m m_win_condition) (\<lambda>w.
       if win_value w = mm_win_condition d then skip
       else thn (upd_match m (\<lambda>g. g\<lparr>m_pp_scoring := False\<rparr>))
         (bnd (lift_result (win_condition_of (mm_win_condition d))) (\<lambda>w. upd_match m (\<lambda>g. g\<lparr>m_win_condition := w\<rparr>))))"

definition handle_MatchChangeSettings :: "ext \<Rightarrow> multiplayer_match \<Rightarrow> nat \<Rightarrow> unit sop" where
  "handle_MatchChangeSettings x d r =
     bnd (player r p_id) (\<lambda>i.
       if \<not> validate_match_data d i then skip
       else in_match r (\<lambda>m. host_only m r (
         thn (settings_freemods m d)
         (thn (settings_map x m d)
         (thn (settings_team m d)
         (thn (settings_win m d)
         (thn (upd_match m (\<lambda>g. g\<lparr>m_name := mm_name d\<rparr>))
           (enqueue_state m True))))))))"

definition handle_MatchStart :: "nat \<Rightarrow> unit sop" where
  "handle_MatchStart r = in_match r (\<lambda>m. host_only m r (start_game m))"

text \<open>The frame is forwarded with the sender's slot written over byte 11 of the packet.\<close>

definition score_update_bytes :: "bytes \<Rightarrow> nat \<Rightarrow> bytes result" where
  "score_update_bytes play_data i =
     bindE (enc_unsigned OverflowError 4 (int (length play_data))) (\<lambda>n.
       let buf = [0x30, 0, 0] @ n @ play_data in
       if length buf \<le> 11 then Inl IndexError else Inr (buf[11 := of_nat i]))"

definition handle_MatchScoreUpdate :: "bytes \<Rightarrow> nat \<Rightarrow> unit sop" where
  "handle_MatchScoreUpdate play_data r =
     in_match r (\<lambda>m. own_slot m r (\<lambda>i.
       thn (upd_slot m i (\<lambda>s. s\<lparr>sl_frame := Some play_data\<rparr>))
         (emit (score_update_bytes play_data i) (\<lambda>d. match_enqueue m d False []))))"

definition participant_frames :: "server \<Rightarrow> game_match \<Rightarrow> slot list \<Rightarrow> participant_frame list" where
  "participant_frames s g slots = concat (map (\<lambda>sl. case (sl_player sl, sl_frame sl) of
       (Some q, Some f) \<Rightarrow> [\<lparr>pf_user_id = p_id (s_player s q), pf_team = team_value (sl_team sl),
          pf_mods = (if m_freemods g then m_mods g OR sl_mods sl else m_mods g),
          pf_passed = sl_passed sl, pf_raw = f\<rparr>]
     | _ \<Rightarrow> []) slots)"

definition slot_player_ids :: "server \<Rightarrow> (slot \<Rightarrow> bool) \<Rightarrow> slot list \<Rightarrow> int list" where
  "slot_player_ids s P slots = concat (map (\<lambda>sl. case sl_player sl of
       Some q \<Rightarrow> if P sl then [p_id (s_player s q)] else [] | None \<Rightarrow> []) slots)"

text \<open>
  The indices of \<^verbatim>\<open>was_playing\<close>: the slot objects themselves are kept by the code, so the
  frames are read from them after their statuses were reset.
\<close>

definition was_playing :: "server \<Rightarrow> nat \<Rightarrow> int list \<Rightarrow> nat list" where
  "was_playing s m not_playing = filter (\<lambda>k. case sl_player (m_slots (s_match s m) ! k) of
       Some q \<Rightarrow> p_id (s_player s q) \<notin> set not_playing | None \<Rightarrow> False) [0..<length (m_slots (s_match s m))]"

definition completed_game_of :: "game_match \<Rightarrow> int list \<Rightarrow> participant_frame list \<Rightarrow> completed_game" where
  "completed_game_of g ids frames =
     \<lparr>cg_match_db_id = m_db_id g, cg_map_md5 = m_map_md5 g, cg_map_id = m_map_id g,
      cg_map_name = m_map_name g, cg_mode = m_mode g, cg_mods = m_mods g,
      cg_win_condition = win_value (m_win_condition g), cg_team_type = team_type_value (m_team_type g),
      cg_freemods = m_freemods g, cg_scrim = m_scrimming g, cg_participants = ids,
      cg_started_at = m_started_at g, cg_score_frames = frames\<rparr>"

definition finish_game :: "nat \<Rightarrow> unit sop" where
  "finish_game m =
     bnd (gets (\<lambda>s. slot_player_ids s (\<lambda>sl. sl_status sl \<noteq> S_complete) (m_slots (s_match s m)))) (\<lambda>not_playing.
     bnd (gets (\<lambda>s. was_playing s m not_playing)) (\<lambda>was.
       thn (unready_players m S_complete)
       (thn (reset_players_loaded_status m)
       (thn (upd_match m (\<lambda>g. g\<lparr>m_in_progress := False\<rparr>))
       (thn (emit match_complete (\<lambda>d. match_enqueue m d False not_playing))
       (thn (enqueue_state m True)
       (bnd (gets (\<lambda>s. s_match s m)) (\<lambda>g.
       thn (if m_scrimming g then spawn (Update_matchpoints m (map (\<lambda>k. m_slots g ! k) was)) else skip)
         (bnd (gets (\<lambda>s. (slot_player_ids s (\<lambda>_. True) (map (\<lambda>k. m_slots g ! k) was),
             participant_frames s g (map (\<lambda>k. m_slots g ! k) was)))) (\<lambda>(ids, frames).
          spawn (Game_completed (completed_game_of g ids frames))))))))))))"

definition handle_MatchComplete :: "nat \<Rightarrow> unit sop" where
  "handle_MatchComplete r =
     in_match r (\<lambda>m. own_slot m r (\<lambda>i.
       thn (upd_slot m i (\<lambda>s. s\<lparr>sl_status := S_complete\<rparr>))
       (bnd (game m m_slots) (\<lambda>slots.
          if list_ex (\<lambda>s. sl_status s = S_playing) slots then skip else finish_game m))))"

definition handle_MatchChangeMods :: "int \<Rightarrow> nat \<Rightarrow> unit sop" where
  "handle_MatchChangeMods mods r =
     in_match r (\<lambda>m.
       bnd (game m m_freemods) (\<lambda>fm.
         if fm then
           thn (bnd (match_host m) (\<lambda>h. if r = h then set_match_mods m (mods_of (mods AND SPEED_CHANGING_MODS)) else skip))
             (own_slot m r (\<lambda>i.
               thn (upd_slot m i (\<lambda>s. s\<lparr>sl_mods := mods_of (drop_mod mods SPEED_CHANGING_MODS)\<rparr>))
                 (enqueue_state m True)))
         else host_only m r (thn (set_match_mods m (mods_of mods)) (enqueue_state m True))))"

definition slot_is_playing :: "slot \<Rightarrow> bool" where
  "slot_is_playing s \<longleftrightarrow> sl_status s = S_playing \<and> \<not> sl_loaded s"

definition handle_MatchLoadComplete :: "nat \<Rightarrow> unit sop" where
  "handle_MatchLoadComplete r =
     in_match r (\<lambda>m. own_slot m r (\<lambda>i.
       thn (upd_slot m i (\<lambda>s. s\<lparr>sl_loaded := True\<rparr>))
       (bnd (game m m_slots) (\<lambda>slots.
          if \<not> list_ex slot_is_playing slots
          then emit match_all_players_loaded (\<lambda>d. match_enqueue m d False []) else skip))))"

definition handle_MatchFailed :: "nat \<Rightarrow> unit sop" where
  "handle_MatchFailed r =
     in_match r (\<lambda>m. own_slot m r (\<lambda>i.
       thn (upd_slot m i (\<lambda>s. s\<lparr>sl_passed := False\<rparr>))
         (emit (match_player_failed (int i)) (\<lambda>d. match_enqueue m d False []))))"

definition handle_MatchSkipRequest :: "nat \<Rightarrow> unit sop" where
  "handle_MatchSkipRequest r =
     in_match r (\<lambda>m. own_slot m r (\<lambda>i.
       thn (upd_slot m i (\<lambda>s. s\<lparr>sl_skipped := True\<rparr>))
       (bnd (player r p_id) (\<lambda>pid.
        thn (emit (match_player_skipped pid) (\<lambda>d. match_enqueue m d True []))
         (bnd (game m m_slots) (\<lambda>slots.
            if list_ex (\<lambda>s. sl_status s = S_playing \<and> \<not> sl_skipped s) slots then skip
            else emit match_skip (\<lambda>d. match_enqueue m d False [])))))))"

definition handle_MatchTransferHost :: "int \<Rightarrow> nat \<Rightarrow> unit sop" where
  "handle_MatchTransferHost slot_id r =
     in_match r (\<lambda>m. host_only m r (
       if \<not> valid_slot_id slot_id then skip
       else bnd (game m (\<lambda>g. sl_player (m_slots g ! nat slot_id))) (\<lambda>t. case t of None \<Rightarrow> skip
         | Some q \<Rightarrow> bnd (player q p_id) (\<lambda>i.
             thn (upd_match m (\<lambda>g. g\<lparr>m_host_id := i\<rparr>))
             (thn (bnd (match_host m) (\<lambda>h. emit match_transfer_host (p_enqueue h)))
               (enqueue_state m True))))))"

definition handle_MatchChangeTeam :: "nat \<Rightarrow> unit sop" where
  "handle_MatchChangeTeam r =
     in_match r (\<lambda>m. own_slot m r (\<lambda>i.
       thn (upd_slot m i (\<lambda>s. s\<lparr>sl_team := (if sl_team s = T_blue then T_red else T_blue)\<rparr>))
         (enqueue_state m False)))"

definition handle_MatchInvite :: "int \<Rightarrow> nat \<Rightarrow> unit sop" where
  "handle_MatchInvite user_id r =
     in_match r (\<lambda>m. bnd (get_by_id user_id) (\<lambda>t. case t of None \<Rightarrow> skip
       | Some q \<Rightarrow> bnd (gets s_bot) (\<lambda>b.
           if q = b then p_send_bot r (73 # 39 # py ''m too busy!'')
           else
             bnd (gets (\<lambda>s. match_invite (p_name (s_player s r)) (p_id (s_player s r))
                 (match_embed (s_match s m)) (p_name (s_player s q)))) (\<lambda>inv.
             thn (emit inv (p_enqueue q)) (latest_activity_soon r)))))"

definition handle_MatchChangePassword :: "multiplayer_match \<Rightarrow> nat \<Rightarrow> unit sop" where
  "handle_MatchChangePassword d r =
     bnd (player r p_id) (\<lambda>i.
       if \<not> validate_match_data d i then skip
       else in_match r (\<lambda>m. host_only m r (
         thn (upd_match m (\<lambda>g. g\<lparr>m_passwd := mm_passwd d\<rparr>)) (enqueue_state m True))))"

section \<open>Channels, tournaments and friends\<close>

definition handle_ChannelJoin :: "pystr \<Rightarrow> nat \<Rightarrow> unit sop" where
  "handle_ChannelJoin name r =
     (if name \<in> set IGNORED_CHANNELS then skip
      else bnd (channels_get_by_name name) (\<lambda>co. case co of None \<Rightarrow> skip
        | Some c \<Rightarrow> bnd (join_channel r c) (\<lambda>_. skip)))"

definition handle_ChannelPart :: "pystr \<Rightarrow> nat \<Rightarrow> unit sop" where
  "handle_ChannelPart name r =
     (if name \<in> set IGNORED_CHANNELS then skip
      else bnd (channels_get_by_name name) (\<lambda>co. case co of None \<Rightarrow> skip
        | Some c \<Rightarrow> bnd (channel c ch_players) (\<lambda>ps. if r \<notin> set ps then skip else leave_channel r c True)))"

text \<open>The guards the three tournament handlers share.\<close>

definition tourney_match :: "int \<Rightarrow> nat \<Rightarrow> (nat \<Rightarrow> unit sop) \<Rightarrow> unit sop" where
  "tourney_match match_id r k =
     (if \<not> (0 \<le> match_id \<and> match_id < 64) then skip
      else bnd (player r p_priv) (\<lambda>priv.
        if \<not> has priv P_DONATOR then skip
        else bnd (gets (\<lambda>s. py_index (s_matches s) match_id)) (\<lambda>e. bnd (lift_result e) (\<lambda>mo.
          case mo of None \<Rightarrow> skip | Some m \<Rightarrow> k m))))"

definition handle_TourneyMatchInfoRequest :: "int \<Rightarrow> nat \<Rightarrow> unit sop" where
  "handle_TourneyMatchInfoRequest match_id r =
     tourney_match match_id r (\<lambda>m. emit_match (\<lambda>i. update_match i False) m (p_enqueue r))"

definition handle_TourneyMatchJoinChannel :: "int \<Rightarrow> nat \<Rightarrow> unit sop" where
  "handle_TourneyMatchJoinChannel match_id r =
     tourney_match match_id r (\<lambda>m.
       bnd (gets (\<lambda>s. (slot_player_ids s (\<lambda>_. True) (m_slots (s_match s m)), p_id (s_player s r), m_chat (s_match s m)))) (\<lambda>(ids, i, c).
         if i \<in> set ids then skip
         else bnd (join_channel r c) (\<lambda>ok.
           if ok then upd_match m (\<lambda>g. g\<lparr>m_tourney_clients := insert i (m_tourney_clients g)\<rparr>) else skip)))"

definition handle_TourneyMatchLeaveChannel :: "int \<Rightarrow> nat \<Rightarrow> unit sop" where
  "handle_TourneyMatchLeaveChannel match_id r =
     tourney_match match_id r (\<lambda>m.
       bnd (gets (\<lambda>s. (m_tourney_clients (s_match s m), p_id (s_player s r), m_chat (s_match s m)))) (\<lambda>(cl, i, c).
         if i \<notin> cl then skip
         else thn (leave_channel r c True)
           (upd_match m (\<lambda>g. g\<lparr>m_tourney_clients := m_tourney_clients g - {i}\<rparr>))))"

definition handle_FriendAdd :: "int \<Rightarrow> nat \<Rightarrow> unit sop" where
  "handle_FriendAdd user_id r =
     bnd (get_by_id user_id) (\<lambda>t. case t of None \<Rightarrow> skip
       | Some q \<Rightarrow> bnd (gets (\<lambda>s. (s_bot s, p_id (s_player s q)))) (\<lambda>(b, qi).
           if q = b then skip
           else thn (upd_player r (\<lambda>p. p\<lparr>p_blocks := p_blocks p - {qi}\<rparr>))
             (thn (latest_activity_soon r) (add_friend r q))))"

definition handle_FriendRemove :: "int \<Rightarrow> nat \<Rightarrow> unit sop" where
  "handle_FriendRemove user_id r =
     bnd (get_by_id user_id) (\<lambda>t. case t of None \<Rightarrow> skip
       | Some q \<Rightarrow> bnd (gets s_bot) (\<lambda>b.
           if q = b then skip else thn (latest_activity_soon r) (remove_friend r q)))"

section \<open>The packet table and the request loop\<close>

datatype (plugins only: size code) client_msg =
    M_Ping
  | M_ChangeAction int pystr pystr int int int
  | M_SendMessage message
  | M_Logout
  | M_StatsUpdateRequest
  | M_StartSpectating int
  | M_StopSpectating
  | M_SpectateFrames replay_frame_bundle
  | M_CantSpectate
  | M_SendPrivateMessage message
  | M_LobbyPart
  | M_LobbyJoin
  | M_MatchCreate multiplayer_match
  | M_MatchJoin int pystr
  | M_MatchPart
  | M_MatchChangeSlot int
  | M_MatchReady
  | M_MatchLock int
  | M_MatchChangeSettings multiplayer_match
  | M_MatchStart
  | M_MatchScoreUpdate bytes
  | M_MatchComplete
  | M_MatchChangeMods int
  | M_MatchLoadComplete
  | M_MatchNoBeatmap
  | M_MatchNotReady
  | M_MatchFailed
  | M_MatchHasBeatmap
  | M_MatchSkipRequest
  | M_ChannelJoin pystr
  | M_MatchTransferHost int
  | M_TourneyMatchInfoRequest int
  | M_TourneyMatchJoinChannel int
  | M_TourneyMatchLeaveChannel int
  | M_FriendAdd int
  | M_FriendRemove int
  | M_MatchChangeTeam
  | M_ChannelPart pystr
  | M_ReceiveUpdates int
  | M_SetAwayMessage message
  | M_StatsRequest "int list"
  | M_MatchInvite int
  | M_MatchChangePassword multiplayer_match
  | M_UserPresenceRequest "int list"
  | M_UserPresenceRequestAll int
  | M_ToggleBlockingDMs int

text \<open>The registered packets, and those a restricted player may send.\<close>

definition packets_all :: "client_packet \<Rightarrow> bool" where
  "packets_all p \<longleftrightarrow> p \<notin> {CP_UNKNOWN_PACKET, CP_ERROR_REPORT, CP_BEATMAP_INFO_REQUEST, CP_IRC_ONLY}"

definition packets_restricted :: "client_packet \<Rightarrow> bool" where
  "packets_restricted p \<longleftrightarrow> p \<in> {CP_PING, CP_CHANGE_ACTION, CP_LOGOUT, CP_REQUEST_STATUS_UPDATE,
     CP_CHANNEL_JOIN, CP_CHANNEL_PART, CP_RECEIVE_UPDATES, CP_USER_STATS_REQUEST}"

definition rmap :: "('a \<Rightarrow> 'b) \<Rightarrow> 'a reader \<Rightarrow> 'b reader" where
  "rmap f m = rbind m (\<lambda>x. rret (f x))"

text \<open>\<^verbatim>\<open>packet_cls(self)\<close>: the constructor of each class reads its fields.\<close>

fun parse_client :: "client_packet \<Rightarrow> nat \<Rightarrow> client_msg reader" where
  "parse_client CP_PING n = rret M_Ping"
| "parse_client CP_CHANGE_ACTION n = rmap (\<lambda>(a, b, c, d, e, f). M_ChangeAction a b c d e f) read_change_action"
| "parse_client CP_SEND_PUBLIC_MESSAGE n = rmap M_SendMessage read_message"
| "parse_client CP_LOGOUT n = rmap (\<lambda>_. M_Logout) read_i32"
| "parse_client CP_REQUEST_STATUS_UPDATE n = rret M_StatsUpdateRequest"
| "parse_client CP_START_SPECTATING n = rmap M_StartSpectating read_i32"
| "parse_client CP_STOP_SPECTATING n = rret M_StopSpectating"
| "parse_client CP_SPECTATE_FRAMES n = rmap M_SpectateFrames (read_replayframe_bundle n)"
| "parse_client CP_CANT_SPECTATE n = rret M_CantSpectate"
| "parse_client CP_SEND_PRIVATE_MESSAGE n = rmap M_SendPrivateMessage read_message"
| "parse_client CP_PART_LOBBY n = rret M_LobbyPart"
| "parse_client CP_JOIN_LOBBY n = rret M_LobbyJoin"
| "parse_client CP_CREATE_MATCH n = rmap M_MatchCreate read_match"
| "parse_client CP_JOIN_MATCH n = rbind read_i32 (\<lambda>i. rmap (M_MatchJoin i) read_string)"
| "parse_client CP_PART_MATCH n = rret M_MatchPart"
| "parse_client CP_MATCH_CHANGE_SLOT n = rmap M_MatchChangeSlot read_i32"
| "parse_client CP_MATCH_READY n = rret M_MatchReady"
| "parse_client CP_MATCH_LOCK n = rmap M_MatchLock read_i32"
| "parse_client CP_MATCH_CHANGE_SETTINGS n = rmap M_MatchChangeSettings read_match"
| "parse_client CP_MATCH_START n = rret M_MatchStart"
| "parse_client CP_MATCH_SCORE_UPDATE n = rmap M_MatchScoreUpdate (read_raw n)"
| "parse_client CP_MATCH_COMPLETE n = rret M_MatchComplete"
| "parse_client CP_MATCH_CHANGE_MODS n = rmap M_MatchChangeMods read_i32"
| "parse_client CP_MATCH_LOAD_COMPLETE n = rret M_MatchLoadComplete"
| "parse_client CP_MATCH_NO_BEATMAP n = rret M_MatchNoBeatmap"
| "parse_client CP_MATCH_NOT_READY n = rret M_MatchNotReady"
| "parse_client CP_MATCH_FAILED n = rret M_MatchFailed"
| "parse_client CP_MATCH_HAS_BEATMAP n = rret M_MatchHasBeatmap"
| "parse_client CP_MATCH_SKIP_REQUEST n = rret M_MatchSkipRequest"
| "parse_client CP_CHANNEL_JOIN n = rmap M_ChannelJoin read_string"
| "parse_client CP_MATCH_TRANSFER_HOST n = rmap M_MatchTransferHost read_i32"
| "parse_client CP_TOURNAMENT_MATCH_INFO_REQUEST n = rmap M_TourneyMatchInfoRequest read_i32"
| "parse_client CP_TOURNAMENT_JOIN_MATCH_CHANNEL n = rmap M_TourneyMatchJoinChannel read_i32"
| "parse_client CP_TOURNAMENT_LEAVE_MATCH_CHANNEL n = rmap M_TourneyMatchLeaveChannel read_i32"
| "parse_client CP_FRIEND_ADD n = rmap M_FriendAdd read_i32"
| "parse_client CP_FRIEND_REMOVE n = rmap M_FriendRemove read_i32"
| "parse_client CP_MATCH_CHANGE_TEAM n = rret M_MatchChangeTeam"
| "parse_client CP_CHANNEL_PART n = rmap M_ChannelPart read_string"
| "parse_client CP_RECEIVE_UPDATES n = rmap M_ReceiveUpdates read_i32"
| "parse_client CP_SET_AWAY_MESSAGE n = rmap M_SetAwayMessage read_message"
| "parse_client CP_USER_STATS_REQUEST n = rmap M_StatsRequest read_i32_list_i16l"
| "parse_client CP_MATCH_INVITE n = rmap M_MatchInvite read_i32"
| "parse_client CP_MATCH_CHANGE_PASSWORD n = rmap M_MatchChangePassword read_match"
| "parse_client CP_USER_PRESENCE_REQUEST n = rmap M_UserPresenceRequest read_i32_list_i16l"
| "parse_client CP_USER_PRESENCE_REQUEST_ALL n = rmap M_UserPresenceRequestAll read_i32"
| "parse_client CP_TOGGLE_BLOCK_NON_FRIEND_DMS n = rmap M_ToggleBlockingDMs read_i32"
| "parse_client _ n = (\<lambda>_. Inl KeyError)"

fun handle :: "ext \<Rightarrow> client_msg \<Rightarrow> nat \<Rightarrow> unit sop" where
  "handle x M_Ping r = skip"
| "handle x (M_ChangeAction a b c d e f) r = handle_ChangeAction a b c d e f r"
| "handle x (M_SendMessage m) r = handle_SendMessage x m r"
| "handle x M_Logout r = handle_Logout r"
| "handle x M_StatsUpdateRequest r = handle_StatsUpdateRequest r"
| "handle x (M_StartSpectating i) r = handle_StartSpectating i r"
| "handle x M_StopSpectating r = handle_StopSpectating r"
| "handle x (M_SpectateFrames b) r = handle_SpectateFrames b r"
| "handle x M_CantSpectate r = handle_CantSpectate r"
| "handle x (M_SendPrivateMessage m) r = handle_SendPrivateMessage x m r"
| "handle x M_LobbyPart r = handle_LobbyPart r"
| "handle x M_LobbyJoin r = handle_LobbyJoin r"
| "handle x (M_MatchCreate d) r = handle_MatchCreate d r"
| "handle x (M_MatchJoin i pw) r = handle_MatchJoin i pw r"
| "handle x M_MatchPart r = handle_MatchPart r"
| "handle x (M_MatchChangeSlot i) r = handle_MatchChangeSlot i r"
| "handle x M_MatchReady r = handle_MatchReady r"
| "handle x (M_MatchLock i) r = handle_MatchLock i r"
| "handle x (M_MatchChangeSettings d) r = handle_MatchChangeSettings x d r"
| "handle x M_MatchStart r = handle_MatchStart r"
| "handle x (M_MatchScoreUpdate b) r = handle_MatchScoreUpdate b r"
| "handle x M_MatchComplete r = handle_MatchComplete r"
| "handle x (M_MatchChangeMods i) r = handle_MatchChangeMods i r"
| "handle x M_MatchLoadComplete r = handle_MatchLoadComplete r"
| "handle x M_MatchNoBeatmap r = handle_MatchNoBeatmap r"
| "handle x M_MatchNotReady r = handle_MatchNotReady r"
| "handle x M_MatchFailed r = handle_MatchFailed r"
| "handle x M_MatchHasBeatmap r = handle_MatchHasBeatmap r"
| "handle x M_MatchSkipRequest r = handle_MatchSkipRequest r"
| "handle x (M_ChannelJoin n) r = handle_ChannelJoin n r"
| "handle x (M_MatchTransferHost i) r = handle_MatchTransferHost i r"
| "handle x (M_TourneyMatchInfoRequest i) r = handle_TourneyMatchInfoRequest i r"
| "handle x (M_TourneyMatchJoinChannel i) r = handle_TourneyMatchJoinChannel i r"
| "handle x (M_TourneyMatchLeaveChannel i) r = handle_TourneyMatchLeaveChannel i r"
| "handle x (M_FriendAdd i) r = handle_FriendAdd i r"
| "handle x (M_FriendRemove i) r = handle_FriendRemove i r"
| "handle x M_MatchChangeTeam r = handle_MatchChangeTeam r"
| "handle x (M_ChannelPart n) r = handle_ChannelPart n r"
| "handle x (M_ReceiveUpdates i) r = handle_ReceiveUpdates i r"
| "handle x (M_SetAwayMessage m) r = handle_SetAwayMessage m r"
| "handle x (M_StatsRequest is) r = handle_StatsRequest is r"
| "handle x (M_MatchInvite i) r = handle_MatchInvite i r"
| "handle x (M_MatchChangePassword d) r = handle_MatchChangePassword d r"
| "handle x (M_UserPresenceRequest is) r = handle_UserPresenceRequest is r"
| "handle x (M_UserPresenceRequestAll t) r = handle_UserPresenceRequestAll r"
| "handle x (M_ToggleBlockingDMs i) r = handle_ToggleBlockingDMs i r"

text \<open>
  \<^verbatim>\<open>for packet in BanchoPacketReader(...): await packet.handle(player)\<close>: a packet is
  parsed only after the ones before it were handled. Every iteration consumes a header, so
  the length of the body is fuel enough (\<open>process_fuel\<close> below).
\<close>

fun process :: "ext \<Rightarrow> (client_packet \<Rightarrow> bool) \<Rightarrow> nat \<Rightarrow> bytes \<Rightarrow> nat \<Rightarrow> unit sop" where
  "process x handled n view r =
     (case next_packet handled view of
        Inl e \<Rightarrow> raise e
      | Inr None \<Rightarrow> skip
      | Inr (Some (p, len, rest)) \<Rightarrow>
          (case parse_client p len rest of
             Inl e \<Rightarrow> raise e
           | Inr (msg, view') \<Rightarrow>
               (case n of 0 \<Rightarrow> raise Hang
                | Suc k \<Rightarrow> thn (handle x msg r) (process x handled k view' r))))"

declare process.simps [simp del]

definition restarted :: "bytes result" where
  "restarted = concatE [notification (py ''Server has restarted.''), restart_server 0]"

text \<open>\<^verbatim>\<open>bancho_handler\<close> for a request that carries a token.\<close>

definition bancho_request :: "ext \<Rightarrow> pystr \<Rightarrow> bytes \<Rightarrow> bytes option sop" where
  "bancho_request x token body =
     bnd (get_by_token token) (\<lambda>t. case t of
         None \<Rightarrow> emit restarted (\<lambda>d. retn (Some d))
       | Some r \<Rightarrow>
           bnd (player r p_restricted) (\<lambda>restr.
           thn (process x (if restr then packets_restricted else packets_all) (length body) body r)
           (bnd (gets s_now) (\<lambda>now.
            thn (upd_player r (\<lambda>p. p\<lparr>p_last_recv := now\<rparr>)) (p_dequeue r)))))"

end
