(* ===== verification/Sessions.thy ===== *)
theory Sessions
  imports Handlers
begin

text \<open>
  Every packet handler, and so every request, preserves the invariant of the sessions, as long
  as chat commands do (\<open>ext_ok\<close>).
\<close>

section \<open>Handlers preserve the invariant\<close>

lemma wfs_upd_match [wf_keeps]:
  "(\<And>x. map sl_player (m_slots (f x)) = map sl_player (m_slots x)) \<Longrightarrow> (\<And>x. m_id (f x) = m_id x) \<Longrightarrow>
   keeps wfs (upd_match m f)"
  by (intro keeps_wfl wfl_upd_match)

lemma wfs_upd_slot [wf_keeps]: "(\<And>x. sl_player (f x) = sl_player x) \<Longrightarrow> keeps wfs (upd_slot m i f)"
  by (intro keeps_wfl wfl_upd_slot)

lemma wfs_upd_slots [wf_keeps]: "(\<And>x. sl_player (f x) = sl_player x) \<Longrightarrow> keeps wfs (upd_slots m f)"
  by (intro keeps_wfl wfl_upd_slots)

lemma wfs_upd_status [wf_keeps]: "keeps wfs (upd_status r f)"
  unfolding upd_status_def by (intro wf_keeps) simp_all

lemma wfs_set_match_mods [wf_keeps]: "keeps wfs (set_match_mods m v)"
  unfolding set_match_mods_def by (intro wf_keeps) simp_all

lemma wfs_in_match [keeps_intros]: "(\<And>m. keeps P (k m)) \<Longrightarrow> keeps P (in_match r k)"
  unfolding in_match_def player_def by (intro keeps_intros)

lemma wfs_own_slot [keeps_intros]: "(\<And>i. keeps P (k i)) \<Longrightarrow> keeps P (own_slot m r k)"
  unfolding own_slot_def get_slot_id_def game_def by (intro keeps_intros)

lemma wfs_host_only [keeps_intros]: "keeps P k \<Longrightarrow> keeps P (host_only m r k)"
  unfolding host_only_def match_host_def game_def get_by_id_def by (intro keeps_intros)

lemma wfs_tourney_match [keeps_intros]: "(\<And>m. keeps P (k m)) \<Longrightarrow> keeps P (tourney_match i r k)"
  unfolding tourney_match_def player_def by (intro keeps_intros)

text \<open>Moving to another slot keeps one seat per player.\<close>

lemma move_slot_state:
  assumes "i < length (m_slots (s_match s m))" "j < length (m_slots (s_match s m))"
  shows "snd (move_slot m i j s) = s\<lparr>s_match := (s_match s)(m := (s_match s m)\<lparr>m_slots :=
     (if i = j then (m_slots (s_match s m))[i := slot_reset S_open (m_slots (s_match s m) ! i)]
      else (m_slots (s_match s m))[j := slot_copy_from (m_slots (s_match s m) ! j) (m_slots (s_match s m) ! i),
              i := slot_reset S_open (m_slots (s_match s m) ! i)])\<rparr>)\<rparr>"
  using assms
  by (auto simp: move_slot_def upd_slot_def upd_match_def game_def thn_def bnd_def gets_def modify_def
      slot_copy_from_def slot_reset_def)

lemma move_slot_seats:
  assumes "i < length (m_slots (s_match s m))" "j < length (m_slots (s_match s m))"
    and "seated (snd (move_slot m i j s)) m' k q"
  shows "(seated s m' k q \<and> \<not> (m' = m \<and> k = i)) \<or> (m' = m \<and> k = j \<and> seated s m i q \<and> i \<noteq> j)"
  using assms unfolding move_slot_state [OF assms(1,2)] seated_def
  by (auto simp: nth_update_if slot_reset_def slot_copy_from_def split: if_split_asm)

lemma wfs_move_slot:
  assumes s: "wfs s" and r: "seated s m i r" and j: "j < 16"
  shows "wfs (snd (move_slot m i j s))"
proof (rule wfs_seats [OF s])
  let ?s = "snd (move_slot m i j s)"
  have l: "i < length (m_slots (s_match s m))" "j < length (m_slots (s_match s m))"
    using r j wfs_slots [OF s, of m] by (auto simp: seated_def)
  note st = move_slot_state [OF l] and sb = move_slot_seats [OF l]
  have only: "seated s m' k r \<Longrightarrow> m' = m \<and> k = i" for m' k
    using wfs_seated [OF s r] wfs_seated [OF s, of m' k r] wfs_seated_unique [OF s r, of k] by auto
  show "seat_inv ?s"
  proof (rule seat_inv_move [OF s])
    fix m' k q assume q: "seated ?s m' k q"
    show "q \<noteq> r \<Longrightarrow> seated s m' k q" using sb [OF q] r by (auto simp: seated_def)
  next
    fix m' k assume q: "seated ?s m' k r"
    show "m' = m \<and> k = j \<and> p_match (s_player ?s r) = Some m"
      using sb [OF q] only [of m' k] wfs_seated [OF s r] by (auto simp: st)
  qed (use wfs_slots [OF s] in \<open>auto simp: st\<close>)
qed (use r j wfs_slots [OF s, of m] in \<open>auto simp: move_slot_state seated_def\<close>)

lemma wfs_MatchChangeSlot [wf_keeps]: "keeps wfs (handle_MatchChangeSlot i r)"
proof -
  have k: "triple (\<lambda>s. wfs s \<and> slot_index r (s_match s m) = si)
      (bnd (the_or AssertionError si) (\<lambda>i. thn (move_slot m i (nat j)) (enqueue_state m True))) (\<lambda>_. wfs) wfs"
    if "valid_slot_id j" for m si j
  proof (cases si)
    case None
    then show ?thesis by (simp, intro triple_bnd_raise) simp
  next
    case (Some i)
    then show ?thesis
      apply simp
      apply (intro triple_bnd_retn triple_thn_keeps triple_stateI)
       apply (use that in \<open>auto intro!: wfs_move_slot slot_index_seated simp: valid_slot_id_def\<close>) [1]
      apply (intro wf_keeps)
      done
  qed
  have own: "keeps wfs (own_slot m r (\<lambda>i. thn (move_slot m i (nat j)) (enqueue_state m True)))"
    if "valid_slot_id j" for m j
    unfolding keeps_triple own_slot_def get_slot_id_def game_def
    by (rule triple_gets_bnd) (rule k [OF that])
  show ?thesis
    unfolding handle_MatchChangeSlot_def
    by (intro keeps_intros wf_keeps own) simp
qed

text \<open>Registering a match: the new object is at a fresh reference, with empty slots.\<close>

lemma wfs_new_game:
  assumes x: "m_slots x = replicate 16 new_slot" "m_id x = int i" and i: "i < 64"
    and k: "\<And>m. keeps wfs (k m)"
  shows "keeps wfs (bnd (new_game x) (\<lambda>m. thn (matches_set i m) (k m)))"
proof -
  have n: "\<not> seated (s\<lparr>s_match := (s_match s)(m := x), s_next := n, s_matches := t\<rparr>) m j q" for s m n t j q
    using x by (auto simp: seated_def new_slot_def)
  have o: "seated (s\<lparr>s_match := (s_match s)(m := x), s_next := n, s_matches := t\<rparr>) m' j q \<Longrightarrow> seated s m' j q"
    for s m m' n t j q
    by (cases "m' = m") (use n in blast, simp add: seated_def)
  have a: "wfs s \<Longrightarrow> wfs (s\<lparr>s_match := (s_match s)(s_next s := x), s_next := Suc (s_next s),
      s_matches := (s_matches s)[i := Some (s_next s)]\<rparr>)" (is "_ \<Longrightarrow> wfs ?s") for s
  proof -
    assume s: "wfs s"
    have "seat_inv ?s"
      by (rule seat_inv_sub [OF s _ o]) (use wfs_slots [OF s] x in auto)
    moreover have "table_inv ?s"
      using s x i by (fastforce simp: wfs_def table_inv_def nth_update_if split: if_split_asm)
    ultimately show ?thesis using s by (simp add: wfs_def chan_inv_def spec_inv_def)
  qed
  have e: "bnd (new_game x) (\<lambda>m. thn (matches_set i m) (k m)) s = k (s_next s) (s\<lparr>s_match := (s_match s)(s_next s := x),
      s_next := Suc (s_next s), s_matches := (s_matches s)[i := Some (s_next s)]\<rparr>)" for s
    by (simp add: new_game_def matches_set_def bnd_def thn_def gets_def modify_def retn_def)
  show ?thesis
    unfolding keeps_def e using a k by (auto simp: keeps_def)
qed

lemma find_index_None_lt: "wfs s \<Longrightarrow> find_index (\<lambda>m. m = None) (s_matches s) = Some i \<Longrightarrow> i < 64"
  using find_index_bound by (fastforce simp: wfs_def table_inv_def)

lemma wfs_new_channel [wf_keeps]: "ch_players x = [] \<Longrightarrow> keeps wfs (new_channel x)"
  by (intro keeps_wfl wfl_new_channel)

lemma wfs_register_match: "i < 64 \<Longrightarrow> keeps wfs (register_match d i)"
  unfolding register_match_def
  by (intro keeps_intros wf_keeps wfs_new_game) (simp_all add: match_init_def channel_init_def)

lemma wfs_mp_refused [wf_keeps]: "keeps wfs (mp_refused r t)"
  unfolding mp_refused_def by (intro keeps_intros wf_keeps)

lemma wfs_open_match: "i < 64 \<Longrightarrow> keeps wfs (open_match d r i)"
  unfolding open_match_def by (intro keeps_intros wf_keeps wfs_register_match)

lemma keeps_gets_option:
  "keeps P m \<Longrightarrow> (\<And>s i. P s \<Longrightarrow> f s = Some i \<Longrightarrow> keeps P (k i)) \<Longrightarrow>
   keeps P (bnd (gets f) (\<lambda>v. case v of None \<Rightarrow> m | Some i \<Rightarrow> k i))"
  unfolding keeps_def by (auto split: option.split)

lemma wfs_MatchCreate [wf_keeps]: "keeps wfs (handle_MatchCreate d r)"
  unfolding handle_MatchCreate_def matches_get_free_def
  by (intro keeps_intros keeps_gets_option wf_keeps wfs_open_match find_index_None_lt)

section \<open>All handlers\<close>

lemma wfs_StartSpectating [wf_keeps]: "keeps wfs (handle_StartSpectating i r)"
proof -
  have a: "triple (\<lambda>s. wfs s \<and> p_spectating (s_player s r) = None) (add_spectator h r) (\<lambda>_. wfs) wfs" for h
    by (rule wfs_add_spectator)
  have b: "keeps wfs (thn (remove_spectator h r) (add_spectator h' r))" for h h'
    unfolding keeps_triple by (rule triple_thn [OF remove_spectator_alone a])
  have c: "keeps wfs (bnd (player r p_spectating) (\<lambda>cur. case cur of
            None \<Rightarrow> add_spectator h r
          | Some g \<Rightarrow>
              if g = h then
                bnd (player r (\<lambda>p. (p_stealth p, p_id p))) (\<lambda>(stealth, i).
                  if stealth then skip
                  else thn (emit (spectator_joined i) (p_enqueue h))
                    (emit (fellow_spectator_joined i) (\<lambda>d.
                      bnd (player h p_spectators) (\<lambda>specs.
                        foreach specs (\<lambda>q. if q \<noteq> r then p_enqueue q d else skip)))))
              else thn (remove_spectator g r) (add_spectator h r)))" for h
    unfolding keeps_triple player_def
    apply (rule triple_gets_bnd)
    apply (rename_tac cur, case_tac cur)
     apply (simp add: a)
    apply (rule triple_same [where P = wfs])
     apply (simp only: option.case)
     apply (rule keeps_if)
      apply (intro keeps_intros wf_keeps)
     apply (rule b)
    apply simp
    done
  show ?thesis
    unfolding handle_StartSpectating_def by (intro keeps_intros wf_keeps c)
qed

definition ext_ok :: "ext \<Rightarrow> bool" where
  "ext_ok x \<longleftrightarrow> (\<forall>r c msg. keeps wfs (x_commands x r c msg))"

lemma wfs_commands: "ext_ok x \<Longrightarrow> keeps wfs (x_commands x r c msg)"
  by (simp add: ext_ok_def)

lemma wfs_store_np [wf_keeps]: "keeps wfs (store_np x np r)"
  unfolding store_np_def Let_def by (intro keeps_intros wf_keeps; simp)

lemma wfs_truncation_notice [wf_keeps]: "keeps wfs (truncation_notice m r)"
  unfolding truncation_notice_def by (intro keeps_intros wf_keeps)

lemma wfs_message_target [wf_keeps]: "keeps wfs (message_target n r)"
  unfolding message_target_def by (intro keeps_intros wf_keeps)

lemma keeps_sum [keeps_intros]: "(\<And>a. keeps P (f a)) \<Longrightarrow> (\<And>b. keeps P (g b)) \<Longrightarrow>
    keeps P (case v of Inl a \<Rightarrow> f a | Inr b \<Rightarrow> g b)"
  by (cases v) simp_all

lemma wfs_SendMessage: "ext_ok x \<Longrightarrow> keeps wfs (handle_SendMessage x m r)"
  unfolding handle_SendMessage_def Let_def by (intro keeps_intros wf_keeps wfs_commands)

lemma wfs_target_send [wf_keeps]: "keeps wfs (target_send t m r)"
  unfolding target_send_def by (cases t; simp; intro keeps_intros wf_keeps)

lemma wfs_bot_dm: "ext_ok x \<Longrightarrow> keeps wfs (bot_dm x b m r)"
  unfolding bot_dm_def by (intro keeps_intros wf_keeps wfs_commands)

lemma wfs_from_cache_or_sql [wf_keeps]: "keeps wfs (from_cache_or_sql x n)"
  unfolding from_cache_or_sql_def by (intro keeps_intros wf_keeps)

lemma wfs_SendPrivateMessage: "ext_ok x \<Longrightarrow> keeps wfs (handle_SendPrivateMessage x m r)"
  unfolding handle_SendPrivateMessage_def Let_def by (intro keeps_intros wf_keeps wfs_bot_dm)

lemma wfs_plain_handlers [wf_keeps]:
  "keeps wfs (handle_ChangeAction a b c d e f r)"
  "keeps wfs (handle_StatsUpdateRequest r)"
  "keeps wfs (handle_Logout r)"
  "keeps wfs (handle_ReceiveUpdates i r)"
  "keeps wfs (handle_SetAwayMessage m r)"
  "keeps wfs (handle_StatsRequest is r)"
  "keeps wfs (handle_UserPresenceRequest is r)"
  "keeps wfs (handle_UserPresenceRequestAll r)"
  "keeps wfs (handle_ToggleBlockingDMs i r)"
  "keeps wfs (handle_StopSpectating r)"
  "keeps wfs (handle_SpectateFrames fb r)"
  "keeps wfs (handle_CantSpectate r)"
  "keeps wfs (handle_LobbyPart r)"
  "keeps wfs (handle_LobbyJoin r)"
  "keeps wfs (handle_ChannelJoin n r)"
  "keeps wfs (handle_ChannelPart n r)"
  "keeps wfs (handle_FriendAdd i r)"
  "keeps wfs (handle_FriendRemove i r)"
  unfolding handle_ChangeAction_def handle_StatsUpdateRequest_def handle_Logout_def
    handle_ReceiveUpdates_def handle_SetAwayMessage_def handle_StatsRequest_def
    handle_UserPresenceRequest_def handle_UserPresenceRequestAll_def handle_ToggleBlockingDMs_def
    handle_StopSpectating_def handle_SpectateFrames_def handle_CantSpectate_def handle_LobbyPart_def
    handle_LobbyJoin_def handle_ChannelJoin_def handle_ChannelPart_def handle_FriendAdd_def
    handle_FriendRemove_def
  by (intro keeps_intros wf_keeps; simp)+

lemma wfs_settings [wf_keeps]:
  "keeps wfs (settings_freemods m d)" "keeps wfs (settings_map x m d)"
  "keeps wfs (settings_team m d)" "keeps wfs (settings_win m d)"
  unfolding settings_freemods_def settings_map_def settings_team_def settings_win_def
  by (intro keeps_intros wf_keeps; simp)+

lemma wfs_finish_game [wf_keeps]: "keeps wfs (finish_game m)"
  unfolding finish_game_def by (intro keeps_intros wf_keeps; simp)

lemma wfs_match_handlers [wf_keeps]:
  "keeps wfs (handle_MatchJoin i pw r)"
  "keeps wfs (handle_MatchPart r)"
  "keeps wfs (handle_MatchReady r)"
  "keeps wfs (handle_MatchNotReady r)"
  "keeps wfs (handle_MatchNoBeatmap r)"
  "keeps wfs (handle_MatchHasBeatmap r)"
  "keeps wfs (handle_MatchLock i r)"
  "keeps wfs (handle_MatchChangeSettings x d r)"
  "keeps wfs (handle_MatchStart r)"
  "keeps wfs (handle_MatchScoreUpdate b r)"
  "keeps wfs (handle_MatchComplete r)"
  "keeps wfs (handle_MatchChangeMods i r)"
  "keeps wfs (handle_MatchLoadComplete r)"
  "keeps wfs (handle_MatchFailed r)"
  "keeps wfs (handle_MatchSkipRequest r)"
  "keeps wfs (handle_MatchTransferHost i r)"
  "keeps wfs (handle_MatchChangeTeam r)"
  "keeps wfs (handle_MatchInvite i r)"
  "keeps wfs (handle_MatchChangePassword d r)"
  "keeps wfs (handle_TourneyMatchInfoRequest i r)"
  "keeps wfs (handle_TourneyMatchJoinChannel i r)"
  "keeps wfs (handle_TourneyMatchLeaveChannel i r)"
  unfolding handle_MatchJoin_def handle_MatchPart_def handle_MatchReady_def handle_MatchNotReady_def
    handle_MatchNoBeatmap_def handle_MatchHasBeatmap_def set_own_status_def handle_MatchLock_def
    handle_MatchChangeSettings_def handle_MatchStart_def handle_MatchScoreUpdate_def
    handle_MatchComplete_def handle_MatchChangeMods_def handle_MatchLoadComplete_def
    handle_MatchFailed_def handle_MatchSkipRequest_def handle_MatchTransferHost_def
    handle_MatchChangeTeam_def handle_MatchInvite_def handle_MatchChangePassword_def
    handle_TourneyMatchInfoRequest_def handle_TourneyMatchJoinChannel_def
    handle_TourneyMatchLeaveChannel_def
  by (intro keeps_intros wf_keeps; simp)+

lemma wfs_handle: "ext_ok x \<Longrightarrow> keeps wfs (handle x msg r)"
  by (cases msg) (simp_all add: wf_keeps wfs_SendMessage wfs_SendPrivateMessage keeps_skip)

lemma wfs_process: "ext_ok x \<Longrightarrow> keeps wfs (process x handled n view r)"
proof (induction n arbitrary: view)
  case 0
  then show ?case
    by (subst process.simps) (auto split: sum.split option.split intro!: keeps_intros)
next
  case (Suc n)
  then show ?case
    by (subst process.simps) (auto split: sum.split option.split intro!: keeps_intros wfs_handle)
qed

lemma wfs_bancho_request: "ext_ok x \<Longrightarrow> keeps wfs (bancho_request x token body)"
  unfolding bancho_request_def by (intro keeps_intros wf_keeps wfs_process; simp)

end
