(* ===== verification/Login.thy ===== *)
theory Login
  imports Sessions
begin

text \<open>
  The login request of \<^verbatim>\<open>app/api/domains/cho.py\<close>: the body parser, the version and
  adapter strings, the client hash (\<^verbatim>\<open>ClientDetails\<close>), the credential check of
  \<^verbatim>\<open>app/services/bancho.py\<close> with its password cache, and
  \<^verbatim>\<open>handle_osu_login_request\<close> with every early reply. Answers of the database, of the
  geolocation and of the osu! API are fields of \<open>login_ext\<close>.
\<close>

section \<open>Splitting and integers\<close>

text \<open>\<^verbatim>\<open>s.split(sep, maxsplit=n)\<close> of a one-character separator.\<close>

fun split_max :: "nat \<Rightarrow> nat \<Rightarrow> pystr \<Rightarrow> pystr list" where
  "split_max sep 0 s = [s]"
| "split_max sep (Suc n) s =
     (case find_index (\<lambda>c. c = sep) s of
        None \<Rightarrow> [s]
      | Some i \<Rightarrow> take i s # split_max sep n (drop (Suc i) s))"

definition rstrip_char :: "nat \<Rightarrow> pystr \<Rightarrow> pystr" where
  "rstrip_char c s = rev (dropWhile (\<lambda>x. x = c) (rev s))"

text \<open>
  \<^verbatim>\<open>int(s)\<close>: surrounding spaces, a sign, digits that single underscores may separate.
  \<open>dv\<close> is the value of a decimal digit character, which Python takes from Unicode.
\<close>

fun digits_value :: "(nat \<Rightarrow> nat option) \<Rightarrow> bool \<Rightarrow> int \<Rightarrow> pystr \<Rightarrow> int result" where
  "digits_value dv after_digit acc [] = (if after_digit then Inr acc else Inl ValueError)"
| "digits_value dv after_digit acc (c # s) =
     (if c = 95 then (if after_digit then digits_value dv False acc s else Inl ValueError)
      else case dv c of None \<Rightarrow> Inl ValueError
        | Some d \<Rightarrow> digits_value dv True (acc * 10 + int d) s)"

definition py_int :: "(nat \<Rightarrow> nat option) \<Rightarrow> pystr \<Rightarrow> int result" where
  "py_int dv s =
     (case strip s of
        [] \<Rightarrow> Inl ValueError
      | c # t \<Rightarrow>
          if c = 45 then bindE (digits_value dv False 0 t) (\<lambda>n. Inr (- n))
          else if c = 43 then digits_value dv False 0 t
          else digits_value dv False 0 (c # t))"

definition ascii_digit :: "nat \<Rightarrow> nat option" where
  "ascii_digit c = (if 48 \<le> c \<and> c < 58 then Some (c - 48) else None)"

section \<open>The login body\<close>

record login_data =
  ld_username :: pystr
  ld_password_md5 :: bytes
  ld_osu_version :: pystr
  ld_utc_offset :: int
  ld_display_city :: bool
  ld_pm_private :: bool
  ld_osu_path_md5 :: pystr
  ld_adapters_str :: pystr
  ld_adapters_md5 :: pystr
  ld_uninstall_md5 :: pystr
  ld_disk_signature_md5 :: pystr

definition parse_login_data :: "(nat \<Rightarrow> nat option) \<Rightarrow> bytes \<Rightarrow> login_data result" where
  "parse_login_data dv data =
     bindE (utf8_decode data) (\<lambda>text.
     case split_max 10 2 (rstrip_char 10 text) of
       [username, password_md5, remainder] \<Rightarrow>
         (case split_max 124 4 remainder of
            [osu_version, utc_offset, display_city, client_hashes, pm_private] \<Rightarrow>
              (case split_max 58 4 (butlast client_hashes) of
                 [osu_path_md5, adapters_str, adapters_md5, uninstall_md5, disk_signature_md5] \<Rightarrow>
                   bindE (utf8_encode password_md5) (\<lambda>pw.
                   bindE (py_int dv utc_offset) (\<lambda>off.
                   Inr \<lparr>ld_username = username, ld_password_md5 = pw, ld_osu_version = osu_version,
                        ld_utc_offset = off, ld_display_city = (display_city = py ''1''),
                        ld_pm_private = (pm_private = py ''1''), ld_osu_path_md5 = osu_path_md5,
                        ld_adapters_str = adapters_str, ld_adapters_md5 = adapters_md5,
                        ld_uninstall_md5 = uninstall_md5, ld_disk_signature_md5 = disk_signature_md5\<rparr>))
               | _ \<Rightarrow> Inl ValueError)
          | _ \<Rightarrow> Inl ValueError)
     | _ \<Rightarrow> Inl ValueError)"

section \<open>Versions, adapters and the client hash\<close>

text \<open>\<^verbatim>\<open>datetime.date(y, m, d)\<close> raises outside the calendar.\<close>

definition leap_year :: "int \<Rightarrow> bool" where
  "leap_year y \<longleftrightarrow> y mod 4 = 0 \<and> (y mod 100 \<noteq> 0 \<or> y mod 400 = 0)"

definition days_in_month :: "int \<Rightarrow> int \<Rightarrow> int" where
  "days_in_month y m = (if m = 2 then (if leap_year y then 29 else 28)
     else if m = 4 \<or> m = 6 \<or> m = 9 \<or> m = 11 then 30 else 31)"

definition date_of :: "int \<Rightarrow> int \<Rightarrow> int \<Rightarrow> (int \<times> int \<times> int) result" where
  "date_of y m d =
     (if 1 \<le> y \<and> y \<le> 9999 \<and> 1 \<le> m \<and> m \<le> 12 \<and> 1 \<le> d \<and> d \<le> days_in_month y m
      then Inr (y, m, d) else Inl ValueError)"

datatype osu_stream = STABLE | BETA | CUTTINGEDGE | TOURNEY | DEV

fun stream_value :: "osu_stream \<Rightarrow> pystr" where
  "stream_value STABLE = py ''stable''"
| "stream_value BETA = py ''beta''"
| "stream_value CUTTINGEDGE = py ''cuttingedge''"
| "stream_value TOURNEY = py ''tourney''"
| "stream_value DEV = py ''dev''"

record osu_version =
  ov_date :: "int \<times> int \<times> int"
  ov_revision :: "int option"
  ov_stream :: osu_stream

text \<open>
  \<^verbatim>\<open>regexes.OSU_VERSION\<close>: \<^verbatim>\<open>b\<close>, eight digits, an optional dot and digit, an optional
  stream; \<^verbatim>\<open>$\<close> also accepts one final newline.
\<close>

definition stream_suffix :: "pystr \<Rightarrow> osu_stream option" where
  "stream_suffix s =
     (if s \<in> {[], [10]} then Some STABLE
      else if s \<in> {py ''beta'', py ''beta'' @ [10]} then Some BETA
      else if s \<in> {py ''cuttingedge'', py ''cuttingedge'' @ [10]} then Some CUTTINGEDGE
      else if s \<in> {py ''dev'', py ''dev'' @ [10]} then Some DEV
      else if s \<in> {py ''tourney'', py ''tourney'' @ [10]} then Some TOURNEY
      else None)"

fun dec_value :: "(nat \<Rightarrow> nat option) \<Rightarrow> pystr \<Rightarrow> int" where
  "dec_value dv s = foldl (\<lambda>a c. a * 10 + (case dv c of None \<Rightarrow> 0 | Some d \<Rightarrow> int d)) 0 s"

definition match_osu_version ::
  "(nat \<Rightarrow> nat option) \<Rightarrow> pystr \<Rightarrow> (pystr \<times> nat option \<times> osu_stream) option" where
  "match_osu_version dv s =
     (case s of
        [] \<Rightarrow> None
      | b # t \<Rightarrow>
          if b = 98 \<and> 8 \<le> length t \<and> list_all (\<lambda>c. dv c \<noteq> None) (take 8 t) then
            (case drop 8 t of
               d # e # u \<Rightarrow>
                 if d = 46 \<and> dv e \<noteq> None
                 then map_option (\<lambda>st. (take 8 t, dv e, st)) (stream_suffix u)
                 else map_option (\<lambda>st. (take 8 t, None, st)) (stream_suffix (drop 8 t))
             | u \<Rightarrow> map_option (\<lambda>st. (take 8 t, None, st)) (stream_suffix u))
          else None)"

text \<open>\<open>None\<close> is a string the pattern rejects; a date outside the calendar raises.\<close>

definition parse_osu_version_string ::
  "(nat \<Rightarrow> nat option) \<Rightarrow> pystr \<Rightarrow> osu_version option result" where
  "parse_osu_version_string dv s =
     (case match_osu_version dv s of
        None \<Rightarrow> Inr None
      | Some (ds, rv, stream) \<Rightarrow>
          bindE (date_of (dec_value dv (take 4 ds)) (dec_value dv (take 2 (drop 4 ds)))
                  (dec_value dv (drop 6 ds))) (\<lambda>d.
            Inr (Some \<lparr>ov_date = d, ov_revision = map_option int rv, ov_stream = stream\<rparr>)))"

definition WINE_ADAPTER_SENTINEL :: pystr where
  "WINE_ADAPTER_SENTINEL = py ''runningunderwine''"

definition parse_adapters_string :: "pystr \<Rightarrow> (pystr list \<times> bool) result" where
  "parse_adapters_string s =
     (if s = WINE_ADAPTER_SENTINEL then Inr ([WINE_ADAPTER_SENTINEL], True)
      else if \<not> ends_with s [46] then Inl ValueError
      else Inr (split_on 46 (butlast s), False))"

fun join_with :: "nat \<Rightarrow> pystr list \<Rightarrow> pystr" where
  "join_with c [] = []"
| "join_with c [w] = w"
| "join_with c (w # ws) = w @ c # join_with c ws"

definition client_hash :: "pystr \<Rightarrow> pystr list \<Rightarrow> pystr \<Rightarrow> pystr \<Rightarrow> pystr \<Rightarrow> pystr" where
  "client_hash osu_path_md5 adapters adapters_md5 uninstall_md5 disk_signature_md5 =
     (let a = join_with 46 adapters;
          a' = (if a \<noteq> WINE_ADAPTER_SENTINEL then a @ [46] else a)
      in osu_path_md5 @ [58] @ a' @ [58] @ adapters_md5 @ [58] @ uninstall_md5 @ [58] @
         disk_signature_md5 @ [58])"

section \<open>Credentials\<close>

text \<open>
  \<^verbatim>\<open>authenticate_login_credentials\<close> on the stored hash of the user: the cache maps a
  hash to the password that last matched it. \<open>checkpw\<close> is \<^verbatim>\<open>bcrypt.checkpw\<close>.
\<close>

definition check_credentials ::
  "(bytes \<Rightarrow> bytes \<Rightarrow> bool) \<Rightarrow> (bytes \<Rightarrow> bytes option) \<Rightarrow> bytes \<Rightarrow> bytes \<Rightarrow> bool \<times> (bytes \<Rightarrow> bytes option)" where
  "check_credentials checkpw cache hashword untrusted =
     (case cache hashword of
        Some known \<Rightarrow> (untrusted = known, cache)
      | None \<Rightarrow> if \<not> checkpw untrusted hashword then (False, cache)
                else (True, cache(hashword \<mapsto> untrusted)))"

definition authenticate_online ::
  "(bytes \<Rightarrow> bytes option) \<Rightarrow> bytes option \<Rightarrow> bytes \<Rightarrow> bool" where
  "authenticate_online cache pw_bcrypt password =
     (case pw_bcrypt of None \<Rightarrow> False | Some h \<Rightarrow> cache h = Some password)"

definition has_restricted_hardware_match :: "int list \<Rightarrow> bool" where
  "has_restricted_hardware_match privs \<longleftrightarrow> \<not> list_all (\<lambda>p. has p P_UNRESTRICTED) privs"

section \<open>The login request\<close>

record user_row =
  u_id :: int
  u_name :: pystr
  u_priv :: int
  u_clan_id :: int
  u_country :: pystr
  u_silence_end :: int
  u_donor_end :: int

record mail_row =
  ml_from_id :: int
  ml_from_name :: pystr
  ml_to_name :: pystr
  ml_text :: pystr

text \<open>
  What the request gets from outside: the settings, the allowed client builds, the user the
  credentials select, the privileges of the accounts with the same hardware, the location,
  the rows of the player (a mail row carries its text with the date prefix already formatted),
  the order of a set of ids, and the token \<^verbatim>\<open>generate_token\<close> returns.
\<close>

record login_ext =
  le_digit :: "nat \<Rightarrow> nat option"
  le_disallow_old :: bool
  le_allowed :: "osu_stream \<Rightarrow> (int \<times> int \<times> int) list option"
  le_authenticate :: "pystr \<Rightarrow> bytes \<Rightarrow> user_row option"
  le_hardware :: "int \<Rightarrow> bool \<Rightarrow> pystr \<Rightarrow> pystr \<Rightarrow> pystr option \<Rightarrow> int list"
  le_geoloc :: "geolocation option"
  le_has_password_hash :: bool
  le_token :: pystr
  le_stats :: "(int \<times> mode_data) list"
  le_relationships :: "(int \<times> bool) list"
  le_mail :: "mail_row list"
  le_order :: "int list \<Rightarrow> int list"
  le_menu_icon :: pystr
  le_menu_url :: pystr
  le_welcome_msg :: pystr
  le_restricted_msg :: pystr
  le_welcome_notification :: pystr

type_synonym login_response = "pystr \<times> bytes"

definition login_failed :: "pystr \<Rightarrow> bytes result list \<Rightarrow> login_response sop" where
  "login_failed token packets = emit (concatE packets) (\<lambda>d. retn (token, d))"

definition auth_failed :: "bytes result" where
  "auth_failed = login_reply (login_failure_id AUTHENTICATION_FAILED)"

definition please_restart :: "bytes result" where
  "please_restart = notification (py ''Please restart your osu! and try again.'')"

text \<open>\<^verbatim>\<open>hashlib.md5(b"0").hexdigest()\<close>\<close>

definition INACTIONABLE_DISK_SIGNATURE :: pystr where
  "INACTIONABLE_DISK_SIGNATURE = py ''cfcd208495d565ef66e7dff9f98764da''"

definition new_player :: "login_ext \<Rightarrow> user_row \<Rightarrow> login_data \<Rightarrow> osu_stream \<Rightarrow> geolocation \<Rightarrow> rat \<Rightarrow> player" where
  "new_player x u d stream geo now =
     \<lparr>p_id = u_id u, p_name = u_name u, p_priv = u_priv u, p_token = le_token x,
      p_clan_id = (if u_clan_id u \<noteq> 0 then Some (u_clan_id u) else None), p_geoloc = geo,
      p_utc_offset = ld_utc_offset d, p_pm_private = ld_pm_private d,
      p_silence_end = u_silence_end u, p_donor_end = u_donor_end u, p_login_time = now,
      p_last_recv = now, p_is_bot = False, p_is_tourney = (stream = TOURNEY), p_away_msg = None,
      p_in_lobby = False, p_stats = (\<lambda>_. None),
      p_status = \<lparr>st_action = 0, st_info_text = [], st_map_md5 = [], st_mods = 0, st_mode = 0, st_map_id = 0\<rparr>,
      p_friends = {}, p_blocks = {}, p_channels = [], p_spectators = [], p_spectating = None,
      p_spec_db_id = None, p_match = None, p_stealth = False, p_pres_filter = 0, p_last_np = None,
      p_queue = []\<rparr>"

definition put_player :: "nat \<Rightarrow> player \<Rightarrow> unit sop" where
  "put_player r p = modify (\<lambda>s. s\<lparr>s_player := (s_player s)(r := p)\<rparr>)"

text \<open>\<^verbatim>\<open>stats_from_sql_full\<close> on the rows read, ranks included.\<close>

definition stats_from_sql :: "nat \<Rightarrow> (int \<times> mode_data) list \<Rightarrow> unit sop" where
  "stats_from_sql r rows = foreach rows (\<lambda>(mode, md).
     bnd (lift_result (game_mode_of mode)) (\<lambda>gm.
       upd_player r (\<lambda>p. p\<lparr>p_stats := (p_stats p)(gm \<mapsto> md)\<rparr>)))"

text \<open>Collect the bytes a loop appends to \<^verbatim>\<open>data\<close>.\<close>

fun gather :: "'a list \<Rightarrow> ('a \<Rightarrow> bytes sop) \<Rightarrow> bytes sop" where
  "gather [] f = retn []"
| "gather (x # xs) f = bnd (f x) (\<lambda>b. bnd (gather xs f) (\<lambda>c. retn (b @ c)))"

definition login_channels :: "nat \<Rightarrow> bytes sop" where
  "login_channels r =
     bnd (gets s_channels) (\<lambda>cs. gather cs (\<lambda>c.
       bnd (gets (\<lambda>s. (s_channel s c, p_priv (s_player s r)))) (\<lambda>(x, priv).
         if \<not> ch_auto_join x \<or> \<not> ch_can_read x priv \<or> ch_real_name x = py ''#lobby'' then retn []
         else emit (channel_info (ch_real_name x) (ch_topic x) (int (length (ch_players x)))) (\<lambda>d.
           thn (bnd (gets s_players) (\<lambda>ps. foreach ps (\<lambda>q.
                 bnd (player q p_priv) (\<lambda>pr. if ch_can_read x pr then p_enqueue q d else skip))))
             (retn d)))))"

definition both_packets :: "server \<Rightarrow> nat \<Rightarrow> bytes result" where
  "both_packets s q = concatE [presence_of s q, stats_of s q]"

fun unread_mail :: "int list \<Rightarrow> mail_row list \<Rightarrow> bytes result list" where
  "unread_mail sent_to [] = []"
| "unread_mail sent_to (m # ms) =
     (if ml_from_id m \<notin> set sent_to
      then [send_message (ml_from_name m) (py ''Unread messages'') (ml_to_name m) (ml_from_id m)] else []) @
     send_message (ml_from_name m) (ml_text m) (ml_to_name m) (ml_from_id m) #
     unread_mail (ml_from_id m # sent_to) ms"

definition FIRST_USER_ID :: int where
  "FIRST_USER_ID = 3"

definition first_privs :: int where
  "first_privs = P_STAFF OR P_NOMINATOR OR P_WHITELISTED OR P_TOURNEY_MANAGER OR P_DONATOR OR P_ALUMNI"

definition from_bot :: "server \<Rightarrow> pystr \<Rightarrow> nat \<Rightarrow> bytes result" where
  "from_bot s msg r = send_message (p_name (s_player s (s_bot s))) msg (p_name (s_player s r))
     (p_id (s_player s (s_bot s)))"

text \<open>The exchange of presences: both ways for an unrestricted player.\<close>

definition login_unrestricted :: "login_ext \<Rightarrow> nat \<Rightarrow> bytes \<Rightarrow> bytes sop" where
  "login_unrestricted x r user_data =
     bnd (bnd (gets s_players) (\<lambda>ps. gather ps (\<lambda>q.
            thn (p_enqueue q user_data)
              (bnd (gets (\<lambda>s. (p_restricted (s_player s q), both_packets s q))) (\<lambda>(restr, b).
                 if \<not> restr then emit b retn else retn []))))) (\<lambda>others.
     emit (concatE (unread_mail [] (le_mail x))) (\<lambda>mail.
     bnd (gets (\<lambda>s. s_player s r)) (\<lambda>p.
       if has (p_priv p) P_VERIFIED then retn (others @ mail)
       else
         thn (add_privs r P_VERIFIED)
         (thn (if p_id p = FIRST_USER_ID then add_privs r first_privs else skip)
         (bnd (gets (\<lambda>s. from_bot s (le_welcome_msg x) r)) (\<lambda>w. emit w (\<lambda>w. retn (others @ mail @ w))))))))"

definition login_restricted :: "login_ext \<Rightarrow> nat \<Rightarrow> bytes sop" where
  "login_restricted x r =
     bnd (bnd (gets (\<lambda>s. e_order (s_env s) (unrestricted s))) (\<lambda>ps. gather ps (\<lambda>q.
            bnd (gets (\<lambda>s. both_packets s q)) (\<lambda>b. emit b retn)))) (\<lambda>others.
     emit account_restricted (\<lambda>a.
     bnd (gets (\<lambda>s. from_bot s (le_restricted_msg x) r)) (\<lambda>w. emit w (\<lambda>w. retn (others @ a @ w)))))"

text \<open>The part after \<^verbatim>\<open>player\<close> was built; \<open>r\<close> is the new object.\<close>

definition login_player :: "login_ext \<Rightarrow> player \<Rightarrow> nat \<Rightarrow> login_response sop" where
  "login_player x p r =
     thn (put_player r p)
     (emit (concatE [protocol_version 19, login_reply (p_id p),
        bancho_privileges (bancho_priv (p_priv p) OR CPR_SUPPORTER), notification (le_welcome_notification x)]) (\<lambda>d1.
     bnd (login_channels r) (\<lambda>d2.
     emit channel_info_end (\<lambda>d3.
     thn (stats_from_sql r (le_stats x))
     (thn (relationships_from_sql r (le_relationships x))
     (emit (main_menu_icon (le_menu_icon x) (le_menu_url x)) (\<lambda>d4.
     bnd (gets (\<lambda>s. (friends_list (le_order x (sorted_list_of_set (p_friends (s_player s r)))),
        silence_end_packet (remaining_silence (s_now s) (s_player s r))))) (\<lambda>(fl, se).
     emit fl (\<lambda>d5. emit se (\<lambda>d6.
     bnd (gets (\<lambda>s. concatE [presence_packet (s_player s r), stats_packet (s_player s r)])) (\<lambda>ud.
     emit ud (\<lambda>user_data.
     bnd (player r p_restricted) (\<lambda>restr.
     bnd (if \<not> restr then login_unrestricted x r user_data else login_restricted x r) (\<lambda>d7.
     thn (players_append r)
     (thn (latest_activity_soon r)
       (retn (p_token p, d1 @ d2 @ d3 @ d4 @ d5 @ d6 @ user_data @ d7)))))))))))))))))"

text \<open>\<^verbatim>\<open>handle_osu_login_request\<close>: every early reply in the order of the code.\<close>

definition login_existing :: "pystr \<Rightarrow> osu_stream \<Rightarrow> rat \<Rightarrow> (login_response option) sop" where
  "login_existing username stream now =
     bnd (get_by_name username) (\<lambda>po. case po of None \<Rightarrow> retn None
       | Some q \<Rightarrow>
           if stream = TOURNEY then retn None
           else bnd (player q p_last_recv) (\<lambda>seen.
             if fl (now - seen) < 10 then
               bnd (login_failed (py ''user-already-logged-in'') [auth_failed, notification (py ''User already logged in.'')])
                 (\<lambda>y. retn (Some y))
             else thn (logout q) (retn None)))"

definition login_verified :: "login_ext \<Rightarrow> login_data \<Rightarrow> osu_version \<Rightarrow> bool \<Rightarrow> user_row \<Rightarrow> rat \<Rightarrow> nat \<Rightarrow> login_response sop" where
  "login_verified x d v wine u now r =
     thn (spawn (Record_login (u_id u) (ov_date v) (stream_value (ov_stream v))))
     (thn (spawn (Record_hashes (u_id u) (ld_osu_path_md5 d) (ld_adapters_md5 d) (ld_uninstall_md5 d)
        (ld_disk_signature_md5 d)))
     (let disk = (if ld_disk_signature_md5 d = INACTIONABLE_DISK_SIGNATURE then None
                  else Some (ld_disk_signature_md5 d));
          privs = le_hardware x (u_id u) wine (ld_adapters_md5 d) (ld_uninstall_md5 d) disk
      in if privs \<noteq> [] \<and> \<not> has (u_priv u) P_VERIFIED \<and> has_restricted_hardware_match privs then
           login_failed (py ''contact-staff'')
             [notification (py ''Please contact staff directly to create an account.''), auth_failed]
         else bnd (gets (\<lambda>s. e_domain (s_env s))) (\<lambda>domain. case le_geoloc x of
             None \<Rightarrow> login_failed (py ''login-failed'')
               [notification (domain @ py '': Login failed. Please contact an admin.''), auth_failed]
           | Some geo \<Rightarrow>
               thn (if u_country u = py ''xx'' then spawn (Update_country (u_id u) (geo_acronym geo)) else skip)
               (if \<not> le_has_password_hash x then raise AssertionError
                else login_player x (new_player x u d (ov_stream v) geo now) r))))"

definition login_checked :: "login_ext \<Rightarrow> login_data \<Rightarrow> osu_version \<Rightarrow> bool \<Rightarrow> nat \<Rightarrow> login_response sop" where
  "login_checked x d v wine r =
     bnd (gets s_now) (\<lambda>now.
     bnd (login_existing (ld_username d) (ov_stream v) now) (\<lambda>early. case early of Some y \<Rightarrow> retn y
       | None \<Rightarrow> bnd (gets (\<lambda>s. e_domain (s_env s))) (\<lambda>domain.
           case le_authenticate x (ld_username d) (ld_password_md5 d) of
             None \<Rightarrow> login_failed (py ''incorrect-credentials'')
               [notification (domain @ py '': Incorrect credentials''), auth_failed]
           | Some u \<Rightarrow>
               if ov_stream v = TOURNEY \<and> \<not> (has (u_priv u) P_DONATOR \<and> has (u_priv u) P_UNRESTRICTED)
               then login_failed (py ''no'') [auth_failed]
               else login_verified x d v wine u now r)))"

definition handle_login :: "login_ext \<Rightarrow> bytes \<Rightarrow> nat \<Rightarrow> login_response sop" where
  "handle_login x body r =
     bnd (lift_result (parse_login_data (le_digit x) body)) (\<lambda>d.
     bnd (lift_result (parse_osu_version_string (le_digit x) (ld_osu_version d))) (\<lambda>vo. case vo of
         None \<Rightarrow> login_failed (py ''invalid-request'') [auth_failed, please_restart]
       | Some v \<Rightarrow>
           if le_disallow_old x \<and> (case le_allowed x (ov_stream v) of None \<Rightarrow> False | Some ds \<Rightarrow> ov_date v \<notin> set ds)
           then login_failed (py ''client-too-old'') [version_update, login_reply (login_failure_id OLD_CLIENT)]
           else (case parse_adapters_string (ld_adapters_str d) of
               Inl _ \<Rightarrow> login_failed (py ''invalid-adapters'') [auth_failed, please_restart]
             | Inr (adapters, wine) \<Rightarrow>
                 if \<not> (wine \<or> list_ex (\<lambda>a. a \<noteq> []) adapters)
                 then login_failed (py ''empty-adapters'') [auth_failed, please_restart]
                 else login_checked x d v wine r)))"

end
