(* ===== verification/Reach.thy ===== *)
theory Reach
  imports Login
begin

text \<open>
  The transitions of the running server and the states it reaches: a request of a client, a
  login, the passage of time, the callbacks of the background tasks that store a durable id,
  the housekeeping of \<^verbatim>\<open>app/bg_loops.py\<close>, and the moderation operations. The invariant
  of the sessions holds in every reachable state. A login stores its player at a reference
  nothing refers to, which is what allocating an object means.
\<close>

section \<open>Unused references\<close>

definition unused :: "nat \<Rightarrow> server \<Rightarrow> bool" where
  "unused r s \<longleftrightarrow> (\<forall>c. r \<notin> set (ch_players (s_channel s c))) \<and> (\<forall>m i. \<not> seated s m i r) \<and>
     (\<forall>q. r \<notin> set (p_spectators (s_player s q)) \<and> p_spectating (s_player s q) \<noteq> Some r)"

lemma unused_core: "unused r (core s) = unused r s"
  by (simp add: unused_def seated_def)

named_theorems unused_keeps \<open>operations that refer to no new player\<close>

lemma quiet_unused: "quiet m \<Longrightarrow> keeps (unused r) m"
  by (rule quiet_view [where W = "unused r"]) (simp_all add: unused_core)

lemmas [unused_keeps] = quiet_ops [THEN quiet_unused]

text \<open>References only disappear: the rule for the updates of a logout.\<close>

lemma unused_shrink:
  assumes "\<And>s c. set (ch_players (s_channel (f s) c)) \<subseteq> set (ch_players (s_channel s c))"
    and "\<And>s m. length (m_slots (s_match (f s) m)) = length (m_slots (s_match s m))"
    and "\<And>s m i q. sl_player (m_slots (s_match (f s) m) ! i) = Some q \<Longrightarrow>
      i < length (m_slots (s_match s m)) \<Longrightarrow> sl_player (m_slots (s_match s m) ! i) = Some q"
    and "\<And>s q. set (p_spectators (s_player (f s) q)) \<subseteq> set (p_spectators (s_player s q))"
    and "\<And>s q h. p_spectating (s_player (f s) q) = Some h \<Longrightarrow> p_spectating (s_player s q) = Some h"
  shows "keeps (unused r) (modify f)"
proof (rule keeps_modify)
  fix s assume u: "unused r s"
  have "r \<notin> set (ch_players (s_channel (f s) c))" for c using u assms(1) [of s c] by (auto simp: unused_def)
  moreover have "\<not> seated (f s) m i r" for m i
    using u assms(2) [of s m] assms(3) [of s m i r] by (auto simp: unused_def seated_def)
  moreover have "r \<notin> set (p_spectators (s_player (f s) q))" for q using u assms(4) [of s q] by (auto simp: unused_def)
  moreover have "p_spectating (s_player (f s) q) \<noteq> Some r" for q using u assms(5) [of s q r] by (auto simp: unused_def)
  ultimately show "unused r (f s)" by (simp add: unused_def)
qed

lemma unused_upd_player [unused_keeps]:
  assumes "\<And>p. set (p_spectators (f p)) \<subseteq> set (p_spectators p)"
    and "\<And>p. p_spectating (f p) = p_spectating p \<or> p_spectating (f p) = None"
  shows "keeps (unused r) (upd_player q f)"
  unfolding upd_player_def
proof (rule unused_shrink)
  fix s :: server and q' h
  let ?s = "s\<lparr>s_player := (s_player s)(q := f (s_player s q))\<rparr>"
  show "set (p_spectators (s_player ?s q')) \<subseteq> set (p_spectators (s_player s q'))"
    using assms(1) [of "s_player s q"] by (cases "q' = q") simp_all
  show "p_spectating (s_player ?s q') = Some h \<Longrightarrow> p_spectating (s_player s q') = Some h"
    using assms(2) [of "s_player s q"] by (cases "q' = q") auto
qed simp_all

lemma unused_upd_match [unused_keeps]:
  assumes "\<And>x. length (m_slots (f x)) = length (m_slots x)"
    and "\<And>x i. i < length (m_slots x) \<Longrightarrow>
      sl_player (m_slots (f x) ! i) = sl_player (m_slots x ! i) \<or> sl_player (m_slots (f x) ! i) = None"
  shows "keeps (unused r) (upd_match m f)"
  unfolding upd_match_def
proof (rule unused_shrink)
  fix s :: server and m' i q
  let ?s = "s\<lparr>s_match := (s_match s)(m := f (s_match s m))\<rparr>"
  show "length (m_slots (s_match ?s m')) = length (m_slots (s_match s m'))"
    using assms(1) by (cases "m' = m") simp_all
  show "sl_player (m_slots (s_match ?s m') ! i) = Some q \<Longrightarrow> i < length (m_slots (s_match s m')) \<Longrightarrow>
      sl_player (m_slots (s_match s m') ! i) = Some q"
    using assms(2) [of i "s_match s m"] by (cases "m' = m") auto
qed simp_all

lemma unused_modify [unused_keeps]:
  "(\<And>s. s_channel (f s) = s_channel s) \<Longrightarrow> (\<And>s. s_match (f s) = s_match s) \<Longrightarrow>
   (\<And>s. s_player (f s) = s_player s) \<Longrightarrow> keeps (unused r) (modify f)"
  by (rule unused_shrink) simp_all

lemma unused_channels_remove [unused_keeps]: "keeps (unused r) (channels_remove c)"
  unfolding channels_remove_def by (intro keeps_intros unused_keeps) simp_all

lemma unused_ch_remove [unused_keeps]: "keeps (unused r) (ch_remove c q)"
proof -
  let ?Q = "\<lambda>ps s. unused r s \<and> set ps \<subseteq> set (ch_players (s_channel s c))"
  have u: "unused r s \<Longrightarrow> set ps \<subseteq> set (ch_players (s_channel s c)) \<Longrightarrow>
      unused r (s\<lparr>s_channel := (s_channel s)(c := (s_channel s c)\<lparr>ch_players := ps\<rparr>)\<rparr>)" for s ps
    by (auto simp: unused_def seated_def)
  show ?thesis
    unfolding keeps_triple ch_remove_def list_remove_def channel_def
    apply (rule triple_gets_bnd)
    apply (rule triple_bnd [where R = ?Q])
     apply (rule triple_lift)
      apply (auto dest: set_remove1_subset [THEN subsetD] split: if_split_asm) [2]
    apply (rule triple_thn_keeps)
     apply (rule triple_stateI)
     apply (simp add: upd_channel_def modify_def u)
    apply (intro keeps_intros unused_keeps)
    done
qed

lemma unused_chan_exit [unused_keeps]: "keeps (unused r) (chan_exit q c)"
  unfolding chan_exit_def by (intro keeps_intros unused_keeps) simp_all

lemma unused_leave_channel [unused_keeps]: "keeps (unused r) (leave_channel q c k)"
  unfolding leave_channel_def by (intro keeps_intros unused_keeps)

lemma unused_matches_remove [unused_keeps]: "keeps (unused r) (matches_remove m)"
  unfolding matches_remove_def by (intro unused_keeps) (simp_all split: option.split)

lemma unused_free_slot [unused_keeps]: "keeps (unused r) (free_slot m i)"
  unfolding free_slot_def upd_slot_def
  by (intro unused_keeps) (auto simp: nth_update_if slot_reset_def split: if_split_asm)

lemma unused_leave_match [unused_keeps]: "keeps (unused r) (leave_match q)"
  unfolding leave_match_def close_match_def cancel_starting_def hand_over_def drop_referee_def
  by (intro keeps_intros unused_keeps; simp)

lemma unused_spec_unlink [unused_keeps]: "keeps (unused r) (spec_unlink h q)"
  unfolding keeps_triple
  by (rule triple_stateI)
     (auto simp: spec_unlink_state unused_def seated_def Let_def dest: set_remove1_subset [THEN subsetD])

lemma unused_remove_spectator [unused_keeps]: "keeps (unused r) (remove_spectator h q)"
  unfolding remove_spectator_def by (intro keeps_intros unused_keeps; simp)

lemma unused_leave_all [unused_keeps]: "keeps (unused r) (leave_all n q)"
proof (induction n)
  case (Suc n)
  then show ?case unfolding leave_all.simps by (intro keeps_intros keeps_list unused_keeps)
qed (unfold leave_all.simps, intro keeps_intros unused_keeps)

lemma unused_logout [unused_keeps]: "keeps (unused r) (logout q)"
  unfolding logout_def players_remove_def drop_token_def drop_id_def drop_name_def
  by (intro keeps_intros unused_keeps; simp)

section \<open>The login keeps the invariant\<close>

lemma wfs_put_player:
  assumes s: "wfs s" "unused r s"
    and p: "p_channels p = []" "p_spectators p = []" "p_spectating p = None" "p_match p = None"
  shows "wfs (s\<lparr>s_player := (s_player s)(r := p)\<rparr>)"
  using assms
  by (auto simp: wfs_def chan_inv_def spec_inv_def seat_inv_def seated_def table_inv_def unused_def)

lemma keeps_gather [keeps_intros]: "(\<And>x. keeps P (f x)) \<Longrightarrow> keeps P (gather xs f)"
  by (induction xs) (simp_all, intro keeps_intros, (intro keeps_intros)+)

lemma wfs_players_append [wf_keeps]: "keeps wfs (players_append r)"
  unfolding players_append_def by (intro keeps_wfl wfl_modify) simp_all

lemma wfs_login_parts [wf_keeps]:
  "keeps wfs (login_channels r)" "keeps wfs (stats_from_sql r rows)"
  "keeps wfs (login_unrestricted x r d)" "keeps wfs (login_restricted x r)"
  "keeps wfs (login_failed t ps)"
  unfolding login_channels_def stats_from_sql_def login_unrestricted_def login_restricted_def login_failed_def
  by (intro keeps_intros wf_keeps; simp)+

lemma wfs_login_player:
  "triple (\<lambda>s. wfs s \<and> unused r s) (login_player x (new_player y u d st g t) r) (\<lambda>_. wfs) wfs"
  unfolding login_player_def
  apply (rule triple_thn_keeps)
   apply (rule triple_stateI)
   apply (simp add: put_player_def modify_def wfs_put_player new_player_def)
  apply (intro keeps_intros wf_keeps)
  done

text \<open>The replies that end a login early, and the old session that is logged out first.\<close>

definition fresh_ok :: "nat \<Rightarrow> server \<Rightarrow> bool" where
  "fresh_ok r s \<longleftrightarrow> wfs s \<and> unused r s"

lemma fresh_ok_conj: "keeps wfs m \<Longrightarrow> keeps (unused r) m \<Longrightarrow> keeps (fresh_ok r) m"
  unfolding fresh_ok_def by (rule keeps_conj)

lemma fresh_login_failed: "keeps (fresh_ok r) (login_failed t ps)"
  unfolding login_failed_def by (intro keeps_intros)

lemma fresh_login_existing: "keeps (fresh_ok r) (login_existing n st now)"
  unfolding login_existing_def
  by (intro keeps_intros fresh_login_failed fresh_ok_conj wf_keeps unused_keeps)

lemma fresh_spawn: "keeps (fresh_ok r) (spawn t)"
  by (intro fresh_ok_conj wf_keeps unused_keeps)

lemma login_verified_ok:
  "triple (fresh_ok r) (login_verified x d st w u now r) (\<lambda>_. wfs) wfs"
proof -
  have f: "triple (fresh_ok r) (login_failed t ps) (\<lambda>_. wfs) wfs" for t ps
    by (rule triple_keeps [OF fresh_login_failed]) (simp_all add: fresh_ok_def)
  have p: "triple (fresh_ok r) (login_player x (new_player y u d' st' g t) r) (\<lambda>_. wfs) wfs" for y u d' st' g t
    unfolding fresh_ok_def by (rule wfs_login_player)
  have t: "triple (fresh_ok r) (thn (spawn t) k) (\<lambda>_. wfs) wfs"
    if "triple (fresh_ok r) k (\<lambda>_. wfs) wfs" for t and k :: "'a sop"
    by (rule triple_thn [OF triple_keeps [OF fresh_spawn] that]) (simp_all add: fresh_ok_def)
  show ?thesis
    unfolding login_verified_def Let_def
    apply (intro t)
    apply (rule triple_if [OF f])
    apply (rule triple_gets_bnd)
    apply (rule triple_conseq [where P = "fresh_ok r" and Q = "\<lambda>_. wfs" and E = wfs])
       apply (auto split: option.split intro!: f p t triple_raise simp: fresh_ok_def [of r])
    done
qed

lemma login_checked_ok: "triple (fresh_ok r) (login_checked x d st w r) (\<lambda>_. wfs) wfs"
proof -
  have f: "triple (fresh_ok r) (login_failed t ps) (\<lambda>_. wfs) wfs" for t ps
    by (rule triple_keeps [OF fresh_login_failed]) (simp_all add: fresh_ok_def)
  have e: "triple (fresh_ok r) (login_existing n st now) (\<lambda>_. fresh_ok r) wfs" for n st now
    by (rule triple_keeps [OF fresh_login_existing]) (simp_all add: fresh_ok_def)
  have w: "triple (fresh_ok r) (bnd (gets f) k) (\<lambda>_. wfs) wfs"
    if "\<And>v. triple (fresh_ok r) (k v) (\<lambda>_. wfs) wfs" for f :: "server \<Rightarrow> 'a" and k :: "'a \<Rightarrow> login_response sop"
    by (rule triple_gets_bnd, rule triple_conseq [OF that]) simp_all
  show ?thesis
    unfolding login_checked_def
    apply (rule w)
    apply (rule triple_bnd [OF e])
    apply (rename_tac now early, case_tac early)
     apply (simp only: option.case)
     apply (rule w)
     apply (auto split: option.split intro!: f login_verified_ok)
    apply (rule triple_retn, simp add: fresh_ok_def)
    done
qed

lemma login_ok: "triple (fresh_ok r) (handle_login x body r) (\<lambda>_. wfs) wfs"
proof -
  have f: "triple (fresh_ok r) (login_failed t ps) (\<lambda>_. wfs) wfs" for t ps
    by (rule triple_keeps [OF fresh_login_failed]) (simp_all add: fresh_ok_def)
  have l: "triple (fresh_ok r) (bnd (lift_result v) k) (\<lambda>_. wfs) wfs"
    if "\<And>y. triple (fresh_ok r) (k y) (\<lambda>_. wfs) wfs" for v :: "'a result" and k :: "'a \<Rightarrow> login_response sop"
    by (rule triple_bnd [OF triple_lift that]) (simp_all add: fresh_ok_def)
  show ?thesis
    unfolding handle_login_def
    by (intro l) (auto split: option.split sum.split intro!: l f login_checked_ok)
qed

section \<open>Housekeeping\<close>

text \<open>
  \<^verbatim>\<open>_disconnect_ghosts\<close> iterates over the live list of players while \<^verbatim>\<open>logout\<close>
  removes from it: the iterator is an index into the current list.
\<close>

definition PING_INTERVAL :: rat where
  "PING_INTERVAL = 300"

fun ghosts_from :: "nat \<Rightarrow> rat \<Rightarrow> nat \<Rightarrow> unit sop" where
  "ghosts_from 0 now i = skip"
| "ghosts_from (Suc n) now i =
     bnd (gets s_players) (\<lambda>ps.
       if length ps \<le> i then skip
       else bnd (player (ps ! i) p_last_recv) (\<lambda>seen.
         thn (if PING_INTERVAL < fl (now - seen) then logout (ps ! i) else skip)
           (ghosts_from n now (Suc i))))"

definition disconnect_ghosts :: "unit sop" where
  "disconnect_ghosts = bnd (gets (\<lambda>s. (s_now s, length (s_players s)))) (\<lambda>(now, n). ghosts_from n now 0)"

text \<open>
  \<^verbatim>\<open>_remove_expired_donation_privileges\<close> on the ids the query returned. A donor who is
  not online is looked up in the users table (\<open>by_id\<close>); the player object built from the row
  is dropped afterwards with everything enqueued to it, so the rows written are what is left.
\<close>

definition expire_donor :: "(int \<Rightarrow> sql_user option) \<Rightarrow> int \<Rightarrow> unit sop" where
  "expire_donor by_id i = bnd (get_by_id i) (\<lambda>t. case t of
       Some q \<Rightarrow>
         thn (remove_privs q P_DONATOR)
         (thn (upd_player q (\<lambda>p. p\<lparr>p_donor_end := 0\<rparr>))
         (thn (bnd (player q p_id) (\<lambda>i. spawn (Clear_donor_end i)))
           (bnd (player q is_online) (\<lambda>on. if on
              then emit (notification (py ''Your supporter status has expired.'')) (p_enqueue q) else skip))))
     | None \<Rightarrow> (case by_id i of
         None \<Rightarrow> skip
       | Some u \<Rightarrow> thn (spawn (Set_priv (su_id u) (su_priv u AND privs_not P_DONATOR)))
           (spawn (Clear_donor_end (su_id u)))))"

definition expire_donors :: "(int \<Rightarrow> sql_user option) \<Rightarrow> int list \<Rightarrow> unit sop" where
  "expire_donors by_id ids = foreach ids (expire_donor by_id)"

lemma wfs_ghosts_from: "keeps wfs (ghosts_from n now i)"
proof (induction n arbitrary: i)
  case (Suc n)
  then show ?case unfolding ghosts_from.simps by (intro keeps_intros wf_keeps)
qed (unfold ghosts_from.simps, rule keeps_skip)

lemma wfs_housekeeping [wf_keeps]: "keeps wfs disconnect_ghosts" "keeps wfs (expire_donors by_id is)"
  unfolding disconnect_ghosts_def expire_donors_def expire_donor_def
  by (intro keeps_intros wf_keeps wfs_ghosts_from; simp)+

section \<open>Reachable states\<close>

text \<open>
  \<open>initial\<close>: the caches \<^verbatim>\<open>initialize_ram_caches\<close> fills, before anyone logs in: channels
  without players, an empty table of matches, the bot as the only player.
\<close>

definition initial :: "server \<Rightarrow> bool" where
  "initial s \<longleftrightarrow> (\<forall>c. ch_players (s_channel s c) = []) \<and>
     (\<forall>m. length (m_slots (s_match s m)) = 16 \<and> list_all slot_empty (m_slots (s_match s m)) \<and>
        m_match_points (s_match s m) = [] \<and> m_winners (s_match s m) = []) \<and>
     (\<forall>r. p_spectators (s_player s r) = [] \<and> p_spectating (s_player s r) = None) \<and>
     s_matches s = replicate 64 None \<and> s_players s = [s_bot s]"

inductive step :: "ext \<Rightarrow> server \<Rightarrow> server \<Rightarrow> bool" for x :: ext where
  step_request: "s' = exec (bancho_request x token body) s \<Longrightarrow> step x s s'"
| step_login: "unused r s \<Longrightarrow> s' = exec (handle_login lx body r) s \<Longrightarrow> step x s s'"
| step_time: "s_now s \<le> t \<Longrightarrow> s' = s\<lparr>s_now := t\<rparr> \<Longrightarrow> step x s s'"
| step_match_id: "s' = exec (upd_match m (\<lambda>g. g\<lparr>m_db_id := Some i\<rparr>)) s \<Longrightarrow> step x s s'"
| step_session_id: "s' = exec (upd_player r (\<lambda>p. p\<lparr>p_spec_db_id := Some i\<rparr>)) s \<Longrightarrow> step x s s'"
| step_ghosts: "s' = exec disconnect_ghosts s \<Longrightarrow> step x s s'"
| step_donors: "s' = exec (expire_donors by_id ids) s \<Longrightarrow> step x s s'"
| step_bot_status: "s' = s\<lparr>s_bot_choice := c\<rparr> \<Longrightarrow> step x s s'"
| step_restrict: "s' = exec (restrict r a why) s \<Longrightarrow> step x s s'"
| step_unrestrict: "s' = exec (unrestrict r a why) s \<Longrightarrow> step x s s'"
| step_silence: "s' = exec (silence r a d why) s \<Longrightarrow> step x s s'"
| step_unsilence: "s' = exec (unsilence r a why) s \<Longrightarrow> step x s s'"

inductive reachable :: "ext \<Rightarrow> server \<Rightarrow> bool" for x :: ext where
  reach_initial: "initial s \<Longrightarrow> reachable x s"
| reach_step: "reachable x s \<Longrightarrow> step x s s' \<Longrightarrow> reachable x s'"

lemma wfs_initial: "initial s \<Longrightarrow> wfs s"
  unfolding initial_def wfs_def chan_inv_def spec_inv_def seat_inv_def seated_def table_inv_def
  by (auto simp: list_all_length slot_empty_def)

lemma exec_triple: "triple P m (\<lambda>_. Q) Q \<Longrightarrow> P s \<Longrightarrow> Q (exec m s)"
  unfolding triple_def exec_def by (cases "m s"; cases "fst (m s)") fastforce+

lemma wfs_set: "keeps wfs (modify f) \<Longrightarrow> wfs s \<Longrightarrow> wfs (f s)"
  by (simp add: keeps_def modify_def)

lemma wfs_set_now: "wfs s \<Longrightarrow> wfs (s\<lparr>s_now := t\<rparr>)"
  by (rule wfs_set [of "\<lambda>s. s\<lparr>s_now := t\<rparr>"]) (intro keeps_wfl wfl_modify, simp_all)

lemma wfs_set_bot_choice: "wfs s \<Longrightarrow> wfs (s\<lparr>s_bot_choice := c\<rparr>)"
  by (rule wfs_set [of "\<lambda>s. s\<lparr>s_bot_choice := c\<rparr>"]) (intro keeps_wfl wfl_modify, simp_all)

lemma wfs_step:
  assumes "step x s s'" "ext_ok x" "wfs s"
  shows "wfs s'"
  using assms
proof cases
  case (step_request token body)
  then show ?thesis using assms by (simp add: keeps_exec [OF wfs_bancho_request])
next
  case (step_login r lx body)
  then show ?thesis using assms exec_triple [OF login_ok] by (simp add: fresh_ok_def)
next
  case (step_match_id m i)
  have "keeps wfs (upd_match m (\<lambda>g. g\<lparr>m_db_id := Some i\<rparr>))" by (intro wf_keeps) simp_all
  then show ?thesis using step_match_id assms by (simp add: keeps_exec)
next
  case (step_session_id r i)
  have "keeps wfs (upd_player r (\<lambda>p. p\<lparr>p_spec_db_id := Some i\<rparr>))" by (intro wf_keeps) simp_all
  then show ?thesis using step_session_id assms by (simp add: keeps_exec)
qed (use assms in \<open>simp_all add: wfs_set_now wfs_set_bot_choice keeps_exec [OF wfs_housekeeping(1)]
      keeps_exec [OF wfs_housekeeping(2)] keeps_exec [OF wfs_restrict(1)] keeps_exec [OF wfs_restrict(2)]
      keeps_exec [OF wfs_silence(1)] keeps_exec [OF wfs_silence(2)]\<close>)

lemma wfs_reachable: "reachable x s \<Longrightarrow> ext_ok x \<Longrightarrow> wfs s"
  by (induction rule: reachable.induct) (simp_all add: wfs_initial wfs_step)

end
