(* ===== verification/Delivery.thy ===== *)
theory Delivery
  imports Reach
begin

text \<open>
  Who receives a packet. \<open>deliver D d\<close> appends the packet \<open>d\<close> to the queue of every player
  of \<open>D\<close> that is not a bot client; each sending operation is this function on the members the
  code selects, once per member.
\<close>

definition deliver :: "nat set \<Rightarrow> bytes \<Rightarrow> server \<Rightarrow> server" where
  "deliver D d s = s\<lparr>s_player := (\<lambda>q. if q \<in> D \<and> \<not> p_is_bot (s_player s q)
     then (s_player s q)\<lparr>p_queue := p_queue (s_player s q) @ [d]\<rparr> else s_player s q)\<rparr>"

lemma deliver_queue: "p_queue (s_player (deliver D d s) q) =
    p_queue (s_player s q) @ (if q \<in> D \<and> \<not> p_is_bot (s_player s q) then [d] else [])"
  by (simp add: deliver_def)

lemma deliver_empty [simp]: "deliver {} d s = s"
  by (simp add: deliver_def)

lemma deliver_sel [simp]:
  "p_id (s_player (deliver D d s) q) = p_id (s_player s q)"
  "p_priv (s_player (deliver D d s) q) = p_priv (s_player s q)"
  "p_blocks (s_player (deliver D d s) q) = p_blocks (s_player s q)"
  "p_is_bot (s_player (deliver D d s) q) = p_is_bot (s_player s q)"
  "p_name (s_player (deliver D d s) q) = p_name (s_player s q)"
  "p_spectators (s_player (deliver D d s) q) = p_spectators (s_player s q)"
  "s_channel (deliver D d s) = s_channel s" "s_match (deliver D d s) = s_match s"
  "s_players (deliver D d s) = s_players s" "s_channels (deliver D d s) = s_channels s"
  "s_by_id (deliver D d s) = s_by_id s" "s_matches (deliver D d s) = s_matches s"
  by (simp_all add: deliver_def)

lemma core_deliver: "core (deliver D d s) = core s"
  by (auto simp: core_def deliver_def fun_eq_iff)

lemma p_enqueue_deliver: "p_enqueue r d s = (Inr (), deliver {r} d s)"
  by (auto simp: p_enqueue_def upd_player_def modify_def deliver_def fun_eq_iff)

lemma deliver_deliver:
  assumes "D \<inter> E = {}"
  shows "deliver E d (deliver D d s) = deliver (D \<union> E) d s"
proof (rule server.equality)
  show "s_player (deliver E d (deliver D d s)) = s_player (deliver (D \<union> E) d s)"
  proof
    fix q
    have "q \<in> D \<Longrightarrow> q \<notin> E" using assms by blast
    then show "s_player (deliver E d (deliver D d s)) q = s_player (deliver (D \<union> E) d s) q"
      by (cases "q \<in> D") (simp_all add: deliver_def)
  qed
qed (simp_all add: deliver_def)

lemma foreach_deliver:
  assumes "distinct ps" and f: "\<And>p q. f (p\<lparr>p_queue := q\<rparr>) = f p"
  shows "foreach ps (\<lambda>r. bnd (player r f) (\<lambda>v. if C r v then p_enqueue r d else skip)) s =
    (Inr (), deliver {r \<in> set ps. C r (f (s_player s r))} d s)"
  using assms(1)
proof (induction ps arbitrary: s)
  case Nil
  then show ?case by (simp add: skip_def retn_def)
next
  case (Cons a ps)
  have f': "f (s_player (deliver D d s) q) = f (s_player s q)" for D q s
    by (simp add: deliver_def f)
  have sp: "{r \<in> set (a # ps). C r (f (s_player s r))} =
      (if C a (f (s_player s a)) then {a} else {}) \<union> {r \<in> set ps. C r (f (s_player s r))}"
    by auto
  have dj: "a \<notin> {r \<in> set ps. C r (f (s_player s r))}" using Cons.prems by simp
  show ?case
  proof (cases "C a (f (s_player s a))")
    case True
    then show ?thesis
      using Cons dj
      by (simp add: thn_def bnd_def player_def gets_def p_enqueue_deliver f' deliver_deliver sp
          del: set_simps)
  next
    case False
    then show ?thesis
      using Cons by (simp add: thn_def bnd_def player_def gets_def skip_def retn_def sp del: set_simps)
  qed
qed

lemma foreach_deliver_all:
  "distinct ps \<Longrightarrow> foreach ps (\<lambda>r. if C r then p_enqueue r d else skip) s =
    (Inr (), deliver {r \<in> set ps. C r} d s)"
  using foreach_deliver [of ps "\<lambda>_. ()" "\<lambda>r _. C r" d s]
  by (simp add: player_def bnd_def gets_def)

section \<open>The senders\<close>

definition members :: "server \<Rightarrow> nat \<Rightarrow> nat set" where
  "members s c = set (ch_players (s_channel s c))"

lemma wfs_distinct: "wfs s \<Longrightarrow> distinct (ch_players (s_channel s c))"
  by (simp add: wfs_def chan_inv_def)

lemma ch_enqueue_deliver:
  assumes "wfs s"
  shows "ch_enqueue c d immune s = (Inr (), deliver {r \<in> members s c. p_id (s_player s r) \<notin> set immune} d s)"
  unfolding ch_enqueue_def channel_def bnd_gets members_def
  by (rule foreach_deliver [where f = p_id, OF wfs_distinct [OF assms]]) simp

text \<open>\<^verbatim>\<open>Channel.send\<close>: to the members who do not block the sender, and not to the sender.\<close>

lemma ch_send_deliver:
  assumes "wfs s"
    and "send_message (p_name (s_player s q)) msg (ch_name (s_channel s c)) (p_id (s_player s q)) = Inr d"
  shows "ch_send c msg q to_self s = (Inr (), deliver
    {r \<in> members s c. p_id (s_player s q) \<notin> p_blocks (s_player s r) \<and>
       (to_self \<or> p_id (s_player s r) \<noteq> p_id (s_player s q))} d s)"
proof -
  have "ch_send c msg q to_self s = foreach (ch_players (s_channel s c)) (\<lambda>r. bnd (player r (\<lambda>p. (p_id p, p_blocks p)))
      (\<lambda>(i, blocks). if p_id (s_player s q) \<notin> blocks \<and> (to_self \<or> i \<noteq> p_id (s_player s q)) then p_enqueue r d else skip)) s"
    using assms(2) by (simp add: ch_send_def player_def channel_def emit_def lift_result_def bnd_def gets_def)
  also have "\<dots> = (Inr (), deliver {r \<in> set (ch_players (s_channel s c)).
      case (p_id (s_player s r), p_blocks (s_player s r)) of (i, blocks) \<Rightarrow>
        p_id (s_player s q) \<notin> blocks \<and> (to_self \<or> i \<noteq> p_id (s_player s q))} d s)"
    using foreach_deliver [where f = "\<lambda>p. (p_id p, p_blocks p)" and
        C = "\<lambda>r (i, blocks). p_id (s_player s q) \<notin> blocks \<and> (to_self \<or> i \<noteq> p_id (s_player s q))",
        OF wfs_distinct [OF assms(1)]]
    by (simp add: case_prod_unfold)
  finally show ?thesis by (simp add: members_def)
qed

lemma lobby_enqueue_deliver:
  assumes "wfs s"
  shows "lobby_enqueue (Inr d) s = (Inr (), deliver
    (case find (\<lambda>c. ch_real_name (s_channel s c) = py ''#lobby'') (s_channels s) of
       None \<Rightarrow> {} | Some c \<Rightarrow> members s c) d s)"
proof (cases "find (\<lambda>c. ch_real_name (s_channel s c) = py ''#lobby'') (s_channels s)")
  case None
  then show ?thesis by (simp add: lobby_enqueue_def channels_get_by_name_def skip_def retn_def)
next
  case (Some c)
  then show ?thesis
    using ch_enqueue_deliver [OF assms, of c d "[]"]
    by (simp add: lobby_enqueue_def channels_get_by_name_def channel_def emit_def lift_result_def
        bnd_def gets_def members_def skip_def retn_def)
qed

definition lobby_members :: "server \<Rightarrow> nat set" where
  "lobby_members s = (case find (\<lambda>c. ch_real_name (s_channel s c) = py ''#lobby'') (s_channels s) of
     None \<Rightarrow> {} | Some c \<Rightarrow> members s c)"

lemma match_info_deliver: "match_info_of (deliver D d s) m = match_info_of s m"
proof -
  have "slot_info_of (deliver D d s) = slot_info_of s"
    by (auto simp: slot_info_of_def deliver_def fun_eq_iff split: option.split intro!: map_option_cong)
  then show ?thesis by (simp add: match_info_of_def Let_def split: option.split)
qed

lemma wfs_deliver: "wfs (deliver D d s) = wfs s"
  by (metis core_deliver wf_core)

text \<open>\<^verbatim>\<open>enqueue_state\<close>: the members of the match's channel get the packet with the
  password, the members of the lobby the one without.\<close>

lemma enqueue_state_deliver:
  assumes "wfs s" "update_match (match_info_of s m) True = Inr d" "update_match (match_info_of s m) False = Inr e"
  shows "enqueue_state m lobby s = (Inr (),
     (if lobby then deliver (lobby_members s) e else id) (deliver (members s (m_chat (s_match s m))) d s))"
proof -
  let ?s = "deliver (members s (m_chat (s_match s m))) d s"
  have a: "emit_match (\<lambda>i. update_match i True) m (\<lambda>d. ch_enqueue (m_chat (s_match s m)) d []) s = (Inr (), ?s)"
    using assms(2) ch_enqueue_deliver [OF assms(1), of "m_chat (s_match s m)" d "[]"]
    by (simp add: emit_match_def emit_def bnd_def gets_def lift_result_def)
  have b: "lobby_enqueue (Inr e) ?s = (Inr (), deliver (lobby_members s) e ?s)"
    using lobby_enqueue_deliver [of ?s e] assms(1)
    by (simp add: wfs_deliver lobby_members_def members_def cong: option.case_cong)
  have c: "update_match (match_info_of ?s m) False = Inr e" using assms(3) by (simp add: match_info_deliver)
  have "enqueue_state m lobby s = thn (emit_match (\<lambda>i. update_match i True) m (\<lambda>d. ch_enqueue (m_chat (s_match s m)) d []))
         (if lobby then bnd (gets (\<lambda>s. update_match (match_info_of s m) False)) lobby_enqueue else skip) s"
    by (simp add: enqueue_state_def game_def)
  also have "\<dots> = (if lobby then bnd (gets (\<lambda>s. update_match (match_info_of s m) False)) lobby_enqueue else skip) ?s"
    by (simp add: thn_def bnd_def a)
  finally show ?thesis by (simp add: c b skip_def retn_def)
qed

text \<open>Without the password flag, the bytes do not depend on the password.\<close>

lemma update_match_hides:
  assumes "pw \<noteq> []" "pw' \<noteq> []"
  shows "update_match (i\<lparr>mi_passwd := pw\<rparr>) False = update_match (i\<lparr>mi_passwd := pw'\<rparr>) False"
proof -
  have "write_match (i\<lparr>mi_passwd := pw\<rparr>) False = write_match (i\<lparr>mi_passwd := pw'\<rparr>) False"
    using assms by (simp add: write_match_def passwd_bytes_def)
  then show ?thesis by (simp add: update_match_def pkt_def write_packet_def)
qed

end
