(* ===== verification/Outcomes.thy ===== *)
theory Outcomes
  imports Delivery
begin

text \<open>
  What the match operations achieve when they return: which seat a join takes, what a
  departure leaves behind, who becomes host. The seats are read off \<open>links\<close>; the host and
  the table of matches off a second view of the state, \<open>hosts\<close>.
\<close>

lemma triple_stateT: "(\<And>s. P s \<Longrightarrow> Q (snd (m s))) \<Longrightarrow> triple P m (\<lambda>_. Q) (\<lambda>_. True)"
  by (fastforce simp: triple_def split: prod.split sum.split)

lemma triple_thn_step: "keeps P m \<Longrightarrow> triple P k Q (\<lambda>_. True) \<Longrightarrow> triple P (thn m k) Q (\<lambda>_. True)"
  by (rule triple_thn [where R = P]) (rule triple_keeps, simp_all)

lemma thn_ok: "m s = (Inr x, s') \<Longrightarrow> thn m k s = k s'"
  by (simp add: thn_def bnd_def)

lemma triple_keepsT: "keeps P m \<Longrightarrow> triple P m (\<lambda>_. P) (\<lambda>_. True)"
  by (rule triple_keeps) simp_all

section \<open>Joining\<close>

type_synonym links_view = "(nat \<Rightarrow> nat option list) \<times> (nat \<Rightarrow> nat option) \<times> (nat \<Rightarrow> nat list) \<times> (nat \<Rightarrow> nat option)"

definition seat :: "nat \<Rightarrow> nat \<Rightarrow> nat \<Rightarrow> links_view \<Rightarrow> links_view" where
  "seat m i r v = ((fst v)(m := (fst v m)[i := Some r]), (fst (snd v))(r := Some m), snd (snd v))"

definition unseat :: "nat \<Rightarrow> nat \<Rightarrow> nat \<Rightarrow> links_view \<Rightarrow> links_view" where
  "unseat m i r v = ((fst v)(m := (fst v m)[i := None]), (fst (snd v))(r := None), snd (snd v))"

lemma links_take_slot: "links (snd (take_slot m i r s)) = seat m i r (links s)"
  by (auto simp: take_slot_state links_def seat_def map_update fun_eq_iff)

lemma links_free_slot: "fst (links (snd (free_slot m i s))) = (fst (links s))(m := (fst (links s) m)[i := None])"
  by (auto simp: free_slot_state links_def slot_reset_def map_update fun_eq_iff)

lemma quiet_links: "quiet m \<Longrightarrow> keeps (\<lambda>s. links s = v) m"
  by (rule quiet_view [where W = "\<lambda>s. links s = v"]) (simp_all add: links_core)

text \<open>A join that returns \<^verbatim>\<open>True\<close> has taken exactly the slot it was given.\<close>

lemma enter_match_True:
  "triple (wfl v) (enter_match r m i) (\<lambda>ok s. links s = (if ok then seat m i r v else v)) (\<lambda>_. True)"
proof -
  have k: "triple (\<lambda>s. links s = seat m i r v)
      (thn (emit_match match_join_success m (p_enqueue r)) (thn (enqueue_state m True) (retn True)))
      (\<lambda>ok s. links s = (if ok then seat m i r v else v)) (\<lambda>_. True)"
    apply (rule triple_thn [where R = "\<lambda>s. links s = seat m i r v"])
     apply (rule triple_keeps [OF quiet_links], intro quiets, simp_all)
    apply (rule triple_thn [where R = "\<lambda>s. links s = seat m i r v"])
     apply (rule triple_keeps [OF quiet_links], intro quiets, simp_all)
    apply (rule triple_retn, simp)
    done
  show ?thesis
    unfolding enter_match_def game_def
    apply (rule triple_gets_bnd)
    apply (rule triple_bnd [where R = "\<lambda>_. wfl v"])
     apply (rule triple_conseq [OF triple_keeps [OF wfl_join_channel, where Q = "\<lambda>_. wfl v" and E = "\<lambda>_. True"]])
        apply simp_all
    apply (intro conjI impI)
     apply (rule triple_retn, simp add: wfl_def)
    apply (rule triple_thn [where R = "wfl v"])
     apply (rule triple_keeps [OF wfl_leave_lobby], simp_all)
    apply (rule triple_thn [OF triple_conseq [OF triple_stateI [where P = "wfl v" and Q = "\<lambda>s. links s = seat m i r v"]] k])
       apply (simp_all add: links_take_slot wfl_def)
    done
qed

lemma join_fail_False: "triple P (join_fail r) (\<lambda>ok _. \<not> ok) (\<lambda>_. True)"
  by (auto simp: triple_def join_fail_def thn_def bnd_def retn_def split: prod.splits sum.splits)

lemma join_fail_links: "triple (\<lambda>s. links s = v) (join_fail r) (\<lambda>ok s. \<not> ok \<and> links s = v) (\<lambda>_. True)"
  using triple_keeps [OF quiet_links [OF quiet_join_fail [of r]], of v "\<lambda>_ s. links s = v" "\<lambda>_. True"] join_fail_False [of "\<lambda>s. links s = v" r]
  by (fastforce simp: triple_def split: prod.splits sum.splits)

definition join_slot :: "server \<Rightarrow> nat \<Rightarrow> nat \<Rightarrow> nat option" where
  "join_slot s r m = (if s_by_id s (m_host_id (s_match s m)) = Some r then Some 0 else match_get_free (s_match s m))"

definition may_join :: "server \<Rightarrow> nat \<Rightarrow> nat \<Rightarrow> pystr \<Rightarrow> bool" where
  "may_join s r m passwd \<longleftrightarrow> p_match (s_player s r) = None \<and>
     p_id (s_player s r) \<notin> m_tourney_clients (s_match s m) \<and>
     (s_by_id s (m_host_id (s_match s m)) = Some r \<or> passwd = m_passwd (s_match s m) \<or> r \<in> set (staff s))"

lemma match_host_bnd: "bnd (match_host m) k s =
    (case s_by_id s (m_host_id (s_match s m)) of None \<Rightarrow> (Inl ValueError, s) | Some h \<Rightarrow> k h s)"
  unfolding match_host_def game_def get_by_id_def
  by (simp add: bnd_def gets_def raise_def retn_def split: option.split)

lemma join_match_result:
  assumes s: "wfs s" and j: "join_match r m passwd s = (Inr ok, s')"
  shows "if ok then may_join s r m passwd \<and> (\<exists>i. join_slot s r m = Some i \<and> links s' = seat m i r (links s))
         else links s' = links s"
proof -
  have w: "wfl (links s) s" using s by (simp add: wfl_def)
  have f: "join_fail r s = (Inr ok, s') \<Longrightarrow> \<not> ok \<and> links s' = links s"
    using tripleD [OF join_fail_links refl, of r] by blast
  have e: "enter_match r m i s = (Inr ok, s') \<Longrightarrow> links s' = (if ok then seat m i r (links s) else links s)" for i
    using tripleD [OF enter_match_True w] by blast
  show ?thesis
  proof (cases "s_by_id s (m_host_id (s_match s m))")
    case None
    then show ?thesis using j f by (auto simp: join_match_def match_host_bnd split: if_split_asm)
  next
    case (Some h)
    then show ?thesis using j f e
      by (auto simp: join_match_def match_host_bnd may_join_def join_slot_def split: if_split_asm option.splits)
  qed
qed

section \<open>Leaving\<close>

type_synonym hosts_view = "(nat \<Rightarrow> int) \<times> (int \<Rightarrow> nat option) \<times> (nat \<Rightarrow> int) \<times> nat option list \<times> links_view"

definition hosts :: "server \<Rightarrow> hosts_view" where
  "hosts s = ((\<lambda>m. m_host_id (s_match s m)), s_by_id s, (\<lambda>r. p_id (s_player s r)), s_matches s, links s)"

named_theorems hosts_keeps \<open>operations that leave the hosts, the table and the seats alone\<close>

lemma quiet_hosts: "quiet m \<Longrightarrow> keeps (\<lambda>s. hosts s = v) m"
  by (rule quiet_view [where W = "\<lambda>s. hosts s = v"]) (simp_all add: hosts_def links_core)

lemmas [hosts_keeps] = quiet_ops [THEN quiet_hosts]

lemma hosts_upd_player [hosts_keeps]:
  assumes "\<And>p. p_id (f p) = p_id p" "\<And>p. p_match (f p) = p_match p"
    "\<And>p. p_spectators (f p) = p_spectators p" "\<And>p. p_spectating (f p) = p_spectating p"
  shows "keeps (\<lambda>s. hosts s = v) (upd_player r f)"
  unfolding upd_player_def
  by (rule keeps_modify) (use assms in \<open>auto simp: hosts_def links_def fun_eq_iff\<close>)

lemma hosts_upd_match [hosts_keeps]:
  assumes "\<And>x. m_host_id (f x) = m_host_id x" "\<And>x. map sl_player (m_slots (f x)) = map sl_player (m_slots x)"
  shows "keeps (\<lambda>s. hosts s = v) (upd_match m f)"
  unfolding upd_match_def
  by (rule keeps_modify) (use assms in \<open>auto simp: hosts_def links_def fun_eq_iff\<close>)

lemma hosts_modify [hosts_keeps]:
  "(\<And>s. s_match (f s) = s_match s) \<Longrightarrow> (\<And>s. s_player (f s) = s_player s) \<Longrightarrow>
   (\<And>s. s_by_id (f s) = s_by_id s) \<Longrightarrow> (\<And>s. s_matches (f s) = s_matches s) \<Longrightarrow>
   keeps (\<lambda>s. hosts s = v) (modify f)"
  by (rule keeps_modify) (auto simp: hosts_def links_def fun_eq_iff)

lemma hosts_leave_channel [hosts_keeps]: "keeps (\<lambda>s. hosts s = v) (leave_channel r c k)"
  unfolding leave_channel_def chan_exit_def ch_remove_def channels_remove_def upd_channel_def
  by (intro keeps_intros hosts_keeps; simp)

lemma hosts_cancel_starting [hosts_keeps]: "keeps (\<lambda>s. hosts s = v) (cancel_starting m)"
  unfolding cancel_starting_def by (intro keeps_intros hosts_keeps; simp)

lemma hosts_drop_referee [hosts_keeps]: "keeps (\<lambda>s. hosts s = v) (drop_referee r m)"
  unfolding drop_referee_def by (intro keeps_intros hosts_keeps; simp)

text \<open>The table without a match, and the player who inherits it.\<close>

definition without_match :: "nat \<Rightarrow> nat option list \<Rightarrow> nat option list" where
  "without_match m t = (case find_index (\<lambda>x. x = Some m) t of None \<Rightarrow> t | Some i \<Rightarrow> t[i := None])"

definition first_seated :: "nat option list \<Rightarrow> nat option" where
  "first_seated ps = (case find (\<lambda>x. x \<noteq> None) ps of Some (Some q) \<Rightarrow> Some q | _ \<Rightarrow> None)"

definition set_table :: "nat option list \<Rightarrow> hosts_view \<Rightarrow> hosts_view" where
  "set_table t v = (fst v, fst (snd v), fst (snd (snd v)), t, snd (snd (snd (snd v))))"

definition set_host :: "nat \<Rightarrow> nat \<Rightarrow> hosts_view \<Rightarrow> hosts_view" where
  "set_host m q v = ((fst v)(m := fst (snd (snd v)) q), snd v)"

lemma first_seated_slots:
  "first_seated (map sl_player xs) = (case find (\<lambda>s. sl_player s \<noteq> None) xs of None \<Rightarrow> None | Some x \<Rightarrow> sl_player x)"
  by (induction xs) (auto simp: first_seated_def)

lemma first_seated_None: "first_seated ps = None \<longleftrightarrow> (\<forall>x \<in> set ps. x = None)"
  by (induction ps) (auto simp: first_seated_def)

lemma hosts_matches_remove: "hosts (snd (matches_remove m s)) = set_table (without_match m (s_matches s)) (hosts s)"
  by (auto simp: matches_remove_def modify_def hosts_def links_def set_table_def without_match_def split: option.split)

lemma close_match_hosts:
  "triple (\<lambda>s. hosts s = v) (close_match m)
     (\<lambda>_ s. hosts s = set_table (without_match m (fst (snd (snd (snd v))))) v) (\<lambda>_. True)"
  unfolding close_match_def
  apply (rule triple_thn_step [OF hosts_cancel_starting])
  apply (rule triple_thn)
   apply (rule triple_stateT [where Q = "\<lambda>s. hosts s = set_table (without_match m (fst (snd (snd (snd v))))) v"])
   apply (simp add: hosts_matches_remove)
   apply (auto simp: hosts_def) [1]
  apply (rule triple_keepsT)
  apply (intro keeps_intros hosts_keeps)
  done

lemma hosts_set_host: "hosts (snd (upd_match m (\<lambda>x. x\<lparr>m_host_id := p_id (s_player s q)\<rparr>) s)) = set_host m q (hosts s)"
  by (auto simp: upd_match_def modify_def hosts_def links_def set_host_def)

lemma hand_over_hosts:
  "triple (\<lambda>s. hosts s = v) (hand_over m)
     (\<lambda>_ s. hosts s = (case first_seated (fst (snd (snd (snd (snd v)))) m) of None \<Rightarrow> v | Some q \<Rightarrow> set_host m q v))
     (\<lambda>_. True)"
proof -
  have k: "triple (\<lambda>s. hosts s = v') (bnd (match_host m) (\<lambda>h. emit match_transfer_host (p_enqueue h)))
      (\<lambda>_ s. hosts s = v') (\<lambda>_. True)" for v'
    by (rule triple_keepsT) (intro keeps_intros hosts_keeps)
  show ?thesis
    unfolding triple_def
  proof (intro allI impI)
    fix s assume s: "hosts s = v"
    let ?f = "find (\<lambda>x. sl_player x \<noteq> None) (m_slots (s_match s m))"
    have fs: "first_seated (fst (snd (snd (snd (snd v)))) m) = (case ?f of None \<Rightarrow> None | Some x \<Rightarrow> sl_player x)"
      using s by (auto simp only: hosts_def links_def first_seated_slots fst_conv snd_conv)
    show "case hand_over m s of (Inr _, s') \<Rightarrow> hosts s' = (case first_seated (fst (snd (snd (snd (snd v)))) m) of None \<Rightarrow> v
        | Some q \<Rightarrow> set_host m q v) | (Inl _, s') \<Rightarrow> True"
    proof (cases "case ?f of None \<Rightarrow> None | Some x \<Rightarrow> sl_player x")
      case None
      then show ?thesis using s fs
        by (auto simp: hand_over_def game_def skip_def retn_def split: option.splits)
    next
      case (Some q)
      let ?s = "snd (upd_match m (\<lambda>x. x\<lparr>m_host_id := p_id (s_player s q)\<rparr>) s)"
      have "hand_over m s = bnd (match_host m) (\<lambda>h. emit match_transfer_host (p_enqueue h)) ?s"
        using Some by (auto simp: hand_over_def game_def player_def upd_match_def modify_def thn_def bnd_def gets_def
            split: option.splits)
      moreover have "hosts ?s = set_host m q v" using s by (simp add: hosts_set_host)
      ultimately show ?thesis using k [of "set_host m q v"] Some fs
        by (simp add: triple_def case_prod_unfold split: sum.splits)
    qed
  qed
qed

definition after_leave :: "nat \<Rightarrow> nat \<Rightarrow> hosts_view \<Rightarrow> hosts_view" where
  "after_leave m r v =
     (case first_seated (fst (snd (snd (snd (snd v)))) m) of
        None \<Rightarrow> set_table (without_match m (fst (snd (snd (snd v))))) v
      | Some q \<Rightarrow> if fst (snd v) (fst v m) = Some r then set_host m q v else v)"

lemma leave_rest_hosts:
  "triple (\<lambda>s. hosts s = v)
     (bnd (game m m_slots) (\<lambda>slots. if list_all slot_empty slots then close_match m
        else bnd (match_host m) (\<lambda>h. thn (if r = h then hand_over m else skip)
          (thn (drop_referee r m) (enqueue_state m True)))))
     (\<lambda>_ s. hosts s = after_leave m r v) (\<lambda>_. True)"
proof -
  let ?tail = "thn (drop_referee r m) (enqueue_state m True)"
  let ?ps = "fst (snd (snd (snd (snd v)))) m"
  have t: "triple (\<lambda>s. hosts s = v') ?tail (\<lambda>_ s. hosts s = v') (\<lambda>_. True)" for v'
    by (rule triple_keepsT) (intro keeps_intros hosts_keeps)
  have a: "triple (\<lambda>s. hosts s = v) (thn (hand_over m) ?tail)
      (\<lambda>_ s. hosts s = (case first_seated ?ps of None \<Rightarrow> v | Some q \<Rightarrow> set_host m q v)) (\<lambda>_. True)"
    by (rule triple_thn [OF hand_over_hosts t])
  show ?thesis
    unfolding triple_def
  proof (intro allI impI)
    fix s assume s: "hosts s = v"
    let ?e = "list_all slot_empty (m_slots (s_match s m))"
    have ps: "?ps = map sl_player (m_slots (s_match s m))" using s by (auto simp: hosts_def links_def)
    have e: "?e \<longleftrightarrow> first_seated ?ps = None"
      unfolding ps first_seated_None by (auto simp: list_all_iff slot_empty_def)
    have h: "s_by_id s (m_host_id (s_match s m)) = fst (snd v) (fst v m)" using s by (auto simp: hosts_def)
    show "case bnd (game m m_slots) (\<lambda>slots. if list_all slot_empty slots then close_match m
        else bnd (match_host m) (\<lambda>h. thn (if r = h then hand_over m else skip) ?tail)) s of
        (Inr _, s') \<Rightarrow> hosts s' = after_leave m r v | (Inl _, s') \<Rightarrow> True"
    proof (cases ?e)
      case True
      then show ?thesis using s e close_match_hosts [of v m]
        by (simp add: game_def triple_def after_leave_def case_prod_unfold split: sum.splits)
    next
      case False
      show ?thesis
      proof (cases "s_by_id s (m_host_id (s_match s m))")
        case (Some h')
        then show ?thesis using False s e h a t [of v]
          by (cases "r = h'")
             (auto simp: game_def triple_def after_leave_def match_host_bnd case_prod_unfold split: sum.splits)
      qed (use False in \<open>simp add: game_def match_host_bnd\<close>)
    qed
  qed
qed

lemma hosts_free_slot:
  "fst (snd (snd (snd (snd (hosts (snd (free_slot m i s))))))) m = (map sl_player (m_slots (s_match s m)))[i := None]"
  using links_free_slot [of m i s] by (simp add: hosts_def) (simp add: links_def)

lemma free_slot_hosts:
  "hosts (snd (free_slot m i s)) = (let v = hosts s; l = snd (snd (snd (snd v))) in
     (fst v, fst (snd v), fst (snd (snd v)), fst (snd (snd (snd v))), (fst l)(m := (fst l m)[i := None]), snd l))"
proof -
  have "links (snd (free_slot m i s)) = ((fst (links s))(m := (fst (links s) m)[i := None]), snd (links s))"
    by (auto simp: free_slot_state links_def slot_reset_def map_update fun_eq_iff)
  moreover have "s_by_id (snd (free_slot m i s)) = s_by_id s" "s_player (snd (free_slot m i s)) = s_player s"
    "s_matches (snd (free_slot m i s)) = s_matches s"
    "(\<lambda>k. m_host_id (s_match (snd (free_slot m i s)) k)) = (\<lambda>k. m_host_id (s_match s k))"
    by (auto simp: free_slot_def upd_slot_def upd_match_def modify_def)
  ultimately show ?thesis by (simp add: hosts_def Let_def)
qed

text \<open>The state of the hosts, the table and the seats after a player left slot \<open>i\<close>.\<close>

definition vacated :: "nat \<Rightarrow> nat \<Rightarrow> hosts_view \<Rightarrow> hosts_view" where
  "vacated m i v = (let l = snd (snd (snd (snd v))) in
     (fst v, fst (snd v), fst (snd (snd v)), fst (snd (snd (snd v))), (fst l)(m := (fst l m)[i := None]), snd l))"

definition forget_match :: "nat \<Rightarrow> hosts_view \<Rightarrow> hosts_view" where
  "forget_match r v = (let l = snd (snd (snd (snd v))) in
     (fst v, fst (snd v), fst (snd (snd v)), fst (snd (snd (snd v))), fst l, (fst (snd l))(r := None), snd (snd l)))"

lemma hosts_forget: "hosts (snd (upd_player r (\<lambda>p. p\<lparr>p_match := None\<rparr>) s)) = forget_match r (hosts s)"
  by (auto simp: upd_player_def modify_def hosts_def links_def forget_match_def Let_def fun_eq_iff)

lemma leave_match_hosts:
  assumes m: "p_match (s_player s r) = Some m" and l: "leave_match r s = (Inr (), s')"
  shows "\<exists>i. slot_index r (s_match s m) = Some i \<and>
    hosts s' = forget_match r (after_leave m r (vacated m i (hosts s)))"
proof -
  obtain i where i: "slot_index r (s_match s m) = Some i"
    using m l by (cases "slot_index r (s_match s m)")
      (simp_all add: leave_match_def player_def get_slot_id_def game_def)
  let ?v = "vacated m i (hosts s)"
  let ?rest = "thn (bnd (game m m_chat) (\<lambda>c. leave_channel r c True))
      (thn (bnd (game m m_slots) (\<lambda>slots. if list_all slot_empty slots then close_match m
        else bnd (match_host m) (\<lambda>h. thn (if r = h then hand_over m else skip)
          (thn (drop_referee r m) (enqueue_state m True)))))
        (upd_player r (\<lambda>p. p\<lparr>p_match := None\<rparr>)))"
  have f: "free_slot m i s = (Inr (), snd (free_slot m i s))"
    by (simp add: free_slot_def upd_slot_def upd_match_def modify_def)
  have "hosts (snd (free_slot m i s)) = ?v" by (simp add: free_slot_hosts vacated_def Let_def)
  moreover have "leave_match r s = thn (free_slot m i) ?rest s"
    using m i by (simp add: leave_match_def player_def get_slot_id_def game_def)
  then have "?rest (snd (free_slot m i s)) = (Inr (), s')" using l thn_ok [where m = "free_slot m i" and s = s, OF f] by metis
  moreover have "triple (\<lambda>s. hosts s = ?v) ?rest (\<lambda>_ s. hosts s = forget_match r (after_leave m r ?v)) (\<lambda>_. True)"
    apply (rule triple_thn_step)
     apply (intro keeps_intros hosts_keeps)
    apply (rule triple_thn [OF leave_rest_hosts])
    apply (rule triple_stateT)
    apply (simp add: hosts_forget)
    done
  ultimately have "hosts s' = forget_match r (after_leave m r ?v)" by (blast dest: tripleD)
  then show ?thesis using i by blast
qed

end
