(* ===== verification/Codec.thy ===== *)
theory Codec
  imports ServerPackets
begin

text \<open>
  The properties of the wire protocol (\<^verbatim>\<open>app/packets.py\<close>): what is written is what is
  read, the reader stops where the value ends, and a stream of packets is split where its
  writers meant it to be. They rest on the interpretations of the locale \<open>wire_format\<close> in
  \<open>Wire\<close> and \<open>Packets\<close>.
\<close>

section \<open>Evaluation\<close>

lemma nat_le_numerals:
  "nat_le 1 v = [of_nat (v mod 256)]"
  "nat_le 2 v = [of_nat (v mod 256), of_nat (v div 256 mod 256)]"
  "nat_le 4 v = [of_nat (v mod 256), of_nat (v div 256 mod 256), of_nat (v div 65536 mod 256),
     of_nat (v div 16777216 mod 256)]"
proof -
  have n: "(1 :: nat) = Suc 0" "(2 :: nat) = Suc (Suc 0)" "(4 :: nat) = Suc (Suc (Suc (Suc 0)))" by simp_all
  show "nat_le 1 v = [of_nat (v mod 256)]" by (subst n(1)) (simp only: nat_le.simps)
  show "nat_le 2 v = [of_nat (v mod 256), of_nat (v div 256 mod 256)]" by (subst n(2)) (simp only: nat_le.simps)
  have d: "v div 256 div 256 = v div 65536" "v div 65536 div 256 = v div 16777216"
    by (simp_all add: div_mult2_eq [symmetric])
  show "nat_le 4 v = [of_nat (v mod 256), of_nat (v div 256 mod 256), of_nat (v div 65536 mod 256),
       of_nat (v div 16777216 mod 256)]"
    by (subst n(3)) (simp only: nat_le.simps d)
qed

lemma uleb_short:
  assumes "n < 128"
  shows "write_uleb128 n = [byte_of n]"
proof (cases "n = 0")
  case False
  then show ?thesis
    using assms by (simp add: write_uleb128_def nat_and_127 drop_bit_eq_div Let_def uleb_bytes.simps [of n]
        uleb_bytes.simps [of 0])
qed (simp add: write_uleb128_def byte_of_def)

lemmas wire_eval = nat_le_numerals uleb_short py_def valid_str_def write_string_def utf8_char_def byte_of_def
  write_i32_list_def write_packet_def concatE.simps(2) enc_signed_def enc_unsigned_def int_bytes_def
  fits_signed_def fits_unsigned_def

section \<open>Strings and messages\<close>

text \<open>C36. Every string without surrogates has an encoding, and the reader returns that
  string and leaves exactly the bytes that follow it.\<close>

theorem string_round_trip:
  assumes "valid_str s"
  shows "\<exists>bs. write_string s = Inr bs \<and> (\<forall>rest. read_string (bs @ rest) = Inr (s, rest))"
  using string_format.enc_defined [OF assms] string_format.dec_enc [OF assms] by blast

lemma string_round_trip_witness:
  "write_string (py ''hi'') = Inr [0x0B, 2, 104, 105] \<and> read_string [0x0B, 2, 104, 105, 7] = Inr (py ''hi'', [7])"
proof -
  have w: "write_string (py ''hi'') = Inr [0x0B, 2, 104, 105]" by (simp add: wire_eval)
  have "valid_str (py ''hi'')" by (simp add: wire_eval)
  from string_round_trip [OF this] w have "\<forall>rest. read_string ([0x0B, 2, 104, 105] @ rest) = Inr (py ''hi'', rest)"
    by auto
  from this [rule_format, of "[7]"] w show ?thesis by simp
qed

text \<open>A chat message whose strings are valid and whose sender id is a 32-bit integer
  survives the wire, and so does any sequence of messages written one after the other.\<close>

theorem messages_round_trip:
  assumes "list_all valid_message ms"
  shows "\<exists>bss. mapE (\<lambda>m. write_message (msg_sender m) (msg_text m) (msg_recipient m) (msg_sender_id m)) ms = Inr bss \<and>
    (\<forall>rest. read_n (length ms) read_message (concat bss @ rest) = Inr (ms, rest))"
  using message_format.enc_list_defined [OF assms] message_format.read_n_enc_list [OF assms] by blast

lemma messages_round_trip_witness:
  "\<exists>bss. mapE (\<lambda>m. write_message (msg_sender m) (msg_text m) (msg_recipient m) (msg_sender_id m))
      [\<lparr>msg_sender = py ''a'', msg_text = py ''hello'', msg_recipient = py ''#osu'', msg_sender_id = 3\<rparr>] = Inr bss \<and>
    (\<forall>rest. read_n 1 read_message (concat bss @ rest) =
      Inr ([\<lparr>msg_sender = py ''a'', msg_text = py ''hello'', msg_recipient = py ''#osu'', msg_sender_id = 3\<rparr>], rest))"
proof -
  let ?m = "\<lparr>msg_sender = py ''a'', msg_text = py ''hello'', msg_recipient = py ''#osu'', msg_sender_id = 3\<rparr>"
  have "list_all valid_message [?m]" by (simp add: valid_message_def wire_eval)
  from messages_round_trip [OF this] show ?thesis by simp
qed

section \<open>Lists of integers\<close>

text \<open>A list written by \<^verbatim>\<open>write_i32_list\<close> is read back modulo \<open>2 ^ 32\<close>: the writer
  packs signed integers and the reader unpacks unsigned ones. So a list comes back unchanged
  exactly when none of its members is negative.\<close>

theorem i32_list_round_trip:
  assumes w: "write_i32_list l = Inr bs"
  shows "\<exists>l'. read_i32_list_i16l (bs @ rest) = Inr (l', rest) \<and> l' = map (\<lambda>v. v mod 2 ^ 32) l \<and>
    (l' = l \<longleftrightarrow> (\<forall>v \<in> set l. 0 \<le> v))"
proof -
  have f: "fits_signed 4 v" if "v \<in> set l" for v
    using w that by (auto simp: write_i32_list_def concatE_iffs mapE_enc_signed list_all_iff)
  have "v mod 2 ^ 32 = v \<longleftrightarrow> 0 \<le> v" if "v \<in> set l" for v :: int
  proof
    assume "0 \<le> v"
    moreover have "v < 2 ^ 32" using f [OF that] by (simp add: fits_signed_def)
    ultimately show "v mod 2 ^ 32 = v" by simp
  next
    assume "v mod 2 ^ 32 = v"
    then show "0 \<le> v" by (metis pos_mod_sign zero_less_numeral zero_less_power)
  qed
  then have "map (\<lambda>v. v mod 2 ^ 32) l = l \<longleftrightarrow> (\<forall>v \<in> set l. 0 \<le> v)"
    by (induction l) auto
  then show ?thesis using read_write_i32_list [OF w] by simp
qed

lemma i32_list_round_trip_witness:
  "\<exists>bs. write_i32_list [5, -1] = Inr bs \<and> read_i32_list_i16l bs = Inr ([5, 4294967295], [])"
proof -
  have w: "write_i32_list [5, -1] = Inr [2, 0, 5, 0, 0, 0, 255, 255, 255, 255]" by (simp add: wire_eval)
  from i32_list_round_trip [OF w, of "[]"] w show ?thesis by simp
qed

section \<open>Score frames\<close>

definition demo_frame :: score_frame where
  "demo_frame = \<lparr>sf_time = 12000, sf_id = 2, num300 = 100, num100 = 10, num50 = 1, num_geki = 20,
     num_katu = 3, num_miss = 2, total_score = 1000000, max_combo = 90, current_combo = 40,
     sf_perfect = False, current_hp = 150, tag_byte = 0, score_v2 = False, combo_portion = None,
     bonus_portion = None\<rparr>"

lemma demo_frame_valid: "valid_scoreframe demo_frame" "\<not> score_v2 demo_frame"
  by (simp_all add: demo_frame_def valid_scoreframe_def fits_signed_def fits_unsigned_def)

text \<open>The live score frame of a player, as the match score packet carries it, is read
  back field by field, when it has no ScoreV2 portions (which the writer never writes).\<close>

theorem scoreframe_round_trip:
  assumes "valid_scoreframe s" "\<not> score_v2 s"
  shows "\<exists>bs. write_scoreframe s = Inr bs \<and> length bs = 29 \<and>
    (\<forall>rest. read_scoreframe (bs @ rest) = Inr (s, rest)) \<and> decode_scoreframe bs = Some s"
proof -
  obtain bs where w: "write_scoreframe s = Inr bs" and l: "length bs = 29"
    using write_scoreframe_valid [OF assms(1)] by simp
  have "decode_scoreframe bs = Some s"
    unfolding decode_scoreframe_reader using read_write_scoreframe [OF assms w, of "[]"] by simp
  then show ?thesis using w l read_write_scoreframe [OF assms w] by blast
qed

lemma scoreframe_round_trip_witness:
  "\<exists>bs. write_scoreframe demo_frame = Inr bs \<and> decode_scoreframe bs = Some demo_frame"
proof -
  from scoreframe_round_trip [OF demo_frame_valid] show ?thesis by blast
qed

lemma demo_decodes: "\<exists>raw. decode_scoreframe raw = Some demo_frame"
proof -
  obtain bs where "write_scoreframe demo_frame = Inr bs"
    using write_scoreframe_valid [OF demo_frame_valid(1)] by blast
  from read_write_scoreframe [OF demo_frame_valid this, of "[]"]
  have "decode_scoreframe bs = Some demo_frame" unfolding decode_scoreframe_reader by simp
  then show ?thesis ..
qed

text \<open>The decoder the match history uses on stored frames is total and agrees with the
  reader the server uses on live ones: the same frame when that reader succeeds, \<^verbatim>\<open>None\<close>
  whenever it raises.\<close>

theorem decode_scoreframe_agrees:
  "decode_scoreframe raw = (case read_scoreframe raw of Inl _ \<Rightarrow> None | Inr (sf, _) \<Rightarrow> Some sf)"
  by (rule decode_scoreframe_reader)

text \<open>C40. The accuracy of any frame that was decoded from bytes is a number between 0 and 100
  in each of the four modes, computed with the rounding of doubles; any other mode is an
  error.\<close>

theorem decoded_accuracy_bounds:
  assumes "decode_scoreframe raw = Some sf"
  shows "(0 \<le> mode_vn \<and> mode_vn < 4 \<longrightarrow> (\<exists>a. scoreframe_accuracy sf mode_vn = Inr a \<and> 0 \<le> a \<and> a \<le> 100)) \<and>
    (\<not> (0 \<le> mode_vn \<and> mode_vn < 4) \<longrightarrow> scoreframe_accuracy sf mode_vn = Inl ValueError)"
  using scoreframe_accuracy_bounds [OF decode_scoreframe_counts [OF assms]]
  by (auto simp: scoreframe_accuracy_def)

lemma decoded_accuracy_bounds_witness:
  "\<exists>raw a. decode_scoreframe raw = Some demo_frame \<and> scoreframe_accuracy demo_frame 3 = Inr a \<and> 0 \<le> a \<and> a \<le> 100"
  using demo_decodes decoded_accuracy_bounds [where sf = demo_frame and mode_vn = 3] by auto

section \<open>Matches\<close>

text \<open>C37. A match that fits the wire is written, and its reader recovers every field; without
  \<^verbatim>\<open>send_pw\<close> the password is the only field lost.\<close>

theorem match_round_trip:
  assumes "ok_match m host"
  shows "\<exists>bs. write_match m send_pw = Inr bs \<and>
    (\<forall>rest. read_match (bs @ rest) = Inr (match_as_read m host send_pw, rest))"
proof -
  obtain bs where w: "write_match m send_pw = Inr bs"
    by (rule write_match_defined [OF assms, of send_pw])
  show ?thesis using w read_write_match [OF assms w] by simp
qed

definition demo_match :: match_info where
  "demo_match = \<lparr>mi_id = 4, mi_in_progress = False, mi_mods = 8, mi_name = py ''room'', mi_passwd = py ''pw'',
     mi_map_name = py ''song'', mi_map_id = 75, mi_map_md5 = py ''abc'',
     mi_slots = \<lparr>si_player = Some 3, si_status = 4, si_team = 0, si_mods = 0\<rparr> #
       replicate 15 \<lparr>si_player = None, si_status = 1, si_team = 0, si_mods = 0\<rparr>,
     mi_host = Inr 3, mi_mode = 0, mi_win_condition = 0, mi_team_type = 0, mi_freemods = False, mi_seed = 0\<rparr>"

lemma match_round_trip_witness:
  "\<exists>bs. write_match demo_match False = Inr bs \<and> read_match bs = Inr (match_as_read demo_match 3 False, [])"
proof -
  have str: "valid_str (mi_name demo_match)" "valid_str (mi_passwd demo_match)" "valid_str (mi_map_name demo_match)"
    "valid_str (mi_map_md5 demo_match)"
    by (simp_all add: demo_match_def valid_str_def py_def)
  have slots: "length (mi_slots demo_match) = 16" "\<forall>s \<in> set (mi_slots demo_match). fits_unsigned 1 (si_status s) \<and>
      fits_unsigned 1 (si_team s) \<and> 0 \<le> si_mods s \<and> si_mods s < 2 ^ 31 \<and>
      (has_player_bits (si_status s) \<longrightarrow> (\<exists>i. si_player s = Some i \<and> 0 \<le> i \<and> i < 2 ^ 31))"
    by (simp_all add: demo_match_def fits_unsigned_def has_player_bits_def)
  have "ok_match demo_match 3"
    unfolding ok_match_def using str slots by (simp_all add: demo_match_def fits_signed_def)
  from match_round_trip [OF this, of False] show ?thesis by (metis append_Nil2)
qed

section \<open>Streams of packets\<close>

lemma read_header_written:
  assumes "write_packet (client_packet_id p) args = Inr bs"
  shows "\<exists>body. concatE (map write_arg args) = Inr body \<and> bs \<noteq> [] \<and>
    read_header (bs @ rest) = Inr ((p, length body), body @ rest)"
proof -
  obtain body where b: "concatE (map write_arg args) = Inr body" "length body < 2 ^ 32"
    "fits_unsigned 2 (client_packet_id p)"
    "bs = int_bytes 2 (client_packet_id p) @ [0] @ int_bytes 4 (int (length body)) @ body"
    using write_packet_shape [OF assms] by blast
  show ?thesis
    using b(1,4) unpack_header_written [OF b(3,2), of rest]
    by (auto simp: read_header_def client_packet_of_id)
qed

lemma next_packet_skip:
  assumes "write_packet (client_packet_id p) args = Inr bs" "\<not> handled p"
  shows "next_packet handled (bs @ rest) = next_packet handled rest"
proof -
  obtain body where "bs \<noteq> []" "read_header (bs @ rest) = Inr ((p, length body), body @ rest)"
    using read_header_written [OF assms(1)] by blast
  then show ?thesis using assms(2) by (subst next_packet_cons) simp_all
qed

lemma next_packet_hit:
  assumes "write_packet (client_packet_id p) args = Inr bs" "handled p"
  shows "\<exists>body. concatE (map write_arg args) = Inr body \<and> bs \<noteq> [] \<and>
    next_packet handled (bs @ rest) = Inr (Some (p, length body, body @ rest))"
proof -
  obtain body where "concatE (map write_arg args) = Inr body" "bs \<noteq> []"
    "read_header (bs @ rest) = Inr ((p, length body), body @ rest)"
    using read_header_written [OF assms(1)] by blast
  then show ?thesis using assms(2) by (subst next_packet_cons) auto
qed

text \<open>In a stream of written packets the reader skips every packet the server does not
  handle, whatever its body, and stops at the first one it does, with that packet's id, the
  length of its body and the buffer at its first byte.\<close>

theorem stream_first_handled:
  assumes skipped: "list_all2 (\<lambda>(q, args) bs. \<not> handled q \<and> write_packet (client_packet_id q) args = Inr bs) qs bss"
    and hit: "write_packet (client_packet_id p) args = Inr bs" "handled p"
  shows "\<exists>body. concatE (map write_arg args) = Inr body \<and>
    next_packet handled (concat bss @ bs @ rest) = Inr (Some (p, length body, body @ rest))"
  using skipped
proof (induction rule: list_all2_induct)
  case Nil
  then show ?case using next_packet_hit [of p args bs handled rest] hit by auto
next
  case (Cons q qs b bss)
  then show ?case using next_packet_skip [of "fst q" "snd q" b handled "concat bss @ bs @ rest"]
    by (auto simp: case_prod_unfold)
qed

lemma stream_first_handled_witness:
  "\<exists>body. next_packet (\<lambda>p. p = CP_PING) ([1, 0, 0, 2, 0, 0, 0, 9, 9] @ [4, 0, 0, 0, 0, 0, 0] @ [5]) =
     Inr (Some (CP_PING, length body, body @ [5])) \<and> body = []"
proof -
  have a: "write_packet (client_packet_id CP_SEND_PUBLIC_MESSAGE) [A_raw [9, 9]] = Inr [1, 0, 0, 2, 0, 0, 0, 9, 9]"
    by (simp add: wire_eval)
  have b: "write_packet (client_packet_id CP_PING) [] = Inr [4, 0, 0, 0, 0, 0, 0]" by (simp add: wire_eval)
  have "list_all2 (\<lambda>(q, args) bs. \<not> q = CP_PING \<and> write_packet (client_packet_id q) args = Inr bs)
      [(CP_SEND_PUBLIC_MESSAGE, [A_raw [9, 9]])] [[1, 0, 0, 2, 0, 0, 0, 9, 9]]"
    using a by simp
  from stream_first_handled [of "\<lambda>p. p = CP_PING", OF this b, of "[5]"] show ?thesis by auto
qed

end
