(* ===== verification/Requests.thy ===== *)
theory Requests
  imports Outcomes Codec
begin

text \<open>
  The loop of a request (\<^verbatim>\<open>bancho_handler\<close> over \<^verbatim>\<open>BanchoPacketReader\<close>): it
  ends on every body, whatever the bytes, and it handles the packets of a well-formed body
  in their order.
\<close>

section \<open>Readers consume their input\<close>

definition shrinks :: "'a reader \<Rightarrow> bool" where
  "shrinks m \<longleftrightarrow> (\<forall>bs x rest. m bs = Inr (x, rest) \<longrightarrow> length rest \<le> length bs)"

named_theorems shrink_intros \<open>readers that consume their input\<close>

lemma shrinksD: "shrinks m \<Longrightarrow> m bs = Inr (x, rest) \<Longrightarrow> length rest \<le> length bs"
  by (auto simp: shrinks_def)

lemma shrinks_rbind [shrink_intros]:
  assumes "shrinks m" "\<And>x. shrinks (k x)"
  shows "shrinks (rbind m k)"
  unfolding shrinks_def
proof (intro allI impI)
  fix bs x rest assume "rbind m k bs = Inr (x, rest)"
  then obtain y r where "m bs = Inr (y, r)" "k y r = Inr (x, rest)" by (auto simp: rbind_Inr_iff)
  then show "length rest \<le> length bs"
    using shrinksD [OF assms(1)] shrinksD [OF assms(2)] by (meson order_trans)
qed

lemma shrinks_rret [shrink_intros]: "shrinks (rret x)"
  by (simp add: shrinks_def rret_def)

lemma shrinks_rmap [shrink_intros]: "shrinks m \<Longrightarrow> shrinks (rmap f m)"
  unfolding rmap_def by (intro shrink_intros)

lemma shrinks_if [shrink_intros]: "shrinks m \<Longrightarrow> shrinks k \<Longrightarrow> shrinks (if b then m else k)"
  by simp

lemma shrinks_prod [shrink_intros]: "(\<And>a b. shrinks (k a b)) \<Longrightarrow> shrinks (case p of (a, b) \<Rightarrow> k a b)"
  by (cases p) simp

lemma shrinks_let [shrink_intros]: "(\<And>x. shrinks (k x)) \<Longrightarrow> shrinks (let x = v in k x)"
  by simp

lemma shrinks_fail [shrink_intros]: "shrinks (\<lambda>_. Inl e)"
  by (simp add: shrinks_def)

lemma shrinks_read_n [shrink_intros]: "shrinks m \<Longrightarrow> shrinks (read_n n m)"
  by (induction n) (simp_all add: shrink_intros)

lemma shrinks_ints [shrink_intros]:
  "shrinks read_i8" "shrinks read_u8" "shrinks read_i16" "shrinks read_u16" "shrinks read_i32"
  "shrinks read_u32" "shrinks read_f32" "shrinks read_f64" "shrinks (read_raw n)"
  by (auto simp: shrinks_def read_i8_def read_u8_def read_i16_def read_u16_def read_i32_def read_u32_def
      read_f32_def read_f64_def read_float_def read_raw_def split: list.splits if_split_asm)

lemma read_uleb_shrinks: "read_uleb len shift bs = Inr (n, rest) \<Longrightarrow> length rest \<le> length bs"
proof (induction len shift bs arbitrary: n rest rule: read_uleb.induct)
  case (2 len shift b bs)
  then show ?case
    by (fastforce simp: Let_def split: if_split_asm)
qed simp

lemma shrinks_read_string [shrink_intros]: "shrinks read_string"
  unfolding shrinks_def read_string_def
  by (auto simp: bindE_Inr_iff split: list.splits if_split_asm dest!: read_uleb_shrinks)

lemma shrinks_read_unpack [shrink_intros]: "shrinks (unpack_u32s n)"
  using shrinksD [OF shrinks_read_n [OF shrinks_ints(6)]]
  unfolding shrinks_def unpack_u32s_def by (auto split: if_split_asm)

lemma shrinks_composite [shrink_intros]:
  "shrinks read_message" "shrinks read_i32_list_i16l" "shrinks read_bool" "shrinks read_change_action"
  unfolding read_message_def read_i32_list_i16l_def read_bool_def read_change_action_def
  by (intro shrink_intros)+

lemma shrinks_read_match [shrink_intros]: "shrinks read_match"
  unfolding read_match_def by (intro shrink_intros)

lemma shrinks_guard: "shrinks m \<Longrightarrow> shrinks (\<lambda>bs. if c bs then Inl e else m bs)"
  by (auto simp: shrinks_def)

lemma shrinks_pointwise: "(\<And>v. shrinks (m v)) \<Longrightarrow> shrinks (\<lambda>v. m v v)"
  by (auto simp: shrinks_def)

lemma shrinks_read_scoreframe [shrink_intros]: "shrinks read_scoreframe"
proof -
  have "shrinks unpack_scoreframe"
    unfolding unpack_scoreframe_def [abs_def] by (intro shrinks_guard shrink_intros)
  then show ?thesis unfolding read_scoreframe_def by (intro shrink_intros)
qed

lemma shrinks_replay_action [shrink_intros]: "shrinks (\<lambda>bs. bindE r (\<lambda>act. Inr (act, bs)))"
  by (auto simp: shrinks_def bindE_Inr_iff)

lemma shrinks_read_replayframe_bundle [shrink_intros]: "shrinks (read_replayframe_bundle n)"
  unfolding read_replayframe_bundle_def read_replayframe_def
  by (rule shrinks_pointwise) (intro shrink_intros)

lemma shrinks_parse_client: "shrinks (parse_client p n)"
  by (cases p) (simp_all only: parse_client.simps, (intro shrink_intros)+)

lemma next_packet_shrinks:
  "next_packet h view = Inr (Some (p, len, rest)) \<Longrightarrow> length rest < length view"
proof (induction h view rule: next_packet.induct)
  case (1 h view)
  then have "view \<noteq> []" by (auto simp: next_packet.simps)
  with 1(2) obtain q n r where h: "read_header view = Inr ((q, n), r)"
    by (auto simp: next_packet_cons split: sum.splits)
  then have l: "length r < length view"
    by (auto simp: read_header_def unpack_header_def bindE_Inr_iff split: if_splits)
  show ?case
  proof (cases "h q")
    case True
    then show ?thesis using 1(2) h l \<open>view \<noteq> []\<close> by (simp add: next_packet_cons)
  next
    case False
    then have "next_packet h (if n \<noteq> 0 then drop n r else r) = Inr (Some (p, len, rest))"
      using 1(2) h \<open>view \<noteq> []\<close> by (subst (asm) next_packet.simps) simp
    from 1(1) [OF \<open>view \<noteq> []\<close> h refl refl False this] l show ?thesis by (auto split: if_splits)
  qed
qed

section \<open>The loop ends\<close>

lemma process_unfold:
  "process x h n view r =
     (case next_packet h view of
        Inl e \<Rightarrow> raise e
      | Inr None \<Rightarrow> skip
      | Inr (Some (p, len, rest)) \<Rightarrow>
          (case parse_client p len rest of
             Inl e \<Rightarrow> raise e
           | Inr (msg, view') \<Rightarrow>
               (case n of 0 \<Rightarrow> raise Hang
                | Suc k \<Rightarrow> thn (handle x msg r) (process x h k view' r))))"
  by (subst process.simps) (rule refl)

lemma process_fuel: "length view \<le> n \<Longrightarrow> process x h n view r = process x h (length view) view r"
proof (induction "length view" arbitrary: view n rule: less_induct)
  case less
  show ?case
  proof (cases "\<exists>p len rest msg view'. next_packet h view = Inr (Some (p, len, rest)) \<and>
      parse_client p len rest = Inr (msg, view')")
    case False
    then show ?thesis
      by (subst (1 2) process_unfold) (auto split: sum.split option.split)
  next
    case True
    then obtain p len rest msg view' where n: "next_packet h view = Inr (Some (p, len, rest))"
      and m: "parse_client p len rest = Inr (msg, view')" by blast
    have l: "length view' < length view"
      using next_packet_shrinks [OF n] shrinksD [OF shrinks_parse_client m] by simp
    then obtain k j where k: "length view = Suc k" "n = Suc j" "length view' \<le> k" "length view' \<le> j"
      using less.prems by (cases "length view"; cases n) auto
    then have "process x h k view' r = process x h j view' r"
      using less.hyps [OF l k(3)] less.hyps [OF l k(4)] by simp
    then show ?thesis
      by (subst (1 2) process_unfold) (simp add: n m k(1,2))
  qed
qed

lemma process_loop:
  "process x h (length view) view r =
     (case next_packet h view of
        Inl e \<Rightarrow> raise e
      | Inr None \<Rightarrow> skip
      | Inr (Some (p, len, rest)) \<Rightarrow>
          (case parse_client p len rest of
             Inl e \<Rightarrow> raise e
           | Inr (msg, view') \<Rightarrow> thn (handle x msg r) (process x h (length view') view' r)))"
proof (cases "\<exists>p len rest msg view'. next_packet h view = Inr (Some (p, len, rest)) \<and>
    parse_client p len rest = Inr (msg, view')")
  case False
  then show ?thesis by (subst process_unfold) (auto split: sum.split option.split)
next
  case True
  then obtain p len rest msg view' where n: "next_packet h view = Inr (Some (p, len, rest))"
    and m: "parse_client p len rest = Inr (msg, view')" by blast
  have l: "length view' < length view"
    using next_packet_shrinks [OF n] shrinksD [OF shrinks_parse_client m] by simp
  then obtain k where "length view = Suc k" "length view' \<le> k" by (cases "length view") auto
  then show ?thesis
    using process_fuel [of view' k x h r] by (subst process_unfold) (simp add: n m)
qed

text \<open>C32. The loop over the packets of a request ends on every body: with the length of the
  body as fuel it satisfies the recursion equation of the code's loop, in which running out of
  fuel does not occur. So a request hangs only if a handler does.\<close>

theorem request_loop_ends:
  "process x h (length view) view r =
     (case next_packet h view of
        Inl e \<Rightarrow> raise e
      | Inr None \<Rightarrow> skip
      | Inr (Some (p, len, rest)) \<Rightarrow>
          (case parse_client p len rest of
             Inl e \<Rightarrow> raise e
           | Inr (msg, view') \<Rightarrow> thn (handle x msg r) (process x h (length view') view' r)))"
  by (rule process_loop)

section \<open>Packets are handled in order\<close>

text \<open>\<open>carries p args msg\<close>: a packet written with \<open>args\<close> is parsed as \<open>msg\<close>, to its last byte.\<close>

definition carries :: "client_packet \<Rightarrow> packet_arg list \<Rightarrow> client_msg \<Rightarrow> bool" where
  "carries p args msg \<longleftrightarrow> (\<forall>body rest. concatE (map write_arg args) = Inr body \<longrightarrow>
     parse_client p (length body) (body @ rest) = Inr (msg, rest))"

lemma concatE_single: "concatE [r] = r"
  by (cases r) (simp_all add: concatE.simps)

lemma carries_ping: "carries CP_PING [] M_Ping"
  by (simp add: carries_def rret_def)

lemma carries_channel_join: "valid_str n \<Longrightarrow> carries CP_CHANNEL_JOIN [A_string n] (M_ChannelJoin n)"
  by (simp add: carries_def concatE_single rmap_def rbind_def read_write_string rret_def)

lemma carries_match_join:
  assumes "fits_signed 4 i" "valid_str pw"
  shows "carries CP_JOIN_MATCH [A_i32 i, A_string pw] (M_MatchJoin i pw)"
  unfolding carries_def
proof (intro allI impI)
  fix body rest assume "concatE (map write_arg [A_i32 i, A_string pw]) = Inr body"
  then obtain b where "write_string pw = Inr b" "body = int_bytes 4 i @ b"
    using assms(1) by (auto simp: concatE_iffs enc_signed_def)
  then show "parse_client CP_JOIN_MATCH (length body) (body @ rest) = Inr (M_MatchJoin i pw, rest)"
    using assms by (simp add: i32_bytes_bind rmap_def rbind_def [of read_string] read_write_string rret_def)
qed

lemma carries_message:
  assumes "valid_message m"
  shows "carries CP_SEND_PUBLIC_MESSAGE [A_message (msg_sender m) (msg_text m) (msg_recipient m) (msg_sender_id m)]
    (M_SendMessage m)"
  using read_write_message [OF assms]
  by (simp add: carries_def concatE_single rmap_def rbind_def rret_def)

lemma process_skips:
  assumes w: "write_packet (client_packet_id p) args = Inr bs" and h: "\<not> h p"
  shows "process x h (length (bs @ rest)) (bs @ rest) r = process x h (length rest) rest r"
  unfolding process_loop [of x h "bs @ rest"] process_loop [of x h rest] next_packet_skip [of p args bs h rest, OF w h] ..

lemma process_handles:
  assumes w: "write_packet (client_packet_id p) args = Inr bs" and h: "h p" and c: "carries p args msg"
  shows "process x h (length (bs @ rest)) (bs @ rest) r = thn (handle x msg r) (process x h (length rest) rest r)"
proof -
  obtain body where b: "concatE (map write_arg args) = Inr body"
    and n: "next_packet h (bs @ rest) = Inr (Some (p, length body, body @ rest))"
    using next_packet_hit [of p args bs h rest, OF w h] by blast
  have "parse_client p (length body) (body @ rest) = Inr (msg, rest)"
    using c b by (simp add: carries_def)
  then show ?thesis by (subst process_loop) (simp add: n)
qed

text \<open>C31. The packets of a request body are handled one after the other in their order, each
  on the state the previous one left, and those the player may not send are passed over: the
  loop is the sequence of the handlers of the packets the map accepts.\<close>

theorem requests_in_order:
  assumes "list_all2 (\<lambda>(p, args, msg) bs. write_packet (client_packet_id p) args = Inr bs \<and>
      (h p \<longrightarrow> carries p args msg)) ps bss"
  shows "process x h (length (concat bss)) (concat bss) r =
    foreach (map (\<lambda>(p, args, msg). msg) (filter (\<lambda>(p, args, msg). h p) ps)) (\<lambda>m. handle x m r)"
  using assms
proof (induction rule: list_all2_induct)
  case Nil
  show ?case by (subst process_loop) simp
next
  case (Cons q ps b bss)
  obtain p args msg where q: "q = (p, args, msg)" by (cases q)
  show ?case
  proof (cases "h p")
    case True
    then have "process x h (length (b @ concat bss)) (b @ concat bss) r =
        thn (handle x msg r) (process x h (length (concat bss)) (concat bss) r)"
      using Cons.hyps(1) q by (intro process_handles) auto
    then show ?thesis using Cons.IH True q by simp
  next
    case False
    then have "process x h (length (b @ concat bss)) (b @ concat bss) r =
        process x h (length (concat bss)) (concat bss) r"
      using Cons.hyps(1) q by (intro process_skips) auto
    then show ?thesis using Cons.IH False q by simp
  qed
qed

lemma requests_in_order_witness:
  "\<exists>bs1 bs2 bs3. write_packet (client_packet_id CP_PING) [] = Inr bs1 \<and>
     write_packet (client_packet_id CP_LOGOUT) [] = Inr bs2 \<and>
     write_packet (client_packet_id CP_CHANNEL_JOIN) [A_string (py ''#osu'')] = Inr bs3 \<and>
     (\<forall>x r. process x (\<lambda>p. p \<in> {CP_PING, CP_CHANNEL_JOIN}) (length (bs1 @ bs2 @ bs3)) (bs1 @ bs2 @ bs3) r =
       thn (handle x M_Ping r) (thn (handle x (M_ChannelJoin (py ''#osu'')) r) skip))"
proof -
  have v: "valid_str (py ''#osu'')" by (simp add: valid_str_def py_def)
  obtain b where b: "write_string (py ''#osu'') = Inr b" using write_string_valid [OF v] by blast
  have "length b < 2 ^ 32"
    using b by (simp add: wire_eval bindE_def) auto
  then obtain bs3 where 3: "write_packet (client_packet_id CP_CHANNEL_JOIN) [A_string (py ''#osu'')] = Inr bs3"
    using b by (simp add: write_packet_def concatE_single enc_unsigned_def fits_unsigned_def)
  obtain bs1 bs2 where 12: "write_packet (client_packet_id CP_PING) [] = Inr bs1"
    "write_packet (client_packet_id CP_LOGOUT) [] = Inr bs2"
    by (simp add: wire_eval)
  have "list_all2 (\<lambda>(p, args, msg) bs. write_packet (client_packet_id p) args = Inr bs \<and>
      (p \<in> {CP_PING, CP_CHANNEL_JOIN} \<longrightarrow> carries p args msg))
      [(CP_PING, [], M_Ping), (CP_LOGOUT, [], M_Logout), (CP_CHANNEL_JOIN, [A_string (py ''#osu'')], M_ChannelJoin (py ''#osu''))]
      [bs1, bs2, bs3]"
    using 12 3 carries_ping carries_channel_join [OF v] by simp
  from requests_in_order [where h = "\<lambda>p. p \<in> {CP_PING, CP_CHANNEL_JOIN}", OF this] 12 3 show ?thesis by simp
qed

end
