(* ===== verification/Demo.thy ===== *)
theory Demo
  imports Outcomes
begin

text \<open>
  A small concrete server, the input of the witnesses: the bot (player 0, id 1), two players
  (1, id 3, "a" and 2, id 4, "b"), one channel and one match hosted by id 3. Its parameters are
  the members of the channel and the players in the slots of the match.\<close>

definition demo_user :: "int \<Rightarrow> pystr \<Rightarrow> player" where
  "demo_user i n = sql_player \<lparr>su_id = i, su_name = n, su_priv = 3, su_clan_id = 0, su_country = [120, 120],
     su_country_code = 0, su_silence_end = 0, su_donor_end = 0, su_token = n\<rparr>"

definition demo_slots :: "nat option list \<Rightarrow> slot list" where
  "demo_slots ps = map (\<lambda>p. new_slot\<lparr>sl_player := p, sl_status := (if p = None then S_open else S_not_ready)\<rparr>) ps"

definition demo_data :: multiplayer_match where
  "demo_data = \<lparr>mm_id = 0, mm_in_progress = False, mm_powerplay = 0, mm_mods = 0, mm_name = [114], mm_passwd = [112],
    mm_map_name = [], mm_map_id = 7, mm_map_md5 = [], mm_slot_statuses = [], mm_slot_teams = [], mm_slot_ids = [],
    mm_host_id = 3, mm_mode = 0, mm_win_condition = 0, mm_team_type = 0, mm_freemods = False, mm_slot_mods = [], mm_seed = 0\<rparr>"

definition demo_game :: "nat option list \<Rightarrow> game_match" where
  "demo_game ps = (match_init 0 [114] [112] True demo_data 0 0 W_score TT_head_to_head 5)\<lparr>m_slots := demo_slots ps\<rparr>"

definition demo_player :: "int \<Rightarrow> pystr \<Rightarrow> nat \<Rightarrow> nat list \<Rightarrow> nat option list \<Rightarrow> player" where
  "demo_player i n r inside ps = (demo_user i n)
     \<lparr>p_match := (if Some r \<in> set ps then Some 6 else None), p_channels := (if r \<in> set inside then [5] else [])\<rparr>"

definition demo_server :: "nat list \<Rightarrow> nat option list \<Rightarrow> server" where
  "demo_server inside ps =
    \<lparr>s_player = (\<lambda>r. if r = 1 then demo_player 3 [97] 1 inside ps else if r = 2 then demo_player 4 [98] 2 inside ps
               else (demo_user 1 [99])\<lparr>p_is_bot := True\<rparr>),
     s_channel = (\<lambda>c. if c = 5 then (channel_init [109] [] 1 1 False True)\<lparr>ch_players := inside\<rparr> else channel_init [111] [] 1 1 True False),
     s_match = (\<lambda>m. if m = 6 then demo_game ps else demo_game (replicate 16 None)),
     s_next = 7, s_players = [0, 1, 2],
     s_by_token = (\<lambda>t. if t = [97] then Some 1 else if t = [98] then Some 2 else None),
     s_by_id = (\<lambda>i. if i = 1 then Some 0 else if i = 3 then Some 1 else if i = 4 then Some 2 else None),
     s_by_name = (\<lambda>t. if t = [97] then Some 1 else if t = [98] then Some 2 else None),
     s_channels = [5], s_matches = Some 6 # replicate 63 None, s_bot = 0, s_bot_choice = 0, s_now = 100,
     s_log = [], s_env = \<lparr>e_domain = [], e_prefix = [33], e_lower = id, e_order = id\<rparr>\<rparr>"

lemmas demo_eval = demo_server_def demo_player_def demo_user_def sql_player_def demo_game_def demo_slots_def demo_data_def
  match_init_def channel_init_def new_slot_def

definition two_seated :: "nat option list" where "two_seated = Some 1 # Some 2 # replicate 14 None"

definition one_seated :: "nat option list" where "one_seated = Some 1 # replicate 15 None"

lemma wfs_demo: "wfs (demo_server [1, 2] two_seated)" "wfs (demo_server [1] one_seated)"
  unfolding wfs_def two_seated_def one_seated_def
  by (auto simp: chan_inv_def spec_inv_def table_inv_def seat_inv_def seated_def demo_eval nth_Cons')

end
