(* ===== verification/Total.thy ===== *)
theory Total
  imports Requests Demo
begin

text \<open>
  Operations that cannot raise. \<open>sure P m\<close>: from a state in \<open>P\<close> the operation \<open>m\<close> returns, in
  \<open>P\<close> again. The condition \<open>net\<close> says that what the packets show fits them: short strings,
  32-bit ids, members that are online, a match whose fields fit the wire.
\<close>

section \<open>Packets that can be built\<close>

definition short_str :: "pystr \<Rightarrow> bool" where
  "short_str s \<longleftrightarrow> valid_str s \<and> length s < 2 ^ 20"

lemma length_utf8: "utf8_encode s = Inr bs \<Longrightarrow> length bs \<le> 4 * length s"
proof (induction s arbitrary: bs)
  case (Cons c cs)
  then obtain b r where b: "utf8_char c = Inr b" "utf8_encode cs = Inr r" "bs = b @ r"
    by (auto simp: bindE_Inr_iff)
  have "length b \<le> 4" using b(1) by (auto simp: utf8_char_def split: if_splits)
  then show ?case using b(3) Cons.IH [OF b(2)] by simp
qed simp

lemma length_uleb: "length (uleb_bytes n) \<le> Suc n"
proof (induction n rule: uleb_bytes.induct)
  case (1 n)
  show ?case
  proof (cases "n = 0")
    case True
    then show ?thesis by (subst uleb_bytes.simps) simp
  next
    case False
    then have "length (uleb_bytes (n div 128)) \<le> Suc (n div 128)" using 1 by (simp add: drop_bit_eq_div)
    moreover have "Suc (n div 128) \<le> n" using False by simp
    ultimately show ?thesis using False by (subst uleb_bytes.simps) (simp add: Let_def drop_bit_eq_div)
  qed
qed

lemma short_str_written:
  assumes "short_str s"
  obtains bs where "write_string s = Inr bs" "length bs < 2 ^ 24"
proof (cases "s = []")
  case True
  then show thesis using that [of "[0]"] by (simp add: write_string_def)
next
  case False
  obtain e where e: "utf8_encode s = Inr e" using assms utf8_encode_valid by (auto simp: short_str_def)
  have "length e < 2 ^ 22" using length_utf8 [OF e] assms by (simp add: short_str_def)
  moreover have "length (write_uleb128 (length e)) \<le> Suc (length e)"
    using length_uleb by (simp add: write_uleb128_def)
  ultimately have "length (0x0B # write_uleb128 (length e) @ e) < 2 ^ 24" by simp
  then show thesis using e False that by (simp add: write_string_def)
qed

definition builds :: "bytes result \<Rightarrow> bool" where
  "builds b \<longleftrightarrow> (\<exists>d. b = Inr d)"

lemma builds_pkt:
  assumes "concatE (map write_arg args) = Inr body" "length body < 2 ^ 32" "fits_unsigned 2 (server_packet_id p)"
  shows "builds (pkt p args)"
  using assms by (simp add: builds_def pkt_def write_packet_def enc_unsigned_def fits_unsigned_def)

lemma builds_i32 [simp]: "fits_signed 4 v \<Longrightarrow> fits_unsigned 2 (server_packet_id p) \<Longrightarrow> builds (pkt p [A_i32 v])"
  by (rule builds_pkt [where body = "int_bytes 4 v"]) (simp_all add: concatE.simps(2) enc_signed_def)

lemma builds_string:
  assumes "short_str s" "fits_unsigned 2 (server_packet_id p)"
  shows "builds (pkt p [A_string s])"
proof -
  obtain bs where "write_string s = Inr bs" "length bs < 2 ^ 24" using short_str_written [OF assms(1)] .
  then show ?thesis by (intro builds_pkt [where body = bs] assms(2)) (simp_all add: concatE.simps(2))
qed

lemma builds_channel:
  assumes "short_str n" "short_str t" "fits_unsigned 2 k" "fits_unsigned 2 (server_packet_id p)"
  shows "builds (pkt p [A_channel n t k])"
proof -
  obtain a where a: "write_string n = Inr a" "length a < 2 ^ 24" using short_str_written [OF assms(1)] .
  obtain b where b: "write_string t = Inr b" "length b < 2 ^ 24" using short_str_written [OF assms(2)] .
  show ?thesis
    using a b assms(3) by (intro builds_pkt [where body = "a @ b @ int_bytes 2 k"] assms(4))
      (simp_all add: write_channel_def concatE.simps(2) enc_unsigned_def)
qed

lemma builds_message:
  assumes "short_str a" "short_str b" "short_str c" "fits_signed 4 i" "fits_unsigned 2 (server_packet_id p)"
  shows "builds (pkt p [A_message a b c i])"
proof -
  obtain x where x: "write_string a = Inr x" "length x < 2 ^ 24" using short_str_written [OF assms(1)] .
  obtain y where y: "write_string b = Inr y" "length y < 2 ^ 24" using short_str_written [OF assms(2)] .
  obtain z where z: "write_string c = Inr z" "length z < 2 ^ 24" using short_str_written [OF assms(3)] .
  show ?thesis
    using x y z assms(4)
    by (intro builds_pkt [where body = "x @ y @ z @ int_bytes 4 i"] assms(5))
      (simp_all add: write_message_def concatE.simps(2) enc_signed_def)
qed

lemma length_concat_le: "(\<And>x. length (f x) = k) \<Longrightarrow> length (concat (map f xs)) = k * length xs"
  by (induction xs) simp_all

lemma short_str_length: "short_str s \<Longrightarrow> write_string s = Inr bs \<Longrightarrow> length bs < 2 ^ 24"
  using short_str_written by (metis sum.inject(2))

definition short_match :: "match_info \<Rightarrow> bool" where
  "short_match i \<longleftrightarrow> (\<exists>host. ok_match i host) \<and> short_str (mi_name i) \<and> short_str (mi_passwd i) \<and>
     short_str (mi_map_name i) \<and> short_str (mi_map_md5 i)"

lemma builds_match:
  assumes "short_match i" "fits_unsigned 2 (server_packet_id p)"
  shows "builds (pkt p [A_match i pw])"
proof -
  obtain host where ok: "ok_match i host" using assms by (auto simp: short_match_def)
  obtain n b mn md where w: "write_string (mi_name i) = Inr n" "passwd_bytes (mi_passwd i) pw = Inr b"
    "write_string (mi_map_name i) = Inr mn" "write_string (mi_map_md5 i) = Inr md"
    "write_match i pw = Inr (int_bytes 2 (mi_id i) @ int_bytes 1 (of_bool (mi_in_progress i)) @
       int_bytes 1 0 @ int_bytes 4 (mi_mods i) @ n @ b @ mn @ int_bytes 4 (mi_map_id i) @ md @
       concat (map (\<lambda>s. int_bytes 1 (si_status s)) (mi_slots i)) @
       concat (map (\<lambda>s. int_bytes 1 (si_team s)) (mi_slots i)) @
       concat (map (\<lambda>s. int_bytes 4 (the (si_player s)))
         (filter (\<lambda>s. has_player_bits (si_status s)) (mi_slots i))) @
       int_bytes 4 host @ int_bytes 1 (mi_mode i) @ int_bytes 1 (mi_win_condition i) @
       int_bytes 1 (mi_team_type i) @ int_bytes 1 (of_bool (mi_freemods i)) @
       (if mi_freemods i then concat (map (\<lambda>s. int_bytes 4 (si_mods s)) (mi_slots i)) else []) @
       int_bytes 4 (mi_seed i))" (is "_ = Inr ?body")
    using write_match_defined [OF ok] .
  have sh: "length n < 2 ^ 24" "length mn < 2 ^ 24" "length md < 2 ^ 24"
    using assms(1) w(1,3,4) by (auto simp: short_match_def dest: short_str_length)
  have lb: "length b < 2 ^ 24"
    using assms(1) w(2) by (auto simp: short_match_def passwd_bytes_def dest: short_str_length split: if_splits)
  have sl: "length (mi_slots i) = 16" using ok by (simp add: ok_match_def)
  have fl: "length (filter (\<lambda>s. has_player_bits (si_status s)) (mi_slots i)) \<le> 16"
    using length_filter_le [of _ "mi_slots i"] sl by simp
  have "length ?body < 2 ^ 32"
    using sh lb fl sl by (simp add: length_concat_le)
  then show ?thesis by (intro builds_pkt [where body = ?body] assms(2)) (simp_all add: w(5) concatE.simps(2))
qed

lemmas builds_intros = builds_string builds_channel builds_message builds_match

section \<open>Operations that return\<close>

definition sure :: "('s \<Rightarrow> bool) \<Rightarrow> ('s, 'a) op \<Rightarrow> bool" where
  "sure P m \<longleftrightarrow> triple P m (\<lambda>_. P) (\<lambda>_. False)"

named_theorems sure_intros \<open>operations that return\<close>

lemma sure_returns: "sure P m \<Longrightarrow> P s \<Longrightarrow> \<exists>x s'. m s = (Inr x, s') \<and> P s'"
  by (cases "m s"; cases "fst (m s)") (auto simp: sure_def triple_def)

lemma sure_bnd [sure_intros]: "sure P m \<Longrightarrow> (\<And>x. sure P (k x)) \<Longrightarrow> sure P (bnd m k)"
  unfolding sure_def by (rule triple_bnd)

lemma sure_thn [sure_intros]: "sure P m \<Longrightarrow> sure P k \<Longrightarrow> sure P (thn m k)"
  unfolding sure_def by (rule triple_thn)

lemma sure_retn [sure_intros]: "sure P (retn x)"
  by (simp add: sure_def triple_def op_defs)

lemma sure_skip [sure_intros]: "sure P skip"
  by (simp add: sure_def triple_def op_defs)

lemma sure_gets [sure_intros]: "sure P (gets f)"
  by (simp add: sure_def triple_def op_defs)

lemma sure_reads [sure_intros]:
  "sure P (player r g)" "sure P (channel c h)" "sure P (game m i)" "sure P (channels_get_by_name n)"
  by (simp_all add: player_def channel_def game_def channels_get_by_name_def sure_gets)

lemma sure_if [sure_intros]: "(b \<Longrightarrow> sure P m) \<Longrightarrow> (\<not> b \<Longrightarrow> sure P k) \<Longrightarrow> sure P (if b then m else k)"
  by simp

lemma sure_option [sure_intros]:
  "(v = None \<Longrightarrow> sure P m) \<Longrightarrow> (\<And>x. v = Some x \<Longrightarrow> sure P (k x)) \<Longrightarrow>
   sure P (case v of None \<Rightarrow> m | Some x \<Rightarrow> k x)"
  by (cases v) simp_all

lemma sure_foreach [sure_intros]: "(\<And>x. x \<in> set xs \<Longrightarrow> sure P (f x)) \<Longrightarrow> sure P (foreach xs f)"
  by (induction xs) (auto intro: sure_intros)

lemma sure_modify: "(\<And>s. P s \<Longrightarrow> P (f s)) \<Longrightarrow> sure P (modify f)"
  by (simp add: sure_def triple_def op_defs)

text \<open>A value read from the state, and what the state guarantees of it.\<close>

lemma sure_read:
  "(\<And>s. P s \<Longrightarrow> R (f s)) \<Longrightarrow> (\<And>x. R x \<Longrightarrow> sure P (k x)) \<Longrightarrow> sure P (bnd (gets f) k)"
  by (auto simp: sure_def triple_def op_defs)

lemma sure_emit: "builds b \<Longrightarrow> (\<And>d. sure P (k d)) \<Longrightarrow> sure P (emit b k)"
proof -
  assume "builds b" and k: "\<And>d. sure P (k d)"
  then obtain d where "emit b k = k d" by (auto simp: builds_def emit_def bnd_def lift_result_def)
  with k show ?thesis by simp
qed

section \<open>What the packets show fits them\<close>

definition slot_ok :: "server \<Rightarrow> slot \<Rightarrow> bool" where
  "slot_ok s x \<longleftrightarrow> 0 \<le> sl_mods x \<and> sl_mods x < 2 ^ 31 \<and>
     (has_player_bits (slot_status_value (sl_status x)) \<longrightarrow> sl_player x \<noteq> None) \<and>
     (\<forall>r. sl_player x = Some r \<longrightarrow> r \<in> set (s_players s))"

definition game_ok :: "server \<Rightarrow> game_match \<Rightarrow> bool" where
  "game_ok s x \<longleftrightarrow> 0 \<le> m_id x \<and> m_id x < 64 \<and> 0 \<le> m_mods x \<and> m_mods x < 2 ^ 31 \<and>
     short_str (m_name x) \<and> short_str (m_passwd x) \<and> short_str (m_map_name x) \<and> short_str (m_map_md5 x) \<and>
     fits_signed 4 (m_map_id x) \<and> length (m_slots x) = 16 \<and> (\<forall>y \<in> set (m_slots x). slot_ok s y) \<and>
     s_by_id s (m_host_id x) \<noteq> None \<and> 0 \<le> m_mode x \<and> m_mode x < 128 \<and> 0 \<le> m_seed x \<and> m_seed x < 2 ^ 31"

definition chan_ok :: "server \<Rightarrow> nat \<Rightarrow> bool" where
  "chan_ok s c \<longleftrightarrow> distinct (ch_players (s_channel s c)) \<and> set (ch_players (s_channel s c)) \<subseteq> set (s_players s) \<and>
     short_str (ch_name (s_channel s c)) \<and> short_str (ch_topic (s_channel s c)) \<and>
     (ch_instance (s_channel s c) \<and> ch_players (s_channel s c) \<noteq> [] \<longrightarrow> c \<in> set (s_channels s))"

definition user_ok :: "server \<Rightarrow> nat \<Rightarrow> bool" where
  "user_ok s r \<longleftrightarrow> 0 \<le> p_id (s_player s r) \<and> p_id (s_player s r) < 2 ^ 31 \<and>
     (r \<in> set (s_players s) \<longrightarrow> s_by_id s (p_id (s_player s r)) \<noteq> None) \<and>
     valid_str (p_name (s_player s r)) \<and> length (p_name (s_player s r)) < 2 ^ 16"

definition net :: "nat \<Rightarrow> nat \<Rightarrow> server \<Rightarrow> bool" where
  "net m u s \<longleftrightarrow> u \<in> set (s_players s) \<and> length (s_players s) < 2 ^ 16 \<and> (\<forall>c. chan_ok s c) \<and> (\<forall>r. user_ok s r) \<and> game_ok s (s_match s m)"

lemma enum_bounds: "0 \<le> slot_status_value v" "slot_status_value v < 256" "0 \<le> team_value t" "team_value t < 256"
  "0 \<le> win_value w" "win_value w < 128" "0 \<le> team_type_value y" "team_type_value y < 128"
  by (cases v, simp_all) (cases v, simp_all, cases t, simp_all, cases t, simp_all, cases w, simp_all,
      cases w, simp_all, cases y, simp_all, cases y, simp_all)

lemma net_short_match: "net m u s \<Longrightarrow> short_match (match_info_of s m)"
proof -
  assume n: "net m u s"
  then obtain h where h: "s_by_id s (m_host_id (s_match s m)) = Some h" by (auto simp: net_def game_ok_def)
  have "slot_ok s x \<Longrightarrow> slot_ok s x \<and> (\<forall>r. 0 \<le> p_id (s_player s r) \<and> p_id (s_player s r) < 2 ^ 31)" for x
    using n by (simp add: net_def user_ok_def)
  then have "ok_match (match_info_of s m) (p_id (s_player s h))"
    using n h unfolding ok_match_def match_info_of_def Let_def net_def game_ok_def user_ok_def short_str_def
    by (auto simp: slot_info_of_def slot_ok_def fits_unsigned_def enum_bounds)
  then show ?thesis using n by (auto simp: short_match_def match_info_of_def Let_def net_def game_ok_def)
qed

section \<open>The updates\<close>

lemma sure_upd_player [sure_intros]:
  "(\<And>p. p_id (f p) = p_id p) \<Longrightarrow> (\<And>p. p_name (f p) = p_name p) \<Longrightarrow> sure (net m u) (upd_player r f)"
  unfolding upd_player_def
  by (rule sure_modify) (auto simp: net_def chan_ok_def user_ok_def game_ok_def slot_ok_def)

lemma sure_p_enqueue [sure_intros]: "sure (net m u) (p_enqueue r d)"
  unfolding p_enqueue_def by (intro sure_intros) simp_all

lemma sure_spawn [sure_intros]: "sure (net m u) (spawn t)"
  unfolding spawn_def
  by (rule sure_modify) (simp add: net_def chan_ok_def user_ok_def game_ok_def slot_ok_def)

lemma sure_upd_match [sure_intros]:
  "(\<And>s x. net m u s \<Longrightarrow> game_ok s x \<Longrightarrow> game_ok s (f x)) \<Longrightarrow> sure (net m u) (upd_match m f)"
  unfolding upd_match_def
proof (rule sure_modify)
  fix s assume f: "\<And>s x. net m u s \<Longrightarrow> game_ok s x \<Longrightarrow> game_ok s (f x)" and n: "net m u s"
  have "game_ok s (f (s_match s m))" using f n by (simp add: net_def)
  then show "net m u (s\<lparr>s_match := (s_match s)(m := f (s_match s m))\<rparr>)"
    using n by (simp add: net_def chan_ok_def user_ok_def game_ok_def slot_ok_def)
qed

lemma sure_ch_enqueue [sure_intros]: "sure (net m u) (ch_enqueue c d im)"
  unfolding ch_enqueue_def by (intro sure_intros)

lemma net_info: "net m u s \<Longrightarrow> fits_unsigned 2 (int (length (ch_players (s_channel s c))))"
proof -
  assume n: "net m u s"
  then have "distinct (ch_players (s_channel s c))" "set (ch_players (s_channel s c)) \<subseteq> set (s_players s)"
    "length (s_players s) < 2 ^ 16" by (simp_all add: net_def chan_ok_def)
  then have "length (ch_players (s_channel s c)) \<le> length (s_players s)"
    by (metis card_length card_mono distinct_card finite_set le_trans)
  then show ?thesis using n by (simp add: fits_unsigned_def net_def)
qed

lemma fits_ids: "fits_unsigned 2 (server_packet_id p)"
  by (cases p) (simp_all add: fits_unsigned_def)

lemma net_user: "net m u s \<Longrightarrow> fits_signed 4 (p_id (s_player s r))"
proof -
  assume n: "net m u s"
  then have "user_ok s r" by (simp add: net_def)
  then show ?thesis unfolding user_ok_def fits_signed_def by auto
qed

lemma net_name: "net m u s \<Longrightarrow> valid_str (p_name (s_player s r)) \<and> length (p_name (s_player s r)) < 2 ^ 16"
  by (simp add: net_def user_ok_def)

definition info_ok :: "channel \<Rightarrow> bool" where
  "info_ok x \<longleftrightarrow> short_str (ch_name x) \<and> short_str (ch_topic x) \<and> fits_unsigned 2 (int (length (ch_players x)))"

lemma net_info_ok: "net m u s \<Longrightarrow> info_ok (s_channel s c)"
  using net_info [of m u s c] by (simp add: info_ok_def net_def chan_ok_def)

lemma info_builds: "info_ok x \<Longrightarrow> builds (channel_info (ch_name x) (ch_topic x) (int (length (ch_players x))))"
  unfolding channel_info_def info_ok_def by (intro builds_channel fits_ids) simp_all

lemma name_builds: "short_str n \<Longrightarrow> builds (channel_join n)" "short_str n \<Longrightarrow> builds (channel_kick n)"
  unfolding channel_join_def channel_kick_def by (intro builds_string fits_ids, assumption)+

lemma plain_builds: "builds match_join_fail" "builds match_transfer_host" "fits_signed 4 i \<Longrightarrow> builds (dispose_match i)"
  unfolding match_join_fail_def match_transfer_host_def dispose_match_def
  by (rule builds_pkt [where body = "[]"] builds_i32; simp add: fits_unsigned_def)+

lemma match_builds: "short_match i \<Longrightarrow> builds (update_match i b)" "short_match i \<Longrightarrow> builds (match_join_success i)"
  unfolding update_match_def match_join_success_def by (intro builds_match fits_ids, assumption)+

lemma sure_broadcast [sure_intros]: "sure (net m u) (broadcast_channel_info c)"
  unfolding broadcast_channel_info_def
  apply (rule sure_read [where R = info_ok], rule net_info_ok, assumption)
  apply (rule sure_emit, rule info_builds, assumption)
  apply (intro sure_intros)
  done

lemma sure_named [sure_intros]:
  "(\<And>n. short_str n \<Longrightarrow> builds (f n)) \<Longrightarrow> (\<And>d. sure (net m u) (k d)) \<Longrightarrow>
   sure (net m u) (bnd (channel c ch_name) (\<lambda>n. emit (f n) k))"
  unfolding channel_def
  by (rule sure_read [where R = short_str]) (auto simp: net_def chan_ok_def intro: sure_emit)

lemma sure_emit_match [sure_intros]:
  "(\<And>i. short_match i \<Longrightarrow> builds (f i)) \<Longrightarrow> (\<And>d. sure (net m u) (k d)) \<Longrightarrow> sure (net m u) (emit_match f m k)"
  unfolding emit_match_def
  by (rule sure_read [where R = short_match]) (auto intro: sure_emit net_short_match)

lemma sure_lobby_enqueue [sure_intros]: "builds b \<Longrightarrow> sure (net m u) (lobby_enqueue b)"
  unfolding lobby_enqueue_def by (intro sure_intros sure_emit)

lemma sure_enqueue_state [sure_intros]: "sure (net m u) (enqueue_state m lobby)"
proof -
  have "sure (net m u) (bnd (gets (\<lambda>s. update_match (match_info_of s m) False)) lobby_enqueue)"
    by (rule sure_read [where R = builds]) (auto intro: sure_intros match_builds net_short_match)
  then show ?thesis unfolding enqueue_state_def by (auto intro!: sure_intros match_builds)
qed

lemma sure_match_host [sure_intros]: "sure (net m u) (match_host m)"
  unfolding match_host_def game_def get_by_id_def sure_def triple_def
  by (auto simp: op_defs net_def game_ok_def split: option.split)

section \<open>Channels\<close>

lemma net_enter:
  assumes n: "net m u s" and u: "u \<notin> set (ch_players (s_channel s c))"
    and c: "ch_instance (s_channel s c) \<longrightarrow> c \<in> set (s_channels s)"
  shows "net m u (snd (chan_enter u c s))"
  using n u c
  by (auto simp: chan_enter_def ch_append_def upd_channel_def upd_player_def op_defs net_def chan_ok_def
      user_ok_def game_ok_def slot_ok_def)

lemma chan_enter_returns: "fst (chan_enter u c s) = Inr ()"
  by (simp add: chan_enter_def ch_append_def upd_channel_def upd_player_def op_defs)

lemma thn_read: "thn (bnd (gets f) k) j s = thn (k (f s)) j s"
  by (simp add: op_defs)

text \<open>A player who comes in first makes the channel count as used: it has to be listed.\<close>

lemma sure_join_channel:
  "triple (\<lambda>s. net m u s \<and> (ch_instance (s_channel s c) \<longrightarrow> c \<in> set (s_channels s))) (join_channel u c)
     (\<lambda>_. net m u) (\<lambda>_. False)"
proof -
  have k: "sure (net m u) (thn (bnd (channel c ch_name) (\<lambda>n. emit (channel_join n) (p_enqueue u)))
      (thn (broadcast_channel_info c) (retn True)))"
    by (intro sure_intros name_builds)
  show ?thesis
    unfolding triple_def
  proof (intro allI impI)
    fix s assume s: "net m u s \<and> (ch_instance (s_channel s c) \<longrightarrow> c \<in> set (s_channels s))"
    let ?no = "u \<in> set (ch_players (s_channel s c)) \<or> \<not> ch_can_read (s_channel s c) (p_priv (s_player s u)) \<or>
        ch_real_name (s_channel s c) = py ''#lobby'' \<and> \<not> p_in_lobby (s_player s u)"
    show "case join_channel u c s of (Inl e, s') \<Rightarrow> False | (Inr x, s') \<Rightarrow> net m u s'"
    proof (cases ?no)
      case True
      then show ?thesis using s by (simp add: join_channel_def retn_def)
    next
      case False
      let ?s = "snd (chan_enter u c s)"
      have n: "net m u ?s" using net_enter [of m u s c] s False by blast
      have e: "chan_enter u c s = (Inr (), ?s)" using chan_enter_returns [of u c s] by (metis prod.collapse)
      have nm: "ch_name (s_channel ?s c) = ch_name (s_channel s c)"
        by (simp add: chan_enter_def ch_append_def upd_channel_def upd_player_def op_defs)
      have "join_channel u c s = thn (chan_enter u c) (thn (emit (channel_join (ch_name (s_channel s c))) (p_enqueue u))
          (thn (broadcast_channel_info c) (retn True))) s"
        using False by (auto simp: join_channel_def)
      also have "\<dots> = thn (bnd (channel c ch_name) (\<lambda>n. emit (channel_join n) (p_enqueue u)))
          (thn (broadcast_channel_info c) (retn True)) ?s"
        unfolding thn_ok [where m = "chan_enter u c" and s = s, OF e] by (simp add: channel_def thn_read nm)
      finally have "join_channel u c s = thn (bnd (channel c ch_name) (\<lambda>n. emit (channel_join n) (p_enqueue u)))
          (thn (broadcast_channel_info c) (retn True)) ?s" .
      then show ?thesis using sure_returns [OF k n] by auto
    qed
  qed
qed

lemma net_cong:
  assumes "net m u s" "\<And>d. chan_ok s' d" "s_players s' = s_players s" "\<And>q. user_ok s' q = user_ok s q"
    "\<And>x. game_ok s' x = game_ok s x" "s_match s' m = s_match s m"
  shows "net m u s'"
  using assms by (simp add: net_def)

lemma sure_upd_channel_exit:
  assumes n: "net m u s" and r: "r \<in> set (ch_players (s_channel s c))" and cs: "c \<in> set (p_channels (s_player s r))"
  shows "\<exists>s'. chan_exit r c s = (Inr (), s') \<and> net m u s'"
proof -
  let ?ps = "remove1 r (ch_players (s_channel s c))"
  let ?gone = "?ps = [] \<and> ch_instance (s_channel s c)"
  let ?s = "s\<lparr>s_channel := (s_channel s)(c := (s_channel s c)\<lparr>ch_players := ?ps\<rparr>),
    s_channels := (if ?gone then remove1 c (s_channels s) else s_channels s),
    s_player := (s_player s)(r := (s_player s r)\<lparr>p_channels := remove1 c (p_channels (s_player s r))\<rparr>)\<rparr>"
  have l: "ch_instance (s_channel s c) \<Longrightarrow> c \<in> set (s_channels s)"
    using n r by (auto simp: net_def chan_ok_def)
  have e: "chan_exit r c s = (Inr (), ?s)"
    using r cs l
    by (auto simp: chan_exit_def ch_remove_def list_remove_def channels_remove_def upd_channel_def upd_player_def
        channel_def player_def op_defs)
  have ok: "chan_ok ?s d" for d
  proof (cases "d = c")
    case True
    then show ?thesis
      using n r l by (auto simp: net_def chan_ok_def dest: set_remove1_subset [THEN subsetD])
  next
    case False
    moreover have "chan_ok s d" using n by (simp add: net_def)
    ultimately show ?thesis by (auto simp: chan_ok_def)
  qed
  have "net m u ?s"
    by (rule net_cong [OF n ok]) (simp_all add: user_ok_def game_ok_def slot_ok_def)
  with e show ?thesis by blast
qed

text \<open>With the sessions well formed, leaving a channel cannot raise.\<close>

lemma sure_leave_channel [sure_intros]: "sure (\<lambda>s. wfs s \<and> net m u s) (leave_channel r c kick)"
proof -
  have k: "sure (net m u) (thn (if kick then bnd (channel c ch_name) (\<lambda>n. emit (channel_kick n) (p_enqueue r)) else skip)
      (broadcast_channel_info c))"
    by (intro sure_intros name_builds)
  have "\<exists>s'. leave_channel r c kick s = (Inr (), s') \<and> net m u s'" if s: "wfs s" "net m u s" for s
  proof (cases "r \<in> set (ch_players (s_channel s c))")
    case True
    then have "c \<in> set (p_channels (s_player s r))" using s by (simp add: wfs_def chan_inv_def)
    then obtain s1 where s1: "chan_exit r c s = (Inr (), s1)" "net m u s1"
      using sure_upd_channel_exit [OF s(2) True] by blast
    then show ?thesis using sure_returns [OF k s1(2)] True by (simp add: leave_channel_def channel_def thn_ok)
  next
    case False
    then show ?thesis using s by (simp add: leave_channel_def channel_def skip_def retn_def)
  qed
  then show ?thesis
    using keepsD [OF keeps_wfl [OF wfl_leave_channel]] unfolding sure_def triple_def by fastforce
qed

section \<open>Joining a match\<close>

lemma sure_both: "keeps wfs a \<Longrightarrow> sure (net m u) a \<Longrightarrow> sure (\<lambda>s. wfs s \<and> net m u s) a"
  unfolding keeps_def sure_def triple_def by (fastforce split: prod.splits sum.splits)

lemma sure_net: "sure (net m u) a \<Longrightarrow> triple (\<lambda>s. wfs s \<and> net m u s) a (\<lambda>_. net m u) (\<lambda>_. False)"
  unfolding sure_def by (erule triple_conseq) simp_all

lemma game_ok_slot:
  "game_ok s x \<Longrightarrow> (\<And>y. slot_ok s y \<Longrightarrow> slot_ok s (f y)) \<Longrightarrow> game_ok s (x\<lparr>m_slots := (m_slots x)[i := f (m_slots x ! i)]\<rparr>)"
  by (cases "i < length (m_slots x)")
    (auto simp: game_ok_def list_update_beyond dest!: set_update_subset_insert [THEN subsetD])

lemma net_online: "net m u s \<Longrightarrow> u \<in> set (s_players s)"
  by (simp add: net_def)

lemma sure_take_slot [sure_intros]: "sure (net m u) (take_slot m i u)"
  unfolding take_slot_def upd_slot_def
  by (intro sure_intros game_ok_slot)
    (auto simp: slot_ok_def has_player_bits_def net_online)

lemma sure_join_fail [sure_intros]: "sure (net m u) (join_fail r)"
  unfolding join_fail_def by (intro sure_intros sure_emit plain_builds)

lemma sure_leave_lobby: "sure (\<lambda>s. wfs s \<and> net m u s) (leave_lobby r)"
  unfolding leave_lobby_def channels_get_by_name_def player_def by (intro sure_intros)

definition chat_listed :: "nat \<Rightarrow> server \<Rightarrow> bool" where
  "chat_listed m s \<longleftrightarrow> (let c = m_chat (s_match s m) in ch_instance (s_channel s c) \<longrightarrow> c \<in> set (s_channels s))"

lemma sure_enter_match:
  "triple (\<lambda>s. wfs s \<and> net m u s \<and> chat_listed m s) (enter_match u m i) (\<lambda>_. net m u) (\<lambda>_. False)"
proof -
  have j: "triple (\<lambda>s. (wfs s \<and> net m u s \<and> chat_listed m s) \<and> m_chat (s_match s m) = c) (join_channel u c)
      (\<lambda>_ s. wfs s \<and> net m u s) (\<lambda>_. False)" for c
    using sure_join_channel [of m u c] keepsD [OF keeps_wfl [OF wfl_join_channel, of u c]]
    unfolding triple_def chat_listed_def Let_def by (fastforce split: prod.splits sum.splits)
  have k: "sure (net m u) (thn (take_slot m i u) (thn (emit_match match_join_success m (p_enqueue u))
      (thn (enqueue_state m True) (retn True))))"
    by (intro sure_intros match_builds)
  show ?thesis
    unfolding enter_match_def game_def
    apply (rule triple_gets_bnd)
    apply (rule triple_bnd [OF j])
    apply (rule triple_if)
     apply (rule triple_retn, simp)
    apply (rule triple_thn [OF sure_leave_lobby [unfolded sure_def]])
    apply (rule sure_net [OF k])
    done
qed

lemma sure_join_match:
  assumes "wfs s" "net m u s" "chat_listed m s"
  shows "\<exists>ok s'. join_match u m passwd s = (Inr ok, s')"
proof -
  have f: "\<exists>ok s'. join_fail u s = (Inr ok, s')"
    using sure_returns [OF sure_join_fail assms(2)] by blast
  have e: "\<exists>ok s'. enter_match u m i s = (Inr ok, s')" for i
    using sure_enter_match [of m u i] assms unfolding triple_def
    by (cases "enter_match u m i s"; cases "fst (enter_match u m i s)") fastforce+
  obtain h where "s_by_id s (m_host_id (s_match s m)) = Some h"
    using assms(2) by (auto simp: net_def game_ok_def)
  then show ?thesis
    using f e by (auto simp: join_match_def match_host_bnd split: option.split)
qed

section \<open>Leaving a match\<close>

lemma slot_ok_reset: "slot_ok s x \<Longrightarrow> st = S_open \<or> st = S_locked \<Longrightarrow> slot_ok s (slot_reset st x)"
  by (auto simp: slot_ok_def slot_reset_def has_player_bits_def)

lemma sure_free_slot [sure_intros]: "sure (net m u) (free_slot m i)"
  unfolding free_slot_def upd_slot_def
  by (intro sure_intros game_ok_slot) (auto intro: slot_ok_reset)

lemma sure_matches_remove [sure_intros]: "sure (net m u) (matches_remove k)"
  unfolding matches_remove_def
  by (rule sure_modify) (auto simp: net_def chan_ok_def user_ok_def game_ok_def slot_ok_def split: option.split)

lemma sure_close_match [sure_intros]: "sure (net m u) (close_match m)"
proof -
  have d: "sure (net m u) (bnd (game m m_id) (\<lambda>i. emit (dispose_match i) (\<lambda>d. ch_enqueue c d [])))" for c
    unfolding game_def
    by (rule sure_read [where R = "fits_signed 4"])
      (simp add: net_def game_ok_def fits_signed_def, intro sure_intros sure_emit plain_builds)
  show ?thesis
    unfolding close_match_def cancel_starting_def
    by (intro sure_intros d) (simp add: game_ok_def)
qed

lemma sure_hand_over [sure_intros]: "sure (net m u) (hand_over m)"
  unfolding sure_def triple_def
proof (intro allI impI)
  fix s assume n: "net m u s"
  have k: "sure (net m u) (bnd (match_host m) (\<lambda>h. emit match_transfer_host (p_enqueue h)))"
    by (intro sure_intros sure_emit plain_builds)
  show "case hand_over m s of (Inl e, s') \<Rightarrow> False | (Inr x, s') \<Rightarrow> net m u s'"
  proof (cases "find (\<lambda>x. sl_player x \<noteq> None) (m_slots (s_match s m))")
    case None
    then show ?thesis using n by (simp add: hand_over_def game_def skip_def retn_def)
  next
    case (Some x)
    then obtain q where q: "sl_player x = Some q" "x \<in> set (m_slots (s_match s m))"
      by (auto simp: find_Some_iff)
    then have h: "s_by_id s (p_id (s_player s q)) \<noteq> None"
      using n by (auto simp: net_def game_ok_def slot_ok_def user_ok_def)
    let ?s = "snd (upd_match m (\<lambda>x. x\<lparr>m_host_id := p_id (s_player s q)\<rparr>) s)"
    have n': "net m u ?s"
      using n h by (simp add: upd_match_def modify_def net_def chan_ok_def user_ok_def game_ok_def slot_ok_def)
    have e: "hand_over m s = bnd (match_host m) (\<lambda>h. emit match_transfer_host (p_enqueue h)) ?s"
      using Some q by (simp add: hand_over_def game_def player_def upd_match_def) (simp add: modify_def)
    then show ?thesis using sure_returns [OF k n'] by auto
  qed
qed

lemma nat_digits_short: "length (nat_digits n) \<le> Suc n \<and> (\<forall>c \<in> set (nat_digits n). c < 58)"
proof (induction n rule: nat_digits.induct)
  case (1 n)
  then show ?case by (subst (1 2) nat_digits.simps) (auto simp: le_Suc_eq; linarith)
qed

lemma short_str_append: "valid_str a \<Longrightarrow> length a < 2 ^ 16 \<Longrightarrow> valid_str b \<Longrightarrow> length b < 2 ^ 17 \<Longrightarrow> short_str (a @ b)"
  by (auto simp: short_str_def valid_str_def)

lemma sure_send_bot:
  assumes "valid_str msg" "length msg < 2 ^ 17"
  shows "sure (net m u) (ch_send_bot c msg)"
proof -
  let ?t = "if 31979 \<le> length msg then py ''message would have crashed games ('' @ str_int (int (length msg)) @ py '' chars)'' else msg"
  have v: "valid_str (str_int (int n))" "length (str_int (int n)) \<le> Suc n" for n
    using nat_digits_short [of n] by (auto simp: str_int_def valid_str_def)
  have "short_str ?t"
    using assms v [of "length msg"] by (auto simp: short_str_def valid_str_def py_def)
  then have b: "builds (send_message (fst i) ?t n (snd i))"
    if "valid_str (fst i) \<and> length (fst i) < 2 ^ 16 \<and> fits_signed 4 (snd i)" "short_str n" for i n
    unfolding send_message_def using that by (intro builds_message fits_ids) (simp_all add: short_str_def)
  have "sure (net m u) (bnd (gets (\<lambda>s. (p_name (s_player s (s_bot s)), p_id (s_player s (s_bot s))))) (\<lambda>i.
      bnd (channel c ch_name) (\<lambda>n. emit (send_message (fst i) ?t n (snd i)) (\<lambda>d. ch_enqueue c d []))))"
    by (rule sure_read [where R = "\<lambda>i. valid_str (fst i) \<and> length (fst i) < 2 ^ 16 \<and> fits_signed 4 (snd i)"])
      (use net_name net_user b in \<open>auto intro!: sure_intros\<close>)
  then show ?thesis
    by (simp add: ch_send_bot_def Let_def sure_def triple_def op_defs channel_def del: if_split)
qed

lemma sure_drop_referee [sure_intros]: "sure (net m u) (drop_referee r m)"
proof -
  have t: "valid_str (py '' removed from match referees.'')" by (simp add: valid_str_def py_def)
  have k: "sure (net m u) (bnd (player r p_name) (\<lambda>n. ch_send_bot c (n @ py '' removed from match referees.'')))" for c
    unfolding player_def
    by (rule sure_read [where R = "\<lambda>n. valid_str n \<and> length n < 2 ^ 16"])
      (use net_name t in \<open>auto intro!: sure_send_bot simp: valid_str_def py_def\<close>)
  have "sure (net m u) (upd_match m (\<lambda>x. x\<lparr>m_referees := m_referees x - {r}\<rparr>))"
    by (intro sure_intros) (simp add: game_ok_def)
  then have "sure (net m u) (if r \<in> refs then thn (upd_match m (\<lambda>x. x\<lparr>m_referees := m_referees x - {r}\<rparr>))
      (bnd (player r p_name) (\<lambda>n. ch_send_bot c (n @ py '' removed from match referees.''))) else skip)" for refs c
    by (intro sure_if sure_thn k sure_skip)
  then show ?thesis
    unfolding drop_referee_def by (intro sure_bnd sure_reads) (simp add: case_prod_unfold)
qed

text \<open>C33. Joining a match: when the sessions are well formed, the names and ids fit
  their fields, the match's host is online and the match's channel is still listed,
  \<^verbatim>\<open>join_match\<close> returns \<^verbatim>\<open>True\<close> or \<^verbatim>\<open>False\<close>, whatever the password.\<close>

theorem join_match_returns:
  assumes "wfs s" "net m u s" "chat_listed m s"
  shows "\<exists>ok s'. join_match u m passwd s = (Inr ok, s')"
  by (rule sure_join_match [OF assms])

lemma demo_net:
  "net 6 2 (demo_server [1] one_seated)" "chat_listed 6 (demo_server [1] one_seated)"
  "net 6 2 (demo_server [1, 2] two_seated)" "seated (demo_server [1, 2] two_seated) 6 0 1"
  by (auto simp: net_def chan_ok_def user_ok_def game_ok_def slot_ok_def chat_listed_def Let_def demo_eval
      one_seated_def two_seated_def short_str_def valid_str_def py_def starts_with_def fits_signed_def
      has_player_bits_def seated_def)

theorem join_match_returns_witness:
  "\<exists>ok s'. join_match 2 6 [112] (demo_server [1] one_seated) = (Inr ok, s')"
  by (rule join_match_returns [OF wfs_demo(2) demo_net(1,2)])

lemma sure_leave_match:
  assumes "wfs s" "net m u s" "p_match (s_player s r) = Some m" "seated s m i r"
  shows "\<exists>s'. leave_match r s = (Inr (), s')"
proof -
  obtain j where j: "slot_index r (s_match s m) = Some j"
    using assms(4) by (cases "slot_index r (s_match s m)")
      (auto simp: slot_index_def find_index_None_iff seated_def dest: nth_mem)
  let ?rest = "thn (leave_rest r m) (upd_player r (\<lambda>p. p\<lparr>p_match := None\<rparr>))"
  let ?s = "snd (free_slot m j s)"
  have "sure (net m u) (thn (bnd (game m m_slots) (\<lambda>slots.
      if list_all slot_empty slots then close_match m
      else bnd (match_host m) (\<lambda>h. thn (if r = h then hand_over m else skip)
             (thn (drop_referee r m) (enqueue_state m True))))) (upd_player r (\<lambda>p. p\<lparr>p_match := None\<rparr>)))"
    by (intro sure_intros) simp_all
  then have k: "triple (\<lambda>s. wfs s \<and> net m u s) ?rest (\<lambda>_. net m u) (\<lambda>_. False)"
    unfolding leave_rest_def thn_assoc
    by (intro triple_thn [OF _ sure_net])
      (simp_all add: game_def sure_def [symmetric] sure_bnd sure_gets sure_leave_channel)
  have f: "free_slot m j s = (Inr (), ?s)"
    by (simp add: free_slot_def upd_slot_def upd_match_def modify_def)
  have n: "net m u ?s" using sure_returns [OF sure_free_slot assms(2), of j] f by auto
  have w: "wfs ?s" using wfs_free_slot assms(1) slot_index_seated [OF j] by blast
  have "leave_match r s = ?rest ?s"
    using assms(3) j by (simp add: leave_match_parts player_def get_slot_id_def game_def thn_ok [where m = "free_slot m j" and s = s, OF f])
  moreover have "\<exists>s'. ?rest ?s = (Inr (), s')"
    using k n w unfolding triple_def by (cases "?rest ?s"; cases "fst (?rest ?s)") fastforce+
  ultimately show ?thesis by simp
qed

text \<open>C34. Leaving a match never raises when the sessions are well formed, the names and ids fit
  their fields and the match's host is online: a player who sits in the match it refers to then always
  gets out, also when it is the host, the last one inside or a referee.\<close>

theorem leave_match_returns:
  assumes "wfs s" "net m u s" "p_match (s_player s r) = Some m" "seated s m i r"
  shows "\<exists>s'. leave_match r s = (Inr (), s')"
  by (rule sure_leave_match [OF assms])

theorem leave_match_returns_witness:
  "\<exists>s'. leave_match 1 (demo_server [1, 2] two_seated) = (Inr (), s')"
  by (rule leave_match_returns [OF wfs_demo(1) demo_net(3) _ demo_net(4)]) (simp add: demo_eval two_seated_def)

end
