(* ===== verification/Seats.thy ===== *)
theory Seats
  imports Total
begin

text \<open>
  The properties of the match operations, over the seats of the matches: \<open>seat_of s m j\<close> is
  the player in slot \<open>j\<close> of match \<open>m\<close>.
\<close>

definition seat_of :: "server \<Rightarrow> nat \<Rightarrow> nat \<Rightarrow> nat option" where
  "seat_of s m j = sl_player (m_slots (s_match s m) ! j)"

lemma wfs_sixteen: "wfs s \<Longrightarrow> length (m_slots (s_match s m)) = 16"
  by (simp add: wfs_def seat_inv_def)

lemma links_slots: "fst (links s) m = map sl_player (m_slots (s_match s m))"
  by (simp add: links_def)

lemma seat_of_links: "wfs s \<Longrightarrow> j < 16 \<Longrightarrow> seat_of s m j = fst (links s) m ! j"
  by (simp add: seat_of_def links_slots wfs_sixteen)

lemma p_match_links: "p_match (s_player s r) = fst (snd (links s)) r"
  by (simp add: links_def)

lemma wfs_seat_unique: "wfs s \<Longrightarrow> j < 16 \<Longrightarrow> j' < 16 \<Longrightarrow> seat_of s m j = Some r \<Longrightarrow> seat_of s m' j' = Some r \<Longrightarrow>
    m' = m \<and> j' = j"
  by (simp add: wfs_def seat_inv_def seated_def seat_of_def) (metis option.inject)

lemma wfs_after_join: "wfs s \<Longrightarrow> join_match r m pw s = (v, s') \<Longrightarrow> wfs s'"
  by (rule keepsD [OF wfs_join_match])

lemma wfs_after_leave: "wfs s \<Longrightarrow> leave_match r s = (v, s') \<Longrightarrow> wfs s'"
  by (rule keepsD [OF wfs_leave_match])

lemma seat_fst: "fst (seat m i r v) m' ! j = (if m' = m \<and> j = i \<and> i < length (fst v m) then Some r else fst v m' ! j)"
  by (auto simp: seat_def nth_list_update not_less list_update_beyond)

lemma seat_snd: "fst (snd (seat m i r v)) q = (if q = r then Some m else fst (snd v) q)"
  by (simp add: seat_def)

section \<open>Joining a match\<close>

text \<open>The channel of the match takes the player in.\<close>

definition chat_admits :: "server \<Rightarrow> nat \<Rightarrow> nat \<Rightarrow> bool" where
  "chat_admits s r m \<longleftrightarrow> (let x = s_channel s (m_chat (s_match s m)); p = s_player s r in
     r \<notin> set (ch_players x) \<and> ch_can_read x (p_priv p) \<and> (ch_real_name x = py ''#lobby'' \<longrightarrow> p_in_lobby p))"

lemma thn_Inr: "thn a b s = (Inr x, s') \<Longrightarrow> \<exists>t. b t = (Inr x, s')"
  by (auto simp: thn_def bnd_def split: prod.splits sum.splits)

lemma join_channel_ok: "join_channel r c s = (Inr ok, t) \<Longrightarrow>
    ok \<longleftrightarrow> r \<notin> set (ch_players (s_channel s c)) \<and> ch_can_read (s_channel s c) (p_priv (s_player s r)) \<and>
      (ch_real_name (s_channel s c) = py ''#lobby'' \<longrightarrow> p_in_lobby (s_player s r))"
  by (auto simp: join_channel_def retn_def split: if_split_asm dest!: thn_Inr)

lemma enter_match_ok: "enter_match r m i s = (Inr ok, s') \<Longrightarrow> ok \<longleftrightarrow> chat_admits s r m"
proof -
  assume "enter_match r m i s = (Inr ok, s')"
  then obtain joined t where "join_channel r (m_chat (s_match s m)) s = (Inr joined, t)" "ok = joined"
    unfolding enter_match_def game_def
    by (auto simp: retn_def bnd_def gets_def split: prod.splits sum.splits if_split_asm dest!: thn_Inr)
  then show ?thesis using join_channel_ok by (simp add: chat_admits_def Let_def)
qed

lemma join_fail_ok: "join_fail r s = (Inr ok, s') \<Longrightarrow> \<not> ok"
  unfolding join_fail_def by (auto simp: retn_def dest!: thn_Inr)

lemma join_match_ok:
  "join_match r m passwd s = (Inr ok, s') \<Longrightarrow>
    ok \<longleftrightarrow> may_join s r m passwd \<and> join_slot s r m \<noteq> None \<and> chat_admits s r m"
  using enter_match_ok join_fail_ok
  by (cases "s_by_id s (m_host_id (s_match s m))")
    (fastforce simp: join_match_def match_host_bnd may_join_def join_slot_def split: if_split_asm option.splits)+

text \<open>C6. A player gets into a match exactly when it is in none, its user is not in that match
  with a tournament client, it is the host, or gives the password or is staff and there is an
  open slot, and the channel of the match admits it. It then sits
  in exactly one slot: the first open one, or slot 0 for the host, and no other seat and no
  other player's match changes. Otherwise nobody's seat changes.\<close>

theorem join_match_seats:
  assumes "wfs s" "join_match r m passwd s = (Inr ok, s')"
  shows "(ok \<longleftrightarrow> p_match (s_player s r) = None \<and> p_id (s_player s r) \<notin> m_tourney_clients (s_match s m) \<and>
      (s_by_id s (m_host_id (s_match s m)) = Some r \<or>
        (passwd = m_passwd (s_match s m) \<or> r \<in> set (staff s)) \<and> match_get_free (s_match s m) \<noteq> None) \<and>
      chat_admits s r m) \<and>
    (if ok
     then (\<exists>i < 16. (if s_by_id s (m_host_id (s_match s m)) = Some r then i = 0
               else match_get_free (s_match s m) = Some i) \<and>
        (\<forall>m' j. j < 16 \<longrightarrow> seat_of s' m' j = (if m' = m \<and> j = i then Some r else seat_of s m' j)) \<and>
        (\<forall>q. p_match (s_player s' q) = (if q = r then Some m else p_match (s_player s q))))
     else (\<forall>m' j. j < 16 \<longrightarrow> seat_of s' m' j = seat_of s m' j) \<and>
      (\<forall>q. p_match (s_player s' q) = p_match (s_player s q)))"
proof -
  note r = join_match_result [OF assms]
  have ok: "ok \<longleftrightarrow> p_match (s_player s r) = None \<and> p_id (s_player s r) \<notin> m_tourney_clients (s_match s m) \<and>
      (s_by_id s (m_host_id (s_match s m)) = Some r \<or>
        (passwd = m_passwd (s_match s m) \<or> r \<in> set (staff s)) \<and> match_get_free (s_match s m) \<noteq> None) \<and>
      chat_admits s r m"
    using join_match_ok [OF assms(2)] by (auto simp: may_join_def join_slot_def)
  have w: "wfs s'" by (rule wfs_after_join [OF assms])
  show ?thesis
  proof (cases ok)
    case False
    then have "links s' = links s" using r by simp
    then have "\<forall>m' j. j < 16 \<longrightarrow> seat_of s' m' j = seat_of s m' j" "\<forall>q. p_match (s_player s' q) = p_match (s_player s q)"
      using w assms(1) by (simp_all add: seat_of_links p_match_links)
    then show ?thesis using False ok by auto
  next
    case True
    then obtain i where j: "join_slot s r m = Some i" "links s' = seat m i r (links s)"
      using r by auto
    have i: "i < 16"
      using j(1) find_index_bound [of _ "m_slots (s_match s m)" i] wfs_sixteen [OF assms(1)]
      by (auto simp: join_slot_def match_get_free_def split: if_split_asm)
    have len: "length (fst (links s) m) = 16" using assms(1) by (simp add: links_slots wfs_sixteen)
    have c: "if s_by_id s (m_host_id (s_match s m)) = Some r then i = 0 else match_get_free (s_match s m) = Some i"
      using j(1) by (auto simp: join_slot_def split: if_split_asm)
    have "(\<forall>m' j. j < 16 \<longrightarrow> seat_of s' m' j = (if m' = m \<and> j = i then Some r else seat_of s m' j)) \<and>
        (\<forall>q. p_match (s_player s' q) = (if q = r then Some m else p_match (s_player s q)))"
      using w assms(1) i len by (simp add: seat_of_links p_match_links j(2) seat_fst seat_snd)
    with True ok c i show ?thesis by auto
  qed
qed

theorem join_match_seats_witness:
  "\<exists>s'. join_match 2 6 [112] (demo_server [1] one_seated) = (Inr True, s') \<and>
     p_match (s_player s' 2) = Some 6 \<and> seat_of s' 6 1 = Some 2 \<and>
     (\<exists>s''. join_match 2 6 [113] (demo_server [1] one_seated) = (Inr False, s''))"
proof -
  let ?s = "demo_server [1] one_seated"
  obtain ok s' where j: "join_match 2 6 [112] ?s = (Inr ok, s')"
    using sure_join_match [OF wfs_demo(2) demo_net(1,2)] by blast
  obtain no s'' where n: "join_match 2 6 [113] ?s = (Inr no, s'')"
    using sure_join_match [OF wfs_demo(2) demo_net(1,2)] by blast
  have p: "p_match (s_player ?s 2) = None" "p_id (s_player ?s 2) \<notin> m_tourney_clients (s_match ?s 6)"
    "m_passwd (s_match ?s 6) = [112]" "match_get_free (s_match ?s 6) = Some 1" "chat_admits ?s 2 6"
    "s_by_id ?s (m_host_id (s_match ?s 6)) = Some 1" "2 \<notin> set (staff ?s)"
    by code_simp+
  have ok and "\<not> no"
    using join_match_seats [OF wfs_demo(2) j] join_match_seats [OF wfs_demo(2) n] p by simp_all
  with j n p show ?thesis using join_match_seats [OF wfs_demo(2) j] by auto
qed

section \<open>Leaving a match\<close>

lemma hosts_sel:
  "fst (hosts s) m = m_host_id (s_match s m)" "fst (snd (hosts s)) = s_by_id s"
  "fst (snd (snd (hosts s))) r = p_id (s_player s r)" "fst (snd (snd (snd (hosts s)))) = s_matches s"
  "snd (snd (snd (snd (hosts s)))) = links s"
  by (simp_all add: hosts_def)

lemma after_leave_links: "snd (snd (snd (snd (after_leave m r v)))) = snd (snd (snd (snd v)))"
  by (simp add: after_leave_def set_table_def set_host_def split: option.split)

lemma vacated_links: "snd (snd (snd (snd (vacated m i v)))) =
    ((fst (snd (snd (snd (snd v)))))(m := (fst (snd (snd (snd (snd v)))) m)[i := None]), snd (snd (snd (snd (snd v)))))"
  by (simp add: vacated_def Let_def)

lemma forget_links: "snd (snd (snd (snd (forget_match r v)))) =
    (fst (snd (snd (snd (snd v)))), (fst (snd (snd (snd (snd (snd v))))))(r := None), snd (snd (snd (snd (snd (snd v))))))"
  by (simp add: forget_match_def Let_def)

lemma leave_match_links:
  assumes "hosts s' = forget_match r (after_leave m r (vacated m i (hosts s)))"
  shows "fst (links s') m' = (if m' = m then (fst (links s) m)[i := None] else fst (links s) m')"
    "fst (snd (links s')) q = (if q = r then None else fst (snd (links s)) q)"
proof -
  have l: "links s' = snd (snd (snd (snd (forget_match r (after_leave m r (vacated m i (hosts s)))))))"
    using assms by (metis hosts_sel(5))
  show "fst (links s') m' = (if m' = m then (fst (links s) m)[i := None] else fst (links s) m')"
    "fst (snd (links s')) q = (if q = r then None else fst (snd (links s)) q)"
    unfolding l forget_links after_leave_links vacated_links by (simp_all add: hosts_sel)
qed

lemma leave_match_table:
  assumes h: "hosts s' = forget_match r (after_leave m r (vacated m i (hosts s)))"
    and p: "p = first_seated (fst (links s') m)"
  shows "s_matches s' = (if p = None then without_match m (s_matches s) else s_matches s)"
    "m_host_id (s_match s' m) = (case p of
       Some q \<Rightarrow> if s_by_id s (m_host_id (s_match s m)) = Some r then p_id (s_player s q) else m_host_id (s_match s m)
     | None \<Rightarrow> m_host_id (s_match s m))"
proof -
  have p': "p = first_seated (fst (snd (snd (snd (snd (vacated m i (hosts s)))))) m)"
    using leave_match_links(1) [OF h, of m] by (simp add: p vacated_links hosts_sel)
  have v: "fst (vacated m i (hosts s)) = fst (hosts s)" "fst (snd (vacated m i (hosts s))) = s_by_id s"
    "fst (snd (snd (vacated m i (hosts s)))) = fst (snd (snd (hosts s)))"
    "fst (snd (snd (snd (vacated m i (hosts s))))) = s_matches s"
    by (simp_all add: vacated_def Let_def hosts_def)
  have "s_matches s' = fst (snd (snd (snd (after_leave m r (vacated m i (hosts s))))))"
    unfolding hosts_sel(4) [of s', symmetric] h by (simp add: forget_match_def Let_def)
  then show "s_matches s' = (if p = None then without_match m (s_matches s) else s_matches s)"
    using p' by (auto simp: after_leave_def v set_table_def set_host_def split: option.splits)
  have "m_host_id (s_match s' m) = fst (after_leave m r (vacated m i (hosts s))) m"
    unfolding hosts_sel(1) [of s', symmetric] h by (simp add: forget_match_def Let_def)
  then show "m_host_id (s_match s' m) = (case p of
       Some q \<Rightarrow> if s_by_id s (m_host_id (s_match s m)) = Some r then p_id (s_player s q) else m_host_id (s_match s m)
     | None \<Rightarrow> m_host_id (s_match s m))"
    using p' by (auto simp: after_leave_def v set_table_def set_host_def hosts_sel split: option.splits)
qed

lemma first_seated_Some:
  "first_seated ps = Some q \<longleftrightarrow> (\<exists>j < length ps. ps ! j = Some q \<and> (\<forall>k < j. ps ! k = None))"
proof (induction ps)
  case (Cons x ps)
  show ?case
  proof (cases x)
    case None
    then have "first_seated (x # ps) = first_seated ps" by (simp add: first_seated_def)
    moreover have "(\<exists>j < length (x # ps). (x # ps) ! j = Some q \<and> (\<forall>k < j. (x # ps) ! k = None)) \<longleftrightarrow>
        (\<exists>j < length ps. ps ! j = Some q \<and> (\<forall>k < j. ps ! k = None))"
      using None by (auto simp: Ex_less_Suc2 All_less_Suc2)
    ultimately show ?thesis using Cons by simp
  next
    case (Some y)
    then show ?thesis by (auto simp: first_seated_def Ex_less_Suc2 All_less_Suc2)
  qed
qed (simp add: first_seated_def)

lemma without_match_gone:
  assumes t: "table_inv s"
  shows "Some m \<notin> set (without_match m (s_matches s))"
    "s_matches s ! k \<noteq> Some m \<Longrightarrow> without_match m (s_matches s) ! k = s_matches s ! k"
proof -
  have u: "i = j" if "i < 64" "j < 64" "s_matches s ! i = Some m" "s_matches s ! j = Some m" for i j
    using t that by (metis of_nat_eq_iff table_inv_def)
  have len: "length (s_matches s) = 64" using t by (simp add: table_inv_def)
  show "Some m \<notin> set (without_match m (s_matches s))"
  proof (cases "find_index (\<lambda>x. x = Some m) (s_matches s)")
    case None
    then have "Some m \<notin> set (s_matches s)" unfolding find_index_None_iff by blast
    then show ?thesis by (simp add: without_match_def None)
  next
    case (Some i)
    then have "i < 64" "s_matches s ! i = Some m" using len by (simp_all add: find_index_Some_iff)
    then show ?thesis using Some u len by (auto simp: without_match_def in_set_conv_nth nth_list_update)
  qed
  show "s_matches s ! k \<noteq> Some m \<Longrightarrow> without_match m (s_matches s) ! k = s_matches s ! k"
    by (auto simp: without_match_def find_index_Some_iff nth_list_update split: option.split)
qed

lemma leave_match_none:
  assumes "wfs s" "p_match (s_player s r) = Some m" "leave_match r s = (Inr (), s')"
  shows "p_match (s_player s' r) = None"
proof -
  obtain i where h: "hosts s' = forget_match r (after_leave m r (vacated m i (hosts s)))"
    using leave_match_hosts [OF assms(2,3)] by blast
  show ?thesis by (simp add: p_match_links leave_match_links(2) [OF h])
qed

text \<open>Whoever leaves takes only its own seat away.\<close>

lemma seats_after_leave:
  assumes "wfs s" "wfs s'" "slot_index r (s_match s m) = Some i"
    "hosts s' = forget_match r (after_leave m r (vacated m i (hosts s)))" "j < 16"
  shows "seat_of s' m' j = (if seat_of s m' j = Some r then None else seat_of s m' j)"
proof -
  have i16: "i < 16" "seat_of s m i = Some r"
    using assms(3) wfs_sixteen [OF assms(1), of m] by (simp_all add: slot_index_def find_index_Some_iff seat_of_def)
  have len0: "length (fst (links s) m) = 16" using assms(1) by (simp add: links_slots wfs_sixteen)
  have "seat_of s' m' j = (if m' = m \<and> j = i then None else seat_of s m' j)"
    unfolding seat_of_links [OF assms(2,5)] seat_of_links [OF assms(1,5)] leave_match_links(1) [OF assms(4)]
    using assms(5) i16(1) len0 by (cases "m' = m"; cases "j = i") simp_all
  moreover have "seat_of s m' j = Some r \<longleftrightarrow> m' = m \<and> j = i"
    using wfs_seat_unique [OF assms(1) i16(1) assms(5) i16(2), of m'] i16(2) by blast
  ultimately show ?thesis by simp
qed

text \<open>C8. A player who leaves its match sits nowhere afterwards, and every other seat and every
  other player's match is as before. When nobody is left the match is gone from the table of
  matches and only it; otherwise the table is unchanged and the host is the same, or, when
  the host left, the player in the first occupied slot.\<close>

theorem leave_match_effects:
  assumes "wfs s" "p_match (s_player s r) = Some m" "leave_match r s = (Inr (), s')"
  shows "(\<forall>m' j. j < 16 \<longrightarrow> seat_of s' m' j = (if seat_of s m' j = Some r then None else seat_of s m' j)) \<and>
    (\<forall>q. p_match (s_player s' q) = (if q = r then None else p_match (s_player s q))) \<and>
    (if \<forall>j < 16. seat_of s' m j = None
     then Some m \<notin> set (s_matches s') \<and> (\<forall>k. s_matches s ! k \<noteq> Some m \<longrightarrow> s_matches s' ! k = s_matches s ! k)
     else s_matches s' = s_matches s \<and>
       (if s_by_id s (m_host_id (s_match s m)) = Some r
        then \<exists>j < 16. \<exists>q. seat_of s' m j = Some q \<and> (\<forall>k < j. seat_of s' m k = None) \<and>
               m_host_id (s_match s' m) = p_id (s_player s q)
        else m_host_id (s_match s' m) = m_host_id (s_match s m)))"
proof -
  obtain i where i: "slot_index r (s_match s m) = Some i"
    and h: "hosts s' = forget_match r (after_leave m r (vacated m i (hosts s)))"
    using leave_match_hosts [OF assms(2,3)] by blast
  have w: "wfs s'" by (rule wfs_after_leave [OF assms(1,3)])
  have seats: "\<forall>m' j. j < 16 \<longrightarrow> seat_of s' m' j = (if seat_of s m' j = Some r then None else seat_of s m' j)"
    using seats_after_leave [OF assms(1) w i h] by blast
  let ?p = "first_seated (fst (links s') m)"
  have len: "length (fst (links s') m) = 16" using w by (simp add: links_slots wfs_sixteen)
  have none: "?p = None \<longleftrightarrow> (\<forall>j < 16. seat_of s' m j = None)"
    using len w by (auto simp: first_seated_None all_set_conv_all_nth seat_of_links)
  have tab: "table_inv s" using assms(1) by (simp add: wfs_def)
  show ?thesis
  proof (intro conjI seats)
    show "\<forall>q. p_match (s_player s' q) = (if q = r then None else p_match (s_player s q))"
      by (simp add: p_match_links leave_match_links(2) [OF h])
    note t = leave_match_table [OF h refl]
    show "if \<forall>j < 16. seat_of s' m j = None
     then Some m \<notin> set (s_matches s') \<and> (\<forall>k. s_matches s ! k \<noteq> Some m \<longrightarrow> s_matches s' ! k = s_matches s ! k)
     else s_matches s' = s_matches s \<and>
       (if s_by_id s (m_host_id (s_match s m)) = Some r
        then \<exists>j < 16. \<exists>q. seat_of s' m j = Some q \<and> (\<forall>k < j. seat_of s' m k = None) \<and>
               m_host_id (s_match s' m) = p_id (s_player s q)
        else m_host_id (s_match s' m) = m_host_id (s_match s m))"
    proof (cases ?p)
      case None
      then have n: "\<forall>j < 16. seat_of s' m j = None" using none by simp
      have "s_matches s' = without_match m (s_matches s)" using t(1) None by simp
      then show ?thesis using without_match_gone(1) [OF tab, of m] without_match_gone(2) [OF tab, where m = m] n by auto
    next
      case (Some q)
      then obtain j where j: "j < 16" "seat_of s' m j = Some q" "\<forall>k < j. seat_of s' m k = None"
        using w by (auto simp: first_seated_Some len seat_of_links)
      then have n: "\<not> (\<forall>j < 16. seat_of s' m j = None)" by auto
      have "s_matches s' = s_matches s" "m_host_id (s_match s' m) = (if s_by_id s (m_host_id (s_match s m)) = Some r
          then p_id (s_player s q) else m_host_id (s_match s m))"
        using t Some by simp_all
      then show ?thesis unfolding if_not_P [OF n] using j by auto
    qed
  qed
qed

theorem leave_match_effects_witness:
  "\<exists>s'. leave_match 1 (demo_server [1, 2] two_seated) = (Inr (), s') \<and>
     p_match (s_player s' 1) = None \<and> p_match (s_player s' 2) = Some 6"
proof -
  have p: "p_match (s_player (demo_server [1, 2] two_seated) 1) = Some 6"
    "p_match (s_player (demo_server [1, 2] two_seated) 2) = Some 6"
    by (simp_all add: demo_eval two_seated_def)
  obtain s' where l: "leave_match 1 (demo_server [1, 2] two_seated) = (Inr (), s')"
    using sure_leave_match [OF wfs_demo(1) demo_net(3) p(1) demo_net(4)] by blast
  have "\<forall>q. p_match (s_player s' q) = (if q = 1 then None else p_match (s_player (demo_server [1, 2] two_seated) q))"
    using leave_match_effects [OF wfs_demo(1) p(1) l] by blast
  with l p show ?thesis by simp
qed

end
