(* ===== verification/Talk.thy ===== *)
theory Talk
  imports Delivery Total
begin

text \<open>
  The properties of the chat: whom a public message reaches, what refuses it, what a block
  does to a private message, and who is sent the password of a match.
\<close>

section \<open>Public messages\<close>

text \<open>The conditions under which a message of \<open>r\<close> is for channel \<open>c\<close> and may be sent there.\<close>

definition may_speak :: "server \<Rightarrow> nat \<Rightarrow> nat \<Rightarrow> bool" where
  "may_speak s r c \<longleftrightarrow> r \<in> members s c \<and> ch_can_write (s_channel s c) (p_priv (s_player s r))"

definition muted :: "server \<Rightarrow> nat \<Rightarrow> bool" where
  "muted s r \<longleftrightarrow> remaining_silence (s_now s) (s_player s r) \<noteq> 0"

lemma silenced_bnd: "bnd (silenced r) k s = k (muted s r) s"
  by (simp add: silenced_def muted_def)

lemma message_target_returns: "\<exists>t. message_target n r s = (Inr t, s)"
  by (cases "p_spectating (s_player s r)"; cases "p_match (s_player s r)")
    (simp_all add: message_target_def channels_get_by_name_def player_def game_def retn_def bnd_def gets_def)

lemma message_target_state: "message_target n r s = (fst (message_target n r s), s)"
  using message_target_returns [of n r s] by auto

lemma deliver_log: "s_log (deliver D d s) = s_log s"
  by (simp add: deliver_def)

lemma latest_activity_soon_state:
  "latest_activity_soon r s = (Inr (), s\<lparr>s_log := s_log s @ [Latest_activity (p_id (s_player s r)) (s_now s)]\<rparr>)"
  by (simp add: latest_activity_soon_def spawn_def player_def modify_def)



text \<open>C35. A public message changes nothing, for anyone, when its sender is silenced, when it is
  blank, when its channel is an ignored one or does not exist, or when the sender is not in the
  channel or may not write there.\<close>

theorem public_message_refused:
  assumes "muted s r \<or> strip (msg_text m) = [] \<or>
    (\<forall>c. fst (message_target (msg_recipient m) r s) = Inr (Inr (Some c)) \<longrightarrow> \<not> may_speak s r c)"
  shows "handle_SendMessage x m r s = (Inr (), s)"
proof (cases "muted s r \<or> strip (msg_text m) = []")
  case True
  then show ?thesis by (auto simp: handle_SendMessage_def silenced_bnd skip_def retn_def)
next
  case False
  obtain t where t: "message_target (msg_recipient m) r s = (Inr t, s)"
    using message_target_returns [of "msg_recipient m" r s] by blast
  with assms False have "t = Inr (Some c) \<Longrightarrow> \<not> may_speak s r c" for c by simp
  then show ?thesis
    using False t
    by (auto simp: handle_SendMessage_def silenced_bnd bnd_def [of "message_target _ _"] may_speak_def members_def
        skip_def retn_def split: sum.split option.split)
qed

theorem public_message_refused_witness:
  "handle_SendMessage undefined \<lparr>msg_sender = [], msg_text = [104], msg_recipient = [109], msg_sender_id = 0\<rparr> 2
     (demo_server [1] one_seated) = (Inr (), demo_server [1] one_seated)"
proof (rule public_message_refused, intro disjI2 allI impI)
  fix c
  assume "fst (message_target (msg_recipient \<lparr>msg_sender = [], msg_text = [104], msg_recipient = [109], msg_sender_id = 0\<rparr>) 2
    (demo_server [1] one_seated)) = Inr (Inr (Some c))"
  then have "c = 5"
    by (simp add: message_target_def IGNORED_CHANNELS_def py_def demo_eval channels_get_by_name_def bnd_def gets_def retn_def
        split: if_split_asm)
  then show "\<not> may_speak (demo_server [1] one_seated) 2 c" by (simp add: may_speak_def members_def demo_eval)
qed

section \<open>Private messages\<close>

lemma emit_enqueue: "emit (Inr d) (p_enqueue r) s = (Inr (), deliver {r} d s)"
  by (simp add: emit_def bnd_def lift_result_def p_enqueue_deliver)

text \<open>The refusals of a private message, in the order of the code.\<close>

definition dm_refusal :: "rat \<Rightarrow> player \<Rightarrow> int \<Rightarrow> pystr \<Rightarrow> bytes result option" where
  "dm_refusal now tp i name =
     (if i \<in> p_blocks tp \<or> p_pm_private tp \<and> i \<notin> p_friends tp then Some (user_dm_blocked name)
      else if remaining_silence now tp \<noteq> 0 then Some (target_silenced name) else None)"

text \<open>A private message to a user who blocks the sender, who only accepts friends and does
  not have the sender as one, or who is silenced, has no effect but one notice to the sender:
  no packet for the target, no mail stored, no command run.\<close>

theorem private_message_blocked:
  assumes "\<not> muted s r" "strip (msg_text m) \<noteq> []"
    and "fst (from_cache_or_sql x (msg_recipient m) s) = Inr (Some t)"
    and "dm_refusal (s_now s) (target_player s t) (p_id (s_player s r)) (msg_recipient m) = Some (Inr d)"
  shows "handle_SendPrivateMessage x m r s = (Inr (), deliver {r} d s)"
proof -
  have f: "from_cache_or_sql x (msg_recipient m) s = (Inr (Some t), s)"
    using assms(3) by (simp add: from_cache_or_sql_def get_by_name_def retn_def)
  show ?thesis
    using assms(1,2,4)
    by (auto simp: handle_SendPrivateMessage_def silenced_bnd bnd_def [of "from_cache_or_sql _ _"] f dm_refusal_def Let_def
        emit_enqueue split: if_split_asm)
qed

theorem private_message_blocked_witness:
  "\<exists>d. exec (handle_SendPrivateMessage undefined \<lparr>msg_sender = [], msg_text = [104], msg_recipient = [98], msg_sender_id = 0\<rparr> 1)
     ((demo_server [1, 2] two_seated)\<lparr>s_player := (s_player (demo_server [1, 2] two_seated))
        (2 := (demo_player 4 [98] 2 [] [])\<lparr>p_blocks := {3}\<rparr>)\<rparr>) =
     deliver {1} d ((demo_server [1, 2] two_seated)\<lparr>s_player := (s_player (demo_server [1, 2] two_seated))
        (2 := (demo_player 4 [98] 2 [] [])\<lparr>p_blocks := {3}\<rparr>)\<rparr>)"
proof -
  let ?s = "(demo_server [1, 2] two_seated)\<lparr>s_player := (s_player (demo_server [1, 2] two_seated))
        (2 := (demo_player 4 [98] 2 [] [])\<lparr>p_blocks := {3}\<rparr>)\<rparr>"
  let ?m = "\<lparr>msg_sender = [], msg_text = [104], msg_recipient = [98], msg_sender_id = 0\<rparr> :: message"
  obtain d where d: "user_dm_blocked [98] = Inr d"
    by (simp add: user_dm_blocked_def pkt_def write_message_def wire_eval)
  have "fl (- 100) = - 100" using fl_of_int [of 100] by (simp add: fl_def)
  then have a: "\<not> muted ?s 1" by (simp add: muted_def remaining_silence_def demo_eval)
  have t: "strip (msg_text ?m) \<noteq> []" by (simp add: strip_def is_space_def)
  have f: "fst (from_cache_or_sql undefined (msg_recipient ?m) ?s) = Inr (Some (PT_online 2))"
    by (simp add: from_cache_or_sql_def get_by_name_def retn_def safe_name_def make_safe_name_def demo_eval)
  have "dm_refusal (s_now ?s) (target_player ?s (PT_online 2)) (p_id (s_player ?s 1)) (msg_recipient ?m) = Some (Inr d)"
    using d by (simp add: dm_refusal_def target_player_def demo_eval)
  from private_message_blocked [OF a t f this] show ?thesis by (auto simp: exec_def)
qed

section \<open>The password of a match\<close>

definition set_passwd :: "nat \<Rightarrow> pystr \<Rightarrow> server \<Rightarrow> server" where
  "set_passwd m pw s = s\<lparr>s_match := (s_match s)(m := (s_match s m)\<lparr>m_passwd := pw\<rparr>)\<rparr>"

text \<open>C10. The state of a match that is sent after every change shows its password to the
  members of the match's channel only: what everyone else receives, members of the lobby
  included, is the same for any two passwords with which the packet can be built, neither of them
  empty. Whether there is a password does show.\<close>

theorem match_password_confined:
  assumes s: "wfs s" and pw: "pw \<noteq> []" "pw' \<noteq> []"
    and b: "\<And>p f. p = pw \<or> p = pw' \<Longrightarrow> \<exists>d. update_match (match_info_of (set_passwd m p s) m) f = Inr d"
    and q: "q \<notin> members s (m_chat (s_match s m))"
  shows "p_queue (s_player (exec (enqueue_state m lobby) (set_passwd m pw s)) q) =
    p_queue (s_player (exec (enqueue_state m lobby) (set_passwd m pw' s)) q)"
proof -
  have w: "wfs (set_passwd m p s)" for p
    using s by (auto simp: set_passwd_def wfs_def chan_inv_def spec_inv_def seat_inv_def seated_def table_inv_def)
  have i: "match_info_of (set_passwd m p s) m = (match_info_of s m)\<lparr>mi_passwd := p\<rparr>" for p
    by (simp add: match_info_of_def set_passwd_def Let_def slot_info_of_def split: option.split)
  obtain e where e: "update_match ((match_info_of s m)\<lparr>mi_passwd := pw\<rparr>) False = Inr e"
    "update_match ((match_info_of s m)\<lparr>mi_passwd := pw'\<rparr>) False = Inr e"
    using b [of pw False] update_match_hides [OF pw, of "match_info_of s m"] by (auto simp: i)
  obtain d d' where d: "update_match ((match_info_of s m)\<lparr>mi_passwd := pw\<rparr>) True = Inr d"
    "update_match ((match_info_of s m)\<lparr>mi_passwd := pw'\<rparr>) True = Inr d'"
    using b [of pw True] b [of pw' True] by (auto simp: i)
  have mem: "members (set_passwd m p s) = members s" "lobby_members (set_passwd m p s) = lobby_members s"
    "m_chat (s_match (set_passwd m p s) m) = m_chat (s_match s m)"
    "s_player (set_passwd m p s) = s_player s" for p
    by (simp_all add: members_def lobby_members_def set_passwd_def fun_eq_iff split: option.split)
  have r1: "exec (enqueue_state m lobby) (set_passwd m pw s) =
      (if lobby then deliver (lobby_members s) e else id) (deliver (members s (m_chat (s_match s m))) d (set_passwd m pw s))"
    using enqueue_state_deliver [OF w [of pw], of m d e lobby] d(1) e(1) by (simp add: exec_def i mem)
  have r2: "exec (enqueue_state m lobby) (set_passwd m pw' s) =
      (if lobby then deliver (lobby_members s) e else id) (deliver (members s (m_chat (s_match s m))) d' (set_passwd m pw' s))"
    using enqueue_state_deliver [OF w [of pw'], of m d' e lobby] d(2) e(2) by (simp add: exec_def i mem)
  show ?thesis unfolding r1 r2 using q by (simp add: deliver_queue mem)
qed

lemma net_set_passwd: "net m u s \<Longrightarrow> short_str pw \<Longrightarrow> net m u (set_passwd m pw s)"
  by (simp add: net_def set_passwd_def chan_ok_def user_ok_def game_ok_def slot_ok_def)

theorem match_password_confined_witness:
  "p_queue (s_player (exec (enqueue_state 6 True) (set_passwd 6 [112] (demo_server [1] one_seated))) 2) =
   p_queue (s_player (exec (enqueue_state 6 True) (set_passwd 6 [113, 113] (demo_server [1] one_seated))) 2)"
proof (rule match_password_confined [OF wfs_demo(2)])
  fix p :: pystr and f
  assume "p = [112] \<or> p = [113, 113]"
  then have "short_str p" by (auto simp: short_str_def valid_str_def)
  from net_short_match [OF net_set_passwd [OF demo_net(1) this]]
  show "\<exists>d. update_match (match_info_of (set_passwd 6 p (demo_server [1] one_seated)) 6) f = Inr d"
    using match_builds(1) by (simp add: builds_def)
qed (simp_all add: members_def demo_eval)

end
