(* ===== verification/Lifecycle.thy ===== *)
theory Lifecycle
  imports Seats Talk
begin

text \<open>
  What holds of a session over its life: the invariant of the reachable states, what a logout
  leaves behind, and the places where the code does not do what it means to.
\<close>

section \<open>Reachable states\<close>

text \<open>What the invariant says of channels, spectators, seats and the table of matches.\<close>

lemma wfs_consistent:
  assumes w: "wfs s"
  shows "(\<forall>c. distinct (ch_players (s_channel s c)) \<and> (\<forall>r \<in> set (ch_players (s_channel s c)). c \<in> set (p_channels (s_player s r)))) \<and>
    (\<forall>h r. r \<in> set (p_spectators (s_player s h)) \<longleftrightarrow> p_spectating (s_player s r) = Some h) \<and>
    (\<forall>m j m' j' r. j < 16 \<longrightarrow> j' < 16 \<longrightarrow> seat_of s m j = Some r \<longrightarrow> seat_of s m' j' = Some r \<longrightarrow> m' = m \<and> j' = j) \<and>
    (\<forall>m j r. j < 16 \<longrightarrow> seat_of s m j = Some r \<longrightarrow> p_match (s_player s r) = Some m) \<and>
    (\<forall>m. length (m_slots (s_match s m)) = 16) \<and>
    length (s_matches s) = 64 \<and> (\<forall>i < 64. \<forall>m. s_matches s ! i = Some m \<longrightarrow> m_id (s_match s m) = int i)"
proof -
  have seat: "seat_of s m j = Some r \<longleftrightarrow> seated s m j r" if "j < 16" for m j r
    using that wfs_sixteen [OF w, of m] by (simp add: seat_of_def seated_def)
  have u: "m' = m \<and> j' = j" if "j < 16" "j' < 16" "seat_of s m j = Some r" "seat_of s m' j' = Some r" for m j m' j' r
    by (rule wfs_seat_unique [OF w that])
  show ?thesis
    using w u wfs_sixteen [OF w]
    by (auto simp: wfs_def chan_inv_def spec_inv_def table_inv_def seat seat_inv_def)
qed

definition empty_server :: server where
  "empty_server = (demo_server [] (replicate 16 None))
     \<lparr>s_player := (\<lambda>_. (demo_user 1 [99])\<lparr>p_is_bot := True\<rparr>), s_players := [0],
      s_matches := replicate 64 None, s_by_token := Map.empty, s_by_id := [1 \<mapsto> 0], s_by_name := [[99] \<mapsto> 0]\<rparr>"

definition no_ext :: ext where
  "no_ext = \<lparr>x_bmap_md5 = \<lambda>_. None, x_bmap_bid = \<lambda>_. None, x_commands = \<lambda>_ _ _. retn None,
     x_now_playing = \<lambda>_. None, x_np_reply = \<lambda>_ _ _. [], x_user_by_name = \<lambda>_. None\<rparr>"

lemma empty_server_initial: "initial empty_server"
  by (auto simp: initial_def empty_server_def demo_eval list_all_iff slot_empty_def)

lemma no_ext_ok: "ext_ok no_ext"
  by (simp add: ext_ok_def no_ext_def keeps_retn)

section \<open>Indexing the table of matches\<close>

text \<open>\<^verbatim>\<open>MatchJoin\<close> indexes the table with the client's number: a number of 64 or more, or
  below -64, raises \<^verbatim>\<open>IndexError\<close> in the middle of the request and changes nothing, and a
  negative one within the table counts from its end.\<close>

theorem match_join_index:
  assumes "wfs s"
  shows "if 64 \<le> i \<or> i < - 64 then handle_MatchJoin i pw r s = (Inl IndexError, s)
    else i < 0 \<longrightarrow> handle_MatchJoin i pw r s = handle_MatchJoin (i + 64) pw r s"
proof -
  have "length (s_matches s) = 64" using assms by (simp add: wfs_def table_inv_def)
  then show ?thesis
    by (auto simp: handle_MatchJoin_def py_index_def Let_def bnd_def lift_result_def gets_def)
qed

theorem match_join_index_witness:
  "handle_MatchJoin 64 [] 2 (demo_server [1] one_seated) = (Inl IndexError, demo_server [1] one_seated)"
  using match_join_index [OF wfs_demo(2), of 64 "[]" 2] by simp

section \<open>Requesting every presence\<close>

lemma concatE_raises: "q \<in> set qs \<Longrightarrow> f q = Inl e \<Longrightarrow> \<exists>e'. concatE (map f qs) = Inl e'"
proof (induction qs)
  case (Cons a qs)
  show ?case
  proof (cases "f a")
    case (Inr b)
    then have "q \<in> set qs" using Cons.prems by auto
    then show ?thesis using Cons.IH [OF _ Cons.prems(2)] Inr by (auto simp: concatE.simps(2))
  qed (simp add: concatE.simps(2))
qed simp

text \<open>A player without statistics for its mode, as the bot is, makes the request fail for everyone.\<close>

lemma presence_all_raises:
  assumes "set (e_order (s_env s) (unrestricted s)) = set (unrestricted s)"
    and "s_bot s \<in> set (s_players s)" "\<not> p_restricted (s_player s (s_bot s))" "p_stats (s_player s (s_bot s)) = Map.empty"
  shows "\<exists>e. handle_UserPresenceRequestAll r s = (Inl e, s)"
proof -
  have "s_bot s \<in> set (e_order (s_env s) (unrestricted s))"
    using assms by (simp add: unrestricted_def p_restricted_def)
  moreover have "presence_packet (s_player s (s_bot s)) = Inl KeyError"
    using assms(4) by (simp add: presence_packet_def)
  ultimately obtain e where "concatE (map (\<lambda>q. presence_packet (s_player s q)) (e_order (s_env s) (unrestricted s))) = Inl e"
    using concatE_raises [where q = "s_bot s" and f = "\<lambda>q. presence_packet (s_player s q)"] by blast
  then show ?thesis by (simp add: handle_UserPresenceRequestAll_def emit_def) (simp add: bnd_def lift_result_def)
qed

section \<open>The lobby and the passwords\<close>

text \<open>What \<^verbatim>\<open>LobbyJoin\<close> sends of each match carries its password.\<close>

lemma new_match_carries_password:
  assumes "ok_match i host" "mi_passwd i \<noteq> []" "new_match i = Inr d"
  shows "\<exists>mm rest. read_match (drop 7 d) = Inr (mm, rest) \<and> mm_passwd mm = mi_passwd i"
proof -
  obtain bs where w: "write_match i True = Inr bs" by (rule write_match_defined [OF assms(1), of True])
  have rd: "read_match (bs @ rest) = Inr (match_as_read i host True, rest)" for rest
    by (rule read_write_match [OF assms(1) w])
  have "write_packet (server_packet_id SP_NEW_MATCH) [A_match i True] = Inr d"
    using assms(3) by (simp only: new_match_def pkt_def)
  from write_packet_shape [OF this] obtain body where
    "concatE (map write_arg [A_match i True]) = Inr body"
    "d = int_bytes 2 (server_packet_id SP_NEW_MATCH) @ [0] @ int_bytes 4 (int (length body)) @ body" by blast
  then have "drop 7 d = bs" using w by (simp add: concatE.simps(2))
  then show ?thesis using rd [of "[]"] by (simp add: match_as_read_def)
qed

section \<open>Creating a match while in one\<close>

lemma bnd_InrD: "bnd m k s = (Inr x, s') \<Longrightarrow> \<exists>y t. m s = (Inr y, t) \<and> k y t = (Inr x, s')"
  by (auto simp: bnd_def split: prod.splits sum.splits)

lemma thn_InrD: "thn m k s = (Inr x, s') \<Longrightarrow> \<exists>y t. m s = (Inr y, t) \<and> k t = (Inr x, s')"
  unfolding thn_def by (rule bnd_InrD)

lemma quietD: "quiet m \<Longrightarrow> m s = (v, t) \<Longrightarrow> core t = core s"
  unfolding quiet_def by (metis snd_conv)

lemma lift_result_InrD: "lift_result v s = (Inr x, t) \<Longrightarrow> v = Inr x \<and> t = s"
  by (simp add: lift_result_def)

lemma gets_InrD: "gets f s = (Inr x, t) \<Longrightarrow> x = f s \<and> t = s"
  by (auto simp: gets_def)

lemma register_match_result:
  assumes "register_match d i s = (Inr m, t)" "i < length (s_matches s)"
  shows "s_matches t ! i = Some m \<and> m_slots (s_match t m) = replicate 16 new_slot \<and> s_player t = s_player s"
proof -
  let ?c = "channel_init (py ''#multi_'' @ str_int (int i))
            (py ''MID '' @ str_int (int i) @ 39 # py ''s multiplayer channel.'') P_UNRESTRICTED P_UNRESTRICTED False True"
  let ?s = "s\<lparr>s_channel := (s_channel s)(s_next s := ?c), s_next := Suc (s_next s)\<rparr>"
  have "new_channel ?c s = (Inr (s_next s), ?s)"
    by (simp add: new_channel_def retn_def)
  then show ?thesis
    using assms
    by (auto simp: register_match_def bnd_def [of "new_channel _"] new_game_def matches_set_def channels_append_def
        match_init_def retn_def dest!: bnd_InrD lift_result_InrD gets_InrD)
qed

text \<open>A player who is in a match and creates another one leaves an empty match in the table.\<close>

lemma match_create_leaks:
  assumes "wfs s" "p_match (s_player s r) = Some m0" "matches_get_free s = (Inr (Some i), s)"
    "validate_match_data d (p_id (s_player s r))" "\<not> p_restricted (s_player s r)" "\<not> muted s r"
    "handle_MatchCreate d r s = (Inr (), s')"
  shows "\<exists>m. s_matches s' ! i = Some m \<and> (\<forall>j < 16. seat_of s' m j = None) \<and> p_match (s_player s' r) = Some m0"
proof -
  have i: "i < length (s_matches s)"
    using assms(3) find_index_bound by (fastforce simp: matches_get_free_def gets_def)
  have "open_match d r i s = (Inr (), s')"
    using assms by (simp add: handle_MatchCreate_def silenced_bnd bnd_def [of matches_get_free])
  then obtain m t where m: "register_match d i s = (Inr m, t)"
    and k: "thn (latest_activity_soon r) (bnd (join_match r m (mm_passwd d)) (\<lambda>_.
      bnd (gets (\<lambda>s. s_match s m)) (\<lambda>g. bnd (player r p_name) (\<lambda>n.
      thn (ch_send_bot (m_chat g) (py ''Match created by '' @ n @ py ''.''))
        (spawn (Match_created m (m_name g) (m_host_id g) (m_public_history g))))))) t = (Inr (), s')"
    unfolding open_match_def by (auto dest!: bnd_InrD)
  note rm = register_match_result [OF m i]
  obtain t1 where t1: "latest_activity_soon r t = (Inr (), t1)"
    and j: "bnd (join_match r m (mm_passwd d)) (\<lambda>_.
      bnd (gets (\<lambda>s. s_match s m)) (\<lambda>g. bnd (player r p_name) (\<lambda>n.
      thn (ch_send_bot (m_chat g) (py ''Match created by '' @ n @ py ''.''))
        (spawn (Match_created m (m_name g) (m_host_id g) (m_public_history g)))))) t1 = (Inr (), s')"
    using thn_InrD [OF k] by auto
  have c1: "core t1 = core t" by (rule quietD [OF quiet_latest_activity_soon t1])
  have "p_match (s_player t1 r) = Some m0"
    using rm assms(2) c1 core_sel(4) by metis
  then have "join_match r m (mm_passwd d) t1 = join_fail r t1" by (simp add: join_match_def)
  then obtain b t2 where t2: "join_fail r t1 = (Inr b, t2)" and l: "bnd (gets (\<lambda>s. s_match s m)) (\<lambda>g. bnd (player r p_name) (\<lambda>n.
      thn (ch_send_bot (m_chat g) (py ''Match created by '' @ n @ py ''.''))
        (spawn (Match_created m (m_name g) (m_host_id g) (m_public_history g))))) t2 = (Inr (), s')"
    using bnd_InrD [OF j] by auto
  have c2: "core t2 = core t1" by (rule quietD [OF quiet_join_fail t2])
  have "quiet (bnd (gets (\<lambda>s. s_match s m)) (\<lambda>g. bnd (player r p_name) (\<lambda>n.
      thn (ch_send_bot (m_chat g) (py ''Match created by '' @ n @ py ''.''))
        (spawn (Match_created m (m_name g) (m_host_id g) (m_public_history g))))))"
    by (intro quiets)
  from quietD [OF this l] have c: "core s' = core t" using c1 c2 by simp
  have "s_matches s' = s_matches t" "s_match s' m = s_match t m" "p_match (s_player s' r) = p_match (s_player t r)"
    using c core_sel(4,10,16) by metis+
  then show ?thesis using rm assms(2) by (auto simp: seat_of_def new_slot_def)
qed

section \<open>Logging out\<close>

abbreviation same_roster :: "nat list \<Rightarrow> 'a sop \<Rightarrow> bool" where
  "same_roster ps m \<equiv> keeps (\<lambda>s. s_players s = ps) m"

named_theorems roster_keeps \<open>operations that leave the list of players alone\<close>

lemma quiet_roster: "quiet m \<Longrightarrow> same_roster ps m"
  unfolding quiet_def keeps_def by (metis core_sel(11))

lemmas [roster_keeps] = quiet_ops [THEN quiet_roster]

lemma roster_modify [roster_keeps]: "(\<And>s. s_players (f s) = s_players s) \<Longrightarrow> same_roster ps (modify f)"
  by (rule keeps_modify) simp

lemma roster_leave [roster_keeps]:
  "same_roster ps (upd_player r f)" "same_roster ps (upd_match m g)" "same_roster ps (upd_channel c h)"
  "same_roster ps (leave_channel r c k)" "same_roster ps (remove_spectator q r)" "same_roster ps (matches_remove m)"
  unfolding upd_player_def upd_match_def upd_channel_def leave_channel_def chan_exit_def ch_remove_def channels_remove_def
    remove_spectator_def spec_unlink_def matches_remove_def
  by (intro keeps_intros roster_keeps; simp split: option.split)+

lemma roster_leave_match [roster_keeps]: "same_roster ps (leave_match r)"
  unfolding leave_match_def close_match_def cancel_starting_def hand_over_def drop_referee_def free_slot_def upd_slot_def
  by (intro keeps_intros roster_keeps; simp)

lemma roster_leave_all [roster_keeps]: "same_roster ps (leave_all n r)"
proof (induction n)
  case (Suc n)
  then show ?case unfolding leave_all.simps by (intro keeps_intros keeps_list roster_keeps)
qed (unfold leave_all.simps, intro keeps_intros roster_keeps)

text \<open>What the parts of a logout reach when they return.\<close>

lemma leave_match_gone:
  "triple wfs (bnd (player r p_match) (\<lambda>m. if m \<noteq> None then leave_match r else skip))
     (\<lambda>_ s. wfs s \<and> p_match (s_player s r) = None) (\<lambda>_. True)"
  unfolding triple_def player_def
proof (intro allI impI)
  fix s assume w: "wfs s"
  show "case bnd (gets (\<lambda>s. p_match (s_player s r))) (\<lambda>m. if m \<noteq> None then leave_match r else skip) s of
      (Inl e, s') \<Rightarrow> True | (Inr x, s') \<Rightarrow> wfs s' \<and> p_match (s_player s' r) = None"
  proof (cases "p_match (s_player s r)")
    case (Some m)
    have "wfs s' \<and> p_match (s_player s' r) = None" if "leave_match r s = (Inr (), s')" for s'
      using leave_match_none [OF w Some that] wfs_after_leave [OF w that] by simp
    then show ?thesis using Some by (auto split: prod.split sum.split)
  qed (use w in \<open>simp add: skip_def retn_def\<close>)
qed

lemma leave_all_gone:
  "triple wfs (leave_all n r) (\<lambda>_ s. wfs s \<and> p_channels (s_player s r) = []) (\<lambda>_. True)"
proof (induction n)
  case 0
  then show ?case by (auto simp: triple_def player_def skip_def retn_def raise_def)
next
  case (Suc n)
  have k: "triple wfs (thn (leave_channel r c False) (leave_all n r)) (\<lambda>_ s. wfs s \<and> p_channels (s_player s r) = []) (\<lambda>_. True)" for c
    by (rule triple_thn [OF _ Suc]) (rule triple_keeps, intro wf_keeps, simp_all)
  show ?case
    unfolding leave_all.simps player_def
    apply (rule triple_gets_bnd)
    apply (rename_tac cs, case_tac cs)
     apply (simp, rule triple_skip, simp)
    apply (simp only: list.case)
    apply (rule triple_conseq [OF k]; simp)
    done
qed

text \<open>Nobody refers to a player without a match, a channel or a host.\<close>

definition detached :: "nat \<Rightarrow> server \<Rightarrow> bool" where
  "detached r s \<longleftrightarrow> (\<forall>c. r \<notin> members s c) \<and> (\<forall>m j. j < 16 \<longrightarrow> seat_of s m j \<noteq> Some r) \<and>
     (\<forall>h. r \<notin> set (p_spectators (s_player s h)))"

lemma detachedI:
  assumes "wfs s" "p_match (s_player s r) = None" "p_spectating (s_player s r) = None" "p_channels (s_player s r) = []"
  shows "detached r s"
proof -
  have "r \<notin> members s c" for c
    using assms(1,4) unfolding members_def wfs_def chan_inv_def by (metis empty_iff empty_set)
  moreover have "seat_of s m j \<noteq> Some r" if "j < 16" for m j
  proof
    assume "seat_of s m j = Some r"
    then have "seated s m j r" using that wfs_sixteen [OF assms(1), of m] by (simp add: seat_of_def seated_def)
    then show False using assms(1,2) by (auto simp: wfs_def seat_inv_def)
  qed
  moreover have "r \<notin> set (p_spectators (s_player s h))" for h
    using assms(1,3) by (auto simp: wfs_def spec_inv_def)
  ultimately show ?thesis by (simp add: detached_def)
qed

lemma wfl_leave_all [wfl_keeps]: "keeps (wfl v) (leave_all n r)"
proof (induction n)
  case (Suc n)
  then show ?case unfolding leave_all.simps by (intro keeps_intros keeps_list wfl_keeps)
qed (unfold leave_all.simps, intro keeps_intros wfl_keeps)

lemma matchless_remove_spectator: "keeps (\<lambda>s. p_match (s_player s q) = None) (remove_spectator h r)"
proof -
  have q: "quiet m \<Longrightarrow> keeps (\<lambda>s. p_match (s_player s q) = None) m" for m :: "'a sop"
    unfolding quiet_def keeps_def by (metis core_sel(4))
  have u: "(\<And>p. p_match (f p) = p_match p) \<Longrightarrow> keeps (\<lambda>s. p_match (s_player s q) = None) (upd_player p' f)" for p' f
    unfolding upd_player_def by (rule keeps_modify) (metis (mono_tags) fun_upd_apply server.select_convs(1) server.surjective server.update_convs(1))
  have m: "(\<And>s. s_player (f s) = s_player s) \<Longrightarrow> keeps (\<lambda>s. p_match (s_player s q) = None) (modify f)" for f
    by (rule keeps_modify) simp
  show ?thesis
    unfolding remove_spectator_def spec_unlink_def leave_channel_def chan_exit_def ch_remove_def channels_remove_def upd_channel_def
    by (intro keeps_intros u m q quiets; simp)
qed

lemma links_of: "keeps (wfl v) m \<Longrightarrow> wfs s \<Longrightarrow> v = links s \<Longrightarrow> m s = (x, t) \<Longrightarrow> wfs t \<and> links t = links s"
  by (auto simp: keeps_def wfl_def dest!: spec [of _ s])

lemma logout_detaches:
  assumes w: "wfs s" and l: "logout r s = (Inr (), s')"
  shows "wfs s' \<and> detached r s' \<and> p_token (s_player s' r) = [] \<and>
    (distinct (s_players s) \<longrightarrow> r \<notin> set (s_players s'))"
proof -
  let ?a = "bnd (player r p_match) (\<lambda>m. if m \<noteq> None then leave_match r else skip)"
  let ?b = "bnd (player r p_spectating) (\<lambda>h. case h of None \<Rightarrow> skip | Some h \<Rightarrow> remove_spectator h r)"
  let ?c = "bnd (player r p_channels) (\<lambda>cs. leave_all (length cs) r)"
  let ?e = "upd_player r (\<lambda>p. p\<lparr>p_token := []\<rparr>)"
  let ?f = "bnd (player r (\<lambda>p. (p_restricted p, p_id p))) (\<lambda>(restr, i).
          if \<not> restr then emit (logout_packet i) (\<lambda>d. players_enqueue d []) else skip)"
  obtain t1 t2 t3 t4 t5 where a: "?a s = (Inr (), t1)" and b: "?b t1 = (Inr (), t2)" and c: "?c t2 = (Inr (), t3)"
    and d: "players_remove r t3 = (Inr (), t4)" and e: "?e t4 = (Inr (), t5)" and f: "?f t5 = (Inr (), s')"
    using l unfolding logout_def by (auto dest!: thn_InrD)
  have 1: "wfs t1" "p_match (s_player t1 r) = None"
    using tripleD [OF leave_match_gone w a] by simp_all
  have 2: "wfs t2" "p_spectating (s_player t2 r) = None" "p_match (s_player t2 r) = None"
  proof -
    have "triple wfs ?b (\<lambda>_ s. wfs s \<and> p_spectating (s_player s r) = None) (\<lambda>_. True)"
      unfolding player_def
      apply (rule triple_gets_bnd)
      apply (rename_tac h, case_tac h)
       apply (simp, rule triple_skip, simp)
      apply (simp only: option.case, rule triple_conseq [OF remove_spectator_alone]; simp)
      done
    from tripleD [OF this 1(1) b] show "wfs t2" "p_spectating (s_player t2 r) = None" by simp_all
    have kb: "keeps (\<lambda>s. p_match (s_player s r) = None) ?b"
      by (intro keeps_intros matchless_remove_spectator) (simp_all add: player_def keeps_gets)
    show "p_match (s_player t2 r) = None"
      using keepsD [where P = "\<lambda>s. p_match (s_player s r) = None" and m = ?b and s = t1, OF kb 1(2) b] .
  qed
  have 3: "wfs t3" "p_channels (s_player t3 r) = []" "links t3 = links t2"
  proof -
    have c': "leave_all (length (p_channels (s_player t2 r))) r t2 = (Inr (), t3)"
      using c by (simp add: player_def)
    from tripleD [OF leave_all_gone 2(1) c'] show "wfs t3" "p_channels (s_player t3 r) = []" by simp_all
    show "links t3 = links t2" using links_of [OF wfl_leave_all 2(1) refl c'] by simp
  qed
  have 4: "wfs t4" "links t4 = links t3" using links_of [OF wfl_players_remove 3(1) refl d] by simp_all
  have "keeps (wfl (links t4)) ?e" by (intro wfl_keeps) simp_all
  from links_of [OF this 4(1) refl e] have 5: "wfs t5" "links t5 = links t4" by simp_all
  have qf: "quiet ?f" by (intro quiets)
  have cf: "core s' = core t5" by (rule quietD [OF qf f])
  have pl: "p_match (s_player s' q) = p_match (s_player t5 q)" "p_spectating (s_player s' q) = p_spectating (s_player t5 q)"
    "p_channels (s_player s' q) = p_channels (s_player t5 q)" "p_token (s_player s' q) = p_token (s_player t5 q)"
    "s_players s' = s_players t5" for q
    using cf core_sel(1,3,4,8,11) by metis+
  have 6: "wfs s'" using 5(1) cf wf_core by metis
  have lk: "p_match (s_player t5 r) = None" "p_spectating (s_player t5 r) = None"
    using 2(2,3) 3(3) 4(2) 5(2) unfolding links_def by (metis prod.inject)+
  have "s_player t4 = s_player t3 \<and> (distinct (s_players t3) \<longrightarrow> r \<notin> set (s_players t4))"
    using d by (auto simp: players_remove_def drop_token_def drop_id_def drop_name_def skip_def retn_def
        dest!: thn_InrD bnd_InrD gets_InrD lift_result_InrD split: if_split_asm) (auto simp: modify_def)
  moreover have "s_players t3 = s_players s"
  proof -
    have "same_roster ps ?a" "same_roster ps ?b" "same_roster ps ?c" for ps
      by (intro keeps_intros roster_keeps)+
    then show ?thesis using a b c unfolding keeps_def by (metis snd_conv)
  qed
  moreover have "p_channels (s_player t5 r) = p_channels (s_player t4 r) \<and> p_token (s_player t5 r) = [] \<and> s_players t5 = s_players t4"
    using e by (auto simp: upd_player_def modify_def)
  ultimately show ?thesis
    using 3(2) 6 pl lk detachedI [of s' r] by simp
qed

text \<open>C11. A logout that returns leaves nothing behind: the sessions are still well formed, the
  player is in no channel, sits in no match, is in nobody's spectator list, is gone from the
  list of players, and its token is empty, so that no request finds it.\<close>

theorem logout_leaves_nothing:
  assumes "wfs s" "distinct (s_players s)" "logout r s = (Inr (), s')"
  shows "wfs s' \<and> r \<notin> set (s_players s') \<and> p_token (s_player s' r) = [] \<and>
    (\<forall>c. r \<notin> set (ch_players (s_channel s' c))) \<and> (\<forall>m j. j < 16 \<longrightarrow> seat_of s' m j \<noteq> Some r) \<and>
    (\<forall>h. r \<notin> set (p_spectators (s_player s' h)))"
  using logout_detaches [OF assms(1,3)] assms(2) by (simp add: detached_def members_def)

lemma logout_idle:
  "p_match (s_player s r) = None \<Longrightarrow> p_spectating (s_player s r) = None \<Longrightarrow> p_channels (s_player s r) = [] \<Longrightarrow>
   logout r s = thn (players_remove r) (thn (upd_player r (\<lambda>p. p\<lparr>p_token := []\<rparr>))
     (bnd (player r (\<lambda>p. (p_restricted p, p_id p))) (\<lambda>(restr, i).
        if \<not> restr then emit (logout_packet i) (\<lambda>d. players_enqueue d []) else skip))) s"
  by (simp add: logout_def player_def thn_read)

lemma demo_logout: "\<exists>s'. logout 2 (demo_server [1] one_seated) = (Inr (), s')"
proof -
  let ?s = "demo_server [1] one_seated"
  obtain d where d: "logout_packet 4 = Inr d"
    by (simp add: logout_packet_def pkt_def wire_eval)
  have "sure (\<lambda>_. True) (players_enqueue d [])"
    unfolding players_enqueue_def p_enqueue_def upd_player_def by (intro sure_intros sure_modify)
  then have q: "\<exists>s'. players_enqueue d [] s = (Inr (), s')" for s
    using sure_returns [of "\<lambda>_. True"] by fastforce
  have p: "p_match (s_player ?s 2) = None" "p_spectating (s_player ?s 2) = None" "p_channels (s_player ?s 2) = []"
    by (simp_all add: demo_eval one_seated_def)
  obtain t where t: "players_remove 2 ?s = (Inr (), t)" and pt: "s_player t = s_player ?s"
    by (simp add: demo_eval one_seated_def players_remove_def drop_token_def drop_id_def drop_name_def dict_del_def
        safe_name_def make_safe_name_def thn_def bnd_def gets_def modify_def lift_result_def)
  have "logout 2 ?s = thn (players_remove 2) (thn (upd_player 2 (\<lambda>p. p\<lparr>p_token := []\<rparr>))
       (bnd (player 2 (\<lambda>p. (p_restricted p, p_id p))) (\<lambda>(restr, i).
          if \<not> restr then emit (logout_packet i) (\<lambda>d. players_enqueue d []) else skip))) ?s"
    by (rule logout_idle [OF p])
  also have "\<dots> = emit (logout_packet 4) (\<lambda>d. players_enqueue d []) (t\<lparr>s_player := (s_player t)(2 := (s_player t 2)\<lparr>p_token := []\<rparr>)\<rparr>)"
    unfolding thn_ok [where m = "players_remove 2" and s = ?s, OF t]
    by (simp add: upd_player_def player_def pt p_restricted_def P_UNRESTRICTED_def has_def) (simp add: demo_eval)
  finally show ?thesis using q by (simp add: d emit_def bnd_def lift_result_def)
qed

theorem logout_leaves_nothing_witness:
  "\<exists>s'. logout 2 (demo_server [1] one_seated) = (Inr (), s') \<and> 2 \<notin> set (s_players s')"
proof -
  obtain s' where l: "logout 2 (demo_server [1] one_seated) = (Inr (), s')" using demo_logout by blast
  have "distinct (s_players (demo_server [1] one_seated))" by (simp add: demo_eval)
  from logout_leaves_nothing [OF wfs_demo(2) this l] l show ?thesis by blast
qed

end
