(* ===== verification/Rules.thy ===== *)
theory Rules
  imports Reach Demo
begin

text \<open>
  The properties of the pure parts the session relies on: mod combinations, the strings of a
  login, the password cache.
\<close>

section \<open>Mod combinations\<close>

text \<open>\<^verbatim>\<open>filter_invalid_combos\<close> only ever removes mods, and what is left has no
  conflicting pair, nothing foreign to the game mode and at most one key mod; the
  \<^verbatim>\<open>GameMode\<close> of the result exists and is a submode of the same vanilla mode.\<close>

theorem filtered_mods_valid:
  assumes "valid_mods m" "0 \<le> v" "v \<le> 3"
  shows "sub_mods (filter_invalid_combos m v) m \<and> conflict_free (filter_invalid_combos m v) \<and>
    mode_conform (filter_invalid_combos m v) v \<and>
    (\<exists>g. from_params v (filter_invalid_combos m v) = Inr g \<and> g \<in> set valid_gamemodes \<and> as_vanilla g = v)"
  using assms by (simp add: filter_invalid_combos_sub filter_conflict_free filter_mode_conform from_params_filtered)

theorem filtered_mods_valid_witness: "conflict_free (filter_invalid_combos 64 1)"
  using filtered_mods_valid [of 64 1] by (simp add: valid_mods_def)

text \<open>The combination it lets through: DT, NC and HT together become NC and HT.\<close>

lemma filter_keeps_nc_ht: "has (filter_invalid_combos (M_DOUBLETIME OR M_NIGHTCORE OR M_HALFTIME) 0) M_NIGHTCORE \<and>
    has (filter_invalid_combos (M_DOUBLETIME OR M_NIGHTCORE OR M_HALFTIME) 0) M_HALFTIME"
  by (simp add: mod_values) code_simp

text \<open>The text of any combination of mods parses back to it, given an upper-casing function
  that leaves the two-letter abbreviations alone.\<close>

theorem mods_text_round_trip:
  assumes "valid_mods m" "\<And>p. p \<in> set mod2modstr \<Longrightarrow> upper (py (snd p)) = py (snd p)" "upper (py ''NM'') = py ''NM''"
  shows "from_modstr upper (mods_repr m) = m"
  by (rule from_modstr_repr [OF assms])

theorem mods_text_round_trip_witness: "from_modstr id (mods_repr 72) = 72"
  by (rule mods_text_round_trip) (simp_all add: valid_mods_def)

section \<open>The adapters of a login\<close>

lemma join_split_on: "join_with c (split_on c s) = s"
proof (induction s)
  case (Cons x s)
  have ne: "split_on c s \<noteq> []" for s by (induction s) (auto split: list.split)
  then show ?case using Cons ne [of s] by (cases "split_on c s"; cases "tl (split_on c s)") auto
qed simp

lemma ends_with_char: "ends_with s [c] \<longleftrightarrow> s \<noteq> [] \<and> last s = c"
proof (cases "s = []")
  case False
  then have "drop (length s - 1) s = [last s]"
    by (metis One_nat_def append_butlast_last_id append_eq_conv_conj length_butlast)
  then show ?thesis using False by (simp add: ends_with_def Suc_le_eq)
qed (simp add: ends_with_def)

text \<open>The hashes string a session shows for its client is the one the client sent: the
  parsed adapters are put back together character by character. The only adapters string for
  which it is not is the Wine marker with a dot after it.\<close>

theorem client_hash_restored:
  assumes "parse_adapters_string s = Inr (adapters, wine)" "s \<noteq> WINE_ADAPTER_SENTINEL @ [46]"
  shows "client_hash path adapters md5 uninstall disk = path @ [58] @ s @ [58] @ md5 @ [58] @ uninstall @ [58] @ disk @ [58]"
proof (cases "s = WINE_ADAPTER_SENTINEL")
  case True
  then show ?thesis using assms by (auto simp: parse_adapters_string_def client_hash_def Let_def)
next
  case False
  then have e: "s \<noteq> []" "last s = 46" "adapters = split_on 46 (butlast s)"
    using assms(1) by (auto simp: parse_adapters_string_def ends_with_char split: if_split_asm)
  then have "butlast s @ [46] = s" by (metis append_butlast_last_id)
  then have "butlast s \<noteq> WINE_ADAPTER_SENTINEL" using assms(2) by metis
  with e show ?thesis
    using \<open>butlast s @ [46] = s\<close> by (simp add: client_hash_def Let_def join_split_on)
qed

theorem client_hash_restored_witness: "client_hash [1] [[65], [66]] [2] [3] [4] = [1, 58, 65, 46, 66, 46, 58, 2, 58, 3, 58, 4, 58]"
proof -
  have "parse_adapters_string [65, 46, 66, 46] = Inr ([[65], [66]], False)"
    by (simp add: parse_adapters_string_def WINE_ADAPTER_SENTINEL_def py_def ends_with_def)
  from client_hash_restored [OF this, of "[1]" "[2]" "[3]" "[4]"] show ?thesis
    by (simp add: WINE_ADAPTER_SENTINEL_def py_def)
qed

section \<open>The body of a login\<close>

lemma split_max_app: "sep \<notin> set a \<Longrightarrow> split_max sep (Suc n) (a @ sep # b) = a # split_max sep n b"
proof -
  assume a: "sep \<notin> set a"
  have "find_index (\<lambda>c. c = sep) (a @ sep # b) = Some (length a)"
    using a by (auto simp: find_index_Some_iff nth_append)
  then show ?thesis by simp
qed

lemma split_max_join:
  "\<forall>w \<in> set ws. sep \<notin> set w \<Longrightarrow> n = length ws \<Longrightarrow> x = concat (map (\<lambda>w. w @ [sep]) ws) @ z \<Longrightarrow>
   split_max sep n x = ws @ [z]"
proof (induction ws arbitrary: n x)
  case (Cons w ws)
  then have "split_max sep n x = w # split_max sep (length ws) (concat (map (\<lambda>w. w @ [sep]) ws) @ z)"
    using split_max_app [of sep w "length ws"] by simp
  then show ?case using Cons by simp
qed simp

lemma digits_nat_digits: "digits_value ascii_digit False acc (nat_digits n) =
    Inr (acc * 10 ^ length (nat_digits n) + int n)"
proof -
  have app: "digits_value ascii_digit b acc (s @ [48 + d]) =
      bindE (digits_value ascii_digit b acc s) (\<lambda>v. Inr (v * 10 + int d))"
    if "s \<noteq> []" "\<forall>c \<in> set s. 48 \<le> c \<and> c < 58" "d < 10" for b acc s d
    using that
  proof (induction s arbitrary: b acc)
    case (Cons c s)
    have d: "ascii_digit c = Some (c - 48)" "c \<noteq> 95" "ascii_digit (48 + d) = Some d"
      using Cons.prems by (auto simp: ascii_digit_def)
    show ?case
    proof (cases "s = []")
      case False
      with Cons have "digits_value ascii_digit True (acc * 10 + int (c - 48)) (s @ [48 + d]) =
          bindE (digits_value ascii_digit True (acc * 10 + int (c - 48)) s) (\<lambda>v. Inr (v * 10 + int d))" by simp
      then show ?thesis using d by simp
    qed (use d Cons.prems(3) in simp)
  qed simp
  show ?thesis
  proof (induction n rule: nat_digits.induct)
    case (1 n)
    show ?case
    proof (cases "n < 10")
      case True
      then show ?thesis by (simp add: nat_digits.simps [of n] ascii_digit_def)
    next
      case False
      have ne: "nat_digits (n div 10) \<noteq> []" by (subst nat_digits.simps) simp
      have "digits_value ascii_digit False acc (nat_digits n) =
          bindE (digits_value ascii_digit False acc (nat_digits (n div 10))) (\<lambda>v. Inr (v * 10 + int (n mod 10)))"
        using False app [OF ne] nat_digits_ascii by (subst nat_digits.simps) simp
      moreover have "nat_digits n = nat_digits (n div 10) @ [48 + n mod 10]"
        using False by (subst nat_digits.simps) simp
      moreover have "int n = int (n div 10) * 10 + int (n mod 10)" by presburger
      ultimately show ?thesis using 1 False by (simp add: algebra_simps)
    qed
  qed
qed

lemma py_int_str_int: "py_int ascii_digit (str_int i) = Inr i"
proof -
  have ns: "strip s = s" if "\<forall>c \<in> set s. \<not> is_space c" for s
  proof -
    have dw: "dropWhile is_space t = t" if "\<forall>c \<in> set t. \<not> is_space c" for t using that by (cases t) simp_all
    show ?thesis using that dw [of s] dw [of "rev s"] by (simp add: strip_def)
  qed
  have ds: "\<forall>c \<in> set (nat_digits n). 48 \<le> c \<and> c < 58" "nat_digits n \<noteq> []" for n
    using nat_digits_ascii by (blast, subst nat_digits.simps, simp)
  have sp: "\<forall>c \<in> set (nat_digits n). \<not> is_space c" for n using ds(1) [of n] by (fastforce simp: is_space_def)
  show ?thesis
  proof (cases "i < 0")
    case True
    then have "strip (str_int i) = 45 # nat_digits (nat (- i))" using sp by (subst ns) (auto simp: str_int_def is_space_def)
    then show ?thesis using True by (simp add: py_int_def digits_nat_digits)
  next
    case False
    then have "strip (str_int i) = nat_digits (nat i)" using sp by (subst ns) (auto simp: str_int_def)
    moreover obtain c t where c: "nat_digits (nat i) = c # t" using ds(2) by (cases "nat_digits (nat i)") auto
    moreover have "48 \<le> c" using ds(1) [of "nat i"] c by simp
    ultimately show ?thesis using False digits_nat_digits [of 0 "nat i"] by (simp add: py_int_def)
  qed
qed

text \<open>The text a client sends.\<close>

definition login_text :: "login_data \<Rightarrow> pystr \<Rightarrow> pystr" where
  "login_text d pw =
     ld_username d @ [10] @ pw @ [10] @ ld_osu_version d @ [124] @ str_int (ld_utc_offset d) @ [124] @
     (if ld_display_city d then py ''1'' else py ''0'') @ [124] @
     (ld_osu_path_md5 d @ [58] @ ld_adapters_str d @ [58] @ ld_adapters_md5 d @ [58] @ ld_uninstall_md5 d @ [58] @
      ld_disk_signature_md5 d @ [58]) @ [124] @ (if ld_pm_private d then py ''1'' else py ''0'') @ [10]"

definition login_fields_ok :: "login_data \<Rightarrow> pystr \<Rightarrow> bool" where
  "login_fields_ok d pw \<longleftrightarrow> 10 \<notin> set (ld_username d) \<and> 10 \<notin> set pw \<and> 124 \<notin> set (ld_osu_version d) \<and>
     list_all (\<lambda>f. 58 \<notin> set f \<and> 124 \<notin> set f)
       [ld_osu_path_md5 d, ld_adapters_str d, ld_adapters_md5 d, ld_uninstall_md5 d] \<and>
     124 \<notin> set (ld_disk_signature_md5 d) \<and> valid_str pw \<and> utf8_encode pw = Inr (ld_password_md5 d)"

lemma str_int_no_bar: "124 \<notin> set (str_int i)"
  using nat_digits_ascii [of 124] by (auto simp: str_int_def)

lemma login_text_parses:
  assumes ok: "login_fields_ok d pw" and v: "valid_str (login_text d pw)" and e: "utf8_encode (login_text d pw) = Inr body"
  shows "parse_login_data ascii_digit body = Inr d"
proof -
  define city where "city = (if ld_display_city d then py ''1'' else py ''0'')"
  define pm where "pm = (if ld_pm_private d then py ''1'' else py ''0'')"
  define hs where "hs = ld_osu_path_md5 d @ [58] @ ld_adapters_str d @ [58] @ ld_adapters_md5 d @ [58] @ ld_uninstall_md5 d @ [58] @
      ld_disk_signature_md5 d"
  define rest where "rest = ld_osu_version d @ 124 # str_int (ld_utc_offset d) @ 124 # city @ 124 # hs @ 58 # 124 # pm"
  have t: "utf8_decode body = Inr (login_text d pw)" by (rule utf8_decode_encode [OF e v])
  have r: "rstrip_char 10 (login_text d pw) = ld_username d @ 10 # pw @ 10 # rest"
    by (simp add: rstrip_char_def login_text_def py_def rest_def hs_def city_def pm_def)
  have s1: "split_max 10 2 (ld_username d @ 10 # pw @ 10 # rest) = [ld_username d, pw] @ [rest]"
    using ok by (intro split_max_join) (simp_all add: login_fields_ok_def)
  have s2: "split_max 124 4 rest = [ld_osu_version d, str_int (ld_utc_offset d), city, hs @ [58]] @ [pm]"
    using ok str_int_no_bar by (intro split_max_join) (simp_all add: login_fields_ok_def py_def rest_def hs_def city_def)
  have s3: "split_max 58 4 hs = [ld_osu_path_md5 d, ld_adapters_str d, ld_adapters_md5 d, ld_uninstall_md5 d] @
      [ld_disk_signature_md5 d]"
    using ok by (intro split_max_join) (simp_all add: login_fields_ok_def hs_def)
  have f: "(city = py ''1'') = ld_display_city d" "(pm = py ''1'') = ld_pm_private d"
    by (simp_all add: city_def pm_def py_def)
  show ?thesis
    using ok by (simp add: parse_login_data_def t r s1 s2 s3 f login_fields_ok_def py_int_str_int)
qed

text \<open>C39. A login body made from the fields of a client (no line break in the name or the hash,
  no bar in the version, no bar or colon in the client hashes but for a colon in the last) is parsed into exactly these
  fields, the offset as the integer and the flags as booleans.\<close>

theorem login_body_round_trip:
  assumes ok: "login_fields_ok d pw" and v: "valid_str (login_text d pw)" and e: "utf8_encode (login_text d pw) = Inr body"
  shows "parse_login_data ascii_digit body = Inr d"
  by (rule login_text_parses [OF assms])

theorem login_body_round_trip_witness:
  "\<exists>body. parse_login_data ascii_digit body =
     Inr \<lparr>ld_username = [97], ld_password_md5 = [98], ld_osu_version = [99], ld_utc_offset = -3, ld_display_city = True,
       ld_pm_private = False, ld_osu_path_md5 = [100], ld_adapters_str = [101, 46], ld_adapters_md5 = [102],
       ld_uninstall_md5 = [103], ld_disk_signature_md5 = [104]\<rparr>"
proof -
  let ?d = "\<lparr>ld_username = [97], ld_password_md5 = [98], ld_osu_version = [99], ld_utc_offset = -3, ld_display_city = True,
       ld_pm_private = False, ld_osu_path_md5 = [100], ld_adapters_str = [101, 46], ld_adapters_md5 = [102],
       ld_uninstall_md5 = [103], ld_disk_signature_md5 = [104]\<rparr> :: login_data"
  have "valid_str (str_int (- 3))" using nat_digits_ascii by (fastforce simp: valid_str_def str_int_def)
  then have v: "valid_str (login_text ?d [98])" by (simp add: login_text_def valid_str_def py_def ball_Un)
  then obtain body where e: "utf8_encode (login_text ?d [98]) = Inr body" using utf8_encode_valid by blast
  have "login_fields_ok ?d [98]" by (simp add: login_fields_ok_def valid_str_def utf8_char_def byte_of_def)
  from login_body_round_trip [OF this v e] show ?thesis by blast
qed

end
