(* ===== verification/Access.thy ===== *)
theory Access
  imports Lifecycle Rules
begin

text \<open>
  The properties of authentication: what the password cache accepts, that a refused login
  admits nobody, and that it already cost the named user its session.
\<close>

section \<open>The password cache\<close>

definition cache_ok :: "(bytes \<Rightarrow> bytes \<Rightarrow> bool) \<Rightarrow> (bytes \<Rightarrow> bytes option) \<Rightarrow> bool" where
  "cache_ok checkpw cache \<longleftrightarrow> (\<forall>h p. cache h = Some p \<longrightarrow> checkpw p h)"

text \<open>A run of checks, each with the cache the ones before it left.\<close>

fun check_all :: "(bytes \<Rightarrow> bytes \<Rightarrow> bool) \<Rightarrow> (bytes \<Rightarrow> bytes option) \<Rightarrow> (bytes \<times> bytes) list \<Rightarrow> bool list" where
  "check_all checkpw cache [] = []"
| "check_all checkpw cache ((h, p) # xs) =
     (let (ok, cache') = check_credentials checkpw cache h p in ok # check_all checkpw cache' xs)"

lemma check_credentials_sound:
  assumes "cache_ok checkpw cache" "check_credentials checkpw cache h p = (ok, cache')"
  shows "(ok \<longrightarrow> checkpw p h) \<and> cache_ok checkpw cache'"
  using assms by (auto simp: check_credentials_def cache_ok_def split: option.splits if_splits)

text \<open>C13. Starting from an empty cache, no sequence of logins ever accepts a password the hash
  function would refuse, whatever is cached on the way; and the first check of every hash
  agrees with the hash function.\<close>

theorem password_cache_sound:
  "list_all2 (\<lambda>ok (h, p). ok \<le> checkpw p h) (check_all checkpw Map.empty xs) xs \<and>
   fst (check_credentials checkpw Map.empty h p) = checkpw p h"
proof -
  have "cache_ok checkpw cache \<Longrightarrow> list_all2 (\<lambda>ok (h, p). ok \<le> checkpw p h) (check_all checkpw cache xs) xs" for cache
  proof (induction xs arbitrary: cache)
    case (Cons x xs)
    then show ?case
      using check_credentials_sound [OF Cons.prems, of "fst x" "snd x"]
      by (cases x; cases "check_credentials checkpw cache (fst x) (snd x)") auto
  qed simp
  then show ?thesis by (auto simp: cache_ok_def check_credentials_def)
qed

section \<open>A refused login\<close>

definition no_new :: "server \<Rightarrow> server \<Rightarrow> bool" where
  "no_new s0 s \<longleftrightarrow> set (s_players s) \<subseteq> set (s_players s0) \<and>
     (\<forall>t q. s_by_token s t = Some q \<longrightarrow> s_by_token s0 t = Some q)"

named_theorems fewer \<open>operations that admit nobody\<close>

lemma quiet_no_new: "quiet m \<Longrightarrow> keeps (no_new s0) m"
  unfolding quiet_def keeps_def no_new_def by (metis core_sel(11,14))

lemmas [fewer] = quiet_ops [THEN quiet_no_new]

lemma no_new_modify [fewer]:
  "(\<And>s. s_players (f s) = s_players s) \<Longrightarrow> (\<And>s. s_by_token (f s) = s_by_token s) \<Longrightarrow> keeps (no_new s0) (modify f)"
  by (rule keeps_modify) (simp add: no_new_def)

lemma no_new_updates [fewer]:
  "keeps (no_new s0) (upd_player r f)" "keeps (no_new s0) (upd_match m g)" "keeps (no_new s0) (upd_channel c h)"
  "keeps (no_new s0) (leave_channel r c k)" "keeps (no_new s0) (remove_spectator q r)" "keeps (no_new s0) (matches_remove m)"
  unfolding upd_player_def upd_match_def upd_channel_def leave_channel_def chan_exit_def ch_remove_def channels_remove_def
    remove_spectator_def spec_unlink_def matches_remove_def
  by (intro keeps_intros fewer; simp split: option.split)+

lemma no_new_leave_match [fewer]: "keeps (no_new s0) (leave_match r)"
  unfolding leave_match_def close_match_def cancel_starting_def hand_over_def drop_referee_def free_slot_def upd_slot_def
  by (intro keeps_intros fewer; simp)

lemma no_new_leave_all [fewer]: "keeps (no_new s0) (leave_all n r)"
proof (induction n)
  case (Suc n)
  then show ?case unfolding leave_all.simps by (intro keeps_intros keeps_list fewer)
qed (unfold leave_all.simps, intro keeps_intros fewer)

lemma no_new_players_remove [fewer]: "keeps (no_new s0) (players_remove r)"
proof -
  have a: "keeps (no_new s0) (modify (\<lambda>s. s\<lparr>s_players := remove1 r (s_players s)\<rparr>))"
    by (rule keeps_modify) (auto simp: no_new_def dest: set_remove1_subset [THEN subsetD])
  have b: "keeps (no_new s0) (drop_token r)"
    by (auto simp: keeps_def drop_token_def dict_del_def bnd_def gets_def lift_result_def modify_def no_new_def
        split: if_split_asm)
  show ?thesis
    unfolding players_remove_def drop_id_def drop_name_def by (intro keeps_intros a b fewer; simp)
qed

lemma no_new_logout [fewer]: "keeps (no_new s0) (logout r)"
  unfolding logout_def by (intro keeps_intros fewer; simp)

lemma no_new_failed [fewer]: "keeps (no_new s0) (login_failed t ps)" "keeps (no_new s0) (login_existing n st now)"
  unfolding login_existing_def login_failed_def by (intro keeps_intros fewer)+

lemma bnd_lift_Inr: "bnd (lift_result (Inr d)) k = k d"
  by (rule ext) (simp add: bnd_def lift_result_def)

text \<open>C12. When the credentials are wrong a login admits nobody: no player and no token is there
  that was not before, whatever else the body says.\<close>

theorem wrong_credentials_admit_nobody:
  assumes "\<And>d. parse_login_data (le_digit x) body = Inr d \<Longrightarrow> le_authenticate x (ld_username d) (ld_password_md5 d) = None"
  shows "no_new s (exec (handle_login x body r) s)"
proof (cases "parse_login_data (le_digit x) body")
  case (Inl e)
  then show ?thesis by (simp add: exec_def handle_login_def bnd_def lift_result_def no_new_def)
next
  case (Inr d)
  have "keeps (no_new s) (handle_login x body r)"
    unfolding handle_login_def Inr bnd_lift_Inr login_checked_def assms [OF Inr] option.case
    by (intro keeps_intros keeps_sum fewer)
  then show ?thesis by (rule keeps_exec) (simp add: no_new_def)
qed

definition no_login :: login_ext where
  "no_login = \<lparr>le_digit = ascii_digit, le_disallow_old = False, le_allowed = \<lambda>_. None, le_authenticate = \<lambda>_ _. None,
     le_hardware = \<lambda>_ _ _ _ _. [], le_geoloc = None, le_has_password_hash = True, le_token = [], le_stats = [],
     le_relationships = [], le_mail = [], le_order = id, le_menu_icon = [], le_menu_url = [], le_welcome_msg = [],
     le_restricted_msg = [], le_welcome_notification = []\<rparr>"

text \<open>The client of somebody who is not online, with a version and adapters that are accepted.\<close>

definition stranger_fields :: login_data where
  "stranger_fields = \<lparr>ld_username = py ''zed'', ld_password_md5 = [48, 49, 50, 51], ld_osu_version = py ''b20240101'',
     ld_utc_offset = 0, ld_display_city = False, ld_pm_private = False, ld_osu_path_md5 = py ''p'', ld_adapters_str = py ''1.2.'',
     ld_adapters_md5 = py ''a'', ld_uninstall_md5 = py ''u'', ld_disk_signature_md5 = py ''d''\<rparr>"

definition stranger_body :: bytes where
  "stranger_body = (case utf8_encode (login_text stranger_fields (py ''0123'')) of Inr b \<Rightarrow> b | Inl _ \<Rightarrow> [])"

lemma stranger_parses: "parse_login_data ascii_digit stranger_body = Inr stranger_fields"
proof -
  have v: "valid_str (login_text stranger_fields (py ''0123''))"
    using nat_digits_ascii [of _ 0] by (fastforce simp: login_text_def stranger_fields_def valid_str_def py_def str_int_def)
  then obtain body where e: "utf8_encode (login_text stranger_fields (py ''0123'')) = Inr body"
    using utf8_encode_valid by blast
  have "login_fields_ok stranger_fields (py ''0123'')"
    by (simp add: login_fields_ok_def stranger_fields_def valid_str_def utf8_char_def byte_of_def py_def)
  from login_text_parses [OF this v e] show ?thesis by (simp add: stranger_body_def e)
qed

lemma stranger_client:
  "map_sum id (map_option ov_stream) (parse_osu_version_string ascii_digit (ld_osu_version stranger_fields)) = Inr (Some STABLE)"
  "parse_adapters_string (ld_adapters_str stranger_fields) = Inr ([py ''1'', py ''2''], False)"
  by code_simp+

lemma refusal_builds: "\<exists>d. concatE [notification (py '': Incorrect credentials''), auth_failed] = Inr d"
proof -
  have "builds (notification (py '': Incorrect credentials''))"
    unfolding notification_def by (rule builds_string) (simp_all add: short_str_def valid_str_def py_def fits_unsigned_def)
  then obtain a where a: "notification (py '': Incorrect credentials'') = Inr a" by (auto simp: builds_def)
  have "builds auth_failed"
    unfolding auth_failed_def login_reply_def by (rule builds_i32) (simp_all add: fits_signed_def fits_unsigned_def)
  then obtain b where b: "auth_failed = Inr b" by (auto simp: builds_def)
  show ?thesis unfolding concatE.simps a b by simp
qed

lemma stranger_refused:
  "map_sum id fst (fst (handle_login no_login stranger_body 9 (demo_server [1] one_seated))) =
     Inr (py ''incorrect-credentials'')"
proof -
  obtain d where d: "concatE [notification (py '': Incorrect credentials''), auth_failed] = Inr d"
    using refusal_builds by blast
  obtain v where v: "parse_osu_version_string ascii_digit (ld_osu_version stranger_fields) = Inr (Some v)"
    using stranger_client(1) by (cases "parse_osu_version_string ascii_digit (ld_osu_version stranger_fields)") auto
  define s where "s = demo_server [1] one_seated"
  have n: "s_by_name s (safe_name s (ld_username stranger_fields)) = None"
    unfolding s_def by code_simp
  have p: "py ''1'' \<noteq> []" by (simp add: py_def)
  have e: "e_domain (s_env s) = []" "le_digit no_login = ascii_digit" "\<not> le_disallow_old no_login"
    "le_authenticate no_login u h = None" for u h
    by (simp_all add: s_def demo_server_def no_login_def)
  show ?thesis
    unfolding s_def [symmetric]
    by (simp add: handle_login_def e stranger_parses v stranger_client(2) p bnd_lift_Inr login_checked_def login_existing_def
      get_by_name_def n login_failed_def emit_def bnd_def gets_def retn_def lift_result_def d)
qed

theorem wrong_credentials_admit_nobody_witness:
  "parse_login_data ascii_digit stranger_body = Inr stranger_fields \<and>
   map_sum id fst (fst (handle_login no_login stranger_body 9 (demo_server [1] one_seated))) = Inr (py ''incorrect-credentials'') \<and>
   set (s_players (exec (handle_login no_login stranger_body 9) (demo_server [1] one_seated))) \<subseteq> {0, 1, 2}"
proof -
  have "le_authenticate no_login (ld_username stranger_fields) (ld_password_md5 stranger_fields) = None" by (simp add: no_login_def)
  then have "no_new (demo_server [1] one_seated) (exec (handle_login no_login stranger_body 9) (demo_server [1] one_seated))"
    using stranger_parses by (intro wrong_credentials_admit_nobody) (simp add: no_login_def)
  moreover have "set (s_players (demo_server [1] one_seated)) = {0, 1, 2}" by (simp add: demo_server_def)
  ultimately show ?thesis using stranger_parses stranger_refused by (simp add: no_new_def)
qed

text \<open>The credentials are checked after the session of that name was logged out: anyone who knows
  a name can end a session that has been quiet for ten seconds.\<close>

lemma login_evicts_before_check:
  assumes "wfs s" "distinct (s_players s)"
    and q: "s_by_name s (safe_name s (ld_username d)) = Some q" "ov_stream v \<noteq> TOURNEY"
      "\<not> fl (s_now s - p_last_recv (s_player s q)) < 10"
    and "le_authenticate x (ld_username d) (ld_password_md5 d) = None"
    and "login_checked x d v wine r s = (Inr y, s')"
  shows "q \<notin> set (s_players s') \<and> p_token (s_player s' q) = []"
proof -
  let ?fail = "bnd (gets (\<lambda>s. e_domain (s_env s))) (\<lambda>domain. login_failed (py ''incorrect-credentials'')
               [notification (domain @ py '': Incorrect credentials''), auth_failed])"
  have ex: "login_existing (ld_username d) (ov_stream v) (s_now s) s = thn (logout q) (retn None) s"
    using q by (simp add: login_existing_def get_by_name_def player_def)
  obtain e t where e: "login_existing (ld_username d) (ov_stream v) (s_now s) s = (Inr e, t)"
    and k: "(case e of Some y \<Rightarrow> retn y | None \<Rightarrow> ?fail) t = (Inr y, s')"
    using assms(6,7) unfolding login_checked_def bnd_gets by (auto dest!: bnd_InrD cong: option.case_cong)
  have "thn (logout q) (retn None) s = (Inr e, t)" using e ex by simp
  from thn_InrD [OF this] have t: "logout q s = (Inr (), t)" "e = None" by (auto simp: retn_def)
  have l: "?fail t = (Inr y, s')" using k t(2) by simp
  have qf: "quiet ?fail" unfolding login_failed_def by (intro quiets)
  have c: "core s' = core t" by (rule quietD [OF qf l])
  have "s_players s' = s_players t" "p_token (s_player s' q) = p_token (s_player t q)"
    using c core_sel(8,11) by metis+
  then show ?thesis using logout_detaches [OF assms(1) t(1)] assms(2) by simp
qed

end
