(* ===== verification/Commands.thy ===== *)
theory Commands
  imports Reach
begin

text \<open>
  The chat commands: \<^verbatim>\<open>app/commands.py\<close>. First what they ask of code outside the sessions
  and the pieces they share, then the commands of a match (\<^verbatim>\<open>!mp\<close>). A command is an operation
  on the server that gives the text of its reply, or \<open>None\<close> for no reply.
\<close>

section \<open>What the commands ask of other components\<close>

text \<open>What a command on clans does to the sessions: the cached clan of online players, an announcement.\<close>

record clan_effect =
  ce_reply :: "pystr option"
  ce_sync :: "(int \<times> int option) list"
  ce_announce :: "pystr option"

text \<open>
  Beside what the handlers ask (\<open>ext\<close>): \<^verbatim>\<open>str.upper\<close>, the value of a decimal digit of any
  script, \<^verbatim>\<open>pytimeparse\<close>, the random numbers, the mode of a beatmap, the mappools of the
  database by name and by pick, the pattern of user names with the two checks of a new name, the elapsed
  time shown to the player, the clans, and the replies of the commands that change nothing in the sessions.
\<close>

record cmd_ext = ext +
  cx_upper :: "pystr \<Rightarrow> pystr"
  cx_digit :: "nat \<Rightarrow> nat option"
  cx_timeparse :: "pystr \<Rightarrow> rat option"
  cx_token_hex :: "server \<Rightarrow> pystr"
  cx_randrange :: "server \<Rightarrow> int \<Rightarrow> int"
  cx_map_mode :: "int \<Rightarrow> int"
  cx_pool_by_name :: "pystr \<Rightarrow> (int \<times> pystr) option"
  cx_pool_pick :: "int \<Rightarrow> int \<Rightarrow> int \<Rightarrow> int option"
  cx_username :: "pystr \<Rightarrow> bool"
  cx_disallowed_names :: "pystr list"
  cx_name_taken :: "pystr \<Rightarrow> bool"
  cx_elapsed :: "pystr"
  cx_clan :: "pystr \<Rightarrow> nat \<Rightarrow> pystr list \<Rightarrow> server \<Rightarrow> clan_effect result"
  cx_report :: "pystr \<Rightarrow> nat \<Rightarrow> nat option \<Rightarrow> pystr list \<Rightarrow> server \<Rightarrow> pystr option result"

text \<open>\<^verbatim>\<open>Context\<close>: the recipient is a channel, or the bot the command was sent to.\<close>

record cmd_context =
  cc_player :: nat
  cc_trigger :: pystr
  cc_args :: "pystr list"
  cc_recipient :: "nat option"

type_synonym callback = "cmd_context \<Rightarrow> pystr option sop"

definition reply :: "pystr \<Rightarrow> pystr option sop" where
  "reply t = retn (Some t)"

definition no_reply :: "pystr option sop" where
  "no_reply = retn None"

section \<open>Text\<close>

fun join_text :: "pystr \<Rightarrow> pystr list \<Rightarrow> pystr" where
  "join_text sep [] = []"
| "join_text sep [w] = w"
| "join_text sep (w # ws) = w @ sep @ join_text sep ws"

text \<open>\<^verbatim>\<open>s.isdecimal()\<close> and \<^verbatim>\<open>int(s)\<close> of such a text.\<close>

definition isdecimal :: "(nat \<Rightarrow> nat option) \<Rightarrow> pystr \<Rightarrow> bool" where
  "isdecimal dv s \<longleftrightarrow> s \<noteq> [] \<and> list_all (\<lambda>c. dv c \<noteq> None) s"

definition decimal_number :: "(nat \<Rightarrow> nat option) \<Rightarrow> pystr \<Rightarrow> int" where
  "decimal_number dv s = fold (\<lambda>c n. 10 * n + (case dv c of Some d \<Rightarrow> int d | None \<Rightarrow> 0)) s 0"

text \<open>\<^verbatim>\<open>BEST_OF.fullmatch\<close>, and the number it captures.\<close>

definition best_of_match :: "(nat \<Rightarrow> nat option) \<Rightarrow> pystr \<Rightarrow> int option" where
  "best_of_match dv s =
     (let d = (if starts_with s (py ''bo'') then drop 2 s else s)
      in if isdecimal dv d \<and> length d \<le> 2 then Some (decimal_number dv d) else None)"

text \<open>\<^verbatim>\<open>MAPPOOL_PICK.fullmatch\<close>: letters, then digits.\<close>

definition is_letter :: "nat \<Rightarrow> bool" where
  "is_letter c \<longleftrightarrow> 65 \<le> c \<and> c \<le> 90 \<or> 97 \<le> c \<and> c \<le> 122"

definition mappool_pick_match :: "pystr \<Rightarrow> (pystr \<times> int) option" where
  "mappool_pick_match s =
     (let letters = takeWhile is_letter s; rest = drop (length letters) s
      in if letters \<noteq> [] \<and> rest \<noteq> [] \<and> list_all (\<lambda>c. 48 \<le> c \<and> c \<le> 57) rest
         then Some (letters, decimal_number (\<lambda>c. Some (c - 48)) rest) else None)"

text \<open>\<^verbatim>\<open>Player.__repr__\<close>, \<^verbatim>\<open>Beatmap.embed\<close>.\<close>

definition player_repr :: "player \<Rightarrow> pystr" where
  "player_repr p = py ''<'' @ p_name p @ py '' ('' @ str_int (p_id p) @ py '')>''"

definition bmap_embed :: "pystr \<Rightarrow> beatmap_info \<Rightarrow> pystr" where
  "bmap_embed domain b =
     py ''[https://osu.'' @ domain @ py ''/b/'' @ str_int (bm_id b) @ py '' '' @ bm_full_name b @ py '']''"

section \<open>Guards of the match commands\<close>

text \<open>\<^verbatim>\<open>Match.refs\<close>\<close>

definition match_refs :: "nat \<Rightarrow> nat set sop" where
  "match_refs m = bnd (game m m_referees) (\<lambda>rs. bnd (match_host m) (\<lambda>h. retn (insert h rs)))"

definition in_slots :: "nat \<Rightarrow> game_match \<Rightarrow> bool" where
  "in_slots r g \<longleftrightarrow> list_ex (\<lambda>x. sl_player x = Some r) (m_slots g)"

text \<open>
  \<^verbatim>\<open>ensure_match\<close>: silently nothing unless the message is in the channel of the player's match
  and the player is a referee of it. \<open>help\<close> marks the one command that needs no referee.
\<close>

definition ensure_match :: "bool \<Rightarrow> (cmd_context \<Rightarrow> nat \<Rightarrow> pystr option sop) \<Rightarrow> callback" where
  "ensure_match help f ctx =
     bnd (player (cc_player ctx) p_match) (\<lambda>mo. case mo of
         None \<Rightarrow> no_reply
       | Some m \<Rightarrow> bnd (game m m_chat) (\<lambda>c.
           if cc_recipient ctx \<noteq> Some c then no_reply
           else bnd (match_refs m) (\<lambda>refs. bnd (player (cc_player ctx) p_priv) (\<lambda>priv.
             if cc_player ctx \<in> refs \<or> has priv P_TOURNEY_MANAGER \<or> help then f ctx m else no_reply))))"

text \<open>The player of the name in the only argument, or one of the two refusals.\<close>

definition named_target :: "pystr \<Rightarrow> cmd_context \<Rightarrow> (nat \<Rightarrow> pystr option sop) \<Rightarrow> pystr option sop" where
  "named_target usage ctx k = (case cc_args ctx of
       [name] \<Rightarrow> bnd (get_by_name name) (\<lambda>t. case t of
           None \<Rightarrow> reply (py ''Could not find a user by that name.'')
         | Some q \<Rightarrow> k q)
     | _ \<Rightarrow> reply usage)"

text \<open>\<^verbatim>\<open>if ctx.player is not match.host: return "Only available to the host."\<close>\<close>

definition host_command :: "nat \<Rightarrow> nat \<Rightarrow> pystr option sop \<Rightarrow> pystr option sop" where
  "host_command m r k = bnd (match_host m) (\<lambda>h.
     if r \<noteq> h then reply (py ''Only available to the host.'') else k)"

section \<open>Starting and aborting\<close>

definition seconds_left :: "rat \<Rightarrow> starting_timers \<Rightarrow> int" where
  "seconds_left now t = trunc_rat (fl (stt_time t - now))"

definition start_pending :: "starting_timers \<Rightarrow> pystr option sop" where
  "start_pending t = bnd (gets s_now) (\<lambda>now.
     reply (py ''Match starting in '' @ str_int (seconds_left now t) @ py '' seconds.''))"

definition start_now :: "nat \<Rightarrow> pystr option sop" where
  "start_now m = thn (start_game m) (reply (py ''Good luck!''))"

text \<open>\<^verbatim>\<open>loop.call_later\<close> hands out fresh handles.\<close>

definition new_handles :: "nat \<Rightarrow> nat list sop" where
  "new_handles n = bnd (gets s_next) (\<lambda>h.
     thn (modify (\<lambda>s. s\<lparr>s_next := h + n\<rparr>)) (retn [h ..< h + n]))"

definition alert_times :: "int \<Rightarrow> int list" where
  "alert_times duration = filter (\<lambda>t. t < duration) [60, 30, 10, 5, 4, 3, 2, 1]"

definition start_timer :: "nat \<Rightarrow> int \<Rightarrow> pystr option sop" where
  "start_timer m duration =
     bnd (new_handles (Suc (length (alert_times duration)))) (\<lambda>hs. bnd (gets s_now) (\<lambda>now.
       thn (upd_match m (\<lambda>g. g\<lparr>m_starting := Some
              \<lparr>stt_start = hd hs, stt_alerts = tl hs, stt_time = fl (now + of_int duration)\<rparr>\<rparr>))
         (reply (py ''Match will start in '' @ str_int duration @ py '' seconds.''))))"

text \<open>The callbacks of the timers, \<^verbatim>\<open>_start\<close> and \<^verbatim>\<open>_alert_start\<close>.\<close>

definition start_due :: "nat \<Rightarrow> nat \<Rightarrow> unit sop" where
  "start_due m r =
     thn (upd_match m (\<lambda>g. g\<lparr>m_starting := None\<rparr>))
     (bnd (gets (\<lambda>s. s_match s m)) (\<lambda>g.
       if \<not> in_slots r g then ch_send_bot (m_chat g) (py ''Player left match? (cancelled)'')
       else thn (start_game m) (ch_send_bot (m_chat g) (py ''Starting match.''))))"

definition alert_due :: "nat \<Rightarrow> int \<Rightarrow> unit sop" where
  "alert_due m t = bnd (game m m_chat) (\<lambda>c.
     ch_send_bot c (py ''Match starting in '' @ str_int t @ py '' seconds.''))"

definition usage_start :: pystr where
  "usage_start = py ''Invalid syntax: !mp start <force/seconds>''"

definition mp_start :: "cmd_ext \<Rightarrow> cmd_context \<Rightarrow> nat \<Rightarrow> pystr option sop" where
  "mp_start cx ctx m = bnd (gets (\<lambda>s. s_match s m)) (\<lambda>g.
     case cc_args ctx of
       [] \<Rightarrow> (case m_starting g of
           Some t \<Rightarrow> start_pending t
         | None \<Rightarrow>
             if list_ex (\<lambda>x. sl_status x = S_not_ready) (m_slots g)
             then reply (py ''Not all players are ready (`!mp start force` to override).'')
             else start_now m)
     | [a] \<Rightarrow>
         if isdecimal (cx_digit cx) a then
           (case m_starting g of
              Some t \<Rightarrow> start_pending t
            | None \<Rightarrow>
                let duration = decimal_number (cx_digit cx) a
                in if \<not> (0 < duration \<and> duration \<le> 300) then reply (py ''Timer range is 1-300 seconds.'')
                   else start_timer m duration)
         else if a = py ''cancel'' \<or> a = py ''c'' then
           (case m_starting g of
              None \<Rightarrow> reply (py ''Match timer not active!'')
            | Some t \<Rightarrow> thn (cancel_starting m) (reply (py ''Match timer cancelled.'')))
         else if a \<noteq> py ''force'' \<and> a \<noteq> py ''f'' then reply usage_start
         else start_now m
     | _ \<Rightarrow> reply usage_start)"

definition mp_abort :: "cmd_context \<Rightarrow> nat \<Rightarrow> pystr option sop" where
  "mp_abort ctx m = bnd (game m m_in_progress) (\<lambda>going.
     if \<not> going then reply (py ''Abort what?'')
     else
       thn (unready_players m S_playing)
       (thn (reset_players_loaded_status m)
       (thn (upd_match m (\<lambda>g. g\<lparr>m_in_progress := False\<rparr>))
       (thn (emit match_abort (\<lambda>d. match_enqueue m d True []))
       (thn (enqueue_state m True)
         (reply (py ''Match aborted.'')))))))"


section \<open>Map and mods\<close>

definition domain_of :: "server \<Rightarrow> pystr" where
  "domain_of s = e_domain (s_env s)"

definition mp_map :: "cmd_ext \<Rightarrow> cmd_context \<Rightarrow> nat \<Rightarrow> pystr option sop" where
  "mp_map cx ctx m = (case cc_args ctx of
       [a] \<Rightarrow>
         if \<not> isdecimal (cx_digit cx) a then reply (py ''Invalid syntax: !mp map <beatmapid>'')
         else
           let map_id = decimal_number (cx_digit cx) a in
           bnd (game m m_map_id) (\<lambda>cur.
             if map_id = cur then reply (py ''Map already selected.'')
             else (case x_bmap_bid cx map_id of
                 None \<Rightarrow> reply (py ''Beatmap not found.'')
               | Some b \<Rightarrow>
                   thn (upd_match m (\<lambda>g. g\<lparr>m_map_id := bm_id b, m_map_md5 := bm_md5 b,
                          m_map_name := bm_full_name b, m_mode := cx_map_mode cx (bm_id b)\<rparr>))
                   (thn (enqueue_state m True)
                     (bnd (gets domain_of) (\<lambda>d.
                       reply (py ''Selected: '' @ bmap_embed d b @ py ''.''))))))
     | _ \<Rightarrow> reply (py ''Invalid syntax: !mp map <beatmapid>''))"

text \<open>In freemods the host sets the speed mods of the match, and everyone the rest of their own.\<close>

definition set_slot_mods :: "nat \<Rightarrow> nat \<Rightarrow> int \<Rightarrow> unit sop" where
  "set_slot_mods m r mods =
     bnd (match_host m) (\<lambda>h.
       thn (if r = h then set_match_mods m (mods AND SPEED_CHANGING_MODS) else skip)
       (own_slot m r (\<lambda>i. upd_slot m i (\<lambda>x. x\<lparr>sl_mods := drop_mod mods SPEED_CHANGING_MODS\<rparr>))))"

definition mp_mods :: "cmd_ext \<Rightarrow> cmd_context \<Rightarrow> nat \<Rightarrow> pystr option sop" where
  "mp_mods cx ctx m = (case cc_args ctx of
       [a] \<Rightarrow>
         if length a mod 2 \<noteq> 0 then reply (py ''Invalid syntax: !mp mods <mods>'')
         else
           bnd (game m (\<lambda>g. (m_mode g, m_freemods g))) (\<lambda>(mode, freemods).
             let mods = filter_invalid_combos (from_modstr (cx_upper cx) a) (as_vanilla mode) in
             thn (if freemods then set_slot_mods m (cc_player ctx) mods else set_match_mods m mods)
             (thn (enqueue_state m True) (reply (py ''Match mods updated.''))))
     | _ \<Rightarrow> reply (py ''Invalid syntax: !mp mods <mods>''))"

definition clear_slot_mods :: "nat \<Rightarrow> unit sop" where
  "clear_slot_mods m = upd_slots m (\<lambda>x. if sl_player x \<noteq> None then x\<lparr>sl_mods := 0\<rparr> else x)"

definition freemods_on :: "nat \<Rightarrow> unit sop" where
  "freemods_on m =
     thn (upd_match m (\<lambda>g. g\<lparr>m_freemods := True\<rparr>))
     (bnd (game m m_mods) (\<lambda>mods.
       thn (upd_slots m (\<lambda>x. if sl_player x \<noteq> None then x\<lparr>sl_mods := drop_mod mods SPEED_CHANGING_MODS\<rparr> else x))
         (set_match_mods m (mods AND SPEED_CHANGING_MODS))))"

definition freemods_off :: "nat \<Rightarrow> unit sop" where
  "freemods_off m =
     thn (upd_match m (\<lambda>g. g\<lparr>m_freemods := False\<rparr>))
     (bnd (get_host_slot m) (\<lambda>hs. bnd (the_or AssertionError hs) (\<lambda>h.
      bnd (game m (\<lambda>g. (m_mods g, sl_mods (m_slots g ! h)))) (\<lambda>(mods, host_mods).
        thn (set_match_mods m ((mods AND SPEED_CHANGING_MODS) OR host_mods)) (clear_slot_mods m)))))"

definition mp_freemods :: "cmd_context \<Rightarrow> nat \<Rightarrow> pystr option sop" where
  "mp_freemods ctx m =
     (let switch = (\<lambda>k. thn k (thn (enqueue_state m True) (reply (py ''Match freemod status updated.''))))
      in if cc_args ctx = [py ''on''] then switch (freemods_on m)
         else if cc_args ctx = [py ''off''] then switch (freemods_off m)
         else reply (py ''Invalid syntax: !mp freemods <on/off>''))"

section \<open>Host, password, invitations, referees\<close>

definition mp_host :: "cmd_context \<Rightarrow> nat \<Rightarrow> pystr option sop" where
  "mp_host ctx m = named_target (py ''Invalid syntax: !mp host <name>'') ctx (\<lambda>q.
     bnd (match_host m) (\<lambda>h. bnd (gets (\<lambda>s. s_match s m)) (\<lambda>g.
       if q = h then reply (py ''They'' @ 39 # py ''re already host, silly!'')
       else if \<not> in_slots q g then reply (py ''Found no such player in the match.'')
       else
         bnd (player q p_id) (\<lambda>i.
         thn (upd_match m (\<lambda>g. g\<lparr>m_host_id := i\<rparr>))
         (bnd (match_host m) (\<lambda>h'.
         thn (emit match_transfer_host (p_enqueue h'))
         (thn (enqueue_state m True) (reply (py ''Match host updated.'')))))))))"

definition mp_randpw :: "cmd_ext \<Rightarrow> cmd_context \<Rightarrow> nat \<Rightarrow> pystr option sop" where
  "mp_randpw cx ctx m = bnd (gets (cx_token_hex cx)) (\<lambda>t.
     thn (upd_match m (\<lambda>g. g\<lparr>m_passwd := t\<rparr>)) (reply (py ''Match password randomized.'')))"

definition mp_invite :: "cmd_context \<Rightarrow> nat \<Rightarrow> pystr option sop" where
  "mp_invite ctx m = named_target (py ''Invalid syntax: !mp invite <name>'') ctx (\<lambda>q.
     bnd (gets s_bot) (\<lambda>b.
       if q = b then reply (73 # 39 # py ''m too busy!'')
       else if q = cc_player ctx then reply (py ''You can'' @ 39 # py ''t invite yourself!'')
       else
         bnd (gets (\<lambda>s. match_invite (p_name (s_player s (cc_player ctx))) (p_id (s_player s (cc_player ctx)))
            (match_embed (s_match s m)) (p_name (s_player s q)))) (\<lambda>inv.
         thn (emit inv (p_enqueue q))
         (bnd (player q player_repr) (\<lambda>t. reply (py ''Invited '' @ t @ py '' to the match.''))))))"

definition mp_addref :: "cmd_context \<Rightarrow> nat \<Rightarrow> pystr option sop" where
  "mp_addref ctx m = named_target (py ''Invalid syntax: !mp addref <name>'') ctx (\<lambda>q.
     bnd (gets (\<lambda>s. (s_match s m, s_player s q))) (\<lambda>(g, p).
       if \<not> in_slots q g then reply (py ''User must be in the current match!'')
       else bnd (match_refs m) (\<lambda>refs.
         if q \<in> refs then reply (player_repr p @ py '' is already a match referee!'')
         else thn (upd_match m (\<lambda>g. g\<lparr>m_referees := insert q (m_referees g)\<rparr>))
           (reply (p_name p @ py '' added to match referees.'')))))"

text \<open>\<^verbatim>\<open>match.referees.remove(target)\<close> raises when the target is not a referee.\<close>

definition mp_rmref :: "cmd_context \<Rightarrow> nat \<Rightarrow> pystr option sop" where
  "mp_rmref ctx m = named_target (py ''Invalid syntax: !mp addref <name>'') ctx (\<lambda>q.
     bnd (match_refs m) (\<lambda>refs. bnd (gets (\<lambda>s. (s_match s m, s_player s q))) (\<lambda>(g, p).
       if q \<notin> refs then reply (player_repr p @ py '' is not a match referee!'')
       else bnd (match_host m) (\<lambda>h.
         if q = h then reply (py ''The host is always a referee!'')
         else if q \<notin> m_referees g then raise KeyError
         else thn (upd_match m (\<lambda>g. g\<lparr>m_referees := m_referees g - {q}\<rparr>))
           (reply (p_name p @ py '' removed from match referees.''))))))"

definition mp_listref :: "cmd_context \<Rightarrow> nat \<Rightarrow> pystr option sop" where
  "mp_listref ctx m = bnd (match_refs m) (\<lambda>refs.
     bnd (gets (\<lambda>s. map (\<lambda>r. player_repr (s_player s r)) (e_order (s_env s) (sorted_list_of_set refs)))) (\<lambda>ts.
       reply (join_text (py '', '') ts @ py ''.'')))"

section \<open>Slots, teams and the win condition\<close>

definition set_all_slots :: "nat \<Rightarrow> slot_status \<Rightarrow> slot_status \<Rightarrow> unit sop" where
  "set_all_slots m old new = upd_slots m (\<lambda>x. if sl_status x = old then x\<lparr>sl_status := new\<rparr> else x)"

definition mp_lock :: "cmd_context \<Rightarrow> nat \<Rightarrow> pystr option sop" where
  "mp_lock ctx m = thn (set_all_slots m S_open S_locked)
     (thn (enqueue_state m True) (reply (py ''All unused slots locked.'')))"

definition mp_unlock :: "cmd_context \<Rightarrow> nat \<Rightarrow> pystr option sop" where
  "mp_unlock ctx m = thn (set_all_slots m S_locked S_open)
     (thn (enqueue_state m True) (reply (py ''All locked slots unlocked.'')))"

definition team_type_named :: "pystr \<Rightarrow> team_type option" where
  "team_type_named t =
     (if t \<in> py ` {''ffa'', ''freeforall'', ''head-to-head''} then Some TT_head_to_head
      else if t \<in> py ` {''tag'', ''coop'', ''co-op'', ''tag-coop''} then Some TT_tag_coop
      else if t \<in> py ` {''teams'', ''team-vs'', ''teams-vs''} then Some TT_team_vs
      else if t \<in> py ` {''tag-teams'', ''tag-team-vs'', ''tag-teams-vs''} then Some TT_tag_team_vs
      else None)"

definition default_team :: "team_type \<Rightarrow> team" where
  "default_team tt = (if tt = TT_head_to_head \<or> tt = TT_tag_coop then T_neutral else T_red)"

definition mp_teams :: "cmd_context \<Rightarrow> nat \<Rightarrow> pystr option sop" where
  "mp_teams ctx m = (case cc_args ctx of
       [a] \<Rightarrow> (case team_type_named a of
           None \<Rightarrow> reply (py ''Unknown team type. (ffa, tag, teams, tag-teams)'')
         | Some tt \<Rightarrow>
             thn (upd_match m (\<lambda>g. g\<lparr>m_team_type := tt\<rparr>))
             (thn (upd_slots m (\<lambda>x. if sl_player x \<noteq> None then x\<lparr>sl_team := default_team tt\<rparr> else x))
             (thn (bnd (game m m_scrimming) (\<lambda>on. if on then reset_scrim m else skip))
             (thn (enqueue_state m True) (reply (py ''Match team type updated.''))))))
     | _ \<Rightarrow> reply (py ''Invalid syntax: !mp teams <type>''))"

definition win_condition_named :: "pystr \<Rightarrow> win_condition option" where
  "win_condition_named t =
     (if t = py ''score'' then Some W_score
      else if t = py ''accuracy'' \<or> t = py ''acc'' then Some W_accuracy
      else if t = py ''combo'' then Some W_combo
      else if t = py ''scorev2'' \<or> t = py ''v2'' then Some W_scorev2 else None)"

definition mp_condition :: "cmd_context \<Rightarrow> nat \<Rightarrow> pystr option sop" where
  "mp_condition ctx m =
     (let updated = thn (enqueue_state m False) (reply (py ''Match win condition updated.'')) in
      case cc_args ctx of
       [cond] \<Rightarrow> bnd (gets (\<lambda>s. s_match s m)) (\<lambda>g.
         if cond = py ''pp'' then
           (if \<not> m_scrimming g then reply (py ''PP is only useful as a win condition during scrims.'')
            else if m_pp_scoring g then reply (py ''PP scoring already enabled.'')
            else thn (upd_match m (\<lambda>g. g\<lparr>m_pp_scoring := True\<rparr>)) updated)
         else
           thn (upd_match m (\<lambda>g. g\<lparr>m_pp_scoring := False\<rparr>))
           (case win_condition_named cond of
              None \<Rightarrow> reply (py ''Invalid win condition. (score, acc, combo, scorev2, *pp)'')
            | Some w \<Rightarrow> thn (upd_match m (\<lambda>g. g\<lparr>m_win_condition := w\<rparr>)) updated))
     | _ \<Rightarrow> reply (py ''Invalid syntax: !mp condition <type>''))"


section \<open>Scrims\<close>

text \<open>\<^verbatim>\<open>match_points[k] += d\<close> on the \<^verbatim>\<open>defaultdict\<close>, whose absent keys count 0.\<close>

fun points_of :: "point_key \<Rightarrow> (point_key \<times> int) list \<Rightarrow> int" where
  "points_of k [] = 0"
| "points_of k ((j, n) # ps) = (if j = k then n else points_of k ps)"

fun points_add :: "point_key \<Rightarrow> int \<Rightarrow> (point_key \<times> int) list \<Rightarrow> (point_key \<times> int) list" where
  "points_add k d [] = [(k, d)]"
| "points_add k d ((j, n) # ps) = (if j = k then (j, n + d) # ps else (j, n) # points_add k d ps)"

definition usage_scrim :: pystr where
  "usage_scrim = py ''Invalid syntax: !mp scrim <bo#>''"

definition mp_scrim :: "cmd_ext \<Rightarrow> cmd_context \<Rightarrow> nat \<Rightarrow> pystr option sop" where
  "mp_scrim cx ctx m = (case cc_args ctx of
       [a] \<Rightarrow> (case best_of_match (cx_digit cx) a of
           None \<Rightarrow> reply usage_scrim
         | Some best_of \<Rightarrow>
             if \<not> (0 \<le> best_of \<and> best_of < 16) then reply (py ''Best of must be in range 0-15.'')
             else
               let winning_pts = best_of div 2 + 1 in
               bnd (game m m_scrimming) (\<lambda>on. bnd (player (cc_player ctx) p_name) (\<lambda>name.
                 if winning_pts \<noteq> 0 then
                   (if on then reply (py ''Already scrimming!'')
                    else if best_of mod 2 = 0 then reply (py ''Best of must be an odd number!'')
                    else thn (upd_match m (\<lambda>g. g\<lparr>m_scrimming := True, m_winning_pts := winning_pts\<rparr>))
                      (reply (py ''A scrimmage has been started by '' @ name @ py ''; first to '' @
                         str_int winning_pts @ py '' points wins. Best of luck!'')))
                 else
                   (if \<not> on then reply (py ''Not currently scrimming!'')
                    else thn (upd_match m (\<lambda>g. g\<lparr>m_scrimming := False\<rparr>))
                      (thn (reset_scrim m)
                      (thn (upd_match m (\<lambda>g. g\<lparr>m_winning_pts := winning_pts\<rparr>))
                        (reply (py ''Scrimming cancelled.'')))))))) 
     | _ \<Rightarrow> reply usage_scrim)"

definition end_scrim :: "nat \<Rightarrow> unit sop" where
  "end_scrim m = thn (upd_match m (\<lambda>g. g\<lparr>m_scrimming := False\<rparr>)) (reset_scrim m)"

definition mp_endscrim :: "cmd_context \<Rightarrow> nat \<Rightarrow> pystr option sop" where
  "mp_endscrim ctx m = bnd (game m m_scrimming) (\<lambda>on.
     if \<not> on then reply (py ''Not currently scrimming!'')
     else thn (end_scrim m) (reply (py ''Scrimmage ended.'')))"

text \<open>The text of a player or, as the number of its \<^verbatim>\<open>IntEnum\<close>, of a team.\<close>

definition winner_text :: "server \<Rightarrow> point_key \<Rightarrow> pystr" where
  "winner_text s k = (case k of PK_player r \<Rightarrow> player_repr (s_player s r) | PK_team t \<Rightarrow> str_int (team_value t))"

definition rescind_point :: "nat \<Rightarrow> pystr option sop" where
  "rescind_point m = bnd (gets (\<lambda>s. s_match s m)) (\<lambda>g.
     if m_winners g = [] then reply (py ''No match points have yet been awarded!'')
     else (case last (m_winners g) of
         None \<Rightarrow> reply (py ''The last point was a tie!'')
       | Some k \<Rightarrow>
           thn (upd_match m (\<lambda>g. g\<lparr>m_match_points := points_add k (- 1) (m_match_points g),
                  m_winners := butlast (m_winners g)\<rparr>))
           (bnd (gets (\<lambda>s. winner_text s k)) (\<lambda>t.
             reply (py ''A point has been deducted from '' @ t @ py ''.'')))))"

definition mp_rematch :: "cmd_context \<Rightarrow> nat \<Rightarrow> pystr option sop" where
  "mp_rematch ctx m =
     (if cc_args ctx \<noteq> [] then reply (py ''Invalid syntax: !mp rematch'')
      else host_command m (cc_player ctx) (
        bnd (game m (\<lambda>g. (m_scrimming g, m_winning_pts g))) (\<lambda>(on, pts). bnd (player (cc_player ctx) p_name) (\<lambda>name.
          if \<not> on then
            (if pts = 0 then reply (py ''No scrim to rematch; to start one, use !mp scrim.'')
             else thn (upd_match m (\<lambda>g. g\<lparr>m_scrimming := True\<rparr>))
               (reply (py ''A rematch has been started by '' @ name @ py ''; first to '' @
                  str_int pts @ py '' points wins. Best of luck!'')))
          else rescind_point m))))"

definition mp_force :: "cmd_context \<Rightarrow> nat \<Rightarrow> pystr option sop" where
  "mp_force ctx m = named_target (py ''Invalid syntax: !mp force <name>'') ctx (\<lambda>q.
     bnd (game m m_passwd) (\<lambda>pw. bnd (join_match q m pw) (\<lambda>_. reply (py ''Welcome.''))))"

section \<open>The mappool of a match\<close>

definition mp_loadpool :: "cmd_ext \<Rightarrow> cmd_context \<Rightarrow> nat \<Rightarrow> pystr option sop" where
  "mp_loadpool cx ctx m = (case cc_args ctx of
       [name] \<Rightarrow> host_command m (cc_player ctx) (case cx_pool_by_name cx name of
           None \<Rightarrow> reply (py ''Could not find a pool by that name!'')
         | Some (i, pool_name) \<Rightarrow> bnd (game m m_tourney_pool) (\<lambda>cur.
             if cur = Some i then reply (pool_name @ py '' already selected!'')
             else thn (upd_match m (\<lambda>g. g\<lparr>m_tourney_pool := Some i\<rparr>)) (reply (pool_name @ py '' selected.''))))
     | _ \<Rightarrow> reply (py ''Invalid syntax: !mp loadpool <name>''))"

definition mp_unloadpool :: "cmd_context \<Rightarrow> nat \<Rightarrow> pystr option sop" where
  "mp_unloadpool ctx m =
     (if cc_args ctx \<noteq> [] then reply (py ''Invalid syntax: !mp unloadpool'')
      else host_command m (cc_player ctx) (bnd (game m m_tourney_pool) (\<lambda>cur.
        if cur = None then reply (py ''No mappool currently selected!'')
        else thn (upd_match m (\<lambda>g. g\<lparr>m_tourney_pool := None\<rparr>)) (reply (py ''Mappool unloaded.'')))))"

text \<open>
  The shared part of \<^verbatim>\<open>!mp ban\<close>, \<^verbatim>\<open>unban\<close> and \<^verbatim>\<open>pick\<close>: the pick names mods and a
  slot, and the loaded pool has a map for them. The continuation gets the text, the mods, the slot and
  the id of the map.
\<close>

definition pool_pick :: "cmd_ext \<Rightarrow> pystr \<Rightarrow> pystr \<Rightarrow> cmd_context \<Rightarrow> nat \<Rightarrow>
    (pystr \<Rightarrow> int \<Rightarrow> int \<Rightarrow> int \<Rightarrow> pystr option sop) \<Rightarrow> pystr option sop" where
  "pool_pick cx usage no_pool ctx m k = (case cc_args ctx of
       [a] \<Rightarrow> bnd (game m m_tourney_pool) (\<lambda>pool. case pool of
           None \<Rightarrow> reply no_pool
         | Some i \<Rightarrow> (case mappool_pick_match a of
               None \<Rightarrow> reply (py ''Invalid pick syntax; correct example: HD2'')
             | Some (letters, slot) \<Rightarrow>
                 let mods = from_modstr (cx_upper cx) letters in
                 (case cx_pool_pick cx i mods slot of
                    None \<Rightarrow> reply (py ''Found no '' @ a @ py '' pick in the pool.'')
                  | Some map_id \<Rightarrow> k a mods slot map_id)))
     | _ \<Rightarrow> reply usage)"

definition mp_ban :: "cmd_ext \<Rightarrow> cmd_context \<Rightarrow> nat \<Rightarrow> pystr option sop" where
  "mp_ban cx ctx m =
     pool_pick cx (py ''Invalid syntax: !mp ban <pick>'') (py ''No pool currently selected!'') ctx m (\<lambda>a mods slot _.
       bnd (game m m_bans) (\<lambda>bans.
         if (mods, slot) \<in> bans then reply (py ''That pick is already banned!'')
         else thn (upd_match m (\<lambda>g. g\<lparr>m_bans := insert (mods, slot) (m_bans g)\<rparr>)) (reply (a @ py '' banned.''))))"

definition mp_unban :: "cmd_ext \<Rightarrow> cmd_context \<Rightarrow> nat \<Rightarrow> pystr option sop" where
  "mp_unban cx ctx m =
     pool_pick cx (py ''Invalid syntax: !mp unban <pick>'') (py ''No pool currently selected!'') ctx m (\<lambda>a mods slot _.
       bnd (game m m_bans) (\<lambda>bans.
         if (mods, slot) \<notin> bans then reply (py ''That pick is not currently banned!'')
         else thn (upd_match m (\<lambda>g. g\<lparr>m_bans := m_bans g - {(mods, slot)}\<rparr>)) (reply (a @ py '' unbanned.''))))"

definition mp_pick :: "cmd_ext \<Rightarrow> cmd_context \<Rightarrow> nat \<Rightarrow> pystr option sop" where
  "mp_pick cx ctx m =
     pool_pick cx (py ''Invalid syntax: !mp pick <pick>'') (py ''No pool currently loaded!'') ctx m (\<lambda>a mods slot map_id.
       bnd (game m (\<lambda>g. (m_bans g, m_freemods g))) (\<lambda>(bans, freemods).
         if (mods, slot) \<in> bans then reply (a @ py '' has been banned from being picked.'')
         else (case x_bmap_bid cx map_id of
             None \<Rightarrow> reply (py ''Found no beatmap for '' @ a @ py '' pick.'')
           | Some b \<Rightarrow>
               thn (upd_match m (\<lambda>g. g\<lparr>m_map_md5 := bm_md5 b, m_map_id := bm_id b, m_map_name := bm_full_name b\<rparr>))
               (thn (if freemods
                     then thn (upd_match m (\<lambda>g. g\<lparr>m_freemods := False\<rparr>)) (clear_slot_mods m) else skip)
               (thn (set_match_mods m mods)
               (thn (enqueue_state m True)
                 (bnd (gets domain_of) (\<lambda>d.
                   reply (py ''Picked '' @ bmap_embed d b @ py ''. ('' @ a @ py '')'')))))))))"

end
