(* ===== verification/Scrims.thy ===== *)
theory Scrims
  imports Commands
begin

text \<open>
  Scoring a scrim: \<^verbatim>\<open>await_submissions\<close> and \<^verbatim>\<open>update_matchpoints\<close> of
  \<^verbatim>\<open>app/objects/match.py\<close>, the task that \<^verbatim>\<open>MatchComplete\<close> starts. It waits for the scores of
  those who played, and then, at a later moment, changes the points of the match. The two halves are
  two definitions, because the match can change between them.
\<close>

section \<open>Waiting for the scores\<close>

text \<open>What is read of \<^verbatim>\<open>player.recent_score\<close>; no md5 stands for a score without a beatmap.\<close>

record recent_score =
  rs_md5 :: "pystr option"
  rs_server_time :: rat
  rs_score :: rat
  rs_acc :: rat
  rs_max_combo :: rat
  rs_pp :: rat

text \<open>
  What the loop sees after a number of sleeps of half a second: the slot of each position (a live
  object, its player may have left), the recent score of a player, the clock. \<open>px_show\<close> is
  \<^verbatim>\<open>add_suffix\<close> of a score or (the flag) of an average, \<open>px_names\<close> the three groups of
  \<^verbatim>\<open>TOURNEY_MATCHNAME\<close>.
\<close>

record scrim_ext =
  px_slot :: "nat \<Rightarrow> nat \<Rightarrow> slot"
  px_recent :: "nat \<Rightarrow> nat \<Rightarrow> recent_score option"
  px_now :: "nat \<Rightarrow> rat"
  px_show :: "bool \<Rightarrow> win_condition \<Rightarrow> bool \<Rightarrow> rat \<Rightarrow> pystr"
  px_names :: "pystr \<Rightarrow> (pystr \<times> pystr \<times> pystr) option"

definition free_for_all :: "team_type \<Rightarrow> bool" where
  "free_for_all tt \<longleftrightarrow> tt = TT_head_to_head \<or> tt = TT_tag_coop"

text \<open>\<^verbatim>\<open>getattr(rc_score, win_cond)\<close>\<close>

definition scored :: "game_match \<Rightarrow> recent_score \<Rightarrow> rat" where
  "scored g x = (if m_pp_scoring g then rs_pp x else case m_win_condition g of
       W_score \<Rightarrow> rs_score x | W_accuracy \<Rightarrow> rs_acc x | W_combo \<Rightarrow> rs_max_combo x | W_scorev2 \<Rightarrow> rs_score x)"

text \<open>Sums of accuracies and of pp are sums of doubles, the others of integers.\<close>

definition sum_scores :: "game_match \<Rightarrow> rat \<Rightarrow> rat \<Rightarrow> rat" where
  "sum_scores g a b = (if m_pp_scoring g \<or> m_win_condition g = W_accuracy then fl (a + b) else a + b)"

fun add_score :: "game_match \<Rightarrow> point_key \<Rightarrow> rat \<Rightarrow> (point_key \<times> rat) list \<Rightarrow> (point_key \<times> rat) list" where
  "add_score g k v [] = [(k, v)]"
| "add_score g k v ((j, w) # xs) = (if j = k then (j, sum_scores g w v) # xs else (j, w) # add_score g k v xs)"

text \<open>The score of the slot at position \<open>i\<close> after \<open>n\<close> sleeps, if it is recent and of this map.\<close>

definition found_score :: "scrim_ext \<Rightarrow> game_match \<Rightarrow> int \<Rightarrow> nat \<Rightarrow> nat \<Rightarrow> recent_score option" where
  "found_score px g len n r = (case px_recent px n r of
       None \<Rightarrow> None
     | Some x \<Rightarrow>
         if rs_md5 x = Some (m_map_md5 g) \<and> px_now px n - (of_int len + of_nat n / 2 + 1 / 2) < rs_server_time x
         then Some x else None)"

text \<open>
  The waiting loop of one slot. Twenty-one sleeps are more than ten seconds, and the count goes on from
  slot to slot.
\<close>

function wait_score :: "scrim_ext \<Rightarrow> game_match \<Rightarrow> int \<Rightarrow> nat \<Rightarrow> nat \<Rightarrow>
    ((slot \<times> nat \<times> recent_score option) \<times> nat) result" where
  "wait_score px g len i n = (case sl_player (px_slot px n i) of
       None \<Rightarrow> Inl AssertionError
     | Some r \<Rightarrow> (case found_score px g len n r of
         Some x \<Rightarrow> Inr ((px_slot px n i, r, Some x), n)
       | None \<Rightarrow>
           if 20 < Suc n then Inr ((px_slot px n i, r, None), Suc n)
           else wait_score px g len i (Suc n)))"
  by pat_completeness auto

termination
  by (relation "measure (\<lambda>(_, _, _, _, n). 20 - n)") auto

declare wait_score.simps [simp del]

fun await_slots :: "scrim_ext \<Rightarrow> game_match \<Rightarrow> int \<Rightarrow> nat list \<Rightarrow> nat \<Rightarrow>
    (point_key \<times> rat) list \<Rightarrow> nat list \<Rightarrow> ((point_key \<times> rat) list \<times> nat list) result" where
  "await_slots px g len [] n scores missing = Inr (scores, missing)"
| "await_slots px g len (i # is) n scores missing =
     bindE (wait_score px g len i n) (\<lambda>((slot, r, x), n').
       case x of
         None \<Rightarrow> await_slots px g len is n' scores (missing @ [r])
       | Some x \<Rightarrow>
           let k = (if free_for_all (m_team_type g) then PK_player r else PK_team (sl_team slot))
           in await_slots px g len is n'
                (if scored g x \<noteq> 0 then add_score g k (scored g x) scores else scores) missing)"

text \<open>\<^verbatim>\<open>await_submissions\<close>, with the length of the beatmap, or \<open>None\<close> when it is not submitted.\<close>

definition await_submissions :: "scrim_ext \<Rightarrow> game_match \<Rightarrow> int option \<Rightarrow> nat \<Rightarrow>
    ((point_key \<times> rat) list \<times> nat list) result" where
  "await_submissions px g bmap_length playing = (case bmap_length of
       None \<Rightarrow> Inr ([], [])
     | Some len \<Rightarrow> await_slots px g len [0 ..< playing] 0 [] [])"

section \<open>The point\<close>

text \<open>\<^verbatim>\<open>max(scores, key=...)\<close>: the first key with the largest score.\<close>

fun best_key :: "(point_key \<times> rat) list \<Rightarrow> point_key \<times> rat \<Rightarrow> point_key \<times> rat" where
  "best_key [] b = b"
| "best_key (x # xs) b = best_key xs (if snd b < snd x then x else b)"

definition is_tie :: "(point_key \<times> rat) list \<Rightarrow> bool" where
  "is_tie scores \<longleftrightarrow> length scores \<noteq> 1 \<and> list_all (\<lambda>x. snd x = snd (hd scores)) scores"

definition key_name :: "server \<Rightarrow> point_key \<Rightarrow> pystr" where
  "key_name s k = (case k of PK_player r \<Rightarrow> p_name (s_player s r)
     | PK_team T_neutral \<Rightarrow> py ''neutral'' | PK_team T_blue \<Rightarrow> py ''blue'' | PK_team T_red \<Rightarrow> py ''red'')"

text \<open>\<^verbatim>\<open>sum(scores.values()) / len(scores)\<close>\<close>

definition average :: "game_match \<Rightarrow> (point_key \<times> rat) list \<Rightarrow> rat" where
  "average g scores = fl (fold (\<lambda>x a. sum_scores g a (snd x)) scores 0 / of_nat (length scores))"

text \<open>\<^verbatim>\<open>team_names\<close>, raising for the neutral team.\<close>

definition team_name :: "pystr \<times> pystr \<Rightarrow> point_key \<Rightarrow> pystr result" where
  "team_name names k = (case k of
       PK_team T_blue \<Rightarrow> Inr (fst names) | PK_team T_red \<Rightarrow> Inr (snd names) | _ \<Rightarrow> Inl KeyError)"

definition total_line :: "server \<Rightarrow> game_match \<Rightarrow> pystr" where
  "total_line s g = py ''Total Score: '' @ join_text (py '' | '')
     (map (\<lambda>(k, v). key_name s k @ py '' - '' @ str_int v) (sort_key snd (m_match_points g)))"

text \<open>
  Whether the points of the winner end the scrim: \<^verbatim>\<open>self.winning_pts and wmp == self.winning_pts\<close>.
\<close>

definition wins_match :: "point_key \<Rightarrow> game_match \<Rightarrow> bool" where
  "wins_match k g \<longleftrightarrow> m_winning_pts g \<noteq> 0 \<and> points_of k (m_match_points g) = m_winning_pts g"

definition point_lines_ffa :: "scrim_ext \<Rightarrow> nat \<Rightarrow> point_key \<Rightarrow> (point_key \<times> rat) list \<Rightarrow> rat \<Rightarrow> pystr list sop" where
  "point_lines_ffa px m k scores v = bnd (gets (\<lambda>s. (s, s_match s m))) (\<lambda>(s, g).
     let show = px_show px (m_pp_scoring g) (m_win_condition g);
         line = key_name s k @ py '' takes the point! ('' @ show False v @ py '' [Match avg. '' @
                show True (average g scores) @ py ''])'' in
     if wins_match k g then thn (end_scrim m)
       (retn [line, key_name s k @ py '' takes the match! Congratulations!''])
     else retn [line, total_line s g])"

text \<open>Reading \<^verbatim>\<open>self.match_points[loser]\<close> enters the loser with 0 points; so does the model.\<close>

definition point_lines_teams :: "scrim_ext \<Rightarrow> nat \<Rightarrow> point_key \<Rightarrow> (point_key \<times> rat) list \<Rightarrow> rat \<Rightarrow> pystr list sop" where
  "point_lines_teams px m k scores v = bnd (game m (\<lambda>g. g)) (\<lambda>g.
     let (title, blue, red) = (case px_names px (m_name g) of Some x \<Rightarrow> x | None \<Rightarrow> (m_name g, py ''Blue'', py ''Red''));
         loser = (if k = PK_team T_blue then PK_team T_red else PK_team T_blue);
         show = px_show px (m_pp_scoring g) (m_win_condition g) False in
     bnd (lift_result (team_name (blue, red) k)) (\<lambda>wname.
     bnd (lift_result (team_name (blue, red) loser)) (\<lambda>lname.
     thn (upd_match m (\<lambda>g. g\<lparr>m_match_points := points_add loser 0 (m_match_points g)\<rparr>))
       (let ls = (case map_of scores loser of Some w \<Rightarrow> w | None \<Rightarrow> 0);
            wmp = points_of k (m_match_points g); lmp = points_of loser (m_match_points g);
            line = wname @ py '' takes the point! ('' @ show v @ py '' vs. '' @ show ls @ py '')'' in
        if wins_match k g then thn (end_scrim m)
          (retn [line, wname @ py '' takes the match, finishing '' @ title @ py '' with a score of '' @
             str_int wmp @ py '' - '' @ str_int lmp @ py ''! Congratulations!''])
        else retn [line, py ''Total Score: '' @ wname @ py '' | '' @ str_int wmp @ py '' - '' @ str_int lmp @
             py '' | '' @ lname]))))"

definition award_point :: "scrim_ext \<Rightarrow> nat \<Rightarrow> (point_key \<times> rat) list \<Rightarrow> point_key \<Rightarrow> rat \<Rightarrow> pystr list sop" where
  "award_point px m scores k v =
     thn (upd_match m (\<lambda>g. g\<lparr>m_winners := m_winners g @ [Some k],
            m_match_points := points_add k 1 (m_match_points g)\<rparr>))
     (bnd (game m m_team_type) (\<lambda>tt.
       if free_for_all tt
       then (case k of PK_player _ \<Rightarrow> point_lines_ffa px m k scores v | PK_team _ \<Rightarrow> raise AssertionError)
       else (case k of PK_team _ \<Rightarrow> point_lines_teams px m k scores v | PK_player _ \<Rightarrow> raise AssertionError)))"

definition record_tie :: "nat \<Rightarrow> unit sop" where
  "record_tie m = upd_match m (\<lambda>g. g\<lparr>m_winners := m_winners g @ [None]\<rparr>)"

text \<open>\<^verbatim>\<open>update_matchpoints\<close> from the moment the scores are there.\<close>

definition update_matchpoints :: "scrim_ext \<Rightarrow> nat \<Rightarrow> (point_key \<times> rat) list \<Rightarrow> nat list \<Rightarrow> unit sop" where
  "update_matchpoints px m scores missing =
     bnd (game m m_chat) (\<lambda>c.
     thn (foreach missing (\<lambda>r. bnd (player r player_repr) (\<lambda>t.
            ch_send_bot c (t @ py '' didn'' @ 39 # py ''t submit a score (timeout: 10s).''))))
     (case scores of
        [] \<Rightarrow> ch_send_bot c (py ''Scores could not be calculated.'')
      | x # xs \<Rightarrow>
          if is_tie scores then
            thn (record_tie m)
              (ch_send_bot c (py ''The point has ended in a tie!''))
          else
            (case best_key xs x of (k, v) \<Rightarrow>
             bnd (award_point px m scores k v) (\<lambda>lines.
             thn (if missing \<noteq> [] then ch_send_bot c (py ''If you'' @ 39 # py ''d like to perform a rematch, '' @
                    py ''please use the `!mp rematch` command.'') else skip)
               (foreach lines (\<lambda>l. ch_send_bot c l))))))"

end
