(* ===== verification/Moderation.thy ===== *)
theory Moderation
  imports Scrims
begin

text \<open>
  The other commands of \<^verbatim>\<open>app/commands.py\<close> that act on players, and the dispatch of a message
  to a command (\<^verbatim>\<open>process_commands\<close>). The target of a moderation command is an online player
  or, when the name is only in the database, a player object read from its row: that object is dropped
  after the command, so what is enqueued to it is lost, and what remains are the rows written and the
  packets to others.
\<close>

section \<open>Players by name\<close>

definition named_user :: "cmd_ext \<Rightarrow> pystr \<Rightarrow> pm_target option sop" where
  "named_user cx name = from_cache_or_sql (ext.truncate cx) name"

definition target_info :: "pm_target \<Rightarrow> player sop" where
  "target_info t = gets (\<lambda>s. target_player s t)"

definition target_restrict :: "pm_target \<Rightarrow> nat \<Rightarrow> pystr \<Rightarrow> unit sop" where
  "target_restrict t admin reason = (case t of
       PT_online q \<Rightarrow> restrict q admin reason
     | PT_sql u \<Rightarrow>
         thn (spawn (Set_priv (su_id u) (su_priv u AND privs_not P_UNRESTRICTED)))
           (bnd (player admin p_id) (\<lambda>a. spawn (Add_log a (su_id u) (py ''restrict'') reason))))"

text \<open>The object has a token of its own, so it counts as online, and its logout is sent to everybody.\<close>

definition target_unrestrict :: "pm_target \<Rightarrow> nat \<Rightarrow> pystr \<Rightarrow> unit sop" where
  "target_unrestrict t admin reason = (case t of
       PT_online q \<Rightarrow> unrestrict q admin reason
     | PT_sql u \<Rightarrow>
         thn (spawn (Set_priv (su_id u) (su_priv u OR P_UNRESTRICTED)))
         (thn (bnd (player admin p_id) (\<lambda>a. spawn (Add_log a (su_id u) (py ''unrestrict'') reason)))
           (if su_token u \<noteq> [] then emit (logout_packet (su_id u)) (\<lambda>d. players_enqueue d []) else skip)))"

definition target_silence :: "pm_target \<Rightarrow> nat \<Rightarrow> rat \<Rightarrow> pystr \<Rightarrow> unit sop" where
  "target_silence t admin duration reason = (case t of
       PT_online q \<Rightarrow> silence q admin duration reason
     | PT_sql u \<Rightarrow> bnd (gets s_now) (\<lambda>now. bnd (player admin p_id) (\<lambda>a.
         thn (spawn (Set_silence_end (su_id u) (trunc_rat (fl (now + duration)))))
         (thn (spawn (Add_log a (su_id u) (py ''silence'') reason))
         (thn (emit (silence_end_packet (trunc_rat duration)) (\<lambda>_. skip))
           (emit (user_silenced (su_id u)) (\<lambda>d. players_enqueue d [])))))))"

definition target_unsilence :: "pm_target \<Rightarrow> nat \<Rightarrow> pystr \<Rightarrow> unit sop" where
  "target_unsilence t admin reason = (case t of
       PT_online q \<Rightarrow> unsilence q admin reason
     | PT_sql u \<Rightarrow> bnd (gets s_now) (\<lambda>now. bnd (player admin p_id) (\<lambda>a.
         thn (spawn (Set_silence_end (su_id u) (trunc_rat now)))
           (spawn (Add_log a (su_id u) (py ''unsilence'') reason)))))"

definition target_add_privs :: "pm_target \<Rightarrow> int \<Rightarrow> unit sop" where
  "target_add_privs t bits = (case t of
       PT_online q \<Rightarrow> add_privs q bits
     | PT_sql u \<Rightarrow> spawn (Set_priv (su_id u) (su_priv u OR bits)))"

definition target_remove_privs :: "pm_target \<Rightarrow> int \<Rightarrow> unit sop" where
  "target_remove_privs t bits = (case t of
       PT_online q \<Rightarrow> remove_privs q bits
     | PT_sql u \<Rightarrow> spawn (Set_priv (su_id u) (su_priv u AND privs_not bits)))"

definition target_donor_end :: "pm_target \<Rightarrow> int \<Rightarrow> unit sop" where
  "target_donor_end t v = (case t of
       PT_online q \<Rightarrow> upd_player q (\<lambda>p. p\<lparr>p_donor_end := v\<rparr>) | PT_sql u \<Rightarrow> skip)"

text \<open>\<^verbatim>\<open>if target.is_online: target.logout()\<close>; an object from the database was logged out already.\<close>

definition target_refresh :: "pm_target \<Rightarrow> unit sop" where
  "target_refresh t = (case t of
       PT_online q \<Rightarrow> bnd (player q is_online) (\<lambda>on. if on then logout q else skip) | PT_sql u \<Rightarrow> skip)"

section \<open>Commands of every player\<close>

definition cmd_roll :: "cmd_ext \<Rightarrow> callback" where
  "cmd_roll cx ctx =
     (let max_roll = (case cc_args ctx of
            a # _ \<Rightarrow> if isdecimal (cx_digit cx) a then min (decimal_number (cx_digit cx) a) 0x7FFF else 100
          | [] \<Rightarrow> 100)
      in if max_roll = 0 then reply (py ''Roll what?'')
         else bnd (gets (\<lambda>s. (p_name (s_player s (cc_player ctx)), cx_randrange cx s max_roll))) (\<lambda>(name, points).
           reply (name @ py '' rolls '' @ str_int points @ py '' points!'')))"

text \<open>The target of \<^verbatim>\<open>!block\<close> and \<^verbatim>\<open>!unblock\<close>.\<close>

definition block_target :: "cmd_ext \<Rightarrow> cmd_context \<Rightarrow> (pm_target \<Rightarrow> player \<Rightarrow> pystr option sop) \<Rightarrow> pystr option sop" where
  "block_target cx ctx k =
     bnd (named_user cx (join_with 32 (cc_args ctx))) (\<lambda>t. case t of
       None \<Rightarrow> reply (py ''User not found.'')
     | Some t \<Rightarrow> bnd (gets s_bot) (\<lambda>b.
         if t = PT_online b \<or> t = PT_online (cc_player ctx) then reply (py ''What?'')
         else bnd (target_info t) (k t)))"

definition cmd_block :: "cmd_ext \<Rightarrow> callback" where
  "cmd_block cx ctx = block_target cx ctx (\<lambda>t tp.
     bnd (player (cc_player ctx) p_blocks) (\<lambda>blocks.
       if p_id tp \<in> blocks then reply (p_name tp @ py '' already blocked!'')
       else
         thn (upd_player (cc_player ctx) (\<lambda>p. p\<lparr>p_friends := p_friends p - {p_id tp}\<rparr>))
         (thn (block_id (cc_player ctx) (p_id tp))
           (reply (py ''Added '' @ p_name tp @ py '' to blocked users.'')))))"

definition cmd_unblock :: "cmd_ext \<Rightarrow> callback" where
  "cmd_unblock cx ctx = block_target cx ctx (\<lambda>t tp.
     bnd (player (cc_player ctx) p_blocks) (\<lambda>blocks.
       if p_id tp \<notin> blocks then reply (p_name tp @ py '' not blocked!'')
       else thn (unblock_id (cc_player ctx) (p_id tp))
         (reply (py ''Removed '' @ p_name tp @ py '' from blocked users.''))))"

definition cmd_reconnect :: callback where
  "cmd_reconnect ctx =
     (if cc_args ctx \<noteq> [] then
        bnd (player (cc_player ctx) p_priv) (\<lambda>priv.
          if \<not> has priv P_ADMINISTRATOR then no_reply
          else bnd (get_by_name (join_with 32 (cc_args ctx))) (\<lambda>t. case t of
              None \<Rightarrow> reply (py ''Player not found'')
            | Some q \<Rightarrow> thn (logout q) no_reply))
      else thn (logout (cc_player ctx)) no_reply)"

definition cmd_changename :: "cmd_ext \<Rightarrow> callback" where
  "cmd_changename cx ctx =
     (let name = strip (join_with 32 (cc_args ctx)) in
      if \<not> cx_username cx name then reply (py ''Must be 2-15 characters in length.'')
      else if 95 \<in> set name \<and> 32 \<in> set name then reply (py ''May contain \"_\" and \" \", but not both.'')
      else if name \<in> set (cx_disallowed_names cx) then reply (py ''Disallowed username; pick another.'')
      else if cx_name_taken cx name then reply (py ''Username already taken by another player.'')
      else bnd (player (cc_player ctx) p_id) (\<lambda>i.
        thn (spawn (Set_name i name))
        (thn (emit (notification (py ''Your username has been changed to '' @ name @ py ''!'')) (p_enqueue (cc_player ctx)))
        (thn (logout (cc_player ctx)) no_reply))))"

section \<open>Commands of the staff\<close>

definition SHORTHAND_REASONS :: "(pystr \<times> pystr) list" where
  "SHORTHAND_REASONS = map (\<lambda>(k, v). (py k, py v))
     [(''aa'', ''having their appeal accepted''), (''cc'', ''using a modified osu! client''),
      (''3p'', ''using 3rd party programs''), (''rx'', ''using 3rd party programs (relax)''),
      (''tw'', ''using 3rd party programs (timewarp)''), (''au'', ''using 3rd party programs (auto play)'')]"

definition expand_reason :: "pystr \<Rightarrow> pystr" where
  "expand_reason r = (case map_of SHORTHAND_REASONS r of Some t \<Rightarrow> t | None \<Rightarrow> r)"

text \<open>The target named by the first argument, quoted in the refusal.\<close>

definition first_target :: "cmd_ext \<Rightarrow> pystr \<Rightarrow> (pm_target \<Rightarrow> player \<Rightarrow> pystr option sop) \<Rightarrow> pystr option sop" where
  "first_target cx name k = bnd (named_user cx name) (\<lambda>t. case t of
       None \<Rightarrow> reply (34 # name @ [34] @ py '' not found.'')
     | Some t \<Rightarrow> bnd (target_info t) (k t))"

text \<open>\<^verbatim>\<open>if target.priv & STAFF and not ctx.player.priv & DEVELOPER: return ...\<close>\<close>

definition staff_guard :: "cmd_context \<Rightarrow> player \<Rightarrow> pystr option sop \<Rightarrow> pystr option sop" where
  "staff_guard ctx tp k = bnd (player (cc_player ctx) p_priv) (\<lambda>priv.
     if has (p_priv tp) P_STAFF \<and> \<not> has priv P_DEVELOPER
     then reply (py ''Only developers can manage staff members.'') else k)"

definition cmd_addnote :: "cmd_ext \<Rightarrow> callback" where
  "cmd_addnote cx ctx = (case cc_args ctx of
       name # w # ws \<Rightarrow> first_target cx name (\<lambda>t tp. bnd (player (cc_player ctx) p_id) (\<lambda>i.
         thn (spawn (Add_log i (p_id tp) (py ''note'') (join_with 32 (w # ws))))
           (reply (py ''Added note to '' @ player_repr tp @ py ''.''))))
     | _ \<Rightarrow> reply (py ''Invalid syntax: !addnote <name> <note ...>''))"

definition cmd_silence :: "cmd_ext \<Rightarrow> callback" where
  "cmd_silence cx ctx = (case cc_args ctx of
       name # dur # w # ws \<Rightarrow> first_target cx name (\<lambda>t tp. staff_guard ctx tp (
         case cx_timeparse cx dur of
           None \<Rightarrow> reply (py ''Invalid timespan.'')
         | Some d \<Rightarrow>
             if d = 0 then reply (py ''Invalid timespan.'')
             else thn (target_silence t (cc_player ctx) d (expand_reason (join_with 32 (w # ws))))
               (reply (player_repr tp @ py '' was silenced.''))))
     | _ \<Rightarrow> reply (py ''Invalid syntax: !silence <name> <duration> <reason>''))"

definition cmd_unsilence :: "cmd_ext \<Rightarrow> callback" where
  "cmd_unsilence cx ctx = (case cc_args ctx of
       name # w # ws \<Rightarrow> first_target cx name (\<lambda>t tp. bnd (gets s_now) (\<lambda>now.
         if remaining_silence now tp = 0 then reply (player_repr tp @ py '' is not silenced.'')
         else staff_guard ctx tp (
           thn (target_unsilence t (cc_player ctx) (join_with 32 (w # ws)))
             (reply (player_repr tp @ py '' was unsilenced.'')))))
     | _ \<Rightarrow> reply (py ''Invalid syntax: !unsilence <name> <reason>''))"

definition cmd_restrict :: "cmd_ext \<Rightarrow> callback" where
  "cmd_restrict cx ctx = (case cc_args ctx of
       name # w # ws \<Rightarrow> first_target cx name (\<lambda>t tp. staff_guard ctx tp (
         if p_restricted tp then reply (player_repr tp @ py '' is already restricted!'')
         else
           thn (target_restrict t (cc_player ctx) (expand_reason (join_with 32 (w # ws))))
           (thn (target_refresh t) (reply (player_repr tp @ py '' was restricted.'')))))
     | _ \<Rightarrow> reply (py ''Invalid syntax: !restrict <name> <reason>''))"

definition cmd_unrestrict :: "cmd_ext \<Rightarrow> callback" where
  "cmd_unrestrict cx ctx = (case cc_args ctx of
       name # w # ws \<Rightarrow> first_target cx name (\<lambda>t tp. staff_guard ctx tp (
         if \<not> p_restricted tp then reply (player_repr tp @ py '' is not restricted!'')
         else
           thn (target_unrestrict t (cc_player ctx) (expand_reason (join_with 32 (w # ws))))
           (thn (target_refresh t) (reply (player_repr tp @ py '' was unrestricted.'')))))
     | _ \<Rightarrow> reply (py ''Invalid syntax: !unrestrict <name> <reason>''))"

definition cmd_alert :: callback where
  "cmd_alert ctx = (case cc_args ctx of
       [] \<Rightarrow> reply (py ''Invalid syntax: !alert <msg>'')
     | ws \<Rightarrow> thn (emit (notification (join_with 32 ws)) (\<lambda>d. players_enqueue d [])) (reply (py ''Alert sent.'')))"

definition cmd_alertuser :: callback where
  "cmd_alertuser ctx = (case cc_args ctx of
       name # w # ws \<Rightarrow> bnd (get_by_name name) (\<lambda>t. case t of
           None \<Rightarrow> reply (py ''Could not find a user by that name.'')
         | Some q \<Rightarrow> thn (emit (notification (join_with 32 (w # ws))) (p_enqueue q)) (reply (py ''Alert sent.'')))
     | _ \<Rightarrow> reply (py ''Invalid syntax: !alertu <name> <msg>''))"

definition cmd_switchserv :: callback where
  "cmd_switchserv ctx = (case cc_args ctx of
       [ip] \<Rightarrow> thn (emit (switch_tournament_server ip) (p_enqueue (cc_player ctx))) (reply (py ''Have a nice journey..''))
     | _ \<Rightarrow> reply (py ''Invalid syntax: !switch <endpoint>''))"

text \<open>The signal that ends the process is left out; a delayed one only alerts the players now.\<close>

definition cmd_shutdown :: "cmd_ext \<Rightarrow> callback" where
  "cmd_shutdown cx ctx = (case cc_args ctx of
       [] \<Rightarrow> reply (py ''Process killed'')
     | dur # ws \<Rightarrow> (case cx_timeparse cx dur of
           None \<Rightarrow> reply (py ''Invalid timespan.'')
         | Some d \<Rightarrow>
             if d = 0 then reply (py ''Invalid timespan.'')
             else if d < 15 then reply (py ''Minimum delay is 15 seconds.'')
             else
               thn (if ws \<noteq> [] then emit (notification (py ''The server will '' @ cc_trigger ctx @ py '' in '' @ dur @
                       [46, 10, 10] @ py ''Reason: '' @ join_with 32 ws)) (\<lambda>d. players_enqueue d []) else skip)
                 (reply (py ''Enqueued '' @ cc_trigger ctx @ py ''.''))))"

definition cmd_stealth :: callback where
  "cmd_stealth ctx = thn (upd_player (cc_player ctx) (\<lambda>p. p\<lparr>p_stealth := \<not> p_stealth p\<rparr>))
     (bnd (player (cc_player ctx) p_stealth) (\<lambda>on.
       reply (py ''Stealth '' @ (if on then py ''enabled'' else py ''disabled'') @ py ''.'')))"

definition str_priv_dict :: "(pystr \<times> int) list" where
  "str_priv_dict = map (\<lambda>(k, v). (py k, v))
     [(''normal'', P_UNRESTRICTED), (''verified'', P_VERIFIED), (''whitelisted'', P_WHITELISTED),
      (''supporter'', P_SUPPORTER), (''premium'', P_PREMIUM), (''alumni'', P_ALUMNI),
      (''tournament'', P_TOURNEY_MANAGER), (''nominator'', P_NOMINATOR), (''mod'', P_MODERATOR),
      (''admin'', P_ADMINISTRATOR), (''developer'', P_DEVELOPER)]"

fun privs_named :: "pystr list \<Rightarrow> pystr + int" where
  "privs_named [] = Inr 0"
| "privs_named (w # ws) = (case map_of str_priv_dict w of
       None \<Rightarrow> Inl w
     | Some b \<Rightarrow> (case privs_named ws of Inl e \<Rightarrow> Inl e | Inr bits \<Rightarrow> Inr (b OR bits)))"

text \<open>The shared part of \<^verbatim>\<open>!addpriv\<close> and \<^verbatim>\<open>!rmpriv\<close>.\<close>

definition priv_target :: "cmd_ext \<Rightarrow> pystr \<Rightarrow> cmd_context \<Rightarrow> (pm_target \<Rightarrow> player \<Rightarrow> int \<Rightarrow> pystr option sop) \<Rightarrow>
    pystr option sop" where
  "priv_target cx usage ctx k = (case cc_args ctx of
       name # w # ws \<Rightarrow> bnd (gets (\<lambda>s. privs_named (map (e_lower (s_env s)) (w # ws)))) (\<lambda>r. case r of
           Inl e \<Rightarrow> reply (py ''Not found: '' @ e @ py ''.'')
         | Inr bits \<Rightarrow> bnd (named_user cx name) (\<lambda>t. case t of
               None \<Rightarrow> reply (py ''Could not find user.'')
             | Some t \<Rightarrow> bnd (target_info t) (\<lambda>tp. k t tp bits)))
     | _ \<Rightarrow> reply usage)"

definition cmd_addpriv :: "cmd_ext \<Rightarrow> callback" where
  "cmd_addpriv cx ctx = priv_target cx (py ''Invalid syntax: !addpriv <name> <role1 role2 role3 ...>'') ctx (\<lambda>t tp bits.
     if has bits P_DONATOR
     then reply (py ''Please use the !givedonator command to assign donator privileges to players.'')
     else thn (target_add_privs t bits) (reply (py ''Updated '' @ player_repr tp @ 39 # py ''s privileges.'')))"

definition cmd_rmpriv :: "cmd_ext \<Rightarrow> callback" where
  "cmd_rmpriv cx ctx = priv_target cx (py ''Invalid syntax: !rmpriv <name> <role1 role2 role3 ...>'') ctx (\<lambda>t tp bits.
     thn (target_remove_privs t bits)
     (thn (if has bits P_DONATOR
           then thn (target_donor_end t 0) (spawn (Clear_donor_end (p_id tp))) else skip)
       (reply (py ''Updated '' @ player_repr tp @ 39 # py ''s privileges.''))))"

definition cmd_givedonator :: "cmd_ext \<Rightarrow> callback" where
  "cmd_givedonator cx ctx = (case cc_args ctx of
       name # dur # ws \<Rightarrow> bnd (named_user cx name) (\<lambda>t. case t of
           None \<Rightarrow> reply (py ''Could not find user.'')
         | Some t \<Rightarrow> (case cx_timeparse cx dur of
               None \<Rightarrow> reply (py ''Invalid timespan.'')
             | Some d \<Rightarrow>
                 if d = 0 then reply (py ''Invalid timespan.'')
                 else bnd (target_info t) (\<lambda>tp. bnd (gets s_now) (\<lambda>now.
                   let until = fl (d + (if of_int (p_donor_end tp) < now then now else of_int (p_donor_end tp))) in
                   thn (target_donor_end t (trunc_rat until))
                   (thn (spawn (Set_donor_end (p_id tp) until))
                   (thn (target_add_privs t P_SUPPORTER)
                     (reply (py ''Added '' @ dur @ py '' of donator status to '' @ player_repr tp @ py ''.'')))))))) 
     | _ \<Rightarrow> reply (py ''Invalid syntax: !givedonator <name> <duration>''))"


section \<open>Commands on clans, and reports\<close>

text \<open>
  A command of the clan set: the database decides (\<open>cx_clan\<close>), the cached clan of the online
  players follows, and the announcement goes to everybody in the channel, the sender included.
\<close>

definition cmd_clan :: "cmd_ext \<Rightarrow> pystr \<Rightarrow> callback" where
  "cmd_clan cx which ctx = bnd (gets (cx_clan cx which (cc_player ctx) (cc_args ctx))) (\<lambda>r. bnd (lift_result r) (\<lambda>e.
     thn (foreach (ce_sync e) (\<lambda>(i, clan). bnd (get_by_id i) (\<lambda>t. case t of
            None \<Rightarrow> skip | Some q \<Rightarrow> upd_player q (\<lambda>p. p\<lparr>p_clan_id := clan\<rparr>))))
     (thn (case ce_announce e of
            None \<Rightarrow> skip
          | Some msg \<Rightarrow> bnd (channels_get_by_name (py ''#announce'')) (\<lambda>c. case c of
              None \<Rightarrow> skip | Some c \<Rightarrow> ch_send c msg (cc_player ctx) True))
       (retn (ce_reply e)))))"

text \<open>The other commands read, format, or write rows that no session holds.\<close>

definition cmd_report :: "cmd_ext \<Rightarrow> pystr \<Rightarrow> callback" where
  "cmd_report cx which ctx =
     bnd (gets (cx_report cx which (cc_player ctx) (cc_recipient ctx) (cc_args ctx))) lift_result"

section \<open>The tables\<close>

record command =
  cmd_triggers :: "pystr list"
  cmd_priv :: int
  cmd_hidden :: bool
  cmd_callback :: callback

definition mk_command :: "string list \<Rightarrow> int \<Rightarrow> bool \<Rightarrow> callback \<Rightarrow> command" where
  "mk_command triggers priv hidden f =
     \<lparr>cmd_triggers = map py triggers, cmd_priv = priv, cmd_hidden = hidden, cmd_callback = f\<rparr>"

definition report_command :: "cmd_ext \<Rightarrow> string list \<Rightarrow> int \<Rightarrow> bool \<Rightarrow> command" where
  "report_command cx triggers priv hidden = mk_command triggers priv hidden (cmd_report cx (py (hd triggers)))"

text \<open>Those of \<^verbatim>\<open>!reload\<close> and \<^verbatim>\<open>!py\<close>, which replace or run code, are not in the table.\<close>

definition regular_commands :: "cmd_ext \<Rightarrow> command list" where
  "regular_commands cx =
     [report_command cx [''help'', '''', ''h''] P_UNRESTRICTED True,
      mk_command [''roll''] P_UNRESTRICTED False (cmd_roll cx),
      mk_command [''block''] P_UNRESTRICTED True (cmd_block cx),
      mk_command [''unblock''] P_UNRESTRICTED True (cmd_unblock cx),
      mk_command [''reconnect''] P_UNRESTRICTED False cmd_reconnect,
      mk_command [''changename''] P_SUPPORTER False (cmd_changename cx),
      report_command cx [''maplink'', ''bloodcat'', ''beatconnect'', ''chimu'', ''q''] P_UNRESTRICTED False,
      report_command cx [''recent'', ''last'', ''r''] P_UNRESTRICTED False,
      report_command cx [''top''] P_UNRESTRICTED True,
      report_command cx [''with'', ''w''] P_UNRESTRICTED True,
      report_command cx [''request'', ''req''] P_UNRESTRICTED False,
      report_command cx [''apikey''] P_UNRESTRICTED False,
      report_command cx [''requests'', ''reqs''] P_NOMINATOR True,
      report_command cx [''map''] P_NOMINATOR False,
      report_command cx [''notes''] P_MODERATOR True,
      mk_command [''addnote''] P_MODERATOR True (cmd_addnote cx),
      mk_command [''silence''] P_MODERATOR True (cmd_silence cx),
      mk_command [''unsilence''] P_MODERATOR True (cmd_unsilence cx),
      report_command cx [''user'', ''u''] P_ADMINISTRATOR True,
      mk_command [''restrict''] P_ADMINISTRATOR True (cmd_restrict cx),
      mk_command [''unrestrict''] P_ADMINISTRATOR True (cmd_unrestrict cx),
      mk_command [''alert''] P_ADMINISTRATOR True cmd_alert,
      mk_command [''alertuser'', ''alertu''] P_ADMINISTRATOR True cmd_alertuser,
      mk_command [''switchserv''] P_ADMINISTRATOR True cmd_switchserv,
      mk_command [''shutdown''] P_ADMINISTRATOR False (cmd_shutdown cx),
      mk_command [''stealth''] P_DEVELOPER False cmd_stealth,
      report_command cx [''recalc''] P_DEVELOPER False,
      report_command cx [''debug''] P_DEVELOPER True,
      mk_command [''addpriv''] P_DEVELOPER True (cmd_addpriv cx),
      mk_command [''rmpriv''] P_DEVELOPER True (cmd_rmpriv cx),
      mk_command [''givedonator''] P_DEVELOPER True (cmd_givedonator cx),
      report_command cx [''wipemap''] P_DEVELOPER False,
      report_command cx [''server''] P_UNRESTRICTED False]"

definition match_command :: "string list \<Rightarrow> (cmd_context \<Rightarrow> nat \<Rightarrow> pystr option sop) \<Rightarrow> command" where
  "match_command triggers f = mk_command triggers P_UNRESTRICTED False (ensure_match False f)"

definition mp_commands :: "cmd_ext \<Rightarrow> command list" where
  "mp_commands cx =
     [mk_command [''help'', ''h''] P_UNRESTRICTED False (ensure_match True (\<lambda>ctx _. cmd_report cx (py ''mp help'') ctx)),
      match_command [''start'', ''st''] (mp_start cx), match_command [''abort'', ''a''] mp_abort,
      match_command [''map''] (mp_map cx), match_command [''mods''] (mp_mods cx),
      match_command [''freemods'', ''fm'', ''fmods''] mp_freemods, match_command [''host''] mp_host,
      match_command [''randpw''] (mp_randpw cx), match_command [''invite'', ''inv''] mp_invite,
      match_command [''addref''] mp_addref, match_command [''rmref''] mp_rmref,
      match_command [''listref''] mp_listref, match_command [''lock''] mp_lock,
      match_command [''unlock''] mp_unlock, match_command [''teams''] mp_teams,
      match_command [''condition'', ''cond''] mp_condition, match_command [''scrim'', ''autoref''] (mp_scrim cx),
      match_command [''endscrim'', ''end''] mp_endscrim, match_command [''rematch'', ''rm''] mp_rematch,
      mk_command [''force'', ''f''] P_ADMINISTRATOR True (ensure_match False mp_force),
      match_command [''loadpool'', ''lp''] (mp_loadpool cx), match_command [''unloadpool'', ''ulp''] mp_unloadpool,
      match_command [''ban''] (mp_ban cx), match_command [''unban''] (mp_unban cx),
      match_command [''pick''] (mp_pick cx)]"

definition pool_command :: "cmd_ext \<Rightarrow> string list \<Rightarrow> command" where
  "pool_command cx triggers =
     mk_command triggers P_TOURNEY_MANAGER True (cmd_report cx (py ''pool '' @ py (hd triggers)))"

definition pool_commands :: "cmd_ext \<Rightarrow> command list" where
  "pool_commands cx = map (pool_command cx)
     [[''help'', ''h''], [''create'', ''c''], [''delete'', ''del'', ''d''], [''add'', ''a''],
      [''remove'', ''rm'', ''r''], [''list'', ''l''], [''info'', ''i'']]"

definition clan_command :: "cmd_ext \<Rightarrow> string list \<Rightarrow> command" where
  "clan_command cx triggers = mk_command triggers P_UNRESTRICTED False (cmd_clan cx (py (hd triggers)))"

definition clan_commands :: "cmd_ext \<Rightarrow> command list" where
  "clan_commands cx = map (clan_command cx)
     [[''help'', ''h''], [''create'', ''c''], [''disband'', ''delete'', ''d''], [''transfer'', ''t''],
      [''info'', ''i''], [''leave''], [''list'', ''l'']]"

section \<open>Dispatch\<close>

text \<open>\<^verbatim>\<open>except Exception\<close>\<close>

definition catch_errors :: "'a sop \<Rightarrow> 'a sop \<Rightarrow> 'a sop" where
  "catch_errors m h = (\<lambda>s. case m s of
       (Inl e, s') \<Rightarrow> if e \<in> {CancelledError, Hang, Crash} then (Inl e, s') else h s'
     | (Inr x, s') \<Rightarrow> (Inr x, s'))"

text \<open>The table and the remaining words a message selects.\<close>

definition select_commands :: "cmd_ext \<Rightarrow> (pystr \<Rightarrow> pystr) \<Rightarrow> pystr list \<Rightarrow> command list \<times> pystr \<times> pystr list" where
  "select_commands cx lower ws =
     (let trigger = lower (hd ws); args = tl ws;
          sub = (\<lambda>cmds. let ws' = (if args = [] then [py ''help''] else args) in (cmds, lower (hd ws'), tl ws'))
      in if trigger = py ''mp'' then sub (mp_commands cx)
         else if trigger = py ''pool'' then sub (pool_commands cx)
         else if trigger = py ''clan'' then sub (clan_commands cx)
         else (regular_commands cx, trigger, args))"

definition run_command :: "cmd_ext \<Rightarrow> command \<Rightarrow> cmd_context \<Rightarrow> cmd_response sop" where
  "run_command cx cmd ctx =
     bnd (catch_errors (cmd_callback cmd ctx)
            (reply (py ''An exception occurred when running the command.''))) (\<lambda>res. retn (case res of
       Some t \<Rightarrow> \<lparr>cr_hidden = cmd_hidden cmd, cr_resp = Some (t @ py '' | Elapsed: '' @ cx_elapsed cx)\<rparr>
     | None \<Rightarrow> \<lparr>cr_hidden = False, cr_resp = None\<rparr>))"

definition may_run :: "int \<Rightarrow> pystr \<Rightarrow> command \<Rightarrow> bool" where
  "may_run priv trigger cmd \<longleftrightarrow> trigger \<in> set (cmd_triggers cmd) \<and> priv AND cmd_priv cmd = cmd_priv cmd"

definition process_commands :: "cmd_ext \<Rightarrow> nat \<Rightarrow> nat option \<Rightarrow> pystr \<Rightarrow> cmd_response option sop" where
  "process_commands cx r recipient msg =
     bnd (gets (\<lambda>s. (s_env s, p_priv (s_player s r)))) (\<lambda>(env, priv).
       case select_commands cx (e_lower env) (split_on 32 (strip (drop (length (e_prefix env)) msg))) of
         (cmds, trigger, args) \<Rightarrow> (case find (may_run priv trigger) cmds of
             None \<Rightarrow> retn None
           | Some cmd \<Rightarrow> bnd (run_command cx cmd
               \<lparr>cc_player = r, cc_trigger = trigger, cc_args = args, cc_recipient = recipient\<rparr>)
               (\<lambda>resp. retn (Some resp))))"

text \<open>The environment of the handlers with the commands in it.\<close>

definition with_commands :: "cmd_ext \<Rightarrow> ext" where
  "with_commands cx = (ext.truncate cx)\<lparr>x_commands := process_commands cx\<rparr>"

end
