(* ===== verification/Identity.thy ===== *)
theory Identity
  imports Sessions Demo
begin

text \<open>
  What no request can change: the id, the name, the privileges and the silence of any player.
\<close>

text \<open>
  A property that only depends on the identities of the players and on the scores of the scrims is kept
  by everything a request does: the contract names the primitive updates such a property survives, and the
  operations are shown to be made of them, once for every property of this kind.
\<close>

named_theorems frame_keeps \<open>operations that keep a property of the identities and the scrims\<close>

locale framed =
  fixes P :: "server \<Rightarrow> bool"
  assumes view: "P (core s) = P s"
    and players [frame_keeps]: "(\<And>p. p_id (f p) = p_id p) \<Longrightarrow> (\<And>p. p_name (f p) = p_name p) \<Longrightarrow>
       (\<And>p. p_priv (f p) = p_priv p) \<Longrightarrow> (\<And>p. p_silence_end (f p) = p_silence_end p) \<Longrightarrow> keeps P (upd_player r f)"
    and games [frame_keeps]: "(\<And>x. m_match_points (h x) = m_match_points x) \<Longrightarrow> (\<And>x. m_winners (h x) = m_winners x) \<Longrightarrow>
       keeps P (upd_match m h)"
    and scrims [frame_keeps]: "keeps P (reset_scrim m)"
    and new_games [frame_keeps]: "m_match_points y = [] \<Longrightarrow> m_winners y = [] \<Longrightarrow> keeps P (new_game y)"
    and others [frame_keeps]: "(\<And>s. s_player (g s) = s_player s) \<Longrightarrow> (\<And>s. s_match (g s) = s_match s) \<Longrightarrow> keeps P (modify g)"
begin

lemma quiet_frame: "quiet m \<Longrightarrow> keeps P m"
  unfolding quiet_def keeps_def by (metis view)

lemmas frame_quiet [frame_keeps] = quiet_ops [THEN quiet_frame]

lemma frame_updates [frame_keeps]:
  "keeps P (upd_channel c g)" "keeps P (upd_slot m i k)"
  "keeps P (upd_slots m l)" "keeps P (channels_append c)" "keeps P (channels_remove c)"
  "keeps P (matches_remove m)" "keeps P (matches_set i m)" "keeps P (new_channel x)" "keeps P (players_remove r)"
  unfolding upd_channel_def upd_slot_def upd_slots_def channels_append_def channels_remove_def
    matches_remove_def matches_set_def new_channel_def players_remove_def drop_token_def drop_id_def drop_name_def
  by (intro keeps_intros frame_keeps; simp split: option.split)+

lemma frame_membership [frame_keeps]:
  "keeps P (join_channel r c)" "keeps P (leave_channel r c k)" "keeps P (leave_lobby r)"
  unfolding join_channel_def chan_enter_def ch_append_def leave_lobby_def leave_channel_def chan_exit_def ch_remove_def
  by (intro keeps_intros frame_keeps; simp)+

lemma frame_match_ops [frame_keeps]:
  "keeps P (unready_players m e)" "keeps P (reset_players_loaded_status m)" "keeps P (start_game m)"
  "keeps P (take_slot m i r)" "keeps P (join_fail r)"
  unfolding unready_players_def reset_players_loaded_status_def start_game_def take_slot_def join_fail_def
  by (intro keeps_intros frame_keeps; simp)+

lemma frame_join_match [frame_keeps]: "keeps P (join_match r m pw)"
  unfolding join_match_def enter_match_def by (intro keeps_intros frame_keeps)

lemma frame_leave_match [frame_keeps]: "keeps P (leave_match r)"
  unfolding leave_match_def close_match_def cancel_starting_def hand_over_def drop_referee_def free_slot_def
  by (intro keeps_intros frame_keeps; simp)

lemma frame_spectating [frame_keeps]: "keeps P (add_spectator h r)" "keeps P (remove_spectator h r)"
  unfolding add_spectator_def remove_spectator_def open_spec_channel_def spec_link_def spec_unlink_def
  by (intro keeps_intros frame_keeps; simp)+

lemma frame_leave_all [frame_keeps]: "keeps P (leave_all n r)"
proof (induction n)
  case (Suc n)
  then show ?case unfolding leave_all.simps by (intro keeps_intros keeps_list frame_keeps)
qed (unfold leave_all.simps, intro keeps_intros frame_keeps)

lemma frame_player_ops [frame_keeps]:
  "keeps P (logout r)" "keeps P (add_friend r q)" "keeps P (remove_friend r q)"
  unfolding logout_def add_friend_def remove_friend_def by (intro keeps_intros frame_keeps; simp)+

section \<open>The handlers\<close>

lemma frame_parts [frame_keeps]:
  "keeps P (upd_status r f)" "keeps P (set_match_mods m n)" "keeps P (mp_refused r t)"
  "keeps P (truncation_notice t r)" "keeps P (message_target n' r)" "keeps P (finish_game m)"
  "keeps P (store_np x np r)" "keeps P (from_cache_or_sql x n')"
  unfolding upd_status_def set_match_mods_def mp_refused_def truncation_notice_def message_target_def finish_game_def
    store_np_def Let_def from_cache_or_sql_def
  by (intro keeps_intros frame_keeps; simp)+

lemma frame_target_send [frame_keeps]: "keeps P (target_send tg t r)"
  unfolding target_send_def by (cases tg; simp; intro keeps_intros frame_keeps)

lemma frame_session_handlers [frame_keeps]:
  "keeps P (handle_ChangeAction a b c d e f r)" "keeps P (handle_StatsUpdateRequest r)"
  "keeps P (handle_Logout r)" "keeps P (handle_ReceiveUpdates i r)" "keeps P (handle_SetAwayMessage m r)"
  "keeps P (handle_StatsRequest is r)" "keeps P (handle_UserPresenceRequest is r)"
  "keeps P (handle_UserPresenceRequestAll r)" "keeps P (handle_ToggleBlockingDMs i r)"
  "keeps P (handle_StartSpectating i r)" "keeps P (handle_StopSpectating r)"
  "keeps P (handle_SpectateFrames fb r)" "keeps P (handle_CantSpectate r)" "keeps P (handle_LobbyPart r)"
  "keeps P (handle_LobbyJoin r)" "keeps P (handle_ChannelJoin n r)" "keeps P (handle_ChannelPart n r)"
  "keeps P (handle_FriendAdd i r)" "keeps P (handle_FriendRemove i r)"
  unfolding handle_ChangeAction_def handle_StatsUpdateRequest_def handle_Logout_def
    handle_ReceiveUpdates_def handle_SetAwayMessage_def handle_StatsRequest_def handle_StartSpectating_def
    handle_UserPresenceRequest_def handle_UserPresenceRequestAll_def handle_ToggleBlockingDMs_def
    handle_StopSpectating_def handle_SpectateFrames_def handle_CantSpectate_def handle_LobbyPart_def
    handle_LobbyJoin_def handle_ChannelJoin_def handle_ChannelPart_def handle_FriendAdd_def handle_FriendRemove_def
  by (intro keeps_intros frame_keeps; simp)+

lemma frame_creation [frame_keeps]: "keeps P (handle_MatchCreate d r)" "keeps P (handle_MatchChangeSlot i r)"
  unfolding handle_MatchCreate_def open_match_def register_match_def handle_MatchChangeSlot_def move_slot_def
  by (intro keeps_intros frame_keeps; simp add: match_init_def)+

lemma frame_settings [frame_keeps]:
  "keeps P (settings_freemods m d)" "keeps P (settings_map x m d)" "keeps P (settings_team m d)"
  "keeps P (settings_win m d)"
  unfolding settings_freemods_def settings_map_def settings_team_def settings_win_def
  by (intro keeps_intros frame_keeps; simp)+

lemma frame_match_handlers [frame_keeps]:
  "keeps P (handle_MatchJoin i pw r)" "keeps P (handle_MatchPart r)" "keeps P (set_own_status st r)"
  "keeps P (handle_MatchLock i r)" "keeps P (handle_MatchChangeSettings x d r)" "keeps P (handle_MatchStart r)"
  "keeps P (handle_MatchScoreUpdate b r)" "keeps P (handle_MatchComplete r)" "keeps P (handle_MatchChangeMods i r)"
  "keeps P (handle_MatchLoadComplete r)" "keeps P (handle_MatchFailed r)" "keeps P (handle_MatchSkipRequest r)"
  "keeps P (handle_MatchTransferHost i r)" "keeps P (handle_MatchChangeTeam r)" "keeps P (handle_MatchInvite i r)"
  "keeps P (handle_MatchChangePassword d r)" "keeps P (handle_TourneyMatchInfoRequest i r)"
  "keeps P (handle_TourneyMatchJoinChannel i r)" "keeps P (handle_TourneyMatchLeaveChannel i r)"
  unfolding handle_MatchJoin_def handle_MatchPart_def set_own_status_def handle_MatchLock_def
    handle_MatchChangeSettings_def handle_MatchStart_def handle_MatchScoreUpdate_def handle_MatchComplete_def
    handle_MatchChangeMods_def handle_MatchLoadComplete_def handle_MatchFailed_def handle_MatchSkipRequest_def
    handle_MatchTransferHost_def handle_MatchChangeTeam_def handle_MatchInvite_def handle_MatchChangePassword_def
    handle_TourneyMatchInfoRequest_def handle_TourneyMatchJoinChannel_def handle_TourneyMatchLeaveChannel_def
  by (intro keeps_intros frame_keeps; simp)+

lemma frame_messages:
  assumes "\<And>c msg. keeps P (x_commands x r c msg)"
  shows "keeps P (handle_SendMessage x m r)" "keeps P (handle_SendPrivateMessage x m r)"
  unfolding handle_SendMessage_def handle_SendPrivateMessage_def bot_dm_def Let_def
  by (intro keeps_intros frame_keeps assms)+

lemma frame_handle: "(\<And>c msg. keeps P (x_commands x r c msg)) \<Longrightarrow> keeps P (handle x msg r)"
  by (cases msg) (simp_all add: frame_keeps frame_messages keeps_skip handle_MatchReady_def handle_MatchNotReady_def
      handle_MatchNoBeatmap_def handle_MatchHasBeatmap_def)

lemma frame_process:
  assumes "\<And>c msg. keeps P (x_commands x r c msg)"
  shows "keeps P (process x handled n view r)"
proof (induction n arbitrary: view)
  case 0
  then show ?case
    by (subst process.simps) (auto split: sum.split option.split intro!: keeps_intros)
next
  case (Suc n)
  then show ?case
    by (subst process.simps) (auto split: sum.split option.split intro!: keeps_intros frame_handle assms)
qed

end

section \<open>Identities\<close>

definition ident :: "server \<Rightarrow> nat \<Rightarrow> int \<times> pystr \<times> int \<times> int" where
  "ident s = (\<lambda>r. (p_id (s_player s r), p_name (s_player s r), p_priv (s_player s r), p_silence_end (s_player s r)))"

lemma ident_core: "ident (core s) = ident s"
  by (simp add: ident_def core_def fun_eq_iff)

lemma ident_other: "s_player s' = s_player s \<Longrightarrow> ident s' = ident s"
  by (simp add: ident_def)

abbreviation same_ident :: "(nat \<Rightarrow> int \<times> pystr \<times> int \<times> int) \<Rightarrow> 'a sop \<Rightarrow> bool" where
  "same_ident v m \<equiv> keeps (\<lambda>s. ident s = v) m"

lemma ident_upd_player:
  "(\<And>p. p_id (f p) = p_id p) \<Longrightarrow> (\<And>p. p_name (f p) = p_name p) \<Longrightarrow> (\<And>p. p_priv (f p) = p_priv p) \<Longrightarrow>
   (\<And>p. p_silence_end (f p) = p_silence_end p) \<Longrightarrow> same_ident v (upd_player r f)"
  unfolding upd_player_def by (rule keeps_modify) (auto simp: ident_def fun_eq_iff)

lemma ident_modify: "(\<And>s. s_player (f s) = s_player s) \<Longrightarrow> same_ident v (modify f)"
  by (rule keeps_modify) (simp add: ident_def)

lemma ident_games: "same_ident v (upd_match m h)" "same_ident v (new_game y)"
  unfolding upd_match_def new_game_def by (intro keeps_intros ident_modify; simp)+

interpretation identity: framed "\<lambda>s. ident s = v" for v
  by unfold_locales (simp_all add: ident_core ident_upd_player ident_games ident_modify reset_scrim_def)

text \<open>No request of a client, whatever its bytes, changes the id, the name, the privileges or the
  silence of any player, as long as the chat commands do not: these only change by moderation, by
  a login or by the expiry of a donation.\<close>

theorem requests_keep_privileges:
  assumes "\<And>r c msg s. ident (exec (x_commands x r c msg) s) = ident s"
  shows "ident (exec (bancho_request x token body) s) = ident s"
proof -
  have c: "same_ident v (x_commands x r c msg)" for v r c msg
    using assms [of r c msg] by (simp add: keeps_def exec_def)
  have "same_ident (ident s) (bancho_request x token body)"
    unfolding bancho_request_def by (intro keeps_intros frame_keeps identity.frame_process c; simp)
  then show ?thesis by (rule keeps_exec) simp
qed

theorem requests_keep_privileges_witness:
  "ident (exec (bancho_request \<lparr>x_bmap_md5 = \<lambda>_. None, x_bmap_bid = \<lambda>_. None, x_commands = \<lambda>_ _ _. retn None,
     x_now_playing = \<lambda>_. None, x_np_reply = \<lambda>_ _ _. [], x_user_by_name = \<lambda>_. None\<rparr> [97] [1, 2, 3])
     (demo_server [1] one_seated)) = ident (demo_server [1] one_seated)"
  by (rule requests_keep_privileges) (simp add: exec_def retn_def)

end
