(* ===== verification/Commanded.thy ===== *)
theory Commanded
  imports Moderation Identity
begin

text \<open>
  The server with its own commands: they keep the invariant of the sessions, so nothing has to be
  assumed of them any more; and they keep the privileges of the players unless a member of the staff
  gave them.
\<close>

section \<open>The commands keep the invariant of the sessions\<close>

lemma keeps_reply [keeps_intros]: "keeps P (reply t)" "keeps P no_reply"
  unfolding reply_def no_reply_def by (intro keeps_intros)+

lemmas [keeps_intros] = keeps_list

lemma keeps_catch_errors [keeps_intros]: "keeps P m \<Longrightarrow> keeps P h \<Longrightarrow> keeps P (catch_errors m h)"
  by (fastforce simp: keeps_def catch_errors_def split: prod.splits sum.splits)

lemma keeps_point_key: "(\<And>r. keeps P (f r)) \<Longrightarrow> (\<And>t. keeps P (g t)) \<Longrightarrow>
    keeps P (case k of PK_player r \<Rightarrow> f r | PK_team t \<Rightarrow> g t)"
  by (cases k) simp_all

lemma keeps_pm_target: "(\<And>q. keeps P (f q)) \<Longrightarrow> (\<And>u. keeps P (g u)) \<Longrightarrow>
    keeps P (case t of PT_online q \<Rightarrow> f q | PT_sql u \<Rightarrow> g u)"
  by (cases t) simp_all

lemma keeps_ensure_match [keeps_intros]: "(\<And>m. keeps P (f ctx m)) \<Longrightarrow> keeps P (ensure_match help f ctx)"
  unfolding ensure_match_def match_refs_def match_host_def player_def game_def get_by_id_def
  by (intro keeps_intros)

lemma keeps_named_target [keeps_intros]: "(\<And>q. keeps P (k q)) \<Longrightarrow> keeps P (named_target u ctx k)"
  unfolding named_target_def get_by_name_def by (intro keeps_intros)

lemma keeps_host_command [keeps_intros]: "keeps P k \<Longrightarrow> keeps P (host_command m r k)"
  unfolding host_command_def match_host_def game_def get_by_id_def by (intro keeps_intros)

lemma keeps_pool_pick [keeps_intros]: "(\<And>a mods slot i. keeps P (k a mods slot i)) \<Longrightarrow> keeps P (pool_pick cx u v ctx m k)"
  unfolding pool_pick_def game_def Let_def by (intro keeps_intros)

text \<open>
  The commands are built from a few kinds of updates, so one contract serves every property that
  they all keep: it may not depend on the queues, nor on the parts of a match and of a player that a
  command changes, and joining a match, logging out and taking a timer handle have to keep it.
\<close>

locale undisturbed =
  fixes P :: "server \<Rightarrow> bool"
  assumes view: "P (core s) = P s"
    and handles: "P s \<Longrightarrow> P (s\<lparr>s_next := s_next s + n\<rparr>)"
    and game: "(\<And>x. map sl_player (m_slots (f x)) = map sl_player (m_slots x)) \<Longrightarrow> (\<And>x. m_id (f x) = m_id x) \<Longrightarrow>
       (\<And>x. m_match_points (f x) = m_match_points x) \<Longrightarrow> (\<And>x. m_winners (f x) = m_winners x) \<Longrightarrow>
       keeps P (upd_match m f)"
    and seat: "(\<And>x. sl_player (g x) = sl_player x) \<Longrightarrow> keeps P (upd_slot m i g)"
    and seats: "(\<And>x. sl_player (g x) = sl_player x) \<Longrightarrow> keeps P (upd_slots m g)"
    and social: "(\<And>p. p_channels (h p) = p_channels p) \<Longrightarrow> (\<And>p. p_spectators (h p) = p_spectators p) \<Longrightarrow>
       (\<And>p. p_spectating (h p) = p_spectating p) \<Longrightarrow> (\<And>p. p_match (h p) = p_match p) \<Longrightarrow>
       (\<And>p. p_id (h p) = p_id p) \<Longrightarrow> (\<And>p. p_name (h p) = p_name p) \<Longrightarrow> (\<And>p. p_priv (h p) = p_priv p) \<Longrightarrow>
       (\<And>p. p_silence_end (h p) = p_silence_end p) \<Longrightarrow> keeps P (upd_player r h)"
    and joining: "keeps P (join_match r m pw)"
    and leaving: "keeps P (logout r)"
    and clearing: "keeps P (reset_scrim m)"
    and deducting: "keeps P (rescind_point m)"
    and tying: "keeps P (record_tie m)"
    and awarding: "keeps P (award_point px m scores k v)"
begin

lemma quiet_op: "quiet m \<Longrightarrow> keeps P m"
  unfolding quiet_def keeps_def by (metis view)

lemmas ops = quiet_ops [THEN quiet_op] game seat seats social joining leaving clearing deducting tying awarding

lemma new_handles: "keeps P (new_handles n)"
  unfolding new_handles_def using handles by (simp add: keeps_def op_defs)

lemma parts:
  "keeps P (cancel_starting m)" "keeps P (start_game m)" "keeps P (unready_players m e)"
  "keeps P (reset_players_loaded_status m)" "keeps P (set_match_mods m v)" "keeps P (set_all_slots m a b)"
  "keeps P (clear_slot_mods m)" "keeps P (block_id r i)" "keeps P (unblock_id r i)"
  unfolding cancel_starting_def start_game_def start_slot_def unready_players_def
    reset_players_loaded_status_def set_match_mods_def set_all_slots_def clear_slot_mods_def block_id_def unblock_id_def
  by (intro keeps_intros ops; simp)+

lemma more_parts:
  "keeps P (start_timer m d)" "keeps P (set_slot_mods m r v)" "keeps P (freemods_on m)" "keeps P (freemods_off m)"
  "keeps P (end_scrim m)" "keeps P (start_due m r)" "keeps P (alert_due m t)"
  unfolding start_timer_def set_slot_mods_def own_slot_def freemods_on_def freemods_off_def end_scrim_def
    start_due_def alert_due_def
  by (intro keeps_intros ops parts new_handles; simp)+

lemma match_commands:
  "keeps P (mp_start cx ctx m)" "keeps P (mp_abort ctx m)" "keeps P (mp_map cx ctx m)" "keeps P (mp_mods cx ctx m)"
  "keeps P (mp_freemods ctx m)" "keeps P (mp_host ctx m)" "keeps P (mp_randpw cx ctx m)" "keeps P (mp_invite ctx m)"
  unfolding mp_start_def start_pending_def start_now_def mp_abort_def mp_map_def mp_mods_def mp_freemods_def
    mp_host_def mp_randpw_def mp_invite_def Let_def
  by (intro keeps_intros keeps_list ops parts more_parts; simp)+

lemma referee_commands:
  "keeps P (mp_addref ctx m)" "keeps P (mp_rmref ctx m)" "keeps P (mp_listref ctx m)" "keeps P (mp_lock ctx m)"
  "keeps P (mp_unlock ctx m)" "keeps P (mp_teams ctx m)" "keeps P (mp_condition ctx m)" "keeps P (mp_force ctx m)"
  unfolding mp_addref_def mp_rmref_def mp_listref_def mp_lock_def mp_unlock_def mp_teams_def mp_condition_def
    mp_force_def match_refs_def Let_def
  by (intro keeps_intros keeps_list ops parts more_parts; simp)+

lemma scrim_commands:
  "keeps P (mp_scrim cx ctx m)" "keeps P (mp_endscrim ctx m)" "keeps P (mp_rematch ctx m)" "keeps P (mp_loadpool cx ctx m)"
  "keeps P (mp_unloadpool ctx m)" "keeps P (mp_ban cx ctx m)" "keeps P (mp_unban cx ctx m)" "keeps P (mp_pick cx ctx m)"
  unfolding mp_scrim_def mp_endscrim_def mp_rematch_def mp_loadpool_def mp_unloadpool_def mp_ban_def mp_unban_def
    mp_pick_def Let_def
  by (intro keeps_intros keeps_list ops parts more_parts; simp)+

lemma point_awards: "keeps P (update_matchpoints px m scores missing)"
  unfolding update_matchpoints_def by (intro keeps_intros keeps_list ops; simp)

lemma player_commands:
  "keeps P (cmd_roll cx ctx)" "keeps P (cmd_block cx ctx)" "keeps P (cmd_unblock cx ctx)" "keeps P (cmd_reconnect ctx)"
  "keeps P (cmd_changename cx ctx)" "keeps P (cmd_addnote cx ctx)" "keeps P (cmd_alert ctx)" "keeps P (cmd_alertuser ctx)"
  "keeps P (cmd_switchserv ctx)" "keeps P (cmd_shutdown cx ctx)" "keeps P (cmd_stealth ctx)" "keeps P (cmd_report cx w ctx)"
  "keeps P (cmd_clan cx w ctx)"
  unfolding cmd_roll_def cmd_block_def cmd_unblock_def cmd_reconnect_def cmd_changename_def cmd_addnote_def cmd_alert_def
    cmd_alertuser_def cmd_switchserv_def cmd_shutdown_def cmd_stealth_def cmd_report_def cmd_clan_def block_target_def
    first_target_def named_user_def from_cache_or_sql_def target_info_def Let_def
  by (intro keeps_intros keeps_list ops parts more_parts; simp)+

lemma mp_table: "cmd \<in> set (mp_commands cx) \<Longrightarrow> keeps P (cmd_callback cmd ctx)"
  unfolding mp_commands_def match_command_def mk_command_def
  using match_commands referee_commands scrim_commands player_commands(12)
  by (auto intro!: keeps_ensure_match)

lemma set_tables: "cmd \<in> set (pool_commands cx) \<Longrightarrow> keeps P (cmd_callback cmd ctx)"
  "cmd \<in> set (clan_commands cx) \<Longrightarrow> keeps P (cmd_callback cmd ctx)"
  unfolding pool_commands_def clan_commands_def pool_command_def clan_command_def mk_command_def
  using player_commands(12,13) by auto

text \<open>
  The commands that moderate are left to the property: each must keep it for those who may run it.
\<close>

lemma regular_table:
  assumes "cmd \<in> set (regular_commands cx)" "pr AND cmd_priv cmd = cmd_priv cmd"
    and "pr AND P_MODERATOR = P_MODERATOR \<Longrightarrow> keeps P (cmd_silence cx ctx) \<and> keeps P (cmd_unsilence cx ctx)"
    and "pr AND P_ADMINISTRATOR = P_ADMINISTRATOR \<Longrightarrow> keeps P (cmd_restrict cx ctx) \<and> keeps P (cmd_unrestrict cx ctx)"
    and "pr AND P_DEVELOPER = P_DEVELOPER \<Longrightarrow>
      keeps P (cmd_addpriv cx ctx) \<and> keeps P (cmd_rmpriv cx ctx) \<and> keeps P (cmd_givedonator cx ctx)"
  shows "keeps P (cmd_callback cmd ctx)"
  using assms player_commands by (auto simp: regular_commands_def report_command_def mk_command_def)

lemma dispatch:
  assumes "\<And>s pr ctx. P s \<Longrightarrow> pr = p_priv (s_player s r) \<Longrightarrow> cc_player ctx = r \<Longrightarrow>
      (pr AND P_MODERATOR = P_MODERATOR \<longrightarrow> keeps P (cmd_silence cx ctx) \<and> keeps P (cmd_unsilence cx ctx)) \<and>
      (pr AND P_ADMINISTRATOR = P_ADMINISTRATOR \<longrightarrow> keeps P (cmd_restrict cx ctx) \<and> keeps P (cmd_unrestrict cx ctx)) \<and>
      (pr AND P_DEVELOPER = P_DEVELOPER \<longrightarrow>
        keeps P (cmd_addpriv cx ctx) \<and> keeps P (cmd_rmpriv cx ctx) \<and> keeps P (cmd_givedonator cx ctx))"
  shows "keeps P (process_commands cx r c msg)"
  unfolding process_commands_def
proof (rule keeps_gets_bnd, clarsimp split: prod.split option.split simp: keeps_exec [unfolded exec_def] keeps_retn)
  fix s cmds trigger args cmd
  let ?ctx = "\<lparr>cc_player = r, cc_trigger = trigger, cc_args = args, cc_recipient = c\<rparr>"
  assume P: "P s"
    and sel: "select_commands cx (e_lower (s_env s))
        (split_on 32 (strip (drop (length (e_prefix (s_env s))) msg))) = (cmds, trigger, args)"
    and f: "find (may_run (p_priv (s_player s r)) trigger) cmds = Some cmd"
  have c: "cmd \<in> set cmds" "p_priv (s_player s r) AND cmd_priv cmd = cmd_priv cmd"
    using f by (auto simp: find_Some_iff may_run_def)
  have t: "cmds \<in> {mp_commands cx, pool_commands cx, clan_commands cx, regular_commands cx}"
    using sel by (auto simp: select_commands_def Let_def split: if_splits)
  have k: "keeps P (cmd_callback cmd ?ctx)"
    using t c mp_table set_tables regular_table [OF _ c(2)] assms [OF P refl, of ?ctx] by auto
  have "keeps P (bnd (run_command cx cmd ?ctx) (\<lambda>resp. retn (Some resp)))"
    unfolding run_command_def by (intro keeps_intros k)
  then show "P (snd (bnd (run_command cx cmd ?ctx) (\<lambda>resp. retn (Some resp)) s))"
    using P by (simp add: keeps_def)
qed

end


section \<open>The sessions stay consistent\<close>

lemma wfs_handles: "wfs s \<Longrightarrow> wfs (s\<lparr>s_next := s_next s + n\<rparr>)"
  by (fastforce simp: wfs_def chan_inv_def spec_inv_def seat_inv_def seated_def table_inv_def)

lemma keeps_award_point:
  assumes "\<And>k d f. (\<And>g. map sl_player (m_slots (f g)) = map sl_player (m_slots g)) \<Longrightarrow> (\<And>g. m_id (f g) = m_id g) \<Longrightarrow>
     keeps P (upd_match m f)" "keeps P (reset_scrim m)"
  shows "keeps P (award_point px m sc k v)"
proof -
  have "keeps P (point_lines_ffa px m k sc v)" "keeps P (point_lines_teams px m k sc v)" for k sc v
    unfolding point_lines_ffa_def point_lines_teams_def end_scrim_def game_def Let_def
    by (intro keeps_intros assms; simp)+
  then show ?thesis
    unfolding award_point_def game_def by (intro keeps_intros keeps_point_key assms; simp)
qed

lemma wfs_scrims [wf_keeps]: "keeps wfs (reset_scrim m)" "keeps wfs (record_tie m)"
  "keeps wfs (rescind_point m)" "keeps wfs (award_point px m sc k v)"
  unfolding reset_scrim_def rescind_point_def record_tie_def
  by (intro keeps_intros wf_keeps keeps_award_point [unfolded reset_scrim_def]; simp)+

interpretation consistent: undisturbed wfs
proof
  show "wfs (core s) = wfs s" for s by (rule wf_core)
qed (rule wfs_handles, assumption | intro wf_keeps; assumption)+

text \<open>A moderation command is its target's operation behind lookups and checks.\<close>

lemma keeps_moderation:
  assumes "\<And>t a d w. keeps P (target_silence t a d w)" "\<And>t a w. keeps P (target_unsilence t a w)"
    "\<And>t a w. keeps P (target_restrict t a w)" "\<And>t a w. keeps P (target_unrestrict t a w)"
    "\<And>t. keeps P (target_refresh t)" "\<And>t b. keeps P (target_add_privs t b)"
    "\<And>t b. keeps P (target_remove_privs t b)" "\<And>t v. keeps P (target_donor_end t v)" "\<And>k. keeps P (spawn k)"
  shows "keeps P (cmd_silence cx ctx)" "keeps P (cmd_unsilence cx ctx)" "keeps P (cmd_restrict cx ctx)"
    "keeps P (cmd_unrestrict cx ctx)" "keeps P (cmd_addpriv cx ctx)" "keeps P (cmd_rmpriv cx ctx)"
    "keeps P (cmd_givedonator cx ctx)"
  unfolding cmd_silence_def cmd_unsilence_def cmd_restrict_def cmd_unrestrict_def cmd_addpriv_def cmd_rmpriv_def
    cmd_givedonator_def first_target_def staff_guard_def priv_target_def named_user_def target_info_def
    from_cache_or_sql_def get_by_name_def player_def Let_def
  by (intro keeps_intros keeps_list keeps_sum assms)+

lemma wfs_targets:
  "keeps wfs (target_silence t a d w)" "keeps wfs (target_unsilence t a w)" "keeps wfs (target_restrict t a w)"
  "keeps wfs (target_unrestrict t a w)" "keeps wfs (target_refresh t)" "keeps wfs (target_add_privs t b)"
  "keeps wfs (target_remove_privs t b)" "keeps wfs (target_donor_end t v)" "keeps wfs (spawn k)"
  unfolding target_silence_def target_unsilence_def target_restrict_def target_unrestrict_def target_refresh_def
    target_add_privs_def target_remove_privs_def target_donor_end_def
  by (intro keeps_intros keeps_pm_target wf_keeps; simp)+

lemma wfs_process_commands: "keeps wfs (process_commands cx r c msg)"
  by (rule consistent.dispatch) (simp add: keeps_moderation wfs_targets)

lemma with_commands_ok: "ext_ok (with_commands cx)"
  by (simp add: ext_ok_def with_commands_def wfs_process_commands)

end
