(* ===== verification/Authority.thy ===== *)
theory Authority
  imports Commanded Lifecycle
begin

text \<open>
  The server as a whole, with its commands, timers and scrim points: its sessions stay consistent, and
  what a request can do to the standing of a player depends on the privileges of who sent it.
\<close>

section \<open>The live server\<close>

text \<open>
  Beside the steps of \<open>Reach\<close>, with the commands in place of a parameter: the callbacks of the
  timers a match start sets, at any time, and the end of a task that scores a scrim, with any scores.
  What the steps ask of other components may differ from step to step.
\<close>

inductive live :: "server \<Rightarrow> bool" where
  live_initial: "initial s \<Longrightarrow> live s"
| live_step: "live s \<Longrightarrow> step (with_commands cx) s s' \<Longrightarrow> live s'"
| live_start: "live s \<Longrightarrow> s' = exec (start_due m r) s \<Longrightarrow> live s'"
| live_alert: "live s \<Longrightarrow> s' = exec (alert_due m t) s \<Longrightarrow> live s'"
| live_points: "live s \<Longrightarrow> s' = exec (update_matchpoints px m scores missing) s \<Longrightarrow> live s'"

lemma wfs_live: "live s \<Longrightarrow> wfs s"
proof (induction rule: live.induct)
  case (live_step s cx s')
  then show ?case using wfs_step with_commands_ok by blast
qed (auto intro: wfs_initial keeps_exec consistent.more_parts consistent.point_awards)


definition demo_cx :: cmd_ext where
  "demo_cx = ext.extend no_ext (cmd_ext.fields id ascii_digit (\<lambda>_. None) (\<lambda>_. []) (\<lambda>_ _. 0) (\<lambda>_. 0) (\<lambda>_. None)
     (\<lambda>_ _ _. None) (\<lambda>_. True) [] (\<lambda>_. False) [] (\<lambda>_ _ _ _. Inl KeyError) (\<lambda>_ _ _ _ _. Inr None))"

definition demo_run :: server where
  "demo_run = exec (start_due 6 1) (exec (bancho_request (with_commands demo_cx) [97] [4, 0, 0, 0, 0, 0, 0]) empty_server)"

lemma live_demo: "live demo_run"
  unfolding demo_run_def
  by (rule live_start [OF _ refl], rule live_step [OF live_initial [OF empty_server_initial]], rule step_request, rule refl)


section \<open>What a request may do to a player\<close>

text \<open>
  \<open>in_bounds r s s'\<close>: the standing of every player in \<open>s'\<close> is what somebody with the
  privileges of \<open>r\<close> in \<open>s\<close>, who is not a developer, may have made of the standing in \<open>s\<close>.
\<close>

definition in_bounds :: "nat \<Rightarrow> server \<Rightarrow> server \<Rightarrow> bool" where
  "in_bounds r s s' \<longleftrightarrow> (\<forall>q. let p = s_player s q; p' = s_player s' q; mine = p_priv (s_player s r) in
     p_id p' = p_id p \<and> p_name p' = p_name p \<and>
     (has (p_priv p) P_STAFF \<longrightarrow> p_priv p' = p_priv p \<and> p_silence_end p' = p_silence_end p) \<and>
     (\<not> has mine P_ADMINISTRATOR \<longrightarrow> p_priv p' = p_priv p) \<and>
     (\<not> has mine P_MODERATOR \<longrightarrow> p_silence_end p' = p_silence_end p) \<and>
     p_priv p' AND privs_not P_UNRESTRICTED = p_priv p AND privs_not P_UNRESTRICTED)"

lemma in_bounds_refl: "in_bounds r s s"
  by (simp add: in_bounds_def Let_def)

text \<open>It is a property of the identities, so what keeps those keeps it.\<close>

lemma in_bounds_ident: "ident s1 = ident s2 \<Longrightarrow> in_bounds r s s1 = in_bounds r s s2"
proof -
  assume e: "ident s1 = ident s2"
  have "p_id (s_player s1 q) = p_id (s_player s2 q) \<and> p_name (s_player s1 q) = p_name (s_player s2 q) \<and>
      p_priv (s_player s1 q) = p_priv (s_player s2 q) \<and> p_silence_end (s_player s1 q) = p_silence_end (s_player s2 q)" for q
    using fun_cong [OF e, of q] by (simp add: ident_def)
  then show ?thesis by (simp add: in_bounds_def Let_def)
qed

lemma bounds_of_ident: "(\<And>v. same_ident v m) \<Longrightarrow> keeps (in_bounds r s) m"
  unfolding keeps_def using in_bounds_ident by blast

interpretation framed_bounds: framed "in_bounds r s" for r s
proof
  show "in_bounds r s (core t) = in_bounds r s t" for t by (rule in_bounds_ident) (rule ident_core)
qed (rule bounds_of_ident, (rule frame_keeps; assumption))+

lemma bounds_scrims: "keeps (in_bounds r s) (rescind_point m)" "keeps (in_bounds r s) (record_tie m)"
    "keeps (in_bounds r s) (award_point px m sc k v)"
  unfolding rescind_point_def record_tie_def
  by (rule bounds_of_ident, intro keeps_intros frame_keeps keeps_award_point ident_games)+

interpretation bounded: undisturbed "in_bounds r s"
proof
  show "in_bounds r s (core t) = in_bounds r s t" for t by (rule in_bounds_ident) (rule ident_core)
  show "in_bounds r s (t\<lparr>s_next := s_next t + n\<rparr>)" if "in_bounds r s t" for t n
    using that by (simp add: in_bounds_def)
qed (rule bounds_scrims | (intro frame_keeps; simp))+

text \<open>Restricting only takes away, or gives back, one privilege.\<close>

lemma staff_bits: "x AND privs_not P_UNRESTRICTED = y AND privs_not P_UNRESTRICTED \<Longrightarrow>
    has x P_STAFF = has y P_STAFF \<and> has x P_DEVELOPER = has y P_DEVELOPER"
proof -
  assume e: "x AND privs_not P_UNRESTRICTED = y AND privs_not P_UNRESTRICTED"
  have "z AND P_STAFF = (z AND privs_not P_UNRESTRICTED) AND P_STAFF"
    "z AND P_DEVELOPER = (z AND privs_not P_UNRESTRICTED) AND P_DEVELOPER" for z
    by (simp_all add: and.assoc privs_not_def P_UNRESTRICTED_def P_STAFF_def P_DEVELOPER_def P_MODERATOR_def
        P_ADMINISTRATOR_def)
  then show ?thesis unfolding has_def e by (metis e)
qed


section \<open>Moderation stays in bounds\<close>

lemma bounds_staff:
  assumes "in_bounds r s t"
  shows "has (p_priv (s_player t q)) P_STAFF = has (p_priv (s_player s q)) P_STAFF"
    and "has (p_priv (s_player t q)) P_DEVELOPER = has (p_priv (s_player s q)) P_DEVELOPER"
  using assms staff_bits [of "p_priv (s_player t q)" "p_priv (s_player s q)"] by (simp_all add: in_bounds_def Let_def)

definition out_of_reach :: "server \<Rightarrow> pm_target \<Rightarrow> bool" where
  "out_of_reach s t \<longleftrightarrow> (case t of PT_online q \<Rightarrow> has (p_priv (s_player s q)) P_STAFF | PT_sql u \<Rightarrow> False)"

text \<open>The target is looked up, then read, then judged, with nothing changing in between.\<close>

lemma bounds_first_target:
  assumes "\<And>t tp. triple (\<lambda>s'. in_bounds r s s' \<and> target_player s' t = tp) (k t tp) (\<lambda>_. in_bounds r s) (in_bounds r s)"
  shows "keeps (in_bounds r s) (first_target cx n k)"
  unfolding keeps_triple first_target_def named_user_def from_cache_or_sql_def get_by_name_def target_info_def
  apply (rule triple_bnd [where R = "\<lambda>_. in_bounds r s"])
   apply (rule triple_gets_bnd, rule triple_retn, simp)
  apply (case_tac x; simp only: option.case)
   apply (simp add: keeps_triple [symmetric] keeps_reply)
  apply (rule triple_gets_bnd, rule assms)
  done

lemma bounds_staff_guard:
  assumes "cc_player ctx = r" "\<not> has (p_priv (s_player s r)) P_DEVELOPER" "\<not> out_of_reach s t \<Longrightarrow> keeps (in_bounds r s) k"
  shows "triple (\<lambda>s'. in_bounds r s s' \<and> target_player s' t = tp) (staff_guard ctx tp k) (\<lambda>_. in_bounds r s) (in_bounds r s)"
  unfolding staff_guard_def player_def
proof (rule triple_gets_bnd, rule triple_if)
  fix priv
  show "triple (\<lambda>s'. (in_bounds r s s' \<and> target_player s' t = tp) \<and> p_priv (s_player s' (cc_player ctx)) = priv)
      (reply (py ''Only developers can manage staff members.'')) (\<lambda>_. in_bounds r s) (in_bounds r s)"
    by (rule triple_conseq [OF keeps_reply(1) [of "in_bounds r s", unfolded keeps_triple]]) auto
next
  fix priv assume c: "\<not> (has (p_priv tp) P_STAFF \<and> \<not> has priv P_DEVELOPER)"
  show "triple (\<lambda>s'. (in_bounds r s s' \<and> target_player s' t = tp) \<and> p_priv (s_player s' (cc_player ctx)) = priv)
      k (\<lambda>_. in_bounds r s) (in_bounds r s)"
  proof (cases "out_of_reach s t")
    case True
    then obtain q where q: "t = PT_online q" "has (p_priv (s_player s q)) P_STAFF"
      by (auto simp: out_of_reach_def split: pm_target.splits)
    have "\<not> (in_bounds r s s' \<and> target_player s' t = tp \<and> p_priv (s_player s' (cc_player ctx)) = priv)" for s'
      using c q assms(1,2) bounds_staff [of r s s'] by (auto simp: target_player_def)
    then show ?thesis by (fastforce simp: triple_def)
  next
    case False
    show ?thesis
      by (rule triple_conseq [OF assms(3) [OF False, unfolded keeps_triple]]) auto
  qed
qed

lemma bounds_set_silence:
  assumes "\<not> has (p_priv (s_player s q)) P_STAFF" "has (p_priv (s_player s r)) P_MODERATOR"
  shows "keeps (in_bounds r s) (upd_player q (\<lambda>p. p\<lparr>p_silence_end := v\<rparr>))"
  unfolding upd_player_def using assms by (intro keeps_modify) (auto simp: in_bounds_def Let_def)

lemma bounds_set_privs:
  assumes "\<not> has (p_priv (s_player s q)) P_STAFF" "has (p_priv (s_player s r)) P_ADMINISTRATOR"
    and "\<And>x. f x AND privs_not P_UNRESTRICTED = x AND privs_not P_UNRESTRICTED"
  shows "keeps (in_bounds r s) (set_privs q f)"
proof -
  have "keeps (in_bounds r s) (upd_player q (\<lambda>p. p\<lparr>p_priv := f (p_priv p)\<rparr>))"
    unfolding upd_player_def using assms by (intro keeps_modify) (auto simp: in_bounds_def Let_def)
  then show ?thesis unfolding set_privs_def by (rule keeps_thn) (intro keeps_intros bounded.ops)
qed

lemma unrestricted_bit:
  "(x AND privs_not P_UNRESTRICTED) AND privs_not P_UNRESTRICTED = x AND privs_not P_UNRESTRICTED"
  "(x OR P_UNRESTRICTED) AND privs_not P_UNRESTRICTED = x AND privs_not P_UNRESTRICTED"
  by (simp_all add: and.assoc bit.conj_disj_distrib2 privs_not_def P_UNRESTRICTED_def)


lemma bounds_target_silence:
  assumes "\<not> out_of_reach s t" "has (p_priv (s_player s r)) P_MODERATOR"
  shows "keeps (in_bounds r s) (target_silence t a d w)" "keeps (in_bounds r s) (target_unsilence t a w)"
proof -
  have "\<not> has (p_priv (s_player s q)) P_STAFF" if "t = PT_online q" for q
    using assms(1) that by (simp add: out_of_reach_def)
  then have u: "keeps (in_bounds r s) (upd_player q (\<lambda>p. p\<lparr>p_silence_end := v\<rparr>))" if "t = PT_online q" for q v
    using that assms(2) by (simp add: bounds_set_silence)
  show "keeps (in_bounds r s) (target_silence t a d w)"
    unfolding target_silence_def
  proof (cases t; simp only: pm_target.case)
    fix q assume "t = PT_online q"
    show "keeps (in_bounds r s) (silence q a d w)"
      unfolding silence_def by (intro keeps_intros u [OF \<open>t = PT_online q\<close>] quiet_ops [THEN bounded.quiet_op] frame_keeps)
  qed (intro keeps_intros bounded.ops)
  show "keeps (in_bounds r s) (target_unsilence t a w)"
    unfolding target_unsilence_def
  proof (cases t; simp only: pm_target.case)
    fix q assume "t = PT_online q"
    show "keeps (in_bounds r s) (unsilence q a w)"
      unfolding unsilence_def by (intro keeps_intros u [OF \<open>t = PT_online q\<close>] quiet_ops [THEN bounded.quiet_op])
  qed (intro keeps_intros bounded.ops)
qed

lemma bounds_target_restrict:
  assumes "\<not> out_of_reach s t" "has (p_priv (s_player s r)) P_ADMINISTRATOR"
  shows "keeps (in_bounds r s) (target_restrict t a w)" "keeps (in_bounds r s) (target_unrestrict t a w)"
proof -
  have "\<not> has (p_priv (s_player s q)) P_STAFF" if "t = PT_online q" for q
    using assms(1) that by (simp add: out_of_reach_def)
  then have u: "keeps (in_bounds r s) (set_privs q (\<lambda>x. x AND privs_not P_UNRESTRICTED))"
    "keeps (in_bounds r s) (set_privs q (\<lambda>x. x OR P_UNRESTRICTED))" if "t = PT_online q" for q
    using that assms(2) by (auto intro!: bounds_set_privs simp: unrestricted_bit)
  show "keeps (in_bounds r s) (target_restrict t a w)"
    unfolding target_restrict_def
  proof (cases t; simp only: pm_target.case)
    fix q assume "t = PT_online q"
    show "keeps (in_bounds r s) (restrict q a w)"
      unfolding restrict_def remove_privs_def
      by (intro keeps_intros u [OF \<open>t = PT_online q\<close>] quiet_ops [THEN bounded.quiet_op] bounded.leaving)
  qed (intro keeps_intros bounded.ops)
  show "keeps (in_bounds r s) (target_unrestrict t a w)"
    unfolding target_unrestrict_def
  proof (cases t; simp only: pm_target.case)
    fix q assume "t = PT_online q"
    show "keeps (in_bounds r s) (unrestrict q a w)"
      unfolding unrestrict_def add_privs_def
      by (intro keeps_intros u [OF \<open>t = PT_online q\<close>] quiet_ops [THEN bounded.quiet_op] bounded.leaving)
  qed (intro keeps_intros bounded.ops)
qed

lemma bounds_target_refresh: "keeps (in_bounds r s) (target_refresh t)"
  unfolding target_refresh_def by (intro keeps_pm_target keeps_intros bounded.ops)

section \<open>The moderation commands\<close>

lemma bounds_moderator:
  assumes "cc_player ctx = r" "\<not> has (p_priv (s_player s r)) P_DEVELOPER" "has (p_priv (s_player s r)) P_MODERATOR"
  shows "keeps (in_bounds r s) (cmd_silence cx ctx)" "keeps (in_bounds r s) (cmd_unsilence cx ctx)"
proof -
  note guard = bounds_staff_guard [OF assms(1,2)] and ops = bounds_target_silence [OF _ assms(3)]
  show "keeps (in_bounds r s) (cmd_silence cx ctx)"
    unfolding cmd_silence_def
    by (intro keeps_list keeps_reply bounds_first_target guard keeps_option keeps_if keeps_thn ops)
  show "keeps (in_bounds r s) (cmd_unsilence cx ctx)"
    unfolding cmd_unsilence_def
    apply (intro keeps_list keeps_reply bounds_first_target triple_gets_bnd triple_if)
     apply (rule triple_conseq [OF keeps_reply(1) [of "in_bounds r s", unfolded keeps_triple]]; simp)
    apply (rule triple_conseq [OF guard]; (intro keeps_thn keeps_reply ops)?; simp)
    done
qed

lemma bounds_administrator:
  assumes "cc_player ctx = r" "\<not> has (p_priv (s_player s r)) P_DEVELOPER" "has (p_priv (s_player s r)) P_ADMINISTRATOR"
  shows "keeps (in_bounds r s) (cmd_restrict cx ctx)" "keeps (in_bounds r s) (cmd_unrestrict cx ctx)"
  unfolding cmd_restrict_def cmd_unrestrict_def
  by (intro keeps_list keeps_reply bounds_first_target bounds_staff_guard [OF assms(1,2)] keeps_if keeps_thn
      bounds_target_restrict [OF _ assms(3)] bounds_target_refresh; assumption)+

lemma has_all: "x AND P_MODERATOR = P_MODERATOR \<Longrightarrow> has x P_MODERATOR"
  "x AND P_ADMINISTRATOR = P_ADMINISTRATOR \<Longrightarrow> has x P_ADMINISTRATOR"
  "x AND P_DEVELOPER = P_DEVELOPER \<Longrightarrow> has x P_DEVELOPER"
  by (simp_all add: has_def P_MODERATOR_def P_ADMINISTRATOR_def P_DEVELOPER_def)

text \<open>The privileges of the sender stay what they are: who is no developer cannot reach them.\<close>

lemma bounds_own_priv:
  assumes "in_bounds r s t"
  shows "p_priv (s_player t r) = p_priv (s_player s r)"
proof (cases "has (p_priv (s_player s r)) P_ADMINISTRATOR")
  case True
  have "p_priv (s_player s r) AND P_ADMINISTRATOR = (p_priv (s_player s r) AND P_STAFF) AND P_ADMINISTRATOR"
    by (simp add: and.assoc P_STAFF_def P_MODERATOR_def P_ADMINISTRATOR_def P_DEVELOPER_def)
  then have "has (p_priv (s_player s r)) P_STAFF" using True by (auto simp: has_def)
  then show ?thesis using assms by (simp add: in_bounds_def Let_def)
qed (use assms in \<open>simp add: in_bounds_def Let_def\<close>)

lemma bounds_process_commands:
  assumes "\<not> has (p_priv (s_player s r)) P_DEVELOPER"
  shows "keeps (in_bounds r s) (process_commands cx r c msg)"
proof (rule bounded.dispatch)
  fix t pr and ctx :: cmd_context
  assume t: "in_bounds r s t" "pr = p_priv (s_player t r)" "cc_player ctx = r"
  have pr: "pr = p_priv (s_player s r)" using bounds_own_priv [OF t(1)] t(2) by simp
  show "(pr AND P_MODERATOR = P_MODERATOR \<longrightarrow> keeps (in_bounds r s) (cmd_silence cx ctx) \<and> keeps (in_bounds r s) (cmd_unsilence cx ctx)) \<and>
      (pr AND P_ADMINISTRATOR = P_ADMINISTRATOR \<longrightarrow> keeps (in_bounds r s) (cmd_restrict cx ctx) \<and> keeps (in_bounds r s) (cmd_unrestrict cx ctx)) \<and>
      (pr AND P_DEVELOPER = P_DEVELOPER \<longrightarrow>
        keeps (in_bounds r s) (cmd_addpriv cx ctx) \<and> keeps (in_bounds r s) (cmd_rmpriv cx ctx) \<and> keeps (in_bounds r s) (cmd_givedonator cx ctx))"
    using assms pr has_all [of pr] bounds_moderator [OF t(3) assms] bounds_administrator [OF t(3) assms] by blast
qed

section \<open>Requests\<close>




end
