(* ===== verification/Tally.thy ===== *)
theory Tally
  imports Authority
begin

text \<open>
  The points of a scrim: over the whole life of the server they are the points that were awarded and not
  taken back. And what happens when a point comes too late.
\<close>

section \<open>Points and winners\<close>

text \<open>The points of everyone are the number of times it stands in the list of winners.\<close>

definition tally :: "game_match \<Rightarrow> bool" where
  "tally g \<longleftrightarrow> (\<forall>k. points_of k (m_match_points g) = int (count_list (m_winners g) (Some k)))"

lemma points_of_add: "points_of j (points_add k d ps) = points_of j ps + (if j = k then d else 0)"
  by (induction ps) auto

lemma count_list_snoc: "count_list (xs @ [x]) y = count_list xs y + (if x = y then 1 else 0)"
  by (induction xs) auto

lemma tally_none: "m_match_points g = [] \<Longrightarrow> m_winners g = [] \<Longrightarrow> tally g"
  by (simp add: tally_def)

lemma tally_same: "m_match_points g' = m_match_points g \<Longrightarrow> m_winners g' = m_winners g \<Longrightarrow> tally g' = tally g"
  by (simp add: tally_def)

lemma tally_award: "tally g \<Longrightarrow> m_winners g' = m_winners g @ [Some k] \<Longrightarrow>
    m_match_points g' = points_add k 1 (m_match_points g) \<Longrightarrow> tally g'"
  by (auto simp: tally_def points_of_add count_list_snoc)

lemma tally_tie: "tally g \<Longrightarrow> m_winners g' = m_winners g @ [None] \<Longrightarrow> m_match_points g' = m_match_points g \<Longrightarrow> tally g'"
  by (simp add: tally_def count_list_snoc)

lemma tally_nothing: "tally g \<Longrightarrow> m_winners g' = m_winners g \<Longrightarrow> m_match_points g' = points_add k 0 (m_match_points g) \<Longrightarrow> tally g'"
  by (simp add: tally_def points_of_add)

lemma tally_deduct:
  assumes "tally g" "m_winners g \<noteq> []" "last (m_winners g) = Some k" "m_winners g' = butlast (m_winners g)"
    "m_match_points g' = points_add k (- 1) (m_match_points g)"
  shows "tally g'"
proof -
  have "m_winners g = butlast (m_winners g) @ [Some k]" using assms(2,3) append_butlast_last_id by metis
  then have "count_list (m_winners g) j = count_list (butlast (m_winners g)) j + (if Some k = j then 1 else 0)" for j
    using count_list_snoc by metis
  then show ?thesis using assms by (auto simp: tally_def points_of_add)
qed

section \<open>The whole server keeps the tally\<close>

definition tallied :: "server \<Rightarrow> bool" where
  "tallied s \<longleftrightarrow> (\<forall>m. tally (s_match s m))"

lemma tallied_upd_match: "(\<And>g. tally g \<Longrightarrow> tally (f g)) \<Longrightarrow> keeps tallied (upd_match m f)"
  unfolding upd_match_def by (rule keeps_modify) (simp add: tallied_def)

lemma tallied_modify: "(\<And>s. s_match (f s) = s_match s) \<Longrightarrow> keeps tallied (modify f)"
  by (rule keeps_modify) (simp add: tallied_def)

lemma tallied_players [frame_keeps]: "keeps tallied (upd_player r f)" "keeps tallied (put_player r p)"
  unfolding upd_player_def put_player_def by (intro tallied_modify; simp)+

interpretation framed_tally: framed tallied
proof
  show "tallied (core s) = tallied s" for s by (simp add: tallied_def)
  show "keeps tallied (upd_match m h)"
    if "\<And>x. m_match_points (h x) = m_match_points x" "\<And>x. m_winners (h x) = m_winners x" for m h
    by (rule tallied_upd_match, erule tally_same [OF that, THEN iffD2])
  show "keeps tallied (reset_scrim m)" for m
    unfolding reset_scrim_def by (rule tallied_upd_match) (simp add: tally_none)
  show "keeps tallied (new_game y)" if "m_match_points y = []" "m_winners y = []" for y
    using tally_none [OF that] by (simp add: keeps_def new_game_def tallied_def op_defs)
  show "keeps tallied (modify g)" if "\<And>s. s_match (g s) = s_match s" for g
    using that by (rule tallied_modify)
qed (rule tallied_players)

lemma tallied_rescind: "keeps tallied (rescind_point m)"
  unfolding rescind_point_def
proof (rule keeps_gets_bnd)
  fix s assume s: "tallied s"
  let ?g = "s_match s m"
  have "tally (?g\<lparr>m_match_points := points_add w (- 1) (m_match_points ?g), m_winners := butlast (m_winners ?g)\<rparr>)"
    if "m_winners ?g \<noteq> []" "last (m_winners ?g) = Some w" for w
    by (rule tally_deduct [OF _ that]) (use s in \<open>simp_all add: tallied_def\<close>)
  then have t: "tallied (snd (thn (upd_match m (\<lambda>g. g\<lparr>m_match_points := points_add w (- 1) (m_match_points g),
                  m_winners := butlast (m_winners g)\<rparr>)) (bnd (gets h) k) s))"
    if "m_winners ?g \<noteq> []" "last (m_winners ?g) = Some w" "\<And>x t. snd (k x t) = t" for w h and k :: "'a \<Rightarrow> pystr option sop"
    using s that by (simp add: upd_match_def tallied_def)
  show "tallied (snd ((if m_winners ?g = [] then reply (py ''No match points have yet been awarded!'')
     else (case last (m_winners ?g) of
         None \<Rightarrow> reply (py ''The last point was a tie!'')
       | Some k \<Rightarrow>
           thn (upd_match m (\<lambda>g. g\<lparr>m_match_points := points_add k (- 1) (m_match_points g),
                  m_winners := butlast (m_winners g)\<rparr>))
           (bnd (gets (\<lambda>s. winner_text s k)) (\<lambda>t.
             reply (py ''A point has been deducted from '' @ t @ py ''.''))))) s))"
  proof (cases "m_winners ?g = [] \<or> last (m_winners ?g) = None")
    case True
    then show ?thesis using s by (auto simp: reply_def retn_def)
  next
    case False
    then obtain w where w: "m_winners ?g \<noteq> []" "last (m_winners ?g) = Some w" by auto
    show ?thesis unfolding w(2) using w(1) by (simp only: if_False option.case) (rule t [OF w], simp add: reply_def retn_def)
  qed
qed


lemma tallied_points:
  "keeps tallied (point_lines_ffa px m k sc v)" "keeps tallied (point_lines_teams px m k sc v)"
proof -
  have none: "keeps tallied (upd_match m (\<lambda>g. g\<lparr>m_match_points := points_add k 0 (m_match_points g)\<rparr>))" for k
    by (rule tallied_upd_match) (erule tally_nothing; simp)
  have ended: "keeps tallied (end_scrim m)"
    unfolding end_scrim_def by (intro keeps_intros frame_keeps; simp)
  show "keeps tallied (point_lines_ffa px m k sc v)" "keeps tallied (point_lines_teams px m k sc v)"
    unfolding point_lines_ffa_def point_lines_teams_def Let_def
    by (intro keeps_intros none ended framed_tally.frame_quiet)+
qed

lemma tallied_scrims: "keeps tallied (record_tie m)" "keeps tallied (award_point px m sc k v)"
proof -
  show "keeps tallied (record_tie m)"
    unfolding record_tie_def by (rule tallied_upd_match) (erule tally_tie; simp)
  have "keeps tallied (upd_match m (\<lambda>g. g\<lparr>m_winners := m_winners g @ [Some k], m_match_points := points_add k 1 (m_match_points g)\<rparr>))"
    by (rule tallied_upd_match) (erule tally_award; simp)
  then show "keeps tallied (award_point px m sc k v)"
    unfolding award_point_def
    by (rule keeps_thn) (intro keeps_intros keeps_point_key tallied_points framed_tally.frame_quiet)
qed

interpretation scored: undisturbed tallied
proof
  show "tallied (core s) = tallied s" for s by (simp add: tallied_def)
  show "tallied (s\<lparr>s_next := s_next s + n\<rparr>)" if "tallied s" for s n using that by (simp add: tallied_def)
qed (rule tallied_rescind tallied_scrims | (intro frame_keeps; simp))+

lemma tallied_login: "keeps tallied (handle_login x body r)"
proof -
  have f: "keeps tallied (login_failed t ps)" for t ps
    unfolding login_failed_def by (intro keeps_intros)
  have "keeps tallied (login_player x p r)" for p
    unfolding login_player_def login_channels_def stats_from_sql_def relationships_from_sql_def login_unrestricted_def
      login_restricted_def add_privs_def set_privs_def players_append_def
    by (intro keeps_intros frame_keeps; simp)
  moreover have "keeps tallied (login_existing n st now)" for n st now
    unfolding login_existing_def by (intro keeps_intros f frame_keeps)
  ultimately have "keeps tallied (login_checked x d v w r)" for d v w
    unfolding login_checked_def login_verified_def Let_def by (intro keeps_intros f frame_keeps)
  then show ?thesis
    unfolding handle_login_def by (intro keeps_intros keeps_sum f)
qed

lemma tallied_moderation:
  "keeps tallied (restrict r a w)" "keeps tallied (unrestrict r a w)" "keeps tallied (silence r a d w)"
  "keeps tallied (unsilence r a w)" "keeps tallied (expire_donors by_id is)"
  unfolding restrict_def unrestrict_def silence_def unsilence_def remove_privs_def add_privs_def set_privs_def
    expire_donors_def expire_donor_def
  by (intro keeps_intros frame_keeps; simp)+

lemma tallied_ghosts: "keeps tallied disconnect_ghosts"
proof -
  have "keeps tallied (ghosts_from n now i)" for n now i
  proof (induction n arbitrary: i)
    case (Suc n)
    then show ?case unfolding ghosts_from.simps by (intro keeps_intros frame_keeps)
  qed (unfold ghosts_from.simps, rule keeps_skip)
  then show ?thesis unfolding disconnect_ghosts_def by (intro keeps_intros)
qed


section \<open>Over the life of the server\<close>

lemma tallied_set: "keeps tallied (modify f) \<Longrightarrow> tallied s \<Longrightarrow> tallied (f s)"
  by (simp add: keeps_def modify_def)

lemma tallied_targets:
  "keeps tallied (target_silence t a d w)" "keeps tallied (target_unsilence t a w)" "keeps tallied (target_restrict t a w)"
  "keeps tallied (target_unrestrict t a w)" "keeps tallied (target_refresh t)" "keeps tallied (target_add_privs t b)"
  "keeps tallied (target_remove_privs t b)" "keeps tallied (target_donor_end t v)" "keeps tallied (spawn k)"
  unfolding target_silence_def target_unsilence_def target_restrict_def target_unrestrict_def target_refresh_def
    target_add_privs_def target_remove_privs_def target_donor_end_def add_privs_def remove_privs_def set_privs_def
  by (intro keeps_intros keeps_pm_target tallied_moderation frame_keeps; simp)+

lemma tallied_request: "keeps tallied (bancho_request (with_commands cx) token body)"
proof -
  have "keeps tallied (process_commands cx r c msg)" for r c msg
    by (rule scored.dispatch) (simp add: keeps_moderation tallied_targets)
  then show ?thesis
    unfolding bancho_request_def by (intro keeps_intros framed_tally.frame_process frame_keeps) (simp_all add: with_commands_def)
qed

lemma tallied_live: "live s \<Longrightarrow> tallied s"
proof (induction rule: live.induct)
  case (live_initial s)
  then show ?case by (simp add: tallied_def initial_def tally_none)
next
  case (live_step s cx s')
  from live_step.hyps(2) show ?case
  proof cases
    case (step_match_id m i)
    have "keeps tallied (upd_match m (\<lambda>g. g\<lparr>m_db_id := Some i\<rparr>))" by (intro frame_keeps) simp_all
    then show ?thesis using step_match_id live_step.IH by (simp add: keeps_exec)
  next
    case (step_time t)
    then show ?thesis using live_step.IH by (simp add: tallied_def)
  next
    case (step_bot_status c)
    then show ?thesis using live_step.IH by (simp add: tallied_def)
  qed (use live_step.IH in \<open>auto intro!: keeps_exec [OF tallied_request] keeps_exec [OF tallied_login]
      keeps_exec [OF tallied_players(1)] keeps_exec [OF tallied_ghosts] tallied_moderation [THEN keeps_exec]\<close>)
qed (auto intro: keeps_exec scored.more_parts scored.point_awards)

text \<open>A won point is entered in the list of winners.\<close>

lemma point_recorded:
  assumes "free_for_all (m_team_type (s_match s m))" "m_winning_pts (s_match s m) = 0"
  shows "m_winners (s_match (exec (update_matchpoints px m [(PK_player r, v)] []) s) m) =
    m_winners (s_match s m) @ [Some (PK_player r)]"
proof -
  let ?s = "s\<lparr>s_match := (s_match s)(m := (s_match s m)\<lparr>m_winners := m_winners (s_match s m) @ [Some (PK_player r)],
       m_match_points := points_add (PK_player r) 1 (m_match_points (s_match s m))\<rparr>)\<rparr>"
  obtain lines where l: "exec (update_matchpoints px m [(PK_player r, v)] []) s =
      snd (foreach lines (\<lambda>l. ch_send_bot (m_chat (s_match s m)) l) ?s)"
    using assms
    by (simp add: exec_def update_matchpoints_def award_point_def point_lines_ffa_def upd_match_def game_def is_tie_def
        wins_match_def Let_def thn_def bnd_def gets_def modify_def retn_def skip_def del: foreach.simps(2))
  have "quiet (foreach lines (\<lambda>l. ch_send_bot (m_chat (s_match s m)) l))" by (intro quiets)
  then have "core (exec (update_matchpoints px m [(PK_player r, v)] []) s) = core ?s"
    unfolding l quiet_def by blast
  then have "s_match (exec (update_matchpoints px m [(PK_player r, v)] []) s) = s_match ?s"
    using core_sel(10) by metis
  then show ?thesis by simp
qed
definition demo_px :: scrim_ext where
  "demo_px = \<lparr>px_slot = \<lambda>_ _. new_slot, px_recent = \<lambda>_ _. None, px_now = \<lambda>_. 0, px_show = \<lambda>_ _ _ _. [], px_names = \<lambda>_. None\<rparr>"

text \<open>C7. In every state the live server reaches, the points of a player or team in a scrim are the
  number of points in its list of winners: the awarded points that were not taken back, none twice and none
  lost, whatever commands, departures and late tasks come in between.\<close>

theorem scrim_points_are_wins:
  assumes "live s"
  shows "points_of k (m_match_points (s_match s m)) = int (count_list (m_winners (s_match s m)) (Some k))"
  using tallied_live [OF assms] by (simp add: tallied_def tally_def)

theorem scrim_points_are_wins_witness:
  "points_of (PK_player 1) (m_match_points (s_match
     (exec (update_matchpoints demo_px 6 [(PK_player 1, 5)] []) empty_server) 6)) = 1"
proof -
  let ?s = "exec (update_matchpoints demo_px 6 [(PK_player 1, 5)] []) empty_server"
  have "live ?s" by (rule live_points [OF live_initial [OF empty_server_initial] refl])
  moreover have "m_winners (s_match ?s 6) = [Some (PK_player 1)]"
    by (subst point_recorded) (simp_all add: empty_server_def demo_eval free_for_all_def)
  ultimately show ?thesis using scrim_points_are_wins [of ?s "PK_player 1" 6] by simp
qed

section \<open>What the commands do not do\<close>

text \<open>
  A point that is awarded when the winner already has the points to win, as one from a task of an
  earlier scrim can be, does not end the scrim: the code compares for equality.
\<close>

lemma late_point_never_wins:
  assumes "m_winning_pts (s_match s m) \<le> points_of k (m_match_points (s_match s m))"
  shows "m_scrimming (s_match (exec (award_point px m sc k v) s) m) = m_scrimming (s_match s m)"
proof -
  have n: "m_winning_pts (s_match s m) \<noteq> points_of k (m_match_points (s_match s m)) + 1" using assms by simp
  show ?thesis
    using n by (auto simp: exec_def award_point_def point_lines_ffa_def point_lines_teams_def upd_match_def game_def
        wins_match_def points_of_add Let_def thn_def bnd_def gets_def modify_def retn_def raise_def lift_result_def
        split: point_key.split sum.split prod.split)
qed

text \<open>\<^verbatim>\<open>!mp scrim 0\<close>, which is to cancel a scrim, never does: the points to win are never 0.\<close>

lemma scrim_never_cancelled: "keeps (\<lambda>s. m_scrimming (s_match s m)) (mp_scrim cx ctx m)"
proof -
  have z: "b div 2 + 1 \<noteq> 0" if "0 \<le> b" for b :: int using that by simp
  show ?thesis
    unfolding mp_scrim_def usage_scrim_def Let_def game_def player_def upd_match_def
    by (auto intro!: keeps_intros keeps_list keeps_modify keeps_gets_bnd simp: reply_def retn_def z split: option.split list.split)
      (simp_all add: keeps_def)
qed

text \<open>\<^verbatim>\<open>!mp start force\<close> while a timer runs starts the match and leaves the timer, which starts it again.\<close>

lemma forced_start_keeps_timer: "keeps (\<lambda>s. m_starting (s_match s m) = t) (start_now m)"
proof -
  have q: "quiet k \<Longrightarrow> keeps (\<lambda>s. m_starting (s_match s m) = t) k" for k :: "'a sop"
    by (rule quiet_view [where W = "\<lambda>s. m_starting (s_match s m) = t"]) simp_all
  have u: "keeps (\<lambda>s. m_starting (s_match s m) = t) (upd_match m f)" if "\<And>g. m_starting (f g) = m_starting g" for f
    unfolding upd_match_def by (rule keeps_modify) (simp add: that)
  show ?thesis
    unfolding start_now_def start_game_def upd_slots_def by (intro keeps_intros u quiet_ops [THEN q]; simp)
qed

end
