(* ===== verification/Scores.thy ===== *)
theory Scores
  imports Login
begin

text \<open>
  The score object of \<^verbatim>\<open>app/objects/score.py\<close>: its fields, the parser of a submission,
  the text whose MD5 is the online checksum, the accuracy, and the tables of the database a
  submission reads and writes with the queries of \<^verbatim>\<open>app/repositories\<close> on them. A table is
  the list of its rows in insertion order; where a query leaves the order open, rows come in
  that order. Doubles are as in \<open>Floats\<close>: counts so large that a double overflows are outside
  the model.
\<close>

section \<open>Grades, statuses, beatmaps\<close>

datatype grade = G_N | G_F | G_D | G_C | G_B | G_A | G_S | G_SH | G_X | G_XH

fun grade_value :: "grade \<Rightarrow> int" where
  "grade_value G_N = 0" | "grade_value G_F = 1" | "grade_value G_D = 2" | "grade_value G_C = 3"
| "grade_value G_B = 4" | "grade_value G_A = 5" | "grade_value G_S = 6" | "grade_value G_SH = 7"
| "grade_value G_X = 8" | "grade_value G_XH = 9"

lemma grade_value_inject: "grade_value g = grade_value h \<Longrightarrow> g = h"
  by (cases g; cases h) simp_all

instantiation grade :: linorder
begin

definition less_eq_grade :: "grade \<Rightarrow> grade \<Rightarrow> bool" where
  "less_eq_grade g h \<longleftrightarrow> grade_value g \<le> grade_value h"

definition less_grade :: "grade \<Rightarrow> grade \<Rightarrow> bool" where
  "less_grade g h \<longleftrightarrow> grade_value g < grade_value h"

instance
  by standard (auto simp: less_eq_grade_def less_grade_def grade_value_inject)

end

fun grade_name :: "grade \<Rightarrow> pystr" where
  "grade_name G_N = py ''N''" | "grade_name G_F = py ''F''" | "grade_name G_D = py ''D''"
| "grade_name G_C = py ''C''" | "grade_name G_B = py ''B''" | "grade_name G_A = py ''A''"
| "grade_name G_S = py ''S''" | "grade_name G_SH = py ''SH''" | "grade_name G_X = py ''X''"
| "grade_name G_XH = py ''XH''"

text \<open>
  \<^verbatim>\<open>s.lower()\<close> on the letters that matter: no other character has a lower case among
  the keys of the table.
\<close>

definition ascii_lower :: "pystr \<Rightarrow> pystr" where
  "ascii_lower = map (\<lambda>c. if 65 \<le> c \<and> c \<le> 90 then c + 32 else c)"

definition grade_of_str :: "pystr \<Rightarrow> grade result" where
  "grade_of_str s =
     (case map_of [(py ''xh'', G_XH), (py ''x'', G_X), (py ''sh'', G_SH), (py ''s'', G_S),
                   (py ''a'', G_A), (py ''b'', G_B), (py ''c'', G_C), (py ''d'', G_D),
                   (py ''f'', G_F), (py ''n'', G_N)] (ascii_lower s) of
        None \<Rightarrow> Inl KeyError | Some g \<Rightarrow> Inr g)"

datatype submission_status = SS_FAILED | SS_SUBMITTED | SS_BEST

fun status_value :: "submission_status \<Rightarrow> int" where
  "status_value SS_FAILED = 0" | "status_value SS_SUBMITTED = 1" | "status_value SS_BEST = 2"

definition status_of :: "int \<Rightarrow> submission_status result" where
  "status_of n = (if n = 0 then Inr SS_FAILED else if n = 1 then Inr SS_SUBMITTED
                  else if n = 2 then Inr SS_BEST else Inl ValueError)"

definition RS_PENDING :: int where "RS_PENDING = 0"
definition RS_RANKED :: int where "RS_RANKED = 2"
definition RS_APPROVED :: int where "RS_APPROVED = 3"
definition RS_LOVED :: int where "RS_LOVED = 5"

record bmap =
  bm_md5 :: pystr
  bm_id :: int
  bm_status :: int
  bm_plays :: int
  bm_passes :: int
  bm_embed :: pystr

definition has_leaderboard :: "bmap \<Rightarrow> bool" where
  "has_leaderboard b \<longleftrightarrow> bm_status b \<in> {RS_RANKED, RS_APPROVED, RS_LOVED}"

definition awards_ranked_pp :: "bmap \<Rightarrow> bool" where
  "awards_ranked_pp b \<longleftrightarrow> bm_status b \<in> {RS_RANKED, RS_APPROVED}"

section \<open>The score object\<close>

type_synonym datetime = "(int \<times> int \<times> int) \<times> (int \<times> int \<times> int)"

text \<open>
  A \<^verbatim>\<open>Score\<close>. The beatmap and the player are the keys of the objects the score refers to;
  the fields that are set after construction (\<^verbatim>\<open>pp\<close>, \<^verbatim>\<open>sr\<close>, \<^verbatim>\<open>acc\<close>, \<^verbatim>\<open>status\<close>, the times)
  start with a value no code reads. \<^verbatim>\<open>prev_best\<close> is a score of its own, which has none.
\<close>

record base_score =
  sc_id :: "int option"
  sc_map :: pystr
  sc_player :: int
  sc_mode :: int
  sc_mods :: int
  sc_pp :: rat
  sc_sr :: rat
  sc_pp_aim :: "rat option"
  sc_pp_speed :: "rat option"
  sc_pp_flashlight :: "rat option"
  sc_score :: int
  sc_max_combo :: int
  sc_acc :: rat
  sc_n300 :: int
  sc_n100 :: int
  sc_n50 :: int
  sc_nmiss :: int
  sc_ngeki :: int
  sc_nkatu :: int
  sc_grade :: grade
  sc_passed :: bool
  sc_perfect :: bool
  sc_status :: submission_status
  sc_client_time :: datetime
  sc_server_time :: datetime
  sc_time_elapsed :: int
  sc_client_flags :: int
  sc_checksum :: pystr
  sc_rank :: "int option"

record score = base_score +
  sc_prev_best :: "base_score option"

section \<open>Parsing a submission\<close>

text \<open>
  \<^verbatim>\<open>strptime(s, "%y%m%d%H%M%S")\<close>: each directive is a list of alternatives, tried in
  order with backtracking, as in the regular expression the standard library builds.
\<close>

definition is_dec :: "(nat \<Rightarrow> nat option) \<Rightarrow> nat \<Rightarrow> bool" where
  "is_dec dv c \<longleftrightarrow> dv c \<noteq> None"

definition ch_in :: "nat \<Rightarrow> nat \<Rightarrow> nat \<Rightarrow> bool" where
  "ch_in lo hi c \<longleftrightarrow> lo \<le> c \<and> c \<le> hi"

definition time_directives :: "(nat \<Rightarrow> nat option) \<Rightarrow> (nat \<Rightarrow> bool) list list list" where
  "time_directives dv =
     [ [[is_dec dv, is_dec dv]],
       [[ch_in 49 49, ch_in 48 50], [ch_in 48 48, ch_in 49 57], [ch_in 49 57]],
       [[ch_in 51 51, ch_in 48 49], [ch_in 49 50, is_dec dv], [ch_in 48 48, ch_in 49 57], [ch_in 49 57],
        [ch_in 32 32, ch_in 49 57]],
       [[ch_in 50 50, ch_in 48 51], [ch_in 48 49, is_dec dv], [is_dec dv]],
       [[ch_in 48 53, is_dec dv], [is_dec dv]],
       [[ch_in 54 54, ch_in 48 49], [ch_in 48 53, is_dec dv], [is_dec dv]] ]"

fun first_some :: "('a \<Rightarrow> 'b option) \<Rightarrow> 'a list \<Rightarrow> 'b option" where
  "first_some f [] = None"
| "first_some f (x # xs) = (case f x of None \<Rightarrow> first_some f xs | Some y \<Rightarrow> Some y)"

fun match_directives :: "(nat \<Rightarrow> bool) list list list \<Rightarrow> pystr \<Rightarrow> (pystr list \<times> pystr) option" where
  "match_directives [] s = Some ([], s)"
| "match_directives (alts # ds) s =
     first_some (\<lambda>a. if length a \<le> length s \<and> list_all2 (\<lambda>p c. p c) a (take (length a) s)
                     then map_option (\<lambda>(fs, rest). (take (length a) s # fs, rest))
                            (match_directives ds (drop (length a) s))
                     else None) alts"

definition parse_client_time :: "(nat \<Rightarrow> nat option) \<Rightarrow> pystr \<Rightarrow> datetime result" where
  "parse_client_time dv s =
     (case map_option (\<lambda>(fs, rest). (map (dec_value dv \<circ> strip) fs, rest))
             (match_directives (time_directives dv) s) of
        Some ([y, m, d, hh, mm, ss], []) \<Rightarrow>
          bindE (date_of (if y \<le> 68 then 2000 + y else 1900 + y) m d) (\<lambda>date.
            if ss \<le> 59 then Inr (date, (hh, mm, ss)) else Inl ValueError)
      | _ \<Rightarrow> Inl ValueError)"

definition at_pos :: "pystr list \<Rightarrow> nat \<Rightarrow> (pystr \<Rightarrow> 'a result) \<Rightarrow> 'a result" where
  "at_pos data i f = (if i < length data then f (data ! i) else Inl IndexError)"

definition is_true :: "pystr \<Rightarrow> bool" where
  "is_true s \<longleftrightarrow> s = py ''True''"

definition from_submission :: "(nat \<Rightarrow> nat option) \<Rightarrow> datetime \<Rightarrow> pystr list \<Rightarrow> score result" where
  "from_submission dv now data =
     bindE (at_pos data 0 Inr) (\<lambda>checksum.
     bindE (at_pos data 1 (py_int dv)) (\<lambda>n300.
     bindE (at_pos data 2 (py_int dv)) (\<lambda>n100.
     bindE (at_pos data 3 (py_int dv)) (\<lambda>n50.
     bindE (at_pos data 4 (py_int dv)) (\<lambda>ngeki.
     bindE (at_pos data 5 (py_int dv)) (\<lambda>nkatu.
     bindE (at_pos data 6 (py_int dv)) (\<lambda>nmiss.
     bindE (at_pos data 7 (py_int dv)) (\<lambda>total.
     bindE (at_pos data 8 (py_int dv)) (\<lambda>max_combo.
     bindE (at_pos data 9 Inr) (\<lambda>perfect.
     bindE (at_pos data 10 grade_of_str) (\<lambda>g.
     bindE (at_pos data 11 (py_int dv)) (\<lambda>mods.
     bindE (at_pos data 12 Inr) (\<lambda>passed.
     bindE (bindE (at_pos data 13 (py_int dv)) (\<lambda>m. from_params m mods)) (\<lambda>mode.
     bindE (at_pos data 14 (parse_client_time dv)) (\<lambda>time.
     bindE (at_pos data 15 Inr) (\<lambda>version.
       Inr \<lparr>sc_id = None, sc_map = [], sc_player = 0, sc_mode = mode, sc_mods = mods, sc_pp = 0, sc_sr = 0,
            sc_pp_aim = None, sc_pp_speed = None, sc_pp_flashlight = None, sc_score = total,
            sc_max_combo = max_combo, sc_acc = 0, sc_n300 = n300, sc_n100 = n100, sc_n50 = n50,
            sc_nmiss = nmiss, sc_ngeki = ngeki, sc_nkatu = nkatu, sc_grade = g,
            sc_passed = is_true passed, sc_perfect = is_true perfect, sc_status = SS_FAILED,
            sc_client_time = time, sc_server_time = now, sc_time_elapsed = 0,
            sc_client_flags = (let n = int (length (filter (\<lambda>c. c = 32) version)) in n AND NOT 4),
            sc_checksum = checksum, sc_rank = None, sc_prev_best = None\<rparr>))))))))))))))))"

text \<open>The text whose MD5 is the online checksum of a score.\<close>

definition str_bool :: "bool \<Rightarrow> pystr" where
  "str_bool b = (if b then py ''True'' else py ''False'')"

definition pad2 :: "int \<Rightarrow> pystr" where
  "pad2 n = (if n < 10 then 48 # str_int n else str_int n)"

definition fmt_time :: "datetime \<Rightarrow> pystr" where
  "fmt_time t = (case t of ((y, m, d), (hh, mm, ss)) \<Rightarrow>
     pad2 (y mod 100) @ pad2 m @ pad2 d @ pad2 hh @ pad2 mm @ pad2 ss)"

definition checksum_text :: "('a) base_score_scheme \<Rightarrow> pystr \<Rightarrow> pystr \<Rightarrow> pystr \<Rightarrow> pystr \<Rightarrow> pystr" where
  "checksum_text sc player_name osu_version chash storyboard =
     py ''chickenmcnuggets'' @ str_int (sc_n100 sc + sc_n300 sc) @ py ''o15'' @ str_int (sc_n50 sc) @
     str_int (sc_ngeki sc) @ py ''smustard'' @ str_int (sc_nkatu sc) @ str_int (sc_nmiss sc) @
     py ''uu'' @ sc_map sc @ str_int (sc_max_combo sc) @ str_bool (sc_perfect sc) @ player_name @
     str_int (sc_score sc) @ grade_name (sc_grade sc) @ str_int (sc_mods sc) @ py ''Q'' @
     str_bool (sc_passed sc) @ str_int (as_vanilla (sc_mode sc)) @ osu_version @
     fmt_time (sc_client_time sc) @ chash @ storyboard"

definition compute_online_checksum ::
  "(bytes \<Rightarrow> pystr) \<Rightarrow> ('a) base_score_scheme \<Rightarrow> pystr \<Rightarrow> pystr \<Rightarrow> pystr \<Rightarrow> pystr \<Rightarrow> pystr result" where
  "compute_online_checksum md5 sc player_name osu_version chash storyboard =
     bindE (utf8_encode (checksum_text sc player_name osu_version chash storyboard))
           (\<lambda>b. Inr (md5 b))"

section \<open>Accuracy\<close>

definition calculate_accuracy :: "('a) base_score_scheme \<Rightarrow> rat result" where
  "calculate_accuracy sc =
     (let mode_vn = as_vanilla (sc_mode sc); n300 = sc_n300 sc; n100 = sc_n100 sc; n50 = sc_n50 sc;
          nmiss = sc_nmiss sc; ngeki = sc_ngeki sc; nkatu = sc_nkatu sc in
      if mode_vn = 0 then
        (let total = n300 + n100 + n50 + nmiss in
         if total = 0 then Inr 0
         else Inr (fdiv (fmul 100 (fadd (fadd (fmul (fint n300) 300) (fmul (fint n100) 100))
                                        (fmul (fint n50) 50)))
                        (fmul (fint total) 300)))
      else if mode_vn = 1 then
        (let total = n300 + n100 + nmiss in
         if total = 0 then Inr 0
         else Inr (fdiv (fmul 100 (fadd (fmul (fint n100) (1 / 2)) (fint n300))) (fint total)))
      else if mode_vn = 2 then
        (let total = n300 + n100 + n50 + nkatu + nmiss in
         if total = 0 then Inr 0
         else Inr (fdiv (fmul 100 (fint (n300 + n100 + n50))) (fint total)))
      else if mode_vn = 3 then
        (let total = n300 + n100 + n50 + ngeki + nkatu + nmiss in
         if total = 0 then Inr 0
         else if has (sc_mods sc) M_SCOREV2 then
           Inr (fdiv (fmul 100 (fadd (fadd (fadd (fadd (fmul (fint n50) 50) (fmul (fint n100) 100))
                 (fmul (fint nkatu) 200)) (fmul (fint n300) 300)) (fmul (fint ngeki) 305)))
               (fmul (fint total) 305))
         else
           Inr (fdiv (fmul 100 (fadd (fadd (fadd (fmul (fint n50) 50) (fmul (fint n100) 100))
                 (fmul (fint nkatu) 200)) (fmul (fint (n300 + ngeki)) 300)))
               (fmul (fint total) 300)))
      else Inl RuntimeError)"

section \<open>The tables\<close>

record score_row =
  sr_id :: int
  sr_map_md5 :: pystr
  sr_score :: int
  sr_pp :: rat
  sr_acc :: rat
  sr_max_combo :: int
  sr_mods :: int
  sr_n300 :: int
  sr_n100 :: int
  sr_n50 :: int
  sr_nmiss :: int
  sr_ngeki :: int
  sr_nkatu :: int
  sr_grade :: pystr
  sr_status :: int
  sr_mode :: int
  sr_play_time :: datetime
  sr_time_elapsed :: int
  sr_client_flags :: int
  sr_userid :: int
  sr_perfect :: int
  sr_checksum :: pystr
  sr_pp_aim :: "rat option"
  sr_pp_speed :: "rat option"
  sr_pp_flashlight :: "rat option"

record map_row =
  mr_id :: int
  mr_md5 :: pystr
  mr_status :: int
  mr_plays :: int
  mr_passes :: int

record db_user =
  du_id :: int
  du_name :: pystr
  du_priv :: int

text \<open>The statistics of a player in one mode; a row of the \<^verbatim>\<open>stats\<close> table has no rank.\<close>

record mode_stats = mode_data +
  md_grades :: "grade \<Rightarrow> int"

record sdb =
  t_scores :: "score_row list"
  t_next_score :: int
  t_stats :: "int \<times> int \<Rightarrow> mode_stats option"
  t_maps :: "map_row list"
  t_users :: "db_user list"
  t_achievements :: "int list"
  t_user_achievements :: "(int \<times> int) list"

section \<open>The queries\<close>

definition fetch_best_scores :: "sdb \<Rightarrow> int \<Rightarrow> pystr \<Rightarrow> int \<Rightarrow> score_row list" where
  "fetch_best_scores d uid md5 mode =
     filter (\<lambda>r. sr_map_md5 r = md5 \<and> sr_status r = status_value SS_BEST \<and> sr_mode r = mode \<and> sr_userid r = uid)
       (t_scores d)"

definition fetch_score :: "sdb \<Rightarrow> int \<Rightarrow> score_row option" where
  "fetch_score d i = find (\<lambda>r. sr_id r = i) (t_scores d)"

definition fetch_one_by_online_checksum :: "sdb \<Rightarrow> pystr \<Rightarrow> score_row option" where
  "fetch_one_by_online_checksum d c = find (\<lambda>r. sr_checksum r = c) (t_scores d)"

definition mark_previous_best :: "pystr \<Rightarrow> int \<Rightarrow> int \<Rightarrow> sdb \<Rightarrow> sdb" where
  "mark_previous_best md5 uid mode d =
     d\<lparr>t_scores := map (\<lambda>r. if sr_status r = status_value SS_BEST \<and> sr_map_md5 r = md5 \<and> sr_userid r = uid \<and>
                              sr_mode r = mode
                           then r\<lparr>sr_status := status_value SS_SUBMITTED\<rparr> else r) (t_scores d)\<rparr>"

text \<open>
  \<^verbatim>\<open>fetch_weighted_best_performances\<close>: the join with the maps gives a row per map of the same
  MD5; equal \<^verbatim>\<open>pp\<close> keep the order of the table.
\<close>

definition fetch_weighted_best :: "sdb \<Rightarrow> int \<Rightarrow> int \<Rightarrow> (rat \<times> rat) list" where
  "fetch_weighted_best d uid mode =
     map (\<lambda>r. (sr_pp r, sr_acc r)) (sort_key (\<lambda>r. - sr_pp r)
       (concat (map (\<lambda>r. map (\<lambda>_. r) (filter (\<lambda>m. mr_md5 m = sr_map_md5 r \<and> mr_status m \<in> {RS_RANKED, RS_APPROVED})
                                        (t_maps d)))
          (filter (\<lambda>r. sr_userid r = uid \<and> sr_mode r = mode \<and> sr_status r = status_value SS_BEST) (t_scores d)))))"

text \<open>A query on the scores of visible players: the rows joined with their users.\<close>

definition visible_best :: "sdb \<Rightarrow> pystr \<Rightarrow> int \<Rightarrow> (score_row \<times> db_user) list" where
  "visible_best d md5 mode =
     concat (map (\<lambda>r. map (Pair r) (filter (\<lambda>u. du_id u = sr_userid r \<and> has (du_priv u) P_UNRESTRICTED) (t_users d)))
       (filter (\<lambda>r. sr_map_md5 r = md5 \<and> sr_mode r = mode \<and> sr_status r = status_value SS_BEST) (t_scores d)))"

datatype scoring_metric = Metric_pp | Metric_score

definition leaderboard_value :: "scoring_metric \<Rightarrow> score_row \<Rightarrow> rat" where
  "leaderboard_value k r = (case k of Metric_pp \<Rightarrow> sr_pp r | Metric_score \<Rightarrow> of_int (sr_score r))"

definition fetch_first_place :: "sdb \<Rightarrow> pystr \<Rightarrow> int \<Rightarrow> scoring_metric \<Rightarrow> (int \<times> pystr) option" where
  "fetch_first_place d md5 mode k =
     (case sort_key (\<lambda>(r, u). - leaderboard_value k r) (visible_best d md5 mode) of
        [] \<Rightarrow> None | (r, u) # _ \<Rightarrow> Some (du_id u, du_name u))"

definition metric_of_mode :: "int \<Rightarrow> scoring_metric" where
  "metric_of_mode mode = (if 4 \<le> mode then Metric_pp else Metric_score)"

text \<open>\<^verbatim>\<open>calculate_placement\<close>: one more than the number of better visible bests.\<close>

definition placement :: "sdb \<Rightarrow> pystr \<Rightarrow> int \<Rightarrow> rat \<Rightarrow> int \<Rightarrow> int" where
  "placement d md5 mode pp tot =
     int (length (filter (\<lambda>(r, u). leaderboard_value (metric_of_mode mode) r >
                            (case metric_of_mode mode of Metric_pp \<Rightarrow> pp | Metric_score \<Rightarrow> of_int tot))
            (visible_best d md5 mode))) + 1"

definition create_score :: "score_row \<Rightarrow> sdb \<Rightarrow> sdb" where
  "create_score r d = d\<lparr>t_scores := t_scores d @ [r\<lparr>sr_id := t_next_score d\<rparr>], t_next_score := t_next_score d + 1\<rparr>"

definition map_update_plays :: "int \<Rightarrow> int \<Rightarrow> int \<Rightarrow> sdb \<Rightarrow> sdb" where
  "map_update_plays i n k d =
     d\<lparr>t_maps := map (\<lambda>m. if mr_id m = i then m\<lparr>mr_plays := n, mr_passes := k\<rparr> else m) (t_maps d)\<rparr>"

end
