(* ===== verification/Submission.thy ===== *)
theory Submission
  imports Scores
begin

text \<open>
  The submission of a score: \<^verbatim>\<open>app/services/score_submission.py\<close>. The state (\<open>sworld\<close>) holds the
  database, the cached beatmap objects, the online players, the score object of the request,
  the replay directory and what was sent out. Every access to the database, the cache server or
  the file system is a step \<open>io\<close>, which may raise whatever the schedule \<open>se_fault\<close> says: a
  database error, a cancellation, or the death of the process (\<open>Crash\<close>). One request runs from
  start to end; the lock on the checksum of the score has no other effect then.
\<close>

section \<open>The state\<close>

record client_details =
  cd_date :: "int \<times> int \<times> int"
  cd_osu_path_md5 :: pystr
  cd_adapters :: "pystr list"
  cd_adapters_md5 :: pystr
  cd_uninstall_md5 :: pystr
  cd_disk_signature_md5 :: pystr

text \<open>\<open>sp_recent\<close> is a dict: \<open>None\<close> is a missing key, \<open>Some None\<close> the value \<^verbatim>\<open>None\<close>.\<close>

record sub_player =
  sp_id :: int
  sp_name :: pystr
  sp_priv :: int
  sp_online :: bool
  sp_mode :: int
  sp_mods :: int
  sp_stats :: "int \<Rightarrow> mode_stats option"
  sp_recent :: "int \<Rightarrow> score option option"
  sp_client :: "client_details option"

definition sp_restricted :: "sub_player \<Rightarrow> bool" where
  "sp_restricted p \<longleftrightarrow> \<not> has (sp_priv p) P_UNRESTRICTED"

datatype sub_event =
    Integrity_failure
  | Latest_activity int
  | Publish_stats int
  | Metric pystr
  | Restriction_logged int pystr
  | Logged_out int
  | Personal_best int pystr
  | Announced int pystr
  | Discord_first_place "(int \<times> pystr) option"
  | Replay_analysis int int
  | Activity_published int

record sworld =
  w_db :: sdb
  w_bmaps :: "pystr \<Rightarrow> bmap option"
  w_players :: "int \<Rightarrow> sub_player option"
  w_score :: score
  w_files :: "pystr \<Rightarrow> bytes option"
  w_events :: "sub_event list"
  w_tick :: nat

text \<open>
  What the request gets from outside the program: the fault schedule, the digits of Unicode,
  MD5, the clock, the online player the credentials select, what a FLOAT column of a given
  precision stores, the availability of the map file, the performance calculator (pp, stars and
  the three skill components), the power function of the C library, the condition of an
  achievement (text the database holds, evaluated), the global rank, the announcement channel,
  the domain, and how much of a file a failed write leaves.
\<close>

type_synonym performance = "rat \<times> rat \<times> rat option \<times> rat option \<times> rat option"

record sub_env =
  se_fault :: "nat \<Rightarrow> exn option"
  se_digit :: "nat \<Rightarrow> nat option"
  se_md5 :: "bytes \<Rightarrow> pystr"
  se_now :: datetime
  se_authenticate :: "pystr \<Rightarrow> pystr \<Rightarrow> int option"
  se_column :: "nat \<Rightarrow> rat \<Rightarrow> rat"
  se_osu_file :: "int \<Rightarrow> pystr \<Rightarrow> bool"
  se_performance :: "score \<Rightarrow> performance result"
  se_pow :: "rat \<Rightarrow> nat \<Rightarrow> rat"
  se_condition :: "int \<Rightarrow> score \<Rightarrow> int \<Rightarrow> bool result"
  se_rank :: int
  se_announce_channel :: bool
  se_domain :: pystr
  se_torn :: nat

type_synonym 'a wop = "(sworld, 'a) op"

definition io :: "sub_env \<Rightarrow> 'a wop \<Rightarrow> 'a wop" where
  "io E m = (\<lambda>w. let w' = w\<lparr>w_tick := Suc (w_tick w)\<rparr>
                in case se_fault E (w_tick w) of Some e \<Rightarrow> (Inl e, w') | None \<Rightarrow> m w')"

definition emit_event :: "sub_event \<Rightarrow> unit wop" where
  "emit_event e = modify (\<lambda>w. w\<lparr>w_events := w_events w @ [e]\<rparr>)"

definition set_score :: "(score \<Rightarrow> score) \<Rightarrow> unit wop" where
  "set_score f = modify (\<lambda>w. w\<lparr>w_score := f (w_score w)\<rparr>)"

definition on_db :: "(sdb \<Rightarrow> sdb) \<Rightarrow> unit wop" where
  "on_db f = modify (\<lambda>w. w\<lparr>w_db := f (w_db w)\<rparr>)"

text \<open>The objects the score refers to, with the assertion that they are there.\<close>

definition score_bmap :: "bmap wop" where
  "score_bmap = bnd (gets (\<lambda>w. w_bmaps w (sc_map (w_score w)))) (the_or AssertionError)"

definition score_player :: "sub_player wop" where
  "score_player = bnd (gets (\<lambda>w. w_players w (sc_player (w_score w)))) (the_or AssertionError)"

definition put_bmap :: "bmap \<Rightarrow> unit wop" where
  "put_bmap b = modify (\<lambda>w. w\<lparr>w_bmaps := (w_bmaps w)(sc_map (w_score w) := Some b)\<rparr>)"

definition put_player :: "sub_player \<Rightarrow> unit wop" where
  "put_player p = modify (\<lambda>w. w\<lparr>w_players := (w_players w)(sc_player (w_score w) := Some p)\<rparr>)"

section \<open>Integrity of a submission\<close>

record sub_request =
  rq_score_data :: "pystr list"
  rq_password_md5 :: pystr
  rq_osu_version :: pystr
  rq_client_hash :: pystr
  rq_unique_ids :: pystr
  rq_storyboard_md5 :: "pystr option"
  rq_updated_beatmap_hash :: pystr
  rq_score_time :: int
  rq_fail_time :: int
  rq_replay :: bytes

definition check_that :: "bool \<Rightarrow> unit result" where
  "check_that b = (if b then Inr () else Inl ValueError)"

definition parse_unique_id_hashes :: "(bytes \<Rightarrow> pystr) \<Rightarrow> pystr \<Rightarrow> (pystr \<times> pystr) result" where
  "parse_unique_id_hashes md5 ids =
     (case split_max 124 1 ids of
        [a, b] \<Rightarrow> bindE (utf8_encode a) (\<lambda>a'. bindE (utf8_encode b) (\<lambda>b'. Inr (md5 a', md5 b')))
      | _ \<Rightarrow> Inl ValueError)"

definition fmt_date :: "int \<times> int \<times> int \<Rightarrow> pystr" where
  "fmt_date dt = (case dt of (y, m, d) \<Rightarrow> str_int y @ pad2 m @ pad2 d)"

definition validate_client_details ::
  "client_details option \<Rightarrow> pystr \<Rightarrow> pystr \<Rightarrow> pystr \<times> pystr \<Rightarrow> unit result" where
  "validate_client_details cd osu_version chash ids =
     (case cd of
        None \<Rightarrow> Inl ValueError
      | Some c \<Rightarrow>
          bindE (check_that (osu_version = fmt_date (cd_date c))) (\<lambda>_.
          bindE (check_that (chash = client_hash (cd_osu_path_md5 c) (cd_adapters c) (cd_adapters_md5 c)
                                       (cd_uninstall_md5 c) (cd_disk_signature_md5 c))) (\<lambda>_.
          bindE (check_that (fst ids = cd_uninstall_md5 c)) (\<lambda>_.
            check_that (snd ids = cd_disk_signature_md5 c)))))"

definition validate_score_checksum ::
  "(bytes \<Rightarrow> pystr) \<Rightarrow> score \<Rightarrow> pystr \<Rightarrow> pystr \<Rightarrow> pystr \<Rightarrow> pystr option \<Rightarrow> unit result" where
  "validate_score_checksum md5 sc player_name osu_version chash storyboard =
     bindE (compute_online_checksum md5 sc player_name osu_version chash
              (case storyboard of None \<Rightarrow> [] | Some x \<Rightarrow> x)) (\<lambda>c.
       check_that (sc_checksum sc = c))"

definition validate_submission_integrity ::
  "(bytes \<Rightarrow> pystr) \<Rightarrow> client_details option \<Rightarrow> score \<Rightarrow> pystr \<Rightarrow> sub_request \<Rightarrow> pystr \<Rightarrow> unit result" where
  "validate_submission_integrity md5 cd sc player_name rq submission_md5 =
     bindE (parse_unique_id_hashes md5 (rq_unique_ids rq)) (\<lambda>ids.
     bindE (validate_client_details cd (rq_osu_version rq) (rq_client_hash rq) ids) (\<lambda>_.
     bindE (validate_score_checksum md5 sc player_name (rq_osu_version rq) (rq_client_hash rq)
              (rq_storyboard_md5 rq)) (\<lambda>_.
       check_that (submission_md5 = rq_updated_beatmap_hash rq))))"

text \<open>\<^verbatim>\<open>except (ValueError, AssertionError)\<close>: the Unicode errors are subclasses of the first.\<close>

definition integrity_error :: "exn \<Rightarrow> bool" where
  "integrity_error e \<longleftrightarrow> e \<in> {ValueError, UnicodeEncodeError, UnicodeDecodeError, AssertionError}"

definition score_submission_beatmap_md5 :: "sub_request \<Rightarrow> pystr result" where
  "score_submission_beatmap_md5 rq = at_pos (rq_score_data rq) 0 Inr"

definition score_submission_username :: "sub_request \<Rightarrow> pystr result" where
  "score_submission_username rq =
     at_pos (rq_score_data rq) 1 (\<lambda>u. if u = [] then Inl IndexError
                                       else Inr (if last u = 32 then butlast u else u))"

definition build_score_from_submission_request ::
  "sub_env \<Rightarrow> sub_request \<Rightarrow> pystr \<Rightarrow> int \<Rightarrow> score result" where
  "build_score_from_submission_request E rq md5 pid =
     bindE (from_submission (se_digit E) (se_now E) (drop 2 (rq_score_data rq))) (\<lambda>sc.
       Inr (sc\<lparr>sc_map := md5, sc_player := pid\<rparr>))"

section \<open>Rating a score\<close>

definition update_submitter_status_mode :: "unit wop" where
  "update_submitter_status_mode =
     bnd (gets w_score) (\<lambda>sc. bnd score_player (\<lambda>p.
       if sc_mode sc \<noteq> sp_mode p
       then thn (put_player (p\<lparr>sp_mods := sc_mods sc, sp_mode := sc_mode sc\<rparr>))
                (if \<not> sp_restricted p then emit_event (Publish_stats (sp_id p)) else skip)
       else skip))"

text \<open>\<^verbatim>\<open>Score.from_sql\<close>: a row of the table as a score, with its placement when its map is known.\<close>

definition calculate_placement :: "sub_env \<Rightarrow> pystr \<Rightarrow> int \<Rightarrow> rat \<Rightarrow> int \<Rightarrow> int wop" where
  "calculate_placement E md5 mode pp tot = io E (gets (\<lambda>w. placement (w_db w) md5 mode pp tot))"

definition score_from_sql :: "sub_env \<Rightarrow> int \<Rightarrow> base_score option wop" where
  "score_from_sql E i =
     bnd (io E (gets (\<lambda>w. fetch_score (w_db w) i))) (\<lambda>rec.
     case rec of
       None \<Rightarrow> retn None
     | Some r \<Rightarrow>
         bnd (io E (gets (\<lambda>w. w_bmaps w (sr_map_md5 r)))) (\<lambda>b.
         thn (io E skip)
         (bnd (lift_result (grade_of_str (sr_grade r))) (\<lambda>g.
         bnd (lift_result (status_of (sr_status r))) (\<lambda>st.
         bnd (lift_result (game_mode_of (sr_mode r))) (\<lambda>mode.
         bnd (if b \<noteq> None
              then bnd (calculate_placement E (sr_map_md5 r) mode (sr_pp r) (sr_score r)) (\<lambda>k. retn (Some k))
              else retn None) (\<lambda>rank.
           retn (Some \<lparr>sc_id = Some (sr_id r), sc_map = sr_map_md5 r, sc_player = sr_userid r, sc_mode = mode,
                  sc_mods = sr_mods r, sc_pp = sr_pp r, sc_sr = 0, sc_pp_aim = None, sc_pp_speed = None,
                  sc_pp_flashlight = None, sc_score = sr_score r, sc_max_combo = sr_max_combo r,
                  sc_acc = sr_acc r, sc_n300 = sr_n300 r, sc_n100 = sr_n100 r, sc_n50 = sr_n50 r,
                  sc_nmiss = sr_nmiss r, sc_ngeki = sr_ngeki r, sc_nkatu = sr_nkatu r, sc_grade = g,
                  sc_passed = (st \<noteq> SS_FAILED), sc_perfect = (sr_perfect r = 1), sc_status = st,
                  sc_client_time = sr_play_time r, sc_server_time = sr_play_time r,
                  sc_time_elapsed = sr_time_elapsed r, sc_client_flags = sr_client_flags r,
                  sc_checksum = sr_checksum r, sc_rank = rank\<rparr>))))))))"

definition calculate_performance :: "sub_env \<Rightarrow> unit wop" where
  "calculate_performance E =
     bnd (gets w_score) (\<lambda>sc. bnd (lift_result (se_performance E sc)) (\<lambda>(pp, stars, aim, speed, fl).
       set_score (\<lambda>s. s\<lparr>sc_pp_aim := aim, sc_pp_speed := speed, sc_pp_flashlight := fl,
                        sc_pp := pp, sc_sr := stars\<rparr>)))"

definition calculate_status :: "sub_env \<Rightarrow> unit wop" where
  "calculate_status E =
     bnd score_player (\<lambda>p. bnd score_bmap (\<lambda>b. bnd (gets w_score) (\<lambda>sc.
     bnd (io E (gets (\<lambda>w. fetch_best_scores (w_db w) (sp_id p) (bm_md5 b) (sc_mode sc)))) (\<lambda>recs.
     case recs of
       [] \<Rightarrow> set_score (\<lambda>s. s\<lparr>sc_status := SS_BEST\<rparr>)
     | r # _ \<Rightarrow>
         bnd (score_from_sql E (sr_id r)) (\<lambda>pb.
         thn (set_score (\<lambda>s. s\<lparr>sc_prev_best := pb\<rparr>))
         (bnd (the_or AssertionError pb) (\<lambda>best.
            if sc_pp sc > sr_pp r
            then set_score (\<lambda>s. s\<lparr>sc_status := SS_BEST, sc_prev_best := Some (best\<lparr>sc_status := SS_SUBMITTED\<rparr>)\<rparr>)
            else set_score (\<lambda>s. s\<lparr>sc_status := SS_SUBMITTED\<rparr>))))))))"

definition calculate_score_submission_status :: "sub_env \<Rightarrow> int \<Rightarrow> int \<Rightarrow> unit wop" where
  "calculate_score_submission_status E score_time fail_time =
     bnd score_bmap (\<lambda>b. bnd (gets w_score) (\<lambda>sc.
     bnd (lift_result (calculate_accuracy sc)) (\<lambda>acc.
     thn (set_score (\<lambda>s. s\<lparr>sc_acc := acc, sc_pp := 0, sc_sr := 0,
                          sc_status := (if sc_passed s then SS_SUBMITTED else SS_FAILED)\<rparr>))
     (bnd (io E (retn (se_osu_file E (bm_id b) (bm_md5 b)))) (\<lambda>available.
     thn (if available
          then thn (calculate_performance E)
                 (if sc_passed sc
                  then thn (calculate_status E)
                         (if bm_status b \<noteq> RS_PENDING
                          then bnd (gets w_score) (\<lambda>sc'.
                                 bnd (calculate_placement E (bm_md5 b) (sc_mode sc') (sc_pp sc') (sc_score sc'))
                                   (\<lambda>k. set_score (\<lambda>s. s\<lparr>sc_rank := Some k\<rparr>)))
                          else skip)
                  else set_score (\<lambda>s. s\<lparr>sc_status := SS_FAILED\<rparr>))
          else skip)
       (set_score (\<lambda>s. s\<lparr>sc_time_elapsed := (if sc_passed s then score_time else fail_time)\<rparr>)))))))"

section \<open>Statistics\<close>

text \<open>The keys a dict of updates may hold, each with its value.\<close>

record stats_updates =
  up_plays :: "int option"
  up_playtime :: "int option"
  up_tscore :: "int option"
  up_total_hits :: "int option"
  up_max_combo :: "int option"
  up_grades :: "grade \<Rightarrow> int option"
  up_rscore :: "int option"
  up_acc :: "rat option"
  up_pp :: "int option"

definition apply_score_base_stats :: "score \<Rightarrow> mode_stats \<Rightarrow> mode_stats \<times> stats_updates" where
  "apply_score_base_stats sc st =
     (let hits = total_hits st + (sc_n300 sc + sc_n100 sc + sc_n50 sc);
          hits' = (if as_vanilla (sc_mode sc) \<in> {1, 3} then hits + (sc_ngeki sc + sc_nkatu sc) else hits);
          st' = st\<lparr>playtime := playtime st + sc_time_elapsed sc div 1000, plays := plays st + 1,
                   tscore := tscore st + sc_score sc, total_hits := hits'\<rparr>
      in (st', \<lparr>up_plays = Some (plays st'), up_playtime = Some (playtime st'), up_tscore = Some (tscore st'),
               up_total_hits = Some (total_hits st'), up_max_combo = None, up_grades = (\<lambda>_. None),
               up_rscore = None, up_acc = None, up_pp = None\<rparr>))"

definition ranked_score_delta :: "score \<Rightarrow> int" where
  "ranked_score_delta sc =
     (case sc_prev_best sc of None \<Rightarrow> sc_score sc | Some pb \<Rightarrow> sc_score sc - sc_score pb)"

definition grade_count_deltas :: "score \<Rightarrow> (grade \<times> int) list" where
  "grade_count_deltas sc =
     (case sc_prev_best sc of
        None \<Rightarrow> if sc_grade sc \<ge> G_A then [(sc_grade sc, 1)] else []
      | Some pb \<Rightarrow>
          if sc_grade sc = sc_grade pb then []
          else (if sc_grade sc \<ge> G_A then [(sc_grade sc, 1)] else []) @
               (if sc_grade pb \<ge> G_A then [(sc_grade pb, -1)] else []))"

definition set_grade_count_update :: "stats_updates \<Rightarrow> grade \<Rightarrow> int \<Rightarrow> stats_updates result" where
  "set_grade_count_update u g v =
     (if g \<in> {G_XH, G_X, G_SH, G_S, G_A} then Inr (u\<lparr>up_grades := (up_grades u)(g := Some v)\<rparr>)
      else Inl ValueError)"

text \<open>The dict of grade counts has the five keys from A up; another one is a \<^verbatim>\<open>KeyError\<close>.\<close>

fun apply_grade_deltas ::
  "(grade \<times> int) list \<Rightarrow> mode_stats \<Rightarrow> stats_updates \<Rightarrow> (mode_stats \<times> stats_updates) result" where
  "apply_grade_deltas [] st u = Inr (st, u)"
| "apply_grade_deltas ((g, d) # ds) st u =
     (if g \<in> {G_XH, G_X, G_SH, G_S, G_A}
      then let st' = st\<lparr>md_grades := (md_grades st)(g := md_grades st g + d)\<rparr>
           in bindE (set_grade_count_update u g (md_grades st' g)) (apply_grade_deltas ds st')
      else Inl KeyError)"

definition apply_ranked_score_stats ::
  "score \<Rightarrow> mode_stats \<Rightarrow> stats_updates \<Rightarrow> (mode_stats \<times> stats_updates) result" where
  "apply_ranked_score_stats sc st u =
     bindE (apply_grade_deltas (grade_count_deltas sc) st u) (\<lambda>(st', u').
       let st'' = st'\<lparr>rscore := rscore st' + ranked_score_delta sc\<rparr>
       in Inr (st'', u'\<lparr>up_rscore := Some (rscore st'')\<rparr>))"

definition apply_score_stats ::
  "score \<Rightarrow> bmap \<Rightarrow> mode_stats \<Rightarrow> (mode_stats \<times> stats_updates) result" where
  "apply_score_stats sc b st0 =
     (let (st, u) = apply_score_base_stats sc st0 in
      if \<not> sc_passed sc \<or> \<not> has_leaderboard b then Inr (st, u)
      else let (st', u') = (if sc_max_combo sc > md_max_combo st
                            then (st\<lparr>md_max_combo := sc_max_combo sc\<rparr>, u\<lparr>up_max_combo := Some (sc_max_combo sc)\<rparr>)
                            else (st, u))
           in if awards_ranked_pp b \<and> sc_status sc = SS_BEST then apply_ranked_score_stats sc st' u'
              else Inr (st', u'))"

text \<open>The weighted sums over the best scores, highest \<^verbatim>\<open>pp\<close> first.\<close>

definition weighted_sum :: "(rat \<Rightarrow> nat \<Rightarrow> rat) \<Rightarrow> rat list \<Rightarrow> rat" where
  "weighted_sum pow xs = foldl (\<lambda>s (i, x). fadd s (fmul x (pow (fl (95 / 100)) i))) 0 (List.enumerate 0 xs)"

definition calculate_weighted_accuracy :: "(rat \<Rightarrow> nat \<Rightarrow> rat) \<Rightarrow> (rat \<times> rat) list \<Rightarrow> rat result" where
  "calculate_weighted_accuracy pow best =
     (let divisor = fmul 20 (fadd 1 (- pow (fl (95 / 100)) (length best))) in
      if divisor = 0 then Inl ZeroDivisionError
      else Inr (fdiv (fmul (weighted_sum pow (map snd best)) (fdiv 100 divisor)) 100))"

definition calculate_weighted_pp :: "(rat \<Rightarrow> nat \<Rightarrow> rat) \<Rightarrow> (rat \<times> rat) list \<Rightarrow> int" where
  "calculate_weighted_pp pow best =
     round_even (fadd (weighted_sum pow (map fst best))
       (fmul (fl (4166667 / 10000)) (fadd 1 (- pow (fl (9994 / 10000)) (length best)))))"

definition apply_weighted_performance_stats ::
  "(rat \<Rightarrow> nat \<Rightarrow> rat) \<Rightarrow> (rat \<times> rat) list \<Rightarrow> mode_stats \<Rightarrow> stats_updates \<Rightarrow>
     (mode_stats \<times> stats_updates) result" where
  "apply_weighted_performance_stats pow best st u =
     bindE (calculate_weighted_accuracy pow best) (\<lambda>acc.
       let pp = calculate_weighted_pp pow best
       in Inr (st\<lparr>md_acc := acc, md_pp := pp\<rparr>, u\<lparr>up_acc := Some acc, up_pp := Some pp\<rparr>))"

definition upd_with :: "'a option \<Rightarrow> 'a \<Rightarrow> 'a" where
  "upd_with v x = (case v of None \<Rightarrow> x | Some y \<Rightarrow> y)"

text \<open>\<^verbatim>\<open>StatsRepository.partial_update\<close>: only the given columns of the row change.\<close>

definition stats_row_update :: "stats_updates \<Rightarrow> mode_stats \<Rightarrow> mode_stats" where
  "stats_row_update u r =
     r\<lparr>plays := upd_with (up_plays u) (plays r), playtime := upd_with (up_playtime u) (playtime r),
       tscore := upd_with (up_tscore u) (tscore r), total_hits := upd_with (up_total_hits u) (total_hits r),
       md_max_combo := upd_with (up_max_combo u) (md_max_combo r),
       md_grades := (\<lambda>g. upd_with (up_grades u g) (md_grades r g)),
       rscore := upd_with (up_rscore u) (rscore r), md_acc := upd_with (up_acc u) (md_acc r),
       md_pp := upd_with (up_pp u) (md_pp r)\<rparr>"

definition stats_partial_update :: "sub_env \<Rightarrow> int \<Rightarrow> int \<Rightarrow> stats_updates \<Rightarrow> sdb \<Rightarrow> sdb" where
  "stats_partial_update E uid mode u d =
     (let u' = u\<lparr>up_acc := map_option (se_column E 6) (up_acc u)\<rparr>
      in d\<lparr>t_stats := (t_stats d)((uid, mode) := map_option (stats_row_update u') (t_stats d (uid, mode)))\<rparr>)"

definition apply_beatmap_play_stats :: "score \<Rightarrow> bmap \<Rightarrow> bmap" where
  "apply_beatmap_play_stats sc b =
     b\<lparr>bm_plays := bm_plays b + 1, bm_passes := (if sc_passed sc then bm_passes b + 1 else bm_passes b)\<rparr>"

section \<open>Persisting a score\<close>

definition player_stats :: "mode_stats wop" where
  "player_stats =
     bnd score_player (\<lambda>p. bnd (gets w_score) (\<lambda>sc. the_or KeyError (sp_stats p (sc_mode sc))))"

definition put_stats :: "mode_stats \<Rightarrow> unit wop" where
  "put_stats st =
     bnd score_player (\<lambda>p. bnd (gets w_score) (\<lambda>sc.
       put_player (p\<lparr>sp_stats := (sp_stats p)(sc_mode sc := Some st)\<rparr>)))"

record stats_result =
  pr_previous :: mode_stats
  pr_current :: mode_stats
  pr_update_rank :: bool
  pr_public :: bool

definition persist_score_submission_stats :: "sub_env \<Rightarrow> stats_result wop" where
  "persist_score_submission_stats E =
     bnd score_bmap (\<lambda>b. bnd score_player (\<lambda>p. bnd (gets w_score) (\<lambda>sc.
     bnd player_stats (\<lambda>st0.
     bnd (lift_result (apply_score_stats sc b st0)) (\<lambda>(st1, u1).
     thn (put_stats st1)
     (bnd (if sc_passed sc \<and> has_leaderboard b \<and> awards_ranked_pp b \<and> sc_status sc = SS_BEST
           then bnd (io E (gets (\<lambda>w. fetch_weighted_best (w_db w) (sp_id p) (sc_mode sc)))) (\<lambda>best.
                bnd (lift_result (apply_weighted_performance_stats (se_pow E) best st1 u1)) (\<lambda>(st2, u2).
                thn (put_stats st2) (retn (st2, u2, True))))
           else retn (st1, u1, False)) (\<lambda>(st2, u2, ranked).
     thn (thn (io E (on_db (stats_partial_update E (sp_id p) (sc_mode sc) u2))) (io E skip))
     (thn (if \<not> sp_restricted p
           then let b' = apply_beatmap_play_stats sc b in
                thn (put_bmap b') (thn (io E (on_db (map_update_plays (bm_id b) (bm_plays b') (bm_passes b'))))
                                       (io E skip))
           else skip)
       (retn \<lparr>pr_previous = st0\<lparr>md_grades := md_grades st2\<rparr>, pr_current = st2,
              pr_update_rank = ranked, pr_public = \<not> sp_restricted p\<rparr>)))))))))"

definition score_to_row :: "sub_env \<Rightarrow> score \<Rightarrow> bmap \<Rightarrow> sub_player \<Rightarrow> score_row" where
  "score_to_row E sc b p =
     \<lparr>sr_id = 0, sr_map_md5 = bm_md5 b, sr_score = sc_score sc, sr_pp = se_column E 6 (sc_pp sc),
      sr_acc = se_column E 6 (sc_acc sc), sr_max_combo = sc_max_combo sc, sr_mods = sc_mods sc,
      sr_n300 = sc_n300 sc, sr_n100 = sc_n100 sc, sr_n50 = sc_n50 sc, sr_nmiss = sc_nmiss sc,
      sr_ngeki = sc_ngeki sc, sr_nkatu = sc_nkatu sc, sr_grade = grade_name (sc_grade sc),
      sr_status = status_value (sc_status sc), sr_mode = sc_mode sc, sr_play_time = sc_server_time sc,
      sr_time_elapsed = sc_time_elapsed sc, sr_client_flags = sc_client_flags sc, sr_userid = sp_id p,
      sr_perfect = of_bool (sc_perfect sc), sr_checksum = sc_checksum sc,
      sr_pp_aim = map_option (se_column E 7) (sc_pp_aim sc),
      sr_pp_speed = map_option (se_column E 7) (sc_pp_speed sc),
      sr_pp_flashlight = map_option (se_column E 7) (sc_pp_flashlight sc)\<rparr>"

definition persist_submitted_score :: "sub_env \<Rightarrow> int wop" where
  "persist_submitted_score E =
     bnd score_bmap (\<lambda>b. bnd score_player (\<lambda>p. bnd (gets w_score) (\<lambda>sc.
     thn (if sc_status sc = SS_BEST
          then io E (on_db (mark_previous_best (bm_md5 b) (sp_id p) (sc_mode sc))) else skip)
     (bnd (io E (bnd (gets (\<lambda>w. t_next_score (w_db w))) (\<lambda>i.
            thn (on_db (create_score (score_to_row E sc b p))) (retn i)))) (\<lambda>i.
      bnd (io E (gets (\<lambda>w. fetch_score (w_db w) i))) (\<lambda>row.
      bnd (the_or AssertionError row) (\<lambda>r.
      thn (set_score (\<lambda>s. s\<lparr>sc_id := Some (sr_id r)\<rparr>)) (retn (sr_id r)))))))))"

section \<open>Announcements\<close>

text \<open>\<^verbatim>\<open>f"{n:,}"\<close> and \<^verbatim>\<open>f"{x:,.2f}"\<close>; the latter rounds the exact value of the double, ties to even.\<close>

fun commas_rev :: "pystr \<Rightarrow> pystr" where
  "commas_rev (a # b # c # d # r) = a # b # c # 44 # commas_rev (d # r)"
| "commas_rev s = s"

definition fmt_commas :: "int \<Rightarrow> pystr" where
  "fmt_commas n = (if n < 0 then [45] else []) @ rev (commas_rev (rev (nat_digits (nat \<bar>n\<bar>))))"

definition fmt_fixed2 :: "bool \<Rightarrow> rat \<Rightarrow> pystr" where
  "fmt_fixed2 commas x =
     (let n = round_even (\<bar>x\<bar> * 100) in
      (if x < 0 then [45] else []) @
      (if commas then fmt_commas (n div 100) else str_int (n div 100)) @ [46] @ pad2 (n mod 100))"

definition VANILLA_GAME_MODES :: "int list" where
  "VANILLA_GAME_MODES = [0, 1, 2, 3]"

definition format_score_submission_performance :: "score \<Rightarrow> bmap \<Rightarrow> pystr" where
  "format_score_submission_performance sc b =
     (if bm_status b = RS_LOVED \<and> sc_mode sc \<in> set VANILLA_GAME_MODES
      then fmt_commas (sc_score sc) @ py '' score'' else fmt_fixed2 True (sc_pp sc) @ py ''pp'')"

definition str_opt_int :: "int option \<Rightarrow> pystr" where
  "str_opt_int v = (case v of None \<Rightarrow> py ''None'' | Some n \<Rightarrow> str_int n)"

definition notify_score_submitter_of_personal_best :: "unit wop" where
  "notify_score_submitter_of_personal_best =
     bnd score_bmap (\<lambda>b. bnd score_player (\<lambda>p. bnd (gets w_score) (\<lambda>sc.
       if sc_status sc \<noteq> SS_BEST \<or> \<not> has_leaderboard b then skip
       else emit_event (Personal_best (sp_id p)
              (py ''You achieved #'' @ str_opt_int (sc_rank sc) @ py ''! ('' @
               format_score_submission_performance sc b @ py '')'')))))"

definition first_place_scoring_metric :: "score \<Rightarrow> scoring_metric" where
  "first_place_scoring_metric sc = (if 4 \<le> sc_mode sc then Metric_pp else Metric_score)"

definition score_should_announce_first_place :: "score \<Rightarrow> bmap \<Rightarrow> sub_player \<Rightarrow> bool" where
  "score_should_announce_first_place sc b p \<longleftrightarrow>
     sc_status sc = SS_BEST \<and> has_leaderboard b \<and> sc_rank sc = Some 1 \<and> \<not> sp_restricted p"

definition announce_first_place :: "sub_env \<Rightarrow> (int \<times> pystr) option \<Rightarrow> unit wop" where
  "announce_first_place E previous =
     bnd score_bmap (\<lambda>b. bnd score_player (\<lambda>p. bnd (gets w_score) (\<lambda>sc.
       if \<not> score_should_announce_first_place sc b p then skip
       else let ann = [1 # py ''ACTION achieved #1 on '' @ bm_embed b] @
                      (if sc_mods sc \<noteq> 0 then [43 # mods_repr (sc_mods sc)] else []) @
                      [py ''with '' @ fmt_fixed2 False (sc_acc sc) @ py ''% for '' @
                       format_score_submission_performance sc b @ [46]] @
                      (case previous of
                         None \<Rightarrow> []
                       | Some (i, n) \<Rightarrow> if sp_id p \<noteq> i
                           then [py ''(Previous #1: [https://'' @ se_domain E @ py ''/u/'' @ str_int i @ [32] @ n @ py ''])'']
                           else [])
            in if \<not> se_announce_channel E then raise AssertionError
               else emit_event (Announced (sp_id p) (join_with 32 ann)))))"

section \<open>Rolling back\<close>

text \<open>The snapshot of the values in memory, and what puts them back.\<close>

record sub_snapshot =
  sn_score_id :: "int option"
  sn_stats :: mode_stats
  sn_plays :: int
  sn_passes :: int
  sn_had_recent :: bool
  sn_recent :: "score option"

definition capture_score_submission_state :: "sub_snapshot wop" where
  "capture_score_submission_state =
     bnd score_bmap (\<lambda>b. bnd score_player (\<lambda>p. bnd (gets w_score) (\<lambda>sc. bnd player_stats (\<lambda>st.
       retn \<lparr>sn_score_id = sc_id sc, sn_stats = st, sn_plays = bm_plays b, sn_passes = bm_passes b,
             sn_had_recent = (sp_recent p (sc_mode sc) \<noteq> None),
             sn_recent = upd_with (sp_recent p (sc_mode sc)) None\<rparr>))))"

definition restore_score_submission_state :: "sub_snapshot \<Rightarrow> unit wop" where
  "restore_score_submission_state sn =
     bnd score_bmap (\<lambda>b. bnd score_player (\<lambda>_.
     thn (set_score (\<lambda>s. s\<lparr>sc_id := sn_score_id sn\<rparr>))
    (thn (put_stats (sn_stats sn))
    (thn (put_bmap (b\<lparr>bm_plays := sn_plays sn, bm_passes := sn_passes sn\<rparr>))
    (bnd score_player (\<lambda>p. bnd (gets w_score) (\<lambda>sc.
       if sn_had_recent sn
       then if sn_recent sn = None then raise AssertionError
            else put_player (p\<lparr>sp_recent := (sp_recent p)(sc_mode sc := Some (sn_recent sn))\<rparr>)
       else put_player (p\<lparr>sp_recent := (sp_recent p)(sc_mode sc := None)\<rparr>))))))))"

text \<open>
  \<^verbatim>\<open>async with database.transaction()\<close>: an exception, or a commit that fails, takes the
  database back to its state at the start; so does the death of the process.
\<close>

definition transaction :: "sub_env \<Rightarrow> 'a wop \<Rightarrow> 'a wop" where
  "transaction E m =
     (\<lambda>w. case bnd (thn (io E skip) m) (\<lambda>x. thn (io E skip) (retn x)) w of
            (Inl e, w') \<Rightarrow> (Inl e, w'\<lparr>w_db := w_db w\<rparr>) | (Inr x, w') \<Rightarrow> (Inr x, w'))"

text \<open>\<^verbatim>\<open>except BaseException: h; raise\<close>\<close>

definition on_failure :: "unit wop \<Rightarrow> 'a wop \<Rightarrow> 'a wop" where
  "on_failure h m =
     (\<lambda>w. case m w of
            (Inl e, w') \<Rightarrow> if e = Crash then (Inl e, w') else bnd h (\<lambda>_. raise e) w'
          | (Inr x, w') \<Rightarrow> (Inr x, w'))"

definition achievement_is_unlocked :: "int \<Rightarrow> (int \<times> int) list \<Rightarrow> bool" where
  "achievement_is_unlocked a uas \<longleftrightarrow> list_ex (\<lambda>ua. snd ua = a) uas"

definition score_can_unlock_achievements :: "score \<Rightarrow> bmap \<Rightarrow> sub_player \<Rightarrow> bool" where
  "score_can_unlock_achievements sc b p \<longleftrightarrow> sc_passed sc \<and> awards_ranked_pp b \<and> \<not> sp_restricted p"

fun unlock_each :: "sub_env \<Rightarrow> int \<Rightarrow> score \<Rightarrow> (int \<times> int) list \<Rightarrow> int list \<Rightarrow> int list wop" where
  "unlock_each E uid sc uas [] = retn []"
| "unlock_each E uid sc uas (a # rest) =
     (if achievement_is_unlocked a uas then unlock_each E uid sc uas rest
      else bnd (lift_result (se_condition E a sc (as_vanilla (sc_mode sc)))) (\<lambda>met.
           if met
           then thn (io E (on_db (\<lambda>d. d\<lparr>t_user_achievements := t_user_achievements d @ [(uid, a)]\<rparr>)))
                  (bnd (thn (io E skip) (unlock_each E uid sc uas rest)) (\<lambda>r. retn (a # r)))
           else unlock_each E uid sc uas rest))"

definition unlock_new_achievements :: "sub_env \<Rightarrow> int list wop" where
  "unlock_new_achievements E =
     bnd score_player (\<lambda>p. bnd (gets w_score) (\<lambda>sc.
     bnd (io E (gets (\<lambda>w. t_achievements (w_db w)))) (\<lambda>server.
     bnd (io E (gets (\<lambda>w. filter (\<lambda>ua. fst ua = sp_id p) (t_user_achievements (w_db w))))) (\<lambda>mine.
       unlock_each E (sp_id p) sc mine server))))"

record persist_result =
  ps_score_id :: int
  ps_stats :: stats_result
  ps_first_place :: "(int \<times> pystr) option"
  ps_achievements :: "int list"

definition persist_score_submission :: "sub_env \<Rightarrow> persist_result wop" where
  "persist_score_submission E =
     bnd capture_score_submission_state (\<lambda>sn.
       on_failure (restore_score_submission_state sn)
         (transaction E
           (bnd score_bmap (\<lambda>b. bnd score_player (\<lambda>p. bnd (gets w_score) (\<lambda>sc.
            bnd (if score_should_announce_first_place sc b p
                 then io E (gets (\<lambda>w. fetch_first_place (w_db w) (bm_md5 b) (sc_mode sc)
                                        (first_place_scoring_metric sc)))
                 else retn None) (\<lambda>first.
            bnd (persist_submitted_score E) (\<lambda>i.
            bnd (persist_score_submission_stats E) (\<lambda>stats.
            bnd (if score_can_unlock_achievements sc b p then unlock_new_achievements E else retn []) (\<lambda>ach.
              retn \<lparr>ps_score_id = i, ps_stats = stats, ps_first_place = first, ps_achievements = ach\<rparr>))))))))))"

section \<open>The replay file\<close>

definition MIN_REPLAY_SIZE :: nat where
  "MIN_REPLAY_SIZE = 24"

definition read_submitted_replay_file :: "sub_env \<Rightarrow> sub_request \<Rightarrow> bytes option wop" where
  "read_submitted_replay_file E rq =
     bnd (gets w_score) (\<lambda>sc. if \<not> sc_passed sc then retn None else io E (retn (Some (rq_replay rq))))"

definition replay_data_is_valid :: "bytes \<Rightarrow> bool" where
  "replay_data_is_valid d \<longleftrightarrow> length d \<ge> MIN_REPLAY_SIZE"

definition pending_replay_path :: "pystr \<Rightarrow> pystr" where
  "pending_replay_path checksum = checksum @ py ''.osr.pending''"

definition replay_path :: "int \<Rightarrow> pystr" where
  "replay_path i = str_int i @ py ''.osr''"

text \<open>A write that fails leaves a prefix of the data.\<close>

definition write_replay_bytes :: "sub_env \<Rightarrow> pystr \<Rightarrow> bytes \<Rightarrow> unit wop" where
  "write_replay_bytes E path d =
     (\<lambda>w. let w' = w\<lparr>w_tick := Suc (w_tick w)\<rparr>
          in case se_fault E (w_tick w) of
               Some e \<Rightarrow> (Inl e, w'\<lparr>w_files := (w_files w)(path := Some (take (se_torn E) d))\<rparr>)
             | None \<Rightarrow> (Inr (), w'\<lparr>w_files := (w_files w)(path := Some d)\<rparr>))"

definition stage_replay_file :: "sub_env \<Rightarrow> bytes option \<Rightarrow> pystr \<Rightarrow> pystr option wop" where
  "stage_replay_file E replay checksum =
     (case replay of
        None \<Rightarrow> retn None
      | Some d \<Rightarrow> let path = pending_replay_path checksum
                  in thn (write_replay_bytes E path d) (retn (Some path)))"

definition rename_file :: "pystr \<Rightarrow> pystr \<Rightarrow> unit wop" where
  "rename_file from_path to_path =
     bnd (gets (\<lambda>w. w_files w from_path)) (\<lambda>d.
     case d of
       None \<Rightarrow> raise OSError
     | Some _ \<Rightarrow> modify (\<lambda>w. w\<lparr>w_files := (w_files w)(from_path := None, to_path := d)\<rparr>))"

definition commit_replay_file :: "sub_env \<Rightarrow> pystr option \<Rightarrow> unit wop" where
  "commit_replay_file E pending =
     (case pending of
        None \<Rightarrow> skip
      | Some path \<Rightarrow>
          bnd (bnd (gets (\<lambda>w. sc_id (w_score w))) (the_or AssertionError)) (\<lambda>i.
            catch (io E (rename_file path (replay_path i))) OSError skip))"

definition discard_staged_replay :: "sub_env \<Rightarrow> pystr option \<Rightarrow> unit wop" where
  "discard_staged_replay E pending =
     (case pending of
        None \<Rightarrow> skip
      | Some path \<Rightarrow>
          catch (io E (modify (\<lambda>w. w\<lparr>w_files := (w_files w)(path := None)\<rparr>))) OSError skip)"

text \<open>
  \<^verbatim>\<open>Player.restrict\<close>: the privilege goes first, in memory and in the database, then the log
  entry, the leaderboards of the eight modes, and the session. The second logout of the caller
  never runs, the player being offline by then.
\<close>

definition LEADERBOARD_MODES :: "int list" where
  "LEADERBOARD_MODES = [0, 1, 2, 3, 4, 5, 6, 8]"

definition logout_player :: "unit wop" where
  "logout_player =
     bnd score_player (\<lambda>p. if sp_online p
       then thn (put_player (p\<lparr>sp_online := False\<rparr>)) (emit_event (Logged_out (sp_id p))) else skip)"

definition restrict_submitter :: "sub_env \<Rightarrow> pystr \<Rightarrow> unit wop" where
  "restrict_submitter E reason =
     bnd score_player (\<lambda>p. let priv = drop_mod (sp_priv p) P_UNRESTRICTED in
     thn (put_player (p\<lparr>sp_priv := priv\<rparr>))
    (thn (io E (on_db (\<lambda>d. d\<lparr>t_users := map (\<lambda>u. if du_id u = sp_id p then u\<lparr>du_priv := priv\<rparr> else u) (t_users d)\<rparr>)))
    (thn (io E skip)
    (thn (io E (emit_event (Restriction_logged (sp_id p) reason)))
    (thn (io E skip)
    (thn (foreach LEADERBOARD_MODES (\<lambda>_. thn (io E skip) (io E skip)))
         logout_player))))))"

definition restrict_player_for_missing_replay :: "sub_env \<Rightarrow> unit wop" where
  "restrict_player_for_missing_replay E =
     bnd score_player (\<lambda>p.
       if \<not> sp_restricted p
       then thn (restrict_submitter E (py ''submitted score with no replay'')) logout_player
       else skip)"

section \<open>Submitting a score\<close>

datatype sub_error = Beatmap_not_found | Player_not_found | Duplicate_submission

datatype sub_result =
    Sub_error sub_error
  | Submitted score int mode_stats mode_stats "int list"

definition score_submission_is_duplicate :: "sub_env \<Rightarrow> bool wop" where
  "score_submission_is_duplicate E =
     bnd (gets w_score) (\<lambda>sc.
       io E (gets (\<lambda>w. fetch_one_by_online_checksum (w_db w) (sc_checksum sc) \<noteq> None)))"

definition record_integrity :: "sub_env \<Rightarrow> sub_request \<Rightarrow> pystr \<Rightarrow> unit wop" where
  "record_integrity E rq md5 =
     bnd score_player (\<lambda>p. bnd (gets w_score) (\<lambda>sc.
       case validate_submission_integrity (se_md5 E) (sp_client p) sc (sp_name p) rq md5 of
         Inr _ \<Rightarrow> skip
       | Inl e \<Rightarrow> if integrity_error e then io E (emit_event Integrity_failure) else raise e))"

text \<open>
  What happens under the lock, up to the staged replay: \<open>None\<close> when the score is a duplicate.
\<close>

definition prepare_submission :: "sub_env \<Rightarrow> sub_request \<Rightarrow> pystr option option wop" where
  "prepare_submission E rq =
     bnd (score_submission_is_duplicate E) (\<lambda>dup.
     if dup then retn None
     else thn (calculate_score_submission_status E (rq_score_time rq) (rq_fail_time rq))
         (bnd (read_submitted_replay_file E rq) (\<lambda>replay.
          bnd (case replay of
                 None \<Rightarrow> retn None
               | Some d \<Rightarrow> if replay_data_is_valid d then retn (Some d)
                           else thn (restrict_player_for_missing_replay E) (retn None)) (\<lambda>replay'.
          thn (emit_event (Metric (py ''bancho.submitted_scores'')))
         (bnd (gets w_score) (\<lambda>sc.
          thn (if sc_status sc = SS_BEST then emit_event (Metric (py ''bancho.submitted_scores_best'')) else skip)
         (bnd (stage_replay_file E replay' (sc_checksum sc)) (\<lambda>pending. retn (Some pending)))))))))"

text \<open>
  \<^verbatim>\<open>except DuplicateScoreError\<close> and \<^verbatim>\<open>except Exception\<close>: a cancellation is no \<^verbatim>\<open>Exception\<close>.
\<close>

definition is_exception :: "exn \<Rightarrow> bool" where
  "is_exception e \<longleftrightarrow> e \<noteq> CancelledError \<and> e \<noteq> Crash"

definition persist_or_discard :: "sub_env \<Rightarrow> pystr option \<Rightarrow> persist_result option wop" where
  "persist_or_discard E pending =
     (\<lambda>w. case persist_score_submission E w of
            (Inr r, w') \<Rightarrow> (Inr (Some r), w')
          | (Inl e, w') \<Rightarrow>
              if e = DuplicateScoreError then thn (discard_staged_replay E pending) (retn None) w'
              else if is_exception e then thn (discard_staged_replay E pending) (raise e) w'
              else (Inl e, w'))"

definition update_rank :: "sub_env \<Rightarrow> int wop" where
  "update_rank E =
     bnd score_player (\<lambda>p.
       thn (if \<not> sp_restricted p then thn (io E skip) (io E skip) else skip) (io E (retn (se_rank E))))"

definition finish_submission :: "sub_env \<Rightarrow> pystr option \<Rightarrow> persist_result \<Rightarrow> sub_result wop" where
  "finish_submission E pending r =
     thn (commit_replay_file E pending)
    (bnd (gets w_score) (\<lambda>sc.
     thn (if pending \<noteq> None then emit_event (Replay_analysis (ps_score_id r) (sc_mode sc)) else skip)
    (bnd (if pr_update_rank (ps_stats r)
          then bnd (update_rank E) (\<lambda>k. let st = (pr_current (ps_stats r))\<lparr>md_rank := k\<rparr>
                                         in thn (put_stats st) (retn st))
          else retn (pr_current (ps_stats r))) (\<lambda>current.
     thn (if pr_public (ps_stats r) then emit_event (Publish_stats (sc_player sc)) else skip)
    (thn (bnd score_player (\<lambda>p. put_player (p\<lparr>sp_recent := (sp_recent p)(sc_mode sc := Some (Some sc))\<rparr>)))
    (thn (if sc_status sc = SS_BEST
          then thn notify_score_submitter_of_personal_best
              (thn (announce_first_place E (ps_first_place r))
                   (emit_event (Discord_first_place (ps_first_place r))))
          else skip)
    (thn (emit_event (Activity_published (ps_score_id r)))
         (retn (Submitted sc (ps_score_id r) (pr_previous (ps_stats r)) current (ps_achievements r))))))))))"

text \<open>The part under the lock and what follows it, then the request from the start.\<close>

definition store_submission :: "sub_env \<Rightarrow> pystr option \<Rightarrow> sub_result wop" where
  "store_submission E pending =
     bnd (persist_or_discard E pending) (\<lambda>result.
     case result of
       None \<Rightarrow> retn (Sub_error Duplicate_submission)
     | Some r \<Rightarrow> finish_submission E pending r)"

definition submit_as_player :: "sub_env \<Rightarrow> sub_request \<Rightarrow> pystr \<Rightarrow> int \<Rightarrow> sub_result wop" where
  "submit_as_player E rq md5 pid =
     bnd (lift_result (build_score_from_submission_request E rq md5 pid)) (\<lambda>sc.
     thn (set_score (\<lambda>_. sc))
    (thn (record_integrity E rq md5)
    (thn (emit_event (Latest_activity pid))
    (thn update_submitter_status_mode
    (bnd (prepare_submission E rq) (\<lambda>prepared.
     case prepared of
       None \<Rightarrow> retn (Sub_error Duplicate_submission)
     | Some pending \<Rightarrow> store_submission E pending))))))"

definition submit_score :: "sub_env \<Rightarrow> sub_request \<Rightarrow> sub_result wop" where
  "submit_score E rq =
     bnd (lift_result (score_submission_beatmap_md5 rq)) (\<lambda>md5.
     bnd (io E (gets (\<lambda>w. w_bmaps w md5))) (\<lambda>beatmap.
     case beatmap of
       None \<Rightarrow> retn (Sub_error Beatmap_not_found)
     | Some _ \<Rightarrow>
         bnd (lift_result (score_submission_username rq)) (\<lambda>username.
         case se_authenticate E username (rq_password_md5 rq) of
           None \<Rightarrow> retn (Sub_error Player_not_found)
         | Some pid \<Rightarrow> submit_as_player E rq md5 pid)))"

end
