(* ===== verification/Ledger.thy ===== *)
theory Ledger
  imports Submission
begin

text \<open>
  What a submission does to the tables and to the statistics in memory, whatever fails on the
  way: a failed one leaves no trace, a stored one keeps the scores table in order and the
  statistics equal to the sums over it.
\<close>

section \<open>The steps of a submission\<close>

lemma io_Inr_iff [inv_simps]:
  "io E m w = (Inr x, w') \<longleftrightarrow> se_fault E (w_tick w) = None \<and> m (w\<lparr>w_tick := Suc (w_tick w)\<rparr>) = (Inr x, w')"
  by (auto simp: io_def Let_def split: option.splits)

lemmas prim_ops = score_bmap_def score_player_def put_bmap_def put_player_def set_score_def on_db_def
  emit_event_def

lemma keeps_io: "keeps P m \<Longrightarrow> (\<And>w n. P (w\<lparr>w_tick := n\<rparr>) = P w) \<Longrightarrow> keeps P (io E m)"
  by (auto simp: keeps_def io_def Let_def split: option.splits)

section \<open>A failed submission\<close>

text \<open>
  All that the statements inside the transaction write in memory: the id of the score, the
  statistics of the player in the mode of the score and the counters of the map.
\<close>

definition same_map :: "bmap \<Rightarrow> bmap \<Rightarrow> bool" where
  "same_map b0 b \<longleftrightarrow> b\<lparr>bm_plays := bm_plays b0, bm_passes := bm_passes b0\<rparr> = b0"

definition same_player :: "int \<Rightarrow> sub_player \<Rightarrow> sub_player \<Rightarrow> bool" where
  "same_player mode p0 p \<longleftrightarrow>
     p\<lparr>sp_stats := sp_stats p0\<rparr> = p0 \<and> (\<exists>st. sp_stats p = (sp_stats p0)(mode := Some st))"

definition frame :: "sworld \<Rightarrow> sub_player \<Rightarrow> bmap \<Rightarrow> sworld \<Rightarrow> bool" where
  "frame w0 p0 b0 w \<longleftrightarrow>
     w_files w = w_files w0 \<and> w_events w = w_events w0 \<and>
     (\<exists>i. w_score w = (w_score w0)\<lparr>sc_id := i\<rparr>) \<and>
     (\<exists>p. w_players w = (w_players w0)(sc_player (w_score w0) := Some p) \<and>
          same_player (sc_mode (w_score w0)) p0 p) \<and>
     (\<exists>b. w_bmaps w = (w_bmaps w0)(sc_map (w_score w0) := Some b) \<and> same_map b0 b)"

lemma frame_tick: "frame w0 p0 b0 (w\<lparr>w_tick := n\<rparr>) = frame w0 p0 b0 w"
  by (simp add: frame_def)

lemma frame_db: "frame w0 p0 b0 (w\<lparr>w_db := d\<rparr>) = frame w0 p0 b0 w"
  by (simp add: frame_def)

lemma keeps_frame_io [keeps_intros]: "keeps (frame w0 p0 b0) m \<Longrightarrow> keeps (frame w0 p0 b0) (io E m)"
  by (rule keeps_io) (simp_all add: frame_tick)

lemma keeps_frame_db [keeps_intros]: "keeps (frame w0 p0 b0) (on_db f)"
  unfolding on_db_def by (rule keeps_modify) (simp add: frame_db)

lemma keeps_frame_id [keeps_intros]: "keeps (frame w0 p0 b0) (set_score (\<lambda>s. s\<lparr>sc_id := i\<rparr>))"
  unfolding set_score_def by (rule keeps_modify) (auto simp: frame_def)

lemma keeps_frame_player [keeps_intros]:
  assumes "\<And>p. same_player (sc_mode (w_score w0)) p0 p \<Longrightarrow> keeps (frame w0 p0 b0) (k p)"
  shows "keeps (frame w0 p0 b0) (bnd score_player k)"
proof (unfold keeps_def, intro allI impI)
  fix w assume f: "frame w0 p0 b0 w"
  then obtain p where p: "w_players w (sc_player (w_score w)) = Some p" "same_player (sc_mode (w_score w0)) p0 p"
    by (auto simp: frame_def)
  from keeps_exec [OF assms [OF p(2)] f] p(1) show "frame w0 p0 b0 (snd (bnd score_player k w))"
    by (simp add: score_player_def exec_def bnd_def gets_def retn_def)
qed

lemma keeps_frame_bmap [keeps_intros]:
  assumes "\<And>b. same_map b0 b \<Longrightarrow> keeps (frame w0 p0 b0) (k b)"
  shows "keeps (frame w0 p0 b0) (bnd score_bmap k)"
proof (unfold keeps_def, intro allI impI)
  fix w assume f: "frame w0 p0 b0 w"
  then obtain b where b: "w_bmaps w (sc_map (w_score w)) = Some b" "same_map b0 b"
    by (auto simp: frame_def)
  from keeps_exec [OF assms [OF b(2)] f] b(1) show "frame w0 p0 b0 (snd (bnd score_bmap k w))"
    by (simp add: score_bmap_def exec_def bnd_def gets_def retn_def)
qed

lemma same_player_stats:
  "same_player mode p0 p \<Longrightarrow> same_player mode p0 (p\<lparr>sp_stats := (sp_stats p)(mode := Some st)\<rparr>)"
  by (auto simp: same_player_def)

lemma keeps_frame_put_stats [keeps_intros]: "keeps (frame w0 p0 b0) (put_stats st)"
  unfolding put_stats_def
proof (intro keeps_frame_player keeps_gets_bnd)
  fix p w assume "same_player (sc_mode (w_score w0)) p0 p" and f: "frame w0 p0 b0 w"
  then show "frame w0 p0 b0 (snd (put_player (p\<lparr>sp_stats := (sp_stats p)(sc_mode (w_score w) \<mapsto> st)\<rparr>) w))"
    using same_player_stats by (auto simp: put_player_def modify_def frame_def)
qed

lemma keeps_frame_player_stats [keeps_intros]: "keeps (frame w0 p0 b0) player_stats"
  unfolding player_stats_def by (intro keeps_intros)

lemma keeps_frame_put_bmap [keeps_intros]: "same_map b0 b \<Longrightarrow> keeps (frame w0 p0 b0) (put_bmap b)"
  unfolding put_bmap_def by (rule keeps_modify) (auto simp: frame_def)

lemma play_stats_bmap: "same_map b0 b \<Longrightarrow> same_map b0 (apply_beatmap_play_stats sc b)"
  by (simp add: apply_beatmap_play_stats_def same_map_def)

lemma keeps_frame_persist_score: "keeps (frame w0 p0 b0) (persist_submitted_score E)"
  unfolding persist_submitted_score_def by (intro keeps_intros)

lemma keeps_frame_persist_stats: "keeps (frame w0 p0 b0) (persist_score_submission_stats E)"
  unfolding persist_score_submission_stats_def Let_def
  by (intro keeps_intros play_stats_bmap | simp only: split_beta | assumption)+

lemma keeps_frame_unlock_each: "keeps (frame w0 p0 b0) (unlock_each E uid sc uas as)"
  by (induction as) (auto intro!: keeps_intros)

lemma keeps_frame_unlock: "keeps (frame w0 p0 b0) (unlock_new_achievements E)"
  unfolding unlock_new_achievements_def by (intro keeps_intros keeps_frame_unlock_each)

definition persist_body :: "sub_env \<Rightarrow> persist_result wop" where
  "persist_body E =
     bnd score_bmap (\<lambda>b. bnd score_player (\<lambda>p. bnd (gets w_score) (\<lambda>sc.
     bnd (if score_should_announce_first_place sc b p
          then io E (gets (\<lambda>w. fetch_first_place (w_db w) (bm_md5 b) (sc_mode sc)
                                 (first_place_scoring_metric sc)))
          else retn None) (\<lambda>first.
     bnd (persist_submitted_score E) (\<lambda>i.
     bnd (persist_score_submission_stats E) (\<lambda>stats.
     bnd (if score_can_unlock_achievements sc b p then unlock_new_achievements E else retn []) (\<lambda>ach.
       retn \<lparr>ps_score_id = i, ps_stats = stats, ps_first_place = first, ps_achievements = ach\<rparr>)))))))"

lemma persist_unfold:
  "persist_score_submission E =
     bnd capture_score_submission_state (\<lambda>sn.
       on_failure (restore_score_submission_state sn) (transaction E (persist_body E)))"
  by (simp add: persist_score_submission_def persist_body_def)

lemma keeps_frame_body: "keeps (frame w0 p0 b0) (persist_body E)"
  unfolding persist_body_def
  by (intro keeps_intros keeps_frame_persist_score keeps_frame_persist_stats keeps_frame_unlock)

lemma keeps_frame_transaction: "keeps (frame w0 p0 b0) (transaction E (persist_body E))"
proof -
  have "keeps (frame w0 p0 b0) (bnd (thn (io E skip) (persist_body E)) (\<lambda>x. thn (io E skip) (retn x)))"
    by (intro keeps_intros keeps_frame_body)
  then show ?thesis
    unfolding keeps_def transaction_def
    by (auto simp: frame_db split: prod.splits sum.splits)
qed

lemma frame_refl:
  assumes "w_players w (sc_player (w_score w)) = Some p" "w_bmaps w (sc_map (w_score w)) = Some b"
    "sp_stats p (sc_mode (w_score w)) = Some st"
  shows "frame w p b w"
proof -
  have "w_score w = (w_score w)\<lparr>sc_id := sc_id (w_score w)\<rparr>" by simp
  moreover have "same_player (sc_mode (w_score w)) p p"
    using fun_upd_idem [of "sp_stats p" _ "Some st", OF assms(3)] by (auto simp: same_player_def intro: sym)
  ultimately show ?thesis
    unfolding frame_def using assms by (metis fun_upd_triv same_map_def bmap.surjective bmap.update_convs(4,5))
qed

text \<open>What the snapshot holds, when there is one.\<close>

lemma capture_outcome:
  "capture_score_submission_state w = (case w_bmaps w (sc_map (w_score w)) of
     None \<Rightarrow> (Inl AssertionError, w)
   | Some b \<Rightarrow> (case w_players w (sc_player (w_score w)) of
       None \<Rightarrow> (Inl AssertionError, w)
     | Some p \<Rightarrow> (case sp_stats p (sc_mode (w_score w)) of
         None \<Rightarrow> (Inl KeyError, w)
       | Some st \<Rightarrow> (Inr \<lparr>sn_score_id = sc_id (w_score w), sn_stats = st, sn_plays = bm_plays b,
           sn_passes = bm_passes b, sn_had_recent = (sp_recent p (sc_mode (w_score w)) \<noteq> None),
           sn_recent = upd_with (sp_recent p (sc_mode (w_score w))) None\<rparr>, w))))"
  by (simp add: capture_score_submission_state_def score_bmap_def score_player_def player_stats_def
      op_defs split: option.splits)

lemma restore_outcome:
  assumes b: "w_bmaps w (sc_map (w_score w)) = Some b"
    and p: "w_players w (sc_player (w_score w)) = Some p"
    and st: "sp_stats p (sc_mode (w_score w)) = Some st"
    and cap: "capture_score_submission_state w = (Inr sn, w)"
    and f: "frame w p b w1" and d: "w_db w1 = w_db w"
  shows "restore_score_submission_state sn w1 =
    (if sp_recent p (sc_mode (w_score w)) = Some None then Inl AssertionError else Inr (),
     w\<lparr>w_tick := w_tick w1\<rparr>)"
proof -
  obtain i p1 b1 where w1: "w_files w1 = w_files w" "w_events w1 = w_events w"
      "w_score w1 = (w_score w)\<lparr>sc_id := i\<rparr>"
      "w_players w1 = (w_players w)(sc_player (w_score w) := Some p1)" "same_player (sc_mode (w_score w)) p p1"
      "w_bmaps w1 = (w_bmaps w)(sc_map (w_score w) := Some b1)" "same_map b b1"
    using f unfolding frame_def by blast
  obtain st1 where st1: "sp_stats p1 = (sp_stats p)(sc_mode (w_score w) := Some st1)"
      and p1: "p1\<lparr>sp_stats := sp_stats p\<rparr> = p"
    using w1(5) unfolding same_player_def by blast
  define q where "q = p1\<lparr>sp_stats := (sp_stats p1)(sc_mode (w_score w) := Some st)\<rparr>"
  have q: "q = p"
    using st p1 by (simp add: q_def st1 fun_upd_idem)
  have sn: "sn = \<lparr>sn_score_id = sc_id (w_score w), sn_stats = st, sn_plays = bm_plays b,
           sn_passes = bm_passes b, sn_had_recent = (sp_recent p (sc_mode (w_score w)) \<noteq> None),
           sn_recent = upd_with (sp_recent p (sc_mode (w_score w))) None\<rparr>"
    using cap b p st by (simp add: capture_outcome)
  have m: "b1\<lparr>bm_plays := bm_plays b, bm_passes := bm_passes b\<rparr> = b" using w1(7) by (simp add: same_map_def)
  have r: "p\<lparr>sp_recent := (sp_recent p)(k := sp_recent p k)\<rparr> = p" for k by simp
  have world: "w1\<lparr>w_score := w_score w, w_players := w_players w, w_bmaps := w_bmaps w\<rparr> = w\<lparr>w_tick := w_tick w1\<rparr>"
    using w1(1,2) d by simp
  show ?thesis
    using b p st r [of "sc_mode (w_score w)"]
    by (cases "sp_recent p (sc_mode (w_score w))")
       (simp_all add: restore_score_submission_state_def score_bmap_def score_player_def put_stats_def
         put_bmap_def put_player_def set_score_def op_defs sn w1 m q [unfolded q_def] upd_with_def
         fun_upd_idem world)
qed

lemma transaction_failure:
  "transaction E m w = (Inl e, w') \<Longrightarrow> w_db w' = w_db w"
  by (auto simp: transaction_def split: prod.splits sum.splits)

lemma persist_failure:
  assumes run: "persist_score_submission E w = (Inl e, w')"
  shows "w_db w' = w_db w \<and> (e \<noteq> Crash \<longrightarrow> w' = w\<lparr>w_tick := w_tick w'\<rparr>)"
proof (cases "\<exists>sn. capture_score_submission_state w = (Inr sn, w)")
  case False
  then show ?thesis
    using run by (auto simp: persist_unfold bnd_def capture_outcome split: option.splits prod.splits)
next
  case True
  then obtain sn where cap: "capture_score_submission_state w = (Inr sn, w)" ..
  then obtain b p st where st: "w_bmaps w (sc_map (w_score w)) = Some b"
      "w_players w (sc_player (w_score w)) = Some p" "sp_stats p (sc_mode (w_score w)) = Some st"
    by (auto simp: capture_outcome split: option.splits)
  obtain e1 w1 where t: "transaction E (persist_body E) w = (Inl e1, w1)"
    using run by (auto simp: persist_unfold bnd_def cap on_failure_def split: prod.splits sum.splits if_splits)
  have f: "frame w p b w1"
    by (rule keepsD [OF keeps_frame_transaction frame_refl [OF st(2,1,3)] t])
  note d = transaction_failure [OF t]
  show ?thesis
    using run restore_outcome [OF st cap f d] d
    by (auto simp: persist_unfold bnd_def cap on_failure_def t raise_def split: if_splits)
qed

lemma persist_failure_masked:
  assumes run: "persist_score_submission E w = (Inl e, w')" and dead: "e \<noteq> Crash"
    and p: "w_players w (sc_player (w_score w)) = Some p" "sp_recent p (sc_mode (w_score w)) = Some None"
    and st: "w_bmaps w (sc_map (w_score w)) = Some b" "sp_stats p (sc_mode (w_score w)) = Some st"
  shows "e = AssertionError"
proof -
  obtain sn where cap: "capture_score_submission_state w = (Inr sn, w)"
    using p st by (simp add: capture_outcome)
  obtain e1 w1 where t: "transaction E (persist_body E) w = (Inl e1, w1)"
    using run by (auto simp: persist_unfold bnd_def cap on_failure_def split: prod.splits sum.splits if_splits)
  have f: "frame w p b w1"
    by (rule keepsD [OF keeps_frame_transaction frame_refl [OF p(1) st] t])
  show ?thesis
    using run dead restore_outcome [OF st(1) p(1) st(2) cap f transaction_failure [OF t]] p(2)
    by (auto simp: persist_unfold bnd_def cap on_failure_def t split: if_splits)
qed

section \<open>A stored submission\<close>

lemma find_id: "find (\<lambda>r. sr_id r = i) xs = Some r \<Longrightarrow> sr_id r = i"
  by (simp add: find_Some_iff) blast

lemma persist_submitted_score_success:
  assumes run: "persist_submitted_score E w = (Inr i, w')"
    and b: "w_bmaps w (sc_map (w_score w)) = Some b" and p: "w_players w (sc_player (w_score w)) = Some p"
  shows "w_db w' = create_score (score_to_row E (w_score w) b p)
           (if sc_status (w_score w) = SS_BEST
            then mark_previous_best (bm_md5 b) (sp_id p) (sc_mode (w_score w)) (w_db w) else w_db w) \<and>
         i = t_next_score (w_db w) \<and> w_score w' = (w_score w)\<lparr>sc_id := Some i\<rparr> \<and>
         w_players w' = w_players w \<and> w_bmaps w' = w_bmaps w \<and> w_files w' = w_files w"
  using run b p
  by (auto simp: persist_submitted_score_def inv_simps prim_ops fetch_score_def dest!: find_id
      split: if_splits) (simp_all add: mark_previous_best_def create_score_def)

lemmas play_defs = map_update_plays_def apply_beatmap_play_stats_def stats_partial_update_def Let_def

lemma persist_stats_success:
  assumes run: "persist_score_submission_stats E w = (Inr r, w')"
    and b: "w_bmaps w (sc_map (w_score w)) = Some b" and p: "w_players w (sc_player (w_score w)) = Some p"
  obtains st0 st1 u1 st2 u2 best where
    "sp_stats p (sc_mode (w_score w)) = Some st0"
    "apply_score_stats (w_score w) b st0 = Inr (st1, u1)"
    "(st2, u2) = (st1, u1) \<or> apply_weighted_performance_stats (se_pow E) best st1 u1 = Inr (st2, u2)"
    "t_scores (w_db w') = t_scores (w_db w)" "t_next_score (w_db w') = t_next_score (w_db w)"
    "t_stats (w_db w') = t_stats (stats_partial_update E (sp_id p) (sc_mode (w_score w)) u2 (w_db w))"
    "w_players w' = (w_players w)(sc_player (w_score w) :=
       Some (p\<lparr>sp_stats := (sp_stats p)(sc_mode (w_score w) := Some st2)\<rparr>))"
    "w_score w' = w_score w" "w_files w' = w_files w"
    "\<And>k. map_option (\<lambda>x. (bm_md5 x, bm_status x)) (w_bmaps w' k) = map_option (\<lambda>x. (bm_md5 x, bm_status x)) (w_bmaps w k)"
    "pr_current r = st2"
proof -
  obtain st0 st1 u1 where st0: "sp_stats p (sc_mode (w_score w)) = Some st0"
    and a: "apply_score_stats (w_score w) b st0 = Inr (st1, u1)"
    using run b p
    by (auto simp: persist_score_submission_stats_def inv_simps prim_ops player_stats_def split: prod.splits)
  show ?thesis
  proof (cases "sc_passed (w_score w) \<and> has_leaderboard b \<and> awards_ranked_pp b \<and> sc_status (w_score w) = SS_BEST")
    case True
    then show ?thesis
      using run b p st0 a
      apply (auto simp: persist_score_submission_stats_def inv_simps prim_ops player_stats_def put_stats_def
        Let_def split: if_splits)
      subgoal for st2 u2
        by (rule that [OF st0 a, where ?st2.0 = st2 and ?u2.0 = u2 and
              best = "fetch_weighted_best (w_db w) (sp_id p) (sc_mode (w_score w))"]) (simp_all add: play_defs)
      subgoal for st2 u2
        by (rule that [OF st0 a, where ?st2.0 = st2 and ?u2.0 = u2 and
              best = "fetch_weighted_best (w_db w) (sp_id p) (sc_mode (w_score w))"]) (simp_all add: play_defs)
      done
  next
    case False
    then have c: "(sc_passed (w_score w) \<and> has_leaderboard b \<and> awards_ranked_pp b \<and> sc_status (w_score w) = SS_BEST) = False"
      by simp
    show ?thesis
      using run b p st0 a
      apply (simp add: persist_score_submission_stats_def c inv_simps prim_ops player_stats_def put_stats_def
        Let_def)
      apply (cases "sp_restricted p")
       apply (rule that [OF st0 a, where ?st2.0 = st1 and ?u2.0 = u1]; auto simp: inv_simps prim_ops play_defs)
      apply (rule that [OF st0 a, where ?st2.0 = st1 and ?u2.0 = u1]; auto simp: inv_simps prim_ops play_defs)
      done
  qed
qed

text \<open>The statistics and the columns written to the database change alike.\<close>

definition tracks :: "mode_stats \<Rightarrow> mode_stats \<times> stats_updates \<Rightarrow> bool" where
  "tracks st0 su \<longleftrightarrow> rscore (fst su) = upd_with (up_rscore (snd su)) (rscore st0) \<and>
     (\<forall>g. md_grades (fst su) g = upd_with (up_grades (snd su) g) (md_grades st0 g))"

lemma upd_with_simps [simp]: "upd_with None x = x" "upd_with (Some y) x = y"
  by (simp_all add: upd_with_def)

lemma tracks_grade_deltas:
  "apply_grade_deltas ds st u = Inr (st', u') \<Longrightarrow> up_rscore u = None \<Longrightarrow> tracks st0 (st, u) \<Longrightarrow>
   tracks st0 (st', u') \<and> up_rscore u' = None \<and> rscore st' = rscore st"
proof (induction ds st u rule: apply_grade_deltas.induct)
  case (2 g d ds st u)
  then show ?case
    by (auto simp: tracks_def Let_def bindE_Inr_iff set_grade_count_update_def split: if_splits)
qed simp

lemma grade_deltas_value:
  "apply_grade_deltas ds st u = Inr (st', u') \<Longrightarrow>
   md_grades st' g = md_grades st g + sum_list (map snd (filter (\<lambda>x. fst x = g) ds))"
proof (induction ds st u rule: apply_grade_deltas.induct)
  case (2 h d ds st u)
  then show ?case
    by (auto simp: Let_def bindE_Inr_iff split: if_splits)
qed simp

lemma apply_score_stats_effect:
  assumes "apply_score_stats sc b st0 = Inr (st1, u1)"
  defines "ranked \<equiv> sc_passed sc \<and> awards_ranked_pp b \<and> sc_status sc = SS_BEST"
  shows "tracks st0 (st1, u1) \<and>
    rscore st1 = rscore st0 + (if ranked then ranked_score_delta sc else 0) \<and>
    md_grades st1 g = md_grades st0 g +
      (if ranked then sum_list (map snd (filter (\<lambda>x. fst x = g) (grade_count_deltas sc))) else 0)"
proof -
  obtain s u where su: "apply_score_base_stats sc st0 = (s, u)" by fastforce
  then have s: "rscore s = rscore st0" "md_grades s = md_grades st0" "up_rscore u = None" "up_grades u = (\<lambda>_. None)"
    by (auto simp: apply_score_base_stats_def Let_def)
  obtain s2 u2 where su2: "(if sc_max_combo sc > md_max_combo s
      then (s\<lparr>md_max_combo := sc_max_combo sc\<rparr>, u\<lparr>up_max_combo := Some (sc_max_combo sc)\<rparr>)
      else (s, u)) = (s2, u2)" by fastforce
  then have s2: "rscore s2 = rscore st0" "md_grades s2 = md_grades st0" "up_rscore u2 = None"
      "up_grades u2 = (\<lambda>_. None)"
    using s by (auto split: if_splits)
  have t: "tracks st0 (s, u)" "tracks st0 (s2, u2)"
    using s s2 by (simp_all add: tracks_def)
  have hl: "awards_ranked_pp b \<Longrightarrow> has_leaderboard b"
    by (auto simp: awards_ranked_pp_def has_leaderboard_def)
  consider "\<not> sc_passed sc \<or> \<not> has_leaderboard b" "st1 = s" "u1 = u"
    | "sc_passed sc" "has_leaderboard b" "\<not> (awards_ranked_pp b \<and> sc_status sc = SS_BEST)" "st1 = s2" "u1 = u2"
    | "sc_passed sc" "awards_ranked_pp b" "sc_status sc = SS_BEST" "apply_ranked_score_stats sc s2 u2 = Inr (st1, u1)"
    using assms(1) su su2
    by (fastforce simp: apply_score_stats_def Let_def split: if_splits)
  then show ?thesis
  proof cases
    case 1
    then show ?thesis using t s hl by (auto simp: ranked_def)
  next
    case 2
    then show ?thesis using t s2 by (auto simp: ranked_def)
  next
    case 3
    then obtain s3 u3 where g: "apply_grade_deltas (grade_count_deltas sc) s2 u2 = Inr (s3, u3)"
      and e: "st1 = s3\<lparr>rscore := rscore s3 + ranked_score_delta sc\<rparr>" "u1 = u3\<lparr>up_rscore := Some (rscore st1)\<rparr>"
      by (auto simp: apply_ranked_score_stats_def bindE_Inr_iff Let_def)
    show ?thesis
      using tracks_grade_deltas [OF g s2(3) t(2)] grade_deltas_value [OF g, of g] s2 3 e
      by (auto simp: ranked_def tracks_def)
  qed
qed

lemma weighted_tracks:
  assumes "apply_weighted_performance_stats pow best st u = Inr (st', u')"
  shows "tracks st0 (st', u') = tracks st0 (st, u) \<and> rscore st' = rscore st \<and> md_grades st' = md_grades st"
  using assms by (auto simp: apply_weighted_performance_stats_def bindE_Inr_iff Let_def tracks_def)

section \<open>The tables in order\<close>

text \<open>
  The order of the scores table: ids are distinct and below the next one, grades are the names
  of grades, no two scores have the same checksum, and a player has at most one best score on a map and mode.
\<close>

definition scores_ok :: "sdb \<Rightarrow> bool" where
  "scores_ok d \<longleftrightarrow> distinct (map sr_id (t_scores d)) \<and> (\<forall>r \<in> set (t_scores d). sr_id r < t_next_score d) \<and>
     (\<forall>r \<in> set (t_scores d). \<exists>g. sr_grade r = grade_name g) \<and>
     distinct (map sr_checksum (t_scores d)) \<and>
     (\<forall>uid md5 mode. length (fetch_best_scores d uid md5 mode) \<le> 1)"

text \<open>
  The best scores of a player and mode on maps that award ranked \<^verbatim>\<open>pp\<close> (\<open>rk\<close>), and the
  statistics of the database as sums over them.
\<close>

definition ranked_best :: "(pystr \<Rightarrow> bool) \<Rightarrow> sdb \<Rightarrow> int \<Rightarrow> int \<Rightarrow> score_row list" where
  "ranked_best rk d uid mode =
     filter (\<lambda>r. sr_userid r = uid \<and> sr_mode r = mode \<and> sr_status r = status_value SS_BEST \<and> rk (sr_map_md5 r))
       (t_scores d)"

definition stats_match :: "mode_stats \<Rightarrow> score_row list \<Rightarrow> bool" where
  "stats_match st rs \<longleftrightarrow> rscore st = sum_list (map sr_score rs) \<and>
     (\<forall>g \<ge> G_A. md_grades st g = int (length (filter (\<lambda>r. sr_grade r = grade_name g) rs)))"

definition ledger_ok :: "(pystr \<Rightarrow> bool) \<Rightarrow> sdb \<Rightarrow> bool" where
  "ledger_ok rk d \<longleftrightarrow>
     (\<forall>uid mode row. t_stats d (uid, mode) = Some row \<longrightarrow> stats_match row (ranked_best rk d uid mode))"

definition same_totals :: "mode_stats \<Rightarrow> mode_stats \<Rightarrow> bool" where
  "same_totals a b \<longleftrightarrow> rscore a = rscore b \<and> (\<forall>g \<ge> G_A. md_grades a g = md_grades b g)"

text \<open>The objects in memory have their own keys, and the statistics in memory are those of the database.\<close>

definition memory_ok :: "(pystr \<Rightarrow> bool) \<Rightarrow> sworld \<Rightarrow> bool" where
  "memory_ok rk w \<longleftrightarrow>
     (\<forall>k b. w_bmaps w k = Some b \<longrightarrow> bm_md5 b = k \<and> awards_ranked_pp b = rk k) \<and>
     (\<forall>k p. w_players w k = Some p \<longrightarrow> sp_id p = k \<and>
        (\<forall>mode st row. sp_stats p mode = Some st \<longrightarrow> t_stats (w_db w) (k, mode) = Some row \<longrightarrow> same_totals st row))"

text \<open>What the rating of a score establishes before it is stored.\<close>

definition prev_matches :: "base_score option \<Rightarrow> score_row list \<Rightarrow> bool" where
  "prev_matches pb rs \<longleftrightarrow>
     (case rs of [] \<Rightarrow> pb = None
      | r # _ \<Rightarrow> (\<exists>q. pb = Some q \<and> sc_score q = sr_score r \<and> grade_name (sc_grade q) = sr_grade r))"

definition rated :: "sworld \<Rightarrow> bool" where
  "rated w \<longleftrightarrow> (\<forall>r \<in> set (t_scores (w_db w)). sr_checksum r \<noteq> sc_checksum (w_score w)) \<and>
     (sc_status (w_score w) = SS_BEST \<longrightarrow> sc_passed (w_score w) \<and>
        prev_matches (sc_prev_best (w_score w))
          (fetch_best_scores (w_db w) (sc_player (w_score w)) (sc_map (w_score w)) (sc_mode (w_score w))))"

lemma grade_name_inject [simp]: "grade_name g = grade_name h \<longleftrightarrow> g = h"
  by (cases g; cases h) (simp_all add: py_def)

lemma grade_delta_sum:
  "G_A \<le> g \<Longrightarrow> sum_list (map snd (filter (\<lambda>x. fst x = g) (grade_count_deltas sc))) =
     of_bool (sc_grade sc = g) - (case sc_prev_best sc of None \<Rightarrow> 0 | Some pb \<Rightarrow> of_bool (sc_grade pb = g))"
  by (auto simp: grade_count_deltas_def split: option.splits)

lemma filter_mark:
  "filter P (map (\<lambda>r. if Q r then f r else r) xs) = filter (\<lambda>r. P r \<and> \<not> Q r) xs"
  if "\<And>r. Q r \<Longrightarrow> \<not> P (f r)"
  using that by (induction xs) auto

lemma filter_mark_same:
  "filter P (map (\<lambda>r. if Q r then f r else r) xs) = filter P xs"
  if "\<And>r. P r \<Longrightarrow> \<not> Q r" "\<And>r. Q r \<Longrightarrow> \<not> P (f r)"
  using that by (induction xs) auto

lemma mark_scores:
  "t_scores (mark_previous_best md5 uid mode d) =
     map (\<lambda>r. if sr_status r = status_value SS_BEST \<and> sr_map_md5 r = md5 \<and> sr_userid r = uid \<and> sr_mode r = mode
              then r\<lparr>sr_status := status_value SS_SUBMITTED\<rparr> else r) (t_scores d)"
  by (simp add: mark_previous_best_def)

lemma mark_ranked_same:
  assumes "(uid', mode') \<noteq> (uid, mode) \<or> \<not> rk md5"
  shows "ranked_best rk (mark_previous_best md5 uid mode d) uid' mode' = ranked_best rk d uid' mode'"
  unfolding ranked_best_def mark_scores using assms by (intro filter_mark_same) auto

lemma mark_ranked:
  "ranked_best rk (mark_previous_best md5 uid mode d) uid mode =
     filter (\<lambda>r. sr_map_md5 r \<noteq> md5) (ranked_best rk d uid mode)"
proof -
  have "ranked_best rk (mark_previous_best md5 uid mode d) uid mode =
      filter (\<lambda>r. (sr_userid r = uid \<and> sr_mode r = mode \<and> sr_status r = status_value SS_BEST \<and> rk (sr_map_md5 r)) \<and>
        \<not> (sr_status r = status_value SS_BEST \<and> sr_map_md5 r = md5 \<and> sr_userid r = uid \<and> sr_mode r = mode)) (t_scores d)"
    unfolding ranked_best_def mark_scores by (rule filter_mark) simp
  also have "\<dots> = filter (\<lambda>r. sr_map_md5 r \<noteq> md5) (ranked_best rk d uid mode)"
    unfolding ranked_best_def filter_filter by (rule filter_cong) auto
  finally show ?thesis .
qed

text \<open>Taking the rows of one map out of the best scores takes away exactly the previous best.\<close>

lemma ranked_split:
  assumes "rk md5"
  shows "filter (\<lambda>r. sr_map_md5 r = md5) (ranked_best rk d uid mode) = fetch_best_scores d uid md5 mode"
  unfolding ranked_best_def fetch_best_scores_def filter_filter using assms by (intro filter_cong) auto

lemma sum_list_split:
  fixes f :: "'a \<Rightarrow> int"
  shows "sum_list (map f xs) = sum_list (map f (filter P xs)) + sum_list (map f (filter (\<lambda>x. \<not> P x) xs))"
  by (induction xs) auto

lemma length_filter_split:
  "length (filter Q xs) = length (filter Q (filter P xs)) + length (filter Q (filter (\<lambda>x. \<not> P x) xs))"
  by (induction xs) auto

lemma create_ranked:
  "ranked_best rk (create_score row d) uid mode = ranked_best rk d uid mode @
     (if sr_userid row = uid \<and> sr_mode row = mode \<and> sr_status row = status_value SS_BEST \<and> rk (sr_map_md5 row)
      then [row\<lparr>sr_id := t_next_score d\<rparr>] else [])"
  by (simp add: ranked_best_def create_score_def)

lemma ledger_step:
  assumes match: "stats_match st (ranked_best rk d uid mode)"
    and one: "length (fetch_best_scores d uid md5 mode) \<le> 1"
    and pb: "sc_status sc = SS_BEST \<Longrightarrow> prev_matches (sc_prev_best sc) (fetch_best_scores d uid md5 mode)"
    and row: "sr_userid row = uid" "sr_mode row = mode" "sr_map_md5 row = md5"
      "sr_status row = status_value (sc_status sc)" "sr_score row = sc_score sc" "sr_grade row = grade_name (sc_grade sc)"
    and sum: "rscore st' = rscore st + (if sc_status sc = SS_BEST \<and> rk md5 then ranked_score_delta sc else 0)"
    and grades: "\<And>g. md_grades st' g = md_grades st g + (if sc_status sc = SS_BEST \<and> rk md5
      then sum_list (map snd (filter (\<lambda>x. fst x = g) (grade_count_deltas sc))) else 0)"
  shows "stats_match st' (ranked_best rk
    (create_score row (if sc_status sc = SS_BEST then mark_previous_best md5 uid mode d else d)) uid mode)"
proof (cases "sc_status sc = SS_BEST \<and> rk md5")
  case False
  then have "ranked_best rk (create_score row (if sc_status sc = SS_BEST then mark_previous_best md5 uid mode d else d))
      uid mode = ranked_best rk d uid mode"
    by (cases "sc_status sc") (auto simp: create_ranked row mark_ranked_same)
  then show ?thesis using match sum grades False by (auto simp: stats_match_def)
next
  case True
  define rb where "rb = ranked_best rk d uid mode"
  define best where "best = fetch_best_scores d uid md5 mode"
  have b: "filter (\<lambda>r. sr_map_md5 r = md5) rb = best"
    using True ranked_split unfolding rb_def best_def by blast
  have one': "best = [] \<or> (\<exists>r. best = [r])"
    using one unfolding best_def by (cases "fetch_best_scores d uid md5 mode") auto
  have new: "ranked_best rk (create_score row (if sc_status sc = SS_BEST then mark_previous_best md5 uid mode d else d))
      uid mode = filter (\<lambda>r. sr_map_md5 r \<noteq> md5) rb @ [row\<lparr>sr_id := t_next_score (mark_previous_best md5 uid mode d)\<rparr>]"
    using True by (simp add: create_ranked row mark_ranked rb_def)
  have s: "sum_list (map sr_score rb) = sum_list (map sr_score best) +
      sum_list (map sr_score (filter (\<lambda>r. sr_map_md5 r \<noteq> md5) rb))"
    using sum_list_split [of sr_score rb "\<lambda>r. sr_map_md5 r = md5"] by (simp add: b)
  have c: "length (filter (\<lambda>r. sr_grade r = x) rb) = length (filter (\<lambda>r. sr_grade r = x) best) +
      length (filter (\<lambda>r. sr_grade r = x) (filter (\<lambda>r. sr_map_md5 r \<noteq> md5) rb))" for x
    using length_filter_split [of "\<lambda>r. sr_grade r = x" rb "\<lambda>r. sr_map_md5 r = md5"] by (simp only: b)
  have "prev_matches (sc_prev_best sc) best" using pb True best_def by simp
  then show ?thesis
    unfolding new stats_match_def using match sum grades True one' s c
    by (auto simp: stats_match_def rb_def [symmetric] row grade_delta_sum ranked_score_delta_def prev_matches_def
      simp del: filter_filter)
qed

lemma ledger_other:
  assumes "(u, m) \<noteq> (uid, mode)" "sr_userid row = uid" "sr_mode row = mode"
  shows "ranked_best rk (create_score row (if b then mark_previous_best md5 uid mode d else d)) u m =
    ranked_best rk d u m"
  using assms by (auto simp: create_ranked mark_ranked_same)

lemma mark_best:
  "fetch_best_scores (mark_previous_best md5 uid mode d) u m k =
     (if (u, m, k) = (uid, md5, mode) then [] else fetch_best_scores d u m k)"
proof (cases "(u, m, k) = (uid, md5, mode)")
  case True
  have "fetch_best_scores (mark_previous_best md5 uid mode d) uid md5 mode =
      filter (\<lambda>r. (sr_map_md5 r = md5 \<and> sr_status r = status_value SS_BEST \<and> sr_mode r = mode \<and> sr_userid r = uid) \<and>
        \<not> (sr_status r = status_value SS_BEST \<and> sr_map_md5 r = md5 \<and> sr_userid r = uid \<and> sr_mode r = mode)) (t_scores d)"
    unfolding fetch_best_scores_def mark_scores by (rule filter_mark) simp
  also have "\<dots> = []" by (simp add: filter_empty_conv)
  finally show ?thesis using True by simp
next
  case False
  then have "fetch_best_scores (mark_previous_best md5 uid mode d) u m k = fetch_best_scores d u m k"
    unfolding fetch_best_scores_def mark_scores by (intro filter_mark_same) auto
  then show ?thesis using False by auto
qed

lemma create_best:
  "fetch_best_scores (create_score row d) u m k = fetch_best_scores d u m k @
     (if sr_userid row = u \<and> sr_map_md5 row = m \<and> sr_mode row = k \<and> sr_status row = status_value SS_BEST
      then [row\<lparr>sr_id := t_next_score d\<rparr>] else [])"
  by (auto simp: fetch_best_scores_def create_score_def)

lemma map_mark:
  "(\<And>r. f (r\<lparr>sr_status := status_value SS_SUBMITTED\<rparr>) = f r) \<Longrightarrow>
   map f (t_scores (mark_previous_best md5 uid mode d)) = map f (t_scores d)"
  by (auto simp: mark_scores)

lemma scores_ok_step:
  assumes ok: "scores_ok d" and fresh: "\<forall>r \<in> set (t_scores d). sr_checksum r \<noteq> sr_checksum row"
    and row: "sr_userid row = uid" "sr_mode row = mode" "sr_map_md5 row = md5"
      "sr_status row = status_value st" "sr_grade row = grade_name g"
  shows "scores_ok (create_score row (if st = SS_BEST then mark_previous_best md5 uid mode d else d))"
proof -
  define d1 where "d1 = (if st = SS_BEST then mark_previous_best md5 uid mode d else d)"
  have n: "t_next_score d1 = t_next_score d" by (simp add: d1_def mark_previous_best_def)
  have m: "map f (t_scores d1) = map f (t_scores d)"
    if "\<And>r. f (r\<lparr>sr_status := status_value SS_SUBMITTED\<rparr>) = f r" for f :: "score_row \<Rightarrow> 'b"
    using map_mark [where f = f, OF that] by (simp add: d1_def)
  have ids: "map sr_id (t_scores d1) = map sr_id (t_scores d)"
    and cs: "map sr_checksum (t_scores d1) = map sr_checksum (t_scores d)"
    and gs: "map sr_grade (t_scores d1) = map sr_grade (t_scores d)" by (rule m, simp)+
  have si: "sr_id ` set (t_scores d1) = sr_id ` set (t_scores d)"
    and sc: "sr_checksum ` set (t_scores d1) = sr_checksum ` set (t_scores d)"
    using ids cs by (metis set_map)+
  have lt: "\<forall>i \<in> sr_id ` set (t_scores d). i < t_next_score d" using ok by (auto simp: scores_ok_def)
  have one: "length (fetch_best_scores (create_score row d1) u x k) \<le> 1" for u x k
    using ok row by (cases st) (auto simp: create_best d1_def mark_best scores_ok_def)
  show ?thesis
    unfolding d1_def [symmetric] scores_ok_def
  proof (intro conjI allI one)
    show "distinct (map sr_id (t_scores (create_score row d1)))"
      using ok lt by (auto simp: create_score_def scores_ok_def n ids [symmetric] simp flip: set_map)
    show "\<forall>r \<in> set (t_scores (create_score row d1)). sr_id r < t_next_score (create_score row d1)"
    proof
      fix r assume "r \<in> set (t_scores (create_score row d1))"
      then have "sr_id r \<in> insert (t_next_score d) (sr_id ` set (t_scores d1))"
        by (auto simp: create_score_def n)
      then have "sr_id r \<in> insert (t_next_score d) (sr_id ` set (t_scores d))" by (simp only: si)
      then have "sr_id r \<le> t_next_score d"
        by (elim insertE) (simp, rule order_less_imp_le [OF bspec [OF lt]])
      then show "sr_id r < t_next_score (create_score row d1)" by (simp add: create_score_def n)
    qed
    have "sr_grade ` set (t_scores d1) = sr_grade ` set (t_scores d)"
      using gs by (metis set_map)
    also have "\<dots> \<subseteq> range grade_name" using ok by (fastforce simp: scores_ok_def)
    finally have "sr_grade ` set (t_scores (create_score row d1)) \<subseteq> range grade_name"
      using row(5) by (simp add: create_score_def)
    then show "\<forall>r \<in> set (t_scores (create_score row d1)). \<exists>g. sr_grade r = grade_name g"
      by blast
    have "sr_checksum row \<notin> sr_checksum ` set (t_scores d)" using fresh by auto
    then show "distinct (map sr_checksum (t_scores (create_score row d1)))"
      using ok cs by (simp add: create_score_def scores_ok_def)
  qed
qed

definition view :: "sworld \<Rightarrow> score_row list \<times> int \<times> (int \<times> int \<Rightarrow> mode_stats option) \<times>
    (int \<Rightarrow> sub_player option) \<times> (pystr \<Rightarrow> bmap option) \<times> score \<times> (pystr \<Rightarrow> bytes option)" where
  "view w = (t_scores (w_db w), t_next_score (w_db w), t_stats (w_db w), w_players w, w_bmaps w, w_score w, w_files w)"

lemma keeps_view_io [keeps_intros]: "keeps (\<lambda>w. view w = v) m \<Longrightarrow> keeps (\<lambda>w. view w = v) (io E m)"
  by (rule keeps_io) (simp_all add: view_def)

lemma keeps_view_unlock: "keeps (\<lambda>w. view w = v) (unlock_new_achievements E)"
proof -
  have "keeps (\<lambda>w. view w = v) (on_db (\<lambda>d. d\<lparr>t_user_achievements := f d\<rparr>))" for f
    unfolding on_db_def by (rule keeps_modify) (simp add: view_def)
  then have "keeps (\<lambda>w. view w = v) (unlock_each E uid sc uas as)" for uid sc uas as
    by (induction as) (auto intro!: keeps_intros)
  then show ?thesis
    unfolding unlock_new_achievements_def score_player_def by (intro keeps_intros)
qed

section \<open>The order is kept\<close>

definition in_order :: "(pystr \<Rightarrow> bool) \<Rightarrow> sworld \<Rightarrow> bool" where
  "in_order rk w \<longleftrightarrow> scores_ok (w_db w) \<and> ledger_ok rk (w_db w) \<and> memory_ok rk w"

lemma transaction_success:
  "transaction E m w = (Inr x, w') \<longleftrightarrow>
     (\<exists>w1. se_fault E (w_tick w) = None \<and> m (w\<lparr>w_tick := Suc (w_tick w)\<rparr>) = (Inr x, w1) \<and>
           se_fault E (w_tick w1) = None \<and> w' = w1\<lparr>w_tick := Suc (w_tick w1)\<rparr>)"
proof -
  have "transaction E m w = (Inr x, w') \<longleftrightarrow> bnd (thn (io E skip) m) (\<lambda>x. thn (io E skip) (retn x)) w = (Inr x, w')"
    by (auto simp: transaction_def split: prod.splits sum.splits)
  then show ?thesis by (auto simp: inv_simps)
qed

lemma stats_row_update_totals:
  assumes "tracks st0 (st, u)" "same_totals st0 row"
  shows "same_totals st (stats_row_update (u\<lparr>up_acc := a\<rparr>) row)"
  using assms by (auto simp: tracks_def same_totals_def stats_row_update_def upd_with_def split: option.splits)

lemma stats_match_totals: "same_totals a b \<Longrightarrow> stats_match b rs \<Longrightarrow> stats_match a rs"
  by (simp add: same_totals_def stats_match_def)

lemma same_totals_sym: "same_totals a b \<Longrightarrow> same_totals b a"
  by (simp add: same_totals_def)

definition store_all :: "sub_env \<Rightarrow> bool \<Rightarrow> (int \<times> pystr) option \<Rightarrow> persist_result wop" where
  "store_all E unlocks first =
     bnd (persist_submitted_score E) (\<lambda>i. bnd (persist_score_submission_stats E) (\<lambda>stats.
     bnd (if unlocks then unlock_new_achievements E else retn []) (\<lambda>ach.
       retn \<lparr>ps_score_id = i, ps_stats = stats, ps_first_place = first, ps_achievements = ach\<rparr>)))"

lemma persist_body_store:
  "persist_body E =
     bnd score_bmap (\<lambda>b. bnd score_player (\<lambda>p. bnd (gets w_score) (\<lambda>sc.
     bnd (if score_should_announce_first_place sc b p
          then io E (gets (\<lambda>w. fetch_first_place (w_db w) (bm_md5 b) (sc_mode sc)
                                 (first_place_scoring_metric sc)))
          else retn None) (store_all E (score_can_unlock_achievements sc b p)))))"
  by (simp add: persist_body_def store_all_def [abs_def])

text \<open>What a submission that was stored has changed.\<close>

lemma persist_success:
  assumes run: "persist_score_submission E w = (Inr r, w')"
  obtains b p st0 st1 u1 st2 u2 best where
    "w_bmaps w (sc_map (w_score w)) = Some b" "w_players w (sc_player (w_score w)) = Some p"
    "sp_stats p (sc_mode (w_score w)) = Some st0"
    "apply_score_stats ((w_score w)\<lparr>sc_id := Some (t_next_score (w_db w))\<rparr>) b st0 = Inr (st1, u1)"
    "(st2, u2) = (st1, u1) \<or> apply_weighted_performance_stats (se_pow E) best st1 u1 = Inr (st2, u2)"
    "t_scores (w_db w') = t_scores (create_score (score_to_row E (w_score w) b p)
       (if sc_status (w_score w) = SS_BEST
        then mark_previous_best (bm_md5 b) (sp_id p) (sc_mode (w_score w)) (w_db w) else w_db w))"
    "t_next_score (w_db w') = t_next_score (w_db w) + 1"
    "t_stats (w_db w') = t_stats (stats_partial_update E (sp_id p) (sc_mode (w_score w)) u2 (w_db w))"
    "w_players w' = (w_players w)(sc_player (w_score w) :=
       Some (p\<lparr>sp_stats := (sp_stats p)(sc_mode (w_score w) := Some st2)\<rparr>))"
    "w_score w' = (w_score w)\<lparr>sc_id := Some (t_next_score (w_db w))\<rparr>" "w_files w' = w_files w"
    "\<And>k. map_option (\<lambda>x. (bm_md5 x, bm_status x)) (w_bmaps w' k) = map_option (\<lambda>x. (bm_md5 x, bm_status x)) (w_bmaps w k)"
    "ps_score_id r = t_next_score (w_db w)" "pr_current (ps_stats r) = st2"
proof -
  obtain sn where cap: "capture_score_submission_state w = (Inr sn, w)"
    using run by (auto simp: persist_unfold bnd_def capture_outcome split: option.splits)
  then obtain b p st where st: "w_bmaps w (sc_map (w_score w)) = Some b"
      "w_players w (sc_player (w_score w)) = Some p" "sp_stats p (sc_mode (w_score w)) = Some st"
    by (auto simp: capture_outcome split: option.splits)
  have "transaction E (persist_body E) w = (Inr r, w')"
    using run by (auto simp: persist_unfold bnd_def cap on_failure_def raise_def split: prod.splits sum.splits if_splits)
  then obtain w1 where w1: "persist_body E (w\<lparr>w_tick := Suc (w_tick w)\<rparr>) = (Inr r, w1)"
      "w' = w1\<lparr>w_tick := Suc (w_tick w1)\<rparr>"
    by (auto simp: transaction_success)
  have "\<exists>n first. store_all E (score_can_unlock_achievements (w_score w) b p) first (w\<lparr>w_tick := n\<rparr>) = (Inr r, w1)"
    using w1(1) st by (auto simp: persist_body_store inv_simps prim_ops split: if_splits)
  then obtain n first where
    body0: "store_all E (score_can_unlock_achievements (w_score w) b p) first (w\<lparr>w_tick := n\<rparr>) = (Inr r, w1)"
    by blast
  define wa where "wa = w\<lparr>w_tick := n\<rparr>"
  have wa: "view wa = view w" "w_db wa = w_db w" by (simp_all add: wa_def view_def)
  note body = body0 [folded wa_def]
  have v: "w_bmaps wa = w_bmaps w" "w_players wa = w_players w" "w_score wa = w_score w" "w_files wa = w_files w"
    using wa(1) by (simp_all add: view_def)
  obtain i wb pr wc ach where wb: "persist_submitted_score E wa = (Inr i, wb)"
    and wc: "persist_score_submission_stats E wb = (Inr pr, wc)"
    and wd: "(if score_can_unlock_achievements (w_score w) b p then unlock_new_achievements E else retn []) wc = (Inr ach, w1)"
    and r: "ps_score_id r = i" "ps_stats r = pr"
    using body by (auto simp: store_all_def inv_simps simp del: if_split)
  note s1 = persist_submitted_score_success [OF wb, unfolded v wa(2), OF st(1,2)]
  have vb: "w_bmaps wb (sc_map (w_score wb)) = Some b" "w_players wb (sc_player (w_score wb)) = Some p"
    using s1 st v by auto
  have "keeps (\<lambda>x. view x = view wc) (if score_can_unlock_achievements (w_score w) b p then unlock_new_achievements E else retn [])"
    by (intro keeps_intros keeps_view_unlock)
  from keepsD [OF this _ wd] have vc: "view w1 = view wc" by simp
  have vd: "view w' = view wc" using vc w1(2) by (simp add: view_def)
  obtain st0 st1 u1 st2 u2 best where n:
    "sp_stats p (sc_mode (w_score wb)) = Some st0"
    "apply_score_stats (w_score wb) b st0 = Inr (st1, u1)"
    "(st2, u2) = (st1, u1) \<or> apply_weighted_performance_stats (se_pow E) best st1 u1 = Inr (st2, u2)"
    "t_scores (w_db wc) = t_scores (w_db wb)" "t_next_score (w_db wc) = t_next_score (w_db wb)"
    "t_stats (w_db wc) = t_stats (stats_partial_update E (sp_id p) (sc_mode (w_score wb)) u2 (w_db wb))"
    "w_players wc = (w_players wb)(sc_player (w_score wb) :=
       Some (p\<lparr>sp_stats := (sp_stats p)(sc_mode (w_score wb) := Some st2)\<rparr>))"
    "w_score wc = w_score wb" "w_files wc = w_files wb"
    "\<And>k. map_option (\<lambda>x. (bm_md5 x, bm_status x)) (w_bmaps wc k) = map_option (\<lambda>x. (bm_md5 x, bm_status x)) (w_bmaps wb k)"
    "pr_current pr = st2"
    by (rule persist_stats_success [OF wc vb], rule that)
  have tn: "t_next_score (create_score row (if c then mark_previous_best x y z d else d)) = t_next_score d + 1"
    "t_stats (create_score row (if c then mark_previous_best x y z d else d)) = t_stats d" for row c x y z d
    by (simp_all add: create_score_def mark_previous_best_def)
  have e: "view w' = view wc" by (rule vd)
  show ?thesis
    by (rule that [OF st(1,2), of st0 st1 u1 st2 u2 best])
       (use s1 n r e v in \<open>simp_all add: view_def tn stats_partial_update_def Let_def del: if_split\<close>)
qed

lemma row_fields [simp]:
  "sr_userid (score_to_row E sc b p) = sp_id p" "sr_mode (score_to_row E sc b p) = sc_mode sc"
  "sr_map_md5 (score_to_row E sc b p) = bm_md5 b" "sr_status (score_to_row E sc b p) = status_value (sc_status sc)"
  "sr_score (score_to_row E sc b p) = sc_score sc" "sr_grade (score_to_row E sc b p) = grade_name (sc_grade sc)"
  "sr_checksum (score_to_row E sc b p) = sc_checksum sc"
  by (simp_all add: score_to_row_def)

lemma persist_keeps_order:
  assumes run: "persist_score_submission E w = (Inr r, w')" and ok: "in_order rk w" and rated: "rated w"
  shows "in_order rk w'"
proof -
  define sc where "sc = w_score w"
  define d where "d = w_db w"
  obtain b p st0 st1 u1 st2 u2 best where
    b: "w_bmaps w (sc_map sc) = Some b" and p: "w_players w (sc_player sc) = Some p"
    and st0: "sp_stats p (sc_mode sc) = Some st0"
    and a: "apply_score_stats (sc\<lparr>sc_id := Some (t_next_score d)\<rparr>) b st0 = Inr (st1, u1)"
    and wt: "(st2, u2) = (st1, u1) \<or> apply_weighted_performance_stats (se_pow E) best st1 u1 = Inr (st2, u2)"
    and ts: "t_scores (w_db w') = t_scores (create_score (score_to_row E sc b p)
       (if sc_status sc = SS_BEST then mark_previous_best (bm_md5 b) (sp_id p) (sc_mode sc) d else d))"
    and tn: "t_next_score (w_db w') = t_next_score d + 1"
    and tt: "t_stats (w_db w') = t_stats (stats_partial_update E (sp_id p) (sc_mode sc) u2 d)"
    and pl: "w_players w' = (w_players w)(sc_player sc := Some (p\<lparr>sp_stats := (sp_stats p)(sc_mode sc := Some st2)\<rparr>))"
    and bm: "\<And>k. map_option (\<lambda>x. (bm_md5 x, bm_status x)) (w_bmaps w' k) = map_option (\<lambda>x. (bm_md5 x, bm_status x)) (w_bmaps w k)"
    by (rule persist_success [OF run, folded sc_def d_def], rule that)
  have mem: "memory_ok rk w" and led: "ledger_ok rk d" and tab: "scores_ok d"
    using ok by (auto simp: in_order_def d_def)
  have md: "bm_md5 b = sc_map sc" "awards_ranked_pp b = rk (sc_map sc)" and pid: "sp_id p = sc_player sc"
    using mem b p by (auto simp: memory_ok_def)
  define d2 where "d2 = create_score (score_to_row E sc b p)
       (if sc_status sc = SS_BEST then mark_previous_best (sc_map sc) (sc_player sc) (sc_mode sc) d else d)"
  have ts2: "t_scores (w_db w') = t_scores d2" using ts by (simp add: d2_def md pid)
  have tn2: "t_next_score (w_db w') = t_next_score d2"
    using tn by (simp add: d2_def create_score_def mark_previous_best_def)
  have rb: "ranked_best rk (w_db w') uid m = ranked_best rk d2 uid m" for uid m
    by (simp add: ranked_best_def ts2)
  have "scores_ok d2"
    unfolding d2_def using rated
    by (intro scores_ok_step [OF tab]) (auto simp: rated_def sc_def d_def md [unfolded sc_def] pid [unfolded sc_def])
  then have tab2: "scores_ok (w_db w')"
    by (simp add: scores_ok_def fetch_best_scores_def ts2 tn2)
  have passed: "sc_status sc = SS_BEST \<Longrightarrow> sc_passed sc" using rated by (simp add: rated_def sc_def)
  have id: "ranked_score_delta (sc\<lparr>sc_id := i\<rparr>) = ranked_score_delta sc"
    "grade_count_deltas (sc\<lparr>sc_id := i\<rparr>) = grade_count_deltas sc" for i
    by (cases "sc_prev_best sc"; simp add: ranked_score_delta_def grade_count_deltas_def)+
  have counted: "(sc_passed sc \<and> awards_ranked_pp b \<and> sc_status sc = SS_BEST) = (sc_status sc = SS_BEST \<and> rk (sc_map sc))"
    using passed md(2) by auto
  have sel: "sc_passed (sc\<lparr>sc_id := i\<rparr>) = sc_passed sc" "sc_status (sc\<lparr>sc_id := i\<rparr>) = sc_status sc" for i
    by simp_all
  have st12: "rscore st2 = rscore st1" "md_grades st2 = md_grades st1" "tracks st0 (st2, u2) = tracks st0 (st1, u1)"
    using wt weighted_tracks by auto
  have eff: "tracks st0 (st2, u2)"
    "rscore st2 = rscore st0 + (if sc_status sc = SS_BEST \<and> rk (sc_map sc) then ranked_score_delta sc else 0)"
    "md_grades st2 g = md_grades st0 g + (if sc_status sc = SS_BEST \<and> rk (sc_map sc)
       then sum_list (map snd (filter (\<lambda>x. fst x = g) (grade_count_deltas sc))) else 0)" for g
    unfolding st12 using apply_score_stats_effect [OF a, of g, unfolded sel id counted] by (simp_all only: simp_thms)
  have row: "t_stats (w_db w') (u, m) = (if (u, m) = (sc_player sc, sc_mode sc)
      then map_option (stats_row_update (u2\<lparr>up_acc := map_option (se_column E 6) (up_acc u2)\<rparr>)) (t_stats d (u, m))
      else t_stats d (u, m))" for u m
    by (simp add: tt stats_partial_update_def Let_def pid)
  have same: "same_totals st2 (stats_row_update (u2\<lparr>up_acc := map_option (se_column E 6) (up_acc u2)\<rparr>) x)"
      and step: "stats_match st2 (ranked_best rk d2 (sc_player sc) (sc_mode sc))"
    if x: "t_stats d (sc_player sc, sc_mode sc) = Some x" for x
  proof -
    have "same_totals st0 x" using mem p st0 x by (auto simp: memory_ok_def d_def)
    then show "same_totals st2 (stats_row_update (u2\<lparr>up_acc := map_option (se_column E 6) (up_acc u2)\<rparr>) x)"
      by (rule stats_row_update_totals [OF eff(1)])
    have m0: "stats_match st0 (ranked_best rk d (sc_player sc) (sc_mode sc))"
      using led x \<open>same_totals st0 x\<close> by (auto simp: ledger_ok_def intro: stats_match_totals)
    have one: "length (fetch_best_scores d (sc_player sc) (sc_map sc) (sc_mode sc)) \<le> 1"
      using tab by (simp add: scores_ok_def)
    have prev: "sc_status sc = SS_BEST \<Longrightarrow>
        prev_matches (sc_prev_best sc) (fetch_best_scores d (sc_player sc) (sc_map sc) (sc_mode sc))"
      using rated by (simp add: rated_def sc_def d_def)
    show "stats_match st2 (ranked_best rk d2 (sc_player sc) (sc_mode sc))"
      unfolding d2_def by (rule ledger_step [OF m0 one prev]) (simp_all only: row_fields md pid eff(2,3))
  qed
  have led2: "ledger_ok rk (w_db w')"
    unfolding ledger_ok_def
  proof (intro allI impI)
    fix uid m x assume x: "t_stats (w_db w') (uid, m) = Some x"
    show "stats_match x (ranked_best rk (w_db w') uid m)"
    proof (cases "(uid, m) = (sc_player sc, sc_mode sc)")
      case True
      then show ?thesis
        using x row same step by (auto simp: rb intro: stats_match_totals [OF same_totals_sym])
    next
      case False
      then have "ranked_best rk d2 uid m = ranked_best rk d uid m"
        unfolding d2_def by (intro ledger_other) (auto simp: pid)
      then show ?thesis using x row False led by (auto simp: rb ledger_ok_def)
    qed
  qed
  have "memory_ok rk w'"
    unfolding memory_ok_def
  proof (intro conjI allI impI)
    fix k b' assume "w_bmaps w' k = Some b'"
    then obtain b0 where "w_bmaps w k = Some b0" "bm_md5 b' = bm_md5 b0" "bm_status b' = bm_status b0"
      using bm [of k] by (cases "w_bmaps w k") auto
    then show "bm_md5 b' = k" "awards_ranked_pp b' = rk k"
      using mem by (auto simp: memory_ok_def awards_ranked_pp_def)
  next
    fix k q assume "w_players w' k = Some q"
    then show "sp_id q = k" using mem pl p by (auto simp: memory_ok_def split: if_splits)
  next
    fix k q m st x
    assume "w_players w' k = Some q" "sp_stats q m = Some st" "t_stats (w_db w') (k, m) = Some x"
    then show "same_totals st x"
      using mem pl p row same by (auto simp: memory_ok_def d_def split: if_splits)
  qed
  then show ?thesis using led2 tab2 by (simp add: in_order_def)
qed

section \<open>Rating and the rest of a submission\<close>

lemma grade_of_str_name [simp]: "grade_of_str (grade_name g) = Inr g"
  by (cases g) (simp_all add: grade_of_str_def ascii_lower_def py_def)

lemma find_distinct_id:
  "distinct (map sr_id xs) \<Longrightarrow> r \<in> set xs \<Longrightarrow> find (\<lambda>x. sr_id x = sr_id r) xs = Some r"
  by (induction xs) (auto simp: image_iff)

lemma score_from_sql_value:
  assumes run: "score_from_sql E (sr_id r) w = (Inr pb, w')" and ok: "scores_ok (w_db w)"
    and r: "r \<in> set (t_scores (w_db w))"
  shows "\<exists>q. pb = Some q \<and> sc_score q = sr_score r \<and> grade_name (sc_grade q) = sr_grade r"
proof -
  have f: "fetch_score (w_db w) (sr_id r) = Some r"
    using ok r by (simp add: fetch_score_def find_distinct_id scores_ok_def)
  obtain g where g: "sr_grade r = grade_name g" using ok r by (auto simp: scores_ok_def)
  show ?thesis
    using run by (auto simp: score_from_sql_def inv_simps f g)
qed

text \<open>Everything a rating reads of the state is left alone by what only moves the clock.\<close>

definition ticked :: "sworld \<Rightarrow> sworld \<Rightarrow> bool" where
  "ticked w w' \<longleftrightarrow> w'\<lparr>w_tick := 0\<rparr> = w\<lparr>w_tick := 0\<rparr>"

lemma ticked_sel:
  assumes "ticked w w'"
  shows "w_db w' = w_db w" "w_score w' = w_score w"
  using arg_cong [where f = w_db, OF assms [unfolded ticked_def]]
    arg_cong [where f = w_score, OF assms [unfolded ticked_def]] by simp_all

lemma keeps_ticked_io [keeps_intros]: "keeps (ticked w) m \<Longrightarrow> keeps (ticked w) (io E m)"
  by (rule keeps_io) (simp_all add: ticked_def)

lemma keeps_ticked_from_sql [keeps_intros]: "keeps (ticked w) (score_from_sql E i)"
  unfolding score_from_sql_def calculate_placement_def by (intro keeps_intros)

lemma calculate_status_rates:
  assumes run: "calculate_status E w = (Inr (), w')" and ok: "scores_ok (w_db w)" "memory_ok rk w"
    and new: "sc_prev_best (w_score w) = None"
  shows "w_db w' = w_db w \<and> sc_player (w_score w') = sc_player (w_score w) \<and> sc_map (w_score w') = sc_map (w_score w) \<and>
    sc_mode (w_score w') = sc_mode (w_score w) \<and> sc_passed (w_score w') = sc_passed (w_score w) \<and>
    sc_checksum (w_score w') = sc_checksum (w_score w) \<and>
    (sc_status (w_score w') = SS_BEST \<longrightarrow> prev_matches (sc_prev_best (w_score w'))
       (fetch_best_scores (w_db w) (sc_player (w_score w)) (sc_map (w_score w)) (sc_mode (w_score w))))"
proof -
  obtain p b where p: "w_players w (sc_player (w_score w)) = Some p" and b: "w_bmaps w (sc_map (w_score w)) = Some b"
    using run by (auto simp: calculate_status_def inv_simps prim_ops)
  have key: "sp_id p = sc_player (w_score w)" "bm_md5 b = sc_map (w_score w)"
    using ok(2) p b by (auto simp: memory_ok_def)
  define recs where "recs = fetch_best_scores (w_db w) (sc_player (w_score w)) (sc_map (w_score w)) (sc_mode (w_score w))"
  show ?thesis
  proof (cases recs)
    case Nil
    then show ?thesis
      using run p b key new by (auto simp: calculate_status_def inv_simps prim_ops recs_def prev_matches_def)
  next
    case (Cons r rs)
    have r: "r \<in> set (t_scores (w_db w))"
      using list.set_intros(1) [of r rs] unfolding Cons [symmetric] by (simp add: recs_def fetch_best_scores_def)
    define v where "v = w\<lparr>w_tick := Suc (w_tick w)\<rparr>"
    obtain pb t where pb: "score_from_sql E (sr_id r) v = (Inr pb, t)"
      and rest: "thn (set_score (\<lambda>s. s\<lparr>sc_prev_best := pb\<rparr>)) (bnd (the_or AssertionError pb) (\<lambda>best.
            if sc_pp (w_score w) > sr_pp r
            then set_score (\<lambda>s. s\<lparr>sc_status := SS_BEST, sc_prev_best := Some (best\<lparr>sc_status := SS_SUBMITTED\<rparr>)\<rparr>)
            else set_score (\<lambda>s. s\<lparr>sc_status := SS_SUBMITTED\<rparr>))) t = (Inr (), w')"
      using run p b key Cons unfolding calculate_status_def recs_def v_def
      by (auto simp: bnd_Inr_iff gets_Inr_iff io_Inr_iff retn_Inr_iff the_or_Inr_iff score_player_def score_bmap_def)
    have "ticked w t"
      by (rule keepsD [OF keeps_ticked_from_sql _ pb]) (simp add: ticked_def v_def)
    note t = ticked_sel [OF this]
    obtain q where q: "pb = Some q" "sc_score q = sr_score r" "grade_name (sc_grade q) = sr_grade r"
      using score_from_sql_value [OF pb] ok(1) r by (auto simp: v_def)
    show ?thesis
      using rest t q Cons unfolding recs_def
      by (auto simp: inv_simps prim_ops prev_matches_def split: if_splits)
  qed
qed

end
