(* ===== verification/Booking.thy ===== *)
theory Booking
  imports Ledger
begin

text \<open>
  The submission of a score as a whole: every way through \<^verbatim>\<open>submit_score\<close>, with any
  schedule of faults, keeps the tables in order, never loses the replay of a stored score, and
  leaves no trace when the score could not be stored.
\<close>

section \<open>From the parsed score to the stored one\<close>

definition unrated :: "sworld \<Rightarrow> bool" where
  "unrated w \<longleftrightarrow> sc_prev_best (w_score w) = None \<and>
     (\<forall>r \<in> set (t_scores (w_db w)). sr_checksum r \<noteq> sc_checksum (w_score w))"

lemma calculate_performance_success:
  "calculate_performance E w = (Inr (), w') \<Longrightarrow>
   \<exists>pp stars aim speed fl. w' = w\<lparr>w_score := (w_score w)\<lparr>sc_pp_aim := aim, sc_pp_speed := speed,
     sc_pp_flashlight := fl, sc_pp := pp, sc_sr := stars\<rparr>\<rparr>"
  by (auto simp: calculate_performance_def inv_simps prim_ops split: prod.splits) blast

lemma rating_rates:
  assumes run: "calculate_score_submission_status E st ft w = (Inr (), w')"
    and ok: "scores_ok (w_db w)" "memory_ok rk w" and new: "unrated w"
  shows "rated w'"
proof -
  obtain b acc where b: "w_bmaps w (sc_map (w_score w)) = Some b"
    and acc: "calculate_accuracy (w_score w) = Inr acc"
    using run by (auto simp: calculate_score_submission_status_def inv_simps prim_ops)
  define w1 where "w1 = w\<lparr>w_score := (w_score w)\<lparr>sc_acc := acc, sc_pp := 0, sc_sr := 0,
    sc_status := (if sc_passed (w_score w) then SS_SUBMITTED else SS_FAILED)\<rparr>, w_tick := Suc (w_tick w)\<rparr>"
  have low: "sc_status (w_score w1) \<noteq> SS_BEST" by (simp add: w1_def)
  show ?thesis
  proof (cases "se_osu_file E (bm_id b) (bm_md5 b)")
    case False
    then show ?thesis
      using run b acc new by (auto simp: calculate_score_submission_status_def inv_simps prim_ops rated_def unrated_def)
  next
    case True
    then obtain w2 where perf: "calculate_performance E w1 = (Inr (), w2)"
      using run b acc unfolding w1_def
      by (auto simp: calculate_score_submission_status_def inv_simps prim_ops split: if_splits)
    from calculate_performance_success [OF perf] obtain pp stars aim speed fl where
      w2: "w2 = w1\<lparr>w_score := (w_score w1)\<lparr>sc_pp_aim := aim, sc_pp_speed := speed,
        sc_pp_flashlight := fl, sc_pp := pp, sc_sr := stars\<rparr>\<rparr>" by blast
    show ?thesis
    proof (cases "sc_passed (w_score w)")
      case False
      then show ?thesis
        using run b acc new True perf w2 unfolding w1_def
        by (auto simp: calculate_score_submission_status_def inv_simps prim_ops rated_def unrated_def)
    next
      case pass: True
      then obtain w3 where st: "calculate_status E w2 = (Inr (), w3)"
        using run b acc True perf unfolding w1_def
        by (auto simp: calculate_score_submission_status_def inv_simps prim_ops split: if_splits)
      have ok2: "scores_ok (w_db w2)" "memory_ok rk w2" "sc_prev_best (w_score w2) = None"
        using ok new by (auto simp: w2 w1_def memory_ok_def unrated_def)
      note r = calculate_status_rates [OF st ok2]
      have "rated w3"
        using r new pass by (auto simp: rated_def w2 w1_def unrated_def)
      then show ?thesis
        using run b acc True perf st pass r unfolding w1_def
        by (auto simp: calculate_score_submission_status_def calculate_placement_def inv_simps prim_ops rated_def
            split: if_splits)
    qed
  qed
qed

section \<open>The steps that only move other things\<close>

lemma order_tick: "in_order rk (w\<lparr>w_tick := n\<rparr>) = in_order rk w"
  by (simp add: in_order_def memory_ok_def)

lemma rated_tick: "rated (w\<lparr>w_tick := n\<rparr>) = rated w"
  by (simp add: rated_def)

lemma keeps_order_io [keeps_intros]: "keeps (in_order rk) m \<Longrightarrow> keeps (in_order rk) (io E m)"
  by (rule keeps_io) (simp_all add: order_tick)

lemma keeps_order_event [keeps_intros]: "keeps (in_order rk) (emit_event e)"
  unfolding emit_event_def by (rule keeps_modify) (simp add: in_order_def memory_ok_def)

lemma keeps_order_score [keeps_intros]: "keeps (in_order rk) (set_score f)"
  unfolding set_score_def by (rule keeps_modify) (simp add: in_order_def memory_ok_def)

lemma keeps_order_users [keeps_intros]: "keeps (in_order rk) (on_db (\<lambda>d. d\<lparr>t_users := f d\<rparr>))"
  unfolding on_db_def
  by (rule keeps_modify)
     (simp add: in_order_def memory_ok_def scores_ok_def ledger_ok_def ranked_best_def fetch_best_scores_def)

lemma keeps_order_score_bmap [keeps_intros]: "keeps (in_order rk) score_bmap"
  unfolding score_bmap_def by (intro keeps_intros)

lemma keeps_order_score_player: "keeps (in_order rk) score_player"
  unfolding score_player_def by (intro keeps_intros)

lemma keeps_order_write [keeps_intros]: "keeps (in_order rk) (write_replay_bytes E path d)"
  by (auto simp: keeps_def write_replay_bytes_def in_order_def memory_ok_def Let_def split: option.splits)

lemma keeps_order_files [keeps_intros]: "keeps (in_order rk) (modify (\<lambda>w. w\<lparr>w_files := f w\<rparr>))"
  by (rule keeps_modify) (simp add: in_order_def memory_ok_def)

text \<open>A player object is put back with the id and the statistics it had.\<close>

lemma keeps_order_player_bnd:
  assumes "\<And>p w. in_order rk w \<Longrightarrow> w_players w (sc_player (w_score w)) = Some p \<Longrightarrow> in_order rk (snd (k p w))"
  shows "keeps (in_order rk) (bnd score_player k)"
proof (unfold keeps_def, intro allI impI)
  fix w assume o: "in_order rk w"
  show "in_order rk (snd (bnd score_player k w))"
  proof (cases "w_players w (sc_player (w_score w))")
    case None
    then show ?thesis using o by (simp add: score_player_def op_defs)
  next
    case (Some p)
    then show ?thesis using assms [OF o Some] by (simp add: score_player_def op_defs)
  qed
qed

lemma order_put_player:
  assumes "in_order rk w" "w_players w (sc_player (w_score w)) = Some p"
    "sp_id p' = sp_id p" "sp_stats p' = sp_stats p"
  shows "in_order rk (w\<lparr>w_players := (w_players w)(sc_player (w_score w) := Some p')\<rparr>)"
  using assms by (auto simp: in_order_def memory_ok_def)

lemma put_player_thn: "thn (put_player p) k w = k (w\<lparr>w_players := (w_players w)(sc_player (w_score w) := Some p)\<rparr>)"
  by (simp add: put_player_def)

lemma order_put_thn:
  assumes "keeps (in_order rk) k" "in_order rk w" "w_players w (sc_player (w_score w)) = Some p"
    "sp_id p' = sp_id p" "sp_stats p' = sp_stats p"
  shows "in_order rk (snd (thn (put_player p') k w))"
  using keeps_exec [OF assms(1) order_put_player [OF assms(2-5)]] by (simp add: put_player_thn exec_def)

lemma order_skip: "in_order rk w \<Longrightarrow> in_order rk (snd (skip w))"
  by (simp add: skip_def retn_def)

lemma keeps_order_status_mode: "keeps (in_order rk) update_submitter_status_mode"
  unfolding update_submitter_status_mode_def
proof (rule keeps_bnd [OF keeps_gets], rule keeps_order_player_bnd)
  fix sc :: score and p w
  assume o: "in_order rk w" "w_players w (sc_player (w_score w)) = Some p"
  have "keeps (in_order rk) (if \<not> sp_restricted p then emit_event (Publish_stats (sp_id p)) else skip)"
    by (intro keeps_intros)
  from order_put_thn [OF this o, of "p\<lparr>sp_mods := sc_mods sc, sp_mode := sc_mode sc\<rparr>"] order_skip [OF o(1)]
  show "in_order rk (snd ((if sc_mode sc \<noteq> sp_mode p
      then thn (put_player (p\<lparr>sp_mods := sc_mods sc, sp_mode := sc_mode sc\<rparr>))
             (if \<not> sp_restricted p then emit_event (Publish_stats (sp_id p)) else skip)
      else skip) w))"
    by (cases "sp_restricted p") (simp_all del: thn_skip)
qed

lemma keeps_order_logout: "keeps (in_order rk) logout_player"
  unfolding logout_player_def
proof (rule keeps_order_player_bnd)
  fix p w assume o: "in_order rk w" "w_players w (sc_player (w_score w)) = Some p"
  from order_put_thn [OF keeps_order_event o, of "p\<lparr>sp_online := False\<rparr>"] order_skip [OF o(1)]
  show "in_order rk (snd ((if sp_online p then thn (put_player (p\<lparr>sp_online := False\<rparr>)) (emit_event (Logged_out (sp_id p)))
      else skip) w))"
    by simp
qed

definition restriction_trail :: "sub_env \<Rightarrow> sub_player \<Rightarrow> pystr \<Rightarrow> unit wop" where
  "restriction_trail E p reason =
     thn (io E (on_db (\<lambda>d. d\<lparr>t_users := map (\<lambda>u. if du_id u = sp_id p
        then u\<lparr>du_priv := drop_mod (sp_priv p) P_UNRESTRICTED\<rparr> else u) (t_users d)\<rparr>)))
    (thn (io E skip) (thn (io E (emit_event (Restriction_logged (sp_id p) reason)))
    (thn (io E skip) (thn (foreach LEADERBOARD_MODES (\<lambda>_. thn (io E skip) (io E skip))) logout_player))))"

lemma restrict_submitter_trail:
  "restrict_submitter E reason = bnd score_player (\<lambda>p.
     thn (put_player (p\<lparr>sp_priv := drop_mod (sp_priv p) P_UNRESTRICTED\<rparr>)) (restriction_trail E p reason))"
  by (simp add: restrict_submitter_def restriction_trail_def Let_def)

lemma keeps_order_trail: "keeps (in_order rk) (restriction_trail E p reason)"
  unfolding restriction_trail_def by (intro keeps_intros keeps_order_logout)

lemma keeps_order_restrict: "keeps (in_order rk) (restrict_submitter E reason)"
  unfolding restrict_submitter_trail
  by (rule keeps_order_player_bnd, rule order_put_thn [OF keeps_order_trail]) simp_all

lemma keeps_order_missing_replay: "keeps (in_order rk) (restrict_player_for_missing_replay E)"
  unfolding restrict_player_for_missing_replay_def
  by (rule keeps_bnd [OF keeps_order_score_player], rule keeps_if,
      rule keeps_thn [OF keeps_order_restrict keeps_order_logout], rule keeps_skip)

lemma keeps_result:
  "(\<And>x. keeps P (m x)) \<Longrightarrow> (\<And>e. keeps P (k e)) \<Longrightarrow> keeps P (case r of Inr x \<Rightarrow> m x | Inl e \<Rightarrow> k e)"
  by (cases r) simp_all

lemma keeps_order_integrity: "keeps (in_order rk) (record_integrity E rq md5)"
  unfolding record_integrity_def
  by (rule keeps_bnd [OF keeps_order_score_player], rule keeps_bnd [OF keeps_gets],
      rule keeps_result [OF keeps_skip],
      rule keeps_if [OF keeps_order_io [OF keeps_order_event] keeps_raise])

lemma keeps_list_case [keeps_intros]:
  "keeps P m \<Longrightarrow> (\<And>x xs. keeps P (k x xs)) \<Longrightarrow> keeps P (case v of [] \<Rightarrow> m | x # xs \<Rightarrow> k x xs)"
  by (cases v) simp_all

lemma keeps_split [keeps_intros]: "(\<And>a b. keeps P (k a b)) \<Longrightarrow> keeps P (case v of (a, b) \<Rightarrow> k a b)"
  by (cases v) simp

lemma keeps_order_from_sql: "keeps (in_order rk) (score_from_sql E i)"
  unfolding score_from_sql_def calculate_placement_def by (intro keeps_intros)

lemma keeps_order_rating: "keeps (in_order rk) (calculate_score_submission_status E st ft)"
proof -
  have "keeps (in_order rk) (calculate_performance E)"
    unfolding calculate_performance_def by (intro keeps_intros)
  moreover have "keeps (in_order rk) (calculate_status E)"
    unfolding calculate_status_def by (intro keeps_bnd keeps_order_score_player keeps_intros keeps_order_from_sql)
  ultimately show ?thesis
    unfolding calculate_score_submission_status_def calculate_placement_def by (intro keeps_intros)
qed

lemma keeps_order_stage: "keeps (in_order rk) (stage_replay_file E d c)"
  unfolding stage_replay_file_def by (intro keeps_intros)

lemma keeps_order_prepare: "keeps (in_order rk) (prepare_submission E rq)"
  unfolding prepare_submission_def score_submission_is_duplicate_def read_submitted_replay_file_def
  by (intro keeps_intros keeps_order_rating keeps_order_missing_replay keeps_order_stage)

text \<open>The rating survives what happens between it and the insert.\<close>

definition same_rating :: "sdb \<Rightarrow> score \<Rightarrow> sworld \<Rightarrow> bool" where
  "same_rating d sc w \<longleftrightarrow> t_scores (w_db w) = t_scores d \<and> w_score w = sc"

lemma same_rating_rated: "same_rating (w_db w) (w_score w) w' \<Longrightarrow> rated w \<Longrightarrow> rated w'"
  by (simp add: same_rating_def rated_def fetch_best_scores_def)

lemma keeps_rating_io [keeps_intros]: "keeps (same_rating d sc) m \<Longrightarrow> keeps (same_rating d sc) (io E m)"
  by (rule keeps_io) (simp_all add: same_rating_def)

lemma keeps_rating_event [keeps_intros]: "keeps (same_rating d sc) (emit_event e)"
  unfolding emit_event_def by (rule keeps_modify) (simp add: same_rating_def)

lemma keeps_rating_users [keeps_intros]: "keeps (same_rating d sc) (on_db (\<lambda>d. d\<lparr>t_users := f d\<rparr>))"
  unfolding on_db_def by (rule keeps_modify) (simp add: same_rating_def)

lemma keeps_rating_put_player [keeps_intros]: "keeps (same_rating d sc) (put_player p)"
  unfolding put_player_def by (rule keeps_modify) (simp add: same_rating_def)

lemma keeps_rating_score_player: "keeps (same_rating d sc) score_player"
  unfolding score_player_def by (intro keeps_intros)

lemma keeps_rating_stage: "keeps (same_rating d sc) (stage_replay_file E x c)"
proof -
  have "keeps (same_rating d sc) (write_replay_bytes E path b)" for path b
    by (auto simp: keeps_def write_replay_bytes_def same_rating_def Let_def split: option.splits)
  then show ?thesis unfolding stage_replay_file_def by (intro keeps_intros)
qed

lemma keeps_rating_missing_replay: "keeps (same_rating d sc) (restrict_player_for_missing_replay E)"
proof -
  have lo: "keeps (same_rating d sc) logout_player"
    unfolding logout_player_def by (intro keeps_bnd [OF keeps_rating_score_player] keeps_intros)
  have "keeps (same_rating d sc) (restrict_submitter E reason)" for reason
    unfolding restrict_submitter_trail restriction_trail_def
    by (intro keeps_bnd [OF keeps_rating_score_player] keeps_intros lo)
  then show ?thesis
    unfolding restrict_player_for_missing_replay_def
    by (intro keeps_bnd [OF keeps_rating_score_player] keeps_if keeps_thn lo keeps_skip)
qed

lemma keeps_rating_status_mode: "keeps (same_rating d sc) update_submitter_status_mode"
  unfolding update_submitter_status_mode_def
  by (intro keeps_bnd [OF keeps_rating_score_player] keeps_bnd [OF keeps_gets] keeps_intros)

lemma keeps_rating_integrity: "keeps (same_rating d sc) (record_integrity E rq md5)"
  unfolding record_integrity_def
  by (rule keeps_bnd [OF keeps_rating_score_player], rule keeps_bnd [OF keeps_gets],
      rule keeps_result [OF keeps_skip],
      rule keeps_if [OF keeps_rating_io [OF keeps_rating_event] keeps_raise])

definition stage_submission :: "sub_env \<Rightarrow> sub_request \<Rightarrow> pystr option option wop" where
  "stage_submission E rq =
     bnd (read_submitted_replay_file E rq) (\<lambda>replay.
     bnd (case replay of
            None \<Rightarrow> retn None
          | Some d \<Rightarrow> if replay_data_is_valid d then retn (Some d)
                      else thn (restrict_player_for_missing_replay E) (retn None)) (\<lambda>replay'.
     thn (emit_event (Metric (py ''bancho.submitted_scores'')))
    (bnd (gets w_score) (\<lambda>sc.
     thn (if sc_status sc = SS_BEST then emit_event (Metric (py ''bancho.submitted_scores_best'')) else skip)
    (bnd (stage_replay_file E replay' (sc_checksum sc)) (\<lambda>pending. retn (Some pending)))))))"

lemma prepare_unfold:
  "prepare_submission E rq = bnd (score_submission_is_duplicate E) (\<lambda>dup. if dup then retn None
     else thn (calculate_score_submission_status E (rq_score_time rq) (rq_fail_time rq)) (stage_submission E rq))"
  unfolding prepare_submission_def stage_submission_def ..

lemma keeps_rating_submission: "keeps (same_rating d sc) (stage_submission E rq)"
  unfolding stage_submission_def read_submitted_replay_file_def
  by (intro keeps_intros keeps_rating_missing_replay keeps_rating_stage)

lemma prepare_rates:
  assumes run: "prepare_submission E rq w = (Inr (Some pending), w')" and ok: "in_order rk w"
    and new: "sc_prev_best (w_score w) = None"
  shows "rated w'"
proof -
  obtain w1 where fresh: "fetch_one_by_online_checksum (w_db w) (sc_checksum (w_score w)) = None"
    and rate: "calculate_score_submission_status E (rq_score_time rq) (rq_fail_time rq)
      (w\<lparr>w_tick := Suc (w_tick w)\<rparr>) = (Inr (), w1)"
    and stage: "stage_submission E rq w1 = (Inr (Some pending), w')"
    using run by (auto simp: prepare_unfold score_submission_is_duplicate_def inv_simps split: if_splits)
  have "rated w1"
    using ok new fresh
    by (intro rating_rates [OF rate, where rk = rk])
       (auto simp: in_order_def memory_ok_def unrated_def fetch_one_by_online_checksum_def find_None_iff)
  moreover have "same_rating (w_db w1) (w_score w1) w'"
    by (rule keepsD [OF keeps_rating_submission _ stage]) (simp add: same_rating_def)
  ultimately show ?thesis by (rule same_rating_rated [rotated])
qed

section \<open>After the commit\<close>

text \<open>The statistics the caller holds are those of the player object.\<close>

definition current_stats :: "(pystr \<Rightarrow> bool) \<Rightarrow> mode_stats \<Rightarrow> sworld \<Rightarrow> bool" where
  "current_stats rk st w \<longleftrightarrow> in_order rk w \<and>
     (\<exists>p. w_players w (sc_player (w_score w)) = Some p \<and> sp_stats p (sc_mode (w_score w)) = Some st)"

lemma keeps_current_io [keeps_intros]: "keeps (current_stats rk st) m \<Longrightarrow> keeps (current_stats rk st) (io E m)"
  by (rule keeps_io) (simp_all add: current_stats_def order_tick)

lemma keeps_current_event [keeps_intros]: "keeps (current_stats rk st) (emit_event e)"
  unfolding emit_event_def by (rule keeps_modify) (simp add: current_stats_def in_order_def memory_ok_def)

lemma keeps_current_files [keeps_intros]: "keeps (current_stats rk st) (modify (\<lambda>w. w\<lparr>w_files := f w\<rparr>))"
  by (rule keeps_modify) (simp add: current_stats_def in_order_def memory_ok_def)

lemma keeps_current_commit: "keeps (current_stats rk st) (commit_replay_file E pending)"
  unfolding commit_replay_file_def rename_file_def by (intro keeps_intros)

lemma keeps_current_update_rank: "keeps (current_stats rk st) (update_rank E)"
  unfolding update_rank_def score_player_def by (intro keeps_intros)

lemma triple_put_stats:
  "triple (current_stats rk st) (put_stats (st\<lparr>md_rank := k\<rparr>)) (\<lambda>_. in_order rk) (in_order rk)"
  unfolding triple_def
proof (intro allI impI)
  fix w assume c: "current_stats rk st w"
  then obtain p where p: "w_players w (sc_player (w_score w)) = Some p" "sp_stats p (sc_mode (w_score w)) = Some st"
    and o: "in_order rk w" by (auto simp: current_stats_def)
  have "same_totals (st\<lparr>md_rank := k\<rparr>) row = same_totals st row" for row by (simp add: same_totals_def)
  then have "in_order rk (w\<lparr>w_players := (w_players w)(sc_player (w_score w) :=
      Some (p\<lparr>sp_stats := (sp_stats p)(sc_mode (w_score w) := Some (st\<lparr>md_rank := k\<rparr>))\<rparr>))\<rparr>)"
    using o p by (auto simp: in_order_def memory_ok_def)
  then show "case put_stats (st\<lparr>md_rank := k\<rparr>) w of (Inr x, s') \<Rightarrow> in_order rk s' | (Inl e, s') \<Rightarrow> in_order rk s'"
    using p by (simp add: put_stats_def prim_ops op_defs)
qed

lemma keeps_order_recent:
  "keeps (in_order rk) (bnd score_player (\<lambda>p. put_player (p\<lparr>sp_recent := f p\<rparr>)))"
proof (rule keeps_order_player_bnd)
  fix p w assume "in_order rk w" "w_players w (sc_player (w_score w)) = Some p"
  from order_put_player [OF this, of "p\<lparr>sp_recent := f p\<rparr>"]
  show "in_order rk (snd (put_player (p\<lparr>sp_recent := f p\<rparr>) w))" by (simp add: put_player_def modify_def)
qed

lemma keeps_order_notify: "keeps (in_order rk) notify_score_submitter_of_personal_best"
  unfolding notify_score_submitter_of_personal_best_def
  by (intro keeps_bnd keeps_order_score_bmap keeps_order_score_player keeps_gets keeps_if keeps_skip keeps_order_event)

lemma keeps_order_announce: "keeps (in_order rk) (announce_first_place E previous)"
  unfolding announce_first_place_def Let_def
  by (intro keeps_bnd keeps_order_score_bmap keeps_order_score_player keeps_gets keeps_if keeps_skip keeps_raise
      keeps_order_event)

lemma current_order: "current_stats rk st w \<Longrightarrow> in_order rk w"
  by (simp add: current_stats_def)

lemma triple_current: "keeps (current_stats rk st) m \<Longrightarrow>
    triple (current_stats rk st) m (\<lambda>_. current_stats rk st) (in_order rk)"
  by (erule triple_keeps) (simp_all add: current_order)

lemma triple_order: "keeps (in_order rk) m \<Longrightarrow> triple (in_order rk) m (\<lambda>_. in_order rk) (in_order rk)"
  by (simp add: keeps_triple)

lemma finish_keeps_order:
  "triple (current_stats rk (pr_current (ps_stats r))) (finish_submission E pending r) (\<lambda>_. in_order rk) (in_order rk)"
proof -
  let ?C = "current_stats rk (pr_current (ps_stats r))"
  have rank: "triple ?C (if pr_update_rank (ps_stats r)
          then bnd (update_rank E) (\<lambda>k. let st = (pr_current (ps_stats r))\<lparr>md_rank := k\<rparr> in thn (put_stats st) (retn st))
          else retn (pr_current (ps_stats r))) (\<lambda>_. in_order rk) (in_order rk)"
    unfolding Let_def
    by (rule triple_if, rule triple_bnd [OF triple_current [OF keeps_current_update_rank]],
        rule triple_thn [OF triple_put_stats], rule triple_retn, assumption)
       (rule triple_retn, erule current_order)
  show ?thesis
    unfolding finish_submission_def
    by (rule triple_thn [OF triple_current [OF keeps_current_commit]],
        rule triple_bnd [OF triple_current [OF keeps_gets]],
        rule triple_thn [OF triple_current], intro keeps_intros,
        rule triple_bnd [OF rank], rule triple_order,
        intro keeps_thn keeps_if keeps_order_event keeps_skip keeps_order_recent keeps_order_notify
          keeps_order_announce keeps_retn)
qed

section \<open>Every way through a submission\<close>

text \<open>What holds after a run that ended in \<open>res\<close>: a dead process has no memory left.\<close>

definition books :: "(pystr \<Rightarrow> bool) \<Rightarrow> 'a result \<times> sworld \<Rightarrow> bool" where
  "books rk o1 \<longleftrightarrow> scores_ok (w_db (snd o1)) \<and> ledger_ok rk (w_db (snd o1)) \<and>
     (fst o1 \<noteq> Inl Crash \<longrightarrow> memory_ok rk (snd o1))"

lemma books_order: "in_order rk (snd o1) \<Longrightarrow> books rk o1"
  by (simp add: books_def in_order_def)

lemma books_bnd:
  assumes "keeps (in_order rk) m" "in_order rk w"
    "\<And>x t. m w = (Inr x, t) \<Longrightarrow> in_order rk t \<Longrightarrow> books rk (k x t)"
  shows "books rk (bnd m k w)"
proof (cases "m w")
  case (Pair r t)
  have t: "in_order rk t" by (rule keepsD [OF assms(1,2) Pair])
  show ?thesis
  proof (cases r)
    case (Inl e)
    then show ?thesis using Pair t by (simp add: bnd_def books_order)
  next
    case (Inr x)
    then show ?thesis using Pair assms(3) t by (simp add: bnd_def)
  qed
qed

lemma books_thn:
  assumes "keeps (in_order rk) m" "in_order rk w"
    "\<And>x t. m w = (Inr x, t) \<Longrightarrow> in_order rk t \<Longrightarrow> books rk (k t)"
  shows "books rk (thn m k w)"
  unfolding thn_def by (rule books_bnd [OF assms(1,2)]) (rule assms(3))

lemma keeps_order_discard: "keeps (in_order rk) (discard_staged_replay E pending)"
  unfolding discard_staged_replay_def by (intro keeps_intros)

text \<open>Storing, or giving up: the books are kept either way.\<close>

lemma persist_books:
  assumes ok: "in_order rk w" and rated: "rated w"
  shows "books rk (store_submission E pending w)"
proof (cases "persist_score_submission E w")
  case (Pair res t)
  show ?thesis
  proof (cases res)
    case (Inr r)
    obtain p st where cur: "in_order rk t" "w_players t (sc_player (w_score t)) = Some p"
        "sp_stats p (sc_mode (w_score t)) = Some (pr_current (ps_stats r))"
    proof (rule persist_success [OF Pair [unfolded Inr]])
      fix b st0 st1 u1 st2 u2 best and p :: sub_player
      assume a: "w_players t = (w_players w)(sc_player (w_score w) \<mapsto>
          p\<lparr>sp_stats := (sp_stats p)(sc_mode (w_score w) \<mapsto> st2)\<rparr>)"
        "w_score t = w_score w\<lparr>sc_id := Some (t_next_score (w_db w))\<rparr>" "pr_current (ps_stats r) = st2"
      show thesis
        by (rule that [OF persist_keeps_order [OF Pair [unfolded Inr] ok rated]]) (simp add: a, simp add: a)
    qed
    then have "current_stats rk (pr_current (ps_stats r)) t" by (auto simp: current_stats_def)
    then have "in_order rk (snd (finish_submission E pending r t))"
      using finish_keeps_order [of rk r E pending] unfolding triple_def
      by (cases "finish_submission E pending r t"; cases "fst (finish_submission E pending r t)") auto
    then show ?thesis
      using Pair Inr by (simp add: store_submission_def bnd_def persist_or_discard_def books_order)
  next
    case (Inl e)
    note f = persist_failure [OF Pair [unfolded Inl]]
    show ?thesis
    proof (cases "e = Crash")
      case True
      then show ?thesis
        using Pair Inl f ok by (simp add: store_submission_def bnd_def persist_or_discard_def is_exception_def books_def in_order_def)
    next
      case False
      then have t: "in_order rk t" using f ok by (metis order_tick)
      have "keeps (in_order rk) (thn (discard_staged_replay E pending) (retn None :: persist_result option wop))"
        "keeps (in_order rk) (thn (discard_staged_replay E pending) (raise e :: persist_result option wop))"
        by (intro keeps_intros keeps_order_discard)+
      then have "in_order rk (snd (persist_or_discard E pending w))"
        using t Pair Inl keeps_exec unfolding exec_def persist_or_discard_def by fastforce
      moreover have "\<forall>r. fst (persist_or_discard E pending w) \<noteq> Inr (Some r)"
        using Pair Inl by (auto simp: persist_or_discard_def thn_def bnd_def retn_def raise_def split: prod.splits sum.splits)
      ultimately show ?thesis
        by (cases "persist_or_discard E pending w"; cases "fst (persist_or_discard E pending w)")
           (auto simp: store_submission_def bnd_def retn_def books_order split: option.splits)
    qed
  qed
qed

lemma new_score_unrated:
  "build_score_from_submission_request E rq md5 pid = Inr sc \<Longrightarrow> sc_prev_best sc = None"
  by (auto simp: build_score_from_submission_request_def from_submission_def bindE_Inr_iff Let_def)

lemma books_option:
  "(v = None \<Longrightarrow> books rk (m w)) \<Longrightarrow> (\<And>x. v = Some x \<Longrightarrow> books rk (k x w)) \<Longrightarrow>
   books rk ((case v of None \<Rightarrow> m | Some x \<Rightarrow> k x) w)"
  by (cases v) simp_all

lemma books_retn: "in_order rk w \<Longrightarrow> books rk (retn x w)"
  by (simp add: retn_def books_order)

lemma player_submission_books:
  assumes ok: "in_order rk w"
  shows "books rk (submit_as_player E rq md5 pid w)"
  unfolding submit_as_player_def
proof (rule books_bnd [OF keeps_lift ok], rule books_thn [OF keeps_order_score], assumption,
    rule books_thn [OF keeps_order_integrity], assumption, rule books_thn [OF keeps_order_event], assumption,
    rule books_thn [OF keeps_order_status_mode], assumption, rule books_bnd [OF keeps_order_prepare], assumption)
  fix sc :: score and t3 u4 t4 u5 t5 u6 t6 u7 t7 prepared t8
  assume r3: "lift_result (build_score_from_submission_request E rq md5 pid) w = (Inr sc, t3)"
    and r4: "set_score (\<lambda>_. sc) t3 = (Inr u4, t4)" and r5: "record_integrity E rq md5 t4 = (Inr u5, t5)"
    and r6: "emit_event (Latest_activity pid) t5 = (Inr u6, t6)"
    and r7: "update_submitter_status_mode t6 = (Inr u7, t7)" and o7: "in_order rk t7"
    and r8: "prepare_submission E rq t7 = (Inr prepared, t8)" and o8: "in_order rk t8"
  have "same_rating (w_db t4) sc t4" using r4 by (auto simp: set_score_def modify_def same_rating_def)
  from keepsD [OF keeps_rating_integrity this r5] have "same_rating (w_db t4) sc t5" .
  from keepsD [OF keeps_rating_event this r6] have "same_rating (w_db t4) sc t6" .
  from keepsD [OF keeps_rating_status_mode this r7] have "w_score t7 = sc" by (simp add: same_rating_def)
  then have new: "sc_prev_best (w_score t7) = None"
    using r3 new_score_unrated by (auto simp: lift_result_def)
  show "books rk ((case prepared of None \<Rightarrow> retn (Sub_error Duplicate_submission)
      | Some pending \<Rightarrow> store_submission E pending) t8)"
    by (rule books_option, rule books_retn [OF o8])
       (use persist_books [OF o8 prepare_rates [OF _ o7 new]] r8 in blast)
qed

lemma submission_books:
  assumes ok: "in_order rk w"
  shows "books rk (submit_score E rq w)"
  unfolding submit_score_def
  by (rule books_bnd [OF keeps_lift ok], rule books_bnd [OF keeps_order_io [OF keeps_gets]], assumption,
      rule books_option, erule books_retn, rule books_bnd [OF keeps_lift], assumption,
      rule books_option, erule books_retn, erule player_submission_books)

end
