(* ===== verification/Replays.thy ===== *)
theory Replays
  imports Booking
begin

text \<open>
  The replay of a submitted score: it is on disk before the row of the score is, so a score in
  the table is never without it, wherever the process stops.
\<close>

section \<open>What the other steps leave on disk\<close>

text \<open>The table of scores and a part \<open>f\<close> of the files: all of them, or none.\<close>

definition disk :: "((pystr \<Rightarrow> bytes option) \<Rightarrow> 'f) \<Rightarrow> sworld \<Rightarrow> score_row list \<times> int \<times> 'f" where
  "disk f w = (t_scores (w_db w), t_next_score (w_db w), f (w_files w))"

abbreviation disk_is :: "((pystr \<Rightarrow> bytes option) \<Rightarrow> 'f) \<Rightarrow> score_row list \<times> int \<times> 'f \<Rightarrow> sworld \<Rightarrow> bool" where
  "disk_is f v \<equiv> (\<lambda>w. disk f w = v)"

lemma keeps_disk_io [keeps_intros]: "keeps (disk_is f v) m \<Longrightarrow> keeps (disk_is f v) (io E m)"
  by (rule keeps_io) (simp_all add: disk_def)

lemma keeps_disk_event [keeps_intros]: "keeps (disk_is f v) (emit_event e)"
  unfolding emit_event_def by (rule keeps_modify) (simp add: disk_def)

lemma keeps_disk_score [keeps_intros]: "keeps (disk_is f v) (set_score g)"
  unfolding set_score_def by (rule keeps_modify) (simp add: disk_def)

lemma keeps_disk_users [keeps_intros]: "keeps (disk_is f v) (on_db (\<lambda>d. d\<lparr>t_users := g d\<rparr>))"
  unfolding on_db_def by (rule keeps_modify) (simp add: disk_def)

lemma keeps_disk_put_player [keeps_intros]: "keeps (disk_is f v) (put_player p)"
  unfolding put_player_def by (rule keeps_modify) (simp add: disk_def)

lemma keeps_disk_player [keeps_intros]: "(\<And>p. keeps (disk_is f v) (k p)) \<Longrightarrow> keeps (disk_is f v) (bnd score_player k)"
  unfolding score_player_def by (intro keeps_bnd keeps_gets keeps_the_or)

lemma keeps_disk_bmap [keeps_intros]: "(\<And>b. keeps (disk_is f v) (k b)) \<Longrightarrow> keeps (disk_is f v) (bnd score_bmap k)"
  unfolding score_bmap_def by (intro keeps_bnd keeps_gets keeps_the_or)

lemma keeps_disk_put_stats [keeps_intros]: "keeps (disk_is f v) (put_stats st)"
  unfolding put_stats_def by (intro keeps_disk_player keeps_bnd keeps_gets keeps_disk_put_player)

lemma keeps_disk_integrity: "keeps (disk_is f v) (record_integrity E rq md5)"
  unfolding record_integrity_def
  by (rule keeps_disk_player, rule keeps_bnd [OF keeps_gets], rule keeps_result [OF keeps_skip],
      rule keeps_if [OF keeps_disk_io [OF keeps_disk_event] keeps_raise])

lemma keeps_disk_status_mode: "keeps (disk_is f v) update_submitter_status_mode"
  unfolding update_submitter_status_mode_def
  by (intro keeps_bnd [OF keeps_gets] keeps_disk_player keeps_if keeps_thn keeps_disk_put_player keeps_disk_event keeps_skip)

lemma keeps_disk_rating: "keeps (disk_is f v) (calculate_score_submission_status E st ft)"
proof -
  have "keeps (disk_is f v) (calculate_performance E)"
    unfolding calculate_performance_def by (intro keeps_intros)
  moreover have "keeps (disk_is f v) (score_from_sql E i)" for i
    unfolding score_from_sql_def calculate_placement_def by (intro keeps_intros)
  then have "keeps (disk_is f v) (calculate_status E)"
    unfolding calculate_status_def by (intro keeps_disk_player keeps_disk_bmap keeps_intros)
  ultimately show ?thesis
    unfolding calculate_score_submission_status_def calculate_placement_def
    by (intro keeps_disk_bmap keeps_intros)
qed

lemma keeps_disk_missing_replay: "keeps (disk_is f v) (restrict_player_for_missing_replay E)"
proof -
  have lo: "keeps (disk_is f v) logout_player"
    unfolding logout_player_def by (intro keeps_disk_player keeps_intros)
  have "keeps (disk_is f v) (restrict_submitter E reason)" for reason
    unfolding restrict_submitter_trail restriction_trail_def
    by (intro keeps_disk_player keeps_intros lo)
  then show ?thesis
    unfolding restrict_player_for_missing_replay_def
    by (intro keeps_disk_player keeps_if keeps_thn lo keeps_skip)
qed

lemma keeps_table_stage: "keeps (disk_is (\<lambda>_. ()) v) (stage_replay_file E d c)"
proof -
  have "keeps (disk_is (\<lambda>_. ()) v) (write_replay_bytes E path x)" for path x
    by (auto simp: keeps_def write_replay_bytes_def disk_def Let_def split: option.splits)
  then show ?thesis unfolding stage_replay_file_def Let_def by (intro keeps_intros)
qed

lemma keeps_table_stage_submission: "keeps (disk_is (\<lambda>_. ()) v) (stage_submission E rq)"
  unfolding stage_submission_def read_submitted_replay_file_def
  by (intro keeps_intros keeps_disk_missing_replay keeps_table_stage)

lemma keeps_table_prepare: "keeps (disk_is (\<lambda>_. ()) v) (prepare_submission E rq)"
  unfolding prepare_unfold score_submission_is_duplicate_def
  by (intro keeps_intros keeps_disk_rating keeps_table_stage_submission)

section \<open>The replay is there first\<close>

definition passed_is :: "bool \<Rightarrow> sworld \<Rightarrow> bool" where
  "passed_is v w \<longleftrightarrow> sc_passed (w_score w) = v"

lemma keeps_passed_io [keeps_intros]: "keeps (passed_is v) m \<Longrightarrow> keeps (passed_is v) (io E m)"
  by (rule keeps_io) (simp_all add: passed_is_def)

lemma keeps_passed_score: "(\<And>s. sc_passed (g s) = sc_passed s) \<Longrightarrow> keeps (passed_is v) (set_score g)"
  unfolding set_score_def by (rule keeps_modify) (simp add: passed_is_def)

lemma keeps_passed_performance: "keeps (passed_is v) (calculate_performance E)"
  unfolding calculate_performance_def by (intro keeps_intros keeps_passed_score) simp

lemma keeps_passed_status: "keeps (passed_is v) (calculate_status E)"
proof -
  have "keeps (passed_is v) (score_from_sql E i)" for i
    unfolding score_from_sql_def calculate_placement_def by (intro keeps_intros)
  then show ?thesis
    unfolding calculate_status_def score_player_def score_bmap_def
    by (intro keeps_intros keeps_passed_score) simp_all
qed

lemma keeps_passed_rating: "keeps (passed_is v) (calculate_score_submission_status E st ft)"
  unfolding calculate_score_submission_status_def calculate_placement_def score_bmap_def
  by (intro keeps_intros keeps_passed_score keeps_passed_performance keeps_passed_status) simp_all

lemma triple_any: "keeps P m \<Longrightarrow> triple P m (\<lambda>_. P) (\<lambda>_. True)"
  by (erule triple_keeps) simp_all

lemma rating_fails:
  "triple (passed_is False) (calculate_score_submission_status E st ft)
     (\<lambda>_ w. sc_status (w_score w) = SS_FAILED) (\<lambda>_. True)"
proof -
  let ?F = "\<lambda>w. passed_is False w \<and> sc_status (w_score w) = SS_FAILED"
  have sc: "triple (passed_is False) (set_score (\<lambda>s. s\<lparr>sc_acc := acc, sc_pp := 0, sc_sr := 0,
      sc_status := (if sc_passed s then SS_SUBMITTED else SS_FAILED)\<rparr>)) (\<lambda>_. ?F) (\<lambda>_. True)" for acc
    unfolding set_score_def by (rule triple_modify) (simp add: passed_is_def)
  have io: "triple ?F (io E (retn x)) (\<lambda>_. ?F) (\<lambda>_. True)" for x :: bool
    by (auto simp: triple_def io_def retn_def passed_is_def Let_def split: option.splits)
  have perf: "triple ?F (thn (calculate_performance E) (if sc_passed sc then q
      else set_score (\<lambda>s. s\<lparr>sc_status := SS_FAILED\<rparr>))) (\<lambda>_. ?F) (\<lambda>_. True)" if "\<not> sc_passed sc" for sc :: score and q
    using that
    by (auto intro!: triple_thn [where R = "passed_is False"] triple_conseq [OF triple_any [OF keeps_passed_performance]]
        triple_modify simp: set_score_def) (simp add: passed_is_def)
  show ?thesis
    unfolding calculate_score_submission_status_def
  proof (rule triple_bnd [OF triple_any], simp add: score_bmap_def keeps_intros, rule triple_gets_bnd)
    fix b and sc :: score
    show "triple (\<lambda>s. passed_is False s \<and> w_score s = sc) (bnd (lift_result (calculate_accuracy sc)) (\<lambda>acc.
       thn (set_score (\<lambda>s. s\<lparr>sc_acc := acc, sc_pp := 0, sc_sr := 0,
              sc_status := (if sc_passed s then SS_SUBMITTED else SS_FAILED)\<rparr>))
       (bnd (io E (retn (se_osu_file E (bm_id b) (bm_md5 b)))) (\<lambda>available.
        thn (if available
             then thn (calculate_performance E)
               (if sc_passed sc
                then thn (calculate_status E)
                  (if bm_status b \<noteq> RS_PENDING
                   then bnd (gets w_score) (\<lambda>sc'.
                          bnd (calculate_placement E (bm_md5 b) (sc_mode sc') (sc_pp sc') (sc_score sc'))
                            (\<lambda>k. set_score (\<lambda>s. s\<lparr>sc_rank := Some k\<rparr>)))
                   else skip)
                else set_score (\<lambda>s. s\<lparr>sc_status := SS_FAILED\<rparr>))
             else skip)
          (set_score (\<lambda>s. s\<lparr>sc_time_elapsed := (if sc_passed s then st else ft)\<rparr>))))))
      (\<lambda>_ w. sc_status (w_score w) = SS_FAILED) (\<lambda>_. True)"
    proof (cases "sc_passed sc")
      case True
      then show ?thesis unfolding triple_def passed_is_def by blast
    next
      case False
      have "triple (passed_is False) (lift_result (calculate_accuracy sc)) (\<lambda>_. passed_is False) (\<lambda>_. True)"
        by (rule triple_any [OF keeps_lift])
      then have acc: "triple (\<lambda>s. passed_is False s \<and> w_score s = sc) (lift_result (calculate_accuracy sc))
          (\<lambda>_. passed_is False) (\<lambda>_. True)"
        by (rule triple_conseq) simp_all
      show ?thesis
        by (rule triple_bnd [OF acc], rule triple_thn [OF sc], rule triple_bnd [OF io], rule triple_thn [where R = ?F],
            rule triple_if, rule perf [OF False], rule triple_skip, assumption)
           (unfold set_score_def, rule triple_modify, simp)
    qed
  qed
qed

lemma stage_stages:
  assumes run: "stage_submission E rq w = (Inr (Some pending), w')"
    and ok: "sc_passed (w_score w)" "length (rq_replay rq) \<ge> MIN_REPLAY_SIZE"
  shows "pending = Some (pending_replay_path (sc_checksum (w_score w'))) \<and>
    w_files w' (pending_replay_path (sc_checksum (w_score w'))) = Some (rq_replay rq)"
  using run ok
  by (auto simp: stage_submission_def read_submitted_replay_file_def replay_data_is_valid_def inv_simps prim_ops
      stage_replay_file_def write_replay_bytes_def Let_def split: if_splits option.splits)

lemma prepare_stages:
  assumes run: "prepare_submission E rq w = (Inr (Some pending), w')"
    and ok: "sc_status (w_score w') \<noteq> SS_FAILED" "length (rq_replay rq) \<ge> MIN_REPLAY_SIZE"
  shows "pending = Some (pending_replay_path (sc_checksum (w_score w'))) \<and>
    w_files w' (pending_replay_path (sc_checksum (w_score w'))) = Some (rq_replay rq)"
proof -
  obtain w1 where rate: "calculate_score_submission_status E (rq_score_time rq) (rq_fail_time rq)
      (w\<lparr>w_tick := Suc (w_tick w)\<rparr>) = (Inr (), w1)"
    and stage: "stage_submission E rq w1 = (Inr (Some pending), w')"
    using run by (auto simp: prepare_unfold score_submission_is_duplicate_def inv_simps split: if_splits)
  have same: "same_rating (w_db w1) (w_score w1) w'"
    by (rule keepsD [OF keeps_rating_submission _ stage]) (simp add: same_rating_def)
  have "sc_passed (w_score w1)"
  proof (rule ccontr)
    assume np: "\<not> sc_passed (w_score w1)"
    have "sc_passed (w_score w1) = sc_passed (w_score w)"
      using keepsD [OF keeps_passed_rating _ rate, of "sc_passed (w_score w)"] by (simp add: passed_is_def)
    with tripleD [OF rating_fails _ rate] np same ok(1) show False by (simp add: same_rating_def passed_is_def)
  qed
  from stage_stages [OF stage this ok(2)] show ?thesis .
qed

section \<open>The replay stays\<close>

definition replay_kept :: "bytes \<Rightarrow> int \<Rightarrow> pystr \<Rightarrow> sworld \<Rightarrow> bool" where
  "replay_kept d i c w \<longleftrightarrow> w_files w (pending_replay_path c) = Some d \<or> w_files w (replay_path i) = Some d"

lemma commit_keeps_replay:
  assumes id: "sc_id (w_score w) = Some i" and onf: "w_files w (pending_replay_path c) = Some d"
    and run: "commit_replay_file E (Some (pending_replay_path c)) w = (res, w')"
  shows "replay_kept d i c w' \<and> disk (\<lambda>_. ()) w' = disk (\<lambda>_. ()) w"
proof (cases "se_fault E (w_tick w)")
  case None
  then show ?thesis
    using run id onf
    by (auto simp: commit_replay_file_def catch_def io_def rename_file_def bnd_def gets_def retn_def modify_def
        replay_kept_def disk_def Let_def)
next
  case (Some e)
  then show ?thesis
    using run id onf
    by (cases "e = OSError") (auto simp: commit_replay_file_def catch_def io_def bnd_def gets_def retn_def skip_def
        replay_kept_def disk_def Let_def)
qed

definition finish_rest :: "sub_env \<Rightarrow> pystr option \<Rightarrow> persist_result \<Rightarrow> sub_result wop" where
  "finish_rest E pending r =
     bnd (gets w_score) (\<lambda>sc.
     thn (if pending \<noteq> None then emit_event (Replay_analysis (ps_score_id r) (sc_mode sc)) else skip)
    (bnd (if pr_update_rank (ps_stats r)
          then bnd (update_rank E) (\<lambda>k. let st = (pr_current (ps_stats r))\<lparr>md_rank := k\<rparr>
                                         in thn (put_stats st) (retn st))
          else retn (pr_current (ps_stats r))) (\<lambda>current.
     thn (if pr_public (ps_stats r) then emit_event (Publish_stats (sc_player sc)) else skip)
    (thn (bnd score_player (\<lambda>p. put_player (p\<lparr>sp_recent := (sp_recent p)(sc_mode sc := Some (Some sc))\<rparr>)))
    (thn (if sc_status sc = SS_BEST
          then thn notify_score_submitter_of_personal_best
              (thn (announce_first_place E (ps_first_place r))
                   (emit_event (Discord_first_place (ps_first_place r))))
          else skip)
    (thn (emit_event (Activity_published (ps_score_id r)))
         (retn (Submitted sc (ps_score_id r) (pr_previous (ps_stats r)) current (ps_achievements r)))))))))"

lemma finish_unfold: "finish_submission E pending r = thn (commit_replay_file E pending) (finish_rest E pending r)"
  unfolding finish_submission_def finish_rest_def ..

lemma keeps_disk_announce: "keeps (disk_is f v) (announce_first_place E previous)"
  unfolding announce_first_place_def Let_def
  by (intro keeps_disk_bmap keeps_disk_player keeps_bnd [OF keeps_gets] keeps_if keeps_skip keeps_raise keeps_disk_event)

lemma keeps_disk_notify: "keeps (disk_is f v) notify_score_submitter_of_personal_best"
  unfolding notify_score_submitter_of_personal_best_def
  by (intro keeps_disk_bmap keeps_disk_player keeps_bnd [OF keeps_gets] keeps_if keeps_skip keeps_disk_event)

lemma keeps_disk_update_rank: "keeps (disk_is f v) (update_rank E)"
  unfolding update_rank_def by (intro keeps_disk_player keeps_thn keeps_if keeps_skip keeps_disk_io keeps_retn)

lemma keeps_disk_finish: "keeps (disk_is f v) (finish_rest E pending r)"
  unfolding finish_rest_def Let_def
  by (intro keeps_thn keeps_bnd [OF keeps_gets] keeps_if keeps_skip keeps_disk_event keeps_disk_player
      keeps_disk_put_player keeps_disk_notify keeps_disk_announce keeps_retn
      keeps_bnd [OF keeps_disk_update_rank] keeps_disk_put_stats
      | rule keeps_bnd)+

lemma finish_keeps_replay:
  assumes id: "sc_id (w_score w) = Some i" and onf: "w_files w (pending_replay_path c) = Some d"
    and run: "finish_submission E (Some (pending_replay_path c)) r w = (res, w')"
  shows "replay_kept d i c w' \<and> disk (\<lambda>_. ()) w' = disk (\<lambda>_. ()) w"
proof -
  obtain res1 w1 where c: "commit_replay_file E (Some (pending_replay_path c)) w = (res1, w1)" by fastforce
  note k = commit_keeps_replay [OF id onf c]
  show ?thesis
  proof (cases res1)
    case (Inl e)
    then show ?thesis using run c k by (simp add: finish_unfold thn_def bnd_def)
  next
    case (Inr u)
    then have "finish_rest E (Some (pending_replay_path c)) r w1 = (res, w')"
      using run c by (simp add: finish_unfold thn_def bnd_def)
    from keepsD [OF keeps_disk_finish _ this, of id "disk id w1"] have "disk id w' = disk id w1" by simp
    then show ?thesis using k by (auto simp: disk_def replay_kept_def)
  qed
qed

lemma keeps_table_finish: "keeps (disk_is (\<lambda>_. ()) v) (finish_submission E pending r)"
proof -
  have "keeps (disk_is (\<lambda>_. ()) v) (modify (\<lambda>w. w\<lparr>w_files := g w\<rparr>))" for g
    by (rule keeps_modify) (simp add: disk_def)
  then have "keeps (disk_is (\<lambda>_. ()) v) (commit_replay_file E pending)"
    unfolding commit_replay_file_def rename_file_def by (intro keeps_intros)
  then show ?thesis unfolding finish_unfold by (intro keeps_thn keeps_disk_finish)
qed

section \<open>No score without its replay\<close>

text \<open>
  The scores the run added (the ids from \<open>n\<close> on) that were passed have the replay \<open>d\<close> on disk.
\<close>

definition added_kept :: "int \<Rightarrow> bytes \<Rightarrow> sworld \<Rightarrow> bool" where
  "added_kept n d w \<longleftrightarrow> (\<forall>r \<in> set (t_scores (w_db w)). n \<le> sr_id r \<longrightarrow> sr_status r \<noteq> status_value SS_FAILED \<longrightarrow>
     replay_kept d (sr_id r) (sr_checksum r) w)"

lemma added_none:
  "disk (\<lambda>_. ()) w = (ts, n, ()) \<Longrightarrow> \<forall>r \<in> set ts. sr_id r < n \<Longrightarrow> added_kept n d w"
  by (auto simp: added_kept_def disk_def)

lemma added_bnd:
  assumes "keeps (disk_is (\<lambda>_. ()) (ts, n, ())) m" "disk (\<lambda>_. ()) w = (ts, n, ())" "\<forall>r \<in> set ts. sr_id r < n"
    "\<And>x t. m w = (Inr x, t) \<Longrightarrow> disk (\<lambda>_. ()) t = (ts, n, ()) \<Longrightarrow> added_kept n d (snd (k x t))"
  shows "added_kept n d (snd (bnd m k w))"
proof (cases "m w")
  case (Pair r t)
  have t: "disk (\<lambda>_. ()) t = (ts, n, ())" by (rule keepsD [OF assms(1,2) Pair])
  show ?thesis
    using Pair assms(4) t added_none [OF t assms(3)] by (cases r) (auto simp: bnd_def)
qed

lemma added_thn:
  assumes "keeps (disk_is (\<lambda>_. ()) (ts, n, ())) m" "disk (\<lambda>_. ()) w = (ts, n, ())" "\<forall>r \<in> set ts. sr_id r < n"
    "\<And>x t. m w = (Inr x, t) \<Longrightarrow> disk (\<lambda>_. ()) t = (ts, n, ()) \<Longrightarrow> added_kept n d (snd (k t))"
  shows "added_kept n d (snd (thn m k w))"
  unfolding thn_def by (rule added_bnd [OF assms(1-3)]) (rule assms(4))

lemma status_value_failed: "status_value st = status_value SS_FAILED \<longleftrightarrow> st = SS_FAILED"
  by (cases st) simp_all

text \<open>Storing the score: the only step that adds a row.\<close>

lemma store_keeps_replay:
  assumes disk: "disk (\<lambda>_. ()) w = (ts, n, ())" and old: "\<forall>r \<in> set ts. sr_id r < n"
    and staged: "sc_status (w_score w) \<noteq> SS_FAILED \<Longrightarrow> pending = Some (pending_replay_path (sc_checksum (w_score w))) \<and>
      w_files w (pending_replay_path (sc_checksum (w_score w))) = Some d"
  shows "added_kept n d (snd (store_submission E pending w))"
proof (cases "persist_score_submission E w")
  case (Pair res t)
  show ?thesis
  proof (cases res)
    case (Inl e)
    have "w_db t = w_db w" using persist_failure [OF Pair [unfolded Inl]] by simp
    then have t: "disk (\<lambda>_. ()) t = (ts, n, ())" using disk by (simp add: disk_def)
    have f: "keeps (disk_is (\<lambda>_. ()) v) (modify (\<lambda>w. w\<lparr>w_files := g w\<rparr>))" for g v
      by (rule keeps_modify) (simp add: disk_def)
    have "keeps (disk_is (\<lambda>_. ()) (ts, n, ())) (thn (discard_staged_replay E pending) (retn None :: persist_result option wop))"
      "keeps (disk_is (\<lambda>_. ()) (ts, n, ())) (thn (discard_staged_replay E pending) (raise e :: persist_result option wop))"
      unfolding discard_staged_replay_def by (intro keeps_intros f)+
    then have p: "disk (\<lambda>_. ()) (snd (persist_or_discard E pending w)) = (ts, n, ())"
      using t Pair Inl keeps_exec unfolding exec_def persist_or_discard_def by fastforce
    moreover have "\<forall>r. fst (persist_or_discard E pending w) \<noteq> Inr (Some r)"
      using Pair Inl by (auto simp: persist_or_discard_def thn_def bnd_def retn_def raise_def split: prod.splits sum.splits)
    ultimately have "disk (\<lambda>_. ()) (snd (store_submission E pending w)) = (ts, n, ())"
      by (cases "persist_or_discard E pending w"; cases "fst (persist_or_discard E pending w)")
         (auto simp: store_submission_def bnd_def retn_def split: option.splits)
    then show ?thesis using old by (rule added_none)
  next
    case (Inr r)
    have run: "store_submission E pending w = finish_submission E pending r t"
      using Pair Inr by (simp add: store_submission_def bnd_def persist_or_discard_def)
    obtain b p where
      ts: "t_scores (w_db t) = t_scores (create_score (score_to_row E (w_score w) b p)
         (if sc_status (w_score w) = SS_BEST
          then mark_previous_best (bm_md5 b) (sp_id p) (sc_mode (w_score w)) (w_db w) else w_db w))"
      and sc: "w_score t = (w_score w)\<lparr>sc_id := Some (t_next_score (w_db w))\<rparr>" and fl: "w_files t = w_files w"
      by (rule persist_success [OF Pair [unfolded Inr]], rule that)
    have n: "t_next_score (w_db w) = n" "t_scores (w_db w) = ts" using disk by (simp_all add: disk_def)
    define d1 where "d1 = (if sc_status (w_score w) = SS_BEST
          then mark_previous_best (bm_md5 b) (sp_id p) (sc_mode (w_score w)) (w_db w) else w_db w)"
    have "map sr_id (t_scores d1) = map sr_id ts"
      unfolding d1_def n(2) [symmetric] by (simp add: map_mark)
    then have "sr_id ` set (t_scores d1) = sr_id ` set ts" by (metis set_map)
    then have low: "\<forall>x \<in> set (t_scores d1). sr_id x < n" using old by (metis image_iff)
    have n1: "t_next_score d1 = n" by (simp add: d1_def n mark_previous_best_def)
    have rows: "n \<le> sr_id x \<Longrightarrow> x = (score_to_row E (w_score w) b p)\<lparr>sr_id := n\<rparr>" if "x \<in> set (t_scores (w_db t))" for x
      using that low unfolding ts d1_def [symmetric] by (auto simp: create_score_def n1)
    obtain res' w' where fin: "finish_submission E pending r t = (res', w')" by fastforce
    show ?thesis
    proof (cases "sc_status (w_score w) = SS_FAILED")
      case True
      have "disk (\<lambda>_. ()) w' = disk (\<lambda>_. ()) t"
        by (rule keepsD [OF keeps_table_finish _ fin]) simp
      then have "t_scores (w_db w') = t_scores (w_db t)" by (simp add: disk_def)
      then show ?thesis using True rows by (fastforce simp: added_kept_def run fin)
    next
      case False
      note st = staged [OF False]
      have "replay_kept d n (sc_checksum (w_score w)) w' \<and> disk (\<lambda>_. ()) w' = disk (\<lambda>_. ()) t"
        by (rule finish_keeps_replay [where r = r and E = E and w = t and res = res'])
           (use st fin in \<open>simp_all add: sc fl n\<close>)
      then have k: "replay_kept d n (sc_checksum (w_score w)) w'" and "t_scores (w_db w') = t_scores (w_db t)"
        by (auto simp: disk_def)
      then show ?thesis using rows by (fastforce simp: added_kept_def run fin)
    qed
  qed
qed

lemma submit_keeps_replay:
  assumes ok: "in_order rk w" and valid: "length (rq_replay rq) \<ge> MIN_REPLAY_SIZE"
  shows "added_kept (t_next_score (w_db w)) (rq_replay rq) (snd (submit_score E rq w))"
proof -
  define n where "n = t_next_score (w_db w)"
  define ts where "ts = t_scores (w_db w)"
  have disk: "disk (\<lambda>_. ()) w = (ts, n, ())" by (simp add: disk_def n_def ts_def)
  have old: "\<forall>r \<in> set ts. sr_id r < n" using ok by (simp add: in_order_def scores_ok_def n_def ts_def)
  have none: "added_kept n (rq_replay rq) (snd (retn x u))" if "disk (\<lambda>_. ()) u = (ts, n, ())" for x :: sub_result and u
    using added_none [OF that old] by (simp add: retn_def)
  have player: "added_kept n (rq_replay rq) (snd (submit_as_player E rq md5 pid u))"
    if u: "disk (\<lambda>_. ()) u = (ts, n, ())" for md5 pid u
    unfolding submit_as_player_def
  proof (rule added_bnd [OF keeps_lift u old], rule added_thn [OF keeps_disk_score _ old], assumption,
      rule added_thn [OF keeps_disk_integrity _ old], assumption, rule added_thn [OF keeps_disk_event _ old], assumption,
      rule added_thn [OF keeps_disk_status_mode _ old], assumption, rule added_bnd [OF keeps_table_prepare _ old], assumption)
    fix t7 prepared t8
    assume r8: "prepare_submission E rq t7 = (Inr prepared, t8)" and d8: "disk (\<lambda>_. ()) t8 = (ts, n, ())"
    show "added_kept n (rq_replay rq) (snd ((case prepared of None \<Rightarrow> retn (Sub_error Duplicate_submission)
        | Some pending \<Rightarrow> store_submission E pending) t8))"
    proof (cases prepared)
      case None
      then show ?thesis using none [OF d8] by simp
    next
      case (Some pending)
      then show ?thesis
        using store_keeps_replay [OF d8 old prepare_stages [OF r8 [unfolded Some] _ valid]] by simp
    qed
  qed
  have "added_kept n (rq_replay rq) (snd (submit_score E rq w))"
    unfolding submit_score_def
  proof (rule added_bnd [OF keeps_lift disk old], rule added_bnd [OF keeps_disk_io [OF keeps_gets] _ old], assumption)
    fix md5 t1 beatmap t2 assume d2: "disk (\<lambda>_. ()) t2 = (ts, n, ())"
    show "added_kept n (rq_replay rq) (snd ((case beatmap of None \<Rightarrow> retn (Sub_error Beatmap_not_found)
        | Some _ \<Rightarrow> bnd (lift_result (score_submission_username rq)) (\<lambda>username.
           case se_authenticate E username (rq_password_md5 rq) of
             None \<Rightarrow> retn (Sub_error Player_not_found) | Some pid \<Rightarrow> submit_as_player E rq md5 pid)) t2))"
    proof (cases beatmap)
      case None
      then show ?thesis using none [OF d2] by simp
    next
      case (Some b)
      show ?thesis
        unfolding Some option.case
      proof (rule added_bnd [OF keeps_lift d2 old])
        fix username t3 assume d3: "disk (\<lambda>_. ()) t3 = (ts, n, ())"
        show "added_kept n (rq_replay rq) (snd ((case se_authenticate E username (rq_password_md5 rq) of
             None \<Rightarrow> retn (Sub_error Player_not_found) | Some pid \<Rightarrow> submit_as_player E rq md5 pid) t3))"
          using none [OF d3] player [OF d3] by (cases "se_authenticate E username (rq_password_md5 rq)") simp_all
      qed
    qed
  qed
  then show ?thesis by (simp add: n_def)
qed

end
