(* ===== verification/Sample.thy ===== *)
theory Sample
  imports Replays Rules
begin

text \<open>
  A concrete submission, the input of the witnesses: player 5 sends a passed score on a ranked
  map; the database holds the map, the player and empty statistics, and no step fails. The last
  lemma follows the request from the parser to the replay file.
\<close>

definition zero_stats :: mode_stats where
  "zero_stats = \<lparr>tscore = 0, rscore = 0, md_pp = 0, md_acc = 0, plays = 0, playtime = 0, md_max_combo = 0,
     total_hits = 0, md_rank = 0, md_grades = (\<lambda>_. 0)\<rparr>"

definition trial_map :: bmap where
  "trial_map = \<lparr>bm_md5 = py ''m'', bm_id = 7, bm_status = RS_RANKED, bm_plays = 3, bm_passes = 1, bm_embed = py ''song''\<rparr>"

definition trial_submitter :: sub_player where
  "trial_submitter = \<lparr>sp_id = 5, sp_name = py ''cmyui'', sp_priv = P_UNRESTRICTED, sp_online = True, sp_mode = 0, sp_mods = 0,
     sp_stats = (\<lambda>_. None)(0 := Some zero_stats), sp_recent = (\<lambda>_. Some None), sp_client = None\<rparr>"

definition trial_data :: "pystr list" where
  "trial_data = [py ''m'', py ''cmyui'', py ''c0ffee'', str_int 90, str_int 8, str_int 1, str_int 20, str_int 4, str_int 1,
     str_int 500000, str_int 250, py ''False'', py ''A'', str_int 8, py ''True'', str_int 0, py ''240131235959'', py ''20240101'']"

definition trial_rq :: sub_request where
  "trial_rq = \<lparr>rq_score_data = trial_data, rq_password_md5 = [], rq_osu_version = [], rq_client_hash = [], rq_unique_ids = [],
     rq_storyboard_md5 = None, rq_updated_beatmap_hash = [], rq_score_time = 61500, rq_fail_time = 0,
     rq_replay = replicate 30 7\<rparr>"

definition trial_env :: "(nat \<Rightarrow> exn option) \<Rightarrow> sub_env" where
  "trial_env f = \<lparr>se_fault = f, se_digit = ascii_digit, se_md5 = (\<lambda>_. []), se_now = ((2024, 1, 31), (23, 59, 59)),
     se_authenticate = (\<lambda>_ _. Some 5), se_column = (\<lambda>_ x. x), se_osu_file = (\<lambda>_ _. True),
     se_performance = (\<lambda>_. Inr (100, 4, None, None, None)), se_pow = (\<lambda>x n. x ^ n), se_condition = (\<lambda>_ _ _. Inr False),
     se_rank = 1, se_announce_channel = True, se_domain = py ''d'', se_torn = 0\<rparr>"

definition trial_score :: score where
  "trial_score = \<lparr>sc_id = None, sc_map = [], sc_player = 0, sc_mode = 0, sc_mods = 8, sc_pp = 0, sc_sr = 0,
     sc_pp_aim = None, sc_pp_speed = None, sc_pp_flashlight = None, sc_score = 500000, sc_max_combo = 250, sc_acc = 0,
     sc_n300 = 90, sc_n100 = 8, sc_n50 = 1, sc_nmiss = 1, sc_ngeki = 20, sc_nkatu = 4, sc_grade = G_A,
     sc_passed = True, sc_perfect = False, sc_status = SS_FAILED, sc_client_time = ((2024, 1, 31), (23, 59, 59)),
     sc_server_time = ((2024, 1, 31), (23, 59, 59)), sc_time_elapsed = 0, sc_client_flags = 0,
     sc_checksum = py ''c0ffee'', sc_rank = None, sc_prev_best = None\<rparr>"

definition trial_world :: sworld where
  "trial_world = \<lparr>w_db = \<lparr>t_scores = [], t_next_score = 1, t_stats = (\<lambda>_. None)((5, 0) := Some zero_stats),
       t_maps = [\<lparr>mr_id = 7, mr_md5 = py ''m'', mr_status = RS_RANKED, mr_plays = 3, mr_passes = 1\<rparr>],
       t_users = [\<lparr>du_id = 5, du_name = py ''cmyui'', du_priv = 1\<rparr>], t_achievements = [], t_user_achievements = []\<rparr>,
     w_bmaps = (\<lambda>_. None)(py ''m'' := Some trial_map), w_players = (\<lambda>_. None)(5 := Some trial_submitter),
     w_score = trial_score, w_files = (\<lambda>_. None), w_events = [], w_tick = 0\<rparr>"

lemma trial_time: "parse_client_time ascii_digit (py ''240131235959'') = Inr ((2024, 1, 31), (23, 59, 59))"
  by (simp add: parse_client_time_def time_directives_def is_dec_def ch_in_def py_def ascii_digit_def strip_def date_of_def
      is_space_def days_in_month_def)

lemma trial_grade: "grade_of_str (py ''A'') = Inr G_A"
  by code_simp

lemma trial_mode: "from_params 0 8 = Inr 0"
  by code_simp

lemma trial_flags: "filter (\<lambda>c. c = 32) (py ''20240101'') = []"
  by (simp add: py_def)

lemma trial_true: "is_true (py ''True'')" "\<not> is_true (py ''False'')"
  by (simp_all add: is_true_def py_def)

lemma trial_parsed: "from_submission ascii_digit ((2024, 1, 31), (23, 59, 59)) (drop 2 trial_data) = Inr trial_score"
  by (simp add: from_submission_def trial_data_def at_pos_def py_int_str_int trial_time trial_grade trial_mode trial_flags
       trial_true trial_score_def bindE_def)

lemma trial_accuracy: "\<exists>a. calculate_accuracy (trial_score\<lparr>sc_map := m, sc_player := 5\<rparr>) = Inr a"
  by (simp add: calculate_accuracy_def trial_score_def as_vanilla_def)

definition sent_score :: score where
  "sent_score = trial_score\<lparr>sc_map := py ''m'', sc_player := 5\<rparr>"

definition integrity_world :: sworld where
  "integrity_world = trial_world\<lparr>w_score := sent_score, w_tick := Suc (Suc 0), w_events := [Integrity_failure, Latest_activity 5]\<rparr>"

definition calm :: sub_env where "calm = trial_env (\<lambda>_. None)"

lemma calm_sel [simp]: "se_fault calm = (\<lambda>_. None)" "se_digit calm = ascii_digit" "se_md5 calm = (\<lambda>_. [])"
  "se_now calm = ((2024, 1, 31), (23, 59, 59))" "se_authenticate calm = (\<lambda>_ _. Some 5)" "se_column calm = (\<lambda>_ x. x)"
  "se_osu_file calm = (\<lambda>_ _. True)" "se_performance calm = (\<lambda>_. Inr (100, 4, None, None, None))"
  "se_pow calm = (\<lambda>x n. x ^ n)" "se_condition calm = (\<lambda>_ _ _. Inr False)" "se_rank calm = 1"
  "se_announce_channel calm" "se_domain calm = py ''d''"
  by (simp_all add: calm_def trial_env_def)

lemma io_calm [simp]: "io calm m w = m (w\<lparr>w_tick := Suc (w_tick w)\<rparr>)"
  by (simp add: io_def)

lemma trial_start: "submit_score calm trial_rq trial_world =
  bnd (prepare_submission calm trial_rq) (\<lambda>prepared.
     case prepared of
       None \<Rightarrow> retn (Sub_error Duplicate_submission)
     | Some pending \<Rightarrow> store_submission calm pending) integrity_world"
proof -
  have md5: "score_submission_beatmap_md5 trial_rq = Inr (py ''m'')"
    by (simp add: score_submission_beatmap_md5_def at_pos_def trial_rq_def trial_data_def)
  have name: "score_submission_username trial_rq = Inr (py ''cmyui'')"
    by (simp add: score_submission_username_def at_pos_def trial_rq_def trial_data_def py_def)
  have parse: "build_score_from_submission_request calm trial_rq (py ''m'') 5 = Inr sent_score"
    using trial_parsed by (simp add: build_score_from_submission_request_def trial_rq_def sent_score_def)
  have ids: "validate_submission_integrity (\<lambda>_. []) None sc n trial_rq md5 = Inl ValueError" for sc n md5
    by (simp add: validate_submission_integrity_def parse_unique_id_hashes_def trial_rq_def split_max.simps)
  show ?thesis
    by (simp add: submit_score_def md5 name submit_as_player_def parse op_defs trial_world_def Let_def
       integrity_world_def record_integrity_def prim_ops emit_event_def update_submitter_status_mode_def
       sent_score_def trial_score_def ids integrity_error_def trial_map_def trial_submitter_def)
qed

definition rated_score :: "rat \<Rightarrow> score" where
  "rated_score a = sent_score\<lparr>sc_acc := a, sc_pp := 100, sc_sr := 4, sc_status := SS_BEST, sc_rank := Some 1,
     sc_time_elapsed := 61500\<rparr>"

definition staged_world :: "rat \<Rightarrow> sworld" where
  "staged_world a = integrity_world\<lparr>w_score := rated_score a, w_tick := 8,
     w_events := [Integrity_failure, Latest_activity 5, Metric (py ''bancho.submitted_scores''),
       Metric (py ''bancho.submitted_scores_best'')],
     w_files := (\<lambda>_. None)(py ''c0ffee.osr.pending'' := Some (replicate 30 7))\<rparr>"

lemmas eval_worlds = trial_world_def integrity_world_def trial_map_def trial_submitter_def sent_score_def trial_score_def
  rated_score_def

lemma trial_prepare:
  assumes "calculate_accuracy sent_score = Inr a"
  shows "prepare_submission calm trial_rq integrity_world = (Inr (Some (Some (py ''c0ffee.osr.pending''))), staged_world a)"
proof -
  have rq: "rq_score_time trial_rq = 61500" "rq_fail_time trial_rq = 0" "rq_replay trial_rq = replicate 30 7"
    by (simp_all add: trial_rq_def)
  have s: "w_score integrity_world = sent_score" by (simp add: integrity_world_def)
  have d: "score_submission_is_duplicate calm integrity_world = (Inr False, integrity_world\<lparr>w_tick := 3\<rparr>)"
    by (simp add: score_submission_is_duplicate_def op_defs fetch_one_by_online_checksum_def eval_worlds)
  have p: "placement (w_db trial_world) m k x y = 1" for m k x y
    by (simp add: placement_def visible_best_def trial_world_def)
  have b: "fetch_best_scores (w_db trial_world) m k x = []" for m k x
    by (simp add: fetch_best_scores_def trial_world_def)
  have r: "calculate_score_submission_status calm 61500 0 (integrity_world\<lparr>w_tick := 3\<rparr>) =
     (Inr (), integrity_world\<lparr>w_score := rated_score a, w_tick := 6\<rparr>)"
    using assms p b
    by (simp add: calculate_score_submission_status_def prim_ops op_defs calculate_performance_def calculate_status_def
      calculate_placement_def eval_worlds RS_RANKED_def RS_PENDING_def)
  show ?thesis
    by (simp add: prepare_submission_def d op_defs rq r read_submitted_replay_file_def replay_data_is_valid_def
     MIN_REPLAY_SIZE_def emit_event_def stage_replay_file_def write_replay_bytes_def pending_replay_path_def Let_def
     staged_world_def rated_score_def sent_score_def trial_score_def py_def)
     (simp add: eval_worlds)
qed

lemma fl_half: "fl (1 / 2) = 1 / 2"
  by (rule fl_dyadic [where k = "-1" and m = "2 ^ 52"]) (simp_all add: pow2_def)

lemma fl_32nd: "fl (1 / 32) = 1 / 32"
  by (rule fl_dyadic [where k = "-5" and m = "2 ^ 52"]) (simp_all add: pow2_def)

lemma fl_31_32nds: "fl (31 / 32) = 31 / 32"
  by (rule fl_dyadic [where k = "-1" and m = "31 * 2 ^ 48"]) (simp_all add: pow2_def)

lemma weight_divisor: "fmul 20 (fadd 1 (- fl (95 / 100))) \<noteq> 0"
proof -
  have "fl (95 / 100) \<le> 31 / 32" using fl_mono [of "95 / 100" "31 / 32"] by (simp add: fl_31_32nds)
  then have "1 / 32 \<le> fadd 1 (- fl (95 / 100))" using fl_mono [of "1 / 32" "1 + - fl (95 / 100)"] by (simp add: fadd_def fl_32nd)
  then have "1 / 2 \<le> fmul 20 (fadd 1 (- fl (95 / 100)))"
    using fl_mono [of "1 / 2" "20 * fadd 1 (- fl (95 / 100))"] by (simp add: fmul_def fl_half)
  then show ?thesis by linarith
qed

lemmas eval_stats = apply_score_stats_def apply_score_base_stats_def
   apply_ranked_score_stats_def grade_count_deltas_def ranked_score_delta_def set_grade_count_update_def
   apply_weighted_performance_stats_def calculate_weighted_accuracy_def Let_def has_leaderboard_def awards_ranked_pp_def

lemma staged_sel [simp]: "w_bmaps (staged_world a) = (\<lambda>_. None)(py ''m'' := Some trial_map)"
  "w_players (staged_world a) = (\<lambda>_. None)(5 := Some trial_submitter)" "w_score (staged_world a) = rated_score a"
  "w_db (staged_world a) = w_db trial_world" "w_tick (staged_world a) = 8"
  by (simp_all add: staged_world_def integrity_world_def trial_world_def)

lemma rated_sel [simp]: "sc_map (rated_score a) = py ''m''" "sc_player (rated_score a) = 5" "sc_mode (rated_score a) = 0"
  "sc_status (rated_score a) = SS_BEST" "sc_rank (rated_score a) = Some 1" "sc_passed (rated_score a)"
  "sc_prev_best (rated_score a) = None" "sc_grade (rated_score a) = G_A" "sc_score (rated_score a) = 500000"
  "sc_max_combo (rated_score a) = 250" "sc_id (rated_score a) = None"
  by (simp_all add: rated_score_def sent_score_def trial_score_def)

lemma trial_sel [simp]: "bm_md5 trial_map = py ''m''" "bm_status trial_map = RS_RANKED" "bm_id trial_map = 7" "bm_plays trial_map = 3"
  "bm_passes trial_map = 1" "sp_id trial_submitter = 5" "sp_priv trial_submitter = P_UNRESTRICTED" 
  "sp_stats trial_submitter = (\<lambda>_. None)(0 := Some zero_stats)" "\<not> sp_restricted trial_submitter"
  by (simp_all add: trial_map_def trial_submitter_def sp_restricted_def has_def P_UNRESTRICTED_def)

definition trial_row :: "rat \<Rightarrow> score_row" where
  "trial_row a = (score_to_row calm (rated_score a) trial_map trial_submitter)\<lparr>sr_id := 1\<rparr>"

definition stored_db :: "rat \<Rightarrow> sdb" where
  "stored_db a = (w_db trial_world)\<lparr>t_scores := [trial_row a], t_next_score := 2\<rparr>"

lemma trial_best: "fetch_weighted_best (stored_db a) 5 0 = [(100, a)]"
  by (simp add: fetch_weighted_best_def stored_db_def trial_row_def score_to_row_def rated_score_def sent_score_def
     trial_score_def trial_world_def)

definition stored_run :: "rat \<Rightarrow> sworld \<Rightarrow> bool" where
  "stored_run a w \<longleftrightarrow> t_scores (w_db w) = [trial_row a] \<and> t_achievements (w_db w) = [] \<and>
     w_score w = (rated_score a)\<lparr>sc_id := Some 1\<rparr> \<and>
     (\<exists>p. w_players w 5 = Some p \<and> sp_id p = 5 \<and> sp_priv p = P_UNRESTRICTED \<and> sp_stats p 0 \<noteq> None) \<and>
     (\<exists>b. w_bmaps w (py ''m'') = Some b \<and> bm_status b = RS_RANKED) \<and>
     w_files w = (\<lambda>_. None)(py ''c0ffee.osr.pending'' := Some (replicate 30 7))"

lemma zero_sel [simp]: "md_max_combo zero_stats = 0" by (simp add: zero_stats_def)

lemma trial_stats:
  "\<exists>r w'. persist_score_submission_stats calm
      ((staged_world a)\<lparr>w_tick := n, w_score := (rated_score a)\<lparr>sc_id := Some 1\<rparr>, w_db := stored_db a\<rparr>) =
     (Inr r, w') \<and> stored_run a w'"
  using weight_divisor trial_best
  by (simp add: persist_score_submission_stats_def player_stats_def put_stats_def op_defs prim_ops
    eval_stats RS_RANKED_def apply_beatmap_play_stats_def as_vanilla_def stored_run_def map_update_plays_def
    stats_partial_update_def stored_db_def)
   (simp add: trial_world_def staged_world_def)

lemma trial_persisted:
  "\<exists>r w'. persist_score_submission calm (staged_world a) = (Inr r, w') \<and> stored_run a w' \<and> ps_score_id r = 1"
proof -
  obtain sn where cap: "capture_score_submission_state (staged_world a) = (Inr sn, staged_world a)"
    by (simp add: capture_outcome)
  have f: "fetch_first_place (w_db trial_world) m k c = None" for m k c
    by (simp add: fetch_first_place_def visible_best_def trial_world_def)
  have s: "persist_submitted_score calm ((staged_world a)\<lparr>w_tick := n\<rparr>) =
     (Inr 1, (staged_world a)\<lparr>w_tick := n + 3, w_score := (rated_score a)\<lparr>sc_id := Some 1\<rparr>, w_db := stored_db a\<rparr>)" for n
    by (simp add: persist_submitted_score_def mark_previous_best_def create_score_def fetch_score_def
       op_defs prim_ops trial_row_def stored_db_def trial_world_def score_to_row_def)
  obtain r w' where st: "persist_score_submission_stats calm
      ((staged_world a)\<lparr>w_tick := 13, w_score := (rated_score a)\<lparr>sc_id := Some 1\<rparr>, w_db := stored_db a\<rparr>) =
     (Inr r, w')" "stored_run a w'" using trial_stats by blast
  have u: "\<exists>w2. unlock_new_achievements calm w' = (Inr [], w2) \<and> stored_run a w2"
    using st(2) by (auto simp: unlock_new_achievements_def op_defs prim_ops stored_run_def)
  show ?thesis
    using u by (auto simp: persist_unfold cap on_failure_def transaction_def persist_body_def op_defs prim_ops
     score_should_announce_first_place_def has_leaderboard_def RS_RANKED_def f s st
     score_can_unlock_achievements_def awards_ranked_pp_def stored_run_def)
qed

lemma trial_finished:
  assumes "stored_run a w" "ps_score_id r = 1"
  shows "\<exists>sc before now ach w'. finish_submission calm (Some (py ''c0ffee.osr.pending'')) r w = (Inr (Submitted sc 1 before now ach), w') \<and>
     t_scores (w_db w') = [trial_row a] \<and> w_files w' (py ''1.osr'') = Some (replicate 30 7)"
proof -
  have path: "replay_path 1 = py ''1.osr''" by (simp add: replay_path_def str_int_def nat_digits.simps py_def)
  have ne: "py ''1.osr'' \<noteq> py ''c0ffee.osr.pending''" by (simp add: py_def)
  have r: "\<not> sp_restricted p" if "sp_priv p = P_UNRESTRICTED" for p
    using that by (simp add: sp_restricted_def has_def P_UNRESTRICTED_def)
  show ?thesis
    using assms r ne
    by (auto simp: finish_submission_def stored_run_def commit_replay_file_def rename_file_def path op_defs prim_ops emit_event_def
      put_stats_def update_rank_def notify_score_submitter_of_personal_best_def announce_first_place_def catch_def Let_def)
qed

lemma trial_run:
  "\<exists>sc before now ach w' row. submit_score calm trial_rq trial_world = (Inr (Submitted sc 1 before now ach), w') \<and>
     t_scores (w_db w') = [row] \<and> sr_id row = 1 \<and> sr_checksum row = py ''c0ffee'' \<and> sr_status row = 2 \<and>
     w_files w' (py ''1.osr'') = Some (replicate 30 7)"
proof -
  obtain a where a: "calculate_accuracy sent_score = Inr a"
    using trial_accuracy [of "py ''m''"] by (auto simp: sent_score_def)
  obtain r w1 where p: "persist_score_submission calm (staged_world a) = (Inr r, w1)" "stored_run a w1" "ps_score_id r = 1"
    using trial_persisted by blast
  have row: "sr_id (trial_row a) = 1" "sr_checksum (trial_row a) = py ''c0ffee''" "sr_status (trial_row a) = 2"
    by (simp_all add: trial_row_def score_to_row_def rated_score_def sent_score_def trial_score_def)
  show ?thesis
    using trial_finished [OF p(2,3)] row
    by (fastforce simp: trial_start trial_prepare [OF a] bnd_def store_submission_def persist_or_discard_def p(1))
qed
end
