(* ===== verification/Submitted.thy ===== *)
theory Submitted
  imports Sample Codec
begin

text \<open>
  What the submission of a score promises, whatever fails on the way: the books balance, a
  stored score keeps its replay, and a submission that was not stored leaves nothing behind.
\<close>

definition trial_ranked :: "pystr \<Rightarrow> bool" where
  "trial_ranked m \<longleftrightarrow> m = py ''m''"

lemma trial_order: "in_order trial_ranked trial_world"
  by (auto simp: in_order_def scores_ok_def ledger_ok_def memory_ok_def trial_world_def fetch_best_scores_def
      trial_ranked_def awards_ranked_pp_def same_totals_def stats_match_def ranked_best_def zero_stats_def
      split: if_splits)

text \<open>C3. The books balance after any submission, whatever step of it fails, is cancelled or kills
  the process: score ids and checksums stay distinct, nobody gets two best scores on a map and
  mode, and the ranked score and the grade counts of every statistics row are the sums over the
  best scores on ranked maps. The statistics in memory follow, unless the process died.
\<close>

theorem submissions_keep_books:
  assumes ok: "in_order rk w" and run: "submit_score E rq w = (res, w')"
  shows "scores_ok (w_db w') \<and> ledger_ok rk (w_db w') \<and> (res \<noteq> Inl Crash \<longrightarrow> memory_ok rk w')"
  using submission_books [OF ok, of E rq] by (simp add: books_def run)

theorem submissions_keep_books_witness:
  "\<exists>row w'. snd (submit_score calm trial_rq trial_world) = w' \<and> t_scores (w_db w') = [row] \<and> sr_status row = 2 \<and>
     ledger_ok trial_ranked (w_db w') \<and> memory_ok trial_ranked w'"
proof -
  obtain sc bf nw ach w' row where run: "submit_score calm trial_rq trial_world = (Inr (Submitted sc 1 bf nw ach), w')"
      "t_scores (w_db w') = [row]" "sr_status row = 2"
    using trial_run by blast
  show ?thesis using submissions_keep_books [OF trial_order run(1)] run by simp
qed

text \<open>C4. A score that was not failed and came with a replay of the least size the code accepts is never
  added to the table without its replay: whatever fails after the insert, the file is under its final name or still under the pending one, with the bytes
  that were sent.
\<close>

theorem stored_score_has_replay:
  assumes ok: "in_order rk w" and valid: "length (rq_replay rq) \<ge> MIN_REPLAY_SIZE"
    and run: "submit_score E rq w = (res, w')" and row: "r \<in> set (t_scores (w_db w'))"
    and new: "t_next_score (w_db w) \<le> sr_id r" and passed: "sr_status r \<noteq> status_value SS_FAILED"
  shows "w_files w' (replay_path (sr_id r)) = Some (rq_replay rq) \<or>
         w_files w' (pending_replay_path (sr_checksum r)) = Some (rq_replay rq)"
  using submit_keeps_replay [OF ok valid, of E] row new passed by (auto simp: run added_kept_def replay_kept_def)

theorem stored_score_has_replay_witness:
  "\<exists>r w'. snd (submit_score calm trial_rq trial_world) = w' \<and> r \<in> set (t_scores (w_db w')) \<and>
     (w_files w' (replay_path (sr_id r)) = Some (rq_replay trial_rq) \<or>
      w_files w' (pending_replay_path (sr_checksum r)) = Some (rq_replay trial_rq))"
proof -
  obtain sc bf nw ach w' row where run: "submit_score calm trial_rq trial_world = (Inr (Submitted sc 1 bf nw ach), w')"
      "t_scores (w_db w') = [row]" "sr_id row = 1" "sr_status row = 2"
    using trial_run by blast
  have "length (rq_replay trial_rq) \<ge> MIN_REPLAY_SIZE" "t_next_score (w_db trial_world) \<le> sr_id row"
    using run by (simp_all add: trial_rq_def MIN_REPLAY_SIZE_def trial_world_def)
  then show ?thesis using stored_score_has_replay [OF trial_order _ run(1), of row] run by simp
qed

section \<open>A submission that fails\<close>

definition fresh :: "rat \<Rightarrow> sworld" where
  "fresh a = (staged_world a)\<lparr>w_players := (\<lambda>_. None)(5 := Some (trial_submitter\<lparr>sp_recent := (\<lambda>_. None)\<rparr>))\<rparr>"

text \<open>The write of the statistics fails: by then the statistics in memory have changed.\<close>

definition broken :: sub_env where
  "broken = trial_env (\<lambda>n. if n = 14 then Some DatabaseError else None)"

lemma broken_sel [simp]: "se_fault broken = (\<lambda>n. if n = 14 then Some DatabaseError else None)"
  "se_column broken = (\<lambda>_ x. x)" "se_pow broken = (\<lambda>x n. x ^ n)"
  by (simp_all add: broken_def trial_env_def)

lemma trial_broken:
  assumes w: "w_bmaps w = (\<lambda>_. None)(py ''m'' := Some trial_map)" "w_players w = (\<lambda>_. None)(5 := Some p)"
    "w_score w = rated_score a" "w_tick w = 8" "w_db w = w_db trial_world"
    and p: "sp_id p = 5" "\<not> sp_restricted p" "sp_stats p = (\<lambda>_. None)(0 := Some zero_stats)"
  shows "\<exists>w'. transaction broken (persist_body broken) w = (Inl DatabaseError, w')"
proof -
  have f: "fetch_first_place (w_db trial_world) m k c = None" for m k c
    by (simp add: fetch_first_place_def visible_best_def trial_world_def)
  have row: "(score_to_row broken (rated_score a) trial_map p)\<lparr>sr_id := 1\<rparr> = trial_row a"
    using p(1) by (simp add: trial_row_def score_to_row_def)
  have s: "persist_submitted_score broken (w\<lparr>w_tick := 10\<rparr>) =
     (Inr 1, w\<lparr>w_tick := 13, w_score := (rated_score a)\<lparr>sc_id := Some 1\<rparr>, w_db := stored_db a\<rparr>)"
    using w p row
    by (simp add: persist_submitted_score_def mark_previous_best_def create_score_def fetch_score_def io_def Let_def
       op_defs prim_ops stored_db_def trial_world_def) (simp add: trial_row_def)
  show ?thesis
    using w p s f weight_divisor trial_best [of a]
    by (simp add: transaction_def op_defs io_def Let_def persist_body_def prim_ops score_should_announce_first_place_def
        has_leaderboard_def RS_RANKED_def persist_score_submission_stats_def player_stats_def put_stats_def eval_stats)
qed

lemma trial_failure:
  assumes w: "w_bmaps w = (\<lambda>_. None)(py ''m'' := Some trial_map)" "w_players w = (\<lambda>_. None)(5 := Some p)"
    "w_score w = rated_score a" "w_tick w = 8" "w_db w = w_db trial_world"
    and p: "sp_id p = 5" "\<not> sp_restricted p" "sp_stats p = (\<lambda>_. None)(0 := Some zero_stats)"
  shows "\<exists>n. persist_score_submission broken w =
    (Inl (if sp_recent p 0 = Some None then AssertionError else DatabaseError), w\<lparr>w_tick := n\<rparr>)"
proof -
  obtain w1 where t: "transaction broken (persist_body broken) w = (Inl DatabaseError, w1)"
    using trial_broken [OF w p] by blast
  obtain sn where cap: "capture_score_submission_state w = (Inr sn, w)"
    by (simp add: capture_outcome w p)
  have "frame w p trial_map w1"
    by (rule keepsD [OF keeps_frame_transaction frame_refl t]) (simp_all add: w p)
  from restore_outcome [OF _ _ _ cap this transaction_failure [OF t]] show ?thesis
    by (simp add: persist_unfold op_defs cap on_failure_def t w p) (rule exI, rule refl)
qed

text \<open>C5. Storing a score is atomic: when it raises, the database is as before, and unless the
  process died so is everything in memory (the score, the statistics, the play counts, the
  recent score, the files and what was sent out); only time has passed.
\<close>

theorem failed_store_leaves_no_trace:
  assumes run: "persist_score_submission E w = (Inl e, w')"
  shows "w_db w' = w_db w \<and> (e \<noteq> Crash \<longrightarrow> w' = w\<lparr>w_tick := w_tick w'\<rparr>)"
  by (rule persist_failure [OF run])

theorem failed_store_leaves_no_trace_witness:
  "\<exists>w'. persist_score_submission broken (fresh 90) = (Inl DatabaseError, w') \<and>
     w' = (fresh 90)\<lparr>w_tick := w_tick w'\<rparr> \<and> t_scores (w_db w') = []"
proof -
  have sel: "w_bmaps (fresh 90) = (\<lambda>_. None)(py ''m'' := Some trial_map)"
      "w_players (fresh 90) = (\<lambda>_. None)(5 := Some (trial_submitter\<lparr>sp_recent := (\<lambda>_. None)\<rparr>))"
      "w_score (fresh 90) = rated_score 90" "w_tick (fresh 90) = 8" "w_db (fresh 90) = w_db trial_world"
    by (simp_all add: fresh_def)
  have p: "\<not> sp_restricted (trial_submitter\<lparr>sp_recent := (\<lambda>_. None)\<rparr>)"
    using trial_sel by (simp add: sp_restricted_def)
  obtain n where run: "persist_score_submission broken (fresh 90) = (Inl DatabaseError, (fresh 90)\<lparr>w_tick := n\<rparr>)"
    using trial_failure [OF sel] p by auto
  have "t_scores (w_db (fresh 90)) = []" by (simp add: sel trial_world_def)
  then show ?thesis using failed_store_leaves_no_trace [OF run] run by (metis exn.distinct)
qed

text \<open>The recent scores of a player start as \<^verbatim>\<open>None\<close> for every mode, which the rollback refuses: until
  a player has submitted in a mode, whatever error stops the storing reaches the caller as an
  \<^verbatim>\<open>AssertionError\<close>, a lost race for the same score included, which is then no longer reported
  as a duplicate.
\<close>

theorem first_failure_is_masked:
  assumes run: "persist_score_submission E w = (Inl e, w')" and alive: "e \<noteq> Crash"
    and p: "w_players w (sc_player (w_score w)) = Some p" "sp_recent p (sc_mode (w_score w)) = Some None"
    and st: "w_bmaps w (sc_map (w_score w)) = Some b" "sp_stats p (sc_mode (w_score w)) = Some st"
  shows "e = AssertionError"
  by (rule persist_failure_masked [OF run alive p st])

theorem first_failure_is_masked_witness:
  "fst (transaction broken (persist_body broken) (staged_world 90)) = Inl DatabaseError \<and>
   fst (persist_score_submission broken (staged_world 90)) = Inl AssertionError"
proof -
  obtain w1 where t: "transaction broken (persist_body broken) (staged_world 90) = (Inl DatabaseError, w1)"
    using trial_broken [of "staged_world 90" trial_submitter 90] by auto
  obtain e n where run: "persist_score_submission broken (staged_world 90) = (Inl e, (staged_world 90)\<lparr>w_tick := n\<rparr>)"
      "e \<noteq> Crash"
    using trial_failure [of "staged_world 90" trial_submitter 90] by (auto split: if_splits)
  have "e = AssertionError"
    using first_failure_is_masked [OF run] by (simp add: trial_submitter_def)
  then show ?thesis using run t by simp
qed

section \<open>Accuracy\<close>

text \<open>The last frame a match would have shown of the play a score reports.\<close>

definition live_frame :: "score \<Rightarrow> score_frame" where
  "live_frame sc = \<lparr>sf_time = 0, sf_id = 0, num300 = sc_n300 sc, num100 = sc_n100 sc, num50 = sc_n50 sc,
     num_geki = sc_ngeki sc, num_katu = sc_nkatu sc, num_miss = sc_nmiss sc, total_score = sc_score sc,
     max_combo = sc_max_combo sc, current_combo = 0, sf_perfect = sc_perfect sc, current_hp = 0, tag_byte = 0,
     score_v2 = has (sc_mods sc) M_SCOREV2, combo_portion = None, bonus_portion = None\<rparr>"

text \<open>The accuracy of a submitted score is, to the bit, the one the match code computes from the
  play's live frame, in every mode; with counts the wire format can carry it is defined and lies
  between 0 and 100 in spite of the roundings.
\<close>

theorem submitted_accuracy_is_live_accuracy:
  "calculate_accuracy sc = scoreframe_accuracy (live_frame sc) (as_vanilla (sc_mode sc)) \<and>
   (counts_ok (live_frame sc) \<longrightarrow> (\<exists>a. calculate_accuracy sc = Inr a \<and> 0 \<le> a \<and> a \<le> 100))"
proof -
  have m: "0 \<le> as_vanilla (sc_mode sc)" "as_vanilla (sc_mode sc) < 4" by (simp_all add: as_vanilla_def)
  have "calculate_accuracy sc = scoreframe_accuracy (live_frame sc) (as_vanilla (sc_mode sc))"
    using m by (simp add: calculate_accuracy_def scoreframe_accuracy_def live_frame_def Let_def)
  then show ?thesis using scoreframe_accuracy_bounds [OF _ m, of "live_frame sc"] by simp
qed

theorem submitted_accuracy_is_live_accuracy_witness:
  "\<exists>a. calculate_accuracy trial_score = Inr a \<and> 0 \<le> a \<and> a \<le> 100"
proof -
  have "counts_ok (live_frame trial_score)" by (simp add: counts_ok_def live_frame_def trial_score_def)
  then show ?thesis using submitted_accuracy_is_live_accuracy [of trial_score] by blast
qed

end
