(* ===== verification/Decimal.thy ===== *)
theory Decimal
  imports Scores
begin

text \<open>
  Python floats that come from text, where infinities and NaN occur: \<^verbatim>\<open>float(s)\<close>, the
  comparisons, and the arithmetic the parsers do on the result. A finite value is a double as in
  \<open>Floats\<close>; the sign of zero is not kept.
\<close>

datatype pyfloat = Fin rat | PInf | NInf | NaN

text \<open>A result whose magnitude exceeds the largest double becomes an infinity.\<close>

definition to_double :: "rat \<Rightarrow> pyfloat" where
  "to_double x = (let r = fl x in if 2 ^ 1024 \<le> r then PInf else if r \<le> - (2 ^ 1024) then NInf else Fin r)"

section \<open>Reading a float\<close>

text \<open>
  \<^verbatim>\<open>float(s)\<close>: spaces around, single underscores between digits, a sign, then \<^verbatim>\<open>inf\<close>,
  \<^verbatim>\<open>infinity\<close>, \<^verbatim>\<open>nan\<close> in any case, or digits with a point and an exponent. \<open>dv\<close>
  is the value of a decimal digit character.
\<close>

fun drop_underscores :: "(nat \<Rightarrow> bool) \<Rightarrow> bool \<Rightarrow> pystr \<Rightarrow> pystr option" where
  "drop_underscores d prev [] = Some []"
| "drop_underscores d prev (c # s) =
     (if c = 95 then
        (case s of
           [] \<Rightarrow> None
         | e # _ \<Rightarrow> if prev \<and> d e then drop_underscores d False s else None)
      else map_option ((#) c) (drop_underscores d (d c) s))"

definition digit_span :: "(nat \<Rightarrow> nat option) \<Rightarrow> pystr \<Rightarrow> pystr \<times> pystr" where
  "digit_span dv s = (takeWhile (is_dec dv) s, dropWhile (is_dec dv) s)"

definition sign_of :: "pystr \<Rightarrow> bool \<times> pystr" where
  "sign_of s = (case s of [] \<Rightarrow> (False, []) | c # t \<Rightarrow> if c = 45 then (True, t) else if c = 43 then (False, t) else (False, s))"

text \<open>The exponent after \<^verbatim>\<open>e\<close>: all of the rest, with at least one digit.\<close>

definition exponent_part :: "(nat \<Rightarrow> nat option) \<Rightarrow> pystr \<Rightarrow> int option" where
  "exponent_part dv s =
     (case s of
        [] \<Rightarrow> Some 0
      | c # t \<Rightarrow>
          if c = 69 \<or> c = 101 then
            (let (neg, u) = sign_of t; (ds, r) = digit_span dv u
             in if ds = [] \<or> r \<noteq> [] then None
                else Some (if neg then - dec_value dv ds else dec_value dv ds))
          else None)"

definition pow10 :: "int \<Rightarrow> rat" where
  "pow10 k = (if 0 \<le> k then 10 ^ nat k else 1 / 10 ^ nat (- k))"

definition decimal_value :: "(nat \<Rightarrow> nat option) \<Rightarrow> pystr \<Rightarrow> rat option" where
  "decimal_value dv s =
     (let (whole, r) = digit_span dv s;
          (frac, r') = (case r of [] \<Rightarrow> ([], []) | c # t \<Rightarrow> if c = 46 then digit_span dv t else ([], r))
      in if whole = [] \<and> frac = [] then None
         else map_option (\<lambda>k. of_int (dec_value dv (whole @ frac)) * pow10 (k - int (length frac)))
                (exponent_part dv r'))"

definition float_of_str :: "(nat \<Rightarrow> nat option) \<Rightarrow> pystr \<Rightarrow> pyfloat result" where
  "float_of_str dv s =
     (case drop_underscores (is_dec dv) False (strip s) of
        None \<Rightarrow> Inl ValueError
      | Some t \<Rightarrow>
          let (neg, u) = sign_of t; l = ascii_lower u
          in if l = py ''inf'' \<or> l = py ''infinity'' then Inr (if neg then NInf else PInf)
             else if l = py ''nan'' then Inr NaN
             else (case decimal_value dv u of
                     None \<Rightarrow> Inl ValueError
                   | Some x \<Rightarrow> Inr (to_double (if neg then - x else x))))"

section \<open>Comparisons and arithmetic\<close>

fun flt :: "pyfloat \<Rightarrow> pyfloat \<Rightarrow> bool" where
  "flt (Fin x) (Fin y) = (x < y)"
| "flt (Fin x) PInf = True"
| "flt NInf (Fin y) = True"
| "flt NInf PInf = True"
| "flt _ _ = False"

fun feq :: "pyfloat \<Rightarrow> pyfloat \<Rightarrow> bool" where
  "feq NaN _ = False"
| "feq _ NaN = False"
| "feq x y = (x = y)"

text \<open>\<^verbatim>\<open>max(a, b)\<close> keeps \<^verbatim>\<open>a\<close> unless \<^verbatim>\<open>b > a\<close>.\<close>

definition fmax :: "pyfloat \<Rightarrow> pyfloat \<Rightarrow> pyfloat" where
  "fmax a b = (if flt a b then b else a)"

fun fneg :: "pyfloat \<Rightarrow> pyfloat" where
  "fneg (Fin x) = Fin (- x)" | "fneg PInf = NInf" | "fneg NInf = PInf" | "fneg NaN = NaN"

fun fplus :: "pyfloat \<Rightarrow> pyfloat \<Rightarrow> pyfloat" where
  "fplus (Fin x) (Fin y) = to_double (x + y)"
| "fplus NaN _ = NaN"
| "fplus _ NaN = NaN"
| "fplus PInf NInf = NaN"
| "fplus NInf PInf = NaN"
| "fplus PInf _ = PInf"
| "fplus NInf _ = NInf"
| "fplus (Fin x) y = y"

definition fminus :: "pyfloat \<Rightarrow> pyfloat \<Rightarrow> pyfloat" where
  "fminus a b = fplus a (fneg b)"

text \<open>Division by a number that is not zero.\<close>

fun fover :: "pyfloat \<Rightarrow> pyfloat \<Rightarrow> pyfloat" where
  "fover (Fin x) (Fin y) = to_double (x / y)"
| "fover (Fin x) PInf = Fin 0"
| "fover (Fin x) NInf = Fin 0"
| "fover PInf (Fin y) = (if y < 0 then NInf else PInf)"
| "fover NInf (Fin y) = (if y < 0 then PInf else NInf)"
| "fover _ _ = NaN"

text \<open>\<^verbatim>\<open>int(x)\<close>, \<^verbatim>\<open>math.ceil(x)\<close> and \<^verbatim>\<open>round(x, 2)\<close>.\<close>

definition finite_or :: "(rat \<Rightarrow> int) \<Rightarrow> pyfloat \<Rightarrow> int result" where
  "finite_or f v = (case v of Fin x \<Rightarrow> Inr (f x) | NaN \<Rightarrow> Inl ValueError | _ \<Rightarrow> Inl OverflowError)"

definition int_of_float :: "pyfloat \<Rightarrow> int result" where
  "int_of_float = finite_or (\<lambda>x. if x < 0 then - \<lfloor>- x\<rfloor> else \<lfloor>x\<rfloor>)"

definition ceil_of_float :: "pyfloat \<Rightarrow> int result" where
  "ceil_of_float = finite_or ceiling"

definition round2 :: "pyfloat \<Rightarrow> pyfloat" where
  "round2 v = (case v of Fin x \<Rightarrow> to_double (of_int (round_even (x * 100)) / 100) | _ \<Rightarrow> v)"

lemma flt_irrefl [simp]: "\<not> flt x x"
  by (cases x) simp_all

lemma flt_trans: "flt x y \<Longrightarrow> flt y z \<Longrightarrow> flt x z"
  by (cases x; cases y; cases z) simp_all

end
