(* ===== verification/Osr.thy ===== *)
theory Osr
  imports Decimal
begin

text \<open>
  Replay files: the decoder of \<^verbatim>\<open>app/adapters/osr_replay.py\<close>, the service that puts the
  header back on a stored replay and guards who may see it (\<^verbatim>\<open>app/services/replays.py\<close>), and
  the visibility rule of \<^verbatim>\<open>app/services/visibility.py\<close>. LZMA is a parameter of the decoder,
  \<open>None\<close> where \<^verbatim>\<open>lzma.LZMAError\<close> is raised.
\<close>

section \<open>Lenient decoding\<close>

text \<open>
  \<^verbatim>\<open>decode("utf-8", errors="replace")\<close>: one U+FFFD for each maximal prefix of a sequence that
  does not go on. \<open>cont_ok\<close> says which byte may come next; the first one is restricted
  after E0, ED, F0 and F4.
\<close>

definition cont_ok :: "nat \<Rightarrow> bool \<Rightarrow> byte \<Rightarrow> bool" where
  "cont_ok lead first b \<longleftrightarrow>
     (if first \<and> lead = 0xE0 then 0xA0 \<le> unat b \<and> unat b < 0xC0
      else if first \<and> lead = 0xED then 0x80 \<le> unat b \<and> unat b < 0xA0
      else if first \<and> lead = 0xF0 then 0x90 \<le> unat b \<and> unat b < 0xC0
      else if first \<and> lead = 0xF4 then 0x80 \<le> unat b \<and> unat b < 0x90
      else is_cont b)"

fun good_conts :: "nat \<Rightarrow> bool \<Rightarrow> nat \<Rightarrow> bytes \<Rightarrow> nat" where
  "good_conts lead first (Suc n) (b # bs) = (if cont_ok lead first b then Suc (good_conts lead False n bs) else 0)"
| "good_conts lead first _ _ = 0"

definition code_point :: "nat \<Rightarrow> bytes \<Rightarrow> nat" where
  "code_point start conts = foldl (\<lambda>a b. a * 64 + cont_bits b) start conts"

function utf8_replace :: "bytes \<Rightarrow> pystr" where
  "utf8_replace [] = []"
| "utf8_replace (b # bs) =
     (let n = unat b in
      if n < 0x80 then n # utf8_replace bs
      else if n < 0xC2 \<or> 0xF5 \<le> n then 0xFFFD # utf8_replace bs
      else let need = (if n < 0xE0 then 1 else if n < 0xF0 then 2 else 3);
               start = (if n < 0xE0 then n - 0xC0 else if n < 0xF0 then n - 0xE0 else n - 0xF0);
               k = good_conts n True need bs
           in (if k = need then code_point start (take k bs) else 0xFFFD) # utf8_replace (drop k bs))"
  by pat_completeness auto
termination
  by (relation "measure length") auto

declare utf8_replace.simps(2) [simp del]

text \<open>\<^verbatim>\<open>decode("ascii", errors="replace")\<close>\<close>

definition ascii_replace :: "bytes \<Rightarrow> pystr" where
  "ascii_replace = map (\<lambda>b. if unat b < 0x80 then unat b else 0xFFFD)"

section \<open>The reader\<close>

text \<open>Every primitive checks that its bytes are there.\<close>

definition osr_bytes :: "nat \<Rightarrow> bytes reader" where
  "osr_bytes n bs = (if length bs < n then Inl ReplayParseError else Inr (take n bs, drop n bs))"

definition osr_unsigned :: "nat \<Rightarrow> int reader" where
  "osr_unsigned n = rbind (osr_bytes n) (\<lambda>b. rret (from_le_unsigned b))"

definition osr_byte :: "int reader" where "osr_byte = osr_unsigned 1"
definition osr_int16 :: "int reader" where "osr_int16 = osr_unsigned 2"
definition osr_int32 :: "int reader" where "osr_int32 = osr_unsigned 4"

definition osr_int64 :: "int reader" where
  "osr_int64 = rbind (osr_bytes 8) (\<lambda>b. rret (from_le_signed b))"

fun osr_uleb :: "nat \<Rightarrow> nat \<Rightarrow> nat reader" where
  "osr_uleb result shift [] = Inl ReplayParseError"
| "osr_uleb result shift (b # bs) =
     (let result' = result OR push_bit shift (unat (b AND 0x7F))
      in if b AND 0x80 = 0 then Inr (result', bs)
         else if shift + 7 > 63 then Inl ReplayParseError
         else osr_uleb result' (shift + 7) bs)"

definition osr_string :: "pystr reader" where
  "osr_string =
     rbind osr_byte (\<lambda>flag.
       if flag = 0 then rret []
       else if flag \<noteq> 0x0B then (\<lambda>bs. Inl ReplayParseError)
       else rbind (osr_uleb 0 0) (\<lambda>n. rbind (osr_bytes n) (\<lambda>raw. rret (utf8_replace raw))))"

section \<open>Frames\<close>

record osr_frame =
  of_delta :: int
  of_x :: pyfloat
  of_y :: pyfloat
  of_keys :: int

definition SEED_FRAME_TIME :: int where "SEED_FRAME_TIME = -12345"

text \<open>A token of the frame stream, if it is well formed.\<close>

definition frame_token :: "pystr \<Rightarrow> (int \<times> pyfloat \<times> pyfloat \<times> int) option" where
  "frame_token token =
     (case split_on 124 (strip token) of
        [t, x, y, k] \<Rightarrow>
          (case bindE (py_int ascii_digit t) (\<lambda>t'. bindE (float_of_str ascii_digit x) (\<lambda>x'.
                bindE (float_of_str ascii_digit y) (\<lambda>y'. bindE (py_int ascii_digit k) (\<lambda>k'. Inr (t', x', y', k'))))) of
             Inr r \<Rightarrow> Some r | Inl _ \<Rightarrow> None)
      | _ \<Rightarrow> None)"

definition decode_frames :: "bytes \<Rightarrow> osr_frame list \<times> int option" where
  "decode_frames raw =
     fold (\<lambda>token (frames, seed).
            case frame_token token of
              None \<Rightarrow> (frames, seed)
            | Some (t, x, y, k) \<Rightarrow>
                if t = SEED_FRAME_TIME then (frames, Some k)
                else (frames @ [\<lparr>of_delta = t, of_x = x, of_y = y, of_keys = k AND 0x1F\<rparr>], seed))
       (split_on 44 (ascii_replace raw)) ([], None)"

definition decode_replay_frames :: "(bytes \<Rightarrow> bytes option) \<Rightarrow> bytes \<Rightarrow> (osr_frame list \<times> int option) result" where
  "decode_replay_frames lz compressed =
     (if compressed = [] then Inr ([], None)
      else case lz compressed of None \<Rightarrow> Inl ReplayParseError | Some raw \<Rightarrow> Inr (decode_frames raw))"

section \<open>A replay\<close>

record replay =
  rp_mode :: int
  rp_version :: int
  rp_beatmap_md5 :: pystr
  rp_player_name :: pystr
  rp_md5 :: pystr
  rp_n300 :: int
  rp_n100 :: int
  rp_n50 :: int
  rp_ngeki :: int
  rp_nkatu :: int
  rp_nmiss :: int
  rp_score :: int
  rp_max_combo :: int
  rp_perfect :: bool
  rp_mods :: int
  rp_life_bar_graph :: pystr
  rp_timestamp :: int
  rp_frames :: "osr_frame list"
  rp_rng_seed :: "int option"
  rp_online_score_id :: int

text \<open>Everything but the frames, which come compressed.\<close>

definition osr_header :: "(bytes \<times> replay) reader" where
  "osr_header =
     rbind osr_byte (\<lambda>mode. rbind osr_int32 (\<lambda>version.
     rbind osr_string (\<lambda>md5. rbind osr_string (\<lambda>name. rbind osr_string (\<lambda>rmd5.
     rbind osr_int16 (\<lambda>n300. rbind osr_int16 (\<lambda>n100. rbind osr_int16 (\<lambda>n50.
     rbind osr_int16 (\<lambda>ngeki. rbind osr_int16 (\<lambda>nkatu. rbind osr_int16 (\<lambda>nmiss.
     rbind osr_int32 (\<lambda>score. rbind osr_int16 (\<lambda>max_combo. rbind osr_byte (\<lambda>perfect.
     rbind osr_int32 (\<lambda>mods. rbind osr_string (\<lambda>graph. rbind osr_int64 (\<lambda>timestamp.
     rbind osr_int32 (\<lambda>n. rbind (osr_bytes (nat n)) (\<lambda>compressed.
     rbind (\<lambda>bs. if 8 \<le> length bs then osr_int64 bs else Inr (0, bs)) (\<lambda>sid.
       rret (compressed,
         \<lparr>rp_mode = mode, rp_version = version, rp_beatmap_md5 = md5, rp_player_name = name, rp_md5 = rmd5,
          rp_n300 = n300, rp_n100 = n100, rp_n50 = n50, rp_ngeki = ngeki, rp_nkatu = nkatu, rp_nmiss = nmiss,
          rp_score = score, rp_max_combo = max_combo, rp_perfect = (perfect = 1), rp_mods = mods,
          rp_life_bar_graph = graph, rp_timestamp = timestamp, rp_frames = [], rp_rng_seed = None,
          rp_online_score_id = sid\<rparr>)))))))))))))))))))))"

definition parse_osr :: "(bytes \<Rightarrow> bytes option) \<Rightarrow> bytes \<Rightarrow> replay result" where
  "parse_osr lz data =
     bindE (osr_header data) (\<lambda>((compressed, rp), _).
     bindE (decode_replay_frames lz compressed) (\<lambda>(frames, seed).
       Inr (rp\<lparr>rp_frames := frames, rp_rng_seed := seed\<rparr>)))"

definition parse_replay_frame_data :: "(bytes \<Rightarrow> bytes option) \<Rightarrow> bytes \<Rightarrow> int \<Rightarrow> replay result" where
  "parse_replay_frame_data lz compressed mode =
     bindE (decode_replay_frames lz compressed) (\<lambda>(frames, seed).
       Inr \<lparr>rp_mode = mode, rp_version = 0, rp_beatmap_md5 = [], rp_player_name = [], rp_md5 = [],
            rp_n300 = 0, rp_n100 = 0, rp_n50 = 0, rp_ngeki = 0, rp_nkatu = 0, rp_nmiss = 0,
            rp_score = 0, rp_max_combo = 0, rp_perfect = False, rp_mods = 0,
            rp_life_bar_graph = [], rp_timestamp = 0, rp_frames = frames, rp_rng_seed = seed,
            rp_online_score_id = 0\<rparr>)"

section \<open>Who may see what\<close>

definition PUBLIC_PLAYER_MASK :: int where
  "PUBLIC_PLAYER_MASK = P_UNRESTRICTED OR P_VERIFIED"

text \<open>A viewer is an id and privileges; \<open>None\<close> is anonymous.\<close>

definition can_view_player :: "(int \<times> int) option \<Rightarrow> int \<Rightarrow> int \<Rightarrow> bool" where
  "can_view_player viewer target_id target_priv \<longleftrightarrow>
     (target_priv AND PUBLIC_PLAYER_MASK = PUBLIC_PLAYER_MASK) \<or>
     (case viewer of None \<Rightarrow> False | Some (i, priv) \<Rightarrow> i = target_id \<or> has priv P_STAFF)"

section \<open>The replay service\<close>

record replay_header =
  rh_user_id :: int
  rh_user_priv :: int
  rh_username :: pystr
  rh_map_md5 :: pystr
  rh_artist :: pystr
  rh_title :: pystr
  rh_version :: pystr
  rh_mode :: int
  rh_n300 :: int
  rh_n100 :: int
  rh_n50 :: int
  rh_ngeki :: int
  rh_nkatu :: int
  rh_nmiss :: int
  rh_score :: int
  rh_max_combo :: int
  rh_perfect :: int
  rh_mods :: int
  rh_play_time :: datetime

definition DATETIME_OFFSET :: int where
  "DATETIME_OFFSET = 0x89F7FF5F7B58000"

text \<open>The text whose MD5 the exported file carries.\<close>

definition replay_md5_text :: "replay_header \<Rightarrow> pystr" where
  "replay_md5_text h =
     str_int (rh_n100 h + rh_n300 h) @ py ''p'' @ str_int (rh_n50 h) @ py ''o'' @ str_int (rh_ngeki h) @ py ''o'' @
     str_int (rh_nkatu h) @ py ''t'' @ str_int (rh_nmiss h) @ py ''a'' @ rh_map_md5 h @ py ''r'' @
     str_int (rh_max_combo h) @ py ''e'' @ str_bool (rh_perfect h = 1) @ py ''y'' @ rh_username h @ py ''o'' @
     str_int (rh_score h) @ py ''u'' @ str_int 0 @ str_int (rh_mods h) @ py ''True''"

text \<open>\<open>ticks t\<close> is \<^verbatim>\<open>int(t.timestamp() * 1e7)\<close>, which depends on the time zone of the host.\<close>

definition replay_file_bytes ::
  "(bytes \<Rightarrow> pystr) \<Rightarrow> (datetime \<Rightarrow> int) \<Rightarrow> replay_header \<Rightarrow> bytes \<Rightarrow> int \<Rightarrow> bytes result" where
  "replay_file_bytes md5 ticks h raw score_id =
     bindE (utf8_encode (replay_md5_text h)) (\<lambda>text.
     bindE (bindE (game_mode_of (rh_mode h)) (\<lambda>m. enc_unsigned StructError 1 (as_vanilla m))) (\<lambda>mode.
     bindE (enc_signed StructError 4 20200207) (\<lambda>version.
     bindE (mapE write_string [rh_map_md5 h, rh_username h, md5 text]) (\<lambda>strings.
     bindE (mapE (enc_signed StructError 2)
              [rh_n300 h, rh_n100 h, rh_n50 h, rh_ngeki h, rh_nkatu h, rh_nmiss h]) (\<lambda>counts.
     bindE (enc_signed StructError 4 (rh_score h)) (\<lambda>total.
     bindE (enc_signed StructError 2 (rh_max_combo h)) (\<lambda>combo.
     bindE (enc_unsigned StructError 1 (rh_perfect h)) (\<lambda>perfect.
     bindE (enc_signed StructError 4 (rh_mods h)) (\<lambda>mods.
     bindE (enc_signed StructError 8 (ticks (rh_play_time h) + DATETIME_OFFSET)) (\<lambda>time.
     bindE (enc_signed StructError 4 (int (length raw))) (\<lambda>len.
     bindE (enc_signed StructError 8 score_id) (\<lambda>sid.
       Inr (mode @ version @ concat strings @ concat counts @ total @ combo @ perfect @ mods @ [0] @
            time @ len @ raw @ sid)))))))))))))"

definition replay_filename :: "replay_header \<Rightarrow> pystr" where
  "replay_filename h =
     rh_username h @ py '' - '' @ rh_artist h @ py '' - '' @ rh_title h @ py '' ['' @ rh_version h @ py ''] ('' @
     (case rh_play_time h of ((y, m, d), _) \<Rightarrow> str_int y @ [45] @ pad2 m @ [45] @ pad2 d) @ py '').osr''"

text \<open>
  \<open>files\<close> is the replay directory, by the id of the score; \<open>header\<close> the query of the
  database.
\<close>

definition build_full_replay ::
  "(bytes \<Rightarrow> pystr) \<Rightarrow> (datetime \<Rightarrow> int) \<Rightarrow> (int \<Rightarrow> bytes option) \<Rightarrow> (int \<Rightarrow> replay_header option) \<Rightarrow>
     int \<Rightarrow> (int \<times> int) option \<Rightarrow> (bytes \<times> pystr) option result" where
  "build_full_replay md5 ticks files header score_id viewer =
     (case files score_id of
        None \<Rightarrow> Inr None
      | Some raw \<Rightarrow>
          (case header score_id of
             None \<Rightarrow> Inr None
           | Some h \<Rightarrow>
               if \<not> can_view_player viewer (rh_user_id h) (rh_user_priv h) then Inr None
               else bindE (replay_file_bytes md5 ticks h raw score_id) (\<lambda>d. Inr (Some (d, replay_filename h)))))"

definition fetch_raw_replay ::
  "(int \<Rightarrow> bytes option) \<Rightarrow> (int \<Rightarrow> replay_header option) \<Rightarrow> int \<Rightarrow> (int \<times> int) option \<Rightarrow> bytes option" where
  "fetch_raw_replay files header score_id viewer =
     (case header score_id of
        None \<Rightarrow> None
      | Some h \<Rightarrow> if \<not> can_view_player viewer (rh_user_id h) (rh_user_priv h) then None else files score_id)"

text \<open>
  The score and its player, when they are found; the second component tells whether the view
  is counted.
\<close>

definition fetch_replay_file ::
  "(int \<Rightarrow> bytes option) \<Rightarrow> (int \<Rightarrow> (int \<times> int) option option) \<Rightarrow> int \<times> int \<Rightarrow> int \<Rightarrow> bytes option \<times> bool" where
  "fetch_replay_file files score viewer score_id =
     (case score score_id of
        None \<Rightarrow> (None, False)
      | Some owner \<Rightarrow>
          (case files score_id of
             None \<Rightarrow> (None, False)
           | Some d \<Rightarrow>
               (case owner of
                  None \<Rightarrow> (Some d, False)
                | Some (pid, priv) \<Rightarrow>
                    if \<not> can_view_player (Some viewer) pid priv then (None, False)
                    else (Some d, fst viewer \<noteq> pid))))"

end
