(* ===== verification/Exported.thy ===== *)
theory Exported
  imports Osr
begin

text \<open>
  The replay files: what the server exports, its own decoder reads back; what the decoder
  accepts is well formed, and what it refuses it refuses with its own error.
\<close>

section \<open>Lenient and strict UTF-8\<close>

lemma good_conts_unfold:
  "good_conts l f 1 (b # bs) = (if cont_ok l f b then 1 else 0)"
  "good_conts l f 2 (b # bs) = (if cont_ok l f b then Suc (good_conts l False 1 bs) else 0)"
  "good_conts l f 3 (b # bs) = (if cont_ok l f b then Suc (good_conts l False 2 bs) else 0)"
  by (simp_all add: numeral_eq_Suc)

lemma cont_ok_simps:
  "cont_ok l False b = is_cont b"
  "l \<notin> {0xE0, 0xED, 0xF0, 0xF4} \<Longrightarrow> cont_ok l True b = is_cont b"
  by (auto simp: cont_ok_def)

lemma utf8_replace_decode: "utf8_decode bs = Inr s \<Longrightarrow> utf8_replace bs = s"
proof (induction bs arbitrary: s rule: utf8_decode.induct)
  case 1
  then show ?case by simp
next
  case (2 b bs)
  note IH = "2.IH" and run = "2.prems"
  define n where "n = unat b"
  consider "n < 0x80" | "0x80 \<le> n" "n < 0xC0" | "0xC0 \<le> n" "n < 0xE0"
    | "0xE0 \<le> n" "n < 0xF0" | "0xF0 \<le> n" by linarith
  then show ?case
  proof cases
    case 1
    then show ?thesis using run IH(1) by (auto simp: utf8_replace.simps(2) utf8_decode.simps(2) Let_def bindE_Inr_iff n_def)
  next
    case 2
    then show ?thesis using run by (simp add: utf8_decode.simps(2) Let_def n_def)
  next
    case 3
    then obtain b1 r s' where bs: "bs = b1 # r" "is_cont b1" and c: "0x80 \<le> (n - 0xC0) * 64 + cont_bits b1"
      and r: "utf8_decode r = Inr s'" and s: "s = ((n - 0xC0) * 64 + cont_bits b1) # s'"
      using run by (auto simp: utf8_decode.simps(2) Let_def bindE_Inr_iff n_def split: list.splits if_splits)
    have "utf8_replace r = s'" using IH(2) [of n b1 r] r 3 bs c by (simp add: n_def)
    moreover have "0xC2 \<le> n" using c bs(2) 3 unfolding cont_bits_def is_cont_def by arith
    ultimately show ?thesis
      using 3 bs(2) by (simp add: utf8_replace.simps(2) Let_def bs(1) s n_def [symmetric] good_conts_unfold cont_ok_simps code_point_def)
  next
    case 4
    define c where "c = (case bs of b1 # b2 # r \<Rightarrow> (n - 0xE0) * 4096 + cont_bits b1 * 64 + cont_bits b2 | _ \<Rightarrow> 0)"
    from 4 obtain b1 b2 r s' where bs: "bs = b1 # b2 # r" "is_cont b1" "is_cont b2" and k: "0x800 \<le> c" "\<not> (0xD800 \<le> c \<and> c < 0xE000)"
      and r: "utf8_decode r = Inr s'" and s: "s = c # s'"
      using run by (auto simp: utf8_decode.simps(2) Let_def bindE_Inr_iff n_def c_def split: list.splits if_splits)
    have c: "c = (n - 0xE0) * 4096 + cont_bits b1 * 64 + cont_bits b2" by (simp add: c_def bs)
    have "utf8_replace r = s'" using IH(3) [of n b1 "b2 # r" b2 r] r 4 bs k by (simp add: n_def c)
    moreover have "cont_ok n True b1"
      using bs(2,3) k 4 unfolding c by (auto simp: cont_ok_def cont_bits_def is_cont_def)
    ultimately show ?thesis
      using 4 bs(3) by (simp add: utf8_replace.simps(2) Let_def bs(1) s c n_def [symmetric] good_conts_unfold cont_ok_simps code_point_def algebra_simps)
  next
    case 5
    define c where "c = (case bs of b1 # b2 # b3 # r \<Rightarrow> (n - 0xF0) * 262144 + cont_bits b1 * 4096 + cont_bits b2 * 64 + cont_bits b3 | _ \<Rightarrow> 0)"
    from 5 obtain b1 b2 b3 r s' where bs: "bs = b1 # b2 # b3 # r" "is_cont b1" "is_cont b2" "is_cont b3"
      and k: "0x10000 \<le> c" "c < 0x110000" and r: "utf8_decode r = Inr s'" and s: "s = c # s'"
      using run by (auto simp: utf8_decode.simps(2) Let_def bindE_Inr_iff n_def c_def split: list.splits if_splits)
    have c: "c = (n - 0xF0) * 262144 + cont_bits b1 * 4096 + cont_bits b2 * 64 + cont_bits b3" by (simp add: c_def bs)
    have "utf8_replace r = s'" using IH(4) [of n b1 "b2 # b3 # r" b2 "b3 # r" b3 r] r 5 bs k by (simp add: n_def c)
    moreover have "n < 0xF5" using k 5 unfolding c by simp
    moreover have "cont_ok n True b1"
      using bs(2,3,4) k 5 unfolding c by (auto simp: cont_ok_def cont_bits_def is_cont_def)
    ultimately show ?thesis
      using 5 bs(3,4) by (simp add: utf8_replace.simps(2) Let_def bs(1) s c n_def [symmetric] good_conts_unfold cont_ok_simps code_point_def algebra_simps)
  qed
qed

section \<open>The readers of the decoder\<close>

lemma osr_bytes_app: "length b = n \<Longrightarrow> osr_bytes n (b @ rest) = Inr (b, rest)"
  by (simp add: osr_bytes_def)

lemma osr_unsigned_enc: "length b = n \<Longrightarrow> osr_unsigned n (b @ rest) = Inr (from_le_unsigned b, rest)"
  by (simp add: osr_unsigned_def rbind_def rret_def osr_bytes_app)

lemma from_le_unsigned_mod: "from_le_unsigned (int_bytes n v) = v mod 2 ^ (8 * n)"
  by (simp add: from_le_unsigned_def le_nat_int_bytes)

lemma enc_signed_Inr: "enc_signed e n v = Inr b \<longleftrightarrow> fits_signed n v \<and> b = int_bytes n v"
  by (auto simp: enc_signed_def)

lemma enc_unsigned_Inr: "enc_unsigned e n v = Inr b \<longleftrightarrow> fits_unsigned n v \<and> b = int_bytes n v"
  by (auto simp: enc_unsigned_def)

lemma osr_read_int: "osr_unsigned n (int_bytes n v @ rest) = Inr (v mod 2 ^ (8 * n), rest)"
  by (simp add: osr_unsigned_enc from_le_unsigned_mod)

lemma osr_read_int64: "fits_signed 8 v \<Longrightarrow> osr_int64 (int_bytes 8 v @ rest) = Inr (v, rest)"
  by (simp add: osr_int64_def rbind_def rret_def osr_bytes_app from_le_signed_int_bytes)

lemma read_uleb_shorter: "read_uleb a k bs = Inr (v, r) \<Longrightarrow> length r < length bs"
  by (induction a k bs rule: read_uleb.induct) (auto simp: Let_def split: if_splits)

lemma osr_uleb_read:
  "read_uleb a k bs = Inr (v, r) \<Longrightarrow> k + 7 * (length bs - length r) \<le> 70 \<Longrightarrow> osr_uleb a k bs = Inr (v, r)"
proof (induction a k bs rule: read_uleb.induct)
  case (2 a k b bs)
  show ?case
  proof (cases "b AND 0x80 = 0")
    case True
    then show ?thesis using "2.prems"(1) by (simp add: Let_def)
  next
    case False
    then have r: "read_uleb (a OR push_bit k (unat (b AND 0x7F))) (k + 7) bs = Inr (v, r)"
      using "2.prems"(1) by (simp add: Let_def)
    have "length r < length bs" by (rule read_uleb_shorter [OF r])
    then show ?thesis using "2.IH" [OF refl False r] "2.prems"(2) False by (simp add: Let_def)
  qed
qed simp

lemma length_uleb_bytes: "n < 2 ^ (7 * k) \<Longrightarrow> length (uleb_bytes n) \<le> k"
proof (induction n arbitrary: k rule: uleb_bytes.induct)
  case (1 n)
  show ?case
  proof (cases "n = 0")
    case False
    then obtain j where k: "k = Suc j" using "1.prems" by (cases k) auto
    have "n div 128 < 2 ^ (7 * j)"
      using "1.prems" by (simp add: k power_add less_mult_imp_div_less mult.commute)
    then have "drop_bit 7 n < 2 ^ (7 * j)" by (simp add: drop_bit_eq_div)
    then show ?thesis using "1.IH" [OF False refl refl] False k by (subst uleb_bytes.simps) (simp add: Let_def)
  qed (simp add: uleb_bytes.simps)
qed

lemma utf8_char_length: "utf8_char c = Inr b \<Longrightarrow> length b \<le> 4"
  by (auto simp: utf8_char_def split: if_splits)

lemma utf8_length: "utf8_encode s = Inr e \<Longrightarrow> length e \<le> 4 * length s"
proof (induction s arbitrary: e)
  case (Cons c s)
  then obtain b r where "utf8_char c = Inr b" "utf8_encode s = Inr r" "e = b @ r" by (auto simp: bindE_Inr_iff)
  then show ?case using utf8_char_length [of c b] Cons.IH [of r] by simp
qed simp

text \<open>The lenient string reader of the decoder reads what the writer of the protocol wrote.\<close>

lemma osr_string_written:
  assumes "valid_str s" "write_string s = Inr b" "length s < 2 ^ 61"
  shows "osr_string (b @ rest) = Inr (s, rest)"
proof (cases "s = []")
  case True
  then have "b = [0]" using assms(2) by (simp add: write_string_def)
  then show ?thesis
    using True by (simp add: osr_string_def osr_byte_def osr_unsigned_def osr_bytes_def rbind_def rret_def from_le_unsigned_def)
next
  case False
  then obtain e where e: "utf8_encode s = Inr e" "b = 0x0B # write_uleb128 (length e) @ e"
    using assms(2) by (auto simp: write_string_def bindE_Inr_iff)
  have n: "length e < 2 ^ (7 * 9)" using utf8_length [OF e(1)] assms(3) by simp
  have "length (write_uleb128 (length e)) \<le> 9"
    using length_uleb_bytes [OF n] by (simp add: write_uleb128_def)
  then have "osr_uleb 0 0 (write_uleb128 (length e) @ e @ rest) = Inr (length e, e @ rest)"
    by (intro osr_uleb_read read_write_uleb128) simp
  moreover have "utf8_replace e = s" by (rule utf8_replace_decode [OF utf8_decode_encode [OF e(1) assms(1)]])
  ultimately show ?thesis
    by (simp add: osr_string_def osr_byte_def osr_unsigned_def osr_bytes_def rbind_def rret_def from_le_unsigned_def e(2))
qed

interpretation osr_text: wire_format write_string osr_string "\<lambda>s. valid_str s \<and> length s < 2 ^ 61"
  by unfold_locales (auto simp: write_string_valid osr_string_written)

interpretation osr_i64: wire_format "enc_signed StructError 8" osr_int64 "fits_signed 8"
  by unfold_locales (auto simp: enc_signed_def osr_read_int64)

lemma osr_read_bind: "rbind (osr_unsigned n) k (int_bytes n v @ rest) = k (v mod 2 ^ (8 * n)) rest"
  by (simp add: rbind_def osr_read_int)

lemma osr_bytes_bind: "length b = n \<Longrightarrow> rbind (osr_bytes n) k (b @ rest) = k b rest"
  by (simp add: rbind_def osr_bytes_app)

lemma empty_string_bind: "rbind osr_string k (0 # rest) = k [] rest"
  by (simp add: osr_string_def osr_byte_def osr_unsigned_def osr_bytes_def rbind_def rret_def from_le_unsigned_def)

lemma score_id_bind:
  "fits_signed 8 v \<Longrightarrow> rbind (\<lambda>bs. if 8 \<le> length bs then osr_int64 bs else Inr (0, bs)) k (int_bytes 8 v) = k v []"
  using osr_read_int64 [of v "[]"] by (simp add: rbind_def)

text \<open>C20. A replay the server exports is a replay its own decoder reads: the frames are those of the
  stored file, and every field of the header is the one of the score, the counts as 16-bit and
  the score and mods as 32-bit numbers. Only a viewer who may see the player gets the file.
\<close>

theorem exported_replay_parses:
  assumes build: "build_full_replay md5 ticks files header sid viewer = Inr (Some (d, name))"
    and raw: "files sid = Some raw" and h: "header sid = Some h"
    and md5: "\<And>b. valid_str (md5 b) \<and> length (md5 b) = 32"
    and strings: "valid_str (rh_username h)" "length (rh_username h) < 2 ^ 61"
      "valid_str (rh_map_md5 h)" "length (rh_map_md5 h) < 2 ^ 61"
  shows "can_view_player viewer (rh_user_id h) (rh_user_priv h) \<and>
    (\<exists>digest. parse_osr lz d = bindE (decode_replay_frames lz raw) (\<lambda>(frames, seed). Inr
      \<lparr>rp_mode = as_vanilla (rh_mode h), rp_version = 20200207, rp_beatmap_md5 = rh_map_md5 h,
       rp_player_name = rh_username h, rp_md5 = digest, rp_n300 = rh_n300 h mod 2 ^ 16,
       rp_n100 = rh_n100 h mod 2 ^ 16, rp_n50 = rh_n50 h mod 2 ^ 16, rp_ngeki = rh_ngeki h mod 2 ^ 16,
       rp_nkatu = rh_nkatu h mod 2 ^ 16, rp_nmiss = rh_nmiss h mod 2 ^ 16, rp_score = rh_score h mod 2 ^ 32,
       rp_max_combo = rh_max_combo h mod 2 ^ 16, rp_perfect = (rh_perfect h = 1), rp_mods = rh_mods h mod 2 ^ 32,
       rp_life_bar_graph = [], rp_timestamp = ticks (rh_play_time h) + DATETIME_OFFSET, rp_frames = frames,
       rp_rng_seed = seed, rp_online_score_id = sid\<rparr>))"
proof -
  have view: "can_view_player viewer (rh_user_id h) (rh_user_priv h)"
    and bytes: "replay_file_bytes md5 ticks h raw sid = Inr d"
    using build by (auto simp: build_full_replay_def raw h bindE_Inr_iff split: if_splits)
  obtain t m b1 b2 b3 where
    mode: "game_mode_of (rh_mode h) = Inr m" "fits_unsigned 1 (as_vanilla m)"
    and names: "write_string (rh_map_md5 h) = Inr b1" "write_string (rh_username h) = Inr b2" "write_string (md5 t) = Inr b3"
    and fits: "fits_unsigned 1 (rh_perfect h)" "fits_signed 8 (ticks (rh_play_time h) + DATETIME_OFFSET)"
      "fits_signed 4 (int (length raw))" "fits_signed 8 sid"
    and d: "d = int_bytes 1 (as_vanilla m) @ int_bytes 4 20200207 @ b1 @ b2 @ b3 @ int_bytes 2 (rh_n300 h) @
        int_bytes 2 (rh_n100 h) @ int_bytes 2 (rh_n50 h) @ int_bytes 2 (rh_ngeki h) @ int_bytes 2 (rh_nkatu h) @
        int_bytes 2 (rh_nmiss h) @ int_bytes 4 (rh_score h) @ int_bytes 2 (rh_max_combo h) @ int_bytes 1 (rh_perfect h) @
        int_bytes 4 (rh_mods h) @ 0 # int_bytes 8 (ticks (rh_play_time h) + DATETIME_OFFSET) @
        int_bytes 4 (int (length raw)) @ raw @ int_bytes 8 sid"
    using bytes by (auto simp: replay_file_bytes_def bindE_Inr_iff enc_signed_Inr enc_unsigned_Inr)
  have m: "as_vanilla m mod 2 ^ 8 = as_vanilla (rh_mode h)"
    using mode by (auto simp: game_mode_of_def as_vanilla_def split: if_splits)
  have p: "(rh_perfect h mod 2 ^ 8 = 1) = (rh_perfect h = 1)" and l: "int (length raw) mod 2 ^ 32 = int (length raw)"
    using fits(1,3) by (simp_all add: fits_unsigned_def fits_signed_def)
  have s1: "rbind osr_string k (b1 @ r) = k (rh_map_md5 h) r" and s2: "rbind osr_string k (b2 @ r) = k (rh_username h) r"
    and s3: "rbind osr_string k (b3 @ r) = k (md5 t) r" for k :: "pystr \<Rightarrow> (bytes \<times> replay) reader" and r
    using osr_text.dec_enc_bind [OF _ names(1)] osr_text.dec_enc_bind [OF _ names(2)]
      osr_text.dec_enc_bind [OF _ names(3)] strings md5 by simp_all
  have i: "rbind osr_int64 k (int_bytes 8 (ticks (rh_play_time h) + DATETIME_OFFSET) @ r) =
      k (ticks (rh_play_time h) + DATETIME_OFFSET) r" for k :: "int \<Rightarrow> (bytes \<times> replay) reader" and r
    by (rule osr_i64.dec_enc_bind) (simp_all add: enc_signed_Inr fits)
  note read = osr_byte_def osr_int16_def osr_int32_def osr_read_bind s1 s2 s3 i empty_string_bind score_id_bind osr_bytes_bind
  have "parse_osr lz d = bindE (decode_replay_frames lz raw) (\<lambda>(frames, seed). Inr
      \<lparr>rp_mode = as_vanilla (rh_mode h), rp_version = 20200207, rp_beatmap_md5 = rh_map_md5 h,
       rp_player_name = rh_username h, rp_md5 = md5 t, rp_n300 = rh_n300 h mod 2 ^ 16,
       rp_n100 = rh_n100 h mod 2 ^ 16, rp_n50 = rh_n50 h mod 2 ^ 16, rp_ngeki = rh_ngeki h mod 2 ^ 16,
       rp_nkatu = rh_nkatu h mod 2 ^ 16, rp_nmiss = rh_nmiss h mod 2 ^ 16, rp_score = rh_score h mod 2 ^ 32,
       rp_max_combo = rh_max_combo h mod 2 ^ 16, rp_perfect = (rh_perfect h = 1), rp_mods = rh_mods h mod 2 ^ 32,
       rp_life_bar_graph = [], rp_timestamp = ticks (rh_play_time h) + DATETIME_OFFSET, rp_frames = frames,
       rp_rng_seed = seed, rp_online_score_id = sid\<rparr>)"
    using m p l by (simp add: parse_osr_def osr_header_def d read fits rret_def case_prod_unfold)
  with view show ?thesis by blast
qed

definition trial_header :: replay_header where
  "trial_header = \<lparr>rh_user_id = 5, rh_user_priv = 3, rh_username = [99, 109], rh_map_md5 = [109], rh_artist = [], rh_title = [],
     rh_version = [], rh_mode = 4, rh_n300 = 90, rh_n100 = 8, rh_n50 = 1, rh_ngeki = 20, rh_nkatu = 4, rh_nmiss = 1,
     rh_score = 500000, rh_max_combo = 250, rh_perfect = 0, rh_mods = 128,
     rh_play_time = ((2024, 1, 31), (23, 59, 59))\<rparr>"

theorem exported_replay_parses_witness:
  "\<exists>d name rp. build_full_replay (\<lambda>_. replicate 32 97) (\<lambda>_. 0) (\<lambda>_. Some [1, 2, 3]) (\<lambda>_. Some trial_header) 7 None =
       Inr (Some (d, name)) \<and> parse_osr (\<lambda>_. Some [49, 124, 50, 124, 51, 124, 53]) d = Inr rp \<and>
     rp_n300 rp = 90 \<and> rp_mode rp = 0 \<and> rp_player_name rp = [99, 109] \<and>
     rp_frames rp = fst (decode_frames [49, 124, 50, 124, 51, 124, 53])"
proof -
  have public: "can_view_player None 5 3"
    by (simp add: can_view_player_def PUBLIC_PLAYER_MASK_def P_UNRESTRICTED_def P_VERIFIED_def)
  have valid: "valid_str [99, 109]" "valid_str [109]" "valid_str (replicate 32 97)" by (simp_all add: valid_str_def)
  obtain b1 b2 b3 where b: "write_string [99, 109] = Inr b1" "write_string [109] = Inr b2" "write_string (replicate 32 97) = Inr b3"
    using write_string_valid valid by metis
  have "valid_str (replay_md5_text trial_header)"
    using nat_digits_ascii by (fastforce simp: valid_str_def replay_md5_text_def trial_header_def str_int_def py_def str_bool_def)
  then obtain t where t: "utf8_encode (replay_md5_text trial_header) = Inr t" using utf8_encode_valid by blast
  have mode: "game_mode_of 4 = Inr 4" "as_vanilla 4 = 0" by (simp_all add: game_mode_of_def as_vanilla_def)
  obtain d name where d: "build_full_replay (\<lambda>_. replicate 32 97) (\<lambda>_. 0) (\<lambda>_. Some [1, 2, 3]) (\<lambda>_. Some trial_header) 7 None =
       Inr (Some (d, name))"
    using public t mode
    by (simp add: build_full_replay_def replay_file_bytes_def b enc_signed_def enc_unsigned_def fits_signed_def
        fits_unsigned_def DATETIME_OFFSET_def trial_header_def)
  have "\<exists>digest. parse_osr (\<lambda>_. Some [49, 124, 50, 124, 51, 124, 53]) d = bindE (decode_replay_frames (\<lambda>_. Some [49, 124, 50, 124, 51, 124, 53]) [1, 2, 3])
      (\<lambda>(frames, seed). Inr
      \<lparr>rp_mode = as_vanilla 4, rp_version = 20200207, rp_beatmap_md5 = [109],
       rp_player_name = [99, 109], rp_md5 = digest, rp_n300 = 90 mod 2 ^ 16,
       rp_n100 = 8 mod 2 ^ 16, rp_n50 = 1 mod 2 ^ 16, rp_ngeki = 20 mod 2 ^ 16,
       rp_nkatu = 4 mod 2 ^ 16, rp_nmiss = 1 mod 2 ^ 16, rp_score = 500000 mod 2 ^ 32,
       rp_max_combo = 250 mod 2 ^ 16, rp_perfect = ((0 :: int) = 1), rp_mods = 128 mod 2 ^ 32,
       rp_life_bar_graph = [], rp_timestamp = 0 + DATETIME_OFFSET, rp_frames = frames,
       rp_rng_seed = seed, rp_online_score_id = 7\<rparr>)"
    using exported_replay_parses [OF d refl refl, where lz = "\<lambda>_. Some [49, 124, 50, 124, 51, 124, 53]"] valid
    by (simp add: trial_header_def)
  then show ?thesis
    using d mode by (cases "decode_frames [49, 124, 50, 124, 51, 124, 53]") (auto simp: decode_replay_frames_def)
qed

section \<open>What the decoder returns\<close>

text \<open>\<open>yields P m\<close>: the reader \<open>m\<close> fails with a parse error or returns a value in \<open>P\<close>.\<close>

definition yields :: "('a \<Rightarrow> bool) \<Rightarrow> 'a reader \<Rightarrow> bool" where
  "yields P m \<longleftrightarrow> (\<forall>bs. case m bs of Inl e \<Rightarrow> e = ReplayParseError | Inr (x, _) \<Rightarrow> P x)"

lemma yields_rbind: "yields P m \<Longrightarrow> (\<And>x. P x \<Longrightarrow> yields Q (k x)) \<Longrightarrow> yields Q (rbind m k)"
  unfolding yields_def rbind_def bindE_def by (fastforce split: sum.splits)

lemma yields_rret: "P x \<Longrightarrow> yields P (rret x)"
  by (simp add: yields_def rret_def)

lemma yields_bytes: "yields (\<lambda>b. length b = n) (osr_bytes n)"
  by (simp add: yields_def osr_bytes_def)

lemma yields_unsigned: "yields (\<lambda>v. 0 \<le> v \<and> v < 2 ^ (8 * n)) (osr_unsigned n)"
  unfolding osr_unsigned_def
  by (rule yields_rbind [OF yields_bytes], rule yields_rret) (use int_le_nat_bound in \<open>auto simp: from_le_unsigned_def\<close>)

lemma yields_int64: "yields (fits_signed 8) osr_int64"
  unfolding osr_int64_def
proof (rule yields_rbind [OF yields_bytes], rule yields_rret)
  fix b :: bytes assume n: "length b = 8"
  then have "b \<noteq> []" by auto
  from from_le_signed_range [OF this] show "fits_signed 8 (from_le_signed b)" by (simp add: n)
qed

lemma yields_uleb: "yields (\<lambda>_. True) (osr_uleb a k)"
proof -
  have "case osr_uleb a k bs of Inl e \<Rightarrow> e = ReplayParseError | Inr (x, _) \<Rightarrow> True" for bs
  proof (induction bs arbitrary: a k)
    case (Cons b bs)
    then show ?case by (cases "b AND 0x80 = 0"; cases "k + 7 > 63") (simp_all only: osr_uleb.simps Let_def if_True if_False sum.case prod.case refl)
  qed simp
  then show ?thesis by (simp add: yields_def)
qed

lemma yields_string: "yields (\<lambda>_. True) osr_string"
proof -
  have u: "yields (\<lambda>_. True) (osr_unsigned 1)" using yields_unsigned [of 1] by (auto simp: yields_def split: sum.splits)
  have b: "yields (\<lambda>_. True) (osr_bytes n)" for n using yields_bytes [of n] by (auto simp: yields_def split: sum.splits)
  have f: "yields (\<lambda>_. True) (\<lambda>bs. Inl ReplayParseError :: (pystr \<times> bytes) result)" by (simp add: yields_def)
  have n: "yields (\<lambda>_. True) (rbind (osr_uleb 0 0) (\<lambda>n. rbind (osr_bytes n) (\<lambda>raw. rret (utf8_replace raw))))"
    by (rule yields_rbind [OF yields_uleb], rule yields_rbind [OF b], rule yields_rret, simp)
  show ?thesis
    unfolding osr_string_def osr_byte_def
  proof (rule yields_rbind [OF u])
    fix flag :: int
    show "yields (\<lambda>_. True) (if flag = 0 then rret [] else if flag \<noteq> 0x0B then (\<lambda>bs. Inl ReplayParseError)
        else rbind (osr_uleb 0 0) (\<lambda>n. rbind (osr_bytes n) (\<lambda>raw. rret (utf8_replace raw))))"
      using n f yields_rret [of "\<lambda>_. True" "[]"] by (cases "flag = 0"; cases "flag = 0x0B") simp_all
  qed
qed

definition frame_ok :: "osr_frame \<Rightarrow> bool" where
  "frame_ok f \<longleftrightarrow> of_delta f \<noteq> SEED_FRAME_TIME \<and> 0 \<le> of_keys f \<and> of_keys f \<le> 31"

lemma key_mask: "t \<noteq> SEED_FRAME_TIME \<Longrightarrow> frame_ok \<lparr>of_delta = t, of_x = x, of_y = y, of_keys = k AND 0x1F\<rparr>"
  using AND_upper2 [of 31 k] by (simp add: frame_ok_def)

lemma fold_keeps: "P a \<Longrightarrow> (\<And>x a. P a \<Longrightarrow> P (f x a)) \<Longrightarrow> P (fold f xs a)"
  by (induction xs arbitrary: a) simp_all

lemma frames_ok: "\<forall>f \<in> set (fst (decode_frames raw)). frame_ok f"
  unfolding decode_frames_def
  by (rule fold_keeps [of "\<lambda>a. \<forall>f \<in> set (fst a). frame_ok f"]) (auto simp: key_mask split: option.splits prod.splits)

text \<open>The ranges of the fields of a decoded replay.\<close>

definition replay_ok :: "replay \<Rightarrow> bool" where
  "replay_ok rp \<longleftrightarrow> 0 \<le> rp_mode rp \<and> rp_mode rp < 2 ^ 8 \<and>
     (\<forall>v \<in> {rp_n300 rp, rp_n100 rp, rp_n50 rp, rp_ngeki rp, rp_nkatu rp, rp_nmiss rp, rp_max_combo rp}. 0 \<le> v \<and> v < 2 ^ 16) \<and>
     (\<forall>v \<in> {rp_version rp, rp_score rp, rp_mods rp}. 0 \<le> v \<and> v < 2 ^ 32) \<and>
     fits_signed 8 (rp_timestamp rp) \<and> fits_signed 8 (rp_online_score_id rp) \<and>
     (\<forall>f \<in> set (rp_frames rp). frame_ok f)"

text \<open>C38. The decoder is total on hostile input: on any bytes, and whatever the decompression
  returns, it either raises \<^verbatim>\<open>ReplayParseError\<close> and nothing else, or returns a replay whose
  fields are in their ranges, with the seed frame taken out and every key mask within five bits.
\<close>

theorem replay_decoder_total:
  "case parse_osr lz d of Inl e \<Rightarrow> e = ReplayParseError | Inr rp \<Rightarrow> replay_ok rp"
proof -
  have u: "yields (\<lambda>v. 0 \<le> v \<and> v < 2 ^ 8) osr_byte" "yields (\<lambda>v. 0 \<le> v \<and> v < 2 ^ 16) osr_int16"
    "yields (\<lambda>v. 0 \<le> v \<and> v < 2 ^ 32) osr_int32"
    using yields_unsigned [of 1] yields_unsigned [of 2] yields_unsigned [of 4]
    by (simp_all add: osr_byte_def osr_int16_def osr_int32_def)
  have sid: "yields (fits_signed 8) (\<lambda>bs. if 8 \<le> length bs then osr_int64 bs else Inr (0, bs))"
    using yields_int64 by (auto simp: yields_def fits_signed_def)
  have frames: "case decode_replay_frames lz c of Inl e \<Rightarrow> e = ReplayParseError
      | Inr (fs, sd) \<Rightarrow> \<forall>f \<in> set fs. frame_ok f" for c
    using frames_ok by (auto simp: decode_replay_frames_def split: option.splits prod.splits) (metis fst_conv)+
  have header: "yields (\<lambda>(c, rp). replay_ok rp) osr_header"
    unfolding osr_header_def
    by (rule yields_rbind, rule u yields_string yields_int64 sid yields_bytes)+ (rule yields_rret, simp add: replay_ok_def)
  show ?thesis
  proof (cases "osr_header d")
    case (Inl e)
    then show ?thesis using header [unfolded yields_def, rule_format, of d] by (simp add: parse_osr_def)
  next
    case (Inr r)
    obtain c rp rest where r: "r = ((c, rp), rest)" by (metis prod.exhaust)
    have "replay_ok rp" using header [unfolded yields_def, rule_format, of d] by (simp add: Inr r)
    then show ?thesis
      using frames [of c] by (cases "decode_replay_frames lz c") (auto simp: parse_osr_def Inr r replay_ok_def)
  qed
qed
end
