(* ===== verification/OsuFile.thy ===== *)
theory OsuFile
  imports Decimal
begin

text \<open>
  Beatmap files: \<^verbatim>\<open>app/adapters/osu_beatmap_file.py\<close>, the parser of the metadata, the
  rewriting of the identity and the canonical file name. A dict is a map; \<open>dv\<close> is the value
  of a decimal digit character. The times of the timing points are ordered by an insertion sort,
  which is any stable sort as long as no time is NaN. Integers of more than 4300 digits, which
  \<^verbatim>\<open>int\<close> refuses, are read like shorter ones.
\<close>

section \<open>Lines and fields\<close>

definition line_break :: "nat \<Rightarrow> bool" where
  "line_break c \<longleftrightarrow> c \<in> {10, 11, 12, 13, 0x1C, 0x1D, 0x1E, 0x85, 0x2028, 0x2029}"

text \<open>\<^verbatim>\<open>s.splitlines()\<close>; a carriage return and a line feed are one break.\<close>

function splitlines :: "pystr \<Rightarrow> pystr list" where
  "splitlines s =
     (if s = [] then []
      else takeWhile (\<lambda>c. \<not> line_break c) s #
           (case dropWhile (\<lambda>c. \<not> line_break c) s of
              [] \<Rightarrow> []
            | c # t \<Rightarrow> splitlines (if c = 13 \<and> starts_with t [10] then tl t else t)))"
  by pat_completeness auto
termination
proof (relation "measure length")
  fix s c t assume "s \<noteq> []" "dropWhile (\<lambda>c. \<not> line_break c) s = c # t"
  then have "length t < length s" using length_dropWhile_le [of "\<lambda>c. \<not> line_break c" s] by simp
  then show "((if c = 13 \<and> starts_with t [10] then tl t else t), s) \<in> measure length" by auto
qed simp

declare splitlines.simps [simp del]

definition join_str :: "pystr \<Rightarrow> pystr list \<Rightarrow> pystr" where
  "join_str sep ws = (case ws of [] \<Rightarrow> [] | w # r \<Rightarrow> w @ concat (map (\<lambda>x. sep @ x) r))"

definition or_else :: "'a option \<Rightarrow> 'a \<Rightarrow> 'a" where
  "or_else v d = (case v of None \<Rightarrow> d | Some x \<Rightarrow> x)"

text \<open>\<^verbatim>\<open>s.partition(":")\<close>, when there is a colon.\<close>

definition partition_colon :: "pystr \<Rightarrow> (pystr \<times> pystr) option" where
  "partition_colon s = map_option (\<lambda>i. (take i s, drop (Suc i) s)) (find_index (\<lambda>c. c = 58) s)"

definition contains :: "pystr \<Rightarrow> pystr \<Rightarrow> bool" where
  "contains s t \<longleftrightarrow> list_ex (\<lambda>i. take (length t) (drop i s) = t) [0..<Suc (length s)]"

section \<open>The sections\<close>

definition MIN_FORMAT_VERSION :: int where "MIN_FORMAT_VERSION = 3"
definition MAX_FORMAT_VERSION :: int where "MAX_FORMAT_VERSION = 128"
definition MAX_METADATA_LENGTH :: nat where "MAX_METADATA_LENGTH = 128"
definition MAX_FILENAME_LENGTH :: nat where "MAX_FILENAME_LENGTH = 200"

definition REQUIRED_SECTIONS :: "pystr list" where
  "REQUIRED_SECTIONS = map py [''General'', ''Metadata'', ''Difficulty'', ''TimingPoints'', ''HitObjects'']"

text \<open>The two patterns, on a line without surrounding spaces.\<close>

definition header_version :: "(nat \<Rightarrow> nat option) \<Rightarrow> pystr \<Rightarrow> int option" where
  "header_version dv s =
     (let t = (case s of c # r \<Rightarrow> if c = 0xFEFF then r else s | [] \<Rightarrow> []);
          p = py ''osu file format v''; ds = drop (length p) t
      in if starts_with t p \<and> ds \<noteq> [] \<and> list_all (is_dec dv) ds then Some (dec_value dv ds) else None)"

definition section_name :: "pystr \<Rightarrow> pystr option" where
  "section_name s =
     (case s of
        [] \<Rightarrow> None
      | c # t \<Rightarrow> if c = 91 \<and> t \<noteq> [] \<and> last t = 93 \<and> butlast t \<noteq> [] \<and> 93 \<notin> set (butlast t)
                 then Some (butlast t) else None)"

fun parse_format_version :: "(nat \<Rightarrow> nat option) \<Rightarrow> pystr list \<Rightarrow> int result" where
  "parse_format_version dv [] = Inl OsuFileParseError"
| "parse_format_version dv (line # lines) =
     (if strip line = [] then parse_format_version dv lines
      else case header_version dv (strip line) of
             None \<Rightarrow> Inl OsuFileParseError
           | Some v \<Rightarrow> if MIN_FORMAT_VERSION \<le> v \<and> v \<le> MAX_FORMAT_VERSION then Inr v else Inl OsuFileParseError)"

definition section_line ::
  "pystr \<Rightarrow> (pystr \<Rightarrow> pystr list option) \<times> pystr option \<Rightarrow> (pystr \<Rightarrow> pystr list option) \<times> pystr option" where
  "section_line line st =
     (let s = strip line; (sections, current) = st in
      if s = [] \<or> starts_with s [47, 47] then st
      else case section_name s of
             Some n \<Rightarrow> (if sections n = None then sections(n := Some []) else sections, Some n)
           | None \<Rightarrow> (case current of
                        None \<Rightarrow> st
                      | Some n \<Rightarrow> (sections(n := map_option (\<lambda>ls. ls @ [s]) (sections n)), current)))"

definition split_sections :: "pystr list \<Rightarrow> pystr \<Rightarrow> pystr list option" where
  "split_sections lines = fst (fold section_line lines (\<lambda>_. None, None))"

text \<open>The lines of the body of the first section of that name.\<close>

definition section_bounds :: "pystr list \<Rightarrow> pystr \<Rightarrow> (nat \<times> nat) option" where
  "section_bounds lines name =
     (case find_index (\<lambda>l. strip l = [91] @ name @ [93]) lines of
        None \<Rightarrow> None
      | Some i \<Rightarrow>
          Some (Suc i, case find_index (\<lambda>l. section_name (strip l) \<noteq> None) (drop (Suc i) lines) of
                         None \<Rightarrow> length lines | Some j \<Rightarrow> Suc i + j))"

definition parse_key_values :: "pystr list \<Rightarrow> pystr \<Rightarrow> pystr option" where
  "parse_key_values lines =
     fold (\<lambda>line values. case partition_colon line of
                           None \<Rightarrow> values | Some (k, v) \<Rightarrow> values(strip k := Some (strip v)))
       lines (\<lambda>_. None)"

section \<open>The fields\<close>

definition get_text :: "(pystr \<Rightarrow> pystr option) \<Rightarrow> pystr \<Rightarrow> pystr" where
  "get_text values key = strip (or_else (values key) [])"

definition require_text :: "(pystr \<Rightarrow> pystr option) \<Rightarrow> pystr \<Rightarrow> pystr result" where
  "require_text values key =
     (let v = get_text values key in if v = [] then Inl OsuFileParseError else Inr (take MAX_METADATA_LENGTH v))"

text \<open>\<^verbatim>\<open>except ValueError: raise OsuFileParseError\<close>\<close>

definition or_parse_error :: "'a result \<Rightarrow> 'a result" where
  "or_parse_error r = (case r of Inl e \<Rightarrow> Inl (if e = ValueError then OsuFileParseError else e) | Inr x \<Rightarrow> Inr x)"

definition parse_mode :: "(nat \<Rightarrow> nat option) \<Rightarrow> pystr option \<Rightarrow> int result" where
  "parse_mode dv raw =
     (case raw of
        None \<Rightarrow> Inr 0
      | Some s \<Rightarrow>
          if strip s = [] then Inr 0
          else bindE (or_parse_error (bindE (float_of_str dv s) int_of_float)) (\<lambda>mode.
                 if 0 \<le> mode \<and> mode \<le> 3 then Inr mode else Inl OsuFileParseError))"

definition parse_difficulty_value :: "(nat \<Rightarrow> nat option) \<Rightarrow> pystr \<Rightarrow> rat \<Rightarrow> rat result" where
  "parse_difficulty_value dv raw maximum =
     bindE (or_parse_error (float_of_str dv raw)) (\<lambda>v.
       case v of Fin x \<Rightarrow> if 0 \<le> x \<and> x \<le> maximum then Inr x else Inl OsuFileParseError
               | _ \<Rightarrow> Inl OsuFileParseError)"

definition require_difficulty_value ::
  "(nat \<Rightarrow> nat option) \<Rightarrow> (pystr \<Rightarrow> pystr option) \<Rightarrow> pystr \<Rightarrow> rat \<Rightarrow> rat result" where
  "require_difficulty_value dv values key maximum =
     (case values key of None \<Rightarrow> Inl OsuFileParseError | Some raw \<Rightarrow> parse_difficulty_value dv raw maximum)"

text \<open>An infinite mode raises an error of another type than the documented one.\<close>

lemma mode_infinity: "parse_mode dv (Some (py ''inf'')) = Inl OverflowError"
  by (simp add: parse_mode_def float_of_str_def strip_def is_space_def is_dec_def sign_of_def ascii_lower_def py_def
      int_of_float_def finite_or_def or_parse_error_def)

section \<open>Hit objects and tempo\<close>

definition HIT_OBJECT_SPINNER :: int where "HIT_OBJECT_SPINNER = 8"
definition HIT_OBJECT_MANIA_HOLD :: int where "HIT_OBJECT_MANIA_HOLD = 128"

definition hit_object_end_time :: "(nat \<Rightarrow> nat option) \<Rightarrow> pystr list \<Rightarrow> pyfloat \<Rightarrow> int \<Rightarrow> pyfloat" where
  "hit_object_end_time dv parts time object_type =
     (if object_type AND (HIT_OBJECT_SPINNER OR HIT_OBJECT_MANIA_HOLD) \<noteq> 0 \<and> 6 \<le> length parts
      then case float_of_str dv (strip (hd (split_max 58 1 (parts ! 5)))) of
             Inr e \<Rightarrow> fmax time e | Inl _ \<Rightarrow> time
      else time)"

definition hit_object_line ::
  "(nat \<Rightarrow> nat option) \<Rightarrow> pystr \<Rightarrow> pyfloat option \<times> pyfloat \<times> int \<Rightarrow> pyfloat option \<times> pyfloat \<times> int" where
  "hit_object_line dv line st =
     (let parts = split_on 44 line; (first, last_end, count) = st in
      if length parts < 4 then st
      else case (float_of_str dv (parts ! 2), py_int dv (parts ! 3)) of
             (Inr time, Inr object_type) \<Rightarrow>
               (case first of None \<Rightarrow> Some time | Some f \<Rightarrow> if flt time f then Some time else first,
                fmax last_end (hit_object_end_time dv parts time object_type), count + 1)
           | _ \<Rightarrow> st)"

text \<open>Total length in seconds, number of objects, end of the map.\<close>

definition parse_hit_object_span :: "(nat \<Rightarrow> nat option) \<Rightarrow> pystr list \<Rightarrow> (int \<times> int \<times> pyfloat) result" where
  "parse_hit_object_span dv lines =
     (case fold (hit_object_line dv) lines (None, Fin 0, 0) of
        (None, _, _) \<Rightarrow> Inl OsuFileParseError
      | (Some first, last_end, count) \<Rightarrow>
          bindE (ceil_of_float (fover (fmax (fminus last_end first) (Fin 0)) (Fin 1000))) (\<lambda>n.
            Inr (n, count, last_end)))"

text \<open>So does an object at an infinite time.\<close>

lemma endless_span:
  assumes "dv 48 = Some 0" "dv 49 = Some 1" "dv 44 = None" "dv 105 = None"
  shows "parse_hit_object_span dv [py ''0,0,0,1'', py ''0,0,inf,1''] = Inl OverflowError"
proof -
  have "float_of_str dv [48] = Inr (Fin 0)" "float_of_str dv [105, 110, 102] = Inr PInf" "py_int dv [49] = Inr 1"
    using assms by (simp_all add: float_of_str_def strip_def is_space_def is_dec_def sign_of_def ascii_lower_def py_def
        decimal_value_def digit_span_def exponent_part_def pow10_def to_double_def py_int_def)
  then show ?thesis
    by (simp add: parse_hit_object_span_def hit_object_line_def py_def hit_object_end_time_def HIT_OBJECT_SPINNER_def
        HIT_OBJECT_MANIA_HOLD_def fmax_def fminus_def ceil_of_float_def finite_or_def)
qed

definition timing_point :: "(nat \<Rightarrow> nat option) \<Rightarrow> pystr \<Rightarrow> (pyfloat \<times> pyfloat) option" where
  "timing_point dv line =
     (let parts = split_on 44 line in
      if length parts < 2 then None
      else case (float_of_str dv (parts ! 0), float_of_str dv (parts ! 1)) of
             (Inr time, Inr beat_length) \<Rightarrow>
               if (7 \<le> length parts \<longrightarrow> strip (parts ! 6) \<noteq> [48] \<and> strip (parts ! 6) \<noteq> []) \<and> flt (Fin 0) beat_length
               then Some (time, beat_length) else None
           | _ \<Rightarrow> None)"

fun insert_by_time :: "pyfloat \<times> pyfloat \<Rightarrow> (pyfloat \<times> pyfloat) list \<Rightarrow> (pyfloat \<times> pyfloat) list" where
  "insert_by_time p [] = [p]"
| "insert_by_time p (q # qs) = (if flt (fst q) (fst p) then q # insert_by_time p qs else p # q # qs)"

definition sort_by_time :: "(pyfloat \<times> pyfloat) list \<Rightarrow> (pyfloat \<times> pyfloat) list" where
  "sort_by_time ps = foldr insert_by_time ps []"

text \<open>
  The dict of durations, in insertion order, each with the index where the beat length was first
  seen. A beat length is positive, so equal ones are the same key.
\<close>

fun add_duration :: "pyfloat \<Rightarrow> pyfloat \<Rightarrow> int \<Rightarrow> (pyfloat \<times> pyfloat \<times> int) list \<Rightarrow> (pyfloat \<times> pyfloat \<times> int) list" where
  "add_duration b d i [] = [(b, fplus (Fin 0) d, i)]"
| "add_duration b d i ((b', d', j) # r) =
     (if b' = b then (b', fplus d' d, j) # r else (b', d', j) # add_duration b d i r)"

fun tempo_durations ::
  "pyfloat \<Rightarrow> int \<Rightarrow> (pyfloat \<times> pyfloat) list \<Rightarrow> (pyfloat \<times> pyfloat \<times> int) list \<Rightarrow> (pyfloat \<times> pyfloat \<times> int) list" where
  "tempo_durations map_end i [] acc = acc"
| "tempo_durations map_end i ((t, b) # ps) acc =
     (let stop = (case ps of [] \<Rightarrow> fmax map_end t | (t', _) # _ \<Rightarrow> t')
      in tempo_durations map_end (i + 1) ps (add_duration b (fmax (fminus stop t) (Fin 0)) i acc))"

text \<open>\<^verbatim>\<open>max(durations, key=...)\<close>: the first of the greatest, compared as pairs.\<close>

definition longer_tempo :: "pyfloat \<times> pyfloat \<times> int \<Rightarrow> pyfloat \<times> pyfloat \<times> int \<Rightarrow> bool" where
  "longer_tempo x y = (case x of (_, d, i) \<Rightarrow> case y of (_, d', j) \<Rightarrow> if feq d d' then - i > - j else flt d' d)"

definition parse_bpm :: "(nat \<Rightarrow> nat option) \<Rightarrow> pystr list \<Rightarrow> pyfloat \<Rightarrow> pyfloat result" where
  "parse_bpm dv lines map_end =
     (case tempo_durations map_end 0 (sort_by_time (List.map_filter (timing_point dv) lines)) [] of
        [] \<Rightarrow> Inl OsuFileParseError
      | x # xs \<Rightarrow> Inr (round2 (fover (Fin 60000) (fst (fold (\<lambda>y m. if longer_tempo y m then y else m) xs x)))))"

section \<open>Parsing a file\<close>

record osu_metadata =
  om_format_version :: int
  om_artist :: pystr
  om_title :: pystr
  om_version :: pystr
  om_declared_creator :: pystr
  om_mode :: int
  om_hp :: rat
  om_cs :: rat
  om_od :: rat
  om_ar :: rat
  om_bpm :: pyfloat
  om_total_length :: int
  om_hit_object_count :: int

text \<open>From the sections on.\<close>

definition parse_sections :: "(nat \<Rightarrow> nat option) \<Rightarrow> int \<Rightarrow> (pystr \<Rightarrow> pystr list option) \<Rightarrow> osu_metadata result" where
  "parse_sections dv format_version sections =
     (if list_ex (\<lambda>n. sections n = None) REQUIRED_SECTIONS then Inl OsuFileParseError
      else
        let body = (\<lambda>n. or_else (sections (py n)) []);
            general = parse_key_values (body ''General'');
            metadata = parse_key_values (body ''Metadata'');
            difficulty = parse_key_values (body ''Difficulty'')
        in bindE (require_text metadata (py ''Artist'')) (\<lambda>artist.
           bindE (require_text metadata (py ''Title'')) (\<lambda>title.
           bindE (require_text metadata (py ''Version'')) (\<lambda>version.
           bindE (parse_mode dv (general (py ''Mode''))) (\<lambda>mode.
           bindE (require_difficulty_value dv difficulty (py ''HPDrainRate'') 10) (\<lambda>hp.
           bindE (require_difficulty_value dv difficulty (py ''OverallDifficulty'') 10) (\<lambda>od.
           bindE (require_difficulty_value dv difficulty (py ''CircleSize'') (if mode = 3 then 18 else 10)) (\<lambda>cs.
           bindE (case difficulty (py ''ApproachRate'') of
                    None \<Rightarrow> Inr od | Some raw \<Rightarrow> parse_difficulty_value dv raw 10) (\<lambda>ar.
           bindE (parse_hit_object_span dv (body ''HitObjects'')) (\<lambda>(seconds, count, map_end).
           bindE (parse_bpm dv (body ''TimingPoints'') map_end) (\<lambda>bpm.
             Inr \<lparr>om_format_version = format_version, om_artist = artist, om_title = title, om_version = version,
                  om_declared_creator = take MAX_METADATA_LENGTH (get_text metadata (py ''Creator'')),
                  om_mode = mode, om_hp = hp, om_cs = cs, om_od = od, om_ar = ar, om_bpm = bpm,
                  om_total_length = seconds, om_hit_object_count = count\<rparr>)))))))))))"

definition parse_osu_file :: "(nat \<Rightarrow> nat option) \<Rightarrow> pystr \<Rightarrow> osu_metadata result" where
  "parse_osu_file dv content =
     (let lines = splitlines content
      in bindE (parse_format_version dv lines) (\<lambda>v. parse_sections dv v (split_sections lines)))"

section \<open>Rewriting the identity\<close>

definition identity_keys :: "int \<Rightarrow> int \<Rightarrow> pystr \<Rightarrow> (pystr \<times> pystr) list" where
  "identity_keys beatmap_id set_id creator =
     [(py ''BeatmapID'', str_int beatmap_id), (py ''BeatmapSetID'', str_int set_id), (py ''Creator'', creator)]"

definition line_key :: "pystr \<Rightarrow> pystr" where
  "line_key line = (if 58 \<in> set line then strip (hd (split_max 58 1 line)) else [])"

definition rewrite_line :: "(pystr \<times> pystr) list \<Rightarrow> pystr \<Rightarrow> pystr" where
  "rewrite_line keys line =
     (case map_of keys (line_key line) of None \<Rightarrow> line | Some v \<Rightarrow> line_key line @ [58] @ v)"

definition rewrite_lines :: "(pystr \<times> pystr) list \<Rightarrow> pystr list \<Rightarrow> pystr list result" where
  "rewrite_lines keys lines =
     (case section_bounds lines (py ''Metadata'') of
        None \<Rightarrow> Inl OsuFileParseError
      | Some (start, stop) \<Rightarrow>
          let body = drop start (take stop lines);
              missing = filter (\<lambda>(k, _). k \<notin> line_key ` set body) keys
          in Inr (take start lines @ map (rewrite_line keys) body @ map (\<lambda>(k, v). k @ [58] @ v) missing @
                  drop stop lines))"

definition rewrite_osu_file_identity :: "pystr \<Rightarrow> int \<Rightarrow> int \<Rightarrow> pystr \<Rightarrow> pystr result" where
  "rewrite_osu_file_identity content beatmap_id set_id creator =
     (let newline = (if contains content [13, 10] then [13, 10] else [10]);
          trailing = (if content \<noteq> [] \<and> last content \<in> {10, 13} then newline else [])
      in bindE (rewrite_lines (identity_keys beatmap_id set_id creator) (splitlines content)) (\<lambda>ls.
           Inr (join_str newline ls @ trailing)))"

section \<open>The file name\<close>

definition IGNORED_BEATMAP_CHARS :: pystr where
  "IGNORED_BEATMAP_CHARS = [58, 92, 47, 42, 60, 62, 63, 34, 124]"

text \<open>\<^verbatim>\<open>re.sub(r"\s+", " ", s)\<close>\<close>

fun collapse_spaces :: "bool \<Rightarrow> pystr \<Rightarrow> pystr" where
  "collapse_spaces after [] = []"
| "collapse_spaces after (c # s) =
     (if is_space c then (if after then collapse_spaces True s else 32 # collapse_spaces True s)
      else c # collapse_spaces False s)"

definition rstrip_set :: "nat set \<Rightarrow> pystr \<Rightarrow> pystr" where
  "rstrip_set cs s = rev (dropWhile (\<lambda>c. c \<in> cs) (rev s))"

definition beatmap_filename :: "pystr \<Rightarrow> pystr \<Rightarrow> pystr \<Rightarrow> pystr \<Rightarrow> pystr" where
  "beatmap_filename artist title creator version =
     filter (\<lambda>c. c \<notin> set IGNORED_BEATMAP_CHARS)
       (artist @ py '' - '' @ title @ py '' ('' @ creator @ py '') ['' @ version @ py ''].osu'')"

definition canonical_osu_filename :: "pystr \<Rightarrow> pystr \<Rightarrow> pystr \<Rightarrow> pystr \<Rightarrow> pystr result" where
  "canonical_osu_filename artist title creator version =
     (let f1 = filter (\<lambda>c. \<not> (c < 32 \<or> c = 127)) (beatmap_filename artist title creator version);
          f2 = strip (collapse_spaces False f1);
          f3 = (if length f2 > MAX_FILENAME_LENGTH
                then rstrip_set {32, 46} (take (MAX_FILENAME_LENGTH - length (py ''.osu'')) f2) @ py ''.osu'' else f2);
          stem = remove_suffix f3 (py ''.osu'')
      in if filter (\<lambda>c. \<not> (is_space c \<or> c \<in> {45, 40, 41, 91, 93, 46})) stem = [] then Inl OsuFileParseError
         else if starts_with f3 [46] then Inl OsuFileParseError
         else Inr f3)"

end
