(* ===== verification/Osz.thy ===== *)
theory Osz
  imports OsuFile
begin

text \<open>
  Beatmap archives: \<^verbatim>\<open>app/adapters/osz_archive.py\<close>. The \<^verbatim>\<open>zipfile\<close> module is a parameter: an
  opened archive is the list of its members with what the central directory says of each and what
  reading it gives. Of an error the model keeps whether its message mentions a limit, which is all
  the caller looks at. A message may quote a member name; \<open>rp\<close> is \<^verbatim>\<open>repr\<close>.
\<close>

record zip_member =
  zm_name :: pystr
  zm_file_size :: int
  zm_compress_size :: int
  zm_external_attr :: int
  zm_content :: "bytes result"

record osz_limits =
  ol_archive_bytes :: int
  ol_total_uncompressed :: int
  ol_member_count :: int
  ol_compression_ratio :: rat
  ol_osu_file_bytes :: int
  ol_osu_file_count :: int

record osu_member =
  ou_name :: pystr
  ou_text :: pystr

text \<open>\<open>Archive_error True\<close> is an \<^verbatim>\<open>OszArchiveError\<close> whose message mentions a limit.\<close>

datatype osz_error = Archive_error bool | Other_error exn

type_synonym 'a osz_result = "osz_error + 'a"

definition osz_bind :: "'a osz_result \<Rightarrow> ('a \<Rightarrow> 'b osz_result) \<Rightarrow> 'b osz_result" where
  "osz_bind r k = (case r of Inl e \<Rightarrow> Inl e | Inr x \<Rightarrow> k x)"

definition osz_raise_if :: "bool \<Rightarrow> bool \<Rightarrow> unit osz_result" where
  "osz_raise_if b large = (if b then Inl (Archive_error large) else Inr ())"

fun osz_each :: "('a \<Rightarrow> 'b osz_result) \<Rightarrow> 'a list \<Rightarrow> 'b list osz_result" where
  "osz_each f [] = Inr []"
| "osz_each f (x # xs) = osz_bind (f x) (\<lambda>y. osz_bind (osz_each f xs) (\<lambda>ys. Inr (y # ys)))"

definition mentions_limit :: "pystr \<Rightarrow> bool" where
  "mentions_limit s \<longleftrightarrow> contains s (py ''over the'') \<or> contains s (py ''expands to'')"

section \<open>One member\<close>

text \<open>\<^verbatim>\<open>PureWindowsPath(name).parts\<close> of a name without drive and root.\<close>

definition windows_parts :: "pystr \<Rightarrow> pystr list" where
  "windows_parts name =
     filter (\<lambda>p. p \<noteq> [] \<and> p \<noteq> [46]) (split_on 92 (map (\<lambda>c. if c = 47 then 92 else c) name))"

definition has_drive :: "pystr \<Rightarrow> bool" where
  "has_drive name \<longleftrightarrow> 2 \<le> length name \<and> name ! 1 = 58"

definition is_rooted :: "pystr \<Rightarrow> bool" where
  "is_rooted name \<longleftrightarrow> starts_with name [47] \<or> starts_with name [92]"

definition is_symlink :: "int \<Rightarrow> bool" where
  "is_symlink attr \<longleftrightarrow> (attr div 2 ^ 16) AND 0xF000 = 0xA000"

definition member_is_dir :: "zip_member \<Rightarrow> bool" where
  "member_is_dir z \<longleftrightarrow> ends_with (zm_name z) [47]"

definition validate_member :: "(pystr \<Rightarrow> pystr) \<Rightarrow> osz_limits \<Rightarrow> zip_member \<Rightarrow> unit osz_result" where
  "validate_member rp L z =
     (let name = zm_name z; quoted = mentions_limit (rp name)
      in osz_bind (osz_raise_if (name = [] \<or> 0 \<in> set name) False) (\<lambda>_.
         osz_bind (osz_raise_if (is_rooted name \<or> has_drive name) quoted) (\<lambda>_.
         osz_bind (osz_raise_if ([46, 46] \<in> set (windows_parts name)) quoted) (\<lambda>_.
         osz_bind (osz_raise_if (is_symlink (zm_external_attr z)) quoted) (\<lambda>_.
           osz_raise_if (zm_compress_size z > 0 \<and>
             fl (of_int (zm_file_size z) / of_int (zm_compress_size z)) > ol_compression_ratio L) True)))))"

text \<open>\<^verbatim>\<open>raw.decode("utf-8-sig")\<close>\<close>

definition decode_osu_member :: "(pystr \<Rightarrow> pystr) \<Rightarrow> bytes \<Rightarrow> pystr \<Rightarrow> pystr osz_result" where
  "decode_osu_member rp raw name =
     (case utf8_decode (if take 3 raw = [0xEF, 0xBB, 0xBF] then drop 3 raw else raw) of
        Inl _ \<Rightarrow> Inl (Archive_error (mentions_limit (rp name)))
      | Inr s \<Rightarrow> Inr s)"

definition read_osu_member :: "(pystr \<Rightarrow> pystr) \<Rightarrow> osz_limits \<Rightarrow> zip_member \<Rightarrow> osu_member osz_result" where
  "read_osu_member rp L z =
     osz_bind (osz_raise_if (zm_file_size z > ol_osu_file_bytes L) True) (\<lambda>_.
       case zm_content z of
         Inl e \<Rightarrow> Inl (Other_error e)
       | Inr raw \<Rightarrow> osz_bind (decode_osu_member rp raw (zm_name z)) (\<lambda>s.
                     Inr \<lparr>ou_name = zm_name z, ou_text = s\<rparr>))"

section \<open>An archive\<close>

text \<open>
  The only characters whose lower case is in \<^verbatim>\<open>.osu\<close> are ASCII ones, so \<open>ascii_lower\<close> decides
  the extension.
\<close>

definition is_osu_member :: "zip_member \<Rightarrow> bool" where
  "is_osu_member z \<longleftrightarrow> \<not> member_is_dir z \<and> ends_with (ascii_lower (zm_name z)) (py ''.osu'')"

text \<open>\<^verbatim>\<open>_open_archive\<close>: \<^verbatim>\<open>BadZipFile\<close> and \<^verbatim>\<open>LargeZipFile\<close> are \<open>ZipError\<close>.\<close>

definition open_archive :: "(bytes \<Rightarrow> zip_member list result) \<Rightarrow> bytes \<Rightarrow> zip_member list osz_result" where
  "open_archive unzip data =
     (case unzip data of
        Inl e \<Rightarrow> Inl (if e = ZipError then Archive_error False else Other_error e)
      | Inr infos \<Rightarrow> Inr infos)"

record osz_contents =
  oc_member_count :: nat
  oc_total_uncompressed :: int
  oc_members :: "osu_member list"

definition read_osz ::
  "(bytes \<Rightarrow> zip_member list result) \<Rightarrow> (pystr \<Rightarrow> pystr) \<Rightarrow> osz_limits \<Rightarrow> bytes \<Rightarrow> osz_contents osz_result" where
  "read_osz unzip rp L data =
     osz_bind (osz_raise_if (int (length data) > ol_archive_bytes L) True) (\<lambda>_.
     osz_bind (open_archive unzip data) (\<lambda>infos.
     osz_bind (osz_raise_if (int (length infos) > ol_member_count L) True) (\<lambda>_.
       let total_uncompressed = sum_list (map zm_file_size infos)
       in osz_bind (osz_raise_if (total_uncompressed > ol_total_uncompressed L) True) (\<lambda>_.
          osz_bind (osz_each (validate_member rp L) infos) (\<lambda>_.
            let osu_infos = filter is_osu_member infos
            in osz_bind (osz_raise_if (osu_infos = []) False) (\<lambda>_.
               osz_bind (osz_raise_if (int (length osu_infos) > ol_osu_file_count L) True) (\<lambda>_.
               osz_bind (osz_each (read_osu_member rp L) osu_infos) (\<lambda>osu_members.
                 Inr \<lparr>oc_member_count = length infos, oc_total_uncompressed = total_uncompressed,
                      oc_members = osu_members\<rparr>))))))))"

definition repack_member ::
  "(pystr \<Rightarrow> osu_member option) \<Rightarrow> zip_member \<Rightarrow> (pystr \<times> bytes) osz_result" where
  "repack_member replacements z =
     (case replacements (zm_name z) of
        Some m \<Rightarrow> (case utf8_encode (ou_text m) of Inl e \<Rightarrow> Inl (Other_error e) | Inr b \<Rightarrow> Inr (ou_name m, b))
      | None \<Rightarrow> (case zm_content z of Inl e \<Rightarrow> Inl (Other_error e) | Inr b \<Rightarrow> Inr (zm_name z, b)))"

definition repack_osz ::
  "(bytes \<Rightarrow> zip_member list result) \<Rightarrow> ((pystr \<times> bytes) list \<Rightarrow> bytes result) \<Rightarrow> (pystr \<Rightarrow> osu_member option) \<Rightarrow>
   bytes \<Rightarrow> bytes osz_result" where
  "repack_osz unzip rezip replacements data =
     osz_bind (open_archive unzip data) (\<lambda>infos.
     osz_bind (osz_each (repack_member replacements) (filter (\<lambda>z. \<not> member_is_dir z) infos)) (\<lambda>entries.
       case rezip entries of Inl e \<Rightarrow> Inl (Other_error e) | Inr b \<Rightarrow> Inr b))"

section \<open>What a member that is read satisfies\<close>

lemma osz_bind_Inr_iff: "osz_bind r k = Inr y \<longleftrightarrow> (\<exists>x. r = Inr x \<and> k x = Inr y)"
  by (cases r) (simp_all add: osz_bind_def)

lemma osz_raise_if_iff [simp]: "osz_raise_if b l = Inr u \<longleftrightarrow> \<not> b"
  by (simp add: osz_raise_if_def)

lemma osz_each_Inr: "osz_each f xs = Inr ys \<Longrightarrow> list_all2 (\<lambda>x y. f x = Inr y) xs ys"
  by (induction xs arbitrary: ys) (auto simp: osz_bind_Inr_iff)

end
