(* ===== verification/Hosting.thy ===== *)
theory Hosting
  imports Osz Submission
begin

text \<open>
  The state of the hosted beatmaps and the parts the submission service is given: the repositories
  \<^verbatim>\<open>map_id_sequence\<close>, \<^verbatim>\<open>map_submissions\<close>, \<^verbatim>\<open>maps\<close> and \<^verbatim>\<open>mapsets\<close> under
  \<^verbatim>\<open>app/repositories\<close>, the file writer and the cache eviction of
  \<^verbatim>\<open>app/api/dependencies.py\<close>. The state (\<open>hosting\<close>) holds the tables, the files and the
  beatmap cache. Every access to the database or the file system is a step \<open>hio\<close>, which may raise
  what the schedule \<open>ue_fault\<close> says: a database error, a cancellation, the death of the process.
\<close>

section \<open>The state\<close>

datatype map_server = Server_osu | Server_private

text \<open>\<open>Osu_file i\<close> is \<^verbatim>\<open>{beatmaps_path}/{i}.osu\<close>, \<open>Osz_file i\<close> is \<^verbatim>\<open>{archives_path}/{i}.osz\<close>.\<close>

datatype host_path = Osu_file int | Osz_file int | Temp_file host_path

record hosted_map =
  hm_id :: int
  hm_server :: map_server
  hm_set_id :: int
  hm_status :: int
  hm_md5 :: pystr
  hm_artist :: pystr
  hm_title :: pystr
  hm_version :: pystr
  hm_creator :: pystr
  hm_filename :: pystr
  hm_last_update :: int
  hm_total_length :: int
  hm_max_combo :: int
  hm_frozen :: bool
  hm_plays :: int
  hm_passes :: int
  hm_mode :: int
  hm_bpm :: rat
  hm_cs :: rat
  hm_ar :: rat
  hm_od :: rat
  hm_hp :: rat
  hm_diff :: rat

record mapset_row =
  mp_id :: int
  mp_server :: map_server
  mp_last_check :: int

record map_submission =
  su_set_id :: int
  su_user :: int
  su_state :: pystr
  su_declared_creator :: pystr
  su_difficulty_count :: nat
  su_osz_size :: nat
  su_osz_sha256 :: pystr
  su_submitted_at :: int
  su_updated_at :: int
  su_reviewed_by :: "int option"
  su_reviewed_at :: "int option"
  su_note :: "pystr option"

datatype map_id_kind = Kind_map | Kind_set

text \<open>\<open>hd_next_id\<close> is the \<^verbatim>\<open>auto_increment\<close> of the sequence table.\<close>

record host_db =
  hd_maps :: "hosted_map list"
  hd_mapsets :: "mapset_row list"
  hd_subs :: "map_submission list"
  hd_ids :: "(int \<times> map_id_kind \<times> int) list"
  hd_next_id :: int
  hd_scores :: "score_row list"

text \<open>The cache holds beatmap objects under their id and their checksum; their status matters.\<close>

datatype cache_key = By_id int | By_md5 pystr

text \<open>\<open>h_written\<close> is the local list of the files a submission has written.\<close>

record hosting =
  h_db :: host_db
  h_files :: "host_path \<Rightarrow> bytes option"
  h_cache :: "cache_key \<Rightarrow> int option"
  h_cached_sets :: "int set"
  h_written :: "host_path list"
  h_tick :: nat

record up_user =
  uu_id :: int
  uu_name :: pystr
  uu_priv :: int
  uu_silence_end :: int

text \<open>
  From outside the program: the fault schedule, the digits of Unicode, \<^verbatim>\<open>zipfile\<close>, \<^verbatim>\<open>repr\<close>,
  MD5 and SHA-256, the star rating, the clock, what a text and a FLOAT column stores, the
  comparison of text columns, how much of a file a failed write leaves, and the settings.
\<close>

record up_env =
  ue_fault :: "nat \<Rightarrow> exn option"
  ue_digit :: "nat \<Rightarrow> nat option"
  ue_unzip :: "bytes \<Rightarrow> zip_member list result"
  ue_zip :: "(pystr \<times> bytes) list \<Rightarrow> bytes result"
  ue_repr :: "pystr \<Rightarrow> pystr"
  ue_md5 :: "bytes \<Rightarrow> pystr"
  ue_sha256 :: "bytes \<Rightarrow> pystr"
  ue_rate :: "pystr \<Rightarrow> int \<Rightarrow> (pyfloat \<times> int) result"
  ue_now :: "nat \<Rightarrow> int"
  ue_text_column :: "pystr \<Rightarrow> pystr result"
  ue_float_column :: "nat \<Rightarrow> pyfloat \<Rightarrow> rat result"
  ue_same_text :: "pystr \<Rightarrow> pystr \<Rightarrow> bool"
  ue_torn :: nat
  ue_limits :: osz_limits
  ue_max_submissions :: int

type_synonym 'a hop = "(hosting, 'a) op"

definition hio :: "up_env \<Rightarrow> 'a hop \<Rightarrow> 'a hop" where
  "hio E m = (\<lambda>s. let s' = s\<lparr>h_tick := Suc (h_tick s)\<rparr>
                 in case ue_fault E (h_tick s) of Some e \<Rightarrow> (Inl e, s') | None \<Rightarrow> m s')"

definition hdb :: "(host_db \<Rightarrow> host_db) \<Rightarrow> unit hop" where
  "hdb f = modify (\<lambda>s. s\<lparr>h_db := f (h_db s)\<rparr>)"

definition hget :: "(host_db \<Rightarrow> 'a) \<Rightarrow> 'a hop" where
  "hget f = gets (\<lambda>s. f (h_db s))"

definition clock :: "up_env \<Rightarrow> int hop" where
  "clock E = gets (\<lambda>s. ue_now E (h_tick s))"

text \<open>An INT column of a strict database.\<close>

definition int_column :: "int \<Rightarrow> int result" where
  "int_column n = (if - (2 ^ 31) \<le> n \<and> n < 2 ^ 31 then Inr n else Inl DatabaseError)"

section \<open>The id sequence\<close>

definition PRIVATE_BEATMAP_ID_FLOOR :: int where "PRIVATE_BEATMAP_ID_FLOOR = 2000000000"

definition allocate :: "up_env \<Rightarrow> map_id_kind \<Rightarrow> int \<Rightarrow> int hop" where
  "allocate E kind allocated_by =
     bnd (hio E (bnd (hget hd_next_id) (\<lambda>i. bnd (lift_result (int_column i)) (\<lambda>_.
            thn (hdb (\<lambda>d. d\<lparr>hd_ids := hd_ids d @ [(i, kind, allocated_by)], hd_next_id := i + 1\<rparr>)) (retn i))))) (\<lambda>i.
       if i < PRIVATE_BEATMAP_ID_FLOOR then raise BeatmapIdAllocationError else retn i)"

fun allocate_many :: "up_env \<Rightarrow> map_id_kind \<Rightarrow> nat \<Rightarrow> int \<Rightarrow> int list hop" where
  "allocate_many E kind 0 allocated_by = retn []"
| "allocate_many E kind (Suc n) allocated_by =
     bnd (allocate E kind allocated_by) (\<lambda>i. bnd (allocate_many E kind n allocated_by) (\<lambda>is. retn (i # is)))"

section \<open>The tables\<close>

definition find_where :: "('a \<Rightarrow> bool) \<Rightarrow> 'a list \<Rightarrow> 'a option" where
  "find_where p xs = (case filter p xs of [] \<Rightarrow> None | x # _ \<Rightarrow> Some x)"

definition maps_fetch_one :: "up_env \<Rightarrow> (hosted_map \<Rightarrow> bool) \<Rightarrow> hosted_map option hop" where
  "maps_fetch_one E p = hio E (hget (\<lambda>d. find_where p (hd_maps d)))"

text \<open>The primary key and the two unique indexes of the table.\<close>

definition maps_create :: "up_env \<Rightarrow> hosted_map \<Rightarrow> hosted_map hop" where
  "maps_create E r =
     thn (hio E (bnd (hget hd_maps) (\<lambda>rs.
            if list_ex (\<lambda>r'. hm_id r' = hm_id r \<or> hm_md5 r' = hm_md5 r) rs then raise DatabaseError
            else hdb (\<lambda>d. d\<lparr>hd_maps := hd_maps d @ [r]\<rparr>))))
       (bnd (maps_fetch_one E (\<lambda>r'. hm_id r' = hm_id r)) (the_or AssertionError))"

definition maps_fetch_many :: "up_env \<Rightarrow> int \<Rightarrow> map_server \<Rightarrow> hosted_map list hop" where
  "maps_fetch_many E set_id server =
     hio E (hget (\<lambda>d. filter (\<lambda>r. hm_set_id r = set_id \<and> hm_server r = server) (hd_maps d)))"

text \<open>\<^verbatim>\<open>partial_update(id, status=...)\<close>, the one column these requests set.\<close>

definition maps_update_status :: "up_env \<Rightarrow> int \<Rightarrow> int \<Rightarrow> hosted_map option hop" where
  "maps_update_status E i status =
     thn (hio E (bnd (lift_result (int_column status)) (\<lambda>v.
            hdb (\<lambda>d. d\<lparr>hd_maps := map (\<lambda>r. if hm_id r = i then r\<lparr>hm_status := v\<rparr> else r) (hd_maps d)\<rparr>))))
       (maps_fetch_one E (\<lambda>r. hm_id r = i))"

definition maps_delete_by_set_id :: "up_env \<Rightarrow> int \<Rightarrow> map_server \<Rightarrow> unit hop" where
  "maps_delete_by_set_id E set_id server =
     hio E (hdb (\<lambda>d. d\<lparr>hd_maps := filter (\<lambda>r. \<not> (hm_set_id r = set_id \<and> hm_server r = server)) (hd_maps d)\<rparr>))"

text \<open>The id of a set is unique on its own too, so the update may hit a row of the other server.\<close>

definition mapsets_upsert :: "up_env \<Rightarrow> int \<Rightarrow> map_server \<Rightarrow> int \<Rightarrow> mapset_row hop" where
  "mapsets_upsert E i server t =
     thn (hio E (hdb (\<lambda>d. d\<lparr>hd_mapsets :=
            (if list_ex (\<lambda>m. mp_id m = i) (hd_mapsets d)
             then map (\<lambda>m. if mp_id m = i then m\<lparr>mp_last_check := t\<rparr> else m) (hd_mapsets d)
             else hd_mapsets d @ [\<lparr>mp_id = i, mp_server = server, mp_last_check = t\<rparr>])\<rparr>)))
       (bnd (hio E (hget (\<lambda>d. find_where (\<lambda>m. mp_id m = i \<and> mp_server m = server) (hd_mapsets d))))
         (the_or AssertionError))"

definition mapsets_delete_one :: "up_env \<Rightarrow> int \<Rightarrow> map_server \<Rightarrow> unit hop" where
  "mapsets_delete_one E i server =
     hio E (hdb (\<lambda>d. d\<lparr>hd_mapsets := filter (\<lambda>m. \<not> (mp_id m = i \<and> mp_server m = server)) (hd_mapsets d)\<rparr>))"

definition REVIEW_PENDING :: pystr where "REVIEW_PENDING = py ''pending''"
definition REVIEW_APPROVED :: pystr where "REVIEW_APPROVED = py ''approved''"
definition REVIEW_REJECTED :: pystr where "REVIEW_REJECTED = py ''rejected''"

text \<open>An ENUM column of a strict database.\<close>

definition review_column :: "pystr \<Rightarrow> pystr result" where
  "review_column v = (if v \<in> {REVIEW_PENDING, REVIEW_APPROVED, REVIEW_REJECTED} then Inr v else Inl DatabaseError)"

definition subs_fetch_one :: "up_env \<Rightarrow> int \<Rightarrow> map_submission option hop" where
  "subs_fetch_one E set_id = hio E (hget (\<lambda>d. find_where (\<lambda>u. su_set_id u = set_id) (hd_subs d)))"

definition sub_matches :: "int option \<Rightarrow> pystr option \<Rightarrow> map_submission \<Rightarrow> bool" where
  "sub_matches user state u \<longleftrightarrow>
     (case user of None \<Rightarrow> True | Some i \<Rightarrow> su_user u = i) \<and> (case state of None \<Rightarrow> True | Some v \<Rightarrow> su_state u = v)"

definition subs_fetch_count :: "up_env \<Rightarrow> int option \<Rightarrow> pystr option \<Rightarrow> int hop" where
  "subs_fetch_count E user state =
     hio E (hget (\<lambda>d. int (length (filter (sub_matches user state) (hd_subs d)))))"

text \<open>Newest first: by the set id, which is the primary key. A page below one is a database error.\<close>

definition subs_fetch_many :: "up_env \<Rightarrow> int option \<Rightarrow> pystr option \<Rightarrow> int \<Rightarrow> int \<Rightarrow> map_submission list hop" where
  "subs_fetch_many E user state page page_size =
     hio E (if page_size < 0 \<or> (page - 1) * page_size < 0 then raise DatabaseError
            else hget (\<lambda>d. take (nat page_size) (drop (nat ((page - 1) * page_size))
                       (rev (sort_key su_set_id (filter (sub_matches user state) (hd_subs d)))))))"

definition subs_create ::
  "up_env \<Rightarrow> int \<Rightarrow> int \<Rightarrow> pystr \<Rightarrow> nat \<Rightarrow> nat \<Rightarrow> pystr \<Rightarrow> map_submission hop" where
  "subs_create E set_id user declared_creator n osz_size sha256 =
     thn (hio E (bnd (hget hd_subs) (\<lambda>us. bnd (clock E) (\<lambda>t.
            bnd (lift_result (ue_text_column E (take 64 declared_creator))) (\<lambda>c.
              if list_ex (\<lambda>u. su_set_id u = set_id) us then raise DatabaseError
              else hdb (\<lambda>d. d\<lparr>hd_subs := hd_subs d @
                [\<lparr>su_set_id = set_id, su_user = user, su_state = REVIEW_PENDING, su_declared_creator = c,
                  su_difficulty_count = n, su_osz_size = osz_size, su_osz_sha256 = sha256, su_submitted_at = t,
                  su_updated_at = t, su_reviewed_by = None, su_reviewed_at = None, su_note = None\<rparr>]\<rparr>))))))
       (bnd (subs_fetch_one E set_id) (the_or AssertionError))"

text \<open>
  \<^verbatim>\<open>partial_update\<close> as the service calls it: the reviewer and the note are always passed, so the
  note is overwritten, with NULL when there is none.
\<close>

definition subs_review :: "up_env \<Rightarrow> int \<Rightarrow> pystr option \<Rightarrow> int \<Rightarrow> pystr option \<Rightarrow> map_submission option hop" where
  "subs_review E set_id state reviewer note =
     thn (hio E (bnd (clock E) (\<lambda>t.
            bnd (lift_result (case state of None \<Rightarrow> Inr None | Some v \<Rightarrow> bindE (review_column v) (Inr \<circ> Some))) (\<lambda>state'.
            bnd (lift_result (case note of None \<Rightarrow> Inr None
                              | Some v \<Rightarrow> bindE (ue_text_column E (take 512 v)) (Inr \<circ> Some))) (\<lambda>note'.
              hdb (\<lambda>d. d\<lparr>hd_subs := map (\<lambda>u. if su_set_id u = set_id
                  then u\<lparr>su_state := (case state' of None \<Rightarrow> su_state u | Some v \<Rightarrow> v), su_reviewed_by := Some reviewer,
                         su_reviewed_at := Some t, su_note := note', su_updated_at := t\<rparr> else u) (hd_subs d)\<rparr>))))))
       (subs_fetch_one E set_id)"

definition subs_delete_one :: "up_env \<Rightarrow> int \<Rightarrow> unit hop" where
  "subs_delete_one E set_id =
     hio E (hdb (\<lambda>d. d\<lparr>hd_subs := filter (\<lambda>u. su_set_id u \<noteq> set_id) (hd_subs d)\<rparr>))"

definition scores_fetch_count :: "up_env \<Rightarrow> pystr \<Rightarrow> int option \<Rightarrow> int hop" where
  "scores_fetch_count E md5 user =
     hio E (hget (\<lambda>d. int (length (filter (\<lambda>r. sr_map_md5 r = md5 \<and>
       (case user of None \<Rightarrow> True | Some i \<Rightarrow> sr_userid r = i)) (hd_scores d)))))"

definition scores_delete_by_map_md5s :: "up_env \<Rightarrow> pystr list \<Rightarrow> unit hop" where
  "scores_delete_by_map_md5s E md5s =
     (if md5s = [] then skip
      else hio E (hdb (\<lambda>d. d\<lparr>hd_scores := filter (\<lambda>r. sr_map_md5 r \<notin> set md5s) (hd_scores d)\<rparr>)))"

text \<open>\<^verbatim>\<open>async with database.transaction()\<close>, as for a score.\<close>

definition host_transaction :: "up_env \<Rightarrow> 'a hop \<Rightarrow> 'a hop" where
  "host_transaction E m =
     (\<lambda>s. case bnd (thn (hio E skip) m) (\<lambda>x. thn (hio E skip) (retn x)) s of
            (Inl e, s') \<Rightarrow> (Inl e, s'\<lparr>h_db := h_db s\<rparr>) | (Inr x, s') \<Rightarrow> (Inr x, s'))"

section \<open>Files and cache\<close>

definition put_file :: "host_path \<Rightarrow> bytes option \<Rightarrow> unit hop" where
  "put_file p v = modify (\<lambda>s. s\<lparr>h_files := (h_files s)(p := v)\<rparr>)"

text \<open>The temporary file may be left behind, whole or torn; the replacement is atomic.\<close>

definition write_file_atomically :: "up_env \<Rightarrow> host_path \<Rightarrow> bytes \<Rightarrow> unit hop" where
  "write_file_atomically E p data =
     thn (hio E (put_file (Temp_file p) (Some (take (ue_torn E) data))))
    (thn (hio E (put_file (Temp_file p) (Some data)))
         (hio E (thn (put_file p (Some data)) (put_file (Temp_file p) None))))"

definition remove_file :: "up_env \<Rightarrow> host_path \<Rightarrow> unit hop" where
  "remove_file E p = hio E (put_file p None)"

definition evict_beatmap_cache :: "int \<Rightarrow> int list \<Rightarrow> pystr list \<Rightarrow> unit hop" where
  "evict_beatmap_cache set_id map_ids map_md5s =
     modify (\<lambda>s. s\<lparr>h_cached_sets := h_cached_sets s - {set_id},
                  h_cache := (\<lambda>k. if k \<in> By_id ` set map_ids \<union> By_md5 ` set map_md5s then None else h_cache s k)\<rparr>)"

end
