(* ===== verification/Uploads.thy ===== *)
theory Uploads
  imports Hosting
begin

text \<open>
  Hosted beatmaps: \<^verbatim>\<open>app/services/beatmap_submissions.py\<close>, with the files served to the client by
  \<^verbatim>\<open>app/services/private_beatmap_files.py\<close>. One request runs from start to end. The texts of
  the results are left out.
\<close>

section \<open>Results\<close>

datatype submission_code =
    CREATED | UPDATED | DELETED | FOUND | NOT_FOUND | FORBIDDEN | NOT_ELIGIBLE | QUOTA_EXCEEDED
  | ARCHIVE_TOO_LARGE | INVALID_ARCHIVE | INVALID_DIFFICULTY_FILE | DUPLICATE_DIFFICULTY_NAME
  | INCONSISTENT_METADATA | CHECKSUM_ALREADY_EXISTS | FILENAME_ALREADY_EXISTS | STATUS_NOT_PERMITTED
  | HAS_FOREIGN_SCORES | RATING_FAILED

record submitted_difficulty =
  sd_beatmap_id :: int
  sd_md5 :: pystr
  sd_filename :: pystr
  sd_version :: pystr
  sd_mode :: int
  sd_status :: int
  sd_total_length :: int
  sd_max_combo :: int
  sd_bpm :: pyfloat
  sd_cs :: rat
  sd_ar :: rat
  sd_od :: rat
  sd_hp :: rat
  sd_diff :: pyfloat

record submission_result =
  rs_code :: submission_code
  rs_submission :: "map_submission option"
  rs_difficulties :: "submitted_difficulty list"

definition just_code :: "submission_code \<Rightarrow> submission_result" where
  "just_code c = \<lparr>rs_code = c, rs_submission = None, rs_difficulties = []\<rparr>"

record prepared_difficulty =
  pd_beatmap_id :: int
  pd_original_name :: pystr
  pd_filename :: pystr
  pd_text :: pystr
  pd_data :: bytes
  pd_md5 :: pystr
  pd_metadata :: osu_metadata
  pd_stars :: pyfloat
  pd_max_combo :: int

definition as_submitted_difficulty :: "prepared_difficulty \<Rightarrow> submitted_difficulty" where
  "as_submitted_difficulty d =
     (let m = pd_metadata d in
      \<lparr>sd_beatmap_id = pd_beatmap_id d, sd_md5 = pd_md5 d, sd_filename = pd_filename d, sd_version = om_version m,
       sd_mode = om_mode m, sd_status = RS_PENDING, sd_total_length = om_total_length m, sd_max_combo = pd_max_combo d,
       sd_bpm = om_bpm m, sd_cs = om_cs m, sd_ar = om_ar m, sd_od = om_od m, sd_hp = om_hp m, sd_diff = pd_stars d\<rparr>)"

definition map_to_difficulty :: "hosted_map \<Rightarrow> submitted_difficulty" where
  "map_to_difficulty r =
     \<lparr>sd_beatmap_id = hm_id r, sd_md5 = hm_md5 r, sd_filename = hm_filename r, sd_version = hm_version r,
      sd_mode = hm_mode r, sd_status = hm_status r, sd_total_length = hm_total_length r, sd_max_combo = hm_max_combo r,
      sd_bpm = Fin (hm_bpm r), sd_cs = hm_cs r, sd_ar = hm_ar r, sd_od = hm_od r, sd_hp = hm_hp r, sd_diff = Fin (hm_diff r)\<rparr>"

section \<open>Who may do what\<close>

definition is_staff :: "up_user \<Rightarrow> bool" where "is_staff u \<longleftrightarrow> uu_priv u AND P_STAFF \<noteq> 0"
definition is_nominator :: "up_user \<Rightarrow> bool" where "is_nominator u \<longleftrightarrow> uu_priv u AND P_NOMINATOR \<noteq> 0"

definition may_view :: "up_user option \<Rightarrow> map_submission \<Rightarrow> bool" where
  "may_view actor u \<longleftrightarrow>
     su_state u = REVIEW_APPROVED \<or>
     (case actor of None \<Rightarrow> False | Some a \<Rightarrow> is_staff a \<or> is_nominator a \<or> su_user u = uu_id a)"

definition RS_QUALIFIED :: int where "RS_QUALIFIED = 4"

definition OWNER_ASSIGNABLE_STATUSES :: "int list" where
  "OWNER_ASSIGNABLE_STATUSES = [RS_PENDING, RS_LOVED]"

definition STAFF_ONLY_STATUSES :: "int list" where
  "STAFF_ONLY_STATUSES = [RS_RANKED, RS_APPROVED, RS_QUALIFIED]"

definition check_status_permitted :: "int \<Rightarrow> map_submission \<Rightarrow> bool \<Rightarrow> submission_result option" where
  "check_status_permitted status u by_staff =
     (if by_staff then None
      else if status \<in> set STAFF_ONLY_STATUSES then Some (just_code STATUS_NOT_PERMITTED)
      else if status \<notin> set OWNER_ASSIGNABLE_STATUSES then Some (just_code STATUS_NOT_PERMITTED)
      else if status = RS_LOVED \<and> su_state u \<noteq> REVIEW_APPROVED then Some (just_code STATUS_NOT_PERMITTED)
      else None)"

definition check_eligibility :: "up_user \<Rightarrow> int \<Rightarrow> submission_result option" where
  "check_eligibility u now =
     (let required = P_UNRESTRICTED OR P_VERIFIED in
      if uu_priv u AND required \<noteq> required then Some (just_code NOT_ELIGIBLE)
      else if uu_silence_end u > now then Some (just_code NOT_ELIGIBLE)
      else None)"

section \<open>Submitting\<close>

definition check_cross_difficulty_consistency :: "(osu_member \<times> osu_metadata) list \<Rightarrow> submission_result option" where
  "check_cross_difficulty_consistency parsed =
     (if \<not> distinct (map (om_version \<circ> snd) parsed) then Some (just_code DUPLICATE_DIFFICULTY_NAME)
      else if length (remdups (map (\<lambda>(_, m). (om_artist m, om_title m)) parsed)) > 1
      then Some (just_code INCONSISTENT_METADATA) else None)"

text \<open>The members parsed so far, or the answer that one of them is not a beatmap.\<close>

fun parse_members ::
  "up_env \<Rightarrow> osu_member list \<Rightarrow> (submission_result + (osu_member \<times> osu_metadata) list) result" where
  "parse_members E [] = Inr (Inr [])"
| "parse_members E (m # ms) =
     (case parse_osu_file (ue_digit E) (ou_text m) of
        Inl e \<Rightarrow> if e = OsuFileParseError then Inr (Inl (just_code INVALID_DIFFICULTY_FILE)) else Inl e
      | Inr meta \<Rightarrow>
          bindE (parse_members E ms) (\<lambda>r. Inr (case r of Inl c \<Rightarrow> Inl c | Inr ps \<Rightarrow> Inr ((m, meta) # ps))))"

definition prepare_difficulty ::
  "up_env \<Rightarrow> int \<Rightarrow> int \<Rightarrow> osu_member \<Rightarrow> osu_metadata \<Rightarrow> pystr \<Rightarrow> prepared_difficulty result" where
  "prepare_difficulty E beatmap_id set_id m meta creator =
     bindE (rewrite_osu_file_identity (ou_text m) beatmap_id set_id creator) (\<lambda>s.
     bindE (utf8_encode s) (\<lambda>data.
     bindE (canonical_osu_filename (om_artist meta) (om_title meta) creator (om_version meta)) (\<lambda>filename.
     bindE (ue_rate E s (om_mode meta)) (\<lambda>(stars, max_combo).
       Inr \<lparr>pd_beatmap_id = beatmap_id, pd_original_name = ou_name m, pd_filename = filename, pd_text = s, pd_data = data,
            pd_md5 = ue_md5 E data, pd_metadata = meta, pd_stars = stars, pd_max_combo = max_combo\<rparr>))))"

fun prepare_difficulties ::
  "up_env \<Rightarrow> int \<Rightarrow> pystr \<Rightarrow> (int \<times> osu_member \<times> osu_metadata) list \<Rightarrow>
   (submission_result + prepared_difficulty list) result" where
  "prepare_difficulties E set_id creator [] = Inr (Inr [])"
| "prepare_difficulties E set_id creator ((i, m, meta) # ms) =
     (case prepare_difficulty E i set_id m meta creator of
        Inl e \<Rightarrow> if e = OsuFileParseError then Inr (Inl (just_code INVALID_DIFFICULTY_FILE))
                  else if e = BeatmapDifficultyError then Inr (Inl (just_code RATING_FAILED)) else Inl e
      | Inr d \<Rightarrow>
          bindE (prepare_difficulties E set_id creator ms) (\<lambda>r. Inr (case r of Inl c \<Rightarrow> Inl c | Inr ds \<Rightarrow> Inr (d # ds))))"

fun check_collisions :: "up_env \<Rightarrow> prepared_difficulty list \<Rightarrow> submission_result option hop" where
  "check_collisions E [] = retn None"
| "check_collisions E (d # ds) =
     bnd (maps_fetch_one E (\<lambda>r. hm_md5 r = pd_md5 d)) (\<lambda>same_md5.
       if same_md5 \<noteq> None then retn (Some (just_code CHECKSUM_ALREADY_EXISTS))
       else bnd (maps_fetch_one E (\<lambda>r. ue_same_text E (hm_filename r) (pd_filename d))) (\<lambda>same_name.
              if same_name \<noteq> None then retn (Some (just_code FILENAME_ALREADY_EXISTS))
              else check_collisions E ds))"

text \<open>The row of a difficulty, with what the columns make of its values.\<close>

definition difficulty_row :: "up_env \<Rightarrow> up_user \<Rightarrow> int \<Rightarrow> int \<Rightarrow> prepared_difficulty \<Rightarrow> hosted_map result" where
  "difficulty_row E u set_id t d =
     (let m = pd_metadata d; num = (\<lambda>n x. ue_float_column E n (Fin x)) in
      bindE (ue_text_column E (om_artist m)) (\<lambda>artist. bindE (ue_text_column E (om_title m)) (\<lambda>title.
      bindE (ue_text_column E (om_version m)) (\<lambda>version. bindE (ue_text_column E (uu_name u)) (\<lambda>creator.
      bindE (ue_text_column E (pd_filename d)) (\<lambda>filename. bindE (int_column (om_total_length m)) (\<lambda>seconds.
      bindE (int_column (pd_max_combo d)) (\<lambda>max_combo. bindE (ue_float_column E 2 (om_bpm m)) (\<lambda>bpm.
      bindE (num 2 (om_cs m)) (\<lambda>cs. bindE (num 2 (om_ar m)) (\<lambda>ar. bindE (num 2 (om_od m)) (\<lambda>od.
      bindE (num 2 (om_hp m)) (\<lambda>hp. bindE (ue_float_column E 3 (pd_stars d)) (\<lambda>stars.
        Inr \<lparr>hm_id = pd_beatmap_id d, hm_server = Server_private, hm_set_id = set_id, hm_status = RS_PENDING,
             hm_md5 = pd_md5 d, hm_artist = artist, hm_title = title, hm_version = version, hm_creator = creator,
             hm_filename = filename, hm_last_update = t, hm_total_length = seconds, hm_max_combo = max_combo,
             hm_frozen = True, hm_plays = 0, hm_passes = 0, hm_mode = om_mode m, hm_bpm = bpm, hm_cs = cs,
             hm_ar = ar, hm_od = od, hm_hp = hp, hm_diff = stars\<rparr>))))))))))))))"

definition commit_submission ::
  "up_env \<Rightarrow> up_user \<Rightarrow> int \<Rightarrow> prepared_difficulty list \<Rightarrow> bytes \<Rightarrow> (osu_member \<times> osu_metadata) list \<Rightarrow>
   map_submission hop" where
  "commit_submission E u set_id prepared archive parsed =
     bnd (clock E) (\<lambda>submitted_at.
       host_transaction E
         (thn (mapsets_upsert E set_id Server_private submitted_at)
         (thn (foreach prepared (\<lambda>d. bnd (lift_result (difficulty_row E u set_id submitted_at d)) (\<lambda>r.
                 thn (maps_create E r) skip)))
              (subs_create E set_id (uu_id u) (om_declared_creator (snd (hd parsed))) (length prepared) (length archive)
                 (ue_sha256 E archive)))))"

text \<open>\<^verbatim>\<open>except Exception\<close>: what was written is removed, as far as that works; then the exception goes on.\<close>

definition clean_up_written :: "up_env \<Rightarrow> exn \<Rightarrow> 'a hop" where
  "clean_up_written E e =
     bnd (gets h_written) (\<lambda>ps.
       thn (foreach ps (\<lambda>p s. case remove_file E p s of
              (Inl e', s') \<Rightarrow> (if is_exception e' then Inr () else Inl e', s') | (Inr _, s') \<Rightarrow> (Inr (), s')))
           (raise e))"

definition write_recorded :: "up_env \<Rightarrow> host_path \<Rightarrow> bytes \<Rightarrow> unit hop" where
  "write_recorded E p data =
     thn (write_file_atomically E p data) (modify (\<lambda>s. s\<lparr>h_written := h_written s @ [p]\<rparr>))"

definition repack_map :: "prepared_difficulty list \<Rightarrow> pystr \<Rightarrow> osu_member option" where
  "repack_map prepared =
     map_of (rev (map (\<lambda>d. (pd_original_name d, \<lparr>ou_name = pd_filename d, ou_text = pd_text d\<rparr>)) prepared))"

definition as_exn :: "osz_error \<Rightarrow> exn" where
  "as_exn e = (case e of Archive_error _ \<Rightarrow> ValueError | Other_error x \<Rightarrow> x)"

definition host_files ::
  "up_env \<Rightarrow> up_user \<Rightarrow> bytes \<Rightarrow> int \<Rightarrow> prepared_difficulty list \<Rightarrow> (osu_member \<times> osu_metadata) list \<Rightarrow>
   map_submission hop" where
  "host_files E u osz_data set_id prepared parsed =
     thn (foreach prepared (\<lambda>d. write_recorded E (Osu_file (pd_beatmap_id d)) (pd_data d)))
    (bnd (lift_result (case repack_osz (ue_unzip E) (ue_zip E) (repack_map prepared) osz_data of
                         Inl e \<Rightarrow> Inl (as_exn e) | Inr b \<Rightarrow> Inr b)) (\<lambda>archive.
     thn (write_recorded E (Osz_file set_id) archive)
         (commit_submission E u set_id prepared archive parsed)))"

definition host_or_clean_up ::
  "up_env \<Rightarrow> up_user \<Rightarrow> bytes \<Rightarrow> int \<Rightarrow> prepared_difficulty list \<Rightarrow> (osu_member \<times> osu_metadata) list \<Rightarrow>
   map_submission hop" where
  "host_or_clean_up E u osz_data set_id prepared parsed =
     thn (modify (\<lambda>s. s\<lparr>h_written := []\<rparr>))
       (\<lambda>s. case host_files E u osz_data set_id prepared parsed s of
              (Inl e, s') \<Rightarrow> if is_exception e then clean_up_written E e s' else (Inl e, s')
            | (Inr x, s') \<Rightarrow> (Inr x, s'))"

text \<open>From the parsed difficulties on.\<close>

definition submit_parsed ::
  "up_env \<Rightarrow> up_user \<Rightarrow> bytes \<Rightarrow> (osu_member \<times> osu_metadata) list \<Rightarrow> submission_result hop" where
  "submit_parsed E u osz_data parsed =
     bnd (allocate E Kind_set (uu_id u)) (\<lambda>set_id.
     bnd (allocate_many E Kind_map (length parsed) (uu_id u)) (\<lambda>beatmap_ids.
     bnd (lift_result (prepare_difficulties E set_id (uu_name u) (zip beatmap_ids parsed))) (\<lambda>r.
       case r of
         Inl c \<Rightarrow> retn c
       | Inr prepared \<Rightarrow>
           bnd (check_collisions E prepared) (\<lambda>collision.
             case collision of
               Some c \<Rightarrow> retn c
             | None \<Rightarrow>
                 bnd (host_or_clean_up E u osz_data set_id prepared parsed) (\<lambda>submission.
                   retn \<lparr>rs_code = CREATED, rs_submission = Some submission,
                         rs_difficulties = map as_submitted_difficulty prepared\<rparr>)))))"

definition submit_beatmap_archive :: "up_env \<Rightarrow> up_user \<Rightarrow> bytes \<Rightarrow> submission_result hop" where
  "submit_beatmap_archive E u osz_data =
     bnd (clock E) (\<lambda>now.
       case check_eligibility u now of
         Some c \<Rightarrow> retn c
       | None \<Rightarrow>
           bnd (subs_fetch_count E (Some (uu_id u)) None) (\<lambda>existing_count.
             if existing_count \<ge> ue_max_submissions E then retn (just_code QUOTA_EXCEEDED)
             else case read_osz (ue_unzip E) (ue_repr E) (ue_limits E) osz_data of
                    Inl (Archive_error large) \<Rightarrow> retn (just_code (if large then ARCHIVE_TOO_LARGE else INVALID_ARCHIVE))
                  | Inl (Other_error e) \<Rightarrow> raise e
                  | Inr contents \<Rightarrow>
                      bnd (lift_result (parse_members E (oc_members contents))) (\<lambda>r.
                        case r of
                          Inl c \<Rightarrow> retn c
                        | Inr parsed \<Rightarrow>
                            (case check_cross_difficulty_consistency parsed of
                               Some c \<Rightarrow> retn c
                             | None \<Rightarrow> submit_parsed E u osz_data parsed))))"

section \<open>Reading\<close>

definition fetch_submissions ::
  "up_env \<Rightarrow> up_user \<Rightarrow> int option \<Rightarrow> pystr option \<Rightarrow> int \<Rightarrow> int \<Rightarrow> (map_submission list \<times> int) hop" where
  "fetch_submissions E actor owner state page page_size =
     (let (owner', state') =
        (if is_staff actor then (owner, state)
         else if owner = Some (uu_id actor) then (Some (uu_id actor), state)
         else (owner, Some REVIEW_APPROVED))
      in bnd (subs_fetch_many E owner' state' page page_size) (\<lambda>us.
         bnd (subs_fetch_count E owner' state') (\<lambda>n. retn (us, n))))"

definition fetch_submission :: "up_env \<Rightarrow> up_user option \<Rightarrow> int \<Rightarrow> submission_result hop" where
  "fetch_submission E actor set_id =
     bnd (subs_fetch_one E set_id) (\<lambda>submission.
       case submission of
         None \<Rightarrow> retn (just_code NOT_FOUND)
       | Some u \<Rightarrow>
           if \<not> may_view actor u then retn (just_code NOT_FOUND)
           else bnd (maps_fetch_many E set_id Server_private) (\<lambda>rows.
                  retn \<lparr>rs_code = FOUND, rs_submission = Some u, rs_difficulties = map map_to_difficulty rows\<rparr>))"

section \<open>Moderation\<close>

definition set_statuses :: "up_env \<Rightarrow> int \<Rightarrow> int \<Rightarrow> hosted_map list \<Rightarrow> hosted_map list hop" where
  "set_statuses E set_id status rows =
     thn (foreach rows (\<lambda>r. thn (maps_update_status E (hm_id r) status) skip))
    (thn (evict_beatmap_cache set_id (map hm_id rows) (map hm_md5 rows))
         (maps_fetch_many E set_id Server_private))"

definition update_permitted ::
  "up_user \<Rightarrow> int option \<Rightarrow> pystr option \<Rightarrow> pystr option \<Rightarrow> map_submission option \<Rightarrow> submission_result option" where
  "update_permitted actor status state note submission =
     (case submission of
        None \<Rightarrow> Some (just_code NOT_FOUND)
      | Some u \<Rightarrow>
          if \<not> may_view (Some actor) u then Some (just_code NOT_FOUND)
          else let by_staff = (is_staff actor \<or> is_nominator actor); owner = (su_user u = uu_id actor)
               in if \<not> (by_staff \<or> owner) then Some (just_code FORBIDDEN)
                  else if (state \<noteq> None \<or> note \<noteq> None) \<and> \<not> by_staff then Some (just_code FORBIDDEN)
                  else (case status of None \<Rightarrow> None | Some v \<Rightarrow> check_status_permitted v u by_staff))"

definition update_submission ::
  "up_env \<Rightarrow> up_user \<Rightarrow> int \<Rightarrow> int option \<Rightarrow> pystr option \<Rightarrow> pystr option \<Rightarrow> submission_result hop" where
  "update_submission E actor set_id status state note =
     bnd (subs_fetch_one E set_id) (\<lambda>submission.
       case update_permitted actor status state note submission of
         Some c \<Rightarrow> retn c
       | None \<Rightarrow>
           let effective_status = (if state = Some REVIEW_REJECTED then Some RS_PENDING else status)
           in bnd (if state \<noteq> None \<or> note \<noteq> None
                   then bnd (subs_review E set_id state (uu_id actor) note) (\<lambda>r.
                          retn (case r of None \<Rightarrow> submission | Some u \<Rightarrow> Some u))
                   else retn submission) (\<lambda>updated.
              bnd (maps_fetch_many E set_id Server_private) (\<lambda>rows.
              bnd (case effective_status of None \<Rightarrow> retn rows | Some v \<Rightarrow> set_statuses E set_id v rows) (\<lambda>rows'.
                retn \<lparr>rs_code = UPDATED, rs_submission = updated, rs_difficulties = map map_to_difficulty rows'\<rparr>))))"

section \<open>Deleting\<close>

fun has_foreign_scores :: "up_env \<Rightarrow> int \<Rightarrow> pystr list \<Rightarrow> bool hop" where
  "has_foreign_scores E owner [] = retn False"
| "has_foreign_scores E owner (md5 # md5s) =
     bnd (scores_fetch_count E md5 None) (\<lambda>total_count.
     bnd (scores_fetch_count E md5 (Some owner)) (\<lambda>owned.
       if total_count > owned then retn True else has_foreign_scores E owner md5s))"

definition delete_hosted :: "up_env \<Rightarrow> int \<Rightarrow> hosted_map list \<Rightarrow> unit hop" where
  "delete_hosted E set_id rows =
     thn (host_transaction E
           (thn (scores_delete_by_map_md5s E (map hm_md5 rows))
           (thn (maps_delete_by_set_id E set_id Server_private)
           (thn (mapsets_delete_one E set_id Server_private)
                (subs_delete_one E set_id)))))
    (thn (foreach rows (\<lambda>r. remove_file E (Osu_file (hm_id r))))
    (thn (remove_file E (Osz_file set_id))
         (evict_beatmap_cache set_id (map hm_id rows) (map hm_md5 rows))))"

definition delete_submission :: "up_env \<Rightarrow> up_user \<Rightarrow> int \<Rightarrow> submission_result hop" where
  "delete_submission E actor set_id =
     bnd (subs_fetch_one E set_id) (\<lambda>submission.
       case submission of
         None \<Rightarrow> retn (just_code NOT_FOUND)
       | Some u \<Rightarrow>
           if \<not> may_view (Some actor) u then retn (just_code NOT_FOUND)
           else if \<not> (is_staff actor \<or> su_user u = uu_id actor) then retn (just_code FORBIDDEN)
           else bnd (maps_fetch_many E set_id Server_private) (\<lambda>rows.
                bnd (if is_staff actor then retn False else has_foreign_scores E (su_user u) (map hm_md5 rows)) (\<lambda>foreign.
                  if foreign then retn (just_code HAS_FOREIGN_SCORES)
                  else thn (delete_hosted E set_id rows)
                         (retn \<lparr>rs_code = DELETED, rs_submission = Some u, rs_difficulties = []\<rparr>))))"

section \<open>Serving the files\<close>

text \<open>\<^verbatim>\<open>app/services/private_beatmap_files.py\<close>\<close>

definition fetch_osu_file :: "up_env \<Rightarrow> pystr \<Rightarrow> host_path option hop" where
  "fetch_osu_file E filename =
     bnd (maps_fetch_one E (\<lambda>r. ue_same_text E (hm_filename r) filename)) (\<lambda>beatmap.
       case beatmap of
         None \<Rightarrow> retn None
       | Some r \<Rightarrow>
           if hm_server r \<noteq> Server_private then retn None
           else bnd (gets (\<lambda>s. h_files s (Osu_file (hm_id r)))) (\<lambda>f.
                  retn (if f = None then None else Some (Osu_file (hm_id r)))))"

definition download_name :: "int \<Rightarrow> hosted_map list \<Rightarrow> pystr" where
  "download_name set_id rows =
     (case rows of
        [] \<Rightarrow> str_int set_id @ py ''.osz''
      | r # _ \<Rightarrow> str_int set_id @ py '' '' @ hm_artist r @ py '' - '' @ hm_title r @ py ''.osz'')"

definition fetch_osz_archive :: "up_env \<Rightarrow> int \<Rightarrow> (host_path \<times> pystr) option hop" where
  "fetch_osz_archive E set_id =
     (if set_id < PRIVATE_BEATMAP_ID_FLOOR then retn None
      else bnd (subs_fetch_one E set_id) (\<lambda>submission.
        case submission of
          None \<Rightarrow> retn None
        | Some u \<Rightarrow>
            if su_state u \<noteq> REVIEW_APPROVED then retn None
            else bnd (gets (\<lambda>s. h_files s (Osz_file set_id))) (\<lambda>f.
                   if f = None then retn None
                   else bnd (maps_fetch_many E set_id Server_private) (\<lambda>rows.
                          retn (Some (Osz_file set_id, download_name set_id rows))))))"


section \<open>A history\<close>

text \<open>
  What happens to the tables: the requests, with whatever actor and outcome, and the refresh of
  mirrored sets (\<^verbatim>\<open>BeatmapSet._save_to_sql\<close>), a \<^verbatim>\<open>REPLACE INTO\<close> that deletes the rows
  holding one of its keys.
\<close>

definition replace_into_maps :: "hosted_map \<Rightarrow> host_db \<Rightarrow> host_db" where
  "replace_into_maps r d =
     d\<lparr>hd_maps := filter (\<lambda>r'. hm_id r' \<noteq> hm_id r \<and> hm_md5 r' \<noteq> hm_md5 r) (hd_maps d) @ [r]\<rparr>"

definition save_to_sql :: "hosted_map list \<Rightarrow> host_db \<Rightarrow> host_db" where
  "save_to_sql rows d = fold replace_into_maps rows d"

datatype host_op =
    Op_submit up_user bytes
  | Op_update up_user int "int option" "pystr option" "pystr option"
  | Op_delete up_user int
  | Op_refresh "hosted_map list"

fun host_step :: "up_env \<Rightarrow> host_op \<Rightarrow> hosting \<Rightarrow> hosting" where
  "host_step E (Op_submit u osz_data) s = exec (submit_beatmap_archive E u osz_data) s"
| "host_step E (Op_update u i status state note) s = exec (update_submission E u i status state note) s"
| "host_step E (Op_delete u i) s = exec (delete_submission E u i) s"
| "host_step E (Op_refresh rows) s = s\<lparr>h_db := save_to_sql (filter (\<lambda>r. hm_server r = Server_osu) rows) (h_db s)\<rparr>"

definition host_run :: "up_env \<Rightarrow> host_op list \<Rightarrow> hosting \<Rightarrow> hosting" where
  "host_run E ops s = fold (host_step E) ops s"

definition fresh_host :: "hosting \<Rightarrow> bool" where
  "fresh_host s \<longleftrightarrow> hd_maps (h_db s) = [] \<and> hd_subs (h_db s) = []"

end
