(* ===== verification/Hosted.thy ===== *)
theory Hosted
  imports Uploads
begin

text \<open>
  What can be said of every history of hosted beatmaps, whatever fails on the way. This theory
  holds the rules for the steps of a request and the first result: a status other than pending
  was given by the staff.
\<close>

section \<open>Steps\<close>

lemma hio_Inr_iff [inv_simps]:
  "hio E m s = (Inr x, s') \<longleftrightarrow> ue_fault E (h_tick s) = None \<and> m (s\<lparr>h_tick := Suc (h_tick s)\<rparr>) = (Inr x, s')"
  by (auto simp: hio_def Let_def split: option.splits)

lemma hdb_Inr_iff [inv_simps]: "hdb f s = (Inr x, s') \<longleftrightarrow> s' = s\<lparr>h_db := f (h_db s)\<rparr>"
  by (auto simp: hdb_def inv_simps)

lemma hget_Inr_iff [inv_simps]: "hget f s = (Inr x, s') \<longleftrightarrow> x = f (h_db s) \<and> s' = s"
  by (auto simp: hget_def inv_simps)

lemma clock_Inr_iff [inv_simps]: "clock E s = (Inr x, s') \<longleftrightarrow> x = ue_now E (h_tick s) \<and> s' = s"
  by (auto simp: clock_def inv_simps)

text \<open>A property of the state that does not look at the schedule.\<close>

definition untimed :: "(hosting \<Rightarrow> bool) \<Rightarrow> bool" where
  "untimed P \<longleftrightarrow> (\<forall>s n. P (s\<lparr>h_tick := n\<rparr>) = P s)"

lemma keeps_hio [keeps_intros]: "untimed P \<Longrightarrow> keeps P m \<Longrightarrow> keeps P (hio E m)"
  by (auto simp: keeps_def hio_def Let_def untimed_def split: option.splits)

lemma keeps_hget [keeps_intros]: "keeps P (hget f)"
  unfolding hget_def by (rule keeps_gets)

lemma keeps_clock [keeps_intros]: "keeps P (clock E)"
  unfolding clock_def by (rule keeps_gets)

lemma keeps_maps_fetch_one [keeps_intros]: "untimed P \<Longrightarrow> keeps P (maps_fetch_one E p)"
  unfolding maps_fetch_one_def by (intro keeps_intros)

lemma keeps_maps_fetch_many [keeps_intros]: "untimed P \<Longrightarrow> keeps P (maps_fetch_many E i v)"
  unfolding maps_fetch_many_def by (intro keeps_intros)

lemma keeps_subs_fetch_one [keeps_intros]: "untimed P \<Longrightarrow> keeps P (subs_fetch_one E i)"
  unfolding subs_fetch_one_def by (intro keeps_intros)

lemma keeps_subs_fetch_count [keeps_intros]: "untimed P \<Longrightarrow> keeps P (subs_fetch_count E i v)"
  unfolding subs_fetch_count_def by (intro keeps_intros)

lemma keeps_scores_fetch_count [keeps_intros]: "untimed P \<Longrightarrow> keeps P (scores_fetch_count E i v)"
  unfolding scores_fetch_count_def by (intro keeps_intros)

lemma keeps_has_foreign_scores [keeps_intros]: "untimed P \<Longrightarrow> keeps P (has_foreign_scores E i ms)"
  by (induction ms) (auto intro!: keeps_intros)

lemma keeps_check_collisions [keeps_intros]: "untimed P \<Longrightarrow> keeps P (check_collisions E ds)"
  by (induction ds) (auto intro!: keeps_intros)

text \<open>The two ways a transaction ends.\<close>

lemma host_transaction_failed: "host_transaction E m s = (Inl e, s') \<Longrightarrow> h_db s' = h_db s"
  by (auto simp: host_transaction_def split: prod.splits sum.splits)

lemma host_transaction_Inr [inv_simps]:
  "host_transaction E m s = (Inr x, s') \<longleftrightarrow> bnd (thn (hio E skip) m) (\<lambda>x. thn (hio E skip) (retn x)) s = (Inr x, s')"
  by (auto simp: host_transaction_def split: prod.splits sum.splits)

text \<open>A property of the tables alone.\<close>

definition in_tables :: "(host_db \<Rightarrow> bool) \<Rightarrow> hosting \<Rightarrow> bool" where
  "in_tables Q s \<longleftrightarrow> Q (h_db s)"

lemma untimed_in_tables [simp]: "untimed (in_tables Q)"
  by (simp add: untimed_def in_tables_def)

lemma keeps_tables_transaction [keeps_intros]:
  "keeps (in_tables Q) m \<Longrightarrow> keeps (in_tables Q) (host_transaction E m)"
proof (unfold keeps_def, intro allI impI)
  fix s assume m: "\<forall>s. in_tables Q s \<longrightarrow> in_tables Q (snd (m s))" and s: "in_tables Q s"
  have "keeps (in_tables Q) (bnd (thn (hio E skip) m) (\<lambda>x. thn (hio E skip) (retn x)))"
    using m by (intro keeps_intros) (auto simp: keeps_def)
  then have "in_tables Q (snd (bnd (thn (hio E skip) m) (\<lambda>x. thn (hio E skip) (retn x)) s))"
    using s by (simp add: keeps_def)
  then show "in_tables Q (snd (host_transaction E m s))"
    using s by (auto simp: host_transaction_def in_tables_def split: prod.splits sum.splits)
qed

lemma keeps_tables_put_file [keeps_intros]: "keeps (in_tables Q) (put_file p v)"
  unfolding put_file_def by (rule keeps_modify) (simp add: in_tables_def)

lemma keeps_tables_write [keeps_intros]: "keeps (in_tables Q) (write_file_atomically E p d)"
  unfolding write_file_atomically_def by (intro keeps_intros) simp_all

lemma keeps_tables_remove [keeps_intros]: "keeps (in_tables Q) (remove_file E p)"
  unfolding remove_file_def by (intro keeps_intros) simp_all

lemma keeps_tables_evict [keeps_intros]: "keeps (in_tables Q) (evict_beatmap_cache i is ms)"
  unfolding evict_beatmap_cache_def by (rule keeps_modify) (simp add: in_tables_def)

lemma keeps_tables_hdb: "(\<And>d. Q d \<Longrightarrow> Q (f d)) \<Longrightarrow> keeps (in_tables Q) (hdb f)"
  unfolding hdb_def by (rule keeps_modify) (simp add: in_tables_def)


section \<open>Where a status comes from\<close>

definition moderates :: "up_user \<Rightarrow> bool" where
  "moderates a \<longleftrightarrow> is_staff a \<or> is_nominator a"

definition approved_in :: "host_op set \<Rightarrow> int \<Rightarrow> bool" where
  "approved_in ops i \<longleftrightarrow> (\<exists>a v note. moderates a \<and> Op_update a i v (Some REVIEW_APPROVED) note \<in> ops)"

definition status_given :: "host_op set \<Rightarrow> int \<Rightarrow> int \<Rightarrow> bool" where
  "status_given ops i v \<longleftrightarrow>
     v = RS_PENDING \<or> (\<exists>a state note. moderates a \<and> Op_update a i (Some v) state note \<in> ops) \<or>
     v = RS_LOVED \<and> approved_in ops i"

text \<open>The ids of the tables, and which sets they belong to, are part of the invariant.\<close>

definition explained :: "host_op set \<Rightarrow> host_db \<Rightarrow> bool" where
  "explained ops d \<longleftrightarrow>
     distinct (map hm_id (hd_maps d)) \<and>
     (\<forall>r \<in> set (hd_maps d). hm_server r = Server_private \<longrightarrow> status_given ops (hm_set_id r) (hm_status r)) \<and>
     (\<forall>u \<in> set (hd_subs d). su_state u = REVIEW_APPROVED \<longrightarrow> approved_in ops (su_set_id u))"

definition ids_in_set :: "int \<Rightarrow> int set \<Rightarrow> host_db \<Rightarrow> bool" where
  "ids_in_set i ids d \<longleftrightarrow> (\<forall>r \<in> set (hd_maps d). hm_id r \<in> ids \<longrightarrow> hm_set_id r = i)"

lemma status_given_mono: "status_given ops i v \<Longrightarrow> ops \<subseteq> ops' \<Longrightarrow> status_given ops' i v"
  by (auto simp: status_given_def approved_in_def)

lemma approved_in_mono: "approved_in ops i \<Longrightarrow> ops \<subseteq> ops' \<Longrightarrow> approved_in ops' i"
  by (auto simp: approved_in_def)

lemma explained_mono: "explained ops d \<Longrightarrow> ops \<subseteq> ops' \<Longrightarrow> explained ops' d"
  unfolding explained_def using status_given_mono approved_in_mono by blast

lemma find_where_Some: "find_where p xs = Some x \<Longrightarrow> x \<in> set xs \<and> p x"
  by (auto simp: find_where_def split: list.splits dest: filter_eq_ConsD)

lemma set_status_explained:
  assumes "explained ops d" "ids_in_set i {j} d" "status_given ops i v"
  shows "explained ops (d\<lparr>hd_maps := map (\<lambda>r. if hm_id r = j then r\<lparr>hm_status := v\<rparr> else r) (hd_maps d)\<rparr>)"
proof -
  have "map hm_id (map (\<lambda>r. if hm_id r = j then r\<lparr>hm_status := v\<rparr> else r) (hd_maps d)) = map hm_id (hd_maps d)"
    by (simp add: o_def if_distrib cong: if_cong)
  then show ?thesis using assms by (auto simp: explained_def ids_in_set_def simp del: map_map)
qed

lemma set_status_ids:
  "ids_in_set i ids d \<Longrightarrow> ids_in_set i ids (d\<lparr>hd_maps := map (\<lambda>r. if hm_id r = j then r\<lparr>hm_status := v\<rparr> else r) (hd_maps d)\<rparr>)"
  by (auto simp: ids_in_set_def)

lemma keeps_lift_bnd: "(\<And>x. r = Inr x \<Longrightarrow> keeps P (k x)) \<Longrightarrow> keeps P (bnd (lift_result r) k)"
  by (cases r) (simp_all add: keeps_def op_defs)

lemma keeps_update_status:
  assumes "\<And>d. Q d \<Longrightarrow> Q (d\<lparr>hd_maps := map (\<lambda>r. if hm_id r = j then r\<lparr>hm_status := v\<rparr> else r) (hd_maps d)\<rparr>)"
  shows "keeps (in_tables Q) (maps_update_status E j v)"
proof -
  have "keeps (in_tables Q) (bnd (lift_result (int_column v)) (\<lambda>v.
      hdb (\<lambda>d. d\<lparr>hd_maps := map (\<lambda>r. if hm_id r = j then r\<lparr>hm_status := v\<rparr> else r) (hd_maps d)\<rparr>)))"
    by (intro keeps_lift_bnd keeps_tables_hdb) (use assms in \<open>auto simp: int_column_def split: if_splits\<close>)
  then show ?thesis
    unfolding maps_update_status_def by (intro keeps_thn keeps_hio keeps_maps_fetch_one) simp_all
qed

lemma keeps_set_statuses:
  assumes "status_given ops i v"
  shows "keeps (in_tables (\<lambda>d. explained ops d \<and> ids_in_set i (hm_id ` set rows) d)) (set_statuses E i v rows)"
proof -
  have "keeps (in_tables (\<lambda>d. explained ops d \<and> ids_in_set i (hm_id ` set rows) d)) (maps_update_status E (hm_id r) v)"
    if "r \<in> set rows" for r
  proof (rule keeps_update_status)
    fix d assume d: "explained ops d \<and> ids_in_set i (hm_id ` set rows) d"
    then have "ids_in_set i {hm_id r} d" using that by (auto simp: ids_in_set_def)
    then show "explained ops (d\<lparr>hd_maps := map (\<lambda>ra. if hm_id ra = hm_id r then ra\<lparr>hm_status := v\<rparr> else ra) (hd_maps d)\<rparr>) \<and>
        ids_in_set i (hm_id ` set rows) (d\<lparr>hd_maps := map (\<lambda>ra. if hm_id ra = hm_id r then ra\<lparr>hm_status := v\<rparr> else ra) (hd_maps d)\<rparr>)"
      using d set_status_explained [OF _ _ assms] set_status_ids by blast
  qed
  then show ?thesis unfolding set_statuses_def by (intro keeps_intros) simp_all
qed

text \<open>The rows of a set, once read: no other set has one of their ids.\<close>

lemma fetched_ids:
  assumes "explained ops d" "rows = filter (\<lambda>r. hm_set_id r = i \<and> hm_server r = v) (hd_maps d)"
  shows "ids_in_set i (hm_id ` set rows) d"
  unfolding ids_in_set_def
proof (intro ballI impI)
  fix r assume r: "r \<in> set (hd_maps d)" "hm_id r \<in> hm_id ` set rows"
  then obtain r' where r': "r' \<in> set (hd_maps d)" "hm_set_id r' = i" "hm_id r = hm_id r'" by (auto simp: assms(2))
  have "inj_on hm_id (set (hd_maps d))" using assms(1) by (simp add: explained_def distinct_map)
  then have "r = r'" using r r' by (auto dest: inj_onD)
  then show "hm_set_id r = i" using r'(2) by simp
qed

lemma triple_hio: "untimed P \<Longrightarrow> untimed Er \<Longrightarrow> (\<And>s. P s \<Longrightarrow> Er s) \<Longrightarrow> triple P m Q Er \<Longrightarrow> triple P (hio E m) Q Er"
  by (auto simp: triple_def hio_def Let_def untimed_def split: option.splits)

lemma triple_fetch_rows:
  "triple (in_tables (explained ops)) (maps_fetch_many E i v)
     (\<lambda>rows. in_tables (\<lambda>d. explained ops d \<and> ids_in_set i (hm_id ` set rows) d)) (in_tables (explained ops))"
  unfolding maps_fetch_many_def hget_def
  by (intro triple_hio triple_gets) (auto simp: in_tables_def simp del: set_filter intro: fetched_ids [OF _ refl])

lemma triple_set_statuses:
  assumes "status_given ops i v"
  shows "triple (in_tables (\<lambda>d. explained ops d \<and> ids_in_set i (hm_id ` set rows) d)) (set_statuses E i v rows)
    (\<lambda>_. in_tables (explained ops)) (in_tables (explained ops))"
  by (rule triple_keeps [OF keeps_set_statuses [OF assms]]) (simp_all add: in_tables_def)

text \<open>A review.\<close>

lemma keeps_subs_review:
  assumes "st = Some REVIEW_APPROVED \<longrightarrow> approved_in ops i"
  shows "keeps (in_tables (explained ops)) (subs_review E i st a note)"
proof -
  have "keeps (in_tables (explained ops)) (hdb (\<lambda>d. d\<lparr>hd_subs := map (\<lambda>u. if su_set_id u = i
      then u\<lparr>su_state := (case st' of None \<Rightarrow> su_state u | Some v \<Rightarrow> v), su_reviewed_by := Some a,
             su_reviewed_at := Some t, su_note := n, su_updated_at := t\<rparr> else u) (hd_subs d)\<rparr>))"
    if "(case st of None \<Rightarrow> Inr None | Some v \<Rightarrow> bindE (review_column v) (Inr \<circ> Some)) = Inr st'" for st' t n
  proof (rule keeps_tables_hdb)
    fix d assume "explained ops d"
    moreover have "st' = st" using that by (auto simp: review_column_def split: option.splits if_splits)
    ultimately show "explained ops (d\<lparr>hd_subs := map (\<lambda>u. if su_set_id u = i
      then u\<lparr>su_state := (case st' of None \<Rightarrow> su_state u | Some v \<Rightarrow> v), su_reviewed_by := Some a,
             su_reviewed_at := Some t, su_note := n, su_updated_at := t\<rparr> else u) (hd_subs d)\<rparr>)"
      using assms by (auto simp: explained_def split: option.splits)
  qed
  then show ?thesis
    unfolding subs_review_def
    by (intro keeps_thn keeps_hio keeps_subs_fetch_one keeps_bnd keeps_clock keeps_lift_bnd) simp_all
qed

text \<open>An update explains the status it sets.\<close>

lemma update_explained:
  assumes op: "Op_update a i status st note \<in> ops" and ok: "update_permitted a status st note (Some u) = None"
    and u: "su_set_id u = i" "su_state u = REVIEW_APPROVED \<Longrightarrow> approved_in ops i"
    and v: "(if st = Some REVIEW_REJECTED then Some RS_PENDING else status) = Some v"
  shows "status_given ops i v"
proof (cases "st = Some REVIEW_REJECTED")
  case True
  then show ?thesis using v by (simp add: status_given_def)
next
  case False
  then have status: "status = Some v" using v by simp
  show ?thesis
  proof (cases "moderates a")
    case True
    then show ?thesis using op status by (auto simp: status_given_def)
  next
    case False
    then have "v = RS_PENDING \<or> v = RS_LOVED \<and> su_state u = REVIEW_APPROVED"
      using ok by (auto simp: update_permitted_def check_status_permitted_def OWNER_ASSIGNABLE_STATUSES_def
        moderates_def status Let_def split: if_splits)
    then show ?thesis using u(2) by (auto simp: status_given_def)
  qed
qed

lemma review_explained:
  assumes op: "Op_update a i status st note \<in> ops" and ok: "update_permitted a status st note (Some u) = None"
  shows "st = Some REVIEW_APPROVED \<longrightarrow> approved_in ops i"
proof
  assume st: "st = Some REVIEW_APPROVED"
  then have "moderates a"
    using ok by (auto simp: update_permitted_def moderates_def Let_def split: if_splits)
  then show "approved_in ops i" using op st by (auto simp: approved_in_def)
qed

lemma triple_fetch_submission:
  "triple (in_tables (explained ops)) (subs_fetch_one E i)
     (\<lambda>r s. in_tables (explained ops) s \<and>
        (\<forall>u. r = Some u \<longrightarrow> su_set_id u = i \<and> (su_state u = REVIEW_APPROVED \<longrightarrow> approved_in ops i)))
     (in_tables (explained ops))"
  unfolding subs_fetch_one_def hget_def
  by (intro triple_hio triple_gets) (auto simp: in_tables_def explained_def dest!: find_where_Some)

lemma keeps_update_submission:
  assumes op: "Op_update a i status st note \<in> ops"
  shows "keeps (in_tables (explained ops)) (update_submission E a i status st note)"
  unfolding keeps_triple update_submission_def
proof (rule triple_bnd [OF triple_fetch_submission])
  fix submission :: "map_submission option"
  let ?P = "in_tables (explained ops)"
  let ?pre = "\<lambda>s. ?P s \<and> (\<forall>u. submission = Some u \<longrightarrow> su_set_id u = i \<and> (su_state u = REVIEW_APPROVED \<longrightarrow> approved_in ops i))"
  let ?v = "if st = Some REVIEW_REJECTED then Some RS_PENDING else status"
  let ?review = "if st \<noteq> None \<or> note \<noteq> None
    then bnd (subs_review E i st (uu_id a) note) (\<lambda>r. retn (case r of None \<Rightarrow> submission | Some u \<Rightarrow> Some u)) else retn submission"
  show "triple ?pre (case update_permitted a status st note submission of
      Some c \<Rightarrow> retn c
    | None \<Rightarrow> let effective_status = ?v
        in bnd ?review (\<lambda>updated. bnd (maps_fetch_many E i Server_private) (\<lambda>rows.
             bnd (case effective_status of None \<Rightarrow> retn rows | Some v \<Rightarrow> set_statuses E i v rows) (\<lambda>rows'.
               retn \<lparr>rs_code = UPDATED, rs_submission = updated, rs_difficulties = map map_to_difficulty rows'\<rparr>))))
      (\<lambda>_. ?P) ?P"
  proof (cases "update_permitted a status st note submission")
    case (Some c)
    then show ?thesis by simp (rule triple_retn, simp)
  next
    case None
    then obtain u where u: "submission = Some u" by (auto simp: update_permitted_def split: option.splits)
    have rest: "triple ?P (bnd ?review (\<lambda>updated. bnd (maps_fetch_many E i Server_private) (\<lambda>rows.
             bnd (case ?v of None \<Rightarrow> retn rows | Some v \<Rightarrow> set_statuses E i v rows) (\<lambda>rows'.
               retn \<lparr>rs_code = UPDATED, rs_submission = updated, rs_difficulties = map map_to_difficulty rows'\<rparr>)))) (\<lambda>_. ?P) ?P"
      if pre: "su_set_id u = i" "su_state u = REVIEW_APPROVED \<longrightarrow> approved_in ops i"
    proof -
      have given: "status_given ops i v" if "?v = Some v" for v
        using update_explained [OF op None [unfolded u] pre(1) _ that] pre(2) by blast
      have review: "keeps ?P ?review"
        using review_explained [OF op None [unfolded u]] by (intro keeps_intros keeps_subs_review)
      have "triple (in_tables (\<lambda>d. explained ops d \<and> ids_in_set i (hm_id ` set rows) d))
          (case ?v of None \<Rightarrow> retn rows | Some v \<Rightarrow> set_statuses E i v rows) (\<lambda>_. ?P) ?P" for rows
        using given triple_set_statuses by (cases ?v) (simp_all add: triple_def in_tables_def retn_def)
      then show ?thesis
        by (intro triple_bnd [OF review [unfolded keeps_triple]] triple_bnd [OF triple_fetch_rows])
          (rule triple_bnd, blast, simp add: triple_retn)
    qed
    show ?thesis
      using rest unfolding None Let_def by (auto simp: triple_def u)
  qed
qed

text \<open>Nothing else gives a status.\<close>

lemma explained_other_tables [simp]:
  "explained ops (d\<lparr>hd_ids := x\<rparr>) = explained ops d" "explained ops (d\<lparr>hd_next_id := n\<rparr>) = explained ops d"
  "explained ops (d\<lparr>hd_mapsets := y\<rparr>) = explained ops d" "explained ops (d\<lparr>hd_scores := z\<rparr>) = explained ops d"
  by (simp_all add: explained_def)

lemma keeps_explained_allocate [keeps_intros]: "keeps (in_tables (explained ops)) (allocate E k a)"
  unfolding allocate_def by (intro keeps_intros keeps_tables_hdb) simp_all

lemma keeps_explained_allocate_many [keeps_intros]: "keeps (in_tables (explained ops)) (allocate_many E k n a)"
  by (induction n) (auto intro!: keeps_intros)

lemma keeps_tables_cleanup [keeps_intros]: "keeps (in_tables Q) (clean_up_written E e)"
proof -
  have "keeps (in_tables Q) (\<lambda>s. case remove_file E p s of
      (Inl e', s') \<Rightarrow> (if is_exception e' then Inr () else Inl e', s') | (Inr _, s') \<Rightarrow> (Inr (), s'))" for p
    unfolding keeps_def
  proof (intro allI impI)
    fix s assume "in_tables Q s"
    then have "in_tables Q (snd (remove_file E p s))" using keeps_tables_remove by (simp add: keeps_def)
    then show "in_tables Q (snd (case remove_file E p s of
      (Inl e', s') \<Rightarrow> (if is_exception e' then Inr () else Inl e', s') | (Inr _, s') \<Rightarrow> (Inr (), s')))"
      by (cases "remove_file E p s"; cases "fst (remove_file E p s)") auto
  qed
  then show ?thesis unfolding clean_up_written_def by (intro keeps_intros)
qed

lemma keeps_tables_write_recorded [keeps_intros]: "keeps (in_tables Q) (write_recorded E p d)"
  unfolding write_recorded_def by (intro keeps_intros keeps_modify) (simp add: in_tables_def)

lemma difficulty_row_fields:
  assumes "difficulty_row E u i t d = Inr r"
  shows "hm_id r = pd_beatmap_id d" "hm_server r = Server_private" "hm_set_id r = i" "hm_status r = RS_PENDING"
    "hm_md5 r = pd_md5 d" "hm_frozen r"
  using assms by (auto simp: difficulty_row_def bindE_Inr_iff Let_def)

text \<open>A row enters the table only when its id and its checksum are new.\<close>

lemma keeps_maps_create:
  assumes "\<And>d. Q d \<Longrightarrow> \<forall>r' \<in> set (hd_maps d). hm_id r' \<noteq> hm_id r \<and> hm_md5 r' \<noteq> hm_md5 r \<Longrightarrow> Q (d\<lparr>hd_maps := hd_maps d @ [r]\<rparr>)"
  shows "keeps (in_tables Q) (maps_create E r)"
proof -
  have "keeps (in_tables Q) (bnd (hget hd_maps) (\<lambda>rs.
            if list_ex (\<lambda>r'. hm_id r' = hm_id r \<or> hm_md5 r' = hm_md5 r) rs then raise DatabaseError
            else hdb (\<lambda>d. d\<lparr>hd_maps := hd_maps d @ [r]\<rparr>)))"
    unfolding hget_def hdb_def
    by (rule keeps_gets_bnd) (auto simp: in_tables_def raise_def modify_def list_ex_iff intro!: assms)
  note insert = keeps_hio [OF untimed_in_tables this]
  show ?thesis
    unfolding maps_create_def by (rule keeps_thn [OF insert]) (intro keeps_bnd keeps_maps_fetch_one keeps_the_or, simp)
qed

lemma keeps_subs_create:
  assumes "\<And>d c t. Q d \<Longrightarrow> \<forall>u \<in> set (hd_subs d). su_set_id u \<noteq> i \<Longrightarrow> Q (d\<lparr>hd_subs := hd_subs d @
      [\<lparr>su_set_id = i, su_user = a, su_state = REVIEW_PENDING, su_declared_creator = c, su_difficulty_count = n,
        su_osz_size = l, su_osz_sha256 = h, su_submitted_at = t, su_updated_at = t, su_reviewed_by = None,
        su_reviewed_at = None, su_note = None\<rparr>]\<rparr>)"
  shows "keeps (in_tables Q) (subs_create E i a cr n l h)"
proof -
  have "keeps (in_tables Q) (bnd (hget hd_subs) (\<lambda>us. bnd (clock E) (\<lambda>t.
            bnd (lift_result (ue_text_column E (take 64 cr))) (\<lambda>c.
              if list_ex (\<lambda>u. su_set_id u = i) us then raise DatabaseError
              else hdb (\<lambda>d. d\<lparr>hd_subs := hd_subs d @
                [\<lparr>su_set_id = i, su_user = a, su_state = REVIEW_PENDING, su_declared_creator = c,
                  su_difficulty_count = n, su_osz_size = l, su_osz_sha256 = h, su_submitted_at = t,
                  su_updated_at = t, su_reviewed_by = None, su_reviewed_at = None, su_note = None\<rparr>]\<rparr>)))))"
    unfolding hget_def hdb_def clock_def
    by (rule keeps_gets_bnd)
      (auto simp: in_tables_def op_defs list_ex_iff split: sum.split prod.split intro!: assms)
  note insert = keeps_hio [OF untimed_in_tables this]
  show ?thesis
    unfolding subs_create_def by (rule keeps_thn [OF insert]) (intro keeps_bnd keeps_subs_fetch_one keeps_the_or, simp)
qed

lemma REVIEW_distinct [simp]: "REVIEW_PENDING \<noteq> REVIEW_APPROVED" "REVIEW_REJECTED \<noteq> REVIEW_APPROVED" "REVIEW_REJECTED \<noteq> REVIEW_PENDING"
  by (simp_all add: REVIEW_PENDING_def REVIEW_APPROVED_def REVIEW_REJECTED_def py_def)

lemma keeps_explained_commit: "keeps (in_tables (explained ops)) (commit_submission E u i ds a parsed)"
proof -
  have "keeps (in_tables (explained ops)) (maps_create E r)" if "difficulty_row E u i t d = Inr r" for r t d
    by (rule keeps_maps_create) (use difficulty_row_fields [OF that] in \<open>auto simp: explained_def status_given_def\<close>)
  moreover have "keeps (in_tables (explained ops)) (subs_create E i (uu_id u) c n l h)" for c n l h
    by (rule keeps_subs_create) (auto simp: explained_def)
  moreover have "keeps (in_tables (explained ops)) (mapsets_upsert E i v t)" for v t
    unfolding mapsets_upsert_def by (intro keeps_intros keeps_tables_hdb) simp_all
  ultimately show ?thesis
    unfolding commit_submission_def by (intro keeps_intros keeps_lift_bnd)
qed

lemma keeps_handler:
  assumes "keeps P m" "\<And>e. keeps P (h e)"
  shows "keeps P (\<lambda>s. case m s of (Inl e, s') \<Rightarrow> if b e then h e s' else (Inl e, s') | (Inr x, s') \<Rightarrow> (Inr x, s'))"
  unfolding keeps_def
proof (intro allI impI)
  fix s assume "P s"
  then have "P (snd (m s))" using assms(1) by (simp add: keeps_def)
  then show "P (snd (case m s of (Inl e, s') \<Rightarrow> if b e then h e s' else (Inl e, s') | (Inr x, s') \<Rightarrow> (Inr x, s')))"
    using assms(2) by (cases "m s"; cases "fst (m s)") (auto simp: keeps_def)
qed

lemma keeps_explained_submit: "keeps (in_tables (explained ops)) (submit_beatmap_archive E u data)"
proof -
  have host: "keeps (in_tables (explained ops)) (host_files E u data i ds ps)" for i ds ps
    unfolding host_files_def by (intro keeps_intros keeps_explained_commit)
  have "keeps (in_tables (explained ops)) (host_or_clean_up E u data i ds ps)" for i ds ps
    unfolding host_or_clean_up_def
    by (intro keeps_thn keeps_modify keeps_handler host keeps_tables_cleanup) (simp add: in_tables_def)
  then have "keeps (in_tables (explained ops)) (submit_parsed E u data ps)" for ps
    unfolding submit_parsed_def by (intro keeps_intros) (auto split: sum.split option.split intro!: keeps_intros)
  then show ?thesis
    unfolding submit_beatmap_archive_def
    by (auto intro!: keeps_intros split: option.split sum.split osz_error.split)
qed

lemma keeps_explained_delete: "keeps (in_tables (explained ops)) (delete_submission E a i)"
proof -
  have "distinct (map hm_id xs) \<Longrightarrow> distinct (map hm_id (filter p xs))" for p xs by (simp add: distinct_map_filter)
  then have "keeps (in_tables (explained ops)) (delete_hosted E i rows)" for rows
    unfolding delete_hosted_def scores_delete_by_map_md5s_def maps_delete_by_set_id_def mapsets_delete_one_def subs_delete_one_def
    by (intro keeps_intros keeps_tables_hdb) (auto simp: explained_def)
  then show ?thesis
    unfolding delete_submission_def by (intro keeps_intros) (auto split: option.split intro!: keeps_intros)
qed

lemma refresh_explained: "explained ops d \<Longrightarrow> list_all (\<lambda>r. hm_server r = Server_osu) rows \<Longrightarrow> explained ops (save_to_sql rows d)"
proof (induction rows arbitrary: d)
  case (Cons r rows)
  have "explained ops (replace_into_maps r d)"
    using Cons.prems by (auto simp: explained_def replace_into_maps_def distinct_map_filter)
  then show ?case using Cons by (simp add: save_to_sql_def)
qed (simp add: save_to_sql_def)

lemma host_step_explained: "explained ops (h_db s) \<Longrightarrow> explained (insert op ops) (h_db (host_step E op s))"
proof (cases op)
  case (Op_refresh rows)
  then show "explained ops (h_db s) \<Longrightarrow> ?thesis"
    by (auto intro!: refresh_explained intro: explained_mono simp: list_all_iff)
next
  case (Op_update a i v st nt)
  assume "explained ops (h_db s)"
  then have "in_tables (explained (insert op ops)) s" unfolding in_tables_def by (rule explained_mono) blast
  then show ?thesis
    using keeps_exec [OF keeps_update_submission [of a i v st nt "insert op ops" E]] Op_update by (simp add: in_tables_def)
next
  case (Op_submit u x)
  assume "explained ops (h_db s)"
  then have "in_tables (explained (insert op ops)) s" unfolding in_tables_def by (rule explained_mono) blast
  then show ?thesis using keeps_exec [OF keeps_explained_submit] Op_submit by (simp add: in_tables_def)
next
  case (Op_delete u x)
  assume "explained ops (h_db s)"
  then have "in_tables (explained (insert op ops)) s" unfolding in_tables_def by (rule explained_mono) blast
  then show ?thesis using keeps_exec [OF keeps_explained_delete] Op_delete by (simp add: in_tables_def)
qed

lemma host_run_explained: "explained A (h_db s) \<Longrightarrow> explained (A \<union> set ops) (h_db (host_run E ops s))"
proof (induction ops arbitrary: A s)
  case (Cons op ops)
  then show ?case using Cons.IH [OF host_step_explained [OF Cons.prems, of op E]] by (simp add: host_run_def)
qed (simp add: host_run_def)


text \<open>C17. In every history of uploads, updates, deletions and refreshes that starts without maps, a
  hosted map that is not pending got its status from an update by the staff or a nominator, or
  it is loved and the staff or a nominator approved its set.
\<close>

theorem hosted_status_provenance:
  assumes "fresh_host s"
    and "r \<in> set (hd_maps (h_db (host_run E ops s)))" and "hm_server r = Server_private"
  shows "hm_status r = RS_PENDING \<or>
    (\<exists>a state note. (is_staff a \<or> is_nominator a) \<and>
       Op_update a (hm_set_id r) (Some (hm_status r)) state note \<in> set ops) \<or>
    hm_status r = RS_LOVED \<and>
    (\<exists>a status note. (is_staff a \<or> is_nominator a) \<and>
       Op_update a (hm_set_id r) status (Some REVIEW_APPROVED) note \<in> set ops)"
proof -
  have "explained {} (h_db s)" using assms(1) by (simp add: explained_def fresh_host_def)
  from host_run_explained [OF this] have "explained (set ops) (h_db (host_run E ops s))" by simp
  then have "status_given (set ops) (hm_set_id r) (hm_status r)" using assms(2,3) by (simp add: explained_def)
  then show ?thesis by (auto simp: status_given_def approved_in_def moderates_def)
qed
end
