(* ===== verification/Kept.thy ===== *)
theory Kept
  imports Hosted
begin

text \<open>
  The files behind the hosted maps. A submission reserves ids, writes its files under them and
  only then enters its rows, in one transaction; a deletion goes the other way. The invariant
  \<open>hosted_ok\<close> says that no row is ever without its file, and every request keeps it whatever
  fails. The last section is about the scores a deletion takes along.
\<close>

section \<open>The invariant of the hosted files\<close>

definition file_hosted :: "up_env \<Rightarrow> hosting \<Rightarrow> hosted_map \<Rightarrow> bool" where
  "file_hosted E s r \<longleftrightarrow> (\<exists>data. h_files s (Osu_file (hm_id r)) = Some data \<and> ue_md5 E data = hm_md5 r)"

definition archive_hosted :: "up_env \<Rightarrow> hosting \<Rightarrow> map_submission \<Rightarrow> bool" where
  "archive_hosted E s u \<longleftrightarrow>
     (\<exists>a. h_files s (Osz_file (su_set_id u)) = Some a \<and> ue_sha256 E a = su_osz_sha256 u \<and> length a = su_osz_size u)"

definition hosted_ok :: "up_env \<Rightarrow> hosting \<Rightarrow> bool" where
  "hosted_ok E s \<longleftrightarrow>
     distinct (map hm_id (hd_maps (h_db s))) \<and> distinct (map hm_md5 (hd_maps (h_db s))) \<and>
     distinct (map su_set_id (hd_subs (h_db s))) \<and>
     (\<forall>r \<in> set (hd_maps (h_db s)). hm_server r = Server_private \<longrightarrow>
        PRIVATE_BEATMAP_ID_FLOOR \<le> hm_id r \<and> hm_id r < hd_next_id (h_db s) \<and> file_hosted E s r \<and>
        hm_set_id r \<in> su_set_id ` set (hd_subs (h_db s))) \<and>
     (\<forall>u \<in> set (hd_subs (h_db s)).
        PRIVATE_BEATMAP_ID_FLOOR \<le> su_set_id u \<and> su_set_id u < hd_next_id (h_db s) \<and> archive_hosted E s u)"

lemma untimed_hosted_ok [simp]: "untimed (hosted_ok E)"
  by (simp add: untimed_def hosted_ok_def file_hosted_def archive_hosted_def)

text \<open>The part of the state a submission does not touch before it commits.\<close>

definition untouched :: "hosting \<Rightarrow> hosting \<Rightarrow> bool" where
  "untouched s0 s \<longleftrightarrow>
     hd_maps (h_db s) = hd_maps (h_db s0) \<and> hd_subs (h_db s) = hd_subs (h_db s0) \<and>
     hd_next_id (h_db s0) \<le> hd_next_id (h_db s) \<and>
     (\<forall>i < hd_next_id (h_db s0). h_files s (Osu_file i) = h_files s0 (Osu_file i) \<and>
                                h_files s (Osz_file i) = h_files s0 (Osz_file i))"

definition new_path :: "int \<Rightarrow> host_path \<Rightarrow> bool" where
  "new_path n p \<longleftrightarrow> (\<exists>i \<ge> n. p = Osu_file i \<or> p = Osz_file i)"

definition working :: "hosting \<Rightarrow> hosting \<Rightarrow> bool" where
  "working s0 s \<longleftrightarrow> untouched s0 s \<and> list_all (new_path (hd_next_id (h_db s0))) (h_written s)"

lemma untimed_working [simp]: "untimed (untouched s0)" "untimed (working s0)"
  by (simp_all add: untimed_def untouched_def working_def)

lemma untouched_ok: "hosted_ok E s0 \<Longrightarrow> untouched s0 s \<Longrightarrow> hosted_ok E s"
  by (fastforce simp: hosted_ok_def untouched_def file_hosted_def archive_hosted_def)

lemma working_ok: "hosted_ok E s0 \<Longrightarrow> working s0 s \<Longrightarrow> hosted_ok E s"
  by (simp add: working_def untouched_ok)

section \<open>Before the files are written\<close>

lemma triple_allocate:
  "triple (\<lambda>s. untouched s0 s \<and> n \<le> hd_next_id (h_db s)) (allocate E k a)
     (\<lambda>i s. untouched s0 s \<and> n \<le> i \<and> i < hd_next_id (h_db s) \<and> PRIVATE_BEATMAP_ID_FLOOR \<le> i) (untouched s0)"
  unfolding allocate_def
  by (auto simp: triple_def hio_def hget_def hdb_def op_defs Let_def int_column_def untouched_def
      split: option.splits prod.splits sum.splits if_splits)

definition reserved :: "hosting \<Rightarrow> int \<Rightarrow> int list \<Rightarrow> hosting \<Rightarrow> bool" where
  "reserved s0 n is s \<longleftrightarrow>
     untouched s0 s \<and> n \<le> hd_next_id (h_db s) \<and> distinct is \<and>
     (\<forall>i \<in> set is. n \<le> i \<and> i < hd_next_id (h_db s) \<and> PRIVATE_BEATMAP_ID_FLOOR \<le> i)"

lemma triple_allocate_many:
  "triple (\<lambda>s. untouched s0 s \<and> n \<le> hd_next_id (h_db s)) (allocate_many E k c a)
     (\<lambda>is s. reserved s0 n is s \<and> length is = c) (untouched s0)"
proof (induction c arbitrary: n)
  case (Suc c)
  have "triple (\<lambda>s. untouched s0 s \<and> i + 1 \<le> hd_next_id (h_db s)) (bnd (allocate_many E k c a) (\<lambda>is. retn (i # is)))
      (\<lambda>is s. reserved s0 n is s \<and> length is = Suc c) (untouched s0)"
    if "n \<le> i" "PRIVATE_BEATMAP_ID_FLOOR \<le> i" for i
    by (rule triple_bnd [OF Suc.IH triple_retn]) (use that in \<open>auto simp: reserved_def\<close>)
  then have "triple (\<lambda>s. untouched s0 s \<and> n \<le> i \<and> i < hd_next_id (h_db s) \<and> PRIVATE_BEATMAP_ID_FLOOR \<le> i)
      (bnd (allocate_many E k c a) (\<lambda>is. retn (i # is))) (\<lambda>is s. reserved s0 n is s \<and> length is = Suc c) (untouched s0)" for i
    by (fastforce simp: triple_def)
  then show ?case
    unfolding allocate_many.simps by (rule triple_bnd [OF triple_allocate])
qed (simp add: triple_def op_defs reserved_def)

lemma prepare_difficulty_fields:
  assumes "prepare_difficulty E i j m meta c = Inr d"
  shows "pd_beatmap_id d = i" "pd_md5 d = ue_md5 E (pd_data d)"
  using assms by (auto simp: prepare_difficulty_def bindE_Inr_iff split: prod.splits)

lemma prepare_difficulties_fields:
  "prepare_difficulties E j c ms = Inr (Inr ds) \<Longrightarrow>
   map pd_beatmap_id ds = map fst ms \<and> (\<forall>d \<in> set ds. pd_md5 d = ue_md5 E (pd_data d))"
proof (induction E j c ms arbitrary: ds rule: prepare_difficulties.induct)
  case (2 E j c i m meta ms)
  obtain d r where p: "prepare_difficulty E i j m meta c = Inr d" "prepare_difficulties E j c ms = Inr r"
    "(case r of Inl c \<Rightarrow> Inl c | Inr ds \<Rightarrow> Inr (d # ds)) = Inr ds"
    using "2.prems" by (cases "prepare_difficulty E i j m meta c") (auto simp: bindE_Inr_iff split: if_splits)
  then obtain ds' where d: "prepare_difficulty E i j m meta c = Inr d" "prepare_difficulties E j c ms = Inr (Inr ds')" "ds = d # ds'"
    by (cases r) auto
  then show ?case using "2.IH" [OF d(1,2)] prepare_difficulty_fields [OF d(1)] by simp
qed simp

section \<open>The files\<close>

lemma keeps_put_new: "new_path n p \<Longrightarrow> n = hd_next_id (h_db s0) \<Longrightarrow> keeps (working s0) (put_file p v)"
  unfolding put_file_def by (rule keeps_modify) (auto simp: working_def untouched_def new_path_def)

lemma keeps_put_temp: "keeps (working s0) (put_file (Temp_file p) v)"
  unfolding put_file_def by (rule keeps_modify) (auto simp: working_def untouched_def)

lemma keeps_working_write: "new_path (hd_next_id (h_db s0)) p \<Longrightarrow> keeps (working s0) (write_file_atomically E p d)"
  unfolding write_file_atomically_def
  by (intro keeps_thn keeps_hio keeps_put_temp keeps_put_new) simp_all

lemma keeps_working_remove: "new_path (hd_next_id (h_db s0)) p \<Longrightarrow> keeps (working s0) (remove_file E p)"
  unfolding remove_file_def by (intro keeps_hio keeps_put_new) simp_all

lemma keeps_working_write_recorded: "new_path (hd_next_id (h_db s0)) p \<Longrightarrow> keeps (working s0) (write_recorded E p d)"
  unfolding write_recorded_def
  by (intro keeps_thn keeps_working_write keeps_modify) (auto simp: working_def untouched_def)

text \<open>After a write returns, the file is there, and no other.\<close>

definition files_written :: "(host_path \<times> bytes) list \<Rightarrow> hosting \<Rightarrow> bool" where
  "files_written fs s \<longleftrightarrow> (\<forall>(p, d) \<in> set fs. h_files s p = Some d)"

definition real_path :: "host_path \<Rightarrow> bool" where
  "real_path p \<longleftrightarrow> (\<forall>q. p \<noteq> Temp_file q)"

lemma write_recorded_Inr:
  "write_recorded E p d s = (Inr x, s') \<Longrightarrow> h_files s' p = (if real_path p then Some d else h_files s' p) \<and>
     (\<forall>q. real_path q \<longrightarrow> q \<noteq> p \<longrightarrow> h_files s' q = h_files s q)"
  by (auto simp: write_recorded_def write_file_atomically_def inv_simps put_file_def real_path_def)

lemma triple_write_recorded:
  assumes "new_path (hd_next_id (h_db s0)) p" "p \<notin> fst ` set fs" "list_all (real_path \<circ> fst) fs"
  shows "triple (\<lambda>s. working s0 s \<and> files_written fs s) (write_recorded E p d)
    (\<lambda>_ s. working s0 s \<and> files_written (fs @ [(p, d)]) s) (working s0)"
  unfolding triple_def
proof (intro allI impI)
  fix s assume s: "working s0 s \<and> files_written fs s"
  obtain r s' where m: "write_recorded E p d s = (r, s')" by fastforce
  have k: "working s0 s'" by (rule keepsD [OF keeps_working_write_recorded [OF assms(1)] _ m]) (use s in simp)
  have p: "real_path p" using assms(1) by (auto simp: new_path_def real_path_def)
  have "files_written (fs @ [(p, d)]) s'" if "r = Inr u" for u
    using write_recorded_Inr [of E p d s u s'] m that s assms(2,3) p
    by (fastforce simp: files_written_def list_all_iff)
  then show "case write_recorded E p d s of (Inr x, s') \<Rightarrow> working s0 s' \<and> files_written (fs @ [(p, d)]) s' | (Inl e, s') \<Rightarrow> working s0 s'"
    using m k by (cases r) simp_all
qed

lemma triple_foreach:
  assumes "\<And>done x rest. xs = done @ x # rest \<Longrightarrow> triple (P done) (f x) (\<lambda>_. P (done @ [x])) Er"
  shows "triple (P []) (foreach xs f) (\<lambda>_. P xs) Er"
proof -
  have "xs = ds @ ys \<Longrightarrow> triple (P ds) (foreach ys f) (\<lambda>_. P xs) Er" for ds ys
  proof (induction ys arbitrary: ds)
    case Nil
    then show ?case by (simp add: triple_skip)
  next
    case (Cons y ys)
    then show ?case using assms [of ds y ys] by (auto intro!: triple_thn)
  qed
  from this [of "[]" xs] show ?thesis by simp
qed

definition difficulty_files :: "prepared_difficulty list \<Rightarrow> (host_path \<times> bytes) list" where
  "difficulty_files ds = map (\<lambda>d. (Osu_file (pd_beatmap_id d), pd_data d)) ds"

lemma triple_write_difficulties:
  assumes "distinct (map pd_beatmap_id ds)" "\<forall>d \<in> set ds. hd_next_id (h_db s0) \<le> pd_beatmap_id d"
  shows "triple (working s0) (foreach ds (\<lambda>d. write_recorded E (Osu_file (pd_beatmap_id d)) (pd_data d)))
    (\<lambda>_ s. working s0 s \<and> files_written (difficulty_files ds) s) (working s0)"
proof -
  have "triple (\<lambda>s. working s0 s \<and> files_written (difficulty_files xs) s) (write_recorded E (Osu_file (pd_beatmap_id d)) (pd_data d))
      (\<lambda>_ s. working s0 s \<and> files_written (difficulty_files (xs @ [d])) s) (working s0)" if "ds = xs @ d # ys" for xs d ys
  proof -
    have "Osu_file (pd_beatmap_id d) \<notin> fst ` set (difficulty_files xs)"
      using assms(1) that by (auto simp: difficulty_files_def)
    moreover have "list_all (real_path \<circ> fst) (difficulty_files xs)"
      by (auto simp: difficulty_files_def real_path_def list_all_iff)
    moreover have "new_path (hd_next_id (h_db s0)) (Osu_file (pd_beatmap_id d))"
      using assms(2) that by (auto simp: new_path_def)
    ultimately show ?thesis
      using triple_write_recorded [of s0 "Osu_file (pd_beatmap_id d)" "difficulty_files xs" E "pd_data d"]
      by (simp add: difficulty_files_def)
  qed
  then have "triple (\<lambda>s. working s0 s \<and> files_written (difficulty_files []) s)
      (foreach ds (\<lambda>d. write_recorded E (Osu_file (pd_beatmap_id d)) (pd_data d)))
      (\<lambda>_ s. working s0 s \<and> files_written (difficulty_files ds) s) (working s0)"
    by (rule triple_foreach)
  then show ?thesis by (simp add: difficulty_files_def files_written_def)
qed

section \<open>The commit\<close>

text \<open>The tables while the rows of a set are entered.\<close>

definition entering :: "hosting \<Rightarrow> int \<Rightarrow> prepared_difficulty list \<Rightarrow> host_db \<Rightarrow> bool" where
  "entering s0 i ds d \<longleftrightarrow>
     distinct (map hm_id (hd_maps d)) \<and> distinct (map hm_md5 (hd_maps d)) \<and> hd_subs d = hd_subs (h_db s0) \<and>
     (\<forall>r \<in> set (hd_maps d). r \<in> set (hd_maps (h_db s0)) \<or>
        hm_set_id r = i \<and> (\<exists>p \<in> set ds. hm_id r = pd_beatmap_id p \<and> hm_md5 r = pd_md5 p))"

lemma keeps_entering_create:
  assumes "difficulty_row E u i t p = Inr r" "p \<in> set ds"
  shows "keeps (in_tables (entering s0 i ds)) (maps_create E r)"
  by (rule keeps_maps_create) (use difficulty_row_fields [OF assms(1)] assms(2) in \<open>auto simp: entering_def\<close>)

lemma keeps_entering_mapsets: "keeps (in_tables (entering s0 i ds)) (mapsets_upsert E j v t)"
  unfolding mapsets_upsert_def by (intro keeps_intros keeps_tables_hdb) (simp_all add: entering_def)

text \<open>The counter and the files stay as they are inside the transaction.\<close>

definition steady :: "int \<Rightarrow> (host_path \<Rightarrow> bytes option) \<Rightarrow> host_path list \<Rightarrow> hosting \<Rightarrow> bool" where
  "steady n fs ws s \<longleftrightarrow> hd_next_id (h_db s) = n \<and> h_files s = fs \<and> h_written s = ws"

lemma untimed_steady [simp]: "untimed (steady n fs ws)"
  by (simp add: untimed_def steady_def)

lemma keeps_steady_hdb: "(\<And>d. hd_next_id (f d) = hd_next_id d) \<Longrightarrow> keeps (steady n fs ws) (hdb f)"
  unfolding hdb_def by (rule keeps_modify) (simp add: steady_def)

lemma keeps_steady_commit:
  "keeps (steady n fs ws) (thn (mapsets_upsert E i Server_private t)
     (thn (foreach ds (\<lambda>d. bnd (lift_result (difficulty_row E u i t d)) (\<lambda>r. thn (maps_create E r) skip)))
          (subs_create E i a c k l h)))"
  unfolding mapsets_upsert_def maps_create_def subs_create_def
  by (intro keeps_intros keeps_steady_hdb) (simp_all add: keeps_intros)

lemma subs_create_Inr:
  assumes "subs_create E i a c n l h s = (Inr x, s')"
  shows "i \<notin> su_set_id ` set (hd_subs (h_db s)) \<and> hd_maps (h_db s') = hd_maps (h_db s) \<and>
    (\<exists>u. hd_subs (h_db s') = hd_subs (h_db s) @ [u] \<and> su_set_id u = i \<and> su_osz_sha256 u = h \<and> su_osz_size u = l)"
  using assms
  by (auto simp: subs_create_def subs_fetch_one_def inv_simps list_ex_iff split: if_splits)

text \<open>What the commit leaves when it succeeds.\<close>

lemma commit_ok:
  assumes ok: "hosted_ok E s0" and start: "hd_maps (h_db s) = hd_maps (h_db s0)" "hd_subs (h_db s) = hd_subs (h_db s0)"
    and body: "thn (mapsets_upsert E i Server_private t)
       (thn (foreach ds (\<lambda>d. bnd (lift_result (difficulty_row E u i t d)) (\<lambda>r. thn (maps_create E r) skip)))
          (subs_create E i a c k l h)) s = (Inr x, s')"
  shows "\<exists>d. entering s0 i ds d \<and> hd_maps (h_db s') = hd_maps d \<and> i \<notin> su_set_id ` set (hd_subs d) \<and>
    (\<exists>v. hd_subs (h_db s') = hd_subs d @ [v] \<and> su_set_id v = i \<and> su_osz_sha256 v = h \<and> su_osz_size v = l)"
proof -
  obtain y s1 z s2 where 1: "mapsets_upsert E i Server_private t s = (Inr y, s1)"
    "foreach ds (\<lambda>d. bnd (lift_result (difficulty_row E u i t d)) (\<lambda>r. thn (maps_create E r) skip)) s1 = (Inr z, s2)"
    "subs_create E i a c k l h s2 = (Inr x, s')"
    using body by (auto simp: inv_simps)
  have s: "in_tables (entering s0 i ds) s" using ok start by (simp add: in_tables_def entering_def hosted_ok_def)
  have "keeps (in_tables (entering s0 i ds)) (foreach ds (\<lambda>d. bnd (lift_result (difficulty_row E u i t d)) (\<lambda>r. thn (maps_create E r) skip)))"
    by (intro keeps_foreach keeps_lift_bnd keeps_thn keeps_entering_create keeps_skip)
  from keepsD [OF this _ 1(2)] have "in_tables (entering s0 i ds) s2"
    using keepsD [OF keeps_entering_mapsets s 1(1)] by blast
  then show ?thesis using subs_create_Inr [OF 1(3)] by (auto simp: in_tables_def)
qed

lemma committed_ok:
  assumes ok: "hosted_ok E s0" and w: "working s0 s" and fs: "files_written (difficulty_files ds @ [(Osz_file i, archive)]) s"
    and ids: "\<forall>d \<in> set ds. hd_next_id (h_db s0) \<le> pd_beatmap_id d \<and> pd_beatmap_id d < hd_next_id (h_db s) \<and>
        PRIVATE_BEATMAP_ID_FLOOR \<le> pd_beatmap_id d \<and> pd_md5 d = ue_md5 E (pd_data d)"
      "hd_next_id (h_db s0) \<le> i" "i < hd_next_id (h_db s)" "PRIVATE_BEATMAP_ID_FLOOR \<le> i"
    and st: "steady (hd_next_id (h_db s)) (h_files s) ws s'"
    and d: "entering s0 i ds d" "hd_maps (h_db s') = hd_maps d" "i \<notin> su_set_id ` set (hd_subs d)"
      "hd_subs (h_db s') = hd_subs d @ [v]" "su_set_id v = i" "su_osz_sha256 v = ue_sha256 E archive" "su_osz_size v = length archive"
  shows "hosted_ok E s'"
proof -
  have ok1: "hosted_ok E s" by (rule working_ok [OF ok w])
  have old: "hd_maps (h_db s) = hd_maps (h_db s0)" "hd_subs (h_db s) = hd_subs (h_db s0)"
    using w by (simp_all add: working_def untouched_def)
  have files: "h_files s' = h_files s" "hd_next_id (h_db s') = hd_next_id (h_db s)" using st by (simp_all add: steady_def)
  have archive: "h_files s (Osz_file i) = Some archive" using fs by (simp add: files_written_def)
  have new: "h_files s (Osu_file (pd_beatmap_id p)) = Some (pd_data p)" if "p \<in> set ds" for p
    using fs that by (fastforce simp: files_written_def difficulty_files_def)
  have rows: "PRIVATE_BEATMAP_ID_FLOOR \<le> hm_id r \<and> hm_id r < hd_next_id (h_db s') \<and> file_hosted E s' r \<and>
      hm_set_id r \<in> su_set_id ` set (hd_subs (h_db s'))"
    if r: "r \<in> set (hd_maps d)" "hm_server r = Server_private" for r
  proof (cases "r \<in> set (hd_maps (h_db s))")
    case True
    then show ?thesis using ok1 r(2) d(1,4) files old by (auto simp: hosted_ok_def file_hosted_def entering_def)
  next
    case False
    then obtain p where "p \<in> set ds" "hm_id r = pd_beatmap_id p" "hm_md5 r = pd_md5 p" "hm_set_id r = i"
      using d(1) r(1) old by (auto simp: entering_def)
    then show ?thesis using ids(1) new files d(4,5) by (auto simp: file_hosted_def)
  qed
  have subs: "PRIVATE_BEATMAP_ID_FLOOR \<le> su_set_id u \<and> su_set_id u < hd_next_id (h_db s') \<and> archive_hosted E s' u"
    if "u \<in> set (hd_subs (h_db s'))" for u
  proof (cases "u = v")
    case True
    then show ?thesis using archive ids(2-4) d(5-7) files by (auto simp: archive_hosted_def)
  next
    case False
    then have "u \<in> set (hd_subs (h_db s))" using that d(1,4) old by (auto simp: entering_def)
    then show ?thesis using ok1 files by (auto simp: hosted_ok_def archive_hosted_def)
  qed
  have "distinct (map su_set_id (hd_subs (h_db s')))"
    using ok d(1,3-5) by (auto simp: hosted_ok_def entering_def)
  then show ?thesis
    unfolding hosted_ok_def using rows subs d(1,2) by (simp add: entering_def)
qed

definition difficulties_reserved :: "up_env \<Rightarrow> hosting \<Rightarrow> int \<Rightarrow> prepared_difficulty list \<Rightarrow> hosting \<Rightarrow> bool" where
  "difficulties_reserved E s0 i ds s \<longleftrightarrow>
     distinct (map pd_beatmap_id ds) \<and>
     (\<forall>d \<in> set ds. hd_next_id (h_db s0) \<le> pd_beatmap_id d \<and> pd_beatmap_id d < hd_next_id (h_db s) \<and>
        PRIVATE_BEATMAP_ID_FLOOR \<le> pd_beatmap_id d \<and> pd_md5 d = ue_md5 E (pd_data d)) \<and>
     hd_next_id (h_db s0) \<le> i \<and> i < hd_next_id (h_db s) \<and> PRIVATE_BEATMAP_ID_FLOOR \<le> i"

lemma commit_submission_cases:
  assumes ok: "hosted_ok E s0" and w: "working s0 s" and r: "difficulties_reserved E s0 i ds s"
    and fs: "files_written (difficulty_files ds @ [(Osz_file i, archive)]) s"
    and run: "commit_submission E u i ds archive parsed s = (x, s')"
  shows "case x of Inr _ \<Rightarrow> hosted_ok E s' | Inl _ \<Rightarrow> working s0 s'"
proof -
  define body where "body = thn (mapsets_upsert E i Server_private (ue_now E (h_tick s)))
       (thn (foreach ds (\<lambda>d. bnd (lift_result (difficulty_row E u i (ue_now E (h_tick s)) d)) (\<lambda>r. thn (maps_create E r) skip)))
          (subs_create E i (uu_id u) (om_declared_creator (snd (hd parsed))) (length ds) (length archive) (ue_sha256 E archive)))"
  have tx: "host_transaction E body s = (x, s')" using run by (simp add: commit_submission_def clock_def body_def)
  let ?P = "steady (hd_next_id (h_db s)) (h_files s) (h_written s)"
  have kb: "keeps ?P body" unfolding body_def by (rule keeps_steady_commit)
  have "keeps ?P (bnd (thn (hio E skip) body) (\<lambda>x. thn (hio E skip) (retn x)))"
    by (intro keeps_bnd keeps_thn keeps_hio keeps_skip keeps_retn kb untimed_steady)
  then have st: "?P (snd (bnd (thn (hio E skip) body) (\<lambda>x. thn (hio E skip) (retn x)) s))"
    by (simp add: keeps_def steady_def)
  show ?thesis
  proof (cases x)
    case (Inl e)
    then have "h_db s' = h_db s \<and> h_files s' = h_files s \<and> h_written s' = h_written s"
      using tx st by (auto simp: host_transaction_def steady_def split: prod.splits sum.splits)
    then show ?thesis using Inl w by (simp add: working_def untouched_def)
  next
    case (Inr v)
    obtain n s1 where b: "body (s\<lparr>h_tick := n\<rparr>) = (Inr v, s1)" "\<exists>m. s' = s1\<lparr>h_tick := m\<rparr>"
      using tx unfolding Inr host_transaction_Inr by (auto simp: inv_simps)
    from keepsD [OF kb _ b(1)] have st1: "?P s1" by (simp add: steady_def)
    have start: "hd_maps (h_db (s\<lparr>h_tick := n\<rparr>)) = hd_maps (h_db s0)" "hd_subs (h_db (s\<lparr>h_tick := n\<rparr>)) = hd_subs (h_db s0)"
      using w by (simp_all add: working_def untouched_def)
    obtain d v' where d: "entering s0 i ds d" "hd_maps (h_db s1) = hd_maps d" "i \<notin> su_set_id ` set (hd_subs d)"
        "hd_subs (h_db s1) = hd_subs d @ [v']" "su_set_id v' = i" "su_osz_sha256 v' = ue_sha256 E archive" "su_osz_size v' = length archive"
      using commit_ok [OF ok start b(1) [unfolded body_def]] by blast
    have "hosted_ok E s1"
      by (rule committed_ok [OF ok w fs _ _ _ _ st1 d]) (use r in \<open>simp_all add: difficulties_reserved_def\<close>)
    then show ?thesis using b(2) Inr by (auto simp: untimed_hosted_ok [unfolded untimed_def])
  qed
qed

section \<open>Submitting\<close>

lemma triple_outcome:
  "triple P m Q Er \<longleftrightarrow> (\<forall>s r s'. P s \<longrightarrow> m s = (r, s') \<longrightarrow> (case r of Inr x \<Rightarrow> Q x s' | Inl e \<Rightarrow> Er s'))"
  by (auto simp: triple_def split: prod.splits sum.splits)

lemma triple_case: "triple P m Q Er \<Longrightarrow> P s \<Longrightarrow> m s = (r, s') \<Longrightarrow> (case r of Inr x \<Rightarrow> Q x s' | Inl e \<Rightarrow> Er s')"
  by (simp add: triple_outcome)

lemma triple_host_files:
  assumes ok: "hosted_ok E s0"
  shows "triple (\<lambda>s. working s0 s \<and> difficulties_reserved E s0 i ds s) (host_files E u data i ds parsed)
    (\<lambda>_. hosted_ok E) (working s0)"
  unfolding triple_outcome
proof (intro allI impI)
  fix s x s' assume s: "working s0 s \<and> difficulties_reserved E s0 i ds s"
    and run: "host_files E u data i ds parsed s = (x, s')"
  let ?w = "foreach ds (\<lambda>d. write_recorded E (Osu_file (pd_beatmap_id d)) (pd_data d))"
  let ?next = "\<lambda>n s. hd_next_id (h_db s) = n"
  have keep: "keeps (?next n) (write_recorded E p d)" for n p d
    unfolding write_recorded_def write_file_atomically_def put_file_def
    by (intro keeps_thn keeps_hio keeps_modify) (simp_all add: untimed_def)
  obtain y s1 where w: "?w s = (y, s1)" by fastforce
  have w1: "case y of Inr _ \<Rightarrow> working s0 s1 \<and> files_written (difficulty_files ds) s1 | Inl _ \<Rightarrow> working s0 s1"
    by (rule triple_case [OF triple_write_difficulties _ w]) (use s in \<open>simp_all add: difficulties_reserved_def\<close>)
  have n1: "hd_next_id (h_db s1) = hd_next_id (h_db s)"
    using keepsD [OF keeps_foreach [of ds "?next (hd_next_id (h_db s))"] _ w] keep by blast
  show "case x of Inr x \<Rightarrow> hosted_ok E s' | Inl e \<Rightarrow> working s0 s'"
  proof (cases y)
    case (Inl e)
    then show ?thesis using run w w1 by (auto simp: host_files_def op_defs)
  next
    case Inr1: (Inr z)
    then have run1: "bnd (lift_result (case repack_osz (ue_unzip E) (ue_zip E) (repack_map ds) data of
                         Inl e \<Rightarrow> Inl (as_exn e) | Inr b \<Rightarrow> Inr b)) (\<lambda>archive.
        thn (write_recorded E (Osz_file i) archive) (commit_submission E u i ds archive parsed)) s1 = (x, s')"
      using run w by (simp add: host_files_def op_defs)
    show ?thesis
    proof (cases "repack_osz (ue_unzip E) (ue_zip E) (repack_map ds) data")
      case (Inl e)
      then show ?thesis using run1 w1 Inr1 by (auto simp: op_defs)
    next
      case (Inr archive)
      obtain v s2 where a: "write_recorded E (Osz_file i) archive s1 = (v, s2)" by fastforce
      have "new_path (hd_next_id (h_db s0)) (Osz_file i)" using s by (auto simp: new_path_def difficulties_reserved_def)
      moreover have "Osz_file i \<notin> fst ` set (difficulty_files ds)" "list_all (real_path \<circ> fst) (difficulty_files ds)"
        by (auto simp: difficulty_files_def real_path_def list_all_iff)
      ultimately have w2: "case v of Inr _ \<Rightarrow> working s0 s2 \<and> files_written (difficulty_files ds @ [(Osz_file i, archive)]) s2 | Inl _ \<Rightarrow> working s0 s2"
        using triple_write_recorded [of s0 "Osz_file i" "difficulty_files ds" E archive] w1 Inr1 a by (simp add: triple_outcome)
      have "hd_next_id (h_db s2) = hd_next_id (h_db s1)" using keepsD [OF keep _ a] by blast
      then have r2: "difficulties_reserved E s0 i ds s2" using s n1 by (simp add: difficulties_reserved_def)
      show ?thesis
      proof (cases v)
        case (Inl e)
        then show ?thesis using run1 a w2 Inr by (auto simp: op_defs)
      next
        case Inr2: (Inr z)
        then have "commit_submission E u i ds archive parsed s2 = (x, s')" using run1 a Inr by (simp add: op_defs)
        from commit_submission_cases [OF ok _ r2 _ this] show ?thesis using w2 Inr2 by (simp split: sum.splits)
      qed
    qed
  qed
qed

lemma keeps_working_cleanup: "keeps (working s0) (clean_up_written E e :: 'a hop)"
proof -
  have one: "keeps (working s0) (\<lambda>s. case remove_file E p s of
      (Inl e', s') \<Rightarrow> (if is_exception e' then Inr () else Inl e', s') | (Inr _, s') \<Rightarrow> (Inr (), s'))"
    if "new_path (hd_next_id (h_db s0)) p" for p
    unfolding keeps_def
  proof (intro allI impI)
    fix s assume "working s0 s"
    then have "working s0 (snd (remove_file E p s))" using keeps_working_remove [OF that] by (simp add: keeps_def)
    then show "working s0 (snd (case remove_file E p s of
      (Inl e', s') \<Rightarrow> (if is_exception e' then Inr () else Inl e', s') | (Inr _, s') \<Rightarrow> (Inr (), s')))"
      by (cases "remove_file E p s"; cases "fst (remove_file E p s)") auto
  qed
  show ?thesis
    unfolding clean_up_written_def
  proof (rule keeps_gets_bnd)
    fix s assume s: "working s0 s"
    have "keeps (working s0) (thn (foreach (h_written s) (\<lambda>p s. case remove_file E p s of
        (Inl e', s') \<Rightarrow> (if is_exception e' then Inr () else Inl e', s') | (Inr _, s') \<Rightarrow> (Inr (), s'))) (raise e :: 'a hop))"
      by (intro keeps_thn keeps_foreach one keeps_raise) (use s in \<open>simp add: working_def list_all_iff\<close>)
    then show "working s0 (snd (thn (foreach (h_written s) (\<lambda>p s. case remove_file E p s of
        (Inl e', s') \<Rightarrow> (if is_exception e' then Inr () else Inl e', s') | (Inr _, s') \<Rightarrow> (Inr (), s'))) (raise e :: 'a hop) s))"
      using s by (simp add: keeps_def)
  qed
qed

lemma triple_host_or_clean_up:
  assumes ok: "hosted_ok E s0"
  shows "triple (\<lambda>s. untouched s0 s \<and> difficulties_reserved E s0 i ds s) (host_or_clean_up E u data i ds parsed)
    (\<lambda>_. hosted_ok E) (hosted_ok E)"
  unfolding triple_outcome
proof (intro allI impI)
  fix s x s' assume s: "untouched s0 s \<and> difficulties_reserved E s0 i ds s"
    and run: "host_or_clean_up E u data i ds parsed s = (x, s')"
  let ?s = "s\<lparr>h_written := []\<rparr>"
  have s1: "working s0 ?s \<and> difficulties_reserved E s0 i ds ?s"
    using s by (simp add: working_def untouched_def difficulties_reserved_def)
  obtain y s2 where h: "host_files E u data i ds parsed ?s = (y, s2)" by fastforce
  have c: "case y of Inr _ \<Rightarrow> hosted_ok E s2 | Inl _ \<Rightarrow> working s0 s2"
    using triple_host_files [OF ok, of i ds u data parsed] s1 h by (simp add: triple_outcome)
  show "case x of Inr x \<Rightarrow> hosted_ok E s' | Inl e \<Rightarrow> hosted_ok E s'"
  proof (cases y)
    case (Inl e)
    then have "working s0 s2" using c by simp
    then have "working s0 s'"
      using run h Inl keepsD [OF keeps_working_cleanup, of s0 s2 E e x s'] by (auto simp: host_or_clean_up_def op_defs split: if_splits)
    then show ?thesis using working_ok [OF ok] by (simp split: sum.split)
  next
    case (Inr z)
    then show ?thesis using run h c by (auto simp: host_or_clean_up_def op_defs)
  qed
qed

lemma host_bnd_lift_Inr: "bnd (lift_result (Inr x)) k = k x"
  by (rule ext) (simp add: op_defs)

lemma keeps_reserved: "keeps (\<lambda>s. untouched s0 s \<and> difficulties_reserved E s0 i ds s) (check_collisions E' ds')"
  by (rule keeps_check_collisions) (simp add: untimed_def untouched_def difficulties_reserved_def)

lemma triple_submit_parsed:
  assumes ok: "hosted_ok E s0"
  shows "triple (\<lambda>s. s = s0) (submit_parsed E u data parsed) (\<lambda>_. hosted_ok E) (hosted_ok E)"
proof -
  let ?n = "hd_next_id (h_db s0)"
  let ?rest = "\<lambda>i ids r. (case r of Inl c \<Rightarrow> retn c | Inr prepared \<Rightarrow>
           bnd (check_collisions E prepared) (\<lambda>collision.
             case collision of
               Some c \<Rightarrow> retn c
             | None \<Rightarrow>
                 bnd (host_or_clean_up E u data i prepared parsed) (\<lambda>submission.
                   retn \<lparr>rs_code = CREATED, rs_submission = Some submission,
                         rs_difficulties = map as_submitted_difficulty prepared\<rparr>)))"
  have weak: "untouched s0 s \<Longrightarrow> hosted_ok E s" for s by (rule untouched_ok [OF ok])
  have host: "triple (\<lambda>s. untouched s0 s \<and> difficulties_reserved E s0 i ds s)
      (bnd (check_collisions E ds) (\<lambda>collision.
         case collision of Some c \<Rightarrow> retn c
         | None \<Rightarrow> bnd (host_or_clean_up E u data i ds parsed) (\<lambda>submission.
             retn \<lparr>rs_code = CREATED, rs_submission = Some submission, rs_difficulties = map as_submitted_difficulty ds\<rparr>)))
      (\<lambda>_. hosted_ok E) (hosted_ok E)" for i ds
  proof (rule triple_bnd [where R = "\<lambda>_ s. untouched s0 s \<and> difficulties_reserved E s0 i ds s"])
    show "triple (\<lambda>s. untouched s0 s \<and> difficulties_reserved E s0 i ds s) (check_collisions E ds)
        (\<lambda>_ s. untouched s0 s \<and> difficulties_reserved E s0 i ds s) (hosted_ok E)"
      by (rule triple_keeps [OF keeps_reserved]) (use weak in auto)
    show "triple (\<lambda>s. untouched s0 s \<and> difficulties_reserved E s0 i ds s)
      (case c of Some c \<Rightarrow> retn c
         | None \<Rightarrow> bnd (host_or_clean_up E u data i ds parsed) (\<lambda>submission.
             retn \<lparr>rs_code = CREATED, rs_submission = Some submission, rs_difficulties = map as_submitted_difficulty ds\<rparr>))
      (\<lambda>_. hosted_ok E) (hosted_ok E)" for c
      using weak by (cases c)
        (auto intro!: triple_retn triple_bnd [OF triple_host_or_clean_up [OF ok]])
  qed
  have prepare: "triple (\<lambda>s. reserved s0 (i + 1) ids s \<and> length ids = length parsed \<and> ?n \<le> i \<and> PRIVATE_BEATMAP_ID_FLOOR \<le> i)
      (bnd (lift_result (prepare_difficulties E i (uu_name u) (zip ids parsed))) (?rest i ids))
      (\<lambda>_. hosted_ok E) (hosted_ok E)" for i ids
  proof (cases "prepare_difficulties E i (uu_name u) (zip ids parsed)")
    case (Inl e)
    then show ?thesis using weak by (auto simp: triple_def op_defs reserved_def)
  next
    case (Inr r)
    show ?thesis
    proof (cases r)
      case (Inl c)
      then show ?thesis using weak Inr by (auto simp: triple_def op_defs reserved_def)
    next
      case r: (Inr ds)
      have "untouched s0 s \<and> difficulties_reserved E s0 i ds s"
        if s: "reserved s0 (i + 1) ids s \<and> length ids = length parsed \<and> ?n \<le> i \<and> PRIVATE_BEATMAP_ID_FLOOR \<le> i" for s
      proof -
        have "map pd_beatmap_id ds = ids" "\<forall>d \<in> set ds. pd_md5 d = ue_md5 E (pd_data d)"
          using prepare_difficulties_fields [of E i "uu_name u" "zip ids parsed" ds] Inr r s by simp_all
        moreover from this(1) have "set ids = pd_beatmap_id ` set ds" by auto
        ultimately show ?thesis using s by (fastforce simp: reserved_def difficulties_reserved_def)
      qed
      then show ?thesis
        unfolding Inr r host_bnd_lift_Inr sum.case by (intro triple_conseq [OF host [of i ds]]) auto
    qed
  qed
  have many: "triple (\<lambda>s. untouched s0 s \<and> ?n \<le> i \<and> i < hd_next_id (h_db s) \<and> PRIVATE_BEATMAP_ID_FLOOR \<le> i)
      (allocate_many E Kind_map (length parsed) (uu_id u))
      (\<lambda>ids s. reserved s0 (i + 1) ids s \<and> length ids = length parsed \<and> ?n \<le> i \<and> PRIVATE_BEATMAP_ID_FLOOR \<le> i) (hosted_ok E)" for i
    using triple_allocate_many [of s0 "i + 1" E Kind_map "length parsed" "uu_id u"] weak
    by (fastforce simp: triple_outcome split: sum.splits)
  have one: "triple (\<lambda>s. s = s0) (allocate E Kind_set (uu_id u))
      (\<lambda>i s. untouched s0 s \<and> ?n \<le> i \<and> i < hd_next_id (h_db s) \<and> PRIVATE_BEATMAP_ID_FLOOR \<le> i) (hosted_ok E)"
    by (rule triple_conseq [OF triple_allocate [of s0 ?n]]) (use weak in \<open>auto simp: untouched_def\<close>)
  show ?thesis
    unfolding submit_parsed_def by (intro triple_bnd [OF one] triple_bnd [OF many] prepare)
qed

lemma keeps_ok_submit: "keeps (hosted_ok E) (submit_beatmap_archive E u data)"
proof -
  have parsed: "keeps (hosted_ok E) (submit_parsed E u data ps)" for ps
    unfolding keeps_def
  proof (intro allI impI)
    fix s assume "hosted_ok E s"
    then show "hosted_ok E (snd (submit_parsed E u data ps s))"
      using triple_case [OF triple_submit_parsed [of E s u data ps] refl] by (cases "submit_parsed E u data ps s") (fastforce split: sum.splits)
  qed
  show ?thesis
    unfolding submit_beatmap_archive_def
    by (auto intro!: keeps_intros parsed split: option.split sum.split osz_error.split)
qed

section \<open>The other requests\<close>

lemma keeps_ok_hdb: "(\<And>s. hosted_ok E s \<Longrightarrow> hosted_ok E (s\<lparr>h_db := f (h_db s)\<rparr>)) \<Longrightarrow> keeps (hosted_ok E) (hdb f)"
  unfolding hdb_def by (rule keeps_modify)

lemma map_if_fields:
  "(\<And>x. f (g x) = f x) \<Longrightarrow> map f (map (\<lambda>x. if p x then g x else x) xs) = map f xs"
  by simp

lemma status_ok:
  assumes "hosted_ok E s"
  shows "hosted_ok E (s\<lparr>h_db := (h_db s)\<lparr>hd_maps := map (\<lambda>r. if hm_id r = j then r\<lparr>hm_status := v\<rparr> else r) (hd_maps (h_db s))\<rparr>\<rparr>)"
proof -
  let ?g = "\<lambda>r. if hm_id r = j then r\<lparr>hm_status := v\<rparr> else r"
  have m: "map hm_id (map ?g xs) = map hm_id xs" "map hm_md5 (map ?g xs) = map hm_md5 xs" for xs
    by (simp_all add: map_if_fields del: map_map)
  show ?thesis using assms by (auto simp: m hosted_ok_def file_hosted_def archive_hosted_def simp del: map_map)
qed

lemma keeps_ok_update: "keeps (hosted_ok E) (update_submission E a i status st note)"
proof -
  have "keeps (hosted_ok E) (maps_update_status E j v)" for j v
    unfolding maps_update_status_def by (intro keeps_intros keeps_ok_hdb status_ok) simp_all
  then have statuses: "keeps (hosted_ok E) (set_statuses E i v rows)" for v rows
    unfolding set_statuses_def evict_beatmap_cache_def
    by (intro keeps_intros keeps_modify) (simp_all add: hosted_ok_def file_hosted_def archive_hosted_def)
  have "keeps (hosted_ok E) (subs_review E i st b n)" for b n
  proof -
    have review: "hosted_ok E (s\<lparr>h_db := (h_db s)\<lparr>hd_subs := map (\<lambda>u. if su_set_id u = i
          then u\<lparr>su_state := w u, su_reviewed_by := Some b, su_reviewed_at := Some t, su_note := k, su_updated_at := t\<rparr> else u)
          (hd_subs (h_db s))\<rparr>\<rparr>)" if "hosted_ok E s" for s w t k
    proof -
      let ?g = "\<lambda>u. if su_set_id u = i
          then u\<lparr>su_state := w u, su_reviewed_by := Some b, su_reviewed_at := Some t, su_note := k, su_updated_at := t\<rparr> else u"
      have m: "map su_set_id (map ?g xs) = map su_set_id xs" for xs by (simp add: map_if_fields del: map_map)
      have ids: "su_set_id ` set (map ?g xs) = su_set_id ` set xs" for xs by (metis m set_map)
      show ?thesis
        using that m [of "hd_subs (h_db s)"] ids [of "hd_subs (h_db s)"]
        by (simp add: hosted_ok_def file_hosted_def archive_hosted_def del: map_map set_map) auto
    qed
    show ?thesis unfolding subs_review_def by (intro keeps_intros keeps_ok_hdb review) simp_all
  qed
  then show ?thesis
    unfolding update_submission_def Let_def
    by (intro keeps_intros) (auto intro!: keeps_intros statuses split: option.split)
qed

text \<open>A deletion takes the rows of a set and its submission out, then their files.\<close>

definition set_gone :: "int \<Rightarrow> int set \<Rightarrow> hosting \<Rightarrow> bool" where
  "set_gone i ids s \<longleftrightarrow>
     (\<forall>r \<in> set (hd_maps (h_db s)). hm_server r = Server_private \<longrightarrow> hm_id r \<notin> ids) \<and>
     (\<forall>u \<in> set (hd_subs (h_db s)). su_set_id u \<noteq> i)"

lemma remove_gone_ok:
  assumes "p \<in> Osu_file ` ids \<or> p = Osz_file i"
  shows "keeps (\<lambda>s. hosted_ok E s \<and> set_gone i ids s) (remove_file E' p)"
  unfolding remove_file_def put_file_def
proof (intro keeps_hio keeps_modify)
  fix s assume "hosted_ok E s \<and> set_gone i ids s"
  then show "hosted_ok E (s\<lparr>h_files := (h_files s)(p := None)\<rparr>) \<and> set_gone i ids (s\<lparr>h_files := (h_files s)(p := None)\<rparr>)"
    using assms by (fastforce simp: hosted_ok_def set_gone_def file_hosted_def archive_hosted_def)
qed (simp add: untimed_def hosted_ok_def set_gone_def file_hosted_def archive_hosted_def)

lemma delete_rows_ok:
  assumes ok: "hosted_ok E s" and fs: "h_files s' = h_files s"
    and d: "hd_maps (h_db s') = filter (\<lambda>r. \<not> (hm_set_id r = i \<and> hm_server r = Server_private)) (hd_maps (h_db s))"
      "hd_subs (h_db s') = filter (\<lambda>u. su_set_id u \<noteq> i) (hd_subs (h_db s))" "hd_next_id (h_db s') = hd_next_id (h_db s)"
    and rows: "\<forall>r \<in> set rows. r \<in> set (hd_maps (h_db s)) \<and> hm_set_id r = i \<and> hm_server r = Server_private"
  shows "hosted_ok E s' \<and> set_gone i (hm_id ` set rows) s'"
proof
  show "hosted_ok E s'"
    using ok fs d by (auto simp: hosted_ok_def file_hosted_def archive_hosted_def distinct_map_filter)
  have "inj_on hm_id (set (hd_maps (h_db s)))" using ok by (simp add: hosted_ok_def distinct_map)
  then show "set_gone i (hm_id ` set rows) s'"
    using d rows by (fastforce simp: set_gone_def dest: inj_onD)
qed

definition delete_rows :: "up_env \<Rightarrow> int \<Rightarrow> hosted_map list \<Rightarrow> unit hop" where
  "delete_rows E i rows =
     thn (scores_delete_by_map_md5s E (map hm_md5 rows))
    (thn (maps_delete_by_set_id E i Server_private)
    (thn (mapsets_delete_one E i Server_private) (subs_delete_one E i)))"

lemma delete_rows_Inr:
  "delete_rows E i rows s = (Inr x, s') \<Longrightarrow> h_files s' = h_files s \<and> hd_next_id (h_db s') = hd_next_id (h_db s) \<and>
     hd_maps (h_db s') = filter (\<lambda>r. \<not> (hm_set_id r = i \<and> hm_server r = Server_private)) (hd_maps (h_db s)) \<and>
     hd_subs (h_db s') = filter (\<lambda>u. su_set_id u \<noteq> i) (hd_subs (h_db s)) \<and>
     hd_scores (h_db s') = filter (\<lambda>r. sr_map_md5 r \<notin> hm_md5 ` set rows) (hd_scores (h_db s))"
  by (auto simp: delete_rows_def scores_delete_by_map_md5s_def maps_delete_by_set_id_def mapsets_delete_one_def
    subs_delete_one_def inv_simps split: if_splits)

lemma keeps_files_delete_rows: "keeps (\<lambda>s. h_files s = fs) (delete_rows E i rows)"
  unfolding delete_rows_def scores_delete_by_map_md5s_def maps_delete_by_set_id_def mapsets_delete_one_def
    subs_delete_one_def hdb_def
  by (intro keeps_intros keeps_modify) (simp_all add: untimed_def)

text \<open>The transaction of a deletion: all of it, or nothing.\<close>

lemma delete_transaction_cases:
  assumes "host_transaction E (delete_rows E i rows) s = (x, s')"
  shows "h_files s' = h_files s \<and> (case x of
      Inl _ \<Rightarrow> h_db s' = h_db s
    | Inr _ \<Rightarrow> hd_next_id (h_db s') = hd_next_id (h_db s) \<and>
        hd_maps (h_db s') = filter (\<lambda>r. \<not> (hm_set_id r = i \<and> hm_server r = Server_private)) (hd_maps (h_db s)) \<and>
        hd_subs (h_db s') = filter (\<lambda>u. su_set_id u \<noteq> i) (hd_subs (h_db s)) \<and>
        hd_scores (h_db s') = filter (\<lambda>r. sr_map_md5 r \<notin> hm_md5 ` set rows) (hd_scores (h_db s)))"
proof (cases x)
  case (Inl e)
  have "keeps (\<lambda>s. h_files s = fs) (bnd (thn (hio E skip) (delete_rows E i rows)) (\<lambda>x. thn (hio E skip) (retn x)))" for fs
    by (intro keeps_bnd keeps_thn keeps_hio keeps_skip keeps_retn keeps_files_delete_rows) (simp_all add: untimed_def)
  then have "h_files (snd (bnd (thn (hio E skip) (delete_rows E i rows)) (\<lambda>x. thn (hio E skip) (retn x)) s)) = h_files s"
    by (simp add: keeps_def)
  then show ?thesis
    using assms Inl by (auto simp: host_transaction_def split: prod.splits sum.splits)
next
  case (Inr v)
  obtain n s1 where b: "delete_rows E i rows (s\<lparr>h_tick := n\<rparr>) = (Inr v, s1)" "\<exists>m. s' = s1\<lparr>h_tick := m\<rparr>"
    using assms unfolding Inr host_transaction_Inr by (auto simp: inv_simps)
  then show ?thesis using delete_rows_Inr [OF b(1)] Inr by auto
qed

lemma delete_hosted_unfold:
  "delete_hosted E i rows = thn (host_transaction E (delete_rows E i rows))
    (thn (foreach rows (\<lambda>r. remove_file E (Osu_file (hm_id r))))
    (thn (remove_file E (Osz_file i)) (evict_beatmap_cache i (map hm_id rows) (map hm_md5 rows))))"
  by (simp add: delete_hosted_def delete_rows_def)

lemma delete_hosted_ok:
  assumes ok: "hosted_ok E s" and rows: "\<forall>r \<in> set rows. r \<in> set (hd_maps (h_db s)) \<and> hm_set_id r = i \<and> hm_server r = Server_private"
  shows "hosted_ok E (snd (delete_hosted E i rows s))"
proof -
  obtain x s1 where t: "host_transaction E (delete_rows E i rows) s = (x, s1)" by fastforce
  note c = delete_transaction_cases [OF t]
  let ?P = "\<lambda>s. hosted_ok E s \<and> set_gone i (hm_id ` set rows) s"
  show ?thesis
  proof (cases x)
    case (Inl e)
    then have "hosted_ok E s1" using c ok by (simp add: hosted_ok_def file_hosted_def archive_hosted_def)
    then show ?thesis using t Inl by (simp add: delete_hosted_unfold thn_def bnd_def)
  next
    case (Inr z)
    then have P: "?P s1" using delete_rows_ok [OF ok _ _ _ _ rows] c by simp
    have "keeps ?P (thn (foreach rows (\<lambda>r. remove_file E (Osu_file (hm_id r))))
        (thn (remove_file E (Osz_file i)) (evict_beatmap_cache i (map hm_id rows) (map hm_md5 rows))))"
      unfolding evict_beatmap_cache_def
      by (intro keeps_thn keeps_foreach remove_gone_ok keeps_modify)
        (auto simp: hosted_ok_def set_gone_def file_hosted_def archive_hosted_def)
    then show ?thesis using P t Inr by (simp add: delete_hosted_unfold thn_def bnd_def keeps_def)
  qed
qed

lemma keeps_ok_delete: "keeps (hosted_ok E) (delete_submission E a i)"
proof -
  have rest: "keeps (hosted_ok E) (bnd (maps_fetch_many E i Server_private) (\<lambda>rows.
      bnd (if is_staff a then retn False else has_foreign_scores E o' (map hm_md5 rows)) (\<lambda>foreign.
        if foreign then retn c else thn (delete_hosted E i rows) (retn c'))))" for o' c c'
  proof -
    let ?P = "\<lambda>rows s. hosted_ok E s \<and> (\<forall>r \<in> set rows. r \<in> set (hd_maps (h_db s)) \<and> hm_set_id r = i \<and> hm_server r = Server_private)"
    have u: "untimed (?P rows)" for rows by (simp add: untimed_def hosted_ok_def file_hosted_def archive_hosted_def)
    have "triple (hosted_ok E) (maps_fetch_many E i Server_private) ?P (hosted_ok E)"
      unfolding maps_fetch_many_def hget_def by (intro triple_hio triple_gets) auto
    moreover have "triple (?P rows) (if is_staff a then retn False else has_foreign_scores E o' (map hm_md5 rows)) (\<lambda>_. ?P rows) (hosted_ok E)" for rows
      by (rule triple_keeps [of "?P rows"]) (auto intro!: keeps_intros u)
    moreover have "triple (?P rows) (if foreign then retn c else thn (delete_hosted E i rows) (retn c')) (\<lambda>_. hosted_ok E) (hosted_ok E)" for rows foreign
      using delete_hosted_ok [of E _ rows i]
      by (fastforce simp: triple_def op_defs split: prod.splits sum.splits)
    ultimately show ?thesis unfolding keeps_triple by (intro triple_bnd)
  qed
  show ?thesis
    unfolding delete_submission_def
    by (rule keeps_bnd) (intro keeps_subs_fetch_one untimed_hosted_ok, intro rest keeps_option keeps_if keeps_retn)
qed

lemma refresh_ok:
  assumes "hosted_ok E s" "list_all (\<lambda>r. hm_server r = Server_osu) rows"
  shows "hosted_ok E (s\<lparr>h_db := save_to_sql rows (h_db s)\<rparr>)"
  using assms
proof (induction rows arbitrary: s)
  case (Cons r rows)
  have "hosted_ok E (s\<lparr>h_db := replace_into_maps r (h_db s)\<rparr>)"
    using Cons.prems by (auto simp: hosted_ok_def replace_into_maps_def file_hosted_def archive_hosted_def distinct_map_filter)
  from Cons.IH [OF this] Cons.prems(2) show ?case by (simp add: save_to_sql_def)
qed (simp add: save_to_sql_def)

lemma host_step_ok: "hosted_ok E s \<Longrightarrow> hosted_ok E (host_step E x s)"
  by (cases x) (auto intro: keeps_exec keeps_ok_submit keeps_ok_update keeps_ok_delete refresh_ok simp: list_all_iff)

lemma host_run_ok: "hosted_ok E s \<Longrightarrow> hosted_ok E (host_run E ops s)"
  by (induction ops arbitrary: s) (simp_all add: host_run_def host_step_ok)

text \<open>C14. In every history that starts without maps, whatever fails and even when the process dies,
  ids and checksums are distinct, the id of a hosted map is in the private range, its file is on
  disk with the checksum of the row, and its set has a submission whose archive is on disk.
\<close>

theorem hosted_maps_have_files:
  assumes "fresh_host s" and "s' = host_run E ops s"
  shows "distinct (map hm_id (hd_maps (h_db s'))) \<and> distinct (map hm_md5 (hd_maps (h_db s'))) \<and>
    (\<forall>r. r \<in> set (hd_maps (h_db s')) \<and> hm_server r = Server_private \<longrightarrow>
       PRIVATE_BEATMAP_ID_FLOOR \<le> hm_id r \<and>
       (\<exists>data. h_files s' (Osu_file (hm_id r)) = Some data \<and> ue_md5 E data = hm_md5 r) \<and>
       (\<exists>u a. u \<in> set (hd_subs (h_db s')) \<and> su_set_id u = hm_set_id r \<and>
          h_files s' (Osz_file (hm_set_id r)) = Some a \<and> ue_sha256 E a = su_osz_sha256 u))"
proof -
  have "hosted_ok E s" using assms(1) by (simp add: hosted_ok_def fresh_host_def)
  from host_run_ok [OF this] have ok: "hosted_ok E s'" by (simp add: assms(2))
  have "\<exists>u a. u \<in> set (hd_subs (h_db s')) \<and> su_set_id u = hm_set_id r \<and>
      h_files s' (Osz_file (hm_set_id r)) = Some a \<and> ue_sha256 E a = su_osz_sha256 u"
    if r: "r \<in> set (hd_maps (h_db s'))" "hm_server r = Server_private" for r
  proof -
    obtain u where u: "u \<in> set (hd_subs (h_db s'))" "hm_set_id r = su_set_id u"
      using ok r unfolding hosted_ok_def by blast
    then have "archive_hosted E s' u" using ok by (simp add: hosted_ok_def)
    then show ?thesis using u by (auto simp: archive_hosted_def)
  qed
  then show ?thesis using ok unfolding hosted_ok_def file_hosted_def by blast
qed

section \<open>Scores of other players\<close>

lemma filter_same_length: "length (filter p xs) = length xs \<Longrightarrow> x \<in> set xs \<Longrightarrow> p x"
  using length_filter_less [of x xs p] by auto

lemma has_foreign_scores_False:
  "has_foreign_scores E w ms s = (Inr False, s') \<Longrightarrow> r \<in> set (hd_scores (h_db s)) \<Longrightarrow> sr_map_md5 r \<in> set ms \<Longrightarrow> sr_userid r = w"
proof (induction ms arbitrary: s)
  case (Cons m ms)
  let ?all = "filter (\<lambda>r. sr_map_md5 r = m) (hd_scores (h_db s))"
  let ?own = "filter (\<lambda>r. sr_map_md5 r = m \<and> sr_userid r = w) (hd_scores (h_db s))"
  obtain s1 where s1: "has_foreign_scores E w ms s1 = (Inr False, s')" "h_db s1 = h_db s" "\<not> length ?all > length ?own"
    using Cons.prems(1) by (auto simp: inv_simps scores_fetch_count_def split: if_splits)
  have own: "filter (\<lambda>r. sr_userid r = w) ?all = ?own" by (simp add: conj_commute)
  have "length (filter (\<lambda>r. sr_userid r = w) ?all) \<le> length ?all" by (rule length_filter_le)
  then have eq: "length (filter (\<lambda>r. sr_userid r = w) ?all) = length ?all" using s1(3) unfolding own by (rule le_antisym [OF _ leI])
  show ?case
  proof (cases "sr_map_md5 r = m")
    case True
    then have "r \<in> set ?all" using Cons.prems(2) by simp
    then show ?thesis using filter_same_length [OF eq] by simp
  next
    case False
    then show ?thesis using Cons.IH [OF s1(1)] Cons.prems(2,3) s1(2) by simp
  qed
qed simp

definition has_score :: "score_row \<Rightarrow> hosting \<Rightarrow> bool" where
  "has_score r s \<longleftrightarrow> r \<in> set (hd_scores (h_db s))"

lemma untimed_has_score [simp]: "untimed (has_score r)"
  by (simp add: untimed_def has_score_def)

lemma triple_delete_hosted_scores:
  assumes "sr_map_md5 r \<notin> hm_md5 ` set rows"
  shows "keeps (has_score r) (delete_hosted E i rows)"
proof -
  have "keeps (has_score r) (host_transaction E (delete_rows E i rows))"
    unfolding keeps_def
  proof (intro allI impI)
    fix s assume s: "has_score r s"
    obtain x s1 where t: "host_transaction E (delete_rows E i rows) s = (x, s1)" by fastforce
    show "has_score r (snd (host_transaction E (delete_rows E i rows) s))"
      using delete_transaction_cases [OF t] s assms t by (cases x) (simp_all add: has_score_def)
  qed
  then show ?thesis
    unfolding delete_hosted_unfold remove_file_def put_file_def evict_beatmap_cache_def
    by (intro keeps_thn keeps_foreach keeps_hio keeps_modify) (simp_all add: has_score_def)
qed

lemma foreign_seen:
  assumes "sr_userid r \<noteq> owner"
  shows "triple (has_score r) (has_foreign_scores E owner ms)
      (\<lambda>f s. has_score r s \<and> (\<not> f \<longrightarrow> sr_map_md5 r \<notin> set ms)) (has_score r)"
  unfolding triple_outcome
proof (intro allI impI)
  fix s x s' assume s: "has_score r s" and run: "has_foreign_scores E owner ms s = (x, s')"
  have "has_score r s'" by (rule keepsD [of "has_score r", OF keeps_has_foreign_scores s run]) simp
  then show "case x of Inr f \<Rightarrow> has_score r s' \<and> (\<not> f \<longrightarrow> sr_map_md5 r \<notin> set ms) | Inl e \<Rightarrow> has_score r s'"
    using has_foreign_scores_False [of E owner ms s s' r] run s assms
    by (cases x) (auto simp: has_score_def)
qed

text \<open>C21. A deletion by a player who is not staff, whatever its outcome, leaves the scores of every
  other player in the table.
\<close>

theorem delete_spares_foreign_scores:
  assumes "\<not> is_staff actor" and "r \<in> set (hd_scores (h_db s))" and "sr_userid r \<noteq> uu_id actor"
  shows "r \<in> set (hd_scores (h_db (snd (delete_submission E actor set_id s))))"
proof -
  have delete: "triple (\<lambda>s. has_score r s \<and> (\<not> f \<longrightarrow> sr_map_md5 r \<notin> set (map hm_md5 rows)))
      (if f then retn c else thn (delete_hosted E set_id rows) (retn c')) (\<lambda>_. has_score r) (has_score r)" for f rows c c'
  proof (cases "f \<or> sr_map_md5 r \<in> set (map hm_md5 rows)")
    case True
    then show ?thesis by (auto simp: triple_def retn_def)
  next
    case False
    then have "keeps (has_score r) (thn (delete_hosted E set_id rows) (retn c'))"
      by (intro keeps_thn triple_delete_hosted_scores keeps_retn) simp
    then show ?thesis using False by (auto simp: keeps_triple triple_def)
  qed
  have rows: "keeps (has_score r) (bnd (maps_fetch_many E set_id Server_private) (\<lambda>rows.
      bnd (has_foreign_scores E (uu_id actor) (map hm_md5 rows)) (\<lambda>f.
        if f then retn c else thn (delete_hosted E set_id rows) (retn c'))))" for c c'
    by (rule keeps_bnd, rule keeps_maps_fetch_many, simp, unfold keeps_triple) (rule triple_bnd [OF foreign_seen [OF assms(3)] delete])
  have "keeps (has_score r) (delete_submission E actor set_id)"
    unfolding delete_submission_def
  proof (rule keeps_bnd)
    fix v
    show "keeps (has_score r) (case v of None \<Rightarrow> retn (just_code NOT_FOUND) | Some u \<Rightarrow>
        if \<not> may_view (Some actor) u then retn (just_code NOT_FOUND)
        else if \<not> (is_staff actor \<or> su_user u = uu_id actor) then retn (just_code FORBIDDEN)
        else bnd (maps_fetch_many E set_id Server_private) (\<lambda>rows.
             bnd (if is_staff actor then retn False else has_foreign_scores E (su_user u) (map hm_md5 rows)) (\<lambda>foreign.
               if foreign then retn (just_code HAS_FOREIGN_SCORES)
               else thn (delete_hosted E set_id rows) (retn \<lparr>rs_code = DELETED, rs_submission = Some u, rs_difficulties = []\<rparr>))))"
      using assms(1) rows by (auto intro!: keeps_retn split: option.split)
  qed (intro keeps_subs_fetch_one untimed_has_score)
  then show ?thesis using assms(2) by (simp add: keeps_def has_score_def)
qed

end
