(* ===== verification/Rewriting.thy ===== *)
theory Rewriting
  imports OsuFile
begin

text \<open>
  Rewriting the identity of a beatmap file: the metadata section gets the ids and the creator the
  server assigns, and a file that is parsed after the rewriting reads as before but for these keys.
  The proof goes through the lines: what a stripped line sets, which values the rewritten body
  gives, how a section of the file depends on its own lines only, and how the text splits back
  into the lines that were joined. The last section runs it on a small map.
\<close>

section \<open>Stripped strings\<close>

definition spaces :: "pystr \<Rightarrow> bool" where
  "spaces s \<longleftrightarrow> (\<forall>c \<in> set s. is_space c)"

lemma spaces_simps [simp]: "spaces []" "spaces (c # s) \<longleftrightarrow> is_space c \<and> spaces s" "spaces (s @ t) \<longleftrightarrow> spaces s \<and> spaces t"
  "spaces (rev s) = spaces s"
  by (auto simp: spaces_def)

lemma dropWhile_spaces: "spaces a \<Longrightarrow> dropWhile is_space (a @ s) = dropWhile is_space s"
  by (induction a) simp_all

lemma strip_left: "spaces a \<Longrightarrow> strip (a @ s) = strip s"
  by (simp add: strip_def dropWhile_spaces)

lemma strip_right: "spaces b \<Longrightarrow> strip (s @ b) = strip s"
proof (induction s)
  case Nil
  then show ?case using strip_left [of b "[]"] by simp
next
  case (Cons c s)
  then show ?case by (simp add: strip_def dropWhile_spaces)
qed

lemma strip_split: "\<exists>a b. spaces a \<and> spaces b \<and> s = a @ strip s @ b"
proof -
  define t where "t = dropWhile is_space s"
  have "s = takeWhile is_space s @ t" "spaces (takeWhile is_space s)"
    by (auto simp: t_def spaces_def dest: set_takeWhileD)
  moreover have "rev t = takeWhile is_space (rev t) @ rev (strip s)" "spaces (takeWhile is_space (rev t))"
    by (auto simp: t_def strip_def spaces_def dest: set_takeWhileD)
  then have "t = strip s @ rev (takeWhile is_space (rev t))" by (metis rev_append rev_rev_ident)
  ultimately show ?thesis by (metis spaces_simps(4) \<open>spaces (takeWhile is_space (rev t))\<close>)
qed

lemma strip_strip [simp]: "strip (strip s) = strip s"
  using strip_split [of s] strip_left strip_right by metis

lemma strip_none: "(\<forall>c \<in> set s. \<not> is_space c) \<Longrightarrow> strip s = s"
proof -
  have d: "(\<forall>c \<in> set t. \<not> is_space c) \<Longrightarrow> dropWhile is_space t = t" for t by (cases t) simp_all
  assume "\<forall>c \<in> set s. \<not> is_space c"
  then show ?thesis using d [of s] d [of "rev s"] by (simp add: strip_def)
qed

lemma strip_front: "c # s \<noteq> [] \<Longrightarrow> \<not> is_space c \<Longrightarrow> \<exists>t. strip (c # s) = c # t"
proof -
  assume c: "\<not> is_space c"
  obtain a b where ab: "spaces a" "spaces b" "c # s = a @ strip (c # s) @ b" using strip_split by blast
  then have "a = []" using c by (cases a) auto
  then show ?thesis using ab c by (cases "strip (c # s)") auto
qed

section \<open>Colons\<close>

lemma find_colon: "58 \<notin> set k \<Longrightarrow> find_index (\<lambda>c. c = 58) (k @ 58 # v) = Some (length k)"
  by (induction k) auto

lemma first_colon: "k @ 58 # v = k' @ 58 # v' \<Longrightarrow> 58 \<notin> set k \<Longrightarrow> 58 \<notin> set k' \<Longrightarrow> k = k' \<and> v = v'"
  using find_colon [of k v] find_colon [of k' v'] by auto

lemma colon_no_space [simp]: "\<not> is_space 58"
  by (simp add: is_space_def)

lemma spaces_no_colon: "spaces a \<Longrightarrow> \<forall>x \<in> set a. x \<noteq> 58"
  by (auto simp: spaces_def)

lemma partition_colon_app: "58 \<notin> set k \<Longrightarrow> partition_colon (k @ 58 # v) = Some (k, v)"
  by (simp add: partition_colon_def find_colon)

lemma partition_colon_None: "partition_colon s = None \<longleftrightarrow> 58 \<notin> set s"
  by (auto simp: partition_colon_def find_index_None_iff)

lemma split_colon: "58 \<in> set s \<Longrightarrow> \<exists>k v. s = k @ 58 # v \<and> 58 \<notin> set k"
  by (metis split_list_first)

lemma line_key_app: "58 \<notin> set k \<Longrightarrow> line_key (k @ 58 # v) = strip k"
  using find_colon [of k v] by (simp add: line_key_def numeral_eq_Suc)

lemma key_of_stripped:
  assumes "58 \<in> set s"
  shows "\<exists>k v. partition_colon (strip s) = Some (k, v) \<and> strip k = line_key s"
proof -
  obtain k v where s: "s = k @ 58 # v" "58 \<notin> set k" using split_colon [OF assms] by blast
  obtain a b where ab: "spaces a" "spaces b" "s = a @ strip s @ b" using strip_split by blast
  have "58 \<in> set (strip s)" using assms ab spaces_no_colon by (metis Un_iff set_append)
  then obtain k' v' where t: "strip s = k' @ 58 # v'" "58 \<notin> set k'" using split_colon by blast
  have "k @ 58 # v = (a @ k') @ 58 # (v' @ b)" using s ab t by simp
  moreover have "58 \<notin> set (a @ k')" using t(2) spaces_no_colon [OF ab(1)] by auto
  ultimately have "k = a @ k'" using first_colon s(2) by blast
  then have "strip k = strip k'" using strip_left [OF ab(1)] by simp
  then show ?thesis using partition_colon_app [OF t(2)] t line_key_app [OF s(2)] s(1) by auto
qed

section \<open>Values of a section\<close>

definition kept :: "pystr \<Rightarrow> bool" where
  "kept l \<longleftrightarrow> strip l \<noteq> [] \<and> \<not> starts_with (strip l) [47, 47]"

definition body_lines :: "pystr list \<Rightarrow> pystr list" where
  "body_lines ls = map strip (filter kept ls)"

lemma body_lines_app: "body_lines (xs @ ys) = body_lines xs @ body_lines ys"
  by (simp add: body_lines_def)

definition kv_step :: "pystr \<Rightarrow> (pystr \<Rightarrow> pystr option) \<Rightarrow> pystr \<Rightarrow> pystr option" where
  "kv_step line values =
     (case partition_colon line of None \<Rightarrow> values | Some (k, v) \<Rightarrow> values(strip k := Some (strip v)))"

lemma key_values_snoc: "parse_key_values (xs @ [l]) = kv_step l (parse_key_values xs)"
  by (simp add: parse_key_values_def kv_step_def)

text \<open>A line only sets its own key.\<close>

lemma kv_step_other: "k \<noteq> line_key l \<Longrightarrow> kv_step (strip l) f k = f k"
proof (cases "58 \<in> set l")
  case True
  moreover assume "k \<noteq> line_key l"
  ultimately show ?thesis using key_of_stripped [OF True] by (auto simp: kv_step_def)
next
  case False
  then have "58 \<notin> set (strip l)" using strip_split [of l] by (metis Un_iff set_append)
  then have "partition_colon (strip l) = None" by (simp add: partition_colon_None)
  then show ?thesis by (simp add: kv_step_def)
qed

text \<open>A key the rewriting sets: a word that starts with a letter and has no colon and no space.\<close>

definition plain_key :: "pystr \<Rightarrow> bool" where
  "plain_key k \<longleftrightarrow> k \<noteq> [] \<and> 58 \<notin> set k \<and> (\<forall>c \<in> set k. \<not> is_space c) \<and> hd k \<noteq> 47 \<and> hd k \<noteq> 91"

lemma plain_line:
  assumes k: "plain_key k"
  shows "kept (k @ 58 # v)" "section_name (strip (k @ 58 # v)) = None" "line_key (k @ 58 # v) = k"
    "kv_step (strip (k @ 58 # v)) f k = Some (strip v)"
proof -
  obtain c r where kc: "k = c # r" "\<not> is_space c" "c \<noteq> 47" "c \<noteq> 91" using k by (cases k) (auto simp: plain_key_def)
  have nc: "58 \<notin> set k" and sk: "strip k = k" using k strip_none by (auto simp: plain_key_def)
  obtain t where t: "strip (k @ 58 # v) = c # t" using strip_front [of c "r @ 58 # v"] kc by auto
  then show "kept (k @ 58 # v)" "section_name (strip (k @ 58 # v)) = None"
    using kc by (auto simp: kept_def starts_with_def section_name_def)
  show "line_key (k @ 58 # v) = k" by (simp add: line_key_app [OF nc] sk)
  obtain a b where ab: "spaces a" "spaces b" "k @ 58 # v = a @ strip (k @ 58 # v) @ b" using strip_split by blast
  have "a = []" using ab(1,3) kc by (cases a) auto
  then have eq: "k @ 58 # v = strip (k @ 58 # v) @ b" using ab by simp
  have "58 \<in> set (strip (k @ 58 # v) @ b)" unfolding eq [symmetric] by simp
  then have "58 \<in> set (strip (k @ 58 # v))" using spaces_no_colon [OF ab(2)] by auto
  then obtain k' v' where s: "strip (k @ 58 # v) = k' @ 58 # v'" "58 \<notin> set k'" using split_colon by blast
  have "k @ 58 # v = k' @ 58 # (v' @ b)" using eq s by simp
  from first_colon [OF this nc s(2)] have "k' = k" "v = v' @ b" by simp_all
  then show "kv_step (strip (k @ 58 # v)) f k = Some (strip v)"
    using s partition_colon_app [OF s(2)] sk strip_right [OF ab(2), of v'] by (simp add: kv_step_def)
qed

text \<open>\<open>keyed keys seen f g\<close>: \<open>g\<close> is \<open>f\<close> with the seen keys set.\<close>

definition keyed :: "(pystr \<times> pystr) list \<Rightarrow> pystr set \<Rightarrow> (pystr \<Rightarrow> pystr option) \<Rightarrow> (pystr \<Rightarrow> pystr option) \<Rightarrow> bool" where
  "keyed keys seen f g \<longleftrightarrow> (\<forall>k. case map_of keys k of None \<Rightarrow> g k = f k | Some v \<Rightarrow> k \<in> seen \<longrightarrow> g k = Some (strip v))"

lemma rewritten_values:
  assumes keys: "\<And>k v. map_of keys k = Some v \<Longrightarrow> plain_key k"
  shows "keyed keys (line_key ` set body) (parse_key_values (body_lines body))
           (parse_key_values (body_lines (map (rewrite_line keys) body)))"
proof (induction body rule: rev_induct)
  case Nil
  then show ?case by (simp add: keyed_def split: option.split)
next
  case (snoc l body)
  let ?f = "parse_key_values (body_lines (map (rewrite_line keys) body))"
  let ?g = "parse_key_values (body_lines body)"
  show ?case
  proof (cases "map_of keys (line_key l)")
    case None
    then have l: "rewrite_line keys l = l" by (simp add: rewrite_line_def)
    have new: "parse_key_values (body_lines (map (rewrite_line keys) (body @ [l]))) = (if kept l then kv_step (strip l) ?f else ?f)"
      "parse_key_values (body_lines (body @ [l])) = (if kept l then kv_step (strip l) ?g else ?g)"
      using l by (simp_all add: body_lines_def key_values_snoc)
    have same: "?f k = ?g k \<Longrightarrow> kv_step (strip l) ?f k = kv_step (strip l) ?g k" for k
      by (auto simp: kv_step_def split: option.splits)
    show ?thesis
      unfolding new keyed_def
    proof
      fix k
      show "case map_of keys k of None \<Rightarrow> (if kept l then kv_step (strip l) ?f else ?f) k = (if kept l then kv_step (strip l) ?g else ?g) k
          | Some v' \<Rightarrow> k \<in> line_key ` set (body @ [l]) \<longrightarrow> (if kept l then kv_step (strip l) ?f else ?f) k = Some (strip v')"
        using snoc [unfolded keyed_def, rule_format, of k] same [of k] kv_step_other [of k l ?f] None
        by (cases "k = line_key l") (simp_all split: option.splits)
    qed
  next
    case (Some v)
    have p: "plain_key (line_key l)" using keys [OF Some] .
    have l: "rewrite_line keys l = line_key l @ 58 # v" using Some by (simp add: rewrite_line_def)
    have new: "parse_key_values (body_lines (map (rewrite_line keys) (body @ [l]))) = kv_step (strip (line_key l @ 58 # v)) ?f"
      "parse_key_values (body_lines (body @ [l])) = (if kept l then kv_step (strip l) ?g else ?g)"
      using plain_line(1) [OF p, of v] by (simp_all add: body_lines_def key_values_snoc l)
    have other: "kv_step (strip (line_key l @ 58 # v)) ?f k = ?f k" "kv_step (strip l) ?g k = ?g k" if "k \<noteq> line_key l" for k
      using that kv_step_other plain_line(3) [OF p, of v] by auto
    show ?thesis
      unfolding new keyed_def
    proof
      fix k
      show "case map_of keys k of None \<Rightarrow> kv_step (strip (line_key l @ 58 # v)) ?f k = (if kept l then kv_step (strip l) ?g else ?g) k
          | Some v' \<Rightarrow> k \<in> line_key ` set (body @ [l]) \<longrightarrow> kv_step (strip (line_key l @ 58 # v)) ?f k = Some (strip v')"
      proof (cases "k = line_key l")
        case True
        then show ?thesis using Some plain_line(4) [OF p, of v ?f] by simp
      next
        case False
        then show ?thesis using snoc [unfolded keyed_def, rule_format, of k] other [OF False] by (simp split: option.splits)
      qed
    qed
  qed
qed

section \<open>The sections of a rewritten file\<close>

definition is_section :: "pystr \<Rightarrow> pystr \<Rightarrow> bool" where
  "is_section n l \<longleftrightarrow> section_name (strip l) = Some n"

lemma section_header: "n \<noteq> [] \<Longrightarrow> 93 \<notin> set n \<Longrightarrow> strip l = [91] @ n @ [93] \<Longrightarrow> is_section n l"
  by (simp add: is_section_def section_name_def)

lemma section_header_conv: "is_section n l \<Longrightarrow> strip l = [91] @ n @ [93]"
  by (cases "strip l") (auto simp: is_section_def section_name_def split: if_splits dest: append_butlast_last_id)

lemma section_not_blank: "is_section n l \<Longrightarrow> kept l"
  by (drule section_header_conv) (simp add: kept_def starts_with_def)

lemma section_line_unfold:
  "section_line l (s, c) =
     (if \<not> kept l then (s, c)
      else case section_name (strip l) of
             Some n \<Rightarrow> (if s n = None then s(n := Some []) else s, Some n)
           | None \<Rightarrow> (case c of None \<Rightarrow> (s, c) | Some n \<Rightarrow> (s(n := map_option (\<lambda>ls. ls @ [strip l]) (s n)), c)))"
  by (auto simp: section_line_def kept_def Let_def split: option.splits)

text \<open>A section that is not current and does not come again stays as it is.\<close>

lemma section_line_frame:
  assumes "c \<noteq> Some m" "\<not> is_section m l"
  shows "section_line l (s(m := x), c) = (let (s', c') = section_line l (s, c) in (s'(m := x), c')) \<and>
    snd (section_line l (s, c)) \<noteq> Some m"
  using assms by (auto simp: section_line_unfold is_section_def fun_upd_twist Let_def split: option.splits)

lemma section_lines_frame:
  assumes "c \<noteq> Some m" "\<forall>l \<in> set ls. \<not> is_section m l"
  shows "fold section_line ls (s(m := x), c) = (let (s', c') = fold section_line ls (s, c) in (s'(m := x), c')) \<and>
    snd (fold section_line ls (s, c)) \<noteq> Some m"
  using assms
proof (induction ls arbitrary: s c)
  case (Cons l ls)
  obtain s' c' where l: "section_line l (s, c) = (s', c')" by fastforce
  have "c' \<noteq> Some m" and u: "section_line l (s(m := x), c) = (s'(m := x), c')"
    using section_line_frame [of c m l s x] Cons.prems l by auto
  moreover have "\<forall>l \<in> set ls. \<not> is_section m l" using Cons.prems(2) by simp
  ultimately show ?case
    unfolding fold.simps o_apply l u using Cons.IH by blast
qed simp

lemma section_body:
  "\<forall>l \<in> set ls. section_name (strip l) = None \<Longrightarrow>
   fold section_line ls (s(m := Some x), Some m) = (s(m := Some (x @ body_lines ls)), Some m)"
proof (induction ls arbitrary: x)
  case (Cons l ls)
  have l: "section_line l (s(m := Some x), Some m) = (s(m := Some (x @ body_lines [l])), Some m)"
    using Cons.prems by (auto simp: section_line_unfold body_lines_def)
  have ls: "\<forall>l \<in> set ls. section_name (strip l) = None" using Cons.prems by simp
  have app: "x @ body_lines (l # ls) = (x @ body_lines [l]) @ body_lines ls" using body_lines_app [of "[l]" ls] by simp
  show ?case
    unfolding fold.simps o_apply l app by (rule Cons.IH [OF ls])
qed (simp add: body_lines_def)

text \<open>A file with one section \<open>m\<close>: what comes before it, its header, its body, what follows.\<close>

lemma one_section:
  assumes pre: "\<forall>l \<in> set pre. \<not> is_section m l" and hdr: "is_section m hdr"
    and body: "\<forall>l \<in> set body. section_name (strip l) = None"
    and rest: "\<forall>l \<in> set rest. \<not> is_section m l" "rest = [] \<or> section_name (strip (hd rest)) \<noteq> None"
  shows "split_sections (pre @ hdr # body @ rest) =
    (split_sections (pre @ hdr # rest))(m := Some (body_lines body))"
proof -
  obtain s c where sc: "fold section_line pre (\<lambda>_. None, None) = (s, c)" by fastforce
  have m: "s m = None"
  proof -
    have "fold section_line pre ((\<lambda>_. None)(m := None), None) = (let (s', c') = fold section_line pre (\<lambda>_. None, None) in (s'(m := None), c'))"
      using section_lines_frame [OF _ pre, of None "\<lambda>_. None" None] by simp
    then have "(s, c) = (s(m := None), c)" using sc by (simp add: fun_upd_idem)
    then show ?thesis by (metis fun_upd_same prod.inject)
  qed
  have h: "section_line hdr (s, c) = (s(m := Some []), Some m)"
    using hdr section_not_blank [OF hdr] m by (simp add: section_line_unfold is_section_def)
  have b: "fold section_line body (s(m := Some []), Some m) = (s(m := Some (body_lines body)), Some m)"
    using section_body [OF body, of s m "[]"] by simp
  have r: "fst (fold section_line rest (s(m := Some x), Some m)) = (fst (fold section_line rest (s(m := Some []), Some m)))(m := Some x)" for x
  proof (cases rest)
    case Nil
    then show ?thesis by simp
  next
    case (Cons l ls)
    then obtain n where n: "is_section n l" using rest(2) by (auto simp: is_section_def)
    have "n \<noteq> m" using n rest(1) Cons by (auto simp: is_section_def)
    have one: "section_line l (s(m := Some x), Some m) = ((if s n = None then s(n := Some []) else s)(m := Some x), Some n)" for x
      using n section_not_blank [OF n] \<open>n \<noteq> m\<close> by (auto simp: section_line_unfold is_section_def fun_upd_twist)
    have ls: "\<forall>l \<in> set ls. \<not> is_section m l" using rest(1) Cons by simp
    show ?thesis
      using \<open>n \<noteq> m\<close> section_lines_frame [OF _ ls, of "Some n" "if s n = None then s(n := Some []) else s" "Some x"]
        section_lines_frame [OF _ ls, of "Some n" "if s n = None then s(n := Some []) else s" "Some []"]
      by (simp add: Cons one Let_def case_prod_unfold)
  qed
  show ?thesis
    unfolding split_sections_def using r [of "body_lines body"] by (simp add: sc h b)
qed

section \<open>Lines\<close>

definition one_line :: "pystr \<Rightarrow> bool" where
  "one_line s \<longleftrightarrow> (\<forall>c \<in> set s. \<not> line_break c)"

lemma takeWhile_line: "one_line w \<Longrightarrow> line_break c \<Longrightarrow> takeWhile (\<lambda>c. \<not> line_break c) (w @ c # t) = w"
  "one_line w \<Longrightarrow> line_break c \<Longrightarrow> dropWhile (\<lambda>c. \<not> line_break c) (w @ c # t) = c # t"
  by (auto simp: one_line_def takeWhile_tail)

lemma splitlines_nil [simp]: "splitlines [] = []"
  by (simp add: splitlines.simps)

lemma splitlines_one:
  assumes "one_line w" "w \<noteq> []"
  shows "splitlines w = [w]"
proof -
  have w: "takeWhile (\<lambda>c. \<not> line_break c) w = w" "dropWhile (\<lambda>c. \<not> line_break c) w = []"
    using assms(1) by (auto simp: one_line_def takeWhile_eq_all_conv dropWhile_eq_Nil_conv)
  show ?thesis unfolding splitlines.simps [of w] w using assms(2) by simp
qed

lemma break_10_13: "line_break 10" "line_break 13"
  by (simp_all add: line_break_def)

lemma splitlines_cons:
  assumes w: "one_line w" and nl: "nl \<in> {[10], [13, 10]}"
  shows "splitlines (w @ nl @ t) = w # splitlines t"
proof -
  consider "nl = [10]" | "nl = [13, 10]" using nl by blast
  then show ?thesis
  proof cases
    case 1
    then show ?thesis
      using takeWhile_line [OF w break_10_13(1), of t] by (subst splitlines.simps) simp
  next
    case 2
    then show ?thesis
      using takeWhile_line [OF w break_10_13(2), of "10 # t"] by (subst splitlines.simps) (simp add: starts_with_def)
  qed
qed

lemma splitlines_lines: "l \<in> set (splitlines s) \<Longrightarrow> one_line l"
proof (induction s rule: splitlines.induct)
  case (1 s)
  let ?p = "\<lambda>c. \<not> line_break c"
  have first: "one_line (takeWhile ?p s)" by (auto simp: one_line_def dest: set_takeWhileD)
  show ?case
  proof (cases "s = []")
    case False
    then show ?thesis
      using 1 first by (cases "dropWhile ?p s") (auto simp: splitlines.simps [of s])
  qed (use 1 in simp)
qed

lemma join_cons: "join_str nl (w # v # ws) = w @ nl @ join_str nl (v # ws)"
  by (simp add: join_str_def)

lemma splitlines_join:
  assumes "\<forall>w \<in> set ws. one_line w" "nl \<in> {[10], [13, 10]}" "ws \<noteq> []"
  shows "splitlines (join_str nl ws) = (if last ws = [] then butlast ws else ws)"
    "splitlines (join_str nl ws @ nl) = ws"
proof -
  show "splitlines (join_str nl ws) = (if last ws = [] then butlast ws else ws)"
    using assms
  proof (induction ws rule: induct_list012)
    case (2 w)
    then show ?case using splitlines_one [of w] by (auto simp: join_str_def)
  next
    case (3 w v ws)
    then show ?case by (simp add: join_cons splitlines_cons)
  qed simp
  show "splitlines (join_str nl ws @ nl) = ws"
    using assms
  proof (induction ws rule: induct_list012)
    case (2 w)
    then show ?case using splitlines_cons [of w nl "[]"] by (simp add: join_str_def)
  next
    case (3 w v ws)
    then show ?case by (simp add: join_cons splitlines_cons)
  qed simp
qed

section \<open>The file that comes out\<close>

lemma blank_lines_end:
  "strip l = [] \<Longrightarrow> parse_format_version dv (ls @ [l]) = parse_format_version dv ls"
  "strip l = [] \<Longrightarrow> split_sections (ls @ [l]) = split_sections ls"
  by (induction ls) (simp_all add: split_sections_def section_line_def split: prod.split)

lemma first_line:
  "strip h \<noteq> [] \<Longrightarrow> parse_format_version dv (pre @ h # xs) = parse_format_version dv (pre @ h # ys)"
  by (induction pre) simp_all

text \<open>The identity of a file: the three keys get one line each, and every one of them is set.\<close>

lemma str_int_range: "c \<in> set (str_int n) \<Longrightarrow> c = 45 \<or> 48 \<le> c \<and> c \<le> 57"
  using nat_digits_ascii [of c] by (force simp: str_int_def split: if_splits)

lemma str_int_line: "one_line (str_int n)" "strip (str_int n) = str_int n"
  using str_int_range [of _ n] by (force simp: one_line_def line_break_def) (rule strip_none, force simp: is_space_def dest: str_int_range)

lemma identity_plain: "map_of (identity_keys b s c) k = Some v \<Longrightarrow> plain_key k \<and> one_line k"
  by (auto simp: identity_keys_def plain_key_def one_line_def line_break_def is_space_def py_def split: if_splits)

lemma identity_map_of:
  "map_of (identity_keys b s c) =
     [py ''BeatmapID'' \<mapsto> str_int b, py ''BeatmapSetID'' \<mapsto> str_int s, py ''Creator'' \<mapsto> c]"
  by (auto simp: identity_keys_def py_def fun_eq_iff)

lemma identity_distinct: "distinct (map fst (identity_keys b s c))"
  by (simp add: identity_keys_def py_def)

lemma missing_values:
  assumes "list_all plain_key (map fst kvs)" "distinct (map fst kvs)"
  shows "parse_key_values (xs @ body_lines (map (\<lambda>(k, v). k @ [58] @ v) kvs)) k =
    (case map_of kvs k of Some v \<Rightarrow> Some (strip v) | None \<Rightarrow> parse_key_values xs k)"
  using assms
proof (induction kvs arbitrary: xs)
  case (Cons p kvs)
  obtain a v where p: "p = (a, v)" by fastforce
  have a: "plain_key a" using Cons.prems(1) p by auto
  have new: "body_lines (map (\<lambda>(k, v). k @ [58] @ v) (p # kvs)) =
      strip (a @ 58 # v) # body_lines (map (\<lambda>(k, v). k @ [58] @ v) kvs)"
    using plain_line(1) [OF a, of v] by (simp add: body_lines_def p)
  have "parse_key_values (xs @ body_lines (map (\<lambda>(k, v). k @ [58] @ v) (p # kvs))) k =
      (case map_of kvs k of Some v \<Rightarrow> Some (strip v) | None \<Rightarrow> kv_step (strip (a @ 58 # v)) (parse_key_values xs) k)"
    unfolding new using Cons.IH [of "xs @ [strip (a @ 58 # v)]", unfolded key_values_snoc] Cons.prems by simp
  moreover have "a \<notin> fst ` set kvs" using Cons.prems(2) p by simp
  then have "map_of kvs a = None" by (simp add: map_of_eq_None_iff)
  ultimately show ?case
    using plain_line(4) [OF a, of v "parse_key_values xs"] kv_step_other [of k "a @ 58 # v" "parse_key_values xs"] plain_line(3) [OF a, of v]
    by (cases "k = a") (simp_all only: p map_of.simps fun_upd_apply option.case fst_conv snd_conv if_True if_False simp_thms)
qed (simp add: body_lines_def)
text \<open>The parts of a file with a metadata section, before and after.\<close>

lemma rewrite_lines_shape:
  assumes "rewrite_lines keys lines = Inr ls"
  obtains pre hdr body rest missing where
    "lines = pre @ hdr # body @ rest" "ls = pre @ hdr # (map (rewrite_line keys) body @ map (\<lambda>(k, v). k @ [58] @ v) missing) @ rest"
    "missing = filter (\<lambda>(k, _). k \<notin> line_key ` set body) keys"
    "\<forall>l \<in> set pre. \<not> is_section (py ''Metadata'') l" "is_section (py ''Metadata'') hdr"
    "\<forall>l \<in> set body. section_name (strip l) = None" "rest = [] \<or> section_name (strip (hd rest)) \<noteq> None"
proof -
  let ?m = "py ''Metadata''" and ?p = "\<lambda>l. section_name (strip l) \<noteq> None"
  have m: "?m \<noteq> []" "93 \<notin> set ?m" by (simp_all add: py_def)
  have sec: "(\<lambda>l. strip l = [91] @ ?m @ [93]) = is_section ?m"
    using section_header [OF m] section_header_conv by blast
  obtain i where i: "find_index (is_section ?m) lines = Some i"
    using assms unfolding rewrite_lines_def section_bounds_def sec by (cases "find_index (is_section ?m) lines") simp_all
  define after where "after = drop (Suc i) lines"
  define j where "j = (case find_index ?p after of None \<Rightarrow> length after | Some j \<Rightarrow> j)"
  have lines: "lines = take i lines @ lines ! i # after"
    using i id_take_nth_drop [of i lines] by (simp add: after_def find_index_Some_iff)
  have len: "length lines = Suc i + length after"
    using find_index_bound [OF i] by (simp add: after_def)
  have j: "j \<le> length after" using find_index_bound [of ?p after] by (auto simp: j_def split: option.splits)
  have bounds: "section_bounds lines ?m = Some (Suc i, Suc (i + j))"
    unfolding section_bounds_def sec i using len by (simp add: j_def after_def [symmetric] split: option.splits)
  have body: "drop (Suc i) (take (Suc (i + j)) lines) = take j after" "drop (Suc (i + j)) lines = drop j after"
    by (simp_all add: after_def drop_take add.commute)
  have start: "take (Suc i) lines = take i lines @ [lines ! i]"
    using i by (simp add: take_Suc_conv_app_nth find_index_Some_iff)
  show ?thesis
  proof (rule that [of "take i lines" "lines ! i" "take j after" "drop j after"])
    show "lines = take i lines @ lines ! i # take j after @ drop j after" using lines by simp
    show "ls = take i lines @ lines ! i # (map (rewrite_line keys) (take j after) @
        map (\<lambda>(k, v). k @ [58] @ v) (filter (\<lambda>(k, _). k \<notin> line_key ` set (take j after)) keys)) @ drop j after"
      using assms by (simp add: rewrite_lines_def bounds body start Let_def)
    show "\<forall>l \<in> set (take i lines). \<not> is_section ?m l"
      using i by (auto simp: find_index_Some_iff in_set_conv_nth)
    show "is_section ?m (lines ! i)" using i by (rule find_index_sat)
    show "\<forall>l \<in> set (take j after). section_name (strip l) = None"
    proof (cases "find_index ?p after")
      case None
      then show ?thesis by (auto simp: find_index_None_iff dest: in_set_takeD)
    next
      case (Some k)
      then have "j = k" by (simp add: j_def)
      then show ?thesis using Some by (auto simp: find_index_Some_iff in_set_conv_nth)
    qed
    show "drop j after = [] \<or> section_name (strip (hd (drop j after))) \<noteq> None"
      using find_index_sat [of ?p after] find_index_bound [of ?p after]
      by (auto simp: j_def hd_drop_conv_nth split: option.splits)
  qed simp
qed

definition file_keys :: "pystr list \<Rightarrow> pystr \<Rightarrow> pystr option" where
  "file_keys ls = parse_key_values (or_else (split_sections ls (py ''Metadata'')) [])"

definition parse_lines :: "(nat \<Rightarrow> nat option) \<Rightarrow> pystr list \<Rightarrow> osu_metadata result" where
  "parse_lines dv ls = bindE (parse_format_version dv ls) (\<lambda>v. parse_sections dv v (split_sections ls))"

definition stamped :: "pystr \<Rightarrow> osu_metadata result \<Rightarrow> osu_metadata result" where
  "stamped creator r = bindE r (\<lambda>m. Inr (m\<lparr>om_declared_creator := take MAX_METADATA_LENGTH (strip creator)\<rparr>))"

lemma stamped_simps:
  "stamped c (Inl e) = Inl e" "stamped c (Inr m) = Inr (m\<lparr>om_declared_creator := take MAX_METADATA_LENGTH (strip c)\<rparr>)"
  "stamped c (if p then r else r') = (if p then stamped c r else stamped c r')"
  by (simp_all add: stamped_def)

lemma stamped_prod: "stamped c (case p of (x, y) \<Rightarrow> h x y) = (case p of (x, y) \<Rightarrow> stamped c (h x y))"
  by (simp split: prod.split)

lemma stamped_bindE: "stamped c (bindE r f) = bindE r (\<lambda>x. stamped c (f x))"
  by (simp add: stamped_def bindE_def split: sum.split)

lemma parse_sections_stamp:
  assumes other: "\<And>n. n \<noteq> py ''Metadata'' \<Longrightarrow> s' n = s n"
    and some: "s (py ''Metadata'') \<noteq> None" "s' (py ''Metadata'') \<noteq> None"
    and vals: "parse_key_values (or_else (s' (py ''Metadata'')) []) =
      (parse_key_values (or_else (s (py ''Metadata'')) []))(py ''BeatmapID'' \<mapsto> b, py ''BeatmapSetID'' \<mapsto> i, py ''Creator'' \<mapsto> strip c)"
  shows "parse_sections dv v s' = stamped c (parse_sections dv v s)"
proof -
  have none: "list_ex (\<lambda>n. s' n = None) REQUIRED_SECTIONS = list_ex (\<lambda>n. s n = None) REQUIRED_SECTIONS"
    using some by (auto simp: REQUIRED_SECTIONS_def other py_def)
  have same: "s' (py ''General'') = s (py ''General'')" "s' (py ''Difficulty'') = s (py ''Difficulty'')"
    "s' (py ''HitObjects'') = s (py ''HitObjects'')" "s' (py ''TimingPoints'') = s (py ''TimingPoints'')"
    using other by (simp_all add: py_def)
  define f where "f = parse_key_values (or_else (s (py ''Metadata'')) [])"
  define g where "g = f(py ''BeatmapID'' \<mapsto> b, py ''BeatmapSetID'' \<mapsto> i, py ''Creator'' \<mapsto> strip c)"
  have texts: "require_text g (py ''Artist'') = require_text f (py ''Artist'')" "require_text g (py ''Title'') = require_text f (py ''Title'')"
    "require_text g (py ''Version'') = require_text f (py ''Version'')" "get_text g (py ''Creator'') = strip c"
    by (simp_all add: g_def require_text_def get_text_def or_else_def py_def)
  show ?thesis
    unfolding parse_sections_def none Let_def same vals f_def [symmetric] g_def [symmetric]
    by (simp only: texts stamped_simps stamped_bindE stamped_prod osu_metadata.update_convs)
qed

lemma splitlines_rewritten:
  assumes "rewrite_osu_file_identity content b i c = Inr out" "one_line c"
  obtains ls where "rewrite_lines (identity_keys b i c) (splitlines content) = Inr ls"
    "splitlines out = ls \<or> ls = splitlines out @ [[]]"
proof -
  obtain ls where ls: "rewrite_lines (identity_keys b i c) (splitlines content) = Inr ls"
    using assms(1) by (auto simp: rewrite_osu_file_identity_def bindE_Inr_iff Let_def)
  define nl :: pystr where "nl = (if contains content [13, 10] then [13, 10] else [10])"
  have nl: "nl \<in> {[10], [13, 10]}" by (simp add: nl_def)
  have out: "out = join_str nl ls @ nl \<or> out = join_str nl ls"
    using assms(1) ls by (auto simp: rewrite_osu_file_identity_def nl_def Let_def split: if_splits)
  obtain pre hdr body rest missing where p: "splitlines content = pre @ hdr # body @ rest"
    "ls = pre @ hdr # (map (rewrite_line (identity_keys b i c)) body @ map (\<lambda>(k, v). k @ [58] @ v) missing) @ rest"
    "missing = filter (\<lambda>(k, _). k \<notin> line_key ` set body) (identity_keys b i c)"
    by (rule rewrite_lines_shape [OF ls])
  have old: "\<forall>l \<in> set (pre @ hdr # body @ rest). one_line l" using splitlines_lines [of _ content] p(1) by simp
  have added: "one_line (k @ [58] @ v)" if "map_of (identity_keys b i c) k = Some v" for k v
  proof -
    have "one_line k" "one_line v"
      using that identity_plain [of b i c k v] str_int_line(1) assms(2) by (auto simp: identity_map_of split: if_splits)
    then show ?thesis by (auto simp: one_line_def line_break_def)
  qed
  have "one_line (rewrite_line (identity_keys b i c) l)" if "l \<in> set body" for l
    using that old added by (auto simp: rewrite_line_def split: option.split)
  moreover have "one_line (k @ [58] @ v)" if "(k, v) \<in> set missing" for k v
    using that added [of k v] map_of_is_SomeI [OF identity_distinct, of k v] by (auto simp: p(3))
  ultimately have lines: "\<forall>l \<in> set ls. one_line l" using old unfolding p(2) by auto
  have "ls \<noteq> []" using p(2) by simp
  then have "splitlines out = ls \<or> ls = splitlines out @ [[]]"
    using splitlines_join [OF lines nl] out by (metis append_butlast_last_id)
  with ls show ?thesis by (rule that)
qed

lemma map_of_filter_key: "map_of (filter (\<lambda>(k, _). p k) kvs) k = (if p k then map_of kvs k else None)"
  by (induction kvs) auto

lemma rewritten_keys:
  "parse_key_values (body_lines (map (rewrite_line (identity_keys b i c)) body @
     map (\<lambda>(k, v). k @ [58] @ v) (filter (\<lambda>(k, _). k \<notin> line_key ` set body) (identity_keys b i c)))) =
   (parse_key_values (body_lines body))(py ''BeatmapID'' \<mapsto> str_int b, py ''BeatmapSetID'' \<mapsto> str_int i, py ''Creator'' \<mapsto> strip c)"
  (is "?new = _")
proof -
  let ?keys = "identity_keys b i c" and ?seen = "line_key ` set body"
  let ?missing = "filter (\<lambda>(k, _). k \<notin> ?seen) ?keys"
  have plain: "list_all plain_key (map fst ?missing)"
    using identity_plain [of b i c] map_of_is_SomeI [OF identity_distinct, of _ _ b i c] by (fastforce simp: list_all_iff)
  have dist: "distinct (map fst ?missing)" using distinct_map_filter identity_distinct by blast
  have mo: "map_of ?missing k = (if k \<in> ?seen then None else map_of ?keys k)" for k
    by (simp add: map_of_filter_key)
  have k: "keyed ?keys ?seen (parse_key_values (body_lines body)) (parse_key_values (body_lines (map (rewrite_line ?keys) body)))"
    using rewritten_values identity_plain by blast
  have "?new k = (case map_of ?keys k of Some v \<Rightarrow> Some (strip v) | None \<Rightarrow> parse_key_values (body_lines body) k)" for k
    unfolding body_lines_app missing_values [OF plain dist] mo
    using k [unfolded keyed_def, rule_format, of k] by (cases "map_of ?keys k") simp_all
  then show ?thesis
    by (simp add: fun_eq_iff identity_map_of str_int_line)
qed

text \<open>C19. A file with at most one metadata section, rewritten with a creator on one line, parses to what the original parses to, errors
  included, with the assigned creator, and its metadata keys are the original ones with the two
  ids and the creator set.
\<close>

theorem rewritten_file_parses:
  assumes "rewrite_osu_file_identity content beatmap_id set_id creator = Inr out"
    and "one_line creator"
    and "length (filter (is_section (py ''Metadata'')) (splitlines content)) \<le> 1"
  shows "parse_osu_file dv out = stamped creator (parse_osu_file dv content) \<and>
    file_keys (splitlines out) = (file_keys (splitlines content))
      (py ''BeatmapID'' \<mapsto> str_int beatmap_id, py ''BeatmapSetID'' \<mapsto> str_int set_id, py ''Creator'' \<mapsto> strip creator)"
proof -
  let ?m = "py ''Metadata''" and ?keys = "identity_keys beatmap_id set_id creator"
  obtain ls where ls: "rewrite_lines ?keys (splitlines content) = Inr ls"
    and out: "splitlines out = ls \<or> ls = splitlines out @ [[]]"
    using splitlines_rewritten [OF assms(1,2)] by blast
  obtain pre hdr body rest missing where p: "splitlines content = pre @ hdr # body @ rest"
    "ls = pre @ hdr # (map (rewrite_line ?keys) body @ map (\<lambda>(k, v). k @ [58] @ v) missing) @ rest"
    "missing = filter (\<lambda>(k, _). k \<notin> line_key ` set body) ?keys"
    "\<forall>l \<in> set pre. \<not> is_section ?m l" "is_section ?m hdr"
    "\<forall>l \<in> set body. section_name (strip l) = None" "rest = [] \<or> section_name (strip (hd rest)) \<noteq> None"
    by (rule rewrite_lines_shape [OF ls])
  let ?new = "map (rewrite_line ?keys) body @ map (\<lambda>(k, v). k @ [58] @ v) missing"
  have rest: "\<forall>l \<in> set rest. \<not> is_section ?m l"
    using assms(3) p(5) by (auto simp: p(1) filter_empty_conv)
  have added: "section_name (strip (k @ 58 # v)) = None" if "map_of ?keys k = Some v" for k v
    using that plain_line(2) identity_plain by blast
  have "\<forall>l \<in> set ?new. section_name (strip l) = None"
    using p(6) added map_of_is_SomeI [OF identity_distinct, of _ _ beatmap_id set_id creator]
    by (auto simp: p(3) rewrite_line_def split: option.split)
  then have new: "split_sections ls = (split_sections (pre @ hdr # rest))(?m := Some (body_lines ?new))"
    unfolding p(2) by (rule one_section [OF p(4,5) _ rest p(7)])
  have old: "split_sections (splitlines content) = (split_sections (pre @ hdr # rest))(?m := Some (body_lines body))"
    unfolding p(1) by (rule one_section [OF p(4,5,6) rest p(7)])
  have keys: "parse_key_values (or_else (split_sections ls ?m) []) =
      (parse_key_values (or_else (split_sections (splitlines content) ?m) []))
        (py ''BeatmapID'' \<mapsto> str_int beatmap_id, py ''BeatmapSetID'' \<mapsto> str_int set_id, py ''Creator'' \<mapsto> strip creator)"
    unfolding new old p(3) using rewritten_keys by (simp add: or_else_def)
  have "strip hdr \<noteq> []" using section_not_blank [OF p(5)] by (simp add: kept_def)
  then have version: "parse_format_version dv ls = parse_format_version dv (splitlines content)"
    unfolding p(1,2) by (rule first_line)
  have sections: "parse_sections dv v (split_sections ls) = stamped creator (parse_sections dv v (split_sections (splitlines content)))" for v
    by (rule parse_sections_stamp [where s' = "split_sections ls" and s = "split_sections (splitlines content)", OF _ _ _ keys])
      (simp_all add: new old)
  have "parse_format_version dv (splitlines out) = parse_format_version dv ls" "split_sections (splitlines out) = split_sections ls"
    using out blank_lines_end [of "[]"] by (auto simp: strip_def)
  then show ?thesis
    using keys version sections by (simp add: parse_osu_file_def file_keys_def stamped_bindE Let_def)
qed

section \<open>A small map\<close>

definition digit_of :: "nat \<Rightarrow> nat option" where
  "digit_of c = (if 48 \<le> c \<and> c \<le> 57 then Some (c - 48) else None)"

definition trial_lines :: "pystr list" where
  "trial_lines = map py
     [''osu file format v14'', ''[General]'', ''Mode: 0'', ''[Metadata]'', ''Title:A'', ''Artist:B'', ''Creator:someone'',
      ''Version:Easy'', ''[Difficulty]'', ''HPDrainRate:5'', ''CircleSize:4'', ''OverallDifficulty:6'',
      ''[TimingPoints]'', ''0,500,4,1,0,50,1,0'', ''[HitObjects]'', ''10,10,1000,1,0'', ''10,10,5000,1,0'']"

lemma trial_sections: "split_sections trial_lines =
   [py ''General'' \<mapsto> [py ''Mode: 0''],
    py ''Metadata'' \<mapsto> map py [''Title:A'', ''Artist:B'', ''Creator:someone'', ''Version:Easy''],
    py ''Difficulty'' \<mapsto> map py [''HPDrainRate:5'', ''CircleSize:4'', ''OverallDifficulty:6''],
    py ''TimingPoints'' \<mapsto> [py ''0,500,4,1,0,50,1,0''],
    py ''HitObjects'' \<mapsto> map py [''10,10,1000,1,0'', ''10,10,5000,1,0'']]"
  by (simp add: trial_lines_def py_def split_sections_def section_line_def strip_def is_space_def starts_with_def section_name_def)
lemma trial_version: "parse_format_version digit_of trial_lines = Inr 14"
  by (simp add: trial_lines_def py_def parse_format_version.simps header_version_def digit_of_def is_dec_def dec_value.simps
    strip_def is_space_def starts_with_def MIN_FORMAT_VERSION_def MAX_FORMAT_VERSION_def)
lemma trial_bounds: "section_bounds trial_lines (py ''Metadata'') = Some (4, 8)"
  by (simp add: trial_lines_def py_def section_bounds_def strip_def is_space_def section_name_def)
lemma trial_one: "length (filter (is_section (py ''Metadata'')) trial_lines) \<le> 1"
  by (simp add: trial_lines_def py_def is_section_def strip_def is_space_def section_name_def)
lemma fl_num: "(numeral n :: nat) \<le> 2 ^ 53 \<Longrightarrow> fl (numeral n) = numeral n"
  using fl_of_nat [of "numeral n"] by simp

lemma fl_1: "fl 1 = 1"
  using fl_of_nat [of 1] by simp

lemma trial_values:
  "parse_key_values (map py [''Title:A'', ''Artist:B'', ''Creator:someone'', ''Version:Easy'']) =
     [py ''Title'' \<mapsto> py ''A'', py ''Artist'' \<mapsto> py ''B'', py ''Creator'' \<mapsto> py ''someone'', py ''Version'' \<mapsto> py ''Easy'']"
  "parse_key_values [py ''Mode: 0''] = [py ''Mode'' \<mapsto> py ''0'']"
  "parse_key_values (map py [''HPDrainRate:5'', ''CircleSize:4'', ''OverallDifficulty:6'']) =
     [py ''HPDrainRate'' \<mapsto> py ''5'', py ''CircleSize'' \<mapsto> py ''4'', py ''OverallDifficulty'' \<mapsto> py ''6'']"
  by (simp_all add: parse_key_values_def partition_colon_def py_def strip_def is_space_def)

lemmas float_simps = float_of_str_def strip_def is_space_def is_dec_def digit_of_def sign_of_def ascii_lower_def decimal_value_def
  digit_span_def exponent_part_def pow10_def to_double_def dec_value.simps py_def fl_num fl_1 flt.simps

lemma trial_floats: "float_of_str digit_of (py ''5'') = Inr (Fin 5)" 
  "float_of_str digit_of (py ''4'') = Inr (Fin 4)" 
  "float_of_str digit_of (py ''6'') = Inr (Fin 6)" 
  "float_of_str digit_of (py ''0'') = Inr (Fin 0)" 
  "float_of_str digit_of (py ''500'') = Inr (Fin 500)" 
  "float_of_str digit_of (py ''1000'') = Inr (Fin 1000)" 
  "float_of_str digit_of (py ''5000'') = Inr (Fin 5000)" 
  by (simp_all add: float_simps)

lemma trial_ints: "py_int digit_of (py ''1'') = Inr 1"
  by (simp add: py_int_def py_def strip_def is_space_def digit_of_def)

lemma trial_splits: "split_on 44 (py ''10,10,1000,1,0'') = map py [''10'', ''10'', ''1000'', ''1'', ''0'']"
  "split_on 44 (py ''10,10,5000,1,0'') = map py [''10'', ''10'', ''5000'', ''1'', ''0'']"
  "split_on 44 (py ''0,500,4,1,0,50,1,0'') = map py [''0'', ''500'', ''4'', ''1'', ''0'', ''50'', ''1'', ''0'']"
  by (simp_all add: py_def)

lemma trial_span: "parse_hit_object_span digit_of [py ''10,10,1000,1,0'', py ''10,10,5000,1,0''] = Inr (4, 2, Fin 5000)"
  by (simp add: parse_hit_object_span_def hit_object_line_def trial_splits trial_floats trial_ints hit_object_end_time_def fmax_def fminus_def
    HIT_OBJECT_SPINNER_def HIT_OBJECT_MANIA_HOLD_def fl_num to_double_def ceil_of_float_def finite_or_def)

lemma trial_point: "timing_point digit_of (py ''0,500,4,1,0,50,1,0'') = Some (Fin 0, Fin 500)"
proof -
  have "strip (py ''1'') = [49]" by (simp add: strip_def py_def is_space_def)
  then show ?thesis by (simp add: timing_point_def trial_splits trial_floats Let_def)
qed

lemma trial_bpm: "parse_bpm digit_of [py ''0,500,4,1,0,50,1,0''] (Fin 5000) = Inr (Fin 120)"
  by (simp add: parse_bpm_def trial_point map_filter_def sort_by_time_def fmax_def fminus_def
    fl_num to_double_def round2_def round_even_def)

lemma trial_parse: "parse_sections digit_of 14 (split_sections trial_lines) =
  Inr \<lparr>om_format_version = 14, om_artist = py ''B'', om_title = py ''A'', om_version = py ''Easy'', om_declared_creator = py ''someone'',
    om_mode = 0, om_hp = 5, om_cs = 4, om_od = 6, om_ar = 6, om_bpm = Fin 120, om_total_length = 4, om_hit_object_count = 2\<rparr>"
proof -
  have neq: "py a = py b \<longleftrightarrow> a = b" for a b
    by (simp add: py_def inj_map_eq_map [OF inj_of_char])
  have ts: "strip (py ''A'') = py ''A''" "strip (py ''B'') = py ''B''" "strip (py ''Easy'') = py ''Easy''"
   "strip (py ''someone'') = py ''someone''" "strip (py ''0'') = py ''0''" "py (x # xs) \<noteq> []" "length (py xs) = length xs" for x xs
    by (simp_all add: strip_def py_def is_space_def)
  show ?thesis
    by (simp add: parse_sections_def trial_sections neq REQUIRED_SECTIONS_def or_else_def trial_values [simplified] require_text_def get_text_def ts MAX_METADATA_LENGTH_def
      parse_mode_def trial_floats or_parse_error_def int_of_float_def finite_or_def require_difficulty_value_def parse_difficulty_value_def trial_span trial_bpm)
qed
definition trial_map :: pystr where
  "trial_map = concat (map (\<lambda>l. l @ [10]) trial_lines)"

lemma trial_splitlines: "splitlines trial_map = trial_lines"
proof -
  have "\<forall>l \<in> set ls. one_line l \<Longrightarrow> splitlines (concat (map (\<lambda>l. l @ [10]) ls)) = ls" for ls
    by (induction ls) (simp_all add: splitlines_cons [of _ "[10]", simplified])
  moreover have "\<forall>l \<in> set trial_lines. one_line l"
    by (simp add: trial_lines_def py_def one_line_def line_break_def)
  ultimately show ?thesis unfolding trial_map_def by blast
qed

lemma rewritten_file_parses_witness:
  "\<exists>out. rewrite_osu_file_identity trial_map 100 50 (py ''me'') = Inr out \<and>
     parse_osu_file digit_of out =
       Inr \<lparr>om_format_version = 14, om_artist = py ''B'', om_title = py ''A'', om_version = py ''Easy'',
            om_declared_creator = py ''me'', om_mode = 0, om_hp = 5, om_cs = 4, om_od = 6, om_ar = 6,
            om_bpm = Fin 120, om_total_length = 4, om_hit_object_count = 2\<rparr>"
proof -
  obtain out where out: "rewrite_osu_file_identity trial_map 100 50 (py ''me'') = Inr out"
    by (simp add: rewrite_osu_file_identity_def trial_splitlines rewrite_lines_def trial_bounds Let_def)
  have "one_line (py ''me'')" "take MAX_METADATA_LENGTH (strip (py ''me'')) = py ''me''"
    by (simp_all add: one_line_def line_break_def py_def MAX_METADATA_LENGTH_def strip_def is_space_def)
  then have "parse_osu_file digit_of out = stamped (py ''me'') (parse_osu_file digit_of trial_map)"
    using rewritten_file_parses [OF out] trial_one by (simp add: trial_splitlines)
  then show ?thesis
    using out \<open>take _ _ = _\<close> by (simp add: parse_osu_file_def trial_splitlines trial_version trial_parse stamped_def Let_def)
qed

end
