(* ===== verification/Hosting_Trial.thy ===== *)
theory Hosting_Trial
  imports Kept Rewriting
begin

text \<open>
  A run on a small archive, with the map of \<open>Rewriting\<close> in it: an upload that goes through
  without a failure and leaves a set with one map. The witnesses of the histories use it.
\<close>

section \<open>A small run\<close>

definition trial_env :: up_env where
  "trial_env =
     \<lparr>ue_fault = \<lambda>_. None, ue_digit = digit_of,
      ue_unzip = \<lambda>_. Inr [\<lparr>zm_name = py ''a.osu'', zm_file_size = 10, zm_compress_size = 10, zm_external_attr = 0,
                            zm_content = utf8_encode trial_map\<rparr>],
      ue_zip = \<lambda>_. Inr [], ue_repr = id, ue_md5 = \<lambda>_. [], ue_sha256 = \<lambda>_. [], ue_rate = \<lambda>_ _. Inr (Fin 2, 2),
      ue_now = \<lambda>_. 0, ue_text_column = Inr,
      ue_float_column = \<lambda>_ v. (case v of Fin x \<Rightarrow> Inr x | _ \<Rightarrow> Inl DatabaseError),
      ue_same_text = (=), ue_torn = 0,
      ue_limits = \<lparr>ol_archive_bytes = 100, ol_total_uncompressed = 100, ol_member_count = 10, ol_compression_ratio = 100,
                   ol_osu_file_bytes = 100, ol_osu_file_count = 10\<rparr>,
      ue_max_submissions = 1\<rparr>"

definition trial_host :: hosting where
  "trial_host =
     \<lparr>h_db = \<lparr>hd_maps = [], hd_mapsets = [], hd_subs = [], hd_ids = [], hd_next_id = 2000000000, hd_scores = []\<rparr>,
      h_files = \<lambda>_. None, h_cache = \<lambda>_. None, h_cached_sets = {}, h_written = [], h_tick = 0\<rparr>"

definition trial_user :: up_user where
  "trial_user = \<lparr>uu_id = 7, uu_name = py ''me'', uu_priv = 3, uu_silence_end = 0\<rparr>"

definition trial_meta :: osu_metadata where
  "trial_meta = \<lparr>om_format_version = 14, om_artist = py ''B'', om_title = py ''A'', om_version = py ''Easy'',
     om_declared_creator = py ''someone'', om_mode = 0, om_hp = 5, om_cs = 4, om_od = 6, om_ar = 6,
     om_bpm = Fin 120, om_total_length = 4, om_hit_object_count = 2\<rparr>"

lemma hosting_trial_parsed: "parse_osu_file digit_of trial_map = Inr trial_meta"
  by (simp add: parse_osu_file_def trial_splitlines trial_version trial_parse trial_meta_def Let_def)

lemma trial_valid: "valid_str trial_map"
  by (simp add: valid_str_def trial_map_def trial_lines_def py_def)

lemma trial_read: "read_osz (ue_unzip trial_env) (ue_repr trial_env) (ue_limits trial_env) [] =
   Inr \<lparr>oc_member_count = 1, oc_total_uncompressed = 10, oc_members = [\<lparr>ou_name = py ''a.osu'', ou_text = trial_map\<rparr>]\<rparr>"
proof -
  obtain bs where bs: "utf8_encode trial_map = Inr bs" "utf8_decode bs = Inr trial_map"
    using utf8_encode_valid utf8_decode_encode trial_valid by metis
  obtain t where t: "trial_map = 111 # t" by (simp add: trial_map_def trial_lines_def py_def)
  have "bs \<noteq> [] \<and> hd bs = 111" using bs(1) unfolding t by (auto simp: utf8_char_def byte_of_def bindE_Inr_iff)
  then have "take 3 bs \<noteq> [0xEF, 0xBB, 0xBF]" by (cases bs) auto
  moreover have "fl (10 / 10) = 1" using fl_1 by simp
  ultimately show ?thesis
    using bs fl_1
    by (simp add: read_osz_def trial_env_def osz_bind_def osz_raise_if_def open_archive_def validate_member_def
      windows_parts_def has_drive_def is_rooted_def is_symlink_def is_osu_member_def member_is_dir_def ends_with_def starts_with_def
      py_def ascii_lower_def read_osu_member_def decode_osu_member_def)
qed

lemma contains_first: "contains s (c # t) \<Longrightarrow> c \<in> set s"
proof -
  assume "contains s (c # t)"
  then obtain i where i: "take (length (c # t)) (drop i s) = c # t" by (auto simp: contains_def list_ex_iff)
  have "c \<in> set (take (length (c # t)) (drop i s))" unfolding i by simp
  then show ?thesis using in_set_takeD in_set_dropD by metis
qed

lemma trial_contains: "\<not> contains trial_map [13, 10]"
proof -
  have "13 \<notin> set trial_map" by (simp add: trial_map_def trial_lines_def py_def)
  then show ?thesis using contains_first by blast
qed

lemma trial_rewrite: "\<exists>out data. rewrite_osu_file_identity trial_map 2000000001 2000000000 (py ''me'') = Inr out \<and> utf8_encode out = Inr data"
proof -
  have last: "trial_map \<noteq> []" "last trial_map = 10" by (simp_all add: trial_map_def trial_lines_def py_def)
  obtain ls where ls: "rewrite_lines (identity_keys 2000000001 2000000000 (py ''me'')) trial_lines = Inr ls"
    by (simp add: rewrite_lines_def trial_bounds Let_def)
  have keys: "identity_keys 2000000001 2000000000 (py ''me'') =
      [(py ''BeatmapID'', py ''2000000001''), (py ''BeatmapSetID'', py ''2000000000''), (py ''Creator'', py ''me'')]"
    by (simp add: identity_keys_def str_int_def py_def nat_digits.simps)
  have "ls = map py [''osu file format v14'', ''[General]'', ''Mode: 0'', ''[Metadata]'', ''Title:A'', ''Artist:B'', ''Creator:me'',
      ''Version:Easy'', ''BeatmapID:2000000001'', ''BeatmapSetID:2000000000'', ''[Difficulty]'', ''HPDrainRate:5'',
      ''CircleSize:4'', ''OverallDifficulty:6'', ''[TimingPoints]'', ''0,500,4,1,0,50,1,0'', ''[HitObjects]'',
      ''10,10,1000,1,0'', ''10,10,5000,1,0'']"
    using ls unfolding keys rewrite_lines_def trial_bounds
    by (simp add: Let_def trial_lines_def py_def rewrite_line_def line_key_def strip_def is_space_def)
  then have "valid_str (join_str [10] ls @ [10])" by (simp add: valid_str_def join_str_def py_def)
  then obtain data where "utf8_encode (join_str [10] ls @ [10]) = Inr data" using utf8_encode_valid by blast
  then show ?thesis
    using ls last trial_contains by (simp add: rewrite_osu_file_identity_def trial_splitlines Let_def)
qed

lemma trial_filename: "canonical_osu_filename (py ''B'') (py ''A'') (py ''me'') (py ''Easy'') = Inr (py ''B - A (me) [Easy].osu'')"
  by (simp add: canonical_osu_filename_def beatmap_filename_def IGNORED_BEATMAP_CHARS_def py_def strip_def is_space_def
    remove_suffix_def ends_with_def starts_with_def MAX_FILENAME_LENGTH_def Let_def)

text \<open>An upload creates a set with one map.\<close>

lemma trial_submit:
  "\<exists>r u. hd_maps (h_db (host_run trial_env [Op_submit trial_user []] trial_host)) = [r] \<and>
     hm_server r = Server_private \<and> hm_id r = 2000000001 \<and> hm_set_id r = 2000000000 \<and> hm_status r = RS_PENDING \<and>
     hd_subs (h_db (host_run trial_env [Op_submit trial_user []] trial_host)) = [u] \<and> su_set_id u = 2000000000 \<and> su_user u = 7 \<and>
     su_state u = REVIEW_PENDING \<and> hd_scores (h_db (host_run trial_env [Op_submit trial_user []] trial_host)) = []"
proof -
  obtain out data where out: "rewrite_osu_file_identity trial_map 2000000001 2000000000 (py ''me'') = Inr out" "utf8_encode out = Inr data"
    using trial_rewrite by blast
  have elig: "check_eligibility trial_user 0 = None"
    by (simp add: check_eligibility_def trial_user_def P_UNRESTRICTED_def P_VERIFIED_def)
  have bs: "\<exists>bs. utf8_encode trial_map = Inr bs" using utf8_encode_valid trial_valid by blast
  have parsed: "parse_members trial_env [\<lparr>ou_name = py ''a.osu'', ou_text = trial_map\<rparr>] =
      Inr (Inr [(\<lparr>ou_name = py ''a.osu'', ou_text = trial_map\<rparr>, trial_meta)])"
    by (simp add: trial_env_def hosting_trial_parsed)
  let ?m = "\<lparr>ou_name = py ''a.osu'', ou_text = trial_map\<rparr>"
  let ?d = "\<lparr>pd_beatmap_id = 2000000001, pd_original_name = py ''a.osu'', pd_filename = py ''B - A (me) [Easy].osu'',
      pd_text = out, pd_data = data, pd_md5 = [], pd_metadata = trial_meta, pd_stars = Fin 2, pd_max_combo = 2\<rparr>"
  have prep: "prepare_difficulties trial_env 2000000000 (py ''me'') [(2000000001, ?m, trial_meta)] = Inr (Inr [?d])"
    using out by (simp add: prepare_difficulty_def trial_env_def trial_filename trial_meta_def)
  have repack: "repack_osz (ue_unzip trial_env) (ue_zip trial_env) (repack_map [?d]) [] = Inr []"
    using bs out by (auto simp: repack_osz_def trial_env_def open_archive_def osz_bind_def member_is_dir_def ends_with_def
      py_def repack_member_def repack_map_def)
  obtain row where row: "difficulty_row trial_env trial_user 2000000000 0 ?d = Inr row"
    by (simp add: difficulty_row_def trial_env_def trial_meta_def int_column_def Let_def)
  note f = difficulty_row_fields [OF row, simplified]
  have cons: "check_cross_difficulty_consistency [(?m, trial_meta)] = None"
    by (simp add: check_cross_difficulty_consistency_def)
  have env: "ue_fault trial_env n = None" "ue_now trial_env n = 0" "ue_max_submissions trial_env = 1" "ue_text_column trial_env = Inr" for n
    by (simp_all add: trial_env_def)
  have user: "uu_id trial_user = 7" "uu_name trial_user = py ''me''" by (simp_all add: trial_user_def)
  note alloc = allocate_def allocate_many.simps PRIVATE_BEATMAP_ID_FLOOR_def int_column_def
  define s1 where "s1 = trial_host\<lparr>h_db := (h_db trial_host)\<lparr>hd_ids := [(2000000000, Kind_set, 7), (2000000001, Kind_map, 7)],
      hd_next_id := 2000000002\<rparr>\<rparr>"
  have run: "submit_parsed trial_env trial_user [] [(?m, trial_meta)] (trial_host\<lparr>h_tick := Suc 0\<rparr>) =
      bnd (host_or_clean_up trial_env trial_user [] 2000000000 [?d] [(?m, trial_meta)]) (\<lambda>submission.
                   retn \<lparr>rs_code = CREATED, rs_submission = Some submission,
                         rs_difficulties = map as_submitted_difficulty [?d]\<rparr>) (s1\<lparr>h_tick := Suc (Suc (Suc (Suc (Suc 0))))\<rparr>)"
    by (simp add: prep submit_parsed_def alloc hio_def hget_def hdb_def op_defs env user trial_host_def s1_def
      check_collisions.simps maps_fetch_one_def find_where_def del: prepare_difficulties.simps)
  have host: "\<exists>v s'. host_or_clean_up trial_env trial_user [] 2000000000 [?d] ps (s1\<lparr>h_tick := n\<rparr>) = (Inr v, s') \<and>
      hd_maps (h_db s') = [row] \<and> hd_scores (h_db s') = [] \<and>
      (\<exists>u. hd_subs (h_db s') = [u] \<and> su_set_id u = 2000000000 \<and> su_user u = 7 \<and> su_state u = REVIEW_PENDING)" for n ps
    using row f
    by (simp add: host_or_clean_up_def host_files_def write_recorded_def write_file_atomically_def put_file_def repack
      commit_submission_def clock_def host_transaction_def mapsets_upsert_def maps_create_def maps_fetch_one_def subs_create_def
      subs_fetch_one_def find_where_def hio_def hget_def hdb_def op_defs env user s1_def trial_host_def)
  have start: "submit_beatmap_archive trial_env trial_user [] trial_host =
      submit_parsed trial_env trial_user [] [(?m, trial_meta)] (trial_host\<lparr>h_tick := Suc 0\<rparr>)"
    by (simp add: submit_beatmap_archive_def clock_def env elig subs_fetch_count_def hio_def hget_def op_defs trial_host_def
      trial_read parsed cons del: parse_members.simps)
  show ?thesis
    using host [of "[(?m, trial_meta)]" "Suc (Suc (Suc (Suc (Suc 0))))"] f
    by (auto simp: host_run_def exec_def start run op_defs)
qed

lemma trial_fresh: "fresh_host trial_host"
  by (simp add: fresh_host_def trial_host_def)

lemma hosted_status_provenance_witness:
  "\<exists>r. r \<in> set (hd_maps (h_db (host_run trial_env [Op_submit trial_user []] trial_host))) \<and>
     hm_server r = Server_private \<and> hm_status r = RS_PENDING"
proof -
  obtain r where r: "r \<in> set (hd_maps (h_db (host_run trial_env [Op_submit trial_user []] trial_host)))" "hm_server r = Server_private"
    using trial_submit by fastforce
  show ?thesis using hosted_status_provenance [OF trial_fresh r] r by auto
qed

lemma hosted_maps_have_files_witness:
  "\<exists>r data. r \<in> set (hd_maps (h_db (host_run trial_env [Op_submit trial_user []] trial_host))) \<and> hm_server r = Server_private \<and>
     h_files (host_run trial_env [Op_submit trial_user []] trial_host) (Osu_file (hm_id r)) = Some data"
proof -
  obtain r where r: "r \<in> set (hd_maps (h_db (host_run trial_env [Op_submit trial_user []] trial_host)))" "hm_server r = Server_private"
    using trial_submit by fastforce
  then show ?thesis using hosted_maps_have_files [OF trial_fresh refl, of trial_env "[Op_submit trial_user []]"] by blast
qed

definition trial_foreign_score :: score_row where
  "trial_foreign_score = \<lparr>sr_id = 1, sr_map_md5 = [], sr_score = 0, sr_pp = 0, sr_acc = 0, sr_max_combo = 0, sr_mods = 0, sr_n300 = 0,
     sr_n100 = 0, sr_n50 = 0, sr_nmiss = 0, sr_ngeki = 0, sr_nkatu = 0, sr_grade = [], sr_status = 2, sr_mode = 0,
     sr_play_time = ((0, 0, 0), (0, 0, 0)), sr_time_elapsed = 0, sr_client_flags = 0, sr_userid = 8, sr_perfect = 0, sr_checksum = [], sr_pp_aim = None, sr_pp_speed = None, sr_pp_flashlight = None\<rparr>"

lemma delete_spares_foreign_scores_witness:
  "let s = (host_run trial_env [Op_submit trial_user []] trial_host);
       s1 = s\<lparr>h_db := (h_db s)\<lparr>hd_scores := [trial_foreign_score]\<rparr>\<rparr>
   in trial_foreign_score \<in> set (hd_scores (h_db (snd (delete_submission trial_env trial_user 2000000000 s1))))"
  unfolding Let_def
  by (rule delete_spares_foreign_scores)
    (simp_all add: is_staff_def trial_user_def P_STAFF_def P_MODERATOR_def P_ADMINISTRATOR_def P_DEVELOPER_def trial_foreign_score_def)

end
