(* ===== verification/Tables.thy ===== *)
theory Tables
  imports Prelude
begin

text \<open>
  Tables of the database as lists of rows, in the order in which they were entered, with the
  \<^verbatim>\<open>auto_increment\<close> of their id; the statements the repositories send; a statement as a step
  that may fail; a transaction. Shared by the services whose state is only in the database.
\<close>

section \<open>Rows\<close>

record 'r table =
  t_rows :: "'r list"
  t_next :: int

definition empty_table :: "'r table" where
  "empty_table = \<lparr>t_rows = [], t_next = 1\<rparr>"

definition add_row :: "(int \<Rightarrow> 'r) \<Rightarrow> 'r table \<Rightarrow> 'r table" where
  "add_row mk t = \<lparr>t_rows = t_rows t @ [mk (t_next t)], t_next = t_next t + 1\<rparr>"

definition update_rows :: "('r \<Rightarrow> bool) \<Rightarrow> ('r \<Rightarrow> 'r) \<Rightarrow> 'r table \<Rightarrow> 'r table" where
  "update_rows p f t = t\<lparr>t_rows := map (\<lambda>r. if p r then f r else r) (t_rows t)\<rparr>"

definition delete_rows :: "('r \<Rightarrow> bool) \<Rightarrow> 'r table \<Rightarrow> 'r table" where
  "delete_rows p t = t\<lparr>t_rows := filter (\<lambda>r. \<not> p r) (t_rows t)\<rparr>"

text \<open>The ids of the rows are distinct and were handed out in order.\<close>

definition keyed :: "('r \<Rightarrow> int) \<Rightarrow> 'r table \<Rightarrow> bool" where
  "keyed key t \<longleftrightarrow> sorted_wrt (<) (map key (t_rows t) @ [t_next t])"

lemma keyed_empty: "keyed key empty_table"
  by (simp add: keyed_def empty_table_def)

lemma keyed_add: "keyed key t \<Longrightarrow> (\<And>i. key (mk i) = i) \<Longrightarrow> keyed key (add_row mk t)"
  by (auto simp: keyed_def add_row_def sorted_wrt_append)

lemma keys_update: "(\<And>r. key (f r) = key r) \<Longrightarrow> map key (t_rows (update_rows p f t)) = map key (t_rows t)"
  by (simp add: update_rows_def)

lemma keyed_update: "keyed key t \<Longrightarrow> (\<And>r. key (f r) = key r) \<Longrightarrow> keyed key (update_rows p f t)"
  by (simp add: keyed_def keys_update) (simp add: update_rows_def)

lemma keyed_delete: "keyed key t \<Longrightarrow> keyed key (delete_rows p t)"
  by (simp add: keyed_def delete_rows_def sorted_wrt_append sorted_wrt_map sorted_wrt_filter)

lemma keyed_inj: "keyed key t \<Longrightarrow> r \<in> set (t_rows t) \<Longrightarrow> r' \<in> set (t_rows t) \<Longrightarrow> key r = key r' \<Longrightarrow> r = r'"
proof -
  assume k: "keyed key t" "r \<in> set (t_rows t)" "r' \<in> set (t_rows t)" "key r = key r'"
  then have "distinct (map key (t_rows t))"
    by (auto simp: keyed_def sorted_wrt_append simp: strict_sorted_iff)
  then show "r = r'" using k by (auto simp: distinct_map dest: inj_onD)
qed

lemma keyed_next: "keyed key t \<Longrightarrow> r \<in> set (t_rows t) \<Longrightarrow> key r < t_next t"
  by (auto simp: keyed_def sorted_wrt_append)

lemma rows_add [simp]: "set (t_rows (add_row mk t)) = insert (mk (t_next t)) (set (t_rows t))"
  by (auto simp: add_row_def)

lemma rows_update [simp]: "set (t_rows (update_rows p f t)) = (\<lambda>r. if p r then f r else r) ` set (t_rows t)"
  by (simp add: update_rows_def)

lemma rows_delete [simp]: "set (t_rows (delete_rows p t)) = {r \<in> set (t_rows t). \<not> p r}"
  by (auto simp: delete_rows_def)

text \<open>Rows by id: at most one.\<close>

definition row_of :: "('r \<Rightarrow> int) \<Rightarrow> int \<Rightarrow> 'r table \<Rightarrow> 'r option" where
  "row_of key i t = find (\<lambda>r. key r = i) (t_rows t)"

lemma row_of_Some: "row_of key i t = Some r \<Longrightarrow> r \<in> set (t_rows t) \<and> key r = i"
  by (auto simp: row_of_def find_Some_iff)

lemma row_of_None: "row_of key i t = None \<longleftrightarrow> (\<forall>r \<in> set (t_rows t). key r \<noteq> i)"
  by (auto simp: row_of_def find_None_iff)

lemma row_of_iff: "keyed key t \<Longrightarrow> row_of key i t = Some r \<longleftrightarrow> r \<in> set (t_rows t) \<and> key r = i"
  using keyed_inj [of key t] row_of_Some [of key i t] row_of_None [of key i t]
  by (cases "row_of key i t") blast+

section \<open>Statements and transactions\<close>

text \<open>
  The state of a service: its tables, and the number of the statements sent so far, by which the
  schedule \<open>se_fault\<close> says which statement fails and how, be it for a lost connection, a value its
  column cannot hold, a cancellation, or the death of the process.
\<close>

record 'd stored =
  st_db :: 'd
  st_tick :: nat

type_synonym faults = "nat \<Rightarrow> exn option"

definition statement :: "faults \<Rightarrow> ('d \<Rightarrow> 'a \<times> 'd) \<Rightarrow> (('d, 'x) stored_scheme, 'a) op" where
  "statement F f = (\<lambda>s. let s' = s\<lparr>st_tick := Suc (st_tick s)\<rparr> in
     case F (st_tick s) of
       Some e \<Rightarrow> (Inl e, s')
     | None \<Rightarrow> (case f (st_db s) of (x, d) \<Rightarrow> (Inr x, s'\<lparr>st_db := d\<rparr>)))"

definition reading :: "faults \<Rightarrow> ('d \<Rightarrow> 'a) \<Rightarrow> (('d, 'x) stored_scheme, 'a) op" where
  "reading F f = statement F (\<lambda>d. (f d, d))"

definition writing :: "faults \<Rightarrow> ('d \<Rightarrow> 'd) \<Rightarrow> (('d, 'x) stored_scheme, unit) op" where
  "writing F f = statement F (\<lambda>d. ((), f d))"

text \<open>
  \<^verbatim>\<open>async with database.transaction()\<close>: what leaves the body by an exception, whatever kind, rolls
  the tables back; beginning and committing are steps that may fail, and then nothing is committed.
\<close>

definition db_transaction :: "faults \<Rightarrow> (('d, 'x) stored_scheme, 'a) op \<Rightarrow> (('d, 'x) stored_scheme, 'a) op" where
  "db_transaction F m = (\<lambda>s. case bnd (thn (writing F id) m) (\<lambda>x. thn (writing F id) (retn x)) s of
       (Inr x, s') \<Rightarrow> (Inr x, s')
     | (Inl e, s') \<Rightarrow> (Inl e, s'\<lparr>st_db := st_db s\<rparr>))"

text \<open>\<^verbatim>\<open>try: m except Exception: log(...)\<close>: neither a cancellation nor the death of the process is caught.\<close>

definition swallowed :: "('s, unit) op \<Rightarrow> ('s, unit) op" where
  "swallowed m = (\<lambda>s. case m s of
       (Inl e, s') \<Rightarrow> if e = CancelledError \<or> e = Crash then (Inl e, s') else (Inr (), s')
     | (Inr x, s') \<Rightarrow> (Inr x, s'))"

lemma triple_statement:
  "(\<And>s t. P s \<Longrightarrow> Q (fst (f (st_db s))) (s\<lparr>st_tick := t, st_db := snd (f (st_db s))\<rparr>)) \<Longrightarrow>
   (\<And>s t. P s \<Longrightarrow> E (s\<lparr>st_tick := t\<rparr>)) \<Longrightarrow> triple P (statement F f) Q E"
  unfolding triple_def statement_def Let_def
  by (auto split: option.split prod.split) (metis fst_conv snd_conv)

lemma triple_reading:
  "(\<And>s t. P s \<Longrightarrow> Q (f (st_db s)) (s\<lparr>st_tick := t\<rparr>)) \<Longrightarrow> (\<And>s t. P s \<Longrightarrow> E (s\<lparr>st_tick := t\<rparr>)) \<Longrightarrow>
   triple P (reading F f) Q E"
  unfolding reading_def by (rule triple_statement) simp_all

text \<open>Reading before the rest, with what was read.\<close>

lemma triple_reading_bnd:
  assumes "\<And>x. triple (\<lambda>s. P s \<and> f (st_db s) = x) (k x) Q E"
    "\<And>s t. P s \<Longrightarrow> P (s\<lparr>st_tick := t\<rparr>)" "\<And>s t. P s \<Longrightarrow> E (s\<lparr>st_tick := t\<rparr>)"
  shows "triple P (bnd (reading F f) k) Q E"
  by (rule triple_bnd [OF triple_reading assms(1)]) (auto simp: assms)

lemma triple_writing:
  "(\<And>s t. P s \<Longrightarrow> Q () (s\<lparr>st_tick := t, st_db := f (st_db s)\<rparr>)) \<Longrightarrow> (\<And>s t. P s \<Longrightarrow> E (s\<lparr>st_tick := t\<rparr>)) \<Longrightarrow>
   triple P (writing F f) Q E"
  unfolding writing_def by (rule triple_statement) simp_all

lemma triple_swallowed: "triple P m Q E \<Longrightarrow> (\<And>s. E s \<Longrightarrow> Q () s) \<Longrightarrow> triple P (swallowed m) Q E"
  unfolding triple_def swallowed_def by (auto split: prod.split sum.split)

lemma keeps_swallowed [keeps_intros]: "keeps P m \<Longrightarrow> keeps P (swallowed m)"
  unfolding keeps_def swallowed_def by (fastforce split: prod.splits sum.splits)

end
