(* ===== verification/History.thy ===== *)
theory History
  imports Tables Rules "HOL-Library.Product_Lexorder"
begin

text \<open>
  The durable history of multiplayer matches: the tables and statements of
  \<^verbatim>\<open>app/repositories/mp_matches.py\<close>, the producers of
  \<^verbatim>\<open>app/services/multiplayer/match_history.py\<close> that write them as matches open, finish a game and
  close, and the service of \<^verbatim>\<open>app/services/multiplayer/match_history_reader.py\<close> that reads them.
\<close>

section \<open>Rows\<close>

record mp_match =
  mm_key :: int
  mm_title :: pystr
  mm_host :: int
  mm_public :: bool
  mm_created :: rat
  mm_disbanded :: "rat option"

text \<open>The participants are a text column with a JSON array.\<close>

record mp_game =
  mg_key :: int
  mg_match :: int
  mg_map_md5 :: pystr
  mg_map_id :: int
  mg_map_name :: pystr
  mg_mode :: int
  mg_mods :: int
  mg_win_condition :: int
  mg_team_type :: int
  mg_freemods :: bool
  mg_scrim :: bool
  mg_participant_count :: nat
  mg_participants :: "pystr option"
  mg_started :: rat
  mg_ended :: rat

text \<open>\<^verbatim>\<open>MpMatchGameScoreInput\<close>, and the row it becomes.\<close>

record score_input =
  si_user :: int
  si_team :: int
  si_mods :: int
  si_score :: int
  si_max_combo :: int
  si_n300 :: int
  si_n100 :: int
  si_n50 :: int
  si_geki :: int
  si_katu :: int
  si_miss :: int
  si_acc :: rat
  si_perfect :: bool
  si_passed :: bool

record mp_score =
  ms_key :: int
  ms_game :: int
  ms_placement :: nat
  ms_result :: score_input
  ms_created :: rat

record match_tables =
  mt_matches :: "mp_match table"
  mt_games :: "mp_game table"
  mt_scores :: "mp_score table"

text \<open>
  With the tables, the ids that were handed back to the live matches (\<^verbatim>\<open>Match.db_id\<close>).
\<close>

record history = "match_tables stored" +
  hy_stash :: "nat \<Rightarrow> int option"

type_synonym 'a yop = "(history, 'a) op"

text \<open>The schedule of failures, the clock of the database, and what \<^verbatim>\<open>FLOAT(6, 3)\<close> stores.\<close>

record history_env =
  he_faults :: faults
  he_now :: "nat \<Rightarrow> rat"
  he_acc_column :: "rat \<Rightarrow> rat"

definition he_time :: "history_env \<Rightarrow> rat yop" where
  "he_time E = gets (\<lambda>s. he_now E (st_tick s))"

section \<open>The column of participants\<close>

text \<open>\<^verbatim>\<open>json.dumps(participants, separators=(",", ":"))\<close>, and reading such a text back.\<close>

definition dump_ints :: "int list \<Rightarrow> pystr" where
  "dump_ints ns = 91 # join_with 44 (map str_int ns) @ [93]"

definition json_int :: "pystr \<Rightarrow> int result" where
  "json_int t = bindE (py_int ascii_digit t) (\<lambda>n. if str_int n = t then Inr n else Inl ValueError)"

definition load_ints :: "pystr \<Rightarrow> int list result" where
  "load_ints t =
     (if t = [91, 93] then Inr []
      else if t \<noteq> [] \<and> hd t = 91 \<and> tl t \<noteq> [] \<and> last t = 93
      then mapE json_int (split_on 44 (butlast (tl t)))
      else Inl ValueError)"

text \<open>\<^verbatim>\<open>_deserialize_game\<close>: the row with its participants.\<close>

definition deserialize_game :: "mp_game \<Rightarrow> (mp_game \<times> int list) result" where
  "deserialize_game g = (case mg_participants g of
       None \<Rightarrow> Inr (g, [])
     | Some t \<Rightarrow> bindE (load_ints t) (\<lambda>ns. Inr (g, ns)))"

section \<open>The statements\<close>

text \<open>\<^verbatim>\<open>create_match\<close>; the row is read back, and the assertion that it is there holds.\<close>

definition create_match :: "history_env \<Rightarrow> pystr \<Rightarrow> int \<Rightarrow> bool \<Rightarrow> mp_match yop" where
  "create_match E name host public =
     bnd (he_time E) (\<lambda>now.
     bnd (statement (he_faults E) (\<lambda>d. (t_next (mt_matches d),
        d\<lparr>mt_matches := add_row (\<lambda>i. \<lparr>mm_key = i, mm_title = take 50 name, mm_host = host, mm_public = public,
            mm_created = now, mm_disbanded = None\<rparr>) (mt_matches d)\<rparr>))) (\<lambda>i.
     bnd (reading (he_faults E) (\<lambda>d. row_of mm_key i (mt_matches d))) (the_or AssertionError)))"

definition mark_disbanded :: "history_env \<Rightarrow> int \<Rightarrow> unit yop" where
  "mark_disbanded E i =
     bnd (he_time E) (\<lambda>now.
       writing (he_faults E) (\<lambda>d. d\<lparr>mt_matches := update_rows (\<lambda>m. mm_key m = i \<and> mm_disbanded m = None)
         (\<lambda>m. m\<lparr>mm_disbanded := Some now\<rparr>) (mt_matches d)\<rparr>))"

text \<open>The end of the game is not passed by the producer, so it is the time of the statement.\<close>

definition game_row :: "rat \<Rightarrow> int \<Rightarrow> completed_game \<Rightarrow> int \<Rightarrow> mp_game" where
  "game_row now match_id g i =
     \<lparr>mg_key = i, mg_match = match_id, mg_map_md5 = cg_map_md5 g, mg_map_id = cg_map_id g,
      mg_map_name = take 256 (cg_map_name g), mg_mode = cg_mode g, mg_mods = cg_mods g,
      mg_win_condition = cg_win_condition g, mg_team_type = cg_team_type g, mg_freemods = cg_freemods g,
      mg_scrim = cg_scrim g, mg_participant_count = length (cg_participants g),
      mg_participants = Some (dump_ints (cg_participants g)),
      mg_started = (case cg_started_at g of Some t \<Rightarrow> t | None \<Rightarrow> now), mg_ended = now\<rparr>"

definition record_game :: "history_env \<Rightarrow> int \<Rightarrow> completed_game \<Rightarrow> (mp_game \<times> int list) yop" where
  "record_game E match_id g =
     bnd (he_time E) (\<lambda>now.
     bnd (statement (he_faults E) (\<lambda>d. (t_next (mt_games d),
        d\<lparr>mt_games := add_row (game_row now match_id g) (mt_games d)\<rparr>))) (\<lambda>i.
     bnd (reading (he_faults E) (\<lambda>d. row_of mg_key i (mt_games d))) (\<lambda>row.
     bnd (the_or AssertionError row) (\<lambda>g. lift_result (deserialize_game g)))))"

text \<open>
  \<^verbatim>\<open>_ranked_scores\<close>: Python's sort by a pair, reversed, is stable, as the sort by the opposite of
  both.
\<close>

definition metric :: "int \<Rightarrow> score_input \<Rightarrow> rat" where
  "metric win_condition s =
     (if win_condition = 1 then si_acc s
      else if win_condition = 2 then of_int (si_max_combo s) else of_int (si_score s))"

definition ranked_order :: "int \<Rightarrow> score_input list \<Rightarrow> score_input list" where
  "ranked_order win_condition scores = sort_key (\<lambda>s. (\<not> si_passed s, - metric win_condition s)) scores"

definition ranked_scores :: "int \<Rightarrow> score_input list \<Rightarrow> (nat \<times> score_input) list" where
  "ranked_scores win_condition scores = List.enumerate 1 (ranked_order win_condition scores)"

text \<open>\<^verbatim>\<open>execute_many\<close> sends one statement for each row, outside a transaction.\<close>

definition insert_score :: "history_env \<Rightarrow> int \<Rightarrow> nat \<times> score_input \<Rightarrow> unit yop" where
  "insert_score E game_id = (\<lambda>(placement, s).
     bnd (he_time E) (\<lambda>now.
       writing (he_faults E) (\<lambda>d. d\<lparr>mt_scores := add_row (\<lambda>i. \<lparr>ms_key = i, ms_game = game_id,
         ms_placement = placement, ms_result = s\<lparr>si_acc := he_acc_column E (si_acc s)\<rparr>, ms_created = now\<rparr>)
         (mt_scores d)\<rparr>)))"

definition record_game_scores :: "history_env \<Rightarrow> int \<Rightarrow> int \<Rightarrow> score_input list \<Rightarrow> nat yop" where
  "record_game_scores E game_id win_condition scores =
     (if scores = [] then retn 0
      else thn (foreach (ranked_scores win_condition scores) (insert_score E game_id))
        (retn (length (ranked_scores win_condition scores))))"

section \<open>The producers\<close>

text \<open>\<^verbatim>\<open>_decode_participant_scores\<close>: a frame that does not decode drops its participant.\<close>

definition score_input_of :: "int \<Rightarrow> participant_frame \<Rightarrow> score_frame \<Rightarrow> score_input result" where
  "score_input_of mode_vn f sf = bindE (scoreframe_accuracy sf mode_vn) (\<lambda>acc. Inr
     \<lparr>si_user = pf_user_id f, si_team = pf_team f, si_mods = pf_mods f, si_score = total_score sf,
      si_max_combo = max_combo sf, si_n300 = num300 sf, si_n100 = num100 sf, si_n50 = num50 sf,
      si_geki = num_geki sf, si_katu = num_katu sf, si_miss = num_miss sf, si_acc = acc,
      si_perfect = sf_perfect sf, si_passed = pf_passed f\<rparr>)"

fun decode_participant_scores :: "int \<Rightarrow> participant_frame list \<Rightarrow> score_input list result" where
  "decode_participant_scores mode_vn [] = Inr []"
| "decode_participant_scores mode_vn (f # fs) =
     (case decode_scoreframe (pf_raw f) of
        None \<Rightarrow> decode_participant_scores mode_vn fs
      | Some sf \<Rightarrow> bindE (score_input_of mode_vn f sf) (\<lambda>x.
          bindE (decode_participant_scores mode_vn fs) (\<lambda>xs. Inr (x # xs))))"

text \<open>
  \<^verbatim>\<open>MpMatchHistoryStore\<close>: the producers are given the statements they may send, and what to do
  with the id of a new match.
\<close>

record 'h match_store =
  store_create :: "pystr \<Rightarrow> int \<Rightarrow> bool \<Rightarrow> ('h, mp_match) op"
  store_game :: "int \<Rightarrow> completed_game \<Rightarrow> ('h, mp_game \<times> int list) op"
  store_scores :: "int \<Rightarrow> int \<Rightarrow> score_input list \<Rightarrow> ('h, nat) op"
  store_disband :: "int \<Rightarrow> ('h, unit) op"

definition persist_match_created ::
  "'h match_store \<Rightarrow> (int \<Rightarrow> ('h, unit) op) \<Rightarrow> pystr \<Rightarrow> int \<Rightarrow> bool \<Rightarrow> ('h, unit) op" where
  "persist_match_created S on_persisted name host public =
     swallowed (bnd (store_create S name host public) (\<lambda>m. on_persisted (mm_key m)))"

definition persist_scoreboard :: "'h match_store \<Rightarrow> completed_game \<Rightarrow> mp_game \<times> int list \<Rightarrow> ('h, unit) op" where
  "persist_scoreboard S g row =
     (if cg_score_frames g = [] then skip
      else bnd (lift_result (decode_participant_scores (cg_mode g mod 4) (cg_score_frames g))) (\<lambda>scores.
        if scores = [] then skip
        else thn (store_scores S (mg_key (fst row)) (cg_win_condition g) scores) skip))"

definition persist_game_completed :: "'h match_store \<Rightarrow> completed_game \<Rightarrow> ('h, unit) op" where
  "persist_game_completed S g = (case cg_match_db_id g of
       None \<Rightarrow> skip
     | Some i \<Rightarrow> swallowed (bnd (store_game S i g) (persist_scoreboard S g)))"

definition persist_match_disbanded :: "'h match_store \<Rightarrow> int option \<Rightarrow> ('h, unit) op" where
  "persist_match_disbanded S db_id = (case db_id of
       None \<Rightarrow> skip
     | Some i \<Rightarrow> swallowed (store_disband S i))"

text \<open>The store of the repository, and the callback the handler passes.\<close>

definition repository_store :: "history_env \<Rightarrow> history match_store" where
  "repository_store E = \<lparr>store_create = create_match E, store_game = record_game E,
     store_scores = record_game_scores E, store_disband = mark_disbanded E\<rparr>"

definition stash_db_id :: "nat \<Rightarrow> int \<Rightarrow> unit yop" where
  "stash_db_id m i = modify (\<lambda>h. h\<lparr>hy_stash := (hy_stash h)(m := Some i)\<rparr>)"

section \<open>The reading side\<close>

definition before :: "('r \<Rightarrow> int) \<Rightarrow> int option \<Rightarrow> 'r \<Rightarrow> bool" where
  "before key cursor r = (case cursor of None \<Rightarrow> True | Some i \<Rightarrow> key r < i)"

text \<open>\<^verbatim>\<open>ORDER BY id DESC LIMIT limit\<close> of the rows that satisfy a condition, before a cursor.\<close>

definition page_of :: "('r \<Rightarrow> int) \<Rightarrow> ('r \<Rightarrow> bool) \<Rightarrow> int option \<Rightarrow> nat \<Rightarrow> 'r table \<Rightarrow> 'r list" where
  "page_of key p cursor limit t =
     take limit (rev (sort_key key (filter (\<lambda>r. p r \<and> before key cursor r) (t_rows t))))"

definition repo_recent_matches :: "int option \<Rightarrow> nat \<Rightarrow> bool \<Rightarrow> match_tables \<Rightarrow> mp_match list" where
  "repo_recent_matches before_id limit public_only d =
     page_of mm_key (\<lambda>m. public_only \<longrightarrow> mm_public m) before_id limit (mt_matches d)"

definition repo_games_for_match :: "int \<Rightarrow> int option \<Rightarrow> nat \<Rightarrow> match_tables \<Rightarrow> (mp_game \<times> int list) list result" where
  "repo_games_for_match i before_id limit d =
     mapE deserialize_game (page_of mg_key (\<lambda>g. mg_match g = i) before_id limit (mt_games d))"

definition repo_fetch_game :: "int \<Rightarrow> match_tables \<Rightarrow> (mp_game \<times> int list) option result" where
  "repo_fetch_game i d = (case row_of mg_key i (mt_games d) of
       None \<Rightarrow> Inr None
     | Some g \<Rightarrow> bindE (deserialize_game g) (\<lambda>x. Inr (Some x)))"

definition repo_scores_for_game :: "int \<Rightarrow> match_tables \<Rightarrow> mp_score list" where
  "repo_scores_for_game i d = sort_key ms_placement (filter (\<lambda>s. ms_game s = i) (t_rows (mt_scores d)))"

record viewer =
  vw_id :: "int option"
  vw_staff :: bool

definition is_visible_to :: "viewer \<Rightarrow> mp_match \<Rightarrow> bool" where
  "is_visible_to v m \<longleftrightarrow> (if mm_public m then True else if vw_staff v then True else vw_id v = Some (mm_host m))"

definition fetch_recent_matches :: "int option \<Rightarrow> nat \<Rightarrow> match_tables \<Rightarrow> mp_match list" where
  "fetch_recent_matches before_id limit d = repo_recent_matches before_id limit True d"

definition fetch_match :: "viewer \<Rightarrow> int \<Rightarrow> match_tables \<Rightarrow> mp_match option" where
  "fetch_match v i d = (case row_of mm_key i (mt_matches d) of
       None \<Rightarrow> None
     | Some m \<Rightarrow> if \<not> is_visible_to v m then None else Some m)"

definition fetch_games :: "viewer \<Rightarrow> int \<Rightarrow> int option \<Rightarrow> nat \<Rightarrow> match_tables \<Rightarrow>
    (mp_game \<times> int list) list option result" where
  "fetch_games v i before_id limit d = (case row_of mm_key i (mt_matches d) of
       None \<Rightarrow> Inr None
     | Some m \<Rightarrow>
         if \<not> is_visible_to v m then Inr None
         else bindE (repo_games_for_match i before_id limit d) (\<lambda>gs. Inr (Some gs)))"

definition fetch_game_scores :: "viewer \<Rightarrow> int \<Rightarrow> int \<Rightarrow> match_tables \<Rightarrow> mp_score list option result" where
  "fetch_game_scores v i game_id d = (case row_of mm_key i (mt_matches d) of
       None \<Rightarrow> Inr None
     | Some m \<Rightarrow>
         if \<not> is_visible_to v m then Inr None
         else bindE (repo_fetch_game game_id d) (\<lambda>game. case game of
             None \<Rightarrow> Inr None
           | Some (g, _) \<Rightarrow>
               if mg_match g \<noteq> i then Inr None else Inr (Some (repo_scores_for_game game_id d))))"

end
