(* ===== verification/Records.thy ===== *)
theory Records
  imports History "HOL-Library.Sublist" "HOL-Library.Multiset"
begin

text \<open>
  What the history of the matches promises: its rows refer to each other, a private match is not
  disclosed, scrolling through the public matches misses none, and a scoreboard is ranked.
\<close>

section \<open>The participants of a game\<close>

lemma split_on_plain: "c \<notin> set w \<Longrightarrow> split_on c w = [w]"
  by (induction w) auto

lemma split_on_cons: "c \<notin> set w \<Longrightarrow> split_on c (w @ c # s) = w # split_on c s"
proof (induction w)
  case Nil
  have "split_on c s \<noteq> []" by (induction s) (auto split: list.split)
  then show ?case by (cases "split_on c s") simp_all
qed auto

lemma split_on_join: "ws \<noteq> [] \<Longrightarrow> \<forall>w \<in> set ws. c \<notin> set w \<Longrightarrow> split_on c (join_with c ws) = ws"
proof (induction ws)
  case (Cons w ws)
  then show ?case by (cases ws) (simp_all add: split_on_plain split_on_cons)
qed simp

lemma str_int_plain: "44 \<notin> set (str_int n)"
  by (auto simp: str_int_def dest!: nat_digits_ascii)

lemma str_int_nonempty: "str_int n \<noteq> []"
proof -
  have "nat_digits k \<noteq> []" for k by (subst nat_digits.simps) simp
  then show ?thesis by (simp add: str_int_def)
qed

lemma join_with_nonempty: "ws \<noteq> [] \<Longrightarrow> \<forall>w \<in> set ws. w \<noteq> [] \<Longrightarrow> join_with c ws \<noteq> []"
  by (cases ws; cases "tl ws") auto

lemma load_dump_ints: "load_ints (dump_ints ns) = Inr ns"
proof (cases "ns = []")
  case False
  then have j: "join_with 44 (map str_int ns) \<noteq> []" by (simp add: join_with_nonempty str_int_nonempty)
  have "mapE json_int (map str_int ns) = Inr ns"
    by (induction ns) (simp_all add: json_int_def py_int_str_int)
  moreover have "split_on 44 (join_with 44 (map str_int ns)) = map str_int ns"
    using False by (simp add: split_on_join str_int_plain)
  ultimately show ?thesis
    using j by (simp add: load_ints_def dump_ints_def butlast_append)
qed (simp add: load_ints_def dump_ints_def)

section \<open>What the producers rely on\<close>

text \<open>
  The contract of the store: with the ids of the matches and of the games that are entered, a new
  match gets a new entry, a game may be entered for a match that is entered, a score for a game, and no
  statement, failing or not, takes an entry away.
\<close>

locale match_store_contract =
  fixes S :: "'h match_store" and I :: "'h \<Rightarrow> bool" and matches games :: "'h \<Rightarrow> int set"
  assumes create: "triple (\<lambda>h. I h \<and> M \<subseteq> matches h) (store_create S name host public)
        (\<lambda>m h. I h \<and> M \<subseteq> matches h \<and> mm_key m \<in> matches h) (\<lambda>h. I h \<and> M \<subseteq> matches h)"
    and game: "i \<in> M \<Longrightarrow> triple (\<lambda>h. I h \<and> M \<subseteq> matches h) (store_game S i g)
        (\<lambda>x h. I h \<and> M \<subseteq> matches h \<and> mg_key (fst x) \<in> games h) (\<lambda>h. I h \<and> M \<subseteq> matches h)"
    and scores: "triple (\<lambda>h. I h \<and> M \<subseteq> matches h \<and> k \<in> games h) (store_scores S k w xs)
        (\<lambda>_ h. I h \<and> M \<subseteq> matches h) (\<lambda>h. I h \<and> M \<subseteq> matches h)"
    and disband: "i \<in> M \<Longrightarrow> keeps (\<lambda>h. I h \<and> M \<subseteq> matches h) (store_disband S i)"
begin

abbreviation good :: "int set \<Rightarrow> 'h \<Rightarrow> bool" where
  "good M h \<equiv> I h \<and> M \<subseteq> matches h"

lemma created:
  assumes "\<And>i. triple (\<lambda>h. good M h \<and> i \<in> matches h) (on_persisted i) (\<lambda>_. good M) (good M)"
  shows "keeps (good M) (persist_match_created S on_persisted name host public)"
  unfolding persist_match_created_def
  by (rule keeps_swallowed) (simp only: keeps_triple, rule triple_bnd [OF create], rule triple_conseq [OF assms]; simp)

lemma completed:
  assumes "set_option (cg_match_db_id g) \<subseteq> M"
  shows "keeps (good M) (persist_game_completed S g)"
proof (cases "cg_match_db_id g")
  case (Some i)
  have "triple (\<lambda>h. good M h \<and> mg_key (fst x) \<in> games h) (persist_scoreboard S g x) (\<lambda>_. good M) (good M)" for x
  proof -
    let ?P = "\<lambda>h. good M h \<and> mg_key (fst x) \<in> games h"
    have "triple ?P (store_scores S (mg_key (fst x)) w xs) (\<lambda>_. good M) (good M)" for w xs
      by (rule triple_conseq [OF scores]) simp_all
    then have t: "triple ?P (thn (store_scores S (mg_key (fst x)) w xs) skip) (\<lambda>_. good M) (good M)" for w xs
      by (rule triple_thn) (simp add: triple_skip)
    have l: "triple ?P (lift_result r) (\<lambda>_. ?P) (good M)" for r :: "score_input list result"
      by (rule triple_lift) simp_all
    show ?thesis
      unfolding persist_scoreboard_def
      by (intro triple_if triple_bnd [OF l] t) (rule triple_skip; simp)+
  qed
  then have "keeps (good M) (bnd (store_game S i g) (persist_scoreboard S g))"
    unfolding keeps_triple by (intro triple_bnd [OF game]) (use assms Some in auto)
  then show ?thesis using Some by (simp add: persist_game_completed_def keeps_swallowed)
qed (simp add: persist_game_completed_def keeps_skip)

lemma disbanded: "set_option i \<subseteq> M \<Longrightarrow> keeps (good M) (persist_match_disbanded S i)"
  by (cases i) (simp_all add: persist_match_disbanded_def keeps_skip keeps_swallowed disband)

end

section \<open>The repository keeps the contract\<close>

definition match_ids :: "match_tables \<Rightarrow> int set" where
  "match_ids d = mm_key ` set (t_rows (mt_matches d))"

definition game_ids :: "match_tables \<Rightarrow> int set" where
  "game_ids d = mg_key ` set (t_rows (mt_games d))"

definition tables_linked :: "match_tables \<Rightarrow> bool" where
  "tables_linked d \<longleftrightarrow> keyed mm_key (mt_matches d) \<and> keyed mg_key (mt_games d) \<and> keyed ms_key (mt_scores d) \<and>
     (\<forall>g \<in> set (t_rows (mt_games d)). mg_match g \<in> match_ids d \<and>
        (\<exists>ns. deserialize_game g = Inr (g, ns) \<and> length ns = mg_participant_count g)) \<and>
     (\<forall>s \<in> set (t_rows (mt_scores d)). ms_game s \<in> game_ids d)"

definition linked :: "history \<Rightarrow> bool" where
  "linked h \<longleftrightarrow> tables_linked (st_db h) \<and> (\<forall>m i. hy_stash h m = Some i \<longrightarrow> i \<in> match_ids (st_db h))"

lemma linked_tick [simp]: "linked (h\<lparr>st_tick := n\<rparr>) = linked h"
  by (simp add: linked_def)

lemma deserialize_game_row: "deserialize_game (game_row now i g k) = Inr (game_row now i g k, cg_participants g)"
  by (simp add: deserialize_game_def game_row_def load_dump_ints)

lemma linked_add_match:
  assumes "linked h" "\<And>i. mm_key (mk i) = i" "d = st_db h"
  shows "linked (h\<lparr>st_tick := n, st_db := d\<lparr>mt_matches := add_row mk (mt_matches d)\<rparr>\<rparr>)"
  using assms by (auto simp: linked_def tables_linked_def match_ids_def game_ids_def keyed_add)

lemma match_ids_disband:
  "match_ids (d\<lparr>mt_matches := update_rows p (\<lambda>m. m\<lparr>mm_disbanded := t\<rparr>) (mt_matches d)\<rparr>) = match_ids d"
  by (simp add: match_ids_def keys_update del: set_map rows_update flip: set_map)

lemma linked_disband:
  assumes "linked h" "d = st_db h"
  shows "linked (h\<lparr>st_tick := n, st_db := d\<lparr>mt_matches := update_rows p (\<lambda>m. m\<lparr>mm_disbanded := t\<rparr>) (mt_matches d)\<rparr>\<rparr>)"
  using assms match_ids_disband by (simp add: linked_def tables_linked_def game_ids_def keyed_update)

lemma linked_add_game:
  assumes "linked h" "d = st_db h" "i \<in> match_ids d"
  shows "linked (h\<lparr>st_tick := n, st_db := d\<lparr>mt_games := add_row (game_row now i g) (mt_games d)\<rparr>\<rparr>)"
proof -
  have "mg_key (game_row now i g k) = k" "mg_match (game_row now i g k) = i"
    "mg_participant_count (game_row now i g k) = length (cg_participants g)" for k
    by (simp_all add: game_row_def)
  then show ?thesis
    using assms
    by (auto simp: linked_def tables_linked_def match_ids_def game_ids_def keyed_add deserialize_game_row)
qed

lemma linked_add_score:
  assumes "linked h" "d = st_db h" "\<And>i. ms_key (mk i) = i" "\<And>i. ms_game (mk i) \<in> game_ids d"
  shows "linked (h\<lparr>st_tick := n, st_db := d\<lparr>mt_scores := add_row mk (mt_scores d)\<rparr>\<rparr>)"
  using assms by (auto simp: linked_def tables_linked_def match_ids_def game_ids_def keyed_add)

lemma stash_kept [simp]: "hy_stash (st_db_update f h) = hy_stash h" "hy_stash (st_tick_update g h) = hy_stash h"
  by simp_all

lemma create_match_triple:
  "triple (\<lambda>h. linked h \<and> M \<subseteq> match_ids (st_db h)) (create_match E name host public)
     (\<lambda>m h. linked h \<and> M \<subseteq> match_ids (st_db h) \<and> mm_key m \<in> match_ids (st_db h))
     (\<lambda>h. linked h \<and> M \<subseteq> match_ids (st_db h))"
  unfolding create_match_def he_time_def
proof (rule triple_gets_bnd, rule triple_bnd [where R = "\<lambda>i h. linked h \<and> M \<subseteq> match_ids (st_db h) \<and> i \<in> match_ids (st_db h)"])
  fix i
  show "triple (\<lambda>h. linked h \<and> M \<subseteq> match_ids (st_db h) \<and> i \<in> match_ids (st_db h))
     (bnd (reading (he_faults E) (\<lambda>d. row_of mm_key i (mt_matches d))) (the_or AssertionError))
     (\<lambda>m h. linked h \<and> M \<subseteq> match_ids (st_db h) \<and> mm_key m \<in> match_ids (st_db h))
     (\<lambda>h. linked h \<and> M \<subseteq> match_ids (st_db h))"
    by (rule triple_reading_bnd, rule triple_the_or) (auto simp: match_ids_def dest: row_of_Some)
qed (rule triple_statement; auto intro: linked_add_match simp: match_ids_def)

lemma record_game_triple:
  assumes "i \<in> M"
  shows "triple (\<lambda>h. linked h \<and> M \<subseteq> match_ids (st_db h)) (record_game E i g)
     (\<lambda>x h. linked h \<and> M \<subseteq> match_ids (st_db h) \<and> mg_key (fst x) \<in> game_ids (st_db h))
     (\<lambda>h. linked h \<and> M \<subseteq> match_ids (st_db h))"
  unfolding record_game_def he_time_def
proof (rule triple_gets_bnd, rule triple_bnd [where R = "\<lambda>k h. linked h \<and> M \<subseteq> match_ids (st_db h)"])
  fix now
  show "triple (\<lambda>h. (linked h \<and> M \<subseteq> match_ids (st_db h)) \<and> he_now E (st_tick h) = now)
     (statement (he_faults E) (\<lambda>d. (t_next (mt_games d), d\<lparr>mt_games := add_row (game_row now i g) (mt_games d)\<rparr>)))
     (\<lambda>k h. linked h \<and> M \<subseteq> match_ids (st_db h)) (\<lambda>h. linked h \<and> M \<subseteq> match_ids (st_db h))"
    by (rule triple_statement) (use assms in \<open>auto intro!: linked_add_game simp: match_ids_def\<close>)
next
  fix k
  show "triple (\<lambda>h. linked h \<and> M \<subseteq> match_ids (st_db h))
     (bnd (reading (he_faults E) (\<lambda>d. row_of mg_key k (mt_games d)))
        (\<lambda>row. bnd (the_or AssertionError row) (\<lambda>g. lift_result (deserialize_game g))))
     (\<lambda>x h. linked h \<and> M \<subseteq> match_ids (st_db h) \<and> mg_key (fst x) \<in> game_ids (st_db h))
     (\<lambda>h. linked h \<and> M \<subseteq> match_ids (st_db h))"
  proof (rule triple_reading_bnd)
    fix row
    show "triple (\<lambda>h. (linked h \<and> M \<subseteq> match_ids (st_db h)) \<and> row_of mg_key k (mt_games (st_db h)) = row)
       (bnd (the_or AssertionError row) (\<lambda>g. lift_result (deserialize_game g)))
       (\<lambda>x h. linked h \<and> M \<subseteq> match_ids (st_db h) \<and> mg_key (fst x) \<in> game_ids (st_db h))
       (\<lambda>h. linked h \<and> M \<subseteq> match_ids (st_db h))"
      by (rule triple_bnd [where R = "\<lambda>g h. linked h \<and> M \<subseteq> match_ids (st_db h) \<and> mg_key g \<in> game_ids (st_db h)"],
          rule triple_the_or, auto simp: game_ids_def dest: row_of_Some)
        (rule triple_lift; auto simp: deserialize_game_def bindE_Inr_iff split: option.splits)
  qed auto
qed

lemma record_scores_keeps:
  "keeps (\<lambda>h. linked h \<and> M \<subseteq> match_ids (st_db h) \<and> k \<in> game_ids (st_db h)) (record_game_scores E k w xs)"
proof -
  let ?P = "\<lambda>h. linked h \<and> M \<subseteq> match_ids (st_db h) \<and> k \<in> game_ids (st_db h)"
  have "keeps ?P (insert_score E k ps)" for ps
    unfolding insert_score_def he_time_def keeps_triple split_beta
    by (rule triple_gets_bnd, rule triple_writing)
      (auto intro!: linked_add_score simp: match_ids_def game_ids_def)
  then show ?thesis
    unfolding record_game_scores_def by (intro keeps_intros)
qed

lemma mark_disbanded_keeps: "keeps (\<lambda>h. linked h \<and> M \<subseteq> match_ids (st_db h)) (mark_disbanded E i)"
  unfolding mark_disbanded_def he_time_def keeps_triple
  by (rule triple_gets_bnd, rule triple_writing) (simp_all add: linked_disband match_ids_disband)

interpretation recording: match_store_contract "repository_store E" linked "\<lambda>h. match_ids (st_db h)" "\<lambda>h. game_ids (st_db h)" for E
proof
  show "triple (\<lambda>h. linked h \<and> M \<subseteq> match_ids (st_db h) \<and> k \<in> game_ids (st_db h)) (store_scores (repository_store E) k w xs)
     (\<lambda>_ h. linked h \<and> M \<subseteq> match_ids (st_db h)) (\<lambda>h. linked h \<and> M \<subseteq> match_ids (st_db h))" for M k w xs
    unfolding repository_store_def match_store.simps
    by (rule triple_conseq [OF record_scores_keeps [where M = M, unfolded keeps_triple]]) simp_all
qed (simp_all add: repository_store_def create_match_triple record_game_triple mark_disbanded_keeps)

section \<open>Histories\<close>

text \<open>
  What is written over the life of the server: a match \<open>m\<close> that opens, a game that is completed, a match
  that closes, the last two with the id the match holds then or held before it had one. Every step with
  a schedule of failures of its own.
\<close>

definition empty_history :: "history \<Rightarrow> bool" where
  "empty_history h \<longleftrightarrow> st_db h = \<lparr>mt_matches = empty_table, mt_games = empty_table, mt_scores = empty_table\<rparr> \<and>
     hy_stash h = (\<lambda>_. None)"

inductive record_step :: "history \<Rightarrow> history \<Rightarrow> bool" where
  match_opened: "h' = exec (persist_match_created (repository_store E) (stash_db_id m) name host public) h \<Longrightarrow> record_step h h'"
| game_played: "cg_match_db_id g = None \<or> cg_match_db_id g = hy_stash h m \<Longrightarrow>
    h' = exec (persist_game_completed (repository_store E) g) h \<Longrightarrow> record_step h h'"
| match_closed: "i = None \<or> i = hy_stash h m \<Longrightarrow>
    h' = exec (persist_match_disbanded (repository_store E) i) h \<Longrightarrow> record_step h h'"

inductive recorded :: "history \<Rightarrow> bool" where
  recorded_empty: "empty_history h \<Longrightarrow> recorded h"
| recorded_step: "recorded h \<Longrightarrow> record_step h h' \<Longrightarrow> recorded h'"

lemma stash_keeps:
  "triple (\<lambda>h. (linked h \<and> M \<subseteq> match_ids (st_db h)) \<and> i \<in> match_ids (st_db h)) (stash_db_id m i)
     (\<lambda>_ h. linked h \<and> M \<subseteq> match_ids (st_db h)) (\<lambda>h. linked h \<and> M \<subseteq> match_ids (st_db h))"
  unfolding stash_db_id_def by (rule triple_modify) (auto simp: linked_def)

lemma linked_step: "record_step h h' \<Longrightarrow> linked h \<Longrightarrow> linked h'"
proof (induction rule: record_step.induct)
  case (match_opened h' E m name host public h)
  then show ?case
    using keeps_exec [OF recording.created [where M = "{}", OF stash_keeps]] by simp
next
  case (game_played g h m h' E)
  then have "set_option (cg_match_db_id g) \<subseteq> match_ids (st_db h)" by (auto simp: linked_def)
  then show ?case using game_played keeps_exec [OF recording.completed, of g _ h E] by blast
next
  case (match_closed i h m h' E)
  then have "set_option i \<subseteq> match_ids (st_db h)" by (auto simp: linked_def)
  then show ?case using match_closed keeps_exec [OF recording.disbanded, of i _ h E] by blast
qed

lemma linked_recorded: "recorded h \<Longrightarrow> linked h"
proof (induction rule: recorded.induct)
  case (recorded_empty h)
  then show ?case by (simp add: empty_history_def linked_def tables_linked_def keyed_empty) (simp add: empty_table_def)
qed (rule linked_step)

text \<open>C18. In every history, whatever statements fail: the ids of the matches, of the games and of the scores
  are distinct, every game belongs to a match that is entered and every score to a game that is, and the
  participants of a game are read back from their column, as many as its count says.\<close>

theorem history_rows_linked:
  assumes "recorded h"
  shows "let d = st_db h in
    distinct (map mm_key (t_rows (mt_matches d))) \<and> distinct (map mg_key (t_rows (mt_games d))) \<and>
    distinct (map ms_key (t_rows (mt_scores d))) \<and>
    (\<forall>s \<in> set (t_rows (mt_scores d)). \<exists>g \<in> set (t_rows (mt_games d)). mg_key g = ms_game s) \<and>
    (\<forall>g \<in> set (t_rows (mt_games d)). (\<exists>m \<in> set (t_rows (mt_matches d)). mm_key m = mg_match g) \<and>
       (\<exists>ns. deserialize_game g = Inr (g, ns) \<and> length ns = mg_participant_count g))"
proof -
  have k: "distinct (map key (t_rows t))" if "keyed key t" for key :: "'r \<Rightarrow> int" and t
    using that by (simp add: keyed_def sorted_wrt_append strict_sorted_iff)
  show ?thesis
    using linked_recorded [OF assms]
    by (simp add: linked_def tables_linked_def k Let_def) (fastforce simp: match_ids_def game_ids_def)
qed

section \<open>Private matches\<close>

text \<open>
  \<open>seen v d\<close>: what the tables hold of the matches that \<open>v\<close> may see, their games and scores.
\<close>

definition seen_match :: "viewer \<Rightarrow> match_tables \<Rightarrow> int \<Rightarrow> bool" where
  "seen_match v d i \<longleftrightarrow> (\<exists>m \<in> set (t_rows (mt_matches d)). mm_key m = i \<and> is_visible_to v m)"

definition seen :: "viewer \<Rightarrow> match_tables \<Rightarrow> mp_match list \<times> mp_game list \<times> mp_score list" where
  "seen v d = (filter (is_visible_to v) (t_rows (mt_matches d)),
     filter (\<lambda>g. seen_match v d (mg_match g)) (t_rows (mt_games d)),
     filter (\<lambda>s. \<exists>g \<in> set (t_rows (mt_games d)). mg_key g = ms_game s \<and> seen_match v d (mg_match g))
       (t_rows (mt_scores d)))"

lemma find_filter: "keyed key t \<Longrightarrow> find (\<lambda>r. key r = i) (filter p (t_rows t)) =
    (case row_of key i t of None \<Rightarrow> None | Some r \<Rightarrow> if p r then Some r else None)"
proof -
  assume k: "keyed key t"
  let ?f = "find (\<lambda>r. key r = i) (filter p (t_rows t))"
  have s: "?f = Some r \<Longrightarrow> r \<in> set (t_rows t) \<and> p r \<and> key r = i" for r
    by (auto simp: find_Some_iff dest: nth_mem)
  have n: "?f = None \<longleftrightarrow> (\<forall>r \<in> set (t_rows t). p r \<longrightarrow> key r \<noteq> i)" by (auto simp: find_None_iff)
  show ?thesis
  proof (cases "row_of key i t")
    case None
    then have "?f = None" using n by (simp add: row_of_None)
    then show ?thesis using None by simp
  next
    case (Some r)
    then have r: "r \<in> set (t_rows t)" "key r = i" by (simp_all add: row_of_iff [OF k])
    have "?f = (if p r then Some r else None)"
    proof (cases ?f)
      case None
      then show ?thesis using n r by auto
    next
      case (Some r')
      then have "r' = r" "p r'" using s keyed_inj [OF k] r by blast+
      then show ?thesis using Some by simp
    qed
    then show ?thesis using Some by simp
  qed
qed

text \<open>Each answer, in terms of what is seen.\<close>

lemma fetch_match_seen:
  assumes "tables_linked d"
  shows "fetch_match v i d = find (\<lambda>m. mm_key m = i) (fst (seen v d))"
proof -
  have "keyed mm_key (mt_matches d)" using assms by (simp add: tables_linked_def)
  from find_filter [OF this, of i "is_visible_to v"] show ?thesis
    by (simp add: fetch_match_def seen_def split: option.split)
qed

lemma fetch_match_visible: "fetch_match v i d = Some m \<Longrightarrow> seen_match v d i"
  by (auto simp: fetch_match_def seen_match_def dest: row_of_Some split: option.splits if_splits)

lemma games_seen:
  assumes "seen_match v d i"
  shows "filter (\<lambda>g. mg_match g = i \<and> P g) (t_rows (mt_games d)) = filter (\<lambda>g. mg_match g = i \<and> P g) (fst (snd (seen v d)))"
  using assms by (auto simp: seen_def intro!: filter_cong)

lemma fetch_games_seen:
  "fetch_games v i c n d = (case fetch_match v i d of None \<Rightarrow> Inr None
     | Some m \<Rightarrow> bindE (mapE deserialize_game (take n (rev (sort_key mg_key
         (filter (\<lambda>g. mg_match g = i \<and> before mg_key c g) (fst (snd (seen v d)))))))) (\<lambda>gs. Inr (Some gs)))"
proof (cases "fetch_match v i d")
  case None
  then show ?thesis by (auto simp: fetch_match_def fetch_games_def split: option.splits if_splits)
next
  case (Some m)
  then have "fetch_games v i c n d = bindE (repo_games_for_match i c n d) (\<lambda>gs. Inr (Some gs))"
    by (auto simp: fetch_match_def fetch_games_def split: option.splits if_splits)
  then show ?thesis
    using Some games_seen [OF fetch_match_visible [OF Some]] by (simp add: repo_games_for_match_def page_of_def)
qed

lemma fetch_game_scores_seen:
  assumes "tables_linked d"
  shows "fetch_game_scores v i k d = (case fetch_match v i d of None \<Rightarrow> Inr None
     | Some m \<Rightarrow> (case find (\<lambda>g. mg_key g = k) (filter (\<lambda>g. mg_match g = i) (fst (snd (seen v d)))) of
           None \<Rightarrow> Inr None
         | Some g \<Rightarrow> Inr (Some (sort_key ms_placement (filter (\<lambda>s. ms_game s = k) (snd (snd (seen v d))))))))"
proof (cases "fetch_match v i d")
  case None
  then show ?thesis by (auto simp: fetch_match_def fetch_game_scores_def split: option.splits if_splits)
next
  case (Some m)
  then have s: "seen_match v d i" by (rule fetch_match_visible)
  have k: "keyed mg_key (mt_games d)" using assms by (simp add: tables_linked_def)
  have f: "find (\<lambda>g. mg_key g = k) (filter (\<lambda>g. mg_match g = i) (fst (snd (seen v d)))) =
      (case row_of mg_key k (mt_games d) of None \<Rightarrow> None | Some g \<Rightarrow> if mg_match g = i then Some g else None)"
    unfolding games_seen [OF s, of "\<lambda>_. True", simplified, symmetric] by (rule find_filter [OF k])
  have sc: "filter (\<lambda>s. ms_game s = k) (t_rows (mt_scores d)) = filter (\<lambda>s. ms_game s = k) (snd (snd (seen v d)))"
    if "row_of mg_key k (mt_games d) = Some g" "mg_match g = i" for g
    using that s by (auto simp: seen_def row_of_iff [OF k] intro!: filter_cong)
  have "fetch_game_scores v i k d = bindE (repo_fetch_game k d) (\<lambda>game. case game of None \<Rightarrow> Inr None
     | Some (g, _) \<Rightarrow> if mg_match g \<noteq> i then Inr None else Inr (Some (repo_scores_for_game k d)))"
    using Some by (auto simp: fetch_match_def fetch_game_scores_def split: option.splits if_splits)
  also have "\<dots> = (case row_of mg_key k (mt_games d) of None \<Rightarrow> Inr None
     | Some g \<Rightarrow> if mg_match g \<noteq> i then Inr None else Inr (Some (repo_scores_for_game k d)))"
  proof (cases "row_of mg_key k (mt_games d)")
    case (Some g)
    then obtain ns where "deserialize_game g = Inr (g, ns)"
      using assms by (auto simp: tables_linked_def row_of_iff [OF k])
    then show ?thesis using Some by (simp add: repo_fetch_game_def)
  qed (simp add: repo_fetch_game_def)
  finally show ?thesis
    using Some f sc by (auto simp: repo_scores_for_game_def split: option.split)
qed

lemma recent_seen: "fetch_recent_matches c n d =
    take n (rev (sort_key mm_key (filter (\<lambda>m. mm_public m \<and> before mm_key c m) (fst (seen v d)))))"
proof -
  have "filter (\<lambda>m. mm_public m \<and> before mm_key c m) (t_rows (mt_matches d)) =
      filter (\<lambda>m. mm_public m \<and> before mm_key c m) (fst (seen v d))"
    by (auto simp: seen_def is_visible_to_def intro!: filter_cong)
  then show ?thesis by (simp add: fetch_recent_matches_def repo_recent_matches_def page_of_def)
qed

text \<open>C15. What a viewer is answered does not depend on the matches it may not see: in two histories that
  agree on the matches that are public, or its own, or all for the staff, with their games and
  scores, every request has the same answer, so not even the existence of a private match is disclosed.\<close>

theorem private_matches_undisclosed:
  assumes "recorded h" "recorded h'" "seen v (st_db h) = seen v (st_db h')"
  shows "fetch_recent_matches c n (st_db h) = fetch_recent_matches c n (st_db h') \<and>
    fetch_match v i (st_db h) = fetch_match v i (st_db h') \<and>
    fetch_games v i c n (st_db h) = fetch_games v i c n (st_db h') \<and>
    fetch_game_scores v i k (st_db h) = fetch_game_scores v i k (st_db h')"
proof -
  have l: "tables_linked (st_db h)" "tables_linked (st_db h')"
    using assms(1,2) linked_recorded by (auto simp: linked_def)
  have m: "fetch_match v i (st_db h) = fetch_match v i (st_db h')"
    by (simp only: fetch_match_seen l assms(3))
  show ?thesis
    by (simp only: m fetch_games_seen fetch_game_scores_seen [OF l(1)] fetch_game_scores_seen [OF l(2)]
        recent_seen [where v = v] assms(3))
qed

section \<open>Scrolling\<close>

text \<open>
  A client asks for a page, then for the page before the last match it was shown, until a page is empty.
  Between two pages the tables may change: \<open>scroll\<close> is given what each request meets.
\<close>

fun scroll :: "nat \<Rightarrow> int option \<Rightarrow> match_tables list \<Rightarrow> mp_match list" where
  "scroll n cursor [] = []"
| "scroll n cursor (d # ds) =
     (let page = fetch_recent_matches cursor n d
      in if page = [] then [] else page @ scroll n (Some (mm_key (last page))) ds)"

definition index :: "match_tables \<Rightarrow> (int \<times> bool) list" where
  "index d = map (\<lambda>m. (mm_key m, mm_public m)) (t_rows (mt_matches d))"

definition public_ids :: "match_tables \<Rightarrow> int list" where
  "public_ids d = map mm_key (filter mm_public (t_rows (mt_matches d)))"

lemma public_ids_index: "public_ids d = map fst (filter snd (index d))"
  by (simp add: public_ids_def index_def filter_map comp_def)

text \<open>The index only grows at its end: the same contract, for another invariant.\<close>

lemma index_disband: "index (d\<lparr>mt_matches := update_rows p (\<lambda>m. m\<lparr>mm_disbanded := t\<rparr>) (mt_matches d)\<rparr>) = index d"
  by (simp add: index_def keys_update)

lemma growing_statements:
  "keeps (\<lambda>h. prefix L (index (st_db h))) (create_match E name host public)"
  "keeps (\<lambda>h. prefix L (index (st_db h))) (record_game E i g)"
  "keeps (\<lambda>h. prefix L (index (st_db h))) (insert_score E k ps)"
  "keeps (\<lambda>h. prefix L (index (st_db h))) (mark_disbanded E i)"
proof -
  let ?P = "\<lambda>h :: history. prefix L (index (st_db h))"
  have st: "keeps ?P (statement F f)" if "\<And>d. prefix L (index d) \<Longrightarrow> prefix L (index (snd (f d)))" for F and f :: "match_tables \<Rightarrow> 'z \<times> match_tables"
    unfolding keeps_triple by (rule triple_statement) (simp_all add: that)
  have r: "keeps ?P (reading F f)" for F and f :: "match_tables \<Rightarrow> 'z"
    unfolding reading_def by (rule st) simp
  show "keeps ?P (create_match E name host public)"
    unfolding create_match_def he_time_def
    by (intro keeps_intros st r) (simp add: index_def add_row_def prefix_append)
  show "keeps ?P (record_game E i g)"
    unfolding record_game_def he_time_def by (intro keeps_intros st r) (simp add: index_def)
  show "keeps ?P (insert_score E k ps)"
    unfolding insert_score_def he_time_def writing_def split_beta by (intro keeps_intros st) (simp add: index_def)
  show "keeps ?P (mark_disbanded E i)"
    unfolding mark_disbanded_def he_time_def writing_def by (intro keeps_intros st) (simp add: index_disband)
qed

interpretation growing: match_store_contract "repository_store E" "\<lambda>h. prefix L (index (st_db h))" "\<lambda>_. UNIV" "\<lambda>_. UNIV" for E L
proof
  show "triple (\<lambda>h. prefix L (index (st_db h)) \<and> M \<subseteq> UNIV \<and> k \<in> UNIV) (store_scores (repository_store E) k w xs)
     (\<lambda>_ h. prefix L (index (st_db h)) \<and> M \<subseteq> UNIV) (\<lambda>h. prefix L (index (st_db h)) \<and> M \<subseteq> UNIV)" for M k w xs
  proof -
    have "keeps (\<lambda>h. prefix L (index (st_db h))) (record_game_scores E k w xs)"
      unfolding record_game_scores_def by (intro keeps_intros growing_statements)
    then show ?thesis by (simp add: keeps_triple repository_store_def)
  qed
qed (simp_all add: repository_store_def growing_statements [unfolded keeps_triple] growing_statements(4))

lemma index_step: "record_step h h' \<Longrightarrow> prefix (index (st_db h)) (index (st_db h'))"
proof (induction rule: record_step.induct)
  case (match_opened h' E m name host public h)
  have s: "triple (\<lambda>h. (prefix (index (st_db k)) (index (st_db h)) \<and> {} \<subseteq> UNIV) \<and> i \<in> UNIV) (stash_db_id m i)
     (\<lambda>_ h. prefix (index (st_db k)) (index (st_db h)) \<and> {} \<subseteq> UNIV)
     (\<lambda>h. prefix (index (st_db k)) (index (st_db h)) \<and> {} \<subseteq> UNIV)" for k i
    unfolding stash_db_id_def by (rule triple_modify) simp
  show ?case unfolding match_opened using keeps_exec [OF growing.created [OF s], of h] by simp
next
  case (game_played g h m h' E)
  then show ?case using keeps_exec [OF growing.completed [where M = UNIV], of g "index (st_db h)" h E] by simp
next
  case (match_closed i h m h' E)
  then show ?case using keeps_exec [OF growing.disbanded [where M = UNIV], of i "index (st_db h)" h E] by simp
qed

text \<open>A page in terms of the public ids, which stand in the table in ascending order.\<close>

definition below :: "int option \<Rightarrow> int list \<Rightarrow> int list" where
  "below c ks = filter (\<lambda>k. case c of None \<Rightarrow> True | Some i \<Rightarrow> k < i) ks"

lemma page_ids:
  assumes "keyed mm_key (mt_matches d)"
  shows "map mm_key (fetch_recent_matches c n d) = take n (rev (below c (public_ids d)))"
proof -
  let ?r = "filter (\<lambda>m. mm_public m \<and> before mm_key c m) (t_rows (mt_matches d))"
  have "sorted (map mm_key (t_rows (mt_matches d)))"
    using assms by (simp add: keyed_def sorted_wrt_append strict_sorted_iff)
  then have "sorted (map mm_key ?r)" by (rule sorted_filter)
  then have s: "sort_key mm_key ?r = ?r" by (rule sort_key_id_if_sorted)
  have "map mm_key ?r = below c (public_ids d)"
    by (simp add: below_def public_ids_def filter_map comp_def before_def conj_commute cong: option.case_cong)
  then show ?thesis
    by (simp add: fetch_recent_matches_def repo_recent_matches_def page_of_def s flip: take_map rev_map)
qed

lemma below_page:
  assumes "sorted_wrt (<) ks" "rs = take n (rev (below c ks))" "rs \<noteq> []"
  shows "rev (below (Some (last rs)) ks) = drop n (rev (below c ks))"
proof -
  let ?b = "below c ks"
  have b: "sorted_wrt (<) ?b" using assms(1) by (simp add: below_def sorted_wrt_filter)
  let ?j = "length ?b - n"
  have cut: "?b = take ?j ?b @ drop ?j ?b" by simp
  have rs: "rs = rev (drop ?j ?b)" using assms(2) by (simp add: take_rev)
  then have ne: "drop ?j ?b \<noteq> []" and l: "last rs = hd (drop ?j ?b)" using assms(3) by (simp_all add: last_rev)
  have sw: "sorted_wrt (<) (take ?j ?b @ drop ?j ?b)" using b by simp
  have lo: "\<forall>k \<in> set (take ?j ?b). k < last rs"
    using sw ne l by (simp only: sorted_wrt_append) (metis hd_in_set)
  have hi: "\<forall>k \<in> set (drop ?j ?b). \<not> k < last rs"
    using sw ne l by (simp only: sorted_wrt_append) (metis list.exhaust_sel not_less_iff_gr_or_eq set_ConsD sorted_wrt.simps(2))
  have "filter (\<lambda>k. k < last rs) ?b = filter (\<lambda>k. k < last rs) (take ?j ?b) @ filter (\<lambda>k. k < last rs) (drop ?j ?b)"
    by (subst cut, subst filter_append) simp
  also have "\<dots> = take ?j ?b" using lo hi by (simp add: filter_empty_conv)
  finally have f: "filter (\<lambda>k. k < last rs) ?b = take ?j ?b" .
  have in_b: "last rs \<in> set ?b" using ne l by (metis hd_in_set in_set_dropD)
  have "below (Some (last rs)) ks = filter (\<lambda>k. k < last rs) ?b"
    using in_b by (auto simp: below_def split: option.splits intro!: filter_cong)
  then show ?thesis using f by (simp add: drop_rev)
qed

lemma below_later:
  assumes "sorted_wrt (<) ks'" "prefix ks ks'" "k \<in> set ks"
  shows "below (Some k) ks' = below (Some k) ks"
proof -
  obtain zs where z: "ks' = ks @ zs" using assms(2) by (auto simp: prefix_def)
  then have "\<forall>z \<in> set zs. k < z" using assms by (auto simp: sorted_wrt_append)
  then have "filter (\<lambda>z. z < k) zs = []" by (auto simp: filter_empty_conv)
  then show ?thesis using z by (simp add: below_def)
qed

definition later :: "match_tables \<Rightarrow> match_tables \<Rightarrow> bool" where
  "later d d' \<longleftrightarrow> keyed mm_key (mt_matches d') \<and> prefix (index d) (index d')"

lemma later_public: "later d d' \<Longrightarrow> prefix (public_ids d) (public_ids d') \<and> sorted_wrt (<) (public_ids d')"
proof -
  assume l: "later d d'"
  then have "sorted_wrt (<) (map mm_key (t_rows (mt_matches d')))" by (simp add: later_def keyed_def sorted_wrt_append)
  then have "sorted_wrt (<) (public_ids d')" by (simp add: public_ids_def sorted_wrt_map sorted_wrt_filter)
  moreover have "prefix (public_ids d) (public_ids d')"
    using l by (auto simp: later_def public_ids_index prefix_def)
  ultimately show ?thesis by simp
qed

lemma scroll_from:
  assumes "sorted_wrt (<) (public_ids d)" "\<forall>d' \<in> set ds. later d d'" "k \<in> set (public_ids d)"
  shows "map mm_key (scroll n (Some k) ds) = take (n * length ds) (rev (below (Some k) (public_ids d)))"
  using assms(2,3)
proof (induction ds arbitrary: k)
  case (Cons e ds)
  let ?page = "fetch_recent_matches (Some k) n e"
  let ?b = "below (Some k) (public_ids d)"
  have e: "keyed mm_key (mt_matches e)" "prefix (public_ids d) (public_ids e)" "sorted_wrt (<) (public_ids e)"
    using Cons.prems(1) later_public [of d e] by (simp_all add: later_def)
  have page: "map mm_key ?page = take n (rev ?b)"
    using page_ids [OF e(1)] below_later [OF e(3,2) Cons.prems(2)] by simp
  show ?case
  proof (cases "?page = []")
    case True
    then have "take n (rev ?b) = []" using page by simp
    then show ?thesis using True by (auto simp: Let_def)
  next
    case False
    then have ne: "take n (rev ?b) \<noteq> []" using page by (metis map_is_Nil_conv)
    have last: "mm_key (last ?page) = last (take n (rev ?b))" using page False by (metis last_map)
    then have "mm_key (last ?page) \<in> set (public_ids d)"
      using ne by (metis below_def filter_is_subset in_set_takeD last_in_set set_rev subsetD)
    then have "map mm_key (scroll n (Some (mm_key (last ?page))) ds) =
        take (n * length ds) (rev (below (Some (mm_key (last ?page))) (public_ids d)))"
      using Cons.IH Cons.prems(1) by simp
    also have "\<dots> = take (n * length ds) (drop n (rev ?b))"
      using below_page [OF assms(1) refl ne] last by simp
    finally have "map mm_key (scroll n (Some k) (e # ds)) = take n (rev ?b) @ take (n * length ds) (drop n (rev ?b))"
      using False page by (simp add: Let_def)
    also have "\<dots> = take (n + n * length ds) (rev ?b)" by (rule take_add [symmetric])
    finally show ?thesis by simp
  qed
qed simp

lemma reachable_chain:
  "successively (\<lambda>a b. record_step\<^sup>*\<^sup>* a b) (a # bs) \<Longrightarrow> b \<in> set (a # bs) \<Longrightarrow> record_step\<^sup>*\<^sup>* a b"
proof (induction bs arbitrary: a)
  case (Cons c bs)
  then show ?case by (cases "b = a") (auto intro: rtranclp_trans)
qed simp

lemma later_states:
  assumes "recorded h" "record_step\<^sup>*\<^sup>* h h'"
  shows "later (st_db h) (st_db h')"
proof -
  from assms(2) have "recorded h' \<and> prefix (index (st_db h)) (index (st_db h'))"
  proof induction
    case (step y z)
    then show ?case using recorded_step index_step prefix_order.trans by blast
  qed (simp add: assms(1))
  then show ?thesis using linked_recorded [of h'] by (simp add: later_def linked_def tables_linked_def)
qed

text \<open>C25. Whoever scrolls through the public matches with the id of the last one shown is shown all that were
  there at the first page, each once, the newest first, and no other, although matches are opened and
  closed between the pages: enough pages show every one.\<close>

theorem scrolling_shows_every_match:
  assumes "recorded h" "successively (\<lambda>a b. record_step\<^sup>*\<^sup>* a b) (h # hs)"
    "length (public_ids (st_db h)) \<le> n * length (h # hs)"
  shows "map mm_key (scroll n None (map st_db (h # hs))) = rev (public_ids (st_db h))"
proof -
  have l: "later (st_db h) (st_db h')" if "h' \<in> set (h # hs)" for h'
    by (rule later_states [OF assms(1) reachable_chain [OF assms(2) that]])
  let ?d = "st_db h" and ?page = "fetch_recent_matches None n (st_db h)"
  have k: "keyed mm_key (mt_matches ?d)" "sorted_wrt (<) (public_ids ?d)"
    using l [of h] later_public [of ?d ?d] by (simp_all add: later_def)
  have page: "map mm_key ?page = take n (rev (public_ids ?d))"
    using page_ids [OF k(1), of None n] by (simp add: below_def)
  show ?thesis
  proof (cases "?page = []")
    case True
    then have "take n (rev (public_ids ?d)) = []" using page by simp
    then have "public_ids ?d = []" using assms(3) by auto
    then show ?thesis using True by simp
  next
    case False
    then have last: "mm_key (last ?page) = last (take n (rev (public_ids ?d)))" using page by (metis last_map)
    have ne: "take n (rev (public_ids ?d)) \<noteq> []" using page False by (metis map_is_Nil_conv)
    then have m: "mm_key (last ?page) \<in> set (public_ids ?d)"
      using last by (metis in_set_takeD last_in_set set_rev)
    have "map mm_key (scroll n (Some (mm_key (last ?page))) (map st_db hs)) =
        take (n * length hs) (rev (below (Some (mm_key (last ?page))) (public_ids ?d)))"
      using scroll_from [OF k(2) _ m, of "map st_db hs" n] l by simp
    also have "\<dots> = take (n * length hs) (drop n (rev (public_ids ?d)))"
      using below_page [OF k(2) refl, of n None] ne last by (simp add: below_def)
    finally have "map mm_key (scroll n None (map st_db (h # hs))) = take (n + n * length hs) (rev (public_ids ?d))"
      using False page by (simp add: Let_def take_add)
    then show ?thesis using assms(3) by simp
  qed
qed

section \<open>Scoreboards\<close>

text \<open>\<open>outranks w x y\<close>: \<open>x\<close> may stand before \<open>y\<close>.\<close>

definition outranks :: "int \<Rightarrow> score_input \<Rightarrow> score_input \<Rightarrow> bool" where
  "outranks w x y \<longleftrightarrow> si_passed x \<and> \<not> si_passed y \<or> si_passed x = si_passed y \<and> metric w y \<le> metric w x"

lemma ranked_order_sorted: "sorted_wrt (outranks w) (ranked_order w xs)"
proof -
  let ?key = "\<lambda>s. (\<not> si_passed s, - metric w s)"
  have "sorted (map ?key (ranked_order w xs))" by (simp add: ranked_order_def)
  then have "sorted_wrt (\<lambda>x y. ?key x \<le> ?key y) (ranked_order w xs)" by (simp add: sorted_wrt_map)
  then show ?thesis
    by (rule sorted_wrt_mono_rel [rotated]) (auto simp: outranks_def less_eq_prod_def)
qed

definition board_row :: "mp_score \<Rightarrow> nat \<times> score_input" where
  "board_row s = (ms_placement s, ms_result s)"

definition stored_row :: "history_env \<Rightarrow> nat \<times> score_input \<Rightarrow> nat \<times> score_input" where
  "stored_row E = (\<lambda>(p, s). (p, s\<lparr>si_acc := he_acc_column E (si_acc s)\<rparr>))"

definition board_of :: "int \<Rightarrow> match_tables \<Rightarrow> (nat \<times> score_input) list" where
  "board_of k d = map board_row (filter (\<lambda>s. ms_game s = k) (t_rows (mt_scores d)))"

lemma insert_score_board:
  "board_of k (st_db (exec (insert_score E k p) h)) = board_of k (st_db h) @ (if he_faults E (st_tick h) = None then [stored_row E p] else [])"
  "outcome (insert_score E k p) h = (case he_faults E (st_tick h) of None \<Rightarrow> Inr () | Some e \<Rightarrow> Inl e)"
  by (auto simp: insert_score_def he_time_def writing_def statement_def exec_def outcome_def board_of_def board_row_def
      stored_row_def add_row_def Let_def split: prod.split option.split)

lemma insert_scores_board:
  "\<exists>n. board_of k (st_db (exec (foreach ps (insert_score E k)) h)) = board_of k (st_db h) @ take n (map (stored_row E) ps) \<and>
     ((\<forall>t. he_faults E t = None) \<longrightarrow> length ps \<le> n)"
proof (induction ps arbitrary: h)
  case (Cons p ps)
  let ?h = "exec (insert_score E k p) h"
  show ?case
  proof (cases "he_faults E (st_tick h)")
    case None
    then have s: "insert_score E k p h = (Inr (), ?h)"
      using insert_score_board(2) [of E k p h] by (simp add: exec_def outcome_def prod_eq_iff)
    obtain n where n: "board_of k (st_db (exec (foreach ps (insert_score E k)) ?h)) = board_of k (st_db ?h) @ take n (map (stored_row E) ps)"
      "(\<forall>t. he_faults E t = None) \<longrightarrow> length ps \<le> n" using Cons.IH by blast
    have "exec (foreach (p # ps) (insert_score E k)) h = exec (foreach ps (insert_score E k)) ?h"
      using s by (cases "insert_score E k p h") (simp add: exec_def thn_def bnd_def)
    then have "board_of k (st_db (exec (foreach (p # ps) (insert_score E k)) h)) =
        board_of k (st_db h) @ take (Suc n) (map (stored_row E) (p # ps))"
      using n(1) None insert_score_board(1) [of k E p h] by simp
    then show ?thesis using n(2) by (intro exI [of _ "Suc n"]) simp
  next
    case (Some e)
    then have "insert_score E k p h = (Inl e, ?h)"
      using insert_score_board(2) [of E k p h] by (simp add: exec_def outcome_def prod_eq_iff)
    then have "exec (foreach (p # ps) (insert_score E k)) h = ?h"
      by (cases "insert_score E k p h") (simp add: exec_def thn_def bnd_def)
    then have "board_of k (st_db (exec (foreach (p # ps) (insert_score E k)) h)) = board_of k (st_db h)"
      using Some insert_score_board(1) [of k E p h] by simp
    then show ?thesis using Some by (intro exI [of _ 0]) auto
  qed
qed (simp add: exec_def skip_def retn_def)

lemma record_game_new:
  "triple (\<lambda>h. h = h0) (record_game E i g)
     (\<lambda>x h. mg_key (fst x) = t_next (mt_games (st_db h0)) \<and> mt_scores (st_db h) = mt_scores (st_db h0))
     (\<lambda>h. mt_scores (st_db h) = mt_scores (st_db h0))"
  unfolding record_game_def he_time_def
proof (rule triple_gets_bnd,
    rule triple_bnd [where R = "\<lambda>k h. k = t_next (mt_games (st_db h0)) \<and> mt_scores (st_db h) = mt_scores (st_db h0)"])
  fix k
  show "triple (\<lambda>h. k = t_next (mt_games (st_db h0)) \<and> mt_scores (st_db h) = mt_scores (st_db h0))
     (bnd (reading (he_faults E) (\<lambda>d. row_of mg_key k (mt_games d)))
        (\<lambda>row. bnd (the_or AssertionError row) (\<lambda>g. lift_result (deserialize_game g))))
     (\<lambda>x h. mg_key (fst x) = t_next (mt_games (st_db h0)) \<and> mt_scores (st_db h) = mt_scores (st_db h0))
     (\<lambda>h. mt_scores (st_db h) = mt_scores (st_db h0))"
  proof (rule triple_reading_bnd)
    fix row
    show "triple (\<lambda>h. (k = t_next (mt_games (st_db h0)) \<and> mt_scores (st_db h) = mt_scores (st_db h0)) \<and> row_of mg_key k (mt_games (st_db h)) = row)
       (bnd (the_or AssertionError row) (\<lambda>g. lift_result (deserialize_game g)))
       (\<lambda>x h. mg_key (fst x) = t_next (mt_games (st_db h0)) \<and> mt_scores (st_db h) = mt_scores (st_db h0))
       (\<lambda>h. mt_scores (st_db h) = mt_scores (st_db h0))"
      by (rule triple_bnd [where R = "\<lambda>g h. mg_key g = k \<and> k = t_next (mt_games (st_db h0)) \<and> mt_scores (st_db h) = mt_scores (st_db h0)"],
          rule triple_the_or, auto dest: row_of_Some)
        (rule triple_lift; auto simp: deserialize_game_def bindE_Inr_iff split: option.splits)
  qed auto
qed (rule triple_statement; auto)

lemma record_game_returns:
  assumes "linked h" "\<forall>t. he_faults E t = None"
  obtains x h' where "record_game E i g h = (Inr x, h')"
proof -
  let ?h = "exec (statement (he_faults E) (\<lambda>d. (t_next (mt_games d), d\<lparr>mt_games := add_row (game_row (he_now E (st_tick h)) i g) (mt_games d)\<rparr>))) h"
  let ?t = "mt_games (st_db ?h)" and ?r = "game_row (he_now E (st_tick h)) i g (t_next (mt_games (st_db h)))"
  have k: "keyed mg_key ?t" "?r \<in> set (t_rows ?t)"
    using assms by (auto simp: exec_def statement_def Let_def linked_def tables_linked_def intro!: keyed_add) (simp add: game_row_def)
  have "row_of mg_key (t_next (mt_games (st_db h))) ?t = Some ?r"
    using row_of_iff [OF k(1)] k(2) by (simp add: game_row_def)
  then have "fst (record_game E i g h) = Inr (?r, cg_participants g)"
    using assms(2) by (simp add: record_game_def he_time_def bnd_def statement_def reading_def Let_def exec_def
        the_or_def lift_result_def retn_def gets_def deserialize_game_row)
  then show ?thesis using that by (cases "record_game E i g h") auto
qed

lemma exec_swallowed: "exec (swallowed m) s = exec m s"
  by (auto simp: exec_def swallowed_def split: prod.split sum.split)

lemma sorted_board:
  assumes "map board_row rows = take n (map (stored_row E) (ranked_scores w xs))"
  shows "sort_key ms_placement rows = rows"
proof -
  have "fst \<circ> stored_row E = fst" by (auto simp: stored_row_def)
  then have "map ms_placement rows = take n (map fst (ranked_scores w xs))"
    using arg_cong [OF assms, of "map fst"] by (simp add: board_row_def comp_def take_map)
  moreover have "sorted (map fst (ranked_scores w xs))" unfolding ranked_scores_def map_fst_enumerate by (rule sorted_upt)
  ultimately have "sorted (map ms_placement rows)" by (simp only: sorted_wrt_take)
  then show ?thesis by (rule sort_key_id_if_sorted)
qed

lemma completed_game_board:
  assumes "recorded h" "cg_match_db_id g = Some i"
    "decode_participant_scores (cg_mode g mod 4) (cg_score_frames g) = Inr xs"
  shows "\<exists>n. board_of (t_next (mt_games (st_db h))) (st_db (exec (persist_game_completed (repository_store E) g) h)) =
      take n (map (stored_row E) (ranked_scores (cg_win_condition g) xs)) \<and>
      ((\<forall>t. he_faults E t = None) \<longrightarrow> length xs \<le> n)"
proof -
  let ?k = "t_next (mt_games (st_db h))" and ?rs = "ranked_scores (cg_win_condition g) xs"
  note l = linked_recorded [OF assms(1)]
  have none: "filter (\<lambda>s. ms_game s = ?k) (t_rows (mt_scores (st_db h))) = []"
    using l keyed_next [of mg_key "mt_games (st_db h)"]
    by (fastforce simp: linked_def tables_linked_def game_ids_def filter_empty_conv)
  have ex: "exec (persist_game_completed (repository_store E) g) h =
      exec (bnd (record_game E i g) (persist_scoreboard (repository_store E) g)) h"
    using assms(2) by (simp add: persist_game_completed_def exec_swallowed) (simp add: repository_store_def)
  have new: "case record_game E i g h of (Inr x, t) \<Rightarrow> mg_key (fst x) = ?k \<and> mt_scores (st_db t) = mt_scores (st_db h)
      | (Inl e, t) \<Rightarrow> mt_scores (st_db t) = mt_scores (st_db h)"
    using record_game_new [of h E i g] by (simp add: triple_def)
  have len: "length ?rs = length xs" by (simp add: ranked_scores_def ranked_order_def)
  show ?thesis
  proof (cases "record_game E i g h")
    case (Pair r t)
    show ?thesis
    proof (cases r)
      case (Inl e)
      have "\<not> (\<forall>t. he_faults E t = None)" using record_game_returns [OF l] Pair Inl by (metis Inl_Inr_False prod.inject)
      moreover have "board_of ?k (st_db t) = []" using new Pair Inl none by (simp add: board_of_def)
      ultimately show ?thesis using ex Pair Inl by (intro exI [of _ 0]) (auto simp: exec_def bnd_def)
    next
      case (Inr x)
      have t: "mg_key (fst x) = ?k" "board_of ?k (st_db t) = []" using new Pair Inr none by (simp_all add: board_of_def)
      have ex': "exec (persist_game_completed (repository_store E) g) h = exec (persist_scoreboard (repository_store E) g x) t"
        using ex Pair Inr by (simp add: exec_def bnd_def)
      show ?thesis
      proof (cases "cg_score_frames g = [] \<or> xs = []")
        case True
        then have "xs = []" using assms(3) by auto
        moreover have "exec (persist_scoreboard (repository_store E) g x) t = t"
          using True assms(3) by (auto simp: persist_scoreboard_def exec_def skip_def retn_def bnd_def lift_result_def)
        ultimately show ?thesis using ex' t len by (intro exI [of _ 0]) simp
      next
        case False
        obtain n where n: "board_of ?k (st_db (exec (foreach ?rs (insert_score E ?k)) t)) = take n (map (stored_row E) ?rs)"
          "(\<forall>t. he_faults E t = None) \<longrightarrow> length ?rs \<le> n"
          using insert_scores_board [of ?k ?rs E t] t(2) by auto
        have "exec (persist_scoreboard (repository_store E) g x) t = exec (foreach ?rs (insert_score E ?k)) t"
          using False assms(3) t(1)
          by (cases "foreach ?rs (insert_score E ?k) t")
            (simp add: persist_scoreboard_def repository_store_def record_game_scores_def exec_def bnd_def thn_def
              lift_result_def retn_def skip_def split: sum.split)
        then show ?thesis using n ex' len by auto
      qed
    qed
  qed
qed

text \<open>C22. After a game was completed in any history, its scoreboard, as the reader gives it, is the ranking of the
  frames that decode, or as much of it as the failures let through: the places are 1, 2, 3 and so on, those
  who passed stand before those who failed, each group by the metric of the win condition with ties in the
  order of the slots, and nobody is there twice.\<close>

theorem scoreboard_ranked:
  assumes "recorded h" "cg_match_db_id g = Some i"
    "decode_participant_scores (cg_mode g mod 4) (cg_score_frames g) = Inr xs"
  shows "let h' = exec (persist_game_completed (repository_store E) g) h; w = cg_win_condition g;
      board = map board_row (repo_scores_for_game (t_next (mt_games (st_db h))) (st_db h')) in
    (\<exists>n. board = take n (map (stored_row E) (ranked_scores w xs)) \<and> ((\<forall>t. he_faults E t = None) \<longrightarrow> length xs \<le> n)) \<and>
    map fst (ranked_scores w xs) = [1..<Suc (length xs)] \<and> mset (map snd (ranked_scores w xs)) = mset xs \<and>
    sorted_wrt (outranks w) (map snd (ranked_scores w xs)) \<and>
    (\<forall>v. filter (\<lambda>x. (si_passed x, metric w x) = v) (map snd (ranked_scores w xs)) = filter (\<lambda>x. (si_passed x, metric w x) = v) xs)"
proof -
  let ?w = "cg_win_condition g"
  have snd: "map snd (ranked_scores ?w xs) = ranked_order ?w xs" by (simp add: ranked_scores_def)
  have st: "filter (\<lambda>x. (si_passed x, metric ?w x) = v) (ranked_order ?w xs) = filter (\<lambda>x. (si_passed x, metric ?w x) = v) xs" for v
  proof -
    have "(\<lambda>x. (si_passed x, metric ?w x) = v) = (\<lambda>x. (\<not> si_passed x, - metric ?w x) = (\<not> fst v, - snd v))"
      by (auto simp: prod_eq_iff)
    then show ?thesis unfolding ranked_order_def by (simp only: sort_key_stable)
  qed
  obtain n where n: "board_of (t_next (mt_games (st_db h))) (st_db (exec (persist_game_completed (repository_store E) g) h)) =
      take n (map (stored_row E) (ranked_scores ?w xs))" "(\<forall>t. he_faults E t = None) \<longrightarrow> length xs \<le> n"
    using completed_game_board [OF assms] by blast
  have "map board_row (repo_scores_for_game (t_next (mt_games (st_db h))) (st_db (exec (persist_game_completed (repository_store E) g) h))) =
      take n (map (stored_row E) (ranked_scores ?w xs))"
    using n(1) sorted_board by (simp add: repo_scores_for_game_def board_of_def)
  then show ?thesis
    using n(2) snd st ranked_order_sorted [of ?w xs]
    by (auto simp: Let_def ranked_scores_def ranked_order_def)
qed

section \<open>A concrete history\<close>

text \<open>A public match with a game in it, then a private one; nothing fails.\<close>

definition calm_history :: history_env where
  "calm_history = \<lparr>he_faults = \<lambda>_. None, he_now = \<lambda>_. 0, he_acc_column = id\<rparr>"

definition no_history :: history where
  "no_history = \<lparr>st_db = \<lparr>mt_matches = empty_table, mt_games = empty_table, mt_scores = empty_table\<rparr>, st_tick = 0,
     hy_stash = \<lambda>_. None\<rparr>"

definition public_history :: history where
  "public_history = exec (persist_match_created (repository_store calm_history) (stash_db_id 0) [97] 3 True) no_history"

definition private_history :: history where
  "private_history = exec (persist_match_created (repository_store calm_history) (stash_db_id 1) [98] 4 False) public_history"

lemmas history_eval = persist_match_created_def repository_store_def create_match_def he_time_def statement_def reading_def
  swallowed_def stash_db_id_def calm_history_def empty_table_def add_row_def row_of_def

lemma public_history_is:
  "public_history = \<lparr>st_db = \<lparr>mt_matches = \<lparr>t_rows = [\<lparr>mm_key = 1, mm_title = [97], mm_host = 3, mm_public = True,
      mm_created = 0, mm_disbanded = None\<rparr>], t_next = 2\<rparr>, mt_games = empty_table, mt_scores = empty_table\<rparr>,
    st_tick = 2, hy_stash = (\<lambda>_. None)(0 := Some 1)\<rparr>"
  by (simp add: public_history_def no_history_def history_eval exec_def bnd_def gets_def modify_def retn_def the_or_def Let_def)

lemma private_history_is:
  "private_history = \<lparr>st_db = \<lparr>mt_matches = \<lparr>t_rows = [\<lparr>mm_key = 1, mm_title = [97], mm_host = 3, mm_public = True,
      mm_created = 0, mm_disbanded = None\<rparr>, \<lparr>mm_key = 2, mm_title = [98], mm_host = 4, mm_public = False,
      mm_created = 0, mm_disbanded = None\<rparr>], t_next = 3\<rparr>, mt_games = empty_table, mt_scores = empty_table\<rparr>,
    st_tick = 4, hy_stash = (\<lambda>_. None)(0 := Some 1, 1 := Some 2)\<rparr>"
  by (simp add: private_history_def public_history_is history_eval exec_def bnd_def gets_def modify_def retn_def the_or_def Let_def)

lemma recorded_trial: "recorded public_history" "recorded private_history" "record_step public_history private_history"
proof -
  have "recorded no_history" by (rule recorded_empty) (simp add: empty_history_def no_history_def)
  then show p: "recorded public_history"
    by (rule recorded_step) (rule match_opened, rule public_history_def)
  show s: "record_step public_history private_history"
    by (rule match_opened, rule private_history_def)
  show "recorded private_history" by (rule recorded_step [OF p s])
qed

definition trial_game :: completed_game where
  "trial_game = \<lparr>cg_match_db_id = Some 1, cg_map_md5 = [], cg_map_id = 5, cg_map_name = [], cg_mode = 0, cg_mods = 0,
     cg_win_condition = 0, cg_team_type = 0, cg_freemods = False, cg_scrim = False, cg_participants = [3],
     cg_started_at = None, cg_score_frames = [\<lparr>pf_user_id = 3, pf_team = 0, pf_mods = 0, pf_passed = True, pf_raw = replicate 29 0\<rparr>]\<rparr>"

definition trial_result :: score_input where
  "trial_result = \<lparr>si_user = 3, si_team = 0, si_mods = 0, si_score = 0, si_max_combo = 0, si_n300 = 0, si_n100 = 0,
     si_n50 = 0, si_geki = 0, si_katu = 0, si_miss = 0, si_acc = 0, si_perfect = False, si_passed = True\<rparr>"

lemma zero_bytes: "le_nat (replicate n 0) = 0" "0 < n \<Longrightarrow> read_u8 (replicate n 0) = Inr (0, replicate (n - 1) 0)" "read_u8 [0] = Inr (0, [])"
proof -
  show "read_u8 [0] = Inr (0, [])" by (simp add: read_u8_def)
  show "le_nat (replicate n 0) = 0" by (induction n) simp_all
  show "0 < n \<Longrightarrow> read_u8 (replicate n 0) = Inr (0, replicate (n - 1) 0)" by (cases n) (simp_all add: read_u8_def)
qed

lemma trial_decodes: "decode_participant_scores (cg_mode trial_game mod 4) (cg_score_frames trial_game) = Inr [trial_result]"
  by (simp add: trial_game_def trial_result_def decode_scoreframe_def unpack_scoreframe_def rbind_def rret_def read_bool_def
      read_i32_def read_u16_def zero_bytes from_le_signed_def from_le_unsigned_def score_input_of_def scoreframe_accuracy_def)

text \<open>The theorems at this history.\<close>

theorem history_rows_linked_witness:
  "distinct (map mm_key (t_rows (mt_matches (st_db private_history)))) \<and> length (t_rows (mt_matches (st_db private_history))) = 2"
  using history_rows_linked [OF recorded_trial(2)] by (simp add: Let_def) (simp add: private_history_is)

theorem private_matches_undisclosed_witness:
  "fetch_match \<lparr>vw_id = Some 5, vw_staff = False\<rparr> 2 (st_db private_history) = None"
proof -
  let ?v = "\<lparr>vw_id = Some 5, vw_staff = False\<rparr>"
  have "seen ?v (st_db private_history) = seen ?v (st_db public_history)"
    by (simp add: seen_def private_history_is public_history_is is_visible_to_def empty_table_def)
  then have "fetch_match ?v 2 (st_db private_history) = fetch_match ?v 2 (st_db public_history)"
    using private_matches_undisclosed [OF recorded_trial(2,1)] by blast
  then show ?thesis by (simp add: fetch_match_def public_history_is row_of_def)
qed

theorem scrolling_shows_every_match_witness:
  "map mm_key (scroll 1 None (map st_db [public_history, private_history])) = [1]"
proof -
  have p: "public_ids (st_db public_history) = [1]" by (simp add: public_history_is public_ids_def)
  have "successively (\<lambda>a b. record_step\<^sup>*\<^sup>* a b) [public_history, private_history]"
    using recorded_trial(3) by simp
  then show ?thesis
    using scrolling_shows_every_match [OF recorded_trial(1), of "[private_history]" 1] p by (simp only: p) simp
qed

theorem scoreboard_ranked_witness:
  "map board_row (repo_scores_for_game 1 (st_db (exec (persist_game_completed (repository_store calm_history) trial_game) private_history))) =
   [(1, trial_result)]"
proof -
  have g: "cg_match_db_id trial_game = Some 1" by (simp add: trial_game_def)
  have k: "t_next (mt_games (st_db private_history)) = 1" by (simp add: private_history_is empty_table_def)
  have r: "map (stored_row calm_history) (ranked_scores w [trial_result]) = [(1, trial_result)]" for w
    by (simp add: ranked_scores_def ranked_order_def stored_row_def calm_history_def trial_result_def)
  obtain n where "map board_row (repo_scores_for_game 1 (st_db (exec (persist_game_completed (repository_store calm_history) trial_game) private_history))) =
      take n [(1, trial_result)]" "1 \<le> n"
    using scoreboard_ranked [OF recorded_trial(2) g trial_decodes, of calm_history]
    by (auto simp: Let_def k r) (simp add: calm_history_def)
  then show ?thesis by simp
qed

end
