(* ===== verification/Clans.thy ===== *)
theory Clans
  imports Tables Osr
begin

text \<open>
  Clans: \<^verbatim>\<open>app/repositories/clans.py\<close>, the columns of \<^verbatim>\<open>app/repositories/users.py\<close> that
  concern them, and the service \<^verbatim>\<open>app/services/clans.py\<close> with the clan that online sessions cache.
\<close>

section \<open>State\<close>

record clan =
  cl_id :: int
  cl_name :: pystr
  cl_tag :: pystr
  cl_owner :: int
  cl_created :: rat

record clan_user =
  cu_id :: int
  cu_name :: pystr
  cu_safe_name :: pystr
  cu_priv :: int
  cu_clan_id :: int
  cu_clan_priv :: int

record clan_tables =
  ct_clans :: "clan table"
  ct_users :: "clan_user table"

text \<open>
  The cache: for the id of an online session, its \<^verbatim>\<open>clan_id\<close> and \<^verbatim>\<open>clan_priv\<close>. \<open>cw_synced\<close>
  is what an operation wrote there, in order.
\<close>

record clan_world = "clan_tables stored" +
  cw_cache :: "int \<Rightarrow> (int option \<times> int option) option"
  cw_synced :: "(int \<times> int option) list"

type_synonym 'a cop = "(clan_world, 'a) op"

text \<open>
  The schedule of failures, the clock, \<^verbatim>\<open>str.upper\<close> and \<^verbatim>\<open>str.lower\<close>, the comparison of
  text columns, and the date of a founding as it is shown.
\<close>

record clan_env =
  le_faults :: faults
  le_now :: "nat \<Rightarrow> rat"
  le_upper :: "pystr \<Rightarrow> pystr"
  le_lower :: "pystr \<Rightarrow> pystr"
  le_same_text :: "pystr \<Rightarrow> pystr \<Rightarrow> bool"
  le_date :: "rat \<Rightarrow> pystr"

definition CLAN_MEMBER :: int where "CLAN_MEMBER = 1"
definition CLAN_OFFICER :: int where "CLAN_OFFICER = 2"
definition CLAN_OWNER :: int where "CLAN_OWNER = 3"

section \<open>Statements\<close>

text \<open>\<^verbatim>\<open>fetch_one\<close> with each of the conditions it is called with.\<close>

definition clan_by_id :: "clan_env \<Rightarrow> int \<Rightarrow> clan option cop" where
  "clan_by_id E i = reading (le_faults E) (\<lambda>d. row_of cl_id i (ct_clans d))"

definition clan_by_name :: "clan_env \<Rightarrow> pystr \<Rightarrow> clan option cop" where
  "clan_by_name E n = reading (le_faults E) (\<lambda>d. find (\<lambda>c. le_same_text E (cl_name c) n) (t_rows (ct_clans d)))"

definition clan_by_tag :: "clan_env \<Rightarrow> pystr \<Rightarrow> clan option cop" where
  "clan_by_tag E t = reading (le_faults E) (\<lambda>d. find (\<lambda>c. le_same_text E (cl_tag c) t) (t_rows (ct_clans d)))"

text \<open>The schema makes owners, tags and names unique.\<close>

definition clans_create :: "clan_env \<Rightarrow> pystr \<Rightarrow> pystr \<Rightarrow> int \<Rightarrow> clan cop" where
  "clans_create E name tag owner = bnd (gets (\<lambda>s. le_now E (st_tick s))) (\<lambda>now.
     bnd (statement (le_faults E) (\<lambda>d.
       if \<exists>c \<in> set (t_rows (ct_clans d)). cl_owner c = owner \<or> le_same_text E (cl_tag c) tag \<or> le_same_text E (cl_name c) name then (None, d)
       else (Some (t_next (ct_clans d)),
         d\<lparr>ct_clans := add_row (\<lambda>i. \<lparr>cl_id = i, cl_name = name, cl_tag = tag, cl_owner = owner, cl_created = now\<rparr>)
              (ct_clans d)\<rparr>))) (\<lambda>rec. bnd (the_or DatabaseError rec) (\<lambda>i.
     bnd (clan_by_id E i) (the_or AssertionError))))"

definition clans_set_owner :: "clan_env \<Rightarrow> int \<Rightarrow> int \<Rightarrow> clan option cop" where
  "clans_set_owner E i owner =
     bnd (statement (le_faults E) (\<lambda>d.
       if \<exists>c \<in> set (t_rows (ct_clans d)). cl_id c \<noteq> i \<and> cl_owner c = owner then (None, d)
       else (Some (), d\<lparr>ct_clans := update_rows (\<lambda>c. cl_id c = i) (\<lambda>c. c\<lparr>cl_owner := owner\<rparr>) (ct_clans d)\<rparr>)))
     (\<lambda>ok. bnd (the_or DatabaseError ok) (\<lambda>_. clan_by_id E i))"

definition clans_delete_one :: "clan_env \<Rightarrow> int \<Rightarrow> clan option cop" where
  "clans_delete_one E i = bnd (clan_by_id E i) (\<lambda>c. case c of
       None \<Rightarrow> retn None
     | Some c \<Rightarrow> thn (writing (le_faults E) (\<lambda>d. d\<lparr>ct_clans := delete_rows (\<lambda>c. cl_id c = i) (ct_clans d)\<rparr>))
         (retn (Some c)))"

definition user_by_id :: "clan_env \<Rightarrow> int \<Rightarrow> clan_user option cop" where
  "user_by_id E i = reading (le_faults E) (\<lambda>d. row_of cu_id i (ct_users d))"

definition user_by_name :: "clan_env \<Rightarrow> pystr \<Rightarrow> clan_user option cop" where
  "user_by_name E n = reading (le_faults E) (\<lambda>d.
     find (\<lambda>u. cu_safe_name u = make_safe_name (le_lower E) n) (t_rows (ct_users d)))"

definition publicly_visible :: "int option \<Rightarrow> clan_user \<Rightarrow> bool" where
  "publicly_visible always_visible u \<longleftrightarrow>
     cu_priv u AND PUBLIC_PLAYER_MASK = PUBLIC_PLAYER_MASK \<or> always_visible = Some (cu_id u)"

definition users_of_clan :: "clan_env \<Rightarrow> int \<Rightarrow> bool \<Rightarrow> int option \<Rightarrow> clan_user list cop" where
  "users_of_clan E i include_hidden always_visible = reading (le_faults E) (\<lambda>d.
     filter (\<lambda>u. (include_hidden \<or> publicly_visible always_visible u) \<and> cu_clan_id u = i) (t_rows (ct_users d)))"

text \<open>\<^verbatim>\<open>partial_update\<close> of the clan columns that are passed; the row is read back.\<close>

definition user_set_clan :: "clan_env \<Rightarrow> int \<Rightarrow> int option \<Rightarrow> int \<Rightarrow> clan_user option cop" where
  "user_set_clan E i clan priv =
     thn (writing (le_faults E) (\<lambda>d. d\<lparr>ct_users := update_rows (\<lambda>u. cu_id u = i)
        (\<lambda>u. u\<lparr>cu_clan_id := (case clan of Some c \<Rightarrow> c | None \<Rightarrow> cu_clan_id u), cu_clan_priv := priv\<rparr>) (ct_users d)\<rparr>))
     (user_by_id E i)"

section \<open>The service\<close>

datatype create_code = CREATED | INVALID_TAG | INVALID_NAME | ALREADY_IN_CLAN | TAG_TAKEN | NAME_TAKEN
datatype leave_code = LEFT | NOT_IN_CLAN | OWNER_MUST_TRANSFER
datatype transfer_code = TRANSFERRED | NOT_CLAN_OWNER | TARGET_NOT_FOUND | TARGET_ALREADY_OWNER

text \<open>\<^verbatim>\<open>_sync_online_clan_state\<close>\<close>

definition sync_online :: "int \<Rightarrow> int option \<Rightarrow> int option \<Rightarrow> unit cop" where
  "sync_online i clan priv = modify (\<lambda>s. case cw_cache s i of
       None \<Rightarrow> s
     | Some _ \<Rightarrow> s\<lparr>cw_cache := (cw_cache s)(i := Some (clan, priv)), cw_synced := cw_synced s @ [(i, clan)]\<rparr>)"

definition found_clan :: "clan_env \<Rightarrow> int \<Rightarrow> pystr \<Rightarrow> pystr \<Rightarrow> clan cop" where
  "found_clan E player_id tag name =
     bnd (db_transaction (le_faults E) (bnd (clans_create E name tag player_id) (\<lambda>c.
        thn (user_set_clan E player_id (Some (cl_id c)) CLAN_OWNER) (retn c)))) (\<lambda>c.
     thn (sync_online player_id (Some (cl_id c)) (Some CLAN_OWNER)) (retn c))"

text \<open>A clan the row still names may be gone; then the player counts as in no clan.\<close>

definition current_clan :: "clan_env \<Rightarrow> clan_user \<Rightarrow> clan option cop" where
  "current_clan E u = (if cu_clan_id u \<noteq> 0 then clan_by_id E (cu_clan_id u) else retn None)"

definition create_clan :: "clan_env \<Rightarrow> int \<Rightarrow> pystr \<Rightarrow> pystr \<Rightarrow> (create_code \<times> clan option \<times> clan option) cop" where
  "create_clan E player_id tag0 name =
     (let tag = le_upper E tag0 in
      if \<not> (1 \<le> length tag \<and> length tag \<le> 6) then retn (INVALID_TAG, None, None)
      else if \<not> (2 \<le> length name \<and> length name \<le> 16) then retn (INVALID_NAME, None, None)
      else bnd (user_by_id E player_id) (\<lambda>u. bnd (the_or AssertionError u) (\<lambda>u.
        bnd (current_clan E u) (\<lambda>cur. case cur of
          Some c \<Rightarrow> retn (ALREADY_IN_CLAN, None, Some c)
        | None \<Rightarrow>
            bnd (clan_by_name E name) (\<lambda>n.
              if n \<noteq> None then retn (NAME_TAKEN, None, None)
              else bnd (clan_by_tag E tag) (\<lambda>t.
                if t \<noteq> None then retn (TAG_TAKEN, None, None)
                else bnd (found_clan E player_id tag name) (\<lambda>c. retn (CREATED, Some c, None))))))))"

definition clear_members :: "clan_env \<Rightarrow> clan_user list \<Rightarrow> unit cop" where
  "clear_members E ms = foreach ms (\<lambda>u. thn (user_set_clan E (cu_id u) (Some 0) 0) skip)"

definition disband_clan :: "clan_env \<Rightarrow> int \<Rightarrow> clan option cop" where
  "disband_clan E i = bnd (clan_by_id E i) (\<lambda>c. case c of
       None \<Rightarrow> retn None
     | Some c \<Rightarrow> bnd (users_of_clan E (cl_id c) True None) (\<lambda>ms.
         thn (db_transaction (le_faults E) (thn (clans_delete_one E (cl_id c)) (clear_members E ms)))
         (thn (foreach ms (\<lambda>u. sync_online (cu_id u) None None)) (retn (Some c)))))"

text \<open>\<^verbatim>\<open>disbanded\<close> is the last component.\<close>

definition depart :: "clan_env \<Rightarrow> int \<Rightarrow> clan \<Rightarrow> bool \<Rightarrow> unit cop" where
  "depart E player_id c alone =
     thn (db_transaction (le_faults E) (thn (user_set_clan E player_id (Some 0) 0)
        (if alone then thn (clans_delete_one E (cl_id c)) skip else skip)))
     (sync_online player_id None None)"

definition leave_clan :: "clan_env \<Rightarrow> int \<Rightarrow> (leave_code \<times> clan option \<times> bool) cop" where
  "leave_clan E player_id = bnd (user_by_id E player_id) (\<lambda>u. bnd (the_or AssertionError u) (\<lambda>u.
     if cu_clan_id u = 0 then retn (NOT_IN_CLAN, None, False)
     else if cu_clan_priv u = CLAN_OWNER then retn (OWNER_MUST_TRANSFER, None, False)
     else bnd (clan_by_id E (cu_clan_id u)) (\<lambda>c. case c of
         None \<Rightarrow> retn (NOT_IN_CLAN, None, False)
       | Some c \<Rightarrow> bnd (users_of_clan E (cl_id c) True None) (\<lambda>ms.
           let remaining = filter (\<lambda>m. cu_id m \<noteq> player_id) ms in
           thn (depart E player_id c (remaining = [])) (retn (LEFT, Some c, remaining = []))))))"

definition hand_over_clan :: "clan_env \<Rightarrow> clan \<Rightarrow> int \<Rightarrow> int \<Rightarrow> unit cop" where
  "hand_over_clan E c target_id owner_id =
     thn (db_transaction (le_faults E) (thn (clans_set_owner E (cl_id c) target_id)
        (thn (user_set_clan E target_id None CLAN_OWNER) (user_set_clan E owner_id None CLAN_OFFICER))))
     (thn (sync_online target_id (Some (cl_id c)) (Some CLAN_OWNER))
          (sync_online owner_id (Some (cl_id c)) (Some CLAN_OFFICER)))"

definition transfer_clan_ownership ::
  "clan_env \<Rightarrow> int \<Rightarrow> pystr \<Rightarrow> (transfer_code \<times> clan option \<times> clan_user option) cop" where
  "transfer_clan_ownership E owner_id target_name = bnd (user_by_id E owner_id) (\<lambda>u. bnd (the_or AssertionError u) (\<lambda>owner.
     if cu_clan_id owner = 0 \<or> cu_clan_priv owner \<noteq> CLAN_OWNER then retn (NOT_CLAN_OWNER, None, None)
     else bnd (clan_by_id E (cu_clan_id owner)) (\<lambda>c. case c of
         None \<Rightarrow> retn (NOT_CLAN_OWNER, None, None)
       | Some c \<Rightarrow> bnd (user_by_name E target_name) (\<lambda>t. case t of
             None \<Rightarrow> retn (TARGET_NOT_FOUND, None, None)
           | Some target \<Rightarrow>
               if cu_clan_id target \<noteq> cl_id c \<or> \<not> can_view_player (Some (cu_id owner, cu_priv owner)) (cu_id target) (cu_priv target)
               then retn (TARGET_NOT_FOUND, None, None)
               else if cu_id target = owner_id then retn (TARGET_ALREADY_OWNER, None, None)
               else thn (hand_over_clan E c (cu_id target) owner_id) (retn (TRANSFERRED, Some c, Some target))))))"

end
