(* ===== verification/ClanChat.thy ===== *)
theory ClanChat
  imports Clans Moderation
begin

text \<open>
  The commands \<^verbatim>\<open>!clan\<close> of \<^verbatim>\<open>app/commands.py\<close> over the clan service, and what they hand to the
  sessions (\<open>clan_effects\<close>, an instance of the parameter \<open>cx_clan\<close> of the chat commands).
\<close>

text \<open>The player of a command, and its reply with what is announced.\<close>

record clan_caller =
  ca_id :: int
  ca_priv :: int

type_synonym clan_reply = "(pystr \<times> pystr option) cop"

definition says :: "pystr \<Rightarrow> clan_reply" where
  "says t = retn (t, None)"

definition clan_display_name :: "clan \<Rightarrow> pystr" where
  "clan_display_name c = 91 # cl_tag c @ py ''] '' @ cl_name c"

text \<open>The names and docstrings of the commands of the set.\<close>

definition clan_docs :: "(pystr \<times> pystr) list" where
  "clan_docs =
     [(py ''help'', py ''Show all documented clan commands the player can access.''),
      (py ''create'', py ''Create a clan with a given tag & name.''),
      (py ''disband'', py ''Disband a clan (admins may disband others clans).''),
      (py ''transfer'', py ''Transfer ownership of your clan to another member.''),
      (py ''info'', py ''Lookup information of a clan by tag.''),
      (py ''leave'', py ''Leaves the clan you'' @ 39 # py ''re in.''),
      (py ''list'', py ''List all existing clans'' @ 39 # py '' information.'')]"

definition clan_help :: "pystr \<Rightarrow> clan_caller \<Rightarrow> clan_reply" where
  "clan_help prefix p = says (join_text [10]
     (map (\<lambda>(t, d). prefix @ py ''clan '' @ t @ py '': '' @ d)
        (filter (\<lambda>_. ca_priv p AND P_UNRESTRICTED = P_UNRESTRICTED) clan_docs)))"

definition clan_create :: "clan_env \<Rightarrow> clan_caller \<Rightarrow> pystr list \<Rightarrow> clan_reply" where
  "clan_create E p args =
     (if length args < 2 then says (py ''Invalid syntax: !clan create <tag> <name>'')
      else bnd (create_clan E (ca_id p) (hd args) (join_text [32] (tl args))) (\<lambda>(code, c, cur). case code of
          INVALID_TAG \<Rightarrow> says (py ''Clan tag may be 1-6 characters long.'')
        | INVALID_NAME \<Rightarrow> says (py ''Clan name may be 2-16 characters long.'')
        | ALREADY_IN_CLAN \<Rightarrow> bnd (the_or AssertionError cur) (\<lambda>c.
            says (py ''You'' @ 39 # py ''re already a member of '' @ clan_display_name c @ py ''!''))
        | NAME_TAKEN \<Rightarrow> says (py ''That name has already been claimed by another clan.'')
        | TAG_TAKEN \<Rightarrow> says (py ''That tag has already been claimed by another clan.'')
        | CREATED \<Rightarrow> bnd (the_or AssertionError c) (\<lambda>c.
            retn (clan_display_name c @ py '' founded.'',
              Some (1 # py ''ACTION founded '' @ clan_display_name c @ py ''.'')))))"

text \<open>The clan that is meant, or what to answer: by tag for the staff, else the one of the session.\<close>

definition disband_target :: "clan_env \<Rightarrow> clan_caller \<Rightarrow> pystr list \<Rightarrow> (pystr + clan) cop" where
  "disband_target E p args =
     (if args \<noteq> [] then
        if \<not> has (ca_priv p) P_STAFF then retn (Inl (py ''Only staff members may disband the clans of others.''))
        else bnd (clan_by_tag E (le_upper E (join_text [32] args))) (\<lambda>c. retn (case c of
            None \<Rightarrow> Inl (py ''Could not find a clan by that tag.'') | Some c \<Rightarrow> Inr c))
      else bnd (gets (\<lambda>s. cw_cache s (ca_id p))) (\<lambda>cached. case cached of
          Some (Some i, _) \<Rightarrow> bnd (clan_by_id E i) (\<lambda>c. retn (case c of
            None \<Rightarrow> Inl (py ''You'' @ 39 # py ''re not a member of a clan!'') | Some c \<Rightarrow> Inr c))
        | _ \<Rightarrow> retn (Inl (py ''You'' @ 39 # py ''re not a member of a clan!''))))"

definition disbanded_notice :: "clan \<Rightarrow> pystr" where
  "disbanded_notice c = 1 # py ''ACTION disbanded '' @ clan_display_name c @ py ''.''"

definition clan_disband :: "clan_env \<Rightarrow> clan_caller \<Rightarrow> pystr list \<Rightarrow> clan_reply" where
  "clan_disband E p args = bnd (disband_target E p args) (\<lambda>t. case t of
       Inl m \<Rightarrow> says m
     | Inr c \<Rightarrow> bnd (disband_clan E (cl_id c)) (\<lambda>r. bnd (the_or AssertionError r) (\<lambda>_.
         retn (clan_display_name c @ py '' disbanded.'', Some (disbanded_notice c)))))"

definition clan_transfer :: "clan_env \<Rightarrow> clan_caller \<Rightarrow> pystr list \<Rightarrow> clan_reply" where
  "clan_transfer E p args =
     (if args = [] then says (py ''Invalid syntax: !clan transfer <username>'')
      else bnd (transfer_clan_ownership E (ca_id p) (join_text [32] args)) (\<lambda>(code, c, target). case code of
          NOT_CLAN_OWNER \<Rightarrow> says (py ''You must own a clan to transfer its ownership.'')
        | TARGET_NOT_FOUND \<Rightarrow> says (py ''Could not find a member of your clan by that name.'')
        | TARGET_ALREADY_OWNER \<Rightarrow> says (py ''You already own your clan!'')
        | TRANSFERRED \<Rightarrow> bnd (the_or AssertionError c) (\<lambda>c. bnd (the_or AssertionError target) (\<lambda>u.
            says (py ''Ownership of '' @ clan_display_name c @ py '' was transferred to '' @ cu_name u @ py ''.'')))))"

text \<open>\<^verbatim>\<open>("Member", "Officer", "Owner")[member.clan_priv - 1]\<close>, negative indexes counting from the end.\<close>

definition rank_text :: "int \<Rightarrow> pystr result" where
  "rank_text priv =
     (if priv = 1 \<or> priv = -2 then Inr (py ''Member'')
      else if priv = 2 \<or> priv = -1 then Inr (py ''Officer'')
      else if priv = 3 \<or> priv = 0 then Inr (py ''Owner'')
      else Inl IndexError)"

definition member_line :: "clan_user \<Rightarrow> pystr result" where
  "member_line u = bindE (rank_text (cu_clan_priv u)) (\<lambda>r. Inr (91 # r @ py ''] '' @ cu_name u))"

definition clan_info :: "clan_env \<Rightarrow> clan_caller \<Rightarrow> pystr list \<Rightarrow> clan_reply" where
  "clan_info E p args =
     (if args = [] then says (py ''Invalid syntax: !clan info <tag>'')
      else bnd (clan_by_tag E (le_upper E (join_text [32] args))) (\<lambda>c. case c of
          None \<Rightarrow> says (py ''Could not find a clan by that tag.'')
        | Some c \<Rightarrow> bnd (users_of_clan E (cl_id c) (has (ca_priv p) P_STAFF) (Some (ca_id p))) (\<lambda>ms.
            bnd (lift_result (mapE member_line (sort_key (\<lambda>u. - cu_clan_priv u) ms))) (\<lambda>lines.
            says (join_text [10] ((clan_display_name c @ py '' | Founded '' @ le_date E (cl_created c) @ py ''.'') # lines))))))"

definition clan_leave :: "clan_env \<Rightarrow> clan_caller \<Rightarrow> clan_reply" where
  "clan_leave E p = bnd (leave_clan E (ca_id p)) (\<lambda>(code, c, gone). case code of
       NOT_IN_CLAN \<Rightarrow> says (py ''You'' @ 39 # py ''re not in a clan.'')
     | OWNER_MUST_TRANSFER \<Rightarrow> says (py ''You must transfer your clan'' @ 39 #
         py ''s ownership before leaving it. Alternatively, you can use !clan disband.'')
     | LEFT \<Rightarrow> bnd (the_or AssertionError c) (\<lambda>c.
         retn (py ''You have successfully left '' @ clan_display_name c @ py ''.'',
           if gone then Some (disbanded_notice c) else None)))"

definition list_offset :: "(nat \<Rightarrow> nat option) \<Rightarrow> pystr list \<Rightarrow> int option" where
  "list_offset dv args =
     (if args = [] then Some 0
      else if length args \<noteq> 1 \<or> \<not> isdecimal dv (hd args) then None
      else Some (25 * decimal_number dv (hd args)))"

definition clan_list :: "clan_env \<Rightarrow> (nat \<Rightarrow> nat option) \<Rightarrow> pystr list \<Rightarrow> clan_reply" where
  "clan_list E dv args = (case list_offset dv args of
       None \<Rightarrow> says (py ''Invalid syntax: !clan list (page)'')
     | Some off \<Rightarrow> bnd (reading (le_faults E) (\<lambda>d. t_rows (ct_clans d))) (\<lambda>cs.
         if int (length cs) \<le> off then says (py ''No clans found.'')
         else says (join_text [10] ((py ''bancho.py clans listing ('' @ str_int (int (length cs)) @ py '' total).'') #
           map (\<lambda>(i, c). str_int (off + int i + 1) @ py ''. '' @ clan_display_name c) (List.enumerate 0 cs)))))"

text \<open>The commands by the name of their function; any other name is not in the set.\<close>

definition clan_chat :: "clan_env \<Rightarrow> (nat \<Rightarrow> nat option) \<Rightarrow> pystr \<Rightarrow> pystr \<Rightarrow> clan_caller \<Rightarrow> pystr list \<Rightarrow> clan_reply" where
  "clan_chat E dv prefix which p args =
     (if which = py ''help'' then clan_help prefix p
      else if which = py ''create'' then clan_create E p args
      else if which = py ''disband'' then clan_disband E p args
      else if which = py ''transfer'' then clan_transfer E p args
      else if which = py ''info'' then clan_info E p args
      else if which = py ''leave'' then clan_leave E p
      else clan_list E dv args)"

text \<open>What the sessions are told: the reply, the cached clans that change, the announcement.\<close>

definition clan_effects :: "clan_env \<Rightarrow> (nat \<Rightarrow> nat option) \<Rightarrow> clan_world \<Rightarrow>
    pystr \<Rightarrow> nat \<Rightarrow> pystr list \<Rightarrow> server \<Rightarrow> clan_effect result" where
  "clan_effects E dv w which p args s =
     (case clan_chat E dv (e_prefix (s_env s)) which \<lparr>ca_id = p_id (s_player s p), ca_priv = p_priv (s_player s p)\<rparr> args
        (w\<lparr>cw_synced := []\<rparr>) of
        (Inl e, _) \<Rightarrow> Inl e
      | (Inr (t, a), w') \<Rightarrow> Inr \<lparr>ce_reply = Some t, ce_sync = cw_synced w', ce_announce = a\<rparr>)"

end
