(* ===== verification/Membership.thy ===== *)
theory Membership
  imports ClanChat
begin

text \<open>
  What the clan service keeps: whatever fails, an operation that raises changes nothing, every clan has one
  owner, who is its member, and what the online sessions cache is what the rows say.
\<close>

section \<open>From one state of the tables\<close>

text \<open>\<open>stands d k\<close>: the tables are \<open>d\<close>, the cache is \<open>k\<close>.\<close>

type_synonym clan_cache = "int \<Rightarrow> (int option \<times> int option) option"

definition stands :: "clan_tables \<Rightarrow> clan_cache \<Rightarrow> clan_world \<Rightarrow> bool" where
  "stands d k s \<longleftrightarrow> st_db s = d \<and> cw_cache s = k"

definition caching :: "clan_cache \<Rightarrow> (clan_tables \<Rightarrow> bool) \<Rightarrow> clan_world \<Rightarrow> bool" where
  "caching k G s \<longleftrightarrow> cw_cache s = k \<and> G (st_db s)"

lemma stands_caching: "stands d k = caching k (\<lambda>x. x = d)"
  by (auto simp: stands_def caching_def)

lemma caching_reading:
  assumes "\<And>d. G d \<Longrightarrow> triple (stands d k) (c (f d)) Q (caching k H)" "\<And>d. G d \<Longrightarrow> H d"
  shows "triple (caching k G) (bnd (reading F f) c) Q (caching k H)"
proof -
  have "triple (caching k (\<lambda>x. G x \<and> f x = y)) (c y) Q (caching k H)" for y
    unfolding triple_def
  proof (intro allI impI)
    fix s
    assume "caching k (\<lambda>x. G x \<and> f x = y) s"
    then have s: "G (st_db s)" "stands (st_db s) k s" "f (st_db s) = y" by (simp_all add: caching_def stands_def)
    from assms(1) [OF s(1)] s(2,3) show "case c y s of (Inl e, s') \<Rightarrow> caching k H s' | (Inr x, s') \<Rightarrow> Q x s'"
      by (simp add: triple_def)
  qed
  then show ?thesis
    by (intro triple_reading_bnd) (auto simp: caching_def assms(2) triple_def)
qed

lemma stands_reading:
  assumes "triple (stands d k) (c (f d)) Q (stands d k)"
  shows "triple (stands d k) (bnd (reading F f) c) Q (stands d k)"
  using caching_reading [of "\<lambda>x. x = d" k c f Q "\<lambda>x. x = d" F] assms by (simp add: stands_caching)

lemma caching_writing:
  "(\<And>d. G d \<Longrightarrow> H (f d)) \<Longrightarrow> triple (caching k G) (writing F f) (\<lambda>_. caching k H) (caching k (\<lambda>_. True))"
  by (rule triple_writing) (auto simp: caching_def)

text \<open>A transaction either has the whole effect of its body or none.\<close>

lemma stands_transaction:
  assumes "triple (stands d k) m (\<lambda>x. caching k (G x)) (caching k (\<lambda>_. True))"
  shows "triple (stands d k) (db_transaction F m) (\<lambda>x. caching k (G x)) (stands d k)"
proof -
  let ?T = "caching k (\<lambda>_. True)"
  have w: "triple (stands d k) (writing F id) (\<lambda>_. stands d k) ?T"
    by (rule triple_writing) (auto simp: stands_def caching_def)
  have c: "triple (caching k (G x)) (thn (writing F id) (retn x)) (\<lambda>x. caching k (G x)) ?T" for x
    by (rule triple_thn [where R = "caching k (G x)"], rule triple_writing) (auto simp: caching_def intro: triple_retn)
  have t: "triple (stands d k) (bnd (thn (writing F id) m) (\<lambda>x. thn (writing F id) (retn x))) (\<lambda>x. caching k (G x)) ?T"
    by (rule triple_bnd [OF triple_thn [OF w assms] c])
  show ?thesis
    unfolding triple_def db_transaction_def
  proof (intro allI impI)
    fix s
    assume s: "stands d k s"
    from t [unfolded triple_def, rule_format, OF s]
    show "case (case bnd (thn (writing F id) m) (\<lambda>x. thn (writing F id) (retn x)) s of
        (Inl e, s') \<Rightarrow> (Inl e, s'\<lparr>st_db := st_db s\<rparr>) | (Inr x, s') \<Rightarrow> (Inr x, s')) of
      (Inl e, s') \<Rightarrow> stands d k s' | (Inr x, s') \<Rightarrow> caching k (G x) s'"
      using s by (auto simp: stands_def caching_def split: prod.split sum.split)
  qed
qed

section \<open>The changes\<close>

definition set_clan :: "int \<Rightarrow> int option \<Rightarrow> int \<Rightarrow> clan_tables \<Rightarrow> clan_tables" where
  "set_clan i clan priv d = d\<lparr>ct_users := update_rows (\<lambda>u. cu_id u = i)
     (\<lambda>u. u\<lparr>cu_clan_id := (case clan of Some c \<Rightarrow> c | None \<Rightarrow> cu_clan_id u), cu_clan_priv := priv\<rparr>) (ct_users d)\<rparr>"

definition founded :: "rat \<Rightarrow> int \<Rightarrow> pystr \<Rightarrow> pystr \<Rightarrow> clan_tables \<Rightarrow> clan_tables" where
  "founded now owner tag name d = set_clan owner (Some (t_next (ct_clans d))) CLAN_OWNER
     (d\<lparr>ct_clans := add_row (\<lambda>i. \<lparr>cl_id = i, cl_name = name, cl_tag = tag, cl_owner = owner, cl_created = now\<rparr>) (ct_clans d)\<rparr>)"

definition without_clan :: "int \<Rightarrow> clan_tables \<Rightarrow> clan_tables" where
  "without_clan i d = d\<lparr>ct_clans := delete_rows (\<lambda>c. cl_id c = i) (ct_clans d)\<rparr>"

definition disbanded :: "int \<Rightarrow> clan_user list \<Rightarrow> clan_tables \<Rightarrow> clan_tables" where
  "disbanded i ms d = fold (\<lambda>u. set_clan (cu_id u) (Some 0) 0) ms (without_clan i d)"

definition transferred :: "int \<Rightarrow> int \<Rightarrow> int \<Rightarrow> clan_tables \<Rightarrow> clan_tables" where
  "transferred i target owner d = set_clan owner None CLAN_OFFICER (set_clan target None CLAN_OWNER
     (d\<lparr>ct_clans := update_rows (\<lambda>c. cl_id c = i) (\<lambda>c. c\<lparr>cl_owner := target\<rparr>) (ct_clans d)\<rparr>))"

lemma set_clan_body:
  "triple (caching k (\<lambda>x. x = d)) (user_set_clan E i c p) (\<lambda>_. caching k (\<lambda>x. x = set_clan i c p d)) (caching k (\<lambda>_. True))"
proof -
  have "triple (caching k (\<lambda>x. x = set_clan i c p d)) (user_by_id E i)
      (\<lambda>_. caching k (\<lambda>x. x = set_clan i c p d)) (caching k (\<lambda>_. True))"
    unfolding user_by_id_def by (rule triple_reading) (auto simp: caching_def)
  then show ?thesis
    unfolding user_set_clan_def set_clan_def by (rule triple_thn [OF caching_writing, rotated]) simp
qed

lemma delete_body:
  assumes "row_of cl_id i (ct_clans d) \<noteq> None"
  shows "triple (caching k (\<lambda>x. x = d)) (clans_delete_one E i) (\<lambda>_. caching k (\<lambda>x. x = without_clan i d)) (caching k (\<lambda>_. True))"
  unfolding clans_delete_one_def clan_by_id_def
proof (rule caching_reading)
  fix d' assume "d' = d"
  then obtain c where "row_of cl_id i (ct_clans d') = Some c" "d' = d" using assms by auto
  then show "triple (stands d' k) (case row_of cl_id i (ct_clans d') of None \<Rightarrow> retn None
       | Some c \<Rightarrow> thn (writing (le_faults E) (\<lambda>d. d\<lparr>ct_clans := delete_rows (\<lambda>c. cl_id c = i) (ct_clans d)\<rparr>)) (retn (Some c)))
     (\<lambda>_. caching k (\<lambda>x. x = without_clan i d)) (caching k (\<lambda>_. True))"
    unfolding stands_caching
    by (simp, intro triple_thn [OF caching_writing [where H = "\<lambda>x. x = without_clan i d"]])
      (auto simp: without_clan_def intro: triple_retn)
qed simp

lemma clear_body:
  "triple (caching k (\<lambda>x. x = d)) (clear_members E ms)
     (\<lambda>_. caching k (\<lambda>x. x = fold (\<lambda>u. set_clan (cu_id u) (Some 0) 0) ms d)) (caching k (\<lambda>_. True))"
  unfolding clear_members_def
proof (induction ms arbitrary: d)
  case (Cons u ms)
  have "triple (caching k (\<lambda>x. x = d)) (thn (user_set_clan E (cu_id u) (Some 0) 0) skip)
      (\<lambda>_. caching k (\<lambda>x. x = set_clan (cu_id u) (Some 0) 0 d)) (caching k (\<lambda>_. True))"
    by (rule triple_thn [OF set_clan_body]) (simp add: triple_skip)
  then show ?case using Cons by (auto intro: triple_thn)
qed (simp add: triple_skip)

section \<open>What each operation does\<close>

definition recached :: "int \<Rightarrow> int option \<Rightarrow> int option \<Rightarrow> clan_cache \<Rightarrow> clan_cache" where
  "recached i clan priv k = (case k i of None \<Rightarrow> k | Some _ \<Rightarrow> k(i := Some (clan, priv)))"

lemma sync_triple: "triple (caching k G) (sync_online i c p) (\<lambda>_. caching (recached i c p k) G) E"
  unfolding sync_online_def by (rule triple_modify) (auto simp: caching_def recached_def split: option.split)

lemma sync_all_triple:
  "triple (caching k G) (foreach ms (\<lambda>u. sync_online (cu_id u) c p))
     (\<lambda>_. caching (fold (\<lambda>u. recached (cu_id u) c p) ms k) G) E"
proof (induction ms arbitrary: k)
  case (Cons u ms)
  then show ?case by (auto intro: triple_thn [OF sync_triple])
qed (simp add: triple_skip)

definition with_clan :: "rat \<Rightarrow> int \<Rightarrow> pystr \<Rightarrow> pystr \<Rightarrow> clan_tables \<Rightarrow> clan_tables" where
  "with_clan now owner tag name d = d\<lparr>ct_clans :=
     add_row (\<lambda>i. \<lparr>cl_id = i, cl_name = name, cl_tag = tag, cl_owner = owner, cl_created = now\<rparr>) (ct_clans d)\<rparr>"

lemma create_body:
  "triple (caching k (\<lambda>x. x = d)) (clans_create E name tag owner)
     (\<lambda>c. caching k (\<lambda>x. cl_id c = t_next (ct_clans d) \<and> (\<exists>now. x = with_clan now owner tag name d)))
     (caching k (\<lambda>_. True))"
  unfolding clans_create_def
proof (rule triple_gets_bnd)
  fix now
  let ?T = "caching k (\<lambda>_. True)"
  let ?R = "\<lambda>rec. caching k (\<lambda>x. rec = None \<and> x = d \<or> rec = Some (t_next (ct_clans d)) \<and> x = with_clan now owner tag name d)"
  let ?st = "statement (le_faults E) (\<lambda>d. if \<exists>c \<in> set (t_rows (ct_clans d)). cl_owner c = owner \<or> le_same_text E (cl_tag c) tag \<or> le_same_text E (cl_name c) name then (None, d)
       else (Some (t_next (ct_clans d)), d\<lparr>ct_clans := add_row (\<lambda>i. \<lparr>cl_id = i, cl_name = name, cl_tag = tag, cl_owner = owner, cl_created = now\<rparr>)
              (ct_clans d)\<rparr>))"
  have s: "triple (\<lambda>s. caching k (\<lambda>x. x = d) s \<and> le_now E (st_tick s) = now) ?st ?R ?T"
    by (rule triple_statement) (auto simp: caching_def with_clan_def)
  have f: "triple (caching k (\<lambda>x. x = with_clan now owner tag name d)) (bnd (clan_by_id E i) (the_or AssertionError))
     (\<lambda>c. caching k (\<lambda>x. cl_id c = i \<and> (\<exists>now. x = with_clan now owner tag name d))) ?T" for i
    unfolding clan_by_id_def
    by (rule caching_reading, rule triple_the_or) (auto simp: caching_def stands_def dest: row_of_Some)
  have r: "triple (?R rec) (bnd (the_or DatabaseError rec) (\<lambda>i. bnd (clan_by_id E i) (the_or AssertionError)))
     (\<lambda>c. caching k (\<lambda>x. cl_id c = t_next (ct_clans d) \<and> (\<exists>now. x = with_clan now owner tag name d))) ?T" for rec
  proof (cases rec)
    case (Some i)
    have "triple (?R rec) (bnd (clan_by_id E i) (the_or AssertionError))
       (\<lambda>c. caching k (\<lambda>x. cl_id c = t_next (ct_clans d) \<and> (\<exists>now. x = with_clan now owner tag name d))) ?T"
    proof (cases "i = t_next (ct_clans d)")
      case True
      then show ?thesis by (intro triple_conseq [OF f]) (auto simp: caching_def Some)
    next
      case False
      then show ?thesis by (simp add: triple_def caching_def Some)
    qed
    then show ?thesis using Some by (simp add: triple_def)
  qed (simp add: triple_def caching_def)
  show "triple (\<lambda>s. caching k (\<lambda>x. x = d) s \<and> le_now E (st_tick s) = now)
     (bnd ?st (\<lambda>rec. bnd (the_or DatabaseError rec) (\<lambda>i. bnd (clan_by_id E i) (the_or AssertionError))))
     (\<lambda>c. caching k (\<lambda>x. cl_id c = t_next (ct_clans d) \<and> (\<exists>now. x = with_clan now owner tag name d))) ?T"
    by (rule triple_bnd [OF s r])
qed

lemma found_triple:
  "triple (stands d k) (found_clan E owner tag name)
     (\<lambda>c. caching (recached owner (Some (t_next (ct_clans d))) (Some CLAN_OWNER) k)
        (\<lambda>x. \<exists>now. x = founded now owner tag name d)) (stands d k)"
proof -
  let ?G = "\<lambda>c x. cl_id c = t_next (ct_clans d) \<and> (\<exists>now. x = founded now owner tag name d)"
  have u: "triple (caching k (\<lambda>x. cl_id c = t_next (ct_clans d) \<and> (\<exists>now. x = with_clan now owner tag name d)))
      (thn (user_set_clan E owner (Some (cl_id c)) CLAN_OWNER) (retn c)) (\<lambda>c. caching k (?G c)) (caching k (\<lambda>_. True))" for c
  proof -
    have "triple (caching k (\<lambda>x. x = with_clan now owner tag name d)) (user_set_clan E owner (Some (t_next (ct_clans d))) CLAN_OWNER)
        (\<lambda>_. caching k (\<lambda>x. \<exists>now. x = founded now owner tag name d)) (caching k (\<lambda>_. True))" for now
      by (rule triple_conseq [OF set_clan_body]) (auto simp: caching_def founded_def with_clan_def)
    then have "triple (caching k (\<lambda>x. cl_id c = t_next (ct_clans d) \<and> (\<exists>now. x = with_clan now owner tag name d)))
        (user_set_clan E owner (Some (cl_id c)) CLAN_OWNER) (\<lambda>_. caching k (?G c)) (caching k (\<lambda>_. True))"
      unfolding triple_def caching_def by (fastforce split: prod.splits sum.splits)
    then show ?thesis by (rule triple_thn) (simp add: triple_retn)
  qed
  have t: "triple (stands d k) (db_transaction (le_faults E) (bnd (clans_create E name tag owner) (\<lambda>c.
        thn (user_set_clan E owner (Some (cl_id c)) CLAN_OWNER) (retn c)))) (\<lambda>c. caching k (?G c)) (stands d k)"
    by (rule stands_transaction) (simp only: stands_caching, rule triple_bnd [OF create_body u])
  have s: "triple (caching k (?G c)) (thn (sync_online owner (Some (cl_id c)) (Some CLAN_OWNER)) (retn c))
     (\<lambda>c. caching (recached owner (Some (t_next (ct_clans d))) (Some CLAN_OWNER) k) (\<lambda>x. \<exists>now. x = founded now owner tag name d)) (stands d k)" for c
    by (rule triple_thn [OF sync_triple]) (auto intro!: triple_retn simp: caching_def)
  show ?thesis unfolding found_clan_def by (rule triple_bnd [OF t s])
qed

lemma set_owner_body:
  "triple (caching k (\<lambda>x. x = d)) (clans_set_owner E i owner)
     (\<lambda>_. caching k (\<lambda>x. x = d\<lparr>ct_clans := update_rows (\<lambda>c. cl_id c = i) (\<lambda>c. c\<lparr>cl_owner := owner\<rparr>) (ct_clans d)\<rparr>))
     (caching k (\<lambda>_. True))"
proof -
  let ?d = "d\<lparr>ct_clans := update_rows (\<lambda>c. cl_id c = i) (\<lambda>c. c\<lparr>cl_owner := owner\<rparr>) (ct_clans d)\<rparr>"
  let ?R = "\<lambda>ok :: unit option. caching k (\<lambda>x. ok \<noteq> None \<longrightarrow> x = ?d)"
  have f: "triple (caching k (\<lambda>x. x = ?d)) (clan_by_id E i) (\<lambda>_. caching k (\<lambda>x. x = ?d)) (caching k (\<lambda>_. True))"
    unfolding clan_by_id_def by (rule triple_reading) (auto simp: caching_def)
  have "triple (?R ok) (bnd (the_or DatabaseError ok) (\<lambda>_. clan_by_id E i)) (\<lambda>_. caching k (\<lambda>x. x = ?d)) (caching k (\<lambda>_. True))" for ok
    by (cases ok) (use f in \<open>simp_all add: triple_def caching_def\<close>)
  then show ?thesis
    unfolding clans_set_owner_def by (rule triple_bnd [rotated]) (rule triple_statement; auto simp: caching_def)
qed

lemma hand_over_triple:
  "triple (stands d k) (hand_over_clan E c target owner)
     (\<lambda>_. stands (transferred (cl_id c) target owner d)
        (recached owner (Some (cl_id c)) (Some CLAN_OFFICER) (recached target (Some (cl_id c)) (Some CLAN_OWNER) k))) (stands d k)"
proof -
  let ?G = "\<lambda>x. x = transferred (cl_id c) target owner d"
  have "triple (stands d k) (db_transaction (le_faults E) (thn (clans_set_owner E (cl_id c) target)
        (thn (user_set_clan E target None CLAN_OWNER) (user_set_clan E owner None CLAN_OFFICER)))) (\<lambda>_. caching k ?G) (stands d k)"
    unfolding transferred_def
    by (rule stands_transaction)
      (simp only: stands_caching, rule triple_thn [OF set_owner_body], rule triple_thn [OF set_clan_body], rule set_clan_body)
  then show ?thesis
    unfolding hand_over_clan_def by (rule triple_thn) (simp only: stands_caching, rule triple_thn [OF sync_triple], rule sync_triple)
qed

lemma disband_triple:
  "triple (stands d k) (disband_clan E i)
     (\<lambda>r. let ms = filter (\<lambda>u. cu_clan_id u = i) (t_rows (ct_users d)) in
        if row_of cl_id i (ct_clans d) = None then stands d k
        else stands (disbanded i ms d) (fold (\<lambda>u. recached (cu_id u) None None) ms k)) (stands d k)"
  unfolding disband_clan_def clan_by_id_def
proof (rule stands_reading)
  let ?ms = "filter (\<lambda>u. cu_clan_id u = i) (t_rows (ct_users d))"
  show "triple (stands d k) (case row_of cl_id i (ct_clans d) of None \<Rightarrow> retn None
     | Some c \<Rightarrow> bnd (users_of_clan E (cl_id c) True None) (\<lambda>ms.
         thn (db_transaction (le_faults E) (thn (clans_delete_one E (cl_id c)) (clear_members E ms)))
         (thn (foreach ms (\<lambda>u. sync_online (cu_id u) None None)) (retn (Some c)))))
     (\<lambda>r. let ms = ?ms in if row_of cl_id i (ct_clans d) = None then stands d k
        else stands (disbanded i ms d) (fold (\<lambda>u. recached (cu_id u) None None) ms k)) (stands d k)"
  proof (cases "row_of cl_id i (ct_clans d)")
    case (Some c)
    then have c: "cl_id c = i" by (auto dest: row_of_Some)
    have t: "triple (stands d k) (db_transaction (le_faults E) (thn (clans_delete_one E i) (clear_members E ?ms)))
        (\<lambda>_. caching k (\<lambda>x. x = disbanded i ?ms d)) (stands d k)"
      unfolding disbanded_def
      by (rule stands_transaction) (simp only: stands_caching, rule triple_thn [OF delete_body clear_body], simp add: Some)
    have s: "triple (caching k (\<lambda>x. x = disbanded i ?ms d)) (thn (foreach ?ms (\<lambda>u. sync_online (cu_id u) None None)) (retn (Some c)))
        (\<lambda>_. stands (disbanded i ?ms d) (fold (\<lambda>u. recached (cu_id u) None None) ?ms k)) (stands d k)"
      by (rule triple_thn [OF sync_all_triple]) (simp add: triple_retn stands_caching)
    have "triple (stands d k) (bnd (users_of_clan E i True None) (\<lambda>ms.
        thn (db_transaction (le_faults E) (thn (clans_delete_one E i) (clear_members E ms)))
        (thn (foreach ms (\<lambda>u. sync_online (cu_id u) None None)) (retn (Some c)))))
        (\<lambda>_. stands (disbanded i ?ms d) (fold (\<lambda>u. recached (cu_id u) None None) ?ms k)) (stands d k)"
      unfolding users_of_clan_def by (rule stands_reading) (use triple_thn [OF t s] in simp)
    then show ?thesis using Some c by (simp add: Let_def)
  qed (simp add: triple_retn)
qed

lemma depart_triple:
  assumes "row_of cl_id (cl_id c) (ct_clans d) \<noteq> None"
  shows "triple (stands d k) (depart E i c alone)
     (\<lambda>_. stands (if alone then without_clan (cl_id c) (set_clan i (Some 0) 0 d) else set_clan i (Some 0) 0 d)
        (recached i None None k)) (stands d k)"
proof -
  let ?d = "set_clan i (Some 0) 0 d"
  have "row_of cl_id (cl_id c) (ct_clans ?d) \<noteq> None" using assms by (simp add: set_clan_def)
  then have "triple (caching k (\<lambda>x. x = ?d)) (thn (clans_delete_one E (cl_id c)) skip)
      (\<lambda>_. caching k (\<lambda>x. x = without_clan (cl_id c) ?d)) (caching k (\<lambda>_. True))"
    by (rule triple_thn [OF delete_body]) (simp add: triple_skip)
  then have "triple (caching k (\<lambda>x. x = ?d)) (if alone then thn (clans_delete_one E (cl_id c)) skip else skip)
      (\<lambda>_. caching k (\<lambda>x. x = (if alone then without_clan (cl_id c) ?d else ?d))) (caching k (\<lambda>_. True))"
    by (simp add: triple_skip)
  then have "triple (stands d k) (db_transaction (le_faults E) (thn (user_set_clan E i (Some 0) 0)
        (if alone then thn (clans_delete_one E (cl_id c)) skip else skip)))
      (\<lambda>_. caching k (\<lambda>x. x = (if alone then without_clan (cl_id c) ?d else ?d))) (stands d k)"
    by (intro stands_transaction) (simp only: stands_caching, rule triple_thn [OF set_clan_body])
  then show ?thesis
    unfolding depart_def stands_caching by (rule triple_thn) (rule sync_triple)
qed

text \<open>The changes an operation can make, each with what was read before.\<close>

inductive clan_change :: "clan_tables \<Rightarrow> clan_cache \<Rightarrow> clan_tables \<Rightarrow> clan_cache \<Rightarrow> bool" where
  founding: "row_of cu_id i (ct_users d) = Some u \<Longrightarrow>
    cu_clan_id u \<noteq> 0 \<longrightarrow> row_of cl_id (cu_clan_id u) (ct_clans d) = None \<Longrightarrow>
    clan_change d k (founded now i tag name d) (recached i (Some (t_next (ct_clans d))) (Some CLAN_OWNER) k)"
| disbanding: "row_of cl_id i (ct_clans d) \<noteq> None \<Longrightarrow> ms = filter (\<lambda>u. cu_clan_id u = i) (t_rows (ct_users d)) \<Longrightarrow>
    clan_change d k (disbanded i ms d) (fold (\<lambda>u. recached (cu_id u) None None) ms k)"
| departure: "row_of cu_id i (ct_users d) = Some u \<Longrightarrow> row_of cl_id (cu_clan_id u) (ct_clans d) \<noteq> None \<Longrightarrow>
    cu_clan_priv u \<noteq> CLAN_OWNER \<Longrightarrow>
    alone = (filter (\<lambda>m. cu_id m \<noteq> i) (filter (\<lambda>m. cu_clan_id m = cu_clan_id u) (t_rows (ct_users d))) = []) \<Longrightarrow>
    clan_change d k (if alone then without_clan (cu_clan_id u) (set_clan i (Some 0) 0 d) else set_clan i (Some 0) 0 d)
      (recached i None None k)"
| handing_over: "row_of cu_id i (ct_users d) = Some u \<Longrightarrow> cu_clan_priv u = CLAN_OWNER \<Longrightarrow>
    row_of cl_id c (ct_clans d) \<noteq> None \<Longrightarrow> cu_clan_id u = c \<Longrightarrow>
    t \<in> set (t_rows (ct_users d)) \<Longrightarrow> cu_clan_id t = c \<Longrightarrow> cu_id t \<noteq> i \<Longrightarrow>
    clan_change d k (transferred c (cu_id t) i d)
      (recached i (Some c) (Some CLAN_OFFICER) (recached (cu_id t) (Some c) (Some CLAN_OWNER) k))"

definition clan_changed :: "clan_tables \<Rightarrow> clan_cache \<Rightarrow> clan_world \<Rightarrow> bool" where
  "clan_changed d k s \<longleftrightarrow> stands d k s \<or> clan_change d k (st_db s) (cw_cache s)"

lemma unchanged: "triple (stands d k) (retn x) (\<lambda>_. clan_changed d k) E"
  by (rule triple_retn) (simp add: clan_changed_def)

lemma unchanged_raise: "triple (stands d k) (raise e) (\<lambda>_. clan_changed d k) (stands d k)"
  by (rule triple_raise) simp

lemma clan_changed_by: "clan_change d k d' k' \<Longrightarrow> stands d' k' s \<Longrightarrow> clan_changed d k s"
  by (simp add: clan_changed_def stands_def)

lemma stands_the_or:
  assumes "\<And>x. v = Some x \<Longrightarrow> triple (stands d k) (c x) Q (stands d k)"
  shows "triple (stands d k) (bnd (the_or e v) c) Q (stands d k)"
  using assms by (cases v) (auto simp: triple_def)

lemma create_changes:
  "triple (stands d k) (create_clan E i tag name) (\<lambda>_. clan_changed d k) (stands d k)"
proof -
  have f: "triple (stands d k) (bnd (found_clan E i t name) (\<lambda>c. retn (CREATED, Some c, None))) (\<lambda>_. clan_changed d k) (stands d k)"
    if u: "row_of cu_id i (ct_users d) = Some u" "cu_clan_id u \<noteq> 0 \<longrightarrow> row_of cl_id (cu_clan_id u) (ct_clans d) = None" for u t
    by (rule triple_bnd [OF found_triple])
      (rule triple_retn, auto simp: caching_def clan_changed_def intro!: founding [OF u])
  have g: "triple (stands d k) (bnd (clan_by_name E name) (\<lambda>n.
         if n \<noteq> None then retn (NAME_TAKEN, None, None)
         else bnd (clan_by_tag E t) (\<lambda>tt.
           if tt \<noteq> None then retn (TAG_TAKEN, None, None)
           else bnd (found_clan E i t name) (\<lambda>c. retn (CREATED, Some c, None))))) (\<lambda>_. clan_changed d k) (stands d k)"
    if u: "row_of cu_id i (ct_users d) = Some u" "cu_clan_id u \<noteq> 0 \<longrightarrow> row_of cl_id (cu_clan_id u) (ct_clans d) = None" for u t
    unfolding clan_by_name_def clan_by_tag_def
    by (intro stands_reading triple_if unchanged f [OF u])
  have c: "triple (stands d k) (bnd (current_clan E u) (\<lambda>cur. case cur of
          Some c \<Rightarrow> retn (ALREADY_IN_CLAN, None, Some c)
        | None \<Rightarrow> bnd (clan_by_name E name) (\<lambda>n.
              if n \<noteq> None then retn (NAME_TAKEN, None, None)
              else bnd (clan_by_tag E t) (\<lambda>tt.
                if tt \<noteq> None then retn (TAG_TAKEN, None, None)
                else bnd (found_clan E i t name) (\<lambda>c. retn (CREATED, Some c, None)))))) (\<lambda>_. clan_changed d k) (stands d k)"
    if u: "row_of cu_id i (ct_users d) = Some u" for u t
  proof (cases "cu_clan_id u = 0")
    case True
    then show ?thesis using g [OF u] by (simp add: current_clan_def triple_def)
  next
    case False
    then show ?thesis
      unfolding current_clan_def clan_by_id_def
      by (simp, intro stands_reading) (use g [OF u] in \<open>auto split: option.split intro: unchanged\<close>)
  qed
  show ?thesis
    unfolding create_clan_def user_by_id_def Let_def
    by (intro triple_if unchanged stands_reading stands_the_or c)
qed

lemma disband_changes: "triple (stands d k) (disband_clan E i) (\<lambda>_. clan_changed d k) (stands d k)"
  by (rule triple_conseq [OF disband_triple])
    (auto simp: Let_def clan_changed_def stands_def intro: disbanding split: if_splits)

lemma leave_changes: "triple (stands d k) (leave_clan E i) (\<lambda>_. clan_changed d k) (stands d k)"
proof -
  have p: "triple (stands d k) (thn (depart E i c (filter (\<lambda>m. cu_id m \<noteq> i) (filter (\<lambda>m. cu_clan_id m = cl_id c) (t_rows (ct_users d))) = [])) (retn x))
      (\<lambda>_. clan_changed d k) (stands d k)"
    if "row_of cu_id i (ct_users d) = Some u" "cu_clan_priv u \<noteq> CLAN_OWNER" "row_of cl_id (cu_clan_id u) (ct_clans d) = Some c" for u c and x :: 'z
  proof (rule triple_thn [OF depart_triple])
    have c: "cl_id c = cu_clan_id u" using that(3) by (auto dest: row_of_Some)
    then show "row_of cl_id (cl_id c) (ct_clans d) \<noteq> None" using that(3) by simp
    show "triple (stands (if filter (\<lambda>m. cu_id m \<noteq> i) (filter (\<lambda>m. cu_clan_id m = cl_id c) (t_rows (ct_users d))) = []
          then without_clan (cl_id c) (set_clan i (Some 0) 0 d) else set_clan i (Some 0) 0 d) (recached i None None k))
        (retn x) (\<lambda>_. clan_changed d k) (stands d k)"
      unfolding c by (rule triple_retn, rule clan_changed_by [OF departure [OF that(1) _ that(2) refl]]) (use that(3) in auto)
  qed
  show ?thesis
    unfolding leave_clan_def user_by_id_def clan_by_id_def users_of_clan_def
    apply (intro stands_reading stands_the_or triple_if unchanged)
    apply (split option.split, intro conjI impI allI unchanged stands_reading)
    apply (simp only: Let_def simp_thms)
    apply (rule p; assumption)
    done
qed

lemma transfer_changes: "triple (stands d k) (transfer_clan_ownership E i name) (\<lambda>_. clan_changed d k) (stands d k)"
proof -
  have h: "triple (stands d k) (thn (hand_over_clan E c (cu_id t) i) (retn x)) (\<lambda>_. clan_changed d k) (stands d k)"
    if "row_of cu_id i (ct_users d) = Some u" "cu_clan_priv u = CLAN_OWNER" "row_of cl_id (cu_clan_id u) (ct_clans d) = Some c"
      "t \<in> set (t_rows (ct_users d))" "cu_clan_id t = cl_id c" "cu_id t \<noteq> i" for u c t and x :: 'z
  proof (rule triple_thn [OF hand_over_triple], rule triple_retn)
    fix s
    assume s: "stands (transferred (cl_id c) (cu_id t) i d) (recached i (Some (cl_id c)) (Some CLAN_OFFICER)
        (recached (cu_id t) (Some (cl_id c)) (Some CLAN_OWNER) k)) s"
    have "cl_id c = cu_clan_id u" using that(3) by (auto dest: row_of_Some)
    then show "clan_changed d k s" using that s by (intro clan_changed_by [OF handing_over [OF that(1,2)] s]) auto
  qed
  show ?thesis
    unfolding transfer_clan_ownership_def user_by_id_def clan_by_id_def user_by_name_def
    apply (intro stands_reading stands_the_or triple_if unchanged)
    apply (split option.split, intro conjI impI allI unchanged stands_reading)
    apply (split option.split, intro conjI impI allI triple_if unchanged)
    apply (rule h; auto simp: find_Some_iff)
    done
qed

section \<open>The invariant\<close>

text \<open>
  \<open>clans_ok\<close>: a clan has exactly one member with the rank of owner, the one its row names, and whoever is
  in a clan is in one that exists. \<open>cache_ok\<close>: a cached clan is that of the row.
\<close>

definition clans_ok :: "clan_tables \<Rightarrow> bool" where
  "clans_ok d \<longleftrightarrow> keyed cl_id (ct_clans d) \<and> keyed cu_id (ct_users d) \<and>
     0 < t_next (ct_clans d) \<and> (\<forall>c \<in> set (t_rows (ct_clans d)). 0 < cl_id c) \<and>
     (\<forall>c \<in> set (t_rows (ct_clans d)). \<exists>u \<in> set (t_rows (ct_users d)).
        cu_id u = cl_owner c \<and> cu_clan_id u = cl_id c \<and> cu_clan_priv u = CLAN_OWNER) \<and>
     (\<forall>u \<in> set (t_rows (ct_users d)). cu_clan_id u \<noteq> 0 \<longrightarrow> (\<exists>c \<in> set (t_rows (ct_clans d)). cl_id c = cu_clan_id u \<and>
        (cu_clan_priv u = CLAN_OWNER \<longrightarrow> cl_owner c = cu_id u)))"

definition cached_clan :: "clan_user \<Rightarrow> int option \<times> int option" where
  "cached_clan u = (if cu_clan_id u \<noteq> 0 then (Some (cu_clan_id u), Some (cu_clan_priv u)) else (None, None))"

definition cache_ok :: "clan_tables \<Rightarrow> clan_cache \<Rightarrow> bool" where
  "cache_ok d k \<longleftrightarrow> (\<forall>i v. k i = Some v \<longrightarrow> (\<exists>u \<in> set (t_rows (ct_users d)). cu_id u = i \<and> v = cached_clan u))"

definition ranked :: "int option \<Rightarrow> int \<Rightarrow> clan_user \<Rightarrow> clan_user" where
  "ranked clan priv u = u\<lparr>cu_clan_id := (case clan of Some c \<Rightarrow> c | None \<Rightarrow> cu_clan_id u), cu_clan_priv := priv\<rparr>"

lemma ranked_sel [simp]: "cu_id (ranked c p u) = cu_id u" "cu_clan_priv (ranked c p u) = p"
  "cu_clan_id (ranked (Some n) p u) = n" "cu_clan_id (ranked None p u) = cu_clan_id u"
  by (simp_all add: ranked_def)

lemma set_clan_sel [simp]:
  "ct_clans (set_clan i c p d) = ct_clans d" "t_next (ct_users (set_clan i c p d)) = t_next (ct_users d)"
  "t_rows (ct_users (set_clan i c p d)) = map (\<lambda>u. if cu_id u = i then ranked c p u else u) (t_rows (ct_users d))"
  by (simp_all add: set_clan_def update_rows_def ranked_def cong: if_cong)

lemma set_clan_rows: "set (t_rows (ct_users (set_clan i c p d))) = (\<lambda>w. if cu_id w = i then ranked c p w else w) ` set (t_rows (ct_users d))"
  by (simp only: set_clan_sel set_map)

lemma set_clan_keyed [simp]: "keyed cu_id (ct_users (set_clan i c p d)) = keyed cu_id (ct_users d)"
proof -
  have "map cu_id (t_rows (ct_users (set_clan i c p d))) = map cu_id (t_rows (ct_users d))" by simp
  then show ?thesis by (simp only: keyed_def set_clan_sel(2))
qed

text \<open>A row after the change comes from one before it.\<close>

lemma mapped_row:
  assumes "v \<in> (\<lambda>w. if P w then f w else w) ` W"
  obtains (changed) w where "w \<in> W" "P w" "v = f w" | (same) "v \<in> W" "\<not> P v"
proof -
  from assms obtain w where w: "w \<in> W" "v = (if P w then f w else w)" by (rule imageE)
  show ?thesis using w that by (cases "P w") simp_all
qed

lemma kept_row: "w \<in> W \<Longrightarrow> \<not> P w \<Longrightarrow> w \<in> (\<lambda>w. if P w then f w else w) ` W"
  by (rule image_eqI [of _ _ w]) simp_all

lemma changed_row: "w \<in> W \<Longrightarrow> P w \<Longrightarrow> f w \<in> (\<lambda>w. if P w then f w else w) ` W"
  by (rule image_eqI [of _ _ w]) simp_all

lemma cleared_members:
  "t_rows (ct_users (fold (\<lambda>u. set_clan (cu_id u) (Some 0) 0) ms d)) =
     map (\<lambda>u. if cu_id u \<in> cu_id ` set ms then ranked (Some 0) 0 u else u) (t_rows (ct_users d))"
  "ct_clans (fold (\<lambda>u. set_clan (cu_id u) (Some 0) 0) ms d) = ct_clans d"
  "keyed cu_id (ct_users (fold (\<lambda>u. set_clan (cu_id u) (Some 0) 0) ms d)) = keyed cu_id (ct_users d)"
  by (induction ms arbitrary: d) (auto simp: ranked_def)

lemma recached_fold: "fold (\<lambda>u. recached (cu_id u) None None) ms k i =
    (if i \<in> cu_id ` set ms \<and> k i \<noteq> None then Some (None, None) else k i)"
  by (induction ms arbitrary: k) (auto simp: recached_def split: option.split)

lemma recached_at: "recached i c p k j = (if j = i \<and> k i \<noteq> None then Some (c, p) else k j)"
  by (auto simp: recached_def split: option.split)

lemma clans_okI:
  assumes "keyed cl_id (ct_clans d)" "keyed cu_id (ct_users d)" "0 < t_next (ct_clans d)"
    "\<And>c. c \<in> set (t_rows (ct_clans d)) \<Longrightarrow> 0 < cl_id c"
    "\<And>c. c \<in> set (t_rows (ct_clans d)) \<Longrightarrow> \<exists>u \<in> set (t_rows (ct_users d)).
        cu_id u = cl_owner c \<and> cu_clan_id u = cl_id c \<and> cu_clan_priv u = CLAN_OWNER"
    "\<And>u. u \<in> set (t_rows (ct_users d)) \<Longrightarrow> cu_clan_id u \<noteq> 0 \<Longrightarrow> \<exists>c \<in> set (t_rows (ct_clans d)).
        cl_id c = cu_clan_id u \<and> (cu_clan_priv u = CLAN_OWNER \<longrightarrow> cl_owner c = cu_id u)"
  shows "clans_ok d"
  using assms by (simp add: clans_ok_def)

lemma ok_user: "clans_ok d \<Longrightarrow> row_of cu_id i (ct_users d) = Some u \<longleftrightarrow> u \<in> set (t_rows (ct_users d)) \<and> cu_id u = i"
  by (rule row_of_iff) (simp add: clans_ok_def)

lemma ok_clan: "clans_ok d \<Longrightarrow> row_of cl_id i (ct_clans d) \<noteq> None \<longleftrightarrow> (\<exists>c \<in> set (t_rows (ct_clans d)). cl_id c = i)"
  by (auto simp: row_of_None)

lemma ok_same_user: "clans_ok d \<Longrightarrow> u \<in> set (t_rows (ct_users d)) \<Longrightarrow> v \<in> set (t_rows (ct_users d)) \<Longrightarrow> cu_id u = cu_id v \<Longrightarrow> u = v"
  unfolding clans_ok_def using keyed_inj [of cu_id "ct_users d"] by blast

lemma ok_same_clan: "clans_ok d \<Longrightarrow> c \<in> set (t_rows (ct_clans d)) \<Longrightarrow> c' \<in> set (t_rows (ct_clans d)) \<Longrightarrow> cl_id c = cl_id c' \<Longrightarrow> c = c'"
  unfolding clans_ok_def using keyed_inj [of cl_id "ct_clans d"] by blast

lemma cache_okD: "cache_ok d k \<Longrightarrow> k i = Some v \<Longrightarrow> \<exists>u \<in> set (t_rows (ct_users d)). cu_id u = i \<and> v = cached_clan u"
  unfolding cache_ok_def by blast

lemma recached_ok:
  assumes "cache_ok d k"
    "set (t_rows (ct_users d')) = (\<lambda>w. if cu_id w = i then g w else w) ` set (t_rows (ct_users d))"
    "\<And>w. cu_id (g w) = cu_id w" "\<And>w. w \<in> set (t_rows (ct_users d)) \<Longrightarrow> cu_id w = i \<Longrightarrow> cached_clan (g w) = (c, p)"
  shows "cache_ok d' (recached i c p k)"
  unfolding cache_ok_def
proof (intro allI impI)
  fix j v
  assume j: "recached i c p k j = Some v"
  then obtain v' where v': "k j = Some v'" by (auto simp: recached_at split: if_splits)
  then obtain w where w: "w \<in> set (t_rows (ct_users d))" "cu_id w = j" "v' = cached_clan w" using cache_okD [OF assms(1)] by blast
  show "\<exists>w \<in> set (t_rows (ct_users d')). cu_id w = j \<and> v = cached_clan w"
  proof (cases "j = i")
    case True
    then have "v = cached_clan (g w)" using j v' w assms(4) by (simp add: recached_at)
    moreover have "g w \<in> set (t_rows (ct_users d'))" unfolding assms(2) using w True by (intro changed_row) simp_all
    ultimately show ?thesis using w assms(3) by (intro bexI [of _ "g w"]) simp_all
  next
    case False
    then have "v = v'" using j v' by (simp add: recached_at)
    moreover have "w \<in> set (t_rows (ct_users d'))" unfolding assms(2) using w False by (intro kept_row) simp_all
    ultimately show ?thesis using w by blast
  qed
qed

lemma founded_ok:
  assumes "clans_ok d" "cache_ok d k" "u \<in> set (t_rows (ct_users d))" "cu_id u = i" "cu_clan_id u = 0"
  shows "clans_ok (founded now i tag name d)"
    "cache_ok (founded now i tag name d) (recached i (Some (t_next (ct_clans d))) (Some CLAN_OWNER) k)"
proof -
  let ?n = "t_next (ct_clans d)" and ?f = "ranked (Some (t_next (ct_clans d))) CLAN_OWNER"
  let ?row = "\<lambda>j. \<lparr>cl_id = j, cl_name = name, cl_tag = tag, cl_owner = i, cl_created = now\<rparr>"
  note k = assms(1) [unfolded clans_ok_def]
  have other: "cu_id v \<noteq> i" if "v \<in> set (t_rows (ct_users d))" "cu_clan_id v \<noteq> 0" for v
    using ok_same_user [OF assms(1) that(1) assms(3)] assms(4,5) that(2) by metis
  have users: "set (t_rows (ct_users (founded now i tag name d))) = (\<lambda>v. if cu_id v = i then ?f v else v) ` set (t_rows (ct_users d))"
    and clans: "ct_clans (founded now i tag name d) = add_row ?row (ct_clans d)"
    by (simp_all add: founded_def)
  have fu: "?f u \<in> set (t_rows (ct_users (founded now i tag name d)))"
    unfolding users using assms(3,4) by (intro changed_row)
  show "clans_ok (founded now i tag name d)"
  proof (rule clans_okI)
    show "keyed cl_id (ct_clans (founded now i tag name d))" "0 < t_next (ct_clans (founded now i tag name d))"
      using k by (simp_all add: clans keyed_add) (simp add: add_row_def)
    show "keyed cu_id (ct_users (founded now i tag name d))" using k by (simp add: founded_def)
  next
    fix c assume "c \<in> set (t_rows (ct_clans (founded now i tag name d)))"
    then consider "c = ?row ?n" | "c \<in> set (t_rows (ct_clans d))" by (auto simp: clans)
    then have "0 < cl_id c \<and> (\<exists>v \<in> set (t_rows (ct_users (founded now i tag name d))).
      cu_id v = cl_owner c \<and> cu_clan_id v = cl_id c \<and> cu_clan_priv v = CLAN_OWNER)"
    proof cases
      case 1
      then show ?thesis using fu k assms(4) by (intro conjI bexI [OF _ fu]) simp_all
    next
      case 2
      then obtain v where v: "v \<in> set (t_rows (ct_users d))" "cu_id v = cl_owner c" "cu_clan_id v = cl_id c"
          "cu_clan_priv v = CLAN_OWNER" "0 < cl_id c"
        using k by blast
      then have "v \<in> set (t_rows (ct_users (founded now i tag name d)))"
        unfolding users using other [OF v(1)] by (intro kept_row) simp_all
      then show ?thesis using v by blast
    qed
    then show "0 < cl_id c" "\<exists>v \<in> set (t_rows (ct_users (founded now i tag name d))).
      cu_id v = cl_owner c \<and> cu_clan_id v = cl_id c \<and> cu_clan_priv v = CLAN_OWNER" by simp_all
  next
    fix v assume v: "v \<in> set (t_rows (ct_users (founded now i tag name d)))" "cu_clan_id v \<noteq> 0"
    from v(1) [unfolded users] show "\<exists>c \<in> set (t_rows (ct_clans (founded now i tag name d))). cl_id c = cu_clan_id v \<and>
      (cu_clan_priv v = CLAN_OWNER \<longrightarrow> cl_owner c = cu_id v)"
    proof (cases rule: mapped_row)
      case (changed w)
      then show ?thesis by (simp add: clans)
    next
      case same
      then show ?thesis using k v(2) by (auto simp: clans)
    qed
  qed
  show "cache_ok (founded now i tag name d) (recached i (Some ?n) (Some CLAN_OWNER) k)"
    using k by (intro recached_ok [OF assms(2) users]) (simp_all add: cached_clan_def)
qed

lemma disbanded_ok:
  assumes "clans_ok d" "cache_ok d k" "ms = filter (\<lambda>u. cu_clan_id u = i) (t_rows (ct_users d))" "0 < i"
  shows "clans_ok (disbanded i ms d)" "cache_ok (disbanded i ms d) (fold (\<lambda>u. recached (cu_id u) None None) ms k)"
proof -
  note k = assms(1) [unfolded clans_ok_def]
  have ids: "cu_id w \<in> cu_id ` set ms \<longleftrightarrow> cu_clan_id w = i" if "w \<in> set (t_rows (ct_users d))" for w
  proof
    assume "cu_id w \<in> cu_id ` set ms"
    then obtain w' where w': "w' \<in> set ms" "cu_id w = cu_id w'" by blast
    then have "w = w'" using ok_same_user [OF assms(1) that] assms(3) by simp
    then show "cu_clan_id w = i" using w' assms(3) by simp
  qed (use that assms(3) in auto)
  have users: "set (t_rows (ct_users (disbanded i ms d))) =
      (\<lambda>w. if cu_clan_id w = i then ranked (Some 0) 0 w else w) ` set (t_rows (ct_users d))"
    unfolding disbanded_def cleared_members(1) set_map
    by (rule image_cong) (simp_all add: without_clan_def ids)
  have clans: "ct_clans (disbanded i ms d) = delete_rows (\<lambda>c. cl_id c = i) (ct_clans d)"
    unfolding disbanded_def cleared_members(2) by (simp add: without_clan_def)
  show "clans_ok (disbanded i ms d)"
  proof (rule clans_okI)
    show "keyed cl_id (ct_clans (disbanded i ms d))" "0 < t_next (ct_clans (disbanded i ms d))"
      using k by (simp_all add: clans keyed_delete) (simp add: delete_rows_def)
    show "keyed cu_id (ct_users (disbanded i ms d))"
      unfolding disbanded_def cleared_members(3) using k by (simp add: without_clan_def)
  next
    fix c assume "c \<in> set (t_rows (ct_clans (disbanded i ms d)))"
    then have c: "c \<in> set (t_rows (ct_clans d))" "cl_id c \<noteq> i" by (simp_all add: clans)
    then show "0 < cl_id c" using k by blast
    obtain v where v: "v \<in> set (t_rows (ct_users d))" "cu_id v = cl_owner c" "cu_clan_id v = cl_id c" "cu_clan_priv v = CLAN_OWNER"
      using k c by blast
    then have "v \<in> set (t_rows (ct_users (disbanded i ms d)))" unfolding users using c(2) by (intro kept_row) simp_all
    then show "\<exists>v \<in> set (t_rows (ct_users (disbanded i ms d))). cu_id v = cl_owner c \<and> cu_clan_id v = cl_id c \<and> cu_clan_priv v = CLAN_OWNER"
      using v by blast
  next
    fix v assume v: "v \<in> set (t_rows (ct_users (disbanded i ms d)))" "cu_clan_id v \<noteq> 0"
    from v(1) [unfolded users] show "\<exists>c \<in> set (t_rows (ct_clans (disbanded i ms d))). cl_id c = cu_clan_id v \<and>
      (cu_clan_priv v = CLAN_OWNER \<longrightarrow> cl_owner c = cu_id v)"
    proof (cases rule: mapped_row)
      case (changed w)
      then show ?thesis using v(2) by simp
    next
      case same
      then obtain c where "c \<in> set (t_rows (ct_clans d))" "cl_id c = cu_clan_id v" "cu_clan_priv v = CLAN_OWNER \<longrightarrow> cl_owner c = cu_id v"
        using k v(2) by blast
      then show ?thesis using same(2) by (intro bexI [of _ c]) (simp_all add: clans)
    qed
  qed
  show "cache_ok (disbanded i ms d) (fold (\<lambda>u. recached (cu_id u) None None) ms k)"
    unfolding cache_ok_def
  proof (intro allI impI)
    fix j v
    assume j: "fold (\<lambda>u. recached (cu_id u) None None) ms k j = Some v"
    then obtain v' where v': "k j = Some v'" by (auto simp: recached_fold split: if_splits)
    then obtain w where w: "w \<in> set (t_rows (ct_users d))" "cu_id w = j" "v' = cached_clan w" using cache_okD [OF assms(2)] by blast
    show "\<exists>w \<in> set (t_rows (ct_users (disbanded i ms d))). cu_id w = j \<and> v = cached_clan w"
    proof (cases "cu_clan_id w = i")
      case True
      then have "v = (None, None)" using j v' ids [OF w(1)] w(2) by (simp add: recached_fold)
      moreover have "ranked (Some 0) 0 w \<in> set (t_rows (ct_users (disbanded i ms d)))"
        unfolding users using True w(1) by (intro changed_row)
      ultimately show ?thesis using w(2) by (intro bexI [of _ "ranked (Some 0) 0 w"]) (simp_all add: cached_clan_def)
    next
      case False
      then have "v = v'" using j v' ids [OF w(1)] w(2) by (simp add: recached_fold)
      moreover have "w \<in> set (t_rows (ct_users (disbanded i ms d)))"
        unfolding users using False w(1) by (intro kept_row)
      ultimately show ?thesis using w by blast
    qed
  qed
qed

text \<open>A member who is not the owner never leaves the clan empty, since the owner stays.\<close>

lemma departed_ok:
  assumes "clans_ok d" "cache_ok d k" "u \<in> set (t_rows (ct_users d))" "cu_id u = i" "cu_clan_priv u \<noteq> CLAN_OWNER"
  shows "clans_ok (set_clan i (Some 0) 0 d)" "cache_ok (set_clan i (Some 0) 0 d) (recached i None None k)"
    "c \<in> set (t_rows (ct_clans d)) \<Longrightarrow> cl_id c = cu_clan_id u \<Longrightarrow>
       filter (\<lambda>m. cu_id m \<noteq> i) (filter (\<lambda>m. cu_clan_id m = cu_clan_id u) (t_rows (ct_users d))) \<noteq> []"
proof -
  note k = assms(1) [unfolded clans_ok_def]
  have other: "cu_id v \<noteq> i" if "v \<in> set (t_rows (ct_users d))" "cu_clan_priv v = CLAN_OWNER" for v
    using ok_same_user [OF assms(1) that(1) assms(3)] assms(4,5) that(2) by metis
  have users: "set (t_rows (ct_users (set_clan i (Some 0) 0 d))) = (\<lambda>w. if cu_id w = i then ranked (Some 0) 0 w else w) ` set (t_rows (ct_users d))"
    by simp
  show "clans_ok (set_clan i (Some 0) 0 d)"
  proof (rule clans_okI)
    show "keyed cl_id (ct_clans (set_clan i (Some 0) 0 d))" "0 < t_next (ct_clans (set_clan i (Some 0) 0 d))"
      "keyed cu_id (ct_users (set_clan i (Some 0) 0 d))" using k by simp_all
  next
    fix c assume c: "c \<in> set (t_rows (ct_clans (set_clan i (Some 0) 0 d)))"
    then show "0 < cl_id c" using k by simp
    obtain v where v: "v \<in> set (t_rows (ct_users d))" "cu_id v = cl_owner c" "cu_clan_id v = cl_id c" "cu_clan_priv v = CLAN_OWNER"
      using k c by (simp only: set_clan_sel) blast
    then have "v \<in> set (t_rows (ct_users (set_clan i (Some 0) 0 d)))" unfolding users using other [OF v(1,4)] by (intro kept_row) simp_all
    then show "\<exists>v \<in> set (t_rows (ct_users (set_clan i (Some 0) 0 d))). cu_id v = cl_owner c \<and> cu_clan_id v = cl_id c \<and> cu_clan_priv v = CLAN_OWNER"
      using v by blast
  next
    fix v assume v: "v \<in> set (t_rows (ct_users (set_clan i (Some 0) 0 d)))" "cu_clan_id v \<noteq> 0"
    from v(1) [unfolded users] show "\<exists>c \<in> set (t_rows (ct_clans (set_clan i (Some 0) 0 d))). cl_id c = cu_clan_id v \<and>
      (cu_clan_priv v = CLAN_OWNER \<longrightarrow> cl_owner c = cu_id v)"
    proof (cases rule: mapped_row)
      case (changed w)
      then show ?thesis using v(2) by simp
    next
      case same
      then show ?thesis using k v(2) by (simp only: set_clan_sel) blast
    qed
  qed
  show "cache_ok (set_clan i (Some 0) 0 d) (recached i None None k)"
    by (rule recached_ok [OF assms(2) users]) (simp_all add: cached_clan_def)
  assume "c \<in> set (t_rows (ct_clans d))" "cl_id c = cu_clan_id u"
  then obtain v where "v \<in> set (t_rows (ct_users d))" "cu_clan_id v = cu_clan_id u" "cu_clan_priv v = CLAN_OWNER"
    using k by metis
  then show "filter (\<lambda>m. cu_id m \<noteq> i) (filter (\<lambda>m. cu_clan_id m = cu_clan_id u) (t_rows (ct_users d))) \<noteq> []"
    using other by (auto simp: filter_empty_conv)
qed

lemma transferred_ok:
  assumes "clans_ok d" "cache_ok d k" "u \<in> set (t_rows (ct_users d))" "cu_id u = i" "cu_clan_priv u = CLAN_OWNER" "cu_clan_id u = c"
    "t \<in> set (t_rows (ct_users d))" "cu_clan_id t = c" "cu_id t = j" "j \<noteq> i" "row_of cl_id c (ct_clans d) \<noteq> None"
  shows "clans_ok (transferred c j i d)"
    "cache_ok (transferred c j i d) (recached i (Some c) (Some CLAN_OFFICER) (recached j (Some c) (Some CLAN_OWNER) k))"
proof -
  note k = assms(1) [unfolded clans_ok_def]
  let ?d = "d\<lparr>ct_clans := update_rows (\<lambda>x. cl_id x = c) (\<lambda>x. x\<lparr>cl_owner := j\<rparr>) (ct_clans d)\<rparr>"
  let ?e = "set_clan j None CLAN_OWNER ?d"
  obtain x where x: "x \<in> set (t_rows (ct_clans d))" "cl_id x = c" "0 < c"
    using assms(11) k by (auto simp: row_of_None)
  have ux: "cl_owner x = i"
  proof -
    obtain y where "y \<in> set (t_rows (ct_clans d))" "cl_id y = c" "cl_owner y = i"
      using k assms(3,4,5,6) x(3) by fastforce
    then show ?thesis using ok_same_clan [OF assms(1)] x by blast
  qed
  have users1: "set (t_rows (ct_users ?e)) = (\<lambda>w. if cu_id w = j then ranked None CLAN_OWNER w else w) ` set (t_rows (ct_users d))"
    by simp
  have users: "set (t_rows (ct_users (transferred c j i d))) = (\<lambda>w. if cu_id w = i then ranked None CLAN_OFFICER w else w) ` set (t_rows (ct_users ?e))"
    unfolding transferred_def by (rule set_clan_rows)
  have clans: "ct_clans (transferred c j i d) = update_rows (\<lambda>x. cl_id x = c) (\<lambda>x. x\<lparr>cl_owner := j\<rparr>) (ct_clans d)"
    by (simp add: transferred_def)
  have of_i: "w = u" if "w \<in> set (t_rows (ct_users d))" "cu_id w = i" for w
    using ok_same_user [OF assms(1) that(1) assms(3)] that(2) assms(4) by simp
  have of_j: "w = t" if "w \<in> set (t_rows (ct_users d))" "cu_id w = j" for w
    using ok_same_user [OF assms(1) that(1) assms(7)] that(2) assms(9) by simp
  have t': "ranked None CLAN_OWNER t \<in> set (t_rows (ct_users (transferred c j i d)))"
    unfolding users users1 using assms(7,9,10) by (intro kept_row changed_row) simp_all
  have kept: "w \<in> set (t_rows (ct_users (transferred c j i d)))"
    if "w \<in> set (t_rows (ct_users d))" "cu_id w \<noteq> i" "cu_id w \<noteq> j" for w
    unfolding users users1 using that by (intro kept_row) simp_all
  have clan_row: "y \<in> set (t_rows (ct_clans d)) \<and> cl_id y \<noteq> c \<or> y = x\<lparr>cl_owner := j\<rparr>"
    if "y \<in> set (t_rows (ct_clans (transferred c j i d)))" for y
  proof -
    from that have "y \<in> (\<lambda>y. if cl_id y = c then y\<lparr>cl_owner := j\<rparr> else y) ` set (t_rows (ct_clans d))" by (simp add: clans)
    then show ?thesis
    proof (cases rule: mapped_row)
      case (changed w)
      then show ?thesis using ok_same_clan [OF assms(1) changed(1) x(1)] x(2) by simp
    qed simp
  qed
  have x': "x\<lparr>cl_owner := j\<rparr> \<in> set (t_rows (ct_clans (transferred c j i d)))"
    unfolding clans rows_update using x by (intro changed_row [where f = "\<lambda>x. x\<lparr>cl_owner := j\<rparr>"]) simp_all
  have kept_clan: "y \<in> set (t_rows (ct_clans (transferred c j i d)))" if "y \<in> set (t_rows (ct_clans d))" "cl_id y \<noteq> c" for y
    unfolding clans rows_update using that by (intro kept_row) simp_all
  show "clans_ok (transferred c j i d)"
  proof (rule clans_okI)
    show "keyed cl_id (ct_clans (transferred c j i d))" "0 < t_next (ct_clans (transferred c j i d))"
      "keyed cu_id (ct_users (transferred c j i d))"
      using k by (simp_all add: clans keyed_update) (simp_all add: update_rows_def transferred_def)
  next
    fix y assume y: "y \<in> set (t_rows (ct_clans (transferred c j i d)))"
    show "0 < cl_id y" using clan_row [OF y] k x by auto
    show "\<exists>v \<in> set (t_rows (ct_users (transferred c j i d))). cu_id v = cl_owner y \<and> cu_clan_id v = cl_id y \<and> cu_clan_priv v = CLAN_OWNER"
    proof (cases "y = x\<lparr>cl_owner := j\<rparr>")
      case True
      then show ?thesis using x assms(8,9) by (intro bexI [OF _ t']) simp_all
    next
      case False
      then have y': "y \<in> set (t_rows (ct_clans d))" "cl_id y \<noteq> c" using clan_row [OF y] by blast+
      then obtain v where v: "v \<in> set (t_rows (ct_users d))" "cu_id v = cl_owner y" "cu_clan_id v = cl_id y" "cu_clan_priv v = CLAN_OWNER"
        using k by blast
      then have "cu_id v \<noteq> i" "cu_id v \<noteq> j" using of_i of_j y'(2) assms(6,8) by metis+
      then show ?thesis using kept [OF v(1)] v by blast
    qed
  next
    fix v assume v: "v \<in> set (t_rows (ct_users (transferred c j i d)))" "cu_clan_id v \<noteq> 0"
    have cases: "v \<in> set (t_rows (ct_users d)) \<and> cu_id v \<noteq> i \<and> cu_id v \<noteq> j \<or> v = ranked None CLAN_OWNER t \<or> v = ranked None CLAN_OFFICER u"
      using v(1) [unfolded users]
    proof (cases rule: mapped_row)
      case (changed w)
      from changed(1) [unfolded users1] show ?thesis
      proof (cases rule: mapped_row)
        case (changed w')
        then show ?thesis using \<open>cu_id w = i\<close> assms(10) by simp
      next
        case same
        then show ?thesis using changed(2,3) of_i by simp
      qed
    next
      case same
      from same(1) [unfolded users1] show ?thesis
      proof (cases rule: mapped_row)
        case (changed w')
        then show ?thesis using of_j by simp
      next
        case same
        then show ?thesis using \<open>cu_id v \<noteq> i\<close> by simp
      qed
    qed
    then show "\<exists>y \<in> set (t_rows (ct_clans (transferred c j i d))). cl_id y = cu_clan_id v \<and> (cu_clan_priv v = CLAN_OWNER \<longrightarrow> cl_owner y = cu_id v)"
    proof (elim disjE conjE)
      assume w: "v \<in> set (t_rows (ct_users d))" "cu_id v \<noteq> i" "cu_id v \<noteq> j"
      then obtain y where y: "y \<in> set (t_rows (ct_clans d))" "cl_id y = cu_clan_id v" "cu_clan_priv v = CLAN_OWNER \<longrightarrow> cl_owner y = cu_id v"
        using k v(2) by blast
      show ?thesis
      proof (cases "cl_id y = c")
        case True
        then have "y = x" using ok_same_clan [OF assms(1) y(1) x(1)] x(2) by simp
        then have "cu_clan_priv v \<noteq> CLAN_OWNER" using y(3) ux w(2) by auto
        then show ?thesis using True y(2) x(2) by (intro bexI [OF _ x']) simp_all
      next
        case False
        then show ?thesis using y kept_clan by blast
      qed
    next
      assume "v = ranked None CLAN_OWNER t"
      then show ?thesis using x(2) assms(8,9) by (intro bexI [OF _ x']) simp_all
    next
      assume "v = ranked None CLAN_OFFICER u"
      then show ?thesis using x(2) assms(6) by (intro bexI [OF _ x']) (simp_all add: CLAN_OFFICER_def CLAN_OWNER_def)
    qed
  qed
  have "cache_ok ?e (recached j (Some c) (Some CLAN_OWNER) k)"
    by (rule recached_ok [OF assms(2) users1]) (use of_j assms(8) x(3) in \<open>auto simp: cached_clan_def\<close>)
  moreover have "cached_clan (ranked None CLAN_OFFICER w) = (Some c, Some CLAN_OFFICER)" if w: "w \<in> set (t_rows (ct_users ?e))" "cu_id w = i" for w
  proof -
    from w(1) [unfolded users1] have "w = u"
      by (cases rule: mapped_row) (use w(2) assms(10) of_i in simp_all)
    then show ?thesis using assms(6) x(3) by (simp add: cached_clan_def)
  qed
  ultimately show "cache_ok (transferred c j i d) (recached i (Some c) (Some CLAN_OFFICER) (recached j (Some c) (Some CLAN_OWNER) k))"
    by (intro recached_ok [OF _ users]) simp_all
qed


lemma change_ok:
  assumes "clan_change d k d' k'" "clans_ok d" "cache_ok d k"
  shows "clans_ok d' \<and> cache_ok d' k'"
  using assms
proof cases
  case (founding i u tag name now)
  have u: "u \<in> set (t_rows (ct_users d))" "cu_id u = i" using founding(3) row_of_Some by fastforce+
  have "cu_clan_id u = 0"
    using founding(4) u(1) assms(2) unfolding clans_ok_def row_of_None by blast
  then show ?thesis using founded_ok [OF assms(2,3) u] founding by simp
next
  case (disbanding i ms)
  have "0 < i" using disbanding(3) assms(2) by (auto simp: row_of_None clans_ok_def)
  then show ?thesis using disbanded_ok [OF assms(2,3) disbanding(4)] disbanding by simp
next
  case (departure i u alone)
  have u: "u \<in> set (t_rows (ct_users d))" "cu_id u = i" using departure(3) row_of_Some by fastforce+
  obtain c where "c \<in> set (t_rows (ct_clans d))" "cl_id c = cu_clan_id u"
    using departure(4) by (auto simp: row_of_None)
  then have "\<not> alone" using departed_ok(3) [OF assms(2,3) u departure(5)] departure(6) by blast
  then show ?thesis using departed_ok(1,2) [OF assms(2,3) u departure(5)] departure by simp
next
  case (handing_over i u c t)
  have u: "u \<in> set (t_rows (ct_users d))" "cu_id u = i" using handing_over(3) row_of_Some by fastforce+
  show ?thesis
    using transferred_ok [OF assms(2,3) u handing_over(4,6,7,8) refl handing_over(9,5)] handing_over by simp
qed

section \<open>A history\<close>

lemma keeps_stands_reading: "keeps (stands d k) (reading F f)"
  unfolding keeps_triple by (rule triple_reading) (auto simp: stands_def)

lemma reply_after:
  assumes "triple (stands d k) m (\<lambda>_. clan_changed d k) (stands d k)" "\<And>x. keeps (clan_changed d k) (c x)"
  shows "triple (stands d k) (bnd m c) (\<lambda>_. clan_changed d k) (clan_changed d k)"
  by (rule triple_bnd [OF triple_conseq [OF assms(1)] assms(2) [unfolded keeps_triple]]) (auto simp: clan_changed_def)

lemma reply_only: "keeps (stands d k) m \<Longrightarrow> triple (stands d k) m (\<lambda>_. clan_changed d k) (clan_changed d k)"
  unfolding keeps_triple by (erule triple_conseq) (auto simp: clan_changed_def)

lemma keeps_says: "keeps P (says t)"
  by (simp add: says_def keeps_retn)

lemmas reply_intros = keeps_bnd keeps_if keeps_retn keeps_says keeps_the_or keeps_lift keeps_gets keeps_stands_reading

text \<open>A command changes what the operation it calls changes, and nothing else.\<close>

lemma chat_changes:
  "triple (stands d k) (clan_chat E dv prefix which p args) (\<lambda>_. clan_changed d k) (clan_changed d k)"
proof -
  have create: "triple (stands d k) (clan_create E p args) (\<lambda>_. clan_changed d k) (clan_changed d k)"
    unfolding clan_create_def
    by (rule triple_if; (rule reply_only [OF keeps_says] | rule reply_after [OF create_changes]))
      (auto split: create_code.split intro!: reply_intros)
  have target: "keeps (stands d k) (disband_target E p args)"
    unfolding disband_target_def clan_by_tag_def clan_by_id_def
    by (intro reply_intros) (auto split: option.split intro!: reply_intros)
  have disband: "triple (stands d k) (clan_disband E p args) (\<lambda>_. clan_changed d k) (clan_changed d k)"
    unfolding clan_disband_def
  proof (rule triple_bnd)
    show "triple (stands d k) (disband_target E p args) (\<lambda>_. stands d k) (clan_changed d k)"
      using target unfolding keeps_triple by (rule triple_conseq) (auto simp: clan_changed_def)
    show "triple (stands d k) (case t of Inl m \<Rightarrow> says m
       | Inr c \<Rightarrow> bnd (disband_clan E (cl_id c)) (\<lambda>r. bnd (the_or AssertionError r) (\<lambda>_.
         retn (clan_display_name c @ py '' disbanded.'', Some (disbanded_notice c)))))
       (\<lambda>_. clan_changed d k) (clan_changed d k)" for t
      by (cases t) (auto intro!: reply_only reply_after [OF disband_changes] reply_intros)
  qed
  have transfer: "triple (stands d k) (clan_transfer E p args) (\<lambda>_. clan_changed d k) (clan_changed d k)"
    unfolding clan_transfer_def
    by (rule triple_if; (rule reply_only [OF keeps_says] | rule reply_after [OF transfer_changes]))
      (auto split: transfer_code.split intro!: reply_intros)
  have leave: "triple (stands d k) (clan_leave E p) (\<lambda>_. clan_changed d k) (clan_changed d k)"
    unfolding clan_leave_def
    by (rule reply_after [OF leave_changes]) (auto split: leave_code.split intro!: reply_intros)
  have info: "keeps (stands d k) (clan_info E p args)"
    unfolding clan_info_def clan_by_tag_def users_of_clan_def
    by (intro reply_intros) (auto split: option.split intro!: reply_intros)
  have listing: "keeps (stands d k) (clan_list E dv args)"
    unfolding clan_list_def by (auto split: option.split intro!: reply_intros)
  have manual: "keeps (stands d k) (clan_help prefix p)"
    by (simp add: clan_help_def keeps_says)
  show ?thesis
    unfolding clan_chat_def
    by (intro triple_if create disband transfer leave reply_only [OF info] reply_only [OF listing] reply_only [OF manual])
qed

text \<open>
  The worlds the server can get into: clans and their members change by the commands and the four
  operations only, each run with any environment, that is, with any failures, and also when it raises; accounts are created
  without a clan; a session caches the clan of its row when it logs in, and is gone when it logs out.
  The code has no command to join a clan, so a member who did not found it is entered by hand
  (\<open>enlisted\<close>), which no session may have cached.
\<close>

datatype clan_request = Create int pystr pystr | Disband int | Leave int | Transfer int pystr

fun clan_service :: "clan_env \<Rightarrow> clan_request \<Rightarrow> unit cop" where
  "clan_service E (Create i tag name) = thn (create_clan E i tag name) skip"
| "clan_service E (Disband i) = thn (disband_clan E i) skip"
| "clan_service E (Leave i) = thn (leave_clan E i) skip"
| "clan_service E (Transfer i name) = thn (transfer_clan_ownership E i name) skip"

lemma service_changes: "triple (stands d k) (clan_service E r) (\<lambda>_. clan_changed d k) (stands d k)"
proof (cases r)
  case (Create i tag name)
  show ?thesis unfolding Create clan_service.simps by (rule triple_thn [OF create_changes]) (rule triple_skip)
next
  case (Disband i)
  show ?thesis unfolding Disband clan_service.simps by (rule triple_thn [OF disband_changes]) (rule triple_skip)
next
  case (Leave i)
  show ?thesis unfolding Leave clan_service.simps by (rule triple_thn [OF leave_changes]) (rule triple_skip)
next
  case (Transfer i name)
  show ?thesis unfolding Transfer clan_service.simps by (rule triple_thn [OF transfer_changes]) (rule triple_skip)
qed

inductive clan_step :: "clan_world \<Rightarrow> clan_world \<Rightarrow> bool" where
  serves: "clan_service E r s = (x, s') \<Longrightarrow> clan_step s s'"
| commands: "clan_chat E dv prefix which p args s = (y, s') \<Longrightarrow> clan_step s s'"
| registers: "clan_step s (s\<lparr>st_db := (st_db s)\<lparr>ct_users := add_row (\<lambda>i.
     \<lparr>cu_id = i, cu_name = name, cu_safe_name = safe, cu_priv = priv, cu_clan_id = 0, cu_clan_priv = 0\<rparr>)
     (ct_users (st_db s))\<rparr>\<rparr>)"
| logs_in: "row_of cu_id i (ct_users (st_db s)) = Some u \<Longrightarrow>
     clan_step s (s\<lparr>cw_cache := (cw_cache s)(i := Some (cached_clan u))\<rparr>)"
| logs_out: "clan_step s (s\<lparr>cw_cache := (cw_cache s)(i := None)\<rparr>)"
| enlisted: "row_of cu_id i (ct_users (st_db s)) = Some u \<Longrightarrow> cu_clan_id u = 0 \<Longrightarrow> cw_cache s i = None \<Longrightarrow>
     row_of cl_id c (ct_clans (st_db s)) \<noteq> None \<Longrightarrow>
     clan_step s (s\<lparr>st_db := set_clan i (Some c) CLAN_MEMBER (st_db s)\<rparr>)"

inductive clan_history :: "clan_world \<Rightarrow> bool" where
  empty: "st_db s = \<lparr>ct_clans = empty_table, ct_users = empty_table\<rparr> \<Longrightarrow> cw_cache s = (\<lambda>_. None) \<Longrightarrow> clan_history s"
| step: "clan_history s \<Longrightarrow> clan_step s s' \<Longrightarrow> clan_history s'"

text \<open>What an operation leaves behind, whether it raises or not.\<close>

lemma left_world:
  assumes "clan_service E r s = (x, s')"
  shows "clan_changed (st_db s) (cw_cache s) s'"
proof -
  have "stands (st_db s) (cw_cache s) s" by (simp add: stands_def)
  from service_changes [unfolded triple_def, rule_format, OF this, of E r] show ?thesis
    using assms by (auto simp: clan_changed_def split: sum.splits)
qed

lemma left_chat:
  assumes "clan_chat E dv prefix which p args s = (y, s')"
  shows "clan_changed (st_db s) (cw_cache s) s'"
proof -
  have "stands (st_db s) (cw_cache s) s" by (simp add: stands_def)
  from chat_changes [unfolded triple_def, rule_format, OF this, of E dv prefix which p args] show ?thesis
    using assms by (auto split: sum.splits)
qed

lemma left_ok:
  assumes "clan_changed (st_db s) (cw_cache s) s'" "clans_ok (st_db s) \<and> cache_ok (st_db s) (cw_cache s)"
  shows "clans_ok (st_db s') \<and> cache_ok (st_db s') (cw_cache s')"
  using assms change_ok [of "st_db s" "cw_cache s" "st_db s'" "cw_cache s'"]
  by (auto simp: clan_changed_def stands_def)

lemma registered_ok:
  fixes name safe :: pystr and priv :: int
  assumes "clans_ok d" "cache_ok d k"
  defines "d' \<equiv> d\<lparr>ct_users := add_row (\<lambda>i. \<lparr>cu_id = i, cu_name = name, cu_safe_name = safe, cu_priv = priv,
     cu_clan_id = 0, cu_clan_priv = 0\<rparr>) (ct_users d)\<rparr>"
  shows "clans_ok d' \<and> cache_ok d' k"
proof -
  note o = assms(1) [unfolded clans_ok_def]
  have rows: "set (t_rows (ct_users d)) \<subseteq> set (t_rows (ct_users d'))" "ct_clans d' = ct_clans d"
    by (auto simp: d'_def)
  have "clans_ok d'"
  proof (rule clans_okI)
    show "keyed cu_id (ct_users d')" using o by (simp add: d'_def keyed_add)
    fix u assume u: "u \<in> set (t_rows (ct_users d'))" "cu_clan_id u \<noteq> 0"
    then have "u \<in> set (t_rows (ct_users d))" by (auto simp: d'_def)
    then show "\<exists>c \<in> set (t_rows (ct_clans d')). cl_id c = cu_clan_id u \<and> (cu_clan_priv u = CLAN_OWNER \<longrightarrow> cl_owner c = cu_id u)"
      using o u(2) rows(2) by simp
  next
    fix c assume c: "c \<in> set (t_rows (ct_clans d'))"
    then have "c \<in> set (t_rows (ct_clans d))" by (simp add: rows)
    then show "\<exists>u \<in> set (t_rows (ct_users d')). cu_id u = cl_owner c \<and> cu_clan_id u = cl_id c \<and> cu_clan_priv u = CLAN_OWNER"
      using o rows(1) by blast
  qed (use o rows in simp_all)
  moreover have "cache_ok d' k" using assms(2) rows(1) unfolding cache_ok_def by blast
  ultimately show ?thesis ..
qed

lemma enlisted_ok:
  assumes "clans_ok d" "cache_ok d k" "row_of cu_id i (ct_users d) = Some u" "cu_clan_id u = 0" "k i = None"
    "row_of cl_id c (ct_clans d) \<noteq> None"
  shows "clans_ok (set_clan i (Some c) CLAN_MEMBER d) \<and> cache_ok (set_clan i (Some c) CLAN_MEMBER d) k"
proof -
  note o = assms(1) [unfolded clans_ok_def]
  let ?d = "set_clan i (Some c) CLAN_MEMBER d"
  have users: "set (t_rows (ct_users ?d)) = (\<lambda>w. if cu_id w = i then ranked (Some c) CLAN_MEMBER w else w) ` set (t_rows (ct_users d))"
    by (rule set_clan_rows)
  have u: "u \<in> set (t_rows (ct_users d))" "cu_id u = i" using row_of_Some [OF assms(3)] by simp_all
  have idle: "cu_id v \<noteq> i" if "v \<in> set (t_rows (ct_users d))" "cu_clan_id v \<noteq> 0" for v
    using ok_same_user [OF assms(1) that(1) u(1)] u(2) assms(4) that(2) by metis
  have "clans_ok ?d"
  proof (rule clans_okI)
    fix x assume "x \<in> set (t_rows (ct_clans ?d))"
    then have x: "x \<in> set (t_rows (ct_clans d))" by simp
    then show "0 < cl_id x" using o by blast
    obtain v where v: "v \<in> set (t_rows (ct_users d))" "cu_id v = cl_owner x" "cu_clan_id v = cl_id x" "cu_clan_priv v = CLAN_OWNER"
      using o x by blast
    moreover have "0 < cl_id x" using o x by blast
    ultimately have "v \<in> set (t_rows (ct_users ?d))" unfolding users using idle [OF v(1)] by (intro kept_row) simp_all
    then show "\<exists>v \<in> set (t_rows (ct_users ?d)). cu_id v = cl_owner x \<and> cu_clan_id v = cl_id x \<and> cu_clan_priv v = CLAN_OWNER"
      using v by blast
  next
    fix v assume v: "v \<in> set (t_rows (ct_users ?d))" "cu_clan_id v \<noteq> 0"
    from v(1) [unfolded users] show "\<exists>x \<in> set (t_rows (ct_clans ?d)). cl_id x = cu_clan_id v \<and> (cu_clan_priv v = CLAN_OWNER \<longrightarrow> cl_owner x = cu_id v)"
    proof (cases rule: mapped_row)
      case (changed w)
      obtain x where "x \<in> set (t_rows (ct_clans d))" "cl_id x = c" using assms(6) by (auto simp: row_of_None)
      then show ?thesis using changed by (intro bexI [of _ x]) (simp_all add: CLAN_MEMBER_def CLAN_OWNER_def)
    next
      case same
      then show ?thesis using o v(2) by (simp only: set_clan_sel) blast
    qed
  qed (use o in simp_all)
  moreover have "cache_ok ?d k"
    unfolding cache_ok_def
  proof (intro allI impI)
    fix j v assume j: "k j = Some v"
    then obtain w where w: "w \<in> set (t_rows (ct_users d))" "cu_id w = j" "v = cached_clan w" using cache_okD [OF assms(2)] by blast
    then have "w \<in> set (t_rows (ct_users ?d))" unfolding users using j assms(5) by (intro kept_row) auto
    then show "\<exists>w \<in> set (t_rows (ct_users ?d)). cu_id w = j \<and> v = cached_clan w" using w by blast
  qed
  ultimately show ?thesis ..
qed

lemma history_ok: "clan_history s \<Longrightarrow> clans_ok (st_db s) \<and> cache_ok (st_db s) (cw_cache s)"
proof (induction rule: clan_history.induct)
  case (empty s)
  then show ?case by (simp add: clans_ok_def cache_ok_def keyed_empty) (simp add: empty_table_def)
next
  case (step s s')
  from step(2) show ?case
  proof cases
    case (serves E r x)
    then show ?thesis using left_ok [OF left_world step.IH] by blast
  next
    case (commands E dv prefix which p args y)
    then show ?thesis using left_ok [OF left_chat step.IH] by blast
  next
    case (registers name safe priv)
    then show ?thesis using registered_ok [of "st_db s" "cw_cache s"] step.IH by simp
  next
    case (logs_in i u)
    then show ?thesis using step.IH row_of_Some [OF logs_in(2)] by (auto simp: cache_ok_def)
  next
    case (logs_out i)
    then show ?thesis using step.IH by (auto simp: cache_ok_def)
  next
    case (enlisted i u c)
    then show ?thesis using enlisted_ok [of "st_db s" "cw_cache s" i u c] step.IH by simp
  qed
qed


section \<open>The theorems\<close>

definition no_clans :: clan_world where
  "no_clans = \<lparr>st_db = \<lparr>ct_clans = empty_table, ct_users = empty_table\<rparr>, st_tick = 0, cw_cache = (\<lambda>_. None), cw_synced = []\<rparr>"

definition calm :: clan_env where
  "calm = \<lparr>le_faults = (\<lambda>_. None), le_now = (\<lambda>_. 0), le_upper = (\<lambda>t. t), le_lower = (\<lambda>t. t),
     le_same_text = (=), le_date = (\<lambda>_. [])\<rparr>"

definition with_account :: "pystr \<Rightarrow> clan_world \<Rightarrow> clan_world" where
  "with_account name s = s\<lparr>st_db := (st_db s)\<lparr>ct_users := add_row (\<lambda>i.
     \<lparr>cu_id = i, cu_name = name, cu_safe_name = name, cu_priv = 3, cu_clan_id = 0, cu_clan_priv = 0\<rparr>)
     (ct_users (st_db s))\<rparr>\<rparr>"

definition cached_row :: "int \<Rightarrow> clan_world \<Rightarrow> clan_world" where
  "cached_row i s = s\<lparr>cw_cache := (cw_cache s)(i := map_option cached_clan (row_of cu_id i (ct_users (st_db s))))\<rparr>"

text \<open>Two accounts; the first is online, founds a clan, and hands it over to the second, its member since.\<close>

definition clan_moves :: "(clan_world \<Rightarrow> clan_world) list" where
  "clan_moves = [with_account [97], with_account [98], cached_row 1, \<lambda>s. snd (clan_service calm (Create 1 [84] [78, 78]) s),
     \<lambda>s. s\<lparr>st_db := set_clan 2 (Some 1) CLAN_MEMBER (st_db s)\<rparr>, \<lambda>s. snd (clan_service calm (Transfer 1 [98]) s)]"

primrec clan_scene :: "nat \<Rightarrow> clan_world" where
  "clan_scene 0 = no_clans"
| "clan_scene (Suc n) = (clan_moves ! n) (clan_scene n)"

lemma the_only_one:
  assumes "distinct xs" "v \<in> set xs" "P v" "\<And>w. w \<in> set xs \<Longrightarrow> P w \<Longrightarrow> w = v"
  shows "filter P xs = [v]"
proof -
  have "filter P xs = filter (\<lambda>w. w = v) xs" by (rule filter_cong) (use assms(3,4) in blast)+
  also have "\<dots> = [v]" using assms(1,2) by (induction xs) (auto simp: filter_empty_conv)
  finally show ?thesis .
qed

lemma with_account_history: "clan_history s \<Longrightarrow> clan_history (with_account name s)"
  unfolding with_account_def by (rule clan_history.step [OF _ clan_step.registers])

lemma cached_row_history: "clan_history s \<Longrightarrow> row_of cu_id i (ct_users (st_db s)) \<noteq> None \<Longrightarrow> clan_history (cached_row i s)"
  unfolding cached_row_def by (erule clan_history.step) (auto intro: clan_step.logs_in)

lemma clan_scene_history: "clan_history (clan_scene 6)"
proof -
  have m: "clan_moves ! 0 = with_account [97]" "clan_moves ! 1 = with_account [98]" "clan_moves ! 2 = cached_row 1"
    "clan_moves ! 3 = (\<lambda>s. snd (clan_service calm (Create 1 [84] [78, 78]) s))"
    "clan_moves ! 4 = (\<lambda>s. s\<lparr>st_db := set_clan 2 (Some 1) CLAN_MEMBER (st_db s)\<rparr>)"
    "clan_moves ! 5 = (\<lambda>s. snd (clan_service calm (Transfer 1 [98]) s))" by (simp_all add: clan_moves_def)
  have n: "clan_scene 1 = (clan_moves ! 0) (clan_scene 0)" "clan_scene 2 = (clan_moves ! 1) (clan_scene 1)"
    "clan_scene 3 = (clan_moves ! 2) (clan_scene 2)" "clan_scene 4 = (clan_moves ! 3) (clan_scene 3)"
    "clan_scene 5 = (clan_moves ! 4) (clan_scene 4)" "clan_scene 6 = (clan_moves ! 5) (clan_scene 5)"
    by (simp_all only: eval_nat_numeral One_nat_def BitM.simps clan_scene.simps)
  have "clan_history (clan_scene 0)" by (rule clan_history.empty) (simp_all add: no_clans_def)
  then have "clan_history (clan_scene 2)" unfolding n m by (intro with_account_history)
  moreover have "row_of cu_id 1 (ct_users (st_db (clan_scene 2))) \<noteq> None" by code_simp
  ultimately have "clan_history (clan_scene 3)" unfolding n(3) m by (rule cached_row_history)
  then have 4: "clan_history (clan_scene 4)"
    unfolding n(4) m by (rule clan_history.step) (rule clan_step.serves, rule prod.collapse [symmetric])
  have c: "map_option cu_clan_id (row_of cu_id 2 (ct_users (st_db (clan_scene 4)))) = Some 0 \<and>
      cw_cache (clan_scene 4) 2 = None \<and> row_of cl_id 1 (ct_clans (st_db (clan_scene 4))) \<noteq> None" by code_simp
  have "clan_history (clan_scene 5)"
    unfolding n(5) m using 4 by (rule clan_history.step) (use c in \<open>auto intro!: clan_step.enlisted\<close>)
  then show ?thesis
    unfolding n(6) m by (rule clan_history.step) (rule clan_step.serves, rule prod.collapse [symmetric])
qed

text \<open>C16. Whatever is done with the commands on clans and the service under them, in any order, by anybody, and whichever statements fail
  on the way, a clan always has exactly one member with the rank of owner, and its row names that member;
  and nobody is in a clan that does not exist.
\<close>

theorem clan_has_one_owner:
  assumes "clan_history s"
  shows "(c \<in> set (t_rows (ct_clans (st_db s))) \<longrightarrow>
       (\<exists>u. filter (\<lambda>u. cu_clan_id u = cl_id c \<and> cu_clan_priv u = CLAN_OWNER) (t_rows (ct_users (st_db s))) = [u] \<and>
          cl_owner c = cu_id u)) \<and>
     (u \<in> set (t_rows (ct_users (st_db s))) \<and> cu_clan_id u \<noteq> 0 \<longrightarrow> row_of cl_id (cu_clan_id u) (ct_clans (st_db s)) \<noteq> None)"
proof (intro conjI impI)
  note ok = history_ok [OF assms, THEN conjunct1]
  note o = ok [unfolded clans_ok_def]
  {
    assume c: "c \<in> set (t_rows (ct_clans (st_db s)))"
    obtain v where v: "v \<in> set (t_rows (ct_users (st_db s)))" "cu_id v = cl_owner c" "cu_clan_id v = cl_id c" "cu_clan_priv v = CLAN_OWNER"
      using o c by blast
    have "w = v" if w: "w \<in> set (t_rows (ct_users (st_db s)))" "cu_clan_id w = cl_id c" "cu_clan_priv w = CLAN_OWNER" for w
    proof -
      have "0 < cl_id c" using o c by blast
      then obtain c' where "c' \<in> set (t_rows (ct_clans (st_db s)))" "cl_id c' = cl_id c" "cl_owner c' = cu_id w"
        using o w by (metis less_irrefl)
      then have "cu_id w = cl_owner c" using ok_same_clan [OF ok] c by metis
      then show ?thesis using ok_same_user [OF ok w(1) v(1)] v(2) by simp
    qed
    moreover have "distinct (t_rows (ct_users (st_db s)))"
      using o by (auto simp: keyed_def sorted_wrt_append strict_sorted_iff distinct_map)
    ultimately have "filter (\<lambda>u. cu_clan_id u = cl_id c \<and> cu_clan_priv u = CLAN_OWNER) (t_rows (ct_users (st_db s))) = [v]"
      using v by (intro the_only_one; blast)
    then show "\<exists>u. filter (\<lambda>u. cu_clan_id u = cl_id c \<and> cu_clan_priv u = CLAN_OWNER) (t_rows (ct_users (st_db s))) = [u] \<and>
          cl_owner c = cu_id u" using v(2) by simp
  }
  assume "u \<in> set (t_rows (ct_users (st_db s))) \<and> cu_clan_id u \<noteq> 0"
  then show "row_of cl_id (cu_clan_id u) (ct_clans (st_db s)) \<noteq> None" using o by (auto simp: row_of_None)
qed

lemma clan_has_one_owner_witness:
  "\<exists>c u. c \<in> set (t_rows (ct_clans (st_db (clan_scene 6)))) \<and> cl_owner c = 2 \<and>
      filter (\<lambda>u. cu_clan_id u = cl_id c \<and> cu_clan_priv u = CLAN_OWNER) (t_rows (ct_users (st_db (clan_scene 6)))) = [u] \<and>
      cl_owner c = cu_id u"
proof -
  have "map cl_owner (t_rows (ct_clans (st_db (clan_scene 6)))) = [2]" by code_simp
  then obtain c where "c \<in> set (t_rows (ct_clans (st_db (clan_scene 6))))" "cl_owner c = 2" by auto
  then show ?thesis using clan_has_one_owner [OF clan_scene_history] by blast
qed

text \<open>C24. The clan that an online session caches is always the clan of its row, with the rank the row has, and
  it exists: a clan that is disbanded, left or handed over never stays on a session.
\<close>

theorem cached_clan_agrees:
  assumes "clan_history s" "cw_cache s i = Some (clan, rank)"
  shows "\<exists>u. row_of cu_id i (ct_users (st_db s)) = Some u \<and>
    clan = (if cu_clan_id u = 0 then None else Some (cu_clan_id u)) \<and>
    rank = (if cu_clan_id u = 0 then None else Some (cu_clan_priv u)) \<and>
    (\<forall>j. clan = Some j \<longrightarrow> row_of cl_id j (ct_clans (st_db s)) \<noteq> None)"
proof -
  note ok = history_ok [OF assms(1)]
  obtain u where u: "u \<in> set (t_rows (ct_users (st_db s)))" "cu_id u = i" "(clan, rank) = cached_clan u"
    using cache_okD [OF ok [THEN conjunct2] assms(2)] by blast
  have "row_of cu_id i (ct_users (st_db s)) = Some u" using ok_user [OF ok [THEN conjunct1]] u by blast
  moreover have "clan = (if cu_clan_id u = 0 then None else Some (cu_clan_id u))"
    "rank = (if cu_clan_id u = 0 then None else Some (cu_clan_priv u))" using u(3) by (simp_all add: cached_clan_def split: if_splits)
  moreover have "row_of cl_id j (ct_clans (st_db s)) \<noteq> None" if "clan = Some j" for j
  proof -
    have "cu_clan_id u = j \<and> j \<noteq> 0" using that u(3) by (auto simp: cached_clan_def split: if_splits)
    then show ?thesis using ok u(1) unfolding clans_ok_def row_of_None by blast
  qed
  ultimately show ?thesis by blast
qed

lemma cached_clan_agrees_witness: "row_of cl_id 1 (ct_clans (st_db (clan_scene 6))) \<noteq> None \<and>
    cw_cache (clan_scene 6) 1 = Some (Some 1, Some CLAN_OFFICER)"
proof -
  have c: "cw_cache (clan_scene 6) 1 = Some (Some 1, Some CLAN_OFFICER)" by code_simp
  then show ?thesis using cached_clan_agrees [OF clan_scene_history c] by blast
qed

text \<open>C26. An operation on clans that raises, because some statement of it failed, whichever and however, or
  because the transaction could not be committed, has changed neither a row nor what a session caches.
\<close>

theorem failed_clan_operation:
  assumes "clan_service E r s = (Inl e, s')"
  shows "st_db s' = st_db s \<and> cw_cache s' = cw_cache s"
proof -
  have "stands (st_db s) (cw_cache s) s" by (simp add: stands_def)
  from service_changes [unfolded triple_def, rule_format, OF this, of E r] show ?thesis
    using assms by (simp add: stands_def)
qed

text \<open>The last statement of the transfer, the one that takes the rank from the old owner, fails.\<close>

definition failing_at :: "nat \<Rightarrow> clan_env" where
  "failing_at n = calm\<lparr>le_faults := (\<lambda>t. if t = n then Some DatabaseError else None)\<rparr>"

lemma failed_clan_operation_witness:
  "fst (clan_service (failing_at 17) (Transfer 1 [98]) (clan_scene 5)) = Inl DatabaseError \<and>
   st_db (snd (clan_service (failing_at 17) (Transfer 1 [98]) (clan_scene 5))) = st_db (clan_scene 5)"
proof -
  let ?r = "clan_service (failing_at 17) (Transfer 1 [98]) (clan_scene 5)"
  have f: "fst ?r = Inl DatabaseError" by code_simp
  then have "?r = (Inl DatabaseError, snd ?r)" by (metis prod.collapse)
  then show ?thesis using failed_clan_operation f by blast
qed

text \<open>
  \<^verbatim>\<open>!clan disband\<close> asks whether the player is in a clan, not whether it owns it: in the scene above the
  former owner, an officer now, disbands the clan of the other.
\<close>

lemma officer_disbands:
  "cw_cache (clan_scene 6) 1 = Some (Some 1, Some CLAN_OFFICER) \<and>
   t_rows (ct_clans (st_db (snd (clan_disband calm \<lparr>ca_id = 1, ca_priv = P_UNRESTRICTED\<rparr> [] (clan_scene 6))))) = []"
  by code_simp

text \<open>Every page of \<^verbatim>\<open>!clan list\<close> shows every clan: a page only shifts the numbers.\<close>

lemma every_page_lists_all:
  assumes "le_faults E = (\<lambda>_. None)" "list_offset dv args = Some off" "off < int (length (t_rows (ct_clans (st_db s))))"
  shows "\<exists>header. fst (clan_list E dv args s) = Inr (join_text [10] (header #
    map (\<lambda>(i, c). str_int (off + int i + 1) @ py ''. '' @ clan_display_name c)
      (List.enumerate 0 (t_rows (ct_clans (st_db s))))), None)"
  using assms
  by (auto simp: clan_list_def bnd_def reading_def statement_def says_def retn_def Let_def)

end
