(* ===== verification/Pools.thy ===== *)
theory Pools
  imports Tables Moderation "HOL-Library.Product_Lexorder" "HOL-Library.List_Lexorder"
begin

text \<open>
  Mappools: \<^verbatim>\<open>app/repositories/tourney_pools.py\<close> and \<^verbatim>\<open>tourney_pool_maps.py\<close>, the service
  \<^verbatim>\<open>app/services/tourney_pools.py\<close>, and the commands \<^verbatim>\<open>!pool\<close> of \<^verbatim>\<open>app/commands.py\<close>.
\<close>

section \<open>State\<close>

record pool =
  po_id :: int
  po_name :: pystr
  po_created :: rat
  po_creator :: int

record pool_map =
  pm_map :: int
  pm_pool :: int
  pm_mods :: int
  pm_slot :: int

record pool_tables =
  pt_pools :: "pool table"
  pt_maps :: "pool_map list"

type_synonym 'a bop = "(pool_tables stored, 'a) op"

text \<open>
  The schedule of failures, the clock, the comparison of text columns, the order of the rows of a
  \<^verbatim>\<open>SELECT\<close> that does not say one, \<^verbatim>\<open>str.upper\<close>, the beatmaps and the names of users by id, the domain and the
  prefix of the settings, and the formats of a date.
\<close>

record pool_env =
  pv_faults :: faults
  pv_now :: "nat \<Rightarrow> rat"
  pv_same_text :: "pystr \<Rightarrow> pystr \<Rightarrow> bool"
  pv_order :: "pool_map list \<Rightarrow> pool_map list"
  pv_upper :: "pystr \<Rightarrow> pystr"
  pv_bmap :: "int \<Rightarrow> beatmap_info option"
  pv_user_name :: "int \<Rightarrow> pystr option"
  pv_domain :: pystr
  pv_prefix :: pystr
  pv_day :: "rat \<Rightarrow> pystr"
  pv_time :: "rat \<Rightarrow> pystr"

section \<open>Statements\<close>

definition pool_by_id :: "pool_env \<Rightarrow> int \<Rightarrow> pool option bop" where
  "pool_by_id E i = reading (pv_faults E) (\<lambda>d. row_of po_id i (pt_pools d))"

definition pool_by_name :: "pool_env \<Rightarrow> pystr \<Rightarrow> pool option bop" where
  "pool_by_name E n = reading (pv_faults E) (\<lambda>d. find (\<lambda>p. pv_same_text E (po_name p) n) (t_rows (pt_pools d)))"

definition pools_create :: "pool_env \<Rightarrow> pystr \<Rightarrow> int \<Rightarrow> pool bop" where
  "pools_create E name creator = bnd (gets (\<lambda>s. pv_now E (st_tick s))) (\<lambda>now.
     bnd (statement (pv_faults E) (\<lambda>d. (t_next (pt_pools d),
        d\<lparr>pt_pools := add_row (\<lambda>i. \<lparr>po_id = i, po_name = name, po_created = now, po_creator = creator\<rparr>) (pt_pools d)\<rparr>))) (\<lambda>i.
     bnd (pool_by_id E i) (the_or AssertionError)))"

definition pools_delete_by_id :: "pool_env \<Rightarrow> int \<Rightarrow> pool option bop" where
  "pools_delete_by_id E i = bnd (pool_by_id E i) (\<lambda>p. case p of
       None \<Rightarrow> retn None
     | Some p \<Rightarrow> thn (writing (pv_faults E) (\<lambda>d. d\<lparr>pt_pools := delete_rows (\<lambda>p. po_id p = i) (pt_pools d)\<rparr>))
         (retn (Some p)))"

text \<open>The first page of fifty, the default of \<^verbatim>\<open>fetch_many\<close>.\<close>

definition maps_of_pool :: "pool_env \<Rightarrow> int \<Rightarrow> pool_map list bop" where
  "maps_of_pool E i = reading (pv_faults E) (\<lambda>d. take 50 (pv_order E (filter (\<lambda>m. pm_pool m = i) (pt_maps d))))"

definition is_pick :: "int \<Rightarrow> int \<Rightarrow> int \<Rightarrow> pool_map \<Rightarrow> bool" where
  "is_pick i mods slot m \<longleftrightarrow> pm_pool m = i \<and> pm_mods m = mods \<and> pm_slot m = slot"

definition fetch_pool_map_pick :: "pool_env \<Rightarrow> int \<Rightarrow> int \<Rightarrow> int \<Rightarrow> pool_map option bop" where
  "fetch_pool_map_pick E i mods slot = reading (pv_faults E) (\<lambda>d.
     case pv_order E (filter (is_pick i mods slot) (pt_maps d)) of [] \<Rightarrow> None | m # _ \<Rightarrow> Some m)"

text \<open>The primary key is the map with the pool.\<close>

definition is_entry :: "int \<Rightarrow> int \<Rightarrow> pool_map \<Rightarrow> bool" where
  "is_entry i map_id m \<longleftrightarrow> pm_pool m = i \<and> pm_map m = map_id"

definition pool_maps_create :: "pool_env \<Rightarrow> int \<Rightarrow> int \<Rightarrow> int \<Rightarrow> int \<Rightarrow> pool_map bop" where
  "pool_maps_create E map_id i mods slot =
     bnd (statement (pv_faults E) (\<lambda>d.
       if list_ex (is_entry i map_id) (pt_maps d) then (None, d)
       else (Some (), d\<lparr>pt_maps := pt_maps d @ [\<lparr>pm_map = map_id, pm_pool = i, pm_mods = mods, pm_slot = slot\<rparr>]\<rparr>)))
     (\<lambda>ok. bnd (the_or DatabaseError ok) (\<lambda>_.
     bnd (reading (pv_faults E) (\<lambda>d. find (is_entry i map_id) (pt_maps d))) (the_or AssertionError)))"

definition delete_map_from_pool :: "pool_env \<Rightarrow> int \<Rightarrow> int \<Rightarrow> pool_map option bop" where
  "delete_map_from_pool E i map_id =
     bnd (reading (pv_faults E) (\<lambda>d. find (is_entry i map_id) (pt_maps d))) (\<lambda>m. case m of
       None \<Rightarrow> retn None
     | Some m \<Rightarrow> thn (writing (pv_faults E) (\<lambda>d. d\<lparr>pt_maps := filter (\<lambda>m. \<not> is_entry i map_id m) (pt_maps d)\<rparr>))
         (retn (Some m)))"

definition delete_all_in_pool :: "pool_env \<Rightarrow> int \<Rightarrow> pool_map list bop" where
  "delete_all_in_pool E i =
     bnd (reading (pv_faults E) (\<lambda>d. pv_order E (filter (\<lambda>m. pm_pool m = i) (pt_maps d)))) (\<lambda>ms.
       if ms = [] then retn []
       else thn (writing (pv_faults E) (\<lambda>d. d\<lparr>pt_maps := filter (\<lambda>m. pm_pool m \<noteq> i) (pt_maps d)\<rparr>)) (retn ms))"

section \<open>The service\<close>

datatype create_pool_code = POOL_CREATED | POOL_NAME_TAKEN
datatype add_pool_map_code = ADDED | PICK_TAKEN | MAP_ALREADY_IN_POOL

definition create_pool :: "pool_env \<Rightarrow> pystr \<Rightarrow> int \<Rightarrow> (create_pool_code \<times> pool option) bop" where
  "create_pool E name creator = bnd (pool_by_name E name) (\<lambda>p.
     if p \<noteq> None then retn (POOL_NAME_TAKEN, None)
     else bnd (pools_create E name creator) (\<lambda>p. retn (POOL_CREATED, Some p)))"

definition delete_pool :: "pool_env \<Rightarrow> int \<Rightarrow> pool option bop" where
  "delete_pool E i = bnd (pool_by_id E i) (\<lambda>p. case p of
       None \<Rightarrow> retn None
     | Some p \<Rightarrow> thn (db_transaction (pv_faults E)
           (thn (pools_delete_by_id E (po_id p)) (delete_all_in_pool E (po_id p))))
         (retn (Some p)))"

fun pick_conflict :: "int \<Rightarrow> int \<Rightarrow> int \<Rightarrow> pool_map list \<Rightarrow> (add_pool_map_code \<times> int option) option" where
  "pick_conflict map_id mods slot [] = None"
| "pick_conflict map_id mods slot (m # ms) =
     (if mods = pm_mods m \<and> slot = pm_slot m then Some (PICK_TAKEN, Some (pm_map m))
      else if pm_map m = map_id then Some (MAP_ALREADY_IN_POOL, None)
      else pick_conflict map_id mods slot ms)"

definition add_map_to_pool :: "pool_env \<Rightarrow> int \<Rightarrow> int \<Rightarrow> int \<Rightarrow> int \<Rightarrow> (add_pool_map_code \<times> int option) bop" where
  "add_map_to_pool E i map_id mods slot = bnd (maps_of_pool E i) (\<lambda>ms.
     case pick_conflict map_id mods slot ms of
       Some r \<Rightarrow> retn r
     | None \<Rightarrow> thn (pool_maps_create E map_id i mods slot) (retn (ADDED, None)))"

definition remove_map_from_pool :: "pool_env \<Rightarrow> int \<Rightarrow> int \<Rightarrow> int \<Rightarrow> pool_map option bop" where
  "remove_map_from_pool E i mods slot = bnd (fetch_pool_map_pick E i mods slot) (\<lambda>m. case m of
       None \<Rightarrow> retn None
     | Some m \<Rightarrow> thn (delete_map_from_pool E (pm_pool m) (pm_map m)) (retn (Some m)))"

section \<open>The commands\<close>

text \<open>The player of a command, with the beatmap of its last \<^verbatim>\<open>/np\<close> and when that expires.\<close>

record pool_caller =
  pc_id :: int
  pc_priv :: int
  pc_np :: "(beatmap_info \<times> rat) option"
  pc_now :: rat

definition pool_docs :: "(pystr \<times> pystr) list" where
  "pool_docs =
     [(py ''help'', py ''Show all documented mappool commands the player can access.''),
      (py ''create'', py ''Add a new mappool to the database.''),
      (py ''delete'', py ''Remove a mappool from the database.''),
      (py ''add'', py ''Add a new map to a mappool in the database.''),
      (py ''remove'', py ''Remove a map from a mappool in the database.''),
      (py ''list'', py ''List all existing mappools information.''),
      (py ''info'', py ''Get all information for a specific mappool.'')]"

definition pool_help :: "pool_env \<Rightarrow> pool_caller \<Rightarrow> pystr bop" where
  "pool_help E p = retn (join_text [10]
     (map (\<lambda>(t, d). pv_prefix E @ py ''pool '' @ t @ py '': '' @ d)
        (filter (\<lambda>_. pc_priv p AND P_TOURNEY_MANAGER = P_TOURNEY_MANAGER) pool_docs)))"

definition pool_create :: "pool_env \<Rightarrow> pool_caller \<Rightarrow> pystr list \<Rightarrow> pystr bop" where
  "pool_create E p args = (case args of
       [name] \<Rightarrow> bnd (create_pool E name (pc_id p)) (\<lambda>(code, _).
         if code = POOL_NAME_TAKEN then retn (py ''Pool already exists by that name!'')
         else retn (name @ py '' created.''))
     | _ \<Rightarrow> retn (py ''Invalid syntax: !pool create <name>''))"

definition pool_delete :: "pool_env \<Rightarrow> pystr list \<Rightarrow> pystr bop" where
  "pool_delete E args = (case args of
       [name] \<Rightarrow> bnd (pool_by_name E name) (\<lambda>p. case p of
           None \<Rightarrow> retn (py ''Could not find a pool by that name!'')
         | Some p \<Rightarrow> thn (delete_pool E (po_id p)) (retn (name @ py '' deleted.'')))
     | _ \<Rightarrow> retn (py ''Invalid syntax: !pool delete <name>''))"

text \<open>What \<^verbatim>\<open>!pool add\<close> answers to each result of the service.\<close>

definition added_reply :: "pool_env \<Rightarrow> pystr \<Rightarrow> pystr \<Rightarrow> beatmap_info \<Rightarrow> add_pool_map_code \<times> int option \<Rightarrow> pystr bop" where
  "added_reply E name pick b = (\<lambda>(code, existing). case code of
       PICK_TAKEN \<Rightarrow> bnd (the_or AssertionError existing) (\<lambda>i. bnd (the_or AssertionError (pv_bmap E i)) (\<lambda>x.
         retn (pick @ py '' is already '' @ bmap_embed (pv_domain E) x @ py ''!'')))
     | MAP_ALREADY_IN_POOL \<Rightarrow> retn (bmap_embed (pv_domain E) b @ py '' is already in the pool!'')
     | ADDED \<Rightarrow> retn (bmap_embed (pv_domain E) b @ py '' added to '' @ name @ py '' as '' @ pick @ py ''.''))"

definition pool_add :: "pool_env \<Rightarrow> pool_caller \<Rightarrow> pystr list \<Rightarrow> pystr bop" where
  "pool_add E p args = (case args of
       [name, pick0] \<Rightarrow> (case pc_np p of
           None \<Rightarrow> retn (py ''Please /np a map first!'')
         | Some (b, timeout) \<Rightarrow>
             if timeout \<le> pc_now p then retn (py ''Please /np a map first!'')
             else let pick = pv_upper E pick0 in (case mappool_pick_match pick of
                 None \<Rightarrow> retn (py ''Invalid pick syntax; correct example: HD2'')
               | Some (letters, slot) \<Rightarrow>
                   if odd (length letters) then retn (py ''Invalid mods.'')
                   else bnd (pool_by_name E name) (\<lambda>x. case x of
                       None \<Rightarrow> retn (py ''Could not find a pool by that name!'')
                     | Some x \<Rightarrow> bnd (add_map_to_pool E (po_id x) (bm_id b) (from_modstr (pv_upper E) letters) slot)
                         (added_reply E name pick b))))
     | _ \<Rightarrow> retn (py ''Invalid syntax: !pool add <name> <pick>''))"

definition pool_remove :: "pool_env \<Rightarrow> pystr list \<Rightarrow> pystr bop" where
  "pool_remove E args = (case args of
       [name, pick0] \<Rightarrow> (let pick = pv_upper E pick0 in case mappool_pick_match pick of
           None \<Rightarrow> retn (py ''Invalid pick syntax; correct example: HD2'')
         | Some (letters, slot) \<Rightarrow> bnd (pool_by_name E name) (\<lambda>x. case x of
             None \<Rightarrow> retn (py ''Could not find a pool by that name!'')
           | Some x \<Rightarrow> bnd (remove_map_from_pool E (po_id x) (from_modstr (pv_upper E) letters) slot) (\<lambda>m.
               if m = None then retn (py ''Found no '' @ pick @ py '' pick in the pool.'')
               else retn (pick @ py '' removed from '' @ name @ py ''.''))))
     | _ \<Rightarrow> retn (py ''Invalid syntax: !pool remove <name> <pick>''))"

text \<open>A pool whose creator is gone is left out, though it is counted.\<close>

fun pool_lines :: "pool_env \<Rightarrow> pool list \<Rightarrow> pystr list bop" where
  "pool_lines E [] = retn []"
| "pool_lines E (p # ps) = bnd (reading (pv_faults E) (\<lambda>_. pv_user_name E (po_creator p))) (\<lambda>u.
     bnd (pool_lines E ps) (\<lambda>ls. retn (case u of
       None \<Rightarrow> ls
     | Some u \<Rightarrow> (91 # pv_day E (po_created p) @ py ''] '' @ po_name p @ py '', by '' @ u @ py ''.'') # ls)))"

definition pool_list :: "pool_env \<Rightarrow> pystr bop" where
  "pool_list E = bnd (reading (pv_faults E) (\<lambda>d. t_rows (pt_pools d))) (\<lambda>ps.
     if ps = [] then retn (py ''There are currently no pools!'')
     else bnd (pool_lines E ps) (\<lambda>ls.
       retn (join_text [10] ((py ''Mappools ('' @ str_int (int (length ps)) @ py '')'') # ls))))"

definition pool_map_lines :: "pool_env \<Rightarrow> pool_map list \<Rightarrow> pystr list" where
  "pool_map_lines E ms = concat (map (\<lambda>m. case pv_bmap E (pm_map m) of
       None \<Rightarrow> []
     | Some b \<Rightarrow> [mods_repr (pm_mods m) @ str_int (pm_slot m) @ py '': '' @ bmap_embed (pv_domain E) b])
     (sort_key (\<lambda>m. (mods_repr (pm_mods m), pm_slot m)) ms))"

definition pool_info :: "pool_env \<Rightarrow> pystr list \<Rightarrow> pystr bop" where
  "pool_info E args = (case args of
       [name] \<Rightarrow> bnd (pool_by_name E name) (\<lambda>x. case x of
           None \<Rightarrow> retn (py ''Could not find a pool by that name!'')
         | Some x \<Rightarrow> bnd (maps_of_pool E (po_id x)) (\<lambda>ms. retn (join_text [10]
             ((str_int (po_id x) @ py ''. '' @ po_name x @ py '', by '' @ str_int (po_creator x) @
               py '' | Created at '' @ pv_time E (po_created x) @ py '' on '' @ pv_day E (po_created x) @ py ''.'') #
              pool_map_lines E ms))))
     | _ \<Rightarrow> retn (py ''Invalid syntax: !pool info <name>''))"

definition pool_chat :: "pool_env \<Rightarrow> pystr \<Rightarrow> pool_caller \<Rightarrow> pystr list \<Rightarrow> pystr bop" where
  "pool_chat E which p args =
     (if which = py ''help'' then pool_help E p
      else if which = py ''create'' then pool_create E p args
      else if which = py ''delete'' then pool_delete E args
      else if which = py ''add'' then pool_add E p args
      else if which = py ''remove'' then pool_remove E args
      else if which = py ''list'' then pool_list E
      else pool_info E args)"

end
