(* ===== verification/Picks.thy ===== *)
theory Picks
  imports Pools "HOL-Library.Multiset"
begin

text \<open>
  What the mappools promise: names, maps and picks are unique as long as the first page of a pool is all of
  it, no map is left without its pool, and a pick that was entered is found.
\<close>

section \<open>From one state of the tables\<close>

definition in_db :: "(pool_tables \<Rightarrow> bool) \<Rightarrow> pool_tables stored \<Rightarrow> bool" where
  "in_db G s \<longleftrightarrow> G (st_db s)"

abbreviation exact :: "pool_tables \<Rightarrow> pool_tables stored \<Rightarrow> bool" where
  "exact d \<equiv> in_db (\<lambda>x. x = d)"

lemma db_keeps_reading: "keeps (in_db G) (reading F f)"
  unfolding keeps_triple by (rule triple_reading) (auto simp: in_db_def)

lemma db_reading:
  assumes "triple (exact d) (c (f d)) Q (in_db G)" "G d"
  shows "triple (exact d) (bnd (reading F f) c) Q (in_db G)"
proof (rule triple_reading_bnd)
  show "triple (\<lambda>s. exact d s \<and> f (st_db s) = x) (c x) Q (in_db G)" for x
    using assms(1) by (auto simp: triple_def in_db_def)
qed (use assms(2) in \<open>auto simp: in_db_def\<close>)

lemma db_statement:
  "H (snd (f d)) \<Longrightarrow> H d \<Longrightarrow> triple (exact d) (statement F f) (\<lambda>_. in_db H) (in_db H)"
  by (rule triple_statement) (auto simp: in_db_def)

lemma db_writing: "H (f d) \<Longrightarrow> triple (exact d) (writing F f) (\<lambda>_. in_db H) (in_db (\<lambda>_. True))"
  by (rule triple_writing) (auto simp: in_db_def)

lemma db_transaction_exact:
  assumes "triple (exact d) m (\<lambda>_. in_db G) (in_db (\<lambda>_. True))"
  shows "triple (exact d) (db_transaction F m) (\<lambda>_. in_db G) (exact d)"
proof -
  have c: "triple (in_db G) (thn (writing F id) (retn x)) (\<lambda>_. in_db G) (in_db (\<lambda>_. True))" for x
    by (rule triple_thn [where R = "in_db G"], rule triple_writing) (auto simp: in_db_def intro: triple_retn)
  have t: "triple (exact d) (bnd (thn (writing F id) m) (\<lambda>x. thn (writing F id) (retn x))) (\<lambda>_. in_db G) (in_db (\<lambda>_. True))"
    by (rule triple_bnd [OF triple_thn [OF db_writing assms] c]) simp
  show ?thesis
    unfolding triple_def db_transaction_def
    using t by (auto simp: triple_def in_db_def split: prod.splits sum.splits)
qed

section \<open>The invariant\<close>

definition order_ok :: "pool_env \<Rightarrow> bool" where
  "order_ok E \<longleftrightarrow> (\<forall>ms. mset (pv_order E ms) = mset ms)"

lemma order_set: "order_ok E \<Longrightarrow> set (pv_order E ms) = set ms" "order_ok E \<Longrightarrow> length (pv_order E ms) = length ms"
  unfolding order_ok_def by (metis set_mset_mset) (metis size_mset)

text \<open>The pool that \<^verbatim>\<open>!pool add\<close> names, if there is one, fits the page the service reads.\<close>

definition one_page :: "(pystr \<Rightarrow> pystr \<Rightarrow> bool) \<Rightarrow> pystr list \<Rightarrow> pool_tables \<Rightarrow> bool" where
  "one_page same args d \<longleftrightarrow> (case args of
       [name, _] \<Rightarrow> (case find (\<lambda>p. same (po_name p) name) (t_rows (pt_pools d)) of
           None \<Rightarrow> True
         | Some p \<Rightarrow> length (filter (\<lambda>m. pm_pool m = po_id p) (pt_maps d)) \<le> 50)
     | _ \<Rightarrow> True)"

definition pools_ok :: "(pystr \<Rightarrow> pystr \<Rightarrow> bool) \<Rightarrow> pool_tables \<Rightarrow> bool" where
  "pools_ok same d \<longleftrightarrow> keyed po_id (pt_pools d) \<and>
     sorted_wrt (\<lambda>p q. \<not> same (po_name p) (po_name q)) (t_rows (pt_pools d)) \<and>
     (\<forall>m \<in> set (pt_maps d). \<exists>p \<in> set (t_rows (pt_pools d)). po_id p = pm_pool m) \<and>
     distinct (map (\<lambda>m. (pm_pool m, pm_map m)) (pt_maps d)) \<and>
     distinct (map (\<lambda>m. (pm_pool m, pm_mods m, pm_slot m)) (pt_maps d))"

lemma distinct_map_filter: "distinct (map f xs) \<Longrightarrow> distinct (map f (filter P xs))"
  by (induction xs) auto

lemma fewer_maps_ok: "pools_ok same d \<Longrightarrow> pools_ok same (d\<lparr>pt_maps := filter P (pt_maps d)\<rparr>)"
  by (auto simp: pools_ok_def distinct_map_filter)

lemma more_pools_ok:
  assumes "pools_ok same d" "find (\<lambda>p. same (po_name p) name) (t_rows (pt_pools d)) = None"
  shows "pools_ok same (d\<lparr>pt_pools := add_row (\<lambda>i. \<lparr>po_id = i, po_name = name, po_created = t, po_creator = c\<rparr>) (pt_pools d)\<rparr>)"
  using assms by (auto simp: pools_ok_def keyed_add find_None_iff) (auto simp: add_row_def sorted_wrt_append)

lemma pool_gone_ok:
  assumes "pools_ok same d"
  shows "pools_ok same (d\<lparr>pt_pools := delete_rows (\<lambda>p. po_id p = i) (pt_pools d), pt_maps := filter (\<lambda>m. pm_pool m \<noteq> i) (pt_maps d)\<rparr>)"
  using assms
  by (auto simp: pools_ok_def keyed_delete distinct_map_filter; (simp add: delete_rows_def sorted_wrt_filter | metis))

lemma pick_conflict_None:
  "pick_conflict map_id mods slot ms = None \<longleftrightarrow>
     (\<forall>m \<in> set ms. \<not> (pm_mods m = mods \<and> pm_slot m = slot) \<and> pm_map m \<noteq> map_id)"
  by (induction ms) auto

lemma one_page_take:
  assumes "order_ok E" "length (filter (\<lambda>m. pm_pool m = i) ms) \<le> 50"
  shows "set (take 50 (pv_order E (filter (\<lambda>m. pm_pool m = i) ms))) = {m \<in> set ms. pm_pool m = i}"
  using assms by (simp add: order_set)

lemma more_maps_ok:
  assumes "pools_ok same d" "p \<in> set (t_rows (pt_pools d))" "po_id p = i"
    "\<forall>m \<in> {m \<in> set (pt_maps d). pm_pool m = i}. \<not> (pm_mods m = mods \<and> pm_slot m = slot) \<and> pm_map m \<noteq> map_id"
  shows "pools_ok same (d\<lparr>pt_maps := pt_maps d @ [\<lparr>pm_map = map_id, pm_pool = i, pm_mods = mods, pm_slot = slot\<rparr>]\<rparr>)"
  using assms by (auto simp: pools_ok_def)

section \<open>Every command keeps it\<close>

lemma reads_after:
  assumes "triple (exact d) m (\<lambda>_. in_db G) (in_db G)" "\<And>x. keeps (in_db G) (c x)"
  shows "triple (exact d) (bnd m c) (\<lambda>_. in_db G) (in_db G)"
  by (rule triple_bnd [OF assms(1) assms(2) [unfolded keeps_triple]])

lemma reads_only: "keeps (in_db G) m \<Longrightarrow> G d \<Longrightarrow> triple (exact d) m (\<lambda>_. in_db G) (in_db G)"
  unfolding keeps_triple by (erule triple_conseq) (auto simp: in_db_def)

lemma reads_none: "G d \<Longrightarrow> triple (exact d) (retn x) (\<lambda>_. in_db G) (in_db G)"
  by (rule triple_retn) (simp add: in_db_def)

lemmas page_intros = keeps_bnd keeps_thn keeps_if keeps_retn keeps_the_or keeps_option keeps_gets db_keeps_reading

lemma create_pool_ok:
  assumes "pools_ok same d" "pv_same_text E = same"
  shows "triple (exact d) (create_pool E name c) (\<lambda>_. in_db (pools_ok same)) (in_db (pools_ok same))"
  unfolding create_pool_def pool_by_name_def assms(2)
proof (rule db_reading)
  let ?found = "find (\<lambda>p. same (po_name p) name) (t_rows (pt_pools d))"
  have s: "triple (exact d) (bnd (statement (pv_faults E) (\<lambda>d. (t_next (pt_pools d),
        d\<lparr>pt_pools := add_row (\<lambda>i. \<lparr>po_id = i, po_name = name, po_created = now, po_creator = c\<rparr>) (pt_pools d)\<rparr>)))
        (\<lambda>i. bnd (pool_by_id E i) (the_or AssertionError))) (\<lambda>_. in_db (pools_ok same)) (in_db (pools_ok same))"
    if "?found = None" for now
    unfolding pool_by_id_def
    by (rule reads_after [OF db_statement]) (use that assms in \<open>auto intro: more_pools_ok page_intros\<close>)
  have "triple (exact d) (pools_create E name c) (\<lambda>_. in_db (pools_ok same)) (in_db (pools_ok same))" if "?found = None"
    unfolding pools_create_def by (rule triple_gets_bnd, rule triple_conseq [OF s [OF that]]) auto
  then show "triple (exact d) (if ?found \<noteq> None then retn (POOL_NAME_TAKEN, None)
      else bnd (pools_create E name c) (\<lambda>p. retn (POOL_CREATED, Some p)))
      (\<lambda>_. in_db (pools_ok same)) (in_db (pools_ok same))"
    using assms(1) by (auto intro!: reads_after reads_none page_intros)
qed (rule assms)

lemma delete_pool_ok:
  assumes "pools_ok same d" "order_ok E"
  shows "triple (exact d) (delete_pool E i) (\<lambda>_. in_db (pools_ok same)) (in_db (pools_ok same))"
  unfolding delete_pool_def pool_by_id_def
proof (rule db_reading)
  show "triple (exact d) (case row_of po_id i (pt_pools d) of None \<Rightarrow> retn None
     | Some p \<Rightarrow> thn (db_transaction (pv_faults E) (thn (pools_delete_by_id E (po_id p)) (delete_all_in_pool E (po_id p))))
         (retn (Some p))) (\<lambda>_. in_db (pools_ok same)) (in_db (pools_ok same))"
  proof (cases "row_of po_id i (pt_pools d)")
    case (Some p)
    then have p: "po_id p = i" by (auto dest: row_of_Some)
    let ?e = "d\<lparr>pt_pools := delete_rows (\<lambda>p. po_id p = i) (pt_pools d)\<rparr>"
    let ?g = "?e\<lparr>pt_maps := filter (\<lambda>m. pm_pool m \<noteq> i) (pt_maps d)\<rparr>"
    have a: "triple (exact d) (pools_delete_by_id E i) (\<lambda>_. exact ?e) (in_db (\<lambda>_. True))"
      unfolding pools_delete_by_id_def pool_by_id_def
      by (rule db_reading) (auto simp: Some in_db_def intro!: triple_thn [OF db_writing [where H = "\<lambda>x. x = ?e"]] triple_retn)
    have b: "triple (exact ?e) (delete_all_in_pool E i) (\<lambda>_. exact ?g) (in_db (\<lambda>_. True))"
      unfolding delete_all_in_pool_def
    proof (rule db_reading)
      have "?e = ?g" if "pv_order E (filter (\<lambda>m. pm_pool m = i) (pt_maps d)) = []"
      proof -
        have "filter (\<lambda>m. pm_pool m = i) (pt_maps d) = []"
          using order_set(2) [OF assms(2), of "filter (\<lambda>m. pm_pool m = i) (pt_maps d)"] that by simp
        then have "filter (\<lambda>m. pm_pool m \<noteq> i) (pt_maps d) = pt_maps d" by (simp add: filter_empty_conv)
        then show ?thesis by simp
      qed
      then show "triple (exact ?e) (if pv_order E (filter (\<lambda>m. pm_pool m = i) (pt_maps ?e)) = [] then retn []
         else thn (writing (pv_faults E) (\<lambda>d. d\<lparr>pt_maps := filter (\<lambda>m. pm_pool m \<noteq> i) (pt_maps d)\<rparr>))
           (retn (pv_order E (filter (\<lambda>m. pm_pool m = i) (pt_maps ?e))))) (\<lambda>_. exact ?g) (in_db (\<lambda>_. True))"
        by (intro triple_if triple_thn [OF db_writing [where H = "\<lambda>x. x = ?g"]] triple_retn) (auto simp: in_db_def)
    qed simp
    have "triple (exact d) (db_transaction (pv_faults E) (thn (pools_delete_by_id E i) (delete_all_in_pool E i)))
        (\<lambda>_. exact ?g) (exact d)"
      by (rule db_transaction_exact [OF triple_thn [OF a b]])
    then have "triple (exact d) (db_transaction (pv_faults E) (thn (pools_delete_by_id E i) (delete_all_in_pool E i)))
        (\<lambda>_. in_db (pools_ok same)) (in_db (pools_ok same))"
      by (rule triple_conseq) (use assms(1) pool_gone_ok [OF assms(1)] in \<open>auto simp: in_db_def\<close>)
    then show ?thesis using Some p by (simp, intro triple_thn) (auto simp: triple_def retn_def)
  qed (use assms in \<open>auto intro: reads_only page_intros\<close>)
qed (rule assms)

lemma add_map_ok:
  assumes "pools_ok same d" "order_ok E" "p \<in> set (t_rows (pt_pools d))"
    "length (filter (\<lambda>m. pm_pool m = po_id p) (pt_maps d)) \<le> 50"
  shows "triple (exact d) (add_map_to_pool E (po_id p) map_id mods slot) (\<lambda>_. in_db (pools_ok same)) (in_db (pools_ok same))"
  unfolding add_map_to_pool_def maps_of_pool_def
proof (rule db_reading)
  let ?page = "take 50 (pv_order E (filter (\<lambda>m. pm_pool m = po_id p) (pt_maps d)))"
  have "triple (exact d) (pool_maps_create E map_id (po_id p) mods slot) (\<lambda>_. in_db (pools_ok same)) (in_db (pools_ok same))"
    if "pick_conflict map_id mods slot ?page = None"
    unfolding pool_maps_create_def
    by (rule reads_after [OF db_statement])
      (use that assms one_page_take [OF assms(2,4)] in \<open>auto simp: pick_conflict_None intro!: more_maps_ok page_intros\<close>)
  then show "triple (exact d) (case pick_conflict map_id mods slot ?page of Some r \<Rightarrow> retn r
     | None \<Rightarrow> thn (pool_maps_create E map_id (po_id p) mods slot) (retn (ADDED, None)))
     (\<lambda>_. in_db (pools_ok same)) (in_db (pools_ok same))"
    using assms(1) by (cases "pick_conflict map_id mods slot ?page")
      (auto simp: thn_def intro!: reads_after reads_none page_intros)
qed (rule assms)

lemma remove_map_ok:
  assumes "pools_ok same d"
  shows "triple (exact d) (remove_map_from_pool E i mods slot) (\<lambda>_. in_db (pools_ok same)) (in_db (pools_ok same))"
proof -
  have r: "triple (exact d) (delete_map_from_pool E j k) (\<lambda>_. in_db (pools_ok same)) (in_db (pools_ok same))" for j k
    unfolding delete_map_from_pool_def
  proof (rule db_reading)
    have "triple (exact d) (writing (pv_faults E) (\<lambda>d. d\<lparr>pt_maps := filter (\<lambda>m. \<not> is_entry j k m) (pt_maps d)\<rparr>))
        (\<lambda>_. in_db (pools_ok same)) (in_db (pools_ok same))"
      unfolding writing_def by (rule db_statement) (use assms fewer_maps_ok in auto)
    then show "triple (exact d) (case find (is_entry j k) (pt_maps d) of None \<Rightarrow> retn None
       | Some m \<Rightarrow> thn (writing (pv_faults E) (\<lambda>d. d\<lparr>pt_maps := filter (\<lambda>m. \<not> is_entry j k m) (pt_maps d)\<rparr>)) (retn (Some m)))
       (\<lambda>_. in_db (pools_ok same)) (in_db (pools_ok same))"
      using assms by (cases "find (is_entry j k) (pt_maps d)") (auto simp: thn_def intro!: reads_after reads_none page_intros)
  qed (rule assms)
  show ?thesis
    unfolding remove_map_from_pool_def fetch_pool_map_pick_def
    by (rule db_reading)
      (use assms r in \<open>auto simp: thn_def split: option.split list.split intro!: reads_after reads_none page_intros\<close>)
qed

lemma pool_lines_keeps: "keeps (in_db G) (pool_lines E ps)"
  by (induction ps) (auto intro!: page_intros)

lemma pool_chat_ok:
  assumes "pools_ok same d" "order_ok E" "pv_same_text E = same" "which = py ''add'' \<longrightarrow> one_page same args d"
  shows "triple (exact d) (pool_chat E which p args) (\<lambda>_. in_db (pools_ok same)) (in_db (pools_ok same))"
proof -
  let ?ok = "in_db (pools_ok same)"
  note intros = reads_after reads_none page_intros
  have create: "triple (exact d) (pool_create E p args) (\<lambda>_. ?ok) ?ok"
    unfolding pool_create_def
    by (auto split: list.split intro!: reads_none reads_after [OF create_pool_ok] page_intros assms)
  have delete: "triple (exact d) (pool_delete E args) (\<lambda>_. ?ok) ?ok"
    unfolding pool_delete_def pool_by_name_def
    by (auto simp: thn_def split: list.split option.split
      intro!: db_reading reads_none reads_after [OF delete_pool_ok] page_intros assms)
  have added: "keeps ?ok (added_reply E name pick b r)" for name pick b r
    by (cases r; cases "fst r") (auto simp: added_reply_def intro!: page_intros)
  have found: "length (filter (\<lambda>m. pm_pool m = po_id x) (pt_maps d)) \<le> 50 \<and> x \<in> set (t_rows (pt_pools d))"
    if "one_page same [name, pick] d" "find (\<lambda>q. same (po_name q) name) (t_rows (pt_pools d)) = Some x" for x name pick
    using that by (auto simp: one_page_def find_Some_iff)
  have add: "triple (exact d) (pool_add E p args) (\<lambda>_. ?ok) ?ok" if "one_page same args d"
    using that unfolding pool_add_def pool_by_name_def assms(3) Let_def
    by (auto split: list.split option.split prod.split dest: found
      intro!: db_reading reads_none reads_after [OF add_map_ok] added assms)
  have remove: "triple (exact d) (pool_remove E args) (\<lambda>_. ?ok) ?ok"
    unfolding pool_remove_def pool_by_name_def Let_def
    by (auto split: list.split option.split prod.split
      intro!: db_reading reads_none reads_after [OF remove_map_ok] page_intros assms)
  have listing: "triple (exact d) (pool_list E) (\<lambda>_. ?ok) ?ok"
    unfolding pool_list_def by (rule reads_only) (auto intro!: page_intros pool_lines_keeps assms)
  have info: "triple (exact d) (pool_info E args) (\<lambda>_. ?ok) ?ok"
    unfolding pool_info_def pool_by_name_def maps_of_pool_def
    by (rule reads_only) (auto split: list.split intro!: page_intros assms)
  have manual: "triple (exact d) (pool_help E p) (\<lambda>_. ?ok) ?ok"
    unfolding pool_help_def by (rule reads_none) (rule assms)
  show ?thesis
    unfolding pool_chat_def by (intro triple_if create delete add remove listing info manual) (use assms(4) in blast)
qed

section \<open>The theorems\<close>

text \<open>
  What the managers of tournaments can do to the pools, with any failures; the order in which rows are
  listed may be another each time. A map is only added to a pool that the first page holds (\<open>one_page\<close>); the
  other pools may be of any size.
\<close>

inductive pool_history :: "(pystr \<Rightarrow> pystr \<Rightarrow> bool) \<Rightarrow> pool_tables stored \<Rightarrow> bool" for same where
  empty: "st_db s = \<lparr>pt_pools = empty_table, pt_maps = []\<rparr> \<Longrightarrow> pool_history same s"
| command: "pool_history same s \<Longrightarrow> order_ok E \<Longrightarrow> pv_same_text E = same \<Longrightarrow>
    which = py ''add'' \<longrightarrow> one_page same args (st_db s) \<Longrightarrow> pool_chat E which p args s = (y, s') \<Longrightarrow> pool_history same s'"

lemma pool_history_ok: "pool_history same s \<Longrightarrow> pools_ok same (st_db s)"
proof (induction rule: pool_history.induct)
  case (empty s)
  then show ?case by (simp add: pools_ok_def keyed_empty) (simp add: empty_table_def)
next
  case (command s E which args p y s')
  have "exact (st_db s) s" by (simp add: in_db_def)
  from pool_chat_ok [OF command.IH command(2,3,4), unfolded triple_def, rule_format, OF this, of p]
  show ?case using command(5) by (auto simp: in_db_def split: sum.splits)
qed

text \<open>C27. In every history of the mappools, whatever fails, no two pools have the same name, no map is left
  without its pool, and a pool has no map twice and no two maps for one pick, as long as nothing is added to
  a pool with more than fifty maps.
\<close>

theorem pool_picks_unique:
  assumes "pool_history same s"
  shows "let d = st_db s in
    sorted_wrt (\<lambda>p q. \<not> same (po_name p) (po_name q)) (t_rows (pt_pools d)) \<and>
    pm_pool ` set (pt_maps d) \<subseteq> po_id ` set (t_rows (pt_pools d)) \<and>
    distinct (map (\<lambda>m. (pm_pool m, pm_map m)) (pt_maps d)) \<and>
    distinct (map (\<lambda>m. (pm_pool m, pm_mods m, pm_slot m)) (pt_maps d))"
  using pool_history_ok [OF assms] unfolding pools_ok_def Let_def by (auto simp: image_iff) metis

definition quiet_pools :: pool_env where
  "quiet_pools = \<lparr>pv_faults = (\<lambda>_. None), pv_now = (\<lambda>_. 0), pv_same_text = (=), pv_order = rev, pv_upper = (\<lambda>t. t),
     pv_bmap = (\<lambda>i. Some \<lparr>bm_id = i, bm_md5 = [], bm_full_name = []\<rparr>), pv_user_name = (\<lambda>_. None), pv_domain = [],
     pv_prefix = [33], pv_day = (\<lambda>_. []), pv_time = (\<lambda>_. [])\<rparr>"

definition pool_host :: pool_caller where
  "pool_host = \<lparr>pc_id = 1, pc_priv = P_TOURNEY_MANAGER, pc_np = Some (\<lparr>bm_id = 7, bm_md5 = [], bm_full_name = []\<rparr>, 10), pc_now = 5\<rparr>"

definition pool_scene :: "pool_tables stored" where
  "pool_scene = snd (pool_chat quiet_pools (py ''add'') pool_host [[97], py ''HD1'']
     (snd (pool_chat quiet_pools (py ''create'') pool_host [[97]]
       \<lparr>st_db = \<lparr>pt_pools = empty_table, pt_maps = []\<rparr>, st_tick = 0\<rparr>)))"

lemma pool_scene_maps: "pt_maps (st_db pool_scene) = [\<lparr>pm_map = 7, pm_pool = 1, pm_mods = 8, pm_slot = 1\<rparr>]"
  by code_simp

lemma pool_history_next:
  "pool_history same s \<Longrightarrow> order_ok E \<Longrightarrow> pv_same_text E = same \<Longrightarrow> (which = py ''add'' \<longrightarrow> one_page same args (st_db s)) \<Longrightarrow>
   pool_history same (snd (pool_chat E which p args s))"
  by (rule pool_history.command [OF _ _ _ _ prod.collapse [symmetric]])

lemma pool_scene_history: "pool_history (=) pool_scene"
proof -
  let ?s = "\<lparr>st_db = \<lparr>pt_pools = empty_table, pt_maps = []\<rparr>, st_tick = 0\<rparr> :: pool_tables stored"
  let ?t = "snd (pool_chat quiet_pools (py ''create'') pool_host [[97]] ?s)"
  have q: "order_ok quiet_pools" "pv_same_text quiet_pools = (=)" by (simp_all add: order_ok_def quiet_pools_def)
  have "pool_history (=) ?s" by (rule pool_history.empty) simp
  then have "pool_history (=) ?t"
    by (rule pool_history_next [OF _ q]) (simp add: py_def)
  moreover have "pt_maps (st_db ?t) = []" by code_simp
  then have "one_page (=) args (st_db ?t)" for args by (simp add: one_page_def split: list.split option.split)
  ultimately show ?thesis
    unfolding pool_scene_def using pool_history_next [OF _ q, where which = "py ''add''"] by blast
qed

lemma pool_picks_unique_witness:
  "pm_pool ` set (pt_maps (st_db pool_scene)) \<subseteq> po_id ` set (t_rows (pt_pools (st_db pool_scene))) \<and>
   length (pt_maps (st_db pool_scene)) = 1"
  using pool_picks_unique [OF pool_scene_history] pool_scene_maps by (simp add: Let_def)

text \<open>What a creation that returns has written, and what adding to a pool has checked before it.\<close>

lemma created_entry:
  assumes "m = \<lparr>pm_map = map_id, pm_pool = i, pm_mods = mods, pm_slot = slot\<rparr>"
  shows "triple (exact d) (pool_maps_create E map_id i mods slot) (\<lambda>_. in_db (\<lambda>x. pt_maps x = pt_maps d @ [m])) (in_db (\<lambda>_. True))"
  unfolding pool_maps_create_def
proof (rule triple_bnd)
  let ?R = "\<lambda>ok :: unit option. in_db (\<lambda>x. ok \<noteq> None \<longrightarrow> pt_maps x = pt_maps d @ [m])"
  show "triple (exact d) (statement (pv_faults E) (\<lambda>d. if list_ex (is_entry i map_id) (pt_maps d) then (None, d)
     else (Some (), d\<lparr>pt_maps := pt_maps d @ [\<lparr>pm_map = map_id, pm_pool = i, pm_mods = mods, pm_slot = slot\<rparr>]\<rparr>))) ?R (in_db (\<lambda>_. True))"
    by (rule triple_statement) (auto simp: in_db_def assms)
  show "triple (?R ok) (bnd (the_or DatabaseError ok) (\<lambda>_.
     bnd (reading (pv_faults E) (\<lambda>d. find (is_entry i map_id) (pt_maps d))) (the_or AssertionError)))
     (\<lambda>_. in_db (\<lambda>x. pt_maps x = pt_maps d @ [m])) (in_db (\<lambda>_. True))" for ok
  proof (cases ok)
    case (Some u)
    have "keeps (in_db (\<lambda>x. pt_maps x = pt_maps d @ [m]))
      (bnd (reading (pv_faults E) (\<lambda>d. find (is_entry i map_id) (pt_maps d))) (the_or AssertionError))"
      by (intro page_intros)
    then have "triple (in_db (\<lambda>x. pt_maps x = pt_maps d @ [m]))
        (bnd (reading (pv_faults E) (\<lambda>d. find (is_entry i map_id) (pt_maps d))) (the_or AssertionError))
        (\<lambda>_. in_db (\<lambda>x. pt_maps x = pt_maps d @ [m])) (in_db (\<lambda>_. True))"
      unfolding keeps_triple by (rule triple_conseq) (simp_all add: in_db_def)
    moreover have "bnd (retn ()) f = f ()" for f :: "unit \<Rightarrow> pool_map bop" by (simp add: bnd_def retn_def)
    ultimately show ?thesis using Some by simp
  qed (simp add: triple_def in_db_def)
qed

lemma added_entry:
  assumes "add_map_to_pool E i map_id mods slot s = (Inr (ADDED, x), s')"
  shows "pick_conflict map_id mods slot (take 50 (pv_order E (filter (\<lambda>m. pm_pool m = i) (pt_maps (st_db s))))) = None \<and>
    pt_maps (st_db s') = pt_maps (st_db s) @ [\<lparr>pm_map = map_id, pm_pool = i, pm_mods = mods, pm_slot = slot\<rparr>]"
proof -
  let ?m = "\<lparr>pm_map = map_id, pm_pool = i, pm_mods = mods, pm_slot = slot\<rparr>" and ?d = "st_db s"
  let ?page = "take 50 (pv_order E (filter (\<lambda>m. pm_pool m = i) (pt_maps ?d)))"
  let ?G = "\<lambda>(code, _) x. code = ADDED \<longrightarrow> pick_conflict map_id mods slot ?page = None \<and> pt_maps x = pt_maps ?d @ [?m]"
  from created_entry [OF refl, of ?d E map_id i mods slot] have "triple (exact ?d) (add_map_to_pool E i map_id mods slot) (\<lambda>c. in_db (?G c)) (in_db (\<lambda>_. True))"
    unfolding add_map_to_pool_def maps_of_pool_def
  proof (intro db_reading)
    assume t: "triple (exact ?d) (pool_maps_create E map_id i mods slot) (\<lambda>_. in_db (\<lambda>x. pt_maps x = pt_maps ?d @ [?m])) (in_db (\<lambda>_. True))"
    have c: "fst c \<noteq> ADDED" if "pick_conflict map_id mods slot ms = Some c" for c ms
      using that by (induction ms) (auto split: if_splits)
    show "triple (exact ?d) (case pick_conflict map_id mods slot ?page of Some r \<Rightarrow> retn r
       | None \<Rightarrow> thn (pool_maps_create E map_id i mods slot) (retn (ADDED, None))) (\<lambda>c. in_db (?G c)) (in_db (\<lambda>_. True))"
    proof (cases "pick_conflict map_id mods slot ?page")
      case None
      then show ?thesis by (simp, intro triple_thn [OF t] triple_retn) (simp add: in_db_def)
    next
      case (Some r)
      then show ?thesis using c [OF Some] by (cases r) (simp add: triple_def in_db_def retn_def)
    qed
  qed simp
  moreover have "exact ?d s" by (simp add: in_db_def)
  ultimately show ?thesis
    using assms by (auto simp: in_db_def dest: tripleD)
qed

text \<open>C28. A pick that is added to a pool of at most fifty maps is the one that is found for it afterwards, in
  whatever order the rows are listed, and what is found for any other pick is what was found before.
\<close>

theorem added_pick_is_found:
  assumes "order_ok E" "length (filter (\<lambda>m. pm_pool m = i) (pt_maps (st_db s))) \<le> 50"
    "add_map_to_pool E i map_id mods slot s = (Inr (ADDED, x), s')"
    "fetch_pool_map_pick E j mods' slot' s' = (Inr r, s'')"
  shows "r = (if j = i \<and> mods' = mods \<and> slot' = slot
     then Some \<lparr>pm_map = map_id, pm_pool = i, pm_mods = mods, pm_slot = slot\<rparr>
     else (case pv_order E (filter (is_pick j mods' slot') (pt_maps (st_db s))) of [] \<Rightarrow> None | m # _ \<Rightarrow> Some m))"
proof -
  let ?m = "\<lparr>pm_map = map_id, pm_pool = i, pm_mods = mods, pm_slot = slot\<rparr>" and ?d = "st_db s"
  have new: "pick_conflict map_id mods slot (take 50 (pv_order E (filter (\<lambda>m. pm_pool m = i) (pt_maps ?d)))) = None"
    "pt_maps (st_db s') = pt_maps ?d @ [?m]"
    using added_entry [OF assms(3)] by simp_all
  have no: "filter (is_pick i mods slot) (pt_maps ?d) = []"
    using new(1) one_page_take [OF assms(1,2)] by (auto simp: pick_conflict_None filter_empty_conv is_pick_def)
  have r: "r = (case pv_order E (filter (is_pick j mods' slot') (pt_maps (st_db s'))) of [] \<Rightarrow> None | m # _ \<Rightarrow> Some m)"
    using assms(4) by (auto simp: fetch_pool_map_pick_def reading_def statement_def Let_def split: option.splits)
  show ?thesis
  proof (cases "j = i \<and> mods' = mods \<and> slot' = slot")
    case True
    have "mset (pv_order E [?m]) = {#?m#}" using assms(1) by (simp add: order_ok_def)
    then have "pv_order E [?m] = [?m]" by simp
    then show ?thesis using r new(2) no True by (simp add: is_pick_def)
  next
    case False
    then have "\<not> is_pick j mods' slot' ?m" by (auto simp: is_pick_def)
    then show ?thesis using r new(2) False by auto
  qed
qed

lemma added_pick_is_found_witness:
  "fst (fetch_pool_map_pick quiet_pools 1 16 2 (snd (add_map_to_pool quiet_pools 1 9 16 2 pool_scene))) =
     Inr (Some \<lparr>pm_map = 9, pm_pool = 1, pm_mods = 16, pm_slot = 2\<rparr>)"
proof -
  let ?t = "snd (add_map_to_pool quiet_pools 1 9 16 2 pool_scene)"
  have "fst (add_map_to_pool quiet_pools 1 9 16 2 pool_scene) = Inr (ADDED, None)" by code_simp
  then have a: "add_map_to_pool quiet_pools 1 9 16 2 pool_scene = (Inr (ADDED, None), ?t)" by (metis prod.collapse)
  obtain r where "fst (fetch_pool_map_pick quiet_pools 1 16 2 ?t) = Inr r"
    by (auto simp: fetch_pool_map_pick_def reading_def statement_def quiet_pools_def Let_def)
  moreover have "order_ok quiet_pools" by (simp add: order_ok_def quiet_pools_def)
  moreover have "length (filter (\<lambda>m. pm_pool m = 1) (pt_maps (st_db pool_scene))) \<le> 50" by (simp add: pool_scene_maps)
  ultimately show ?thesis
    using added_pick_is_found [OF _ _ a, of 1 16 2 r "snd (fetch_pool_map_pick quiet_pools 1 16 2 ?t)"]
    by (metis prod.collapse)
qed

text \<open>Only the first fifty maps are looked at: in a pool of fifty-one a pick that is taken can be given away again.\<close>

definition crowded_pool :: "pool_tables stored" where
  "crowded_pool = \<lparr>st_db = \<lparr>pt_pools = add_row (\<lambda>i. \<lparr>po_id = i, po_name = [97], po_created = 0, po_creator = 1\<rparr>) empty_table,
     pt_maps = map (\<lambda>k. \<lparr>pm_map = k, pm_pool = 1, pm_mods = 8, pm_slot = k\<rparr>) [1..51]\<rparr>, st_tick = 0\<rparr>"

lemma full_pool_accepts_taken_pick:
  "fst (add_map_to_pool (quiet_pools\<lparr>pv_order := \<lambda>ms. ms\<rparr>) 1 100 8 51 crowded_pool) = Inr (ADDED, None)"
  by code_simp

end
