(* ===== verification/Boards.thy ===== *)
theory Boards
  imports Clans
begin

text \<open>
  The leaderboards the client asks for: \<^verbatim>\<open>app/services/beatmap_leaderboards.py\<close>,
  \<^verbatim>\<open>app/services/score_leaderboards.py\<close>, and the three queries of \<^verbatim>\<open>app/repositories/scores.py\<close>
  they send. The scores and users are those of the submissions (\<open>sdb\<close>); the pp of a row is the number
  its column holds, a single-precision number.
\<close>

section \<open>State\<close>

text \<open>The country and clan columns of the users, the clans, the file names of the maps, the ratings.\<close>

record board_db =
  bd_scores :: sdb
  bd_country :: "int \<Rightarrow> pystr"
  bd_clan :: "int \<Rightarrow> int"
  bd_clans :: "clan list"
  bd_filenames :: "pystr list"
  bd_ratings :: "(pystr \<times> int) list"

text \<open>
  The two caches of MD5s the osu! API does not know, the mode and mods in the status of each player, and
  what was sent or counted.
\<close>

datatype board_event = Strange_occurrence | Leaderboard_served | Stats_published int

record boards = "board_db stored" +
  bs_unsubmitted :: "pystr set"
  bs_needs_update :: "pystr set"
  bs_status :: "int \<Rightarrow> int \<times> int"
  bs_events :: "board_event list"

type_synonym 'a lop = "(boards, 'a) op"

text \<open>The beatmap the fetcher finds, with the columns the answer has.\<close>

record board_map =
  bp_md5 :: pystr
  bp_status :: int
  bp_id :: int
  bp_set_id :: int
  bp_name :: pystr

text \<open>
  The schedule of failures; the order in which the database puts rows before it sorts them; the decimal
  as which a column of type \<^verbatim>\<open>float(7,3)\<close> is read; a \<^verbatim>\<open>datetime\<close> in seconds; \<^verbatim>\<open>unquote_plus\<close>; the beatmap fetcher, and the file names of the maps of a
  cached set.
\<close>

record board_env =
  be_faults :: faults
  be_order :: "(score_row \<times> db_user) list \<Rightarrow> (score_row \<times> db_user) list"
  be_read :: "rat \<Rightarrow> rat"
  be_seconds :: "datetime \<Rightarrow> int"
  be_unquote :: "pystr \<Rightarrow> pystr"
  be_fetch :: "pystr \<Rightarrow> int \<Rightarrow> board_map option"
  be_cached_set :: "int \<Rightarrow> pystr list option"

text \<open>The player of a request, as the session has it.\<close>

record board_player =
  bq_id :: int
  bq_name :: pystr
  bq_priv :: int
  bq_friends :: "int list"
  bq_country :: pystr
  bq_clan_id :: "int option"

section \<open>The queries\<close>

text \<open>A score with the columns of a leaderboard: the value ranked by, as it is read, its time, its player.\<close>

record board_row =
  br_score :: score_row
  br_value :: rat
  br_time :: int
  br_userid :: int
  br_name :: pystr

definition best_rows :: "sdb \<Rightarrow> pystr \<Rightarrow> int \<Rightarrow> score_row list" where
  "best_rows d md5 mode =
     filter (\<lambda>r. sr_map_md5 r = md5 \<and> sr_status r = status_value SS_BEST \<and> sr_mode r = mode) (t_scores d)"

definition with_users :: "sdb \<Rightarrow> score_row list \<Rightarrow> (score_row \<times> db_user) list" where
  "with_users d rs = concat (map (\<lambda>r. map (Pair r) (filter (\<lambda>u. du_id u = sr_userid r) (t_users d))) rs)"

text \<open>\<^verbatim>\<open>coalesce(concat("[", tag, "] ", name), name)\<close> of the outer join with the clans.\<close>

definition tagged_name :: "pystr option \<Rightarrow> pystr \<Rightarrow> pystr" where
  "tagged_name tag name = (case tag of None \<Rightarrow> name | Some t \<Rightarrow> 91 # t @ py ''] '' @ name)"

definition clan_tag_of :: "board_db \<Rightarrow> int \<Rightarrow> pystr option" where
  "clan_tag_of d i = map_option cl_tag (find (\<lambda>c. cl_id c = i) (bd_clans d))"

definition on_board :: "board_db \<Rightarrow> int \<Rightarrow> int option \<Rightarrow> int list option \<Rightarrow> pystr option \<Rightarrow> score_row \<times> db_user \<Rightarrow> bool" where
  "on_board d viewer mods friends country = (\<lambda>(r, u).
     (has (du_priv u) P_UNRESTRICTED \<or> du_id u = viewer) \<and>
     (case mods of None \<Rightarrow> True | Some m \<Rightarrow> sr_mods r = m) \<and>
     (case friends of None \<Rightarrow> True | Some fs \<Rightarrow> sr_userid r \<in> set fs) \<and>
     (case country of None \<Rightarrow> True | Some c \<Rightarrow> bd_country d (du_id u) = c))"

text \<open>The label \<^verbatim>\<open>leaderboard_value\<close> as Python receives it.\<close>

definition read_value :: "board_env \<Rightarrow> scoring_metric \<Rightarrow> score_row \<Rightarrow> rat" where
  "read_value E k r = (case k of Metric_pp \<Rightarrow> be_read E (sr_pp r) | Metric_score \<Rightarrow> of_int (sr_score r))"

definition board_row_of :: "board_env \<Rightarrow> board_db \<Rightarrow> scoring_metric \<Rightarrow> score_row \<times> db_user \<Rightarrow> board_row" where
  "board_row_of E d k = (\<lambda>(r, u). \<lparr>br_score = r, br_value = read_value E k r, br_time = be_seconds E (sr_play_time r),
     br_userid = du_id u, br_name = tagged_name (clan_tag_of d (bd_clan d (du_id u))) (du_name u)\<rparr>)"

definition leaderboard_rows :: "board_env \<Rightarrow> pystr \<Rightarrow> int \<Rightarrow> int \<Rightarrow> scoring_metric \<Rightarrow> int option \<Rightarrow>
    int list option \<Rightarrow> pystr option \<Rightarrow> board_db \<Rightarrow> board_row list" where
  "leaderboard_rows E md5 mode viewer k mods friends country d =
     map (board_row_of E d k) (take 50 (sort_key (\<lambda>(r, u). - leaderboard_value k r)
       (be_order E (filter (on_board d viewer mods friends country)
          (with_users (bd_scores d) (best_rows (bd_scores d) md5 mode))))))"

definition fetch_beatmap_leaderboard_scores :: "board_env \<Rightarrow> pystr \<Rightarrow> int \<Rightarrow> int \<Rightarrow> scoring_metric \<Rightarrow> int option \<Rightarrow>
    int list option \<Rightarrow> pystr option \<Rightarrow> board_row list lop" where
  "fetch_beatmap_leaderboard_scores E md5 mode viewer k mods friends country =
     reading (be_faults E) (leaderboard_rows E md5 mode viewer k mods friends country)"

definition best_of_player :: "scoring_metric \<Rightarrow> pystr \<Rightarrow> int \<Rightarrow> int \<Rightarrow> sdb \<Rightarrow> score_row option" where
  "best_of_player k md5 mode uid d =
     (case sort_key (\<lambda>r. - leaderboard_value k r) (filter (\<lambda>r. sr_userid r = uid) (best_rows d md5 mode)) of
        [] \<Rightarrow> None | r # _ \<Rightarrow> Some r)"

definition fetch_personal_best_leaderboard_score ::
  "board_env \<Rightarrow> pystr \<Rightarrow> int \<Rightarrow> int \<Rightarrow> scoring_metric \<Rightarrow> score_row option lop" where
  "fetch_personal_best_leaderboard_score E md5 mode uid k =
     reading (be_faults E) (\<lambda>d. best_of_player k md5 mode uid (bd_scores d))"

text \<open>The value that was read is sent back, and compared with what the columns hold.\<close>

definition rank_of :: "scoring_metric \<Rightarrow> pystr \<Rightarrow> int \<Rightarrow> rat \<Rightarrow> sdb \<Rightarrow> nat" where
  "rank_of k md5 mode v d = length (filter (\<lambda>(r, u). leaderboard_value k r > v) (visible_best d md5 mode)) + 1"

definition fetch_personal_best_leaderboard_rank :: "board_env \<Rightarrow> pystr \<Rightarrow> int \<Rightarrow> scoring_metric \<Rightarrow> rat \<Rightarrow> nat lop" where
  "fetch_personal_best_leaderboard_rank E md5 mode k v =
     reading (be_faults E) (\<lambda>d. rank_of k md5 mode v (bd_scores d))"

section \<open>The listing of scores\<close>

definition LB_MODS :: int where "LB_MODS = 2"
definition LB_FRIENDS :: int where "LB_FRIENDS = 3"
definition LB_COUNTRY :: int where "LB_COUNTRY = 4"

text \<open>The rows, and the personal best with its rank.\<close>

record score_listing =
  sl_rows :: "board_row list"
  sl_best :: "(score_row \<times> rat \<times> int \<times> nat) option"

definition fetch_leaderboard_scores :: "board_env \<Rightarrow> int \<Rightarrow> pystr \<Rightarrow> int \<Rightarrow> int \<Rightarrow> board_player \<Rightarrow> scoring_metric \<Rightarrow>
    score_listing lop" where
  "fetch_leaderboard_scores E kind md5 mode mods p k =
     bnd (fetch_beatmap_leaderboard_scores E md5 mode (bq_id p) k
        (if kind = LB_MODS then Some mods else None)
        (if kind = LB_FRIENDS then Some (bq_id p # bq_friends p) else None)
        (if kind = LB_COUNTRY then Some (bq_country p) else None)) (\<lambda>rows.
     if rows = [] then retn \<lparr>sl_rows = [], sl_best = None\<rparr>
     else bnd (fetch_personal_best_leaderboard_score E md5 mode (bq_id p) k) (\<lambda>best. case best of
         None \<Rightarrow> retn \<lparr>sl_rows = rows, sl_best = None\<rparr>
       | Some r \<Rightarrow> bnd (fetch_personal_best_leaderboard_rank E md5 mode k (read_value E k r)) (\<lambda>n.
           retn \<lparr>sl_rows = rows, sl_best = Some (r, read_value E k r, be_seconds E (sr_play_time r), n)\<rparr>)))"

section \<open>The request\<close>

record board_request =
  rq_editor :: bool
  rq_kind :: int
  rq_md5 :: pystr
  rq_filename :: pystr
  rq_mode :: int
  rq_set_id :: int
  rq_mods :: int
  rq_aqn :: bool

datatype board_code = FOUND | NEEDS_UPDATE | NOT_SUBMITTED | NO_LEADERBOARD

text \<open>The map that is found comes with its rating, the listing, and the name the personal best is shown under.\<close>

record board_answer =
  an_code :: board_code
  an_status :: "int option"
  an_map :: "(int \<times> int \<times> pystr \<times> rat) option"
  an_rows :: "board_row list"
  an_best :: "(score_row \<times> rat \<times> int \<times> nat) option"
  an_best_user :: "(int \<times> pystr) option"

definition just_answer :: "board_code \<Rightarrow> board_answer" where
  "just_answer c = \<lparr>an_code = c, an_status = None, an_map = None, an_rows = [], an_best = None, an_best_user = None\<rparr>"

definition note_event :: "board_event \<Rightarrow> unit lop" where
  "note_event e = modify (\<lambda>s. s\<lparr>bs_events := bs_events s @ [e]\<rparr>)"

definition resolve_score_query :: "int \<Rightarrow> int \<Rightarrow> (int \<times> int) result" where
  "resolve_score_query mode mods =
     (let (mode, mods) =
        (if has mods M_RELAX then (if mode = 3 then (mode, drop_mod mods M_RELAX) else (mode + 4, mods))
         else if has mods M_AUTOPILOT then
           (if mode \<in> {1, 2, 3} then (mode, drop_mod mods M_AUTOPILOT) else (mode + 8, mods))
         else (mode, mods))
      in bindE (game_mode_of mode) (\<lambda>m. Inr (m, mods)))"

definition update_player_status :: "board_player \<Rightarrow> int \<Rightarrow> int \<Rightarrow> unit lop" where
  "update_player_status p mode mods = bnd (gets (\<lambda>s. fst (bs_status s (bq_id p)))) (\<lambda>m.
     if mode = m then skip
     else thn (modify (\<lambda>s. s\<lparr>bs_status := (bs_status s)(bq_id p := (mode, mods))\<rparr>))
       (if has (bq_priv p) P_UNRESTRICTED then note_event (Stats_published (bq_id p)) else skip))"

definition add_unsubmitted :: "pystr \<Rightarrow> unit lop" where
  "add_unsubmitted md5 = modify (\<lambda>s. s\<lparr>bs_unsubmitted := insert md5 (bs_unsubmitted s)\<rparr>)"

definition add_needs_update :: "pystr \<Rightarrow> unit lop" where
  "add_needs_update md5 = modify (\<lambda>s. s\<lparr>bs_needs_update := insert md5 (bs_needs_update s)\<rparr>)"

text \<open>Whether the file of the request is that of a known map, by its set if the set is cached.\<close>

definition map_exists :: "board_env \<Rightarrow> board_request \<Rightarrow> bool lop" where
  "map_exists E q =
     (let name = be_unquote E (rq_filename q) in
      if 0 < rq_set_id q then retn (case be_cached_set E (rq_set_id q) of None \<Rightarrow> False | Some names \<Rightarrow> name \<in> set names)
      else reading (be_faults E) (\<lambda>d. name \<in> set (bd_filenames d)))"

definition classify_missing_beatmap :: "board_env \<Rightarrow> board_request \<Rightarrow> board_answer lop" where
  "classify_missing_beatmap E q =
     (if 0 < rq_set_id q \<and> be_cached_set E (rq_set_id q) = None
      then thn (add_unsubmitted (rq_md5 q)) (retn (just_answer NOT_SUBMITTED))
      else bnd (map_exists E q) (\<lambda>e.
        if e then thn (add_needs_update (rq_md5 q)) (retn (just_answer NEEDS_UPDATE))
        else thn (add_unsubmitted (rq_md5 q)) (retn (just_answer NOT_SUBMITTED))))"

definition map_rating_average :: "board_env \<Rightarrow> pystr \<Rightarrow> rat lop" where
  "map_rating_average E md5 = bnd (reading (be_faults E) (\<lambda>d. map snd (filter (\<lambda>r. fst r = md5) (bd_ratings d)))) (\<lambda>rs.
     retn (if rs = [] then 0 else fdiv (fint (sum_list rs)) (fint (int (length rs)))))"

definition personal_best_name :: "board_env \<Rightarrow> board_player \<Rightarrow> pystr lop" where
  "personal_best_name E p = (case bq_clan_id p of
       None \<Rightarrow> retn (bq_name p)
     | Some i \<Rightarrow> bnd (reading (be_faults E) (\<lambda>d. clan_tag_of d i)) (\<lambda>tag. retn (tagged_name tag (bq_name p))))"

definition found_answer :: "board_env \<Rightarrow> board_player \<Rightarrow> board_map \<Rightarrow> score_listing \<Rightarrow> board_answer lop" where
  "found_answer E p b l = bnd (map_rating_average E (bp_md5 b)) (\<lambda>rating.
     bnd (if sl_best l = None then retn None
          else bnd (personal_best_name E p) (\<lambda>n. retn (Some (bq_id p, n)))) (\<lambda>best_user.
     retn \<lparr>an_code = FOUND, an_status = Some (bp_status b),
           an_map = Some (bp_id b, bp_set_id b, bp_name b, rating),
           an_rows = sl_rows l, an_best = sl_best l, an_best_user = best_user\<rparr>))"

text \<open>What the service awaits from code outside the model: the report of a strange occurrence, the fetcher.\<close>

definition awaited :: "board_env \<Rightarrow> 'a \<Rightarrow> 'a lop" where
  "awaited E v = reading (be_faults E) (\<lambda>_. v)"

definition serve_map :: "board_env \<Rightarrow> board_player \<Rightarrow> board_request \<Rightarrow> int \<Rightarrow> int \<Rightarrow> board_map \<Rightarrow> board_answer lop" where
  "serve_map E p q mode mods b = thn (note_event Leaderboard_served)
     (if bp_status b < RS_RANKED
      then retn ((just_answer NO_LEADERBOARD)\<lparr>an_status := Some (bp_status b)\<rparr>)
      else bnd (if rq_editor q then retn \<lparr>sl_rows = [], sl_best = None\<rparr>
           else fetch_leaderboard_scores E (rq_kind q) (bp_md5 b) mode mods p (metric_of_mode mode))
        (found_answer E p b))"

definition fetch_leaderboard :: "board_env \<Rightarrow> board_player \<Rightarrow> board_request \<Rightarrow> board_answer lop" where
  "fetch_leaderboard E p q =
     thn (if rq_aqn q then thn (awaited E ()) (note_event Strange_occurrence) else skip)
     (bnd (gets (\<lambda>s. (rq_md5 q \<in> bs_unsubmitted s, rq_md5 q \<in> bs_needs_update s))) (\<lambda>(unsubmitted, outdated).
      if unsubmitted then retn (just_answer NOT_SUBMITTED)
      else if outdated then retn (just_answer NEEDS_UPDATE)
      else bnd (lift_result (resolve_score_query (rq_mode q) (rq_mods q))) (\<lambda>(mode, mods).
        thn (update_player_status p mode mods)
        (bnd (awaited E (be_fetch E (rq_md5 q) (rq_set_id q))) (\<lambda>found. case found of
           None \<Rightarrow> classify_missing_beatmap E q
         | Some b \<Rightarrow> serve_map E p q mode mods b)))))"

end
