(* ===== verification/Rankings.thy ===== *)
theory Rankings
  imports Boards "HOL-Library.Multiset"
begin

text \<open>
  What a leaderboard shows: the fifty best scores that the viewer may see, a rank that agrees with them, and
  answers about maps that are not known that do not change.
\<close>

section \<open>A found map\<close>

definition board_order_ok :: "board_env \<Rightarrow> bool" where
  "board_order_ok E \<longleftrightarrow> (\<forall>xs. mset (be_order E xs) = mset xs)"

text \<open>A column of type \<^verbatim>\<open>float(7,3)\<close> is read rounded to three decimals.\<close>

definition board_reads_ok :: "board_env \<Rightarrow> bool" where
  "board_reads_ok E \<longleftrightarrow> (\<forall>x. \<exists>n :: int. be_read E x = of_int n / 1000 \<and> \<bar>x - be_read E x\<bar> \<le> 1 / 2000)"

lemma read_grid:
  assumes "board_reads_ok E"
  shows "\<exists>n :: int. be_read E x * 1000 = of_int n" "be_read E x - 1 / 2000 \<le> x" "x \<le> be_read E x + 1 / 2000"
proof -
  obtain n :: int where n: "be_read E x = of_int n / 1000" "\<bar>x - be_read E x\<bar> \<le> 1 / 2000"
    using assms unfolding board_reads_ok_def by blast
  then show "\<exists>n :: int. be_read E x * 1000 = of_int n" by auto
  show "be_read E x - 1 / 2000 \<le> x" "x \<le> be_read E x + 1 / 2000" using n(2) by linarith+
qed

lemma read_apart:
  assumes "board_reads_ok E" "be_read E y < be_read E x"
  shows "be_read E y + 1 / 1000 \<le> be_read E x"
proof -
  obtain m n :: int where mn: "be_read E x * 1000 = of_int m" "be_read E y * 1000 = of_int n"
    using read_grid(1) [OF assms(1)] by metis
  then have "of_int n < (of_int m :: rat)" using assms(2) by linarith
  then have "n + 1 \<le> m" by simp
  then have "of_int (n + 1) \<le> (of_int m :: rat)" by (simp only: of_int_le_iff)
  then show ?thesis using mn by simp
qed

text \<open>Reading keeps the order; a number above what was read for another is read as no less.\<close>

lemma read_mono: "board_reads_ok E \<Longrightarrow> x \<le> y \<Longrightarrow> be_read E x \<le> be_read E y"
  using read_apart [of E y x] read_grid(2) [of E x] read_grid(3) [of E y] read_grid(2) [of E y] read_grid(3) [of E x]
  by (cases "x = y") force+

lemma read_above:
  assumes "board_reads_ok E"
  shows "be_read E y < be_read E x \<Longrightarrow> be_read E y < x" "be_read E y < x \<Longrightarrow> be_read E y \<le> be_read E x"
proof -
  show "be_read E y < x" if "be_read E y < be_read E x"
    using read_apart [OF assms that] read_grid(2) [OF assms, of x] by linarith
  show "be_read E y \<le> be_read E x" if "be_read E y < x"
    using read_apart [OF assms, of x y] read_grid(3) [OF assms, of x] that by (cases "be_read E x < be_read E y") linarith+
qed

lemma read_value_mono:
  "board_reads_ok E \<Longrightarrow> leaderboard_value k r \<le> leaderboard_value k r' \<Longrightarrow> read_value E k r \<le> read_value E k r'"
  by (cases k) (simp_all add: leaderboard_value_def read_value_def read_mono)

lemma read_value_above:
  assumes "board_reads_ok E"
  shows "read_value E k r < read_value E k r' \<Longrightarrow> read_value E k r < leaderboard_value k r'"
    "read_value E k r < leaderboard_value k r' \<Longrightarrow> read_value E k r \<le> read_value E k r'"
  using read_above [OF assms] by (cases k; simp add: leaderboard_value_def read_value_def)+

text \<open>The rows of a request, with the filters of its kind.\<close>

definition rows_for :: "board_env \<Rightarrow> board_player \<Rightarrow> int \<Rightarrow> pystr \<Rightarrow> int \<Rightarrow> int \<Rightarrow> board_db \<Rightarrow> board_row list" where
  "rows_for E p kind md5 mode mods = leaderboard_rows E md5 mode (bq_id p) (metric_of_mode mode)
     (if kind = LB_MODS then Some mods else None)
     (if kind = LB_FRIENDS then Some (bq_id p # bq_friends p) else None)
     (if kind = LB_COUNTRY then Some (bq_country p) else None)"

definition best_for :: "board_env \<Rightarrow> board_player \<Rightarrow> pystr \<Rightarrow> int \<Rightarrow> sdb \<Rightarrow> (score_row \<times> rat \<times> int \<times> nat) option" where
  "best_for E p md5 mode d = map_option (\<lambda>r. (r, read_value E (metric_of_mode mode) r, be_seconds E (sr_play_time r),
      rank_of (metric_of_mode mode) md5 mode (read_value E (metric_of_mode mode) r) d))
     (best_of_player (metric_of_mode mode) md5 mode (bq_id p) d)"

lemma reading_Inr: "reading F f s = (Inr x, s') \<Longrightarrow> x = f (st_db s) \<and> st_db s' = st_db s"
  by (auto simp: reading_def statement_def Let_def split: option.splits)

lemma bnd_InrE:
  assumes "bnd m k s = (Inr x, s')"
  obtains y t where "m s = (Inr y, t)" "k y t = (Inr x, s')"
  using assms by (auto simp: bnd_def split: prod.splits sum.splits)

lemma listing_Inr:
  assumes "fetch_leaderboard_scores E kind md5 mode mods p (metric_of_mode mode) s = (Inr l, s')"
  shows "sl_rows l = rows_for E p kind md5 mode mods (st_db s) \<and>
    sl_best l = (if sl_rows l = [] then None else best_for E p md5 mode (bd_scores (st_db s)))"
proof -
  from assms obtain rows t where rows: "rows = rows_for E p kind md5 mode mods (st_db s)" "st_db t = st_db s"
    and rest: "(if rows = [] then retn \<lparr>sl_rows = [], sl_best = None\<rparr>
     else bnd (fetch_personal_best_leaderboard_score E md5 mode (bq_id p) (metric_of_mode mode)) (\<lambda>best. case best of
         None \<Rightarrow> retn \<lparr>sl_rows = rows, sl_best = None\<rparr>
       | Some r \<Rightarrow> bnd (fetch_personal_best_leaderboard_rank E md5 mode (metric_of_mode mode) (read_value E (metric_of_mode mode) r)) (\<lambda>n.
           retn \<lparr>sl_rows = rows, sl_best = Some (r, read_value E (metric_of_mode mode) r, be_seconds E (sr_play_time r), n)\<rparr>))) t = (Inr l, s')"
    unfolding fetch_leaderboard_scores_def fetch_beatmap_leaderboard_scores_def rows_for_def
    by (elim bnd_InrE) (auto dest: reading_Inr)
  show ?thesis
  proof (cases "rows = []")
    case True
    then show ?thesis using rest rows by (simp add: retn_def) auto
  next
    case False
    then obtain best u where best: "best = best_of_player (metric_of_mode mode) md5 mode (bq_id p) (bd_scores (st_db t))" "st_db u = st_db t"
      and last: "(case best of None \<Rightarrow> retn \<lparr>sl_rows = rows, sl_best = None\<rparr>
       | Some r \<Rightarrow> bnd (fetch_personal_best_leaderboard_rank E md5 mode (metric_of_mode mode) (read_value E (metric_of_mode mode) r)) (\<lambda>n.
           retn \<lparr>sl_rows = rows, sl_best = Some (r, read_value E (metric_of_mode mode) r, be_seconds E (sr_play_time r), n)\<rparr>)) u = (Inr l, s')"
      using rest unfolding fetch_personal_best_leaderboard_score_def by (auto elim!: bnd_InrE dest: reading_Inr)
    show ?thesis
    proof (cases best)
      case None
      then show ?thesis using last best rows False by (simp add: retn_def best_for_def) auto
    next
      case (Some r)
      then show ?thesis
        using last best rows False unfolding fetch_personal_best_leaderboard_rank_def
        by (auto elim!: bnd_InrE dest!: reading_Inr simp: retn_def best_for_def)
    qed
  qed
qed

section \<open>The first fifty\<close>

lemma order_board: "board_order_ok E \<Longrightarrow> mset (be_order E xs) = mset xs"
  by (simp add: board_order_ok_def)

lemma first_above:
  fixes f :: "'a \<Rightarrow> rat"
  assumes "sorted_wrt (\<lambda>a b. f b \<le> f a) zs"
  shows "length (filter (\<lambda>x. v < f x) (take n zs)) = min n (length (filter (\<lambda>x. v < f x) zs))"
  using assms
proof (induction zs arbitrary: n)
  case (Cons z zs)
  show ?case
  proof (cases "v < f z")
    case True
    then show ?thesis using Cons by (cases n) auto
  next
    case False
    then have no: "\<not> v < f x" if "x \<in> set (z # zs)" for x using Cons.prems that by fastforce
    then have "filter (\<lambda>x. v < f x) (z # zs) = []" "filter (\<lambda>x. v < f x) (take n (z # zs)) = []"
      unfolding filter_empty_conv by (blast dest: in_set_takeD)+
    then show ?thesis by (metis list.size(3) min_0R)
  qed
qed simp

text \<open>The first rows of a descending sort are at least as good as the others.\<close>

lemma top_rows:
  fixes f :: "'a \<Rightarrow> rat"
  assumes "ys = take n (sort_key (\<lambda>x. - f x) xs)"
  shows "sorted_wrt (\<lambda>a b. f b \<le> f a) ys" "length ys = min n (length xs)" "mset ys \<subseteq># mset xs"
    "length (filter (\<lambda>x. v < f x) ys) = min n (length (filter (\<lambda>x. v < f x) xs))"
proof -
  let ?zs = "sort_key (\<lambda>x. - f x) xs"
  have s: "sorted_wrt (\<lambda>a b. f b \<le> f a) ?zs"
    using sorted_sort_key [of "\<lambda>x. - f x" xs] by (simp add: sorted_map)
  then show "sorted_wrt (\<lambda>a b. f b \<le> f a) ys" unfolding assms by (rule sorted_wrt_take)
  show "length ys = min n (length xs)" by (simp add: assms)
  have "mset (take n ?zs) \<subseteq># mset ?zs" by (metis append_take_drop_id mset_append mset_subset_eq_add_left)
  then show "mset ys \<subseteq># mset xs" by (simp add: assms)
  from first_above [OF s] have "length (filter (\<lambda>x. v < f x) ys) = min n (length (filter (\<lambda>x. v < f x) ?zs))"
    by (simp add: assms)
  also have "length (filter (\<lambda>x. v < f x) ?zs) = length (filter (\<lambda>x. v < f x) xs)"
    by (metis mset_filter mset_sort size_mset)
  finally show "length (filter (\<lambda>x. v < f x) ys) = min n (length (filter (\<lambda>x. v < f x) xs))" .
qed

text \<open>
  Which scores belong on the board of a request, said of any score and any user: the best of the user on the
  map in the mode, by a user who is not restricted or is the viewer, with the mods of the request, by the viewer
  or a friend, or from the viewer's country, as the kind of the board asks.
\<close>

definition shown_to :: "board_db \<Rightarrow> board_player \<Rightarrow> int \<Rightarrow> pystr \<Rightarrow> int \<Rightarrow> int \<Rightarrow> score_row \<times> db_user \<Rightarrow> bool" where
  "shown_to d p kind md5 mode mods x \<longleftrightarrow> du_id (snd x) = sr_userid (fst x) \<and>
     sr_map_md5 (fst x) = md5 \<and> sr_mode (fst x) = mode \<and> sr_status (fst x) = status_value SS_BEST \<and>
     (has (du_priv (snd x)) P_UNRESTRICTED \<or> du_id (snd x) = bq_id p) \<and>
     (kind = LB_MODS \<longrightarrow> sr_mods (fst x) = mods) \<and>
     (kind = LB_FRIENDS \<longrightarrow> sr_userid (fst x) = bq_id p \<or> sr_userid (fst x) \<in> set (bq_friends p)) \<and>
     (kind = LB_COUNTRY \<longrightarrow> bd_country d (du_id (snd x)) = bq_country p)"

definition candidates :: "board_db \<Rightarrow> board_player \<Rightarrow> int \<Rightarrow> pystr \<Rightarrow> int \<Rightarrow> int \<Rightarrow> (score_row \<times> db_user) list" where
  "candidates d p kind md5 mode mods =
     filter (shown_to d p kind md5 mode mods) (List.product (t_scores (bd_scores d)) (t_users (bd_scores d)))"

lemma shown_on_board:
  "shown_to d p kind md5 mode mods (r, u) \<longleftrightarrow>
     sr_map_md5 r = md5 \<and> sr_status r = status_value SS_BEST \<and> sr_mode r = mode \<and> du_id u = sr_userid r \<and>
     on_board d (bq_id p) (if kind = LB_MODS then Some mods else None)
       (if kind = LB_FRIENDS then Some (bq_id p # bq_friends p) else None)
       (if kind = LB_COUNTRY then Some (bq_country p) else None) (r, u)"
  by (auto simp: shown_to_def on_board_def)

lemma joined_rows:
  "filter (\<lambda>x. R (fst x) \<and> du_id (snd x) = sr_userid (fst x) \<and> P x) (List.product rs (t_users D)) =
     filter P (with_users D (filter R rs))"
  by (induction rs) (simp_all add: with_users_def filter_map o_def filter_filter conj_commute)

lemma candidates_code:
  "candidates d p kind md5 mode mods = filter (on_board d (bq_id p)
     (if kind = LB_MODS then Some mods else None)
     (if kind = LB_FRIENDS then Some (bq_id p # bq_friends p) else None)
     (if kind = LB_COUNTRY then Some (bq_country p) else None))
     (with_users (bd_scores d) (best_rows (bd_scores d) md5 mode))"
  unfolding candidates_def best_rows_def joined_rows [symmetric]
  by (rule filter_cong [OF refl]) (clarsimp simp: shown_on_board)

lemma row_value: "br_value (board_row_of E d k x) = read_value E k (br_score (board_row_of E d k x))"
  "br_score (board_row_of E d k x) = fst x"
  by (cases x; simp add: board_row_of_def)+

lemma top_read:
  assumes "board_reads_ok E" "ys = take n (sort_key (\<lambda>x. - leaderboard_value k (g x)) xs)"
  shows "sorted_wrt (\<lambda>a b. read_value E k (g b) \<le> read_value E k (g a)) ys"
    "length (filter (\<lambda>x. v < read_value E k (g x)) ys) = min n (length (filter (\<lambda>x. v < read_value E k (g x)) xs))"
proof -
  let ?zs = "sort_key (\<lambda>x. - leaderboard_value k (g x)) xs"
  have "sorted_wrt (\<lambda>a b. leaderboard_value k (g b) \<le> leaderboard_value k (g a)) ?zs"
    using sorted_sort_key [of "\<lambda>x. - leaderboard_value k (g x)" xs] by (simp add: sorted_map)
  then have s: "sorted_wrt (\<lambda>a b. read_value E k (g b) \<le> read_value E k (g a)) ?zs"
    by (rule sorted_wrt_mono_rel [rotated]) (rule read_value_mono [OF assms(1)])
  then show "sorted_wrt (\<lambda>a b. read_value E k (g b) \<le> read_value E k (g a)) ys" unfolding assms(2) by (rule sorted_wrt_take)
  show "length (filter (\<lambda>x. v < read_value E k (g x)) ys) = min n (length (filter (\<lambda>x. v < read_value E k (g x)) xs))"
    using first_above [OF s, of v n] unfolding assms(2) by (metis mset_filter mset_sort size_mset)
qed

lemma rows_top:
  assumes "board_order_ok E" "rows = rows_for E p kind md5 mode mods d" "all = candidates d p kind md5 mode mods"
    "k = metric_of_mode mode"
  shows "sorted_wrt (\<lambda>x y. leaderboard_value k (br_score y) \<le> leaderboard_value k (br_score x)) rows"
    "length rows = min 50 (length all)"
    "mset rows \<subseteq># image_mset (board_row_of E d k) (mset all)"
    "length (filter (\<lambda>x. v < leaderboard_value k (br_score x)) rows) =
       min 50 (length (filter (\<lambda>x. v < leaderboard_value k (fst x)) all))"
    "board_reads_ok E \<Longrightarrow> sorted_wrt (\<lambda>x y. br_value y \<le> br_value x) rows"
    "board_reads_ok E \<Longrightarrow> length (filter (\<lambda>x. v < br_value x) rows) =
       min 50 (length (filter (\<lambda>x. v < read_value E k (fst x)) all))"
proof -
  let ?f = "\<lambda>x. leaderboard_value k (fst x)" and ?g = "\<lambda>x. read_value E k (fst x)"
  let ?ys = "take 50 (sort_key (\<lambda>x. - ?f x) (be_order E all))"
  have c: "(\<lambda>(r, u). - leaderboard_value k r) = (\<lambda>x. - ?f x)" by auto
  have rows: "rows = map (board_row_of E d k) ?ys"
    unfolding assms(2,3) rows_for_def leaderboard_rows_def candidates_code assms(4) [symmetric] c ..
  have m: "mset (be_order E all) = mset all" by (rule order_board [OF assms(1)])
  have len: "length (filter P (be_order E all)) = length (filter P all)" for P
    using m by (metis mset_filter size_mset)
  note top = top_rows [OF refl, where n = 50 and f = ?f and xs = "be_order E all"]
  show "sorted_wrt (\<lambda>x y. leaderboard_value k (br_score y) \<le> leaderboard_value k (br_score x)) rows"
    using top(1) by (simp add: rows sorted_wrt_map row_value)
  show "length rows = min 50 (length all)" using top(2) m by (metis rows length_map size_mset)
  have "mset ?ys \<subseteq># mset all" using top(3) m by simp
  then show "mset rows \<subseteq># image_mset (board_row_of E d k) (mset all)"
    by (simp add: rows image_mset_subseteq_mono)
  show "length (filter (\<lambda>x. v < leaderboard_value k (br_score x)) rows) = min 50 (length (filter (\<lambda>x. v < ?f x) all))"
    using top(4) [of v] by (simp add: rows filter_map o_def row_value len)
  assume "board_reads_ok E"
  note read = top_read [OF this refl, where n = 50 and g = fst and xs = "be_order E all" and k = k]
  show "sorted_wrt (\<lambda>x y. br_value y \<le> br_value x) rows"
    using read(1) by (simp add: rows sorted_wrt_map row_value)
  show "length (filter (\<lambda>x. v < br_value x) rows) = min 50 (length (filter (\<lambda>x. v < ?g x) all))"
    using read(2) [of v] by (simp add: rows filter_map o_def row_value len)
qed

text \<open>Without a filter the board of an unrestricted player is that of the first place and the rank.\<close>

lemma candidates_visible:
  assumes "kind \<notin> {LB_MODS, LB_FRIENDS, LB_COUNTRY}"
    "\<And>u. u \<in> set (t_users (bd_scores d)) \<Longrightarrow> du_id u = bq_id p \<Longrightarrow> has (du_priv u) P_UNRESTRICTED"
  shows "candidates d p kind md5 mode mods = visible_best (bd_scores d) md5 mode"
proof -
  have inner: "filter (on_board d (bq_id p) None None None) (map (Pair r) (filter (\<lambda>u. du_id u = sr_userid r) us)) =
      map (Pair r) (filter (\<lambda>u. du_id u = sr_userid r \<and> has (du_priv u) P_UNRESTRICTED) us)"
    if "set us \<subseteq> set (t_users (bd_scores d))" for r us
    using that by (induction us) (auto simp: on_board_def assms(2))
  have "filter (on_board d (bq_id p) None None None) (with_users (bd_scores d) rs) =
      concat (map (\<lambda>r. map (Pair r) (filter (\<lambda>u. du_id u = sr_userid r \<and> has (du_priv u) P_UNRESTRICTED) (t_users (bd_scores d)))) rs)" for rs
    unfolding with_users_def by (induction rs) (simp_all add: inner)
  moreover have "best_rows (bd_scores d) md5 mode =
      filter (\<lambda>r. sr_map_md5 r = md5 \<and> sr_mode r = mode \<and> sr_status r = status_value SS_BEST) (t_scores (bd_scores d))"
    unfolding best_rows_def by (rule filter_cong) auto
  ultimately show ?thesis using assms(1) by (simp add: candidates_code visible_best_def)
qed

section \<open>The answer to a request\<close>

lemma status_keeps_db: "update_player_status p mode mods s = (Inr x, t) \<Longrightarrow> st_db t = st_db s"
  by (auto simp: update_player_status_def note_event_def op_defs split: if_splits)

lemma note_keeps_db: "note_event e s = (Inr x, t) \<Longrightarrow> st_db t = st_db s"
  by (auto simp: note_event_def op_defs)

lemma average_keeps: "map_rating_average E md5 s = (Inr x, t) \<Longrightarrow> st_db t = st_db s"
  unfolding map_rating_average_def by (auto elim!: bnd_InrE dest: reading_Inr simp: retn_def)

lemma awaited_Inr: "awaited E v s = (Inr x, t) \<Longrightarrow> x = v \<and> st_db t = st_db s"
  unfolding awaited_def by (rule reading_Inr)

lemma found_answer_Inr: "found_answer E p b l s = (Inr a, s') \<Longrightarrow> an_rows a = sl_rows l \<and> an_best a = sl_best l"
  unfolding found_answer_def by (elim bnd_InrE) (auto simp: retn_def)

lemma classify_not_found: "classify_missing_beatmap E q s = (Inr a, s') \<Longrightarrow> an_code a \<noteq> FOUND"
  unfolding classify_missing_beatmap_def map_exists_def thn_def
  by (auto elim!: bnd_InrE simp: retn_def just_answer_def split: if_splits)

lemma found_Inr:
  assumes "fetch_leaderboard E p q s = (Inr a, s')" "an_code a = FOUND" "\<not> rq_editor q"
  shows "\<exists>mode mods b. resolve_score_query (rq_mode q) (rq_mods q) = Inr (mode, mods) \<and>
    be_fetch E (rq_md5 q) (rq_set_id q) = Some b \<and> RS_RANKED \<le> bp_status b \<and>
    an_rows a = rows_for E p (rq_kind q) (bp_md5 b) mode mods (st_db s) \<and>
    an_best a = (if an_rows a = [] then None else best_for E p (bp_md5 b) mode (bd_scores (st_db s)))"
proof -
  from assms(1) obtain mode mods t where t: "resolve_score_query (rq_mode q) (rq_mods q) = Inr (mode, mods)" "st_db t = st_db s"
    and rest: "(case be_fetch E (rq_md5 q) (rq_set_id q) of
           None \<Rightarrow> classify_missing_beatmap E q
         | Some b \<Rightarrow> serve_map E p q mode mods b) t = (Inr a, s')"
    unfolding fetch_leaderboard_def thn_def using assms(2)
    by (auto elim!: bnd_InrE split: if_splits
      simp: gets_def retn_def just_answer_def lift_result_def skip_def dest!: status_keeps_db note_keeps_db awaited_Inr)
  then obtain b where b: "be_fetch E (rq_md5 q) (rq_set_id q) = Some b"
    using classify_not_found assms(2) by (cases "be_fetch E (rq_md5 q) (rq_set_id q)") auto
  with rest have ranked: "RS_RANKED \<le> bp_status b" and rest': "thn (note_event Leaderboard_served)
       (bnd (fetch_leaderboard_scores E (rq_kind q) (bp_md5 b) mode mods p (metric_of_mode mode)) (found_answer E p b)) t = (Inr a, s')"
    using assms(2,3) by (auto simp: serve_map_def thn_def bnd_def retn_def just_answer_def split: if_splits prod.splits sum.splits)
  from rest' obtain l v w where l: "st_db v = st_db t"
      "fetch_leaderboard_scores E (rq_kind q) (bp_md5 b) mode mods p (metric_of_mode mode) v = (Inr l, w)"
      "found_answer E p b l w = (Inr a, s')"
    unfolding thn_def by (auto elim!: bnd_InrE dest!: note_keeps_db)
  show ?thesis
    using t(1) b ranked listing_Inr [OF l(2)] found_answer_Inr [OF l(3)] l(1) t(2) by auto
qed

text \<open>C23. The board that is shown for a ranked map is the first fifty, by pp or by score as the mode has it, of the
  best scores of the players who are not restricted, and of the viewer, with the mods, the friends or the
  country asked for: in descending order, of the columns and of the values shown, and above any value there are
  as many rows as there are such scores, up to fifty.
\<close>

theorem leaderboard_is_top_fifty:
  assumes "board_order_ok E" "fetch_leaderboard E p q s = (Inr a, s')" "an_code a = FOUND" "\<not> rq_editor q"
  shows "\<exists>mode mods b. resolve_score_query (rq_mode q) (rq_mods q) = Inr (mode, mods) \<and>
    be_fetch E (rq_md5 q) (rq_set_id q) = Some b \<and> RS_RANKED \<le> bp_status b \<and>
    (let d = st_db s; k = metric_of_mode mode; all = candidates d p (rq_kind q) (bp_md5 b) mode mods in
       sorted_wrt (\<lambda>x y. leaderboard_value k (br_score y) \<le> leaderboard_value k (br_score x)) (an_rows a) \<and>
       mset (an_rows a) \<subseteq># image_mset (board_row_of E d k) (mset all) \<and>
       length (an_rows a) = min 50 (length all) \<and>
       (\<forall>v. length (filter (\<lambda>x. v < leaderboard_value k (br_score x)) (an_rows a)) =
          min 50 (length (filter (\<lambda>x. v < leaderboard_value k (fst x)) all))) \<and>
       (board_reads_ok E \<longrightarrow> sorted_wrt (\<lambda>x y. br_value y \<le> br_value x) (an_rows a) \<and>
          (\<forall>v. length (filter (\<lambda>x. v < br_value x) (an_rows a)) =
             min 50 (length (filter (\<lambda>x. v < read_value E k (fst x)) all)))))"
proof -
  obtain mode mods b where f: "resolve_score_query (rq_mode q) (rq_mods q) = Inr (mode, mods)"
    "be_fetch E (rq_md5 q) (rq_set_id q) = Some b" "RS_RANKED \<le> bp_status b"
    "an_rows a = rows_for E p (rq_kind q) (bp_md5 b) mode mods (st_db s)"
    using found_Inr [OF assms(2-4)] by blast
  show ?thesis using f(1,2,3) rows_top [OF assms(1) f(4) refl refl] unfolding Let_def by blast
qed

text \<open>What the rows of a board show is what was read from their scores.\<close>

lemma shown_values:
  assumes "board_order_ok E" "x \<in> set (rows_for E p kind md5 mode mods d)"
  shows "br_value x = read_value E (metric_of_mode mode) (br_score x)"
proof -
  have "x \<in># image_mset (board_row_of E d (metric_of_mode mode)) (mset (candidates d p kind md5 mode mods))"
    using rows_top(3) [OF assms(1) refl refl refl, THEN mset_subset_eqD] assms(2) by simp
  then show ?thesis by (auto simp: row_value)
qed

lemma fewer_rows: "(\<And>x. x \<in> set xs \<Longrightarrow> P x \<Longrightarrow> Q x) \<Longrightarrow> length (filter P xs) \<le> length (filter Q xs)"
  by (induction xs) (auto intro: le_SucI)

text \<open>C29. On an unfiltered board the rank of a player who is not restricted is one more than the number of scores
  whose column is above the value that was read for the player's best: the rows are as many, up to fifty. On a
  board by score these are the rows shown strictly above the best. On a board by pp, whose columns hold
  single-precision numbers and are read with three decimals, the rank lies between the rows shown strictly
  above and those shown at least as high, the player's own among them.
\<close>

theorem rank_agrees_with_board:
  assumes "board_order_ok E" "board_reads_ok E" "fetch_leaderboard E p q s = (Inr a, s')" "an_code a = FOUND" "\<not> rq_editor q"
    "rq_kind q \<notin> {LB_MODS, LB_FRIENDS, LB_COUNTRY}" "an_best a = Some (r, v, t, rank)"
    "\<And>u. u \<in> set (t_users (bd_scores (st_db s))) \<Longrightarrow> du_id u = bq_id p \<Longrightarrow> has (du_priv u) P_UNRESTRICTED"
  shows "\<exists>mode mods. resolve_score_query (rq_mode q) (rq_mods q) = Inr (mode, mods) \<and>
    (let k = metric_of_mode mode; above = length (filter (\<lambda>x. v < br_value x) (an_rows a)) in
       v = read_value E k r \<and> 1 \<le> rank \<and>
       length (filter (\<lambda>x. v < leaderboard_value k (br_score x)) (an_rows a)) = min 50 (rank - 1) \<and>
       above \<le> rank - 1 \<and> min 50 (rank - 1) \<le> length (filter (\<lambda>x. v \<le> br_value x) (an_rows a)) \<and>
       (k = Metric_score \<longrightarrow> above = min 50 (rank - 1)))"
proof -
  from found_Inr [OF assms(3-5)] obtain mode mods b where
    mode: "resolve_score_query (rq_mode q) (rq_mods q) = Inr (mode, mods)"
    and f: "an_rows a = rows_for E p (rq_kind q) (bp_md5 b) mode mods (st_db s)"
    "an_best a = (if an_rows a = [] then None else best_for E p (bp_md5 b) mode (bd_scores (st_db s)))"
    and "be_fetch E (rq_md5 q) (rq_set_id q) = Some b" by blast
  define k where "k = metric_of_mode mode"
  have c: "candidates (st_db s) p (rq_kind q) (bp_md5 b) mode mods = visible_best (bd_scores (st_db s)) (bp_md5 b) mode"
    by (rule candidates_visible [OF assms(6)]) (rule assms(8))
  have best: "v = read_value E k r \<and> rank = length (filter (\<lambda>(r, u). v < leaderboard_value k r)
      (visible_best (bd_scores (st_db s)) (bp_md5 b) mode)) + 1"
    using f(2) assms(7) unfolding k_def
    by (cases "best_of_player (metric_of_mode mode) (bp_md5 b) mode (bq_id p) (bd_scores (st_db s))")
      (auto simp: best_for_def rank_of_def split: if_splits)
  moreover have "filter (\<lambda>(r, u). v < leaderboard_value k r) xs =
      filter (\<lambda>x. v < leaderboard_value k (fst x)) xs" for xs :: "(score_row \<times> db_user) list"
    by (rule filter_cong) auto
  ultimately have column: "length (filter (\<lambda>x. v < leaderboard_value k (br_score x)) (an_rows a)) = min 50 (rank - 1)"
    using rows_top(4) [OF assms(1) f(1) refl k_def, of v] unfolding c by simp
  have shown: "br_value x = read_value E k (br_score x)" if "x \<in> set (an_rows a)" for x
    using shown_values [OF assms(1)] that unfolding f(1) k_def by blast
  have "length (filter (\<lambda>x. v < br_value x) (an_rows a)) \<le> length (filter (\<lambda>x. v < leaderboard_value k (br_score x)) (an_rows a))"
    by (rule fewer_rows) (use best shown read_value_above(1) [OF assms(2)] in auto)
  moreover have "length (filter (\<lambda>x. v < leaderboard_value k (br_score x)) (an_rows a)) \<le> length (filter (\<lambda>x. v \<le> br_value x) (an_rows a))"
    by (rule fewer_rows) (use best shown read_value_above(2) [OF assms(2)] in auto)
  moreover have "filter (\<lambda>x. v < br_value x) (an_rows a) = filter (\<lambda>x. v < leaderboard_value k (br_score x)) (an_rows a)"
    if "k = Metric_score"
    by (rule filter_cong [OF refl]) (simp add: shown that read_value_def leaderboard_value_def)
  ultimately show ?thesis using mode best column unfolding k_def Let_def by auto
qed

section \<open>Unknown maps\<close>

text \<open>Requests, by whomever, with any outcome.\<close>

inductive board_run :: "boards \<Rightarrow> boards \<Rightarrow> bool" where
  start: "board_run s s"
| request: "board_run s t \<Longrightarrow> fetch_leaderboard E p q t = (r, u) \<Longrightarrow> board_run s u"

text \<open>What is cached stays so, and no MD5 is in both caches.\<close>

definition settled :: "pystr set \<Rightarrow> pystr set \<Rightarrow> boards \<Rightarrow> bool" where
  "settled A B s \<longleftrightarrow> A \<subseteq> bs_unsubmitted s \<and> B \<subseteq> bs_needs_update s \<and> bs_unsubmitted s \<inter> bs_needs_update s = {}"

lemma settled_reading: "keeps (settled A B) (reading F f)"
  unfolding keeps_triple by (rule triple_reading) (auto simp: settled_def)

lemma settled_note: "keeps (settled A B) (note_event e)"
  unfolding note_event_def by (rule keeps_modify) (simp add: settled_def)

lemma settled_status: "keeps (settled A B) (update_player_status p mode mods)"
  unfolding update_player_status_def
  by (intro keeps_bnd keeps_gets keeps_if keeps_thn keeps_skip keeps_modify settled_note) (simp add: settled_def)

lemmas settled_intros = keeps_bnd keeps_thn keeps_if keeps_option keeps_retn keeps_gets keeps_lift keeps_skip
  settled_reading settled_note settled_status

definition fresh_md5 :: "pystr \<Rightarrow> boards \<Rightarrow> bool" where
  "fresh_md5 md5 s \<longleftrightarrow> md5 \<notin> bs_unsubmitted s \<and> md5 \<notin> bs_needs_update s"

lemma fresh_reading: "keeps (\<lambda>s. settled A B s \<and> fresh_md5 md5 s) (reading F f)"
  unfolding keeps_triple by (rule triple_reading) (auto simp: settled_def fresh_md5_def)

lemma settled_classify:
  "triple (\<lambda>s. settled A B s \<and> fresh_md5 (rq_md5 q) s) (classify_missing_beatmap E q) (\<lambda>_. settled A B) (settled A B)"
proof -
  let ?P = "\<lambda>s. settled A B s \<and> fresh_md5 (rq_md5 q) s"
  have u: "triple ?P (thn (add_unsubmitted (rq_md5 q)) (retn x)) (\<lambda>_. settled A B) (settled A B)" for x :: board_answer
    unfolding add_unsubmitted_def
    by (rule triple_thn [where R = "settled A B"], rule triple_modify) (auto simp: settled_def fresh_md5_def intro: triple_retn)
  have n: "triple ?P (thn (add_needs_update (rq_md5 q)) (retn x)) (\<lambda>_. settled A B) (settled A B)" for x :: board_answer
    unfolding add_needs_update_def
    by (rule triple_thn [where R = "settled A B"], rule triple_modify) (auto simp: settled_def fresh_md5_def intro: triple_retn)
  have "keeps ?P (map_exists E q)"
    unfolding map_exists_def Let_def by (intro keeps_if keeps_retn fresh_reading)
  then have m: "triple ?P (map_exists E q) (\<lambda>_. ?P) (settled A B)"
    unfolding keeps_triple by (rule triple_conseq) auto
  show ?thesis
    unfolding classify_missing_beatmap_def by (intro triple_if u triple_bnd [OF m] n)
qed

lemma settled_serve: "keeps (settled A B) (serve_map E p q mode mods b)"
  unfolding serve_map_def fetch_leaderboard_scores_def fetch_beatmap_leaderboard_scores_def fetch_personal_best_leaderboard_score_def
    fetch_personal_best_leaderboard_rank_def found_answer_def map_rating_average_def personal_best_name_def
  by (intro settled_intros)

lemma settled_request: "keeps (settled A B) (fetch_leaderboard E p q)"
proof -
  let ?P = "\<lambda>s. settled A B s \<and> fresh_md5 (rq_md5 q) s"
  let ?found = "\<lambda>mode mods found. case found of None \<Rightarrow> classify_missing_beatmap E q | Some b \<Rightarrow> serve_map E p q mode mods b"
  have "keeps ?P (update_player_status p mode mods)" for mode mods
    unfolding update_player_status_def note_event_def
    by (intro keeps_bnd keeps_gets keeps_if keeps_thn keeps_skip keeps_modify) (auto simp: settled_def fresh_md5_def)
  then have st: "triple ?P (update_player_status p mode mods) (\<lambda>_. ?P) (settled A B)" for mode mods
    unfolding keeps_triple by (rule triple_conseq) auto
  have aw: "triple ?P (awaited E v) (\<lambda>_. ?P) (settled A B)" for v :: "board_map option"
    using fresh_reading [of A B "rq_md5 q"] unfolding awaited_def keeps_triple by (rule triple_conseq) auto
  have "triple ?P (serve_map E p q mode mods b) (\<lambda>_. settled A B) (settled A B)" for mode mods b
    using settled_serve unfolding keeps_triple by (rule triple_conseq) auto
  then have found: "triple ?P (?found mode mods found) (\<lambda>_. settled A B) (settled A B)" for mode mods found
    by (cases found) (simp_all only: option.case settled_classify)
  have rest: "triple ?P (bnd (lift_result (resolve_score_query (rq_mode q) (rq_mods q))) (\<lambda>(mode, mods).
      thn (update_player_status p mode mods) (bnd (awaited E (be_fetch E (rq_md5 q) (rq_set_id q))) (?found mode mods))))
      (\<lambda>_. settled A B) (settled A B)"
  proof (rule triple_bnd [where R = "\<lambda>_. ?P"])
    show "triple ?P (lift_result (resolve_score_query (rq_mode q) (rq_mods q))) (\<lambda>_. ?P) (settled A B)"
      by (rule triple_lift) auto
    show "triple ?P (case x of (mode, mods) \<Rightarrow> thn (update_player_status p mode mods)
        (bnd (awaited E (be_fetch E (rq_md5 q) (rq_set_id q))) (?found mode mods))) (\<lambda>_. settled A B) (settled A B)" for x
      unfolding case_prod_beta by (rule triple_thn [OF st triple_bnd [OF aw found]])
  qed
  have "keeps (settled A B) (bnd (gets (\<lambda>s. (rq_md5 q \<in> bs_unsubmitted s, rq_md5 q \<in> bs_needs_update s))) (\<lambda>(unsubmitted, outdated).
      if unsubmitted then retn (just_answer NOT_SUBMITTED)
      else if outdated then retn (just_answer NEEDS_UPDATE)
      else bnd (lift_result (resolve_score_query (rq_mode q) (rq_mods q))) (\<lambda>(mode, mods).
        thn (update_player_status p mode mods) (bnd (awaited E (be_fetch E (rq_md5 q) (rq_set_id q))) (?found mode mods)))))"
    unfolding keeps_triple
    by (rule triple_gets_bnd, clarify, intro triple_if triple_conseq [OF rest])
      (auto simp: fresh_md5_def intro: triple_retn)
  then show ?thesis
    unfolding fetch_leaderboard_def
    by (intro keeps_thn keeps_if settled_note keeps_skip) (simp_all add: awaited_def settled_reading)
qed

lemma settled_run: "board_run s t \<Longrightarrow> settled A B s \<Longrightarrow> settled A B t"
  by (induction rule: board_run.induct) (auto intro: keepsD [OF settled_request])

lemma found_answer_code: "found_answer E p b l s = (Inr a, t) \<Longrightarrow> an_code a = FOUND"
  unfolding found_answer_def by (elim bnd_InrE) (auto simp: retn_def)

lemma serve_map_code: "serve_map E p q mode mods b s = (Inr a, t) \<Longrightarrow> an_code a \<notin> {NOT_SUBMITTED, NEEDS_UPDATE}"
  unfolding serve_map_def thn_def
  by (auto elim!: bnd_InrE split: if_splits dest!: found_answer_code simp: retn_def just_answer_def)

lemma classified: "classify_missing_beatmap E q s = (Inr a, t) \<Longrightarrow>
    (an_code a = NOT_SUBMITTED \<longrightarrow> rq_md5 q \<in> bs_unsubmitted t) \<and> (an_code a = NEEDS_UPDATE \<longrightarrow> rq_md5 q \<in> bs_needs_update t)"
  unfolding classify_missing_beatmap_def map_exists_def thn_def add_unsubmitted_def add_needs_update_def
  by (auto elim!: bnd_InrE simp: retn_def just_answer_def modify_def split: if_splits)

lemma answer_cached: "fetch_leaderboard E p q s = (Inr a, t) \<Longrightarrow>
    (an_code a = NOT_SUBMITTED \<longrightarrow> rq_md5 q \<in> bs_unsubmitted t) \<and> (an_code a = NEEDS_UPDATE \<longrightarrow> rq_md5 q \<in> bs_needs_update t)"
  unfolding fetch_leaderboard_def thn_def
  by (auto elim!: bnd_InrE split: if_splits option.splits dest!: classified serve_map_code
    simp: gets_def retn_def just_answer_def lift_result_def skip_def)

text \<open>A map that is recorded is answered from the record; only the report can fail.\<close>

lemma cached_again:
  assumes "rq_md5 q \<in> bs_unsubmitted u \<or> rq_md5 q \<in> bs_needs_update u"
  shows "case fst (fetch_leaderboard E p q u) of Inl _ \<Rightarrow> rq_aqn q
    | Inr a \<Rightarrow> an_code a = (if rq_md5 q \<in> bs_unsubmitted u then NOT_SUBMITTED else NEEDS_UPDATE)"
proof -
  have "bs_unsubmitted v = bs_unsubmitted u \<and> bs_needs_update v = bs_needs_update u"
    if "awaited E () u = (x, v)" for x v
    using that by (auto simp: awaited_def reading_def statement_def Let_def split: option.splits)
  then show ?thesis
    using assms by (cases "awaited E () u"; cases "fst (awaited E () u)")
      (auto simp: fetch_leaderboard_def note_event_def just_answer_def op_defs)
qed

text \<open>C30. An answer that a map is not submitted, or needs an update, is final: whatever is asked afterwards, by
  whomever, a request for the map is answered the same, unless the report of a strange occurrence that is
  awaited first fails, and no map is ever recorded as both.
\<close>

theorem unknown_map_answer_stays:
  assumes "bs_unsubmitted s \<inter> bs_needs_update s = {}" "fetch_leaderboard E p q s = (Inr a, t)"
    "an_code a \<in> {NOT_SUBMITTED, NEEDS_UPDATE}" "board_run t u" "rq_md5 q' = rq_md5 q"
  shows "bs_unsubmitted u \<inter> bs_needs_update u = {} \<and>
    (case fst (fetch_leaderboard E' p' q' u) of Inr a' \<Rightarrow> an_code a' = an_code a | Inl _ \<Rightarrow> rq_aqn q')"
proof -
  have "settled {} {} s" using assms(1) by (simp add: settled_def)
  then have "settled {} {} t" using settled_request keepsD assms(2) by (metis snd_conv)
  then have "settled (if an_code a = NOT_SUBMITTED then {rq_md5 q} else {})
      (if an_code a = NEEDS_UPDATE then {rq_md5 q} else {}) t"
    using answer_cached [OF assms(2)] by (auto simp: settled_def)
  from settled_run [OF assms(4) this] have u: "bs_unsubmitted u \<inter> bs_needs_update u = {}"
    "an_code a = NOT_SUBMITTED \<longrightarrow> rq_md5 q' \<in> bs_unsubmitted u" "an_code a = NEEDS_UPDATE \<longrightarrow> rq_md5 q' \<in> bs_needs_update u"
    by (auto simp: settled_def assms(5) split: if_splits)
  then show ?thesis
    using assms(3) cached_again [of q' u E' p'] by (auto split: sum.splits if_splits)
qed

section \<open>A concrete board\<close>

definition trial_best :: "int \<Rightarrow> int \<Rightarrow> int \<Rightarrow> score_row" where
  "trial_best i uid points = \<lparr>sr_id = i, sr_map_md5 = [109], sr_score = points, sr_pp = 0, sr_acc = 100, sr_max_combo = 1,
     sr_mods = 0, sr_n300 = 1, sr_n100 = 0, sr_n50 = 0, sr_nmiss = 0, sr_ngeki = 0, sr_nkatu = 0, sr_grade = [88],
     sr_status = status_value SS_BEST, sr_mode = 0, sr_play_time = ((2024, 1, 1), (0, 0, 0)), sr_time_elapsed = 0,
     sr_client_flags = 0, sr_userid = uid, sr_perfect = 1, sr_checksum = [nat i], sr_pp_aim = None, sr_pp_speed = None,
     sr_pp_flashlight = None\<rparr>"

text \<open>Three players; the second is restricted.\<close>

definition trial_boards :: boards where
  "trial_boards = \<lparr>st_db = \<lparr>bd_scores = \<lparr>t_scores = [trial_best 1 3 100, trial_best 2 4 300, trial_best 3 5 200], t_next_score = 4,
       t_stats = (\<lambda>_. None), t_maps = [], t_users = [\<lparr>du_id = 3, du_name = [97], du_priv = 3\<rparr>, \<lparr>du_id = 4, du_name = [98], du_priv = 2\<rparr>,
         \<lparr>du_id = 5, du_name = [99], du_priv = 3\<rparr>], t_achievements = [], t_user_achievements = []\<rparr>,
       bd_country = (\<lambda>_. []), bd_clan = (\<lambda>_. 0), bd_clans = [], bd_filenames = [], bd_ratings = []\<rparr>, st_tick = 0,
     bs_unsubmitted = {}, bs_needs_update = {}, bs_status = (\<lambda>_. (0, 0)), bs_events = []\<rparr>"

definition trial_board_env :: board_env where
  "trial_board_env = \<lparr>be_faults = (\<lambda>_. None), be_order = (\<lambda>xs. xs), be_read = (\<lambda>x. of_int (round (x * 1000)) / 1000),
     be_seconds = (\<lambda>_. 0), be_unquote = (\<lambda>t. t),
     be_fetch = (\<lambda>md5 _. if md5 = [109] then Some \<lparr>bp_md5 = [109], bp_status = RS_RANKED, bp_id = 1, bp_set_id = 1, bp_name = []\<rparr> else None),
     be_cached_set = (\<lambda>_. None)\<rparr>"

definition trial_viewer :: board_player where
  "trial_viewer = \<lparr>bq_id = 3, bq_name = [97], bq_priv = 3, bq_friends = [], bq_country = [], bq_clan_id = None\<rparr>"

definition trial_request :: "pystr \<Rightarrow> board_request" where
  "trial_request md5 = \<lparr>rq_editor = False, rq_kind = 1, rq_md5 = md5, rq_filename = [], rq_mode = 0, rq_set_id = 0, rq_mods = 0, rq_aqn = False\<rparr>"

text \<open>A relax score worth 0.1 pp, as a single-precision column holds it.\<close>

definition tenth :: rat where
  "tenth = 13421773 / 134217728"

definition trial_relax :: boards where
  "trial_relax = trial_boards\<lparr>st_db := (st_db trial_boards)\<lparr>bd_scores := (bd_scores (st_db trial_boards))
     \<lparr>t_scores := [(trial_best 4 3 100)\<lparr>sr_mode := 4, sr_pp := tenth\<rparr>]\<rparr>\<rparr>\<rparr>"

definition trial_run :: "pystr \<Rightarrow> (exn + board_answer) \<times> boards" where
  "trial_run md5 = fetch_leaderboard trial_board_env trial_viewer (trial_request md5) trial_boards"

definition trial_answer :: "pystr \<Rightarrow> board_answer" where
  "trial_answer md5 = (case fst (trial_run md5) of Inr a \<Rightarrow> a | Inl _ \<Rightarrow> just_answer NO_LEADERBOARD)"

lemma trial_board:
  "map br_userid (an_rows (trial_answer [109])) = [5, 3]" "an_code (trial_answer [109]) = FOUND"
  "map_option (\<lambda>(r, v, t, n). (v, n)) (an_best (trial_answer [109])) = Some (100, 2)"
  "an_code (trial_answer [110]) = NOT_SUBMITTED"
  by code_simp+

lemma trial_answered: "an_code (trial_answer md5) \<noteq> NO_LEADERBOARD \<Longrightarrow>
    fetch_leaderboard trial_board_env trial_viewer (trial_request md5) trial_boards = (Inr (trial_answer md5), snd (trial_run md5))"
  by (cases "trial_run md5"; cases "fst (trial_run md5)") (simp_all add: trial_answer_def trial_run_def just_answer_def)

text \<open>On a board by pp the only score of the only player has rank 2: its column is above the 0.1 it is read as.\<close>

lemma own_score_counted:
  "map_sum id (\<lambda>a. (map br_value (an_rows a), map_option (\<lambda>(r, v, t, n). (v, n)) (an_best a)))
     (fst (fetch_leaderboard trial_board_env trial_viewer ((trial_request [109])\<lparr>rq_mods := M_RELAX\<rparr>) trial_relax)) =
   Inr ([1 / 10], Some (1 / 10, 2))"
  by code_simp

lemma trial_board_order: "board_order_ok trial_board_env" "\<not> rq_editor (trial_request md5)"
  by (simp_all add: board_order_ok_def trial_board_env_def trial_request_def)

lemma trial_board_reads: "board_reads_ok trial_board_env"
proof -
  have "\<bar>x - of_int (round (x * 1000)) / 1000\<bar> \<le> 1 / 2000" for x :: rat
    using of_int_round_abs_le [of "x * 1000"] by linarith
  then show ?thesis unfolding board_reads_ok_def trial_board_env_def by auto
qed

lemma leaderboard_is_top_fifty_witness:
  "map br_userid (an_rows (trial_answer [109])) = [5, 3] \<and>
   sorted_wrt (\<lambda>x y. br_value y \<le> br_value x) (an_rows (trial_answer [109]))"
  using leaderboard_is_top_fifty [OF trial_board_order(1) trial_answered trial_board(2) trial_board_order(2)]
    trial_board(1,2) trial_board_reads
  by (auto simp: Let_def)

lemma rank_agrees_with_board_witness:
  "length (filter (\<lambda>x. 100 < br_value x) (an_rows (trial_answer [109]))) = 1"
proof -
  obtain r t where b: "an_best (trial_answer [109]) = Some (r, 100, t, 2)" using trial_board(3) by auto
  have "has (du_priv u) P_UNRESTRICTED" if "u \<in> set (t_users (bd_scores (st_db trial_boards)))" "du_id u = bq_id trial_viewer" for u
    using that by (auto simp: trial_boards_def trial_viewer_def has_def P_UNRESTRICTED_def)
  moreover have "rq_kind (trial_request [109]) \<notin> {LB_MODS, LB_FRIENDS, LB_COUNTRY}"
    by (simp add: trial_request_def LB_MODS_def LB_FRIENDS_def LB_COUNTRY_def)
  moreover have "resolve_score_query (rq_mode (trial_request [109])) (rq_mods (trial_request [109])) = Inr (0, 0)"
    by code_simp
  ultimately show ?thesis
    using rank_agrees_with_board [OF trial_board_order(1) trial_board_reads trial_answered trial_board(2) trial_board_order(2) _ b]
      trial_board(2) by (auto simp: Let_def metric_of_mode_def)
qed

lemma unknown_map_answer_stays_witness:
  "\<exists>a. fst (fetch_leaderboard trial_board_env trial_viewer (trial_request [110]) (snd (trial_run [110]))) = Inr a \<and>
     an_code a = NOT_SUBMITTED"
proof -
  have "bs_unsubmitted trial_boards \<inter> bs_needs_update trial_boards = {}" by (simp add: trial_boards_def)
  moreover have "fetch_leaderboard trial_board_env trial_viewer (trial_request [110]) trial_boards =
      (Inr (trial_answer [110]), snd (trial_run [110]))"
    by (rule trial_answered) (simp add: trial_board(4))
  moreover have "an_code (trial_answer [110]) \<in> {NOT_SUBMITTED, NEEDS_UPDATE}" by (simp add: trial_board(4))
  ultimately have "case fst (fetch_leaderboard trial_board_env trial_viewer (trial_request [110]) (snd (trial_run [110]))) of
      Inr a \<Rightarrow> an_code a = an_code (trial_answer [110]) | Inl _ \<Rightarrow> rq_aqn (trial_request [110])"
    by (rule unknown_map_answer_stays [OF _ _ _ board_run.start refl, THEN conjunct2])
  then show ?thesis by (simp add: trial_board(4) trial_request_def split: sum.splits)
qed

end
