(* ===== verification/Spec2Isabelle.thy ===== *)
theory Spec2Isabelle
  imports Access Tally Submitted Exported Hosting_Trial Records Membership Picks Rankings
begin

text \<open>
  A verification development of \<^verbatim>\<open>Prism\<close>, an osu! server (a fork of
  \<^verbatim>\<open>bancho.py\<close>). All paths are those of the repository.

  \<^bold>\<open>The program.\<close> A client logs in and then posts binary packets to
  \<^verbatim>\<open>app/api/domains/cho.py\<close>; a request is answered with what its handlers and the requests of
  the others have queued for the player. The handlers work on objects held in memory
  (\<^verbatim>\<open>app/state/sessions.py\<close>: channels, matches, players; \<^verbatim>\<open>app/objects\<close>). Scores arrive by
  another route and go through \<^verbatim>\<open>app/services/score_submission.py\<close>, which writes the database,
  the replay file and the statistics in memory; \<^verbatim>\<open>app/services/replays.py\<close> serves the replays
  with a header of the \<^verbatim>\<open>.osr\<close> format. Players can also upload beatmap sets:
  \<^verbatim>\<open>app/services/beatmap_submissions.py\<close> checks the archive, rewrites its files, stores them
  and the rows of the set, and lets the staff or nominators review it; the client is later served
  these files by \<^verbatim>\<open>app/services/private_beatmap_files.py\<close>.

  \<^bold>\<open>How the model is built.\<close> Python's \<open>int\<close> is \<open>int\<close>; where a
  width matters it is written out (\<open>mod\<close> in the readers and writers). A \<open>float\<close> is the rational
  number it denotes, each operation rounded to the nearest double (\<open>fl\<close>); where text can give an
  infinity or NaN the type is \<open>pyfloat\<close>. A raise is a value of \<open>exn\<close>, and an
  operation that may raise gives \<open>exn + 'a\<close>. Stateful code is a function from the state to a
  result and the next state: what was changed before a raise stays changed, as in the code, unless
  the code rolls it back. An object is named by its key (the number of a player, the name
  of a channel, the id of a match), so two references to one object are one key. Every definition
  is executable, up to its parameters.

  \<^bold>\<open>The shared part.\<close>
  \<^item> \<open>Prelude\<close>: exceptions, results, the state-and-exception operations
    (\<open>retn\<close>, \<open>raise\<close>, \<open>bnd\<close>, \<open>foreach\<close>) with their rules, the notions
    \<open>keeps\<close> (an invariant survives, returning or raising) and \<open>triple\<close> (a postcondition for each
    outcome), Python's lists.
  \<^item> \<open>Constants\<close>: \<^verbatim>\<open>app/constants/*.py\<close>, the enumerations of \<^verbatim>\<open>app/objects/match.py\<close> and
    \<^verbatim>\<open>app/objects/player.py\<close>.
  \<^item> \<open>Floats\<close>, \<open>Decimal\<close>: doubles, rounding, and the parsing of decimal text to a double.
  \<^item> \<open>Mods\<close>: \<^verbatim>\<open>app/constants/mods.py\<close>, \<^verbatim>\<open>app/constants/gamemodes.py\<close>.

  \<^bold>\<open>The wire protocol\<close> (\<^verbatim>\<open>app/packets.py\<close>).
  \<^item> \<open>Wire\<close>: integers, ULEB128, UTF-8, strings; the locale \<open>wire_format\<close> states what a pair of a
    reader and a writer promises (reading back gives the value and leaves the rest) and proves that it
    carries over to a sequence; every primitive format is an interpretation.
  \<^item> \<open>Packets\<close>: the composite readers and writers, the frame decoder and the packet iterator.
  \<^item> \<open>ServerPackets\<close>: every packet the server sends, as bytes.
  \<^item> \<open>Codec\<close>: the properties: round trips of strings, matches, messages, score frames and lists, what the
    iterator skips, the agreement of the two frame decoders, the bounds of an accuracy.

  \<^bold>\<open>The sessions.\<close>
  \<^item> \<open>Server\<close>: the state (\<open>server\<close>): the tables of \<^verbatim>\<open>app/state/sessions.py\<close> and
    \<^verbatim>\<open>app/objects/collections.py\<close>, the objects of \<^verbatim>\<open>player.py\<close>, \<^verbatim>\<open>match.py\<close>,
    \<^verbatim>\<open>channel.py\<close>, and their small operations.
  \<^item> \<open>Multiplayer\<close>: membership: joining and leaving channels, matches and spectators, logout.
  \<^item> \<open>Login\<close>: the login request. \<open>Handlers\<close>: the handler of every packet and the request that
    dispatches them (\<open>bancho_request\<close> and its loop \<open>process\<close>).
  \<^item> \<open>Reach\<close>: the housekeeping of \<^verbatim>\<open>app/bg_loops.py\<close> and the steps of the server as an inductive
    relation (\<open>reachable\<close>). \<open>Sessions\<close>: every handler preserves the invariant of the sessions.
  \<^item> \<open>Invariants\<close>, \<open>Preserve\<close>, \<open>Quiet\<close>, \<open>Total\<close>, \<open>Delivery\<close>,
    \<open>Outcomes\<close>: what operations preserve (\<open>wfs\<close>, \<open>links\<close>, \<open>core\<close>), which cannot raise, who
    receives what they send, and what the match operations achieve.
  \<^item> \<open>Seats\<close>, \<open>Talk\<close>, \<open>Lifecycle\<close>, \<open>Requests\<close>, \<open>Rules\<close>, \<open>Access\<close>,
    \<open>Identity\<close>: the properties of matches, chat, the life of a session, the request loop, the pure
    parts, authentication and privileges. \<open>Demo\<close> is the concrete server of their witnesses.
    In \<open>Identity\<close> the locale \<open>framed\<close> is the contract of an invariant that the primitive updates of
    a request keep; what every handler does is proved once under it, and it is interpreted for each
    such invariant.

  \<^bold>\<open>The chat commands\<close> (\<^verbatim>\<open>app/commands.py\<close>).
  \<^item> \<open>Commands\<close>: the commands of a match (\<^verbatim>\<open>!mp\<close>), with the timers they start. \<open>Scrims\<close>: the task of
    \<^verbatim>\<open>app/objects/match.py\<close> that waits for the scores of a game (twenty-one waits at most, the
    ten seconds of the code) and awards the point. \<open>Moderation\<close>: the commands on players, the tables
    of commands and the dispatch (\<open>process_commands\<close>); \<open>with_commands\<close> closes the loop with the handlers.
  \<^item> \<open>Commanded\<close>: the locale \<open>undisturbed\<close>, an invariant that every operation a command is made of
    keeps, and that every command then keeps; its interpretation for the invariant of the sessions.
  \<^item> \<open>Authority\<close>: the states of a server with its own commands (\<open>live\<close>: requests, logins, housekeeping,
    timers that fall due, scores that arrive, in any order), their consistency, and what a request may
    do to the standing of a player. \<open>Tally\<close>: the points of a scrim.

  \<^bold>\<open>Scores and replays.\<close>
  \<^item> \<open>Scores\<close>: \<^verbatim>\<open>app/objects/score.py\<close>. \<open>Submission\<close>:
    \<^verbatim>\<open>app/services/score_submission.py\<close> with the repositories it uses
    (\<^verbatim>\<open>app/repositories/scores.py\<close>, \<^verbatim>\<open>stats.py\<close>, \<^verbatim>\<open>maps.py\<close>) as functions on lists of rows. A
    transaction keeps the tables it started from and restores them when its body raises, is
    cancelled or the process dies.
  \<^item> \<open>Ledger\<close>, \<open>Booking\<close>, \<open>Replays\<close>: the invariant of the tables and the statistics, the whole way of a
    submission, the replay on disk. \<open>Submitted\<close> holds the properties, \<open>Sample\<close> a concrete submission.
  \<^item> \<open>Osr\<close>: \<^verbatim>\<open>app/adapters/osr_replay.py\<close>, \<^verbatim>\<open>app/services/replays.py\<close>,
    \<^verbatim>\<open>app/services/visibility.py\<close>; \<open>Exported\<close>: what is exported is read back.

  \<^bold>\<open>Uploaded beatmaps.\<close>
  \<^item> \<open>OsuFile\<close>: \<^verbatim>\<open>app/adapters/osu_beatmap_file.py\<close>; \<open>Rewriting\<close>: a file with its identity
    rewritten parses as before but for the identity.
  \<^item> \<open>Osz\<close>: \<^verbatim>\<open>app/adapters/osz_archive.py\<close>. \<open>Hosting\<close>: the tables, files and cache, with the operations of
    \<^verbatim>\<open>app/repositories/map_submissions.py\<close>, \<^verbatim>\<open>map_id_sequence.py\<close>, \<^verbatim>\<open>maps.py\<close>,
    \<^verbatim>\<open>mapsets.py\<close> the service calls. \<open>Uploads\<close>: the service, and histories of its operations
    (\<open>host_run\<close>), each with any schedule of failures.
  \<^item> \<open>Hosted\<close>, \<open>Kept\<close>: in every history a status above pending was given by somebody allowed to, and every
    hosted map keeps its file. \<open>Hosting_Trial\<close>: a concrete history.

  \<^bold>\<open>Services whose state is in the database.\<close>
  \<^item> \<open>Tables\<close>: a table as its rows with the next id, the statements of a repository, each of which may fail
    (\<open>statement\<close>), a transaction (\<open>db_transaction\<close>): \<^verbatim>\<open>app/adapters/database.py\<close> as the services see it.
  \<^item> \<open>History\<close>: the history of multiplayer matches: \<^verbatim>\<open>app/repositories/mp_matches.py\<close>, the producers
    (\<^verbatim>\<open>app/services/multiplayer/match_history.py\<close>) and the reader
    (\<^verbatim>\<open>match_history_reader.py\<close>). \<open>Records\<close>: the locale \<open>match_store_contract\<close>, what the producers need of
    the statements they are given, interpreted for the repository; in every history of matches opened, played and
    closed the rows refer to each other, a private match is not disclosed, scrolling shows every public match,
    and a scoreboard is ranked.
  \<^item> \<open>Clans\<close>: \<^verbatim>\<open>app/services/clans.py\<close>, \<^verbatim>\<open>app/repositories/clans.py\<close> and the columns of
    \<^verbatim>\<open>users.py\<close> it uses, with the clan that online sessions cache. \<open>ClanChat\<close>: the commands \<^verbatim>\<open>!clan\<close> over this service, and
    what they hand to the sessions (\<open>clan_effects\<close>, an instance of the parameter \<open>cx_clan\<close>). \<open>Membership\<close>: what each operation does,
    whatever fails, and the histories of clans (\<open>clan_history\<close>): every clan has one owner, the cache agrees
    with the rows, an operation that raises changes nothing.
  \<^item> \<open>Pools\<close>: the mappools: \<^verbatim>\<open>app/services/tourney_pools.py\<close>, its two repositories, and the
    commands \<^verbatim>\<open>!pool\<close> (\<open>pool_chat\<close>). \<open>Picks\<close>: in every history of these commands names and picks are
    unique, up to fifty maps in a pool, and an added pick is found.
  \<^item> \<open>Boards\<close>: the leaderboard the client asks for: \<^verbatim>\<open>app/services/beatmap_leaderboards.py\<close>,
    \<^verbatim>\<open>app/services/score_leaderboards.py\<close> and the queries of \<^verbatim>\<open>app/repositories/scores.py\<close>
    they send, over the scores and users of \<open>Submission\<close>, with the two caches of MD5s that are not known.
    \<open>Rankings\<close>: the board is the first fifty of the scores that belong on it (\<open>candidates\<close>, a
    specification that does not mention the query), the rank agrees with it, and in every sequence of requests
    (\<open>board_run\<close>) an answer about an unknown map stays.

  \<^bold>\<open>Parameters.\<close> Code outside the repository, or outside the model, is a field of a record the
  operations take: \<open>ext\<close> (the beatmap lookups of the handlers, the now-playing
  pattern and its reply, the users table, and a place for the commands), \<open>cmd_ext\<close> (\<open>ext\<close> with what the
  commands ask: random numbers, \<^verbatim>\<open>pytimeparse\<close>, the mappools by name and pick, the clans and
  the texts of the commands that only read or that write rows no session holds), \<open>scrim_ext\<close> (what the
  waiting task sees after each wait), \<open>login_ext\<close> (authentication, hardware matches, rows of the
  database, geolocation, the new token, the settings), \<open>env\<close> (names and ids of the domain),
  \<open>sub_env\<close> (authentication, MD5, the clock, the performance calculator, the conditions of the
  achievements, which are text in the database), \<open>up_env\<close> (the \<^verbatim>\<open>zipfile\<close> module, the star rating,
  the hashes, the conversions of a column), \<open>history_env\<close>, \<open>clan_env\<close>, \<open>pool_env\<close> and \<open>board_env\<close> (the clock of the database,
  the accuracy column, \<^verbatim>\<open>str.upper\<close> and \<^verbatim>\<open>str.lower\<close>, the comparison of text columns, the
  order of rows that a statement leaves open, the decimal as which a single-precision column is read, a date in seconds, \<^verbatim>\<open>unquote_plus\<close>, the beatmap
  fetcher and the cached beatmap sets). \<open>se_fault\<close>,
  \<open>ue_fault\<close> and \<open>faults\<close> are schedules that say
  at which awaited step something fails, is cancelled or the process dies; the properties hold for all of
  them. The lemmas that speak of the handlers with any commands have the hypothesis \<open>ext_ok\<close>, that a
  command keeps the invariant of the sessions; \<open>with_commands_ok\<close> discharges it for the commands modelled.

  \<^bold>\<open>Bounds and fuel.\<close> The loop of a request takes the length of the body as fuel and never
  runs out, since each packet has a header of seven bytes (\<open>request_loop_ends\<close>). Leaving all
  channels at a logout takes as fuel the number of the player's channels: a round that does anything
  removes one, and one that does nothing would repeat for ever (\<open>Hang\<close>).
  Every other loop is a structural recursion, over bytes, lines or rows.

  \<^bold>\<open>Limits.\<close> A request is one step: the interleaving of two requests at an \<^verbatim>\<open>await\<close> is modelled
  only where the code schedules a task (the durable ids of a match, the timers of a start, the score of a
  scrim) or where a failure strikes
  between two awaits. A transaction whose commit succeeds but is not
  acknowledged is not modelled; a transaction that is rolled back gives its ids back, which the database
  would skip. \<^verbatim>\<open>int()\<close> of more than 4300 digits raises in Python and
  converts here; the order that a sort gives to NaN is left as the insertion order.

  \<^bold>\<open>Not modelled.\<close> The commands \<^verbatim>\<open>!reload\<close> and \<^verbatim>\<open>!py\<close>, which replace or run code, \<^verbatim>\<open>app/services/anticheat\<close>, the histories of spectators, the beatmap cache of
  \<^verbatim>\<open>app/objects/beatmap.py\<close> and its updates from the osu! API, and the HTTP plumbing under
  \<^verbatim>\<open>app/api\<close> (queries and formatting), ranks in redis, migrations, logging and metrics.
\<close>

end
